(* ===== verification/Prelude.thy ===== *)
theory Prelude
  imports Main "HOL-Library.Word" "HOL-Library.State_Monad"
begin

text \<open>
  What every component of the px4\_drv model shares: the C integer types as words of their
  width, the error codes of the Linux kernel as the negative return values the driver uses,
  big-endian composition of bytes, and the generic lemmas on lists and words that carry the
  component proofs. Stateful code is written in the state monad of the library
  (\<open>('s, 'a) state\<close>), so a definition reads like the C function it models: a call, a test of
  its return value, an early return.
\<close>

unbundle bit_operations_syntax

section \<open>Collections\<close>

text \<open>
  \<open>c_model\<close> collects the definitions a proof unfolds to see the body of an operation,
  \<open>run_simps\<close> the equations that execute the state monad.
\<close>

named_theorems c_model
named_theorems run_simps

section \<open>C integers\<close>

type_synonym u8 = "8 word"
type_synonym u16 = "16 word"
type_synonym u32 = "32 word"
type_synonym u64 = "64 word"

text \<open>\<open>(hi << 8) | lo\<close> on two bytes, kept in 16 bits.\<close>

definition be16 :: "u8 \<Rightarrow> u8 \<Rightarrow> u16" where
  "be16 hi lo = push_bit 8 (ucast hi) OR ucast lo"

text \<open>\<open>(a << 24) | (b << 16) | (c << 8) | d\<close>, kept in 32 bits.\<close>

definition be32 :: "u8 \<Rightarrow> u8 \<Rightarrow> u8 \<Rightarrow> u8 \<Rightarrow> u32" where
  "be32 a b c d =
     push_bit 24 (ucast a) OR push_bit 16 (ucast b) OR push_bit 8 (ucast c) OR ucast d"

text \<open>The two bytes of a 16-bit value: \<open>(x >> 8) & 0xff\<close> and \<open>x & 0xff\<close>.\<close>

definition hi8 :: "u16 \<Rightarrow> u8" where
  "hi8 x = ucast (drop_bit 8 x)"

definition lo8 :: "u16 \<Rightarrow> u8" where
  "lo8 x = ucast x"

section \<open>Error codes\<close>

text \<open>The errno values of Linux; a C function returns 0 or one of them negated.\<close>

abbreviation (input) ENOENT :: int where "ENOENT \<equiv> 2"
abbreviation (input) EINTR :: int where "EINTR \<equiv> 4"
abbreviation (input) EIO :: int where "EIO \<equiv> 5"
abbreviation (input) EAGAIN :: int where "EAGAIN \<equiv> 11"
abbreviation (input) ENOMEM :: int where "ENOMEM \<equiv> 12"
abbreviation (input) EFAULT :: int where "EFAULT \<equiv> 14"
abbreviation (input) EBUSY :: int where "EBUSY \<equiv> 16"
abbreviation (input) ENODEV :: int where "ENODEV \<equiv> 19"
abbreviation (input) EINVAL :: int where "EINVAL \<equiv> 22"
abbreviation (input) ENOTTY :: int where "ENOTTY \<equiv> 25"
abbreviation (input) ENOSPC :: int where "ENOSPC \<equiv> 28"
abbreviation (input) ENOSYS :: int where "ENOSYS \<equiv> 38"
abbreviation (input) ENODATA :: int where "ENODATA \<equiv> 61"
abbreviation (input) EBADMSG :: int where "EBADMSG \<equiv> 74"
abbreviation (input) EOVERFLOW :: int where "EOVERFLOW \<equiv> 75"
abbreviation (input) EOPNOTSUPP :: int where "EOPNOTSUPP \<equiv> 95"
abbreviation (input) EHOSTDOWN :: int where "EHOSTDOWN \<equiv> 112"
abbreviation (input) EALREADY :: int where "EALREADY \<equiv> 114"
abbreviation (input) ECANCELED :: int where "ECANCELED \<equiv> 125"
abbreviation (input) ERESTARTSYS :: int where "ERESTARTSYS \<equiv> 512"

section \<open>Running the state monad\<close>

lemmas run_state_simps [run_simps] =
  run_state_return run_state_bind run_state_get run_state_set

section \<open>Words\<close>

lemma bit_be16 [simp]:
  "bit (be16 h l) n \<longleftrightarrow> (if n < 8 then bit l n else n < 16 \<and> bit h (n - 8))"
  by (auto simp: be16_def bit_simps dest: bit_imp_le_length)

lemma hi8_be16 [simp]: "hi8 (be16 h l) = h"
  by (rule bit_word_eqI) (auto simp: hi8_def bit_simps)

lemma lo8_be16 [simp]: "lo8 (be16 h l) = l"
  by (rule bit_word_eqI) (auto simp: lo8_def bit_simps)

lemma be16_split [simp]: "be16 (hi8 x) (lo8 x) = x"
  by (rule bit_word_eqI) (auto simp: hi8_def lo8_def bit_simps)

lemma be16_inject [simp]: "be16 a b = be16 c d \<longleftrightarrow> a = c \<and> b = d"
  by (metis hi8_be16 lo8_be16)

lemma word_xor_cancel: "a XOR k = b XOR k \<longleftrightarrow> a = (b :: 'a::len word)"
proof
  assume "a XOR k = b XOR k"
  then have "(a XOR k) XOR k = (b XOR k) XOR k" by simp
  then show "a = b" by (simp add: xor.assoc)
qed simp

lemma word_xor_cancel_left: "k XOR a = k XOR b \<longleftrightarrow> a = (b :: 'a::len word)"
  using word_xor_cancel [of a k b] by (simp add: xor.commute)

lemma bit_push_bit_1_0: "\<not> bit (push_bit 1 c) 0"
  by (simp only: bit_push_bit_iff) simp

lemma bit_push_bit_1_Suc: "bit (push_bit 1 (c :: 'a::len word)) (Suc n) \<longleftrightarrow> Suc n < LENGTH('a) \<and> bit c n"
  by (simp only: bit_push_bit_iff possible_bit_word) simp

section \<open>Byte arrays\<close>

text \<open>\<open>memcpy(b + off, d, length d)\<close> on an array given as the list of its bytes.\<close>

definition blit :: "'a list \<Rightarrow> nat \<Rightarrow> 'a list \<Rightarrow> 'a list" where
  "blit b off d = take off b @ d @ drop (off + length d) b"

lemma length_blit [simp]: "off + length d \<le> length b \<Longrightarrow> length (blit b off d) = length b"
  by (simp add: blit_def)

lemma nth_blit:
  "off + length d \<le> length b \<Longrightarrow> i < length b \<Longrightarrow>
     blit b off d ! i = (if off \<le> i \<and> i < off + length d then d ! (i - off) else b ! i)"
  by (auto simp: blit_def nth_append not_less less_diff_conv2)

lemma blit_Nil [simp]: "blit b off [] = b"
  by (simp add: blit_def)

lemma take_blit: "off + length d \<le> n \<Longrightarrow> take n (blit b off d) = blit (take n b) off d"
  by (cases "n = off") (auto simp: blit_def drop_take min_def)

lemma mod_less_double: "(x :: nat) < 2 * n \<Longrightarrow> x mod n = (if x < n then x else x - n)"
  by (simp add: mod_if)

text \<open>Subtraction of \<^verbatim>\<open>size_t\<close> values, which wraps below zero.\<close>

definition size_sub :: "nat \<Rightarrow> nat \<Rightarrow> nat" where
  "size_sub a b = (if b \<le> a then a - b else a + 18446744073709551616 - b)"

lemma size_sub_ge: "b \<le> a \<Longrightarrow> size_sub a b = a - b"
  by (simp add: size_sub_def)

lemma size_sub_wraps: "a < b \<Longrightarrow> b \<le> 4294967296 \<Longrightarrow> 4294967296 < size_sub a b"
  by (simp add: size_sub_def)

end
