(* ===== verification/Tsmf.thy ===== *)
theory Tsmf
  imports Prelude
begin

text \<open>
  The TSMF stream selector of driver/tsmf.c: one carrier multiplexes several transport
  streams; a header packet is followed by 52 packets whose slots name the stream each belongs
  to, and the filter outputs the packets of one stream.

  The arrays of \<^verbatim>\<open>struct tsmf_filter\<close> are lists of the bytes in use: \<open>frame\<close> holds the
  packets copied so far (\<^verbatim>\<open>frame_size\<close> is 188 times its length, since only whole packets
  are copied), \<open>tlv_buf\<close> the first \<^verbatim>\<open>tlv_size\<close> bytes. The capacities of the C arrays are
  therefore theorems here, not types: \<open>tsmf_wf\<close> bounds every list by its array.
  \<^verbatim>\<open>tsmf_filter_packet\<close> returns the bytes it would place behind \<^verbatim>\<open>*out\<close>; the empty list is
  the return value 0.
\<close>

section \<open>Data\<close>

type_synonym packet = "u8 list"

abbreviation (input) TSMF_SLOT_NUM :: nat where "TSMF_SLOT_NUM \<equiv> 52"
abbreviation (input) TSMF_TLV_MAX_SIZE :: nat where "TSMF_TLV_MAX_SIZE \<equiv> 65536"
abbreviation (input) TSMF_DETECT_PACKETS :: nat where "TSMF_DETECT_PACKETS \<equiv> 424"

datatype tsmf_filter_state = TSMF_FILTER_SEARCHING | TSMF_FILTER_FOUND | TSMF_FILTER_NOT_FOUND

record tsmf_filter =
  stream_index :: int
  discard_null_packets :: bool
  stale_packets :: nat
  skip_packets :: nat
  passthrough :: bool
  header_found :: bool
  not_found :: bool
  detect_packets :: nat
  output_tlv :: bool
  tlv_rejected :: bool
  relative :: int
  stream :: int
  slot :: int
  slot_stream :: "u8 list"
  frame :: "packet list"
  tlv_buf :: "u8 list"

section \<open>Operations\<close>

definition tsmf_stream_flag :: "u8 list \<Rightarrow> nat \<Rightarrow> bool" where
  "tsmf_stream_flag flags s \<longleftrightarrow> (flags ! (s div 8)) AND drop_bit (s mod 8) 0x80 \<noteq> 0"

definition tsmf_crc_bit :: "u32 \<Rightarrow> u32" where
  "tsmf_crc_bit crc =
     (if crc AND 0x80000000 \<noteq> 0 then push_bit 1 crc XOR 0x04c11db7 else push_bit 1 crc)"

definition tsmf_crc_byte :: "u8 \<Rightarrow> u32 \<Rightarrow> u32" where
  "tsmf_crc_byte b crc = (tsmf_crc_bit ^^ 8) (crc XOR push_bit 24 (ucast b))"

definition tsmf_crc :: "u8 list \<Rightarrow> u32" where
  "tsmf_crc bs = fold tsmf_crc_byte bs 0xffffffff"

definition tsmf_is_header :: "packet \<Rightarrow> bool" where
  "tsmf_is_header p =
     (let frame_sync = be16 (p ! 4) (p ! 5) AND 0x1fff;
          frame_type = p ! 6 AND 0x0f
      in if p ! 1 \<noteq> 0x00 \<or> p ! 2 \<noteq> 0x2f \<or> p ! 3 AND 0xf0 \<noteq> 0x10 \<or>
            (frame_sync \<noteq> 0x1a86 \<and> frame_sync \<noteq> 0x0579) \<or> p ! 6 AND 0x10 \<noteq> 0 \<or>
            (frame_type \<noteq> 0x01 \<and> frame_type \<noteq> 0x02)
         then False
         else tsmf_crc (drop 4 p) = 0)"

text \<open>
  The search loop of \<^verbatim>\<open>tsmf_parse_header\<close>: the first set flag whose rank \<open>n\<close> (counted over
  the set flags) is the requested index.
\<close>

fun tsmf_find_relative :: "u8 list \<Rightarrow> int \<Rightarrow> nat list \<Rightarrow> int \<Rightarrow> int" where
  "tsmf_find_relative flags idx [] n = -1"
| "tsmf_find_relative flags idx (i # is) n =
     (if tsmf_stream_flag flags i
      then (if n = idx then int i else tsmf_find_relative flags idx is (n + 1))
      else tsmf_find_relative flags idx is n)"

definition tsmf_slot_of :: "packet \<Rightarrow> nat \<Rightarrow> u8" where
  "tsmf_slot_of p i =
     (if odd i then p ! (73 + i div 2) AND 0x0f else drop_bit 4 (p ! (73 + i div 2)))"

definition tsmf_parse_header :: "tsmf_filter \<Rightarrow> packet \<Rightarrow> tsmf_filter" where
  "tsmf_parse_header f p =
     (let rel = (if relative f < 0
                 then tsmf_find_relative (drop 7 p) (stream_index f) [0..<15] 0
                 else relative f);
          found = (0 \<le> rel \<and> tsmf_stream_flag (drop 7 p) (nat rel));
          str = (if found then rel else -1);
          tlv = (found \<and> \<not> tsmf_stream_flag (drop 125 p) (nat rel) \<and> \<not> tlv_rejected f)
      in f\<lparr> relative := rel,
            tlv_buf := (if str \<noteq> stream f \<or> tlv \<noteq> output_tlv f then [] else tlv_buf f),
            slot_stream := map (tsmf_slot_of p) [0..<TSMF_SLOT_NUM],
            header_found := True,
            not_found := str < 0,
            stream := str,
            output_tlv := tlv,
            slot := 0,
            frame := [] \<rparr>)"

definition tsmf_append_tlv :: "tsmf_filter \<Rightarrow> u8 list \<Rightarrow> bool \<times> tsmf_filter" where
  "tsmf_append_tlv f d =
     (if length d > TSMF_TLV_MAX_SIZE - length (tlv_buf f) then (False, f\<lparr>tlv_buf := []\<rparr>)
      else (True, f\<lparr>tlv_buf := tlv_buf f @ d\<rparr>))"

definition ts_pid :: "packet \<Rightarrow> u16" where
  "ts_pid p = be16 (p ! 1 AND 0x1f) (p ! 2)"

definition tsmf_extract_tlv :: "packet \<Rightarrow> tsmf_filter \<times> u8 list \<Rightarrow> tsmf_filter \<times> u8 list" where
  "tsmf_extract_tlv p = (\<lambda>(f, out).
     if p ! 1 AND 0xa0 \<noteq> 0 \<or> ts_pid p \<noteq> 0x002d then
       (if p ! 1 AND 0x80 \<noteq> 0 then f\<lparr>tlv_buf := []\<rparr> else f, out)
     else if p ! 1 AND 0x40 = 0 then
       (if tlv_buf f \<noteq> [] then snd (tsmf_append_tlv f (take 185 (drop 3 p))) else f, out)
     else
       let start = unat (p ! 3) + 4 in
       if 188 \<le> start then (f\<lparr>tlv_buf := []\<rparr>, out)
       else
         let (ok, f1) = (if tlv_buf f \<noteq> [] then tsmf_append_tlv f (take (start - 4) (drop 4 p))
                         else (False, f));
             out1 = (if ok then out @ tlv_buf f1 else out);
             f2 = snd (tsmf_append_tlv (f1\<lparr>tlv_buf := []\<rparr>) (take (188 - start) (drop start p)))
         in (f2, out1))"

definition tsmf_not_tlv_packet :: "packet \<Rightarrow> bool" where
  "tsmf_not_tlv_packet p \<longleftrightarrow>
     p ! 1 AND 0x80 = 0 \<and> ts_pid p \<noteq> 0x002d \<and> ts_pid p \<noteq> 0x1fff"

definition tsmf_flush_frame :: "tsmf_filter \<Rightarrow> u8 list \<times> tsmf_filter" where
  "tsmf_flush_frame f =
     (let f1 = (if output_tlv f \<and> list_ex tsmf_not_tlv_packet (frame f)
                then f\<lparr>tlv_rejected := True, output_tlv := False, tlv_buf := []\<rparr> else f)
      in if \<not> output_tlv f1 then (concat (frame f1), f1)
         else let (f2, out) = fold tsmf_extract_tlv (frame f1) (f1, []) in (out, f2))"

definition tsmf_filter_init :: "tsmf_filter \<Rightarrow> int \<Rightarrow> bool \<Rightarrow> nat \<Rightarrow> tsmf_filter" where
  "tsmf_filter_init f idx disc stale =
     f\<lparr> stream_index := idx, discard_null_packets := disc, stale_packets := stale,
        skip_packets := stale, passthrough := False, header_found := False,
        not_found := False, detect_packets := 0, output_tlv := False, tlv_rejected := False,
        relative := -1, stream := -1, slot := -1, frame := [], tlv_buf := [] \<rparr>"

definition tsmf_is_null_packet :: "packet \<Rightarrow> bool" where
  "tsmf_is_null_packet p \<longleftrightarrow> ts_pid p = 0x1fff"

definition tsmf_passthrough_packet :: "tsmf_filter \<Rightarrow> packet \<Rightarrow> u8 list \<times> tsmf_filter" where
  "tsmf_passthrough_packet f p =
     (if discard_null_packets f \<and> tsmf_is_null_packet p then ([], f)
      else let fr = frame f @ [p] in
        if length fr < TSMF_SLOT_NUM then ([], f\<lparr>frame := fr\<rparr>)
        else (concat fr, f\<lparr>frame := []\<rparr>))"

text \<open>The count of packets without a header, and the decision it makes when it is full.\<close>

definition tsmf_detect :: "tsmf_filter \<Rightarrow> tsmf_filter" where
  "tsmf_detect f =
     (if \<not> header_found f \<and> detect_packets f < TSMF_DETECT_PACKETS then
        let f1 = f\<lparr>detect_packets := detect_packets f + 1\<rparr> in
        if detect_packets f1 = TSMF_DETECT_PACKETS then
          (if stream_index f1 = 0 then f1\<lparr>passthrough := True\<rparr> else f1\<lparr>not_found := True\<rparr>)
        else f1
      else f)"

definition tsmf_filter_packet :: "tsmf_filter \<Rightarrow> packet \<Rightarrow> u8 list \<times> tsmf_filter" where
  "tsmf_filter_packet f p =
     (if skip_packets f \<noteq> 0 then ([], f\<lparr>skip_packets := skip_packets f - 1\<rparr>)
      else if tsmf_is_header p then
        let f1 = (if passthrough f then f\<lparr>passthrough := False, frame := []\<rparr> else f);
            (out, f2) = (if slot f1 = int TSMF_SLOT_NUM then tsmf_flush_frame f1
                         else ([], f1\<lparr>tlv_buf := []\<rparr>))
        in (out, tsmf_parse_header f2 p)
      else
        let f1 = tsmf_detect f in
        if passthrough f1 then tsmf_passthrough_packet f1 p
        else if slot f1 < 0 then ([], f1)
        else if slot f1 \<ge> int TSMF_SLOT_NUM then
          let (out, f2) = (if ts_pid p = 0x002f then tsmf_flush_frame f1 else ([], f1))
          in (out, f2\<lparr>slot := -1, tlv_buf := []\<rparr>)
        else
          let s = slot_stream f1 ! nat (slot f1);
              f2 = f1\<lparr>slot := slot f1 + 1\<rparr>
          in if int (unat s) \<noteq> stream f2 + 1 \<or> stream f2 < 0 then ([], f2)
             else if discard_null_packets f2 \<and> tsmf_is_null_packet p then ([], f2)
             else ([], f2\<lparr>frame := frame f2 @ [p]\<rparr>))"

definition tsmf_filter_resync :: "tsmf_filter \<Rightarrow> tsmf_filter" where
  "tsmf_filter_resync f = f\<lparr>slot := -1, frame := [], tlv_buf := []\<rparr>"

definition tsmf_filter_get_state :: "tsmf_filter \<Rightarrow> tsmf_filter_state" where
  "tsmf_filter_get_state f =
     (if passthrough f \<or> 0 \<le> stream f then TSMF_FILTER_FOUND
      else if not_found f then TSMF_FILTER_NOT_FOUND
      else TSMF_FILTER_SEARCHING)"

text \<open>A run of packets through the filter: the outputs in order and the final state.\<close>

fun tsmf_run :: "tsmf_filter \<Rightarrow> packet list \<Rightarrow> u8 list \<times> tsmf_filter" where
  "tsmf_run f [] = ([], f)"
| "tsmf_run f (p # ps) =
     (let (o1, f1) = tsmf_filter_packet f p; (o2, f2) = tsmf_run f1 ps in (o1 @ o2, f2))"

section \<open>The invariant\<close>

text \<open>
  Every array access of tsmf.c is inside its array: the slot counter stays in its range, the
  frame never holds more packets than slots passed, and the TLV fragments stay below the
  capacity of \<^verbatim>\<open>tlv_buf\<close>. The remaining clauses tie the carrier decision together: nothing
  is passed through once a header was seen, and a selected stream is the remembered one.
\<close>

definition tsmf_wf :: "tsmf_filter \<Rightarrow> bool" where
  "tsmf_wf f \<longleftrightarrow>
     -1 \<le> slot f \<and> slot f \<le> int TSMF_SLOT_NUM \<and>
     (0 \<le> slot f \<longrightarrow> length (slot_stream f) = TSMF_SLOT_NUM \<and> int (length (frame f)) \<le> slot f) \<and>
     length (frame f) \<le> TSMF_SLOT_NUM \<and>
     (passthrough f \<longrightarrow> length (frame f) < TSMF_SLOT_NUM) \<and>
     (\<forall>p \<in> set (frame f). length p = 188) \<and>
     length (tlv_buf f) \<le> TSMF_TLV_MAX_SIZE \<and>
     -1 \<le> relative f \<and> relative f \<le> 14 \<and>
     (stream f = -1 \<or> stream f = relative f) \<and>
     (header_found f \<longrightarrow> \<not> passthrough f) \<and>
     (\<not> header_found f \<longrightarrow> slot f = -1 \<and> relative f = -1 \<and> \<not> output_tlv f \<and>
        (passthrough f \<longleftrightarrow> detect_packets f = TSMF_DETECT_PACKETS \<and> stream_index f = 0) \<and>
        (\<not> passthrough f \<longrightarrow> frame f = [])) \<and>
     detect_packets f \<le> TSMF_DETECT_PACKETS"

lemma tsmf_find_relative_range:
  "(\<forall>i \<in> set is. i < 15) \<Longrightarrow>
     -1 \<le> tsmf_find_relative fl idx is n \<and> tsmf_find_relative fl idx is n \<le> 14"
  by (induction fl idx "is" n rule: tsmf_find_relative.induct) (auto split: if_splits)

lemma tsmf_find_relative_bounds:
  "-1 \<le> tsmf_find_relative fl idx [0..<15] n" "tsmf_find_relative fl idx [0..<15] n \<le> 14"
  using tsmf_find_relative_range [of "[0..<15]" fl idx n] by auto

lemma tsmf_parse_header_wf:
  assumes "-1 \<le> relative f" "relative f \<le> 14" "length (tlv_buf f) \<le> TSMF_TLV_MAX_SIZE"
    "detect_packets f \<le> TSMF_DETECT_PACKETS" "\<not> passthrough f"
  shows "tsmf_wf (tsmf_parse_header f p)"
  using assms tsmf_find_relative_bounds [of "drop 7 p" "stream_index f" 0]
  by (simp add: tsmf_wf_def tsmf_parse_header_def Let_def)

text \<open>
  One packet adds at most 185 bytes to the finished TLV and the fragment together: this is
  what bounds \<^verbatim>\<open>tlv_out\<close>, into which all TLV finished by one frame are copied.
\<close>

lemma tsmf_extract_tlv_step:
  assumes "tsmf_extract_tlv p (f, out) = (f', out')" "length p = 188"
    "length (tlv_buf f) \<le> TSMF_TLV_MAX_SIZE"
  shows "f' = f\<lparr>tlv_buf := tlv_buf f'\<rparr>" "length (tlv_buf f') \<le> TSMF_TLV_MAX_SIZE"
    "length out' + length (tlv_buf f') \<le> length out + length (tlv_buf f) + 185"
  using assms
  by (auto simp: tsmf_extract_tlv_def tsmf_append_tlv_def Let_def split: if_splits)

lemma tsmf_extract_tlv_fold:
  assumes "fold tsmf_extract_tlv ps (f, out) = (f', out')" "\<forall>p \<in> set ps. length p = 188"
    "length (tlv_buf f) \<le> TSMF_TLV_MAX_SIZE"
  shows "f' = f\<lparr>tlv_buf := tlv_buf f'\<rparr> \<and> length (tlv_buf f') \<le> TSMF_TLV_MAX_SIZE \<and>
    length out' + length (tlv_buf f') \<le> length out + length (tlv_buf f) + 185 * length ps"
  using assms
proof (induction ps arbitrary: f out)
  case Nil
  then show ?case by simp
next
  case (Cons p ps)
  obtain f1 o1 where 1: "tsmf_extract_tlv p (f, out) = (f1, o1)" by fastforce
  note step = tsmf_extract_tlv_step [OF 1]
  have "f' = f1\<lparr>tlv_buf := tlv_buf f'\<rparr> \<and> length (tlv_buf f') \<le> TSMF_TLV_MAX_SIZE \<and>
    length out' + length (tlv_buf f') \<le> length o1 + length (tlv_buf f1) + 185 * length ps"
    using Cons.prems 1 step by (intro Cons.IH) auto
  moreover have "f1\<lparr>tlv_buf := x\<rparr> = f\<lparr>tlv_buf := x\<rparr>" for x
    by (subst step(1)) (use Cons.prems in simp_all)
  moreover have "length o1 + length (tlv_buf f1) \<le> length out + length (tlv_buf f) + 185"
    using Cons.prems step by simp
  ultimately show ?case by simp
qed

text \<open>\<open>sizeof(tlv_out)\<close> is \<open>65536 + 52 * 188\<close>, \<open>sizeof(frame)\<close> is \<open>52 * 188\<close>.\<close>

lemma length_concat_packets:
  "(\<forall>p \<in> set ps. length p = 188) \<Longrightarrow> length (concat ps) = 188 * length ps"
  by (induction ps) auto

lemma tsmf_flush_frame_facts:
  assumes "tsmf_flush_frame f = (out, f')" "\<forall>p \<in> set (frame f). length p = 188"
    "length (frame f) \<le> TSMF_SLOT_NUM" "length (tlv_buf f) \<le> TSMF_TLV_MAX_SIZE"
  shows "\<exists>r ov t. f' = f\<lparr>tlv_rejected := r, output_tlv := ov, tlv_buf := t\<rparr>"
    "length (tlv_buf f') \<le> TSMF_TLV_MAX_SIZE"
    "length out \<le> TSMF_TLV_MAX_SIZE + TSMF_SLOT_NUM * 188"
    "\<not> output_tlv f' \<Longrightarrow> out = concat (frame f)"
    "output_tlv f' \<Longrightarrow> output_tlv f"
proof -
  let ?f1 = "if output_tlv f \<and> list_ex tsmf_not_tlv_packet (frame f)
    then f\<lparr>tlv_rejected := True, output_tlv := False, tlv_buf := []\<rparr> else f"
  obtain f2 o2 where fold: "fold tsmf_extract_tlv (frame f) (?f1, []) = (f2, o2)" by fastforce
  have len: "length (tlv_buf ?f1) \<le> TSMF_TLV_MAX_SIZE" using assms(4) by simp
  note F = tsmf_extract_tlv_fold [OF fold assms(2) len]
  have res: "(out, f') = (if output_tlv ?f1 then (o2, f2) else (concat (frame f), ?f1))"
    using assms(1) fold by (auto simp: tsmf_flush_frame_def Let_def split: if_splits)
  obtain t where f2: "f2 = ?f1\<lparr>tlv_buf := t\<rparr>" using F by blast
  show "\<exists>r ov t. f' = f\<lparr>tlv_rejected := r, output_tlv := ov, tlv_buf := t\<rparr>"
  proof (cases "output_tlv ?f1")
    case True
    then have "f' = f\<lparr>tlv_rejected := tlv_rejected f, output_tlv := output_tlv f, tlv_buf := t\<rparr>"
      using res f2 by (simp split: if_splits)
    then show ?thesis by blast
  next
    case False
    then have "f' = f\<lparr>tlv_rejected := tlv_rejected f', output_tlv := output_tlv f', tlv_buf := tlv_buf f'\<rparr>"
      using res by (simp split: if_splits)
    then show ?thesis by blast
  qed
  show "length (tlv_buf f') \<le> TSMF_TLV_MAX_SIZE" using res F len by (auto split: if_splits)
  show "length out \<le> TSMF_TLV_MAX_SIZE + TSMF_SLOT_NUM * 188"
    using res F len assms(3) length_concat_packets [OF assms(2)] by (auto split: if_splits)
  show "out = concat (frame f)" if "\<not> output_tlv f'" using res f2 that by (auto split: if_splits)
  show "output_tlv f" if "output_tlv f'" using res f2 that by (auto split: if_splits)
qed

lemma tsmf_init_wf: "tsmf_wf (tsmf_filter_init f idx disc stale)"
  by (simp add: tsmf_wf_def tsmf_filter_init_def)

lemma tsmf_resync_wf: "tsmf_wf f \<Longrightarrow> tsmf_wf (tsmf_filter_resync f)"
  by (simp add: tsmf_wf_def tsmf_filter_resync_def)

lemma tsmf_detect_wf: "tsmf_wf f \<Longrightarrow> tsmf_wf (tsmf_detect f)"
  by (auto simp: tsmf_wf_def tsmf_detect_def Let_def)

lemma tsmf_passthrough_wf:
  "tsmf_wf f \<Longrightarrow> passthrough f \<Longrightarrow> length p = 188 \<Longrightarrow>
     tsmf_wf (snd (tsmf_passthrough_packet f p)) \<and>
     length (fst (tsmf_passthrough_packet f p)) \<le> TSMF_SLOT_NUM * 188"
  by (auto simp: tsmf_wf_def tsmf_passthrough_packet_def Let_def length_concat_packets)

text \<open>The filter keeps the buffered frame and the TLV fragment apart from a selected slot.\<close>

lemma tsmf_flush_wf:
  assumes "tsmf_wf f" "tsmf_flush_frame f = (out, f')" "0 \<le> slot f"
  shows "tsmf_wf f'" "slot f' = slot f" "relative f' = relative f" "stream f' = stream f"
    "passthrough f' = passthrough f" "header_found f' = header_found f"
    "detect_packets f' = detect_packets f" "skip_packets f' = skip_packets f"
    "stream_index f' = stream_index f"
    "length out \<le> TSMF_TLV_MAX_SIZE + TSMF_SLOT_NUM * 188"
proof -
  have "\<forall>p \<in> set (frame f). length p = 188" "length (frame f) \<le> TSMF_SLOT_NUM"
    "length (tlv_buf f) \<le> TSMF_TLV_MAX_SIZE" "header_found f"
    using assms(1,3) by (auto simp: tsmf_wf_def)
  note F = tsmf_flush_frame_facts [OF assms(2) this(1-3)] and hf = this(4)
  obtain r ov t where f': "f' = f\<lparr>tlv_rejected := r, output_tlv := ov, tlv_buf := t\<rparr>"
    using F(1) by blast
  then have "length t \<le> TSMF_TLV_MAX_SIZE" using F(2) by simp
  then show "tsmf_wf f'" using assms(1) hf by (simp add: tsmf_wf_def f')
  show "slot f' = slot f" "relative f' = relative f" "stream f' = stream f"
    "passthrough f' = passthrough f" "header_found f' = header_found f"
    "detect_packets f' = detect_packets f" "skip_packets f' = skip_packets f"
    "stream_index f' = stream_index f" by (simp_all add: f')
  show "length out \<le> TSMF_TLV_MAX_SIZE + TSMF_SLOT_NUM * 188" by (rule F(3))
qed

lemma tsmf_wf_parts:
  assumes "tsmf_wf f"
  shows "-1 \<le> relative f" "relative f \<le> 14" "length (tlv_buf f) \<le> TSMF_TLV_MAX_SIZE"
    "detect_packets f \<le> TSMF_DETECT_PACKETS" "0 \<le> slot f \<Longrightarrow> \<not> passthrough f"
    "0 \<le> slot f \<Longrightarrow> header_found f"
  using assms by (auto simp: tsmf_wf_def)

lemma tsmf_header_step:
  assumes "tsmf_wf f" "skip_packets f = 0" "tsmf_is_header p"
    "tsmf_filter_packet f p = (out, f')"
  shows "\<exists>f2. f' = tsmf_parse_header f2 p \<and> tsmf_wf f' \<and> relative f2 = relative f \<and>
    stream_index f2 = stream_index f \<and> discard_null_packets f2 = discard_null_packets f \<and>
    skip_packets f2 = 0 \<and> length out \<le> TSMF_TLV_MAX_SIZE + TSMF_SLOT_NUM * 188 \<and>
    (slot f \<noteq> int TSMF_SLOT_NUM \<longrightarrow> out = []) \<and>
    (slot f = int TSMF_SLOT_NUM \<longrightarrow> out = fst (tsmf_flush_frame f))"
proof (cases "slot f = int TSMF_SLOT_NUM")
  case True
  have np: "\<not> passthrough f" using tsmf_wf_parts(5) [OF assms(1)] True by simp
  obtain o2 f2 where fl: "tsmf_flush_frame f = (o2, f2)" by fastforce
  have "0 \<le> slot f" using True by simp
  note F = tsmf_flush_wf [OF assms(1) fl this]
  have eq: "out = o2" "f' = tsmf_parse_header f2 p"
    using assms(2-4) True np fl by (auto simp: tsmf_filter_packet_def)
  have "tsmf_wf f'" unfolding eq
    by (rule tsmf_parse_header_wf) (use F np tsmf_wf_parts [OF F(1)] in simp_all)
  moreover have "discard_null_packets f2 = discard_null_packets f"
    using tsmf_flush_frame_facts(1) [OF fl] assms(1) by (auto simp: tsmf_wf_def)
  ultimately show ?thesis using F assms(2) eq True fl by (intro exI [of _ f2]) simp
next
  case False
  let ?f2 = "(if passthrough f then f\<lparr>passthrough := False, frame := []\<rparr> else f)\<lparr>tlv_buf := []\<rparr>"
  have eq: "out = []" "f' = tsmf_parse_header ?f2 p"
    using assms(2-4) False by (auto simp: tsmf_filter_packet_def split: if_splits)
  have "tsmf_wf f'" unfolding eq
    by (rule tsmf_parse_header_wf) (use tsmf_wf_parts [OF assms(1)] in auto)
  then show ?thesis using assms(2) eq False by (intro exI [of _ ?f2]) simp
qed

text \<open>A packet that is no header, while the frame is being filled.\<close>

lemma tsmf_slot_step:
  assumes "tsmf_wf f" "skip_packets f = 0" "\<not> tsmf_is_header p" "slot f = int k" "k < TSMF_SLOT_NUM"
  shows "tsmf_filter_packet f p =
    ([], f\<lparr>slot := int (Suc k),
           frame := frame f @ (if int (unat (slot_stream f ! k)) = stream f + 1 \<and> 0 \<le> stream f \<and>
             \<not> (discard_null_packets f \<and> tsmf_is_null_packet p) then [p] else [])\<rparr>)"
  using assms tsmf_wf_parts(5,6) [OF assms(1)]
  by (auto simp: tsmf_filter_packet_def tsmf_detect_def Let_def)

lemma tsmf_wf_skip [simp]: "tsmf_wf (f\<lparr>skip_packets := n\<rparr>) = tsmf_wf f"
  by (simp add: tsmf_wf_def)

lemma tsmf_wf_drop:
  assumes "tsmf_wf f" "header_found f"
  shows "tsmf_wf (f\<lparr>slot := -1, tlv_buf := []\<rparr>)"
  using assms unfolding tsmf_wf_def by simp

lemma tsmf_wf_fill:
  assumes "tsmf_wf f" "slot f = int k" "k < TSMF_SLOT_NUM" "length p = 188"
  shows "tsmf_wf (f\<lparr>slot := int (Suc k), frame := frame f @ (if b then [p] else [])\<rparr>)"
  using assms unfolding tsmf_wf_def by auto

lemma tsmf_lost_step:
  assumes "tsmf_wf f" "skip_packets f = 0" "\<not> tsmf_is_header p" "slot f = int TSMF_SLOT_NUM"
    "tsmf_filter_packet f p = (out, f')"
  shows "tsmf_wf f'" "slot f' = -1" "relative f' = relative f" "stream f' = stream f"
    "header_found f'" "skip_packets f' = 0"
    "length out \<le> TSMF_TLV_MAX_SIZE + TSMF_SLOT_NUM * 188"
    "out = (if ts_pid p = 0x002f then fst (tsmf_flush_frame f) else [])"
proof -
  have np: "\<not> passthrough f" "header_found f" "0 \<le> slot f"
    using tsmf_wf_parts(5,6) [OF assms(1)] assms(4) by auto
  obtain o2 f2 where fl: "(if ts_pid p = 0x002f then tsmf_flush_frame f else ([], f)) = (o2, f2)"
    by fastforce
  have f2: "tsmf_wf f2 \<and> slot f2 = slot f \<and> relative f2 = relative f \<and> stream f2 = stream f \<and>
    header_found f2 = header_found f \<and> skip_packets f2 = skip_packets f \<and>
    length o2 \<le> TSMF_TLV_MAX_SIZE + TSMF_SLOT_NUM * 188"
  proof (cases "ts_pid p = 0x002f")
    case True
    then have "tsmf_flush_frame f = (o2, f2)" using fl by simp
    from tsmf_flush_wf [OF assms(1) this np(3)] show ?thesis by simp
  next
    case False
    then show ?thesis using fl assms(1) by simp
  qed
  have eq: "out = o2" "f' = f2\<lparr>slot := -1, tlv_buf := []\<rparr>"
    using assms(2-5) np fl by (auto simp: tsmf_filter_packet_def tsmf_detect_def Let_def)
  show "tsmf_wf f'" using f2 np(2) by (simp add: eq tsmf_wf_drop)
  show "slot f' = -1" "relative f' = relative f" "stream f' = stream f" "header_found f'"
    "skip_packets f' = 0" "length out \<le> TSMF_TLV_MAX_SIZE + TSMF_SLOT_NUM * 188"
    using f2 np assms(2) by (simp_all add: eq)
  show "out = (if ts_pid p = 0x002f then fst (tsmf_flush_frame f) else [])"
    using fl eq by (auto split: if_splits)
qed

lemma tsmf_idle_step:
  assumes "tsmf_wf f" "skip_packets f = 0" "\<not> tsmf_is_header p" "slot f < 0"
  shows "tsmf_filter_packet f p =
    (if passthrough (tsmf_detect f) then tsmf_passthrough_packet (tsmf_detect f) p
     else ([], tsmf_detect f))"
  using assms by (simp add: tsmf_filter_packet_def tsmf_detect_def Let_def)

text \<open>The four kinds of packet, as a case rule over the state before it.\<close>

lemma tsmf_packet_cases [consumes 1, case_names skip header slot lost idle]:
  assumes "tsmf_wf f"
  obtains "skip_packets f \<noteq> 0"
  | "skip_packets f = 0" "tsmf_is_header p"
  | k where "skip_packets f = 0" "\<not> tsmf_is_header p" "slot f = int k" "k < TSMF_SLOT_NUM"
  | "skip_packets f = 0" "\<not> tsmf_is_header p" "slot f = int TSMF_SLOT_NUM"
  | "skip_packets f = 0" "\<not> tsmf_is_header p" "slot f < 0"
proof -
  have "slot f < 0 \<or> slot f = int TSMF_SLOT_NUM \<or> (\<exists>k < TSMF_SLOT_NUM. slot f = int k)"
    using assms by (auto simp: tsmf_wf_def intro: exI [of _ "nat (slot f)"])
  then show thesis using that by blast
qed

lemma tsmf_filter_packet_step:
  assumes "tsmf_wf f" "length p = 188" "tsmf_filter_packet f p = (out, f')"
  shows "tsmf_wf f' \<and> length out \<le> TSMF_TLV_MAX_SIZE + TSMF_SLOT_NUM * 188 \<and>
    (0 \<le> relative f \<longrightarrow> relative f' = relative f) \<and> (header_found f \<longrightarrow> header_found f')"
  using assms(1)
proof (cases rule: tsmf_packet_cases [where p = p])
  case skip
  then have "out = []" "f' = f\<lparr>skip_packets := skip_packets f - 1\<rparr>"
    using assms(3) by (simp_all add: tsmf_filter_packet_def)
  then show ?thesis using assms(1) by simp
next
  case header
  obtain f2 where "f' = tsmf_parse_header f2 p" "tsmf_wf f'" "relative f2 = relative f"
    "length out \<le> TSMF_TLV_MAX_SIZE + TSMF_SLOT_NUM * 188"
    using tsmf_header_step [OF assms(1) header assms(3)] by blast
  then show ?thesis by (simp add: tsmf_parse_header_def Let_def)
next
  case (slot k)
  let ?b = "int (unat (slot_stream f ! k)) = stream f + 1 \<and> 0 \<le> stream f \<and>
    \<not> (discard_null_packets f \<and> tsmf_is_null_packet p)"
  have "out = []" "f' = f\<lparr>slot := int (Suc k), frame := frame f @ (if ?b then [p] else [])\<rparr>"
    using tsmf_slot_step [OF assms(1) slot] assms(3) by simp_all
  then show ?thesis using tsmf_wf_fill [OF assms(1) slot(3,4) assms(2)] by simp
next
  case lost
  note L = tsmf_lost_step [OF assms(1) lost assms(3)]
  then show ?thesis by simp
next
  case idle
  have d: "tsmf_wf (tsmf_detect f)" "relative (tsmf_detect f) = relative f"
    "header_found (tsmf_detect f) = header_found f"
    using tsmf_detect_wf [OF assms(1)] by (auto simp: tsmf_detect_def Let_def)
  show ?thesis
  proof (cases "passthrough (tsmf_detect f)")
    case True
    then have "tsmf_passthrough_packet (tsmf_detect f) p = (out, f')"
      using tsmf_idle_step [OF assms(1) idle] assms(3) by simp
    then show ?thesis using tsmf_passthrough_wf [OF d(1) True assms(2)] d(2,3)
      by (auto simp: tsmf_passthrough_packet_def Let_def split: if_splits)
  next
    case False
    then show ?thesis using tsmf_idle_step [OF assms(1) idle] assms(3) d by simp
  qed
qed

lemma tsmf_run_append:
  "tsmf_run f (ps @ qs) =
     (let (o1, f1) = tsmf_run f ps; (o2, f2) = tsmf_run f1 qs in (o1 @ o2, f2))"
  by (induction ps arbitrary: f) (auto simp: Let_def split: prod.splits)

lemma tsmf_run_wf:
  assumes "tsmf_wf f" "\<forall>p \<in> set ps. length p = 188"
  shows "tsmf_wf (snd (tsmf_run f ps)) \<and>
    (0 \<le> relative f \<longrightarrow> relative (snd (tsmf_run f ps)) = relative f) \<and>
    (header_found f \<longrightarrow> header_found (snd (tsmf_run f ps)))"
  using assms
proof (induction ps arbitrary: f)
  case Nil
  then show ?case by simp
next
  case (Cons p ps)
  obtain o1 f1 where 1: "tsmf_filter_packet f p = (o1, f1)" by fastforce
  have "length p = 188" using Cons.prems by simp
  note S = tsmf_filter_packet_step [OF Cons.prems(1) this 1]
  then have "tsmf_wf f1" "\<forall>p \<in> set ps. length p = 188" using Cons.prems by auto
  from Cons.IH [OF this] S show ?case by (auto simp: 1 split: prod.splits)
qed

section \<open>Selecting a stream\<close>

text \<open>
  What a frame contributes: the packets whose slot names the selected stream (slots count
  from 1), without null packets where the user asked for that.
\<close>

definition tsmf_selected :: "int \<Rightarrow> bool \<Rightarrow> u8 list \<Rightarrow> packet list \<Rightarrow> packet list" where
  "tsmf_selected str disc slots ps =
     map snd (filter (\<lambda>(s, p). int (unat s) = str + 1 \<and> 0 \<le> str \<and>
                               \<not> (disc \<and> tsmf_is_null_packet p)) (zip slots ps))"

lemma tsmf_fill_frame:
  assumes "tsmf_wf f" "skip_packets f = 0" "slot f = int k" "k + length ps \<le> TSMF_SLOT_NUM"
    "\<forall>p \<in> set ps. length p = 188 \<and> \<not> tsmf_is_header p"
  shows "tsmf_run f ps = ([], f\<lparr>slot := int (k + length ps),
    frame := frame f @ tsmf_selected (stream f) (discard_null_packets f) (drop k (slot_stream f)) ps\<rparr>)"
  using assms
proof (induction ps arbitrary: f k)
  case Nil
  then show ?case by (simp add: tsmf_selected_def)
next
  case (Cons p ps)
  let ?b = "int (unat (slot_stream f ! k)) = stream f + 1 \<and> 0 \<le> stream f \<and>
    \<not> (discard_null_packets f \<and> tsmf_is_null_packet p)"
  let ?f1 = "f\<lparr>slot := int (Suc k), frame := frame f @ (if ?b then [p] else [])\<rparr>"
  have k: "k < TSMF_SLOT_NUM" "length p = 188" "\<not> tsmf_is_header p" using Cons.prems by auto
  note step = tsmf_slot_step [OF Cons.prems(1,2) k(3) Cons.prems(3) k(1)]
  have "k < length (slot_stream f)" using Cons.prems(1,3) k(1) by (simp add: tsmf_wf_def)
  then have d: "drop k (slot_stream f) = slot_stream f ! k # drop (Suc k) (slot_stream f)"
    by (rule Cons_nth_drop_Suc [symmetric])
  have "tsmf_run ?f1 ps = ([], ?f1\<lparr>slot := int (Suc k + length ps), frame := frame ?f1 @
      tsmf_selected (stream ?f1) (discard_null_packets ?f1) (drop (Suc k) (slot_stream ?f1)) ps\<rparr>)"
    using Cons.prems k tsmf_wf_fill [OF Cons.prems(1,3) k(1,2), of ?b]
    by (intro Cons.IH) auto
  then show ?case by (simp add: step d tsmf_selected_def)
qed

lemma tsmf_idle_run:
  assumes "tsmf_wf f" "skip_packets f = 0" "header_found f" "slot f = -1"
    "\<forall>p \<in> set ps. \<not> tsmf_is_header p"
  shows "tsmf_run f ps = ([], f)"
proof -
  have "\<not> passthrough f" using assms(1,3) by (simp add: tsmf_wf_def)
  then show ?thesis using assms
    by (induction ps) (auto simp: tsmf_idle_step tsmf_detect_def)
qed

lemma tsmf_run_incomplete:
  assumes "tsmf_wf f" "skip_packets f = 0" "slot f = int 0" "length ps \<noteq> 52"
    "\<forall>p \<in> set ps. length p = 188 \<and> \<not> tsmf_is_header p" "52 < length ps \<longrightarrow> ts_pid (ps ! 52) \<noteq> 0x002f"
  shows "\<exists>f'. tsmf_run f ps = ([], f') \<and> tsmf_wf f' \<and> skip_packets f' = 0 \<and> slot f' \<noteq> int 52"
proof -
  define a b where "a = take 52 ps" and "b = drop 52 ps"
  have ab: "ps = a @ b" and la: "0 + length a \<le> 52" and lb: "b \<noteq> [] \<longrightarrow> length a = 52"
    by (simp_all add: a_def b_def)
  then have a: "\<forall>p \<in> set a. length p = 188 \<and> \<not> tsmf_is_header p" using assms(5) by auto
  have ra: "tsmf_run f a = ([], f\<lparr>slot := int (length a), frame := frame f @
      tsmf_selected (stream f) (discard_null_packets f) (slot_stream f) a\<rparr>)" (is "_ = ([], ?f1)")
    using tsmf_fill_frame [OF assms(1-3) la a] by simp
  have "\<forall>p \<in> set a. length p = 188" using a by simp
  from tsmf_run_wf [OF assms(1) this] ra have w1: "tsmf_wf ?f1" by simp
  show ?thesis
  proof (cases b)
    case Nil
    then have "length a \<noteq> 52" using ab assms(4) by simp
    then show ?thesis using ab ra w1 assms(2) Nil by simp
  next
    case (Cons x r)
    then have "length a = 52" using lb by simp
    then have s1: "slot ?f1 = int 52" "skip_packets ?f1 = 0" using assms(2) by simp_all
    have "ps ! 52 = x" "52 < length ps"
      using ab Cons \<open>length a = 52\<close> by (simp_all add: nth_append)
    then have x: "\<not> tsmf_is_header x" "ts_pid x \<noteq> 0x002f" "\<forall>p \<in> set r. \<not> tsmf_is_header p"
      using assms(5,6) ab Cons by auto
    obtain ox f2 where st: "tsmf_filter_packet ?f1 x = (ox, f2)" by fastforce
    note L = tsmf_lost_step [OF w1 s1(2) x(1) s1(1) st]
    then have "tsmf_run f2 r = ([], f2)" "ox = []"
      using tsmf_idle_run [of f2 r] x by simp_all
    then have "tsmf_run f ps = ([], f2)"
      using ab ra st Cons by (simp add: tsmf_run_append)
    then show ?thesis using L by simp
  qed
qed

end
