(* ===== verification/Tsmf_Crc.thy ===== *)
theory Tsmf_Crc
  imports Tsmf
begin

text \<open>
  The CRC-32 of TSMF headers (the inner loops of \<^verbatim>\<open>tsmf_is_header\<close>): it is zero over data
  followed by its own CRC, and a change of a single byte always makes it non-zero. Both follow
  from two facts on one step: a zero top bit is only shifted out, and the step is injective.
\<close>

section \<open>One step of the CRC\<close>

lemma and_top_bit: "c AND 0x80000000 \<noteq> 0 \<longleftrightarrow> bit (c :: u32) 31"
proof -
  have "c AND 0x80000000 = (if bit c 31 then 0x80000000 else 0)"
  proof (rule bit_word_eqI)
    fix n assume "n < LENGTH(32)"
    have "(0x80000000 :: u32) = 2 ^ 31" by simp
    then have "bit (0x80000000 :: u32) n \<longleftrightarrow> n = 31"
      by (simp only: bit_exp_iff possible_bit_word) auto
    then show "bit (c AND 0x80000000) n = bit (if bit c 31 then 0x80000000 else 0 :: u32) n"
      by (auto simp: bit_simps)
  qed
  then show ?thesis by simp
qed

lemma tsmf_crc_bit_zero_top: "\<not> bit c 31 \<Longrightarrow> tsmf_crc_bit c = push_bit 1 c"
  using and_top_bit [of c] by (simp add: tsmf_crc_bit_def)

lemma tsmf_crc_bit_one_top: "bit c 31 \<Longrightarrow> tsmf_crc_bit c = push_bit 1 c XOR 0x04c11db7"
  using and_top_bit [of c] by (simp add: tsmf_crc_bit_def)

lemma tsmf_crc_bit_shift:
  assumes "\<forall>n \<ge> 24. \<not> bit c n" "k \<le> 8"
  shows "(tsmf_crc_bit ^^ k) c = push_bit k c"
  using assms(2)
proof (induction k)
  case 0
  then show ?case by simp
next
  case (Suc k)
  have "\<not> bit (push_bit k c) 31" using Suc.prems assms(1) by (simp add: bit_simps)
  then have "tsmf_crc_bit (push_bit k c) = push_bit (Suc k) c"
    by (simp add: tsmf_crc_bit_zero_top)
  then show ?case using Suc by simp
qed

text \<open>Consuming the CRC's own top byte shifts it out.\<close>

lemma tsmf_crc_byte_own: "tsmf_crc_byte (ucast (drop_bit 24 c)) c = push_bit 8 c"
proof -
  let ?x = "c XOR push_bit 24 (ucast (ucast (drop_bit 24 c) :: u8))"
  have x: "?x = take_bit 24 c"
    by (rule bit_word_eqI) (auto simp: bit_simps)
  have "\<forall>n \<ge> 24. \<not> bit ?x n" unfolding x by (simp add: bit_simps)
  then have "tsmf_crc_byte (ucast (drop_bit 24 c)) c = push_bit 8 ?x"
    unfolding tsmf_crc_byte_def by (rule tsmf_crc_bit_shift) simp
  also have "\<dots> = push_bit 8 c" unfolding x
    by (rule bit_word_eqI) (auto simp: bit_simps)
  finally show ?thesis .
qed

definition crc_bytes :: "u32 \<Rightarrow> u8 list" where
  "crc_bytes c = [ucast (drop_bit 24 c), ucast (drop_bit 16 c), ucast (drop_bit 8 c), ucast c]"

lemma tsmf_crc_own_bytes: "fold tsmf_crc_byte (crc_bytes c) c = 0"
proof -
  have b: "ucast (drop_bit (24 - k) c) = (ucast (drop_bit 24 (push_bit k c)) :: u8)"
    if "k \<le> 24" for k
    by (rule bit_word_eqI) (use that in \<open>auto simp: bit_simps\<close>)
  have s: "tsmf_crc_byte (ucast (drop_bit (24 - k) c)) (push_bit k c) = push_bit (k + 8) c"
    if "k \<le> 24" for k
    using tsmf_crc_byte_own [of "push_bit k c"] b [OF that] by (simp add: add.commute)
  have "fold tsmf_crc_byte (crc_bytes c) c = push_bit 32 c"
    using tsmf_crc_byte_own [of c] s [of 8] s [of 16] s [of 24] by (simp add: crc_bytes_def)
  also have "\<dots> = 0"
    by (rule bit_word_eqI) (simp add: bit_simps)
  finally show ?thesis .
qed

lemma tsmf_crc_append_own: "tsmf_crc (bs @ crc_bytes (tsmf_crc bs)) = 0"
  by (simp add: tsmf_crc_def tsmf_crc_own_bytes)

section \<open>Injectivity\<close>

lemma tsmf_crc_bit_low: "bit (tsmf_crc_bit c) 0 \<longleftrightarrow> bit c 31"
proof (cases "bit c 31")
  case True
  then show ?thesis using bit_push_bit_1_0
    by (simp only: tsmf_crc_bit_one_top bit_xor_iff) simp
next
  case False
  then show ?thesis
    using bit_push_bit_1_0 [of c] unfolding tsmf_crc_bit_zero_top [OF False] by blast
qed

lemma tsmf_crc_bit_inj: "tsmf_crc_bit a = tsmf_crc_bit b \<Longrightarrow> a = b"
proof -
  assume eq: "tsmf_crc_bit a = tsmf_crc_bit b"
  then have top: "bit a 31 = bit b 31" using tsmf_crc_bit_low by metis
  have "push_bit 1 a = push_bit 1 b"
  proof (cases "bit a 31")
    case True
    then show ?thesis
      using eq top by (simp only: tsmf_crc_bit_one_top word_xor_cancel)
  next
    case False
    then show ?thesis using eq top by (simp only: tsmf_crc_bit_zero_top not_False_eq_True)
  qed
  then have low: "bit a n = bit b n" if "n < 31" for n
    using bit_push_bit_1_Suc [of a n] bit_push_bit_1_Suc [of b n] that by simp
  show "a = b"
  proof (rule bit_word_eqI)
    fix n assume "n < LENGTH(32)"
    then show "bit a n = bit b n" using top low by (cases "n = 31") auto
  qed
qed

lemma tsmf_crc_bits_inj: "(tsmf_crc_bit ^^ k) a = (tsmf_crc_bit ^^ k) b \<Longrightarrow> a = b"
  by (induction k) (auto dest: tsmf_crc_bit_inj)

lemma tsmf_crc_byte_inj_crc: "tsmf_crc_byte x a = tsmf_crc_byte x b \<Longrightarrow> a = b"
  by (auto simp: tsmf_crc_byte_def word_xor_cancel dest!: tsmf_crc_bits_inj)

lemma tsmf_crc_byte_inj_byte: "tsmf_crc_byte x a = tsmf_crc_byte y a \<Longrightarrow> x = y"
proof -
  assume "tsmf_crc_byte x a = tsmf_crc_byte y a"
  then have eq: "push_bit 24 (ucast x) = (push_bit 24 (ucast y) :: u32)"
    by (auto simp: tsmf_crc_byte_def word_xor_cancel_left dest!: tsmf_crc_bits_inj)
  show "x = y"
  proof (rule bit_word_eqI)
    fix n assume "n < LENGTH(8)"
    then show "bit x n = bit y n"
      using arg_cong [OF eq, of "\<lambda>w. bit w (n + 24)"] by (simp add: bit_simps)
  qed
qed

lemma tsmf_crc_fold_inj: "fold tsmf_crc_byte bs a = fold tsmf_crc_byte bs b \<Longrightarrow> a = b"
  by (induction bs arbitrary: a b) (auto dest: tsmf_crc_byte_inj_crc)

lemma tsmf_crc_one_byte:
  assumes "i < length bs" "b \<noteq> bs ! i"
  shows "tsmf_crc (bs[i := b]) \<noteq> tsmf_crc bs"
proof
  assume eq: "tsmf_crc (bs[i := b]) = tsmf_crc bs"
  let ?c = "fold tsmf_crc_byte (take i bs) 0xffffffff"
  have u: "bs[i := b] = take i bs @ b # drop (Suc i) bs"
    by (rule upd_conv_take_nth_drop [OF assms(1)])
  have v: "bs = take i bs @ bs ! i # drop (Suc i) bs"
    by (rule id_take_nth_drop [OF assms(1)])
  have "tsmf_crc (bs[i := b]) = fold tsmf_crc_byte (drop (Suc i) bs) (tsmf_crc_byte b ?c)"
    unfolding u tsmf_crc_def by simp
  moreover have "tsmf_crc bs = fold tsmf_crc_byte (drop (Suc i) bs) (tsmf_crc_byte (bs ! i) ?c)"
    unfolding tsmf_crc_def by (subst v) simp
  ultimately have "tsmf_crc_byte b ?c = tsmf_crc_byte (bs ! i) ?c"
    using eq tsmf_crc_fold_inj by metis
  then show False using assms(2) by (auto dest: tsmf_crc_byte_inj_byte)
qed

section \<open>Headers\<close>

text \<open>A packet body of 184 bytes, closed with its CRC.\<close>

definition tsmf_seal :: "u8 list \<Rightarrow> packet" where
  "tsmf_seal p = p @ crc_bytes (tsmf_crc (drop 4 p))"

lemma tsmf_seal_length [simp]: "length (tsmf_seal p) = length p + 4"
  by (simp add: tsmf_seal_def crc_bytes_def)

lemma tsmf_seal_nth [simp]: "i < length p \<Longrightarrow> tsmf_seal p ! i = p ! i"
  by (simp add: tsmf_seal_def nth_append)

lemma tsmf_seal_crc: "4 \<le> length p \<Longrightarrow> tsmf_crc (drop 4 (tsmf_seal p)) = 0"
  by (simp add: tsmf_seal_def tsmf_crc_append_own)

definition tsmf_header_fields :: "packet \<Rightarrow> bool" where
  "tsmf_header_fields p \<longleftrightarrow>
     p ! 1 = 0x00 \<and> p ! 2 = 0x2f \<and> p ! 3 AND 0xf0 = 0x10 \<and>
     (be16 (p ! 4) (p ! 5) AND 0x1fff = 0x1a86 \<or> be16 (p ! 4) (p ! 5) AND 0x1fff = 0x0579) \<and>
     p ! 6 AND 0x10 = 0 \<and> (p ! 6 AND 0x0f = 0x01 \<or> p ! 6 AND 0x0f = 0x02)"

lemma tsmf_is_header_iff:
  "tsmf_is_header p \<longleftrightarrow> tsmf_header_fields p \<and> tsmf_crc (drop 4 p) = 0"
  by (auto simp: tsmf_is_header_def tsmf_header_fields_def Let_def)

lemma tsmf_seal_is_header:
  "length p = 184 \<Longrightarrow> tsmf_header_fields p \<Longrightarrow> tsmf_is_header (tsmf_seal p)"
  by (simp add: tsmf_is_header_iff tsmf_seal_crc tsmf_header_fields_def)

text \<open>
  A concrete header: relative streams 0 and 2 are valid, both MPEG-2 TS, the slots alternate
  between them (slot numbers 1 and 3).
\<close>

definition tsmf_example_body :: "u8 list" where
  "tsmf_example_body =
     [0x47, 0x00, 0x2f, 0x10, 0x1a, 0x86, 0x01, 0xa0, 0x00] @ replicate 64 0 @
     replicate 26 0x13 @ replicate 26 0 @ [0xff, 0xff] @ replicate 57 0"

definition tsmf_example_header :: packet where
  "tsmf_example_header = tsmf_seal tsmf_example_body"

lemma tsmf_example_body_length: "length tsmf_example_body = 184"
  by (simp add: tsmf_example_body_def)

lemma tsmf_example_is_header: "tsmf_is_header tsmf_example_header"
  unfolding tsmf_example_header_def
  by (rule tsmf_seal_is_header [OF tsmf_example_body_length])
     (simp add: tsmf_header_fields_def tsmf_example_body_def be16_def)

end
