(* ===== verification/Tsmf_Props.thy ===== *)
theory Tsmf_Props
  imports Tsmf_Crc
begin

text \<open>
  The properties of the TSMF selector: memory safety, selection by position, silence on
  incomplete frames, stability of the chosen stream, detection of carriers without TSMF, and
  reassembly of split TLV. The witnesses run the filter on a concrete header whose CRC is
  computed by the code's own CRC function.
\<close>

text \<open>C1: every packet the filter is given leaves it in a state in which all its arrays are
  within their capacities, and it never places more bytes behind \<^verbatim>\<open>*out\<close> than \<^verbatim>\<open>tlv_out\<close>
  can hold, whatever packets arrive and in whatever order.\<close>

theorem tsmf_filter_packet_safe:
  assumes "tsmf_wf f" "length p = 188" "tsmf_filter_packet f p = (out, f')"
  shows "tsmf_wf f' \<and> length out \<le> 65536 + 52 * 188"
  using tsmf_filter_packet_step [OF assms] by simp

definition tsmf_blank :: tsmf_filter where
  "tsmf_blank = \<lparr> stream_index = 0, discard_null_packets = False, stale_packets = 0,
     skip_packets = 0, passthrough = False, header_found = False, not_found = False,
     detect_packets = 0, output_tlv = False, tlv_rejected = False, relative = -1, stream = -1,
     slot = -1, slot_stream = [], frame = [], tlv_buf = [] \<rparr>"

lemma tsmf_blank_wf: "tsmf_wf tsmf_blank"
  by (simp add: tsmf_wf_def tsmf_blank_def)

lemma tsmf_zero_packet_step:
  "tsmf_filter_packet tsmf_blank (replicate 188 0) = ([], tsmf_blank\<lparr>detect_packets := 1\<rparr>)"
  by (simp add: tsmf_filter_packet_def tsmf_blank_def tsmf_is_header_def tsmf_detect_def be16_def)

theorem tsmf_filter_packet_safe_witness:
  "tsmf_wf (tsmf_blank\<lparr>detect_packets := 1\<rparr>) \<and> length ([] :: u8 list) \<le> 65536 + 52 * 188"
  by (rule tsmf_filter_packet_safe [OF tsmf_blank_wf _ tsmf_zero_packet_step]) simp

text \<open>C2: a complete frame selects by position. After a header \<open>h\<close>, 52 packets and the next
  header \<open>h'\<close>, a stream that is not a TLV stream is output as exactly the packets of the slots
  that name it, in order; the choice of the stream is the one \<open>h\<close> resolved.\<close>

theorem tsmf_complete_frame_selects:
  assumes "tsmf_wf f" "skip_packets f = 0" "tsmf_is_header h" "tsmf_is_header h'"
    "length ps = 52" "\<forall>p \<in> set ps. length p = 188 \<and> \<not> tsmf_is_header p"
    "tsmf_filter_packet f h = (o1, f1)" "\<not> output_tlv f1"
  shows "fst (tsmf_run f1 (ps @ [h'])) =
    concat (tsmf_selected (stream f1) (discard_null_packets f) (map (tsmf_slot_of h) [0..<52]) ps)"
proof -
  obtain f2 where f1: "f1 = tsmf_parse_header f2 h" "tsmf_wf f1"
    "discard_null_packets f2 = discard_null_packets f" "skip_packets f2 = 0"
    using tsmf_header_step [OF assms(1-3,7)] by blast
  have s1: "slot f1 = int 0" "skip_packets f1 = 0" "frame f1 = []"
    "slot_stream f1 = map (tsmf_slot_of h) [0..<52]"
    "discard_null_packets f1 = discard_null_packets f"
    using f1 by (simp_all add: tsmf_parse_header_def Let_def)
  let ?sel = "tsmf_selected (stream f1) (discard_null_packets f) (map (tsmf_slot_of h) [0..<52]) ps"
  let ?f3 = "f1\<lparr>slot := int 52, frame := ?sel\<rparr>"
  have run: "tsmf_run f1 ps = ([], ?f3)"
    using tsmf_fill_frame [OF f1(2) s1(2,1) _ assms(6)] assms(5) s1 by simp
  have "\<forall>p \<in> set ps. length p = 188" using assms(6) by simp
  from tsmf_run_wf [OF f1(2) this] run have "tsmf_wf ?f3" by simp
  obtain o4 f4 where last: "tsmf_filter_packet ?f3 h' = (o4, f4)" by fastforce
  have "o4 = fst (tsmf_flush_frame ?f3)"
    using tsmf_header_step [OF \<open>tsmf_wf ?f3\<close> _ assms(4) last] s1 by auto
  also have "\<dots> = concat ?sel" using assms(8) by (simp add: tsmf_flush_frame_def Let_def)
  finally show ?thesis using run last by (simp add: tsmf_run_append)
qed

text \<open>C3: once the stale packets after a retuning have been skipped, a frame from which packets were lost is never
  output. If the number of
  packets between two headers is not 52 and, where there are more, the one in the place of the next header does
  not carry the header's PID (the code takes such a packet for a damaged header), the filter outputs nothing for
  that frame, up to and including the next header.\<close>

theorem tsmf_incomplete_frame_silent:
  assumes "tsmf_wf f" "skip_packets f = 0" "tsmf_is_header h" "tsmf_is_header h'"
    "length ps \<noteq> 52" "\<forall>p \<in> set ps. length p = 188 \<and> \<not> tsmf_is_header p"
    "52 < length ps \<longrightarrow> ts_pid (ps ! 52) \<noteq> 0x002f" "tsmf_filter_packet f h = (o1, f1)"
  shows "fst (tsmf_run f1 (ps @ [h'])) = []"
proof -
  obtain f2 where f1: "f1 = tsmf_parse_header f2 h" "tsmf_wf f1" "skip_packets f2 = 0"
    using tsmf_header_step [OF assms(1-3,8)] by blast
  have s1: "slot f1 = int 0" "skip_packets f1 = 0"
    using f1 by (simp_all add: tsmf_parse_header_def Let_def)
  obtain f3 where run: "tsmf_run f1 ps = ([], f3)" and f3: "tsmf_wf f3" "skip_packets f3 = 0"
    "slot f3 \<noteq> int 52"
    using tsmf_run_incomplete [OF f1(2) s1(2,1) assms(5-7)] by blast
  obtain o4 f4 where "tsmf_filter_packet f3 h' = (o4, f4)" by fastforce
  moreover from this have "o4 = []"
    using tsmf_header_step [OF f3(1,2) assms(4)] f3(3) by auto
  ultimately show ?thesis by (simp add: tsmf_run_append run)
qed

section \<open>A concrete run\<close>

definition tsmf_example_start :: tsmf_filter where
  "tsmf_example_start = tsmf_parse_header (tsmf_blank\<lparr>tlv_buf := []\<rparr>) tsmf_example_header"

lemma tsmf_example_nth [simp]:
  "i < 184 \<Longrightarrow> tsmf_example_header ! i = tsmf_example_body ! i"
  by (simp add: tsmf_example_header_def tsmf_example_body_length)

lemma tsmf_example_flag [simp]:
  "tsmf_stream_flag (drop 7 tsmf_example_header) 0" "tsmf_stream_flag (drop 125 tsmf_example_header) 0"
  by (simp_all add: tsmf_stream_flag_def tsmf_example_body_def tsmf_example_header_def
      tsmf_seal_def nth_append)

lemma tsmf_example_first:
  "tsmf_filter_packet tsmf_blank tsmf_example_header = ([], tsmf_example_start)"
  by (simp add: tsmf_filter_packet_def tsmf_example_is_header tsmf_blank_def tsmf_example_start_def)

lemma tsmf_example_start_stream:
  "stream tsmf_example_start = 0" "\<not> output_tlv tsmf_example_start"
  by (simp_all add: tsmf_example_start_def tsmf_parse_header_def tsmf_blank_def upt_conv_Cons)

lemma tsmf_zero_packet: "\<not> tsmf_is_header (replicate 188 0)" "ts_pid (replicate 188 0) = 0"
  by (simp_all add: tsmf_is_header_iff tsmf_header_fields_def ts_pid_def be16_def)

theorem tsmf_complete_frame_selects_witness:
  "fst (tsmf_run tsmf_example_start (replicate 52 (replicate 188 0) @ [tsmf_example_header])) =
     concat (tsmf_selected (stream tsmf_example_start) (discard_null_packets tsmf_blank)
       (map (tsmf_slot_of tsmf_example_header) [0..<52]) (replicate 52 (replicate 188 0)))"
  by (rule tsmf_complete_frame_selects [OF tsmf_blank_wf _ tsmf_example_is_header
        tsmf_example_is_header _ _ tsmf_example_first tsmf_example_start_stream(2)])
     (simp_all add: tsmf_blank_def tsmf_zero_packet)

theorem tsmf_incomplete_frame_silent_witness:
  "fst (tsmf_run tsmf_example_start (replicate 51 (replicate 188 0) @ [tsmf_example_header])) = []"
  by (rule tsmf_incomplete_frame_silent [OF tsmf_blank_wf _ tsmf_example_is_header
        tsmf_example_is_header _ _ _ tsmf_example_first])
     (simp_all add: tsmf_blank_def tsmf_zero_packet)

section \<open>The choice of the stream\<close>

text \<open>C4: once a header has resolved the requested TS number to a relative stream, no later
  packet changes that choice: until the filter is initialised again the selected stream is that
  relative stream or, while a header marks it invalid, none, and the filter never falls back to
  passing the whole carrier through.\<close>

theorem tsmf_selection_stable:
  assumes "tsmf_wf f" "header_found f" "0 \<le> relative f" "\<forall>p \<in> set ps. length p = 188"
    "tsmf_run f ps = (out, f')"
  shows "relative f' = relative f \<and> (stream f' = -1 \<or> stream f' = relative f) \<and>
    \<not> passthrough f'"
  using tsmf_run_wf [OF assms(1,4)] assms(2,3,5) by (auto simp: tsmf_wf_def)

lemma tsmf_example_start_wf: "tsmf_wf tsmf_example_start"
  using tsmf_filter_packet_step [OF tsmf_blank_wf _ tsmf_example_first]
  by (simp add: tsmf_example_header_def tsmf_example_body_length)

lemma tsmf_example_start_found: "header_found tsmf_example_start" "0 \<le> relative tsmf_example_start"
  by (simp_all add: tsmf_example_start_def tsmf_parse_header_def tsmf_blank_def upt_conv_Cons)

theorem tsmf_selection_stable_witness:
  "relative (snd (tsmf_run tsmf_example_start [replicate 188 0])) = relative tsmf_example_start \<and>
    (stream (snd (tsmf_run tsmf_example_start [replicate 188 0])) = -1 \<or>
     stream (snd (tsmf_run tsmf_example_start [replicate 188 0])) = relative tsmf_example_start) \<and>
    \<not> passthrough (snd (tsmf_run tsmf_example_start [replicate 188 0]))"
  by (rule tsmf_selection_stable [OF tsmf_example_start_wf tsmf_example_start_found _
        prod.collapse [symmetric]]) simp

lemma tsmf_find_relative_filter:
  "tsmf_find_relative fl idx is n =
     (let on = filter (tsmf_stream_flag fl) is in
      if n \<le> idx \<and> nat (idx - n) < length on then int (on ! nat (idx - n)) else -1)"
proof (induction fl idx "is" n rule: tsmf_find_relative.induct)
  case (1 fl idx n)
  then show ?case by simp
next
  case (2 fl idx i "is" n)
  have "nat (idx - n) = Suc (nat (idx - (n + 1)))" if "n < idx" using that by simp
  then show ?case using 2 by (auto simp: Let_def)
qed

text \<open>The requested number counts the valid streams. With no stream resolved yet, a
  header resolves TS number \<open>i\<close> to the \<open>i\<close>-th (from 0) of the relative streams 0 to 14 whose
  flag the header sets, and selects none when there are not that many.\<close>

theorem tsmf_parse_header_counts_valid_streams:
  assumes "relative f = -1" "on = filter (tsmf_stream_flag (drop 7 p)) [0..<15]"
  shows "stream (tsmf_parse_header f p) =
      (if 0 \<le> stream_index f \<and> nat (stream_index f) < length on
       then int (on ! nat (stream_index f)) else -1) \<and>
    relative (tsmf_parse_header f p) = stream (tsmf_parse_header f p)"
proof -
  let ?r = "tsmf_find_relative (drop 7 p) (stream_index f) [0..<15] 0"
  have r: "?r = (if 0 \<le> stream_index f \<and> nat (stream_index f) < length on
      then int (on ! nat (stream_index f)) else -1)"
    by (simp add: tsmf_find_relative_filter assms(2) Let_def)
  have "tsmf_stream_flag (drop 7 p) (nat ?r)" if "0 \<le> ?r"
  proof -
    have "on ! nat (stream_index f) \<in> set on" using that r by (auto split: if_splits)
    then show ?thesis using that r assms(2) by (auto split: if_splits)
  qed
  then show ?thesis using assms(1) r
    by (auto simp: tsmf_parse_header_def Let_def split: if_splits)
qed

theorem tsmf_parse_header_counts_valid_streams_witness:
  "stream (tsmf_parse_header (tsmf_blank\<lparr>stream_index := 1\<rparr>) tsmf_example_header) =
      (if 0 \<le> stream_index (tsmf_blank\<lparr>stream_index := 1\<rparr>) \<and>
          nat (stream_index (tsmf_blank\<lparr>stream_index := 1\<rparr>)) < length [0, 2 :: nat]
       then int ([0, 2] ! nat (stream_index (tsmf_blank\<lparr>stream_index := 1\<rparr>))) else -1) \<and>
    relative (tsmf_parse_header (tsmf_blank\<lparr>stream_index := 1\<rparr>) tsmf_example_header) =
      stream (tsmf_parse_header (tsmf_blank\<lparr>stream_index := 1\<rparr>) tsmf_example_header)"
  by (rule tsmf_parse_header_counts_valid_streams)
     (simp_all add: tsmf_blank_def upt_conv_Cons tsmf_stream_flag_def tsmf_example_header_def
        tsmf_example_body_def tsmf_seal_def)

section \<open>Headers\<close>

text \<open>C5: a header that was damaged in one byte is not taken for a header. If a packet of 188
  bytes is recognised as a TSMF header, replacing any one of the bytes the CRC covers (4 to 187)
  by another value makes \<^verbatim>\<open>tsmf_is_header\<close> reject it.\<close>

theorem tsmf_damaged_header_rejected:
  assumes "tsmf_is_header p" "length p = 188" "4 \<le> i" "i < 188" "b \<noteq> p ! i"
  shows "\<not> tsmf_is_header (p[i := b])"
proof
  assume "tsmf_is_header (p[i := b])"
  then have "tsmf_crc ((drop 4 p)[i - 4 := b]) = 0"
    using assms(3) by (simp add: tsmf_is_header_iff drop_update_swap)
  moreover have "tsmf_crc ((drop 4 p)[i - 4 := b]) \<noteq> tsmf_crc (drop 4 p)"
    using assms by (intro tsmf_crc_one_byte) auto
  ultimately show False using assms(1) by (simp add: tsmf_is_header_iff)
qed

theorem tsmf_damaged_header_rejected_witness:
  "\<not> tsmf_is_header (tsmf_example_header[100 := 1])"
proof (rule tsmf_damaged_header_rejected [OF tsmf_example_is_header])
  show "(1 :: u8) \<noteq> tsmf_example_header ! 100"
    by (simp add: tsmf_example_body_def nth_append)
qed (simp_all add: tsmf_example_header_def tsmf_example_body_length)

section \<open>Carriers without TSMF\<close>

lemma tsmf_detect_run:
  assumes "n \<le> 424" "detect_packets f = 0" "skip_packets f = 0" "\<not> header_found f" "slot f = -1"
    "\<not> passthrough f" "\<not> not_found f" "length ps = n" "\<forall>p \<in> set ps. \<not> tsmf_is_header p"
    "n < 424"
  shows "tsmf_run f ps = ([], f\<lparr>detect_packets := n\<rparr>)"
  using assms
proof (induction ps arbitrary: n rule: rev_induct)
  case Nil
  then show ?case by simp
next
  case (snoc p ps)
  then obtain m where m: "n = Suc m" "length ps = m" by (cases n) auto
  have "tsmf_run f ps = ([], f\<lparr>detect_packets := m\<rparr>)"
    using snoc.prems m by (intro snoc.IH) auto
  then show ?case using snoc.prems m
    by (simp add: tsmf_run_append tsmf_filter_packet_def tsmf_detect_def)
qed

text \<open>A carrier on which no header arrives is recognised after exactly 424 packets. A
  freshly initialised filter reports that it is still searching after fewer packets; with the
  424-th it passes the carrier through when TS0 was requested and reports that the stream does
  not exist otherwise.\<close>

theorem tsmf_detects_plain_carrier:
  assumes "\<forall>p \<in> set ps. \<not> tsmf_is_header p"
    "tsmf_run (tsmf_filter_init f idx disc 0) ps = (out, f')" "length ps \<le> 424"
  shows "tsmf_filter_get_state f' =
    (if length ps < 424 then TSMF_FILTER_SEARCHING
     else if idx = 0 then TSMF_FILTER_FOUND else TSMF_FILTER_NOT_FOUND)"
proof -
  let ?f0 = "tsmf_filter_init f idx disc 0"
  have less: "tsmf_run ?f0 qs = ([], ?f0\<lparr>detect_packets := length qs\<rparr>)"
    if "length qs < 424" "\<forall>p \<in> set qs. \<not> tsmf_is_header p" for qs
    using that by (intro tsmf_detect_run) (auto simp: tsmf_filter_init_def)
  show ?thesis
  proof (cases "length ps < 424")
    case True
    then show ?thesis using less [OF True assms(1)] assms(2)
      by (auto simp: tsmf_filter_get_state_def tsmf_filter_init_def)
  next
    case False
    then have "length ps = 424" using assms(3) by simp
    then obtain qs p where ps: "ps = qs @ [p]" "length qs = 423"
      by (cases ps rule: rev_cases) auto
    then have "tsmf_run ?f0 qs = ([], ?f0\<lparr>detect_packets := 423\<rparr>)"
      using less [of qs] assms(1) by simp
    then show ?thesis using assms(1,2) ps
      by (auto simp: tsmf_run_append tsmf_filter_packet_def tsmf_detect_def tsmf_filter_init_def
          tsmf_passthrough_packet_def tsmf_filter_get_state_def Let_def split: if_splits)
  qed
qed

theorem tsmf_detects_plain_carrier_witness:
  "tsmf_filter_get_state (snd (tsmf_run (tsmf_filter_init tsmf_blank 3 False 0) [replicate 188 0])) =
    (if length [replicate 188 (0 :: u8)] < 424 then TSMF_FILTER_SEARCHING
     else if (3 :: int) = 0 then TSMF_FILTER_FOUND else TSMF_FILTER_NOT_FOUND)"
  by (rule tsmf_detects_plain_carrier [OF _ prod.collapse [symmetric]])
     (simp_all add: tsmf_zero_packet)

section \<open>Split TLV\<close>

definition tlv_continuation :: "packet \<Rightarrow> bool" where
  "tlv_continuation p \<longleftrightarrow> length p = 188 \<and> p ! 1 AND 0xa0 = 0 \<and> p ! 1 AND 0x40 = 0 \<and> ts_pid p = 0x002d"

definition tlv_start :: "packet \<Rightarrow> bool" where
  "tlv_start p \<longleftrightarrow> length p = 188 \<and> p ! 1 AND 0xa0 = 0 \<and> p ! 1 AND 0x40 \<noteq> 0 \<and>
     ts_pid p = 0x002d \<and> unat (p ! 3) + 4 < 188"

lemma tlv_continuation_step:
  "tlv_continuation c \<Longrightarrow> tlv_buf f \<noteq> [] \<Longrightarrow> length (tlv_buf f) + 185 \<le> 65536 \<Longrightarrow>
     tsmf_extract_tlv c (f, out) = (f\<lparr>tlv_buf := tlv_buf f @ drop 3 c\<rparr>, out)"
  by (simp add: tlv_continuation_def tsmf_extract_tlv_def tsmf_append_tlv_def)

lemma tlv_start_step:
  "tlv_start s \<Longrightarrow> tlv_buf f \<noteq> [] \<Longrightarrow> length (tlv_buf f) + unat (s ! 3) \<le> 65536 \<Longrightarrow>
     tsmf_extract_tlv s (f, out) =
       (f\<lparr>tlv_buf := drop (4 + unat (s ! 3)) s\<rparr>, out @ tlv_buf f @ take (unat (s ! 3)) (drop 4 s))"
  by (auto simp: tlv_start_def tsmf_extract_tlv_def tsmf_append_tlv_def Let_def add.commute)

text \<open>A collection that has been dropped stays empty until the next start packet.\<close>

lemma tlv_continuation_dropped:
  "tlv_continuation c \<Longrightarrow> tlv_buf f = [] \<Longrightarrow> tsmf_extract_tlv c (f, out) = (f, out)"
  by (simp add: tlv_continuation_def tsmf_extract_tlv_def tsmf_append_tlv_def)

lemma tlv_continuation_overflow:
  "tlv_continuation c \<Longrightarrow> tlv_buf f \<noteq> [] \<Longrightarrow> 65536 < length (tlv_buf f) + 185 \<Longrightarrow>
     tsmf_extract_tlv c (f, out) = (f\<lparr>tlv_buf := []\<rparr>, out)"
  by (auto simp: tlv_continuation_def tsmf_extract_tlv_def tsmf_append_tlv_def)

lemma tlv_start_dropped:
  "tlv_start s \<Longrightarrow> tlv_buf f = [] \<or> length (tlv_buf f) \<le> 65536 \<and> 65536 < length (tlv_buf f) + unat (s ! 3) \<Longrightarrow>
     tsmf_extract_tlv s (f, out) = (f\<lparr>tlv_buf := drop (4 + unat (s ! 3)) s\<rparr>, out)"
  by (auto simp: tlv_start_def tsmf_extract_tlv_def tsmf_append_tlv_def Let_def add.commute)

lemma tlv_dropped_run:
  "\<lbrakk>\<forall>c \<in> set cs. tlv_continuation c; tlv_start s; tlv_buf f = []\<rbrakk> \<Longrightarrow>
    fold tsmf_extract_tlv (cs @ [s]) (f, out) = (f\<lparr>tlv_buf := drop (4 + unat (s ! 3)) s\<rparr>, out)"
  by (induction cs arbitrary: f) (simp_all add: tlv_start_dropped tlv_continuation_dropped)

text \<open>C6: a TLV packet that was split over several TS packets, with its collection begun in \<^verbatim>\<open>tlv_buf\<close>, is output as the
  concatenation of its fragments if all of them together fit in the 65536 bytes of \<^verbatim>\<open>tlv_buf\<close>, and not at all
  otherwise: the fragments are what was collected so far, everything after the three header bytes of each
  continuation packet, and the bytes before the boundary that the next start packet's pointer
  marks. In both cases exactly the bytes after the boundary begin the next TLV packet.\<close>

theorem tsmf_tlv_reassembly:
  assumes "\<forall>c \<in> set cs. tlv_continuation c" "tlv_start s" "tlv_buf f \<noteq> []" "length (tlv_buf f) \<le> 65536"
    "whole = tlv_buf f @ concat (map (drop 3) cs) @ take (unat (s ! 3)) (drop 4 s)"
  shows "fold tsmf_extract_tlv (cs @ [s]) (f, out) =
    (f\<lparr>tlv_buf := drop (4 + unat (s ! 3)) s\<rparr>, out @ (if length whole \<le> 65536 then whole else []))"
  using assms
proof (induction cs arbitrary: f)
  case Nil
  have "length (take (unat (s ! 3)) (drop 4 s)) = unat (s ! 3)"
    using Nil.prems(2) by (simp add: tlv_start_def)
  then show ?case
    using Nil.prems tlv_start_step [of s f out] tlv_start_dropped [of s f out] by auto
next
  case (Cons c cs)
  have l: "length c = 188" using Cons.prems by (simp add: tlv_continuation_def)
  show ?case
  proof (cases "length (tlv_buf f) + 185 \<le> 65536")
    case True
    then have c: "tsmf_extract_tlv c (f, out) = (f\<lparr>tlv_buf := tlv_buf f @ drop 3 c\<rparr>, out)"
      using Cons.prems by (intro tlv_continuation_step) auto
    show ?thesis
      using Cons.IH [of "f\<lparr>tlv_buf := tlv_buf f @ drop 3 c\<rparr>"] Cons.prems True l by (simp add: c)
  next
    case False
    then have "tsmf_extract_tlv c (f, out) = (f\<lparr>tlv_buf := []\<rparr>, out)"
      using Cons.prems by (intro tlv_continuation_overflow) auto
    moreover have "65536 < length whole"
      using False l by (simp add: Cons.prems(5))
    ultimately show ?thesis
      using tlv_dropped_run [of cs s "f\<lparr>tlv_buf := []\<rparr>" out] Cons.prems(1,2) by simp
  qed
qed

text \<open>One byte collected, one continuation packet and a start packet whose pointer is 2.\<close>

definition tlv_example_start :: packet where
  "tlv_example_start = [0x47, 0x40, 0x2d, 0x02] @ replicate 184 7"

definition tlv_example_cont :: packet where
  "tlv_example_cont = [0x47, 0x00, 0x2d] @ replicate 185 5"

theorem tsmf_tlv_reassembly_witness:
  "snd (fold tsmf_extract_tlv ([tlv_example_cont] @ [tlv_example_start]) (tsmf_blank\<lparr>tlv_buf := [1]\<rparr>, [])) =
    1 # replicate 185 5 @ [7, 7]"
proof -
  have t: "take 2 (replicate 184 (7 :: u8)) = [7, 7]"
    by (simp add: take_replicate numeral_2_eq_2)
  have c: "\<forall>c \<in> set [tlv_example_cont]. tlv_continuation c"
    by (simp add: tlv_continuation_def tlv_example_cont_def ts_pid_def be16_def)
  have s: "tlv_start tlv_example_start"
    by (simp add: tlv_start_def tlv_example_start_def ts_pid_def be16_def)
  show ?thesis
    using tsmf_tlv_reassembly [OF c s _ _ refl, of "tsmf_blank\<lparr>tlv_buf := [1]\<rparr>" "[]"] t
    by (simp add: tlv_example_start_def tlv_example_cont_def)
qed

end
