(* ===== verification/Ringbuffer.thy ===== *)
theory Ringbuffer
  imports Prelude
begin

text \<open>
  The ring buffer between the USB completion handler and read() (driver/ringbuffer.c), run by
  one thread at a time; Ringbuffer\_Conc interleaves its reader and its writer.

  The kernel's allocator and \<^verbatim>\<open>copy_to_user\<close> are parameters: \<open>pages\<close> is the memory
  \<^verbatim>\<open>__get_free_pages\<close> returned (\<open>None\<close> for a failure), \<open>uncopied off n\<close> the number of bytes
  \<^verbatim>\<open>copy_to_user\<close> could not copy of the \<open>n\<close> bytes that go to offset \<open>off\<close> of the user's buffer.
  Sizes and offsets are \<^verbatim>\<open>size_t\<close>, stored in 32-bit \<^verbatim>\<open>atomic_t\<close> counters; sizes are at most
  \<open>INT_MAX\<close>. The one subtraction that can leave the range, the new head after a fault, is written
  with its wrap-around (storing it in an int and reading it back sign-extends to the same value).
\<close>

section \<open>Data\<close>

record ringbuffer =
  rb_state :: nat
  rw_count :: nat
  wait_count :: nat
  rb_buf :: "u8 list option"
  rb_size :: nat
  actual_size :: nat
  rb_head :: nat
  rb_tail :: nat

abbreviation (input) INT_MAX :: nat where "INT_MAX \<equiv> 2147483647"

section \<open>Operations\<close>

definition ringbuffer_create :: "bool \<Rightarrow> int + ringbuffer" where
  "ringbuffer_create kzalloc_ok =
     (if \<not> kzalloc_ok then Inl (- ENOMEM)
      else Inr \<lparr> rb_state = 0, rw_count = 0, wait_count = 0, rb_buf = None, rb_size = 0,
                 actual_size = 0, rb_head = 0, rb_tail = 0 \<rparr>)"

definition ringbuffer_free_nolock :: "ringbuffer \<Rightarrow> ringbuffer" where
  "ringbuffer_free_nolock rb = rb\<lparr>rb_buf := None, rb_size := 0\<rparr>"

definition ringbuffer_reset_nolock :: "ringbuffer \<Rightarrow> ringbuffer" where
  "ringbuffer_reset_nolock rb = rb\<lparr>actual_size := 0, rb_head := 0, rb_tail := 0\<rparr>"

definition ringbuffer_lock :: "ringbuffer \<Rightarrow> ringbuffer" where
  "ringbuffer_lock rb = rb\<lparr>wait_count := wait_count rb + 1\<rparr>"

definition ringbuffer_unlock :: "ringbuffer \<Rightarrow> ringbuffer" where
  "ringbuffer_unlock rb = rb\<lparr>wait_count := wait_count rb - 1\<rparr>"

definition ringbuffer_alloc :: "(nat \<Rightarrow> u8 list option) \<Rightarrow> ringbuffer \<Rightarrow> nat \<Rightarrow> int \<times> ringbuffer" where
  "ringbuffer_alloc pages rb sz =
     (if sz > INT_MAX then (- EINVAL, rb)
      else if rb_state rb \<noteq> 0 then (- EBUSY, rb)
      else
        let rb1 = ringbuffer_lock rb;
            rb2 = (if rb_buf rb1 \<noteq> None \<and> rb_size rb1 \<noteq> sz then ringbuffer_free_nolock rb1 else rb1);
            rb3 = ringbuffer_reset_nolock (rb2\<lparr>rb_size := 0\<rparr>);
            (ret, rb4) = (if rb_buf rb3 = None then
                            (case pages sz of
                               None \<Rightarrow> (- ENOMEM, rb3)
                             | Some b \<Rightarrow> (0, rb3\<lparr>rb_buf := Some b, rb_size := sz\<rparr>))
                          else (0, rb3))
        in (ret, ringbuffer_unlock rb4))"

definition ringbuffer_free :: "ringbuffer \<Rightarrow> int \<times> ringbuffer" where
  "ringbuffer_free rb =
     (if rb_state rb \<noteq> 0 then (- EBUSY, rb)
      else (0, ringbuffer_unlock (ringbuffer_free_nolock
                 (ringbuffer_reset_nolock (ringbuffer_lock rb)))))"

definition ringbuffer_reset :: "ringbuffer \<Rightarrow> int \<times> ringbuffer" where
  "ringbuffer_reset rb =
     (if rb_state rb \<noteq> 0 then (- EBUSY, rb)
      else (0, ringbuffer_unlock (ringbuffer_reset_nolock (ringbuffer_lock rb))))"

definition ringbuffer_start :: "ringbuffer \<Rightarrow> int \<times> ringbuffer" where
  "ringbuffer_start rb =
     (if rb_state rb \<noteq> 0 then (- EALREADY, rb) else (0, rb\<lparr>rb_state := 1\<rparr>))"

definition ringbuffer_stop :: "ringbuffer \<Rightarrow> int \<times> ringbuffer" where
  "ringbuffer_stop rb = (if rb_state rb = 0 then - EALREADY else 0, rb\<lparr>rb_state := 0\<rparr>)"

definition ringbuffer_destroy :: "ringbuffer \<Rightarrow> int \<times> ringbuffer" where
  "ringbuffer_destroy rb =
     (0, ringbuffer_free_nolock (ringbuffer_lock (snd (ringbuffer_stop rb))))"

definition ringbuffer_ready_read :: "ringbuffer \<Rightarrow> int \<times> ringbuffer" where
  "ringbuffer_ready_read rb =
     (if rb_state rb = 0 then (- EINVAL, rb)
      else (0, if rb_state rb = 1 then rb\<lparr>rb_state := 2\<rparr> else rb))"

text \<open>
  The result of \<^verbatim>\<open>ringbuffer_read_user\<close>: return value, \<open>*len\<close>, the bytes that reached the
  user's buffer, and the buffer.
\<close>

definition ringbuffer_read_user ::
    "(nat \<Rightarrow> nat \<Rightarrow> nat) \<Rightarrow> ringbuffer \<Rightarrow> nat \<Rightarrow> int \<times> nat \<times> u8 list \<times> ringbuffer" where
  "ringbuffer_read_user uncopied rb len =
     (let p = (case rb_buf rb of None \<Rightarrow> [] | Some b \<Rightarrow> b);
          buf_size = rb_size rb;
          act = actual_size rb;
          hd0 = rb_head rb;
          read_size = (if len \<le> act then len else act)
      in if read_size = 0 then (0, 0, [], rb)
         else if hd0 + read_size \<le> buf_size then
           let res = uncopied 0 read_size;
               n = read_size - res;
               hd1 = (if hd0 + n = buf_size then 0 else hd0 + n)
           in (if res \<noteq> 0 then - EFAULT else 0, n, take n (drop hd0 p),
               rb\<lparr>rb_head := hd1, actual_size := act - n\<rparr>)
         else
           let tmp = buf_size - hd0;
               res1 = uncopied 0 tmp;
               res = (if res1 = 0 then uncopied tmp (read_size - tmp) else res1);
               data = (if res1 = 0 then take tmp (drop hd0 p) @ take (read_size - tmp - res) p
                       else take (tmp - res1) (drop hd0 p));
               n = read_size - res;
               hd1 = size_sub n tmp
           in (if res \<noteq> 0 then - EFAULT else 0, n, data,
               rb\<lparr>rb_head := hd1, actual_size := act - n\<rparr>))"

definition ringbuffer_write_atomic :: "ringbuffer \<Rightarrow> u8 list \<Rightarrow> int \<times> nat \<times> ringbuffer" where
  "ringbuffer_write_atomic rb d =
     (if rb_state rb \<noteq> 2 then (- EINVAL, length d, rb)
      else
        let p = (case rb_buf rb of None \<Rightarrow> [] | Some b \<Rightarrow> b);
            buf_size = rb_size rb;
            act = actual_size rb;
            tl0 = rb_tail rb;
            len = length d;
            write_size = (if act + len \<le> buf_size then len else buf_size - act);
            rb1 = (if write_size = 0 then rb
                   else if tl0 + write_size \<le> buf_size then
                     rb\<lparr>rb_buf := Some (blit p tl0 (take write_size d)),
                        rb_tail := (if tl0 + write_size = buf_size then 0 else tl0 + write_size),
                        actual_size := act + write_size\<rparr>
                   else
                     let tmp = buf_size - tl0 in
                     rb\<lparr>rb_buf := Some (blit (blit p tl0 (take tmp d)) 0 (drop tmp (take write_size d))),
                        rb_tail := write_size - tmp,
                        actual_size := act + write_size\<rparr>)
        in (if len \<noteq> write_size then - EOVERFLOW else 0, write_size, rb1))"

definition ringbuffer_is_running :: "ringbuffer \<Rightarrow> bool" where
  "ringbuffer_is_running rb \<longleftrightarrow> rb_state rb \<noteq> 0"

definition ringbuffer_is_readable :: "ringbuffer \<Rightarrow> bool" where
  "ringbuffer_is_readable rb \<longleftrightarrow> actual_size rb \<noteq> 0"

section \<open>The bytes in the buffer\<close>

definition rb_bytes :: "ringbuffer \<Rightarrow> u8 list" where
  "rb_bytes rb = take (rb_size rb) (case rb_buf rb of None \<Rightarrow> [] | Some b \<Rightarrow> b)"

definition ring_list :: "'a list \<Rightarrow> nat \<Rightarrow> nat \<Rightarrow> 'a list" where
  "ring_list b h n = map (\<lambda>i. b ! ((h + i) mod length b)) [0..<n]"

definition rb_list :: "ringbuffer \<Rightarrow> u8 list" where
  "rb_list rb = ring_list (rb_bytes rb) (rb_head rb) (actual_size rb)"

definition rb_wf :: "ringbuffer \<Rightarrow> bool" where
  "rb_wf rb \<longleftrightarrow>
     length (rb_bytes rb) = rb_size rb \<and> rb_size rb \<le> INT_MAX \<and> actual_size rb \<le> rb_size rb \<and>
     (if rb_size rb = 0 then rb_head rb = 0 \<and> rb_tail rb = 0
      else rb_head rb < rb_size rb \<and> rb_tail rb = (rb_head rb + actual_size rb) mod rb_size rb)"

lemma length_ring_list [simp]: "length (ring_list b h n) = n"
  by (simp add: ring_list_def)

lemma ring_list_0 [simp]: "ring_list b h 0 = []"
  by (simp add: ring_list_def)

lemma length_rb_list [simp]: "length (rb_list rb) = actual_size rb"
  by (simp add: rb_list_def)

lemma ring_list_take: "m \<le> n \<Longrightarrow> take m (ring_list b h n) = ring_list b h m"
  by (simp add: ring_list_def take_map)

lemma ring_list_drop: "m \<le> n \<Longrightarrow> drop m (ring_list b h n) = ring_list b ((h + m) mod length b) (n - m)"
  by (rule nth_equalityI) (auto simp: ring_list_def mod_add_left_eq add.assoc)

lemma ring_list_straight:
  assumes "h + n \<le> length b"
  shows "ring_list b h n = take n (drop h b)"
  using assms by (intro nth_equalityI) (auto simp: ring_list_def)

lemma ring_list_wrap:
  assumes "h < length b" "length b < h + n" "n \<le> length b"
  shows "ring_list b h n = drop h b @ take (n - (length b - h)) b"
  using assms
  by (intro nth_equalityI) (auto simp: ring_list_def nth_append mod_less_double add.commute)

text \<open>Writing \<open>d\<close> at position \<open>t\<close>, around the end of the array.\<close>

definition ring_write :: "'a list \<Rightarrow> nat \<Rightarrow> 'a list \<Rightarrow> 'a list" where
  "ring_write b t d =
     (if t + length d \<le> length b then blit b t d
      else blit (blit b t (take (length b - t) d)) 0 (drop (length b - t) d))"

lemma length_ring_write [simp]:
  "t < length b \<Longrightarrow> length d \<le> length b \<Longrightarrow> length (ring_write b t d) = length b"
  by (auto simp: ring_write_def)

lemma nth_ring_write:
  assumes "t < length b" "length d \<le> length b" "k < length b"
  shows "ring_write b t d ! k =
    (if (k + length b - t) mod length b < length d then d ! ((k + length b - t) mod length b) else b ! k)"
  using assms by (auto simp: ring_write_def nth_blit mod_less_double add.commute)

lemma ring_list_write:
  assumes "h < length b" "n + length d \<le> length b"
  shows "ring_list (ring_write b ((h + n) mod length b) d) h (n + length d) = ring_list b h n @ d"
proof (rule nth_equalityI)
  let ?t = "(h + n) mod length b"
  have t: "?t < length b" "length d \<le> length b" using assms by (auto intro: mod_less_divisor)
  show "length (ring_list (ring_write b ?t d) h (n + length d)) = length (ring_list b h n @ d)"
    by simp
  fix i assume "i < length (ring_list (ring_write b ?t d) h (n + length d))"
  then have i: "i < n + length d" by simp
  let ?k = "(h + i) mod length b"
  have k: "?k < length b" using assms by (auto intro: mod_less_divisor)
  have off: "(?k + length b - ?t) mod length b = (if i < n then length b - (n - i) else i - n)"
    using assms i by (auto simp: mod_less_double)
  show "ring_list (ring_write b ?t d) h (n + length d) ! i = (ring_list b h n @ d) ! i"
    using i off assms by (auto simp: ring_list_def nth_append nth_ring_write [OF t k] t)
qed

section \<open>Writing and reading\<close>

lemma rb_wf_tail: "rb_wf rb \<Longrightarrow> 0 < rb_size rb \<Longrightarrow> rb_tail rb < rb_size rb"
  by (auto simp: rb_wf_def intro: mod_less_divisor)

lemma rb_wf_straight_tail:
  "h + m \<le> n \<Longrightarrow> 0 < n \<Longrightarrow> (if h + m = n then 0 else h + m) = (h + m) mod (n :: nat)"
  by auto

text \<open>What a successful write does to the bytes, in one equation for both of its branches.\<close>

lemma ringbuffer_write_bytes:
  assumes "rb_wf rb" "rb_state rb = 2" "n = min (length d) (rb_size rb - actual_size rb)"
    "ringbuffer_write_atomic rb d = (ret, m, rb')"
  shows "m = n" "ret = (if n = length d then 0 else - EOVERFLOW)"
    "actual_size rb' = actual_size rb + n" "rb_head rb' = rb_head rb" "rb_size rb' = rb_size rb"
    "rb_state rb' = rb_state rb"
    "n \<noteq> 0 \<Longrightarrow> rb_bytes rb' = ring_write (rb_bytes rb) (rb_tail rb) (take n d)"
    "n \<noteq> 0 \<Longrightarrow> rb_tail rb' = (rb_tail rb + n) mod rb_size rb" "n = 0 \<Longrightarrow> rb' = rb"
proof -
  have act: "actual_size rb \<le> rb_size rb" and len: "length (rb_bytes rb) = rb_size rb"
    using assms(1) by (auto simp: rb_wf_def)
  have n: "(if actual_size rb + length d \<le> rb_size rb then length d
      else rb_size rb - actual_size rb) = n"
    using act assms(3) by auto
  note eq = assms(4) [unfolded ringbuffer_write_atomic_def Let_def n, symmetric]
  show "m = n" "ret = (if n = length d then 0 else - EOVERFLOW)"
    "actual_size rb' = actual_size rb + n" "rb_head rb' = rb_head rb" "rb_size rb' = rb_size rb"
    "rb_state rb' = rb_state rb" "n = 0 \<Longrightarrow> rb' = rb"
    using eq assms(2) by (auto split: if_splits)
  assume n0: "n \<noteq> 0"
  then have tl: "rb_tail rb < rb_size rb" using rb_wf_tail [OF assms(1)] assms(3) by auto
  have nd: "n \<le> length d" "n \<le> rb_size rb" using assms(3) by auto
  show "rb_tail rb' = (rb_tail rb + n) mod rb_size rb"
    using eq assms(2) n0 tl nd by (auto simp: mod_less_double split: if_splits)
  show "rb_bytes rb' = ring_write (rb_bytes rb) (rb_tail rb) (take n d)"
    using eq assms(2) n0 tl nd len
    by (auto simp: rb_bytes_def ring_write_def take_blit min_absorb2 drop_take split: if_splits)
qed

lemma ringbuffer_write_step:
  assumes "rb_wf rb" "rb_state rb = 2" "n = min (length d) (rb_size rb - actual_size rb)"
    "ringbuffer_write_atomic rb d = (ret, m, rb')"
  shows "rb_wf rb' \<and> rb_list rb' = rb_list rb @ take n d"
proof (cases "n = 0")
  case True
  then show ?thesis using ringbuffer_write_bytes(9) [OF assms] assms(1) by simp
next
  case False
  note W = ringbuffer_write_bytes [OF assms]
  have wf: "length (rb_bytes rb) = rb_size rb" "rb_head rb < rb_size rb"
    "rb_tail rb = (rb_head rb + actual_size rb) mod rb_size rb" "actual_size rb + n \<le> rb_size rb"
    using assms(1,3) False by (auto simp: rb_wf_def split: if_splits)
  have bytes: "rb_bytes rb' = ring_write (rb_bytes rb)
      ((rb_head rb + actual_size rb) mod length (rb_bytes rb)) (take n d)"
    using W(7) False wf by simp
  have tn: "length (take n d) = n" using assms(3) by simp
  have "rb_list rb' = rb_list rb @ take n d"
    using ring_list_write [of "rb_head rb" "rb_bytes rb" "actual_size rb" "take n d"] wf W tn
    by (simp add: rb_list_def bytes)
  moreover have "rb_tail rb < rb_size rb" using rb_wf_tail [OF assms(1)] wf by simp
  then have "length (rb_bytes rb') = rb_size rb"
    using W(7) False wf(1,4) tn by simp
  ultimately show ?thesis
    using W wf False assms(1) by (auto simp: rb_wf_def mod_add_left_eq add.assoc)
qed

text \<open>
  The number of bytes a read of \<open>k\<close> bytes fails to copy, when the part up to the end of the array
  is copied completely.
\<close>

definition read_residue :: "(nat \<Rightarrow> nat \<Rightarrow> nat) \<Rightarrow> ringbuffer \<Rightarrow> nat \<Rightarrow> nat" where
  "read_residue uncopied rb k =
     (if k = 0 then 0
      else if rb_head rb + k \<le> rb_size rb then uncopied 0 k
      else uncopied (rb_size rb - rb_head rb) (k - (rb_size rb - rb_head rb)))"

lemma ringbuffer_read_straight:
  assumes "k = min len (actual_size rb)" "k \<noteq> 0" "rb_head rb + k \<le> rb_size rb"
    "n = k - uncopied 0 k"
  shows "ringbuffer_read_user uncopied rb len =
    (if uncopied 0 k \<noteq> 0 then - EFAULT else 0, n,
     take n (drop (rb_head rb) (case rb_buf rb of None \<Rightarrow> [] | Some b \<Rightarrow> b)),
     rb\<lparr>rb_head := (if rb_head rb + n = rb_size rb then 0 else rb_head rb + n),
        actual_size := actual_size rb - n\<rparr>)"
proof -
  have k: "(if len \<le> actual_size rb then len else actual_size rb) = k" using assms(1) by auto
  show ?thesis unfolding ringbuffer_read_user_def Let_def k assms(4)
    by (simp only: assms(2,3) if_True if_False)
qed

lemma ringbuffer_read_wrapped:
  assumes "k = min len (actual_size rb)" "k \<noteq> 0" "\<not> rb_head rb + k \<le> rb_size rb"
    "t = rb_size rb - rb_head rb" "uncopied 0 t = 0" "n = k - uncopied t (k - t)"
  shows "ringbuffer_read_user uncopied rb len =
    (if uncopied t (k - t) \<noteq> 0 then - EFAULT else 0, n,
     take t (drop (rb_head rb) (case rb_buf rb of None \<Rightarrow> [] | Some b \<Rightarrow> b)) @
       take (k - t - uncopied t (k - t)) (case rb_buf rb of None \<Rightarrow> [] | Some b \<Rightarrow> b),
     rb\<lparr>rb_head := size_sub n t, actual_size := actual_size rb - n\<rparr>)"
proof -
  have k: "(if len \<le> actual_size rb then len else actual_size rb) = k" using assms(1) by auto
  show ?thesis unfolding ringbuffer_read_user_def Let_def k assms(6)
    by (simp only: assms(2,3,5) assms(4) [symmetric] if_True if_False simp_thms)
qed

lemma ringbuffer_read_fields:
  assumes "rb_wf rb" "k = min len (actual_size rb)" "\<forall>off i. uncopied off i \<le> i"
    "rb_head rb + k \<le> rb_size rb \<or> uncopied 0 (rb_size rb - rb_head rb) = 0"
    "n = k - read_residue uncopied rb k" "k \<noteq> 0"
    "ringbuffer_read_user uncopied rb len = (ret, m, data, rb')"
  shows "ret = (if read_residue uncopied rb k = 0 then 0 else - EFAULT) \<and> m = n \<and>
    rb' = rb\<lparr>rb_head := (rb_head rb + n) mod rb_size rb, actual_size := actual_size rb - n\<rparr> \<and>
    data = ring_list (rb_bytes rb) (rb_head rb) n"
proof -
  let ?b = "rb_bytes rb" and ?h = "rb_head rb" and ?t = "rb_size rb - rb_head rb"
  let ?p = "case rb_buf rb of None \<Rightarrow> [] | Some b \<Rightarrow> b"
  have wf: "length ?b = rb_size rb" "?h < rb_size rb" "k \<le> rb_size rb"
    using assms(1,2,6) by (auto simp: rb_wf_def split: if_splits)
  show ?thesis
  proof (cases "?h + k \<le> rb_size rb")
    case True
    have res: "read_residue uncopied rb k = uncopied 0 k" using True assms(6) by (simp add: read_residue_def)
    have n: "n = k - uncopied 0 k" "?h + n \<le> rb_size rb" using assms(5) res True by auto
    have "take n (drop ?h ?p) = take n (drop ?h ?b)" using n by (simp add: rb_bytes_def drop_take min_def)
    also have "\<dots> = ring_list ?b ?h n" using ring_list_straight [of ?h n ?b] n wf(1) by simp
    finally have data: "take n (drop ?h ?p) = ring_list ?b ?h n" .
    have "0 < rb_size rb" using wf(2) by simp
    note head = rb_wf_straight_tail [OF n(2) this]
    from ringbuffer_read_straight [of k len rb n uncopied, OF assms(2,6) True n(1)] show ?thesis
      unfolding assms(7) data head res by simp
  next
    case False
    have res: "read_residue uncopied rb k = uncopied ?t (k - ?t)" "uncopied ?t (k - ?t) \<le> k - ?t"
      using False assms(3,6) by (auto simp: read_residue_def)
    have n: "n = k - uncopied ?t (k - ?t)" using assms(5) res by simp
    have nt: "?t \<le> n" "n \<le> k" using n res(2) False by linarith+
    have mod: "(?h + n) mod rb_size rb = n - ?t" using nt False wf by (auto simp: mod_less_double)
    have "take ?t (drop ?h ?p) @ take (k - ?t - uncopied ?t (k - ?t)) ?p =
        drop ?h ?b @ take (n - ?t) ?b"
    proof -
      have "k - ?t - uncopied ?t (k - ?t) = n - ?t" unfolding n by (rule diff_commute)
      moreover have "n - ?t \<le> rb_size rb" using nt(2) wf(3) by simp
      then have "take (n - ?t) ?p = take (n - ?t) ?b" by (simp add: rb_bytes_def min_absorb1)
      moreover have "take ?t (drop ?h ?p) = drop ?h ?b" by (simp add: rb_bytes_def drop_take)
      ultimately show ?thesis by (simp only:)
    qed
    also have "\<dots> = ring_list ?b ?h n"
    proof (cases "?h + n = rb_size rb")
      case True
      then show ?thesis using ring_list_straight [of ?h n ?b] wf(1) by simp
    next
      case False
      then show ?thesis using ring_list_wrap [of ?h ?b n] wf nt by simp
    qed
    finally have data: "take ?t (drop ?h ?p) @ take (k - ?t - uncopied ?t (k - ?t)) ?p =
        ring_list ?b ?h n" .
    have "uncopied 0 ?t = 0" using assms(4) False by simp
    from ringbuffer_read_wrapped [of k len rb ?t uncopied n, OF assms(2,6) False refl this n] show ?thesis
      unfolding assms(7) data size_sub_ge [OF nt(1)] mod res(1) by simp
  qed
qed

lemma ringbuffer_read_fault_step:
  assumes "rb_wf rb" "k = min len (actual_size rb)" "\<forall>off i. uncopied off i \<le> i"
    "rb_head rb + k \<le> rb_size rb \<or> uncopied 0 (rb_size rb - rb_head rb) = 0"
    "n = k - read_residue uncopied rb k"
    "ringbuffer_read_user uncopied rb len = (ret, m, data, rb')"
  shows "ret = (if read_residue uncopied rb k = 0 then 0 else - EFAULT) \<and> m = n \<and>
    data = take n (rb_list rb) \<and> rb_wf rb' \<and> rb_list rb' = drop n (rb_list rb) \<and>
    rb_state rb' = rb_state rb \<and> rb_size rb' = rb_size rb"
proof (cases "k = 0")
  case True
  have k: "(if len \<le> actual_size rb then len else actual_size rb) = k" using assms(2) by auto
  have "ret = 0 \<and> m = 0 \<and> data = [] \<and> rb' = rb"
    using assms(6) [unfolded ringbuffer_read_user_def Let_def k] True by auto
  then show ?thesis using assms(1,5) True by (simp add: read_residue_def)
next
  case False
  have F: "ret = (if read_residue uncopied rb k = 0 then 0 else - EFAULT)" "m = n"
      "rb' = rb\<lparr>rb_head := (rb_head rb + n) mod rb_size rb, actual_size := actual_size rb - n\<rparr>"
      "data = ring_list (rb_bytes rb) (rb_head rb) n"
    using ringbuffer_read_fields [OF assms(1-5) False assms(6)] by auto
  let ?b = "rb_bytes rb" and ?h = "rb_head rb"
  have act: "n \<le> actual_size rb" "actual_size rb \<le> rb_size rb"
    using assms(1,2,5) by (auto simp: rb_wf_def)
  have wf: "length ?b = rb_size rb" "?h < rb_size rb"
    "rb_tail rb = (?h + actual_size rb) mod rb_size rb"
    using assms(1,2) False by (auto simp: rb_wf_def split: if_splits)
  have bytes: "rb_bytes rb' = ?b" by (simp add: F(3) rb_bytes_def)
  have "rb_list rb' = drop n (rb_list rb)"
    using ring_list_drop [OF act(1), of ?b ?h] wf(1) bytes by (simp add: rb_list_def F(3))
  moreover have "((?h + n) mod rb_size rb + (actual_size rb - n)) mod rb_size rb =
      (?h + n + (actual_size rb - n)) mod rb_size rb"
    by (rule mod_add_left_eq)
  then have "rb_tail rb = ((?h + n) mod rb_size rb + (actual_size rb - n)) mod rb_size rb"
    using wf(3) act by simp
  then have "rb_wf rb'"
    using assms(1) wf(1,2) act bytes unfolding rb_wf_def F(3) by simp
  ultimately show ?thesis using F(1,2,3,4) ring_list_take [OF act(1), of ?b ?h]
    by (simp add: rb_list_def)
qed

lemma ringbuffer_read_step:
  assumes "rb_wf rb" "\<forall>off n. uncopied off n = 0" "n = min len (actual_size rb)"
    "ringbuffer_read_user uncopied rb len = (ret, m, data, rb')"
  shows "ret = 0 \<and> m = n \<and> data = take n (rb_list rb) \<and> rb_wf rb' \<and>
    rb_list rb' = drop n (rb_list rb) \<and> rb_state rb' = rb_state rb \<and> rb_size rb' = rb_size rb"
proof -
  have "read_residue uncopied rb n = 0" using assms(2) by (simp add: read_residue_def)
  then show ?thesis
    using ringbuffer_read_fault_step [OF assms(1,3) _ _ refl assms(4)] assms(2) by simp
qed

section \<open>The interface of a byte queue\<close>

text \<open>
  What the character device relies on: a put appends a prefix of the data, a get removes a
  prefix of the contents, and both report its length. Every schedule of puts and gets then
  delivers the accepted bytes in order, none twice and none lost.
\<close>

datatype queue_op = Put "u8 list" | Get nat

locale byte_queue =
  fixes put :: "'q \<Rightarrow> u8 list \<Rightarrow> nat \<times> 'q"
    and get :: "'q \<Rightarrow> nat \<Rightarrow> u8 list \<times> 'q"
    and contents :: "'q \<Rightarrow> u8 list"
    and capacity :: "'q \<Rightarrow> nat"
    and invar :: "'q \<Rightarrow> bool"
  assumes put_law: "invar q \<Longrightarrow> put q d = (n, q') \<Longrightarrow>
      invar q' \<and> capacity q' = capacity q \<and> contents q' = contents q @ take n d \<and>
      n = min (length d) (capacity q - length (contents q))"
    and get_law: "invar q \<Longrightarrow> get q k = (d, q') \<Longrightarrow>
      invar q' \<and> capacity q' = capacity q \<and> d @ contents q' = contents q \<and>
      length d = min k (length (contents q))"
    and bounded: "invar q \<Longrightarrow> length (contents q) \<le> capacity q"
begin

fun run :: "'q \<Rightarrow> queue_op list \<Rightarrow> u8 list \<times> u8 list \<times> 'q" where
  "run q [] = ([], [], q)"
| "run q (Put d # ops) =
     (let (n, q1) = put q d; (acc, got, q2) = run q1 ops in (take n d @ acc, got, q2))"
| "run q (Get k # ops) =
     (let (d, q1) = get q k; (acc, got, q2) = run q1 ops in (acc, d @ got, q2))"

lemma run_fifo:
  assumes "invar q" "run q ops = (acc, got, q')"
  shows "invar q' \<and> contents q @ acc = got @ contents q'"
  using assms
proof (induction q ops arbitrary: acc got q' rule: run.induct)
  case (1 q)
  then show ?case by simp
next
  case (2 q d ops)
  obtain n q1 where p: "put q d = (n, q1)" by fastforce
  obtain a g q2 where r: "run q1 ops = (a, g, q2)" by (metis prod_cases3)
  note P = put_law [OF "2.prems"(1) p]
  have "invar q2 \<and> contents q1 @ a = g @ contents q2" using "2.IH" [OF p [symmetric]] P r by simp
  then show ?case using "2.prems"(2) P p r by auto
next
  case (3 q k ops)
  obtain d q1 where p: "get q k = (d, q1)" by fastforce
  obtain a g q2 where r: "run q1 ops = (a, g, q2)" by (metis prod_cases3)
  note P = get_law [OF "3.prems"(1) p]
  have "invar q2 \<and> contents q1 @ a = g @ contents q2" using "3.IH" [OF p [symmetric]] P r by simp
  moreover have "contents q = d @ contents q1" using P by simp
  ultimately show ?case using "3.prems"(2) p r by auto
qed

lemma put_get_roundtrip:
  assumes "invar q" "contents q = []" "length d \<le> capacity q" "put q d = (n, q1)"
    "get q1 (length d) = (e, q2)"
  shows "e = d \<and> contents q2 = []"
proof -
  have "n = length d" "contents q1 = d" "invar q1"
    using put_law [OF assms(1,4)] assms(2,3) by auto
  then show ?thesis using get_law [OF _ assms(5)] by (metis append_eq_conv_conj append_self_conv
      drop_all length_append min.idem order_refl take_all)
qed

end

text \<open>The ring buffer while it streams (state 2), with a user buffer that can be written.\<close>

definition rb_put :: "ringbuffer \<Rightarrow> u8 list \<Rightarrow> nat \<times> ringbuffer" where
  "rb_put rb d = (let (ret, n, rb') = ringbuffer_write_atomic rb d in (n, rb'))"

definition rb_get :: "ringbuffer \<Rightarrow> nat \<Rightarrow> u8 list \<times> ringbuffer" where
  "rb_get rb k = (let (ret, n, d, rb') = ringbuffer_read_user (\<lambda>_ _. 0) rb k in (d, rb'))"

definition rb_streaming :: "ringbuffer \<Rightarrow> bool" where
  "rb_streaming rb \<longleftrightarrow> rb_wf rb \<and> rb_state rb = 2"

interpretation rbq: byte_queue rb_put rb_get rb_list rb_size rb_streaming
proof
  fix q d n q'
  assume q: "rb_streaming q" and "rb_put q d = (n, q')"
  then obtain ret where w: "ringbuffer_write_atomic q d = (ret, n, q')"
    by (auto simp: rb_put_def split: prod.splits)
  have wf: "rb_wf q" "rb_state q = 2" using q by (auto simp: rb_streaming_def)
  note S = ringbuffer_write_step [OF wf refl w] and B = ringbuffer_write_bytes [OF wf refl w]
  show "rb_streaming q' \<and> rb_size q' = rb_size q \<and> rb_list q' = rb_list q @ take n d \<and>
      n = min (length d) (rb_size q - length (rb_list q))"
    using S B wf by (simp add: rb_streaming_def)
next
  fix q k d q'
  assume q: "rb_streaming q" and "rb_get q k = (d, q')"
  then obtain ret m where r: "ringbuffer_read_user (\<lambda>_ _. 0) q k = (ret, m, d, q')"
    by (auto simp: rb_get_def split: prod.splits)
  have wf: "rb_wf q" "rb_state q = 2" using q by (auto simp: rb_streaming_def)
  note S = ringbuffer_read_step [OF wf(1) _ refl r]
  show "rb_streaming q' \<and> rb_size q' = rb_size q \<and> d @ rb_list q' = rb_list q \<and>
      length d = min k (length (rb_list q))"
    using S wf by (auto simp: rb_streaming_def)
next
  fix q
  assume "rb_streaming q"
  then show "length (rb_list q) \<le> rb_size q" by (simp add: rb_streaming_def rb_wf_def)
qed

section \<open>The specification of the buffer and its refinement\<close>

text \<open>
  Seen from outside the buffer is a phase (0 stopped, 1 started, 2 streaming), a capacity and a
  list of bytes; \<open>pages_held\<close> says that memory is allocated. \<open>Alloc n p\<close> asks for
  \<open>n\<close> bytes, with \<open>p\<close> the kernel's answer to this call, should it be asked. \<open>Read n u1 u2\<close> is a read of \<open>n\<close> bytes
  whose first \<^verbatim>\<open>copy_to_user\<close> leaves \<open>u1\<close> bytes uncopied and whose second, if the read wraps, \<open>u2\<close>
  (at most what it was asked to copy). Where the array ends is not visible outside, so the
  specification of a read checks the reply: the bytes delivered are the oldest of the queue, they
  leave it, the result is \<open>-EFAULT\<close> exactly when bytes asked for and present are missing, and none
  is missing when every copy succeeds.
\<close>

record rb_spec =
  phase :: nat
  cap :: nat
  pages_held :: bool
  queue :: "u8 list"

datatype rb_op = Alloc nat "u8 list option" | Free | Reset | Start | Stop | Ready | Write "u8 list"
  | Read nat nat nat

definition rb_abs :: "ringbuffer \<Rightarrow> rb_spec" where
  "rb_abs rb = \<lparr> phase = rb_state rb, cap = rb_size rb, pages_held = (rb_buf rb \<noteq> None),
                 queue = rb_list rb \<rparr>"

fun spec_exec :: "rb_spec \<Rightarrow> rb_op \<Rightarrow> (int \<times> u8 list) \<times> rb_spec" where
  "spec_exec a (Alloc n p) =
     (if n > INT_MAX then ((- EINVAL, []), a)
      else if phase a \<noteq> 0 then ((- EBUSY, []), a)
      else if pages_held a \<and> cap a = n then ((0, []), a\<lparr>cap := 0, queue := []\<rparr>)
      else if p \<noteq> None then ((0, []), a\<lparr>cap := n, pages_held := True, queue := []\<rparr>)
      else ((- ENOMEM, []), a\<lparr>cap := 0, pages_held := False, queue := []\<rparr>))"
| "spec_exec a Free =
     (if phase a \<noteq> 0 then ((- EBUSY, []), a)
      else ((0, []), a\<lparr>cap := 0, pages_held := False, queue := []\<rparr>))"
| "spec_exec a Reset =
     (if phase a \<noteq> 0 then ((- EBUSY, []), a) else ((0, []), a\<lparr>queue := []\<rparr>))"
| "spec_exec a Start = (if phase a \<noteq> 0 then ((- EALREADY, []), a) else ((0, []), a\<lparr>phase := 1\<rparr>))"
| "spec_exec a Stop = ((if phase a = 0 then - EALREADY else 0, []), a\<lparr>phase := 0\<rparr>)"
| "spec_exec a Ready =
     (if phase a = 0 then ((- EINVAL, []), a)
      else ((0, []), if phase a = 1 then a\<lparr>phase := 2\<rparr> else a))"
| "spec_exec a (Write d) =
     (if phase a \<noteq> 2 then ((- EINVAL, []), a)
      else ((if length d \<le> cap a - length (queue a) then 0 else - EOVERFLOW, []),
            a\<lparr>queue := queue a @ take (cap a - length (queue a)) d\<rparr>))"
| "spec_exec a (Read n _ _) = ((0, take n (queue a)), a\<lparr>queue := drop n (queue a)\<rparr>)"

fun spec_accepts :: "rb_spec \<Rightarrow> rb_op \<Rightarrow> int \<times> u8 list \<Rightarrow> rb_spec option" where
  "spec_accepts a (Read n u1 u2) (ret, d) =
     (let k = min n (length (queue a)); m = length d
      in if m \<le> k \<and> d = take m (queue a) \<and> ret = (if m = k then 0 else - EFAULT) \<and>
            (u1 = 0 \<and> u2 = 0 \<longrightarrow> m = k)
         then Some (a\<lparr>queue := drop m (queue a)\<rparr>) else None)"
| "spec_accepts a x r =
     (let (r', a') = spec_exec a x in if r = r' then Some a' else None)"

definition uncopied_of :: "nat \<Rightarrow> nat \<Rightarrow> nat \<Rightarrow> nat \<Rightarrow> nat" where
  "uncopied_of u1 u2 off i = min i (if off = 0 then u1 else u2)"

fun rb_exec :: "ringbuffer \<Rightarrow> rb_op \<Rightarrow> (int \<times> u8 list) \<times> ringbuffer" where
  "rb_exec rb (Alloc n p) = (let (r, rb') = ringbuffer_alloc (\<lambda>_. p) rb n in ((r, []), rb'))"
| "rb_exec rb Free = (let (r, rb') = ringbuffer_free rb in ((r, []), rb'))"
| "rb_exec rb Reset = (let (r, rb') = ringbuffer_reset rb in ((r, []), rb'))"
| "rb_exec rb Start = (let (r, rb') = ringbuffer_start rb in ((r, []), rb'))"
| "rb_exec rb Stop = (let (r, rb') = ringbuffer_stop rb in ((r, []), rb'))"
| "rb_exec rb Ready = (let (r, rb') = ringbuffer_ready_read rb in ((r, []), rb'))"
| "rb_exec rb (Write d) = (let (r, n, rb') = ringbuffer_write_atomic rb d in ((r, []), rb'))"
| "rb_exec rb (Read k u1 u2) =
     (let (r, n, d, rb') = ringbuffer_read_user (uncopied_of u1 u2) rb k in ((r, d), rb'))"

fun rb_session :: "ringbuffer \<Rightarrow> rb_op list \<Rightarrow> (int \<times> u8 list) list \<times> ringbuffer" where
  "rb_session rb [] = ([], rb)"
| "rb_session rb (x # xs) =
     (let (r, rb1) = rb_exec rb x; (rs, rb2) = rb_session rb1 xs in (r # rs, rb2))"

fun spec_session :: "rb_spec \<Rightarrow> rb_op list \<Rightarrow> (int \<times> u8 list) list \<Rightarrow> rb_spec option" where
  "spec_session a [] [] = Some a"
| "spec_session a (x # xs) (r # rs) =
     (case spec_accepts a x r of None \<Rightarrow> None
      | Some a1 \<Rightarrow> spec_session a1 xs rs)"
| "spec_session _ _ _ = None"

text \<open>
  A read that wraps and fails in its first copy breaks the buffer (lemma
  \<open>ringbuffer_read_fault_corrupts_head\<close>); every other call is in order, failed copies included.
  \<^verbatim>\<open>__get_free_pages(get_order(n))\<close> returns at least \<open>n\<close> bytes or fails.
\<close>

fun rb_op_in_order :: "ringbuffer \<Rightarrow> rb_op \<Rightarrow> bool" where
  "rb_op_in_order rb (Read n u1 u2) \<longleftrightarrow>
     rb_head rb + min n (actual_size rb) \<le> rb_size rb \<or> u1 = 0"
| "rb_op_in_order rb (Alloc n p) \<longleftrightarrow> (\<forall>b. p = Some b \<longrightarrow> n \<le> length b)"
| "rb_op_in_order rb _ \<longleftrightarrow> True"

fun rb_in_order :: "ringbuffer \<Rightarrow> rb_op list \<Rightarrow> bool" where
  "rb_in_order rb [] \<longleftrightarrow> True"
| "rb_in_order rb (x # xs) \<longleftrightarrow>
     rb_op_in_order rb x \<and> rb_in_order (snd (rb_exec rb x)) xs"

lemmas rb_ops_def = ringbuffer_alloc_def ringbuffer_free_def ringbuffer_reset_def
  ringbuffer_start_def ringbuffer_stop_def ringbuffer_ready_read_def ringbuffer_lock_def
  ringbuffer_unlock_def ringbuffer_free_nolock_def ringbuffer_reset_nolock_def

lemma rb_list_empty [simp]: "actual_size rb = 0 \<Longrightarrow> rb_list rb = []"
  by (simp add: rb_list_def)

lemma ringbuffer_write_keeps_buf:
  "rb_buf rb \<noteq> None \<Longrightarrow> rb_buf (snd (snd (ringbuffer_write_atomic rb d))) \<noteq> None"
  by (simp add: ringbuffer_write_atomic_def Let_def)

lemma ringbuffer_read_keeps_buf:
  "rb_buf (snd (snd (snd (ringbuffer_read_user u rb k)))) = rb_buf rb"
  by (simp add: ringbuffer_read_user_def Let_def)

lemma rb_exec_refines:
  assumes "rb_wf rb" "rb_op_in_order rb x" "rb_exec rb x = (r, rb')"
  shows "rb_wf rb' \<and> spec_accepts (rb_abs rb) x r = Some (rb_abs rb')"
proof (cases x)
  case (Alloc n p)
  show ?thesis using assms unfolding Alloc
    by (auto simp: rb_ops_def rb_abs_def rb_wf_def rb_bytes_def Let_def
        split: if_splits option.splits)
next
  case (Write d)
  show ?thesis
  proof (cases "rb_state rb = 2")
    case True
    obtain ret n where w: "ringbuffer_write_atomic rb d = (ret, n, rb')" "r = (ret, [])"
      using assms(3) Write by (auto split: prod.splits)
    note W = ringbuffer_write_bytes [OF assms(1) True refl w(1)]
      and S = ringbuffer_write_step [OF assms(1) True refl w(1)]
    have buf: "rb_buf rb \<noteq> None \<longleftrightarrow> rb_buf rb' \<noteq> None"
    proof (cases "rb_buf rb")
      case None
      then have "rb_size rb = 0" using assms(1) by (simp add: rb_wf_def rb_bytes_def)
      then show ?thesis using W(9) by simp
    next
      case (Some b)
      then show ?thesis using ringbuffer_write_keeps_buf [of rb d] w(1) by simp
    qed
    have t: "take (min (length d) k) d = take k d" for k by (simp add: min_def)
    show ?thesis using W(2,5,6) S True buf w(2) assms(1)
      by (auto simp: Write rb_abs_def t min_def)
  next
    case False
    then show ?thesis using assms
      by (auto simp: Write rb_abs_def ringbuffer_write_atomic_def)
  qed
next
  case (Read k u1 u2)
  let ?u = "uncopied_of u1 u2" and ?k = "min k (actual_size rb)"
  obtain ret n d where w: "ringbuffer_read_user ?u rb k = (ret, n, d, rb')" "r = (ret, d)"
    using assms(3) Read by (auto split: prod.splits)
  have buf: "rb_buf rb' = rb_buf rb"
    using ringbuffer_read_keeps_buf [of ?u rb k] w(1) by simp
  have ord: "rb_head rb + ?k \<le> rb_size rb \<or> ?u 0 (rb_size rb - rb_head rb) = 0"
    using assms(2) Read by (auto simp: uncopied_of_def)
  have le: "\<forall>off i. ?u off i \<le> i" by (simp add: uncopied_of_def)
  note S = ringbuffer_read_fault_step [OF assms(1) refl le ord refl w(1)]
  have res: "read_residue ?u rb ?k \<le> ?k" "u1 = 0 \<and> u2 = 0 \<longrightarrow> read_residue ?u rb ?k = 0"
    by (auto simp: read_residue_def uncopied_of_def)
  then have d: "length d = ?k - read_residue ?u rb ?k" using S by simp
  have ret: "ret = (if length d = ?k then 0 else - EFAULT)" using S d res(1) by auto
  have q: "take (length d) (rb_list rb) = d" "rb_list rb' = drop (length d) (rb_list rb)"
    using S d by simp_all
  have len: "length d \<le> ?k" "u1 = 0 \<and> u2 = 0 \<longrightarrow> length d = ?k" using d res by auto
  have "rb_abs rb' = (rb_abs rb)\<lparr>queue := drop (length d) (rb_list rb)\<rparr>"
    using S buf q(2) by (simp add: rb_abs_def)
  moreover have "queue (rb_abs rb) = rb_list rb" by (simp add: rb_abs_def)
  moreover have "rb_wf rb'" using S by simp
  ultimately show ?thesis using q(1) ret len w(2) by (simp add: Read Let_def)
qed (use assms in \<open>auto simp: rb_ops_def rb_abs_def rb_wf_def rb_bytes_def
    rb_list_def split: if_splits\<close>)

end
