(* ===== verification/Ringbuffer_Props.thy ===== *)
theory Ringbuffer_Props
  imports Ringbuffer
begin

text \<open>The correctness properties of the ring buffer, run by one thread at a time.\<close>

lemma rb_session_refines:
  assumes "rb_wf rb" "rb_in_order rb ops" "rb_session rb ops = (rs, rb')"
  shows "rb_wf rb' \<and> spec_session (rb_abs rb) ops rs = Some (rb_abs rb')"
  using assms
proof (induction ops arbitrary: rb rs)
  case (Cons x xs)
  obtain r rb1 where x: "rb_exec rb x = (r, rb1)" by fastforce
  obtain rs2 where xs: "rb_session rb1 xs = (rs2, rb')" "rs = r # rs2"
    using Cons.prems(3) x by (auto split: prod.splits)
  show ?case
    using rb_exec_refines [OF Cons.prems(1) _ x] Cons.IH [OF _ _ xs(1)] xs(2) x
      Cons.prems(2) by simp
qed simp

lemma rb_created_wf: "ringbuffer_create True = Inr rb \<Longrightarrow> rb_wf rb"
  by (auto simp: ringbuffer_create_def rb_wf_def rb_bytes_def)

text \<open>C7: for every sequence of calls (allocate, free, reset, start, stop, ready, write, read) on
  a newly created ring buffer, allocations that fail and reads whose copies to user space fail
  included, provided no read that wraps fails in its first copy (before the end of the array) and
  the kernel never returns less memory than was asked for, the replies are those the
  specification accepts, a phase with a bounded byte list: a read delivers the oldest bytes, keeps
  those that did not arrive and reports -EFAULT exactly when some did not. The buffer's
  representation invariant holds after it.\<close>

theorem ringbuffer_refines_spec:
  assumes "ringbuffer_create True = Inr rb" "rb_in_order rb ops" "rb_session rb ops = (rs, rb')"
  shows "rb_wf rb' \<and>
    spec_session \<lparr>phase = 0, cap = 0, pages_held = False, queue = []\<rparr> ops rs =
      Some (rb_abs rb')"
proof -
  have "rb_abs rb = \<lparr>phase = 0, cap = 0, pages_held = False, queue = []\<rparr>"
    using assms(1) by (auto simp: ringbuffer_create_def rb_abs_def)
  then show ?thesis using rb_session_refines [OF rb_created_wf [OF assms(1)] assms(2,3)] by simp
qed

text \<open>The first allocation fails; the first read fails after one byte; the last one wraps and fails
  in its second copy.\<close>

definition demo_ops :: "rb_op list" where
  "demo_ops = [Alloc 4 None, Alloc 4 (Some [0, 0, 0, 0]), Start, Write [9], Ready, Write [1, 2, 3], Read 2 1 0, Read 1 0 0,
     Write [4, 5, 6], Read 9 0 1]"

definition demo_rb :: ringbuffer where
  "demo_rb = \<lparr> rb_state = 0, rw_count = 0, wait_count = 0, rb_buf = None, rb_size = 0,
     actual_size = 0, rb_head = 0, rb_tail = 0 \<rparr>"

definition demo_replies :: "(int \<times> u8 list) list" where
  "demo_replies = [(- ENOMEM, []), (0, []), (0, []), (- EINVAL, []), (0, []), (0, []), (- EFAULT, [1]), (0, [2]),
     (0, []), (- EFAULT, [3, 4, 5])]"

theorem ringbuffer_refines_spec_witness:
  "\<exists>rb'. rb_session demo_rb demo_ops = (demo_replies, rb') \<and> rb_wf rb' \<and>
    spec_session \<lparr>phase = 0, cap = 0, pages_held = False, queue = []\<rparr> demo_ops demo_replies =
      Some (rb_abs rb')"
proof -
  note ev = demo_rb_def demo_ops_def demo_replies_def rb_ops_def uncopied_of_def
    ringbuffer_write_atomic_def ringbuffer_read_user_def blit_def
  have "ringbuffer_create True = Inr demo_rb"
    by (simp add: ringbuffer_create_def demo_rb_def)
  moreover have "rb_in_order demo_rb demo_ops" by (simp add: ev)
  moreover have "fst (rb_session demo_rb demo_ops) = demo_replies" by (simp add: ev)
  then obtain rb' where r: "rb_session demo_rb demo_ops = (demo_replies, rb')"
    by (metis prod.collapse)
  ultimately show ?thesis using ringbuffer_refines_spec [OF _ _ r] r by blast
qed

text \<open>While the buffer streams, under any schedule of writes and reads of any sizes, the bytes
  delivered to the reader followed by the bytes left in the buffer are the bytes that were there
  followed by the bytes the writer's calls accepted: nothing is lost, repeated or reordered.\<close>

theorem ringbuffer_fifo:
  assumes "rb_streaming rb" "rbq.run rb ops = (accepted, delivered, rb')"
  shows "rb_streaming rb' \<and> rb_list rb @ accepted = delivered @ rb_list rb' \<and>
    length (rb_list rb') \<le> rb_size rb'"
  using rbq.run_fifo [OF assms] rbq.bounded by blast

theorem ringbuffer_fifo_witness:
  "\<exists>rb'. rbq.run (demo_rb\<lparr>rb_state := 2, rb_buf := Some [0, 0, 0], rb_size := 3\<rparr>)
       [Put [1, 2], Get 1, Put [3, 4, 5], Get 2] = ([1, 2, 3, 4], [1, 2, 3], rb') \<and>
     [1, 2, 3, 4] = [1, 2, 3] @ rb_list rb'"
proof -
  let ?rb = "demo_rb\<lparr>rb_state := 2, rb_buf := Some [0, 0, 0], rb_size := 3\<rparr>"
  obtain a d rb' where r: "rbq.run ?rb [Put [1, 2], Get 1, Put [3, 4, 5], Get 2] = (a, d, rb')"
    by (metis prod_cases3)
  then have "a = [1, 2, 3, 4]" "d = [1, 2, 3]"
    by (simp_all add: rbq.run.simps rb_put_def rb_get_def demo_rb_def ringbuffer_write_atomic_def
        ringbuffer_read_user_def blit_def)
  moreover have "rb_streaming ?rb" by (simp add: rb_streaming_def rb_wf_def rb_bytes_def demo_rb_def)
  moreover have "rb_list ?rb = []" by (simp add: demo_rb_def)
  ultimately show ?thesis using ringbuffer_fifo [OF _ r] r by auto
qed

text \<open>A read whose copy to user space fails part of the way reports -EFAULT and the number of
  bytes that did arrive, delivers exactly these bytes of the queue and keeps the others for the
  next read, provided a read that wraps does not fail before the end of the array.\<close>

theorem ringbuffer_read_fault_keeps_rest:
  assumes "rb_wf rb" "\<forall>off i. uncopied off i \<le> i" "k = min len (actual_size rb)"
    "rb_head rb + k \<le> rb_size rb \<or> uncopied 0 (rb_size rb - rb_head rb) = 0"
    "ringbuffer_read_user uncopied rb len = (ret, n, data, rb')"
  shows "rb_wf rb' \<and> data @ rb_list rb' = rb_list rb \<and> length data = n \<and>
    n = k - read_residue uncopied rb k \<and> (ret = - EFAULT \<longleftrightarrow> n \<noteq> k)"
proof -
  have "uncopied off (k - j) \<le> k" for off j using assms(2) by (meson diff_le_self order_trans)
  then have "read_residue uncopied rb k \<le> k" using assms(2) by (simp add: read_residue_def)
  moreover note ringbuffer_read_fault_step [OF assms(1,3,2,4) refl assms(5)]
  moreover have "k \<le> length (rb_list rb)" using assms(3) by simp
  ultimately show ?thesis by auto
qed

theorem ringbuffer_read_fault_keeps_rest_witness:
  "\<exists>rb'. ringbuffer_read_user (\<lambda>off n. if off = 0 then 0 else 1)
      (demo_rb\<lparr>rb_buf := Some [1, 2, 3], rb_size := 3, actual_size := 3, rb_head := 2, rb_tail := 2\<rparr>) 3
        = (- EFAULT, 2, [3, 1], rb') \<and> rb_list rb' = [2]"
proof -
  let ?rb = "demo_rb\<lparr>rb_buf := Some [1, 2, 3], rb_size := 3, actual_size := 3, rb_head := 2, rb_tail := 2\<rparr>"
  let ?f = "\<lambda>off n. if off = 0 \<or> n = 0 then 0 else 1 :: nat"
  obtain ret n data rb' where r: "ringbuffer_read_user ?f ?rb 3 = (ret, n, data, rb')"
    by (metis prod_cases4)
  have f: "ringbuffer_read_user (\<lambda>off n. if off = 0 then 0 else 1) ?rb 3 =
      ringbuffer_read_user ?f ?rb 3"
    by (simp add: ringbuffer_read_user_def demo_rb_def)
  have v: "ret = - EFAULT" "n = 2" "data = [3, 1]"
    using r by (auto simp: ringbuffer_read_user_def demo_rb_def)
  have l: "rb_list ?rb = [3, 1, 2]"
    by (simp add: rb_list_def ring_list_def rb_bytes_def demo_rb_def upt_rec)
  have "rb_wf ?rb" by (simp add: rb_wf_def rb_bytes_def demo_rb_def)
  then have "data @ rb_list rb' = rb_list ?rb"
    using ringbuffer_read_fault_keeps_rest [OF _ _ refl _ r] by (simp add: demo_rb_def)
  then show ?thesis using v l r f by auto
qed

text \<open>A read that wraps and fails before the end of the array with more bytes uncopied than
  lie behind the end leaves the head outside the buffer.\<close>

theorem ringbuffer_read_fault_corrupts_head:
  assumes "rb_wf rb" "k = min len (actual_size rb)" "rb_size rb < rb_head rb + k"
    "res = uncopied 0 (rb_size rb - rb_head rb)" "k < res + (rb_size rb - rb_head rb)"
    "0 < res" "res \<le> rb_size rb - rb_head rb"
    "ringbuffer_read_user uncopied rb len = (ret, n, data, rb')"
  shows "ret = - EFAULT \<and> n \<noteq> length data \<and> rb_size rb' < rb_head rb' \<and> \<not> rb_wf rb'"
proof -
  let ?t = "rb_size rb - rb_head rb"
  have k: "(if len \<le> actual_size rb then len else actual_size rb) = k" using assms(2) by auto
  note eq = assms(8) [unfolded ringbuffer_read_user_def Let_def k, symmetric]
  have wf: "length (rb_bytes rb) = rb_size rb" "rb_head rb < rb_size rb" "k \<le> rb_size rb"
    "rb_size rb \<le> INT_MAX"
    using assms(1-3) by (auto simp: rb_wf_def split: if_splits)
  have br: "k \<noteq> 0" "\<not> rb_head rb + k \<le> rb_size rb" using assms(3) wf by auto
  have e: "ret = - EFAULT" "n = k - res" "rb_head rb' = size_sub n ?t"
    "rb_size rb' = rb_size rb" "length data \<le> ?t - res"
    using eq br assms(4,6) by simp_all
  have "n < ?t" "?t \<le> 4294967296" using e(2) assms(5,6) wf by auto
  then have "4294967296 < rb_head rb'" unfolding e(3) by (rule size_sub_wraps)
  then have "rb_size rb' < rb_head rb'" using e(4) wf by simp
  moreover have "n \<noteq> length data" using e(2,5) assms(3,6,7) wf by linarith
  ultimately show ?thesis using e(1) by (auto simp: rb_wf_def split: if_splits)
qed

theorem ringbuffer_read_fault_corrupts_head_witness:
  "\<exists>ret n data rb'. ringbuffer_read_user (\<lambda>off n. n)
      (demo_rb\<lparr>rb_buf := Some [1, 2, 3], rb_size := 3, actual_size := 3, rb_head := 1, rb_tail := 1\<rparr>) 3
        = (ret, n, data, rb') \<and> \<not> rb_wf rb'"
proof -
  let ?rb = "demo_rb\<lparr>rb_buf := Some [1, 2, 3], rb_size := 3, actual_size := 3, rb_head := 1, rb_tail := 1\<rparr>"
  obtain ret n data rb' where r: "ringbuffer_read_user (\<lambda>off n. n) ?rb 3 = (ret, n, data, rb')"
    by (metis prod_cases4)
  have "rb_wf ?rb" by (simp add: rb_wf_def rb_bytes_def demo_rb_def)
  then have "\<not> rb_wf rb'"
    using ringbuffer_read_fault_corrupts_head [OF _ refl _ refl _ _ _ r] by (simp add: demo_rb_def)
  then show ?thesis using r by auto
qed

end
