(* ===== verification/Ringbuffer_Conc.thy ===== *)
theory Ringbuffer_Conc
  imports Ringbuffer
begin

text \<open>
  The reader (read(2), process context) and the writer (URB completion handler) of
  driver/ringbuffer.c running at the same time. Every access to a counter that the other side
  changes is a step of its own, and both copies go byte by byte, so that a step of one side can
  fall between any two bytes of the other. \<open>accepted\<close> and \<open>delivered\<close> record the bytes whose
  \<^verbatim>\<open>actual_size\<close> update has happened. Steps are sequentially consistent: the code's acquire and
  release accesses to \<^verbatim>\<open>actual_size\<close> order the copies against it. A third party may stop the
  stream at any moment.
\<close>

datatype reader =
    RIdle
  | REntered nat
  | RCopying nat nat "u8 list"
  | RMoved nat "u8 list"
  | RLeaving

datatype writer =
    WIdle
  | WChecked "u8 list"
  | WEntered "u8 list"
  | WCopying nat nat "u8 list" nat
  | WMoved nat "u8 list"
  | WLeaving

record rb_threads =
  shared :: ringbuffer
  rdr :: reader
  wtr :: writer
  accepted :: "u8 list"
  delivered :: "u8 list"

definition ring_pos :: "nat \<Rightarrow> nat \<Rightarrow> nat \<Rightarrow> nat" where
  "ring_pos sz start i = (if start + i < sz then start + i else start + i - sz)"

definition cell :: "ringbuffer \<Rightarrow> nat \<Rightarrow> u8" where
  "cell rb i = (case rb_buf rb of None \<Rightarrow> 0 | Some m \<Rightarrow> m ! i)"

definition set_cell :: "nat \<Rightarrow> u8 \<Rightarrow> ringbuffer \<Rightarrow> ringbuffer" where
  "set_cell i v rb = rb\<lparr>rb_buf := map_option (\<lambda>m. m[i := v]) (rb_buf rb)\<rparr>"

inductive rb_step :: "rb_threads \<Rightarrow> rb_threads \<Rightarrow> bool" where
  r_enter: "rdr c = RIdle \<Longrightarrow>
    rb_step c (c\<lparr>shared := (shared c)\<lparr>rw_count := rw_count (shared c) + 1\<rparr>, rdr := REntered k\<rparr>)"
| r_load: "rdr c = REntered k \<Longrightarrow> n = min k (actual_size (shared c)) \<Longrightarrow>
    rb_step c (c\<lparr>rdr := (if n = 0 then RLeaving else RCopying (rb_head (shared c)) n [])\<rparr>)"
| r_copy: "rdr c = RCopying h n d \<Longrightarrow> length d < n \<Longrightarrow>
    rb_step c (c\<lparr>rdr := RCopying h n
      (d @ [cell (shared c) (ring_pos (rb_size (shared c)) h (length d))])\<rparr>)"
| r_move: "rdr c = RCopying h n d \<Longrightarrow> length d = n \<Longrightarrow>
    rb_step c (c\<lparr>shared := (shared c)\<lparr>rb_head := ring_pos (rb_size (shared c)) h n\<rparr>, rdr := RMoved n d\<rparr>)"
| r_release: "rdr c = RMoved n d \<Longrightarrow>
    rb_step c (c\<lparr>shared := (shared c)\<lparr>actual_size := actual_size (shared c) - n\<rparr>, rdr := RLeaving,
      delivered := delivered c @ d\<rparr>)"
| r_leave: "rdr c = RLeaving \<Longrightarrow>
    rb_step c (c\<lparr>shared := (shared c)\<lparr>rw_count := rw_count (shared c) - 1\<rparr>, rdr := RIdle\<rparr>)"
| w_check: "wtr c = WIdle \<Longrightarrow> rb_state (shared c) = 2 \<Longrightarrow> rb_step c (c\<lparr>wtr := WChecked d\<rparr>)"
| w_enter: "wtr c = WChecked d \<Longrightarrow>
    rb_step c (c\<lparr>shared := (shared c)\<lparr>rw_count := rw_count (shared c) + 1\<rparr>, wtr := WEntered d\<rparr>)"
| w_load: "wtr c = WEntered d \<Longrightarrow> n = min (length d) (rb_size (shared c) - actual_size (shared c)) \<Longrightarrow>
    rb_step c (c\<lparr>wtr := (if n = 0 then WLeaving else WCopying (rb_tail (shared c)) n d 0)\<rparr>)"
| w_copy: "wtr c = WCopying t n d i \<Longrightarrow> i < n \<Longrightarrow>
    rb_step c (c\<lparr>shared := set_cell (ring_pos (rb_size (shared c)) t i) (d ! i) (shared c),
      wtr := WCopying t n d (i + 1)\<rparr>)"
| w_move: "wtr c = WCopying t n d i \<Longrightarrow> i = n \<Longrightarrow>
    rb_step c (c\<lparr>shared := (shared c)\<lparr>rb_tail := ring_pos (rb_size (shared c)) t n\<rparr>, wtr := WMoved n d\<rparr>)"
| w_release: "wtr c = WMoved n d \<Longrightarrow>
    rb_step c (c\<lparr>shared := (shared c)\<lparr>actual_size := actual_size (shared c) + n\<rparr>, wtr := WLeaving,
      accepted := accepted c @ take n d\<rparr>)"
| w_leave: "wtr c = WLeaving \<Longrightarrow>
    rb_step c (c\<lparr>shared := (shared c)\<lparr>rw_count := rw_count (shared c) - 1\<rparr>, wtr := WIdle\<rparr>)"
| stop: "rb_step c (c\<lparr>shared := snd (ringbuffer_stop (shared c))\<rparr>)"

definition rb_initial :: "ringbuffer \<Rightarrow> rb_threads \<Rightarrow> bool" where
  "rb_initial rb c \<longleftrightarrow> rb_wf rb \<and> 0 < rb_size rb \<and> actual_size rb = 0 \<and> rb_head rb = 0 \<and>
     rw_count rb = 0 \<and>
     c = \<lparr>shared = rb, rdr = RIdle, wtr = WIdle, accepted = [], delivered = []\<rparr>"

section \<open>Arithmetic of positions\<close>

lemma ring_pos_mod: "i \<le> s \<Longrightarrow> 0 < s \<Longrightarrow> ring_pos s (x mod s) i = (x + i) mod s"
proof -
  assume "i \<le> s" "0 < s"
  then have "x mod s < s" by simp
  then have "x mod s + i < 2 * s" using \<open>i \<le> s\<close> by linarith
  then have "(x mod s + i) mod s = (if x mod s + i < s then x mod s + i else x mod s + i - s)"
    by (auto simp: mod_less_double mult_2)
  then show ?thesis by (simp add: ring_pos_def mod_add_left_eq)
qed

lemma mod_window_distinct:
  fixes a b s :: nat
  assumes "a < b" "b < a + s"
  shows "a mod s \<noteq> b mod s"
proof
  assume "a mod s = b mod s"
  then have "s dvd b - a" using assms(1) by (metis less_imp_le mod_eq_dvd_iff_nat)
  then show False using assms by (auto dest: dvd_imp_le)
qed

section \<open>The invariant\<close>

text \<open>
  Positions are counted from the start of the stream: the reader stands at \<open>length D\<close>, the writer
  at \<open>length A\<close>, and both stay within one buffer size.
\<close>

definition window_inv :: "ringbuffer \<Rightarrow> u8 list \<Rightarrow> u8 list \<Rightarrow> bool" where
  "window_inv b A D \<longleftrightarrow> 0 < rb_size b \<and> (\<exists>m. rb_buf b = Some m \<and> rb_size b \<le> length m) \<and>
     length D \<le> length A \<and> D = take (length D) A \<and> actual_size b = length A - length D \<and>
     length A \<le> length D + rb_size b \<and>
     (\<forall>i. length D \<le> i \<longrightarrow> i < length A \<longrightarrow> cell b (i mod rb_size b) = A ! i)"

fun reader_inv :: "ringbuffer \<Rightarrow> u8 list \<Rightarrow> nat \<Rightarrow> reader \<Rightarrow> bool" where
  "reader_inv b A D (RCopying h n d) \<longleftrightarrow> rb_head b = h \<and> h = D mod rb_size b \<and> length d \<le> n \<and>
     D + n \<le> length A \<and> d = take (length d) (drop D A)"
| "reader_inv b A D (RMoved n d) \<longleftrightarrow> rb_head b = (D + n) mod rb_size b \<and> D + n \<le> length A \<and>
     d = take n (drop D A)"
| "reader_inv b A D _ \<longleftrightarrow> rb_head b = D mod rb_size b"

fun writer_inv :: "ringbuffer \<Rightarrow> nat \<Rightarrow> nat \<Rightarrow> writer \<Rightarrow> bool" where
  "writer_inv b A D (WCopying t n d i) \<longleftrightarrow> rb_tail b = t \<and> t = A mod rb_size b \<and> i \<le> n \<and>
     n \<le> length d \<and> A + n \<le> D + rb_size b \<and> (\<forall>j<i. cell b ((A + j) mod rb_size b) = d ! j)"
| "writer_inv b A D (WMoved n d) \<longleftrightarrow> rb_tail b = (A + n) mod rb_size b \<and>
     n \<le> length d \<and> A + n \<le> D + rb_size b \<and> (\<forall>j<n. cell b ((A + j) mod rb_size b) = d ! j)"
| "writer_inv b A D _ \<longleftrightarrow> rb_tail b = A mod rb_size b"

definition reader_active :: "reader \<Rightarrow> nat" where
  "reader_active r = (case r of RIdle \<Rightarrow> 0 | _ \<Rightarrow> 1)"

definition writer_active :: "writer \<Rightarrow> nat" where
  "writer_active w = (case w of WIdle \<Rightarrow> 0 | WChecked _ \<Rightarrow> 0 | _ \<Rightarrow> 1)"

definition threads_inv :: "rb_threads \<Rightarrow> bool" where
  "threads_inv c \<longleftrightarrow> window_inv (shared c) (accepted c) (delivered c) \<and>
     reader_inv (shared c) (accepted c) (length (delivered c)) (rdr c) \<and>
     writer_inv (shared c) (length (accepted c)) (length (delivered c)) (wtr c) \<and>
     rw_count (shared c) = reader_active (rdr c) + writer_active (wtr c)"

lemma cell_frame [simp]:
  "cell (b\<lparr>rw_count := x\<rparr>) i = cell b i" "cell (b\<lparr>rb_head := x\<rparr>) i = cell b i"
  "cell (b\<lparr>rb_tail := x\<rparr>) i = cell b i" "cell (b\<lparr>actual_size := x\<rparr>) i = cell b i"
  "cell (b\<lparr>rb_state := x\<rparr>) i = cell b i"
  by (simp_all add: cell_def)

lemma set_cell_frame [simp]:
  "rb_size (set_cell i v b) = rb_size b" "actual_size (set_cell i v b) = actual_size b"
  "rb_head (set_cell i v b) = rb_head b" "rb_tail (set_cell i v b) = rb_tail b"
  "rw_count (set_cell i v b) = rw_count b"
  by (simp_all add: set_cell_def)

lemma window_frame [simp]:
  "window_inv (b\<lparr>rw_count := x\<rparr>) A D = window_inv b A D"
  "window_inv (b\<lparr>rb_head := x\<rparr>) A D = window_inv b A D"
  "window_inv (b\<lparr>rb_tail := x\<rparr>) A D = window_inv b A D"
  "window_inv (b\<lparr>rb_state := x\<rparr>) A D = window_inv b A D"
  by (simp_all add: window_inv_def)

lemma reader_frame [simp]:
  "reader_inv (b\<lparr>rw_count := x\<rparr>) A D r = reader_inv b A D r"
  "reader_inv (b\<lparr>rb_tail := x\<rparr>) A D r = reader_inv b A D r"
  "reader_inv (b\<lparr>rb_state := x\<rparr>) A D r = reader_inv b A D r"
  "reader_inv (b\<lparr>actual_size := x\<rparr>) A D r = reader_inv b A D r"
  "reader_inv (set_cell i v b) A D r = reader_inv b A D r"
  by (cases r; simp)+

lemma writer_frame [simp]:
  "writer_inv (b\<lparr>rw_count := x\<rparr>) A D w = writer_inv b A D w"
  "writer_inv (b\<lparr>rb_head := x\<rparr>) A D w = writer_inv b A D w"
  "writer_inv (b\<lparr>rb_state := x\<rparr>) A D w = writer_inv b A D w"
  "writer_inv (b\<lparr>actual_size := x\<rparr>) A D w = writer_inv b A D w"
  by (cases w; simp)+

text \<open>The reader keeps its claim when the writer appends, the writer when the reader advances.\<close>

lemma reader_inv_append: "reader_inv b A D r \<Longrightarrow> reader_inv b (A @ d) D r"
  by (cases r) auto

lemma writer_inv_advance: "writer_inv b A D w \<Longrightarrow> D \<le> D' \<Longrightarrow> writer_inv b A D' w"
  by (cases w) auto

lemma cell_set_cell:
  "window_inv b A D \<Longrightarrow> i < rb_size b \<Longrightarrow> cell (set_cell i v b) k = (if k = i then v else cell b k)"
  by (auto simp: window_inv_def cell_def set_cell_def nth_list_update)

text \<open>A copied byte lands outside the window of unread bytes.\<close>

lemma window_inv_copy:
  assumes "window_inv b A D" "length A + i < length D + rb_size b"
  shows "window_inv (set_cell ((length A + i) mod rb_size b) v b) A D"
proof -
  have s: "0 < rb_size b" using assms(1) by (simp add: window_inv_def)
  have "cell (set_cell ((length A + i) mod rb_size b) v b) (k mod rb_size b) = A ! k"
    if k: "length D \<le> k" "k < length A" for k
  proof -
    have "k mod rb_size b \<noteq> (length A + i) mod rb_size b"
      using mod_window_distinct [of k "length A + i" "rb_size b"] assms(2) k by linarith
    then show ?thesis using cell_set_cell [OF assms(1)] s assms(1) k by (simp add: window_inv_def)
  qed
  moreover have "\<exists>m. rb_buf (set_cell ((length A + i) mod rb_size b) v b) = Some m \<and> rb_size b \<le> length m"
    using assms(1) by (auto simp: window_inv_def set_cell_def)
  ultimately show ?thesis using assms(1) by (simp add: window_inv_def)
qed

lemma writer_inv_copy:
  assumes "window_inv b A D" "writer_inv b (length A) (length D) (WCopying t n d i)" "i < n"
  shows "writer_inv (set_cell ((length A + i) mod rb_size b) (d ! i) b) (length A) (length D)
    (WCopying t n d (i + 1))"
proof -
  have s: "0 < rb_size b" using assms(1) by (simp add: window_inv_def)
  have "n \<le> rb_size b" using assms(1,2) by (auto simp: window_inv_def)
  then have "(length A + j) mod rb_size b \<noteq> (length A + i) mod rb_size b" if "j < i" for j
    using mod_window_distinct [of "length A + j" "length A + i" "rb_size b"] that assms(3) by simp
  then show ?thesis using assms(2,3) cell_set_cell [OF assms(1)] s by (auto simp: less_Suc_eq)
qed

lemma window_inv_release:
  assumes "window_inv b A D" "writer_inv b (length A) (length D) (WMoved n d)"
  shows "window_inv (b\<lparr>actual_size := actual_size b + n\<rparr>) (A @ take n d) D"
proof -
  have n: "n \<le> length d" using assms(2) by simp
  have "cell b (i mod rb_size b) = (A @ take n d) ! i"
    if "length D \<le> i" "i < length A + n" for i
  proof (cases "i < length A")
    case True
    then show ?thesis using assms(1) that by (simp add: window_inv_def nth_append)
  next
    case False
    then obtain j where "i = length A + j" by (metis le_Suc_ex not_less)
    then show ?thesis using assms(2) that by (simp add: nth_append)
  qed
  then show ?thesis using assms n by (auto simp: window_inv_def)
qed

lemma window_inv_consume:
  assumes "window_inv b A D" "reader_inv b A (length D) (RMoved n d)"
  shows "window_inv (b\<lparr>actual_size := actual_size b - n\<rparr>) A (D @ d)" "length d = n"
proof -
  show d: "length d = n" using assms(2) by auto
  have "D @ d = take (length D + n) A" using assms by (auto simp: window_inv_def take_add)
  then show "window_inv (b\<lparr>actual_size := actual_size b - n\<rparr>) A (D @ d)"
    using assms d by (auto simp: window_inv_def)
qed

lemma reader_copies_byte:
  assumes "window_inv b A D" "reader_inv b A (length D) (RCopying h n d)" "length d < n"
  shows "reader_inv b A (length D) (RCopying h n (d @ [cell b (ring_pos (rb_size b) h (length d))]))"
proof -
  have k: "length D + length d < length A" "length d \<le> rb_size b" "0 < rb_size b"
    using assms by (auto simp: window_inv_def)
  have "ring_pos (rb_size b) h (length d) = (length D + length d) mod rb_size b"
    using ring_pos_mod [OF k(2,3)] assms(2) by simp
  then have "cell b (ring_pos (rb_size b) h (length d)) = A ! (length D + length d)"
    using assms(1) k by (simp add: window_inv_def)
  moreover have "take (Suc (length d)) (drop (length D) A) = d @ [A ! (length D + length d)]"
    using assms(2) k by (simp add: take_Suc_conv_app_nth)
  ultimately show ?thesis using assms(2,3) by simp
qed

lemma ring_pos_writer:
  assumes "window_inv b A D" "writer_inv b (length A) (length D) (WCopying t n d i)"
  shows "ring_pos (rb_size b) t i = (length A + i) mod rb_size b"
  using assms ring_pos_mod [of i "rb_size b" "length A"] by (auto simp: window_inv_def)

lemma ring_pos_reader:
  assumes "window_inv b A D" "reader_inv b A (length D) (RCopying h n d)"
  shows "ring_pos (rb_size b) h n = (length D + n) mod rb_size b"
  using assms ring_pos_mod [of n "rb_size b" "length D"] by (auto simp: window_inv_def)

section \<open>Every interleaving\<close>

lemmas threads_inv_simps = threads_inv_def reader_active_def writer_active_def

lemma threads_inv_step:
  assumes "rb_step c c'" "threads_inv c"
  shows "threads_inv c'"
  using assms
proof (cases rule: rb_step.cases)
  case (r_load k n)
  then show ?thesis using assms(2) by (auto simp: threads_inv_simps window_inv_def)
next
  case (r_copy h n d)
  have R: "window_inv (shared c) (accepted c) (delivered c)"
    "reader_inv (shared c) (accepted c) (length (delivered c)) (RCopying h n d)"
    using assms(2) r_copy by (auto simp: threads_inv_def)
  show ?thesis using assms(2) r_copy reader_copies_byte [OF R]
    by (simp add: threads_inv_simps del: reader_inv.simps)
next
  case (r_move h n d)
  have R: "window_inv (shared c) (accepted c) (delivered c)"
    "reader_inv (shared c) (accepted c) (length (delivered c)) (RCopying h n d)"
    using assms(2) r_move by (auto simp: threads_inv_def)
  show ?thesis using assms(2) r_move ring_pos_reader [OF R] R(2)
    by (auto simp: threads_inv_simps)
next
  case (r_release n d)
  then show ?thesis
    using assms(2) window_inv_consume [of "shared c" "accepted c" "delivered c" n d]
      writer_inv_advance [of "shared c" "length (accepted c)" "length (delivered c)" "wtr c"]
    by (simp add: threads_inv_simps)
next
  case (w_load d n)
  then show ?thesis using assms(2) by (auto simp: threads_inv_simps window_inv_def)
next
  case (w_copy t n d i)
  have W: "window_inv (shared c) (accepted c) (delivered c)"
    "writer_inv (shared c) (length (accepted c)) (length (delivered c)) (WCopying t n d i)"
    using assms(2) w_copy by (auto simp: threads_inv_def)
  have "length (accepted c) + i < length (delivered c) + rb_size (shared c)"
    using W(2) w_copy by auto
  then show ?thesis
    using assms(2) w_copy window_inv_copy [OF W(1)] writer_inv_copy [OF W] ring_pos_writer [OF W]
    by (simp add: threads_inv_simps)
next
  case (w_move t n d i)
  have W: "window_inv (shared c) (accepted c) (delivered c)"
    "writer_inv (shared c) (length (accepted c)) (length (delivered c)) (WCopying t n d i)"
    using assms(2) w_move by (auto simp: threads_inv_def)
  show ?thesis using assms(2) w_move ring_pos_writer [OF W] by (simp add: threads_inv_simps)
next
  case (w_release n d)
  have W: "window_inv (shared c) (accepted c) (delivered c)"
    "writer_inv (shared c) (length (accepted c)) (length (delivered c)) (WMoved n d)"
    using assms(2) w_release by (auto simp: threads_inv_def)
  show ?thesis
    using assms(2) w_release window_inv_release [OF W] reader_inv_append W(2)
    by (simp add: threads_inv_simps min_absorb2)
next
  case stop
  then show ?thesis using assms(2) by (simp add: threads_inv_simps ringbuffer_stop_def)
qed (use assms(2) in \<open>auto simp: threads_inv_simps\<close>)

lemma threads_inv_reachable:
  assumes "rb_step\<^sup>*\<^sup>* c c'" "threads_inv c"
  shows "threads_inv c'"
  using assms by (induction rule: rtranclp_induct) (auto intro: threads_inv_step)

lemma threads_inv_initial: "rb_initial rb c \<Longrightarrow> threads_inv c"
  by (auto simp: rb_initial_def threads_inv_simps window_inv_def rb_wf_def rb_bytes_def min_def
      split: option.splits if_splits)

section \<open>One side undisturbed\<close>

text \<open>
  The steps of one call that the other side does not interrupt add up to the sequential function:
  a reader that is outside ends in the state \<open>ringbuffer_read_user\<close> computes and delivers its
  data, a writer in the state of \<open>ringbuffer_write_atomic\<close>, wherever the other side was stopped.
\<close>

lemma reader_copies:
  assumes "rdr c = RCopying h n d" "length d \<le> n"
  shows "rb_step\<^sup>*\<^sup>* c (c\<lparr>rdr := RCopying h n
    (d @ map (\<lambda>j. cell (shared c) (ring_pos (rb_size (shared c)) h j)) [length d..<n])\<rparr>)"
  using assms
proof (induction "n - length d" arbitrary: c d)
  case 0
  then have "c\<lparr>rdr := RCopying h n d\<rparr> = c" "[length d..<n] = []" by simp_all
  then show ?case by (simp only: list.map append_Nil2 rtranclp.rtrancl_refl)
next
  case (Suc m)
  let ?x = "cell (shared c) (ring_pos (rb_size (shared c)) h (length d))"
  let ?c1 = "c\<lparr>rdr := RCopying h n (d @ [?x])\<rparr>"
  have l: "length d < n" using Suc.hyps(2) by simp
  have "rb_step c ?c1" using Suc.prems(1) l by (rule r_copy)
  moreover have "rb_step\<^sup>*\<^sup>* ?c1 (?c1\<lparr>rdr := RCopying h n ((d @ [?x]) @
      map (\<lambda>j. cell (shared ?c1) (ring_pos (rb_size (shared ?c1)) h j)) [length (d @ [?x])..<n])\<rparr>)"
    using Suc.hyps(2) l by (intro Suc.hyps(1)) simp_all
  ultimately show ?case using l by (auto simp: upt_conv_Cons intro: converse_rtranclp_into_rtranclp)
qed

lemma cells_read:
  assumes "rb_buf b = Some m" "rb_size b \<le> length m" "h < rb_size b" "n \<le> rb_size b"
  shows "map (\<lambda>j. cell b (ring_pos (rb_size b) h j)) [0..<n] =
    (if h + n \<le> rb_size b then take n (drop h m)
     else take (rb_size b - h) (drop h m) @ take (n - (rb_size b - h)) m)"
  using assms by (intro nth_equalityI) (auto simp: cell_def ring_pos_def nth_append add.commute)

lemma reader_alone:
  assumes "threads_inv c" "rdr c = RIdle"
    "ringbuffer_read_user (\<lambda>_ _. 0) (shared c) k = (ret, n, d, rb')"
  shows "rb_step\<^sup>*\<^sup>* c (c\<lparr>shared := rb', delivered := delivered c @ d\<rparr>)"
proof -
  let ?b = "shared c"
  let ?n = "min k (actual_size ?b)"
  let ?c1 = "c\<lparr>shared := ?b\<lparr>rw_count := rw_count ?b + 1\<rparr>, rdr := REntered k\<rparr>"
  obtain m where b: "rb_buf ?b = Some m" "rb_size ?b \<le> length m" "rb_head ?b < rb_size ?b"
      "actual_size ?b \<le> rb_size ?b"
    using assms(1,2) by (auto simp: threads_inv_def window_inv_def)
  have s1: "rb_step c ?c1" using assms(2) by (rule r_enter)
  have R: "ringbuffer_read_user (\<lambda>_ _. 0) ?b k = (0, ?n,
      map (\<lambda>j. cell ?b (ring_pos (rb_size ?b) (rb_head ?b) j)) [0..<?n],
      if ?n = 0 then ?b
      else ?b\<lparr>rb_head := ring_pos (rb_size ?b) (rb_head ?b) ?n, actual_size := actual_size ?b - ?n\<rparr>)"
  proof -
    have k: "(if k \<le> actual_size ?b then k else actual_size ?b) = ?n" by auto
    have n: "?n \<le> rb_size ?b" using b(4) by simp
    have w: "size_sub ?n (rb_size ?b - rb_head ?b) = rb_head ?b + ?n - rb_size ?b"
      if "\<not> rb_head ?b + ?n \<le> rb_size ?b"
      using that b(3) size_sub_ge [of "rb_size ?b - rb_head ?b" ?n] by linarith
    show ?thesis unfolding cells_read [OF b(1-3) n] ringbuffer_read_user_def Let_def k
      using b(1,3,4) w by (auto simp: ring_pos_def)
  qed
  show ?thesis
  proof (cases "?n = 0")
    case True
    let ?c2 = "?c1\<lparr>rdr := RLeaving\<rparr>"
    have "rb_step ?c1 (?c1\<lparr>rdr := (if ?n = 0 then RLeaving else RCopying (rb_head (shared ?c1)) ?n [])\<rparr>)"
      by (rule r_load) simp_all
    then have "rb_step ?c1 ?c2" using True by simp
    moreover have "rb_step ?c2 (?c2\<lparr>shared := (shared ?c2)\<lparr>rw_count := rw_count (shared ?c2) - 1\<rparr>, rdr := RIdle\<rparr>)"
      by (rule r_leave) simp
    moreover have "?c2\<lparr>shared := (shared ?c2)\<lparr>rw_count := rw_count (shared ?c2) - 1\<rparr>, rdr := RIdle\<rparr> = c"
      using assms(2) by simp
    moreover have "c\<lparr>shared := rb', delivered := delivered c @ d\<rparr> = c" using R assms(3) True by simp
    ultimately show ?thesis by simp
  next
    case False
    let ?d = "map (\<lambda>j. cell ?b (ring_pos (rb_size ?b) (rb_head ?b) j)) [0..<?n]"
    let ?c2 = "?c1\<lparr>rdr := RCopying (rb_head ?b) ?n []\<rparr>"
    let ?c3 = "?c1\<lparr>rdr := RCopying (rb_head ?b) ?n ?d\<rparr>"
    let ?c4 = "?c1\<lparr>shared := (shared ?c1)\<lparr>rb_head := ring_pos (rb_size ?b) (rb_head ?b) ?n\<rparr>, rdr := RMoved ?n ?d\<rparr>"
    let ?c5 = "?c4\<lparr>shared := (shared ?c4)\<lparr>actual_size := actual_size ?b - ?n\<rparr>, rdr := RLeaving,
      delivered := delivered c @ ?d\<rparr>"
    have "rb_step ?c1 (?c1\<lparr>rdr := (if ?n = 0 then RLeaving else RCopying (rb_head (shared ?c1)) ?n [])\<rparr>)"
      by (rule r_load) simp_all
    then have s2: "rb_step ?c1 ?c2" using False by simp
    have s3: "rb_step\<^sup>*\<^sup>* ?c2 ?c3"
      using reader_copies [of ?c2 "rb_head ?b" ?n "[]"] by simp
    have s4: "rb_step ?c3 ?c4" using r_move [of ?c3 "rb_head ?b" ?n ?d] by simp
    have s5: "rb_step ?c4 ?c5" using r_release [of ?c4 ?n ?d] by simp
    have "rb' = ?b\<lparr>rb_head := ring_pos (rb_size ?b) (rb_head ?b) ?n, actual_size := actual_size ?b - ?n\<rparr>"
      "d = ?d" using R assms(3) False by simp_all
    then have "?c5\<lparr>shared := (shared ?c5)\<lparr>rw_count := rw_count (shared ?c5) - 1\<rparr>, rdr := RIdle\<rparr> =
        c\<lparr>shared := rb', delivered := delivered c @ d\<rparr>"
      using assms(2) by (intro rb_threads.equality) simp_all
    then have s6: "rb_step ?c5 (c\<lparr>shared := rb', delivered := delivered c @ d\<rparr>)"
      using r_leave [of ?c5] by simp
    show ?thesis using s1 s2 s3 s4 s5 s6 by (meson converse_rtranclp_into_rtranclp rtranclp_trans r_into_rtranclp)
  qed
qed

lemma set_cell_simps [simp]:
  "rb_buf (set_cell i v b) = map_option (\<lambda>m. m[i := v]) (rb_buf b)"
  "set_cell i v (b\<lparr>rb_buf := x\<rparr>) = b\<lparr>rb_buf := map_option (\<lambda>m. m[i := v]) x\<rparr>"
  by (simp_all add: set_cell_def)

text \<open>The bytes \<open>i\<close> to \<open>n - 1\<close> of \<open>d\<close> written around the ring from position \<open>t\<close>.\<close>

definition copy_cells :: "nat \<Rightarrow> nat \<Rightarrow> u8 list \<Rightarrow> nat \<Rightarrow> nat \<Rightarrow> u8 list \<Rightarrow> u8 list" where
  "copy_cells s t d i n m = fold (\<lambda>j m. m[ring_pos s t j := d ! j]) [i..<n] m"

lemma writer_copies:
  assumes "wtr c = WCopying t n d i" "i \<le> n"
  shows "rb_step\<^sup>*\<^sup>* c (c\<lparr>shared := (shared c)\<lparr>rb_buf :=
      map_option (copy_cells (rb_size (shared c)) t d i n) (rb_buf (shared c))\<rparr>,
    wtr := WCopying t n d n\<rparr>)"
  using assms
proof (induction "n - i" arbitrary: c i)
  case 0
  then have "c\<lparr>wtr := WCopying t n d n\<rparr> = c" "copy_cells (rb_size (shared c)) t d i n = (\<lambda>a. a)"
    by (simp_all add: copy_cells_def fun_eq_iff)
  then show ?case by (simp add: option.map_ident)
next
  case (Suc m)
  let ?c1 = "c\<lparr>shared := set_cell (ring_pos (rb_size (shared c)) t i) (d ! i) (shared c),
      wtr := WCopying t n d (i + 1)\<rparr>"
  have l: "i < n" using Suc.hyps(2) by simp
  have "rb_step c ?c1" using Suc.prems(1) l by (rule w_copy)
  moreover have "rb_step\<^sup>*\<^sup>* ?c1 (?c1\<lparr>shared := (shared ?c1)\<lparr>rb_buf :=
      map_option (copy_cells (rb_size (shared ?c1)) t d (i + 1) n) (rb_buf (shared ?c1))\<rparr>,
    wtr := WCopying t n d n\<rparr>)"
    using Suc.hyps(2) l by (intro Suc.hyps(1)) simp_all
  moreover have "copy_cells s t d i n = (\<lambda>m. copy_cells s t d (i + 1) n (m[ring_pos s t i := d ! i]))"
    for s using l by (simp add: copy_cells_def upt_conv_Cons fun_eq_iff)
  ultimately show ?case
    by (simp add: set_cell_def option.map_comp comp_def converse_rtranclp_into_rtranclp)
qed

lemma length_copy_cells [simp]: "length (copy_cells s t d i n m) = length m"
proof -
  have "length (fold (\<lambda>j m. m[ring_pos s t j := d ! j]) js m) = length m" for js
    by (induction js arbitrary: m) simp_all
  then show ?thesis by (simp add: copy_cells_def)
qed

lemma nth_copy_cells:
  assumes "s \<le> length m" "t < s" "n \<le> s" "k < length m"
  shows "copy_cells s t d 0 n m ! k =
    (let j = (if t \<le> k then k - t else k + s - t) in if k < s \<and> j < n then d ! j else m ! k)"
  using assms(3)
proof (induction n)
  case (Suc n)
  have "ring_pos s t n = k \<longleftrightarrow> k < s \<and> (if t \<le> k then k - t else k + s - t) = n"
    using assms Suc.prems by (auto simp: ring_pos_def)
  moreover have "copy_cells s t d 0 (Suc n) m = (copy_cells s t d 0 n m)[ring_pos s t n := d ! n]"
    by (simp add: copy_cells_def)
  ultimately show ?case using Suc assms by (auto simp: nth_list_update Let_def less_Suc_eq)
qed (simp add: copy_cells_def)

lemma copy_cells_blit:
  assumes "s \<le> length m" "t < s" "n \<le> s" "n \<le> length d"
  shows "copy_cells s t d 0 n m =
    (if t + n \<le> s then blit m t (take n d)
     else blit (blit m t (take (s - t) d)) 0 (drop (s - t) (take n d)))"
proof (cases "t + n \<le> s")
  case True
  then show ?thesis using assms
    by (intro nth_equalityI) (auto simp: nth_copy_cells nth_blit Let_def)
next
  case False
  have "copy_cells s t d 0 n m = blit (blit m t (take (s - t) d)) 0 (drop (s - t) (take n d))"
    using assms False
    by (intro nth_equalityI) (auto simp: nth_copy_cells nth_blit Let_def add.commute)
  then show ?thesis using False by simp
qed

lemma writer_alone:
  assumes "threads_inv c" "wtr c = WIdle" "rb_state (shared c) = 2"
    "ringbuffer_write_atomic (shared c) d = (ret, n, rb')"
  shows "rb_step\<^sup>*\<^sup>* c (c\<lparr>shared := rb', accepted := accepted c @ take n d\<rparr>)"
proof -
  let ?b = "shared c"
  let ?n = "min (length d) (rb_size ?b - actual_size ?b)"
  let ?c1 = "c\<lparr>wtr := WChecked d\<rparr>"
  let ?c2 = "c\<lparr>shared := ?b\<lparr>rw_count := rw_count ?b + 1\<rparr>, wtr := WEntered d\<rparr>"
  obtain m where b: "rb_buf ?b = Some m" "rb_size ?b \<le> length m" "rb_tail ?b < rb_size ?b"
      "actual_size ?b \<le> rb_size ?b"
    using assms(1,2) by (auto simp: threads_inv_def window_inv_def)
  let ?m = "copy_cells (rb_size ?b) (rb_tail ?b) d 0 ?n m"
  have s1: "rb_step c ?c1" using assms(2,3) by (rule w_check)
  have s2: "rb_step ?c1 ?c2" using w_enter [of ?c1 d] by simp
  have W: "n = ?n" "rb' = (if ?n = 0 then ?b else ?b\<lparr>rb_buf := Some ?m,
      rb_tail := ring_pos (rb_size ?b) (rb_tail ?b) ?n, actual_size := actual_size ?b + ?n\<rparr>)"
  proof -
    have k: "(if actual_size ?b + length d \<le> rb_size ?b then length d else rb_size ?b - actual_size ?b) = ?n"
      using b(4) by auto
    have n: "?n \<le> rb_size ?b" "?n \<le> length d" by auto
    have e: "(if length d \<noteq> ?n then - EOVERFLOW else 0, ?n, if ?n = 0 then ?b else ?b\<lparr>rb_buf := Some ?m,
        rb_tail := ring_pos (rb_size ?b) (rb_tail ?b) ?n, actual_size := actual_size ?b + ?n\<rparr>) =
        (ret, n, rb')"
      unfolding assms(4) [symmetric] copy_cells_blit [OF b(2,3) n]
        ringbuffer_write_atomic_def Let_def k
      using b(1,3) assms(3) by (simp add: ring_pos_def)
    have "fst (snd (ret, n, rb')) = ?n" "snd (snd (ret, n, rb')) =
      (if ?n = 0 then ?b else ?b\<lparr>rb_buf := Some ?m,
        rb_tail := ring_pos (rb_size ?b) (rb_tail ?b) ?n, actual_size := actual_size ?b + ?n\<rparr>)"
      unfolding e [symmetric] by simp_all
    then show "n = ?n" "rb' = (if ?n = 0 then ?b else ?b\<lparr>rb_buf := Some ?m,
      rb_tail := ring_pos (rb_size ?b) (rb_tail ?b) ?n, actual_size := actual_size ?b + ?n\<rparr>)"
      by simp_all
  qed
  have ld: "rb_step ?c2 (?c2\<lparr>wtr := (if ?n = 0 then WLeaving else WCopying (rb_tail (shared ?c2)) ?n d 0)\<rparr>)"
    by (rule w_load) simp_all
  show ?thesis
  proof (cases "?n = 0")
    case True
    let ?c3 = "?c2\<lparr>wtr := WLeaving\<rparr>"
    have s3: "rb_step ?c2 ?c3" using ld True by simp
    have "?c3\<lparr>shared := (shared ?c3)\<lparr>rw_count := rw_count (shared ?c3) - 1\<rparr>, wtr := WIdle\<rparr> =
        c\<lparr>shared := rb', accepted := accepted c @ take n d\<rparr>"
      using W True assms(2) by simp
    then have "rb_step ?c3 (c\<lparr>shared := rb', accepted := accepted c @ take n d\<rparr>)"
      using w_leave [of ?c3] by simp
    with s1 s2 s3 show ?thesis by (meson converse_rtranclp_into_rtranclp rtranclp.rtrancl_refl)
  next
    case False
    let ?c3 = "?c2\<lparr>wtr := WCopying (rb_tail ?b) ?n d 0\<rparr>"
    let ?c4 = "?c2\<lparr>shared := (shared ?c2)\<lparr>rb_buf := Some ?m\<rparr>, wtr := WCopying (rb_tail ?b) ?n d ?n\<rparr>"
    let ?c5 = "?c4\<lparr>shared := (shared ?c4)\<lparr>rb_tail := ring_pos (rb_size ?b) (rb_tail ?b) ?n\<rparr>, wtr := WMoved ?n d\<rparr>"
    let ?c6 = "?c5\<lparr>shared := (shared ?c5)\<lparr>actual_size := actual_size ?b + ?n\<rparr>, wtr := WLeaving,
      accepted := accepted c @ take ?n d\<rparr>"
    have s3: "rb_step ?c2 ?c3" using ld False by simp
    have s4: "rb_step\<^sup>*\<^sup>* ?c3 ?c4"
      using writer_copies [of ?c3 "rb_tail ?b" ?n d 0] b(1) by simp
    have s5: "rb_step ?c4 ?c5" using w_move [of ?c4 "rb_tail ?b" ?n d ?n] by simp
    have s6: "rb_step ?c5 ?c6" using w_release [of ?c5 ?n d] by simp
    have "?c6\<lparr>shared := (shared ?c6)\<lparr>rw_count := rw_count (shared ?c6) - 1\<rparr>, wtr := WIdle\<rparr> =
        c\<lparr>shared := rb', accepted := accepted c @ take n d\<rparr>"
      using W assms(2) False by (intro rb_threads.equality) simp_all
    then have s7: "rb_step ?c6 (c\<lparr>shared := rb', accepted := accepted c @ take n d\<rparr>)"
      using w_leave [of ?c6] by simp
    show ?thesis using s1 s2 s3 s4 s5 s6 s7
      by (meson converse_rtranclp_into_rtranclp rtranclp_trans r_into_rtranclp)
  qed
qed

text \<open>C8: from an allocated, empty buffer that has been reset, with copies to user space that succeed: however
  the byte copies and counter updates of one reader and one writer interleave, and
  whenever the stream is stopped, the bytes delivered are a prefix of the bytes accepted, the rest
  (at most the buffer's size) is counted by \<^verbatim>\<open>actual_size\<close>, and \<^verbatim>\<open>rw_count\<close> is zero exactly when
  neither side is inside the buffer. From every state so reached a side that is outside and runs
  one call without interruption does, step by step, what the sequential function computes: the
  reader ends in the buffer of \<open>ringbuffer_read_user\<close> and has delivered its data, the writer (while
  the stream runs) in that of \<open>ringbuffer_write_atomic\<close> and has had its bytes accepted.\<close>

theorem ringbuffer_concurrent_fifo:
  assumes "rb_initial rb c" "rb_step\<^sup>*\<^sup>* c c'"
  shows "(\<exists>rest. accepted c' = delivered c' @ rest \<and> length rest = actual_size (shared c') \<and>
      length rest \<le> rb_size (shared c')) \<and>
    (rw_count (shared c') = 0 \<longleftrightarrow> reader_active (rdr c') = 0 \<and> writer_active (wtr c') = 0) \<and>
    (\<forall>k ret n d rb'. rdr c' = RIdle \<longrightarrow>
      ringbuffer_read_user (\<lambda>_ _. 0) (shared c') k = (ret, n, d, rb') \<longrightarrow>
      rb_step\<^sup>*\<^sup>* c' (c'\<lparr>shared := rb', delivered := delivered c' @ d\<rparr>)) \<and>
    (\<forall>d ret n rb'. wtr c' = WIdle \<longrightarrow> rb_state (shared c') = 2 \<longrightarrow>
      ringbuffer_write_atomic (shared c') d = (ret, n, rb') \<longrightarrow>
      rb_step\<^sup>*\<^sup>* c' (c'\<lparr>shared := rb', accepted := accepted c' @ take n d\<rparr>))"
proof -
  have inv: "threads_inv c'" using threads_inv_reachable threads_inv_initial assms by blast
  then have W: "window_inv (shared c') (accepted c') (delivered c')"
    and R: "rw_count (shared c') = reader_active (rdr c') + writer_active (wtr c')"
    by (auto simp: threads_inv_def)
  have "accepted c' = delivered c' @ drop (length (delivered c')) (accepted c')"
    using W by (metis append_take_drop_id window_inv_def)
  then have "\<exists>rest. accepted c' = delivered c' @ rest \<and> length rest = actual_size (shared c') \<and>
      length rest \<le> rb_size (shared c')"
    using W by (intro exI) (auto simp: window_inv_def)
  then show ?thesis using R reader_alone [OF inv] writer_alone [OF inv] by auto
qed

definition conc_rb :: ringbuffer where
  "conc_rb = \<lparr> rb_state = 2, rw_count = 0, wait_count = 0, rb_buf = Some [0, 0], rb_size = 2,
     actual_size = 0, rb_head = 0, rb_tail = 0 \<rparr>"

definition conc_start :: rb_threads where
  "conc_start = \<lparr>shared = conc_rb, rdr = RIdle, wtr = WIdle, accepted = [], delivered = []\<rparr>"

text \<open>A run in which the writer puts a byte in while the reader is inside.\<close>

theorem ringbuffer_concurrent_fifo_witness:
  "\<exists>c'. rb_step\<^sup>*\<^sup>* conc_start c' \<and> rw_count (shared c') = 1 \<and> accepted c' = [7] \<and>
     rdr c' = REntered 5 \<and> actual_size (shared c') = 1"
proof -
  let ?c1 = "conc_start\<lparr>shared := (shared conc_start)\<lparr>rw_count := rw_count (shared conc_start) + 1\<rparr>,
      rdr := REntered 5\<rparr>"
  have "rb_step conc_start ?c1" by (rule r_enter) (simp add: conc_start_def)
  then have r: "rb_step\<^sup>*\<^sup>* conc_start ?c1" by simp
  have i: "rb_initial conc_rb conc_start"
    by (simp add: rb_initial_def conc_start_def conc_rb_def rb_wf_def rb_bytes_def)
  obtain ret n rb' where w: "ringbuffer_write_atomic (shared ?c1) [7] = (ret, n, rb')"
    by (metis prod_cases3)
  then have e: "n = 1" "rw_count rb' = 1" "actual_size rb' = 1"
    by (auto simp: conc_start_def conc_rb_def ringbuffer_write_atomic_def)
  have "wtr ?c1 = WIdle" "rb_state (shared ?c1) = 2" by (simp_all add: conc_start_def conc_rb_def)
  then have "rb_step\<^sup>*\<^sup>* ?c1 (?c1\<lparr>shared := rb', accepted := accepted ?c1 @ take n [7]\<rparr>)"
    using ringbuffer_concurrent_fifo [OF i r] w by blast
  then have "rb_step\<^sup>*\<^sup>* conc_start (?c1\<lparr>shared := rb', accepted := accepted ?c1 @ take n [7]\<rparr>)"
    using r by (rule rtranclp_trans [rotated])
  then show ?thesis using e by (intro exI conjI) (auto simp: conc_start_def)
qed

end
