(* ===== verification/Px4_Mldev.thy ===== *)
theory Px4_Mldev
  imports Prelude
begin

text \<open>
  The power manager of the two-device boards (driver/px4\_mldev.c): which of the two halves of a
  board is powered, for which of its receivers and for its card reader, and how one half keeps the
  other powered. The power switch itself, \<^verbatim>\<open>backend_set_power\<close>, is code of the device driver behind
  a function pointer: it is the parameter \<open>bk\<close>, whose result may depend on all earlier calls
  (\<open>plog\<close> records them with their results). The operations run under the manager's mutex.
\<close>

section \<open>Data\<close>

datatype px4_mldev_mode =
  PX4_MLDEV_ALL_MODE | PX4_MLDEV_S_ONLY_MODE | PX4_MLDEV_S0_ONLY_MODE | PX4_MLDEV_S1_ONLY_MODE

text \<open>A device as the manager sees it: its identity, its serial number and device id.\<close>

record px4_ref =
  ident :: nat
  px_serial :: nat
  px_dev_id :: nat

type_synonym power_call = "px4_ref \<times> bool \<times> int"

type_synonym power_backend = "power_call list \<Rightarrow> px4_ref \<Rightarrow> bool \<Rightarrow> int"

record px4_mldev =
  kref :: nat
  mld_mode :: px4_mldev_mode
  serial_number :: nat
  mdev :: "nat \<Rightarrow> px4_ref option"
  power_state :: "nat \<Rightarrow> bool"
  chrdev_state :: "nat \<Rightarrow> nat \<Rightarrow> bool"
  card_state :: "nat \<Rightarrow> bool"
  plog :: "power_call list"

definition mld_slot :: "px4_ref \<Rightarrow> nat" where
  "mld_slot px = (if px_dev_id px = 0 then 4294967295 else px_dev_id px - 1)"

definition other_slot :: "nat \<Rightarrow> nat" where
  "other_slot dev_id = (if dev_id \<noteq> 0 then 0 else 1)"

definition backend_set_power :: "power_backend \<Rightarrow> px4_ref \<Rightarrow> bool \<Rightarrow> px4_mldev \<Rightarrow> int \<times> px4_mldev" where
  "backend_set_power bk px st m =
     (let ret = bk (plog m) px st in (ret, m\<lparr>plog := plog m @ [(px, st, ret)]\<rparr>))"

section \<open>Operations\<close>

fun px4_mldev_search :: "nat \<Rightarrow> px4_mldev list \<Rightarrow> nat option \<times> px4_mldev list" where
  "px4_mldev_search sn [] = (None, [])"
| "px4_mldev_search sn (m # ms) =
     (if serial_number m = sn then
        (if kref m \<noteq> 0 then (Some 0, m\<lparr>kref := kref m + 1\<rparr> # ms) else (None, m # ms))
      else (let (r, ms') = px4_mldev_search sn ms in (map_option Suc r, m # ms')))"

definition px4_mldev_alloc :: "bool \<Rightarrow> px4_mldev_mode \<Rightarrow> px4_ref \<Rightarrow> int + px4_mldev" where
  "px4_mldev_alloc kzalloc_ok md px =
     (if mld_slot px > 1 then Inl (- EINVAL)
      else if \<not> kzalloc_ok then Inl (- ENOMEM)
      else Inr \<lparr> kref = 1, mld_mode = md, serial_number = px_serial px,
                 mdev = (\<lambda>i. if i = mld_slot px then Some px else None),
                 power_state = (\<lambda>_. False), chrdev_state = (\<lambda>_ _. False),
                 card_state = (\<lambda>_. False), plog = [] \<rparr>)"

definition px4_mldev_get_chrdev_status :: "px4_mldev \<Rightarrow> nat \<Rightarrow> bool" where
  "px4_mldev_get_chrdev_status m d =
     (chrdev_state m d 0 \<or> chrdev_state m d 1 \<or> chrdev_state m d 2 \<or> chrdev_state m d 3)"

definition px4_mldev_has_power_user :: "px4_mldev \<Rightarrow> nat \<Rightarrow> bool" where
  "px4_mldev_has_power_user m d = (px4_mldev_get_chrdev_status m d \<or> card_state m d)"

definition px4_mldev_is_power_interlocking_required :: "px4_mldev \<Rightarrow> nat \<Rightarrow> bool" where
  "px4_mldev_is_power_interlocking_required m d =
     (case mld_mode m of
        PX4_MLDEV_S_ONLY_MODE \<Rightarrow> chrdev_state m d 0 \<or> chrdev_state m d 1
      | PX4_MLDEV_S0_ONLY_MODE \<Rightarrow> chrdev_state m d 0
      | PX4_MLDEV_S1_ONLY_MODE \<Rightarrow> chrdev_state m d 1
      | PX4_MLDEV_ALL_MODE \<Rightarrow>
          chrdev_state m d 0 \<or> chrdev_state m d 1 \<or> chrdev_state m d 2 \<or> chrdev_state m d 3)"

definition mld_clear :: "nat \<Rightarrow> px4_mldev \<Rightarrow> px4_mldev" where
  "mld_clear d m = m\<lparr>power_state := (power_state m)(d := False),
     card_state := (card_state m)(d := False), chrdev_state := (chrdev_state m)(d := (\<lambda>_. False))\<rparr>"

definition kref_put :: "px4_mldev \<Rightarrow> px4_mldev" where
  "kref_put m = m\<lparr>kref := kref m - 1\<rparr>"

definition px4_mldev_add :: "power_backend \<Rightarrow> px4_mldev \<Rightarrow> px4_ref \<Rightarrow> int \<times> px4_mldev" where
  "px4_mldev_add bk m px =
     (let d = mld_slot px in
      if d > 1 then (- EINVAL, kref_put m)
      else if mdev m d \<noteq> None then (- EALREADY, kref_put m)
      else
        let m1 = mld_clear d m in
        if px4_mldev_is_power_interlocking_required m1 (other_slot d) then
          let (ret, m2) = backend_set_power bk px True m1 in
          if ret \<noteq> 0 then (ret, kref_put m2)
          else (0, m2\<lparr>power_state := (power_state m2)(d := True), mdev := (mdev m2)(d := Some px)\<rparr>)
        else (0, m1\<lparr>mdev := (mdev m1)(d := Some px)\<rparr>))"

definition px4_mldev_remove :: "power_backend \<Rightarrow> px4_mldev \<Rightarrow> px4_ref \<Rightarrow> int \<times> px4_mldev" where
  "px4_mldev_remove bk m px =
     (let d = mld_slot px; e = other_slot d in
      if d > 1 then (- EINVAL, m)
      else if mdev m d \<noteq> Some px then (- EINVAL, m)
      else
        let m1 = (if power_state m d then snd (backend_set_power bk px False m) else m);
            m2 = mld_clear d (m1\<lparr>mdev := (mdev m1)(d := None)\<rparr>);
            m3 = (case mdev m2 e of
                    Some other \<Rightarrow>
                      if \<not> px4_mldev_has_power_user m2 e \<and> power_state m2 e then
                        let m' = snd (backend_set_power bk other False m2)
                        in m'\<lparr>power_state := (power_state m')(e := False)\<rparr>
                      else m2
                  | None \<Rightarrow> m2)
        in (0, kref_put m3))"

text \<open>
  \<^verbatim>\<open>px4_mldev_set_power\<close> in the two halves of its body: the device's own power, then its partner's.
  The first half returns \<open>Inl\<close> for the jump to exit.
\<close>

definition mld_own_power ::
    "power_backend \<Rightarrow> px4_mldev \<Rightarrow> px4_ref \<Rightarrow> bool \<Rightarrow> (int \<times> px4_mldev) + (int \<times> bool \<times> px4_mldev)" where
  "mld_own_power bk m px st =
     (let d = mld_slot px; e = other_slot d in
      if px4_mldev_get_chrdev_status m d then Inr (0, False, m)
      else if power_state m d \<noteq> st \<and>
              (st \<or> (\<not> card_state m d \<and> \<not> px4_mldev_is_power_interlocking_required m e)) then
        let (ret, m1) = backend_set_power bk px st m in
        if ret \<noteq> 0 \<and> st then Inl (ret, m1)
        else Inr (ret, st, m1\<lparr>power_state := (power_state m1)(d := st)\<rparr>)
      else Inr (0, st, m))"

definition mld_partner_power :: "power_backend \<Rightarrow> px4_mldev \<Rightarrow> nat \<Rightarrow> bool \<Rightarrow> int \<Rightarrow> int \<times> px4_mldev" where
  "mld_partner_power bk m d st ret =
     (let e = other_slot d in
      case mdev m e of
        None \<Rightarrow> (ret, m)
      | Some other \<Rightarrow>
          let interlocking = px4_mldev_is_power_interlocking_required m d in
          if interlocking = st \<and> power_state m e \<noteq> interlocking \<and>
             (st \<or> \<not> px4_mldev_has_power_user m e) then
            let (ret1, m1) = backend_set_power bk other st m in
            (ret1, if ret1 = 0 \<or> \<not> st then m1\<lparr>power_state := (power_state m1)(e := st)\<rparr> else m1)
          else (ret, m))"

definition mld_set_chrdev :: "nat \<Rightarrow> nat \<Rightarrow> bool \<Rightarrow> px4_mldev \<Rightarrow> px4_mldev" where
  "mld_set_chrdev d c st m = m\<lparr>chrdev_state := (chrdev_state m)(d := (chrdev_state m d)(c := st))\<rparr>"

text \<open>The result: return value, whether \<open>*first\<close> was set, the manager.\<close>

definition px4_mldev_set_power ::
    "power_backend \<Rightarrow> px4_mldev \<Rightarrow> px4_ref \<Rightarrow> nat \<Rightarrow> bool \<Rightarrow> int \<times> bool \<times> px4_mldev" where
  "px4_mldev_set_power bk m px c st =
     (let d = mld_slot px in
      if d > 1 \<or> c > 3 then (- EINVAL, False, m)
      else if mdev m d \<noteq> Some px then (- EINVAL, False, m)
      else if chrdev_state m d c = st then (0, False, m)
      else
        let m1 = (if \<not> st then mld_set_chrdev d c False m else m) in
        case mld_own_power bk m1 px st of
          Inl (ret, m2) \<Rightarrow> (ret, False, m2)
        | Inr (ret, fst_open, m2) \<Rightarrow>
            let m3 = (if st then mld_set_chrdev d c True m2 else m2);
                (ret', m4) = mld_partner_power bk m3 d st ret
            in (ret', fst_open, m4))"

definition px4_mldev_set_card_power :: "power_backend \<Rightarrow> px4_mldev \<Rightarrow> px4_ref \<Rightarrow> bool \<Rightarrow> int \<times> px4_mldev" where
  "px4_mldev_set_card_power bk m px st =
     (let d = mld_slot px; e = other_slot d in
      if d > 1 then (- EINVAL, m)
      else if mdev m d \<noteq> Some px then (- EINVAL, m)
      else if card_state m d = st then (0, m)
      else
        let previous_state = card_state m d;
            m1 = m\<lparr>card_state := (card_state m)(d := st)\<rparr> in
        if px4_mldev_get_chrdev_status m1 d then (0, m1)
        else
          let should_power = (st \<or> px4_mldev_is_power_interlocking_required m1 e) in
          if power_state m1 d = should_power then (0, m1)
          else
            let (ret, m2) = backend_set_power bk px should_power m1 in
            if ret \<noteq> 0 \<and> should_power then
              (ret, m2\<lparr>card_state := (card_state m2)(d := previous_state)\<rparr>)
            else (ret, m2\<lparr>power_state := (power_state m2)(d := should_power)\<rparr>))"

section \<open>The invariant of the manager\<close>

text \<open>The power a device really has: the state of the last switch that succeeded.\<close>

definition hw_power :: "power_call list \<Rightarrow> px4_ref \<Rightarrow> bool" where
  "hw_power log px = fold (\<lambda>(q, st, ret) h. if q = px \<and> ret = 0 then st else h) log False"

lemma hw_power_snoc [simp]:
  "hw_power (log @ [(q, st, ret)]) px = (if q = px \<and> ret = 0 then st else hw_power log px)"
  by (simp add: hw_power_def)

definition slot_ok :: "px4_mldev \<Rightarrow> nat \<Rightarrow> bool" where
  "slot_ok m i \<longleftrightarrow>
     (case mdev m i of
        None \<Rightarrow> \<not> power_state m i \<and> \<not> card_state m i \<and> (\<forall>c. \<not> chrdev_state m i c)
      | Some px \<Rightarrow> mld_slot px = i \<and> (power_state m i \<longrightarrow> hw_power (plog m) px)) \<and>
     (px4_mldev_has_power_user m i \<longrightarrow> power_state m i) \<and>
     (power_state m i \<longrightarrow>
        px4_mldev_has_power_user m i \<or> px4_mldev_is_power_interlocking_required m (other_slot i))"

definition mld_inv :: "px4_mldev \<Rightarrow> bool" where
  "mld_inv m \<longleftrightarrow> slot_ok m 0 \<and> slot_ok m 1"

lemma mld_inv_pair: "d \<le> 1 \<Longrightarrow> mld_inv m \<longleftrightarrow> slot_ok m d \<and> slot_ok m (other_slot d)"
  by (cases "d = 0") (auto simp: mld_inv_def other_slot_def le_Suc_eq)

lemma other_slot_props: "d \<le> 1 \<Longrightarrow> other_slot d \<noteq> d \<and> other_slot (other_slot d) = d \<and> other_slot d \<le> 1"
  by (cases "d = 0") (auto simp: other_slot_def)

lemmas mld_status_defs = px4_mldev_get_chrdev_status_def px4_mldev_has_power_user_def
  px4_mldev_is_power_interlocking_required_def

lemma interlock_status:
  "px4_mldev_is_power_interlocking_required m d \<Longrightarrow> px4_mldev_get_chrdev_status m d"
  by (auto simp: mld_status_defs split: px4_mldev_mode.splits)

text \<open>The tests read the receiver and card states only.\<close>

lemma mld_status_frame [simp]:
  "px4_mldev_get_chrdev_status (m\<lparr>kref := k\<rparr>) i = px4_mldev_get_chrdev_status m i"
  "px4_mldev_get_chrdev_status (m\<lparr>mdev := f\<rparr>) i = px4_mldev_get_chrdev_status m i"
  "px4_mldev_get_chrdev_status (m\<lparr>power_state := g\<rparr>) i = px4_mldev_get_chrdev_status m i"
  "px4_mldev_get_chrdev_status (m\<lparr>plog := l\<rparr>) i = px4_mldev_get_chrdev_status m i"
  "px4_mldev_get_chrdev_status (m\<lparr>card_state := h\<rparr>) i = px4_mldev_get_chrdev_status m i"
  by (simp_all add: px4_mldev_get_chrdev_status_def)

lemma mld_user_frame [simp]:
  "px4_mldev_has_power_user (m\<lparr>kref := k\<rparr>) i = px4_mldev_has_power_user m i"
  "px4_mldev_has_power_user (m\<lparr>mdev := f\<rparr>) i = px4_mldev_has_power_user m i"
  "px4_mldev_has_power_user (m\<lparr>power_state := g\<rparr>) i = px4_mldev_has_power_user m i"
  "px4_mldev_has_power_user (m\<lparr>plog := l\<rparr>) i = px4_mldev_has_power_user m i"
  "px4_mldev_has_power_user (m\<lparr>card_state := h\<rparr>) i = (px4_mldev_get_chrdev_status m i \<or> h i)"
  by (simp_all add: px4_mldev_has_power_user_def)

lemma mld_interlock_frame [simp]:
  "px4_mldev_is_power_interlocking_required (m\<lparr>kref := k\<rparr>) i = px4_mldev_is_power_interlocking_required m i"
  "px4_mldev_is_power_interlocking_required (m\<lparr>mdev := f\<rparr>) i = px4_mldev_is_power_interlocking_required m i"
  "px4_mldev_is_power_interlocking_required (m\<lparr>power_state := g\<rparr>) i = px4_mldev_is_power_interlocking_required m i"
  "px4_mldev_is_power_interlocking_required (m\<lparr>plog := l\<rparr>) i = px4_mldev_is_power_interlocking_required m i"
  "px4_mldev_is_power_interlocking_required (m\<lparr>card_state := h\<rparr>) i = px4_mldev_is_power_interlocking_required m i"
  by (simp_all add: px4_mldev_is_power_interlocking_required_def split: px4_mldev_mode.split)

lemma mld_clear_status [simp]:
  "px4_mldev_get_chrdev_status (mld_clear d m) i = (i \<noteq> d \<and> px4_mldev_get_chrdev_status m i)"
  "px4_mldev_has_power_user (mld_clear d m) i = (i \<noteq> d \<and> px4_mldev_has_power_user m i)"
  "px4_mldev_is_power_interlocking_required (mld_clear d m) i =
     (i \<noteq> d \<and> px4_mldev_is_power_interlocking_required m i)"
  by (auto simp: mld_clear_def mld_status_defs split: px4_mldev_mode.split)

lemma mld_clear_fields [simp]:
  "mdev (mld_clear d m) = mdev m" "plog (mld_clear d m) = plog m" "kref (mld_clear d m) = kref m"
  "power_state (mld_clear d m) = (power_state m)(d := False)"
  "card_state (mld_clear d m) = (card_state m)(d := False)"
  "chrdev_state (mld_clear d m) = (chrdev_state m)(d := (\<lambda>_. False))"
  by (simp_all add: mld_clear_def)

lemma mld_set_chrdev_fields [simp]:
  "mdev (mld_set_chrdev d c st m) = mdev m" "plog (mld_set_chrdev d c st m) = plog m"
  "kref (mld_set_chrdev d c st m) = kref m" "power_state (mld_set_chrdev d c st m) = power_state m"
  "card_state (mld_set_chrdev d c st m) = card_state m"
  by (simp_all add: mld_set_chrdev_def)

lemma mld_set_chrdev_other [simp]:
  "i \<noteq> d \<Longrightarrow> px4_mldev_get_chrdev_status (mld_set_chrdev d c st m) i = px4_mldev_get_chrdev_status m i"
  "i \<noteq> d \<Longrightarrow> px4_mldev_has_power_user (mld_set_chrdev d c st m) i = px4_mldev_has_power_user m i"
  "i \<noteq> d \<Longrightarrow> px4_mldev_is_power_interlocking_required (mld_set_chrdev d c st m) i =
     px4_mldev_is_power_interlocking_required m i"
  "i \<noteq> d \<Longrightarrow> chrdev_state (mld_set_chrdev d c st m) i = chrdev_state m i"
  by (auto simp: mld_set_chrdev_def mld_status_defs split: px4_mldev_mode.split)

lemma mld_set_chrdev_own:
  "c \<le> 3 \<Longrightarrow> px4_mldev_get_chrdev_status (mld_set_chrdev d c True m) d"
  "px4_mldev_is_power_interlocking_required m d \<Longrightarrow>
     px4_mldev_is_power_interlocking_required (mld_set_chrdev d c True m) d"
  by (auto simp: mld_set_chrdev_def mld_status_defs le_Suc_eq numeral_3_eq_3
      split: px4_mldev_mode.split)

text \<open>
  The invariant of one slot in its three parts: empty, occupied, and what its power is for. Only
  the last depends on the other slot.
\<close>

lemma slot_ok_cases:
  "slot_ok m i \<longleftrightarrow>
     (mdev m i = None \<and> \<not> power_state m i \<and> \<not> card_state m i \<and> (\<forall>c. \<not> chrdev_state m i c)) \<or>
     (\<exists>px. mdev m i = Some px \<and> mld_slot px = i \<and> (power_state m i \<longrightarrow> hw_power (plog m) px) \<and>
        (px4_mldev_has_power_user m i \<longrightarrow> power_state m i) \<and>
        (power_state m i \<longrightarrow> px4_mldev_has_power_user m i \<or>
           px4_mldev_is_power_interlocking_required m (other_slot i)))"
  by (cases "mdev m i") (auto simp: slot_ok_def px4_mldev_has_power_user_def
      px4_mldev_get_chrdev_status_def)

lemma slot_ok_kref [simp]: "slot_ok (m\<lparr>kref := k\<rparr>) i = slot_ok m i"
  by (simp add: slot_ok_cases)

lemma empty_slot_idle:
  "slot_ok m i \<Longrightarrow> mdev m i = None \<Longrightarrow> \<not> px4_mldev_get_chrdev_status m i \<and>
     \<not> px4_mldev_has_power_user m i \<and> \<not> px4_mldev_is_power_interlocking_required m i"
  by (auto simp: slot_ok_cases mld_status_defs split: px4_mldev_mode.split)

lemma mld_add_inv:
  assumes "mld_inv m" "px4_mldev_add bk m px = (ret, m')"
  shows "mld_inv m'"
proof (cases "mld_slot px \<le> 1 \<and> mdev m (mld_slot px) = None")
  case True
  let ?d = "mld_slot px" let ?e = "other_slot ?d"
  from True have d: "?d \<le> 1" and n: "mdev m ?d = None" by auto
  have ok: "slot_ok m ?d" "slot_ok m ?e" using assms(1) mld_inv_pair [OF d] by auto
  note o = other_slot_props [OF d] and idle = empty_slot_idle [OF ok(1) n]
  have "slot_ok m' ?d" using assms(2) d n o ok(1)
    by (auto simp: px4_mldev_add_def backend_set_power_def kref_put_def Let_def slot_ok_cases
        split: if_splits)
  moreover have ne: "q \<noteq> px" if "mdev m ?e = Some q" for q using ok(2) that o by (auto simp: slot_ok_cases)
  have "slot_ok m' ?e" using assms(2) d n o ok(2) idle ne
    by (auto simp: px4_mldev_add_def backend_set_power_def kref_put_def Let_def slot_ok_cases
        split: if_splits)
  ultimately show ?thesis using mld_inv_pair [OF d] by simp
next
  case False
  then have "m' = kref_put m" using assms(2)
    by (auto simp: px4_mldev_add_def Let_def split: if_splits)
  then show ?thesis using assms(1) by (simp add: mld_inv_def kref_put_def)
qed

text \<open>Closing a receiver leaves, until the power is adjusted, the invariant without its purpose clause.\<close>

definition slot_safe :: "px4_mldev \<Rightarrow> nat \<Rightarrow> bool" where
  "slot_safe m i \<longleftrightarrow>
     (mdev m i = None \<and> \<not> power_state m i \<and> \<not> card_state m i \<and> (\<forall>c. \<not> chrdev_state m i c)) \<or>
     (\<exists>px. mdev m i = Some px \<and> mld_slot px = i \<and> (power_state m i \<longrightarrow> hw_power (plog m) px) \<and>
        (px4_mldev_has_power_user m i \<longrightarrow> power_state m i))"

definition slot_purpose :: "px4_mldev \<Rightarrow> nat \<Rightarrow> bool" where
  "slot_purpose m i \<longleftrightarrow> (power_state m i \<longrightarrow> px4_mldev_has_power_user m i \<or>
     px4_mldev_is_power_interlocking_required m (other_slot i))"

lemma slot_ok_split: "slot_ok m i \<longleftrightarrow> slot_safe m i \<and> slot_purpose m i"
  by (auto simp: slot_ok_cases slot_safe_def slot_purpose_def)

lemma slot_safe_log:
  "slot_safe m i \<Longrightarrow> ret \<noteq> 0 \<or> (\<forall>q. mdev m i = Some q \<longrightarrow> q \<noteq> px) \<or> st \<Longrightarrow>
     slot_safe (m\<lparr>plog := plog m @ [(px, st, ret)]\<rparr>) i"
  by (auto simp: slot_safe_def)

lemma slot_safe_other_device:
  "slot_safe m i \<Longrightarrow> mld_slot px \<noteq> i \<Longrightarrow> \<forall>q. mdev m i = Some q \<longrightarrow> q \<noteq> px"
  by (auto simp: slot_safe_def)

lemma mld_switch_off_log:
  "\<exists>l. (if on then snd (backend_set_power bk px False m) else m) = m\<lparr>plog := l\<rparr> \<and>
     (\<forall>q. q \<noteq> px \<longrightarrow> hw_power l q = hw_power (plog m) q)"
  by (rule exI [of _ "if on then plog m @ [(px, False, bk (plog m) px False)] else plog m"])
    (auto simp: backend_set_power_def Let_def)

lemma mld_remove_inv:
  assumes "mld_inv m" "px4_mldev_remove bk m px = (ret, m')"
  shows "mld_inv m'"
proof (cases "mld_slot px \<le> 1 \<and> mdev m (mld_slot px) = Some px")
  case True
  let ?d = "mld_slot px" let ?e = "other_slot ?d"
  from True have d: "?d \<le> 1" and n: "mdev m ?d = Some px" by auto
  have ok: "slot_ok m ?d" "slot_ok m ?e" using assms(1) mld_inv_pair [OF d] by auto
  note o = other_slot_props [OF d]
  have ne: "q \<noteq> px" if "mdev m ?e = Some q" for q using ok(2) that o by (auto simp: slot_ok_cases)
  let ?m1 = "if power_state m ?d then snd (backend_set_power bk px False m) else m"
  obtain l where m1: "?m1 = m\<lparr>plog := l\<rparr>"
    and l: "\<And>q. q \<noteq> px \<Longrightarrow> hw_power l q = hw_power (plog m) q"
    using mld_switch_off_log [of "power_state m ?d" bk px m] by metis
  note eq = assms(2) [unfolded px4_mldev_remove_def Let_def m1]
  have "slot_ok m' ?d \<and> slot_ok m' ?e"
  proof (cases "mdev m ?e")
    case None
    then show ?thesis using eq d n o ok(2) by (auto simp: kref_put_def slot_ok_cases)
  next
    case (Some q)
    note q = ne [OF Some] and eq' = eq [symmetric]
    let ?m2 = "mld_clear ?d (m\<lparr>plog := l, mdev := (mdev m)(?d := None)\<rparr>)"
    have s2: "slot_ok ?m2 ?d" using o by (simp add: slot_ok_cases)
    have m': "m' = kref_put (if \<not> px4_mldev_has_power_user m ?e \<and> power_state m ?e
        then ?m2\<lparr>plog := l @ [(q, False, bk l q False)], power_state := (power_state ?m2)(?e := False)\<rparr>
        else ?m2)"
      using eq' d n o Some by (simp add: backend_set_power_def Let_def cong: if_cong)
    show ?thesis unfolding m' using ok(2) Some q l o
      by (auto simp: kref_put_def slot_ok_cases)
  qed
  then show ?thesis using mld_inv_pair [OF d] by simp
next
  case False
  then have "m' = m" using assms(2)
    by (auto simp: px4_mldev_remove_def Let_def split: if_splits)
  then show ?thesis using assms(1) by simp
qed

text \<open>The device's own power, when a receiver is opened and when one has been closed.\<close>

lemma mld_own_power_safe:
  assumes "slot_safe m (mld_slot px)" "slot_safe m e" "mld_slot px \<le> 1" "e = other_slot (mld_slot px)"
    "mdev m (mld_slot px) = Some px"
  shows "case mld_own_power bk m px st of
      Inl (ret, m') \<Rightarrow> st \<and> ret \<noteq> 0 \<and> (\<exists>l. m' = m\<lparr>plog := l\<rparr>) \<and> slot_safe m' (mld_slot px) \<and> slot_safe m' e
    | Inr (ret, fo, m') \<Rightarrow> slot_safe m' (mld_slot px) \<and> slot_safe m' e \<and> mdev m' = mdev m \<and>
        chrdev_state m' = chrdev_state m \<and> card_state m' = card_state m \<and> mld_mode m' = mld_mode m \<and>
        kref m' = kref m \<and> power_state m' e = power_state m e \<and>
        (st \<longrightarrow> power_state m' (mld_slot px)) \<and> (\<not> st \<longrightarrow> slot_purpose m' (mld_slot px)) \<and>
        fo = (st \<and> \<not> px4_mldev_get_chrdev_status m (mld_slot px))"
proof -
  have e: "e \<noteq> mld_slot px" using other_slot_props [OF assms(3)] assms(4) by simp
  have ne: "q \<noteq> px" if "mdev m e = Some q" for q
    using slot_safe_other_device [OF assms(2)] that e by auto
  let ?d = "mld_slot px"
  consider (busy) "px4_mldev_get_chrdev_status m ?d"
    | (switch) "\<not> px4_mldev_get_chrdev_status m ?d" "power_state m ?d \<noteq> st"
        "st \<or> (\<not> card_state m ?d \<and> \<not> px4_mldev_is_power_interlocking_required m e)"
    | (keep) "\<not> px4_mldev_get_chrdev_status m ?d"
        "\<not> (power_state m ?d \<noteq> st \<and>
           (st \<or> (\<not> card_state m ?d \<and> \<not> px4_mldev_is_power_interlocking_required m e)))"
    by blast
  then show ?thesis
  proof cases
    case busy
    then show ?thesis using assms
      by (auto simp: mld_own_power_def slot_safe_def slot_purpose_def px4_mldev_has_power_user_def)
  next
    case switch
    let ?r = "bk (plog m) px st"
    let ?l = "m\<lparr>plog := plog m @ [(px, st, ?r)]\<rparr>"
    let ?on = "?l\<lparr>power_state := (power_state m)(?d := st)\<rparr>"
    have own: "mld_own_power bk m px st = (if ?r \<noteq> 0 \<and> st then Inl (?r, ?l) else Inr (?r, st, ?on))"
      using switch assms(4)
      by (cases st) (auto simp: mld_own_power_def backend_set_power_def Let_def)
    have e2: "slot_safe ?l e" "slot_safe ?on e" using assms(2) e ne by (auto simp: slot_safe_def)
    have "?r \<noteq> 0 \<and> st \<Longrightarrow> slot_safe ?l ?d" using assms(1,5) by (auto simp: slot_safe_def)
    moreover have "\<not> (?r \<noteq> 0 \<and> st) \<Longrightarrow> slot_safe ?on ?d"
      using assms(1,5) switch by (auto simp: slot_safe_def px4_mldev_has_power_user_def)
    moreover have "\<not> st \<Longrightarrow> slot_purpose ?on ?d" by (simp add: slot_purpose_def)
    ultimately show ?thesis unfolding own using e2 e switch(1) by (auto split: if_splits)
  next
    case keep
    have "mld_own_power bk m px st = Inr (0, st, m)"
      using keep assms(4) by (auto simp: mld_own_power_def Let_def)
    moreover have "\<not> st \<Longrightarrow> slot_purpose m ?d"
      using keep assms(4) by (auto simp: slot_purpose_def px4_mldev_has_power_user_def)
    ultimately show ?thesis using assms(1,2) keep by auto
  qed
qed

lemma mld_partner_power_inv:
  assumes "slot_ok m d" "slot_safe m (other_slot d)" "d \<le> 1"
    "st \<Longrightarrow> slot_purpose m (other_slot d)"
    "mld_partner_power bk m d st ret = (ret', m')"
  shows "mld_inv m'"
proof -
  let ?e = "other_slot d"
  note o = other_slot_props [OF assms(3)]
  have "slot_ok m' d \<and> slot_ok m' ?e"
  proof (cases "mdev m ?e")
    case None
    then have "m' = m" using assms(5) by (simp add: mld_partner_power_def)
    moreover have "slot_purpose m ?e" using assms(2) None by (auto simp: slot_purpose_def slot_safe_def)
    ultimately show ?thesis using assms(1,2) by (simp add: slot_ok_split)
  next
    case (Some q)
    have q: "mld_slot q = ?e" using assms(2) Some by (auto simp: slot_safe_def)
    then have ne: "r \<noteq> q" if "mdev m d = Some r" for r
      using assms(1) that o by (auto simp: slot_ok_cases)
    let ?il = "px4_mldev_is_power_interlocking_required m d"
    show ?thesis
    proof (cases "?il = st \<and> power_state m ?e \<noteq> ?il \<and> (st \<or> \<not> px4_mldev_has_power_user m ?e)")
      case True
      let ?r = "bk (plog m) q st"
      let ?l = "plog m @ [(q, st, ?r)]"
      have m': "m' = (if ?r = 0 \<or> \<not> st then m\<lparr>plog := ?l, power_state := (power_state m)(?e := st)\<rparr>
          else m\<lparr>plog := ?l\<rparr>)"
        using True assms(5) Some
        by (auto simp: mld_partner_power_def backend_set_power_def Let_def)
      have "slot_ok m' d" unfolding m' using assms(1) ne o by (auto simp: slot_ok_cases)
      moreover have "slot_safe m' ?e" unfolding m' using assms(2) Some q True by (auto simp: slot_safe_def)
      moreover have "slot_purpose m' ?e" unfolding m' using True o by (auto simp: slot_purpose_def)
      ultimately show ?thesis by (simp add: slot_ok_split)
    next
      case False
      then have "m' = m" using assms(5) Some by (auto simp: mld_partner_power_def Let_def)
      moreover have "slot_purpose m ?e"
        using False assms(4) o by (auto simp: slot_purpose_def)
      ultimately show ?thesis using assms(1,2) by (simp add: slot_ok_split)
    qed
  qed
  then show ?thesis using mld_inv_pair [OF assms(3)] by simp
qed

lemma slot_safe_set_chrdev:
  assumes "slot_safe m i" "st \<Longrightarrow> power_state m d" "mdev m d \<noteq> None"
  shows "slot_safe (mld_set_chrdev d c st m) i"
proof (cases "i = d")
  case True
  have "\<not> st \<Longrightarrow> px4_mldev_get_chrdev_status (mld_set_chrdev d c st m) d \<Longrightarrow> px4_mldev_get_chrdev_status m d"
    by (auto simp: mld_set_chrdev_def px4_mldev_get_chrdev_status_def split: if_splits)
  then show ?thesis using assms True
    by (cases st) (auto simp: slot_safe_def px4_mldev_has_power_user_def)
next
  case False
  then show ?thesis using assms by (auto simp: slot_safe_def)
qed

lemma mld_set_power_inv:
  assumes "mld_inv m" "px4_mldev_set_power bk m px c st = (ret, fo, m')"
  shows "mld_inv m'"
proof (cases "mld_slot px \<le> 1 \<and> c \<le> 3 \<and> mdev m (mld_slot px) = Some px \<and>
    chrdev_state m (mld_slot px) c \<noteq> st")
  case False
  then have "m' = m" using assms(2) by (auto simp: px4_mldev_set_power_def Let_def split: if_splits)
  then show ?thesis using assms(1) by simp
next
  case True
  let ?d = "mld_slot px" let ?e = "other_slot ?d"
  have d: "?d \<le> 1" and n: "mdev m ?d = Some px" and c: "c \<le> 3" using True by auto
  note o = other_slot_props [OF d]
  have ok: "slot_ok m ?d" "slot_ok m ?e" using assms(1) mld_inv_pair [OF d] by auto
  define m1 where "m1 = (if \<not> st then mld_set_chrdev ?d c False m else m)"
  have s1: "slot_safe m1 ?d" "slot_safe m1 ?e" "mdev m1 = mdev m"
    using slot_safe_set_chrdev [of m _ False ?d c] ok n by (auto simp: m1_def slot_ok_split)
  note own = mld_own_power_safe [OF s1(1,2) d refl, where bk = bk and st = st]
  show ?thesis
  proof (cases "mld_own_power bk m1 px st")
    case (Inl p)
    then have p: "p = (ret, m')" using assms(2) True
      by (cases p) (auto simp: px4_mldev_set_power_def Let_def m1_def)
    then obtain l where m': "m' = m\<lparr>plog := l\<rparr>" and safe: "slot_safe m' ?d" "slot_safe m' ?e"
      using own Inl n s1(3) by (auto simp: m1_def)
    moreover have "slot_purpose m' i = slot_purpose m i" for i by (simp add: m' slot_purpose_def)
    ultimately show ?thesis using ok mld_inv_pair [OF d] by (simp add: slot_ok_split)
  next
    case (Inr p)
    obtain ret1 fo1 m2 where p: "p = (ret1, fo1, m2)" by (metis prod_cases3)
    have m2: "slot_safe m2 ?d" "slot_safe m2 ?e" "mdev m2 = mdev m1"
        "chrdev_state m2 = chrdev_state m1" "card_state m2 = card_state m1"
        "mld_mode m2 = mld_mode m1" "power_state m2 ?e = power_state m1 ?e"
        "st \<longrightarrow> power_state m2 ?d" "\<not> st \<longrightarrow> slot_purpose m2 ?d"
      using own Inr p n s1(3) by auto
    define m3 where "m3 = (if st then mld_set_chrdev ?d c True m2 else m2)"
    have fin: "mld_partner_power bk m3 ?d st ret1 = (ret, m')"
      using assms(2) True Inr p by (auto simp: px4_mldev_set_power_def Let_def m1_def m3_def split: prod.splits)
    have s3: "slot_safe m3 ?d" "slot_safe m3 ?e"
      using m2 s1(3) n slot_safe_set_chrdev [of m2 _ True ?d c] by (auto simp: m3_def)
    have "slot_purpose m3 ?d"
      using m2(9) mld_set_chrdev_own(1) [OF c] by (auto simp: m3_def slot_purpose_def px4_mldev_has_power_user_def)
    moreover have "st \<Longrightarrow> slot_purpose m3 ?e"
    proof -
      assume st
      have "px4_mldev_has_power_user m2 ?e = px4_mldev_has_power_user m ?e"
        "px4_mldev_is_power_interlocking_required m2 ?d = px4_mldev_is_power_interlocking_required m ?d"
        "power_state m2 ?e = power_state m ?e"
        using \<open>st\<close> m2 by (simp_all add: mld_status_defs m1_def cong: px4_mldev_mode.case_cong)
      then show ?thesis using ok(2) o \<open>st\<close> mld_set_chrdev_own(2)
        by (auto simp: slot_ok_split slot_purpose_def m3_def)
    qed
    ultimately show ?thesis using mld_partner_power_inv [OF _ s3(2) d _ fin] s3 by (simp add: slot_ok_split)
  qed
qed

lemma mld_set_card_power_inv:
  assumes "mld_inv m" "px4_mldev_set_card_power bk m px st = (ret, m')"
  shows "mld_inv m'"
proof (cases "mld_slot px \<le> 1 \<and> mdev m (mld_slot px) = Some px")
  case False
  then have "m' = m" using assms(2)
    by (auto simp: px4_mldev_set_card_power_def Let_def split: if_splits)
  then show ?thesis using assms(1) by simp
next
  case True
  let ?d = "mld_slot px" let ?e = "other_slot ?d"
  have d: "?d \<le> 1" and n: "mdev m ?d = Some px" using True by auto
  note o = other_slot_props [OF d]
  have ok: "slot_ok m ?d" "slot_ok m ?e" using assms(1) mld_inv_pair [OF d] by auto
  have ne: "q \<noteq> px" if "mdev m ?e = Some q" for q using ok(2) that o by (auto simp: slot_ok_cases)
  define sp where "sp = (st \<or> px4_mldev_is_power_interlocking_required m ?e)"
  define r where "r = bk (plog m) px sp"
  define l where "l = plog m @ [(px, sp, r)]"
  define cs where "cs = (card_state m)(?d := st)"
  have eq: "px4_mldev_set_card_power bk m px st =
      (if card_state m ?d = st then (0, m)
       else if px4_mldev_get_chrdev_status m ?d \<or> power_state m ?d = sp then (0, m\<lparr>card_state := cs\<rparr>)
       else if r \<noteq> 0 \<and> sp then (r, m\<lparr>plog := l, card_state := cs(?d := card_state m ?d)\<rparr>)
       else (r, m\<lparr>plog := l, card_state := cs, power_state := (power_state m)(?d := sp)\<rparr>))"
    using d n by (simp add: px4_mldev_set_card_power_def backend_set_power_def Let_def sp_def [symmetric]
        r_def [symmetric] l_def cs_def)
  note res = assms(2) [unfolded eq]
  let ?busy = "px4_mldev_get_chrdev_status m ?d"
  consider (same) "card_state m ?d = st"
    | (keep) "card_state m ?d \<noteq> st" "?busy \<or> power_state m ?d = sp"
    | (fail) "card_state m ?d \<noteq> st" "\<not> (?busy \<or> power_state m ?d = sp)" "r \<noteq> 0 \<and> sp"
    | (switch) "card_state m ?d \<noteq> st" "\<not> (?busy \<or> power_state m ?d = sp)" "\<not> (r \<noteq> 0 \<and> sp)"
    by blast
  then have "slot_ok m' ?d \<and> slot_ok m' ?e"
  proof cases
    case same
    then show ?thesis using res ok by simp
  next
    case keep
    then have "m' = m\<lparr>card_state := cs\<rparr>" using res by simp
    then show ?thesis using keep ok o n
      by (auto simp: slot_ok_cases px4_mldev_has_power_user_def cs_def sp_def)
  next
    case fail
    then have "m' = m\<lparr>plog := l, card_state := cs(?d := card_state m ?d)\<rparr>"
      using res by (simp del: fun_upd_apply)
    then have "m' = m\<lparr>plog := l\<rparr>" by (simp add: cs_def)
    then show ?thesis using fail ok o n ne by (auto simp: slot_ok_cases l_def)
  next
    case switch
    then have "m' = m\<lparr>plog := l, card_state := cs, power_state := (power_state m)(?d := sp)\<rparr>"
      using res switch(3) by (cases sp) simp_all
    note m' = this
    have "mld_slot px = ?d" by simp
    then have "slot_ok m' ?d" using switch n o
      by (simp add: m' slot_ok_cases cs_def l_def) (auto simp: sp_def)
    moreover have "slot_ok m' ?e" using ok(2) ne o
      by (auto simp: m' slot_ok_cases px4_mldev_has_power_user_def cs_def l_def)
    ultimately show ?thesis by simp
  qed
  then show ?thesis using mld_inv_pair [OF d] by simp
qed

section \<open>The life of a manager\<close>

text \<open>
  What the two device drivers can do with a manager, in any order and with any device: look it up
  (the second component counts the references a lookup has handed out), attach, detach, and switch
  receivers and the card reader.
\<close>

inductive mldev_step :: "power_backend \<Rightarrow> px4_mldev \<times> nat \<Rightarrow> px4_mldev \<times> nat \<Rightarrow> bool" for bk where
  search: "px4_mldev_search (serial_number m) [m] = (Some 0, [m']) \<Longrightarrow> mldev_step bk (m, p) (m', p + 1)"
| add: "0 < p \<Longrightarrow> px4_mldev_add bk m px = (ret, m') \<Longrightarrow> mldev_step bk (m, p) (m', p - 1)"
| remove: "0 < kref m \<Longrightarrow> px4_mldev_remove bk m px = (ret, m') \<Longrightarrow> mldev_step bk (m, p) (m', p)"
| set_power: "0 < kref m \<Longrightarrow> px4_mldev_set_power bk m px c st = (ret, fo, m') \<Longrightarrow>
    mldev_step bk (m, p) (m', p)"
| set_card: "0 < kref m \<Longrightarrow> px4_mldev_set_card_power bk m px st = (ret, m') \<Longrightarrow>
    mldev_step bk (m, p) (m', p)"

definition attached :: "px4_mldev \<Rightarrow> nat" where
  "attached m = of_bool (mdev m 0 \<noteq> None) + of_bool (mdev m 1 \<noteq> None)"

definition mld_refs_ok :: "px4_mldev \<times> nat \<Rightarrow> bool" where
  "mld_refs_ok s \<longleftrightarrow> kref (fst s) = attached (fst s) + snd s"

lemma attached_upd:
  "d \<le> 1 \<Longrightarrow> mdev m d = None \<Longrightarrow> mdev m' = (mdev m)(d := Some px) \<Longrightarrow> attached m' = attached m + 1"
  "d \<le> 1 \<Longrightarrow> mdev m d = Some px \<Longrightarrow> mdev m' = (mdev m)(d := None) \<Longrightarrow> attached m' + 1 = attached m"
  by (cases "d = 0"; simp add: attached_def le_Suc_eq)+

lemma mld_add_refs:
  assumes "px4_mldev_add bk m px = (ret, m')"
  shows "ret \<noteq> 0 \<and> mdev m' = mdev m \<and> kref m' = kref m - 1 \<or>
    ret = 0 \<and> kref m' = kref m \<and> attached m' = attached m + 1"
proof (cases "mld_slot px \<le> 1 \<and> mdev m (mld_slot px) = None")
  case True
  then have "ret \<noteq> 0 \<and> mdev m' = mdev m \<and> kref m' = kref m - 1 \<or>
      ret = 0 \<and> kref m' = kref m \<and> mdev m' = (mdev m)(mld_slot px := Some px)"
    using assms by (auto simp: px4_mldev_add_def backend_set_power_def kref_put_def Let_def
        split: if_splits)
  then show ?thesis using attached_upd(1) True by auto
next
  case False
  then show ?thesis using assms
    by (auto simp: px4_mldev_add_def kref_put_def Let_def split: if_splits)
qed

lemma mld_remove_refs:
  assumes "px4_mldev_remove bk m px = (ret, m')"
  shows "ret \<noteq> 0 \<and> m' = m \<or> ret = 0 \<and> kref m' = kref m - 1 \<and> attached m' + 1 = attached m"
proof (cases "mld_slot px \<le> 1 \<and> mdev m (mld_slot px) = Some px")
  case True
  let ?e = "other_slot (mld_slot px)"
  have "ret = 0 \<and> kref m' = kref m - 1 \<and> mdev m' = (mdev m)(mld_slot px := None)"
    using assms True by (cases "mdev m ?e"; cases "power_state m (mld_slot px)")
      (auto simp: px4_mldev_remove_def backend_set_power_def kref_put_def Let_def split: option.splits)
  then show ?thesis using attached_upd(2) True by auto
next
  case False
  then show ?thesis using assms by (auto simp: px4_mldev_remove_def Let_def split: if_splits)
qed

lemma mld_switch_refs:
  "mdev (snd (snd (px4_mldev_set_power bk m px c st))) = mdev m"
  "kref (snd (snd (px4_mldev_set_power bk m px c st))) = kref m"
  "mdev (snd (px4_mldev_set_card_power bk m px st)) = mdev m"
  "kref (snd (px4_mldev_set_card_power bk m px st)) = kref m"
  by (auto simp: px4_mldev_set_power_def mld_own_power_def mld_partner_power_def
      px4_mldev_set_card_power_def backend_set_power_def Let_def split: option.split)

lemma mldev_step_ok:
  assumes "mldev_step bk s s'" "mld_inv (fst s)" "mld_refs_ok s"
  shows "mld_inv (fst s') \<and> mld_refs_ok s'"
  using assms
proof (cases rule: mldev_step.cases)
  case (search m m' p)
  then show ?thesis using assms(2,3)
    by (auto simp: mld_inv_def mld_refs_ok_def attached_def split: if_splits)
next
  case (add p m px ret m')
  then show ?thesis using assms(2,3) mld_add_inv [OF _ add(4)] mld_add_refs [OF add(4)]
    by (auto simp: mld_refs_ok_def attached_def)
next
  case (remove m px ret m' p)
  then show ?thesis using assms(2,3) mld_remove_inv [OF _ remove(4)] mld_remove_refs [OF remove(4)]
    by (auto simp: mld_refs_ok_def)
next
  case (set_power m px c st ret fo m' p)
  then show ?thesis
    using assms(2,3) mld_set_power_inv [OF _ set_power(4)] mld_switch_refs(1,2) [of bk m px c st]
    by (auto simp: mld_refs_ok_def attached_def)
next
  case (set_card m px st ret m' p)
  then show ?thesis
    using assms(2,3) mld_set_card_power_inv [OF _ set_card(4)] mld_switch_refs(3,4) [of bk m px st]
    by (auto simp: mld_refs_ok_def attached_def)
qed

lemma mldev_reachable_ok:
  assumes "(mldev_step bk)\<^sup>*\<^sup>* s s'" "mld_inv (fst s)" "mld_refs_ok s"
  shows "mld_inv (fst s') \<and> mld_refs_ok s'"
  using assms by (induction rule: rtranclp_induct) (auto dest: mldev_step_ok)

lemma mldev_alloc_ok:
  assumes "px4_mldev_alloc True md px = Inr m"
  shows "mld_inv m \<and> mld_refs_ok (m, 0)"
proof -
  have d: "mld_slot px \<le> 1" using assms by (auto simp: px4_mldev_alloc_def split: if_splits)
  have m: "m = \<lparr> kref = 1, mld_mode = md, serial_number = px_serial px,
                 mdev = (\<lambda>i. if i = mld_slot px then Some px else None),
                 power_state = (\<lambda>_. False), chrdev_state = (\<lambda>_ _. False),
                 card_state = (\<lambda>_. False), plog = [] \<rparr>"
    using assms d by (simp add: px4_mldev_alloc_def)
  have "\<not> px4_mldev_has_power_user m i" for i by (simp add: m mld_status_defs)
  then have "slot_ok m i" for i by (auto simp: slot_ok_cases m)
  moreover have "mld_refs_ok (m, 0)" using d by (auto simp: mld_refs_ok_def attached_def m le_Suc_eq)
  ultimately show ?thesis by (simp add: mld_inv_def)
qed

section \<open>Properties\<close>

text \<open>In every state a manager can reach, whatever the power switches answer, a slot with an
  open receiver or card reader is powered and its device really is, a powered slot has such a user
  or a partner that needs it, and the reference count is the number of attached devices and of
  lookups not yet turned into one.\<close>

theorem mldev_power_invariant:
  assumes "px4_mldev_alloc True md px = Inr m" "(mldev_step bk)\<^sup>*\<^sup>* (m, 0) (m', p)" "d \<le> 1"
  shows "(px4_mldev_has_power_user m' d \<longrightarrow> power_state m' d) \<and>
    (\<forall>q. mdev m' d = Some q \<and> power_state m' d \<longrightarrow> hw_power (plog m') q) \<and>
    (power_state m' d \<longrightarrow> mdev m' d \<noteq> None \<and> (px4_mldev_has_power_user m' d \<or>
       px4_mldev_is_power_interlocking_required m' (other_slot d))) \<and>
    kref m' = attached m' + p"
proof -
  have "mld_inv m'" "mld_refs_ok (m', p)"
    using mldev_reachable_ok [OF assms(2)] mldev_alloc_ok [OF assms(1)] by auto
  then have "slot_ok m' d" "kref m' = attached m' + p"
    using mld_inv_pair [OF assms(3)] by (auto simp: mld_refs_ok_def)
  then show ?thesis by (cases "mdev m' d") (auto simp: slot_ok_def)
qed

definition demo_px :: px4_ref where
  "demo_px = \<lparr>ident = 1, px_serial = 77, px_dev_id = 1\<rparr>"

definition demo_px2 :: px4_ref where
  "demo_px2 = \<lparr>ident = 2, px_serial = 77, px_dev_id = 2\<rparr>"

definition demo_mld :: px4_mldev where
  "demo_mld = \<lparr> kref = 1, mld_mode = PX4_MLDEV_ALL_MODE, serial_number = 77,
     mdev = (\<lambda>i. if i = 0 then Some demo_px else None), power_state = (\<lambda>_. False),
     chrdev_state = (\<lambda>_ _. False), card_state = (\<lambda>_. False), plog = [] \<rparr>"

lemma demo_mld_alloc: "px4_mldev_alloc True PX4_MLDEV_ALL_MODE demo_px = Inr demo_mld"
proof -
  have "mld_slot demo_px = 0" "px_serial demo_px = 77" by (simp_all add: mld_slot_def demo_px_def)
  then show ?thesis by (simp add: px4_mldev_alloc_def demo_mld_def)
qed

theorem mldev_power_invariant_witness:
  "\<exists>m'. (mldev_step (\<lambda>_ _ _. 0))\<^sup>*\<^sup>* (demo_mld, 0) (m', 0) \<and> px4_mldev_has_power_user m' 0 \<and>
     power_state m' 0 \<and> hw_power (plog m') demo_px"
proof -
  let ?m = "snd (px4_mldev_set_card_power (\<lambda>_ _ _. 0) demo_mld demo_px True)"
  have "mldev_step (\<lambda>_ _ _. 0) (demo_mld, 0) (?m, 0)"
    by (rule mldev_step.set_card [where px = demo_px and st = True, OF _ prod.collapse [symmetric]])
      (simp add: demo_mld_def)
  then have r: "(mldev_step (\<lambda>_ _ _. 0))\<^sup>*\<^sup>* (demo_mld, 0) (?m, 0)" by simp
  have "px4_mldev_has_power_user ?m 0" "mdev ?m 0 = Some demo_px"
    by (simp_all add: px4_mldev_set_card_power_def mld_slot_def demo_px_def demo_mld_def
        mld_status_defs backend_set_power_def Let_def other_slot_def)
  then show ?thesis
    using mldev_power_invariant [OF demo_mld_alloc r, of 0] r by (intro exI [of _ ?m]) auto
qed

text \<open>With switches that never fail to turn on, the demand of the partner is met too.\<close>

definition linked :: "px4_mldev \<Rightarrow> nat \<Rightarrow> bool" where
  "linked m i \<longleftrightarrow> (mdev m i \<noteq> None \<longrightarrow>
     px4_mldev_is_power_interlocking_required m (other_slot i) \<longrightarrow> power_state m i)"

definition mld_linked :: "px4_mldev \<Rightarrow> bool" where
  "mld_linked m \<longleftrightarrow> linked m 0 \<and> linked m 1"

lemma mld_linked_pair: "d \<le> 1 \<Longrightarrow> mld_linked m \<longleftrightarrow> linked m d \<and> linked m (other_slot d)"
  by (cases "d = 0") (auto simp: mld_linked_def other_slot_def le_Suc_eq)

lemma linked_kref [simp]: "linked (m\<lparr>kref := k\<rparr>) i = linked m i"
  by (simp add: linked_def)

lemma mld_add_linked:
  assumes "mld_inv m" "mld_linked m" "\<forall>log q. bk log q True = 0" "px4_mldev_add bk m px = (ret, m')"
  shows "mld_linked m'"
proof (cases "mld_slot px \<le> 1 \<and> mdev m (mld_slot px) = None")
  case True
  let ?d = "mld_slot px" let ?e = "other_slot ?d"
  from True have d: "?d \<le> 1" and n: "mdev m ?d = None" by auto
  note o = other_slot_props [OF d]
  have "slot_ok m ?d" using assms(1) mld_inv_pair [OF d] by simp
  note idle = empty_slot_idle [OF this n]
  have "linked m' ?d" "linked m' ?e" using assms(3,4) d n o idle
    by (auto simp: px4_mldev_add_def backend_set_power_def kref_put_def Let_def linked_def split: if_splits)
  then show ?thesis using mld_linked_pair [OF d] by simp
next
  case False
  then have "m' = kref_put m" using assms(4)
    by (auto simp: px4_mldev_add_def Let_def split: if_splits)
  then show ?thesis using assms(2) by (simp add: mld_linked_def kref_put_def)
qed

lemma mld_remove_linked:
  assumes "mld_linked m" "px4_mldev_remove bk m px = (ret, m')"
  shows "mld_linked m'"
proof (cases "mld_slot px \<le> 1 \<and> mdev m (mld_slot px) = Some px")
  case True
  let ?d = "mld_slot px" let ?e = "other_slot ?d"
  from True have d: "?d \<le> 1" and n: "mdev m ?d = Some px" by auto
  note o = other_slot_props [OF d]
  let ?m1 = "if power_state m ?d then snd (backend_set_power bk px False m) else m"
  obtain l where m1: "?m1 = m\<lparr>plog := l\<rparr>"
    using mld_switch_off_log [of "power_state m ?d" bk px m] by metis
  note eq = assms(2) [unfolded px4_mldev_remove_def Let_def m1]
  have "linked m' ?d" "linked m' ?e" using eq d n o
    by (auto simp: kref_put_def linked_def backend_set_power_def Let_def split: option.splits if_splits)
  then show ?thesis using mld_linked_pair [OF d] by simp
next
  case False
  then have "m' = m" using assms(2)
    by (auto simp: px4_mldev_remove_def Let_def split: if_splits)
  then show ?thesis using assms(1) by simp
qed

lemma mld_own_power_Inr:
  assumes "\<And>log. bk log px True = 0"
  obtains ret fo m' where "mld_own_power bk m px st = Inr (ret, fo, m')"
proof -
  have "\<not> isl (mld_own_power bk m px st)"
    using assms by (cases st) (auto simp: mld_own_power_def backend_set_power_def Let_def)
  then show ?thesis using that by (cases "mld_own_power bk m px st") auto
qed

lemma mld_set_power_linked:
  assumes "mld_inv m" "mld_linked m" "\<forall>log q. bk log q True = 0"
    "px4_mldev_set_power bk m px c st = (ret, fo, m')"
  shows "mld_linked m'"
proof (cases "mld_slot px \<le> 1 \<and> c \<le> 3 \<and> mdev m (mld_slot px) = Some px \<and>
    chrdev_state m (mld_slot px) c \<noteq> st")
  case False
  then have "m' = m" using assms(4) by (auto simp: px4_mldev_set_power_def Let_def split: if_splits)
  then show ?thesis using assms(2) by simp
next
  case True
  let ?d = "mld_slot px" let ?e = "other_slot ?d"
  have d: "?d \<le> 1" and n: "mdev m ?d = Some px" and c: "c \<le> 3" using True by auto
  note o = other_slot_props [OF d]
  have lk: "linked m ?d" "linked m ?e" using assms(2) mld_linked_pair [OF d] by auto
  define m1 where "m1 = (if \<not> st then mld_set_chrdev ?d c False m else m)"
  have "px4_mldev_is_power_interlocking_required (mld_set_chrdev ?d c False m) ?d \<Longrightarrow>
      px4_mldev_is_power_interlocking_required m ?d"
    by (auto simp: mld_set_chrdev_def mld_status_defs split: px4_mldev_mode.splits if_splits)
  then have l1: "linked m1 ?d" "linked m1 ?e" using lk o by (auto simp: m1_def linked_def)
  obtain ret1 fo1 m2 where own: "mld_own_power bk m1 px st = Inr (ret1, fo1, m2)"
    using mld_own_power_Inr assms(3) by metis
  have l2: "linked m2 ?d" "linked m2 ?e"
    using own l1 o by (auto simp: mld_own_power_def backend_set_power_def Let_def linked_def split: if_splits)
  define m3 where "m3 = (if st then mld_set_chrdev ?d c True m2 else m2)"
  have fin: "mld_partner_power bk m3 ?d st ret1 = (ret, m')"
    using assms(4) True own by (auto simp: px4_mldev_set_power_def Let_def m1_def m3_def split: prod.splits)
  have l3: "linked m3 ?d" "\<not> st \<Longrightarrow> linked m3 ?e" using l2 o by (auto simp: m3_def linked_def)
  have "linked m' ?d" "linked m' ?e"
    using fin l3 o assms(3) by (cases st; auto simp: mld_partner_power_def backend_set_power_def
        Let_def linked_def split: option.splits if_splits)+
  then show ?thesis using mld_linked_pair [OF d] by simp
qed

lemma mld_set_card_power_linked:
  assumes "mld_linked m" "\<forall>log q. bk log q True = 0" "px4_mldev_set_card_power bk m px st = (ret, m')"
  shows "mld_linked m'"
proof (cases "mld_slot px \<le> 1")
  case True
  let ?d = "mld_slot px" let ?e = "other_slot ?d"
  note o = other_slot_props [OF True]
  have lk: "linked m ?d" "linked m ?e" using assms(1) mld_linked_pair [OF True] by auto
  have "linked m' ?d" "linked m' ?e" using assms(2,3) lk o
    by (auto simp: px4_mldev_set_card_power_def backend_set_power_def Let_def linked_def split: if_splits)
  then show ?thesis using mld_linked_pair [OF True] by simp
next
  case False
  then show ?thesis using assms by (simp add: px4_mldev_set_card_power_def)
qed

lemma mldev_step_linked:
  assumes "mldev_step bk s s'" "mld_inv (fst s)" "mld_linked (fst s)" "\<forall>log q. bk log q True = 0"
  shows "mld_linked (fst s')"
  using assms(1)
proof (cases rule: mldev_step.cases)
  case (search m m' p)
  then show ?thesis using assms(3) by (auto simp: mld_linked_def split: if_splits)
next
  case (add p m px ret m')
  then show ?thesis using mld_add_linked [OF _ _ assms(4) add(4)] assms(2,3) by simp
next
  case (remove m px ret m' p)
  then show ?thesis using mld_remove_linked [OF _ remove(4)] assms(3) by simp
next
  case (set_power m px c st ret fo m' p)
  then show ?thesis using mld_set_power_linked [OF _ _ assms(4) set_power(4)] assms(2,3) by simp
next
  case (set_card m px st ret m' p)
  then show ?thesis using mld_set_card_power_linked [OF _ assms(4) set_card(4)] assms(3) by simp
qed

text \<open>C11: if the switch never fails to turn a device on, the power state is exactly the demand: an
  attached device is powered if and only if a receiver or the card reader of its own is open, or
  its partner has a receiver open that needs both halves.\<close>

theorem mldev_power_exact:
  assumes "px4_mldev_alloc True md px = Inr m" "(mldev_step bk)\<^sup>*\<^sup>* (m, 0) (m', p)" "d \<le> 1"
    "\<forall>log q. bk log q True = 0"
  shows "power_state m' d \<longleftrightarrow> mdev m' d \<noteq> None \<and> (px4_mldev_has_power_user m' d \<or>
     px4_mldev_is_power_interlocking_required m' (other_slot d))"
proof -
  have "mldev_step bk s s' \<Longrightarrow> mld_inv (fst s) \<Longrightarrow> mld_refs_ok s \<Longrightarrow> mld_linked (fst s) \<Longrightarrow>
      mld_inv (fst s') \<and> mld_refs_ok s' \<and> mld_linked (fst s')" for s s'
    using mldev_step_ok mldev_step_linked assms(4) by blast
  with assms(2) have "mld_inv (fst (m', p)) \<and> mld_refs_ok (m', p) \<and> mld_linked (fst (m', p))"
  proof (induction rule: rtranclp_induct)
    case base
    have "mld_linked m" using assms(1)
      by (auto simp: px4_mldev_alloc_def mld_linked_def linked_def mld_status_defs
          split: if_splits px4_mldev_mode.split)
    then show ?case using mldev_alloc_ok [OF assms(1)] by simp
  qed blast
  then have "slot_ok m' d" "linked m' d"
    using mld_inv_pair [OF assms(3)] mld_linked_pair [OF assms(3)] by auto
  then show ?thesis unfolding linked_def by (cases "mdev m' d") (auto simp: slot_ok_def)
qed

theorem mldev_power_exact_witness:
  "\<exists>m'. (mldev_step (\<lambda>_ _ _. 0))\<^sup>*\<^sup>* (demo_mld, 0) (m', 0) \<and> power_state m' 0 = True"
proof -
  let ?m = "snd (px4_mldev_set_card_power (\<lambda>_ _ _. 0) demo_mld demo_px True)"
  have "mldev_step (\<lambda>_ _ _. 0) (demo_mld, 0) (?m, 0)"
    by (rule mldev_step.set_card [where px = demo_px and st = True, OF _ prod.collapse [symmetric]])
      (simp add: demo_mld_def)
  then have r: "(mldev_step (\<lambda>_ _ _. 0))\<^sup>*\<^sup>* (demo_mld, 0) (?m, 0)" by simp
  have "px4_mldev_has_power_user ?m 0" "mdev ?m 0 = Some demo_px"
    by (simp_all add: px4_mldev_set_card_power_def mld_slot_def demo_px_def demo_mld_def
        mld_status_defs backend_set_power_def Let_def other_slot_def)
  then show ?thesis
    using mldev_power_exact [OF demo_mld_alloc r, of 0] r by (intro exI [of _ ?m]) simp
qed

text \<open>C16: in every mode, opening a receiver that makes its device need the power of a partner that is
  off, while the partner's switch fails (and the device's own switch does not), returns the error but
  leaves the receiver recorded as open and its device powered, so that a second attempt finds it open
  and reports neither an error nor a first use.\<close>

theorem mldev_partner_failure_leaks:
  assumes "mld_inv m" "mld_slot px \<le> 1" "c \<le> 3" "mdev m (mld_slot px) = Some px"
    "\<not> chrdev_state m (mld_slot px) c" "mdev m (other_slot (mld_slot px)) = Some q"
    "\<not> power_state m (other_slot (mld_slot px))"
    "px4_mldev_is_power_interlocking_required (mld_set_chrdev (mld_slot px) c True m) (mld_slot px)"
    "\<forall>log. bk log px True = 0" "\<forall>log. bk log q True = err" "err \<noteq> 0"
    "px4_mldev_set_power bk m px c True = (ret, fo, m')"
  shows "ret = err \<and> chrdev_state m' (mld_slot px) c \<and> power_state m' (mld_slot px) \<and>
    px4_mldev_set_power bk m' px c True = (0, False, m')"
proof -
  let ?d = "mld_slot px" let ?e = "other_slot ?d"
  note o = other_slot_props [OF assms(2)]
  have ok: "slot_ok m ?d" "slot_ok m ?e" using assms(1) mld_inv_pair [OF assms(2)] by auto
  have safe: "slot_safe m ?d" "slot_safe m ?e" using ok by (auto simp: slot_ok_split)
  note own = mld_own_power_safe [OF safe assms(2) refl assms(4), where bk = bk and st = True]
  obtain m2 fo1 ret1 where m2: "mld_own_power bk m px True = Inr (ret1, fo1, m2)"
    using mld_own_power_Inr assms(9) by metis
  then have m2': "mdev m2 = mdev m" "power_state m2 ?e = power_state m ?e" "power_state m2 ?d"
      "mld_mode m2 = mld_mode m" "chrdev_state m2 = chrdev_state m"
    using own by auto
  let ?m3 = "mld_set_chrdev ?d c True m2"
  have "px4_mldev_is_power_interlocking_required ?m3 ?d"
    using m2'(4,5) assms(8)
    by (cases "mld_mode m") (simp_all add: mld_status_defs mld_set_chrdev_def)
  then have "mld_partner_power bk ?m3 ?d True ret1 = (err, ?m3\<lparr>plog := plog m2 @ [(q, True, err)]\<rparr>)"
    using m2' assms(6,7,10,11) by (simp add: mld_partner_power_def backend_set_power_def Let_def)
  then have r: "ret = err" "m' = ?m3\<lparr>plog := plog m2 @ [(q, True, err)]\<rparr>"
    using assms(2-5,12) m2 by (auto simp: px4_mldev_set_power_def Let_def)
  then show ?thesis using m2' assms(2-4) by (simp add: px4_mldev_set_power_def mld_set_chrdev_def Let_def)
qed

text \<open>In the mode S0 the first receiver needs the partner.\<close>

theorem mldev_partner_failure_leaks_witness:
  "\<exists>m'. px4_mldev_set_power (\<lambda>log q st. if q = demo_px2 \<and> st then - EIO else 0)
       (demo_mld\<lparr>mdev := (mdev demo_mld)(1 := Some demo_px2), kref := 2, mld_mode := PX4_MLDEV_S0_ONLY_MODE\<rparr>)
         demo_px 0 True =
         (- EIO, True, m') \<and> chrdev_state m' 0 0"
proof -
  let ?bk = "\<lambda>log q st. if q = demo_px2 \<and> st then - EIO else 0"
  let ?m = "demo_mld\<lparr>mdev := (mdev demo_mld)(1 := Some demo_px2), kref := 2, mld_mode := PX4_MLDEV_S0_ONLY_MODE\<rparr>"
  have s: "mld_slot demo_px = 0" "mld_slot demo_px2 = 1" "demo_px \<noteq> demo_px2" "other_slot 0 = 1"
    by (simp_all add: mld_slot_def demo_px_def demo_px2_def other_slot_def)
  have inv: "mld_inv ?m"
    using s by (auto simp: mld_inv_def slot_ok_cases demo_mld_def mld_status_defs)
  obtain ret fo m' where r: "px4_mldev_set_power ?bk ?m demo_px 0 True = (ret, fo, m')"
    by (metis prod_cases3)
  have f: "fo = True" using r s
    by (auto simp: px4_mldev_set_power_def mld_own_power_def mld_partner_power_def demo_mld_def
        mld_status_defs backend_set_power_def Let_def mld_set_chrdev_def)
  have "ret = - EIO \<and> chrdev_state m' 0 0"
    using mldev_partner_failure_leaks [OF inv, of demo_px 0 demo_px2 ?bk "- EIO"] r s
    by (simp add: demo_mld_def mld_status_defs mld_set_chrdev_def)
  then show ?thesis using r f by auto
qed

end
