(* ===== verification/Ptx_Chrdev.thy ===== *)
theory Ptx_Chrdev
  imports Tsmf Ringbuffer
begin

text \<open>
  One receiver as a character device (driver/ptx\_chrdev.c): its state, the path of the transport
  stream from the USB completion handler to read(2), tuning and the ioctls. The tables of devices
  are in Chrdev\_Context.

  The hardware drivers are reached through function pointers only, so they are parameters: a
  \<open>ptx_ops\<close> record of optional functions on the driver's private data \<open>'w\<close>. So is the kernel's
  clock: \<open>k_msleep ms c\<close> is the device after sleeping \<open>ms\<close> milliseconds, in which time passes,
  packets may arrive and the device may be unplugged; \<open>k_m2j\<close> is \<^verbatim>\<open>msecs_to_jiffies\<close>. A function
  that waits returns an option, \<open>None\<close> when the wait has not ended within the fuel given.
\<close>

section \<open>Data\<close>

abbreviation (input) PTX_UNSPECIFIED_SYSTEM :: u32 where "PTX_UNSPECIFIED_SYSTEM \<equiv> 0x00"
abbreviation (input) PTX_ISDB_T_SYSTEM :: u32 where "PTX_ISDB_T_SYSTEM \<equiv> 0x10"
abbreviation (input) PTX_ISDB_S_SYSTEM :: u32 where "PTX_ISDB_S_SYSTEM \<equiv> 0x20"
abbreviation (input) PTX_ISDB_C_SYSTEM :: u32 where "PTX_ISDB_C_SYSTEM \<equiv> 0x40"
abbreviation (input) PTX_J83B_SYSTEM :: u32 where "PTX_J83B_SYSTEM \<equiv> 0x80"

abbreviation (input) SAT_SET_STREAM_ID_BEFORE_TUNE :: u32 where "SAT_SET_STREAM_ID_BEFORE_TUNE \<equiv> 0x10"
abbreviation (input) WAIT_AFTER_LOCK :: u32 where "WAIT_AFTER_LOCK \<equiv> 0x40"
abbreviation (input) WAIT_AFTER_LOCK_TC_T :: u32 where "WAIT_AFTER_LOCK_TC_T \<equiv> 0x80"

abbreviation (input) TSMF_STREAM_MAX :: u32 where "TSMF_STREAM_MAX \<equiv> 14"

record ptx_tune_params =
  tp_system :: u32
  tp_freq :: u32
  tp_bandwidth :: u32
  tp_stream_id :: u16
  tp_tsmf_stream :: u32

record ptx_tsmf_stream =
  ts_filter :: tsmf_filter
  wake_jiffies :: u64
  ts_flush :: bool

type_synonym tsid_list = "u32 \<times> u16 list"

record 'w ptx_ops =
  op_init :: "('w \<Rightarrow> int \<times> 'w) option"
  op_term :: "('w \<Rightarrow> int \<times> 'w) option"
  op_open :: "('w \<Rightarrow> int \<times> 'w) option"
  op_release :: "('w \<Rightarrow> int \<times> 'w) option"
  op_tune :: "('w \<Rightarrow> ptx_tune_params \<Rightarrow> int \<times> 'w) option"
  op_check_lock :: "('w \<Rightarrow> bool \<Rightarrow> int \<times> bool \<times> 'w) option"
  op_read_tmcc_partial_reception :: "('w \<Rightarrow> bool \<Rightarrow> int \<times> bool \<times> 'w) option"
  op_read_tmcc_tsid_list :: "('w \<Rightarrow> int \<times> tsid_list \<times> 'w) option"
  op_set_stream_id :: "('w \<Rightarrow> u16 \<Rightarrow> int \<times> 'w) option"
  op_set_lnb_voltage :: "('w \<Rightarrow> int \<Rightarrow> int \<times> 'w) option"
  op_set_capture :: "('w \<Rightarrow> bool \<Rightarrow> int \<times> 'w) option"
  op_read_cnr_raw :: "('w \<Rightarrow> u32 \<Rightarrow> int \<times> u32 \<times> 'w) option"

text \<open>
  \<^verbatim>\<open>struct ptx_chrdev\<close>; the last three fields are what the code reads of its surroundings: the
  \<^verbatim>\<open>available\<close> flag of its group, the clock, and (for the specification only) how often it woke
  the reader.
\<close>

record 'w ptx_chrdev =
  cd_id :: nat
  cd_open :: nat
  system_cap :: u32
  current_system :: u32
  cd_ops :: "'w ptx_ops option"
  params :: ptx_tune_params
  cd_options :: u32
  streaming :: bool
  ringbuf :: ringbuffer
  threshold_size :: nat
  write_size :: nat
  cd_discard_null :: bool
  cd_stale_packets :: nat
  tsmf :: "ptx_tsmf_stream option"
  tsmf_active :: bool
  priv :: 'w
  available :: bool
  jiffies :: u64
  wakeups :: nat

record 'w kernel =
  k_msleep :: "nat \<Rightarrow> 'w ptx_chrdev \<Rightarrow> 'w ptx_chrdev"
  k_m2j :: "nat \<Rightarrow> u64"

definition time_before :: "u64 \<Rightarrow> u64 \<Rightarrow> bool" where
  "time_before a b \<longleftrightarrow> sint (a - b) < 0"

definition chr_op :: "'w ptx_chrdev \<Rightarrow> ('w ptx_ops \<Rightarrow> 'f option) \<Rightarrow> 'f option" where
  "chr_op c sel = (case cd_ops c of None \<Rightarrow> None | Some ops \<Rightarrow> sel ops)"

definition wake_up :: "'w ptx_chrdev \<Rightarrow> 'w ptx_chrdev" where
  "wake_up c = c\<lparr>wakeups := wakeups c + 1\<rparr>"

section \<open>The path of the stream\<close>

fun put_stream_tsmf_loop ::
    "'w ptx_chrdev \<Rightarrow> u64 \<Rightarrow> ptx_tsmf_stream \<Rightarrow> packet list \<Rightarrow> int \<Rightarrow> int \<times> ptx_tsmf_stream \<times> 'w ptx_chrdev" where
  "put_stream_tsmf_loop c interval s [] ret = (ret, s, c)"
| "put_stream_tsmf_loop c interval s (p # ps) ret =
     (let (out, f) = tsmf_filter_packet (ts_filter s) p;
          s1 = s\<lparr>ts_filter := f\<rparr> in
      if out = [] then put_stream_tsmf_loop c interval s1 ps ret
      else
        let (ret1, n, rb) = ringbuffer_write_atomic (ringbuf c) out in
        if ret1 \<noteq> 0 \<and> ret1 \<noteq> - EOVERFLOW then (ret1, s1, c\<lparr>ringbuf := rb\<rparr>)
        else
          let c1 = c\<lparr>ringbuf := rb, write_size := write_size c + n\<rparr> in
          if write_size c1 \<ge> threshold_size c1 then
            put_stream_tsmf_loop (wake_up (c1\<lparr>write_size := write_size c1 - threshold_size c1\<rparr>))
              interval (s1\<lparr>wake_jiffies := jiffies c\<rparr>) ps ret1
          else if \<not> time_before (jiffies c) (wake_jiffies s1 + interval) then
            put_stream_tsmf_loop (wake_up (c1\<lparr>write_size := 0\<rparr>)) interval
              (s1\<lparr>ts_flush := True, wake_jiffies := jiffies c\<rparr>) ps ret1
          else put_stream_tsmf_loop c1 interval s1 ps ret1)"

text \<open>The whole packets at the start of a buffer.\<close>

fun packets_of :: "nat \<Rightarrow> u8 list \<Rightarrow> packet list" where
  "packets_of 0 buf = []"
| "packets_of (Suc n) buf = take 188 buf # packets_of n (drop 188 buf)"

definition ptx_chrdev_put_stream_tsmf :: "'w kernel \<Rightarrow> 'w ptx_chrdev \<Rightarrow> u8 list \<Rightarrow> int \<times> 'w ptx_chrdev" where
  "ptx_chrdev_put_stream_tsmf K c buf =
     (case tsmf c of
        None \<Rightarrow> (0, c)
      | Some s \<Rightarrow>
          let (ret, s', c') = put_stream_tsmf_loop c (k_m2j K 200) s
                                (packets_of (length buf div 188) buf) 0
          in (ret, c'\<lparr>tsmf := Some s'\<rparr>))"

definition ptx_chrdev_put_stream :: "'w kernel \<Rightarrow> 'w ptx_chrdev \<Rightarrow> u8 list \<Rightarrow> int \<times> 'w ptx_chrdev" where
  "ptx_chrdev_put_stream K c buf =
     (if tsmf_active c then ptx_chrdev_put_stream_tsmf K c buf
      else
        let (ret, n, rb) = ringbuffer_write_atomic (ringbuf c) buf in
        if ret \<noteq> 0 \<and> ret \<noteq> - EOVERFLOW then (ret, c\<lparr>ringbuf := rb\<rparr>)
        else
          let c1 = c\<lparr>ringbuf := rb, write_size := write_size c + n\<rparr> in
          (ret, if write_size c1 \<ge> threshold_size c1
                then wake_up (c1\<lparr>write_size := write_size c1 - threshold_size c1\<rparr>) else c1))"

text \<open>
  read(2). At its \<open>k\<close>-th wait, \<open>env k\<close> gives the device when the wait ends, or \<open>None\<close> when a signal
  interrupts it; \<open>copy off n\<close> is what \<^verbatim>\<open>copy_to_user\<close> leaves uncopied. The result is the return
  value, the bytes delivered, and the device. (A read never returns more than asked: the test
  \<open>remain < len\<close> is never true and only lets the loop be seen to end.)
\<close>

function (sequential) read_loop ::
    "(nat \<Rightarrow> 'w ptx_chrdev \<Rightarrow> 'w ptx_chrdev option) \<Rightarrow> (nat \<Rightarrow> nat \<Rightarrow> nat) \<Rightarrow> nat \<Rightarrow> nat \<Rightarrow> nat \<Rightarrow>
      'w ptx_chrdev \<Rightarrow> int \<times> nat \<times> u8 list \<times> 'w ptx_chrdev" where
  "read_loop env copy count k remain c =
     (if remain = 0 then (0, 0, [], c)
      else
        case env k c of
          None \<Rightarrow> (if remain = count then - EINTR else 0, remain, [], c)
        | Some c1 \<Rightarrow>
            let (ret, len, data, rb) =
                  ringbuffer_read_user (\<lambda>off n. copy (count - remain + off) n) (ringbuf c1) remain;
                c2 = c1\<lparr>ringbuf := rb\<rparr> in
            if ret \<noteq> 0 \<or> len = 0 \<or> remain < len then (ret, remain, data, c2)
            else if tsmf_active c2 \<and> remain - len \<noteq> 0 \<and>
                    (case tsmf c2 of None \<Rightarrow> False | Some s \<Rightarrow> ts_flush s) then
              (ret, remain - len, data, c2\<lparr>tsmf := map_option (ts_flush_update (\<lambda>_. False)) (tsmf c2)\<rparr>)
            else
              let (ret', rest, more, c3) = read_loop env copy count (k + 1) (remain - len) c2
              in (ret', rest, data @ more, c3))"
  by pat_completeness auto

termination read_loop
  by (relation "measure (\<lambda>(env, copy, count, k, remain, c). remain)") auto

declare read_loop.simps [simp del]

definition ptx_chrdev_read ::
    "(nat \<Rightarrow> 'w ptx_chrdev \<Rightarrow> 'w ptx_chrdev option) \<Rightarrow> (nat \<Rightarrow> nat \<Rightarrow> nat) \<Rightarrow> 'w ptx_chrdev \<Rightarrow> nat \<Rightarrow>
      int \<times> u8 list \<times> 'w ptx_chrdev" where
  "ptx_chrdev_read env copy c count =
     (if \<not> available c then (- EIO, [], c)
      else
        let c1 = c\<lparr>ringbuf := snd (ringbuffer_ready_read (ringbuf c))\<rparr>;
            (ret, remain, data, c2) = read_loop env copy count 0 count c1
        in (if ret = 0 then int (count - remain) else ret, data, c2))"

section \<open>TSMF state\<close>

definition ptx_chrdev_reset_tsmf :: "'w ptx_chrdev \<Rightarrow> 'w ptx_chrdev" where
  "ptx_chrdev_reset_tsmf c = c\<lparr>tsmf := map_option (\<lambda>s. s\<lparr>
     ts_filter := tsmf_filter_init (ts_filter s) (int (unat (tp_tsmf_stream (params c))))
                    (cd_discard_null c) (cd_stale_packets c),
     wake_jiffies := jiffies c, ts_flush := False\<rparr>) (tsmf c)\<rparr>"

definition ptx_chrdev_resync_tsmf :: "'w ptx_chrdev \<Rightarrow> 'w ptx_chrdev" where
  "ptx_chrdev_resync_tsmf c =
     c\<lparr>tsmf := map_option (\<lambda>s. s\<lparr>ts_filter := tsmf_filter_resync (ts_filter s)\<rparr>) (tsmf c)\<rparr>"

text \<open>\<open>alloc\<close> is the zeroed memory \<^verbatim>\<open>kvzalloc\<close> returned, if any.\<close>

definition ptx_chrdev_prepare_tsmf :: "ptx_tsmf_stream option \<Rightarrow> 'w ptx_chrdev \<Rightarrow> int \<times> 'w ptx_chrdev" where
  "ptx_chrdev_prepare_tsmf alloc c =
     (let c1 = c\<lparr>tsmf_active := False\<rparr> in
      if tp_system (params c1) \<noteq> PTX_ISDB_C_SYSTEM then (0, c1)
      else
        let c2 = (if tsmf c1 = None then c1\<lparr>tsmf := alloc\<rparr> else c1) in
        if tsmf c2 = None then (- ENOMEM, c2)
        else (0, (ptx_chrdev_reset_tsmf c2)\<lparr>tsmf_active := True\<rparr>))"

fun wait_tsmf_loop :: "'w kernel \<Rightarrow> nat \<Rightarrow> u64 \<Rightarrow> 'w ptx_chrdev \<Rightarrow> (int \<times> 'w ptx_chrdev) option" where
  "wait_tsmf_loop K 0 deadline c = None"
| "wait_tsmf_loop K (Suc fuel) deadline c =
     (if \<not> time_before (jiffies c) deadline then Some (- EAGAIN, c)
      else if \<not> available c then Some (- EIO, c)
      else
        case tsmf c of
          None \<Rightarrow> None
        | Some s \<Rightarrow>
            (case tsmf_filter_get_state (ts_filter s) of
               TSMF_FILTER_FOUND \<Rightarrow> Some (0, c)
             | TSMF_FILTER_NOT_FOUND \<Rightarrow> Some (- ENODATA, c)
             | TSMF_FILTER_SEARCHING \<Rightarrow> wait_tsmf_loop K fuel deadline (k_msleep K 20 c)))"

definition ptx_chrdev_wait_tsmf :: "'w kernel \<Rightarrow> nat \<Rightarrow> 'w ptx_chrdev \<Rightarrow> (int \<times> 'w ptx_chrdev) option" where
  "ptx_chrdev_wait_tsmf K fuel c =
     (let deadline = jiffies c + k_m2j K 3000;
          capture = \<not> streaming c;
          c1 = ptx_chrdev_reset_tsmf c in
      if \<not> capture then wait_tsmf_loop K fuel deadline c1
      else
        case chr_op c1 op_set_capture of
          None \<Rightarrow> None
        | Some set_capture \<Rightarrow>
            let (ret, w) = set_capture (priv c1) True;
                c2 = c1\<lparr>priv := w\<rparr> in
            if ret \<noteq> 0 then Some (ret, c2)
            else
              case wait_tsmf_loop K fuel deadline c2 of
                None \<Rightarrow> None
              | Some (ret, c3) \<Rightarrow>
                  let (stop_ret, w) = set_capture (priv c3) False
                  in Some (if ret = 0 then stop_ret else ret, c3\<lparr>priv := w\<rparr>))"

end
