(* ===== verification/Ptx_Ioctl.thy ===== *)
theory Ptx_Ioctl
  imports Ptx_Chrdev
begin

text \<open>
  Tuning and the ioctls of driver/ptx\_chrdev.c, with the channel table of driver/isdbc\_channel.h.
  An ioctl's argument is given with the command: what \<^verbatim>\<open>copy_from_user\<close> read of it (\<open>None\<close> for a
  fault), or whether \<^verbatim>\<open>copy_to_user\<close> succeeds. Integer arithmetic on frequencies is done on int
  and stored into 32 bits, as the assignment to the u32 field does.
\<close>

section \<open>Channel numbers\<close>

definition isdbc_channel_to_khz :: "int \<Rightarrow> int" where
  "isdbc_channel_to_khz ch =
     (if 0 \<le> ch \<and> ch \<le> 62 then
        (if 12 \<le> ch \<and> ch \<le> 16 then 93000 + ch * 6000 + 2000 else 93000 + ch * 6000)
      else if 63 \<le> ch \<and> ch \<le> 112 then 95000 + ch * 6000
      else - 1)"

text \<open>The frequency fields \<^verbatim>\<open>PTX_SET_CHANNEL\<close> stores.\<close>

definition set_freq :: "ptx_tune_params \<Rightarrow> int \<Rightarrow> u32 \<Rightarrow> u16 \<Rightarrow> ptx_tune_params" where
  "set_freq p khz bw sid = p\<lparr>tp_freq := word_of_int khz, tp_bandwidth := bw, tp_stream_id := sid\<rparr>"

definition set_channel_s :: "ptx_tune_params \<Rightarrow> int \<Rightarrow> int \<Rightarrow> int \<times> ptx_tune_params" where
  "set_channel_s p freq_no slot_arg =
     (if freq_no < 0 then (- EINVAL, p)
      else if freq_no < 12 then (0, set_freq p (1049480 + 38360 * freq_no) 0 (word_of_int slot_arg))
      else if freq_no < 24 then (0, set_freq p (1613000 + 40000 * (freq_no - 12)) 0 (word_of_int slot_arg))
      else (- EINVAL, p))"

definition set_channel_t :: "ptx_tune_params \<Rightarrow> int \<Rightarrow> int \<Rightarrow> int \<times> ptx_tune_params" where
  "set_channel_t p freq_no slot_arg =
     (if (3 \<le> freq_no \<and> freq_no \<le> 12) \<or> (22 \<le> freq_no \<and> freq_no \<le> 62) then
        (0, set_freq p (93143 + freq_no * 6000 + slot_arg + (if freq_no = 12 then 2000 else 0)) 6 0)
      else if 63 \<le> freq_no \<and> freq_no \<le> 112 then
        (0, set_freq p (95143 + freq_no * 6000 + slot_arg) 6 0)
      else (- EINVAL, p))"

definition set_channel_c :: "ptx_tune_params \<Rightarrow> int \<Rightarrow> int \<Rightarrow> int \<times> ptx_tune_params" where
  "set_channel_c p freq_no slot_arg =
     (let khz = isdbc_channel_to_khz freq_no in
      if khz < 0 then (- EINVAL, p)
      else (0, set_freq (p\<lparr>tp_tsmf_stream := 0\<rparr>) (khz + slot_arg) 6 0))"

definition set_channel_any :: "u32 \<Rightarrow> ptx_tune_params \<Rightarrow> int \<Rightarrow> int \<Rightarrow> int \<times> ptx_tune_params" where
  "set_channel_any sys_cap p freq_no slot_arg =
     (if sys_cap AND PTX_ISDB_S_SYSTEM \<noteq> 0 \<and> freq_no < 0 then (- EINVAL, p)
      else if sys_cap AND PTX_ISDB_S_SYSTEM \<noteq> 0 \<and> freq_no < 12 then
        (0, (set_freq p (1049480 + 38360 * freq_no) 0 (word_of_int slot_arg))\<lparr>tp_system := PTX_ISDB_S_SYSTEM\<rparr>)
      else if sys_cap AND PTX_ISDB_S_SYSTEM \<noteq> 0 \<and> freq_no < 24 then
        (0, (set_freq p (1613000 + 40000 * (freq_no - 12)) 0 (word_of_int slot_arg))\<lparr>tp_system := PTX_ISDB_S_SYSTEM\<rparr>)
      else if sys_cap AND PTX_ISDB_T_SYSTEM \<noteq> 0 \<and> 24 \<le> freq_no \<and> freq_no \<le> 62 then
        (0, (set_freq p (93143 + freq_no * 6000 + slot_arg) 6 0)\<lparr>tp_system := PTX_ISDB_T_SYSTEM\<rparr>)
      else if sys_cap AND PTX_ISDB_T_SYSTEM \<noteq> 0 \<and> 63 \<le> freq_no \<and> freq_no \<le> 112 then
        (0, (set_freq p (95143 + freq_no * 6000 + slot_arg) 6 0)\<lparr>tp_system := PTX_ISDB_T_SYSTEM\<rparr>)
      else (- EINVAL, p))"

definition set_channel_params :: "u32 \<Rightarrow> ptx_tune_params \<Rightarrow> int \<Rightarrow> int \<Rightarrow> int \<times> ptx_tune_params" where
  "set_channel_params sys_cap p freq_no slot_arg =
     (if tp_system p = PTX_ISDB_S_SYSTEM then set_channel_s p freq_no slot_arg
      else if tp_system p = PTX_ISDB_T_SYSTEM then set_channel_t p freq_no slot_arg
      else if tp_system p = PTX_ISDB_C_SYSTEM then set_channel_c p freq_no slot_arg
      else if tp_system p = PTX_UNSPECIFIED_SYSTEM then set_channel_any sys_cap p freq_no slot_arg
      else (- ENOSYS, p))"

section \<open>Extended parameters\<close>

record ptxt_params =
  xp_system :: u32
  xp_freq :: u32
  xp_num_prop :: u32
  xp_reserved :: u32

fun apply_props :: "ptx_tune_params \<Rightarrow> (u32 \<times> u32) list \<Rightarrow> int + ptx_tune_params" where
  "apply_props p [] = Inr p"
| "apply_props p ((prop, value) # ps) =
     (if prop = 2 then
        (if tp_system p \<noteq> PTX_ISDB_C_SYSTEM \<or> value > TSMF_STREAM_MAX then Inl (- EINVAL)
         else apply_props (p\<lparr>tp_tsmf_stream := value\<rparr>) ps)
      else Inl (- EINVAL))"

text \<open>\<open>props\<close> is what the second \<^verbatim>\<open>copy_from_user\<close> read: \<^verbatim>\<open>num_prop\<close> pairs, or a fault.\<close>

definition ptx_chrdev_set_params ::
    "'w ptx_chrdev \<Rightarrow> ptxt_params \<Rightarrow> (u32 \<times> u32) list option \<Rightarrow> int \<times> 'w ptx_chrdev" where
  "ptx_chrdev_set_params c up props =
     (let p = \<lparr>tp_system = xp_system up, tp_freq = xp_freq up, tp_bandwidth = 6,
               tp_stream_id = 0, tp_tsmf_stream = 0\<rparr> in
      if (tp_system p \<noteq> PTX_ISDB_C_SYSTEM \<and> tp_system p \<noteq> PTX_J83B_SYSTEM) \<or>
         system_cap c AND tp_system p = 0 \<or> tp_freq p = 0 \<or>
         xp_num_prop up > 6 \<or> xp_reserved up \<noteq> 0 then (- EINVAL, c)
      else if xp_num_prop up \<noteq> 0 \<and> props = None then (- EFAULT, c)
      else
        case apply_props p (take (unat (xp_num_prop up)) (case props of None \<Rightarrow> [] | Some l \<Rightarrow> l)) of
          Inl e \<Rightarrow> (e, c)
        | Inr p' \<Rightarrow> (0, c\<lparr>params := p'\<rparr>))"

section \<open>Tuning\<close>

text \<open>
  The wait for the demodulator's lock, at most \<open>n\<close> more tries. The result is the loop counter when
  the loop is left (\<open>- 1\<close> after the last try), the return value, \<open>locked\<close>, the device.
\<close>

fun lock_loop ::
    "'w kernel \<Rightarrow> ('w \<Rightarrow> bool \<Rightarrow> int \<times> bool \<times> 'w) \<Rightarrow> u64 \<Rightarrow> nat \<Rightarrow> int \<Rightarrow> bool \<Rightarrow> 'w ptx_chrdev \<Rightarrow>
      int \<times> int \<times> bool \<times> 'w ptx_chrdev" where
  "lock_loop K chk deadline 0 ret locked c = (- 1, ret, locked, c)"
| "lock_loop K chk deadline (Suc i) ret locked c =
     (let (ret1, locked1, w) = chk (priv c) locked;
          c1 = c\<lparr>priv := w\<rparr> in
      if (ret1 = 0 \<and> locked1) \<or> ret1 = - ECANCELED then (int i, ret1, locked1, c1)
      else if (current_system c1 = PTX_ISDB_C_SYSTEM \<or> current_system c1 = PTX_J83B_SYSTEM) \<and>
              time_before deadline (jiffies c1) then (int i, ret1, locked1, c1)
      else lock_loop K chk deadline i ret1 locked1 (k_msleep K 10 c1))"

definition tune_wait_lock :: "'w kernel \<Rightarrow> 'w ptx_chrdev \<Rightarrow> int \<times> 'w ptx_chrdev" where
  "tune_wait_lock K c =
     (case chr_op c op_check_lock of
        None \<Rightarrow> (0, c)
      | Some chk \<Rightarrow>
          let (i, ret, locked, c1) = lock_loop K chk (jiffies c + k_m2j K 1000) 300 0 False c;
              ret = (if ret \<noteq> - ECANCELED \<and> \<not> locked then - EAGAIN else ret) in
          if ret \<noteq> 0 then (ret, c1)
          else if current_system c1 = PTX_ISDB_T_SYSTEM \<and>
                  cd_options c1 AND WAIT_AFTER_LOCK_TC_T \<noteq> 0 \<and> i > 265 then
            (0, k_msleep K (nat ((i - 265) * 10)) c1)
          else (0, c1))"

text \<open>The satellite stream id, before tuning or after the lock, as the options say.\<close>

definition tune_set_stream_id :: "'w ptx_chrdev \<Rightarrow> int \<times> 'w ptx_chrdev" where
  "tune_set_stream_id c =
     (case chr_op c op_set_stream_id of
        None \<Rightarrow> (0, c)
      | Some f \<Rightarrow> let (ret, w) = f (priv c) (tp_stream_id (params c)) in (ret, c\<lparr>priv := w\<rparr>))"

definition tune_body :: "'w kernel \<Rightarrow> ('w \<Rightarrow> ptx_tune_params \<Rightarrow> int \<times> 'w) \<Rightarrow> u32 \<Rightarrow> 'w ptx_chrdev \<Rightarrow>
    int \<times> 'w ptx_chrdev" where
  "tune_body K tune system c =
     (let before = cd_options c AND SAT_SET_STREAM_ID_BEFORE_TUNE \<noteq> 0;
          (ret, c) = (if tp_system (params c) = PTX_ISDB_S_SYSTEM \<and> before
                      then tune_set_stream_id c else (0, c)) in
      if ret \<noteq> 0 then (ret, c)
      else
        let (ret, w) = tune (priv c) (params c);
            c = c\<lparr>priv := w\<rparr> in
        if ret \<noteq> 0 then (ret, c\<lparr>params := (params c)\<lparr>tp_system := system\<rparr>\<rparr>)
        else
          let c = c\<lparr>current_system := tp_system (params c),
                    params := (params c)\<lparr>tp_system := system\<rparr>\<rparr>;
              (ret, c) = tune_wait_lock K c in
          if ret \<noteq> 0 then (ret, c)
          else
            let (ret, c) = (if current_system c = PTX_ISDB_S_SYSTEM \<and>
                               cd_options c AND SAT_SET_STREAM_ID_BEFORE_TUNE = 0
                            then tune_set_stream_id c else (0, c))
            in (ret, if cd_options c AND WAIT_AFTER_LOCK \<noteq> 0 then k_msleep K 200 c else c))"

definition ptx_chrdev_tune ::
    "'w kernel \<Rightarrow> nat \<Rightarrow> ptx_tsmf_stream option \<Rightarrow> 'w ptx_chrdev \<Rightarrow> u32 \<Rightarrow> (int \<times> 'w ptx_chrdev) option" where
  "ptx_chrdev_tune K fuel alloc c system =
     (case chr_op c op_tune of
        None \<Rightarrow> None
      | Some tune \<Rightarrow>
          let (ret, c) = (if tp_system (params c) = PTX_ISDB_C_SYSTEM \<or> tsmf_active c
                          then ptx_chrdev_prepare_tsmf alloc c else (0, c)) in
          if ret \<noteq> 0 then Some (ret, c)
          else
            let (ret, c) = tune_body K tune system c in
            if ret = 0 \<and> tsmf_active c then ptx_chrdev_wait_tsmf K fuel c
            else Some (ret, c))"

section \<open>The ioctls\<close>

datatype ioctl_cmd =
    PTX_SET_CHANNEL "(int \<times> int) option"
  | PTX_START_STREAMING
  | PTX_STOP_STREAMING
  | PTX_GET_CNR bool
  | PTX_ENABLE_LNB_POWER u64
  | PTX_DISABLE_LNB_POWER
  | PTX_SET_SYSTEM_MODE u64
  | PTX_GET_LOCK_STATUS bool
  | PTX_GET_TMCC_PARTIAL_RECEPTION bool
  | PTX_GET_TMCC_TSID_LIST bool
  | PTXT_SET_PARAMS "(ptxt_params \<times> (u32 \<times> u32) list option) option"
  | PTXT_TUNE
  | OtherCmd

datatype ioctl_out = NoOut | Out32 u32 | OutTsids tsid_list

definition ioctl_set_channel ::
    "'w kernel \<Rightarrow> nat \<Rightarrow> ptx_tsmf_stream option \<Rightarrow> 'w ptx_chrdev \<Rightarrow> (int \<times> int) option \<Rightarrow>
      (int \<times> 'w ptx_chrdev) option" where
  "ioctl_set_channel K fuel alloc c arg =
     (if chr_op c op_tune = None then Some (- ENOSYS, c)
      else
        case arg of
          None \<Rightarrow> Some (- EFAULT, c)
        | Some (freq_no, slot_arg) \<Rightarrow>
            let system = tp_system (params c);
                (ret, p) = set_channel_params (system_cap c) (params c) freq_no slot_arg in
            if ret \<noteq> 0 then Some (ret, c\<lparr>params := p\<rparr>)
            else ptx_chrdev_tune K fuel alloc (c\<lparr>params := p\<rparr>) system)"

definition ioctl_start_streaming :: "'w ptx_chrdev \<Rightarrow> int \<times> 'w ptx_chrdev" where
  "ioctl_start_streaming c =
     (if streaming c then (- EALREADY, c)
      else
        let c1 = c\<lparr>write_size := 0\<rparr>;
            c2 = (if tsmf_active c1 then ptx_chrdev_resync_tsmf c1 else c1) in
        case chr_op c2 op_set_capture of
          None \<Rightarrow> (- ENOSYS, c2)
        | Some f \<Rightarrow>
            let (ret, w) = f (priv c2) True;
                c3 = c2\<lparr>priv := w\<rparr> in
            if ret \<noteq> 0 then (ret, c3)
            else (0, c3\<lparr>ringbuf := snd (ringbuffer_start (snd (ringbuffer_reset (ringbuf c3)))),
                        streaming := True\<rparr>))"

definition ioctl_stop_streaming :: "'w ptx_chrdev \<Rightarrow> int \<times> 'w ptx_chrdev" where
  "ioctl_stop_streaming c =
     (if \<not> streaming c then (- EALREADY, c)
      else
        case chr_op c op_set_capture of
          None \<Rightarrow> (- ENOSYS, c)
        | Some f \<Rightarrow>
            let (ret, w) = f (priv c) False;
                c1 = c\<lparr>priv := w\<rparr> in
            if ret \<noteq> 0 then (ret, c1)
            else (0, wake_up (c1\<lparr>ringbuf := snd (ringbuffer_stop (ringbuf c1)), streaming := False\<rparr>)))"

definition ioctl_get_cnr :: "'w ptx_chrdev \<Rightarrow> bool \<Rightarrow> int \<times> ioctl_out \<times> 'w ptx_chrdev" where
  "ioctl_get_cnr c copy_ok =
     (case chr_op c op_read_cnr_raw of
        None \<Rightarrow> (- ENOSYS, NoOut, c)
      | Some f \<Rightarrow>
          let (ret, cn, w) = f (priv c) 0 in
          if ret \<noteq> 0 then (ret, NoOut, c\<lparr>priv := w\<rparr>)
          else if \<not> copy_ok then (- EFAULT, NoOut, c\<lparr>priv := w\<rparr>)
          else (0, Out32 cn, c\<lparr>priv := w\<rparr>))"

text \<open>The two ioctls that return a flag: the lock, and partial reception (ISDB-T only).\<close>

definition ioctl_read_flag ::
    "'w ptx_chrdev \<Rightarrow> ('w \<Rightarrow> bool \<Rightarrow> int \<times> bool \<times> 'w) option \<Rightarrow> bool \<Rightarrow> int \<times> ioctl_out \<times> 'w ptx_chrdev" where
  "ioctl_read_flag c op copy_ok =
     (case op of
        None \<Rightarrow> (- ENOSYS, NoOut, c)
      | Some f \<Rightarrow>
          let (ret, b, w) = f (priv c) False in
          if ret \<noteq> 0 then (ret, NoOut, c\<lparr>priv := w\<rparr>)
          else if \<not> copy_ok then (- EFAULT, NoOut, c\<lparr>priv := w\<rparr>)
          else (0, Out32 (if b then 1 else 0), c\<lparr>priv := w\<rparr>))"

definition ioctl_get_lock_status :: "'w ptx_chrdev \<Rightarrow> bool \<Rightarrow> int \<times> ioctl_out \<times> 'w ptx_chrdev" where
  "ioctl_get_lock_status c copy_ok =
     (if current_system c = PTX_UNSPECIFIED_SYSTEM then (- EAGAIN, NoOut, c)
      else ioctl_read_flag c (chr_op c op_check_lock) copy_ok)"

definition ioctl_get_partial_reception :: "'w ptx_chrdev \<Rightarrow> bool \<Rightarrow> int \<times> ioctl_out \<times> 'w ptx_chrdev" where
  "ioctl_get_partial_reception c copy_ok =
     (if current_system c = PTX_UNSPECIFIED_SYSTEM then (- EAGAIN, NoOut, c)
      else if current_system c \<noteq> PTX_ISDB_T_SYSTEM then (- EOPNOTSUPP, NoOut, c)
      else ioctl_read_flag c (chr_op c op_read_tmcc_partial_reception) copy_ok)"

definition ioctl_get_tsid_list :: "'w ptx_chrdev \<Rightarrow> bool \<Rightarrow> int \<times> ioctl_out \<times> 'w ptx_chrdev" where
  "ioctl_get_tsid_list c copy_ok =
     (if current_system c = PTX_UNSPECIFIED_SYSTEM then (- EAGAIN, NoOut, c)
      else if current_system c \<noteq> PTX_ISDB_S_SYSTEM then (- EOPNOTSUPP, NoOut, c)
      else
        case chr_op c op_read_tmcc_tsid_list of
          None \<Rightarrow> (- ENOSYS, NoOut, c)
        | Some f \<Rightarrow>
            let (ret, l, w) = f (priv c) in
            if ret \<noteq> 0 then (ret, NoOut, c\<lparr>priv := w\<rparr>)
            else if \<not> copy_ok then (- EFAULT, NoOut, c\<lparr>priv := w\<rparr>)
            else (0, OutTsids l, c\<lparr>priv := w\<rparr>))"

definition ioctl_enable_lnb :: "'w ptx_chrdev \<Rightarrow> u64 \<Rightarrow> int \<times> 'w ptx_chrdev" where
  "ioctl_enable_lnb c arg =
     (case chr_op c op_set_lnb_voltage of
        Some f \<Rightarrow>
          if arg > 2 then (- EINVAL, c)
          else
            let (ret, w) = f (priv c) (if arg = 0 then 0 else if arg = 1 then 11 else 15)
            in (ret, c\<lparr>priv := w\<rparr>)
      | None \<Rightarrow> (if arg \<noteq> 0 then - ENOSYS else 0, c))"

definition ioctl_disable_lnb :: "'w ptx_chrdev \<Rightarrow> int \<times> 'w ptx_chrdev" where
  "ioctl_disable_lnb c =
     (case chr_op c op_set_lnb_voltage of
        Some f \<Rightarrow> let (ret, w) = f (priv c) 0 in (ret, c\<lparr>priv := w\<rparr>)
      | None \<Rightarrow> (0, c))"

definition ioctl_set_system_mode :: "'w ptx_chrdev \<Rightarrow> u64 \<Rightarrow> int \<times> 'w ptx_chrdev" where
  "ioctl_set_system_mode c arg =
     (let mode = (ucast arg :: u32) in
      if mode = PTX_UNSPECIFIED_SYSTEM \<or> mode = PTX_ISDB_T_SYSTEM \<or> mode = PTX_ISDB_S_SYSTEM \<or>
         mode = PTX_ISDB_C_SYSTEM then
        (if system_cap c AND mode \<noteq> 0 then (0, c\<lparr>params := (params c)\<lparr>tp_system := mode\<rparr>\<rparr>)
         else (- EINVAL, c))
      else (- EINVAL, c))"

definition no_out :: "int \<times> 'w ptx_chrdev \<Rightarrow> int \<times> ioctl_out \<times> 'w ptx_chrdev" where
  "no_out r = (fst r, NoOut, snd r)"

definition ptx_chrdev_unlocked_ioctl ::
    "'w kernel \<Rightarrow> nat \<Rightarrow> ptx_tsmf_stream option \<Rightarrow> 'w ptx_chrdev \<Rightarrow> ioctl_cmd \<Rightarrow>
      (int \<times> ioctl_out \<times> 'w ptx_chrdev) option" where
  "ptx_chrdev_unlocked_ioctl K fuel alloc c cmd =
     (if \<not> available c then Some (- EIO, NoOut, c)
      else
        case cmd of
          PTX_SET_CHANNEL arg \<Rightarrow> map_option no_out (ioctl_set_channel K fuel alloc c arg)
        | PTX_START_STREAMING \<Rightarrow> Some (no_out (ioctl_start_streaming c))
        | PTX_STOP_STREAMING \<Rightarrow> Some (no_out (ioctl_stop_streaming c))
        | PTX_GET_CNR ok \<Rightarrow> Some (ioctl_get_cnr c ok)
        | PTX_GET_LOCK_STATUS ok \<Rightarrow> Some (ioctl_get_lock_status c ok)
        | PTX_GET_TMCC_PARTIAL_RECEPTION ok \<Rightarrow> Some (ioctl_get_partial_reception c ok)
        | PTX_GET_TMCC_TSID_LIST ok \<Rightarrow> Some (ioctl_get_tsid_list c ok)
        | PTX_ENABLE_LNB_POWER arg \<Rightarrow> Some (no_out (ioctl_enable_lnb c arg))
        | PTX_DISABLE_LNB_POWER \<Rightarrow> Some (no_out (ioctl_disable_lnb c))
        | PTX_SET_SYSTEM_MODE arg \<Rightarrow> Some (no_out (ioctl_set_system_mode c arg))
        | PTXT_SET_PARAMS arg \<Rightarrow>
            Some (no_out (case arg of
                            None \<Rightarrow> (- EFAULT, c)
                          | Some (up, props) \<Rightarrow> ptx_chrdev_set_params c up props))
        | PTXT_TUNE \<Rightarrow>
            (if chr_op c op_tune = None then Some (- ENOSYS, NoOut, c)
             else map_option no_out (ptx_chrdev_tune K fuel alloc c (tp_system (params c))))
        | OtherCmd \<Rightarrow> Some (- ENOSYS, NoOut, c))"

text \<open>close(2), as far as the receiver is concerned; Chrdev\_Context drops the references.\<close>

definition ptx_chrdev_close :: "'w ptx_chrdev \<Rightarrow> int \<times> 'w ptx_chrdev" where
  "ptx_chrdev_close c =
     (let c1 = (if streaming c then
                  let c' = (case chr_op c op_set_capture of
                              None \<Rightarrow> c
                            | Some f \<Rightarrow> c\<lparr>priv := snd (f (priv c) False)\<rparr>)
                  in wake_up (c'\<lparr>ringbuf := snd (ringbuffer_stop (ringbuf c')), streaming := False\<rparr>)
                else c);
          (ret, c2) = (case chr_op c1 op_release of
                         None \<Rightarrow> (0, c1)
                       | Some f \<Rightarrow> let (ret, w) = f (priv c1) in (ret, c1\<lparr>priv := w\<rparr>));
          c3 = (if tp_system (params c2) = PTX_ISDB_C_SYSTEM \<or> tp_system (params c2) = PTX_J83B_SYSTEM
                then c2\<lparr>params := (params c2)\<lparr>tp_system := PTX_UNSPECIFIED_SYSTEM\<rparr>\<rparr> else c2)
      in (ret, c3\<lparr>cd_open := cd_open c3 - 1\<rparr>))"

end
