(* ===== verification/Ptx_Props.thy ===== *)
theory Ptx_Props
  imports Ptx_Ioctl Tsmf_Props
begin

text \<open>
  The correctness properties of one receiver: what reaches the reader, that every wait ends, what
  tuning leaves behind, and the channel numbers.
\<close>

section \<open>The stream\<close>

text \<open>One packet: nothing comes out, the buffer refuses it, or it is written and the loop goes on.\<close>

lemma tsmf_loop_step:
  assumes "put_stream_tsmf_loop c iv s (p # ps) ret = (ret', s', c')"
    "tsmf_filter_packet (ts_filter s) p = (out, f)" "ringbuffer_write_atomic (ringbuf c) out = (r, n, rb)"
  obtains (skip) "out = []" "put_stream_tsmf_loop c iv (s\<lparr>ts_filter := f\<rparr>) ps ret = (ret', s', c')"
  | (refuse) "r \<noteq> 0" "c' = c\<lparr>ringbuf := rb\<rparr>"
  | (go) k w t where "r = 0 \<or> r = - EOVERFLOW" "ts_filter t = f"
      "put_stream_tsmf_loop (c\<lparr>ringbuf := rb, write_size := k, wakeups := w\<rparr>) iv t ps r = (ret', s', c')"
proof (cases "out = []")
  case True
  then show ?thesis using skip assms(1,2) by simp
next
  case False
  let ?c1 = "c\<lparr>ringbuf := rb, write_size := write_size c + n\<rparr>"
  let ?s1 = "s\<lparr>ts_filter := f\<rparr>"
  let ?full = "write_size ?c1 \<ge> threshold_size ?c1"
  let ?late = "\<not> time_before (jiffies c) (wake_jiffies ?s1 + iv)"
  note eq = assms(1) [unfolded put_stream_tsmf_loop.simps assms(2,3) Let_def prod.case if_not_P [OF False]]
  consider "r \<noteq> 0 \<and> r \<noteq> - EOVERFLOW" | "\<not> (r \<noteq> 0 \<and> r \<noteq> - EOVERFLOW)" "?full"
    | "\<not> (r \<noteq> 0 \<and> r \<noteq> - EOVERFLOW)" "\<not> ?full" "?late"
    | "\<not> (r \<noteq> 0 \<and> r \<noteq> - EOVERFLOW)" "\<not> ?full" "\<not> ?late"
    by blast
  then show ?thesis
  proof cases
    case 1
    then show ?thesis using eq refuse by simp
  next
    case 2
    from eq [unfolded if_not_P [OF 2(1)] if_P [OF 2(2)] wake_up_def] show ?thesis
      by (intro go [where t = "?s1\<lparr>wake_jiffies := jiffies c\<rparr>"]) (use 2(1) in auto)
  next
    case 3
    from eq [unfolded if_not_P [OF 3(1)] if_not_P [OF 3(2)] if_P [OF 3(3)] wake_up_def] show ?thesis
      by (intro go [where t = "?s1\<lparr>ts_flush := True, wake_jiffies := jiffies c\<rparr>"]) (use 3(1) in auto)
  next
    case 4
    from eq [unfolded if_not_P [OF 4(1)] if_not_P [OF 4(2)] if_not_P [OF 4(3)]] show ?thesis
      by (intro go [where t = ?s1 and k = "write_size c + n" and w = "wakeups c"]) (use 4(1) in auto)
  qed
qed




definition demo_ring :: ringbuffer where
  "demo_ring = \<lparr> rb_state = 2, rw_count = 0, wait_count = 0, rb_buf = Some [0, 0, 0], rb_size = 3,
     actual_size = 0, rb_head = 0, rb_tail = 0 \<rparr>"

definition demo_params :: ptx_tune_params where
  "demo_params = \<lparr>tp_system = 0, tp_freq = 0, tp_bandwidth = 0, tp_stream_id = 0, tp_tsmf_stream = 0\<rparr>"

text \<open>A driver without state whose operations all succeed; the lock is found at once.\<close>

definition demo_ops :: "unit ptx_ops" where
  "demo_ops = \<lparr> op_init = None, op_term = None, op_open = None, op_release = None,
     op_tune = Some (\<lambda>w _. (0, w)), op_check_lock = Some (\<lambda>w _. (0, True, w)),
     op_read_tmcc_partial_reception = None, op_read_tmcc_tsid_list = None,
     op_set_stream_id = Some (\<lambda>w _. (0, w)), op_set_lnb_voltage = None,
     op_set_capture = Some (\<lambda>w _. (0, w)), op_read_cnr_raw = None \<rparr>"

definition demo_chrdev :: "unit ptx_chrdev" where
  "demo_chrdev = \<lparr> cd_id = 0, cd_open = 1, system_cap = 0x30, current_system = 0,
     cd_ops = Some demo_ops, params = demo_params, cd_options = 0, streaming = True,
     ringbuf = demo_ring, threshold_size = 188, write_size = 0, cd_discard_null = False,
     cd_stale_packets = 0, tsmf = None, tsmf_active = False, priv = (), available = True,
     jiffies = 0, wakeups = 0 \<rparr>"

definition demo_kernel :: "unit kernel" where
  "demo_kernel = \<lparr> k_msleep = (\<lambda>ms c. c\<lparr>jiffies := jiffies c + 1\<rparr>), k_m2j = of_nat \<rparr>"



text \<open>
  While read(2) waits, the other side only appends to the buffer. \<open>log\<close> is a record the rest of the
  system (\<open>priv\<close>, which read(2) itself never touches) keeps of exactly the bytes it appended.
\<close>

definition env_appends :: "('w \<Rightarrow> u8 list) \<Rightarrow> (nat \<Rightarrow> 'w ptx_chrdev \<Rightarrow> 'w ptx_chrdev option) \<Rightarrow> bool" where
  "env_appends log env \<longleftrightarrow> (\<forall>k c c1. env k c = Some c1 \<longrightarrow> rb_wf (ringbuf c) \<longrightarrow>
     rb_wf (ringbuf c1) \<and> (\<exists>d. rb_list (ringbuf c1) = rb_list (ringbuf c) @ d \<and>
       log (priv c1) = log (priv c) @ d))"

lemma read_loop_delivers:
  assumes "env_appends log env" "rb_wf (ringbuf c)" "\<forall>off n. copy off n = 0"
    "read_loop env copy count k remain c = (ret, rest, data, c')"
    "remain \<le> count"
  shows "rb_wf (ringbuf c') \<and> (\<exists>d. log (priv c') = log (priv c) @ d \<and>
      data @ rb_list (ringbuf c') = rb_list (ringbuf c) @ d) \<and>
    length data + rest = remain \<and> (ret = 0 \<or> ret = - EINTR \<and> data = [] \<and> remain = count)"
  using assms(2,4,5)
proof (induction "remain" arbitrary: k c ret rest data c' rule: less_induct)
  case (less remain)
  show ?case
  proof (cases "remain = 0")
    case True
    then show ?thesis using less.prems by (auto simp: read_loop.simps)
  next
    case False
    show ?thesis
    proof (cases "env k c")
      case None
      then show ?thesis using less.prems False by (auto simp: read_loop.simps split: if_splits)
    next
      case (Some c1)
      obtain d where c1: "rb_wf (ringbuf c1)" "rb_list (ringbuf c1) = rb_list (ringbuf c) @ d"
          "log (priv c1) = log (priv c) @ d"
        using assms(1) [unfolded env_appends_def] Some less.prems(1) by metis
      let ?copy = "\<lambda>off n. copy (count - remain + off) n"
      obtain r1 len d1 rb where rd: "ringbuffer_read_user ?copy (ringbuf c1) remain = (r1, len, d1, rb)"
        by (metis prod_cases4)
      have R: "r1 = 0" "len = min remain (actual_size (ringbuf c1))"
          "d1 @ rb_list rb = rb_list (ringbuf c1)" "rb_wf rb" "length d1 = len"
        using ringbuffer_read_step [OF c1(1) _ refl rd] assms(3) by auto
      let ?c2 = "c1\<lparr>ringbuf := rb\<rparr>"
      let ?flush = "tsmf_active ?c2 \<and> remain - len \<noteq> 0 \<and>
          (case tsmf ?c2 of None \<Rightarrow> False | Some s \<Rightarrow> ts_flush s)"
      note eq = less.prems(2) [unfolded read_loop.simps [of env copy count k remain c] Some option.case rd
          Let_def prod.case]
      consider (stop) "len = 0" | (flush) "len \<noteq> 0" "?flush" | (more) "len \<noteq> 0" "\<not> ?flush" by blast
      then show ?thesis
      proof cases
        case stop
        then show ?thesis using eq False R c1 by auto
      next
        case flush
        then show ?thesis using eq False R c1 by auto
      next
        case more
        obtain ret2 rest2 d2 where r2: "read_loop env copy count (k + 1) (remain - len) ?c2 =
            (ret2, rest2, d2, c')" "ret = ret2" "rest = rest2" "data = d1 @ d2"
          using eq False R(1,2) more by (auto split: prod.splits)
        have lt: "remain - len < remain" using more(1) False by simp
        have le: "remain - len \<le> count" using less.prems(3) by simp
        obtain d' where IH: "rb_wf (ringbuf c')" "d2 @ rb_list (ringbuf c') = rb_list rb @ d'"
            "log (priv c') = log (priv c1) @ d'"
            "length d2 + rest2 = remain - len"
            "ret2 = 0 \<or> ret2 = - EINTR \<and> d2 = [] \<and> remain - len = count"
          using less.IH [OF lt _ r2(1) le] R(4) by auto
        have "log (priv c') = log (priv c) @ d @ d'" using IH(3) c1(3) by simp
        moreover have "data @ rb_list (ringbuf c') = rb_list (ringbuf c) @ d @ d'"
          using r2(4) IH(2) R(3) c1(2) by (metis append_assoc)
        moreover have "length data + rest = remain"
          using IH(4) r2(3,4) R(2,5) by simp
        moreover have "ret = 0" using IH(5) r2(2) lt less.prems(3) by auto
        ultimately show ?thesis using IH(1) by auto
      qed
    qed
  qed
qed

text \<open>C12: read(2) on an available receiver hands out the stream without a gap: with no copy fault, the bytes it returned
  followed by those left in the buffer are the bytes that were there followed by exactly the bytes
  the other side appended during the call, in the order it appended them; a return value that is
  not an error is the number of bytes delivered, never more than asked, and an interrupted call has
  taken nothing.\<close>

theorem ptx_chrdev_read_delivers:
  assumes "available c" "rb_wf (ringbuf c)" "env_appends log env" "\<forall>off n. copy off n = 0"
    "ptx_chrdev_read env copy c count = (ret, data, c')"
  shows "(\<exists>d. log (priv c') = log (priv c) @ d \<and>
      data @ rb_list (ringbuf c') = rb_list (ringbuf c) @ d) \<and> rb_wf (ringbuf c') \<and>
    length data \<le> count \<and> (ret = int (length data) \<or> ret = - EINTR \<and> data = [])"
proof -
  let ?c1 = "c\<lparr>ringbuf := snd (ringbuffer_ready_read (ringbuf c))\<rparr>"
  obtain r rest where l: "read_loop env copy count 0 count ?c1 = (r, rest, data, c')"
    "ret = (if r = 0 then int (count - rest) else r)"
    using assms(1,5) by (auto simp: ptx_chrdev_read_def Let_def split: prod.splits)
  have "rb_wf (ringbuf ?c1)" "rb_list (ringbuf ?c1) = rb_list (ringbuf c)"
    using assms(2) by (auto simp: ringbuffer_ready_read_def rb_wf_def rb_list_def rb_bytes_def)
  then show ?thesis using read_loop_delivers [OF assms(3) _ assms(4) l(1) order_refl] l(2) by auto
qed

text \<open>The other side writes one byte before each of the first two passes, then the call is
  interrupted.\<close>

definition demo_env :: "nat \<Rightarrow> u8 list ptx_chrdev \<Rightarrow> u8 list ptx_chrdev option" where
  "demo_env k c =
     (if 1 < k then None
      else if rb_state (ringbuf c) \<noteq> 2 then Some c
      else let (ret, n, rb) = ringbuffer_write_atomic (ringbuf c) [of_nat k]
           in Some (c\<lparr>ringbuf := rb, priv := priv c @ take n [of_nat k]\<rparr>))"

definition demo_reader :: "u8 list ptx_chrdev" where
  "demo_reader = \<lparr> cd_id = 0, cd_open = 1, system_cap = 0x30, current_system = 0,
     cd_ops = None, params = demo_params, cd_options = 0, streaming = True,
     ringbuf = demo_ring\<lparr>rb_buf := Some [7, 8, 9], actual_size := 2, rb_tail := 2\<rparr>,
     threshold_size = 188, write_size = 0, cd_discard_null = False, cd_stale_packets = 0,
     tsmf = None, tsmf_active = False, priv = [], available = True, jiffies = 0, wakeups = 0 \<rparr>"

lemma demo_env_appends: "env_appends id demo_env"
proof -
  have "rb_wf (ringbuf c1) \<and> (\<exists>d. rb_list (ringbuf c1) = rb_list (ringbuf c) @ d \<and>
      id (priv c1) = id (priv c) @ d)"
    if e: "demo_env k c = Some c1" and wf: "rb_wf (ringbuf c)" for k c c1
  proof (cases "rb_state (ringbuf c) = 2")
    case True
    obtain ret n rb where w: "ringbuffer_write_atomic (ringbuf c) [of_nat k] = (ret, n, rb)"
      by (metis prod_cases3)
    note S = ringbuffer_write_step [OF wf True refl w] and B = ringbuffer_write_bytes(1) [OF wf True refl w]
    show ?thesis using e True w S B by (auto simp: demo_env_def split: if_splits)
  next
    case False
    then show ?thesis using e wf by (auto simp: demo_env_def split: if_splits)
  qed
  then show ?thesis by (simp add: env_appends_def)
qed

theorem ptx_chrdev_read_delivers_witness:
  "\<exists>c'. ptx_chrdev_read demo_env (\<lambda>_ _. 0) demo_reader 5 = (4, [7, 8, 0, 1], c') \<and>
     rb_wf (ringbuf c') \<and> rb_list (ringbuf c') = []"
proof -
  obtain ret data c' where r: "ptx_chrdev_read demo_env (\<lambda>_ _. 0) demo_reader 5 = (ret, data, c')"
    by (metis prod_cases3)
  have v: "ret = 4" "data = [7, 8, 0, 1]" "priv c' = [0, 1]" using r
    by (auto simp: ptx_chrdev_read_def demo_reader_def demo_ring_def ringbuffer_ready_read_def
        read_loop.simps ringbuffer_read_user_def demo_env_def ringbuffer_write_atomic_def blit_def
        size_sub_def)
  have i: "available demo_reader" "rb_wf (ringbuf demo_reader)" "rb_list (ringbuf demo_reader) = [7, 8]"
      "priv demo_reader = []"
    by (simp_all add: demo_reader_def demo_ring_def rb_wf_def rb_bytes_def rb_list_def ring_list_def
        upt_rec)
  then have "rb_wf (ringbuf c')" "rb_list (ringbuf c') = []"
    using ptx_chrdev_read_delivers [OF i(1,2) demo_env_appends _ r] v by auto
  then show ?thesis using r v by simp
qed

section \<open>Waits end\<close>

text \<open>
  What the kernel promises of a sleep: the clock moves on (by less than \<open>2 ^ 62\<close> ticks), and nobody
  else changes what the mutex of the receiver protects.
\<close>

definition sleep_ok :: "'w kernel \<Rightarrow> bool" where
  "sleep_ok K \<longleftrightarrow> (\<forall>ms c. let c' = k_msleep K ms c in
     (\<exists>d. jiffies c' = jiffies c + d \<and> 0 < unat d \<and> unat d < 2 ^ 62) \<and>
     params c' = params c \<and> current_system c' = current_system c \<and> streaming c' = streaming c \<and>
     (rb_state (ringbuf c') = 0 \<longleftrightarrow> rb_state (ringbuf c) = 0) \<and> (tsmf c' = None \<longleftrightarrow> tsmf c = None) \<and>
     tsmf_active c' = tsmf_active c \<and> cd_ops c' = cd_ops c \<and> cd_options c' = cd_options c)"

lemma sleep_frame:
  assumes "sleep_ok K"
  shows "params (k_msleep K ms c) = params c" "current_system (k_msleep K ms c) = current_system c"
    "streaming (k_msleep K ms c) = streaming c" "tsmf_active (k_msleep K ms c) = tsmf_active c"
    "rb_state (ringbuf (k_msleep K ms c)) = 0 \<longleftrightarrow> rb_state (ringbuf c) = 0"
    "tsmf (k_msleep K ms c) = None \<longleftrightarrow> tsmf c = None" "cd_ops (k_msleep K ms c) = cd_ops c"
    "cd_options (k_msleep K ms c) = cd_options c"
  using assms by (simp_all add: sleep_ok_def Let_def)

lemma sint_small:
  assumes "- (2 ^ 63) \<le> i" "i < 2 ^ 63"
  shows "sint (word_of_int i :: u64) = i"
proof -
  have "sint (word_of_int i :: u64) = signed_take_bit 63 i" by (simp add: sint_sbintrunc')
  then show ?thesis using assms by (simp add: signed_take_bit_int_eq_self)
qed

lemma time_before_ahead:
  assumes "n < 2 ^ 63"
  shows "time_before (deadline - of_nat n) deadline \<longleftrightarrow> n \<noteq> 0"
proof -
  have "deadline - of_nat n - deadline = (word_of_int (- int n) :: u64)" by simp
  moreover have "sint (word_of_int (- int n) :: u64) = - int n"
    by (rule sint_small) (use assms in auto)
  ultimately have "sint (deadline - of_nat n - deadline :: u64) = - int n" by (simp only:)
  then show ?thesis by (simp add: time_before_def)
qed

lemma time_before_past:
  assumes "n < 2 ^ 63"
  shows "\<not> time_before (deadline + of_nat n) deadline"
proof -
  have "deadline + of_nat n - deadline = (word_of_int (int n) :: u64)" by simp
  moreover have "sint (word_of_int (int n) :: u64) = int n"
    by (rule sint_small) (use assms in auto)
  ultimately have "sint (deadline + of_nat n - deadline :: u64) = int n" by (simp only:)
  then show ?thesis by (simp add: time_before_def)
qed

text \<open>Enough fuel: one try per tick up to the deadline, and one more.\<close>

lemma wait_tsmf_loop_returns:
  assumes "sleep_ok K" "tsmf c \<noteq> None"
    "jiffies c = deadline - of_nat n \<and> n < 2 ^ 62 \<and> n < fuel \<or>
     jiffies c = deadline + of_nat m \<and> m < 2 ^ 63 \<and> 0 < fuel"
  shows "wait_tsmf_loop K fuel deadline c \<noteq> None"
  using assms(2,3)
proof (induction fuel arbitrary: c n m)
  case 0
  then show ?case by auto
next
  case (Suc fuel)
  show ?case
  proof (cases "time_before (jiffies c) deadline")
    case False
    then show ?thesis by simp
  next
    case True
    have n: "jiffies c = deadline - of_nat n" "n < 2 ^ 62" "n < Suc fuel" "n \<noteq> 0"
      using Suc.prems(2) True time_before_past [of m deadline] time_before_ahead [of n deadline] by auto
    let ?c = "k_msleep K 20 c"
    obtain d where d: "jiffies ?c = jiffies c + d" "0 < unat d" "unat d < 2 ^ 62"
      using assms(1) by (auto simp: sleep_ok_def Let_def)
    have ts: "tsmf ?c \<noteq> None" using sleep_frame(6) [OF assms(1)] Suc.prems(1) by simp
    have "wait_tsmf_loop K fuel deadline ?c \<noteq> None"
    proof (cases "unat d \<le> n")
      case True
      have "jiffies ?c = deadline - of_nat (n - unat d)"
        using d(1) n(1) True by (simp add: of_nat_diff)
      moreover have "n - unat d < 2 ^ 62 \<and> n - unat d < fuel" using n(2,3) d(2) True by auto
      ultimately show ?thesis using Suc.IH [OF ts] by blast
    next
      case False
      have "jiffies ?c = deadline + of_nat (unat d - n)"
        using d(1) n(1) False by (simp add: of_nat_diff)
      moreover have "unat d - n < 2 ^ 63 \<and> 0 < fuel" using n(3,4) d(3) by auto
      ultimately show ?thesis using Suc.IH [OF ts] by blast
    qed
    then show ?thesis using Suc.prems(1) by (auto split: option.splits tsmf_filter_state.splits)
  qed
qed

lemma reset_tsmf_frame [simp]:
  "tsmf (ptx_chrdev_reset_tsmf c) = None \<longleftrightarrow> tsmf c = None"
  "jiffies (ptx_chrdev_reset_tsmf c) = jiffies c" "streaming (ptx_chrdev_reset_tsmf c) = streaming c"
  "params (ptx_chrdev_reset_tsmf c) = params c" "priv (ptx_chrdev_reset_tsmf c) = priv c"
  "current_system (ptx_chrdev_reset_tsmf c) = current_system c" "ringbuf (ptx_chrdev_reset_tsmf c) = ringbuf c"
  "cd_ops (ptx_chrdev_reset_tsmf c) = cd_ops c" "chr_op (ptx_chrdev_reset_tsmf c) f = chr_op c f"
  "tsmf_active (ptx_chrdev_reset_tsmf c) = tsmf_active c"
  by (simp_all add: ptx_chrdev_reset_tsmf_def chr_op_def)

lemma wait_tsmf_returns:
  assumes "sleep_ok K" "tsmf c \<noteq> None" "chr_op c op_set_capture \<noteq> None"
    "unat (k_m2j K 3000) < 2 ^ 62" "unat (k_m2j K 3000) < fuel"
  shows "ptx_chrdev_wait_tsmf K fuel c \<noteq> None"
proof -
  let ?dl = "jiffies c + k_m2j K 3000"
  have "wait_tsmf_loop K fuel ?dl c1 \<noteq> None" if "jiffies c1 = jiffies c" "tsmf c1 \<noteq> None" for c1
    by (rule wait_tsmf_loop_returns [OF assms(1) that(2), where n = "unat (k_m2j K 3000)"])
      (use assms(4,5) that(1) in simp)
  note L = this
  obtain f where f: "chr_op c op_set_capture = Some f" using assms(3) by auto
  obtain ret w where w: "f (priv c) True = (ret, w)" by fastforce
  show ?thesis
    using L [of "ptx_chrdev_reset_tsmf c"] L [of "(ptx_chrdev_reset_tsmf c)\<lparr>priv := w\<rparr>"] assms(2) f w
    by (auto simp: ptx_chrdev_wait_tsmf_def Let_def split: prod.splits)
qed

text \<open>The parts of a tuning keep the operations and the TSMF state that the wait needs.\<close>

definition same_setup :: "'w ptx_chrdev \<Rightarrow> 'w ptx_chrdev \<Rightarrow> bool" where
  "same_setup c c' \<longleftrightarrow> cd_ops c' = cd_ops c \<and> tsmf_active c' = tsmf_active c \<and>
     (tsmf c' = None \<longleftrightarrow> tsmf c = None) \<and> streaming c' = streaming c \<and>
     (rb_state (ringbuf c') = 0 \<longleftrightarrow> rb_state (ringbuf c) = 0) \<and> cd_options c' = cd_options c"

lemma same_setup_trans: "same_setup a b \<Longrightarrow> same_setup b c \<Longrightarrow> same_setup a c"
  by (auto simp: same_setup_def)

lemma same_setup_sleep: "sleep_ok K \<Longrightarrow> same_setup c (k_msleep K ms c)"
  by (simp add: same_setup_def sleep_frame)

lemma same_setup_upd [simp]: "same_setup c c" "same_setup c (c\<lparr>priv := w\<rparr>)"
  "same_setup c (c\<lparr>params := p\<rparr>)" "same_setup c (c\<lparr>current_system := q\<rparr>)"
  by (simp_all add: same_setup_def)

lemma lock_loop_frame:
  assumes "sleep_ok K" "lock_loop K chk dl n ret locked c = (i, ret', locked', c')"
  shows "same_setup c c' \<and> params c' = params c \<and> current_system c' = current_system c"
  using assms(2)
proof (induction n arbitrary: ret locked c)
  case (Suc n)
  obtain r1 l1 w where k: "chk (priv c) locked = (r1, l1, w)" by (metis prod_cases3)
  let ?c1 = "c\<lparr>priv := w\<rparr>"
  show ?case
  proof (cases "(i, ret', locked', c') = (int n, r1, l1, ?c1)")
    case False
    then have "lock_loop K chk dl n r1 l1 (k_msleep K 10 ?c1) = (i, ret', locked', c')"
      using Suc.prems k by (auto simp: Let_def split: if_splits)
    note rest = Suc.IH [OF this]
    have "same_setup c (k_msleep K 10 ?c1)"
      by (rule same_setup_trans [OF same_setup_upd(2) same_setup_sleep [OF assms(1)]])
    then show ?thesis using rest same_setup_trans sleep_frame(1,2) [OF assms(1), of 10 ?c1] by auto
  qed simp
qed simp

lemma tune_wait_lock_frame:
  assumes "sleep_ok K" "tune_wait_lock K c = (ret, c')"
  shows "same_setup c c' \<and> params c' = params c \<and> current_system c' = current_system c"
proof (cases "chr_op c op_check_lock")
  case None
  then show ?thesis using assms(2) by (simp add: tune_wait_lock_def)
next
  case (Some chk)
  obtain i r l c1 where k: "lock_loop K chk (jiffies c + k_m2j K 1000) 300 0 False c = (i, r, l, c1)"
    by (metis prod_cases4)
  note F = lock_loop_frame [OF assms(1) k]
  have "c' = c1 \<or> (\<exists>ms. c' = k_msleep K ms c1)"
    using assms(2) Some k by (auto simp: tune_wait_lock_def Let_def split: if_splits)
  then show ?thesis
    using F same_setup_trans [OF _ same_setup_sleep [OF assms(1)]] sleep_frame(1,2) [OF assms(1)] by auto
qed

lemma tune_set_stream_id_frame:
  "tune_set_stream_id c = (ret, c') \<Longrightarrow>
     same_setup c c' \<and> params c' = params c \<and> current_system c' = current_system c"
  by (auto simp: tune_set_stream_id_def split: option.splits prod.splits)

text \<open>What a tuning leaves behind, whether it succeeds or not.\<close>

lemma tune_body_frame:
  assumes "sleep_ok K" "tune_body K tune system c = (ret, c')"
  shows "same_setup c c' \<and>
    (ret = 0 \<longrightarrow> current_system c' = tp_system (params c) \<and> tp_system (params c') = system)"
proof -
  let ?before = "cd_options c AND SAT_SET_STREAM_ID_BEFORE_TUNE \<noteq> 0"
  obtain r1 c1 where 1: "(if tp_system (params c) = PTX_ISDB_S_SYSTEM \<and> ?before
      then tune_set_stream_id c else (0, c)) = (r1, c1)" by fastforce
  then have f1: "same_setup c c1" "params c1 = params c"
    using tune_set_stream_id_frame [of c r1 c1] by (auto split: if_splits)
  obtain r2 w where 2: "tune (priv c1) (params c1) = (r2, w)" by fastforce
  let ?c2 = "c1\<lparr>priv := w\<rparr>"
  let ?c3 = "?c2\<lparr>current_system := tp_system (params ?c2), params := (params ?c2)\<lparr>tp_system := system\<rparr>\<rparr>"
  obtain r3 c4 where 3: "tune_wait_lock K ?c3 = (r3, c4)" by fastforce
  note f3 = tune_wait_lock_frame [OF assms(1) 3]
  obtain r4 c5 where 4: "(if current_system c4 = PTX_ISDB_S_SYSTEM \<and>
      cd_options c4 AND SAT_SET_STREAM_ID_BEFORE_TUNE = 0 then tune_set_stream_id c4 else (0, c4)) = (r4, c5)"
    by fastforce
  then have f4: "same_setup c4 c5" "params c5 = params c4" "current_system c5 = current_system c4"
    using tune_set_stream_id_frame [of c4 r4 c5] by (auto split: if_splits)
  let ?c6 = "if cd_options c5 AND WAIT_AFTER_LOCK \<noteq> 0 then k_msleep K 200 c5 else c5"
  have f5: "same_setup c5 ?c6" "params ?c6 = params c5" "current_system ?c6 = current_system c5"
    using same_setup_sleep [OF assms(1)] sleep_frame(1,2) [OF assms(1)] by auto
  have eq: "tune_body K tune system c =
      (if r1 \<noteq> 0 then (r1, c1)
       else if r2 \<noteq> 0 then (r2, ?c2\<lparr>params := (params ?c2)\<lparr>tp_system := system\<rparr>\<rparr>)
       else if r3 \<noteq> 0 then (r3, c4) else (r4, ?c6))"
    unfolding tune_body_def Let_def 1 prod.case 2 3 4 by simp
  have s2: "same_setup c ?c2" by (rule same_setup_trans [OF f1(1) same_setup_upd(2)])
  have s3: "same_setup c ?c3" using s2 by (simp add: same_setup_def)
  have s4: "same_setup c c4" using same_setup_trans [OF s3] f3 by blast
  have s6: "same_setup c ?c6" using same_setup_trans s4 f4(1) f5(1) by blast
  have "same_setup c (?c2\<lparr>params := (params ?c2)\<lparr>tp_system := system\<rparr>\<rparr>)"
    using s2 by (simp add: same_setup_def)
  moreover have "current_system ?c6 = tp_system (params c) \<and> tp_system (params ?c6) = system"
    using f3 f4 f5 f1(2) by simp
  ultimately show ?thesis using assms(2) eq f1(1) s4 s6 by (simp split: if_splits)
qed

lemma wait_tsmf_loop_frame:
  assumes "sleep_ok K" "wait_tsmf_loop K fuel dl c = Some (ret, c')"
  shows "same_setup c c' \<and> params c' = params c \<and> current_system c' = current_system c"
  using assms(2)
proof (induction fuel arbitrary: c)
  case (Suc fuel)
  show ?case
  proof (cases "c' = c")
    case False
    then have "wait_tsmf_loop K fuel dl (k_msleep K 20 c) = Some (ret, c')"
      using Suc.prems by (auto split: if_splits option.splits tsmf_filter_state.splits)
    note rest = Suc.IH [OF this]
    then show ?thesis
      using same_setup_trans [OF same_setup_sleep [OF assms(1)]] sleep_frame(1,2) [OF assms(1)] by auto
  qed simp
qed simp

lemma same_setup_reset: "same_setup c (ptx_chrdev_reset_tsmf c)"
  by (simp add: same_setup_def ptx_chrdev_reset_tsmf_def)

lemma wait_tsmf_frame:
  assumes "sleep_ok K" "ptx_chrdev_wait_tsmf K fuel c = Some (ret, c')"
  shows "same_setup c c' \<and> params c' = params c \<and> current_system c' = current_system c"
proof (cases "streaming c")
  case True
  then have "wait_tsmf_loop K fuel (jiffies c + k_m2j K 3000) (ptx_chrdev_reset_tsmf c) = Some (ret, c')"
    using assms(2) by (simp add: ptx_chrdev_wait_tsmf_def)
  from wait_tsmf_loop_frame [OF assms(1) this] show ?thesis
    using same_setup_trans [OF same_setup_reset] by auto
next
  case False
  obtain f where f: "chr_op c op_set_capture = Some f"
    using assms(2) False by (cases "chr_op c op_set_capture") (auto simp: ptx_chrdev_wait_tsmf_def Let_def)
  obtain r w where w: "f (priv c) True = (r, w)" by fastforce
  let ?c2 = "(ptx_chrdev_reset_tsmf c)\<lparr>priv := w\<rparr>"
  have c2: "same_setup c ?c2" by (rule same_setup_trans [OF same_setup_reset same_setup_upd(2)])
  show ?thesis
  proof (cases "r = 0")
    case True
    then obtain r3 c3 v where l: "wait_tsmf_loop K fuel (jiffies c + k_m2j K 3000) ?c2 = Some (r3, c3)"
        "c' = c3\<lparr>priv := v\<rparr>"
      using assms(2) False f w
      by (auto simp: ptx_chrdev_wait_tsmf_def Let_def split: option.splits prod.splits)
    show ?thesis using wait_tsmf_loop_frame [OF assms(1) l(1)] l(2) c2
        same_setup_trans [OF same_setup_trans [OF c2] same_setup_upd(2)] by auto
  next
    case False
    then show ?thesis using assms(2) \<open>\<not> streaming c\<close> f w c2
      by (auto simp: ptx_chrdev_wait_tsmf_def Let_def)
  qed
qed

lemma prepare_tsmf_frame:
  assumes "ptx_chrdev_prepare_tsmf alloc c = (ret, c')"
  shows "cd_ops c' = cd_ops c \<and> params c' = params c \<and> streaming c' = streaming c \<and>
    ringbuf c' = ringbuf c \<and> cd_options c' = cd_options c \<and> (tsmf_active c' \<longrightarrow> tsmf c' \<noteq> None)"
  using assms
  by (auto simp: ptx_chrdev_prepare_tsmf_def ptx_chrdev_reset_tsmf_def Let_def split: if_splits)

lemma prepare_tsmf_priv: "priv (snd (ptx_chrdev_prepare_tsmf alloc c)) = priv c"
  by (simp add: ptx_chrdev_prepare_tsmf_def ptx_chrdev_reset_tsmf_def Let_def)

text \<open>
  \<open>tries\<close> counts, in the driver's state, the calls of its \<^verbatim>\<open>check_lock\<close>: that operation raises it by
  one, the other operations of a tuning and the sleeps leave it.
\<close>

definition counts_lock_tries :: "('w \<Rightarrow> nat) \<Rightarrow> 'w kernel \<Rightarrow> 'w ptx_ops \<Rightarrow> bool" where
  "counts_lock_tries tries K ops \<longleftrightarrow>
     (\<forall>f w b. op_check_lock ops = Some f \<longrightarrow> tries (snd (snd (f w b))) = tries w + 1) \<and>
     (\<forall>f w p. op_tune ops = Some f \<longrightarrow> tries (snd (f w p)) = tries w) \<and>
     (\<forall>f w i. op_set_stream_id ops = Some f \<longrightarrow> tries (snd (f w i)) = tries w) \<and>
     (\<forall>f w b. op_set_capture ops = Some f \<longrightarrow> tries (snd (f w b)) = tries w) \<and>
     (\<forall>ms c. tries (priv (k_msleep K ms c)) = tries (priv c))"

lemma lock_loop_tries:
  assumes "\<And>w b. tries (snd (snd (chk w b))) = tries w + 1"
    "\<And>ms c. tries (priv (k_msleep K ms c)) = tries (priv c)"
  shows "tries (priv (snd (snd (snd (lock_loop K chk dl n r l c))))) \<le> tries (priv c) + n"
proof (induction n arbitrary: r l c)
  case (Suc n)
  obtain r1 l1 w where k: "chk (priv c) l = (r1, l1, w)" by (metis prod_cases3)
  then have "tries w = tries (priv c) + 1" using assms(1) [of "priv c" l] by simp
  then show ?case using Suc.IH [of r1 l1 "k_msleep K 10 (c\<lparr>priv := w\<rparr>)"] k assms(2)
    by (auto simp: Let_def)
qed simp

lemma tune_wait_lock_tries:
  assumes "counts_lock_tries tries K ops" "cd_ops c = Some ops"
  shows "tries (priv (snd (tune_wait_lock K c))) \<le> tries (priv c) + 300"
proof (cases "op_check_lock ops")
  case None
  then show ?thesis using assms(2) by (simp add: tune_wait_lock_def chr_op_def)
next
  case (Some chk)
  obtain i r l c1 where k: "lock_loop K chk (jiffies c + k_m2j K 1000) 300 0 False c = (i, r, l, c1)"
    by (metis prod_cases4)
  have "tries (priv c1) \<le> tries (priv c) + 300"
    using lock_loop_tries [of tries chk K "jiffies c + k_m2j K 1000" 300 0 False c] assms(1) Some k
    by (simp add: counts_lock_tries_def)
  then show ?thesis using assms Some k
    by (simp add: tune_wait_lock_def chr_op_def Let_def counts_lock_tries_def)
qed

lemma tune_set_stream_id_tries:
  assumes "counts_lock_tries tries K ops" "cd_ops c = Some ops"
  shows "tries (priv (snd (tune_set_stream_id c))) = tries (priv c)"
proof (cases "op_set_stream_id ops")
  case (Some f)
  obtain r w where "f (priv c) (tp_stream_id (params c)) = (r, w)" by fastforce
  moreover have "tries (snd (f (priv c) (tp_stream_id (params c)))) = tries (priv c)"
    using assms(1) Some unfolding counts_lock_tries_def by blast
  ultimately show ?thesis using assms(2) Some by (simp add: tune_set_stream_id_def chr_op_def)
qed (use assms(2) in \<open>simp add: tune_set_stream_id_def chr_op_def\<close>)

lemma tune_body_tries:
  assumes "counts_lock_tries tries K ops" "cd_ops c = Some ops" "op_tune ops = Some tune" "sleep_ok K"
  shows "tries (priv (snd (tune_body K tune system c))) \<le> tries (priv c) + 300"
proof -
  let ?before = "cd_options c AND SAT_SET_STREAM_ID_BEFORE_TUNE \<noteq> 0"
  obtain r1 c1 where 1: "(if tp_system (params c) = PTX_ISDB_S_SYSTEM \<and> ?before
      then tune_set_stream_id c else (0, c)) = (r1, c1)" by fastforce
  have t1: "tries (priv c1) = tries (priv c)" "cd_ops c1 = Some ops"
    using tune_set_stream_id_tries [OF assms(1,2)] tune_set_stream_id_frame [of c r1 c1] 1 assms(2)
    by (auto simp: same_setup_def split: if_splits)
  obtain r2 w where 2: "tune (priv c1) (params c1) = (r2, w)" by fastforce
  have t2: "tries w = tries (priv c)"
    using assms(1,3) t1(1) 2 unfolding counts_lock_tries_def by (metis snd_conv)
  let ?c2 = "c1\<lparr>priv := w\<rparr>"
  let ?c3 = "?c2\<lparr>current_system := tp_system (params ?c2), params := (params ?c2)\<lparr>tp_system := system\<rparr>\<rparr>"
  obtain r3 c4 where 3: "tune_wait_lock K ?c3 = (r3, c4)" by fastforce
  have t3: "tries (priv c4) \<le> tries (priv c) + 300" "cd_ops c4 = Some ops"
    using tune_wait_lock_tries [OF assms(1), of ?c3] tune_wait_lock_frame [OF assms(4) 3] 3 t1(2) t2
    by (auto simp: same_setup_def)
  obtain r4 c5 where 4: "(if current_system c4 = PTX_ISDB_S_SYSTEM \<and>
      cd_options c4 AND SAT_SET_STREAM_ID_BEFORE_TUNE = 0 then tune_set_stream_id c4 else (0, c4)) = (r4, c5)"
    by fastforce
  have t4: "tries (priv c5) = tries (priv c4)"
    using tune_set_stream_id_tries [OF assms(1) t3(2)] 4 by (auto split: if_splits)
  have "tries (priv (if cd_options c5 AND WAIT_AFTER_LOCK \<noteq> 0 then k_msleep K 200 c5 else c5)) =
      tries (priv c5)" using assms(1) by (simp add: counts_lock_tries_def)
  moreover have "tune_body K tune system c =
      (if r1 \<noteq> 0 then (r1, c1)
       else if r2 \<noteq> 0 then (r2, ?c2\<lparr>params := (params ?c2)\<lparr>tp_system := system\<rparr>\<rparr>)
       else if r3 \<noteq> 0 then (r3, c4)
       else (r4, if cd_options c5 AND WAIT_AFTER_LOCK \<noteq> 0 then k_msleep K 200 c5 else c5))"
    unfolding tune_body_def Let_def 1 prod.case 2 3 4 by simp
  ultimately show ?thesis using t1(1) t2 t3(1) t4 by simp
qed

lemma wait_tsmf_loop_tries:
  assumes "\<And>ms c. tries (priv (k_msleep K ms c)) = tries (priv c)"
  shows "wait_tsmf_loop K fuel dl c = Some (ret, c') \<Longrightarrow> tries (priv c') = tries (priv c)"
  by (induction fuel arbitrary: c)
    (auto simp: assms split: if_splits option.splits tsmf_filter_state.splits)

lemma wait_tsmf_tries:
  assumes "counts_lock_tries tries K ops" "cd_ops c = Some ops"
    "ptx_chrdev_wait_tsmf K fuel c = Some (ret, c')"
  shows "tries (priv c') = tries (priv c)"
proof -
  have sl: "\<And>ms c. tries (priv (k_msleep K ms c)) = tries (priv c)"
    using assms(1) by (simp add: counts_lock_tries_def)
  let ?c1 = "ptx_chrdev_reset_tsmf c" and ?dl = "jiffies c + k_m2j K 3000"
  note L = wait_tsmf_loop_tries [of tries K, OF sl]
  show ?thesis
  proof (cases "streaming c")
    case True
    then show ?thesis using assms(3) L [of fuel ?dl ?c1 ret c']
      by (simp add: ptx_chrdev_wait_tsmf_def)
  next
    case False
    show ?thesis
    proof (cases "op_set_capture ops")
      case None
      then show ?thesis using assms(2,3) False by (simp add: ptx_chrdev_wait_tsmf_def chr_op_def Let_def)
    next
      case (Some f)
      have F: "tries v = tries w" if "f w b = (r, v)" for w b r v
        using assms(1) Some that unfolding counts_lock_tries_def by (metis snd_conv)
      show ?thesis using assms(2,3) False Some
        by (auto simp: ptx_chrdev_wait_tsmf_def chr_op_def Let_def
            split: prod.splits option.splits if_splits dest!: F L)
    qed
  qed
qed

lemma ptx_tune_cases:
  assumes "chr_op c op_tune = Some tune" "tsmf_active c \<Longrightarrow> tsmf c \<noteq> None"
  obtains (fail) ret c1 where "ptx_chrdev_tune K fuel alloc c system = Some (ret, c1)" "ret \<noteq> 0"
      "streaming c1 = streaming c" "ringbuf c1 = ringbuf c" "priv c1 = priv c"
  | (body) c1 ret c2 where "tune_body K tune system c1 = (ret, c2)" "params c1 = params c"
      "streaming c1 = streaming c" "ringbuf c1 = ringbuf c" "cd_ops c1 = cd_ops c"
      "tsmf_active c1 \<Longrightarrow> tsmf c1 \<noteq> None" "priv c1 = priv c"
      "ptx_chrdev_tune K fuel alloc c system =
         (if ret = 0 \<and> tsmf_active c2 then ptx_chrdev_wait_tsmf K fuel c2 else Some (ret, c2))"
proof -
  let ?prep = "tp_system (params c) = PTX_ISDB_C_SYSTEM \<or> tsmf_active c"
  obtain r c1 where p: "(if ?prep then ptx_chrdev_prepare_tsmf alloc c else (0, c)) = (r, c1)"
    by fastforce
  have F: "params c1 = params c" "streaming c1 = streaming c" "ringbuf c1 = ringbuf c"
      "cd_ops c1 = cd_ops c" "tsmf_active c1 \<Longrightarrow> tsmf c1 \<noteq> None"
      "priv c1 = priv c"
    using p prepare_tsmf_frame [of alloc c r c1] prepare_tsmf_priv [of alloc c] assms(2)
    by (auto split: if_splits)
  obtain r2 c2 where b: "tune_body K tune system c1 = (r2, c2)" by fastforce
  have eq: "ptx_chrdev_tune K fuel alloc c system = (if r \<noteq> 0 then Some (r, c1)
      else if r2 = 0 \<and> tsmf_active c2 then ptx_chrdev_wait_tsmf K fuel c2 else Some (r2, c2))"
    unfolding ptx_chrdev_tune_def assms(1) option.case Let_def p prod.case b by simp
  show ?thesis
  proof (cases "r = 0")
    case True
    then show ?thesis using body [OF b F] eq by simp
  next
    case False
    then show ?thesis using fail eq F by simp
  qed
qed

text \<open>C14: every tuning comes back. On a receiver whose driver can tune and capture and whose filter, if in use, has
  its memory, with a clock that moves while the caller sleeps and three seconds less than 2^62 ticks long, three
  seconds' worth of ticks of fuel are enough for the wait for a TSMF header, and the demodulator is asked for
  its lock at most 300 times (\<open>tries\<close> counts the calls of the driver's \<^verbatim>\<open>check_lock\<close>).\<close>

theorem ptx_chrdev_tune_returns:
  assumes "sleep_ok K" "cd_ops c = Some ops" "op_tune ops \<noteq> None" "op_set_capture ops \<noteq> None"
    "tsmf_active c \<longrightarrow> tsmf c \<noteq> None"
    "unat (k_m2j K 3000) < 2 ^ 62" "unat (k_m2j K 3000) < fuel" "counts_lock_tries tries K ops"
  shows "\<exists>ret c'. ptx_chrdev_tune K fuel alloc c system = Some (ret, c') \<and>
    tries (priv c') \<le> tries (priv c) + 300"
proof -
  obtain tune where t: "op_tune ops = Some tune" "chr_op c op_tune = Some tune"
    using assms(2,3) by (auto simp: chr_op_def)
  show ?thesis
  proof (cases rule: ptx_tune_cases [OF t(2), of K fuel alloc system])
    case 1
    then show ?case using assms(5) by simp
  next
    case (3 c1 ret c2)
    have s: "same_setup c1 c2" using tune_body_frame [OF assms(1) 3(1)] by simp
    have ops: "cd_ops c1 = Some ops" "cd_ops c2 = Some ops" using s 3(5) assms(2) by (simp_all add: same_setup_def)
    have n: "tries (priv c2) \<le> tries (priv c) + 300"
      using tune_body_tries [OF assms(8) ops(1) t(1) assms(1), of system] 3(1,7) by simp
    show ?thesis
    proof (cases "ret = 0 \<and> tsmf_active c2")
      case True
      then have "tsmf c2 \<noteq> None" "chr_op c2 op_set_capture \<noteq> None"
        using s 3(6) assms(4) ops by (auto simp: same_setup_def chr_op_def)
      then show ?thesis using wait_tsmf_returns [OF assms(1) _ _ assms(6,7)] 3(8) True
          wait_tsmf_tries [OF assms(8) ops(2)] n
        by (fastforce simp: not_None_eq)
    qed (use 3(8) n in auto)
  qed auto
qed

text \<open>A demodulator that never locks: all the tries are used up. The driver's state is the count.\<close>

definition never_locks :: "nat ptx_ops" where
  "never_locks = \<lparr> op_init = None, op_term = None, op_open = None, op_release = None,
     op_tune = Some (\<lambda>w _. (0, w)), op_check_lock = Some (\<lambda>w b. (0, False, w + 1)),
     op_read_tmcc_partial_reception = None, op_read_tmcc_tsid_list = None,
     op_set_stream_id = None, op_set_lnb_voltage = None,
     op_set_capture = Some (\<lambda>w _. (0, w)), op_read_cnr_raw = None \<rparr>"

definition lockless_chrdev :: "nat ptx_chrdev" where
  "lockless_chrdev = \<lparr> cd_id = 0, cd_open = 1, system_cap = 0x30, current_system = 0,
     cd_ops = Some never_locks, params = demo_params, cd_options = 0, streaming = False,
     ringbuf = demo_ring, threshold_size = 188, write_size = 0, cd_discard_null = False,
     cd_stale_packets = 0, tsmf = None, tsmf_active = False, priv = 0, available = True,
     jiffies = 0, wakeups = 0 \<rparr>"

definition tick_kernel :: "nat kernel" where
  "tick_kernel = \<lparr> k_msleep = (\<lambda>ms c. c\<lparr>jiffies := jiffies c + 1\<rparr>), k_m2j = of_nat \<rparr>"

lemma tick_kernel_ok: "sleep_ok tick_kernel" "counts_lock_tries id tick_kernel never_locks"
proof -
  have "\<exists>d :: u64. x + 1 = x + d \<and> 0 < unat d \<and> unat d < 2 ^ 62" for x
    by (rule exI [of _ 1]) simp
  then show "sleep_ok tick_kernel" by (simp add: sleep_ok_def tick_kernel_def)
  show "counts_lock_tries id tick_kernel never_locks"
    by (simp add: counts_lock_tries_def tick_kernel_def never_locks_def)
qed

lemma demo_kernel_sleep: "sleep_ok demo_kernel"
proof -
  have "\<exists>d :: u64. x + 1 = x + d \<and> 0 < unat d \<and> unat d < 2 ^ 62" for x
    by (rule exI [of _ 1]) simp
  then show ?thesis by (simp add: sleep_ok_def demo_kernel_def)
qed

theorem ptx_chrdev_tune_returns_witness:
  "\<exists>ret c'. ptx_chrdev_tune tick_kernel 3001 None lockless_chrdev 0 = Some (ret, c') \<and> priv c' \<le> 300"
proof -
  have h: "cd_ops lockless_chrdev = Some never_locks" "op_tune never_locks \<noteq> None"
    "op_set_capture never_locks \<noteq> None" "tsmf_active lockless_chrdev \<longrightarrow> tsmf lockless_chrdev \<noteq> None"
    "unat (k_m2j tick_kernel 3000) < 2 ^ 62" "unat (k_m2j tick_kernel 3000) < 3001"
    "priv lockless_chrdev = 0"
    by (simp_all add: lockless_chrdev_def never_locks_def tick_kernel_def)
  show ?thesis
    using ptx_chrdev_tune_returns [OF tick_kernel_ok(1) h(1-6) tick_kernel_ok(2), of None 0] h(7) by simp
qed

lemma lock_loop_first:
  "0 < n \<Longrightarrow> chk (priv c) l = (0, True, w) \<Longrightarrow>
     lock_loop K chk dl n r l c = (int (n - 1), 0, True, c\<lparr>priv := w\<rparr>)"
  by (cases n) simp_all

text \<open>A successful tuning records the tuned system as the current one and restores the system
  the user had selected in the parameters.\<close>

theorem ptx_chrdev_tune_restores_system:
  assumes "sleep_ok K" "tsmf_active c \<longrightarrow> tsmf c \<noteq> None"
    "ptx_chrdev_tune K fuel alloc c system = Some (0, c')"
  shows "current_system c' = tp_system (params c) \<and> tp_system (params c') = system \<and>
    streaming c' = streaming c"
proof -
  obtain tune where t: "chr_op c op_tune = Some tune"
    using assms(3) by (cases "chr_op c op_tune") (auto simp: ptx_chrdev_tune_def)
  show ?thesis
  proof (cases rule: ptx_tune_cases [OF t, of K fuel alloc system])
    case 1
    then show ?case using assms(2) by simp
  next
    case (3 c1 ret c2)
    have b: "same_setup c1 c2" "ret = 0 \<longrightarrow> current_system c2 = tp_system (params c) \<and> tp_system (params c2) = system"
      using tune_body_frame [OF assms(1) 3(1)] 3(2) by auto
    show ?thesis
    proof (cases "ret = 0 \<and> tsmf_active c2")
      case True
      then have "ptx_chrdev_wait_tsmf K fuel c2 = Some (0, c')" using 3(8) assms(3) by simp
      from wait_tsmf_frame [OF assms(1) this] show ?thesis
        using b True 3(3) by (auto simp: same_setup_def)
    next
      case False
      then have "ret = 0" "c' = c2" using 3(8) assms(3) by auto
      then show ?thesis using b 3(3) by (auto simp: same_setup_def)
    qed
  qed (use assms(3) in auto)
qed

theorem ptx_chrdev_tune_restores_system_witness:
  "\<exists>c'. ptx_chrdev_tune demo_kernel 1 None
       (demo_chrdev\<lparr>params := demo_params\<lparr>tp_system := PTX_ISDB_S_SYSTEM\<rparr>\<rparr>) 0 = Some (0, c') \<and>
     current_system c' = PTX_ISDB_S_SYSTEM \<and> tp_system (params c') = 0"
proof -
  let ?c = "demo_chrdev\<lparr>params := demo_params\<lparr>tp_system := PTX_ISDB_S_SYSTEM\<rparr>\<rparr>"
  have ex: "\<exists>c'. ptx_chrdev_tune demo_kernel 1 None ?c 0 = Some (0, c')"
    by (simp add: ptx_chrdev_tune_def tune_body_def tune_wait_lock_def tune_set_stream_id_def
        demo_chrdev_def demo_ops_def chr_op_def demo_params_def lock_loop_first)
  then obtain c' where c': "ptx_chrdev_tune demo_kernel 1 None ?c 0 = Some (0, c')" by blast
  then show ?thesis using ptx_chrdev_tune_restores_system [OF demo_kernel_sleep _ c']
    by (auto simp: demo_chrdev_def)
qed

section \<open>Streaming and the ring buffer\<close>

definition chr_inv :: "'w ptx_chrdev \<Rightarrow> bool" where
  "chr_inv c \<longleftrightarrow> (streaming c \<longleftrightarrow> rb_state (ringbuf c) \<noteq> 0) \<and> (tsmf_active c \<longrightarrow> tsmf c \<noteq> None)"

lemma chr_inv_same: "same_setup c c' \<Longrightarrow> chr_inv c \<Longrightarrow> chr_inv c'"
  by (auto simp: same_setup_def chr_inv_def)

lemma rb_state_rw [simp]:
  "rb_state (snd (snd (ringbuffer_write_atomic rb d))) = rb_state rb"
  "rb_state (snd (snd (snd (ringbuffer_read_user u rb n)))) = rb_state rb"
  by (simp_all add: ringbuffer_write_atomic_def ringbuffer_read_user_def Let_def)

lemma put_stream_tsmf_loop_setup:
  "put_stream_tsmf_loop c iv s ps ret = (ret', s', c') \<Longrightarrow> same_setup c c'"
proof (induction ps arbitrary: c s ret)
  case (Cons p ps)
  obtain o1 f1 where p: "tsmf_filter_packet (ts_filter s) p = (o1, f1)" by fastforce
  obtain r1 n rb where w: "ringbuffer_write_atomic (ringbuf c) o1 = (r1, n, rb)" by (metis prod_cases3)
  have st: "rb_state rb = rb_state (ringbuf c)" using rb_state_rw(1) [of "ringbuf c" o1] w by simp
  from Cons.prems p w show ?case
  proof (cases rule: tsmf_loop_step)
    case skip
    then show ?thesis using Cons.IH by blast
  next
    case refuse
    then show ?thesis using st by (simp add: same_setup_def)
  next
    case (go k v s2)
    have "same_setup c (c\<lparr>ringbuf := rb, write_size := k, wakeups := v\<rparr>)"
      using st by (simp add: same_setup_def)
    then show ?thesis using Cons.IH [OF go(3)] same_setup_trans by blast
  qed
qed simp

lemma put_stream_inv:
  assumes "chr_inv c" "ptx_chrdev_put_stream K c buf = (ret, c')"
  shows "chr_inv c'"
proof (cases "tsmf_active c")
  case True
  then obtain s where s: "tsmf c = Some s" using assms(1) by (auto simp: chr_inv_def)
  obtain s' c1 where l: "put_stream_tsmf_loop c (k_m2j K 200) s (packets_of (length buf div 188) buf) 0 =
      (ret, s', c1)" "c' = c1\<lparr>tsmf := Some s'\<rparr>"
    using assms(2) True s
    by (auto simp: ptx_chrdev_put_stream_def ptx_chrdev_put_stream_tsmf_def Let_def split: prod.splits)
  show ?thesis using put_stream_tsmf_loop_setup [OF l(1)] l(2) assms(1)
    by (auto simp: chr_inv_def same_setup_def)
next
  case False
  obtain r1 n rb where w: "ringbuffer_write_atomic (ringbuf c) buf = (r1, n, rb)" by (metis prod_cases3)
  have "rb_state rb = rb_state (ringbuf c)" using rb_state_rw(1) [of "ringbuf c" buf] w by simp
  then show ?thesis using assms False w
    by (auto simp: ptx_chrdev_put_stream_def chr_inv_def wake_up_def Let_def split: if_splits)
qed

lemma tune_inv:
  assumes "sleep_ok K" "chr_inv c" "ptx_chrdev_tune K fuel alloc c system = Some (ret, c')"
  shows "chr_inv c'"
proof -
  obtain tune where t: "chr_op c op_tune = Some tune"
    using assms(3) by (cases "chr_op c op_tune") (auto simp: ptx_chrdev_tune_def)
  let ?prep = "tp_system (params c) = PTX_ISDB_C_SYSTEM \<or> tsmf_active c"
  obtain r c1 where p: "(if ?prep then ptx_chrdev_prepare_tsmf alloc c else (0, c)) = (r, c1)"
    by fastforce
  have i1: "chr_inv c1"
    using p prepare_tsmf_frame [of alloc c r c1] assms(2) by (auto simp: chr_inv_def split: if_splits)
  obtain r2 c2 where b: "tune_body K tune system c1 = (r2, c2)" by fastforce
  have i2: "chr_inv c2" using tune_body_frame [OF assms(1) b] chr_inv_same i1 by blast
  have "(if r \<noteq> 0 then Some (r, c1)
      else if r2 = 0 \<and> tsmf_active c2 then ptx_chrdev_wait_tsmf K fuel c2 else Some (r2, c2)) = Some (ret, c')"
    using assms(3) unfolding ptx_chrdev_tune_def t option.case Let_def p prod.case b by simp
  then show ?thesis using i1 i2
    by (auto split: if_splits dest!: wait_tsmf_frame [OF assms(1)] intro: chr_inv_same)
qed

text \<open>The ioctls that only talk to the driver change nothing the invariant reads.\<close>

lemma ioctl_simple_setup:
  "same_setup c (snd (snd (ioctl_get_cnr c b)))" "same_setup c (snd (snd (ioctl_get_lock_status c b)))"
  "same_setup c (snd (snd (ioctl_get_partial_reception c b)))"
  "same_setup c (snd (snd (ioctl_get_tsid_list c b)))"
  "same_setup c (snd (ioctl_enable_lnb c a))" "same_setup c (snd (ioctl_disable_lnb c))"
  "same_setup c (snd (ioctl_set_system_mode c a))" "same_setup c (snd (ptx_chrdev_set_params c up props))"
  by (auto simp: ioctl_get_cnr_def ioctl_get_lock_status_def ioctl_get_partial_reception_def
      ioctl_read_flag_def ioctl_get_tsid_list_def ioctl_enable_lnb_def ioctl_disable_lnb_def
      ioctl_set_system_mode_def ptx_chrdev_set_params_def Let_def split: option.split prod.split sum.split)

lemma ioctl_streaming_inv:
  assumes "chr_inv c"
  shows "chr_inv (snd (ioctl_start_streaming c))" "chr_inv (snd (ioctl_stop_streaming c))"
  using assms
  by (auto simp: ioctl_start_streaming_def ioctl_stop_streaming_def chr_inv_def wake_up_def Let_def
      ptx_chrdev_resync_tsmf_def ringbuffer_start_def ringbuffer_reset_def ringbuffer_reset_nolock_def
      ringbuffer_lock_def ringbuffer_unlock_def ringbuffer_stop_def
      split: option.split prod.split)

lemma ioctl_inv:
  assumes "sleep_ok K" "chr_inv c" "ptx_chrdev_unlocked_ioctl K fuel alloc c cmd = Some (ret, out, c')"
  shows "chr_inv c'"
proof (cases "available c")
  case False
  then show ?thesis using assms by (simp add: ptx_chrdev_unlocked_ioctl_def)
next
  case True
  note eq = assms(3) [unfolded ptx_chrdev_unlocked_ioctl_def, simplified True]
  show ?thesis
  proof (cases cmd)
    case (PTX_SET_CHANNEL arg)
    then obtain r where r: "ioctl_set_channel K fuel alloc c arg = Some (r, c')"
      using eq by (auto simp: no_out_def)
    have "chr_inv (c\<lparr>params := p\<rparr>)" for p using assms(2) by (simp add: chr_inv_def)
    then show ?thesis using r assms(2)
      by (auto simp: ioctl_set_channel_def Let_def split: if_splits option.splits prod.splits
          intro: tune_inv [OF assms(1)])
  next
    case PTXT_TUNE
    then show ?thesis using eq tune_inv [OF assms(1,2)] assms(2)
      by (auto simp: no_out_def split: if_splits)
  next
    case (PTX_GET_CNR b)
    then show ?thesis using eq ioctl_simple_setup(1) [of c b] chr_inv_same [OF _ assms(2)] by simp
  next
    case (PTX_GET_LOCK_STATUS b)
    then show ?thesis using eq ioctl_simple_setup(2) [of c b] chr_inv_same [OF _ assms(2)] by simp
  next
    case (PTX_GET_TMCC_PARTIAL_RECEPTION b)
    then show ?thesis using eq ioctl_simple_setup(3) [of c b] chr_inv_same [OF _ assms(2)] by simp
  next
    case (PTX_GET_TMCC_TSID_LIST b)
    then show ?thesis using eq ioctl_simple_setup(4) [of c b] chr_inv_same [OF _ assms(2)] by simp
  next
    case (PTX_ENABLE_LNB_POWER a)
    then show ?thesis using eq ioctl_simple_setup(5) [of c a] chr_inv_same [OF _ assms(2)]
      by (auto simp: no_out_def)
  next
    case PTX_DISABLE_LNB_POWER
    then show ?thesis using eq ioctl_simple_setup(6) [of c] chr_inv_same [OF _ assms(2)]
      by (auto simp: no_out_def)
  next
    case (PTX_SET_SYSTEM_MODE a)
    then show ?thesis using eq ioctl_simple_setup(7) [of c a] chr_inv_same [OF _ assms(2)]
      by (auto simp: no_out_def)
  next
    case (PTXT_SET_PARAMS arg)
    then show ?thesis using eq ioctl_simple_setup(8) [of c] chr_inv_same [OF _ assms(2)] assms(2)
      by (cases arg) (auto simp: no_out_def)
  next
    case PTX_START_STREAMING
    then show ?thesis using eq ioctl_streaming_inv [OF assms(2)] by (auto simp: no_out_def)
  next
    case PTX_STOP_STREAMING
    then show ?thesis using eq ioctl_streaming_inv [OF assms(2)] by (auto simp: no_out_def)
  qed (use eq assms(2) in simp)
qed

lemma close_inv: "chr_inv c \<Longrightarrow> ptx_chrdev_close c = (ret, c') \<Longrightarrow> chr_inv c' \<and> \<not> streaming c'"
  by (auto simp: ptx_chrdev_close_def chr_inv_def wake_up_def ringbuffer_stop_def Let_def
      split: option.splits prod.splits if_splits)

text \<open>While a reader waits, the receiver is not stopped, started or retuned in a way that breaks it.\<close>

definition env_keeps :: "(nat \<Rightarrow> 'w ptx_chrdev \<Rightarrow> 'w ptx_chrdev option) \<Rightarrow> bool" where
  "env_keeps env \<longleftrightarrow> (\<forall>k c c1. env k c = Some c1 \<longrightarrow> chr_inv c \<longrightarrow> chr_inv c1)"

lemma read_loop_inv:
  assumes "env_keeps env" "chr_inv c" "read_loop env copy count k remain c = (ret, rest, data, c')"
  shows "chr_inv c'"
  using assms(2,3)
proof (induction "remain" arbitrary: k c ret rest data rule: less_induct)
  case (less remain)
  show ?case
  proof (cases "remain = 0 \<or> env k c = None")
    case True
    then show ?thesis using less.prems by (auto simp: read_loop.simps split: if_splits)
  next
    case False
    then obtain c1 where c1: "env k c = Some c1" "remain \<noteq> 0" by auto
    then have i1: "chr_inv c1" using assms(1) less.prems(1) by (auto simp: env_keeps_def)
    let ?copy = "\<lambda>off n. copy (count - remain + off) n"
    obtain r1 len d1 rb where rd: "ringbuffer_read_user ?copy (ringbuf c1) remain = (r1, len, d1, rb)"
      by (metis prod_cases4)
    have "rb_state rb = rb_state (ringbuf c1)" using rb_state_rw(2) [of ?copy "ringbuf c1" remain] rd by simp
    then have i2: "chr_inv (c1\<lparr>ringbuf := rb\<rparr>)"
      "chr_inv (c1\<lparr>ringbuf := rb, tsmf := map_option (ts_flush_update (\<lambda>_. False)) (tsmf c1)\<rparr>)"
      using i1 by (auto simp: chr_inv_def)
    note eq = less.prems(2) [unfolded read_loop.simps [of env copy count k remain c] c1(1) option.case rd
        Let_def prod.case]
    let ?stop = "r1 \<noteq> 0 \<or> len = 0 \<or> remain < len"
    let ?flush = "tsmf_active c1 \<and> remain - len \<noteq> 0 \<and>
        (case tsmf c1 of None \<Rightarrow> False | Some s \<Rightarrow> ts_flush s)"
    consider (stop) ?stop | (flush) "\<not> ?stop" ?flush | (more) "\<not> ?stop" "\<not> ?flush" by blast
    then show ?thesis
    proof cases
      case stop
      then show ?thesis using eq c1(2) i2(1) by simp
    next
      case flush
      then show ?thesis using eq c1(2) i2(2) by simp
    next
      case more
      then obtain r2 q2 d2 where l: "read_loop env copy count (k + 1) (remain - len) (c1\<lparr>ringbuf := rb\<rparr>) =
          (r2, q2, d2, c')"
        using eq c1(2) by (auto split: prod.splits)
      have "remain - len < remain" using more(1) c1(2) by simp
      from less.IH [OF this i2(1) l] show ?thesis .
    qed
  qed
qed

text \<open>Everything that can happen to an open receiver.\<close>

inductive chr_step :: "'w kernel \<Rightarrow> 'w ptx_chrdev \<Rightarrow> 'w ptx_chrdev \<Rightarrow> bool" for K where
  s_ioctl: "ptx_chrdev_unlocked_ioctl K fuel alloc c cmd = Some (ret, out, c') \<Longrightarrow> chr_step K c c'"
| s_packets: "ptx_chrdev_put_stream K c buf = (ret, c') \<Longrightarrow> chr_step K c c'"
| s_read: "env_keeps env \<Longrightarrow> ptx_chrdev_read env copy c count = (ret, data, c') \<Longrightarrow> chr_step K c c'"
| s_close: "ptx_chrdev_close c = (ret, c') \<Longrightarrow> chr_step K c c'"

lemma chr_step_inv:
  assumes "sleep_ok K" "chr_step K c c'" "chr_inv c"
  shows "chr_inv c'"
  using assms(2)
proof cases
  case s_ioctl
  then show ?thesis using ioctl_inv [OF assms(1,3)] by blast
next
  case s_packets
  then show ?thesis using put_stream_inv [OF assms(3)] by blast
next
  case (s_read env copy count ret data)
  have "chr_inv (c\<lparr>ringbuf := snd (ringbuffer_ready_read (ringbuf c))\<rparr>)"
    using assms(3) by (auto simp: chr_inv_def ringbuffer_ready_read_def)
  then show ?thesis using s_read(2) read_loop_inv [OF s_read(1)] assms(3)
    by (auto simp: ptx_chrdev_read_def Let_def split: if_splits prod.splits)
next
  case s_close
  then show ?thesis using close_inv [OF assms(3)] by blast
qed

text \<open>C15: through any sequence of ioctls, arriving packets, reads and closes, a receiver is streaming
  exactly while its ring buffer runs, the TSMF selector is never active without its memory, and a
  close always stops the stream.\<close>

theorem ptx_streaming_invariant:
  assumes "sleep_ok K" "chr_inv c" "(chr_step K)\<^sup>*\<^sup>* c c'"
  shows "(streaming c' \<longleftrightarrow> ringbuffer_is_running (ringbuf c')) \<and> (tsmf_active c' \<longrightarrow> tsmf c' \<noteq> None) \<and>
    \<not> streaming (snd (ptx_chrdev_close c'))"
proof -
  have "chr_inv c'" using assms(3,2)
    by (induction rule: rtranclp_induct) (auto intro: chr_step_inv [OF assms(1)])
  then show ?thesis using close_inv [of c' "fst (ptx_chrdev_close c')" "snd (ptx_chrdev_close c')"]
    by (auto simp: chr_inv_def ringbuffer_is_running_def)
qed

theorem ptx_streaming_invariant_witness:
  "\<exists>c'. (chr_step demo_kernel)\<^sup>*\<^sup>* demo_chrdev c' \<and> \<not> streaming c' \<and> \<not> ringbuffer_is_running (ringbuf c')"
proof -
  obtain ret c' where c: "ptx_chrdev_close demo_chrdev = (ret, c')" by fastforce
  have r: "(chr_step demo_kernel)\<^sup>*\<^sup>* demo_chrdev c'" using s_close [OF c] by (rule r_into_rtranclp)
  have i: "chr_inv demo_chrdev" by (simp add: chr_inv_def demo_chrdev_def demo_ring_def)
  have "\<not> streaming c'"
    using ptx_streaming_invariant [OF demo_kernel_sleep i rtranclp.rtrancl_refl] c by simp
  then show ?thesis using ptx_streaming_invariant [OF demo_kernel_sleep i r] r by auto
qed

section \<open>Channels and parameters\<close>

text \<open>Without a selected system a channel number is tuned as one system of the device would tune
  it: the parameters stored are those the explicit system stores, the system recorded is one the
  device has; a number neither system takes is refused and changes nothing.\<close>

theorem set_channel_any_agrees:
  assumes "tp_system p = PTX_UNSPECIFIED_SYSTEM" "set_channel_params sys_cap p n s = (ret, p')"
  shows "ret = - EINVAL \<and> p' = p \<or>
    ret = 0 \<and> sys_cap AND tp_system p' \<noteq> 0 \<and>
      (tp_system p' = PTX_ISDB_S_SYSTEM \<and> 0 \<le> n \<and> n < 24 \<or> tp_system p' = PTX_ISDB_T_SYSTEM \<and> 24 \<le> n \<and> n \<le> 112) \<and>
      set_channel_params sys_cap (p\<lparr>tp_system := tp_system p'\<rparr>) n s = (0, p')"
proof -
  have e: "set_channel_any sys_cap p n s = (ret, p')" using assms by (simp add: set_channel_params_def)
  consider (bad) "ret = - EINVAL" "p' = p"
    | (sat) "ret = 0" "tp_system p' = PTX_ISDB_S_SYSTEM" "sys_cap AND PTX_ISDB_S_SYSTEM \<noteq> 0" "0 \<le> n" "n < 24"
        "set_channel_s (p\<lparr>tp_system := PTX_ISDB_S_SYSTEM\<rparr>) n s = (0, p')"
    | (ter) "ret = 0" "tp_system p' = PTX_ISDB_T_SYSTEM" "sys_cap AND PTX_ISDB_T_SYSTEM \<noteq> 0" "24 \<le> n" "n \<le> 112"
        "set_channel_t (p\<lparr>tp_system := PTX_ISDB_T_SYSTEM\<rparr>) n s = (0, p')"
    using e by (cases p) (auto simp: set_channel_any_def set_channel_s_def set_channel_t_def set_freq_def
        split: if_splits)
  then show ?thesis by cases (simp_all add: set_channel_params_def)
qed

theorem set_channel_any_agrees_witness:
  "\<exists>p'. set_channel_params 0x30 demo_params 63 0 = (0, p') \<and> tp_freq p' = 473143 \<and>
     tp_system p' = PTX_ISDB_T_SYSTEM"
proof -
  obtain ret p' where r: "set_channel_params 0x30 demo_params 63 0 = (ret, p')" by fastforce
  have v: "ret = 0" "tp_freq p' = 473143"
    using r by (auto simp: set_channel_params_def set_channel_any_def demo_params_def set_freq_def)
  have "tp_system p' = PTX_ISDB_T_SYSTEM"
    using set_channel_any_agrees [OF _ r] v by (simp add: demo_params_def)
  then show ?thesis using r v by simp
qed

text \<open>When the stream id has to be set before tuning and that fails, PTX\_SET\_CHANNEL on a receiver
  without a selected system returns the error but leaves ISDB-S selected, so that later terrestrial
  channel numbers are refused.\<close>

theorem ptx_stream_id_failure_keeps_system:
  assumes "chr_op c op_tune \<noteq> None" "chr_op c op_set_stream_id = Some f" "\<forall>w x. fst (f w x) = e" "e \<noteq> 0"
    "cd_options c AND SAT_SET_STREAM_ID_BEFORE_TUNE \<noteq> 0" "tp_system (params c) = PTX_UNSPECIFIED_SYSTEM"
    "\<not> tsmf_active c" "system_cap c AND PTX_ISDB_S_SYSTEM \<noteq> 0" "0 \<le> n" "n < 24"
  shows "\<exists>c'. ioctl_set_channel K fuel alloc c (Some (n, s)) = Some (e, c') \<and>
    tp_system (params c') = PTX_ISDB_S_SYSTEM \<and>
    ioctl_set_channel K fuel alloc c' (Some (63, s)) = Some (- EINVAL, c')"
proof -
  obtain t where t: "chr_op c op_tune = Some t" using assms(1) by auto
  obtain p where p: "set_channel_params (system_cap c) (params c) n s = (0, p)"
      "tp_system p = PTX_ISDB_S_SYSTEM"
    using assms(6,8-10) by (cases "n < 12") (simp_all add: set_channel_params_def set_channel_any_def)
  let ?c1 = "c\<lparr>params := p\<rparr>"
  let ?c2 = "?c1\<lparr>priv := snd (f (priv c) (tp_stream_id p))\<rparr>"
  have ops: "chr_op (c\<lparr>params := q, priv := w\<rparr>) op_tune = Some t" "chr_op (c\<lparr>params := q\<rparr>) op_tune = Some t"
    "chr_op (c\<lparr>params := q\<rparr>) op_set_stream_id = Some f" for q w
    using t assms(2) by (simp_all add: chr_op_def)
  have "tune_set_stream_id ?c1 = (e, ?c2)"
    using assms(3) ops(3) by (simp add: tune_set_stream_id_def split_def)
  then have "tune_body K t (tp_system (params c)) ?c1 = (e, ?c2)"
    using p(2) assms(4,5) by (simp add: tune_body_def Let_def)
  then have "ptx_chrdev_tune K fuel alloc ?c1 (tp_system (params c)) = Some (e, ?c2)"
    using p(2) assms(4,7) ops(2) by (simp add: ptx_chrdev_tune_def)
  then have "ioctl_set_channel K fuel alloc c (Some (n, s)) = Some (e, ?c2)"
    using t p(1) by (simp add: ioctl_set_channel_def)
  moreover have "ioctl_set_channel K fuel alloc ?c2 (Some (63, s)) = Some (- EINVAL, ?c2)"
    using ops(1) p(2) by (simp add: ioctl_set_channel_def set_channel_params_def set_channel_s_def)
  ultimately show ?thesis using p(2) by auto
qed

theorem ptx_stream_id_failure_keeps_system_witness:
  "\<exists>c'. ioctl_set_channel demo_kernel 1 None
       (demo_chrdev\<lparr>cd_options := 0x10, cd_ops := Some (demo_ops\<lparr>op_set_stream_id := Some (\<lambda>w _. (- EIO, w))\<rparr>)\<rparr>)
       (Some (3, 0)) = Some (- EIO, c') \<and> tp_system (params c') = PTX_ISDB_S_SYSTEM"
proof -
  let ?c = "demo_chrdev\<lparr>cd_options := 0x10,
      cd_ops := Some (demo_ops\<lparr>op_set_stream_id := Some (\<lambda>w _. (- EIO, w))\<rparr>)\<rparr>"
  have "chr_op ?c op_tune \<noteq> None" "chr_op ?c op_set_stream_id = Some (\<lambda>w _. (- EIO, w))"
    by (simp_all add: chr_op_def demo_ops_def)
  then show ?thesis
    using ptx_stream_id_failure_keeps_system [of ?c _ "- EIO" 3 demo_kernel 1 None 0]
    by (auto simp: demo_chrdev_def demo_params_def)
qed

end
