(* ===== verification/Minor_Table.thy ===== *)
theory Minor_Table
  imports Prelude
begin

text \<open>
  The table of minor numbers of a character device context (driver/ptx\_chrdev.c): the search for a
  block of equal entries, the test and the update of a block. The table has \<^verbatim>\<open>minor_num\<close> entries;
  a search for an empty block (\<open>num = 0\<close>) would read the entry behind it and is left aside.
\<close>

abbreviation (input) PTX_CHRDEV_MINOR_FREE :: nat where "PTX_CHRDEV_MINOR_FREE \<equiv> 0"
abbreviation (input) PTX_CHRDEV_MINOR_RESERVED :: nat where "PTX_CHRDEV_MINOR_RESERVED \<equiv> 1"
abbreviation (input) PTX_CHRDEV_MINOR_IN_USE :: nat where "PTX_CHRDEV_MINOR_IN_USE \<equiv> 2"

section \<open>Operations\<close>

text \<open>The inner loop: the first \<open>j\<close> from the given one on where the block ends early, or \<open>num\<close>.\<close>

function block_end :: "nat list \<Rightarrow> nat \<Rightarrow> nat \<Rightarrow> nat \<Rightarrow> nat \<Rightarrow> nat" where
  "block_end tbl num st i j =
     (if j < num then (if tbl ! (i + j) \<noteq> st then j else block_end tbl num st i (j + 1)) else j)"
  by pat_completeness auto

termination block_end
  by (relation "measure (\<lambda>(tbl, num, st, i, j). num - j)") auto

declare block_end.simps [simp del]

function search_from :: "nat list \<Rightarrow> nat \<Rightarrow> nat \<Rightarrow> nat \<Rightarrow> nat option" where
  "search_from tbl num st i =
     (if i < length tbl - num + 1 then
        (if tbl ! i \<noteq> st then search_from tbl num st (i + 1)
         else
           let j = block_end tbl num st i 1 in
           if j < num then search_from tbl num st (i + j + 1) else Some i)
      else None)"
  by pat_completeness auto

termination search_from
  by (relation "measure (\<lambda>(tbl, num, st, i). length tbl + 1 - i)") auto

declare search_from.simps [simp del]

definition ptx_chrdev_context_search_minor :: "nat list \<Rightarrow> nat \<Rightarrow> nat \<Rightarrow> int + nat" where
  "ptx_chrdev_context_search_minor tbl num st =
     (if num > length tbl then Inl (- EINVAL)
      else case search_from tbl num st 0 of None \<Rightarrow> Inl (- EBUSY) | Some i \<Rightarrow> Inr i)"

definition ptx_chrdev_context_check_minor_status :: "nat list \<Rightarrow> nat \<Rightarrow> nat \<Rightarrow> nat \<Rightarrow> int + bool" where
  "ptx_chrdev_context_check_minor_status tbl base num st =
     (if base + num > length tbl then Inl (- EINVAL)
      else Inr (list_all (\<lambda>i. tbl ! (base + i) = st) [0..<num]))"

definition ptx_chrdev_context_set_minor_status :: "nat list \<Rightarrow> nat \<Rightarrow> nat \<Rightarrow> nat \<Rightarrow> int \<times> nat list" where
  "ptx_chrdev_context_set_minor_status tbl base num st =
     (if base + num > length tbl then (- EINVAL, tbl)
      else (0, fold (\<lambda>i t. t[base + i := st]) [0..<num] tbl))"

section \<open>What the search finds\<close>

definition block_at :: "nat list \<Rightarrow> nat \<Rightarrow> nat \<Rightarrow> nat \<Rightarrow> bool" where
  "block_at tbl num st i \<longleftrightarrow> i + num \<le> length tbl \<and> (\<forall>k<num. tbl ! (i + k) = st)"

lemma block_end_props:
  assumes "j \<le> num"
  shows "block_end tbl num st i j \<le> num" "j \<le> block_end tbl num st i j"
    "\<forall>k. j \<le> k \<and> k < block_end tbl num st i j \<longrightarrow> tbl ! (i + k) = st"
    "block_end tbl num st i j < num \<Longrightarrow> tbl ! (i + block_end tbl num st i j) \<noteq> st"
  using assms
proof (induction tbl num st i j rule: block_end.induct)
  case (1 tbl num st i j)
  {
    case 1
    then show ?case using "1.IH"(1) by (subst block_end.simps) auto
  next
    case 2
    then show ?case using "1.IH"(2) by (subst block_end.simps) auto
  next
    case 3
    then show ?case using "1.IH"(3)
      by (subst block_end.simps) (auto, metis Suc_eq_plus1 Suc_leI le_less)
  next
    case 4
    then show ?case using "1.IH"(4) 
      by (cases "j < num"; cases "tbl ! (i + j) = st") (simp_all add: block_end.simps [of tbl num st i j])
  }
qed

text \<open>Skipping past the entry that ends a block misses no candidate.\<close>

lemma search_from_sound:
  assumes "0 < num" "num \<le> length tbl" "search_from tbl num st i = Some b"
  shows "i \<le> b \<and> block_at tbl num st b"
  using assms
proof (induction tbl num st i rule: search_from.induct)
  case (1 tbl num st i)
  let ?j = "block_end tbl num st i 1"
  have j: "?j \<le> num" "1 \<le> ?j" "\<forall>k. 1 \<le> k \<and> k < ?j \<longrightarrow> tbl ! (i + k) = st"
    using block_end_props(1-3) [of 1 num tbl st i] 1(3) by auto
  have i: "i < length tbl - num + 1" using 1(5) by (subst (asm) search_from.simps) (auto split: if_splits)
  show ?case
  proof (cases "tbl ! i = st")
    case False
    then have "search_from tbl num st (i + 1) = Some b"
      using 1(5) i by (subst (asm) search_from.simps) simp
    then show ?thesis using "1.IH"(1) [OF i] False 1(3,4) by auto
  next
    case True
    show ?thesis
    proof (cases "?j < num")
      case less: True
      then have "search_from tbl num st (i + ?j + 1) = Some b"
        using 1(5) i True by (subst (asm) search_from.simps) (simp add: Let_def)
      then show ?thesis using "1.IH"(2) [OF i _ refl less] True 1(3,4) by auto
    next
      case False
      then have b: "b = i" "?j = num" using 1(5) i True j(1) by (subst (asm) search_from.simps, auto)+
      have "tbl ! (i + k) = st" if "k < num" for k
        using that True j(3) b(2) by (cases "k = 0") auto
      then show ?thesis using b i 1(4) by (auto simp: block_at_def)
    qed
  qed
qed

lemma search_from_complete:
  assumes "0 < num" "num \<le> length tbl" "block_at tbl num st b" "i \<le> b"
  shows "\<exists>a. search_from tbl num st i = Some a \<and> a \<le> b"
  using assms
proof (induction tbl num st i rule: search_from.induct)
  case (1 tbl num st i)
  let ?j = "block_end tbl num st i 1"
  have j: "?j \<le> num" "1 \<le> ?j" "?j < num \<Longrightarrow> tbl ! (i + ?j) \<noteq> st"
    using block_end_props(1,2,4) [of 1 num tbl st i] 1(3) by auto
  have blk: "b + num \<le> length tbl" "\<And>k. k < num \<Longrightarrow> tbl ! (b + k) = st"
    using 1(5) by (auto simp: block_at_def)
  have i: "i < length tbl - num + 1" using blk(1) 1(6) by simp
  show ?case
  proof (cases "tbl ! i = st")
    case False
    then have "i \<noteq> b" using blk(2) [of 0] 1(3) by auto
    then show ?thesis using "1.IH"(1) [OF i False 1(3,4,5)] 1(6) i False
      by (subst search_from.simps) simp
  next
    case True
    show ?thesis
    proof (cases "?j < num")
      case less: True
      have "i + ?j + 1 \<le> b"
      proof (rule ccontr)
        assume "\<not> i + ?j + 1 \<le> b"
        then have "b + (i + ?j - b) = i + ?j" "i + ?j - b < num" using 1(6) less by linarith+
        then show False using blk(2) [of "i + ?j - b"] j(3) [OF less] by simp
      qed
      then show ?thesis using "1.IH"(2) [OF i _ refl less 1(3,4,5)] True i less
        by (subst search_from.simps) (simp add: Let_def)
    next
      case False
      then show ?thesis using True i 1(6) by (subst search_from.simps) (simp add: Let_def)
    qed
  qed
qed

lemma set_minor_fold:
  "base + num \<le> length tbl \<Longrightarrow> length (fold (\<lambda>i t. t[base + i := st]) [0..<num] tbl) = length tbl \<and>
     (\<forall>k<length tbl. fold (\<lambda>i t. t[base + i := st]) [0..<num] tbl ! k =
        (if base \<le> k \<and> k < base + num then st else tbl ! k))"
  by (induction num) (auto simp: nth_list_update)

lemma set_minor_status:
  assumes "base + num \<le> length tbl" "ptx_chrdev_context_set_minor_status tbl base num st = (ret, tbl')"
  shows "ret = 0" "length tbl' = length tbl"
    "k < length tbl \<Longrightarrow> tbl' ! k = (if base \<le> k \<and> k < base + num then st else tbl ! k)"
  using assms set_minor_fold [OF assms(1), of st]
  by (auto simp: ptx_chrdev_context_set_minor_status_def)

lemma set_minor_twice:
  assumes "base + num \<le> length tbl"
  shows "snd (ptx_chrdev_context_set_minor_status (snd (ptx_chrdev_context_set_minor_status tbl base num st1))
    base num st2) = snd (ptx_chrdev_context_set_minor_status tbl base num st2)"
proof -
  obtain r1 t1 where 1: "ptx_chrdev_context_set_minor_status tbl base num st1 = (r1, t1)" by fastforce
  obtain r2 t2 where 2: "ptx_chrdev_context_set_minor_status t1 base num st2 = (r2, t2)" by fastforce
  obtain r3 t3 where 3: "ptx_chrdev_context_set_minor_status tbl base num st2 = (r3, t3)" by fastforce
  note T1 = set_minor_status [OF assms 1] and T3 = set_minor_status [OF assms 3]
  have fit: "base + num \<le> length t1" using assms T1(2) by simp
  note T2 = set_minor_status [OF fit 2]
  have "t2 = t3" using T1(2,3) T2(2,3) T3(2,3) by (intro nth_equalityI) auto
  then show ?thesis using 1 2 3 by simp
qed

lemma search_minor_block:
  assumes "0 < num" "ptx_chrdev_context_search_minor tbl num st = Inr b"
  shows "block_at tbl num st b"
  using assms search_from_sound [OF assms(1)]
  by (auto simp: ptx_chrdev_context_search_minor_def split: if_splits option.splits)

lemma check_minor_block:
  "ptx_chrdev_context_check_minor_status tbl base num st = Inr True \<Longrightarrow> block_at tbl num st base"
  by (auto simp: ptx_chrdev_context_check_minor_status_def block_at_def list_all_iff split: if_splits)

section \<open>Properties\<close>

text \<open>The search for minor numbers is first fit. It returns the lowest start of a block of \<open>num\<close>
  entries in the wanted state, inside the table; -EBUSY means that there is no such block anywhere,
  although the search jumps over entries, and -EINVAL that the table is too small.\<close>

theorem search_minor_first_fit:
  assumes "0 < num"
  shows "case ptx_chrdev_context_search_minor tbl num st of
      Inr b \<Rightarrow> block_at tbl num st b \<and> (\<forall>a. block_at tbl num st a \<longrightarrow> b \<le> a)
    | Inl e \<Rightarrow> (\<forall>a. \<not> block_at tbl num st a) \<and> (e = - EINVAL \<longleftrightarrow> length tbl < num)"
proof (cases "length tbl < num")
  case True
  then show ?thesis by (auto simp: ptx_chrdev_context_search_minor_def block_at_def)
next
  case False
  then have n: "num \<le> length tbl" by simp
  show ?thesis
  proof (cases "search_from tbl num st 0")
    case None
    then show ?thesis using search_from_complete [OF assms n, of st _ 0] n
      by (fastforce simp: ptx_chrdev_context_search_minor_def)
  next
    case (Some b)
    have "block_at tbl num st b" using search_from_sound [OF assms n Some] by simp
    moreover have "b \<le> a" if "block_at tbl num st a" for a
      using search_from_complete [OF assms n that, of 0] Some by simp
    ultimately show ?thesis using Some n by (simp add: ptx_chrdev_context_search_minor_def)
  qed
qed

theorem search_minor_first_fit_witness:
  "ptx_chrdev_context_search_minor [0, 2, 0, 0, 1, 0, 0, 0] 3 0 = Inr 5 \<and>
   block_at [0, 2, 0, 0, 1, 0, 0, 0] 3 0 5"
proof -
  have "ptx_chrdev_context_search_minor [0, 2, 0, 0, 1, 0, 0, 0] 3 0 = Inr 5"
    by (simp add: ptx_chrdev_context_search_minor_def search_from.simps block_end.simps)
  then show ?thesis using search_minor_first_fit [of 3 "[0, 2, 0, 0, 1, 0, 0, 0]" 0] by simp
qed

end
