(* ===== verification/Chrdev_Context.thy ===== *)
theory Chrdev_Context
  imports Ptx_Ioctl Minor_Table
begin

text \<open>
  The contexts of driver/ptx\_chrdev.c: a context owns a range of minor numbers and hands blocks of
  them to groups of receivers; open(2) finds a receiver by minor number; groups and contexts are
  counted references that outlive an unplugged device while a file is open. \<open>detached\<close> holds the
  groups that were destroyed but are still referenced by open files, which the code reaches through
  these files only, and \<open>ended\<close> the private states of receivers that were terminated, which outlive their
  receivers' memory. A group is named by the id it got. The owner's reference (\<^verbatim>\<open>owner_kref\<close>) belongs
  to the device drivers and is not counted here.
\<close>

section \<open>Data\<close>

record 'w chr_group =
  grp_id :: nat
  minor_base :: nat
  grp_kref :: nat
  chrdevs :: "'w ptx_chrdev list"

record 'w chrdev_context =
  ctx_kref :: nat
  dev_minor :: nat
  last_id :: nat
  minor_table :: "nat list"
  group_list :: "'w chr_group list"
  detached :: "'w chr_group list"
  ended :: "'w list"

record 'w chrdev_config =
  cfg_system_cap :: u32
  cfg_ops :: "'w ptx_ops"
  cfg_options :: u32
  cfg_ringbuf_size :: nat
  cfg_threshold_size :: nat
  cfg_priv :: 'w

text \<open>What the kernel answers while one receiver is set up: \<^verbatim>\<open>kzalloc\<close> and \<^verbatim>\<open>__get_free_pages\<close>.\<close>

type_synonym setup_env = "bool \<times> (nat \<Rightarrow> u8 list option)"

section \<open>Operations\<close>

text \<open>
  \<open>args_ok\<close>: name, device name and result pointer are given; \<open>class_ret\<close> and \<open>region\<close> are the results
  of \<^verbatim>\<open>class_create\<close> and \<^verbatim>\<open>alloc_chrdev_region\<close> (on success the first minor number).
\<close>

definition ptx_chrdev_context_create ::
    "bool \<Rightarrow> bool \<Rightarrow> int \<Rightarrow> int + nat \<Rightarrow> nat \<Rightarrow> int + 'w chrdev_context" where
  "ptx_chrdev_context_create args_ok kzalloc_ok class_ret region total_num =
     (if \<not> args_ok \<or> total_num = 0 then Inl (- EINVAL)
      else if \<not> kzalloc_ok then Inl (- ENOMEM)
      else if class_ret \<noteq> 0 then Inl class_ret
      else case region of
             Inl e \<Rightarrow> Inl e
           | Inr first \<Rightarrow> Inr \<lparr> ctx_kref = 1, dev_minor = first, last_id = 0,
                 minor_table = replicate total_num PTX_CHRDEV_MINOR_FREE, group_list = [], detached = [],
                 ended = [] \<rparr>)"

definition in_group :: "nat \<Rightarrow> 'w chr_group \<Rightarrow> bool" where
  "in_group minor g \<longleftrightarrow> minor_base g \<le> minor \<and> minor < minor_base g + length (chrdevs g)"

definition ptx_chrdev_context_search_group :: "'w chrdev_context \<Rightarrow> nat \<Rightarrow> 'w chr_group option" where
  "ptx_chrdev_context_search_group ctx minor = find (in_group minor) (group_list ctx)"

definition set_minors :: "nat \<Rightarrow> nat \<Rightarrow> nat \<Rightarrow> 'w chrdev_context \<Rightarrow> 'w chrdev_context" where
  "set_minors base num st ctx =
     ctx\<lparr>minor_table := snd (ptx_chrdev_context_set_minor_status (minor_table ctx) base num st)\<rparr>"

definition ptx_chrdev_context_reserve :: "'w chrdev_context \<Rightarrow> nat \<Rightarrow> int \<times> nat \<times> 'w chrdev_context" where
  "ptx_chrdev_context_reserve ctx num =
     (case ptx_chrdev_context_search_minor (minor_table ctx) num PTX_CHRDEV_MINOR_FREE of
        Inl e \<Rightarrow> (e, 0, ctx)
      | Inr base \<Rightarrow> (0, dev_minor ctx + base, set_minors base num PTX_CHRDEV_MINOR_RESERVED ctx))"

text \<open>
  Setting up one receiver. A failure returns the error and the private state: the memory of the ring
  buffer is given back by \<^verbatim>\<open>ringbuffer_destroy\<close>, what a failing \<^verbatim>\<open>init\<close> did to the device is not.
\<close>

definition chrdev_setup :: "setup_env \<Rightarrow> nat \<Rightarrow> 'w chrdev_config \<Rightarrow> (int \<times> 'w) + 'w ptx_chrdev" where
  "chrdev_setup env i cfg =
     (case ringbuffer_create (fst env) of
        Inl e \<Rightarrow> Inl (e, cfg_priv cfg)
      | Inr rb \<Rightarrow>
          let (ret, rb1) = ringbuffer_alloc (snd env) rb (cfg_ringbuf_size cfg) in
          if ret \<noteq> 0 then Inl (ret, cfg_priv cfg)
          else
            let (ret, w) = (case op_init (cfg_ops cfg) of
                              None \<Rightarrow> (0, cfg_priv cfg) | Some f \<Rightarrow> f (cfg_priv cfg)) in
            if ret \<noteq> 0 then Inl (ret, w)
            else Inr \<lparr> cd_id = i, cd_open = 0, system_cap = cfg_system_cap cfg, current_system = 0,
                       cd_ops = Some (cfg_ops cfg),
                       params = \<lparr>tp_system = 0, tp_freq = 0, tp_bandwidth = 0, tp_stream_id = 0,
                                 tp_tsmf_stream = 0\<rparr>,
                       cd_options = cfg_options cfg, streaming = False, ringbuf = rb1,
                       threshold_size = cfg_threshold_size cfg, write_size = 0, cd_discard_null = False,
                       cd_stale_packets = 0, tsmf = None, tsmf_active = False, priv = w,
                       available = True, jiffies = 0, wakeups = 0 \<rparr>)"

text \<open>The end of one receiver: \<^verbatim>\<open>term\<close> runs on the private state, the memory is given back.\<close>

definition chrdev_end :: "'w ptx_chrdev \<Rightarrow> 'w" where
  "chrdev_end c = (case chr_op c op_term of None \<Rightarrow> priv c | Some f \<Rightarrow> snd (f (priv c)))"

text \<open>The loop over the receivers; a failure ends those that were already set up.\<close>

fun setup_chrdevs ::
    "nat \<Rightarrow> (setup_env \<times> 'w chrdev_config) list \<Rightarrow> (int \<times> 'w list) + 'w ptx_chrdev list" where
  "setup_chrdevs i [] = Inr []"
| "setup_chrdevs i ((env, cfg) # rest) =
     (case chrdev_setup env i cfg of
        Inl (e, w) \<Rightarrow> Inl (e, [w])
      | Inr c \<Rightarrow> (case setup_chrdevs (i + 1) rest of
                   Inl (e, ws) \<Rightarrow> Inl (e, chrdev_end c # ws)
                 | Inr cs \<Rightarrow> Inr (c # cs)))"

text \<open>
  Adding a group. \<open>reserved\<close> is the minor number an earlier reservation returned, if the
  configuration names one; \<open>kz\<close> and \<open>cdev_ret\<close> are the results of \<^verbatim>\<open>kzalloc\<close> for the group and of
  \<^verbatim>\<open>cdev_add\<close>.
\<close>

definition add_group_base :: "'w chrdev_context \<Rightarrow> nat option \<Rightarrow> nat \<Rightarrow> int + nat" where
  "add_group_base ctx reserved num =
     (case reserved of
        Some mb \<Rightarrow>
          let base = mb - dev_minor ctx in
          (case ptx_chrdev_context_check_minor_status (minor_table ctx) base num PTX_CHRDEV_MINOR_RESERVED of
             Inl e \<Rightarrow> Inl e
           | Inr res \<Rightarrow> if res then Inr base else Inl (- EINVAL))
      | None \<Rightarrow> ptx_chrdev_context_search_minor (minor_table ctx) num PTX_CHRDEV_MINOR_FREE)"

definition ptx_chrdev_context_add_group ::
    "bool \<Rightarrow> int \<Rightarrow> 'w chrdev_context \<Rightarrow> nat option \<Rightarrow> (setup_env \<times> 'w chrdev_config) list \<Rightarrow>
      int \<times> 'w chrdev_context" where
  "ptx_chrdev_context_add_group kz cdev_ret ctx reserved cfgs =
     (let num = length cfgs;
          ctx1 = ctx\<lparr>ctx_kref := ctx_kref ctx + 1\<rparr>;
          undo = (\<lambda>c. c\<lparr>ctx_kref := ctx_kref c - 1\<rparr>) in
      case add_group_base ctx1 reserved num of
        Inl e \<Rightarrow> (e, undo ctx1)
      | Inr base \<Rightarrow>
          let ctx2 = (if reserved = None then set_minors base num PTX_CHRDEV_MINOR_RESERVED ctx1 else ctx1);
              ctx3 = set_minors base num PTX_CHRDEV_MINOR_IN_USE ctx2;
              fail_group = undo (set_minors base num (if reserved = None then PTX_CHRDEV_MINOR_FREE
                                                      else PTX_CHRDEV_MINOR_RESERVED) ctx3) in
          if \<not> kz then (- ENOMEM, fail_group)
          else case setup_chrdevs 0 cfgs of
                 Inl (e, ws) \<Rightarrow> (e, fail_group\<lparr>ended := ended ctx @ ws\<rparr>)
               | Inr cs \<Rightarrow>
                   if cdev_ret < 0 then (cdev_ret, fail_group\<lparr>ended := ended ctx @ map chrdev_end cs\<rparr>)
                   else (0, ctx3\<lparr>last_id := last_id ctx3 + 1,
                                 group_list := group_list ctx3 @
                                   [\<lparr>grp_id = last_id ctx3, minor_base = dev_minor ctx3 + base,
                                     grp_kref = 1, chrdevs = cs\<rparr>]\<rparr>))"

text \<open>The end of a group: its receivers end, its minor numbers are free again, and so is its reference to
  the context.\<close>

definition ptx_chrdev_group_release :: "'w chr_group \<Rightarrow> 'w chrdev_context \<Rightarrow> 'w chrdev_context" where
  "ptx_chrdev_group_release g ctx =
     (set_minors (minor_base g - dev_minor ctx) (length (chrdevs g)) PTX_CHRDEV_MINOR_FREE ctx)
       \<lparr>ctx_kref := ctx_kref ctx - 1, ended := ended ctx @ map chrdev_end (chrdevs g)\<rparr>"

text \<open>
  Destroying a group takes it off the list, makes it unavailable, and drops the list's reference.
\<close>

definition ptx_chrdev_group_destroy :: "'w chrdev_context \<Rightarrow> nat \<Rightarrow> 'w chrdev_context" where
  "ptx_chrdev_group_destroy ctx gid =
     (case find (\<lambda>g. grp_id g = gid) (group_list ctx) of
        None \<Rightarrow> ctx
      | Some g \<Rightarrow>
          let ctx1 = ctx\<lparr>group_list := filter (\<lambda>h. grp_id h \<noteq> gid) (group_list ctx)\<rparr>;
              g1 = g\<lparr>chrdevs := map (\<lambda>c. wake_up (c\<lparr>available := False\<rparr>)) (chrdevs g),
                     grp_kref := grp_kref g - 1\<rparr> in
          if grp_kref g1 = 0 then ptx_chrdev_group_release g1 ctx1
          else ctx1\<lparr>detached := detached ctx1 @ [g1]\<rparr>)"

definition ptx_chrdev_context_remove_group :: "'w chrdev_context \<Rightarrow> nat \<Rightarrow> int \<times> 'w chrdev_context" where
  "ptx_chrdev_context_remove_group ctx mb =
     (case ptx_chrdev_context_search_group ctx mb of
        None \<Rightarrow> (- ENOENT, ctx)
      | Some g \<Rightarrow> (0, ptx_chrdev_group_destroy ctx (grp_id g)))"

definition set_chrdev :: "nat \<Rightarrow> 'w ptx_chrdev \<Rightarrow> 'w chr_group \<Rightarrow> 'w chr_group" where
  "set_chrdev i c g = g\<lparr>chrdevs := (chrdevs g)[i := c]\<rparr>"

definition update_group :: "nat \<Rightarrow> ('w chr_group \<Rightarrow> 'w chr_group) \<Rightarrow> 'w chrdev_context \<Rightarrow> 'w chrdev_context" where
  "update_group gid f ctx =
     ctx\<lparr>group_list := map (\<lambda>g. if grp_id g = gid then f g else g) (group_list ctx),
         detached := map (\<lambda>g. if grp_id g = gid then f g else g) (detached ctx)\<rparr>"

text \<open>open(2) of a minor number; the result is the file (group id and index) or an error.\<close>

definition ptx_chrdev_open :: "'w chrdev_context \<Rightarrow> nat \<Rightarrow> (int + nat \<times> nat) \<times> 'w chrdev_context" where
  "ptx_chrdev_open ctx minor =
     (case ptx_chrdev_context_search_group ctx minor of
        None \<Rightarrow> (Inl (- ENOENT), ctx)
      | Some g \<Rightarrow>
          let i = minor - minor_base g;
              c = chrdevs g ! i in
          if \<not> available c then (Inl (- ENOENT), ctx)
          else if cd_open c \<noteq> 0 then (Inl (- EALREADY), ctx)
          else
            let c1 = c\<lparr>cd_open := 1, current_system := PTX_UNSPECIFIED_SYSTEM\<rparr>;
                (ret, w) = (case chr_op c1 op_open of None \<Rightarrow> (0, priv c1) | Some f \<Rightarrow> f (priv c1)) in
            if ret \<noteq> 0 then
              (Inl ret, update_group (grp_id g) (set_chrdev i (c1\<lparr>priv := w, cd_open := 0\<rparr>)) ctx)
            else
              (Inr (grp_id g, i),
               (update_group (grp_id g)
                  (\<lambda>g. (set_chrdev i (c1\<lparr>priv := w\<rparr>) g)\<lparr>grp_kref := grp_kref g + 1\<rparr>) ctx)
                 \<lparr>ctx_kref := ctx_kref ctx + 1\<rparr>))"

text \<open>close(2): the receiver first, then the references; the last one releases the group.\<close>

definition ptx_chrdev_release :: "'w chrdev_context \<Rightarrow> nat \<times> nat \<Rightarrow> int \<times> 'w chrdev_context" where
  "ptx_chrdev_release ctx fl =
     (case find (\<lambda>g. grp_id g = fst fl) (group_list ctx @ detached ctx) of
        None \<Rightarrow> (0, ctx)
      | Some g \<Rightarrow>
          let (ret, c) = ptx_chrdev_close (chrdevs g ! snd fl);
              g1 = (set_chrdev (snd fl) c g)\<lparr>grp_kref := grp_kref g - 1\<rparr>;
              ctx1 = (if grp_kref g1 = 0
                      then ptx_chrdev_group_release g1
                             (ctx\<lparr>group_list := filter (\<lambda>h. grp_id h \<noteq> fst fl) (group_list ctx),
                                  detached := filter (\<lambda>h. grp_id h \<noteq> fst fl) (detached ctx)\<rparr>)
                      else update_group (fst fl) (\<lambda>_. g1) ctx)
          in (ret, ctx1\<lparr>ctx_kref := ctx_kref ctx1 - 1\<rparr>))"

end
