(* ===== verification/Chrdev_Context_Props.thy ===== *)
theory Chrdev_Context_Props
  imports Chrdev_Context
begin

text \<open>
  The invariant of a context over every sequence of operations: the minor table says exactly which
  numbers belong to a living group, living groups do not overlap, and the reference counts are the
  references there are.
\<close>

section \<open>The minor numbers\<close>

type_synonym shape = "nat \<times> nat \<times> nat"

definition shape :: "'w chr_group \<Rightarrow> shape" where
  "shape g = (grp_id g, minor_base g, length (chrdevs g))"

definition live :: "'w chrdev_context \<Rightarrow> 'w chr_group list" where
  "live ctx = group_list ctx @ detached ctx"

definition owns :: "nat \<Rightarrow> shape \<Rightarrow> bool" where
  "owns minor s \<longleftrightarrow> fst (snd s) \<le> minor \<and> minor < fst (snd s) + snd (snd s)"

lemma owns_shape [simp]: "owns minor (shape g) = in_group minor g"
  by (simp add: owns_def shape_def in_group_def)

definition table_inv :: "nat list \<Rightarrow> nat \<Rightarrow> nat \<Rightarrow> shape list \<Rightarrow> bool" where
  "table_inv tbl dm lid S \<longleftrightarrow> distinct (map fst S) \<and>
     (\<forall>s \<in> set S. fst s < lid \<and> dm \<le> fst (snd s) \<and> fst (snd s) + snd (snd s) \<le> dm + length tbl) \<and>
     (\<forall>k < length tbl. tbl ! k = PTX_CHRDEV_MINOR_IN_USE \<longleftrightarrow> (\<exists>s \<in> set S. owns (dm + k) s)) \<and>
     (\<forall>s \<in> set S. \<forall>t \<in> set S. \<forall>minor. owns minor s \<and> owns minor t \<longrightarrow> s = t)"

text \<open>Numbers that no group owns can be marked free or reserved, and given to a new group.\<close>

lemma table_inv_mark:
  assumes "table_inv tbl dm lid S" "base + num \<le> length tbl" "\<forall>k<num. tbl ! (base + k) \<noteq> PTX_CHRDEV_MINOR_IN_USE"
    "st \<noteq> PTX_CHRDEV_MINOR_IN_USE"
  shows "table_inv (snd (ptx_chrdev_context_set_minor_status tbl base num st)) dm lid S"
proof -
  obtain ret tbl' where t: "ptx_chrdev_context_set_minor_status tbl base num st = (ret, tbl')" by fastforce
  note T = set_minor_status(2,3) [OF assms(2) t]
  have free: "tbl ! k \<noteq> PTX_CHRDEV_MINOR_IN_USE" if "base \<le> k" "k < base + num" for k
    using assms(3) that by (metis add_diff_inverse_nat less_diff_conv2 add.commute not_less)
  have "tbl' ! k = PTX_CHRDEV_MINOR_IN_USE \<longleftrightarrow> tbl ! k = PTX_CHRDEV_MINOR_IN_USE" if "k < length tbl" for k
    using T(2) [OF that] free assms(4) by auto
  then show ?thesis using assms(1) T(1) t by (auto simp: table_inv_def)
qed

lemma table_inv_add:
  assumes "table_inv tbl dm lid (A @ B)" "base + num \<le> length tbl"
    "\<forall>k<num. tbl ! (base + k) \<noteq> PTX_CHRDEV_MINOR_IN_USE"
  shows "table_inv (snd (ptx_chrdev_context_set_minor_status tbl base num PTX_CHRDEV_MINOR_IN_USE)) dm
    (lid + 1) (A @ (lid, dm + base, num) # B)"
proof -
  let ?n = "(lid, dm + base, num)" and ?S = "A @ B"
  obtain ret tbl' where t: "ptx_chrdev_context_set_minor_status tbl base num PTX_CHRDEV_MINOR_IN_USE = (ret, tbl')"
    by fastforce
  note T = set_minor_status(2,3) [OF assms(2) t]
  have inv: "distinct (map fst ?S)" "\<And>s. s \<in> set ?S \<Longrightarrow> fst s < lid \<and> dm \<le> fst (snd s) \<and>
      fst (snd s) + snd (snd s) \<le> dm + length tbl"
    "\<And>k. k < length tbl \<Longrightarrow> tbl ! k = PTX_CHRDEV_MINOR_IN_USE \<longleftrightarrow> (\<exists>s \<in> set ?S. owns (dm + k) s)"
    "\<And>s u m. s \<in> set ?S \<Longrightarrow> u \<in> set ?S \<Longrightarrow> owns m s \<and> owns m u \<Longrightarrow> s = u"
    using assms(1) unfolding table_inv_def by blast+
  have apart: "\<not> owns m s" if "s \<in> set ?S" "owns m ?n" for m s
  proof
    assume "owns m s"
    define k where "k = m - dm - base"
    have k: "m = dm + (base + k)" "k < num" using that(2) by (auto simp: owns_def k_def)
    then have "tbl ! (base + k) = PTX_CHRDEV_MINOR_IN_USE"
      using inv(3) [of "base + k"] \<open>owns m s\<close> that(1) assms(2) by auto
    then show False using assms(3) k(2) by simp
  qed
  have "distinct (map fst (A @ ?n # B))" using inv(1,2) by force
  moreover have "tbl' ! k = PTX_CHRDEV_MINOR_IN_USE \<longleftrightarrow> (\<exists>s \<in> set (A @ ?n # B). owns (dm + k) s)"
    if "k < length tbl" for k
    using T(2) [OF that] inv(3) [OF that] by (auto simp: owns_def)
  moreover have "s = u" if "s \<in> set (A @ ?n # B)" "u \<in> set (A @ ?n # B)" "owns m s" "owns m u" for s u m
  proof -
    have "s \<in> set ?S \<or> s = ?n" "u \<in> set ?S \<or> u = ?n" using that(1,2) by auto
    then show ?thesis using that(3,4) apart [of s m] apart [of u m] inv(4) [of s u m] by blast
  qed
  moreover have "fst s < lid + 1 \<and> dm \<le> fst (snd s) \<and> fst (snd s) + snd (snd s) \<le> dm + length tbl"
    if "s \<in> set (A @ ?n # B)" for s
    using that inv(2) [of s] assms(2) by auto
  ultimately show ?thesis unfolding table_inv_def t snd_conv T(1) by blast
qed

text \<open>A group that ends frees exactly its numbers.\<close>

lemma table_inv_drop:
  assumes "table_inv tbl dm lid S" "s \<in> set S" "S' = filter (\<lambda>u. fst u \<noteq> fst s) S"
  shows "table_inv (snd (ptx_chrdev_context_set_minor_status tbl (fst (snd s) - dm) (snd (snd s))
    PTX_CHRDEV_MINOR_FREE)) dm lid S'"
proof -
  have inv: "distinct (map fst S)" "\<And>s. s \<in> set S \<Longrightarrow> fst s < lid \<and> dm \<le> fst (snd s) \<and>
      fst (snd s) + snd (snd s) \<le> dm + length tbl"
    "\<And>k. k < length tbl \<Longrightarrow> tbl ! k = PTX_CHRDEV_MINOR_IN_USE \<longleftrightarrow> (\<exists>s \<in> set S. owns (dm + k) s)"
    "\<And>s u m. s \<in> set S \<Longrightarrow> u \<in> set S \<Longrightarrow> owns m s \<and> owns m u \<Longrightarrow> s = u"
    using assms(1) unfolding table_inv_def by blast+
  let ?b = "fst (snd s) - dm" and ?n = "snd (snd s)"
  have fit: "?b + ?n \<le> length tbl" "dm \<le> fst (snd s)" using inv(2) [OF assms(2)] by auto
  obtain ret tbl' where t: "ptx_chrdev_context_set_minor_status tbl ?b ?n PTX_CHRDEV_MINOR_FREE = (ret, tbl')"
    by fastforce
  note T = set_minor_status(2,3) [OF fit(1) t]
  have S': "set S' = set S - {s}"
    using assms(2,3) inv(1) by (auto simp: distinct_map inj_on_def)
  have "tbl' ! k = PTX_CHRDEV_MINOR_IN_USE \<longleftrightarrow> (\<exists>u \<in> set S'. owns (dm + k) u)" if k: "k < length tbl" for k
  proof (cases "owns (dm + k) s")
    case True
    then have "tbl' ! k = PTX_CHRDEV_MINOR_FREE" using T(2) [OF k] fit(2) by (auto simp: owns_def)
    moreover have "\<not> owns (dm + k) u" if "u \<in> set S'" for u using True inv(4) assms(2) S' that by blast
    ultimately show ?thesis by simp
  next
    case False
    then have "tbl' ! k = tbl ! k" using T(2) [OF k] fit(2) by (auto simp: owns_def)
    then show ?thesis using inv(3) [OF k] S' False by auto
  qed
  moreover have "distinct (map fst S')" using inv(1) assms(3) by (simp add: distinct_map_filter)
  ultimately show ?thesis using inv(2,4) unfolding table_inv_def t snd_conv T(1) S' by blast
qed

section \<open>The reference counts\<close>

definition opens :: "'w chr_group \<Rightarrow> nat" where
  "opens g = sum_list (map cd_open (chrdevs g))"

definition refs_inv :: "'w chrdev_context \<Rightarrow> bool" where
  "refs_inv ctx \<longleftrightarrow> (\<forall>g \<in> set (group_list ctx). grp_kref g = 1 + opens g) \<and>
     (\<forall>g \<in> set (detached ctx). grp_kref g = opens g \<and> 0 < opens g) \<and>
     (\<forall>g \<in> set (live ctx). \<forall>c \<in> set (chrdevs g). cd_open c \<le> 1) \<and>
     ctx_kref ctx = 1 + length (live ctx) + sum_list (map opens (live ctx))"

definition ctx_inv :: "'w chrdev_context \<Rightarrow> bool" where
  "ctx_inv ctx \<longleftrightarrow> table_inv (minor_table ctx) (dev_minor ctx) (last_id ctx) (map shape (live ctx)) \<and>
     refs_inv ctx"

lemma shape_ids [simp]: "map fst (map shape gs) = map grp_id gs"
  by (simp add: shape_def)

lemma ctx_inv_distinct: "ctx_inv ctx \<Longrightarrow> distinct (map grp_id (live ctx))"
  by (simp add: ctx_inv_def table_inv_def del: map_map)

text \<open>Replacing one group by one of the same shape.\<close>

lemma sum_list_update_one:
  fixes f :: "'a \<Rightarrow> nat"
  assumes "distinct (map key xs)" "x \<in> set xs"
  shows "sum_list (map f (map (\<lambda>y. if key y = key x then h y else y) xs)) + f x =
    sum_list (map f xs) + f (h x)"
  using assms
proof (induction xs)
  case (Cons a xs)
  show ?case
  proof (cases "a = x")
    case True
    have "map (\<lambda>y. if key y = key x then h y else y) xs = xs"
      using Cons.prems(1) True by (intro map_idI) (auto simp: image_iff)
    then show ?thesis using True by simp
  next
    case False
    then have "x \<in> set xs" "key a \<noteq> key x" using Cons.prems by auto
    then show ?thesis using Cons.IH Cons.prems(1) by simp
  qed
qed simp

lemma sum_list_drop_one:
  fixes f :: "'a \<Rightarrow> nat"
  assumes "distinct (map key xs)" "x \<in> set xs"
  shows "sum_list (map f (filter (\<lambda>y. key y \<noteq> key x) xs)) + f x = sum_list (map f xs)"
    "length (filter (\<lambda>y. key y \<noteq> key x) xs) + 1 = length xs"
  using assms
proof (induction xs)
  case (Cons a xs)
  {
    case 1
    show ?case
    proof (cases "a = x")
      case True
      then have "filter (\<lambda>y. key y \<noteq> key x) xs = xs"
        using 1 by (intro filter_True) (auto simp: image_iff)
      then show ?thesis using True by simp
    next
      case False
      then have "x \<in> set xs" "key a \<noteq> key x" using 1 by auto
      then show ?thesis using Cons.IH(1) 1 by simp
    qed
  next
    case 2
    show ?case
    proof (cases "a = x")
      case True
      then have "filter (\<lambda>y. key y \<noteq> key x) xs = xs"
        using 2 by (intro filter_True) (auto simp: image_iff)
      then show ?thesis using True by simp
    next
      case False
      then have "x \<in> set xs" "key a \<noteq> key x" using 2 by auto
      then show ?thesis using Cons.IH(2) 2 by simp
    qed
  }
qed simp_all

lemma find_id:
  assumes "distinct (map grp_id gs)" "find (\<lambda>g. grp_id g = i) gs = Some g"
  shows "g \<in> set gs \<and> grp_id g = i"
  using assms(2) by (auto simp: find_Some_iff)

section \<open>The operations keep the invariant\<close>

lemma block_not_in_use:
  "block_at tbl num st base \<Longrightarrow> st \<noteq> PTX_CHRDEV_MINOR_IN_USE \<Longrightarrow>
     base + num \<le> length tbl \<and> (\<forall>k<num. tbl ! (base + k) \<noteq> PTX_CHRDEV_MINOR_IN_USE)"
  by (simp add: block_at_def)

lemma create_inv: "ptx_chrdev_context_create a k c r n = Inr ctx \<Longrightarrow> ctx_inv ctx"
  by (auto simp: ptx_chrdev_context_create_def ctx_inv_def table_inv_def refs_inv_def live_def
      split: if_splits sum.splits)

lemma refs_inv_table [simp]: "refs_inv (ctx\<lparr>minor_table := t\<rparr>) = refs_inv ctx"
  by (simp add: refs_inv_def live_def)

lemma live_table [simp]: "live (ctx\<lparr>minor_table := t\<rparr>) = live ctx" "live (ctx\<lparr>ctx_kref := k\<rparr>) = live ctx"
  by (simp_all add: live_def)

lemma ctx_inv_ended [simp]: "ctx_inv (ctx\<lparr>ended := ws\<rparr>) = ctx_inv ctx"
  by (simp add: ctx_inv_def refs_inv_def live_def)

lemma reserve_inv:
  assumes "ctx_inv ctx" "0 < num" "ptx_chrdev_context_reserve ctx num = (ret, mb, ctx')"
  shows "ctx_inv ctx'"
proof (cases "ptx_chrdev_context_search_minor (minor_table ctx) num PTX_CHRDEV_MINOR_FREE")
  case (Inl e)
  then show ?thesis using assms(1,3) by (simp add: ptx_chrdev_context_reserve_def)
next
  case (Inr base)
  note B = block_not_in_use [OF search_minor_block [OF assms(2) Inr]]
  have "table_inv (snd (ptx_chrdev_context_set_minor_status (minor_table ctx) base num
      PTX_CHRDEV_MINOR_RESERVED)) (dev_minor ctx) (last_id ctx) (map shape (live ctx))"
    by (rule table_inv_mark) (use assms(1) B in \<open>auto simp: ctx_inv_def\<close>)
  moreover have "ctx' = set_minors base num PTX_CHRDEV_MINOR_RESERVED ctx"
    using assms(3) Inr by (auto simp: ptx_chrdev_context_reserve_def)
  ultimately show ?thesis using assms(1) by (simp add: ctx_inv_def set_minors_def)
qed

lemma chrdev_setup_fresh: "chrdev_setup env i cfg = Inr c \<Longrightarrow> cd_open c = 0 \<and> available c"
  by (cases "ringbuffer_create (fst env)") (auto simp: chrdev_setup_def Let_def split: prod.splits if_splits)

lemma setup_chrdevs_fresh:
  "setup_chrdevs i cfgs = Inr cs \<Longrightarrow> length cs = length cfgs \<and> (\<forall>c \<in> set cs. cd_open c = 0)"
proof (induction i cfgs arbitrary: cs rule: setup_chrdevs.induct)
  case (2 i env cfg rest)
  obtain c where c: "chrdev_setup env i cfg = Inr c"
    using "2.prems" by (cases "chrdev_setup env i cfg") (auto split: prod.splits)
  obtain ds where d: "setup_chrdevs (i + 1) rest = Inr ds"
    using "2.prems" c by (cases "setup_chrdevs (i + 1) rest") (auto split: prod.splits)
  have "cs = c # ds" using "2.prems" c d by simp
  then show ?case using "2.IH" [OF c d] chrdev_setup_fresh [OF c] by simp
qed simp

lemma add_group_base_block:
  assumes "0 < num" "add_group_base ctx reserved num = Inr base"
  shows "base + num \<le> length (minor_table ctx) \<and>
    (\<forall>k<num. minor_table ctx ! (base + k) \<noteq> PTX_CHRDEV_MINOR_IN_USE)"
proof -
  have "block_at (minor_table ctx) num PTX_CHRDEV_MINOR_FREE base \<or>
      block_at (minor_table ctx) num PTX_CHRDEV_MINOR_RESERVED base"
  proof (cases reserved)
    case None
    then show ?thesis using assms search_minor_block by (simp add: add_group_base_def)
  next
    case (Some mb)
    then show ?thesis using assms(2) check_minor_block
      by (auto simp: add_group_base_def Let_def split: sum.splits if_splits)
  qed
  then show ?thesis using block_not_in_use by auto
qed

lemma add_group_inv:
  assumes "ctx_inv ctx" "cfgs \<noteq> []" "ptx_chrdev_context_add_group kz cdev_ret ctx reserved cfgs = (ret, ctx')"
  shows "ctx_inv ctx'"
proof -
  define num where "num = length cfgs"
  define st where "st = (if reserved = None then PTX_CHRDEV_MINOR_FREE else PTX_CHRDEV_MINOR_RESERVED)"
  have n: "0 < num" using assms(2) by (simp add: num_def)
  have base_eq: "add_group_base (ctx\<lparr>ctx_kref := k\<rparr>) reserved num = add_group_base ctx reserved num" for k
    by (cases reserved) (simp_all add: add_group_base_def)
  show ?thesis
  proof (cases "add_group_base ctx reserved num")
    case (Inl e)
    then show ?thesis using assms base_eq by (simp add: ptx_chrdev_context_add_group_def num_def)
  next
    case (Inr base)
    note B = add_group_base_block [OF n Inr]
    let ?c3 = "set_minors base num PTX_CHRDEV_MINOR_IN_USE (ctx\<lparr>ctx_kref := ctx_kref ctx + 1\<rparr>)"
    let ?fail = "set_minors base num st ctx"
    have twice: "set_minors base num s (set_minors base num u (ctx\<lparr>ctx_kref := k\<rparr>)) =
        set_minors base num s (ctx\<lparr>ctx_kref := k\<rparr>)" for s u k
      using set_minor_twice [of base num "minor_table ctx" u s] B by (simp add: set_minors_def)
    have undo: "(set_minors base num st (ctx\<lparr>ctx_kref := ctx_kref ctx + 1\<rparr>))\<lparr>ctx_kref := ctx_kref ctx\<rparr> = ?fail"
      by (simp add: set_minors_def)
    have kr: "ctx_kref (set_minors base num s (ctx\<lparr>ctx_kref := k\<rparr>)) = k" for s k by (simp add: set_minors_def)
    have c3: "set_minors base num PTX_CHRDEV_MINOR_IN_USE (if reserved = None
        then set_minors base num PTX_CHRDEV_MINOR_RESERVED (ctx\<lparr>ctx_kref := ctx_kref ctx + 1\<rparr>)
        else ctx\<lparr>ctx_kref := ctx_kref ctx + 1\<rparr>) = ?c3"
      using twice by simp
    have res: "(ret, ctx') =
        (if \<not> kz then (- ENOMEM, ?fail)
         else case setup_chrdevs 0 cfgs of
               Inl (e, ws) \<Rightarrow> (e, ?fail\<lparr>ended := ended ctx @ ws\<rparr>)
             | Inr cs \<Rightarrow> if cdev_ret < 0 then (cdev_ret, ?fail\<lparr>ended := ended ctx @ map chrdev_end cs\<rparr>)
                 else (0, ?c3\<lparr>last_id := last_id ?c3 + 1, group_list := group_list ?c3 @
                   [\<lparr>grp_id = last_id ?c3, minor_base = dev_minor ?c3 + base, grp_kref = 1, chrdevs = cs\<rparr>]\<rparr>))"
      using assms(3)
      unfolding ptx_chrdev_context_add_group_def Let_def num_def [symmetric] base_eq Inr sum.case c3
        st_def [symmetric] twice kr add_diff_cancel_right' undo by (rule sym)
    have fail: "ctx_inv ?fail"
      using table_inv_mark [of "minor_table ctx" "dev_minor ctx" "last_id ctx" "map shape (live ctx)" base num st]
        assms(1) B by (auto simp: ctx_inv_def set_minors_def st_def)
    show ?thesis
    proof (cases "\<exists>cs. kz \<and> setup_chrdevs 0 cfgs = Inr cs \<and> \<not> cdev_ret < 0")
      case False
      then have "\<exists>ws. ctx' = ?fail\<lparr>ended := ws\<rparr> \<or> ctx' = ?fail" using res by (auto split: if_splits sum.splits)
      then show ?thesis using fail by auto
    next
      case True
      then obtain cs where cs: "kz" "setup_chrdevs 0 cfgs = Inr cs" "\<not> cdev_ret < 0" by blast
      note F = setup_chrdevs_fresh [OF cs(2)]
      let ?g = "\<lparr>grp_id = last_id ctx, minor_base = dev_minor ctx + base, grp_kref = 1, chrdevs = cs\<rparr>"
      have c': "ctx' = ?c3\<lparr>last_id := last_id ctx + 1, group_list := group_list ctx @ [?g]\<rparr>"
        using res cs by (simp add: set_minors_def)
      have "opens ?g = 0" using F by (simp add: opens_def)
      then have "refs_inv ctx'" using assms(1) F by (auto simp: c' ctx_inv_def refs_inv_def live_def set_minors_def)
      moreover have "table_inv (minor_table ctx') (dev_minor ctx') (last_id ctx') (map shape (live ctx'))"
        using table_inv_add [of "minor_table ctx" "dev_minor ctx" "last_id ctx"
            "map shape (group_list ctx)" "map shape (detached ctx)" base num] assms(1) B F
        by (simp add: c' ctx_inv_def live_def set_minors_def shape_def num_def)
      ultimately show ?thesis by (simp add: ctx_inv_def)
    qed
  qed
qed

lemma live_split:
  assumes "ctx_inv ctx" "g \<in> set (live ctx)"
  shows "map shape (filter (\<lambda>h. grp_id h \<noteq> grp_id g) (live ctx)) =
    filter (\<lambda>u. fst u \<noteq> fst (shape g)) (map shape (live ctx))"
  by (simp add: filter_map comp_def shape_def)

text \<open>A group leaves for good: its numbers are freed, the context loses one reference.\<close>

lemma release_inv:
  assumes "ctx_inv ctx" "g \<in> set (live ctx)" "k + opens g = ctx_kref ctx - 1" "shape g' = shape g"
    "group_list c1 = filter (\<lambda>h. grp_id h \<noteq> grp_id g) (group_list ctx)"
    "detached c1 = filter (\<lambda>h. grp_id h \<noteq> grp_id g) (detached ctx)"
    "minor_table c1 = minor_table ctx" "dev_minor c1 = dev_minor ctx" "last_id c1 = last_id ctx"
  shows "ctx_inv ((ptx_chrdev_group_release g' c1)\<lparr>ctx_kref := k\<rparr>)"
proof -
  have l: "live c1 = filter (\<lambda>h. grp_id h \<noteq> grp_id g) (live ctx)" using assms(5,6) by (simp add: live_def)
  have sg: "minor_base g' = minor_base g" "length (chrdevs g') = length (chrdevs g)"
    using assms(4) by (simp_all add: shape_def)
  have "shape g \<in> set (map shape (live ctx))" using assms(2) by simp
  from table_inv_drop [OF _ this live_split [OF assms(1,2)]]
  have t: "table_inv (snd (ptx_chrdev_context_set_minor_status (minor_table ctx)
      (minor_base g - dev_minor ctx) (length (chrdevs g)) PTX_CHRDEV_MINOR_FREE)) (dev_minor ctx)
      (last_id ctx) (map shape (filter (\<lambda>h. grp_id h \<noteq> grp_id g) (live ctx)))"
    using assms(1) by (simp add: ctx_inv_def shape_def)
  note S = sum_list_drop_one(1) [OF ctx_inv_distinct [OF assms(1)] assms(2), where f = opens]
    sum_list_drop_one(2) [OF ctx_inv_distinct [OF assms(1)] assms(2)]
  have "refs_inv ((ptx_chrdev_group_release g' c1)\<lparr>ctx_kref := k\<rparr>)"
    using assms(1,3,5,6) S l
    by (auto simp: ctx_inv_def refs_inv_def ptx_chrdev_group_release_def set_minors_def live_def)
  then show ?thesis using t l sg assms(7-9)
    by (simp add: ctx_inv_def ptx_chrdev_group_release_def set_minors_def live_def)
qed

lemma group_destroy_inv:
  assumes "ctx_inv ctx"
  shows "ctx_inv (ptx_chrdev_group_destroy ctx gid)"
proof (cases "find (\<lambda>g. grp_id g = gid) (group_list ctx)")
  case None
  then show ?thesis using assms by (simp add: ptx_chrdev_group_destroy_def)
next
  case (Some g)
  have g: "g \<in> set (group_list ctx)" "grp_id g = gid" using Some by (auto simp: find_Some_iff)
  have ids: "distinct (map grp_id (group_list ctx @ detached ctx))"
    using ctx_inv_distinct [OF assms] by (simp add: live_def)
  have k: "grp_kref g = 1 + opens g" using assms g by (auto simp: ctx_inv_def refs_inv_def)
  let ?c1 = "ctx\<lparr>group_list := filter (\<lambda>h. grp_id h \<noteq> gid) (group_list ctx)\<rparr>"
  let ?g1 = "g\<lparr>chrdevs := map (\<lambda>c. wake_up (c\<lparr>available := False\<rparr>)) (chrdevs g), grp_kref := grp_kref g - 1\<rparr>"
  have eq: "ptx_chrdev_group_destroy ctx gid = (if opens g = 0 then ptx_chrdev_group_release ?g1 ?c1
      else ?c1\<lparr>detached := detached ctx @ [?g1]\<rparr>)"
    using Some k by (simp add: ptx_chrdev_group_destroy_def Let_def)
  have det: "filter (\<lambda>h. grp_id h \<noteq> gid) (detached ctx) = detached ctx"
    using ids g by (intro filter_True) (auto simp: image_iff)
  have sh: "shape ?g1 = shape g" and op: "opens ?g1 = opens g"
    by (simp_all add: shape_def opens_def wake_up_def comp_def)
  show ?thesis
  proof (cases "opens g = 0")
    case True
    have "ctx_inv ((ptx_chrdev_group_release ?g1 ?c1)\<lparr>ctx_kref := ctx_kref ctx - 1\<rparr>)"
      by (rule release_inv [OF assms, of g]) (use g det sh True in \<open>simp_all add: live_def\<close>)
    moreover have "(ptx_chrdev_group_release ?g1 ?c1)\<lparr>ctx_kref := ctx_kref ctx - 1\<rparr> =
        ptx_chrdev_group_release ?g1 ?c1"
      by (simp add: ptx_chrdev_group_release_def)
    ultimately show ?thesis using eq True by simp
  next
    case False
    let ?c2 = "?c1\<lparr>detached := detached ctx @ [?g1]\<rparr>"
    let ?f = "filter (\<lambda>h. grp_id h \<noteq> gid) (group_list ctx)"
    have "distinct (map grp_id (group_list ctx))" using ids by simp
    note S = sum_list_drop_one(1) [OF this g(1), where f = opens, unfolded g(2)]
      sum_list_drop_one(2) [OF this g(1), unfolded g(2)]
    have fs: "set ?f = set (group_list ctx) - {g}"
      using g \<open>distinct (map grp_id (group_list ctx))\<close> by (auto simp: distinct_map inj_on_def)
    have R: "\<forall>h \<in> set (group_list ctx). grp_kref h = 1 + opens h"
      "\<forall>h \<in> set (detached ctx). grp_kref h = opens h \<and> 0 < opens h"
      "\<forall>h \<in> set (live ctx). \<forall>c \<in> set (chrdevs h). cd_open c \<le> 1"
      "ctx_kref ctx = 1 + length (live ctx) + sum_list (map opens (live ctx))"
      using assms unfolding ctx_inv_def refs_inv_def by blast+
    have "\<forall>h \<in> set (group_list ?c2). grp_kref h = 1 + opens h" using R(1) by simp
    moreover have "\<forall>h \<in> set (detached ?c2). grp_kref h = opens h \<and> 0 < opens h"
      using R(2) k op False by simp
    moreover have "\<forall>c \<in> set (chrdevs ?g1). cd_open c \<le> 1"
      using R(3) g(1) by (auto simp: live_def wake_up_def)
    then have "\<forall>h \<in> set (live ?c2). \<forall>c \<in> set (chrdevs h). cd_open c \<le> 1"
      using R(3) by (simp add: live_def del: chr_group.simps) blast
    moreover have "ctx_kref ?c2 = 1 + length (live ?c2) + sum_list (map opens (live ?c2))"
      using R(4) S op by (simp add: live_def)
    ultimately have "refs_inv ?c2" unfolding refs_inv_def by blast
    moreover have "set (map shape (live ?c2)) = set (map shape (live ctx))"
      using fs sh g(1) by (auto simp: live_def)
    moreover have "map fst (map shape (live ?c2)) =
        filter (\<lambda>i. i \<noteq> gid) (map grp_id (group_list ctx)) @ map grp_id (detached ctx) @ [gid]"
      using g(2) by (simp add: live_def shape_def filter_map comp_def)
    then have "distinct (map fst (map shape (live ?c2)))" using ids g by auto
    ultimately show ?thesis using assms eq False
      by (simp add: ctx_inv_def table_inv_def del: map_map set_map)
  qed
qed

text \<open>Changing a group in place, with its shape kept.\<close>

lemma live_update_group: "live (update_group gid f ctx) = map (\<lambda>g. if grp_id g = gid then f g else g) (live ctx)"
  by (simp add: live_def update_group_def)

lemma update_group_shapes:
  assumes "\<And>h. grp_id h = gid \<Longrightarrow> h \<in> set (live ctx) \<Longrightarrow> shape (f h) = shape h"
  shows "map shape (live (update_group gid f ctx)) = map shape (live ctx)"
  using assms by (auto simp: live_update_group)

lemma opens_set_chrdev:
  assumes "i < length (chrdevs g)"
  shows "opens (set_chrdev i c g) + cd_open (chrdevs g ! i) = opens g + cd_open c"
proof -
  have "chrdevs g = take i (chrdevs g) @ chrdevs g ! i # drop (Suc i) (chrdevs g)"
    using assms by (simp add: id_take_nth_drop)
  then have "opens g = sum_list (map cd_open (take i (chrdevs g))) + cd_open (chrdevs g ! i) +
      sum_list (map cd_open (drop (Suc i) (chrdevs g)))"
    unfolding opens_def by (metis (no_types, lifting) add.assoc list.simps(9) map_append sum_list.Cons sum_list_append)
  then show ?thesis using assms by (simp add: opens_def set_chrdev_def upd_conv_take_nth_drop)
qed

lemma update_one_inv:
  assumes "ctx_inv ctx" "g \<in> set (live ctx)" "shape (f g) = shape g"
    "\<forall>c \<in> set (chrdevs (f g)). cd_open c \<le> 1" "grp_kref (f g) + opens g = grp_kref g + opens (f g)"
    "0 < opens (f g) \<or> g \<in> set (group_list ctx)"
    "c' = (update_group (grp_id g) f ctx)\<lparr>ctx_kref := k\<rparr>" "k + opens g = ctx_kref ctx + opens (f g)"
  shows "ctx_inv c'"
proof -
  have ids: "distinct (map grp_id (live ctx))" by (rule ctx_inv_distinct [OF assms(1)])
  have uniq: "h = g" if "h \<in> set (live ctx)" "grp_id h = grp_id g" for h
    using ids that assms(2) by (auto simp: distinct_map dest: inj_onD)
  have R: "\<forall>h \<in> set (group_list ctx). grp_kref h = 1 + opens h"
      "\<forall>h \<in> set (detached ctx). grp_kref h = opens h \<and> 0 < opens h"
      "\<forall>h \<in> set (live ctx). \<forall>c \<in> set (chrdevs h). cd_open c \<le> 1"
      "ctx_kref ctx = 1 + length (live ctx) + sum_list (map opens (live ctx))"
    using assms(1) unfolding ctx_inv_def refs_inv_def by blast+
  let ?u = "\<lambda>h. if grp_id h = grp_id g then f h else h"
  have gl: "group_list c' = map ?u (group_list ctx)" "detached c' = map ?u (detached ctx)"
      "live c' = map ?u (live ctx)" "ctx_kref c' = k" "minor_table c' = minor_table ctx"
      "dev_minor c' = dev_minor ctx" "last_id c' = last_id ctx"
    using assms(7) by (simp_all add: update_group_def live_def)
  have both: "\<not> (g \<in> set (group_list ctx) \<and> g \<in> set (detached ctx))"
    using ids by (auto simp: live_def)
  have r1: "grp_kref (?u h) = 1 + opens (?u h)" if "h \<in> set (group_list ctx)" for h
  proof (cases "grp_id h = grp_id g")
    case True
    then have "h = g" using uniq that by (simp add: live_def)
    then show ?thesis using R(1) that assms(5) by auto
  qed (use R(1) that in auto)
  have r2: "grp_kref (?u h) = opens (?u h) \<and> 0 < opens (?u h)" if "h \<in> set (detached ctx)" for h
  proof (cases "grp_id h = grp_id g")
    case True
    then have h: "h = g" using uniq that by (simp add: live_def)
    then have "0 < opens (f g)" using assms(6) both that by blast
    then show ?thesis using h R(2) that assms(5) by auto
  qed (use R(2) that in auto)
  have r3: "\<forall>c \<in> set (chrdevs (?u h)). cd_open c \<le> 1" if "h \<in> set (live ctx)" for h
    using R(3) that assms(4) uniq [OF that] by (cases "grp_id h = grp_id g") auto
  have "sum_list (map opens (map ?u (live ctx))) + opens g = sum_list (map opens (live ctx)) + opens (f g)"
    by (rule sum_list_update_one [OF ids assms(2)])
  then have r4: "k = 1 + length (live c') + sum_list (map opens (live c'))"
    using R(4) assms(8) gl(3) by (simp del: map_map)
  have all: "\<forall>x \<in> set (map ?u hs). P x" if "\<And>h. h \<in> set hs \<Longrightarrow> P (?u h)" for hs P
    unfolding set_map using that by blast
  have "\<forall>h \<in> set (group_list c'). grp_kref h = 1 + opens h" unfolding gl(1) by (rule all, rule r1)
  moreover have "\<forall>h \<in> set (detached c'). grp_kref h = opens h \<and> 0 < opens h"
    unfolding gl(2) by (rule all, rule r2)
  moreover have "\<forall>h \<in> set (live c'). \<forall>c \<in> set (chrdevs h). cd_open c \<le> 1"
    unfolding gl(3) by (rule all, rule r3)
  ultimately have "refs_inv c'" unfolding refs_inv_def gl(4) using r4 by blast
  moreover have "map shape (live c') = map shape (live ctx)"
    using uniq assms(3) by (auto simp: gl(3))
  ultimately show ?thesis using assms(1) gl(5-7) by (simp add: ctx_inv_def)
qed

lemma search_group_live:
  "ptx_chrdev_context_search_group ctx minor = Some g \<Longrightarrow>
     g \<in> set (group_list ctx) \<and> g \<in> set (live ctx) \<and> in_group minor g"
  by (auto simp: ptx_chrdev_context_search_group_def find_Some_iff live_def)

lemma chrdevs_upd_le: "\<forall>c \<in> set (chrdevs g). cd_open c \<le> 1 \<Longrightarrow> cd_open c \<le> 1 \<Longrightarrow>
    \<forall>d \<in> set (chrdevs (set_chrdev i c g)). cd_open d \<le> 1"
  using set_update_subset_insert [of "chrdevs g" i c] by (auto simp: set_chrdev_def)

lemma shape_set_chrdev [simp]: "shape (set_chrdev i c g) = shape g" "grp_kref (set_chrdev i c g) = grp_kref g"
  by (simp_all add: shape_def set_chrdev_def)

lemma open_inv:
  assumes "ctx_inv ctx" "ptx_chrdev_open ctx minor = (res, ctx')"
  shows "ctx_inv ctx'"
proof (cases "ptx_chrdev_context_search_group ctx minor")
  case None
  then show ?thesis using assms by (simp add: ptx_chrdev_open_def)
next
  case (Some g)
  note g = search_group_live [OF Some]
  let ?i = "minor - minor_base g"
  let ?c = "chrdevs g ! ?i"
  have i: "?i < length (chrdevs g)" using g by (auto simp: in_group_def)
  show ?thesis
  proof (cases "available ?c \<and> cd_open ?c = 0")
    case False
    then show ?thesis using assms Some by (auto simp: ptx_chrdev_open_def Let_def split: if_splits)
  next
    case True
    let ?c1 = "?c\<lparr>cd_open := 1, current_system := PTX_UNSPECIFIED_SYSTEM\<rparr>"
    obtain ret w where o: "(case chr_op ?c1 op_open of None \<Rightarrow> (0, priv ?c1) | Some f \<Rightarrow> f (priv ?c1)) = (ret, w)"
      by fastforce
    have le: "\<forall>c \<in> set (chrdevs g). cd_open c \<le> 1"
      using assms(1) g by (auto simp: ctx_inv_def refs_inv_def)
    have eq: "ctx' = (if ret \<noteq> 0 then update_group (grp_id g) (set_chrdev ?i (?c1\<lparr>priv := w, cd_open := 0\<rparr>)) ctx
        else (update_group (grp_id g) (\<lambda>g. (set_chrdev ?i (?c1\<lparr>priv := w\<rparr>) g)\<lparr>grp_kref := grp_kref g + 1\<rparr>) ctx)
          \<lparr>ctx_kref := ctx_kref ctx + 1\<rparr>)"
      using assms(2) Some True o unfolding ptx_chrdev_open_def Let_def
      by (cases "ret = 0") (simp_all del: ptx_chrdev.simps)
    show ?thesis
    proof (cases "ret = 0")
      case False
      let ?f = "set_chrdev ?i (?c1\<lparr>priv := w, cd_open := 0\<rparr>) :: 'a chr_group \<Rightarrow> 'a chr_group"
      have op: "opens (?f g) = opens g"
        using opens_set_chrdev [OF i, of "?c1\<lparr>priv := w, cd_open := 0\<rparr>"] True by simp
      have le': "\<forall>c \<in> set (chrdevs (?f g)). cd_open c \<le> 1" by (rule chrdevs_upd_le [OF le]) simp
      have "update_group (grp_id g) ?f ctx = (update_group (grp_id g) ?f ctx)\<lparr>ctx_kref := ctx_kref ctx\<rparr>"
        by (simp add: update_group_def)
      then have c': "ctx' = (update_group (grp_id g) ?f ctx)\<lparr>ctx_kref := ctx_kref ctx\<rparr>"
        using eq False by metis
      show ?thesis
        by (rule update_one_inv [OF assms(1) _ _ le' _ _ c']) (use g op in simp_all)
    next
      case ok: True
      let ?f = "\<lambda>g. (set_chrdev ?i (?c1\<lparr>priv := w\<rparr>) g)\<lparr>grp_kref := grp_kref g + 1\<rparr>"
      have op: "opens (?f g) = opens g + 1"
        using opens_set_chrdev [OF i, of "?c1\<lparr>priv := w\<rparr>"] True by (simp add: opens_def)
      have sh: "shape (?f g) = shape g" by (simp add: shape_def set_chrdev_def)
      have "\<forall>c \<in> set (chrdevs (set_chrdev ?i (?c1\<lparr>priv := w\<rparr>) g)). cd_open c \<le> 1"
        by (rule chrdevs_upd_le [OF le]) simp
      then have le': "\<forall>c \<in> set (chrdevs (?f g)). cd_open c \<le> 1" by simp
      have c': "ctx' = (update_group (grp_id g) ?f ctx)\<lparr>ctx_kref := ctx_kref ctx + 1\<rparr>"
        using eq ok by metis
      have k: "grp_kref (?f g) + opens g = grp_kref g + opens (?f g)" unfolding op by simp
      show ?thesis
        by (rule update_one_inv [OF assms(1) _ sh le' k _ c']) (use g op in simp_all)
    qed
  qed
qed

lemma close_open: "ptx_chrdev_close c = (ret, c') \<Longrightarrow> cd_open c' = cd_open c - 1"
  by (auto simp: ptx_chrdev_close_def wake_up_def Let_def split: if_splits option.splits prod.splits)

lemma find_live:
  assumes "ctx_inv ctx" "g \<in> set (live ctx)"
  shows "find (\<lambda>h. grp_id h = grp_id g) (group_list ctx @ detached ctx) = Some g"
proof (cases "find (\<lambda>h. grp_id h = grp_id g) (group_list ctx @ detached ctx)")
  case None
  then show ?thesis using assms(2) by (auto simp: find_None_iff live_def)
next
  case (Some h)
  then have "h \<in> set (live ctx)" "grp_id h = grp_id g"
    unfolding find_Some_iff live_def by (metis nth_mem)+
  then show ?thesis using Some ctx_inv_distinct [OF assms(1)] assms(2) by (auto simp: distinct_map dest: inj_onD)
qed

text \<open>\<open>file_open\<close>: the file (group, index) is one that is open.\<close>

definition file_open :: "'w chrdev_context \<Rightarrow> nat \<times> nat \<Rightarrow> bool" where
  "file_open ctx fl \<longleftrightarrow> (\<exists>g \<in> set (live ctx). grp_id g = fst fl \<and> snd fl < length (chrdevs g) \<and>
     cd_open (chrdevs g ! snd fl) = 1)"

lemma release_file_inv:
  assumes "ctx_inv ctx" "file_open ctx fl" "ptx_chrdev_release ctx fl = (ret, ctx')"
  shows "ctx_inv ctx'"
proof -
  obtain g where g: "g \<in> set (live ctx)" "grp_id g = fst fl" "snd fl < length (chrdevs g)"
      "cd_open (chrdevs g ! snd fl) = 1"
    using assms(2) unfolding file_open_def by blast
  obtain r c where c: "ptx_chrdev_close (chrdevs g ! snd fl) = (r, c)" by fastforce
  have co: "cd_open c = 0" using close_open [OF c] g(4) by simp
  define g1 where "g1 = (set_chrdev (snd fl) c g)\<lparr>grp_kref := grp_kref g - 1\<rparr>"
  let ?c1 = "ctx\<lparr>group_list := filter (\<lambda>h. grp_id h \<noteq> grp_id g) (group_list ctx),
      detached := filter (\<lambda>h. grp_id h \<noteq> grp_id g) (detached ctx)\<rparr>"
  note f = find_live [OF assms(1) g(1)]
  define d where "d = (if grp_kref g1 = 0 then ptx_chrdev_group_release g1 ?c1
      else update_group (grp_id g) (\<lambda>_. g1) ctx)"
  have c': "ctx' = d\<lparr>ctx_kref := ctx_kref d - 1\<rparr>"
    using assms(3) unfolding ptx_chrdev_release_def g(2) [symmetric] f option.case c Let_def prod.case
      g1_def [symmetric] d_def [symmetric] by simp
  have R: "\<forall>h \<in> set (group_list ctx). grp_kref h = 1 + opens h"
      "\<forall>h \<in> set (detached ctx). grp_kref h = opens h \<and> 0 < opens h"
      "\<forall>h \<in> set (live ctx). \<forall>c \<in> set (chrdevs h). cd_open c \<le> 1"
    using assms(1) unfolding ctx_inv_def refs_inv_def by blast+
  have op: "opens g1 + 1 = opens g"
    using opens_set_chrdev [OF g(3), of c] co g(4) by (simp add: g1_def opens_def)
  have sh: "shape g1 = shape g" by (simp add: g1_def shape_def set_chrdev_def)
  have ks: "opens g \<le> grp_kref g" "1 \<le> ctx_kref ctx" "grp_kref g1 + 1 = grp_kref g"
    using g(1) R(1,2) assms(1) op by (auto simp: live_def g1_def ctx_inv_def refs_inv_def)
  show ?thesis
  proof (cases "grp_kref g1 = 0")
    case True
    then have o1: "opens g = 1" using op ks by linarith
    have "ctx_inv ((ptx_chrdev_group_release g1 ?c1)\<lparr>ctx_kref := ctx_kref ctx - 2\<rparr>)"
    proof (rule release_inv [OF assms(1) g(1)])
      have "sum_list (map opens (live ctx)) \<ge> opens g" using g(1) by (simp add: member_le_sum_list)
      then show "ctx_kref ctx - 2 + opens g = ctx_kref ctx - 1"
        using o1 assms(1) by (simp add: ctx_inv_def refs_inv_def)
    qed (use sh in simp_all)
    moreover have "ctx' = (ptx_chrdev_group_release g1 ?c1)\<lparr>ctx_kref := ctx_kref ctx - 2\<rparr>"
      using True by (simp add: c' d_def ptx_chrdev_group_release_def)
    ultimately show ?thesis by simp
  next
    case False
    have le: "\<forall>c \<in> set (chrdevs g1). cd_open c \<le> 1"
      using chrdevs_upd_le [of g c "snd fl"] R(3) g(1) co by (simp add: g1_def)
    have e: "ctx' = (update_group (grp_id g) (\<lambda>_. g1) ctx)\<lparr>ctx_kref := ctx_kref ctx - 1\<rparr>"
      using False by (simp add: c' d_def update_group_def)
    show ?thesis
    proof (rule update_one_inv [OF assms(1) g(1) sh le _ _ e])
      show "0 < opens g1 \<or> g \<in> set (group_list ctx)"
        using False R(2) g(1) op ks(3) by (auto simp: live_def)
    qed (use op ks in linarith)+
  qed
qed

section \<open>Every sequence of operations\<close>

text \<open>
  One step of a context's life: a reservation, a device plugged in or unplugged, a file opened or
  closed, and any use of a receiver, which never changes how often it is open.
\<close>

inductive ctx_step :: "'w chrdev_context \<Rightarrow> 'w chrdev_context \<Rightarrow> bool" where
  t_reserve: "0 < num \<Longrightarrow> ptx_chrdev_context_reserve ctx num = (ret, mb, ctx') \<Longrightarrow> ctx_step ctx ctx'"
| t_add: "cfgs \<noteq> [] \<Longrightarrow> ptx_chrdev_context_add_group kz cdev ctx reserved cfgs = (ret, ctx') \<Longrightarrow> ctx_step ctx ctx'"
| t_remove: "ptx_chrdev_context_remove_group ctx mb = (ret, ctx') \<Longrightarrow> ctx_step ctx ctx'"
| t_open: "ptx_chrdev_open ctx minor = (res, ctx') \<Longrightarrow> ctx_step ctx ctx'"
| t_close: "file_open ctx fl \<Longrightarrow> ptx_chrdev_release ctx fl = (ret, ctx') \<Longrightarrow> ctx_step ctx ctx'"
| t_use: "g \<in> set (live ctx) \<Longrightarrow> i < length (chrdevs g) \<Longrightarrow> cd_open c = cd_open (chrdevs g ! i) \<Longrightarrow>
    ctx_step ctx (update_group (grp_id g) (set_chrdev i c) ctx)"

lemma use_inv:
  assumes "ctx_inv ctx" "g \<in> set (live ctx)" "i < length (chrdevs g)" "cd_open c = cd_open (chrdevs g ! i)"
  shows "ctx_inv (update_group (grp_id g) (set_chrdev i c) ctx)"
proof -
  have R: "\<forall>h \<in> set (detached ctx). grp_kref h = opens h \<and> 0 < opens h"
      "\<forall>c \<in> set (chrdevs g). cd_open c \<le> 1"
    using assms(1,2) unfolding ctx_inv_def refs_inv_def by blast+
  have op: "opens (set_chrdev i c g) = opens g" using opens_set_chrdev [OF assms(3), of c] assms(4) by simp
  have le: "\<forall>d \<in> set (chrdevs (set_chrdev i c g)). cd_open d \<le> 1"
    by (rule chrdevs_upd_le [OF R(2)]) (use R(2) assms(3,4) in auto)
  have e: "update_group (grp_id g) (set_chrdev i c) ctx =
      (update_group (grp_id g) (set_chrdev i c) ctx)\<lparr>ctx_kref := ctx_kref ctx\<rparr>"
    by (simp add: update_group_def)
  show ?thesis
    by (rule update_one_inv [OF assms(1,2) _ le _ _ e]) (use op R(1) assms(2) in \<open>auto simp: live_def\<close>)
qed

lemma ctx_step_inv:
  assumes "ctx_step ctx ctx'" "ctx_inv ctx"
  shows "ctx_inv ctx'"
  using assms(1)
proof cases
  case t_reserve
  then show ?thesis using reserve_inv [OF assms(2)] by blast
next
  case t_add
  then show ?thesis using add_group_inv [OF assms(2)] by blast
next
  case t_remove
  then show ?thesis using group_destroy_inv [OF assms(2)] assms(2)
    by (auto simp: ptx_chrdev_context_remove_group_def split: option.splits)
next
  case t_open
  then show ?thesis using open_inv [OF assms(2)] by blast
next
  case t_close
  then show ?thesis using release_file_inv [OF assms(2)] by blast
next
  case t_use
  then show ?thesis using use_inv [OF assms(2)] by blast
qed

lemma ctx_reach_inv: "ctx_step\<^sup>*\<^sup>* ctx ctx' \<Longrightarrow> ctx_inv ctx \<Longrightarrow> ctx_inv ctx'"
  by (induction rule: rtranclp_induct) (auto intro: ctx_step_inv)

text \<open>C9: through any life of a context, with devices plugged in and unplugged while files are open, a
  minor number never belongs to two groups that still exist, and it is marked in use exactly while a
  group, unplugged or not, still has it.\<close>

theorem chrdev_minors_exclusive:
  assumes "ptx_chrdev_context_create args kz cls region num = Inr ctx0" "ctx_step\<^sup>*\<^sup>* ctx0 ctx"
  shows "(\<forall>g \<in> set (group_list ctx @ detached ctx). \<forall>h \<in> set (group_list ctx @ detached ctx). \<forall>minor.
      in_group minor g \<and> in_group minor h \<longrightarrow> g = h) \<and>
    (\<forall>k < length (minor_table ctx). minor_table ctx ! k = PTX_CHRDEV_MINOR_IN_USE \<longleftrightarrow>
      (\<exists>g \<in> set (group_list ctx @ detached ctx). in_group (dev_minor ctx + k) g))"
proof -
  have inv: "ctx_inv ctx" using ctx_reach_inv [OF assms(2) create_inv [OF assms(1)]] .
  then have T: "table_inv (minor_table ctx) (dev_minor ctx) (last_id ctx) (map shape (live ctx))"
    by (simp add: ctx_inv_def)
  have "g = h" if "g \<in> set (live ctx)" "h \<in> set (live ctx)" "in_group m g" "in_group m h" for g h m
  proof -
    have "owns m (shape g)" "owns m (shape h)" "shape g \<in> set (map shape (live ctx))"
        "shape h \<in> set (map shape (live ctx))"
      using that by simp_all
    then have "shape g = shape h" using T unfolding table_inv_def by blast
    then have "grp_id g = grp_id h" by (simp add: shape_def)
    then show ?thesis using ctx_inv_distinct [OF inv] that(1,2) by (auto simp: distinct_map dest: inj_onD)
  qed
  moreover have "minor_table ctx ! k = PTX_CHRDEV_MINOR_IN_USE \<longleftrightarrow>
      (\<exists>g \<in> set (live ctx). in_group (dev_minor ctx + k) g)" if "k < length (minor_table ctx)" for k
    using T that unfolding table_inv_def by simp
  ultimately show ?thesis unfolding live_def by blast
qed

text \<open>
  A context with eight numbers, in which a device with two receivers is plugged in, its second
  receiver opened and the device unplugged while the file is open.
\<close>

definition demo_cfg :: "unit chrdev_config" where
  "demo_cfg = \<lparr> cfg_system_cap = 0x30,
     cfg_ops = \<lparr> op_init = None, op_term = None, op_open = None, op_release = None, op_tune = None,
       op_check_lock = None, op_read_tmcc_partial_reception = None, op_read_tmcc_tsid_list = None,
       op_set_stream_id = None, op_set_lnb_voltage = None, op_set_capture = None, op_read_cnr_raw = None \<rparr>,
     cfg_options = 0, cfg_ringbuf_size = 2, cfg_threshold_size = 1, cfg_priv = () \<rparr>"

definition demo_env :: setup_env where
  "demo_env = (True, \<lambda>n. Some (replicate n 0))"

definition demo_ctx0 :: "unit chrdev_context" where
  "demo_ctx0 = \<lparr> ctx_kref = 1, dev_minor = 64, last_id = 0, minor_table = replicate 8 PTX_CHRDEV_MINOR_FREE,
     group_list = [], detached = [], ended = [] \<rparr>"

definition demo_ctx1 :: "unit chrdev_context" where
  "demo_ctx1 = snd (ptx_chrdev_context_add_group True 0 demo_ctx0 None [(demo_env, demo_cfg), (demo_env, demo_cfg)])"

definition demo_ctx2 :: "unit chrdev_context" where
  "demo_ctx2 = snd (ptx_chrdev_open demo_ctx1 65)"

definition demo_ctx3 :: "unit chrdev_context" where
  "demo_ctx3 = snd (ptx_chrdev_context_remove_group demo_ctx2 64)"

lemma demo_create: "ptx_chrdev_context_create True True 0 (Inr 64) 8 = Inr demo_ctx0"
  by (simp add: ptx_chrdev_context_create_def demo_ctx0_def)

lemma demo_reach: "ctx_step\<^sup>*\<^sup>* demo_ctx0 demo_ctx3"
proof -
  have "ctx_step demo_ctx0 demo_ctx1"
    using t_add [of "[(demo_env, demo_cfg), (demo_env, demo_cfg)]" True 0 demo_ctx0 None]
    by (simp add: demo_ctx1_def) (metis prod.collapse)
  moreover have "ctx_step demo_ctx1 demo_ctx2"
    using t_open [of demo_ctx1 65] by (simp add: demo_ctx2_def) (metis prod.collapse)
  moreover have "ctx_step demo_ctx2 demo_ctx3"
    using t_remove [of demo_ctx2 64] by (simp add: demo_ctx3_def) (metis prod.collapse)
  ultimately show ?thesis by (meson converse_rtranclp_into_rtranclp rtranclp.rtrancl_refl)
qed

lemma demo_setup: "\<exists>c. chrdev_setup demo_env i demo_cfg = Inr c"
  by (simp add: chrdev_setup_def demo_env_def demo_cfg_def ringbuffer_create_def ringbuffer_alloc_def
      ringbuffer_lock_def ringbuffer_unlock_def ringbuffer_reset_nolock_def ringbuffer_free_nolock_def Let_def)

lemma demo_receivers:
  obtains c d where "setup_chrdevs 0 [(demo_env, demo_cfg), (demo_env, demo_cfg)] = Inr [c, d]"
    "cd_open c = 0" "cd_open d = 0" "available d" "chr_op d op_open = None"
proof -
  obtain c d where cd: "chrdev_setup demo_env 0 demo_cfg = Inr c" "chrdev_setup demo_env 1 demo_cfg = Inr d"
    using demo_setup by metis
  have "cd_ops d = Some (cfg_ops demo_cfg)"
    using cd(2) by (auto simp: chrdev_setup_def Let_def split: sum.splits prod.splits if_splits)
  then have "chr_op d op_open = None" by (simp add: chr_op_def demo_cfg_def)
  then show ?thesis using that [of c d] cd chrdev_setup_fresh [OF cd(1)] chrdev_setup_fresh [OF cd(2)] by simp
qed

lemma demo_ctx3_eval:
  "minor_table demo_ctx3 = [2, 2, 0, 0, 0, 0, 0, 0]" "dev_minor demo_ctx3 = 64" "group_list demo_ctx3 = []"
  "map shape (detached demo_ctx3) = [(0, 64, 2)]" "map (map cd_open \<circ> chrdevs) (detached demo_ctx3) = [[0, 1]]"
proof -
  obtain c d where r: "setup_chrdevs 0 [(demo_env, demo_cfg), (demo_env, demo_cfg)] = Inr [c, d]"
    "cd_open c = 0" "cd_open d = 0" "available d" "chr_op d op_open = None" by (rule demo_receivers)
  let ?d = "d\<lparr>cd_open := 1, current_system := PTX_UNSPECIFIED_SYSTEM\<rparr>"
  have t: "ptx_chrdev_context_search_minor (replicate 8 0) 2 0 = Inr 0"
    "ptx_chrdev_context_set_minor_status (replicate 8 0) 0 2 1 = (0, [1, 1, 0, 0, 0, 0, 0, 0])"
    "ptx_chrdev_context_set_minor_status [1, 1, 0, 0, 0, 0, 0, 0] 0 2 2 = (0, [2, 2, 0, 0, 0, 0, 0, 0])"
    by code_simp+
  have 1: "demo_ctx1 = \<lparr> ctx_kref = 2, dev_minor = 64, last_id = 1, minor_table = [2, 2, 0, 0, 0, 0, 0, 0],
      group_list = [\<lparr>grp_id = 0, minor_base = 64, grp_kref = 1, chrdevs = [c, d]\<rparr>], detached = [], ended = [] \<rparr>"
    using r(1) t [unfolded numeral_2_eq_2] by (simp del: setup_chrdevs.simps add: numeral_2_eq_2 demo_ctx1_def demo_ctx0_def ptx_chrdev_context_add_group_def add_group_base_def
        set_minors_def Let_def)
  have "chr_op ?d op_open = None" using r(5) by (simp add: chr_op_def)
  then have 2: "demo_ctx2 = \<lparr> ctx_kref = 3, dev_minor = 64, last_id = 1, minor_table = [2, 2, 0, 0, 0, 0, 0, 0],
      group_list = [\<lparr>grp_id = 0, minor_base = 64, grp_kref = 2, chrdevs = [c, ?d]\<rparr>], detached = [], ended = [] \<rparr>"
    using r(3-5) by (simp add: demo_ctx2_def 1 ptx_chrdev_open_def ptx_chrdev_context_search_group_def
        in_group_def update_group_def set_chrdev_def Let_def)
  have 3: "demo_ctx3 = \<lparr> ctx_kref = 3, dev_minor = 64, last_id = 1, minor_table = [2, 2, 0, 0, 0, 0, 0, 0],
      group_list = [], detached = [\<lparr>grp_id = 0, minor_base = 64, grp_kref = 1,
        chrdevs = map (\<lambda>c. wake_up (c\<lparr>available := False\<rparr>)) [c, ?d]\<rparr>], ended = [] \<rparr>"
    by (simp add: demo_ctx3_def 2 ptx_chrdev_context_remove_group_def ptx_chrdev_group_destroy_def
        ptx_chrdev_context_search_group_def in_group_def Let_def)
  show "minor_table demo_ctx3 = [2, 2, 0, 0, 0, 0, 0, 0]" "dev_minor demo_ctx3 = 64" "group_list demo_ctx3 = []"
    "map shape (detached demo_ctx3) = [(0, 64, 2)]" "map (map cd_open \<circ> chrdevs) (detached demo_ctx3) = [[0, 1]]"
    using r(2) by (simp_all add: 3 shape_def wake_up_def)
qed

theorem chrdev_minors_exclusive_witness:
  "ctx_step\<^sup>*\<^sup>* demo_ctx0 demo_ctx3 \<and> minor_table demo_ctx3 ! 1 = PTX_CHRDEV_MINOR_IN_USE \<and>
   (\<exists>g \<in> set (detached demo_ctx3). in_group 65 g)"
proof -
  have "minor_table demo_ctx3 ! 1 = PTX_CHRDEV_MINOR_IN_USE" "1 < length (minor_table demo_ctx3)"
    by (simp_all add: demo_ctx3_eval)
  then have "\<exists>g \<in> set (group_list demo_ctx3 @ detached demo_ctx3). in_group (dev_minor demo_ctx3 + 1) g"
    using chrdev_minors_exclusive [OF demo_create demo_reach] by blast
  then show ?thesis using demo_reach by (simp add: demo_ctx3_eval)
qed

text \<open>C10: the reference counts are exact: a registered group is held once by the context's list and once by
  each open file, an unplugged group by its open files only and it disappears with the last of them,
  and a context is held by its owner, its groups and the open files.\<close>

theorem chrdev_references_exact:
  assumes "ptx_chrdev_context_create args kz cls region num = Inr ctx0" "ctx_step\<^sup>*\<^sup>* ctx0 ctx"
  shows "(\<forall>g \<in> set (group_list ctx). grp_kref g = 1 + sum_list (map cd_open (chrdevs g))) \<and>
    (\<forall>g \<in> set (detached ctx). grp_kref g = sum_list (map cd_open (chrdevs g)) \<and> 0 < grp_kref g) \<and>
    ctx_kref ctx = 1 + length (group_list ctx) + length (detached ctx) +
      sum_list (map (\<lambda>g. sum_list (map cd_open (chrdevs g))) (group_list ctx @ detached ctx))"
proof -
  have "refs_inv ctx" using ctx_reach_inv [OF assms(2) create_inv [OF assms(1)]] by (simp add: ctx_inv_def)
  then show ?thesis unfolding refs_inv_def opens_def [abs_def] live_def by auto
qed

theorem chrdev_references_exact_witness:
  "ctx_step\<^sup>*\<^sup>* demo_ctx0 demo_ctx3 \<and> 0 < grp_kref (hd (detached demo_ctx3)) \<and> ctx_kref demo_ctx3 = 3"
proof -
  have "map (\<lambda>g. sum_list (map cd_open (chrdevs g))) (detached demo_ctx3) =
      map sum_list (map (map cd_open \<circ> chrdevs) (detached demo_ctx3))" by simp
  also have "\<dots> = [1]" by (simp only: demo_ctx3_eval) simp
  finally have s: "sum_list (map (\<lambda>g. sum_list (map cd_open (chrdevs g))) (detached demo_ctx3)) = 1" by simp
  have "length (map shape (detached demo_ctx3)) = 1" by (simp only: demo_ctx3_eval) simp
  then have "detached demo_ctx3 \<noteq> []" "ctx_kref demo_ctx3 = 3" "\<forall>g \<in> set (detached demo_ctx3). 0 < grp_kref g"
    using chrdev_references_exact [OF demo_create demo_reach] s by (force, simp add: demo_ctx3_eval(3), blast)
  then show ?thesis using demo_reach by simp
qed

end
