(* ===== verification/Call_Seq.thy ===== *)
theory Call_Seq
  imports Prelude
begin

text \<open>
  The calling convention of the hardware drivers: a function changes a state and returns 0 or a
  negative error code, and a caller stops at the first error,
  \<^verbatim>\<open>ret = f(); if (ret) return ret;\<close>. \<open>run_all\<close> is such a sequence of calls. The I2C requests of
  driver/i2c\_comm.h are here too, since every chip driver speaks them.
\<close>

section \<open>Sequences of calls\<close>

type_synonym 's call = "'s \<Rightarrow> int \<times> 's"

fun run_all :: "'s call list \<Rightarrow> 's call" where
  "run_all [] s = (0, s)"
| "run_all (f # fs) s = (let (ret, s1) = f s in if ret \<noteq> 0 then (ret, s1) else run_all fs s1)"

lemma run_all_append:
  "run_all (fs @ gs) s = (let (ret, s1) = run_all fs s in if ret \<noteq> 0 then (ret, s1) else run_all gs s1)"
  by (induction fs arbitrary: s) (auto simp: Let_def split: prod.splits)

lemma run_all_inv:
  assumes "\<And>f s. f \<in> set fs \<Longrightarrow> P s \<Longrightarrow> P (snd (f s))" "P s"
  shows "P (snd (run_all fs s))"
  using assms
proof (induction fs arbitrary: s)
  case (Cons f fs)
  have "P (snd (f s))" using Cons.prems by simp
  then have "P (snd (run_all fs (snd (f s))))" using Cons.IH Cons.prems(1) by auto
  then show ?case using \<open>P (snd (f s))\<close> by (auto simp: Let_def split: prod.splits)
qed simp

text \<open>A sequence succeeds exactly when each of its calls does, in the state the earlier ones left.\<close>

lemma run_all_zero:
  "run_all (f # fs) s = (0, s') \<longleftrightarrow> (\<exists>s1. f s = (0, s1) \<and> run_all fs s1 = (0, s'))"
  by (auto split: prod.splits)

lemma run_all_ok_Cons: "f s = (0, s1) \<Longrightarrow> run_all (f # fs) s = run_all fs s1"
  by simp

lemma run_all_error_Cons: "f s = (r, s1) \<Longrightarrow> r \<noteq> 0 \<Longrightarrow> run_all (f # fs) s = (r, s1)"
  by simp

lemma run_all_single [simp]: "run_all [f] s = f s"
  by (auto simp: Let_def split: prod.splits)

lemma run_all_returns_0:
  assumes "\<And>f s. f \<in> set fs \<Longrightarrow> Q s \<Longrightarrow> fst (f s) = 0 \<and> Q (snd (f s))" "Q s"
  shows "fst (run_all fs s) = 0 \<and> Q (snd (run_all fs s))"
  using assms
proof (induction fs arbitrary: s)
  case (Cons f fs)
  obtain s1 where "f s = (0, s1)" "Q s1" using Cons.prems by (metis list.set_intros(1) prod.collapse)
  then show ?case using Cons.IH [of s1] Cons.prems(1) by simp
qed simp

text \<open>One call for each element of a list, as the drivers' loops over tables make them.\<close>

definition run_each :: "('a \<Rightarrow> 's call) \<Rightarrow> 'a list \<Rightarrow> 's call" where
  "run_each f xs = run_all (map f xs)"

section \<open>I2C requests\<close>

text \<open>
  \<^verbatim>\<open>struct i2c_comm_request\<close>: the data of a read request is the buffer to fill. A null buffer and a
  length of zero are refused alike and are both the empty list.
\<close>

datatype i2c_request = I2C_READ_REQUEST u16 "u8 list" | I2C_WRITE_REQUEST u16 "u8 list" | I2C_UNDEFINED_REQUEST

fun req_data :: "i2c_request \<Rightarrow> u8 list" where
  "req_data (I2C_READ_REQUEST _ d) = d"
| "req_data (I2C_WRITE_REQUEST _ d) = d"
| "req_data I2C_UNDEFINED_REQUEST = []"

text \<open>\<^verbatim>\<open>struct i2c_comm_master\<close>, over the state its functions change; a request returns the buffers filled.\<close>

record 's i2c_comm_master =
  i2c_gate_ctrl :: "(bool \<Rightarrow> 's call) option"
  i2c_request :: "(i2c_request list \<Rightarrow> 's \<Rightarrow> int \<times> i2c_request list \<times> 's) option"

definition i2c_comm_master_gate_ctrl :: "'s i2c_comm_master \<Rightarrow> bool \<Rightarrow> 's call" where
  "i2c_comm_master_gate_ctrl m op s = (case i2c_gate_ctrl m of None \<Rightarrow> (- EFAULT, s) | Some f \<Rightarrow> f op s)"

definition i2c_comm_master_request ::
    "'s i2c_comm_master \<Rightarrow> i2c_request list \<Rightarrow> 's \<Rightarrow> int \<times> i2c_request list \<times> 's" where
  "i2c_comm_master_request m reqs s =
     (case i2c_request m of None \<Rightarrow> (- EFAULT, reqs, s) | Some f \<Rightarrow> f reqs s)"

end
