(* ===== verification/It930x.thy ===== *)
theory It930x
  imports Call_Seq
begin

text \<open>
  Model of driver/it930x.c, the driver of the ITE IT930x USB bridge, with the control transfers of
  driver/itedtv\_bus.c below it: framed and checksummed control messages, registers, the I2C master, the
  firmware loader, the streams' configuration, GPIO, the PID filter and the UART of the card reader.

  The USB core and the device behind it are the parameter \<open>usb_bus\<close>: bulk transfers on a device state.
  Two fields of the bridge are for the specification only: \<open>clog\<close> records every control message with
  its payload and result, and \<open>ub\<close> is raised where the C code would read or write outside an array.
  A byte that C leaves uninitialised has the value \<open>junk\<close>.
\<close>

section \<open>Data\<close>

record 'd usb_bus =
  bulk_out :: "u8 list \<Rightarrow> 'd \<Rightarrow> int \<times> 'd"
  bulk_in :: "nat \<Rightarrow> nat \<Rightarrow> int \<Rightarrow> 'd \<Rightarrow> int \<times> u8 list \<times> 'd"
  junk :: u8

datatype itedtv_bus_type = ITEDTV_BUS_NONE | ITEDTV_BUS_USB

datatype it930x_gpio_mode = IT930X_GPIO_UNDEFINED | IT930X_GPIO_IN | IT930X_GPIO_OUT

record it930x_gpio_state =
  gs_enable :: bool
  gs_mode :: it930x_gpio_mode

record it930x_pid_filter =
  pf_block :: bool
  pf_num :: int
  pf_pid :: "u16 list"

record it930x_stream_input =
  si_enable :: bool
  si_is_parallel :: bool
  si_port_number :: u8
  si_slave_number :: u8
  si_i2c_bus :: u8
  si_i2c_addr :: u8
  si_packet_len :: u8
  si_sync_byte :: u8

record it930x_config =
  xfer_size :: u32
  i2c_speed :: u8
  config_input :: "it930x_stream_input list"

record 'd it930x_bridge =
  it_dev :: 'd
  it_bus :: "'d usb_bus"
  it_bus_type :: itedtv_bus_type
  ctrl_timeout :: int
  max_bulk_size :: nat
  it_config :: it930x_config
  it_seq :: u8
  gpio_status :: "it930x_gpio_state list"
  clog :: "(u16 \<times> u8 list \<times> int) list"
  ub :: bool

abbreviation (input) IT930X_CMD_REG_READ :: u16 where "IT930X_CMD_REG_READ \<equiv> 0x00"
abbreviation (input) IT930X_CMD_REG_WRITE :: u16 where "IT930X_CMD_REG_WRITE \<equiv> 0x01"
abbreviation (input) IT930X_CMD_QUERYINFO :: u16 where "IT930X_CMD_QUERYINFO \<equiv> 0x22"
abbreviation (input) IT930X_CMD_BOOT :: u16 where "IT930X_CMD_BOOT \<equiv> 0x23"
abbreviation (input) IT930X_CMD_FW_SCATTER_WRITE :: u16 where "IT930X_CMD_FW_SCATTER_WRITE \<equiv> 0x29"
abbreviation (input) IT930X_CMD_I2C_READ :: u16 where "IT930X_CMD_I2C_READ \<equiv> 0x2a"
abbreviation (input) IT930X_CMD_I2C_WRITE :: u16 where "IT930X_CMD_I2C_WRITE \<equiv> 0x2b"
abbreviation (input) IT930X_CMD_UART_READ :: u16 where "IT930X_CMD_UART_READ \<equiv> 0x33"
abbreviation (input) IT930X_CMD_UART_WRITE :: u16 where "IT930X_CMD_UART_WRITE \<equiv> 0x34"
abbreviation (input) IT930X_CMD_UART_SET_BAUDRATE :: u16 where "IT930X_CMD_UART_SET_BAUDRATE \<equiv> 0x35"
abbreviation (input) IT930X_CMD_UART_SET_MODE :: u16 where "IT930X_CMD_UART_SET_MODE \<equiv> 0x37"

section \<open>Transfers on the bus\<close>

text \<open>Only the USB bus has operations; any other has none and its calls are refused.\<close>

definition itedtv_bus_ctrl_tx :: "u8 list \<Rightarrow> 'd it930x_bridge call" where
  "itedtv_bus_ctrl_tx buf b =
     (if it_bus_type b \<noteq> ITEDTV_BUS_USB \<or> buf = [] then (- EINVAL, b)
      else let (ret, d) = bulk_out (it_bus b) buf (it_dev b) in (ret, b\<lparr>it_dev := d\<rparr>))"

definition itedtv_bus_ctrl_rx :: "nat \<Rightarrow> 'd it930x_bridge \<Rightarrow> int \<times> u8 list \<times> 'd it930x_bridge" where
  "itedtv_bus_ctrl_rx n b =
     (if it_bus_type b \<noteq> ITEDTV_BUS_USB \<or> n = 0 then (- EINVAL, [], b)
      else let (ret, data, d) = bulk_in (it_bus b) 0x81 n (ctrl_timeout b) (it_dev b)
           in (ret, data, b\<lparr>it_dev := d\<rparr>))"

definition itedtv_bus_stream_rx ::
    "nat \<Rightarrow> int \<Rightarrow> 'd it930x_bridge \<Rightarrow> int \<times> u8 list \<times> 'd it930x_bridge" where
  "itedtv_bus_stream_rx n timeout b =
     (if it_bus_type b \<noteq> ITEDTV_BUS_USB \<or> n = 0 then (- EINVAL, [], b)
      else let (ret, data, d) = bulk_in (it_bus b) 0x84 n timeout (it_dev b)
           in (ret, data, b\<lparr>it_dev := d\<rparr>))"

section \<open>Control messages\<close>

definition it930x_reg_length :: "u32 \<Rightarrow> u8" where
  "it930x_reg_length reg =
     (if reg AND 0xff000000 \<noteq> 0 then 4
      else if reg AND 0x00ff0000 \<noteq> 0 then 3
      else if reg AND 0x0000ff00 \<noteq> 0 then 2
      else 1)"

fun checksum_loop :: "u16 \<Rightarrow> u8 list \<Rightarrow> u16" where
  "checksum_loop c (x # y # bs) = checksum_loop (c + be16 x y) bs"
| "checksum_loop c [x] = c + push_bit 8 (ucast x)"
| "checksum_loop c [] = c"

definition it930x_calc_checksum :: "u8 list \<Rightarrow> u16" where
  "it930x_calc_checksum buf = NOT (checksum_loop 0 buf)"

text \<open>The bytes of the message as the code lays them out in \<^verbatim>\<open>priv->buf\<close>.\<close>

definition it930x_frame :: "u16 \<Rightarrow> u8 \<Rightarrow> u8 list \<Rightarrow> u8 list" where
  "it930x_frame cmd seq payload =
     (let len = 4 + 2 + length payload;
          hdr = [of_nat (len - 1), hi8 cmd, lo8 cmd, seq] @ payload;
          csum = it930x_calc_checksum (drop 1 hdr)
      in hdr @ [hi8 csum, lo8 csum])"

text \<open>
  The checks on the response, the first \<open>length data\<close> bytes of the buffer; \<open>rcap\<close> is the room in the
  caller's buffer (none when the caller passes no \<^verbatim>\<open>rbuf\<close>), the bytes copied there are returned.
\<close>

definition it930x_response :: "u8 \<Rightarrow> nat option \<Rightarrow> u8 list \<Rightarrow> int \<times> u8 list" where
  "it930x_response seq rcap data =
     (let rlen = length data in
      if rlen < 5 then (- EBADMSG, [])
      else if it930x_calc_checksum (take (rlen - 1 - 2) (drop 1 data)) \<noteq> be16 (data ! (rlen - 2)) (data ! (rlen - 1))
      then (- EBADMSG, [])
      else if data ! 1 \<noteq> seq then (- EBADMSG, [])
      else if data ! 2 \<noteq> 0 then (- EIO, [])
      else (0, case rcap of None \<Rightarrow> [] | Some n \<Rightarrow> take (min n (rlen - 3 - 2)) (drop 3 data)))"

definition ctrl_log :: "u16 \<Rightarrow> u8 list \<Rightarrow> int \<Rightarrow> 'd it930x_bridge \<Rightarrow> 'd it930x_bridge" where
  "ctrl_log cmd payload ret b = b\<lparr>clog := clog b @ [(cmd, payload, ret)]\<rparr>"

text \<open>
  \<^verbatim>\<open>it930x_ctrl_msg\<close>. The length of the message is an 8-bit variable: with a payload of 250 bytes, which
  the test at the top lets through, it wraps to 0, and the code computes the checksum over a negative
  length and stores it before the buffer.
\<close>

definition it930x_ctrl_msg ::
    "u16 \<Rightarrow> u8 list option \<Rightarrow> nat option \<Rightarrow> bool \<Rightarrow> 'd it930x_bridge \<Rightarrow> int \<times> u8 list \<times> 'd it930x_bridge" where
  "it930x_ctrl_msg cmd wbuf rcap no_rx b =
     (let payload = (case wbuf of None \<Rightarrow> [] | Some p \<Rightarrow> p) in
      if length payload > 255 - 3 - 2 then (- EINVAL, [], b)
      else if (of_nat (4 + 2 + length payload) :: u8) = 0 then (- EFAULT, [], b\<lparr>ub := True\<rparr>)
      else
        let seq = it_seq b;
            (ret, b1) = itedtv_bus_ctrl_tx (it930x_frame cmd seq payload) (b\<lparr>it_seq := seq + 1\<rparr>) in
        if ret \<noteq> 0 \<or> no_rx then (ret, [], ctrl_log cmd payload ret b1)
        else
          let (ret, data, b2) = itedtv_bus_ctrl_rx 256 b1 in
          if ret \<noteq> 0 then (ret, [], ctrl_log cmd payload ret b2)
          else let (ret, out) = it930x_response seq rcap data
               in (ret, out, ctrl_log cmd payload ret b2))"

section \<open>Registers\<close>

definition reg_bytes :: "u32 \<Rightarrow> u8 list" where
  "reg_bytes reg = [ucast (drop_bit 24 reg), ucast (drop_bit 16 reg), ucast (drop_bit 8 reg), ucast reg]"

text \<open>\<open>rbuf\<close> is the caller's buffer, returned with what arrived in front.\<close>

definition it930x_read_regs :: "u32 \<Rightarrow> u8 list \<Rightarrow> 'd it930x_bridge \<Rightarrow> int \<times> u8 list \<times> 'd it930x_bridge" where
  "it930x_read_regs reg rbuf b =
     (if rbuf = [] \<or> length rbuf > 251 then (- EINVAL, rbuf, b)
      else
        let wb = [of_nat (length rbuf), it930x_reg_length reg] @ reg_bytes reg;
            (ret, data, b1) = it930x_ctrl_msg IT930X_CMD_REG_READ (Some wb) (Some (length rbuf)) False b
        in (ret, blit rbuf 0 data, b1))"

definition it930x_read_reg :: "u32 \<Rightarrow> u8 \<Rightarrow> 'd it930x_bridge \<Rightarrow> int \<times> u8 \<times> 'd it930x_bridge" where
  "it930x_read_reg reg val b = (let (ret, buf, b1) = it930x_read_regs reg [val] b in (ret, hd buf, b1))"

definition it930x_write_regs :: "u32 \<Rightarrow> u8 list \<Rightarrow> 'd it930x_bridge call" where
  "it930x_write_regs reg wbuf b =
     (if wbuf = [] \<or> length wbuf > 250 - 6 then (- EINVAL, b)
      else
        let wb = [of_nat (length wbuf), it930x_reg_length reg] @ reg_bytes reg @ wbuf;
            (ret, _, b1) = it930x_ctrl_msg IT930X_CMD_REG_WRITE (Some wb) None False b
        in (ret, b1))"

definition it930x_write_reg :: "u32 \<Rightarrow> u8 \<Rightarrow> 'd it930x_bridge call" where
  "it930x_write_reg reg val = it930x_write_regs reg [val]"

definition it930x_write_reg_mask :: "u32 \<Rightarrow> u8 \<Rightarrow> u8 \<Rightarrow> 'd it930x_bridge call" where
  "it930x_write_reg_mask reg val msk b =
     (if msk = 0 then (- EINVAL, b)
      else if msk \<noteq> 0xff then
        let (ret, tmp, b1) = it930x_read_reg reg (junk (it_bus b)) b in
        if ret \<noteq> 0 then (ret, b1)
        else it930x_write_reg reg ((tmp AND NOT msk) OR (val AND msk)) b1
      else it930x_write_reg reg val b)"

section \<open>The I2C master\<close>

definition it930x_i2c_one ::
    "u8 \<Rightarrow> i2c_request \<Rightarrow> 'd it930x_bridge \<Rightarrow> int \<times> i2c_request \<times> 'd it930x_bridge" where
  "it930x_i2c_one i2c_bus req b =
     (if req_data req = [] then (- EINVAL, req, b)
      else case req of
        I2C_READ_REQUEST addr data \<Rightarrow>
          if length data > 251 then (- EINVAL, req, b)
          else
            let wb = [of_nat (length data), i2c_bus, ucast (push_bit 1 addr)];
                (ret, out, b1) = it930x_ctrl_msg IT930X_CMD_I2C_READ (Some wb) (Some (length data)) False b
            in (ret, I2C_READ_REQUEST addr (blit data 0 out), b1)
      | I2C_WRITE_REQUEST addr data \<Rightarrow>
          if length data > 250 - 3 then (- EINVAL, req, b)
          else
            let wb = [of_nat (length data), i2c_bus, ucast (push_bit 1 addr)] @ data;
                (ret, _, b1) = it930x_ctrl_msg IT930X_CMD_I2C_WRITE (Some wb) None False b
            in (ret, req, b1)
      | I2C_UNDEFINED_REQUEST \<Rightarrow> (- EINVAL, req, b))"

fun it930x_i2c_master_request ::
    "u8 \<Rightarrow> i2c_request list \<Rightarrow> 'd it930x_bridge \<Rightarrow> int \<times> i2c_request list \<times> 'd it930x_bridge" where
  "it930x_i2c_master_request i2c_bus [] b = (0, [], b)"
| "it930x_i2c_master_request i2c_bus (req # reqs) b =
     (let (ret, req1, b1) = it930x_i2c_one i2c_bus req b in
      if ret \<noteq> 0 then (ret, req1 # reqs, b1)
      else let (ret, reqs1, b2) = it930x_i2c_master_request i2c_bus reqs b1 in (ret, req1 # reqs1, b2))"

section \<open>Firmware\<close>

text \<open>The query and its answer share a buffer of four bytes, of which only the first is set before.\<close>

definition it930x_read_firmware_version :: "'d it930x_bridge \<Rightarrow> int \<times> u32 \<times> 'd it930x_bridge" where
  "it930x_read_firmware_version b =
     (let j = junk (it_bus b);
          (ret, data, b1) = it930x_ctrl_msg IT930X_CMD_QUERYINFO (Some [1]) (Some 4) False b;
          buf = blit [1, j, j, j] 0 data
      in (ret, be32 (buf ! 0) (buf ! 1) (buf ! 2) (buf ! 3), b1))"

fun raise_loop :: "nat \<Rightarrow> int \<Rightarrow> 'd it930x_bridge call" where
  "raise_loop 0 ret b = (ret, b)"
| "raise_loop (Suc i) ret b =
     (let (ret, _, b1) = it930x_read_firmware_version b in
      if ret = 0 then (ret, b1) else raise_loop i ret b1)"

definition it930x_raise :: "'d it930x_bridge call" where
  "it930x_raise = raise_loop 5 0"

text \<open>
  One block of the image (\<open>Inl\<close>: the loop is left, \<open>Inr\<close>: the next position), and the loop with fuel. A block of \<open>m\<close> segments has the length of each at
  offset 6, 9, ...; reads outside the image raise \<open>ub\<close>. A block whose segments are all empty leaves the
  position where it is.
\<close>

definition fw_seg_total :: "u8 list \<Rightarrow> nat \<Rightarrow> nat \<Rightarrow> nat" where
  "fw_seg_total fw i m = sum_list (map (\<lambda>j. unat (fw ! (i + 6 + j * 3))) [0..<m])"

definition fw_block :: "u8 list \<Rightarrow> nat \<Rightarrow> 'd it930x_bridge \<Rightarrow> (int \<times> 'd it930x_bridge) + (nat \<times> 'd it930x_bridge)" where
  "fw_block fw i b =
     (if i + 3 \<ge> length fw then Inl (- EFAULT, b\<lparr>ub := True\<rparr>)
      else
        let m = unat (fw ! (i + 3)) in
        if fw ! i \<noteq> 0x03 then Inl (- ECANCELED, b)
        else if m > 0 \<and> i + 6 + (m - 1) * 3 \<ge> length fw then Inl (- EFAULT, b\<lparr>ub := True\<rparr>)
        else
          let len0 = fw_seg_total fw i m in
          if len0 = 0 then Inr (i, b)
          else
            let len = len0 + 4 + m * 3;
                wlen = len mod 256 in
            if i + wlen > length fw then Inl (- EFAULT, b\<lparr>ub := True\<rparr>)
            else
              let (ret, _, b1) = it930x_ctrl_msg IT930X_CMD_FW_SCATTER_WRITE (Some (take wlen (drop i fw)))
                                   None False b in
              if ret \<noteq> 0 then Inl (ret, b1) else Inr (i + len, b1))"

fun load_fw_loop :: "nat \<Rightarrow> u8 list \<Rightarrow> nat \<Rightarrow> 'd it930x_bridge \<Rightarrow> (int \<times> 'd it930x_bridge) option" where
  "load_fw_loop 0 fw i b = None"
| "load_fw_loop (Suc fuel) fw i b =
     (if i \<ge> length fw then Some (0, b)
      else case fw_block fw i b of
             Inl res \<Rightarrow> Some res
           | Inr (i', b') \<Rightarrow> load_fw_loop fuel fw i' b')"

definition fw_boot :: "'d it930x_bridge call" where
  "fw_boot b =
     (let (ret, _, b1) = it930x_ctrl_msg IT930X_CMD_BOOT None None False b in
      if ret \<noteq> 0 then (ret, b1)
      else
        let (ret, ver, b2) = it930x_read_firmware_version b1 in
        if ret \<noteq> 0 then (ret, b2) else if ver = 0 then (- EIO, b2) else (0, b2))"

text \<open>\<open>request\<close> is the result of \<^verbatim>\<open>request_firmware\<close>: an error or the image.\<close>

definition it930x_load_firmware ::
    "nat \<Rightarrow> int + u8 list \<Rightarrow> 'd it930x_bridge \<Rightarrow> (int \<times> 'd it930x_bridge) option" where
  "it930x_load_firmware fuel request b =
     (let (ret, ver, b1) = it930x_read_firmware_version b in
      if ret \<noteq> 0 then Some (ret, b1)
      else if ver \<noteq> 0 then Some (0, b1)
      else
        let (ret, b2) = it930x_write_reg 0xf103 (i2c_speed (it_config b1)) b1 in
        if ret \<noteq> 0 then Some (ret, b2)
        else case request of
               Inl e \<Rightarrow> Some (e, b2)
             | Inr fw \<Rightarrow> (case load_fw_loop fuel fw 0 b2 of
                            None \<Rightarrow> None
                          | Some (ret, b3) \<Rightarrow> if ret \<noteq> 0 then Some (ret, b3) else Some (fw_boot b3)))"

section \<open>Configuration\<close>

definition i2c_regs :: "(u32 \<times> u32) list" where
  "i2c_regs = [(0x4975, 0x4971), (0x4974, 0x4970), (0x4973, 0x496f), (0x4972, 0x496e), (0x4964, 0x4963)]"

definition raise_ub :: "'d it930x_bridge call" where
  "raise_ub b = (- EFAULT, b\<lparr>ub := True\<rparr>)"

definition config_i2c_input :: "it930x_stream_input \<Rightarrow> 'd it930x_bridge call" where
  "config_i2c_input inp =
     (if \<not> si_enable inp then run_all []
      else if unat (si_slave_number inp) \<ge> 5 then raise_ub
      else run_all
        [it930x_write_reg (fst (i2c_regs ! unat (si_slave_number inp))) (push_bit 1 (si_i2c_addr inp)),
         it930x_write_reg (snd (i2c_regs ! unat (si_slave_number inp))) (si_i2c_bus inp)])"

definition it930x_config_i2c :: "'d it930x_bridge call" where
  "it930x_config_i2c b = run_all
     ([it930x_write_reg 0xf6a7 (i2c_speed (it_config b)), it930x_write_reg 0xf103 (i2c_speed (it_config b))] @
      map config_i2c_input (config_input (it_config b))) b"

definition config_stream_one :: "it930x_stream_input \<Rightarrow> 'd it930x_bridge call" where
  "config_stream_one inp =
     (let port = ucast (si_port_number inp) :: u32 in
      if \<not> si_enable inp then it930x_write_reg (0xda4c + port) 0
      else run_all
        ((if si_port_number inp < 2 then [it930x_write_reg (0xda58 + port) (if si_is_parallel inp then 1 else 0)]
          else []) @
         [it930x_write_reg (0xda73 + port) 1,
          it930x_write_reg (0xda78 + port) (si_sync_byte inp),
          it930x_write_reg (0xda4c + port) 1]))"

definition it930x_config_stream_input :: "'d it930x_bridge call" where
  "it930x_config_stream_input b = run_each config_stream_one (config_input (it_config b)) b"

definition config_usb_output :: "'d it930x_bridge call" where
  "config_usb_output b =
     (let x = ucast ((xfer_size (it_config b)) div 4) :: u16 in
      run_all
        [it930x_write_reg_mask 0xdd11 0x00 0x20,
         it930x_write_reg_mask 0xdd13 0x00 0x20,
         it930x_write_reg_mask 0xdd11 0x20 0x20,
         it930x_write_regs 0xdd88 [lo8 x, hi8 x],
         it930x_write_reg 0xdd0c (of_nat (max_bulk_size b div 4)),
         it930x_write_reg_mask 0xda05 0x00 0x01,
         it930x_write_reg_mask 0xda06 0x00 0x01] b)"

definition it930x_config_stream_output :: "'d it930x_bridge call" where
  "it930x_config_stream_output b =
     (let (ret, b1) = it930x_write_reg_mask 0xda1d 0x01 0x01 b in
      if ret \<noteq> 0 then (ret, b1)
      else
        let (ret, b2) = (if it_bus_type b1 = ITEDTV_BUS_USB then config_usb_output b1 else (0, b1));
            (_, b3) = it930x_write_reg_mask 0xda1d 0x00 0x01 b2;
            (ret2, b4) = it930x_write_reg 0xd920 0 b3
        in (if ret \<noteq> 0 then ret else ret2, b4))"

definition it930x_init :: "bool \<Rightarrow> bool \<Rightarrow> 'd it930x_bridge call" where
  "it930x_init kzalloc_ok kmalloc_ok b =
     (if \<not> kzalloc_ok \<or> \<not> kmalloc_ok then (- ENOMEM, b)
      else (0, b\<lparr>it_seq := 0,
                 gpio_status := replicate 16 \<lparr>gs_enable = False, gs_mode = IT930X_GPIO_UNDEFINED\<rparr>\<rparr>))"

definition it930x_init_warm :: "'d it930x_bridge call" where
  "it930x_init_warm b =
     (if it_bus_type b \<noteq> ITEDTV_BUS_USB then (- EINVAL, b)
      else run_all
        [it930x_write_reg 0x4976 0, it930x_write_reg 0x4bfb 0, it930x_write_reg 0x4978 0,
         it930x_write_reg 0x4977 0, it930x_write_reg 0xda1a 0,
         it930x_write_reg_mask 0xf41f 0x04 0x04, it930x_write_reg_mask 0xda10 0x00 0x01,
         it930x_write_reg_mask 0xf41a 0x01 0x01,
         it930x_config_stream_output,
         it930x_write_reg 0xd833 1, it930x_write_reg 0xd830 0, it930x_write_reg 0xd831 1,
         it930x_write_reg 0xd832 0,
         it930x_config_i2c,
         it930x_config_stream_input] b)"

section \<open>GPIO\<close>

definition gpio_en_regs :: "u32 list" where
  "gpio_en_regs = [0xd8b0, 0xd8b8, 0xd8b4, 0xd8c0, 0xd8bc, 0xd8c8, 0xd8c4, 0xd8d0,
                   0xd8cc, 0xd8d8, 0xd8d4, 0xd8e0, 0xd8dc, 0xd8e4, 0xd8e8, 0xd8ec]"

definition gpio_on_regs :: "u32 list" where
  "gpio_on_regs = [0xd8b1, 0xd8b9, 0xd8b5, 0xd8c1, 0xd8bd, 0xd8c9, 0xd8c5, 0xd8d1,
                   0xd8cd, 0xd8d9, 0xd8d5, 0xd8e1, 0xd8dd, 0xd8e5, 0xd8e9, 0xd8ed]"

definition gpio_i_regs :: "u32 list" where
  "gpio_i_regs = [0xd8ae, 0xd8b6, 0xd8b2, 0xd8be, 0xd8ba, 0xd8c6, 0xd8c2, 0xd8ce,
                  0xd8ca, 0xd8d6, 0xd8d2, 0xd8de, 0xd8da, 0xd8e2, 0xd8e6, 0xd8ea]"

definition gpio_o_regs :: "u32 list" where
  "gpio_o_regs = [0xd8af, 0xd8b7, 0xd8b3, 0xd8bf, 0xd8bb, 0xd8c7, 0xd8c3, 0xd8cf,
                  0xd8cb, 0xd8d7, 0xd8d3, 0xd8df, 0xd8db, 0xd8e3, 0xd8e7, 0xd8eb]"

text \<open>GPIO numbers count from 1; \<open>gpio_pin\<close> is the index behind a valid one.\<close>

definition gpio_pin :: "int \<Rightarrow> nat option" where
  "gpio_pin gpio = (if gpio \<le> 0 \<or> gpio > 16 then None else Some (nat (gpio - 1)))"

definition set_gpio :: "nat \<Rightarrow> (it930x_gpio_state \<Rightarrow> it930x_gpio_state) \<Rightarrow> 'd it930x_bridge \<Rightarrow> 'd it930x_bridge" where
  "set_gpio i f b = b\<lparr>gpio_status := (gpio_status b)[i := f (gpio_status b ! i)]\<rparr>"

definition gpio_mode_val :: "it930x_gpio_mode \<Rightarrow> u8 option" where
  "gpio_mode_val md =
     (case md of IT930X_GPIO_IN \<Rightarrow> Some 0 | IT930X_GPIO_OUT \<Rightarrow> Some 1 | IT930X_GPIO_UNDEFINED \<Rightarrow> None)"

definition it930x_set_gpio_mode :: "int \<Rightarrow> it930x_gpio_mode \<Rightarrow> bool \<Rightarrow> 'd it930x_bridge call" where
  "it930x_set_gpio_mode gpio md enable b =
     (case (gpio_pin gpio, gpio_mode_val md) of
        (Some i, Some val) \<Rightarrow>
          let (ret, b1) = (if gs_mode (gpio_status b ! i) \<noteq> md then
                             let (ret, b1) = it930x_write_reg (gpio_en_regs ! i) val b in
                             if ret \<noteq> 0 then (ret, b1) else (0, set_gpio i (\<lambda>g. g\<lparr>gs_mode := md\<rparr>) b1)
                           else (0, b)) in
          if ret \<noteq> 0 then (ret, b1)
          else if \<not> enable \<or> gs_enable (gpio_status b1 ! i) then (0, b1)
          else
            let (ret, b2) = it930x_write_reg (gpio_en_regs ! i + 1) 1 b1 in
            (ret, if ret = 0 then set_gpio i (\<lambda>g. g\<lparr>gs_enable := True\<rparr>) b2 else b2)
      | _ \<Rightarrow> (- EINVAL, b))"

definition it930x_enable_gpio :: "int \<Rightarrow> bool \<Rightarrow> 'd it930x_bridge call" where
  "it930x_enable_gpio gpio enable b =
     (case gpio_pin gpio of
        None \<Rightarrow> (- EINVAL, b)
      | Some i \<Rightarrow>
          if gs_enable (gpio_status b ! i) = enable then (0, b)
          else
            let (ret, b1) = it930x_write_reg (gpio_on_regs ! i) (if enable then 1 else 0) b in
            (ret, if ret = 0 then set_gpio i (\<lambda>g. g\<lparr>gs_enable := enable\<rparr>) b1 else b1))"

definition it930x_read_gpio :: "int \<Rightarrow> bool \<Rightarrow> 'd it930x_bridge \<Rightarrow> int \<times> bool \<times> 'd it930x_bridge" where
  "it930x_read_gpio gpio high b =
     (case gpio_pin gpio of
        None \<Rightarrow> (- EINVAL, high, b)
      | Some i \<Rightarrow>
          if gs_mode (gpio_status b ! i) = IT930X_GPIO_IN then
            let (ret, tmp, b1) = it930x_read_reg (gpio_i_regs ! i) (junk (it_bus b)) b in
            (ret, if ret = 0 then tmp \<noteq> 0 else high, b1)
          else (- EINVAL, high, b))"

definition it930x_write_gpio :: "int \<Rightarrow> bool \<Rightarrow> 'd it930x_bridge call" where
  "it930x_write_gpio gpio high b =
     (case gpio_pin gpio of
        None \<Rightarrow> (- EINVAL, b)
      | Some i \<Rightarrow>
          if gs_mode (gpio_status b ! i) = IT930X_GPIO_OUT
          then it930x_write_reg (gpio_o_regs ! i) (if high then 1 else 0) b
          else (- EINVAL, b))"

section \<open>The PID filter\<close>

definition remap_mode_regs :: "u32 list" where
  "remap_mode_regs = [0xda13, 0xda25, 0xda29, 0xda2d, 0xda7f]"

definition pid_index_regs :: "u32 list" where
  "pid_index_regs = [0xda15, 0xda26, 0xda2a, 0xda2e, 0xda80]"

definition set_one_pid :: "nat \<Rightarrow> u16 list \<Rightarrow> nat \<Rightarrow> 'd it930x_bridge call" where
  "set_one_pid port pids i =
     (if i \<ge> length pids then raise_ub
      else run_all
        [it930x_write_regs 0xda16 [lo8 (pids ! i), hi8 (pids ! i)],
         it930x_write_reg 0xda14 1,
         it930x_write_reg (pid_index_regs ! port) (of_nat i)])"

definition it930x_set_pid_filter :: "int \<Rightarrow> it930x_pid_filter option \<Rightarrow> 'd it930x_bridge call" where
  "it930x_set_pid_filter input_idx filt b =
     (if input_idx < 0 \<or> input_idx > 4 then (- EINVAL, b)
      else
        let port = unat (si_port_number (config_input (it_config b) ! nat input_idx)) in
        if port \<ge> 5 then raise_ub b
        else case filt of
          Some f \<Rightarrow>
            if pf_num f = 0 then
              run_all [it930x_write_reg (remap_mode_regs ! port) 0, it930x_write_reg (0xda73 + of_nat port) 1] b
            else run_all
              (map (set_one_pid port (pf_pid f)) [0..<nat (pf_num f)] @
               [it930x_write_reg (remap_mode_regs ! port) (if pf_block f then 0 else 2),
                it930x_write_reg (0xda73 + of_nat port) 3,
                it930x_write_regs (0xda81 + of_nat (port * 2)) [0, 0]]) b
        | None \<Rightarrow>
            run_all [it930x_write_reg (remap_mode_regs ! port) 0, it930x_write_reg (0xda73 + of_nat port) 1] b)"

definition it930x_purge_psb :: "bool \<Rightarrow> int \<Rightarrow> 'd it930x_bridge call" where
  "it930x_purge_psb kmalloc_ok timeout b =
     (if it_bus_type b \<noteq> ITEDTV_BUS_USB then (- EINVAL, b)
      else
        let (ret, b1) = it930x_write_reg_mask 0xda1d 0x01 0x01 b in
        if ret \<noteq> 0 then (ret, b1)
        else if \<not> kmalloc_ok then (- ENOMEM, b1)
        else
          let (ret, data, b2) = itedtv_bus_stream_rx 1024 timeout b1;
              (_, b3) = it930x_write_reg_mask 0xda1d 0x00 0x01 b2
          in (if length data = 512 then 0 else ret, b3))"

section \<open>The card reader's UART\<close>

abbreviation (input) IT930X_REG_UART_REALSEND :: u32 where "IT930X_REG_UART_REALSEND \<equiv> 0x4965"
abbreviation (input) IT930X_REG_UART_RX_READY :: u32 where "IT930X_REG_UART_RX_READY \<equiv> 0x496a"
abbreviation (input) IT930X_REG_UART_RX_LENGTH :: u32 where "IT930X_REG_UART_RX_LENGTH \<equiv> 0x496b"

definition ctrl_write :: "u16 \<Rightarrow> u8 list \<Rightarrow> 'd it930x_bridge call" where
  "ctrl_write cmd payload b = (let (ret, _, b1) = it930x_ctrl_msg cmd (Some payload) None False b in (ret, b1))"

definition it930x_set_uart_baudrate :: "u32 \<Rightarrow> 'd it930x_bridge call" where
  "it930x_set_uart_baudrate baudrate b =
     (if baudrate = 9600 then ctrl_write IT930X_CMD_UART_SET_BAUDRATE [0] b
      else if baudrate = 19200 then ctrl_write IT930X_CMD_UART_SET_BAUDRATE [1] b
      else if baudrate = 38400 then ctrl_write IT930X_CMD_UART_SET_BAUDRATE [0xef] b
      else (- EINVAL, b))"

definition it930x_bcas_init :: "'d it930x_bridge call" where
  "it930x_bcas_init = run_all
     [ctrl_write IT930X_CMD_UART_SET_MODE [1], it930x_set_gpio_mode 6 IT930X_GPIO_IN True]"

definition it930x_bcas_reset_card :: "'d it930x_bridge call" where
  "it930x_bcas_reset_card = run_all
     [it930x_set_gpio_mode 14 IT930X_GPIO_OUT True,
      it930x_write_gpio 14 False,
      it930x_write_reg 0x7904 2,
      it930x_set_uart_baudrate 9600,
      it930x_write_gpio 14 True]"

definition it930x_bcas_check_ready :: "bool \<Rightarrow> 'd it930x_bridge \<Rightarrow> int \<times> bool \<times> 'd it930x_bridge" where
  "it930x_bcas_check_ready ready b =
     (let (ret, v, b1) = it930x_read_reg IT930X_REG_UART_RX_READY (junk (it_bus b)) b in
      if ret \<noteq> 0 then (ret, ready, b1) else (0, v \<noteq> 0, b1))"

text \<open>\<open>room\<close> is the space left; the bytes stored in the buffer are returned, also with an error.\<close>

function bcas_get_loop :: "nat \<Rightarrow> 'd it930x_bridge \<Rightarrow> int \<times> u8 list \<times> 'd it930x_bridge" where
  "bcas_get_loop room b =
     (if room = 0 then (0, [], b)
      else
        let (ret, avail, b1) = it930x_read_reg IT930X_REG_UART_RX_LENGTH (junk (it_bus b)) b in
        if ret \<noteq> 0 then (ret, [], b1)
        else if avail = 0 then (0, [], b1)
        else
          let n = min (min (unat avail) 32) room;
              (ret, data, b2) = it930x_ctrl_msg IT930X_CMD_UART_READ (Some [of_nat n]) (Some n) False b1 in
          if ret \<noteq> 0 then (ret, [], b2)
          else if length data \<noteq> n then (- EBADMSG, data, b2)
          else let (ret, rest, b3) = bcas_get_loop (room - n) b2 in (ret, data @ rest, b3))"
  by pat_completeness auto

definition it930x_bcas_get_data :: "u8 \<Rightarrow> 'd it930x_bridge \<Rightarrow> int \<times> u8 list \<times> 'd it930x_bridge" where
  "it930x_bcas_get_data cap b = (if cap = 0 then (- EINVAL, [], b) else bcas_get_loop (unat cap) b)"

text \<open>\<open>buf\<close> is what is left to send.\<close>

function bcas_send_loop :: "u8 list \<Rightarrow> 'd it930x_bridge call" where
  "bcas_send_loop buf b =
     (if buf = [] then (0, b)
      else
        let n = (if length buf < 48 then length buf else 48);
            (ret, b1) = (if n = length buf then it930x_write_reg IT930X_REG_UART_REALSEND 1 b else (0, b)) in
        if ret \<noteq> 0 then (ret, b1)
        else
          let (ret, b2) = ctrl_write IT930X_CMD_UART_WRITE (of_nat n # take n buf) b1 in
          if ret \<noteq> 0 then (ret, b2) else bcas_send_loop (drop n buf) b2)"
  by pat_completeness auto

definition it930x_bcas_send_data :: "u8 list \<Rightarrow> 'd it930x_bridge call" where
  "it930x_bcas_send_data buf b = (if buf = [] then (- EINVAL, b) else bcas_send_loop buf b)"

definition it930x_bcas_detect_card :: "bool \<Rightarrow> 'd it930x_bridge \<Rightarrow> int \<times> bool \<times> 'd it930x_bridge" where
  "it930x_bcas_detect_card detected b =
     (let (ret, det, b1) = it930x_read_gpio 6 detected b in
      if ret \<noteq> 0 then (ret, det, b1) else (0, \<not> det, b1))"

definition it930x_bcas_set_baudrate :: "u32 \<Rightarrow> 'd it930x_bridge call" where
  "it930x_bcas_set_baudrate = it930x_set_uart_baudrate"

termination bcas_get_loop
  by (relation "measure (\<lambda>(room, b). room)") (auto simp: unat_gt_0)

termination bcas_send_loop
  by (relation "measure (\<lambda>(buf, b). length buf)") auto

end
