(* ===== verification/It930x_Props.thy ===== *)
theory It930x_Props
  imports It930x
begin

text \<open>
  What the bridge driver guarantees: the framing of messages, the effect of register writes on a
  device that follows the protocol, the GPIO cache, the firmware loader and the card reader's UART.
\<close>

section \<open>What a control message changes\<close>

definition payload_of :: "u8 list option \<Rightarrow> u8 list" where
  "payload_of w = (case w of None \<Rightarrow> [] | Some p \<Rightarrow> p)"

text \<open>Everything a message leaves alone: all but the device, the sequence number and the two ghosts.\<close>

definition same_bridge :: "'d it930x_bridge \<Rightarrow> 'd it930x_bridge \<Rightarrow> bool" where
  "same_bridge b c \<longleftrightarrow> it_bus c = it_bus b \<and> it_bus_type c = it_bus_type b \<and> ctrl_timeout c = ctrl_timeout b \<and>
     max_bulk_size c = max_bulk_size b \<and> it_config c = it_config b \<and> gpio_status c = gpio_status b"

lemma same_bridge_refl [simp]: "same_bridge b b"
  by (simp add: same_bridge_def)

lemma same_bridge_trans: "same_bridge b c \<Longrightarrow> same_bridge c d \<Longrightarrow> same_bridge b d"
  by (simp add: same_bridge_def)

lemma of_nat_len_zero: "n \<le> 250 \<Longrightarrow> (of_nat (4 + 2 + n) :: u8) = 0 \<longleftrightarrow> n = 250"
proof -
  assume "n \<le> 250"
  then have "unat (of_nat (4 + 2 + n) :: u8) = (6 + n) mod 256" by (simp only: unat_of_nat) simp
  moreover have "(6 + n) mod 256 = 0 \<longleftrightarrow> n = 250" using \<open>n \<le> 250\<close> by (cases "n = 250") simp_all
  ultimately show ?thesis by (metis unat_eq_zero)
qed

lemma ctrl_tx_same: "itedtv_bus_ctrl_tx buf b = (ret, b') \<Longrightarrow>
    same_bridge b b' \<and> clog b' = clog b \<and> ub b' = ub b \<and> it_seq b' = it_seq b"
  by (auto simp: itedtv_bus_ctrl_tx_def same_bridge_def split: if_splits prod.splits)

lemma ctrl_rx_same: "itedtv_bus_ctrl_rx n b = (ret, data, b') \<Longrightarrow>
    same_bridge b b' \<and> clog b' = clog b \<and> ub b' = ub b \<and> it_seq b' = it_seq b"
  by (auto simp: itedtv_bus_ctrl_rx_def same_bridge_def split: if_splits prod.splits)

lemma ctrl_log_same [simp]: "same_bridge b (ctrl_log c p r d) \<longleftrightarrow> same_bridge b d" "ub (ctrl_log c p r d) = ub d"
  "clog (ctrl_log c p r d) = clog d @ [(c, p, r)]" "it_seq (ctrl_log c p r d) = it_seq d"
  by (simp_all add: ctrl_log_def same_bridge_def)

lemma ctrl_msg_same:
  assumes "it930x_ctrl_msg cmd w rcap no_rx b = (ret, out, b')"
  shows "same_bridge b b'"
  using assms unfolding it930x_ctrl_msg_def Let_def
  by (auto split: if_splits prod.splits dest!: ctrl_tx_same ctrl_rx_same
      simp: same_bridge_def ctrl_log_def)

text \<open>A message that fits is logged once, with the result the caller sees.\<close>

lemma ctrl_msg_log:
  assumes "it930x_ctrl_msg cmd w rcap no_rx b = (ret, out, b')" "length (payload_of w) < 250"
  shows "clog b' = clog b @ [(cmd, payload_of w, ret)] \<and> ub b' = ub b \<and> it_seq b' = it_seq b + 1"
proof -
  have "(of_nat (4 + 2 + length (payload_of w)) :: u8) \<noteq> 0" using of_nat_len_zero assms(2) by simp
  then show ?thesis
    using assms unfolding it930x_ctrl_msg_def Let_def payload_of_def [symmetric]
    by (auto split: if_splits prod.splits dest!: ctrl_tx_same ctrl_rx_same)
qed

lemma ctrl_msg_not_sent:
  assumes "it930x_ctrl_msg cmd w rcap no_rx b = (ret, out, b')" "250 \<le> length (payload_of w)"
  shows "clog b' = clog b \<and> ret \<noteq> 0"
  using assms of_nat_len_zero [of "length (payload_of w)"]
  unfolding it930x_ctrl_msg_def Let_def payload_of_def [symmetric]
  by (cases "length (payload_of w) = 250") (auto simp del: of_nat_add)

text \<open>A control message stays inside its 256 byte buffer for every payload but one of exactly 250 bytes:
  the test admits that length, the 8-bit total wraps to 0 and the checksum is computed and stored
  outside the buffer. A register write of 244 bytes, which its own test admits, is such a message.\<close>

theorem it930x_ctrl_msg_bound:
  "(ub (snd (snd (it930x_ctrl_msg cmd (Some p) rcap no_rx b))) \<longleftrightarrow> ub b \<or> length p = 250) \<and>
   (ub (snd (it930x_write_regs reg vs b)) \<longleftrightarrow> ub b \<or> length vs = 244)"
proof -
  have m: "ub (snd (snd (it930x_ctrl_msg cmd (Some p) rcap no_rx b))) \<longleftrightarrow> ub b \<or> length p = 250" for cmd p rcap no_rx
  proof -
    obtain ret out b' where m: "it930x_ctrl_msg cmd (Some p) rcap no_rx b = (ret, out, b')" using prod_cases3 by blast
    consider "length p < 250" | "length p = 250" | "length p > 250" by linarith
    then show ?thesis
    proof cases
      case 1
      then show ?thesis using ctrl_msg_log [OF m] m by (simp add: payload_of_def)
    next
      case 2
      then have "(of_nat (4 + 2 + length p) :: u8) = 0" using of_nat_len_zero by simp
      then show ?thesis using 2 by (simp add: it930x_ctrl_msg_def del: of_nat_add)
    next
      case 3
      then show ?thesis by (simp add: it930x_ctrl_msg_def)
    qed
  qed
  have "ub (snd (it930x_write_regs reg vs b)) \<longleftrightarrow> ub b \<or> length vs = 244"
  proof (cases "vs = [] \<or> length vs > 244")
    case True
    then show ?thesis by (auto simp: it930x_write_regs_def)
  next
    case False
    let ?p = "[of_nat (length vs), it930x_reg_length reg] @ reg_bytes reg @ vs"
    have "length ?p = length vs + 6" by (simp add: reg_bytes_def)
    then show ?thesis using False m [of IT930X_CMD_REG_WRITE ?p None False]
      by (auto simp: it930x_write_regs_def split: prod.splits)
  qed
  then show ?thesis using m by blast
qed

section \<open>Register writes in the log\<close>

text \<open>The register and the value of a successful one-byte register write, and the last one to a register.\<close>

definition reg_write_of :: "u16 \<times> u8 list \<times> int \<Rightarrow> (u32 \<times> u8) option" where
  "reg_write_of e =
     (case e of (cmd, p, ret) \<Rightarrow>
        if cmd = IT930X_CMD_REG_WRITE \<and> ret = 0 \<and> length p = 7
        then Some (be32 (p ! 2) (p ! 3) (p ! 4) (p ! 5), p ! 6) else None)"

definition last_write :: "u32 \<Rightarrow> (u16 \<times> u8 list \<times> int) list \<Rightarrow> u8 option" where
  "last_write reg log =
     fold (\<lambda>e acc. case reg_write_of e of Some (r, v) \<Rightarrow> if r = reg then Some v else acc | None \<Rightarrow> acc) log None"

lemma last_write_Nil [simp]: "last_write reg [] = None"
  by (simp add: last_write_def)

lemma last_write_snoc [simp]: "last_write reg (log @ [e]) =
    (case reg_write_of e of Some (r, v) \<Rightarrow> if r = reg then Some v else last_write reg log
     | None \<Rightarrow> last_write reg log)"
  by (simp add: last_write_def split: option.splits)

text \<open>
  A write whose result is an error may still have reached the chip (its reply was lost) or not.
  \<open>may_hold\<close> is the set of values the register can hold after a log: an acknowledged write leaves
  one, an unacknowledged one adds its own. \<open>last_acked\<close> says that the latest attempt to write the
  register, if any, was acknowledged.
\<close>

definition reg_attempt_of :: "u16 \<times> u8 list \<times> int \<Rightarrow> (u32 \<times> u8) option" where
  "reg_attempt_of e = reg_write_of (fst e, fst (snd e), 0)"

definition may_hold :: "u32 \<Rightarrow> (u16 \<times> u8 list \<times> int) list \<Rightarrow> u8 option set" where
  "may_hold reg log =
     fold (\<lambda>e acc. case reg_attempt_of e of
         Some (r, v) \<Rightarrow> if r = reg then (if snd (snd e) = 0 then {Some v} else insert (Some v) acc) else acc
       | None \<Rightarrow> acc) log {None}"

definition last_acked :: "u32 \<Rightarrow> (u16 \<times> u8 list \<times> int) list \<Rightarrow> bool" where
  "last_acked reg log =
     fold (\<lambda>e acc. case reg_attempt_of e of
         Some (r, v) \<Rightarrow> if r = reg then snd (snd e) = 0 else acc
       | None \<Rightarrow> acc) log True"

lemma last_acked_snoc [simp]: "last_acked reg [] " "last_acked reg (log @ [e]) =
    (case reg_attempt_of e of Some (r, v) \<Rightarrow> if r = reg then snd (snd e) = 0 else last_acked reg log
     | None \<Rightarrow> last_acked reg log)"
  by (simp_all add: last_acked_def split: option.splits)

lemma may_hold_snoc [simp]: "may_hold reg [] = {None}" "may_hold reg (log @ [e]) =
    (case reg_attempt_of e of
       Some (r, v) \<Rightarrow> if r = reg then (if snd (snd e) = 0 then {Some v} else insert (Some v) (may_hold reg log))
                     else may_hold reg log
     | None \<Rightarrow> may_hold reg log)"
  by (simp_all add: may_hold_def split: option.splits)

lemma reg_write_of_attempt: "reg_write_of e = (if snd (snd e) = 0 then reg_attempt_of e else None)"
  by (cases e) (simp add: reg_attempt_of_def reg_write_of_def)

text \<open>When the latest attempt was acknowledged the register holds the last acknowledged value.\<close>

lemma may_hold_acked: "last_acked reg log \<Longrightarrow> may_hold reg log = {last_write reg log}"
proof (induction log rule: rev_induct)
  case (snoc e log)
  then show ?case by (auto simp: reg_write_of_attempt split: option.splits if_splits)
qed simp

lemma be32_reg_bytes [simp]:
  "be32 (ucast (drop_bit 24 reg)) (ucast (drop_bit 16 reg)) (ucast (drop_bit 8 reg)) (ucast (reg :: u32)) = reg"
proof (rule bit_word_eqI)
  fix n assume n: "n < LENGTH(32)"
  then consider "n < 8" | "8 \<le> n" "n < 16" | "16 \<le> n" "n < 24" | "24 \<le> n" "n < 32" by force
  then show "bit (be32 (ucast (drop_bit 24 reg)) (ucast (drop_bit 16 reg)) (ucast (drop_bit 8 reg)) (ucast reg)) n
      \<longleftrightarrow> bit reg n"
    by cases (auto simp: be32_def bit_simps dest: bit_imp_le_length)
qed

lemma length_reg_bytes [simp]: "length (reg_bytes reg) = 4"
  by (simp add: reg_bytes_def)

lemma reg_write_of_message:
  "reg_write_of (cmd, n # l # reg_bytes reg @ [v], ret) =
     (if cmd = IT930X_CMD_REG_WRITE \<and> ret = 0 then Some (reg, v) else None)"
  by (simp add: reg_write_of_def reg_bytes_def)

text \<open>A register write changes the log's view of its register alone, and only when it succeeds.\<close>

lemma write_reg_log:
  assumes "it930x_write_reg reg v b = (ret, b')"
  shows "clog b' = clog b @ [(IT930X_CMD_REG_WRITE, [1, it930x_reg_length reg] @ reg_bytes reg @ [v], ret)]"
    "same_bridge b b'" "ub b' = ub b"
    "last_write r (clog b') = (if ret = 0 \<and> r = reg then Some v else last_write r (clog b))"
    "may_hold r (clog b') = (if r \<noteq> reg then may_hold r (clog b)
       else if ret = 0 then {Some v} else insert (Some v) (may_hold r (clog b)))"
proof -
  let ?w = "[1, it930x_reg_length reg] @ reg_bytes reg @ [v]"
  obtain out where m: "it930x_ctrl_msg IT930X_CMD_REG_WRITE (Some ?w) None False b = (ret, out, b')"
    using assms by (auto simp: it930x_write_reg_def it930x_write_regs_def split: prod.splits)
  show c: "clog b' = clog b @ [(IT930X_CMD_REG_WRITE, ?w, ret)]" and "ub b' = ub b"
    using ctrl_msg_log [OF m] by (simp_all add: payload_of_def)
  show "same_bridge b b'" by (rule ctrl_msg_same [OF m])
  show "last_write r (clog b') = (if ret = 0 \<and> r = reg then Some v else last_write r (clog b))"
    unfolding c by (auto simp: reg_write_of_message)
  show "may_hold r (clog b') = (if r \<noteq> reg then may_hold r (clog b)
       else if ret = 0 then {Some v} else insert (Some v) (may_hold r (clog b)))"
    unfolding c by (auto simp: reg_attempt_of_def reg_write_of_message)
qed

lemma write_reg_status: "it930x_write_reg reg v b = (ret, b') \<Longrightarrow> gpio_status b' = gpio_status b"
  using write_reg_log(2) [of reg v b ret b'] by (simp add: same_bridge_def)

lemma read_reg_log:
  assumes "it930x_read_reg reg old b = (ret, v, b')"
  shows "last_write r (clog b') = last_write r (clog b)" "same_bridge b b'" "ub b' = ub b"
proof -
  let ?w = "[1, it930x_reg_length reg] @ reg_bytes reg"
  obtain out where m: "it930x_ctrl_msg IT930X_CMD_REG_READ (Some ?w) (Some 1) False b = (ret, out, b')"
    using assms by (auto simp: it930x_read_reg_def it930x_read_regs_def split: prod.splits)
  note l = ctrl_msg_log [OF m]
  have "reg_write_of (IT930X_CMD_REG_READ, payload_of (Some ?w), ret) = None" by (simp add: reg_write_of_def)
  then show "last_write r (clog b') = last_write r (clog b)" using l by (simp add: payload_of_def)
  show "same_bridge b b'" by (rule ctrl_msg_same [OF m])
  show "ub b' = ub b" using l by (simp add: payload_of_def)
qed

section \<open>The GPIO cache\<close>

text \<open>The kind of a GPIO register is in its last two address bits.\<close>

lemma gpio_regs_kind:
  "list_all (\<lambda>r. r AND 3 = 0) gpio_en_regs" "list_all (\<lambda>r. r AND 3 = 1) gpio_on_regs"
  "list_all (\<lambda>r. r AND 3 = 3) gpio_o_regs"
  by code_simp+

lemma gpio_regs_inj: "distinct gpio_en_regs" "distinct gpio_on_regs" "map (\<lambda>r. r + 1) gpio_en_regs = gpio_on_regs"
  by code_simp+

lemma gpio_regs_len: "length gpio_en_regs = 16" "length gpio_on_regs = 16" "length gpio_o_regs = 16"
  by (simp_all add: gpio_en_regs_def gpio_on_regs_def gpio_o_regs_def)

lemma gpio_regs_distinct:
  assumes "i < 16" "j < 16"
  shows "gpio_en_regs ! i \<noteq> gpio_on_regs ! j" "gpio_o_regs ! i \<noteq> gpio_en_regs ! j"
    "gpio_o_regs ! i \<noteq> gpio_on_regs ! j" "gpio_en_regs ! i = gpio_en_regs ! j \<longleftrightarrow> i = j"
    "gpio_on_regs ! i = gpio_on_regs ! j \<longleftrightarrow> i = j" "gpio_en_regs ! i + 1 = gpio_on_regs ! i"
proof -
  have d: "distinct gpio_en_regs" "distinct gpio_on_regs" "set gpio_en_regs \<inter> set gpio_on_regs = {}"
    "set gpio_o_regs \<inter> set gpio_en_regs = {}" "set gpio_o_regs \<inter> set gpio_on_regs = {}"
    using gpio_regs_inj gpio_regs_kind by (force simp: list_all_iff)+
  have m: "gpio_en_regs ! i \<in> set gpio_en_regs" "gpio_on_regs ! j \<in> set gpio_on_regs"
    "gpio_o_regs ! i \<in> set gpio_o_regs" "gpio_en_regs ! j \<in> set gpio_en_regs"
    using assms gpio_regs_len by (simp_all add: nth_mem)
  show "gpio_en_regs ! i \<noteq> gpio_on_regs ! j" "gpio_o_regs ! i \<noteq> gpio_en_regs ! j"
    "gpio_o_regs ! i \<noteq> gpio_on_regs ! j"
    using d(3-5) m by (metis disjoint_iff)+
  show "gpio_en_regs ! i = gpio_en_regs ! j \<longleftrightarrow> i = j" "gpio_on_regs ! i = gpio_on_regs ! j \<longleftrightarrow> i = j"
    using d(1,2) assms gpio_regs_len(1,2) by (simp_all add: nth_eq_iff_index_eq)
  show "gpio_en_regs ! i + 1 = gpio_on_regs ! i"
    using gpio_regs_inj(3) gpio_regs_len(1) assms(1) by (metis nth_map)
qed

text \<open>
  The cache tells the truth: a known mode is the value last written to the pin's mode register, and the
  enable flag is the value last written to its enable register (nothing written means disabled).
\<close>

definition pin_ok :: "'d it930x_bridge \<Rightarrow> nat \<Rightarrow> bool" where
  "pin_ok b i \<longleftrightarrow>
     (gs_mode (gpio_status b ! i) \<noteq> IT930X_GPIO_UNDEFINED \<longrightarrow>
        last_write (gpio_en_regs ! i) (clog b) = gpio_mode_val (gs_mode (gpio_status b ! i))) \<and>
     last_write (gpio_on_regs ! i) (clog b) \<in>
       (if gs_enable (gpio_status b ! i) then {Some 1} else {None, Some 0})"

definition gpio_ok :: "'d it930x_bridge \<Rightarrow> bool" where
  "gpio_ok b \<longleftrightarrow> length (gpio_status b) = 16 \<and> (\<forall>i < 16. pin_ok b i)"

lemma gpio_ok_keep:
  assumes "gpio_ok b" "same_bridge b b'"
    "\<And>i. i < 16 \<Longrightarrow> last_write (gpio_en_regs ! i) (clog b') = last_write (gpio_en_regs ! i) (clog b)"
    "\<And>i. i < 16 \<Longrightarrow> last_write (gpio_on_regs ! i) (clog b') = last_write (gpio_on_regs ! i) (clog b)"
  shows "gpio_ok b'"
proof -
  have "gpio_status b' = gpio_status b" using assms(2) by (simp add: same_bridge_def)
  then have "pin_ok b' i" if "i < 16" for i
    using assms(1,3,4) that unfolding gpio_ok_def pin_ok_def by metis
  then show ?thesis using assms(1) \<open>gpio_status b' = gpio_status b\<close> by (simp add: gpio_ok_def)
qed

text \<open>Messages that write no mode and no enable register.\<close>

definition no_gpio_write :: "u16 \<times> u8 list \<times> int \<Rightarrow> bool" where
  "no_gpio_write e \<longleftrightarrow> (\<forall>r v. reg_write_of e = Some (r, v) \<longrightarrow> r \<notin> set gpio_en_regs \<and> r \<notin> set gpio_on_regs)"

lemma gpio_ok_other_message:
  assumes "gpio_ok b" "same_bridge b b'" "clog b' = clog b \<or> clog b' = clog b @ [e]" "no_gpio_write e"
  shows "gpio_ok b'"
proof (rule gpio_ok_keep [OF assms(1,2)])
  fix i :: nat assume "i < 16"
  then have "gpio_en_regs ! i \<in> set gpio_en_regs" "gpio_on_regs ! i \<in> set gpio_on_regs"
    using gpio_regs_len(1,2) by (simp_all add: nth_mem)
  then have "r \<noteq> gpio_en_regs ! i \<and> r \<noteq> gpio_on_regs ! i" if "reg_write_of e = Some (r, v)" for r v
    using assms(4) that unfolding no_gpio_write_def by metis
  then show "last_write (gpio_en_regs ! i) (clog b') = last_write (gpio_en_regs ! i) (clog b)"
    "last_write (gpio_on_regs ! i) (clog b') = last_write (gpio_on_regs ! i) (clog b)"
    using assms(3) by (auto split: option.splits)
qed

lemma gpio_ok_other_msg:
  assumes "gpio_ok b" "it930x_ctrl_msg cmd w rcap no_rx b = (ret, out, b')"
    "no_gpio_write (cmd, payload_of w, ret)"
  shows "gpio_ok b'"
proof -
  have "clog b' = clog b \<or> clog b' = clog b @ [(cmd, payload_of w, ret)]"
    using ctrl_msg_log [OF assms(2)] ctrl_msg_not_sent [OF assms(2)] by (meson not_le)
  then show ?thesis by (rule gpio_ok_other_message [OF assms(1) ctrl_msg_same [OF assms(2)] _ assms(3)])
qed

lemma gpio_ok_other_writes:
  assumes "gpio_ok b" "it930x_write_regs reg vs b = (ret, b')"
    "\<forall>k < length vs. reg + of_nat k \<notin> set gpio_en_regs \<union> set gpio_on_regs"
  shows "gpio_ok b'"
proof (cases "vs = [] \<or> length vs > 250 - 6")
  case True
  then show ?thesis using assms(1,2) by (auto simp: it930x_write_regs_def)
next
  case False
  let ?w = "[of_nat (length vs), it930x_reg_length reg] @ reg_bytes reg @ vs"
  obtain out where m: "it930x_ctrl_msg IT930X_CMD_REG_WRITE (Some ?w) None False b = (ret, out, b')"
    using assms(2) False by (auto simp: it930x_write_regs_def split: prod.splits)
  have "no_gpio_write (IT930X_CMD_REG_WRITE, payload_of (Some ?w), ret)"
  proof (cases "length vs = 1")
    case True
    then obtain v where "vs = [v]" by (cases vs) auto
    then have "reg_write_of (IT930X_CMD_REG_WRITE, payload_of (Some ?w), ret) =
        (if ret = 0 then Some (reg, v) else None)"
      by (simp add: payload_of_def reg_write_of_message)
    moreover have "reg \<notin> set gpio_en_regs \<union> set gpio_on_regs"
      using assms(3) \<open>vs = [v]\<close> by simp
    ultimately show ?thesis by (simp add: no_gpio_write_def)
  next
    case False
    then show ?thesis by (simp add: no_gpio_write_def reg_write_of_def payload_of_def)
  qed
  then show ?thesis by (rule gpio_ok_other_msg [OF assms(1) m])
qed

lemma gpio_ok_other_write:
  assumes "gpio_ok b" "it930x_write_reg reg v b = (ret, b')" "reg \<notin> set gpio_en_regs" "reg \<notin> set gpio_on_regs"
  shows "gpio_ok b'"
  using gpio_ok_other_writes [OF assms(1) assms(2) [unfolded it930x_write_reg_def]] assms(3,4) by simp

lemma gpio_pin_less: "gpio_pin g = Some i \<Longrightarrow> i < 16"
  by (auto simp: gpio_pin_def split: if_splits)

lemma gpio_failed_write:
  assumes "gpio_ok b" "it930x_write_reg reg v b = (ret, b')" "ret \<noteq> 0"
  shows "gpio_ok b'"
  by (rule gpio_ok_keep [OF assms(1) write_reg_log(2) [OF assms(2)]])
    (use assms(3) write_reg_log(4) [OF assms(2)] in auto)

lemma set_gpio_fields [simp]: "clog (set_gpio i f b) = clog b" "gpio_status (set_gpio i f b) = (gpio_status b)[i := f (gpio_status b ! i)]"
  by (simp_all add: set_gpio_def)

lemma gpio_write_mode:
  assumes "gpio_ok b" "i < 16" "it930x_write_reg (gpio_en_regs ! i) v b = (0, b')" "gpio_mode_val md = Some v"
  shows "gpio_ok (set_gpio i (\<lambda>g. g\<lparr>gs_mode := md\<rparr>) b')"
proof -
  note w = write_reg_log(2,4) [OF assms(3)]
  have st: "gpio_status b' = gpio_status b" "length (gpio_status b) = 16"
    using w(1) assms(1) by (simp_all add: same_bridge_def gpio_ok_def)
  have "pin_ok (set_gpio i (\<lambda>g. g\<lparr>gs_mode := md\<rparr>) b') j" if "j < 16" for j
    using assms(1,2,4) that st w(2) gpio_regs_distinct [OF assms(2) that] gpio_regs_distinct [OF that assms(2)]
    by (cases "j = i") (auto simp: gpio_ok_def pin_ok_def)
  then show ?thesis using st by (simp add: gpio_ok_def)
qed

lemma gpio_write_enable:
  assumes "gpio_ok b" "i < 16" "it930x_write_reg (gpio_on_regs ! i) (if en then 1 else 0) b = (0, b')"
  shows "gpio_ok (set_gpio i (\<lambda>g. g\<lparr>gs_enable := en\<rparr>) b')"
proof -
  note w = write_reg_log(2,4) [OF assms(3)]
  have st: "gpio_status b' = gpio_status b" "length (gpio_status b) = 16"
    using w(1) assms(1) by (simp_all add: same_bridge_def gpio_ok_def)
  have "pin_ok (set_gpio i (\<lambda>g. g\<lparr>gs_enable := en\<rparr>) b') j" if "j < 16" for j
    using assms(1,2) that st w(2) gpio_regs_distinct [OF assms(2) that] gpio_regs_distinct [OF that assms(2)]
    by (cases "j = i") (auto simp: gpio_ok_def pin_ok_def)
  then show ?thesis using st by (simp add: gpio_ok_def)
qed

lemma set_gpio_mode_ok:
  assumes "gpio_ok b"
  shows "gpio_ok (snd (it930x_set_gpio_mode gpio md en b))"
proof (cases "gpio_pin gpio")
  case (Some i)
  note i = gpio_pin_less [OF Some]
  show ?thesis
  proof (cases "gpio_mode_val md")
    case None
    then show ?thesis using assms Some by (simp add: it930x_set_gpio_mode_def)
  next
    case v: (Some v)
    obtain r1 b1 where 1: "(if gs_mode (gpio_status b ! i) \<noteq> md then
          let (ret, b1) = it930x_write_reg (gpio_en_regs ! i) v b in
          if ret \<noteq> 0 then (ret, b1) else (0, set_gpio i (\<lambda>g. g\<lparr>gs_mode := md\<rparr>) b1) else (0, b)) = (r1, b1)"
      by fastforce
    have ok1: "gpio_ok b1"
      using 1 assms gpio_write_mode [OF assms i _ v] gpio_failed_write [OF assms]
      by (auto simp: Let_def split: if_splits prod.splits)
    obtain r2 b2 where 2: "it930x_write_reg (gpio_en_regs ! i + 1) 1 b1 = (r2, b2)" by fastforce
    have ok2: "gpio_ok (if r2 = 0 then set_gpio i (\<lambda>g. g\<lparr>gs_enable := True\<rparr>) b2 else b2)"
      using 2 gpio_write_enable [OF ok1 i, of True] gpio_failed_write [OF ok1] gpio_regs_distinct(6) [OF i i] by auto
    show ?thesis using ok1 ok2
      unfolding it930x_set_gpio_mode_def Some v Let_def prod.case option.case 1 [unfolded Let_def] 2 by simp
  qed
qed (use assms in \<open>simp add: it930x_set_gpio_mode_def\<close>)

lemma enable_gpio_ok:
  assumes "gpio_ok b"
  shows "gpio_ok (snd (it930x_enable_gpio gpio en b))"
proof (cases "gpio_pin gpio")
  case (Some i)
  note i = gpio_pin_less [OF Some]
  obtain r b1 where w: "it930x_write_reg (gpio_on_regs ! i) (if en then 1 else 0) b = (r, b1)" by fastforce
  have "gpio_ok (if r = 0 then set_gpio i (\<lambda>g. g\<lparr>gs_enable := en\<rparr>) b1 else b1)"
    using w gpio_write_enable [OF assms i] gpio_failed_write [OF assms w] by auto
  then show ?thesis using assms Some w by (simp add: it930x_enable_gpio_def)
qed (use assms in \<open>simp add: it930x_enable_gpio_def\<close>)

lemma write_gpio_ok:
  assumes "gpio_ok b"
  shows "gpio_ok (snd (it930x_write_gpio gpio high b))"
proof (cases "gpio_pin gpio")
  case (Some i)
  note i = gpio_pin_less [OF Some]
  obtain r b1 where w: "it930x_write_reg (gpio_o_regs ! i) (if high then 1 else 0) b = (r, b1)" by fastforce
  have "gpio_o_regs ! i \<notin> set gpio_en_regs" "gpio_o_regs ! i \<notin> set gpio_on_regs"
    using gpio_regs_distinct(2,3) [OF i] gpio_regs_len(1,2) by (metis in_set_conv_nth)+
  then have "gpio_ok b1" using gpio_ok_other_write [OF assms w] by simp
  then show ?thesis using assms Some w by (simp add: it930x_write_gpio_def)
qed (use assms in \<open>simp add: it930x_write_gpio_def\<close>)

lemma read_gpio_ok:
  assumes "gpio_ok b"
  shows "gpio_ok (snd (snd (it930x_read_gpio gpio high b)))"
proof (cases "gpio_pin gpio")
  case (Some i)
  obtain r v b1 where w: "it930x_read_reg (gpio_i_regs ! i) (junk (it_bus b)) b = (r, v, b1)"
    using prod_cases3 by blast
  have "gpio_ok b1" by (rule gpio_ok_keep [OF assms read_reg_log(2) [OF w]]) (simp_all add: read_reg_log(1) [OF w])
  then show ?thesis using assms Some w by (simp add: it930x_read_gpio_def)
qed (use assms in \<open>simp add: it930x_read_gpio_def\<close>)

text \<open>
  The users of the bridge: the four GPIO calls, writes of any number of registers none of which is a
  GPIO mode or enable register, and every other message (register reads, I2C, firmware and so on; a
  masked write is a read and a write), with a bus that may fail at any time.
\<close>

inductive gpio_step :: "'d it930x_bridge \<Rightarrow> 'd it930x_bridge \<Rightarrow> bool" where
  g_mode: "gpio_step b (snd (it930x_set_gpio_mode gpio md en b))"
| g_enable: "gpio_step b (snd (it930x_enable_gpio gpio en b))"
| g_read: "gpio_step b (snd (snd (it930x_read_gpio gpio high b)))"
| g_write: "gpio_step b (snd (it930x_write_gpio gpio high b))"
| g_regs: "\<forall>k < length vs. reg + of_nat k \<notin> set gpio_en_regs \<union> set gpio_on_regs \<Longrightarrow>
    gpio_step b (snd (it930x_write_regs reg vs b))"
| g_message: "cmd \<noteq> IT930X_CMD_REG_WRITE \<Longrightarrow>
    gpio_step b (snd (snd (it930x_ctrl_msg cmd w rcap no_rx b)))"

lemma gpio_step_ok: "gpio_step b b' \<Longrightarrow> gpio_ok b \<Longrightarrow> gpio_ok b'"
proof (induction rule: gpio_step.induct)
  case (g_regs vs reg b)
  then show ?case using gpio_ok_other_writes [of b reg vs] prod.collapse by metis
next
  case (g_message cmd b w rcap no_rx)
  obtain ret out b' where m: "it930x_ctrl_msg cmd w rcap no_rx b = (ret, out, b')"
    using prod_cases3 by blast
  have "no_gpio_write (cmd, payload_of w, ret)"
    using g_message.hyps by (simp add: no_gpio_write_def reg_write_of_def)
  then show ?case using gpio_ok_other_msg [OF g_message.prems m] m by simp
qed (auto intro: set_gpio_mode_ok enable_gpio_ok read_gpio_ok write_gpio_ok)

lemma gpio_reach_ok: "gpio_step\<^sup>*\<^sup>* b b' \<Longrightarrow> gpio_ok b \<Longrightarrow> gpio_ok b'"
  by (induction rule: rtranclp_induct) (auto intro: gpio_step_ok)

lemma init_gpio_ok: "clog b = [] \<Longrightarrow> it930x_init True True b = (0, b') \<Longrightarrow> gpio_ok b'"
  by (auto simp: it930x_init_def gpio_ok_def pin_ok_def)

lemma set_gpio_mode_success:
  assumes "gpio_ok b" "gpio_pin gpio = Some i" "it930x_set_gpio_mode gpio md en b = (0, b')"
  shows "gs_mode (gpio_status b' ! i) = md \<and> (en \<longrightarrow> gs_enable (gpio_status b' ! i)) \<and> gpio_mode_val md \<noteq> None"
proof (cases "gpio_mode_val md")
  case None
  then show ?thesis using assms(2,3) by (simp add: it930x_set_gpio_mode_def)
next
  case (Some v)
  have len: "i < length (gpio_status b)" using assms(1) gpio_pin_less [OF assms(2)] by (simp add: gpio_ok_def)
  obtain r1 b1 where 1: "(if gs_mode (gpio_status b ! i) \<noteq> md then
        let (ret, b1) = it930x_write_reg (gpio_en_regs ! i) v b in
        if ret \<noteq> 0 then (ret, b1) else (0, set_gpio i (\<lambda>g. g\<lparr>gs_mode := md\<rparr>) b1) else (0, b)) = (r1, b1)"
    by fastforce
  obtain r2 b2 where 2: "it930x_write_reg (gpio_en_regs ! i + 1) 1 b1 = (r2, b2)" by fastforce
  have r: "r1 = 0" using assms(3) 1
    unfolding it930x_set_gpio_mode_def assms(2) Some Let_def prod.case option.case 1 [unfolded Let_def] 2
    by (simp split: if_splits)
  have st1: "gs_mode (gpio_status b1 ! i) = md" "length (gpio_status b1) = length (gpio_status b)"
    using 1 r len by (auto simp: Let_def dest!: write_reg_status split: if_splits prod.splits)
  have st2: "gpio_status b2 = gpio_status b1" using write_reg_log(2) [OF 2] by (simp add: same_bridge_def)
  show ?thesis using assms(3) r st1 st2 len Some
    unfolding it930x_set_gpio_mode_def assms(2) Some Let_def prod.case option.case 1 [unfolded Let_def] 2
    by (auto split: if_splits)
qed

text \<open>What a successful call has done to the registers, from what was cached before it.\<close>

lemma set_gpio_mode_holds:
  assumes "gpio_ok b" "gpio_pin gpio = Some i" "it930x_set_gpio_mode gpio md en b = (0, b')"
  shows "may_hold (gpio_en_regs ! i) (clog b') = (if gs_mode (gpio_status b ! i) \<noteq> md
      then {gpio_mode_val md} else may_hold (gpio_en_regs ! i) (clog b))"
    "may_hold (gpio_on_regs ! i) (clog b') = (if en \<and> \<not> gs_enable (gpio_status b ! i)
      then {Some 1} else may_hold (gpio_on_regs ! i) (clog b))"
    "gs_mode (gpio_status b ! i) = md \<Longrightarrow> (en \<longrightarrow> gs_enable (gpio_status b ! i)) \<Longrightarrow> b' = b"
proof -
  note i = gpio_pin_less [OF assms(2)]
  have len: "i < length (gpio_status b)" using assms(1) i by (simp add: gpio_ok_def)
  obtain v where v: "gpio_mode_val md = Some v"
    using assms(2,3) by (cases "gpio_mode_val md") (simp_all add: it930x_set_gpio_mode_def)
  obtain r1 b1 where 1: "(if gs_mode (gpio_status b ! i) \<noteq> md then
        let (ret, b1) = it930x_write_reg (gpio_en_regs ! i) v b in
        if ret \<noteq> 0 then (ret, b1) else (0, set_gpio i (\<lambda>g. g\<lparr>gs_mode := md\<rparr>) b1) else (0, b)) = (r1, b1)"
    by fastforce
  obtain r2 b2 where 2: "it930x_write_reg (gpio_on_regs ! i) 1 b1 = (r2, b2)" by fastforce
  have on: "gpio_en_regs ! i + 1 = gpio_on_regs ! i" by (rule gpio_regs_distinct(6) [OF i i])
  note eq = assms(3) [unfolded it930x_set_gpio_mode_def assms(2) v Let_def prod.case option.case
      1 [unfolded Let_def] on 2]
  have r1: "r1 = 0" using eq by (simp split: if_splits)
  have en1: "gs_enable (gpio_status b1 ! i) = gs_enable (gpio_status b ! i)"
    using 1 r1 len by (auto simp: Let_def dest!: write_reg_status split: if_splits prod.splits)
  have ne: "gpio_en_regs ! i \<noteq> gpio_on_regs ! i" by (rule gpio_regs_distinct(1) [OF i i])
  have m1: "may_hold (gpio_en_regs ! i) (clog b1) = (if gs_mode (gpio_status b ! i) \<noteq> md
      then {gpio_mode_val md} else may_hold (gpio_en_regs ! i) (clog b))"
    "may_hold (gpio_on_regs ! i) (clog b1) = may_hold (gpio_on_regs ! i) (clog b)"
    using 1 r1 ne v
    by (auto simp: Let_def write_reg_log(5) split: if_splits prod.splits)
  have b': "b' = b1 \<and> (en \<longrightarrow> gs_enable (gpio_status b ! i)) \<or>
      r2 = 0 \<and> en \<and> \<not> gs_enable (gpio_status b ! i) \<and> b' = set_gpio i (\<lambda>g. g\<lparr>gs_enable := True\<rparr>) b2"
    using eq r1 en1 by (auto split: if_splits)
  show "may_hold (gpio_en_regs ! i) (clog b') = (if gs_mode (gpio_status b ! i) \<noteq> md
      then {gpio_mode_val md} else may_hold (gpio_en_regs ! i) (clog b))"
    using b' m1(1) ne write_reg_log(5) [OF 2, of "gpio_en_regs ! i"] by auto
  show "may_hold (gpio_on_regs ! i) (clog b') = (if en \<and> \<not> gs_enable (gpio_status b ! i)
      then {Some 1} else may_hold (gpio_on_regs ! i) (clog b))"
    using b' m1(2) write_reg_log(5) [OF 2, of "gpio_on_regs ! i"] by auto
  show "b' = b" if "gs_mode (gpio_status b ! i) = md" "en \<longrightarrow> gs_enable (gpio_status b ! i)"
    using b' 1 that by auto
qed

text \<open>C19: whatever the bus did before, which calls failed and what was cached, when setting the mode of a
  GPIO pin reports success the last acknowledged write to the pin's mode register is the requested
  value, and the last acknowledged write to its enable register is 1 if enabling was asked for. When
  the mode was not cached, or no write to the mode register has gone unacknowledged since its last
  acknowledged one, the register holds the requested value for certain, and likewise the enable
  register. When the mode (and the enabling, if asked for) was cached the call sends nothing, so that
  after a write that reached the chip but whose reply was lost it reports success although the
  register may hold the other value.\<close>

theorem it930x_gpio_mode_reached:
  assumes "clog b = []" "it930x_init True True b = (0, b0)" "gpio_step\<^sup>*\<^sup>* b0 b1"
    "it930x_set_gpio_mode gpio md en b1 = (0, b2)"
  shows "\<exists>i < 16. gpio = int i + 1 \<and> last_write (gpio_en_regs ! i) (clog b2) = gpio_mode_val md \<and>
    gpio_mode_val md \<noteq> None \<and> (en \<longrightarrow> last_write (gpio_on_regs ! i) (clog b2) = Some 1) \<and>
    (gs_mode (gpio_status b1 ! i) \<noteq> md \<or> last_acked (gpio_en_regs ! i) (clog b1) \<longrightarrow>
       may_hold (gpio_en_regs ! i) (clog b2) = {gpio_mode_val md}) \<and>
    (en \<and> (\<not> gs_enable (gpio_status b1 ! i) \<or> last_acked (gpio_on_regs ! i) (clog b1)) \<longrightarrow>
       may_hold (gpio_on_regs ! i) (clog b2) = {Some 1}) \<and>
    (gs_mode (gpio_status b1 ! i) = md \<and> (en \<longrightarrow> gs_enable (gpio_status b1 ! i)) \<longrightarrow> b2 = b1)"
proof -
  have ok: "gpio_ok b1" by (rule gpio_reach_ok [OF assms(3) init_gpio_ok [OF assms(1,2)]])
  obtain i where i: "gpio_pin gpio = Some i"
    using assms(4) by (cases "gpio_pin gpio") (simp_all add: it930x_set_gpio_mode_def)
  have ok2: "gpio_ok b2" using set_gpio_mode_ok [OF ok, of gpio md en] assms(4) by simp
  note s = set_gpio_mode_success [OF ok i assms(4)] and h = set_gpio_mode_holds [OF ok i assms(4)]
  note l = gpio_pin_less [OF i]
  have p: "pin_ok b1 i" "pin_ok b2 i" using ok ok2 l by (simp_all add: gpio_ok_def)
  have u: "md \<noteq> IT930X_GPIO_UNDEFINED" using s by (auto simp: gpio_mode_val_def)
  have "gpio = int i + 1" using i by (auto simp: gpio_pin_def split: if_splits)
  moreover have "last_write (gpio_en_regs ! i) (clog b2) = gpio_mode_val md"
    "en \<longrightarrow> last_write (gpio_on_regs ! i) (clog b2) = Some 1"
    using s p(2) u by (auto simp: pin_ok_def)
  moreover have "gs_mode (gpio_status b1 ! i) \<noteq> md \<or> last_acked (gpio_en_regs ! i) (clog b1) \<longrightarrow>
       may_hold (gpio_en_regs ! i) (clog b2) = {gpio_mode_val md}"
    using h(1) may_hold_acked [of "gpio_en_regs ! i" "clog b1"] p(1) u by (auto simp: pin_ok_def)
  moreover have "en \<and> (\<not> gs_enable (gpio_status b1 ! i) \<or> last_acked (gpio_on_regs ! i) (clog b1)) \<longrightarrow>
       may_hold (gpio_on_regs ! i) (clog b2) = {Some 1}"
    using h(2) may_hold_acked [of "gpio_on_regs ! i" "clog b1"] p(1) by (auto simp: pin_ok_def)
  ultimately show ?thesis using s l h(3) by blast
qed

section \<open>Frames and responses\<close>

text \<open>
  A device that follows the protocol: it answers a frame with the frame's sequence number, status 0, a
  body and a checksum.
\<close>

definition reply :: "u8 \<Rightarrow> u8 list \<Rightarrow> u8 list" where
  "reply seq body =
     (let h = seq # 0 # body; c = it930x_calc_checksum h
      in of_nat (length h + 2) # h @ [hi8 c, lo8 c])"

lemma response_reply:
  "it930x_response seq rcap (reply seq body) = (0, case rcap of None \<Rightarrow> [] | Some n \<Rightarrow> take n body)"
  by (cases rcap) (simp_all add: it930x_response_def reply_def Let_def nth_append min_def)

text \<open>What the receiver of a frame reads: command, sequence number and payload, if the length and the
  checksum are right.\<close>

definition decode_frame :: "u8 list \<Rightarrow> (u16 \<times> u8 \<times> u8 list) option" where
  "decode_frame f =
     (let n = length f in
      if n < 6 \<or> unat (f ! 0) + 1 \<noteq> n \<or>
         it930x_calc_checksum (take (n - 3) (drop 1 f)) \<noteq> be16 (f ! (n - 2)) (f ! (n - 1)) then None
      else Some (be16 (f ! 1) (f ! 2), f ! 3, take (n - 6) (drop 4 f)))"

lemma decode_it930x_frame:
  assumes "length p < 250"
  shows "decode_frame (it930x_frame cmd seq p) = Some (cmd, seq, p)"
proof -
  have "unat (of_nat (5 + length p) :: u8) = 5 + length p"
    using assms by (simp only: unat_of_nat) simp
  then show ?thesis
    by (simp add: decode_frame_def it930x_frame_def Let_def nth_append del: of_nat_add)
qed

text \<open>C17: a control message that succeeds has delivered a frame from which the receiver reads exactly the
  command, the sequence number and the payload, and has returned the body of a reply that carries the
  same sequence number, status 0 and a right checksum, cut to the caller's buffer; each message has its
  own sequence number.\<close>

theorem it930x_ctrl_msg_exchange:
  assumes "it930x_ctrl_msg cmd (Some p) (Some n) False b = (0, out, b')"
  shows "length p < 250 \<and> it_seq b' = it_seq b + 1 \<and>
    (\<exists>f d rsp. decode_frame f = Some (cmd, it_seq b, p) \<and> bulk_out (it_bus b) f (it_dev b) = (0, d) \<and>
      bulk_in (it_bus b) 0x81 256 (ctrl_timeout b) d = (0, rsp, it_dev b') \<and>
      5 \<le> length rsp \<and> rsp ! 1 = it_seq b \<and> rsp ! 2 = 0 \<and>
      be16 (rsp ! (length rsp - 2)) (rsp ! (length rsp - 1)) =
        it930x_calc_checksum (take (length rsp - 3) (drop 1 rsp)) \<and>
      out = take (min n (length rsp - 5)) (drop 3 rsp))"
proof -
  have p: "length p < 250"
    using ctrl_msg_not_sent [OF assms] by (cases "length p < 250") (simp_all add: payload_of_def)
  have z: "(of_nat (4 + 2 + length p) :: u8) \<noteq> 0" using of_nat_len_zero p by simp
  let ?f = "it930x_frame cmd (it_seq b) p"
  let ?b0 = "b\<lparr>it_seq := it_seq b + 1\<rparr>"
  obtain r1 b1 where tx: "itedtv_bus_ctrl_tx ?f ?b0 = (r1, b1)" by fastforce
  obtain r2 rsp b2 where rx: "itedtv_bus_ctrl_rx 256 b1 = (r2, rsp, b2)" using prod_cases3 by blast
  obtain r3 o3 where rs: "it930x_response (it_seq b) (Some n) rsp = (r3, o3)" by fastforce
  have not: "\<not> length p > 255 - 3 - 2" using p by simp
  have r: "r1 = 0" "r2 = 0" "r3 = 0" "out = o3" "b' = ctrl_log cmd p 0 b2"
    using assms unfolding it930x_ctrl_msg_def Let_def option.case if_not_P [OF not] if_not_P [OF z] tx prod.case rx rs
    by (auto split: if_splits)
  have f: "?f \<noteq> []" by (simp add: it930x_frame_def Let_def)
  have 1: "bulk_out (it_bus b) ?f (it_dev b) = (0, it_dev b1)" "it_bus b1 = it_bus b" "ctrl_timeout b1 = ctrl_timeout b"
    using tx r(1) f by (auto simp: itedtv_bus_ctrl_tx_def split: if_splits prod.splits)
  have 2: "bulk_in (it_bus b) 0x81 256 (ctrl_timeout b) (it_dev b1) = (0, rsp, it_dev b2)"
    using rx r(2) 1(2,3) by (auto simp: itedtv_bus_ctrl_rx_def split: if_splits prod.splits)
  have 3: "5 \<le> length rsp \<and> rsp ! 1 = it_seq b \<and> rsp ! 2 = 0 \<and>
      be16 (rsp ! (length rsp - 2)) (rsp ! (length rsp - 1)) =
        it930x_calc_checksum (take (length rsp - 3) (drop 1 rsp)) \<and>
      out = take (min n (length rsp - 5)) (drop 3 rsp)"
    using rs r(3,4) by (auto simp: it930x_response_def Let_def eval_nat_numeral split: if_splits)
  have "it_seq b' = it_seq b + 1" using ctrl_msg_log [OF assms] p by (simp add: payload_of_def)
  moreover have "it_dev b' = it_dev b2" by (simp add: r(5) ctrl_log_def)
  ultimately show ?thesis using p decode_it930x_frame [OF p] 1(1) 2 3 by metis
qed

section \<open>A device that keeps registers\<close>

text \<open>
  The register protocol, as the driver relies on it: the firmware accepts well-formed register
  messages, stores what is written and reports what is stored. \<open>regs\<close> reads the registers off the device.
\<close>

fun store :: "(u32 \<Rightarrow> u8) \<Rightarrow> u32 \<Rightarrow> u8 list \<Rightarrow> u32 \<Rightarrow> u8" where
  "store r reg [] = r"
| "store r reg (v # vs) = store (r(reg := v)) (reg + 1) vs"

definition firmware_ok :: "'d usb_bus \<Rightarrow> ('d \<Rightarrow> u32 \<Rightarrow> u8) \<Rightarrow> bool" where
  "firmware_ok bus regs \<longleftrightarrow>
     (\<forall>seq reg vs d t. vs \<noteq> [] \<and> length vs < 244 \<longrightarrow> (\<exists>d1 d2.
        bulk_out bus (it930x_frame IT930X_CMD_REG_WRITE seq
          ([of_nat (length vs), it930x_reg_length reg] @ reg_bytes reg @ vs)) d = (0, d1) \<and>
        bulk_in bus 0x81 256 t d1 = (0, reply seq [], d2) \<and> regs d2 = store (regs d) reg vs)) \<and>
     (\<forall>seq reg n d t. 0 < n \<and> n \<le> 251 \<longrightarrow> (\<exists>d1 d2.
        bulk_out bus (it930x_frame IT930X_CMD_REG_READ seq
          ([of_nat n, it930x_reg_length reg] @ reg_bytes reg)) d = (0, d1) \<and>
        bulk_in bus 0x81 256 t d1 = (0, reply seq (map (\<lambda>i. regs d (reg + of_nat i)) [0..<n]), d2) \<and>
        regs d2 = regs d))"

text \<open>A message to a device that answers properly.\<close>

lemma ctrl_msg_ok:
  assumes "it_bus_type b = ITEDTV_BUS_USB" "length p < 250"
    "bulk_out (it_bus b) (it930x_frame cmd (it_seq b) p) (it_dev b) = (0, d1)"
    "bulk_in (it_bus b) 0x81 256 (ctrl_timeout b) d1 = (0, reply (it_seq b) body, d2)"
  shows "\<exists>b'. it930x_ctrl_msg cmd (Some p) rcap False b =
      (0, case rcap of None \<Rightarrow> [] | Some n \<Rightarrow> take n body, b') \<and> it_dev b' = d2 \<and> same_bridge b b'"
proof -
  have z: "(of_nat (4 + 2 + length p) :: u8) \<noteq> 0" using of_nat_len_zero assms(2) by simp
  have f: "it930x_frame cmd (it_seq b) p \<noteq> []" by (simp add: it930x_frame_def Let_def)
  let ?b1 = "b\<lparr>it_seq := it_seq b + 1, it_dev := d1\<rparr>"
  have tx: "itedtv_bus_ctrl_tx (it930x_frame cmd (it_seq b) p) (b\<lparr>it_seq := it_seq b + 1\<rparr>) = (0, ?b1)"
    using assms(1,3) f by (simp add: itedtv_bus_ctrl_tx_def)
  have rx: "itedtv_bus_ctrl_rx 256 ?b1 = (0, reply (it_seq b) body, ?b1\<lparr>it_dev := d2\<rparr>)"
    using assms(1,4) by (simp add: itedtv_bus_ctrl_rx_def)
  have not: "\<not> length p > 255 - 3 - 2" using assms(2) by simp
  have "it930x_ctrl_msg cmd (Some p) rcap False b =
      (0, case rcap of None \<Rightarrow> [] | Some n \<Rightarrow> take n body, ctrl_log cmd p 0 (?b1\<lparr>it_dev := d2\<rparr>))"
    unfolding it930x_ctrl_msg_def Let_def option.case if_not_P [OF not] if_not_P [OF z] tx prod.case rx response_reply
    by simp
  then show ?thesis by (simp add: ctrl_log_def same_bridge_def)
qed

lemma write_regs_ok:
  assumes "firmware_ok (it_bus b) regs" "it_bus_type b = ITEDTV_BUS_USB" "vs \<noteq> []" "length vs < 244"
  shows "\<exists>b'. it930x_write_regs reg vs b = (0, b') \<and> regs (it_dev b') = store (regs (it_dev b)) reg vs \<and>
    same_bridge b b'"
proof -
  let ?p = "[of_nat (length vs), it930x_reg_length reg] @ reg_bytes reg @ vs"
  obtain d1 d2 where d: "bulk_out (it_bus b) (it930x_frame IT930X_CMD_REG_WRITE (it_seq b) ?p) (it_dev b) = (0, d1)"
      "bulk_in (it_bus b) 0x81 256 (ctrl_timeout b) d1 = (0, reply (it_seq b) [], d2)"
      "regs d2 = store (regs (it_dev b)) reg vs"
    using assms(1,3,4) unfolding firmware_ok_def by blast
  have "length ?p < 250" using assms(4) by simp
  from ctrl_msg_ok [OF assms(2) this d(1,2), of None]
  show ?thesis using d(3) assms(3,4) by (auto simp: it930x_write_regs_def)
qed

lemma read_reg_ok:
  assumes "firmware_ok (it_bus b) regs" "it_bus_type b = ITEDTV_BUS_USB"
  shows "\<exists>b'. it930x_read_reg reg old b = (0, regs (it_dev b) reg, b') \<and> regs (it_dev b') = regs (it_dev b) \<and>
    same_bridge b b'"
proof -
  let ?p = "[of_nat 1, it930x_reg_length reg] @ reg_bytes reg"
  obtain d1 d2 where d: "bulk_out (it_bus b) (it930x_frame IT930X_CMD_REG_READ (it_seq b) ?p) (it_dev b) = (0, d1)"
      "bulk_in (it_bus b) 0x81 256 (ctrl_timeout b) d1 =
        (0, reply (it_seq b) (map (\<lambda>i. regs (it_dev b) (reg + of_nat i)) [0..<1]), d2)"
      "regs d2 = regs (it_dev b)"
    using conjunct2 [OF assms(1) [unfolded firmware_ok_def], rule_format, of 1 "it_seq b" reg "it_dev b" "ctrl_timeout b"]
    by auto
  have "length ?p < 250" by simp
  from ctrl_msg_ok [OF assms(2) this d(1,2), of "Some 1"]
  show ?thesis using d(3) by (auto simp: it930x_read_reg_def it930x_read_regs_def blit_def)
qed

text \<open>
  Register programs: what a sequence of the driver's register calls means on the register file, and
  that the sequence of calls does exactly that.
\<close>

datatype reg_op = W u32 u8 | Ws u32 "u8 list" | M u32 u8 u8

fun reg_call :: "reg_op \<Rightarrow> 'd it930x_bridge call" where
  "reg_call (W r v) = it930x_write_reg r v"
| "reg_call (Ws r vs) = it930x_write_regs r vs"
| "reg_call (M r v m) = it930x_write_reg_mask r v m"

fun reg_sem :: "reg_op \<Rightarrow> (u32 \<Rightarrow> u8) \<Rightarrow> (u32 \<Rightarrow> u8)" where
  "reg_sem (W r v) f = f(r := v)"
| "reg_sem (Ws r vs) f = store f r vs"
| "reg_sem (M r v m) f = f(r := (f r AND NOT m) OR (v AND m))"

fun reg_op_ok :: "reg_op \<Rightarrow> bool" where
  "reg_op_ok (W r v) = True"
| "reg_op_ok (Ws r vs) = (vs \<noteq> [] \<and> length vs < 244)"
| "reg_op_ok (M r v m) = (m \<noteq> 0)"

lemma reg_call_ok:
  assumes "firmware_ok (it_bus b) regs" "it_bus_type b = ITEDTV_BUS_USB" "reg_op_ok op"
  shows "\<exists>b'. reg_call op b = (0, b') \<and> regs (it_dev b') = reg_sem op (regs (it_dev b)) \<and> same_bridge b b'"
proof (cases op)
  case (W r v)
  then show ?thesis using write_regs_ok [OF assms(1,2), of "[v]" r] by (simp add: it930x_write_reg_def)
next
  case (Ws r vs)
  then show ?thesis using write_regs_ok [OF assms(1,2), of vs r] assms(3) by simp
next
  case (M r v m)
  show ?thesis
  proof (cases "m = 0xff")
    case True
    then have "m = - 1" by simp
    then have "(x AND NOT m) OR (v AND m) = v" for x by simp
    then show ?thesis using M True write_regs_ok [OF assms(1,2), of "[v]" r]
      by (simp add: it930x_write_reg_mask_def it930x_write_reg_def)
  next
    case False
    obtain b1 where r: "it930x_read_reg r (junk (it_bus b)) b = (0, regs (it_dev b) r, b1)"
        "regs (it_dev b1) = regs (it_dev b)" "same_bridge b b1"
      using read_reg_ok [OF assms(1,2)] by blast
    have "firmware_ok (it_bus b1) regs" "it_bus_type b1 = ITEDTV_BUS_USB"
      using r(3) assms by (simp_all add: same_bridge_def)
    from write_regs_ok [OF this, of "[(regs (it_dev b) r AND NOT m) OR (v AND m)]" r]
    show ?thesis using M False assms(3) r same_bridge_trans
      by (auto simp: it930x_write_reg_mask_def it930x_write_reg_def)
  qed
qed

text \<open>C18: on a device that follows the register protocol, a sequence of register writes, multi-byte writes
  and masked writes succeeds and leaves the register file as the sequence says: a masked write replaces
  the masked bits and keeps the others, and no other register changes.\<close>

theorem it930x_register_programs:
  assumes "firmware_ok (it_bus b) regs" "it_bus_type b = ITEDTV_BUS_USB" "list_all reg_op_ok ops"
  shows "\<exists>b'. run_all (map reg_call ops) b = (0, b') \<and> regs (it_dev b') = fold reg_sem ops (regs (it_dev b))"
  using assms
proof (induction ops arbitrary: b)
  case (Cons op ops)
  obtain b1 where 1: "reg_call op b = (0, b1)" "regs (it_dev b1) = reg_sem op (regs (it_dev b))" "same_bridge b b1"
    using reg_call_ok [OF Cons.prems(1,2)] Cons.prems(3) by auto
  have "firmware_ok (it_bus b1) regs" "it_bus_type b1 = ITEDTV_BUS_USB"
    using 1(3) Cons.prems by (simp_all add: same_bridge_def)
  from Cons.IH [OF this] Cons.prems(3) show ?case using 1 by simp
qed simp

section \<open>A device for the witnesses\<close>

text \<open>A register file behind the protocol; other commands are acknowledged.\<close>

definition demo_out :: "u8 list \<Rightarrow> (u32 \<Rightarrow> u8) \<times> u8 list \<Rightarrow> int \<times> (u32 \<Rightarrow> u8) \<times> u8 list" where
  "demo_out f d =
     (let seq = f ! 3; reg = be32 (f ! 6) (f ! 7) (f ! 8) (f ! 9); n = unat (f ! 4) in
      if f ! 2 = 1 then (0, store (fst d) reg (take n (drop 10 f)), reply seq [])
      else if f ! 2 = 0 then (0, fst d, reply seq (map (\<lambda>i. fst d (reg + of_nat i)) [0..<n]))
      else (0, fst d, reply seq []))"

definition demo_bus :: "((u32 \<Rightarrow> u8) \<times> u8 list) usb_bus" where
  "demo_bus = \<lparr> bulk_out = demo_out, bulk_in = (\<lambda>ep n t d. (0, snd d, d)), junk = 0xaa \<rparr>"

definition demo_bridge :: "((u32 \<Rightarrow> u8) \<times> u8 list) it930x_bridge" where
  "demo_bridge = \<lparr> it_dev = (\<lambda>_. 0, []), it_bus = demo_bus, it_bus_type = ITEDTV_BUS_USB, ctrl_timeout = 3000,
     max_bulk_size = 512, it_config = \<lparr> xfer_size = 153408, i2c_speed = 7, config_input = [] \<rparr>, it_seq = 0,
     gpio_status = [], clog = [], ub = False \<rparr>"

lemma unat_of_nat_u8: "n < 256 \<Longrightarrow> unat (of_nat n :: u8) = n"
  by (simp only: unat_of_nat) simp

lemma frame_nth:
  "it930x_frame cmd seq (a # l # reg_bytes reg @ vs) ! 2 = lo8 cmd"
  "it930x_frame cmd seq (a # l # reg_bytes reg @ vs) ! 3 = seq"
  "it930x_frame cmd seq (a # l # reg_bytes reg @ vs) ! 4 = a"
  "be32 (it930x_frame cmd seq (a # l # reg_bytes reg @ vs) ! 6) (it930x_frame cmd seq (a # l # reg_bytes reg @ vs) ! 7)
     (it930x_frame cmd seq (a # l # reg_bytes reg @ vs) ! 8) (it930x_frame cmd seq (a # l # reg_bytes reg @ vs) ! 9) = reg"
  "take (length vs) (drop 10 (it930x_frame cmd seq (a # l # reg_bytes reg @ vs))) = vs"
  by (simp_all add: it930x_frame_def Let_def reg_bytes_def)

lemma demo_firmware_ok: "firmware_ok demo_bus fst"
proof -
  have w: "demo_out (it930x_frame IT930X_CMD_REG_WRITE seq
      ([of_nat (length vs), it930x_reg_length reg] @ reg_bytes reg @ vs)) d = (0, store (fst d) reg vs, reply seq [])"
    if "length vs < 244" for seq vs reg d
    using that by (simp add: demo_out_def Let_def frame_nth unat_of_nat_u8 lo8_def)
  have r: "demo_out (it930x_frame IT930X_CMD_REG_READ seq
      ([of_nat n, it930x_reg_length reg] @ reg_bytes reg)) d =
      (0, fst d, reply seq (map (\<lambda>i. fst d (reg + of_nat i)) [0..<n]))" if "n \<le> 251" for seq n reg d
    using that frame_nth [where vs = "[]"] by (simp add: demo_out_def Let_def unat_of_nat_u8 lo8_def)
  show ?thesis unfolding firmware_ok_def demo_bus_def using w r by (auto simp del: append.simps)
qed

definition demo_ready :: "((u32 \<Rightarrow> u8) \<times> u8 list) it930x_bridge" where
  "demo_ready = snd (it930x_init True True demo_bridge)"

lemma demo_init: "it930x_init True True demo_bridge = (0, demo_ready)" "clog demo_bridge = []"
  "firmware_ok (it_bus demo_ready) fst" "it_bus_type demo_ready = ITEDTV_BUS_USB"
  by (simp_all add: demo_ready_def it930x_init_def demo_bridge_def demo_firmware_ok)

lemma demo_gpio: "\<exists>b. it930x_set_gpio_mode 6 IT930X_GPIO_IN True demo_ready = (0, b)"
proof -
  obtain b1 where 1: "it930x_write_reg (gpio_en_regs ! 5) 0 demo_ready = (0, b1)" "same_bridge demo_ready b1"
    using reg_call_ok [OF demo_init(3,4), of "W (gpio_en_regs ! 5) 0"] by auto
  let ?b = "set_gpio 5 (\<lambda>g. g\<lparr>gs_mode := IT930X_GPIO_IN\<rparr>) b1"
  have "firmware_ok (it_bus ?b) fst" "it_bus_type ?b = ITEDTV_BUS_USB"
    using 1(2) demo_init by (simp_all add: same_bridge_def set_gpio_def)
  then obtain b2 where 2: "it930x_write_reg (gpio_en_regs ! 5 + 1) 1 ?b = (0, b2)"
    using reg_call_ok [of ?b fst "W (gpio_en_regs ! 5 + 1) 1"] by auto
  have st: "gpio_status b1 = replicate 16 \<lparr>gs_enable = False, gs_mode = IT930X_GPIO_UNDEFINED\<rparr>"
    "gpio_status demo_ready = replicate 16 \<lparr>gs_enable = False, gs_mode = IT930X_GPIO_UNDEFINED\<rparr>"
    using 1(2) by (simp_all add: same_bridge_def demo_ready_def it930x_init_def)
  have "gpio_pin 6 = Some 5" "gpio_mode_val IT930X_GPIO_IN = Some 0" by (simp_all add: gpio_pin_def gpio_mode_val_def)
  then show ?thesis using 1(1) 2 st by (simp add: it930x_set_gpio_mode_def)
qed

theorem it930x_gpio_mode_reached_witness:
  "\<exists>b. it930x_set_gpio_mode 6 IT930X_GPIO_IN True demo_ready = (0, b) \<and>
     may_hold 0xd8c8 (clog b) = {Some 0} \<and> may_hold 0xd8c9 (clog b) = {Some 1}"
proof -
  obtain b where b: "it930x_set_gpio_mode 6 IT930X_GPIO_IN True demo_ready = (0, b)" using demo_gpio by blast
  have s: "gs_mode (gpio_status demo_ready ! i) = IT930X_GPIO_UNDEFINED \<and> \<not> gs_enable (gpio_status demo_ready ! i)"
    if "i < 16" for i using that by (simp add: demo_ready_def it930x_init_def)
  obtain i where i: "i < 16" "6 = int i + 1" "may_hold (gpio_en_regs ! i) (clog b) = {Some 0}"
      "may_hold (gpio_on_regs ! i) (clog b) = {Some 1}"
    using it930x_gpio_mode_reached [OF demo_init(2,1) rtranclp.rtrancl_refl b] s
    by (auto simp: gpio_mode_val_def)
  moreover have "i = 5" using i(2) by simp
  ultimately show ?thesis using b by (simp add: gpio_on_regs_def gpio_en_regs_def)
qed

lemma demo_ctrl_msg:
  assumes "it_bus b = demo_bus" "it_bus_type b = ITEDTV_BUS_USB" "length p < 250" "lo8 cmd \<noteq> 0" "lo8 cmd \<noteq> 1"
  shows "\<exists>b'. it930x_ctrl_msg cmd (Some p) rcap False b = (0, [], b') \<and> same_bridge b b'"
proof -
  have f: "it930x_frame cmd (it_seq b) p ! 2 = lo8 cmd" "it930x_frame cmd (it_seq b) p ! 3 = it_seq b"
    by (simp_all add: it930x_frame_def Let_def)
  have 1: "bulk_out (it_bus b) (it930x_frame cmd (it_seq b) p) (it_dev b) = (0, (fst (it_dev b), reply (it_seq b) []))"
    using assms f by (simp add: demo_bus_def demo_out_def Let_def)
  have 2: "bulk_in (it_bus b) 0x81 256 (ctrl_timeout b) (fst (it_dev b), reply (it_seq b) []) =
      (0, reply (it_seq b) [], (fst (it_dev b), reply (it_seq b) []))"
    using assms by (simp add: demo_bus_def)
  have "(case rcap of None \<Rightarrow> [] | Some n \<Rightarrow> take n []) = ([] :: u8 list)" by (cases rcap) simp_all
  then show ?thesis using ctrl_msg_ok [OF assms(2,3) 1 2, of rcap] by auto
qed

lemma demo_ready_bus: "it_bus demo_ready = demo_bus" "it_seq demo_ready = 0"
  by (simp_all add: demo_ready_def it930x_init_def demo_bridge_def)

theorem it930x_ctrl_msg_exchange_witness:
  "\<exists>out b. it930x_ctrl_msg IT930X_CMD_QUERYINFO (Some [1]) (Some 4) False demo_ready = (0, out, b) \<and> it_seq b = 1"
proof -
  obtain b where b: "it930x_ctrl_msg IT930X_CMD_QUERYINFO (Some [1]) (Some 4) False demo_ready = (0, [], b)"
    using demo_ctrl_msg [OF demo_ready_bus(1) demo_init(4), of "[1]" IT930X_CMD_QUERYINFO "Some 4"]
    by (auto simp: lo8_def)
  have "it_seq b = 1" using it930x_ctrl_msg_exchange [OF b] by (simp add: demo_ready_bus)
  then show ?thesis using b by blast
qed

theorem it930x_register_programs_witness:
  "\<exists>b. run_all (map reg_call [W 0xd920 0x30, M 0xd920 0xff 0x0f]) demo_ready = (0, b) \<and> fst (it_dev b) 0xd920 = 0x3f"
proof -
  have "list_all reg_op_ok [W 0xd920 0x30, M 0xd920 0xff 0x0f]" by simp
  from it930x_register_programs [OF demo_init(3,4) this] show ?thesis by auto
qed

section \<open>The firmware loader\<close>

text \<open>
  A block of a firmware image: the tag 3, two bytes, the number of segments, three bytes per segment
  whose last is its length, and the segments' bytes. It has data and fits into one message.
\<close>

definition fw_block_ok :: "u8 list \<Rightarrow> bool" where
  "fw_block_ok blk \<longleftrightarrow> 4 \<le> length blk \<and> blk ! 0 = 3 \<and> 0 < fw_seg_total blk 0 (unat (blk ! 3)) \<and>
     length blk = fw_seg_total blk 0 (unat (blk ! 3)) + 4 + unat (blk ! 3) * 3 \<and> length blk < 250"

lemma fw_seg_total_shift:
  assumes "fw = pre @ blk @ post" "\<And>j. j < m \<Longrightarrow> 6 + j * 3 < length blk"
  shows "fw_seg_total fw (length pre) m = fw_seg_total blk 0 m"
proof -
  have "fw ! (length pre + 6 + j * 3) = blk ! (6 + j * 3)" if "j < m" for j
    using assms(2) [OF that] by (simp add: assms(1) nth_append add.assoc)
  then show ?thesis unfolding fw_seg_total_def by (intro arg_cong [where f = sum_list] map_cong) simp_all
qed

lemma fw_block_ok_step:
  assumes "fw_block_ok blk" "fw = pre @ blk @ post"
  shows "fw_block fw (length pre) b =
    (let (ret, out, b1) = it930x_ctrl_msg IT930X_CMD_FW_SCATTER_WRITE (Some blk) None False b in
     if ret \<noteq> 0 then Inl (ret, b1) else Inr (length pre + length blk, b1))"
proof -
  let ?m = "unat (blk ! 3)"
  have B: "4 \<le> length blk" "blk ! 0 = 3" "0 < fw_seg_total blk 0 ?m"
      "length blk = fw_seg_total blk 0 ?m + 4 + ?m * 3" "length blk < 250"
    using assms(1) unfolding fw_block_ok_def by blast+
  have m: "?m > 0" using B(3) by (cases "?m = 0") (simp_all add: fw_seg_total_def)
  have at: "fw ! (length pre + k) = blk ! k" if "k < length blk" for k using that by (simp add: assms(2) nth_append)
  have in_blk: "6 + j * 3 < length blk" if "j < ?m" for j
  proof -
    have "j * 3 + 3 \<le> ?m * 3" using that by simp
    then show ?thesis using B(3,4) by simp
  qed
  have tot: "fw_seg_total fw (length pre) ?m = fw_seg_total blk 0 ?m"
    by (rule fw_seg_total_shift [OF assms(2) in_blk])
  have "6 + (?m - 1) * 3 < length blk" by (rule in_blk) (use m in simp)
  then have g: "\<not> (?m > 0 \<and> length pre + 6 + (?m - 1) * 3 \<ge> length fw)" by (simp add: assms(2))
  have h: "\<not> length pre + 3 \<ge> length fw" using B(1) by (simp add: assms(2))
  have len: "fw_seg_total blk 0 ?m + 4 + ?m * 3 = length blk" using B(4) by simp
  have md: "length blk mod 256 = length blk" using B(5) by simp
  have tk: "take (length blk) (drop (length pre) fw) = blk" by (simp add: assms(2))
  have fit: "\<not> length pre + length blk > length fw" by (simp add: assms(2))
  have tag: "\<not> fw ! length pre \<noteq> 3" "fw ! (length pre + 3) = blk ! 3"
    using at [of 0] at [of 3] B(1,2) by (cases blk, simp_all)
  have ne: "fw_seg_total blk 0 ?m \<noteq> 0" using B(3) by simp
  show ?thesis
    unfolding fw_block_def Let_def if_not_P [OF h] tag(2) if_not_P [OF tag(1)] if_not_P [OF g] tot if_not_P [OF ne]
      len md if_not_P [OF fit] tk ..
qed

text \<open>C20: an image of well-formed blocks is sent block by block: the loader returns once per image, it
  never reads outside it, the messages sent are the blocks in order, and an error of the bus stops it at
  the block that failed. As many rounds as there are blocks, and one, are enough.\<close>

theorem it930x_firmware_blocks_sent:
  assumes "list_all fw_block_ok blks" "fw = pre @ concat blks" "length blks < fuel"
  shows "\<exists>ret b' k. load_fw_loop fuel fw (length pre) b = Some (ret, b') \<and> k \<le> length blks \<and>
    (ret = 0 \<longrightarrow> k = length blks) \<and> (ret \<noteq> 0 \<longrightarrow> k < length blks) \<and> ub b' = ub b \<and>
    clog b' = clog b @ map (\<lambda>blk. (IT930X_CMD_FW_SCATTER_WRITE, blk, 0)) (take k blks) @
      (if ret = 0 then [] else [(IT930X_CMD_FW_SCATTER_WRITE, blks ! k, ret)])"
  using assms
proof (induction blks arbitrary: pre fuel b)
  case Nil
  then obtain f where "fuel = Suc f" by (cases fuel) auto
  then show ?case using Nil by simp
next
  case (Cons blk blks)
  obtain f where f: "fuel = Suc f" "length blks < f" using Cons.prems(3) by (cases fuel) auto
  have fw: "fw = pre @ blk @ concat blks" "fw_block_ok blk" "list_all fw_block_ok blks"
    using Cons.prems(1,2) by simp_all
  obtain r out b1 where m: "it930x_ctrl_msg IT930X_CMD_FW_SCATTER_WRITE (Some blk) None False b = (r, out, b1)"
    using prod_cases3 by blast
  have "length blk < 250" "4 \<le> length blk" using fw(2) by (simp_all add: fw_block_ok_def)
  then have l: "clog b1 = clog b @ [(IT930X_CMD_FW_SCATTER_WRITE, blk, r)]" "ub b1 = ub b"
    using ctrl_msg_log [OF m] by (simp_all add: payload_of_def)
  have pos: "\<not> length pre \<ge> length fw" using \<open>4 \<le> length blk\<close> by (auto simp: fw(1))
  note step = fw_block_ok_step [OF fw(2,1), of b, unfolded m Let_def prod.case]
  show ?case
  proof (cases "r = 0")
    case False
    then have "load_fw_loop fuel fw (length pre) b = Some (r, b1)" using pos by (simp add: f(1) step)
    then show ?thesis using l False by (intro exI [of _ r] exI [of _ b1] exI [of _ 0]) simp
  next
    case True
    then have "load_fw_loop fuel fw (length pre) b = load_fw_loop f fw (length (pre @ blk)) b1"
      using pos by (simp add: f(1) step)
    moreover obtain ret b' k where "load_fw_loop f fw (length (pre @ blk)) b1 = Some (ret, b')" "k \<le> length blks"
        "ret = 0 \<longrightarrow> k = length blks" "ret \<noteq> 0 \<longrightarrow> k < length blks" "ub b' = ub b1"
        "clog b' = clog b1 @ map (\<lambda>blk. (IT930X_CMD_FW_SCATTER_WRITE, blk, 0)) (take k blks) @
          (if ret = 0 then [] else [(IT930X_CMD_FW_SCATTER_WRITE, blks ! k, ret)])"
      using Cons.IH [OF fw(3) _ f(2), of "pre @ blk" b1] fw(1) by auto
    ultimately show ?thesis using l True
      by (intro exI [of _ ret] exI [of _ b'] exI [of _ "Suc k"]) simp
  qed
qed

theorem it930x_firmware_blocks_sent_witness:
  "\<exists>ret b. load_fw_loop 2 [3, 0, 0, 1, 0x41, 0, 1, 7] 0 demo_ready = Some (ret, b) \<and> ub b = False"
proof -
  have ok: "list_all fw_block_ok [[3, 0, 0, 1, 0x41, 0, 1, 7]]" by (simp add: fw_block_ok_def fw_seg_total_def)
  have "ub demo_ready = False" by (simp add: demo_ready_def it930x_init_def demo_bridge_def)
  then show ?thesis
    using it930x_firmware_blocks_sent [OF ok, of "[3, 0, 0, 1, 0x41, 0, 1, 7]" "[]" 2 demo_ready] by auto
qed

text \<open>C21: an image that begins with a block without segments is never finished: the loader warns and then
  looks at the same block again, for ever.\<close>

theorem it930x_firmware_empty_block_hangs:
  assumes "4 \<le> length fw" "fw ! 0 = 3" "fw ! 3 = 0"
  shows "load_fw_loop fuel fw 0 b = None"
proof (induction fuel)
  case (Suc fuel)
  have "fw_block fw 0 b = Inr (0, b)" using assms by (simp add: fw_block_def fw_seg_total_def)
  moreover have "fw \<noteq> []" using assms(1) by auto
  ultimately show ?case using Suc by simp
qed simp

theorem it930x_firmware_empty_block_hangs_witness: "load_fw_loop 1000 [3, 0, 0, 0] 0 demo_ready = None"
  using it930x_firmware_empty_block_hangs [of "[3, 0, 0, 0]" 1000 demo_ready] by simp

section \<open>Sending to the card\<close>

definition uart_msg :: "u8 list \<Rightarrow> u16 \<times> u8 list \<times> int" where
  "uart_msg c = (IT930X_CMD_UART_WRITE, of_nat (length c) # c, 0)"

definition realsend_msg :: "u16 \<times> u8 list \<times> int" where
  "realsend_msg = (IT930X_CMD_REG_WRITE,
     [1, it930x_reg_length IT930X_REG_UART_REALSEND] @ reg_bytes IT930X_REG_UART_REALSEND @ [1], 0)"

lemma ctrl_write_log:
  assumes "ctrl_write cmd p b = (ret, b')" "length p < 250"
  shows "clog b' = clog b @ [(cmd, p, ret)] \<and> ub b' = ub b"
  using assms ctrl_msg_log [of cmd "Some p" None False b]
  by (auto simp: ctrl_write_def payload_of_def split: prod.splits)

declare bcas_send_loop.simps [simp del]

lemma bcas_send_loop_log:
  assumes "buf \<noteq> []" "bcas_send_loop buf b = (0, b')"
  shows "\<exists>cs c. buf = concat cs @ c \<and> list_all (\<lambda>x. length x = 48) cs \<and> c \<noteq> [] \<and> length c \<le> 48 \<and>
    clog b' = clog b @ map uart_msg cs @ [realsend_msg, uart_msg c]"
  using assms
proof (induction buf b rule: bcas_send_loop.induct)
  case (1 buf b)
  note unf = "1.prems"(2) [unfolded bcas_send_loop.simps [of buf] Let_def if_not_P [OF "1.prems"(1)]]
  show ?case
  proof (cases "length buf \<le> 48")
    case True
    then have n: "(if length buf < 48 then length buf else 48) = length buf" by simp
    obtain r1 b1 where w: "it930x_write_reg IT930X_REG_UART_REALSEND 1 b = (r1, b1)" by fastforce
    obtain r2 b2 where c: "ctrl_write IT930X_CMD_UART_WRITE (of_nat (length buf) # buf) b1 = (r2, b2)" by fastforce
    have r: "r1 = 0" "r2 = 0" "b' = b2"
      using unf unfolding n by (auto simp: w c bcas_send_loop.simps [of "[]"] split: if_splits)
    have "clog b1 = clog b @ [realsend_msg]" using write_reg_log(1) [OF w] r by (simp add: realsend_msg_def)
    moreover have "clog b2 = clog b1 @ [uart_msg buf]"
      using ctrl_write_log [OF c] True r by (simp add: uart_msg_def)
    ultimately show ?thesis using "1.prems"(1) True r by (intro exI [of _ "[]"] exI [of _ buf]) simp
  next
    case False
    then have n: "(if length buf < 48 then length buf else 48) = 48" "48 \<noteq> length buf" by simp_all
    obtain r2 b2 where c: "ctrl_write IT930X_CMD_UART_WRITE (of_nat 48 # take 48 buf) b = (r2, b2)" by fastforce
    have r: "r2 = 0" "bcas_send_loop (drop 48 buf) b2 = (0, b')"
      using unf unfolding n(1) if_not_P [OF n(2)] prod.case c by (auto split: if_splits)
    have "clog b2 = clog b @ [uart_msg (take 48 buf)]"
      using ctrl_write_log [OF c] False r by (simp add: uart_msg_def)
    moreover have "drop 48 buf \<noteq> []" using False by simp
    moreover have "ctrl_write 0x34 (word_of_nat (if length buf < 48 then length buf else 48) #
        take (if length buf < 48 then length buf else 48) buf) b = (r2, b2)" using c n by simp
    ultimately obtain cs d where "drop 48 buf = concat cs @ d" "list_all (\<lambda>x. length x = 48) cs" "d \<noteq> []" "length d \<le> 48"
        "clog b' = clog b2 @ map uart_msg cs @ [realsend_msg, uart_msg d]"
      using "1.IH" [OF "1.prems"(1) refl, of "(0, b)" 0 b "(r2, b2)" r2 b2] n r by auto
    moreover have "buf = take 48 buf @ drop 48 buf" by simp
    ultimately show ?thesis using \<open>clog b2 = clog b @ [uart_msg (take 48 buf)]\<close> False
      by (intro exI [of _ "take 48 buf # cs"] exI [of _ d]) simp
  qed
qed

text \<open>Data for the card goes out in chunks of 48 bytes and a last one of at most 48; the chunks put
  together are the data, each carries its length, and the firmware is told to transmit exactly once,
  immediately before the last chunk.\<close>

theorem it930x_bcas_send_chunks:
  assumes "it930x_bcas_send_data buf b = (0, b')"
  shows "\<exists>cs c. buf = concat cs @ c \<and> list_all (\<lambda>x. length x = 48) cs \<and> c \<noteq> [] \<and> length c \<le> 48 \<and>
    clog b' = clog b @ map uart_msg cs @ [realsend_msg, uart_msg c]"
  using assms bcas_send_loop_log [of buf b b'] by (auto simp: it930x_bcas_send_data_def split: if_splits)

theorem it930x_bcas_send_chunks_witness:
  "\<exists>b. it930x_bcas_send_data [0x90, 0x30, 0] demo_ready = (0, b) \<and>
     clog b = clog demo_ready @ [realsend_msg, uart_msg [0x90, 0x30, 0]]"
proof -
  obtain b1 where 1: "it930x_write_reg IT930X_REG_UART_REALSEND 1 demo_ready = (0, b1)" "same_bridge demo_ready b1"
    using reg_call_ok [OF demo_init(3,4), of "W IT930X_REG_UART_REALSEND 1"] by auto
  have "it_bus b1 = demo_bus" "it_bus_type b1 = ITEDTV_BUS_USB"
    using 1(2) demo_init(4) by (simp_all add: same_bridge_def demo_ready_def it930x_init_def demo_bridge_def)
  then obtain b2 where 2: "ctrl_write IT930X_CMD_UART_WRITE [3, 0x90, 0x30, 0] b1 = (0, b2)"
    using demo_ctrl_msg [of b1 "[3, 0x90, 0x30, 0]" IT930X_CMD_UART_WRITE None] by (auto simp: lo8_def ctrl_write_def)
  have b: "it930x_bcas_send_data [0x90, 0x30, 0] demo_ready = (0, b2)"
    using 1(1) 2 by (simp add: it930x_bcas_send_data_def bcas_send_loop.simps [of "[_, _, _]"] bcas_send_loop.simps [of "[]"])
  obtain cs c where c: "[0x90, 0x30, 0] = concat cs @ c" "list_all (\<lambda>x. length x = 48) cs"
      "clog b2 = clog demo_ready @ map uart_msg cs @ [realsend_msg, uart_msg c]"
    using it930x_bcas_send_chunks [OF b] by blast
  have "cs = []"
  proof (cases cs)
    case (Cons x xs)
    then have "48 \<le> length (concat cs @ c)" using c(2) by simp
    then show ?thesis unfolding c(1) [symmetric] by simp
  qed
  then show ?thesis using b c by simp
qed

end
