(* ===== verification/I2c_Bus.thy ===== *)
theory I2c_Bus
  imports Call_Seq
begin

text \<open>
  The contract between an I2C master and the chip drivers above it. A chip driver sees only
  \<^verbatim>\<open>struct i2c_comm_master\<close>; what it relies on is that the buffers it hands in keep their shape and
  that a request that returns 0 has put every write on the bus, in order. \<open>writes\<close> is the history of
  the bus as the chips on it saw it: address byte and data of each write.
\<close>

fun req_shape :: "i2c_request \<Rightarrow> nat \<times> u16 \<times> nat" where
  "req_shape (I2C_READ_REQUEST a d) = (1, a, length d)"
| "req_shape (I2C_WRITE_REQUEST a d) = (2, a, length d)"
| "req_shape I2C_UNDEFINED_REQUEST = (0, 0, 0)"

definition addr_byte :: "u16 \<Rightarrow> u8" where
  "addr_byte a = ucast (push_bit 1 a)"

fun write_of :: "i2c_request \<Rightarrow> (u8 \<times> u8 list) list" where
  "write_of (I2C_WRITE_REQUEST a d) = [(addr_byte a, d)]"
| "write_of (I2C_READ_REQUEST a d) = []"
| "write_of I2C_UNDEFINED_REQUEST = []"

definition writes_of :: "i2c_request list \<Rightarrow> (u8 \<times> u8 list) list" where
  "writes_of reqs = concat (map write_of reqs)"

lemma writes_of_simps [simp]: "writes_of [] = []" "writes_of (r # rs) = write_of r @ writes_of rs"
  "writes_of (rs @ ss) = writes_of rs @ writes_of ss"
  by (simp_all add: writes_of_def)

locale i2c_master =
  fixes request :: "i2c_request list \<Rightarrow> 's \<Rightarrow> int \<times> i2c_request list \<times> 's"
    and writes :: "'s \<Rightarrow> (u8 \<times> u8 list) list"
  assumes request_shape: "request reqs s = (ret, reqs', s') \<Longrightarrow> map req_shape reqs' = map req_shape reqs"
    and request_done: "request reqs s = (0, reqs', s') \<Longrightarrow> writes s' = writes s @ writes_of reqs"
begin

text \<open>A read that first writes the register number, as every chip here does it.\<close>

lemma read_shape:
  assumes "request [I2C_WRITE_REQUEST a w, I2C_READ_REQUEST a' buf] s = (ret, reqs', s')"
  shows "\<exists>w' buf'. reqs' = [I2C_WRITE_REQUEST a w', I2C_READ_REQUEST a' buf'] \<and> length buf' = length buf"
proof -
  have "map req_shape reqs' = [(2, a, length w), (1, a', length buf)]" using request_shape [OF assms] by simp
  then obtain x y where "reqs' = [x, y]" "req_shape x = (2, a, length w)" "req_shape y = (1, a', length buf)"
    by auto
  then show ?thesis by (cases x; cases y) auto
qed

text \<open>A sequence of single writes, the form of the drivers' register tables.\<close>

definition write_one :: "u16 \<Rightarrow> u8 list \<Rightarrow> 's call" where
  "write_one a d s = (let (ret, _, s') = request [I2C_WRITE_REQUEST a d] s in (ret, s'))"

lemma write_one_done: "write_one a d s = (0, s') \<Longrightarrow> writes s' = writes s @ [(addr_byte a, d)]"
  by (auto simp: write_one_def dest!: request_done split: prod.splits)

lemma write_all_done:
  "run_each (write_one a) ds s = (0, s') \<Longrightarrow> writes s' = writes s @ map (\<lambda>d. (addr_byte a, d)) ds"
proof (induction ds arbitrary: s)
  case (Cons d ds)
  obtain r s1 where 1: "write_one a d s = (r, s1)" by fastforce
  then have "r = 0" "run_each (write_one a) ds s1 = (0, s')"
    using Cons.prems by (auto simp: run_each_def split: if_splits)
  then show ?case using Cons.IH write_one_done 1 by simp
qed (simp add: run_each_def)

end

end
