(* ===== verification/It930x_I2c.thy ===== *)
theory It930x_I2c
  imports It930x_Props I2c_Bus
begin

text \<open>
  The bridge's I2C master keeps the contract of \<open>i2c_master\<close>: what a chip on bus \<open>n\<close> saw is what the
  successful I2C write messages for that bus carried.
\<close>

definition i2c_write_of :: "u8 \<Rightarrow> u16 \<times> u8 list \<times> int \<Rightarrow> (u8 \<times> u8 list) list" where
  "i2c_write_of n e =
     (case e of
        (cmd, l # m # a # d, ret) \<Rightarrow> if cmd = IT930X_CMD_I2C_WRITE \<and> ret = 0 \<and> m = n then [(a, d)] else []
      | _ \<Rightarrow> [])"

definition i2c_writes :: "u8 \<Rightarrow> 'd it930x_bridge \<Rightarrow> (u8 \<times> u8 list) list" where
  "i2c_writes n b = concat (map (i2c_write_of n) (clog b))"

lemma ctrl_msg_out_length:
  assumes "it930x_ctrl_msg cmd w (Some n) no_rx b = (ret, out, b')"
  shows "length out \<le> n"
  using assms unfolding it930x_ctrl_msg_def it930x_response_def Let_def
  by (auto split: if_splits prod.splits)

lemma i2c_one_shape: "it930x_i2c_one n r b = (ret, r', b') \<Longrightarrow> req_shape r' = req_shape r"
  by (cases r) (auto simp: it930x_i2c_one_def dest: ctrl_msg_out_length split: if_splits prod.splits)

lemma i2c_one_done:
  assumes "it930x_i2c_one n r b = (0, r', b')"
  shows "i2c_writes n b' = i2c_writes n b @ write_of r"
proof -
  have log: "clog b' = clog b @ [(cmd, p, 0)]" if "it930x_ctrl_msg cmd (Some p) rcap False b = (0, out, b')" for cmd p rcap out
    using ctrl_msg_not_sent [OF that] ctrl_msg_log [OF that]
    by (cases "length p < 250") (simp_all add: payload_of_def)
  show ?thesis
    using assms
    by (cases r) (auto simp: it930x_i2c_one_def i2c_writes_def i2c_write_of_def addr_byte_def dest!: log
        split: if_splits prod.splits)
qed

lemma i2c_request_shape:
  "it930x_i2c_master_request n reqs b = (ret, reqs', b') \<Longrightarrow> map req_shape reqs' = map req_shape reqs"
proof (induction n reqs b arbitrary: ret reqs' b' rule: it930x_i2c_master_request.induct)
  case (2 n r reqs b)
  obtain r1 q b1 where 1: "it930x_i2c_one n r b = (r1, q, b1)" using prod_cases3 by blast
  obtain r2 qs b2 where 2: "it930x_i2c_master_request n reqs b1 = (r2, qs, b2)" using prod_cases3 by blast
  show ?case using "2.prems" "2.IH" [OF 1 [symmetric] refl refl _ 2] 1 2 i2c_one_shape [OF 1]
    by (auto split: if_splits)
qed simp

lemma i2c_request_done:
  "it930x_i2c_master_request n reqs b = (0, reqs', b') \<Longrightarrow> i2c_writes n b' = i2c_writes n b @ writes_of reqs"
proof (induction n reqs b arbitrary: reqs' b' rule: it930x_i2c_master_request.induct)
  case (2 n r reqs b)
  obtain r1 q b1 where 1: "it930x_i2c_one n r b = (r1, q, b1)" using prod_cases3 by blast
  obtain r2 qs b2 where 2: "it930x_i2c_master_request n reqs b1 = (r2, qs, b2)" using prod_cases3 by blast
  have z: "r1 = 0" "r2 = 0" "b' = b2" using "2.prems" 1 2 by (auto split: if_splits)
  show ?case using "2.IH" [OF 1 [symmetric] refl refl, of qs b2] 1 2 z i2c_one_done [of n r b q b1] by simp
qed simp

interpretation it930x_i2c: i2c_master "it930x_i2c_master_request n" "i2c_writes n" for n
  by unfold_locales (rule i2c_request_shape, assumption, rule i2c_request_done, assumption)

end
