(* ===== verification/Tc90522.thy ===== *)
theory Tc90522
  imports I2c_Bus
begin

text \<open>
  Model of driver/tc90522.c, the driver of the Toshiba TC90522 demodulator: registers over I2C, and the
  I2C master it offers to the tuner behind it, which tunnels the tuner's requests through the
  demodulator's register 0xfe. The state \<open>'s\<close> is that of the bus below. A byte that C leaves
  uninitialised before a read has the value \<open>dm_junk\<close>.
\<close>

section \<open>Data\<close>

record 's tc90522_demod =
  dm_i2c :: "'s i2c_comm_master"
  dm_addr :: u8
  dm_secondary :: bool
  dm_junk :: u8

datatype tc90522_regbuf = Val u8 u8 | Buf u8 "u8 list"

section \<open>Registers\<close>

text \<open>\<open>buf\<close> is the caller's buffer; it is returned as the bus left it.\<close>

definition tc90522_read_regs :: "'s tc90522_demod \<Rightarrow> u8 \<Rightarrow> u8 list \<Rightarrow> 's \<Rightarrow> int \<times> u8 list \<times> 's" where
  "tc90522_read_regs dm reg buf s =
     (if buf = [] then (- EINVAL, buf, s)
      else
        let (ret, reqs, s1) = i2c_comm_master_request (dm_i2c dm)
              [I2C_WRITE_REQUEST (ucast (dm_addr dm)) [reg], I2C_READ_REQUEST (ucast (dm_addr dm)) buf] s
        in (ret, req_data (reqs ! 1), s1))"

definition tc90522_read_reg :: "'s tc90522_demod \<Rightarrow> u8 \<Rightarrow> u8 \<Rightarrow> 's \<Rightarrow> int \<times> u8 \<times> 's" where
  "tc90522_read_reg dm reg val s = (let (ret, buf, s1) = tc90522_read_regs dm reg [val] s in (ret, hd buf, s1))"

fun read_multiple_loop :: "'s tc90522_demod \<Rightarrow> (u8 \<times> u8 list) list \<Rightarrow> 's \<Rightarrow> int \<times> (u8 \<times> u8 list) list \<times> 's" where
  "read_multiple_loop dm [] s = (0, [], s)"
| "read_multiple_loop dm ((reg, buf) # rest) s =
     (let (ret, buf1, s1) = tc90522_read_regs dm reg buf s in
      if ret \<noteq> 0 then (ret, (reg, buf1) # rest, s1)
      else let (ret, rest1, s2) = read_multiple_loop dm rest s1 in (ret, (reg, buf1) # rest1, s2))"

definition tc90522_read_multiple_regs ::
    "'s tc90522_demod \<Rightarrow> (u8 \<times> u8 list) list \<Rightarrow> 's \<Rightarrow> int \<times> (u8 \<times> u8 list) list \<times> 's" where
  "tc90522_read_multiple_regs dm regbuf s =
     (if regbuf = [] then (- EINVAL, [], s) else read_multiple_loop dm regbuf s)"

definition tc90522_write_regs :: "'s tc90522_demod \<Rightarrow> u8 \<Rightarrow> u8 list \<Rightarrow> 's call" where
  "tc90522_write_regs dm reg buf s =
     (if buf = [] \<or> length buf > 254 then (- EINVAL, s)
      else
        let (ret, _, s1) = i2c_comm_master_request (dm_i2c dm)
              [I2C_WRITE_REQUEST (ucast (dm_addr dm)) (reg # buf)] s
        in (ret, s1))"

definition tc90522_write_reg :: "'s tc90522_demod \<Rightarrow> u8 \<Rightarrow> u8 \<Rightarrow> 's call" where
  "tc90522_write_reg dm reg val = tc90522_write_regs dm reg [val]"

fun regbuf_write :: "'s tc90522_demod \<Rightarrow> tc90522_regbuf \<Rightarrow> 's call" where
  "regbuf_write dm (Val reg v) = tc90522_write_regs dm reg [v]"
| "regbuf_write dm (Buf reg buf) = tc90522_write_regs dm reg buf"

definition tc90522_write_multiple_regs :: "'s tc90522_demod \<Rightarrow> tc90522_regbuf list \<Rightarrow> 's call" where
  "tc90522_write_multiple_regs dm regbuf s =
     (if regbuf = [] then (- EINVAL, s) else run_each (regbuf_write dm) regbuf s)"

section \<open>The tuner's I2C master\<close>

fun tunnel_valid :: "i2c_request \<Rightarrow> bool" where
  "tunnel_valid (I2C_READ_REQUEST a d) = (d \<noteq> [])"
| "tunnel_valid (I2C_WRITE_REQUEST a d) = (d \<noteq> [] \<and> length d \<le> 253)"
| "tunnel_valid I2C_UNDEFINED_REQUEST = False"

text \<open>The requests on the bus below for one of the tuner's, and the buffer of the tuner's filled from
  their results.\<close>

fun tunnel_req :: "u16 \<Rightarrow> i2c_request \<Rightarrow> i2c_request list" where
  "tunnel_req dma (I2C_READ_REQUEST a d) =
     [I2C_WRITE_REQUEST dma [0xfe, ucast (push_bit 1 a) OR 0x01], I2C_READ_REQUEST dma d]"
| "tunnel_req dma (I2C_WRITE_REQUEST a d) = [I2C_WRITE_REQUEST dma ([0xfe, ucast (push_bit 1 a)] @ d)]"
| "tunnel_req dma I2C_UNDEFINED_REQUEST = []"

fun tunnel_result :: "i2c_request list \<Rightarrow> i2c_request list \<Rightarrow> i2c_request list" where
  "tunnel_result (I2C_READ_REQUEST a d # reqs) (w # r # ms) = I2C_READ_REQUEST a (req_data r) # tunnel_result reqs ms"
| "tunnel_result (I2C_WRITE_REQUEST a d # reqs) (w # ms) = I2C_WRITE_REQUEST a d # tunnel_result reqs ms"
| "tunnel_result reqs ms = reqs"

text \<open>
  A single write and a write followed by a read are built on the stack; other sequences allocate
  (\<open>mem\<close>: the allocations succeed). When one does not, only the value returned is modelled: the code then also
  frees what it finds in the entries it has not filled in.
\<close>

fun on_stack :: "i2c_request list \<Rightarrow> bool" where
  "on_stack [I2C_WRITE_REQUEST a d] = True"
| "on_stack [I2C_WRITE_REQUEST a d, I2C_READ_REQUEST a' d'] = True"
| "on_stack reqs = False"

definition tc90522_i2c_master_request ::
    "bool \<Rightarrow> 's tc90522_demod \<Rightarrow> i2c_request list \<Rightarrow> 's \<Rightarrow> int \<times> i2c_request list \<times> 's" where
  "tc90522_i2c_master_request mem dm reqs s =
     (if \<not> list_all tunnel_valid reqs then (- EINVAL, reqs, s)
      else if reqs = [] then (0, reqs, s)
      else if \<not> on_stack reqs \<and> \<not> mem then (- ENOMEM, reqs, s)
      else
        let master_req = concat (map (tunnel_req (ucast (dm_addr dm))) reqs);
            (ret, ms, s1) = i2c_comm_master_request (dm_i2c dm) master_req s
        in (ret, tunnel_result reqs ms, s1))"

definition tc90522_master :: "bool \<Rightarrow> 's tc90522_demod \<Rightarrow> 's i2c_comm_master" where
  "tc90522_master mem dm = \<lparr> i2c_gate_ctrl = None, i2c_request = Some (tc90522_i2c_master_request mem dm) \<rparr>"

section \<open>Satellite\<close>

definition tc90522_sleep_s :: "'s tc90522_demod \<Rightarrow> bool \<Rightarrow> 's call" where
  "tc90522_sleep_s dm sleep = tc90522_write_multiple_regs dm
     (if sleep then [Val 0x13 0x80, Val 0x17 0xff] else [Val 0x13 0x00, Val 0x17 0x00])"

definition tc90522_set_agc_s :: "'s tc90522_demod \<Rightarrow> bool \<Rightarrow> 's call" where
  "tc90522_set_agc_s dm on =
     (let v = (if dm_secondary dm then 0x30 else 0xb0) in
      tc90522_write_multiple_regs dm
        (if on then [Val 0x0a 0xff, Val 0x10 (v OR 0x02), Val 0x11 0x00, Val 0x03 0x01]
         else [Val 0x0a 0x00, Val 0x10 v, Val 0x11 0x02, Val 0x03 0x01]))"

definition read_be16 :: "'s tc90522_demod \<Rightarrow> u8 \<Rightarrow> u16 \<Rightarrow> 's \<Rightarrow> int \<times> u16 \<times> 's" where
  "read_be16 dm reg v s =
     (let (ret, b, s1) = tc90522_read_regs dm reg [dm_junk dm, dm_junk dm] s in
      (ret, if ret = 0 then be16 (b ! 0) (b ! 1) else v, s1))"

definition tc90522_tmcc_get_tsid_s :: "'s tc90522_demod \<Rightarrow> u8 \<Rightarrow> u16 \<Rightarrow> 's \<Rightarrow> int \<times> u16 \<times> 's" where
  "tc90522_tmcc_get_tsid_s dm idx tsid s =
     (if idx \<ge> 12 then (- EINVAL, tsid, s) else read_be16 dm (0xce + idx * 2) tsid s)"

definition tc90522_get_tsid_s :: "'s tc90522_demod \<Rightarrow> u16 \<Rightarrow> 's \<Rightarrow> int \<times> u16 \<times> 's" where
  "tc90522_get_tsid_s dm tsid = read_be16 dm 0xe6 tsid"

definition tc90522_set_tsid_s :: "'s tc90522_demod \<Rightarrow> u16 \<Rightarrow> 's call" where
  "tc90522_set_tsid_s dm tsid = tc90522_write_regs dm 0x8f [hi8 tsid, lo8 tsid]"

definition tc90522_get_cn_s :: "'s tc90522_demod \<Rightarrow> u16 \<Rightarrow> 's \<Rightarrow> int \<times> u16 \<times> 's" where
  "tc90522_get_cn_s dm cn = read_be16 dm 0xbc cn"

definition tc90522_enable_ts_pins_s :: "'s tc90522_demod \<Rightarrow> bool \<Rightarrow> 's call" where
  "tc90522_enable_ts_pins_s dm e = tc90522_write_multiple_regs dm
     (if e then [Val 0x1c 0x00, Val 0x1f 0x00] else [Val 0x1c 0x80, Val 0x1f 0x22])"

definition tc90522_is_signal_locked_s :: "'s tc90522_demod \<Rightarrow> 's \<Rightarrow> int \<times> bool \<times> 's" where
  "tc90522_is_signal_locked_s dm s =
     (let (ret, b, s1) = tc90522_read_reg dm 0xc3 (dm_junk dm) s in (ret, ret = 0 \<and> b AND 0x10 = 0, s1))"

section \<open>Terrestrial\<close>

definition tc90522_sleep_t :: "'s tc90522_demod \<Rightarrow> bool \<Rightarrow> 's call" where
  "tc90522_sleep_t dm sleep = tc90522_write_reg dm 0x03 (if sleep then 0xf0 else 0x00)"

definition tc90522_set_agc_t :: "'s tc90522_demod \<Rightarrow> bool \<Rightarrow> 's call" where
  "tc90522_set_agc_t dm on = tc90522_write_multiple_regs dm
     [Val 0x25 0x00, Val 0x20 0x00, Val 0x23 (if on then 0x4d AND NOT 0x01 else 0x4d), Val 0x01 0x50]"

definition tc90522_get_cndat_t :: "'s tc90522_demod \<Rightarrow> u32 \<Rightarrow> 's \<Rightarrow> int \<times> u32 \<times> 's" where
  "tc90522_get_cndat_t dm cndat s =
     (let j = dm_junk dm; (ret, b, s1) = tc90522_read_regs dm 0x8b [j, j, j] s in
      (ret, if ret = 0 then be32 0 (b ! 0) (b ! 1) (b ! 2) else cndat, s1))"

definition tc90522_get_tmcc_partial_reception_t :: "'s tc90522_demod \<Rightarrow> 's \<Rightarrow> int \<times> bool \<times> 's" where
  "tc90522_get_tmcc_partial_reception_t dm s =
     (let (ret, b, s1) = tc90522_read_reg dm 0x80 (dm_junk dm) s in
      if ret \<noteq> 0 then (ret, False, s1)
      else if b AND 0x28 \<noteq> 0 then (- EAGAIN, False, s1)
      else
        let (ret, b, s2) = tc90522_read_reg dm 0xb0 b s1 in
        if ret \<noteq> 0 then (ret, False, s2)
        else if b AND 0x0f < 8 then (- EAGAIN, False, s2)
        else
          let (ret, b, s3) = tc90522_read_reg dm 0xb2 b s2 in
          (ret, ret = 0 \<and> b AND 0x01 \<noteq> 0, s3))"

definition tc90522_enable_ts_pins_t :: "'s tc90522_demod \<Rightarrow> bool \<Rightarrow> 's call" where
  "tc90522_enable_ts_pins_t dm e = tc90522_write_reg dm 0x1d (if e then 0x00 else 0xa8)"

text \<open>The function always returns 0: an error of the bus is reported as no lock.\<close>

definition tc90522_is_signal_locked_t :: "'s tc90522_demod \<Rightarrow> 's \<Rightarrow> int \<times> bool \<times> 's" where
  "tc90522_is_signal_locked_t dm s =
     (let (ret, b, s1) = tc90522_read_reg dm 0x80 (dm_junk dm) s in
      if ret \<noteq> 0 \<or> b AND 0x28 \<noteq> 0 then (0, False, s1)
      else
        let (ret, b, s2) = tc90522_read_reg dm 0xb0 b s1 in
        if ret \<noteq> 0 \<or> b AND 0x0f < 8 then (0, False, s2) else (0, True, s2))"

section \<open>The demodulator as a master\<close>

text \<open>What the tuner behind the demodulator sees of the bus below.\<close>

definition tunnel_write :: "u8 \<Rightarrow> u8 \<times> u8 list \<Rightarrow> (u8 \<times> u8 list) list" where
  "tunnel_write dma w =
     (case w of (a, x # y # d) \<Rightarrow> if a = dma \<and> x = 0xfe \<and> y AND 1 = 0 then [(y, d)] else [] | _ \<Rightarrow> [])"

definition tunnel_writes :: "u8 \<Rightarrow> (u8 \<times> u8 list) list \<Rightarrow> (u8 \<times> u8 list) list" where
  "tunnel_writes dma ws = concat (map (tunnel_write (addr_byte (ucast dma))) ws)"

locale tc90522_on_bus = i2c_master request writes
  for request :: "i2c_request list \<Rightarrow> 's \<Rightarrow> int \<times> i2c_request list \<times> 's" and writes +
  fixes dm :: "'s tc90522_demod"
  assumes wired: "i2c_request (dm_i2c dm) = Some request"
begin

lemma master_request [simp]: "i2c_comm_master_request (dm_i2c dm) = request"
  by (simp add: i2c_comm_master_request_def wired fun_eq_iff)

lemma tunnel_write_shape:
  "map req_shape ms = map req_shape (concat (map (tunnel_req a) reqs)) \<Longrightarrow>
   map req_shape (tunnel_result reqs ms) = map req_shape reqs"
proof (induction reqs arbitrary: ms)
  case (Cons r reqs)
  show ?case
  proof (cases r)
    case (I2C_READ_REQUEST x d)
    then obtain m1 m2 ms' where m: "ms = m1 # m2 # ms'" "req_shape m2 = (1, a, length d)"
        "map req_shape ms' = map req_shape (concat (map (tunnel_req a) reqs))"
      using Cons.prems by (auto simp: map_eq_Cons_conv)
    then have "length (req_data m2) = length d" by (cases m2) auto
    then show ?thesis using I2C_READ_REQUEST m(1) Cons.IH [OF m(3)] by simp
  next
    case (I2C_WRITE_REQUEST x d)
    then obtain m1 ms' where m: "ms = m1 # ms'" "map req_shape ms' = map req_shape (concat (map (tunnel_req a) reqs))"
      using Cons.prems by (auto simp: map_eq_Cons_conv)
    then show ?thesis using I2C_WRITE_REQUEST Cons.IH [OF m(2)] by simp
  next
    case I2C_UNDEFINED_REQUEST
    then show ?thesis by (cases ms) simp_all
  qed
qed simp

lemma addr_byte_even: "addr_byte a AND 1 = 0"
proof (rule bit_word_eqI)
  fix n assume "n < LENGTH(8)"
  have "\<not> bit (addr_byte a) 0" unfolding addr_byte_def bit_ucast_iff using bit_push_bit_1_0 by blast
  then show "bit (addr_byte a AND 1) n \<longleftrightarrow> bit (0 :: u8) n" by (cases n) (simp_all add: bit_and_iff bit_1_iff)
qed

lemma addr_byte_or: "(addr_byte a OR 1) AND 1 \<noteq> 0"
proof -
  have "bit ((addr_byte a OR 1) AND 1) 0" by (simp add: bit_simps)
  then show ?thesis by (metis bit_0_eq bot_apply bot_bool_def)
qed

lemma tunnel_writes_req:
  "concat (map (tunnel_write (addr_byte a)) (writes_of (concat (map (tunnel_req a) reqs)))) = writes_of reqs"
proof (induction reqs)
  case (Cons r reqs)
  show ?case
  proof (cases r)
    case (I2C_READ_REQUEST x d)
    then show ?thesis using Cons.IH addr_byte_or [of x] by (simp add: tunnel_write_def addr_byte_def)
  next
    case (I2C_WRITE_REQUEST x d)
    then show ?thesis using Cons.IH addr_byte_even [of x] by (simp add: tunnel_write_def addr_byte_def)
  qed (use Cons.IH in simp)
qed simp

end

sublocale tc90522_on_bus \<subseteq> tuner: i2c_master "tc90522_i2c_master_request mem dm" "\<lambda>s. tunnel_writes (dm_addr dm) (writes s)"
proof
  fix reqs s ret reqs' s'
  assume r: "tc90522_i2c_master_request mem dm reqs s = (ret, reqs', s')"
  obtain ret1 ms s1 where m: "request (concat (map (tunnel_req (ucast (dm_addr dm))) reqs)) s = (ret1, ms, s1)"
    using prod_cases3 by blast
  have "reqs' = reqs \<or> reqs' = tunnel_result reqs ms"
    using r m by (auto simp: tc90522_i2c_master_request_def split: if_splits)
  then show "map req_shape reqs' = map req_shape reqs" using tunnel_write_shape [OF request_shape [OF m]] by auto
next
  fix reqs s reqs' s'
  assume r: "tc90522_i2c_master_request mem dm reqs s = (0, reqs', s')"
  obtain ret1 ms s1 where m: "request (concat (map (tunnel_req (ucast (dm_addr dm))) reqs)) s = (ret1, ms, s1)"
    using prod_cases3 by blast
  show "tunnel_writes (dm_addr dm) (writes s') = tunnel_writes (dm_addr dm) (writes s) @ writes_of reqs"
  proof (cases "reqs = []")
    case True
    then show ?thesis using r by (simp add: tc90522_i2c_master_request_def)
  next
    case False
    then have "ret1 = 0" "s' = s1" using r m by (auto simp: tc90522_i2c_master_request_def split: if_splits)
    then show ?thesis using request_done m tunnel_writes_req by (simp add: tunnel_writes_def)
  qed
qed

end
