(* ===== verification/Tc90522_Props.thy ===== *)
theory Tc90522_Props
  imports It930x_I2c Tc90522
begin

text \<open>
  The demodulator on the bridge's I2C bus, as the boards wire it: its register tables and the tuner's
  requests it tunnels, followed down to the messages of the bridge.
\<close>

definition demod_on :: "u8 \<Rightarrow> u8 \<Rightarrow> bool \<Rightarrow> u8 \<Rightarrow> 'd it930x_bridge tc90522_demod" where
  "demod_on n addr sec j =
     \<lparr> dm_i2c = \<lparr> i2c_gate_ctrl = None, i2c_request = Some (it930x_i2c_master_request n) \<rparr>,
       dm_addr = addr, dm_secondary = sec, dm_junk = j \<rparr>"

interpretation board: tc90522_on_bus "it930x_i2c_master_request n" "i2c_writes n" "demod_on n addr sec j"
  for n addr sec j
  by unfold_locales (simp add: demod_on_def)

fun regbuf_bytes :: "tc90522_regbuf \<Rightarrow> u8 list" where
  "regbuf_bytes (Val reg v) = [reg, v]"
| "regbuf_bytes (Buf reg buf) = reg # buf"

lemma write_regs_one:
  assumes "tc90522_write_regs (demod_on n addr sec j) reg buf b = (0, b')"
  shows "it930x_i2c.write_one n (ucast addr) (reg # buf) b = (0, b')"
proof -
  have "it930x_i2c.write_one n = i2c_master.write_one (it930x_i2c_master_request n)" by simp
  then show ?thesis using assms
    by (auto simp: tc90522_write_regs_def it930x_i2c.write_one_def i2c_comm_master_request_def demod_on_def
        split: if_splits prod.splits)
qed

lemma regbuf_write_one:
  "regbuf_write (demod_on n addr sec j) r b = (0, b') \<Longrightarrow>
     it930x_i2c.write_one n (ucast addr) (regbuf_bytes r) b = (0, b')"
  by (cases r) (auto dest: write_regs_one)

lemma regbuf_each:
  "run_each (regbuf_write (demod_on n addr sec j)) rs b = (0, b') \<Longrightarrow>
     run_each (it930x_i2c.write_one n (ucast addr)) (map regbuf_bytes rs) b = (0, b')"
proof (induction rs arbitrary: b)
  case (Cons r rs)
  obtain x b1 where 1: "regbuf_write (demod_on n addr sec j) r b = (x, b1)" by fastforce
  then have "x = 0" "run_each (regbuf_write (demod_on n addr sec j)) rs b1 = (0, b')"
    using Cons.prems by (auto simp: run_each_def split: if_splits)
  then show ?case using Cons.IH 1 regbuf_write_one by (fastforce simp: run_each_def)
qed (simp add: run_each_def)

text \<open>A register table that the demodulator driver reports as written has gone out on the bridge's bus
  completely and in order: one write per entry, to the demodulator's address, register number first.\<close>

theorem tc90522_table_written:
  assumes "tc90522_write_multiple_regs (demod_on n addr sec j) rs b = (0, b')"
  shows "i2c_writes n b' = i2c_writes n b @ map (\<lambda>r. (addr_byte (ucast addr), regbuf_bytes r)) rs"
proof -
  have "run_each (regbuf_write (demod_on n addr sec j)) rs b = (0, b')"
    using assms by (auto simp: tc90522_write_multiple_regs_def split: if_splits)
  from it930x_i2c.write_all_done [OF regbuf_each [OF this]] show ?thesis by (simp add: comp_def)
qed

lemma demo_i2c_write:
  assumes "d \<noteq> []" "length d < 247"
  shows "\<exists>b. it930x_i2c_master_request n [I2C_WRITE_REQUEST a d] demo_ready = (0, [I2C_WRITE_REQUEST a d], b)"
proof -
  let ?p = "[of_nat (length d), n, ucast (push_bit 1 a)] @ d"
  obtain b where "it930x_ctrl_msg IT930X_CMD_I2C_WRITE (Some ?p) None False demo_ready = (0, [], b)"
    using demo_ctrl_msg [OF demo_ready_bus(1) demo_init(4), of ?p IT930X_CMD_I2C_WRITE None] assms
    by (auto simp: lo8_def)
  then show ?thesis using assms by (simp add: it930x_i2c_one_def)
qed

theorem tc90522_table_written_witness:
  "\<exists>b. tc90522_write_multiple_regs (demod_on 1 0x10 False 0) [Val 0x03 0xf0] demo_ready = (0, b) \<and>
     i2c_writes 1 b = [(0x20, [0x03, 0xf0])]"
proof -
  obtain b where "it930x_i2c_master_request 1 [I2C_WRITE_REQUEST 0x10 [0x03, 0xf0]] demo_ready =
      (0, [I2C_WRITE_REQUEST 0x10 [0x03, 0xf0]], b)"
    using demo_i2c_write [where d = "[0x03, 0xf0]" and n = 1 and a = "0x10"] by auto
  then have b: "tc90522_write_multiple_regs (demod_on 1 0x10 False 0) [Val 0x03 0xf0] demo_ready = (0, b)"
    by (simp add: tc90522_write_multiple_regs_def run_each_def tc90522_write_regs_def i2c_comm_master_request_def
        demod_on_def)
  have "i2c_writes 1 demo_ready = []" by (simp add: i2c_writes_def demo_ready_def it930x_init_def demo_bridge_def)
  then show ?thesis using tc90522_table_written [OF b] b by (simp add: addr_byte_def)
qed

text \<open>C22: the tuner behind the demodulator is reached through it: a write of the tuner driver that returns 0
  is one message of the bridge, to the demodulator, which carries the tunnel register, the tuner's
  address and the data unchanged, and the tuner has seen exactly that write.\<close>

theorem tuner_write_tunnelled:
  assumes "tc90522_i2c_master_request mem (demod_on n addr sec j) [I2C_WRITE_REQUEST t d] b = (0, reqs, b')"
  shows "clog b' = clog b @ [(IT930X_CMD_I2C_WRITE,
      [of_nat (length d + 2), n, addr_byte (ucast addr), 0xfe, addr_byte t] @ d, 0)] \<and>
    tunnel_writes addr (i2c_writes n b') = tunnel_writes addr (i2c_writes n b) @ [(addr_byte t, d)] \<and>
    length d < 245"
proof -
  let ?m = "I2C_WRITE_REQUEST (ucast addr) ([0xfe, ucast (push_bit 1 t)] @ d)"
  obtain ms where m: "it930x_i2c_master_request n [?m] b = (0, ms, b')"
    using assms by (auto simp: tc90522_i2c_master_request_def i2c_comm_master_request_def demod_on_def
        split: if_splits prod.splits)
  then have "\<exists>r. it930x_i2c_one n ?m b = (0, r, b')" by (auto split: prod.splits if_splits)
  then obtain out where c: "it930x_ctrl_msg IT930X_CMD_I2C_WRITE (Some ([of_nat (length d + 2), n,
      ucast (push_bit 1 (ucast addr :: u16)), 0xfe, ucast (push_bit 1 t)] @ d)) None False b = (0, out, b')"
    by (auto simp: it930x_i2c_one_def split: if_splits prod.splits)
  have len: "length d < 245" using ctrl_msg_not_sent [OF c] by (cases "length d < 245") (simp_all add: payload_of_def)
  then have "clog b' = clog b @ [(IT930X_CMD_I2C_WRITE,
      [of_nat (length d + 2), n, addr_byte (ucast addr), 0xfe, addr_byte t] @ d, 0)]"
    using ctrl_msg_log [OF c] by (simp add: payload_of_def addr_byte_def)
  moreover have "tunnel_writes addr (i2c_writes n b') = tunnel_writes addr (i2c_writes n b) @ [(addr_byte t, d)]"
    using board.tuner.request_done [OF assms] by (simp add: demod_on_def)
  ultimately show ?thesis using len by simp
qed

theorem tuner_write_tunnelled_witness:
  "\<exists>reqs b. tc90522_i2c_master_request True (demod_on 1 0x10 False 0) [I2C_WRITE_REQUEST 0x7a [0x05, 0x81]] demo_ready
     = (0, reqs, b) \<and> tunnel_writes 0x10 (i2c_writes 1 b) = [(0xf4, [0x05, 0x81])]"
proof -
  let ?d = "[0xfe, 0xf4, 0x05, 0x81] :: u8 list"
  obtain b where "it930x_i2c_master_request 1 [I2C_WRITE_REQUEST 0x10 ?d] demo_ready = (0, [I2C_WRITE_REQUEST 0x10 ?d], b)"
    using demo_i2c_write [where d = ?d and n = 1 and a = "0x10"] by auto
  then have b: "tc90522_i2c_master_request True (demod_on 1 0x10 False 0) [I2C_WRITE_REQUEST 0x7a [0x05, 0x81]] demo_ready
      = (0, [I2C_WRITE_REQUEST 0x7a [0x05, 0x81]], b)"
    by (simp add: tc90522_i2c_master_request_def i2c_comm_master_request_def demod_on_def del: it930x_i2c_master_request.simps)
  have "i2c_writes 1 demo_ready = []" by (simp add: i2c_writes_def demo_ready_def it930x_init_def demo_bridge_def)
  then show ?thesis using tuner_write_tunnelled [OF b] b by (simp add: addr_byte_def tunnel_writes_def)
qed

text \<open>The TMCC partial reception flag of a terrestrial carrier is only reported from a locked receiver:
  when the call returns 0, the lock test in the same state reports the lock.\<close>

theorem tc90522_partial_reception_needs_lock:
  assumes "tc90522_get_tmcc_partial_reception_t dm s = (0, v, s')"
  shows "fst (tc90522_is_signal_locked_t dm s) = 0 \<and> fst (snd (tc90522_is_signal_locked_t dm s))"
  using assms unfolding tc90522_get_tmcc_partial_reception_t_def tc90522_is_signal_locked_t_def Let_def
  by (auto split: prod.splits if_splits)

text \<open>A receiver that is locked and receives partially: register 0xb0 holds 9, 0xb2 holds 1, others 0.\<close>

definition demo_locked :: "unit tc90522_demod" where
  "demo_locked = \<lparr> dm_i2c = \<lparr> i2c_gate_ctrl = None, i2c_request = Some (\<lambda>reqs s. (0,
     [reqs ! 0, I2C_READ_REQUEST 0x10 [if req_data (reqs ! 0) = [0xb0] then 9
       else if req_data (reqs ! 0) = [0xb2] then 1 else 0]], s)) \<rparr>,
     dm_addr = 0x10, dm_secondary = False, dm_junk = 0xaa \<rparr>"

theorem tc90522_partial_reception_needs_lock_witness:
  "tc90522_get_tmcc_partial_reception_t demo_locked () = (0, True, ()) \<and>
   fst (snd (tc90522_is_signal_locked_t demo_locked ()))"
proof -
  have "tc90522_get_tmcc_partial_reception_t demo_locked () = (0, True, ())" by code_simp
  then show ?thesis using tc90522_partial_reception_needs_lock [of demo_locked "()" True "()"] by simp
qed

end
