(* ===== verification/Rt710.thy ===== *)
theory Rt710
  imports I2c_Bus
begin

text \<open>
  Model of driver/rt710.c, the driver of the RafaelMicro RT710/RT720 satellite tuner: registers over
  I2C, the synthesizer, the filter bandwidth and the gain. \<open>rt_s\<close> is the state of the bus below.
  Frequencies are in kHz. Numbers of the synthesizer and filter computations are natural numbers with
  the wrap-around of their C types written out; \<open>rt_ub\<close> is raised where C divides by zero or reads
  outside a table. A byte that C leaves uninitialised has the value \<open>rt_junk\<close>.
\<close>

section \<open>Data\<close>

datatype rt710_chip_type = RT710_CHIP_TYPE_UNKNOWN | RT710_CHIP_TYPE_RT710 | RT710_CHIP_TYPE_RT720

datatype rt710_signal_output_mode = RT710_SIGNAL_OUTPUT_SINGLE | RT710_SIGNAL_OUTPUT_DIFFERENTIAL

datatype rt710_agc_mode = RT710_AGC_NEGATIVE | RT710_AGC_POSITIVE

datatype rt710_vga_attenuate_mode = RT710_VGA_ATTEN_OFF | RT710_VGA_ATTEN_ON

datatype rt710_fine_gain = RT710_FINE_GAIN_3DB | RT710_FINE_GAIN_2DB | RT710_FINE_GAIN_1DB | RT710_FINE_GAIN_0DB

datatype rt710_scan_mode = RT710_SCAN_MANUAL | RT710_SCAN_AUTO

record rt710_config =
  rt_xtal :: nat
  rt_loop_through :: bool
  rt_clock_out :: bool
  rt_signal_output_mode :: rt710_signal_output_mode
  rt_agc_mode :: rt710_agc_mode
  rt_vga_atten_mode :: rt710_vga_attenuate_mode
  rt_fine_gain :: rt710_fine_gain
  rt_scan_mode :: rt710_scan_mode

record 's rt710_tuner =
  rt_i2c :: "'s i2c_comm_master"
  rt_addr :: u8
  rt_config :: rt710_config
  rt_init :: bool
  rt_chip :: rt710_chip_type
  rt_freq :: nat
  rt_s :: 's
  rt_junk :: u8
  rt_ub :: bool

definition rt710_init_regs :: "u8 list" where
  "rt710_init_regs = [0x40, 0x1d, 0x20, 0x10, 0x41, 0x50, 0xed, 0x25, 0x07, 0x58, 0x39, 0x64, 0x38, 0xe7, 0x90, 0x35]"

definition rt720_init_regs :: "u8 list" where
  "rt720_init_regs = [0x00, 0x1c, 0x00, 0x10, 0x41, 0x48, 0xda, 0x4b, 0x07, 0x58, 0x38, 0x40, 0x37, 0xe7, 0x4c, 0x59]"

definition sleep_regs :: "u8 list" where
  "sleep_regs = [0xff, 0x5c, 0x88, 0x30, 0x41, 0xc8, 0xed, 0x25, 0x47, 0xfc, 0x48, 0xa2, 0x08, 0x0f, 0xf3, 0x59]"

definition bandwidth_params :: "(nat \<times> nat \<times> nat) list" where
  "bandwidth_params =
     [(50000, 0, 0), (73000, 0, 1), (96000, 1, 0), (104000, 1, 1), (116000, 2, 0), (126000, 2, 1),
      (134000, 3, 0), (146000, 3, 1), (158000, 4, 0), (170000, 4, 1), (178000, 5, 0), (190000, 5, 1),
      (202000, 6, 0), (212000, 6, 1), (218000, 7, 0), (234000, 7, 1), (244000, 9, 1), (246000, 10, 0),
      (262000, 10, 1), (266000, 11, 0), (282000, 11, 1), (298000, 12, 1), (318000, 13, 1),
      (340000, 14, 1), (358000, 15, 1), (379999, 16, 1)]"

definition rt710_lna_acc_gain :: "int list" where
  "rt710_lna_acc_gain = [0, 26, 42, 74, 103, 129, 158, 181, 188, 200, 220, 248, 280, 312, 341, 352, 366, 389, 409]"

definition rt720_lna_acc_gain :: "int list" where
  "rt720_lna_acc_gain =
     [0, 27, 53, 81, 109, 134, 156, 176, 194, 202, 211, 221, 232, 245, 258, 271,
      285, 307, 326, 341, 357, 374, 393, 410, 428, 439, 445, 470, 476, 479, 495, 507]"

definition reverse_bit :: "u8 \<Rightarrow> u8" where
  "reverse_bit val =
     (let t = val;
          t = (push_bit 1 (t AND 0x55)) OR (drop_bit 1 (t AND 0xaa));
          t = (push_bit 2 (t AND 0x33)) OR (drop_bit 2 (t AND 0xcc))
      in (push_bit 4 (t AND 0x0f)) OR (drop_bit 4 (t AND 0xf0)))"

section \<open>Registers\<close>

text \<open>The chip always reads from register 0; the bytes before \<open>reg\<close> are read and dropped.\<close>

definition rt710_read_regs :: "nat \<Rightarrow> u8 list \<Rightarrow> 's rt710_tuner \<Rightarrow> int \<times> u8 list \<times> 's rt710_tuner" where
  "rt710_read_regs reg buf t =
     (if buf = [] \<or> int (length buf) > 16 - int reg then (- EINVAL, buf, t)
      else
        let n = reg + length buf;
            b = 0x00 # replicate (n - 1) (rt_junk t);
            (ret, reqs, s) = i2c_comm_master_request (rt_i2c t)
              [I2C_WRITE_REQUEST (ucast (rt_addr t)) [0x00], I2C_READ_REQUEST (ucast (rt_addr t)) b] (rt_s t);
            t1 = t\<lparr>rt_s := s\<rparr>
        in (ret, if ret \<noteq> 0 then buf else map reverse_bit (drop reg (req_data (reqs ! 1))), t1))"

definition rt710_read_reg :: "nat \<Rightarrow> 's rt710_tuner \<Rightarrow> int \<times> u8 \<times> 's rt710_tuner" where
  "rt710_read_reg reg t = (let (ret, buf, t1) = rt710_read_regs reg [rt_junk t] t in (ret, hd buf, t1))"

definition rt710_write_regs :: "nat \<Rightarrow> u8 list \<Rightarrow> 's rt710_tuner call" where
  "rt710_write_regs reg buf t =
     (if buf = [] \<or> int (length buf) > 16 - int reg then (- EINVAL, t)
      else
        let (ret, _, s) = i2c_comm_master_request (rt_i2c t)
              [I2C_WRITE_REQUEST (ucast (rt_addr t)) (of_nat reg # buf)] (rt_s t)
        in (ret, t\<lparr>rt_s := s\<rparr>))"

text \<open>
  The functions below work on a copy of the 16 registers next to the tuner: \<open>upd\<close> changes one byte of
  the copy, \<open>wr\<close> sends one to the chip.
\<close>

type_synonym 's rt_work = "u8 list \<times> 's rt710_tuner"

definition upd :: "nat \<Rightarrow> (u8 \<Rightarrow> u8) \<Rightarrow> 's rt_work call" where
  "upd i f w = (0, ((fst w)[i := f (fst w ! i)], snd w))"

definition wr :: "nat \<Rightarrow> 's rt_work call" where
  "wr i w = (let (ret, t) = rt710_write_regs i [fst w ! i] (snd w) in (ret, (fst w, t)))"

definition set_freq_priv :: "nat \<Rightarrow> 's rt_work call" where
  "set_freq_priv f w = (0, (fst w, (snd w)\<lparr>rt_freq := f\<rparr>))"

section \<open>The synthesizer\<close>

definition VCO_MIN :: nat where "VCO_MIN = 2350000"

definition vco_of :: "nat \<Rightarrow> nat \<Rightarrow> nat" where
  "vco_of freq k = (freq * 2 ^ k) mod 2 ^ 32"

text \<open>The loop over the dividers 2, 4, 8, 16; the result is the exponent, 5 when none fits.\<close>

function mix_loop :: "nat \<Rightarrow> nat \<Rightarrow> nat" where
  "mix_loop freq k =
     (if k \<le> 4 then
        (if vco_of freq k \<ge> VCO_MIN \<and> vco_of freq k \<le> VCO_MIN * 2 then k else mix_loop freq (k + 1))
      else k)"
  by pat_completeness auto

termination mix_loop
  by (relation "measure (\<lambda>(freq, k). 5 - k)") auto

declare mix_loop.simps [simp del]

definition pll_div_num :: "nat \<Rightarrow> u8" where
  "pll_div_num k = (if k = 1 then 1 else if k = 2 then 0 else if k = 3 then 2 else if k = 4 then 3 else 0)"

text \<open>Integer part and remainder of the divider, and the correction of the remainder near its ends and
  its middle.\<close>

definition pll_nint :: "nat \<Rightarrow> nat \<Rightarrow> nat" where
  "pll_nint xtal vco = (vco div 2 div xtal) mod 256"

definition pll_fra :: "nat \<Rightarrow> nat \<Rightarrow> nat" where
  "pll_fra xtal vco = (vco + 2 ^ 32 - (xtal * 2 * pll_nint xtal vco) mod 2 ^ 32) mod 2 ^ 16"

definition pll_adjust :: "nat \<Rightarrow> nat \<Rightarrow> nat \<Rightarrow> nat \<times> nat" where
  "pll_adjust xtal nint fra =
     (if fra < xtal div 64 then (nint, 0)
      else if fra > xtal * 127 div 64 then ((nint + 1) mod 256, 0)
      else if fra > xtal * 127 div 128 \<and> fra < xtal then (nint, (xtal * 127 div 128) mod 2 ^ 16)
      else if fra > xtal \<and> fra < xtal * 129 div 128 then (nint, (xtal * 129 div 128) mod 2 ^ 16)
      else (nint, fra))"

text \<open>
  The sigma-delta loop, with \<^verbatim>\<open>nsdm\<close> as a power of two; \<open>k = 16\<close> is the 16-bit variable wrapped to 0, by
  which the code then divides.
\<close>

function sdm_loop :: "nat \<Rightarrow> nat \<Rightarrow> nat \<Rightarrow> nat \<Rightarrow> nat option" where
  "sdm_loop xtal k fra sdm =
     (if fra \<le> 1 then Some sdm
      else if k \<ge> 16 then None
      else
        let t = (xtal * 2) div 2 ^ k in
        if fra > t then
          let sdm1 = (sdm + 0x8000 div 2 ^ (k - 1)) mod 2 ^ 16 in
          if k \<ge> 15 then Some sdm1 else sdm_loop xtal (k + 1) (fra - t) sdm1
        else sdm_loop xtal (k + 1) fra sdm)"
  by pat_completeness auto

termination sdm_loop
  by (relation "measure (\<lambda>(xtal, k, fra, sdm). 16 - k)") auto

declare sdm_loop.simps [simp del]

text \<open>\<open>ni\<close> and \<open>si\<close> hold 13 less than the integer part.\<close>

definition pll_reg5 :: "nat \<Rightarrow> u8" where
  "pll_reg5 nint =
     (let ni = of_int ((int nint - 13) div 4 + (if int nint < 13 \<and> (int nint - 13) mod 4 \<noteq> 0 then 1 else 0)) :: u8;
          si = of_int (int nint - int (unat ni) * 4 - 13) :: u8
      in (ni AND 0x3f) OR (push_bit 6 si AND 0xc0))"

definition set_pll_720 :: "u8 \<Rightarrow> 's rt_work call" where
  "set_pll_720 div_num w =
     (if rt_chip (snd w) = RT710_CHIP_TYPE_RT720 then
        run_all
          [upd 0x08 (\<lambda>r. (r AND 0xef) OR (push_bit 3 div_num AND 0x10)), wr 0x08,
           upd 0x04 (\<lambda>r. (r AND 0x3f) OR (if div_num \<le> 1 then 0x40 else 0x80)),
           upd 0x0c (\<lambda>r. if div_num \<le> 1 then r OR 0x10 else r AND 0xef),
           wr 0x04, wr 0x0c] w
      else (0, w))"

definition rt_raise_ub :: "'s rt_work call" where
  "rt_raise_ub w = (- EFAULT, (fst w, (snd w)\<lparr>rt_ub := True\<rparr>))"

definition set_sdm :: "nat \<Rightarrow> nat \<Rightarrow> 's rt_work call" where
  "set_sdm xtal fra =
     (case sdm_loop xtal 1 fra 0 of
        None \<Rightarrow> rt_raise_ub
      | Some sdm \<Rightarrow> run_all
          [upd 0x07 (\<lambda>_. hi8 (of_nat sdm)), upd 0x06 (\<lambda>_. lo8 (of_nat sdm)), wr 0x07, wr 0x06])"

definition rt710_set_pll :: "nat \<Rightarrow> 's rt_work call" where
  "rt710_set_pll freq w =
     (let xtal = rt_xtal (rt_config (snd w));
          k = mix_loop freq 1;
          vco = vco_of freq k;
          div_num = pll_div_num k;
          (nint, fra) = pll_adjust xtal (pll_nint xtal vco) (pll_fra xtal vco)
      in run_all
        ([set_freq_priv 0,
          upd 0x04 (\<lambda>r. (r AND 0xfe) OR (div_num AND 0x01)), wr 0x04,
          set_pll_720 div_num] @
         (if xtal = 0 then [rt_raise_ub] else
          [upd 0x05 (\<lambda>_. pll_reg5 nint), wr 0x05,
           upd 0x04 (\<lambda>r. if fra = 0 then r OR 0x02 else r), wr 0x04,
           set_sdm xtal fra,
           set_freq_priv freq])) w)"

section \<open>Initialisation and sleep\<close>

definition rt710_init :: "'s rt710_tuner call" where
  "rt710_init t =
     (let t0 = t\<lparr>rt_init := False, rt_freq := 0\<rparr>;
          (ret, tmp, t1) = rt710_read_reg 0x03 t0 in
      if ret \<noteq> 0 then (ret, t1)
      else (0, t1\<lparr>rt_chip := (if tmp AND 0xf0 = 0x70 then RT710_CHIP_TYPE_RT710 else RT710_CHIP_TYPE_RT720),
                  rt_init := True\<rparr>))"

definition rt710_term :: "'s rt710_tuner call" where
  "rt710_term t = (0, t\<lparr>rt_init := False\<rparr>)"

definition rt710_sleep :: "'s rt710_tuner call" where
  "rt710_sleep t =
     (if \<not> rt_init t then (- EINVAL, t)
      else
        let regs = (if rt_chip t = RT710_CHIP_TYPE_RT720 then sleep_regs[1 := 0x5e, 3 := (sleep_regs ! 3) OR 0x20]
                    else if rt_clock_out (rt_config t) then sleep_regs[3 := 0x20] else sleep_regs)
        in rt710_write_regs 0 regs t)"

section \<open>Parameters\<close>

fun fine_gain_num :: "rt710_fine_gain \<Rightarrow> u8" where
  "fine_gain_num RT710_FINE_GAIN_3DB = 0"
| "fine_gain_num RT710_FINE_GAIN_2DB = 1"
| "fine_gain_num RT710_FINE_GAIN_1DB = 2"
| "fine_gain_num RT710_FINE_GAIN_0DB = 3"

definition config_regs :: "rt710_chip_type \<Rightarrow> rt710_config \<Rightarrow> u8 list" where
  "config_regs chip cfg =
     (let r = (if chip = RT710_CHIP_TYPE_RT710 then rt710_init_regs else rt720_init_regs);
          r = r[0x01 := (if rt_loop_through cfg then r ! 0x01 AND 0xfb else r ! 0x01 OR 0x04)];
          r = r[0x03 := (if rt_clock_out cfg then r ! 0x03 AND 0xef else r ! 0x03 OR 0x10)];
          r = r[0x0b := (if rt_signal_output_mode cfg = RT710_SIGNAL_OUTPUT_DIFFERENTIAL
                         then r ! 0x0b AND 0xef else r ! 0x0b OR 0x10)];
          r = r[0x0d := (if rt_agc_mode cfg = RT710_AGC_POSITIVE then r ! 0x0d OR 0x10 else r ! 0x0d AND 0xef)];
          r = r[0x0b := (if rt_vga_atten_mode cfg = RT710_VGA_ATTEN_ON then r ! 0x0b OR 0x08 else r ! 0x0b AND 0xf7)]
      in if chip = RT710_CHIP_TYPE_RT710 then
           r[0x0e := (r ! 0x0e AND 0xfc) OR (fine_gain_num (rt_fine_gain cfg) AND 0x03)]
         else
           r[0x0e := (if rt_fine_gain cfg = RT710_FINE_GAIN_3DB \<or> rt_fine_gain cfg = RT710_FINE_GAIN_2DB
                      then r ! 0x0e AND 0xfe else r ! 0x0e OR 0x01),
             0x03 := r ! 0x03 AND 0xf0])"

text \<open>The band of an RT710; \<^verbatim>\<open>freq - 1600000\<close> is a 32-bit subtraction that wraps below.\<close>

definition set_band_710 :: "nat \<Rightarrow> 's rt_work call" where
  "set_band_710 freq =
     (let high = (freq + 2 ^ 32 - 1600000) mod 2 ^ 32 \<ge> 350000 in
      run_all
        ((if high then
            [upd 0x02 (\<lambda>r. r AND 0xbf), upd 0x08 (\<lambda>r. r AND 0x7f)] @
            (if freq \<ge> 1950000 then [upd 0x0a (\<lambda>_. 0x38)] else [])
          else [upd 0x02 (\<lambda>r. r OR 0x40), upd 0x08 (\<lambda>r. r OR 0x80)]) @
         [wr 0x0a, wr 0x02, wr 0x08,
          upd 0x0e (\<lambda>r. (r AND 0xf3) OR (if freq \<ge> 2000000 then 0x08 else 0)), wr 0x0e]))"

definition scan_rate :: "rt710_scan_mode \<Rightarrow> nat \<Rightarrow> nat" where
  "scan_rate sm rate =
     (if sm = RT710_SCAN_AUTO then (rate + 10000) mod 2 ^ 32
      else if rate \<ge> 15000 then (rate + 6000) mod 2 ^ 32 else rate)"

definition set_scan_720 :: "rt710_scan_mode \<Rightarrow> 's rt_work call" where
  "set_scan_720 sm = run_all
     [upd 0x0b (\<lambda>r. if sm = RT710_SCAN_AUTO then r OR 0x02 else r AND 0xfc), wr 0x0b]"

definition bw_of :: "nat \<Rightarrow> nat \<Rightarrow> nat" where
  "bw_of rate rolloff = (rate * (115 + rolloff * 5)) mod 2 ^ 32 div 10"

definition bw_710 :: "nat \<Rightarrow> nat \<times> nat" where
  "bw_710 bandwidth =
     (if bandwidth \<ge> 380000 then
        let b = bandwidth - 380000 in
        (((if b mod 17400 \<noteq> 0 then 1 else 0) + (b div 17400) mod 256 + 0x10) mod 256, 1)
      else case find (\<lambda>(w, p). bandwidth \<le> w) bandwidth_params of None \<Rightarrow> (0, 0) | Some (w, p) \<Rightarrow> p)"

definition bw_720 :: "nat \<Rightarrow> nat \<Rightarrow> nat \<times> nat" where
  "bw_720 rate rolloff =
     (let fine = (if rolloff > 1 then 1 else 0);
          rng = fine * 20000;
          s = (rate * 12) mod 2 ^ 32 in
      if s \<le> 88000 + rng then (0, fine)
      else if s \<le> 368000 + rng then
        let c = (s - 88000 - rng) div 20000 + (if (s - 88000 - rng) mod 20000 \<noteq> 0 then 1 else 0)
        in (if c > 6 then c + 1 else c, fine)
      else if s \<le> 764000 + rng then
        let c = (s - 368000 - rng) div 20000 + 15 + (if (s + 25216 - rng) mod 20000 \<noteq> 0 then 1 else 0)
        in (if c \<ge> 33 then c + 3 else if c \<ge> 29 then c + 2 else if c \<ge> 27 then c + 3
            else if c \<ge> 24 then c + 2 else if c \<ge> 19 then c + 1 else c, fine)
      else (42, fine))"

definition rt710_set_params :: "nat \<Rightarrow> nat \<Rightarrow> nat \<Rightarrow> 's rt710_tuner call" where
  "rt710_set_params freq symbol_rate rolloff t =
     (if \<not> rt_init t then (- EINVAL, t)
      else if rolloff > 5 then (- EINVAL, t)
      else
        let chip = rt_chip t;
            is710 = (chip = RT710_CHIP_TYPE_RT710);
            sm = rt_scan_mode (rt_config t);
            regs = config_regs chip (rt_config t);
            rate = (if is710 then symbol_rate else scan_rate sm symbol_rate);
            bandwidth = bw_of rate rolloff;
            (coarse, fine) = (if is710 then bw_710 bandwidth else bw_720 rate rolloff);
            (ret, w) = run_all
              [\<lambda>w. (let (ret, t) = rt710_write_regs 0 (fst w) (snd w) in (ret, (fst w, t))),
               rt710_set_pll freq,
               if is710 then set_band_710 freq else set_scan_720 sm,
               \<lambda>w. (if bandwidth = 0 then - ECANCELED else 0, w),
               upd 0x0f (\<lambda>_. (push_bit 2 (of_nat coarse) AND 0xfc) OR (of_nat fine AND 0x03)),
               wr 0x0f] (regs, t)
        in (ret, snd w))"

section \<open>Lock and gain\<close>

definition rt710_is_pll_locked :: "bool \<Rightarrow> 's rt710_tuner \<Rightarrow> int \<times> bool \<times> 's rt710_tuner" where
  "rt710_is_pll_locked locked t =
     (if \<not> rt_init t then (- EINVAL, locked, t)
      else
        let (ret, tmp, t1) = rt710_read_reg 0x02 t in
        if ret \<noteq> 0 then (ret, locked, t1) else (0, tmp AND 0x80 \<noteq> 0, t1))"

definition rt710_gain_of :: "nat \<Rightarrow> nat" where
  "rt710_gain_of g =
     (if g \<le> 2 then 0 else if g \<le> 9 then g - 2 else if g \<le> 12 then 7 else if g \<le> 22 then g - 5 else 18)"

text \<open>For an RT720 the gain is read and not stored.\<close>

definition rt710_get_rf_gain :: "nat \<Rightarrow> 's rt710_tuner \<Rightarrow> int \<times> nat \<times> 's rt710_tuner" where
  "rt710_get_rf_gain gain t =
     (if \<not> rt_init t then (- EINVAL, gain, t)
      else
        let (ret, tmp, t1) = rt710_read_reg 0x01 t in
        if ret \<noteq> 0 then (ret, gain, t1)
        else
          let g = unat (drop_bit 4 (tmp AND 0xf0) OR push_bit 4 (tmp AND 0x01)) in
          (0, if rt_chip t1 = RT710_CHIP_TYPE_RT710 then rt710_gain_of g else gain, t1))"

definition rt710_get_rf_signal_strength :: "int \<Rightarrow> 's rt710_tuner \<Rightarrow> int \<times> int \<times> 's rt710_tuner" where
  "rt710_get_rf_signal_strength ss t =
     (let (ret, gain, t1) = rt710_get_rf_gain (unat (rt_junk t)) t in
      if ret \<noteq> 0 then (ret, ss, t1)
      else if rt_chip t1 = RT710_CHIP_TYPE_RT710 then
        let tmp = (if rt_freq t1 < 1200000 then 190 else if rt_freq t1 < 1800000 then 170 else 140)
        in if gain < length rt710_lna_acc_gain then (0, (tmp + rt710_lna_acc_gain ! gain) * -100, t1)
           else (- EFAULT, ss, t1\<lparr>rt_ub := True\<rparr>)
      else if gain < length rt720_lna_acc_gain then (0, (70 + rt720_lna_acc_gain ! gain) * -100, t1)
      else (- EFAULT, ss, t1\<lparr>rt_ub := True\<rparr>))"

end
