(* ===== verification/Rt710_Props.thy ===== *)
theory Rt710_Props
  imports Rt710
begin

text \<open>
  The synthesizer of the satellite tuner: for the crystals the boards have, the divider words that
  \<^verbatim>\<open>rt710_set_pll\<close> computes stand for the requested frequency within the correction the driver
  makes on purpose, and no division by zero can happen.
\<close>

section \<open>The sigma-delta loop\<close>

definition T :: "nat \<Rightarrow> nat \<Rightarrow> nat" where
  "T xtal k = (xtal * 2) div 2 ^ k"

lemma T_Suc: "T xtal (Suc k) = T xtal k div 2"
  unfolding T_def power_Suc2 by (rule div_mult2_eq)

lemma T_step: "T xtal k \<le> 2 * T xtal (Suc k) + 1"
  unfolding T_Suc by presburger

lemma T_exact: "65536 * T xtal k \<le> 2 ^ (16 - k) * (2 * xtal)" "2 ^ (16 - k) * (2 * xtal) < 65536 * (T xtal k + 1)"
  if "k \<le> 16"
proof -
  have p: "2 ^ (16 - k) * 2 ^ k = (65536 :: nat)" using that by (simp flip: power_add)
  have "65536 * T xtal k = 2 ^ (16 - k) * (2 ^ k * T xtal k)" using p by (simp only: mult.assoc [symmetric])
  also have "\<dots> \<le> 2 ^ (16 - k) * (2 * xtal)" by (simp add: T_def mult.commute)
  finally show "65536 * T xtal k \<le> 2 ^ (16 - k) * (2 * xtal)" .
  have "2 * xtal < 2 ^ k * (T xtal k + 1)" unfolding T_def
    by (metis add.commute dividend_less_times_div mult.commute plus_1_eq_Suc zero_less_numeral zero_less_power mult_Suc_right)
  then have "2 ^ (16 - k) * (2 * xtal) < 2 ^ (16 - k) * (2 ^ k * (T xtal k + 1))" by simp
  also have "\<dots> = 65536 * (T xtal k + 1)" using p by (simp only: mult.assoc [symmetric])
  finally show "2 ^ (16 - k) * (2 * xtal) < 65536 * (T xtal k + 1)" .
qed

lemma T_last:
  assumes "xtal \<le> 32767"
  shows "T xtal 15 \<le> 1" "T xtal 14 \<le> 3"
proof -
  have "T xtal 15 = (xtal * 2) div 32768" by (simp add: T_def)
  then show "T xtal 15 \<le> 1" using assms by linarith
  have "T xtal 14 = (xtal * 2) div 16384" by (simp add: T_def)
  then show "T xtal 14 \<le> 3" using assms by linarith
qed

lemma sdm_weight:
  assumes "1 \<le> k" "k \<le> 15"
  shows "0x8000 div 2 ^ (k - 1) = (2 :: nat) ^ (16 - k)"
proof -
  have e: "(0x8000 :: nat) = 2 ^ (16 - k) * 2 ^ (k - 1)" using assms by (simp flip: power_add)
  show ?thesis unfolding e by simp
qed

lemma sdm_loop_accurate:
  assumes "xtal \<le> 32767" "1 \<le> k" "k \<le> 15" "fra \<le> T xtal (k - 1) + (k - 1)" "sdm + 2 ^ (17 - k) \<le> 65536"
  shows "\<exists>x. sdm_loop xtal k fra sdm = Some (sdm + x) \<and> sdm + x < 65536 \<and>
    - (65536 * (15 - int k)) \<le> 65536 * int fra - int x * (2 * int xtal) \<and>
    65536 * int fra - int x * (2 * int xtal) \<le> 65536 * 17"
  using assms
proof (induction xtal k fra sdm rule: sdm_loop.induct)
  case (1 xtal k fra sdm)
  note unf = sdm_loop.simps [of xtal k fra sdm] and P = "1.prems"
  have pw: "(2 :: nat) ^ (17 - k) = 2 * 2 ^ (16 - k)" using P(3) by (simp flip: power_Suc add: Suc_diff_le)
  have pos: "(0 :: nat) < 2 ^ (16 - k)" by simp
  let ?t = "T xtal k"
  have bnd: "fra \<le> 2 * ?t + k" using P(2,4) T_step [of xtal "k - 1"] by simp
  have k16: "\<not> k \<ge> 16" using P(3) by simp
  have sd: "(sdm + 0x8000 div 2 ^ (k - 1)) mod 2 ^ 16 = sdm + 2 ^ (16 - k)"
  proof -
    have "sdm + 2 ^ (16 - k) < 65536" using P(5) pw pos by linarith
    then show ?thesis unfolding sdm_weight [OF P(2,3)] by simp
  qed
  show ?case
  proof (cases "fra \<le> 1")
    case True
    then have "sdm_loop xtal k fra sdm = Some sdm" by (simp add: unf)
    moreover have "sdm < 65536" using P(5) pw pos by linarith
    ultimately show ?thesis using True P(3) by (intro exI [of _ 0]) simp
  next
    case fra1: False
    note unf1 = unf [unfolded if_not_P [OF fra1] if_not_P [OF k16] Let_def sd T_def [symmetric]]
    show ?thesis
    proof (cases "fra > ?t")
      case big: True
      show ?thesis
      proof (cases "k \<ge> 15")
        case True
        then have k: "k = 15" using P(3) by simp
        have "fra \<le> 17" using P(4) T_last(2) [OF P(1)] by (simp add: k)
        then have "65536 * int fra - 2 * (2 * int xtal) \<le> 65536 * 17" "0 \<le> 65536 * int fra - 2 * (2 * int xtal)"
          using fra1 P(1) by simp_all
        moreover have "sdm_loop xtal k fra sdm = Some (sdm + 2)" using unf1 big True by (simp add: k)
        moreover have "sdm + 2 < 65536" using P(5) by (simp add: k)
        ultimately show ?thesis by (intro exI [of _ 2]) (simp add: k)
      next
        case False
        have "sdm_loop xtal k fra sdm = sdm_loop xtal (k + 1) (fra - ?t) (sdm + 2 ^ (16 - k))"
          using unf1 big False by simp
        moreover have "fra - ?t \<le> T xtal (k + 1 - 1) + (k + 1 - 1)" using bnd by simp
        moreover have "sdm + 2 ^ (16 - k) + 2 ^ (17 - (k + 1)) \<le> 65536" using P(5) pw by simp
        ultimately obtain x where x: "sdm_loop xtal k fra sdm = Some (sdm + 2 ^ (16 - k) + x)"
            "sdm + 2 ^ (16 - k) + x < 65536"
            "- (65536 * (15 - int (k + 1))) \<le> 65536 * int (fra - ?t) - int x * (2 * int xtal)"
            "65536 * int (fra - ?t) - int x * (2 * int xtal) \<le> 65536 * 17"
          using "1.IH"(1) [OF fra1 k16 refl _ sd [symmetric]] big False P(1) by (auto simp: T_def)
        let ?y = "2 ^ (16 - k) + x"
        define u where "u = 65536 * int ?t - int (2 ^ (16 - k) * (2 * xtal))"
        define v where "v = 65536 * int (fra - ?t) - int x * (2 * int xtal)"
        have e: "65536 * int fra - int ?y * (2 * int xtal) = u + v"
          using big by (simp add: u_def v_def algebra_simps of_nat_diff)
        define z where "z = 2 ^ (16 - k) * (2 * xtal)"
        have "65536 * ?t \<le> z" "z < 65536 * (?t + 1)" using T_exact [of k xtal] P(3) by (simp_all add: z_def)
        then have "- 65536 \<le> u" "u \<le> 0" unfolding u_def z_def [symmetric] by simp_all
        moreover have "- (65536 * (14 - int k)) \<le> v" "v \<le> 65536 * 17" using x(3,4) by (simp_all add: v_def)
        ultimately have "- (65536 * (15 - int k)) \<le> u + v" "u + v \<le> 65536 * 17" by simp_all
        then show ?thesis using x(1,2) unfolding e [symmetric] by (intro exI [of _ ?y]) (simp add: add.assoc)
      qed
    next
      case small: False
      have k: "\<not> k \<ge> 15"
      proof
        assume "k \<ge> 15"
        then have "k = 15" using P(3) by simp
        then show False using small fra1 T_last(1) [OF P(1)] by simp
      qed
      have "sdm_loop xtal k fra sdm = sdm_loop xtal (k + 1) fra sdm" using unf1 small by simp
      moreover have "fra \<le> T xtal (k + 1 - 1) + (k + 1 - 1)" using small by simp
      moreover have "sdm + 2 ^ (17 - (k + 1)) \<le> 65536" using P(5) pw by simp
      ultimately obtain x where "sdm_loop xtal k fra sdm = Some (sdm + x)" "sdm + x < 65536"
          "- (65536 * (15 - int (k + 1))) \<le> 65536 * int fra - int x * (2 * int xtal)"
          "65536 * int fra - int x * (2 * int xtal) \<le> 65536 * 17"
        using "1.IH"(2) [OF fra1 k16 refl] small k P(1) by (auto simp: T_def)
      then show ?thesis by (intro exI [of _ x]) simp
    qed
  qed
qed

section \<open>The divider\<close>

lemma mix_loop_found:
  assumes "146875 \<le> freq" "freq \<le> 2350000"
  shows "mix_loop freq 1 \<in> {1..4} \<and> VCO_MIN \<le> vco_of freq (mix_loop freq 1) \<and> vco_of freq (mix_loop freq 1) \<le> 2 * VCO_MIN \<and>
    vco_of freq (mix_loop freq 1) = freq * 2 ^ mix_loop freq 1 \<and> (587500 \<le> freq \<longrightarrow> mix_loop freq 1 \<le> 2)"
proof -
  have v: "vco_of freq 1 = freq * 2" "vco_of freq 2 = freq * 4" "vco_of freq 3 = freq * 8" "vco_of freq 4 = freq * 16"
    using assms(2) by (simp_all add: vco_of_def)
  have ok: "mix_loop freq k = (if VCO_MIN \<le> vco_of freq k \<and> vco_of freq k \<le> VCO_MIN * 2 then k else mix_loop freq j)"
    if "k \<le> 4" "j = k + 1" for k j using that by (subst mix_loop.simps) simp
  have e1: "mix_loop freq 1 = (if 2350000 \<le> freq * 2 \<and> freq * 2 \<le> 4700000 then 1 else mix_loop freq 2)"
    by (subst ok [of 1 2]) (simp_all add: VCO_MIN_def v(1) [simplified])
  have e2: "mix_loop freq 2 = (if 2350000 \<le> freq * 4 \<and> freq * 4 \<le> 4700000 then 2 else mix_loop freq 3)"
    by (subst ok [of 2 3]) (simp_all add: VCO_MIN_def v)
  have e3: "mix_loop freq 3 = (if 2350000 \<le> freq * 8 \<and> freq * 8 \<le> 4700000 then 3 else mix_loop freq 4)"
    by (subst ok [of 3 4]) (simp_all add: VCO_MIN_def v)
  have e4: "mix_loop freq 4 = (if 2350000 \<le> freq * 16 \<and> freq * 16 \<le> 4700000 then 4 else mix_loop freq 5)"
    by (subst ok [of 4 5]) (simp_all add: VCO_MIN_def v)
  consider "1175000 \<le> freq" | "587500 \<le> freq" "freq < 1175000" | "293750 \<le> freq" "freq < 587500" | "freq < 293750"
    by linarith
  then show ?thesis
  proof cases
    case 1
    then have "mix_loop freq 1 = 1" using e1 assms by simp
    then show ?thesis using v 1 assms by (simp add: VCO_MIN_def)
  next
    case 2
    then have "mix_loop freq 1 = 2" using e1 e2 by simp
    then show ?thesis using v 2 by (simp add: VCO_MIN_def)
  next
    case 3
    then have "mix_loop freq 1 = 3" using e1 e2 e3 by simp
    then show ?thesis using v 3 by (simp add: VCO_MIN_def)
  next
    case 4
    then have "mix_loop freq 1 = 4" using e1 e2 e3 e4 assms by simp
    then show ?thesis using v 4 assms by (simp add: VCO_MIN_def)
  qed
qed

lemma pll_split:
  assumes "16384 \<le> xtal" "xtal \<le> 32767" "VCO_MIN \<le> vco" "vco \<le> 2 * VCO_MIN"
  shows "35 \<le> pll_nint xtal vco" "pll_nint xtal vco \<le> 143" "vco = 2 * xtal * pll_nint xtal vco + pll_fra xtal vco"
    "pll_fra xtal vco < 2 * xtal"
proof -
  let ?q = "vco div (2 * xtal)"
  have x: "0 < xtal" using assms(1) by simp
  have "?q \<le> 143"
  proof -
    have "?q \<le> 4700000 div (2 * xtal)" using assms(4) by (intro div_le_mono) (simp add: VCO_MIN_def)
    also have "\<dots> \<le> 4700000 div 32768" using assms(1) by (intro div_le_mono2) simp_all
    finally show ?thesis by simp
  qed
  moreover have "35 \<le> ?q" using assms x by (simp add: less_eq_div_iff_mult_less_eq VCO_MIN_def)
  moreover have n: "pll_nint xtal vco = ?q" using \<open>?q \<le> 143\<close> by (simp add: pll_nint_def div_mult2_eq)
  ultimately show "35 \<le> pll_nint xtal vco" "pll_nint xtal vco \<le> 143" by simp_all
  have le: "xtal * 2 * ?q \<le> vco" by (metis mult.commute times_div_less_eq_dividend)
  then have s: "(xtal * 2 * ?q) mod 2 ^ 32 = xtal * 2 * ?q" "vco < 2 ^ 32" using assms(4) by (simp_all add: VCO_MIN_def)
  have r: "vco - xtal * 2 * ?q = vco mod (2 * xtal)" by (metis minus_mult_div_eq_mod mult.commute)
  have lt: "vco mod (2 * xtal) < 2 * xtal" using x by simp
  have "pll_fra xtal vco = (vco - xtal * 2 * ?q + 2 ^ 32) mod 2 ^ 16"
    unfolding pll_fra_def n s(1) using le by simp
  also have "\<dots> = vco mod (2 * xtal)"
  proof -
    have p: "(2 :: nat) ^ 32 = 2 ^ 16 * 2 ^ 16" by simp
    show ?thesis unfolding r p mod_mult_self1 using lt assms(2) by simp
  qed
  finally have f: "pll_fra xtal vco = vco mod (2 * xtal)" .
  show "vco = 2 * xtal * pll_nint xtal vco + pll_fra xtal vco" unfolding n f by simp
  show "pll_fra xtal vco < 2 * xtal" unfolding f by (rule lt)
qed

text \<open>The correction against spurs moves the ratio by at most a 64th of the crystal.\<close>

lemma spur_correction_close:
  assumes "0 < xtal" "fra < 2 * xtal"
    "fra < xtal div 64 \<and> n' = nint \<and> f' = 0 \<or>
     fra > xtal * 127 div 64 \<and> n' = nint + 1 \<and> f' = 0 \<or>
     fra > xtal * 127 div 128 \<and> fra < xtal \<and> n' = nint \<and> f' = xtal * 127 div 128 \<or>
     fra > xtal \<and> fra < xtal * 129 div 128 \<and> n' = nint \<and> f' = xtal * 129 div 128 \<or>
     n' = nint \<and> f' = fra"
  shows "nint \<le> n' \<and> n' \<le> nint + 1 \<and> f' < 2 * xtal \<and>
    \<bar>(2 * int xtal * int nint + int fra) - (2 * int xtal * int n' + int f')\<bar> \<le> int (xtal div 64) + 2"
  using assms(3)
proof (elim disjE conjE)
  assume hi: "fra > xtal * 127 div 64" "n' = nint + 1" "f' = 0"
  have "2 * int xtal * int n' = 2 * int xtal * int nint + 2 * int xtal" using hi(2) by (simp add: algebra_simps)
  moreover have "2 * xtal \<le> xtal * 127 div 64 + xtal div 64 + 2" by linarith
  ultimately show ?thesis using hi assms by auto
next
  assume m1: "fra > xtal * 127 div 128" "fra < xtal" "n' = nint" "f' = xtal * 127 div 128"
  have "xtal \<le> xtal * 127 div 128 + xtal div 64 + 2" by linarith
  then show ?thesis using m1 assms by auto
next
  assume m2: "fra > xtal" "fra < xtal * 129 div 128" "n' = nint" "f' = xtal * 129 div 128"
  have "xtal * 129 div 128 \<le> xtal + xtal div 64 + 2" "xtal * 129 div 128 < 2 * xtal" using assms(1) by linarith+
  then show ?thesis using m2 assms by auto
qed (use assms in auto)

lemma ratio_error:
  assumes "vco = 2 * xtal * n0 + f0"
    "\<bar>(2 * int xtal * int n0 + int f0) - (2 * int xtal * int nint + int fra)\<bar> \<le> int (xtal div 64) + 2"
    "- (65536 * (15 - int 1)) \<le> 65536 * int fra - int x * (2 * int xtal)"
    "65536 * int fra - int x * (2 * int xtal) \<le> 65536 * 17"
  shows "\<bar>65536 * int vco - (65536 * int nint + int x) * (2 * int xtal)\<bar> \<le> 65536 * (int (xtal div 64) + 19)"
proof -
  define d where "d = (2 * int xtal * int n0 + int f0) - (2 * int xtal * int nint + int fra)"
  define e where "e = 65536 * int fra - int x * (2 * int xtal)"
  have v: "int vco = 2 * int xtal * int n0 + int f0" using arg_cong [OF assms(1), of int] by simp
  have eq: "65536 * int vco - (65536 * int nint + int x) * (2 * int xtal) = 65536 * d + e"
    unfolding v d_def e_def by (simp add: algebra_simps)
  have "\<bar>d\<bar> \<le> int (xtal div 64) + 2" using assms(2) by (simp add: d_def)
  moreover have "\<bar>e\<bar> \<le> 65536 * 17" using assms(3,4) by (simp add: e_def)
  moreover have "\<bar>65536 * d + e\<bar> \<le> 65536 * (q + 19)" if "\<bar>d\<bar> \<le> q + 2" "\<bar>e\<bar> \<le> 65536 * 17" for q :: int
    using that by (simp add: abs_le_iff)
  ultimately show ?thesis unfolding eq by blast
qed

lemma pll_adjust_close:
  assumes "16384 \<le> xtal" "xtal \<le> 32767" "35 \<le> nint" "nint \<le> 143" "fra < 2 * xtal" "pll_adjust xtal nint fra = (n', f')"
  shows "35 \<le> n'" "n' \<le> 144" "f' < 2 * xtal"
    "\<bar>(2 * int xtal * int nint + int fra) - (2 * int xtal * int n' + int f')\<bar> \<le> int (xtal div 64) + 2"
proof -
  have m: "(xtal * 127 div 128) mod 2 ^ 16 = xtal * 127 div 128" "(xtal * 129 div 128) mod 2 ^ 16 = xtal * 129 div 128"
    "(nint + 1) mod 256 = nint + 1"
    using assms(2,4) by simp_all
  have "nint \<le> n' \<and> n' \<le> nint + 1 \<and> f' < 2 * xtal \<and>
      \<bar>(2 * int xtal * int nint + int fra) - (2 * int xtal * int n' + int f')\<bar> \<le> int (xtal div 64) + 2"
    by (rule spur_correction_close) (use assms in \<open>auto simp: pll_adjust_def m split: if_splits\<close>)
  then show "35 \<le> n'" "n' \<le> 144" "f' < 2 * xtal"
    "\<bar>(2 * int xtal * int nint + int fra) - (2 * int xtal * int n' + int f')\<bar> \<le> int (xtal div 64) + 2"
    using assms(3,4) by simp_all
qed

text \<open>The register that holds the integer part.\<close>

definition reg5_nint :: "u8 \<Rightarrow> nat" where
  "reg5_nint r = 13 + 4 * unat (r AND 0x3f) + unat (drop_bit 6 r)"

lemma reg5_decodes: "n \<in> {35..144} \<Longrightarrow> reg5_nint (pll_reg5 n) = n"
proof -
  have "list_all (\<lambda>n. reg5_nint (pll_reg5 n) = n) [35..<145]" by code_simp
  moreover assume "n \<in> {35..144}"
  then have "n \<in> set [35..<145]" unfolding set_upt by simp
  ultimately show ?thesis unfolding list_all_iff by blast
qed

section \<open>What is programmed\<close>

lemma wr_keeps: "wr i w = (ret, w') \<Longrightarrow> fst w' = fst w \<and> rt_ub (snd w') = rt_ub (snd w) \<and>
    rt_config (snd w') = rt_config (snd w) \<and> rt_freq (snd w') = rt_freq (snd w) \<and> rt_chip (snd w') = rt_chip (snd w)"
  by (auto simp: wr_def rt710_write_regs_def Let_def split: prod.splits if_splits)

lemma upd_result: "upd i f w = (ret, w') \<longleftrightarrow> ret = 0 \<and> w' = ((fst w)[i := f (fst w ! i)], snd w)"
  by (auto simp: upd_def)

lemma set_pll_720_length: "set_pll_720 d w = (0, w') \<Longrightarrow> length (fst w') = length (fst w)"
  by (auto simp: set_pll_720_def run_all_zero upd_result simp del: run_all.simps(2) dest!: wr_keeps split: if_splits)

text \<open>
  The divider as the chip reads it: the low bit of register 4 tells 2 from 4, on an RT720 bit 4 of
  register 8 says that it is four times as much, with the low bit the other way round.
\<close>

definition pll_divider :: "rt710_chip_type \<Rightarrow> u8 list \<Rightarrow> nat" where
  "pll_divider chip regs =
     (if chip = RT710_CHIP_TYPE_RT720 \<and> bit (regs ! 8) 4
      then (if bit (regs ! 4) 0 then 16 else 8)
      else (if bit (regs ! 4) 0 then 2 else 4))"

lemma set_pll_720_bits:
  assumes "set_pll_720 d w = (0, w')" "length (fst w) = 16"
  shows "bit (fst w' ! 4) 0 = bit (fst w ! 4) 0"
    "rt_chip (snd w) = RT710_CHIP_TYPE_RT720 \<Longrightarrow> bit (fst w' ! 8) 4 = bit d 1"
proof -
  have m: "bit ((r AND 0x3f) OR (if d \<le> 1 then 0x40 else 0x80) :: u8) 0 = bit r 0"
    "bit ((r AND 0xef) OR (push_bit 3 d AND 0x10) :: u8) 4 = bit d 1" for r
    by (simp_all add: bit_simps)
  show "bit (fst w' ! 4) 0 = bit (fst w ! 4) 0" using assms m
    by (auto simp: set_pll_720_def run_all_zero upd_result simp del: run_all.simps(2)
        dest!: wr_keeps split: if_splits)
  show "bit (fst w' ! 8) 4 = bit d 1" if "rt_chip (snd w) = RT710_CHIP_TYPE_RT720" using assms m that
    by (auto simp: set_pll_720_def run_all_zero upd_result simp del: run_all.simps(2)
        dest!: wr_keeps split: if_splits)
qed

lemma div_num_bits:
  "k \<in> {1..4} \<Longrightarrow> bit (pll_div_num k) 0 = (k = 1 \<or> k = 4) \<and> bit (pll_div_num k) 1 = (3 \<le> k)"
  by (auto simp: pll_div_num_def bit_simps atLeastAtMost_iff le_Suc_eq numeral_eq_Suc)

lemma pll_divider_decodes:
  assumes "k \<in> {1..4}" "bit (regs ! 4) 0 = bit (pll_div_num k) 0"
    "chip = RT710_CHIP_TYPE_RT720 \<Longrightarrow> bit (regs ! 8) 4 = bit (pll_div_num k) 1"
    "chip = RT710_CHIP_TYPE_RT720 \<or> k \<le> 2"
  shows "pll_divider chip regs = 2 ^ k"
proof -
  consider "k = 1" | "k = 2" | "k = 3" | "k = 4" using assms(1) by force
  then show ?thesis using assms(2-4) div_num_bits [OF assms(1)]
    by cases (auto simp: pll_divider_def)
qed

text \<open>The sequence of the function leaves the divider words in the register copy.\<close>

lemma set_pll_regs:
  assumes "rt710_set_pll freq (regs, t) = (0, (regs', t'))" "length regs = 16" "xtal = rt_xtal (rt_config t)" "xtal \<noteq> 0"
    "vco = vco_of freq (mix_loop freq 1)" "pll_adjust xtal (pll_nint xtal vco) (pll_fra xtal vco) = (nint, fra)"
  shows "\<exists>sdm. sdm_loop xtal 1 fra 0 = Some sdm \<and> regs' ! 5 = pll_reg5 nint \<and> regs' ! 7 = hi8 (of_nat sdm) \<and>
    regs' ! 6 = lo8 (of_nat sdm) \<and> rt_freq t' = freq \<and>
    bit (regs' ! 4) 0 = bit (pll_div_num (mix_loop freq 1)) 0 \<and>
    (rt_chip t = RT710_CHIP_TYPE_RT720 \<longrightarrow> bit (regs' ! 8) 4 = bit (pll_div_num (mix_loop freq 1)) 1)"
proof -
  define dn where "dn = pll_div_num (mix_loop freq 1)"
  let ?seq = "[set_freq_priv 0, upd 0x04 (\<lambda>r. (r AND 0xfe) OR (dn AND 0x01)), wr 0x04, set_pll_720 dn,
      upd 0x05 (\<lambda>_. pll_reg5 nint), wr 0x05, upd 0x04 (\<lambda>r. if fra = 0 then r OR 0x02 else r), wr 0x04,
      set_sdm xtal fra, set_freq_priv freq]"
  have "run_all ?seq (regs, t) = (0, (regs', t'))"
    using assms unfolding rt710_set_pll_def Let_def snd_conv assms(3) [symmetric] assms(5) [symmetric] assms(6) prod.case
      dn_def [symmetric] by simp
  then obtain w1 w2 w3 w4 w5 w6 w7 where s: "upd 0x04 (\<lambda>r. (r AND 0xfe) OR (dn AND 0x01)) (regs, t\<lparr>rt_freq := 0\<rparr>) = (0, w1)"
      "wr 0x04 w1 = (0, w2)" "set_pll_720 dn w2 = (0, w3)"
      "upd 0x05 (\<lambda>_. pll_reg5 nint) w3 = (0, w4)" "wr 0x05 w4 = (0, w5)"
      "upd 0x04 (\<lambda>r. if fra = 0 then r OR 0x02 else r) w5 = (0, w6)" "wr 0x04 w6 = (0, w7)"
      "run_all [set_sdm xtal fra, set_freq_priv freq] w7 = (0, (regs', t'))"
    unfolding run_all_zero set_freq_priv_def by auto
  obtain w8 where t: "set_sdm xtal fra w7 = (0, w8)" "regs' = fst w8" "rt_freq t' = freq"
    using s(8) unfolding run_all_zero set_freq_priv_def by auto
  have w2: "length (fst w2) = 16" "fst w2 ! 4 = (regs ! 4 AND 0xfe) OR (dn AND 0x01)"
      "rt_chip (snd w2) = rt_chip t"
    using s(1,2) assms(2) by (auto simp: upd_result dest!: wr_keeps)
  have l3: "length (fst w3) = 16" using w2(1) set_pll_720_length [OF s(3)] by simp
  have "bit (fst w2 ! 4) 0 = bit dn 0" unfolding w2(2) by (simp add: bit_simps)
  then have b3: "bit (fst w3 ! 4) 0 = bit dn 0"
    "rt_chip t = RT710_CHIP_TYPE_RT720 \<Longrightarrow> bit (fst w3 ! 8) 4 = bit dn 1"
    using set_pll_720_bits [OF s(3) w2(1)] w2(3) by simp_all
  have o: "bit ((r OR 0x02) :: u8) 0 = bit r 0" for r by (simp add: bit_simps)
  have f7: "fst w7 = (fst w3)[5 := pll_reg5 nint, 4 := (if fra = 0 then fst w3 ! 4 OR 0x02 else fst w3 ! 4)]"
    using s(4-7) by (auto simp: upd_result dest!: wr_keeps)
  have r7: "length (fst w7) = 16" "fst w7 ! 5 = pll_reg5 nint" "bit (fst w7 ! 4) 0 = bit dn 0"
    "rt_chip t = RT710_CHIP_TYPE_RT720 \<Longrightarrow> bit (fst w7 ! 8) 4 = bit dn 1"
    by (simp_all add: f7 l3 b3 o)
  obtain sdm where sdm: "sdm_loop xtal 1 fra 0 = Some sdm"
    using t(1) by (cases "sdm_loop xtal 1 fra 0") (simp_all add: set_sdm_def rt_raise_ub_def)
  have "fst w8 = (fst w7)[7 := hi8 (of_nat sdm), 6 := lo8 (of_nat sdm)]"
    using t(1) unfolding set_sdm_def sdm option.case
    by (auto simp: run_all_zero upd_result simp del: run_all.simps(2) dest!: wr_keeps)
  then show ?thesis using sdm r7 t(2,3) by (simp add: dn_def)
qed

lemma step_ub:
  "rt_ub (snd (snd (upd i f w))) = rt_ub (snd w)" "rt_ub (snd (snd (wr i w))) = rt_ub (snd w)"
  "rt_ub (snd (snd (set_freq_priv q w))) = rt_ub (snd w)"
  using wr_keeps [of i w "fst (wr i w)" "snd (wr i w)"] by (simp_all add: upd_def set_freq_priv_def)

lemma run_all_ub:
  assumes "\<And>f w. f \<in> set fs \<Longrightarrow> rt_ub (snd (snd (f w))) = rt_ub (snd w)"
  shows "rt_ub (snd (snd (run_all fs w))) = rt_ub (snd w)"
  using run_all_inv [of fs "\<lambda>v. rt_ub (snd v) = rt_ub (snd w)" w] assms by simp

lemma set_pll_720_ub: "rt_ub (snd (snd (set_pll_720 d w))) = rt_ub (snd w)"
proof -
  have "rt_ub (snd (snd (run_all [upd 0x08 f, wr 0x08, upd 0x04 g, upd 0x0c h, wr 0x04, wr 0x0c] w))) = rt_ub (snd w)"
    for f g h by (rule run_all_ub) (auto simp: step_ub)
  then show ?thesis by (simp add: set_pll_720_def del: run_all.simps)
qed

lemma set_sdm_ub:
  assumes "sdm_loop xtal 1 fra 0 = Some sdm"
  shows "rt_ub (snd (snd (set_sdm xtal fra w))) = rt_ub (snd w)"
  unfolding set_sdm_def assms option.case by (rule run_all_ub) (auto simp: step_ub)

lemma sdm_ends:
  assumes "xtal \<le> 32767" "fra < 2 * xtal"
  shows "\<exists>x. sdm_loop xtal 1 fra 0 = Some x"
proof -
  have "fra \<le> T xtal (1 - 1) + (1 - 1)" using assms(2) by (simp add: T_def)
  then show ?thesis using sdm_loop_accurate [OF assms(1), of 1 fra 0] by auto
qed

lemma set_pll_ub:
  assumes "rt710_set_pll freq (regs, t) = (ret, (regs', t'))" "xtal = rt_xtal (rt_config t)"
    "16384 \<le> xtal" "xtal \<le> 32767" "146875 \<le> freq" "freq \<le> 2350000"
  shows "rt_ub t' = rt_ub t"
proof -
  define vco where "vco = vco_of freq (mix_loop freq 1)"
  note S = pll_split [OF assms(3,4), of vco]
  obtain nint fra where adj: "pll_adjust xtal (pll_nint xtal vco) (pll_fra xtal vco) = (nint, fra)" by fastforce
  have "VCO_MIN \<le> vco" "vco \<le> 2 * VCO_MIN" using mix_loop_found [OF assms(5,6)] by (simp_all add: vco_def)
  then have "fra < 2 * xtal" using pll_adjust_close(3) [OF assms(3,4) S(1,2,4) adj] by simp
  then obtain sdm where "sdm_loop xtal 1 fra 0 = Some sdm" using sdm_ends [OF assms(4)] by blast
  note sd = set_sdm_ub [OF this]
  have x0: "xtal \<noteq> 0" using assms(3) by simp
  have "rt_ub (snd (snd (rt710_set_pll freq (regs, t)))) = rt_ub (snd (regs, t))"
    unfolding rt710_set_pll_def Let_def snd_conv assms(2) [symmetric] vco_def [symmetric] adj prod.case if_not_P [OF x0]
    by (subst run_all_ub) (auto simp: step_ub set_pll_720_ub sd)
  then show ?thesis using assms(1) by simp
qed

text \<open>C23: with a crystal between 16384 and 32767 kHz and a frequency from 146875 to 2350000 kHz, every
  step of the synthesizer setup is well defined: the divider search ends on one of the four dividers and
  the fraction loop ends without dividing by zero. When the setup reports success, the words left in the
  registers stand for a division ratio of the crystal that gives the requested frequency, times the
  divider that the divider bits left in the registers select, within a 64th of the crystal, the
  driver's own correction against spurs, and 19 kHz. This is for every frequency on an RT720 and from
  587500 kHz on an RT710, which has the bit for the dividers 2 and 4 only; below, on an RT710, the
  ratio left is the one for a divider of 8 or 16.\<close>

theorem rt710_pll_accurate:
  assumes "rt710_set_pll freq (regs, t) = (ret, (regs', t'))" "length regs = 16" "xtal = rt_xtal (rt_config t)"
    "16384 \<le> xtal" "xtal \<le> 32767" "146875 \<le> freq" "freq \<le> 2350000"
    "divider = pll_divider (rt_chip t) regs'"
    "ratio = 65536 * int (reg5_nint (regs' ! 5)) + int (unat (be16 (regs' ! 7) (regs' ! 6)))"
    "err = 65536 * (int (xtal div 64) + 19)"
  shows "rt_ub t' = rt_ub t \<and> (ret = 0 \<longrightarrow> rt_freq t' = freq \<and>
    (if rt_chip t = RT710_CHIP_TYPE_RT720 \<or> 587500 \<le> freq
     then \<bar>65536 * int (freq * divider) - ratio * (2 * int xtal)\<bar> \<le> err
     else \<exists>d \<in> {8, 16}. \<bar>65536 * int (freq * d) - ratio * (2 * int xtal)\<bar> \<le> err))"
proof (cases "ret = 0")
  case False
  then show ?thesis using set_pll_ub [OF assms(1,3-7)] by simp
next
  case True
  define k where "k = mix_loop freq 1"
  define vco where "vco = vco_of freq k"
  have K: "k \<in> {1..4}" "VCO_MIN \<le> vco" "vco \<le> 2 * VCO_MIN" "vco = freq * 2 ^ k"
    using mix_loop_found [OF assms(6,7)] by (simp_all add: k_def vco_def)
  note S = pll_split [OF assms(4,5) K(2,3)]
  obtain nint fra where adj: "pll_adjust xtal (pll_nint xtal vco) (pll_fra xtal vco) = (nint, fra)" by fastforce
  note A = pll_adjust_close [OF assms(4,5) S(1,2,4) adj]
  have x0: "xtal \<noteq> 0" using assms(4) by simp
  obtain sdm where R: "sdm_loop xtal 1 fra 0 = Some sdm" "regs' ! 5 = pll_reg5 nint" "regs' ! 7 = hi8 (of_nat sdm)"
      "regs' ! 6 = lo8 (of_nat sdm)" "rt_freq t' = freq"
      "bit (regs' ! 4) 0 = bit (pll_div_num k) 0"
      "rt_chip t = RT710_CHIP_TYPE_RT720 \<Longrightarrow> bit (regs' ! 8) 4 = bit (pll_div_num k) 1"
    unfolding k_def using set_pll_regs [OF assms(1) [unfolded True] assms(2,3) x0 vco_def [unfolded k_def] adj] by blast
  have "fra \<le> T xtal (1 - 1) + (1 - 1)" using A(3) by (simp add: T_def)
  then obtain x where x: "sdm_loop xtal 1 fra 0 = Some (0 + x)" "0 + x < 65536"
      "- (65536 * (15 - int 1)) \<le> 65536 * int fra - int x * (2 * int xtal)"
      "65536 * int fra - int x * (2 * int xtal) \<le> 65536 * 17"
    using sdm_loop_accurate [OF assms(5), of 1 fra 0] by auto
  have sx: "sdm = x" using R(1) x(1) by simp
  have n: "reg5_nint (regs' ! 5) = nint" using reg5_decodes A(1,2) R(2) by simp
  have f: "unat (be16 (regs' ! 7) (regs' ! 6)) = x" using R(3,4) sx x(2) by (simp add: unat_of_nat)
  have "\<bar>65536 * int vco - (65536 * int nint + int x) * (2 * int xtal)\<bar> \<le> 65536 * (int (xtal div 64) + 19)"
    by (rule ratio_error [OF S(3) A(4) x(3,4)])
  then have acc: "\<bar>65536 * int (freq * 2 ^ k) - ratio * (2 * int xtal)\<bar> \<le> err"
    unfolding K(4) assms(9,10) n f by simp
  have dec: "divider = 2 ^ k" if "rt_chip t = RT710_CHIP_TYPE_RT720 \<or> k \<le> 2"
    unfolding assms(8) by (rule pll_divider_decodes [OF K(1) R(6,7) that])
  have "rt_chip t = RT710_CHIP_TYPE_RT720 \<or> k \<le> 2" if "587500 \<le> freq"
    using mix_loop_found [OF assms(6,7)] that by (simp add: k_def)
  moreover have "k \<in> {3, 4}" if "freq < 587500"
  proof -
    have "k = 3 \<or> k = 4 \<or> k = 1 \<or> k = 2" using K(1) by force
    then show ?thesis using K(2,4) that by (auto simp: VCO_MIN_def)
  qed
  then have "2 ^ k \<in> {8, 16 :: nat}" if "freq < 587500" using that by fastforce
  ultimately show ?thesis using acc dec R(5) set_pll_ub [OF assms(1,3-7)]
    by (cases "587500 \<le> freq") (auto simp del: of_nat_mult)
qed

text \<open>A tuner on a bus that accepts everything, set to the first BS transponder.\<close>

definition demo_tuner :: "unit rt710_tuner" where
  "demo_tuner = \<lparr> rt_i2c = \<lparr> i2c_gate_ctrl = None, i2c_request = Some (\<lambda>reqs s. (0, reqs, s)) \<rparr>, rt_addr = 0x7a,
     rt_config = \<lparr> rt_xtal = 24000, rt_loop_through = False, rt_clock_out = False,
       rt_signal_output_mode = RT710_SIGNAL_OUTPUT_DIFFERENTIAL, rt_agc_mode = RT710_AGC_POSITIVE,
       rt_vga_atten_mode = RT710_VGA_ATTEN_OFF, rt_fine_gain = RT710_FINE_GAIN_3DB, rt_scan_mode = RT710_SCAN_MANUAL \<rparr>,
     rt_init = True, rt_chip = RT710_CHIP_TYPE_RT710, rt_freq = 0, rt_s = (), rt_junk = 0, rt_ub = False \<rparr>"

definition demo_ok :: "unit rt_work \<Rightarrow> bool" where
  "demo_ok w \<longleftrightarrow> rt_i2c (snd w) = rt_i2c demo_tuner"

lemma demo_steps:
  "demo_ok w \<Longrightarrow> fst (upd i f w) = 0 \<and> demo_ok (snd (upd i f w))"
  "demo_ok w \<Longrightarrow> i < 16 \<Longrightarrow> fst (wr i w) = 0 \<and> demo_ok (snd (wr i w))"
  "demo_ok w \<Longrightarrow> fst (set_freq_priv q w) = 0 \<and> demo_ok (snd (set_freq_priv q w))"
  by (auto simp: demo_ok_def upd_def wr_def rt710_write_regs_def i2c_comm_master_request_def demo_tuner_def
      set_freq_priv_def)

lemma demo_720:
  assumes "demo_ok w"
  shows "fst (set_pll_720 d w) = 0 \<and> demo_ok (snd (set_pll_720 d w))"
proof (cases "rt_chip (snd w) = RT710_CHIP_TYPE_RT720")
  case True
  show ?thesis unfolding set_pll_720_def if_P [OF True]
    by (rule run_all_returns_0 [of _ demo_ok, OF _ assms]) (use demo_steps in auto)
qed (use assms in \<open>simp add: set_pll_720_def\<close>)

lemma demo_sdm:
  assumes "sdm_loop xtal 1 fra 0 = Some sdm" "demo_ok w"
  shows "fst (set_sdm xtal fra w) = 0 \<and> demo_ok (snd (set_sdm xtal fra w))"
  unfolding set_sdm_def assms(1) option.case
  by (rule run_all_returns_0 [of _ demo_ok, OF _ assms(2)]) (use demo_steps in auto)

theorem rt710_pll_accurate_witness:
  "\<exists>regs t. rt710_set_pll 1049480 (rt710_init_regs, demo_tuner) = (0, (regs, t)) \<and> \<not> rt_ub t \<and> rt_freq t = 1049480"
proof -
  have c: "length rt710_init_regs = 16" "24000 = rt_xtal (rt_config demo_tuner)" "\<not> rt_ub demo_tuner"
    by (simp_all add: rt710_init_regs_def demo_tuner_def)
  define vco where "vco = vco_of 1049480 (mix_loop 1049480 1)"
  obtain nint fra where adj: "pll_adjust 24000 (pll_nint 24000 vco) (pll_fra 24000 vco) = (nint, fra)" by fastforce
  have v: "VCO_MIN \<le> vco" "vco \<le> 2 * VCO_MIN" using mix_loop_found [of 1049480] by (simp_all add: vco_def)
  then have "fra < 2 * 24000" using pll_adjust_close(3) [OF _ _ pll_split(1,2,4) [OF _ _ v] adj] by simp
  then obtain sdm where sdm: "sdm_loop 24000 1 fra 0 = Some sdm" using sdm_ends [of 24000 fra] by auto
  have "demo_ok (rt710_init_regs, demo_tuner)" by (simp add: demo_ok_def)
  then have "fst (rt710_set_pll 1049480 (rt710_init_regs, demo_tuner)) = 0"
    unfolding rt710_set_pll_def Let_def snd_conv c(2) [symmetric] vco_def [symmetric] adj prod.case
    by (intro conjunct1 [OF run_all_returns_0 [of _ demo_ok]]) (use demo_steps demo_720 demo_sdm [OF sdm] in auto)
  then obtain regs t where r: "rt710_set_pll 1049480 (rt710_init_regs, demo_tuner) = (0, (regs, t))"
    by (metis prod.collapse)
  show ?thesis using rt710_pll_accurate [OF r c(1,2) _ _ _ _ refl refl refl] c(3) r by auto
qed

end
