(* ===== verification/R850_Tables.thy ===== *)
theory R850_Tables
  imports Rt710
begin

text \<open>
  Data of driver/r850.c, the driver of the RafaelMicro R850 terrestrial tuner: its types and its
  tables. Frequencies are in kHz. The parameters of a frequency range are a list of the 34 bytes of
  \<^verbatim>\<open>struct r850_system_frequency_params\<close>; the abbreviations \<open>f_\<close>\dots are the positions of its fields.
\<close>

section \<open>Types\<close>

record r850_config =
  r8_xtal :: nat
  r8_loop_through :: bool
  r8_clock_out :: bool
  r8_no_imr_calibration :: bool
  r8_no_lpf_calibration :: bool

datatype r850_system =
  R850_SYSTEM_UNDEFINED | R850_SYSTEM_DVB_T | R850_SYSTEM_DVB_T2 | R850_SYSTEM_DVB_T2_1 | R850_SYSTEM_DVB_C |
  R850_SYSTEM_J83B | R850_SYSTEM_ISDB_T | R850_SYSTEM_DTMB | R850_SYSTEM_ATSC | R850_SYSTEM_FM

datatype r850_bandwidth = R850_BANDWIDTH_6M | R850_BANDWIDTH_7M | R850_BANDWIDTH_8M

record r850_system_config =
  sys_system :: r850_system
  sys_bandwidth :: r850_bandwidth
  sys_if_freq :: nat

record r850_imr =
  imr_gain :: u8
  imr_phase :: u8
  imr_iqcap :: u8
  imr_value :: u8

record r850_imr_cal =
  ic_imr :: "r850_imr list"
  ic_done :: bool
  ic_result :: "bool list"
  ic_mixer_amp_lpf :: u8

datatype r850_imr_direction = R850_IMR_DIRECTION_GAIN | R850_IMR_DIRECTION_PHASE

datatype r850_calibration = R850_CALIBRATION_NONE | R850_CALIBRATION_IMR | R850_CALIBRATION_LPF

text \<open>
  \<^verbatim>\<open>struct r850_tuner\<close> with its private part; \<open>r8_s\<close> is the state of the bus below, \<open>r8_junk\<close> the value of
  an uninitialised byte, \<open>r8_ub\<close> is raised where C divides by zero.
\<close>

record 's r850_tuner =
  r8_i2c :: "'s i2c_comm_master"
  r8_addr :: u8
  r8_config :: r850_config
  r8_init :: bool
  r8_chip :: nat
  r8_xtal_pwr :: u8
  r8_regs :: "u8 list"
  r8_sys :: r850_system_config
  r8_mixer_mode :: nat
  r8_mixer_amp_lpf_imr_cal :: u8
  r8_imr_cal :: "r850_imr_cal list"
  r8_sys_curr :: r850_system_config
  r8_s :: 's
  r8_junk :: u8
  r8_ub :: bool

record r850_lpf_params =
  lpf_code :: u8
  lpf_bandwidth :: u8
  lpf_lsb :: u8

record r850_system_params =
  sp_bandwidth :: r850_bandwidth
  sp_if_freq :: nat
  sp_filt_cal_if :: nat
  sp_bw :: u8
  sp_filt_ext_ena :: u8
  sp_hpf_notch :: u8
  sp_hpf_cor :: u8
  sp_filt_comp :: u8
  sp_img_gain :: u8
  sp_agc_clk :: u8
  sp_lpf :: r850_lpf_params

definition sysprm ::
    "r850_bandwidth \<Rightarrow> nat \<Rightarrow> nat \<Rightarrow> u8 \<Rightarrow> u8 \<Rightarrow> u8 \<Rightarrow> u8 \<Rightarrow> u8 \<Rightarrow> u8 \<Rightarrow> u8 \<Rightarrow> u8 \<Rightarrow> u8 \<Rightarrow> u8 \<Rightarrow> r850_system_params" where
  "sysprm b f cal bw ext notch cor cmp img agc code lbw lsb =
     \<lparr>sp_bandwidth = b, sp_if_freq = f, sp_filt_cal_if = cal, sp_bw = bw, sp_filt_ext_ena = ext, sp_hpf_notch = notch,
      sp_hpf_cor = cor, sp_filt_comp = cmp, sp_img_gain = img, sp_agc_clk = agc,
      sp_lpf = \<lparr>lpf_code = code, lpf_bandwidth = lbw, lpf_lsb = lsb\<rparr>\<rparr>"

record r850_system_frequency_params =
  sf_if_freq :: nat
  sf_rf_freq_min :: nat
  sf_rf_freq_max :: nat
  sf_bytes :: "u8 list"

definition freqprm :: "nat \<Rightarrow> nat \<Rightarrow> nat \<Rightarrow> u8 list \<Rightarrow> r850_system_frequency_params" where
  "freqprm f lo hi bs = \<lparr>sf_if_freq = f, sf_rf_freq_min = lo, sf_rf_freq_max = hi, sf_bytes = bs\<rparr>"

abbreviation (input) f_lna_top :: nat where "f_lna_top \<equiv> 0"
abbreviation (input) f_lna_vtl_h :: nat where "f_lna_vtl_h \<equiv> 1"
abbreviation (input) f_lna_nrb_det :: nat where "f_lna_nrb_det \<equiv> 2"
abbreviation (input) f_lna_rf_dis_mode :: nat where "f_lna_rf_dis_mode \<equiv> 3"
abbreviation (input) f_lna_rf_charge_cur :: nat where "f_lna_rf_charge_cur \<equiv> 4"
abbreviation (input) f_lna_rf_dis_curr :: nat where "f_lna_rf_dis_curr \<equiv> 5"
abbreviation (input) f_lna_dis_slow_fast :: nat where "f_lna_dis_slow_fast \<equiv> 6"
abbreviation (input) f_rf_top :: nat where "f_rf_top \<equiv> 7"
abbreviation (input) f_rf_vtl_h :: nat where "f_rf_vtl_h \<equiv> 8"
abbreviation (input) f_rf_gain_limit :: nat where "f_rf_gain_limit \<equiv> 9"
abbreviation (input) f_rf_dis_slow_fast :: nat where "f_rf_dis_slow_fast \<equiv> 10"
abbreviation (input) f_rf_lte_psg :: nat where "f_rf_lte_psg \<equiv> 11"
abbreviation (input) f_nrb_top :: nat where "f_nrb_top \<equiv> 12"
abbreviation (input) f_nrb_bw_hpf :: nat where "f_nrb_bw_hpf \<equiv> 13"
abbreviation (input) f_nrb_bw_lpf :: nat where "f_nrb_bw_lpf \<equiv> 14"
abbreviation (input) f_mixer_top :: nat where "f_mixer_top \<equiv> 15"
abbreviation (input) f_mixer_vth :: nat where "f_mixer_vth \<equiv> 16"
abbreviation (input) f_mixer_vtl :: nat where "f_mixer_vtl \<equiv> 17"
abbreviation (input) f_mixer_amp_lpf :: nat where "f_mixer_amp_lpf \<equiv> 18"
abbreviation (input) f_mixer_gain_limit :: nat where "f_mixer_gain_limit \<equiv> 19"
abbreviation (input) f_mixer_detbw_lpf :: nat where "f_mixer_detbw_lpf \<equiv> 20"
abbreviation (input) f_mixer_filter_dis :: nat where "f_mixer_filter_dis \<equiv> 21"
abbreviation (input) f_filter_top :: nat where "f_filter_top \<equiv> 22"
abbreviation (input) f_filter_vth :: nat where "f_filter_vth \<equiv> 23"
abbreviation (input) f_filter_vtl :: nat where "f_filter_vtl \<equiv> 24"
abbreviation (input) f_filt_3th_lpf_cur :: nat where "f_filt_3th_lpf_cur \<equiv> 25"
abbreviation (input) f_filt_3th_lpf_gain :: nat where "f_filt_3th_lpf_gain \<equiv> 26"
abbreviation (input) f_bb_dis_curr :: nat where "f_bb_dis_curr \<equiv> 27"
abbreviation (input) f_bb_det_mode :: nat where "f_bb_det_mode \<equiv> 28"
abbreviation (input) f_na_pwr_det :: nat where "f_na_pwr_det \<equiv> 29"
abbreviation (input) f_enb_poly_gain :: nat where "f_enb_poly_gain \<equiv> 30"
abbreviation (input) f_img_nrb_adder :: nat where "f_img_nrb_adder \<equiv> 31"
abbreviation (input) f_hpf_comp :: nat where "f_hpf_comp \<equiv> 32"
abbreviation (input) f_fb_res_1st :: nat where "f_fb_res_1st \<equiv> 33"

section \<open>Tables\<close>

definition r850_init_regs :: "u8 list" where
  "r850_init_regs =
     [0x00, 0x00, 0x00, 0x00, 0x00, 0x00, 0x00, 0x00, 0xca, 0xc0, 0x72, 0x50, 0x00, 0xe0, 0x00, 0x30,
      0x86, 0xbb, 0xf8, 0xb0, 0xd2, 0x81, 0xcd, 0x46, 0x37, 0x40, 0x89, 0x8c, 0x55, 0x95, 0x07, 0x23,
      0x21, 0xf1, 0x4c, 0x5f, 0xc4, 0x20, 0xa9, 0x6c, 0x53, 0xab, 0x5b, 0x46, 0xb3, 0x93, 0x6e, 0x41]"

definition r850_imr_cal_regs :: "u8 list" where
  "r850_imr_cal_regs =
     [0x00, 0x00, 0x00, 0x00, 0x00, 0x00, 0x00, 0x00, 0xc0, 0x49, 0x3a, 0x90, 0x03, 0xc1, 0x61, 0x71,
      0x17, 0xf1, 0x18, 0x55, 0x30, 0x20, 0xf3, 0xed, 0x1f, 0x1c, 0x81, 0x13, 0x00, 0x80, 0x0a, 0x07,
      0x21, 0x71, 0x54, 0xf1, 0xf2, 0xa9, 0xbb, 0x0b, 0xa3, 0xf6, 0x0b, 0x44, 0x92, 0x17, 0xe6, 0x80]"

definition r850_lpf_cal_regs :: "u8 list" where
  "r850_lpf_cal_regs =
     [0x00, 0x00, 0x00, 0x00, 0x00, 0x00, 0x00, 0x00, 0xc0, 0x49, 0x3f, 0x90, 0x13, 0xe1, 0x89, 0x7a,
      0x07, 0xf1, 0x9a, 0x50, 0x30, 0x20, 0xe1, 0x00, 0x00, 0x04, 0x81, 0x11, 0xef, 0xee, 0x17, 0x07,
      0x31, 0x71, 0x54, 0xb2, 0xee, 0xa9, 0xbb, 0x0b, 0xa3, 0x00, 0x0b, 0x44, 0x92, 0x1f, 0xe6, 0x80]"

definition dvb_t_t2_params :: "r850_system_params list list" where
  "dvb_t_t2_params =
     [[sysprm R850_BANDWIDTH_6M 4570 7550 1 0 0 0x08 1 0 0 0x01 3 1,
       sysprm R850_BANDWIDTH_7M 4570 7920 1 0 0 0x0b 1 0 0 0x04 2 0,
       sysprm R850_BANDWIDTH_8M 4570 8450 0 0 0 0x0c 1 0 0 0x01 2 0,
       sysprm R850_BANDWIDTH_6M 5000 7920 1 0 0 0x06 1 0 0 0x06 2 1,
       sysprm R850_BANDWIDTH_7M 5000 8450 0 0 0 0x09 1 0 0 0x00 2 1,
       sysprm R850_BANDWIDTH_8M 5000 8700 0 0 0 0x0a 1 0 0 0x06 0 1],
      [sysprm R850_BANDWIDTH_6M 4570 7550 1 0 0 0x08 1 3 1 0x01 3 1,
       sysprm R850_BANDWIDTH_7M 4570 7920 1 0 0 0x0b 1 3 1 0x04 2 0,
       sysprm R850_BANDWIDTH_8M 4570 8450 0 0 0 0x0c 1 3 1 0x01 2 0,
       sysprm R850_BANDWIDTH_6M 5000 7920 1 0 0 0x06 1 3 1 0x06 2 1,
       sysprm R850_BANDWIDTH_7M 5000 8450 0 0 0 0x09 1 3 1 0x00 2 1,
       sysprm R850_BANDWIDTH_8M 5000 8700 0 0 0 0x0a 1 3 1 0x06 0 1]]"

definition dvb_t2_1_params :: "r850_system_params list list" where
  "dvb_t2_1_params =
     [[sysprm R850_BANDWIDTH_7M 1900 7920 1 0 0 0x08 1 0 0 0x04 2 0,
       sysprm R850_BANDWIDTH_7M 5000 6000 2 0 0 0x01 1 0 0 0x0b 3 1],
      [sysprm R850_BANDWIDTH_7M 1900 7920 1 0 0 0x08 1 3 1 0x04 2 0,
       sysprm R850_BANDWIDTH_7M 5000 6000 2 0 0 0x01 1 3 1 0x0b 3 1]]"

definition dvb_c_params :: "r850_system_params list list" where
  "dvb_c_params =
     [[sysprm R850_BANDWIDTH_6M 5070 8100 1 0 0 0x05 1 0 0 0x02 2 0,
       sysprm R850_BANDWIDTH_8M 5070 9550 0 0 0 0x0b 1 0 0 0x04 0 0,
       sysprm R850_BANDWIDTH_6M 5000 7780 1 0 0 0x06 1 0 0 0x01 2 1,
       sysprm R850_BANDWIDTH_8M 5000 9250 0 0 0 0x0b 1 0 0 0x05 0 1],
      [sysprm R850_BANDWIDTH_6M 5070 8100 1 0 0 0x05 1 3 1 0x02 2 0,
       sysprm R850_BANDWIDTH_8M 5070 9550 0 0 0 0x0b 1 3 1 0x04 0 0,
       sysprm R850_BANDWIDTH_6M 5000 7780 1 0 0 0x06 1 3 1 0x01 2 1,
       sysprm R850_BANDWIDTH_8M 5000 9250 0 0 0 0x0b 1 3 1 0x05 0 1]]"

definition j83b_params :: "r850_system_params list list" where
  "j83b_params =
     [[sysprm R850_BANDWIDTH_6M 5070 8100 1 0 0 0x05 1 0 0 0x03 2 1,
       sysprm R850_BANDWIDTH_6M 5000 7550 1 0 0 0x05 1 0 0 0x05 2 1],
      [sysprm R850_BANDWIDTH_6M 5070 8100 1 0 0 0x05 1 3 1 0x03 2 1,
       sysprm R850_BANDWIDTH_6M 5000 7550 1 0 0 0x05 1 3 1 0x05 2 1]]"

definition isdb_t_params :: "r850_system_params list list" where
  "isdb_t_params =
     [[sysprm R850_BANDWIDTH_6M 4063 7070 1 0 0 0x08 1 0 0 0x02 3 1,
       sysprm R850_BANDWIDTH_6M 4570 7400 1 0 0 0x05 1 0 0 0x08 2 0,
       sysprm R850_BANDWIDTH_6M 5000 7780 1 1 0 0x03 1 0 0 0x05 2 0],
      [sysprm R850_BANDWIDTH_6M 4063 7070 1 0 0 0x0a 1 3 1 0x02 3 1,
       sysprm R850_BANDWIDTH_6M 4570 7400 1 0 0 0x08 1 3 1 0x08 2 0,
       sysprm R850_BANDWIDTH_6M 5000 7780 1 0 0 0x03 1 3 1 0x05 2 0]]"

definition dtmb_params :: "r850_system_params list list" where
  "dtmb_params =
     [[sysprm R850_BANDWIDTH_6M 4500 7200 1 0 0 0x08 1 0 0 0x02 3 1,
       sysprm R850_BANDWIDTH_8M 4570 8450 0 0 0 0x0c 1 0 0 0x00 2 1,
       sysprm R850_BANDWIDTH_6M 5000 8100 1 0 0 0x06 1 0 0 0x04 2 1,
       sysprm R850_BANDWIDTH_8M 5000 8800 0 0 0 0x0b 2 0 0 0x05 0 1],
      [sysprm R850_BANDWIDTH_6M 4500 7200 1 0 0 0x08 1 3 1 0x02 3 1,
       sysprm R850_BANDWIDTH_8M 4570 8450 0 0 0 0x0c 1 3 1 0x00 2 1,
       sysprm R850_BANDWIDTH_6M 5000 8100 1 0 0 0x06 1 3 1 0x04 2 1,
       sysprm R850_BANDWIDTH_8M 5000 8800 0 0 0 0x0b 2 3 1 0x05 0 1]]"

definition atsc_params :: "r850_system_params list list" where
  "atsc_params =
     [[sysprm R850_BANDWIDTH_6M 5070 8050 1 0 0 0x05 1 0 0 0x03 2 0,
       sysprm R850_BANDWIDTH_6M 5000 7920 1 0 0 0x05 1 0 0 0x04 2 0],
      [sysprm R850_BANDWIDTH_6M 5070 8050 1 0 0 0x05 1 3 1 0x03 2 0,
       sysprm R850_BANDWIDTH_6M 5000 7920 1 0 0 0x05 1 3 1 0x04 2 0]]"

definition dvb_t_t2_freq_params :: "r850_system_frequency_params list" where
  "dvb_t_t2_freq_params =
     [freqprm 0 0 340000 [5, 0x5a, 0, 1, 1, 1, 0x05, 4, 0x5a, 0, 0x05, 1, 5, 0, 2, 9, 0x09, 0x04, 4, 3, 0, 2, 4, 0x09, 0x04, 1, 3, 0, 0, 1, 0, 2, 1, 1],
      freqprm 0 662001 670000 [4, 0x5a, 0, 4, 1, 1, 0x05, 4, 0x5a, 0, 0x05, 1, 4, 0, 2, 9, 0x09, 0x04, 4, 3, 0, 2, 4, 0x09, 0x04, 1, 3, 0, 0, 1, 0, 2, 1, 1],
      freqprm 0 782001 790000 [5, 0x5a, 0, 2, 0, 1, 0x05, 4, 0x5a, 0, 0x05, 1, 4, 0, 2, 9, 0x09, 0x04, 4, 3, 0, 2, 4, 0x09, 0x04, 1, 3, 0, 0, 1, 0, 2, 1, 1],
      freqprm 0 0 0 [4, 0x5a, 0, 1, 1, 1, 0x05, 4, 0x5a, 0, 0x05, 1, 4, 0, 2, 9, 0x09, 0x04, 4, 3, 0, 2, 4, 0x09, 0x04, 1, 3, 0, 0, 1, 0, 2, 1, 1]]"

definition dvb_c_freq_params :: "r850_system_frequency_params list" where
  "dvb_c_freq_params =
     [freqprm 0 0 660000 [4, 0x5a, 0, 1, 1, 1, 0x05, 4, 0x4a, 0, 0x05, 0, 5, 0, 2, 12, 0x09, 0x04, 4, 2, 0, 0, 12, 0x09, 0x04, 1, 0, 1, 0, 1, 1, 2, 1, 1],
      freqprm 0 0 0 [4, 0x5a, 0, 1, 1, 1, 0x05, 3, 0x4a, 0, 0x05, 0, 5, 0, 2, 12, 0x09, 0x04, 4, 2, 0, 0, 12, 0x09, 0x04, 1, 0, 1, 0, 1, 1, 1, 1, 1]]"

definition j83b_freq_params :: "r850_system_frequency_params list" where
  "j83b_freq_params =
     [freqprm 0 0 335000 [5, 0x5a, 0, 1, 1, 1, 0x05, 4, 0x4a, 0, 0x05, 0, 5, 0, 0, 12, 0x09, 0x04, 7, 2, 0, 0, 12, 0x09, 0x04, 1, 0, 1, 0, 1, 1, 2, 1, 1],
      freqprm 0 340001 660000 [5, 0x5a, 0, 1, 1, 1, 0x05, 4, 0x4a, 0, 0x05, 0, 5, 0, 0, 12, 0x09, 0x04, 7, 2, 0, 0, 12, 0x09, 0x04, 1, 0, 1, 0, 1, 1, 2, 1, 1],
      freqprm 0 0 0 [4, 0x5a, 0, 1, 1, 1, 0x05, 3, 0x4a, 0, 0x05, 0, 5, 0, 0, 12, 0x09, 0x04, 7, 2, 0, 0, 12, 0x09, 0x04, 1, 0, 1, 0, 1, 1, 1, 1, 1]]"

definition isdb_t_freq_params :: "r850_system_frequency_params list" where
  "isdb_t_freq_params =
     [freqprm 4063 0 340000 [5, 0x6b, 0, 1, 1, 1, 0x05, 5, 0x4a, 0, 0x05, 1, 12, 0, 2, 15, 0x09, 0x04, 7, 3, 0, 0, 12, 0x09, 0x04, 1, 0, 1, 0, 1, 0, 2, 2, 1],
      freqprm 4063 470000 487999 [6, 0x8c, 0, 1, 1, 1, 0x05, 5, 0x6b, 0, 0x05, 1, 3, 0, 2, 14, 0x09, 0x04, 7, 3, 0, 0, 12, 0x09, 0x04, 1, 3, 1, 0, 1, 1, 3, 2, 1],
      freqprm 4063 680000 691999 [5, 0x5a, 0, 2, 1, 1, 0x07, 6, 0x6b, 0, 0x04, 1, 3, 0, 2, 14, 0x09, 0x05, 7, 3, 0, 0, 12, 0x09, 0x04, 1, 3, 1, 0, 0, 1, 3, 2, 1],
      freqprm 4063 692000 697999 [5, 0x5b, 0, 2, 1, 1, 0x07, 6, 0x6b, 0, 0x04, 1, 10, 0, 3, 12, 0x09, 0x05, 7, 3, 0, 0, 12, 0x09, 0x04, 1, 3, 1, 0, 0, 1, 2, 2, 1],
      freqprm 4063 0 0 [5, 0x5a, 0, 1, 1, 1, 0x05, 6, 0x6b, 0, 0x05, 1, 3, 0, 2, 14, 0x09, 0x04, 7, 3, 0, 0, 12, 0x09, 0x04, 1, 3, 1, 0, 1, 1, 3, 2, 1],
      freqprm 0 0 340000 [5, 0x6b, 0, 1, 1, 1, 0x05, 5, 0x4a, 0, 0x05, 1, 12, 0, 2, 15, 0x0b, 0x06, 7, 3, 0, 0, 12, 0x09, 0x04, 1, 0, 1, 0, 1, 0, 2, 2, 1],
      freqprm 0 470000 487999 [5, 0x5a, 0, 2, 1, 1, 0x07, 6, 0x6b, 0, 0x04, 1, 3, 0, 2, 14, 0x09, 0x05, 7, 3, 0, 0, 12, 0x09, 0x04, 1, 3, 1, 0, 0, 1, 3, 2, 1],
      freqprm 0 680000 691999 [5, 0x5b, 0, 2, 1, 1, 0x07, 6, 0x6b, 0, 0x04, 1, 10, 0, 3, 12, 0x09, 0x05, 7, 3, 0, 0, 12, 0x09, 0x04, 1, 3, 1, 0, 0, 1, 2, 2, 1],
      freqprm 0 692000 697999 [5, 0x5a, 0, 1, 1, 1, 0x05, 6, 0x6b, 0, 0x05, 1, 3, 0, 2, 14, 0x09, 0x04, 7, 3, 0, 0, 12, 0x09, 0x04, 1, 3, 1, 0, 1, 1, 3, 2, 1],
      freqprm 0 0 0 [5, 0x5a, 0, 1, 1, 1, 0x05, 6, 0x6b, 0, 0x05, 1, 3, 0, 2, 14, 0x09, 0x04, 7, 3, 0, 0, 12, 0x09, 0x04, 1, 3, 1, 0, 1, 1, 3, 2, 1]]"

definition dtmb_freq_params :: "r850_system_frequency_params list" where
  "dtmb_freq_params =
     [freqprm 0 0 100000 [4, 0x6b, 0, 1, 1, 1, 0x05, 4, 0x4a, 0, 0x05, 1, 10, 3, 3, 9, 0x09, 0x04, 4, 1, 0, 2, 4, 0x09, 0x04, 0, 0, 0, 0, 1, 0, 1, 0, 0],
      freqprm 0 0 340000 [4, 0x6b, 0, 1, 1, 1, 0x05, 4, 0x4a, 0, 0x05, 1, 10, 0, 2, 9, 0x09, 0x04, 4, 1, 0, 2, 4, 0x09, 0x04, 0, 0, 0, 0, 1, 0, 1, 0, 0],
      freqprm 0 0 0 [4, 0x5a, 0, 1, 1, 1, 0x05, 4, 0x4a, 0, 0x05, 1, 6, 3, 2, 9, 0x09, 0x04, 4, 1, 0, 2, 4, 0x09, 0x04, 0, 3, 0, 0, 1, 0, 0, 0, 0]]"

definition atsc_freq_params :: "r850_system_frequency_params list" where
  "atsc_freq_params =
     [freqprm 0 0 340000 [6, 0x5a, 0, 1, 1, 1, 0x05, 5, 0x6b, 0, 0x05, 1, 12, 2, 2, 12, 0x0b, 0x04, 7, 2, 1, 2, 6, 0x09, 0x04, 1, 0, 0, 0, 1, 0, 1, 2, 1],
      freqprm 0 0 0 [6, 0x5a, 0, 1, 1, 1, 0x05, 5, 0x6b, 0, 0x05, 1, 12, 2, 2, 12, 0x0b, 0x04, 7, 2, 1, 2, 6, 0x09, 0x04, 1, 3, 0, 0, 1, 0, 1, 2, 1]]"

fun sys_params :: "r850_system \<Rightarrow> r850_system_params list list" where
  "sys_params R850_SYSTEM_DVB_T = dvb_t_t2_params"
| "sys_params R850_SYSTEM_DVB_T2 = dvb_t_t2_params"
| "sys_params R850_SYSTEM_DVB_T2_1 = dvb_t2_1_params"
| "sys_params R850_SYSTEM_DVB_C = dvb_c_params"
| "sys_params R850_SYSTEM_J83B = j83b_params"
| "sys_params R850_SYSTEM_ISDB_T = isdb_t_params"
| "sys_params R850_SYSTEM_DTMB = dtmb_params"
| "sys_params R850_SYSTEM_ATSC = atsc_params"
| "sys_params _ = [[], []]"

fun sys_freq_params :: "r850_system \<Rightarrow> r850_system_frequency_params list" where
  "sys_freq_params R850_SYSTEM_DVB_T = dvb_t_t2_freq_params"
| "sys_freq_params R850_SYSTEM_DVB_T2 = dvb_t_t2_freq_params"
| "sys_freq_params R850_SYSTEM_DVB_T2_1 = dvb_t_t2_freq_params"
| "sys_freq_params R850_SYSTEM_DVB_C = dvb_c_freq_params"
| "sys_freq_params R850_SYSTEM_J83B = j83b_freq_params"
| "sys_freq_params R850_SYSTEM_ISDB_T = isdb_t_freq_params"
| "sys_freq_params R850_SYSTEM_DTMB = dtmb_freq_params"
| "sys_freq_params R850_SYSTEM_ATSC = atsc_freq_params"
| "sys_freq_params _ = []"

end
