(* ===== verification/R850.thy ===== *)
theory R850
  imports R850_Tables
begin

text \<open>
  Model of the functions of driver/r850.c. The driver keeps a copy of the chip's registers, changes bits
  of it line by line and sends parts of it; \<open>reg_op\<close> is one such line, \<open>regs_do\<close> a sequence of them.
  Arithmetic on \<^verbatim>\<open>u32\<close> and \<^verbatim>\<open>u16\<close> values is on natural numbers with the wrap-around written out. Code
  that is disabled with \<^verbatim>\<open>#if 0\<close>, the bodies of sleep and wakeup among it, is not part of the program.
\<close>

section \<open>Registers\<close>

datatype reg_op = R_and nat u8 | R_or nat u8 | R_set nat u8

fun reg_op_do :: "reg_op \<Rightarrow> u8 list \<Rightarrow> u8 list" where
  "reg_op_do (R_and i m) r = r[i := r ! i AND m]"
| "reg_op_do (R_or i m) r = r[i := r ! i OR m]"
| "reg_op_do (R_set i v) r = r[i := v]"

definition regs_do :: "reg_op list \<Rightarrow> 's r850_tuner call" where
  "regs_do ops t = (0, t\<lparr>r8_regs := fold reg_op_do ops (r8_regs t)\<rparr>)"

text \<open>\<^verbatim>\<open>(x << n) & m\<close> on a byte.\<close>

abbreviation (input) sh :: "nat \<Rightarrow> u8 \<Rightarrow> u8 \<Rightarrow> u8" where "sh n x m \<equiv> push_bit n x AND m"

definition r850_read_regs :: "nat \<Rightarrow> u8 list \<Rightarrow> 's r850_tuner \<Rightarrow> int \<times> u8 list \<times> 's r850_tuner" where
  "r850_read_regs reg buf t =
     (if buf = [] \<or> int (length buf) > 0x30 - int reg then (- EINVAL, buf, t)
      else
        let n = reg + length buf;
            b = 0x00 # replicate (n - 1) (r8_junk t);
            (ret, reqs, s) = i2c_comm_master_request (r8_i2c t)
              [I2C_WRITE_REQUEST (ucast (r8_addr t)) [0x00], I2C_READ_REQUEST (ucast (r8_addr t)) b] (r8_s t);
            t1 = t\<lparr>r8_s := s\<rparr>
        in (ret, if ret \<noteq> 0 then buf else map reverse_bit (drop reg (req_data (reqs ! 1))), t1))"

definition r850_read_reg :: "nat \<Rightarrow> u8 \<Rightarrow> 's r850_tuner \<Rightarrow> int \<times> u8 \<times> 's r850_tuner" where
  "r850_read_reg reg v t = (let (ret, buf, t1) = r850_read_regs reg [v] t in (ret, hd buf, t1))"

definition r850_write_regs :: "nat \<Rightarrow> u8 list \<Rightarrow> 's r850_tuner call" where
  "r850_write_regs reg buf t =
     (if buf = [] \<or> int (length buf) > 0x30 - int reg then (- EINVAL, t)
      else
        let (ret, _, s) = i2c_comm_master_request (r8_i2c t)
              [I2C_WRITE_REQUEST (ucast (r8_addr t)) (of_nat reg # buf)] (r8_s t)
        in (ret, t\<lparr>r8_s := s\<rparr>))"

text \<open>\<open>r850_write_regs(t, reg, &t->priv.regs[reg], len)\<close>\<close>

definition regs_send :: "nat \<Rightarrow> nat \<Rightarrow> 's r850_tuner call" where
  "regs_send reg len t = r850_write_regs reg (take len (drop reg (r8_regs t))) t"

definition r850_load_regs :: "u8 list \<Rightarrow> 's r850_tuner call" where
  "r850_load_regs rs t = (0, t\<lparr>r8_regs := rs\<rparr>)"

section \<open>The synthesizer\<close>

definition xtal_cap_ops :: "u8 \<Rightarrow> u8 list \<Rightarrow> reg_op list" where
  "xtal_cap_ops cap r =
     (let g = cap > 0x1f; c = (if g then cap - 10 else cap) in
      [R_set 0x21 ((r ! 0x21 AND 0x07) OR sh 2 c 0x78 OR (if g then 0x80 else 0x00)),
       R_set 0x22 ((r ! 0x22 AND 0xf7) OR sh 3 c 0x08)])"

definition r850_set_xtal_cap :: "u8 \<Rightarrow> 's r850_tuner call" where
  "r850_set_xtal_cap cap t = regs_do (xtal_cap_ops cap (r8_regs t)) t"

definition xtal_pwr_bits :: "u8 \<Rightarrow> nat \<Rightarrow> u8" where
  "xtal_pwr_bits pwr lo =
     (if lo < 100000 then (if pwr > 1 then 3 - pwr else 2)
      else if lo < 130000 then (if pwr > 2 then 3 - pwr else 1)
      else 0)"

definition div_judge_of :: "nat \<Rightarrow> nat \<Rightarrow> nat" where
  "div_judge_of lo ifq = ((lo + ifq) mod 2 ^ 32 div 1000 div 12) mod 2 ^ 16"

definition r850_vco_min :: "nat \<Rightarrow> nat" where
  "r850_vco_min chip = 2200000 + (if chip = 0 then 70000 else 0)"

text \<open>\<^verbatim>\<open>mix_div\<close> is \<open>2 ^ (div + 1)\<close>.\<close>

definition r850_vco :: "nat \<Rightarrow> nat \<Rightarrow> nat" where
  "r850_vco lo d = (lo * 2 ^ (d + 1)) mod 2 ^ 32"

function r850_div_loop :: "nat \<Rightarrow> nat \<Rightarrow> nat \<Rightarrow> nat" where
  "r850_div_loop vmin lo d =
     (if d < 6 then
        (if vmin \<le> r850_vco lo d \<and> r850_vco lo d < vmin * 2 then d else r850_div_loop vmin lo (d + 1))
      else d)"
  by pat_completeness auto

termination r850_div_loop
  by (relation "measure (\<lambda>(vmin, lo, d). 6 - d)") auto

declare r850_div_loop.simps [simp del]

text \<open>The crystal divider: the reference frequency, the bits of register 0x22 and \<^verbatim>\<open>xtal_div\<close>.\<close>

definition xtal_choice :: "r850_system \<Rightarrow> nat \<Rightarrow> nat \<Rightarrow> nat \<Rightarrow> nat \<times> u8" where
  "xtal_choice sys lo ifq xtal =
     (if sys \<noteq> R850_SYSTEM_UNDEFINED then
        if lo < 380500 then
          (if even (div_judge_of lo ifq) then (xtal div 2, 0x02) else (xtal, 0x00))
        else if ((lo + ifq) mod 2 ^ 32 + 2 ^ 32 - 478000) mod 2 ^ 32 < 4000 \<and> sys = R850_SYSTEM_ISDB_T then
          (xtal div 4, 0x03)
        else (xtal, 0x00)
      else (xtal, 0x00))"

definition r850_nint :: "nat \<Rightarrow> nat \<Rightarrow> nat" where
  "r850_nint xtal vco = (vco div 2 div xtal) mod 2 ^ 16"

definition r850_fra :: "nat \<Rightarrow> nat \<Rightarrow> nat" where
  "r850_fra xtal vco = (vco + 2 ^ 32 - (xtal * 2 * r850_nint xtal vco) mod 2 ^ 32) mod 2 ^ 16"

definition r850_adjust :: "nat \<Rightarrow> nat \<Rightarrow> nat \<Rightarrow> nat \<times> nat" where
  "r850_adjust xtal nint fra =
     (if fra < xtal div 64 then (nint, 0)
      else if fra > xtal * 127 div 64 then ((nint + 1) mod 2 ^ 16, 0)
      else if fra > xtal * 127 div 128 \<and> xtal > fra then (nint, (xtal * 127 div 128) mod 2 ^ 16)
      else if xtal < fra \<and> fra < xtal * 129 div 128 then (nint, (xtal * 129 div 128) mod 2 ^ 16)
      else (nint, fra))"

definition r850_ni :: "nat \<Rightarrow> u8" where
  "r850_ni nint = of_int ((int nint - 13) div 4 + (if int nint < 13 \<and> (int nint - 13) mod 4 \<noteq> 0 then 1 else 0))"

definition r850_si :: "nat \<Rightarrow> u8" where
  "r850_si nint = of_int (int nint - 13 - int (unat (r850_ni nint)) * 4)"

definition pll_ops_start :: "reg_op list" where
  "pll_ops_start =
     [R_and 0x20 0xfc, R_or 0x2e 0x40, R_and 0x0c 0x3c, R_and 0x09 0xf9, R_and 0x22 0x3f, R_and 0x0b 0xc3,
      R_or 0x0b 0x10, R_and 0x25 0xef, R_or 0x25 0x20]"

definition pll_ops_judge :: "nat \<Rightarrow> u8 \<Rightarrow> nat \<Rightarrow> reg_op list" where
  "pll_ops_judge chip b dj =
     [R_and 0x22 0xcf, R_or 0x22 (sh 4 b 0x30), R_and 0x1e 0x1f, R_and 0x25 0xfd,
      R_or 0x25 (if dj = 4 \<or> dj = 10 \<or> dj = 22 \<or> dj = 24 \<or> dj = 28 then 0x02 else 0x00),
      R_and 0x2f (if chip \<noteq> 0 then 0xfd else 0xfc)]"

definition pll_ops_div :: "u8 \<Rightarrow> nat \<Rightarrow> reg_op list" where
  "pll_ops_div xbits d =
     [R_and 0x22 0xfc, R_or 0x22 xbits, R_and 0x0b 0xfe, R_and 0x2d 0xf3,
      R_or 0x2d (if d = 2 then 0x04 else if d = 3 then 0x08 else if d \<ge> 4 then 0x0c else 0x00),
      R_and 0x2e 0xfc, R_and 0x20 0xec] @
     (if d = 0 \<or> d = 1 then [R_or 0x2e 0x01] else [R_or 0x2e 0x02, R_or 0x20 0x01]) @
     [R_and 0x11 0x7f] @ (if d = 2 then [R_or 0x11 0x80] else []) @
     [R_and 0x1e 0xe3, R_or 0x1e (sh 2 (of_nat d) 0x1c)]"

definition pll_ops_num :: "nat \<Rightarrow> reg_op list" where
  "pll_ops_num nint =
     [R_and 0x1b 0x80, R_or 0x1b (r850_ni nint AND 0x7f), R_and 0x1e 0xfc, R_or 0x1e (r850_si nint AND 0x03),
      R_and 0x20 0x3f]"

text \<open>The fraction loop is that of the RT710 driver, \<open>sdm_loop\<close>.\<close>

definition r850_raise_ub :: "'s r850_tuner call" where
  "r850_raise_ub t = (- EFAULT, t\<lparr>r8_ub := True\<rparr>)"

definition r850_set_sdm :: "nat \<Rightarrow> nat \<Rightarrow> 's r850_tuner call" where
  "r850_set_sdm xtal fra =
     (case sdm_loop xtal 1 fra 0 of
        None \<Rightarrow> r850_raise_ub
      | Some sdm \<Rightarrow> regs_do [R_set 0x1c (lo8 (of_nat sdm)), R_set 0x1d (hi8 (of_nat sdm))])"

definition r850_set_pll :: "nat \<Rightarrow> nat \<Rightarrow> r850_system \<Rightarrow> 's r850_tuner call" where
  "r850_set_pll lo ifq sys t =
     (let chip = r8_chip t;
          dj = div_judge_of lo ifq;
          d = r850_div_loop (r850_vco_min chip) lo 0;
          vco = r850_vco lo d;
          (xtal, xbits) = xtal_choice sys lo ifq (r8_xtal (r8_config t));
          (nint, fra) = r850_adjust xtal (r850_nint xtal vco) (r850_fra xtal vco)
      in run_all
        ([regs_do pll_ops_start,
          r850_set_xtal_cap 0x27,
          regs_do (pll_ops_judge chip (xtal_pwr_bits (r8_xtal_pwr t) lo) dj),
          regs_do (pll_ops_div xbits d)] @
         (if xtal = 0 then [r850_raise_ub] else
          [regs_do (pll_ops_num nint),
           r850_set_sdm xtal fra,
           regs_send 0x08 0x28,
           regs_do ((if chip = 0 then [R_and 0x2f 0xfc] else []) @ [R_or 0x2f 0x02]),
           regs_send 0x2f 0x01])) t)"

section \<open>The front end\<close>

definition mux_imr_idx :: "nat \<Rightarrow> nat" where
  "mux_imr_idx lo =
     (if lo < 170000 then 0 else if lo < 240000 then 4 else if lo < 400000 then 1 else if lo < 760000 then 2 else 3)"

definition mux_hpf_bpf :: "nat \<Rightarrow> u8" where
  "mux_hpf_bpf lo =
     (if lo < 580000 then 7 else if lo < 660000 then 1 else if lo < 780000 then 6 else if lo < 900000 then 4 else 0)"

definition mux_rf_poly :: "nat \<Rightarrow> u8" where
  "mux_rf_poly lo = (if lo < 133000 then 2 else if lo < 221000 then 1 else if lo < 760000 then 0 else 3)"

definition mux_hpf_cnr :: "nat \<Rightarrow> u8" where
  "mux_hpf_cnr lo = (if lo < 480000 then 3 else if lo < 550000 then 2 else if lo < 700000 then 1 else 0)"

text \<open>\<^verbatim>\<open>lpf_notch\<close> and \<^verbatim>\<open>lpf_cap\<close>\<close>

definition mux_lpf :: "r850_system \<Rightarrow> nat \<Rightarrow> u8 \<times> u8" where
  "mux_lpf sys lo =
     (if sys = R850_SYSTEM_DVB_C \<or> sys = R850_SYSTEM_J83B then
        if lo < 77000 then (10, 15) else if lo < 85000 then (4, 15) else if lo < 115000 then (3, 13)
        else if lo < 125000 then (1, 11) else if lo < 141000 then (0, 9) else if lo < 157000 then (0, 8)
        else if lo < 181000 then (0, 6) else if lo < 205000 then (0, 3) else (0, 0)
      else
        if lo < 73000 then (10, 8) else if lo < 81000 then (4, 8) else if lo < 89000 then (3, 8)
        else if lo < 121000 then (1, 6) else if lo < 145000 then (0, 4) else if lo < 153000 then (0, 3)
        else if lo < 177000 then (0, 2) else if lo < 201000 then (0, 1) else (0, 0))"

definition mux_imr :: "r850_system \<Rightarrow> nat \<Rightarrow> 's r850_tuner \<Rightarrow> u8 \<times> u8 \<times> u8" where
  "mux_imr sys idx t =
     (let cal = r8_imr_cal t ! r8_mixer_mode t in
      if ic_done cal \<and> ic_result cal ! idx then
        let i = ic_imr cal ! idx in (imr_gain i, imr_phase i, imr_iqcap i)
      else if sys \<noteq> R850_SYSTEM_UNDEFINED then (0x02, 0x00, 0x00)
      else (0x00, 0x00, 0x00))"

definition r850_set_mux :: "nat \<Rightarrow> nat \<Rightarrow> r850_system \<Rightarrow> 's r850_tuner call" where
  "r850_set_mux rf lo sys t =
     (let (lpf_notch, lpf_cap) = mux_lpf sys lo;
          tf_diplexer = (if lo < 330000 then 2 else 0);
          (gain, phase, iqcap) = mux_imr sys (mux_imr_idx lo) t
      in regs_do
        [R_and 0x0e 0x03, R_or 0x0e (sh 2 tf_diplexer 0x0c), R_or 0x0e (sh 4 lpf_cap 0xf0),
         R_and 0x0f 0xf0, R_or 0x0f (lpf_notch AND 0x0f),
         R_and 0x10 0xe0, R_or 0x10 (sh 3 (mux_hpf_cnr lo) 0x18), R_or 0x10 (mux_hpf_bpf lo AND 0x07),
         R_and 0x12 0xfc, R_or 0x12 (mux_rf_poly lo AND 0x03),
         R_and 0x14 0xd0, R_or 0x14 (gain AND 0x2f),
         R_and 0x15 0x10, R_or 0x15 (phase AND 0x2f), R_or 0x15 (sh 6 iqcap 0xc0)] t)"

definition r850_read_adc_value :: "u8 \<Rightarrow> 's r850_tuner \<Rightarrow> int \<times> u8 \<times> 's r850_tuner" where
  "r850_read_adc_value v t =
     (let (ret, tmp, t1) = r850_read_reg 0x01 (r8_junk t) t in (ret, if ret = 0 then tmp AND 0x3f else v, t1))"

section \<open>Image rejection calibration\<close>

text \<open>Set the two image rejection registers, send them, and measure.\<close>

definition imr_probe :: "reg_op list \<Rightarrow> 's r850_tuner \<Rightarrow> int \<times> u8 \<times> 's r850_tuner" where
  "imr_probe ops t =
     (let (ret, t1) = run_all [regs_do ops, regs_send 0x14 2] t in
      if ret \<noteq> 0 then (ret, r8_junk t, t1) else r850_read_adc_value (r8_junk t) t1)"

definition cross_points :: "(u8 \<times> u8) list" where
  "cross_points = [(0, 0), (0, 1), (0, 0x20 OR 1), (1, 0), (0x20 OR 1, 0), (0, 2), (0, 0x20 OR 2), (2, 0), (0x20 OR 2, 0)]"

fun cross_loop :: "(u8 \<times> u8) list \<Rightarrow> r850_imr \<Rightarrow> 's r850_tuner \<Rightarrow> int \<times> r850_imr \<times> 's r850_tuner" where
  "cross_loop [] best t = (0, best, t)"
| "cross_loop ((g, p) # ps) best t =
     (let (ret, v, t1) = imr_probe [R_and 0x14 0xd0, R_or 0x14 (g AND 0x2f), R_and 0x15 0xd0, R_or 0x15 (p AND 0x2f)] t in
      if ret \<noteq> 0 then (ret, best, t1)
      else cross_loop ps
        (if imr_value best > v then best\<lparr>imr_gain := g, imr_phase := p, imr_value := v\<rparr> else best) t1)"

definition imr_junk :: "'s r850_tuner \<Rightarrow> r850_imr" where
  "imr_junk t = \<lparr>imr_gain = r8_junk t, imr_phase = r8_junk t, imr_iqcap = r8_junk t, imr_value = 0xff\<rparr>"

definition r850_imr_check_iq_cross ::
    "r850_imr \<Rightarrow> 's r850_tuner \<Rightarrow> int \<times> r850_imr \<times> r850_imr_direction \<times> 's r850_tuner" where
  "r850_imr_check_iq_cross imr t =
     (let (ret, best, t1) = cross_loop cross_points (imr_junk t) t in
      (ret, if ret = 0 then best else imr,
       if imr_phase best \<noteq> 0 then R850_IMR_DIRECTION_PHASE else R850_IMR_DIRECTION_GAIN, t1))"

fun dir_reg :: "r850_imr_direction \<Rightarrow> nat" where
  "dir_reg R850_IMR_DIRECTION_GAIN = 0x14"
| "dir_reg R850_IMR_DIRECTION_PHASE = 0x15"

fun dir_val :: "r850_imr_direction \<Rightarrow> r850_imr \<Rightarrow> u8" where
  "dir_val R850_IMR_DIRECTION_GAIN imr = imr_gain imr"
| "dir_val R850_IMR_DIRECTION_PHASE imr = imr_phase imr"

fun dir_set :: "r850_imr_direction \<Rightarrow> u8 \<Rightarrow> r850_imr \<Rightarrow> r850_imr" where
  "dir_set R850_IMR_DIRECTION_GAIN v imr = imr\<lparr>imr_gain := v\<rparr>"
| "dir_set R850_IMR_DIRECTION_PHASE v imr = imr\<lparr>imr_phase := v\<rparr>"

text \<open>The register of the other direction is set once.\<close>

fun dir_fixed_ops :: "r850_imr_direction \<Rightarrow> r850_imr \<Rightarrow> reg_op list" where
  "dir_fixed_ops R850_IMR_DIRECTION_GAIN imr = [R_and 0x15 0xd0, R_or 0x15 (imr_phase imr AND 0x2f)]"
| "dir_fixed_ops R850_IMR_DIRECTION_PHASE imr = [R_and 0x14 0xd0, R_or 0x14 (imr_gain imr AND 0x2f)]"

definition tree_vals :: "u8 \<Rightarrow> nat \<Rightarrow> u8 list" where
  "tree_vals v num =
     (if num = 3 then [v, v + 1, if v AND 0x0f = 0 then (v XOR 0x20) + 1 else v - 1]
      else
        let v3 = (if v AND 0x0f = 0 then (v XOR 0x20) + 1 else v - 1);
            v4 = (if v AND 0x0f = 0 then v3 + 1 else if v AND 0x0f = 1 then (v3 XOR 0x20) + 1 else v3 - 1)
        in [v, v + 1, v + 2, v3, v4])"

fun tree_loop ::
    "r850_imr_direction \<Rightarrow> u8 list \<Rightarrow> r850_imr \<Rightarrow> 's r850_tuner \<Rightarrow> int \<times> r850_imr \<times> 's r850_tuner" where
  "tree_loop dir [] best t = (0, best, t)"
| "tree_loop dir (x # xs) best t =
     (let (ret, v, t1) = imr_probe [R_and (dir_reg dir) 0xd0, R_or (dir_reg dir) (x AND 0x2f)] t in
      if ret \<noteq> 0 then (ret, best, t1)
      else tree_loop dir xs (if imr_value best > v then (dir_set dir x best)\<lparr>imr_value := v\<rparr> else best) t1)"

definition r850_imr_check_iq_tree ::
    "r850_imr \<Rightarrow> r850_imr_direction \<Rightarrow> nat \<Rightarrow> 's r850_tuner \<Rightarrow> int \<times> r850_imr \<times> 's r850_tuner" where
  "r850_imr_check_iq_tree imr dir num t =
     (if num \<noteq> 3 \<and> num \<noteq> 5 then (- EINVAL, imr, t)
      else
        let t1 = snd (regs_do (dir_fixed_ops dir imr) t);
            tmp = (if dir = R850_IMR_DIRECTION_GAIN then (imr_junk t)\<lparr>imr_phase := imr_phase imr\<rparr>
                   else (imr_junk t)\<lparr>imr_gain := imr_gain imr\<rparr>);
            (ret, best, t2) = tree_loop dir (tree_vals (dir_val dir imr) num) tmp t1
        in (ret, if ret = 0 then best else imr, t2))"

lemma nibble_step: "v AND 0x0f \<le> 8 \<Longrightarrow> unat ((v + 1) AND 0x0f) = Suc (unat (v AND 0x0f))" for v :: u8
proof -
  assume a: "v AND 0x0f \<le> 8"
  have m: "x AND 0x0f = take_bit 4 x" for x :: u8
    by (simp add: take_bit_eq_mask mask_eq_decr_exp)
  have u: "unat (take_bit 4 x) = unat x mod 16" for x :: u8
    by (simp only: unsigned_take_bit_eq) (simp add: take_bit_eq_mod)
  have "unat v mod 16 \<le> 8" using a unfolding m word_le_nat_alt u by simp
  moreover have "unat (v + 1) = Suc (unat v) mod 256" by (simp add: unat_word_ariths)
  moreover have "Suc k mod 256 mod 16 = Suc k mod 16" for k :: nat by (rule mod_mod_cancel) simp
  ultimately show ?thesis unfolding m u by (simp only: mod_Suc[of _ 16]) simp
qed

function (sequential) step_loop ::
    "r850_imr_direction \<Rightarrow> u8 \<Rightarrow> r850_imr \<Rightarrow> 's r850_tuner \<Rightarrow> int \<times> r850_imr \<times> 's r850_tuner" where
  "step_loop dir v0 best t =
     (if v0 AND 0x0f \<le> 8 then
        let x = v0 + 1;
            (ret, v, t1) = imr_probe [R_and (dir_reg dir) 0xd0, R_or (dir_reg dir) (x AND 0x2f)] t in
        if ret \<noteq> 0 then (ret, best, t1)
        else if imr_value best > v then step_loop dir x ((dir_set dir x best)\<lparr>imr_value := v\<rparr>) t1
        else if unat (imr_value best) + 2 < unat v then (0, best, t1)
        else step_loop dir x best t1
      else (0, best, t))"
  by pat_completeness auto
termination
  by (relation "measure (\<lambda>(dir, v0, best, t). 15 - unat (v0 AND 0x0f))")
    (auto simp: nibble_step word_le_nat_alt)

declare step_loop.simps [simp del]

definition r850_imr_check_iq_step ::
    "r850_imr \<Rightarrow> r850_imr_direction \<Rightarrow> 's r850_tuner \<Rightarrow> int \<times> r850_imr \<times> 's r850_tuner" where
  "r850_imr_check_iq_step imr dir t =
     (let t1 = snd (regs_do (dir_fixed_ops dir imr) t);
          (ret, best, t2) = step_loop dir (dir_val dir imr) (imr\<lparr>imr_iqcap := r8_junk t\<rparr>) t1
      in (ret, if ret = 0 then best else imr, t2))"

fun section_loop ::
    "r850_imr list \<Rightarrow> u8 \<Rightarrow> r850_imr option \<Rightarrow> 's r850_tuner \<Rightarrow> int \<times> r850_imr option \<times> 's r850_tuner" where
  "section_loop [] val best t = (0, best, t)"
| "section_loop (p # ps) val best t =
     (let (ret, q, t1) = r850_imr_check_iq_tree p R850_IMR_DIRECTION_PHASE 3 t in
      if ret \<noteq> 0 then (ret, best, t1)
      else if val > imr_value q then section_loop ps (imr_value q) (Some q) t1
      else section_loop ps val (case best of None \<Rightarrow> Some q | Some b \<Rightarrow> Some b) t1)"

text \<open>Without a better point the result is the first one, \<^verbatim>\<open>n = 0\<close>.\<close>

definition section_points :: "r850_imr \<Rightarrow> r850_imr \<Rightarrow> r850_imr list" where
  "section_points imr junk =
     (let g = imr_gain imr;
          gains = (if g \<noteq> 0 then [g - 1, g, g + 1] else [(g AND 0xdf) + 1, g, (g OR 0x20) + 1])
      in map (\<lambda>x. junk\<lparr>imr_gain := x, imr_phase := imr_phase imr\<rparr>) gains)"

definition r850_imr_check_section :: "r850_imr \<Rightarrow> 's r850_tuner \<Rightarrow> int \<times> r850_imr \<times> 's r850_tuner" where
  "r850_imr_check_section imr t =
     (let (ret, best, t1) = section_loop (section_points imr (imr_junk t)) 0xff None t in
      (ret, if ret = 0 then (case best of None \<Rightarrow> imr | Some b \<Rightarrow> b) else imr, t1))"

fun iqcap_loop :: "nat list \<Rightarrow> r850_imr \<Rightarrow> 's r850_tuner \<Rightarrow> int \<times> r850_imr \<times> 's r850_tuner" where
  "iqcap_loop [] imr t = (0, imr, t)"
| "iqcap_loop (i # is) imr t =
     (let (ret, t1) = run_all [regs_do [R_and 0x15 0x3f, R_or 0x15 (sh 6 (of_nat i) 0xc0)], regs_send 0x15 1] t in
      if ret \<noteq> 0 then (ret, imr, t1)
      else
        let (ret, v, t2) = r850_read_adc_value (r8_junk t) t1 in
        if ret \<noteq> 0 then (ret, imr, t2)
        else iqcap_loop is (if v < imr_value imr then imr\<lparr>imr_iqcap := of_nat i, imr_value := v\<rparr> else imr) t2)"

definition r850_imr_check_iqcap :: "r850_imr \<Rightarrow> 's r850_tuner \<Rightarrow> int \<times> r850_imr \<times> 's r850_tuner" where
  "r850_imr_check_iqcap imr t =
     (let (ret, t1) = run_all [regs_do [R_and 0x14 0xd0, R_or 0x14 (imr_gain imr AND 0x2f)], regs_send 0x14 1] t in
      if ret \<noteq> 0 then (ret, imr, t1)
      else
        let t2 = snd (regs_do [R_and 0x15 0xd0, R_or 0x15 (imr_phase imr AND 0x2f)] t1)
        in iqcap_loop [0, 1, 2] (imr\<lparr>imr_iqcap := 0, imr_value := 0xff\<rparr>) t2)"

fun r850_prepare_calibration :: "r850_calibration \<Rightarrow> 's r850_tuner call" where
  "r850_prepare_calibration R850_CALIBRATION_IMR t = r850_load_regs r850_imr_cal_regs t"
| "r850_prepare_calibration R850_CALIBRATION_LPF t = r850_load_regs r850_lpf_cal_regs t"
| "r850_prepare_calibration R850_CALIBRATION_NONE t = (- EINVAL, t)"

text \<open>The results live in the tuner: \<open>imr_at\<close> reads one, \<open>imr_update\<close> runs a search on it.\<close>

definition imr_at :: "nat \<Rightarrow> 's r850_tuner \<Rightarrow> r850_imr" where
  "imr_at j t = ic_imr (r8_imr_cal t ! r8_mixer_mode t) ! j"

definition cal_set :: "(r850_imr_cal \<Rightarrow> r850_imr_cal) \<Rightarrow> 's r850_tuner \<Rightarrow> 's r850_tuner" where
  "cal_set f t = t\<lparr>r8_imr_cal := (r8_imr_cal t)[r8_mixer_mode t := f (r8_imr_cal t ! r8_mixer_mode t)]\<rparr>"

definition imr_put :: "nat \<Rightarrow> r850_imr \<Rightarrow> 's r850_tuner \<Rightarrow> 's r850_tuner" where
  "imr_put j i = cal_set (\<lambda>c. c\<lparr>ic_imr := (ic_imr c)[j := i]\<rparr>)"

definition imr_update ::
    "nat \<Rightarrow> (r850_imr \<Rightarrow> 's r850_tuner \<Rightarrow> int \<times> r850_imr \<times> 's r850_tuner) \<Rightarrow> 's r850_tuner call" where
  "imr_update j f t = (let (ret, i, t1) = f (imr_at j t) t in (ret, imr_put j i t1))"

definition imr_full :: "nat \<Rightarrow> 's r850_tuner call" where
  "imr_full j t =
     (let t0 = imr_put j \<lparr>imr_gain = 0, imr_phase = 0, imr_iqcap = 0, imr_value = 0\<rparr> t;
          (ret, i, d, t1) = r850_imr_check_iq_cross (imr_at j t0) t0;
          t2 = imr_put j i t1;
          other = (if d = R850_IMR_DIRECTION_GAIN then R850_IMR_DIRECTION_PHASE else R850_IMR_DIRECTION_GAIN) in
      if ret \<noteq> 0 then (ret, t2)
      else run_all
        [imr_update j (\<lambda>i. r850_imr_check_iq_step i d),
         imr_update j (\<lambda>i. r850_imr_check_iq_tree i other 5),
         imr_update j (\<lambda>i. r850_imr_check_iq_tree i d 3)] t2)"

fun ring_freq :: "nat \<Rightarrow> nat" where
  "ring_freq j = (if j = 0 then 136000 else if j = 1 then 326400 else if j = 2 then 544000 else if j = 3 then 816000 else 204000)"

fun ring_bits :: "nat \<Rightarrow> u8" where
  "ring_bits j = (if j = 0 then 0x0a else if j = 1 then 0x05 else if j = 2 then 0x02 else if j = 3 then 0x00 else 0x08)"

definition imr_setup :: "nat \<Rightarrow> 's r850_tuner call" where
  "imr_setup j t =
     (let mode = r8_mixer_mode t; lpf = r8_mixer_amp_lpf_imr_cal t; ring = ring_freq j in
      run_all
        ([regs_do [R_and 0x24 0xf0, R_or 0x24 (ring_bits j), R_and 0x23 0xa0, R_or 0x23 0x11]] @
         (if mode = 0 then
            [r850_set_mux (ring - 5300) ring R850_SYSTEM_UNDEFINED,
             r850_set_pll (ring - 5300) 5300 R850_SYSTEM_UNDEFINED,
             regs_do [R_and 0x13 0xe8, R_or 0x13 (lpf AND 0x07)], regs_send 0x13 1,
             regs_do (if j = 4 then [R_and 0x24 0xcf, R_or 0x24 0x10] else [R_or 0x24 0x30]), regs_send 0x24 1,
             regs_do [R_and 0x29 0xf0, R_or 0x29 0x08], regs_send 0x29 1]
          else
            [r850_set_mux (ring + 5300) ring R850_SYSTEM_UNDEFINED,
             r850_set_pll (ring + 5300) 5300 R850_SYSTEM_UNDEFINED,
             regs_do [R_or 0x13 0x10, R_and 0x13 0xf8, R_or 0x13 (lpf AND 0x07)], regs_send 0x13 1,
             regs_do ([R_and 0x29 0xf0] @
               (if j = 4 then [R_or 0x29 0x07, R_and 0x24 0xcf, R_or 0x24 0x10] else [R_or 0x29 0x06, R_or 0x24 0x30])),
             regs_send 0x29 1, regs_send 0x24 1]) @
         [regs_do [R_or 0x29 0xf0], regs_send 0x29 1]) t)"

definition imr_one :: "nat \<Rightarrow> 's r850_tuner call" where
  "imr_one j t =
     (let full = (j = 2 \<or> (j = 3 \<and> r8_mixer_mode t \<noteq> 0));
          pre = (if j = 0 \<or> j = 4 then 1 else 2) in
      run_all
        ([imr_setup j,
          if full then imr_full j else (\<lambda>t. (0, imr_put j (imr_at pre t) t)),
          imr_update j r850_imr_check_section,
          imr_update j r850_imr_check_iqcap,
          \<lambda>t. (0, cal_set (\<lambda>c. c\<lparr>ic_result := (ic_result c)[j := imr_gain (imr_at j t) AND 0x0f \<le> 0x06 \<and>
                                                            imr_phase (imr_at j t) AND 0x0f \<le> 0x06]\<rparr>) t)] @
         (if full then [regs_do [R_and 0x14 0xd0, R_and 0x15 0x10], regs_send 0x14 2] else [])) t)"

definition r850_calibrate_imr :: "'s r850_tuner call" where
  "r850_calibrate_imr t =
     run_all (map imr_one [2, 1, 0, 3, 4] @
       [\<lambda>u. (0, cal_set (\<lambda>c. c\<lparr>ic_done := True, ic_mixer_amp_lpf := r8_mixer_amp_lpf_imr_cal t\<rparr>) u)]) t"

section \<open>Filter calibration\<close>

fun lpf_gain_loop :: "nat list \<Rightarrow> u8 \<Rightarrow> 's r850_tuner \<Rightarrow> int \<times> u8 \<times> 's r850_tuner" where
  "lpf_gain_loop [] val t = (0, val, t)"
| "lpf_gain_loop (i # is) val t =
     (let (ret, t1) = run_all [regs_do [R_and 0x29 0x0f, R_or 0x29 (sh 4 (of_nat i) 0xf0)], regs_send 0x29 1] t in
      if ret \<noteq> 0 then (ret, val, t1)
      else
        let (ret, v, t2) = r850_read_adc_value val t1 in
        if ret \<noteq> 0 then (ret, v, t2)
        else if v > 0x28 then (0, v, t2) else lpf_gain_loop is v t2)"

text \<open>The part for high intermediate frequencies; the result is \<^verbatim>\<open>val3\<close>.\<close>

definition lpf_high :: "nat \<Rightarrow> u8 \<Rightarrow> 's r850_tuner \<Rightarrow> int \<times> u8 \<times> 's r850_tuner" where
  "lpf_high ifq val t =
     (if ifq > 9999 then
        let (ret, t1) = r850_set_pll 63500 8500 R850_SYSTEM_UNDEFINED t in
        if ret \<noteq> 0 then (ret, r8_junk t, t1)
        else
          let (ret, val3, t2) = r850_read_adc_value (r8_junk t) t1 in
          if ret \<noteq> 0 then (ret, val3, t2)
          else if unat val3 \<le> unat val + 8 then
            let (ret, t3) = r850_set_pll ((72000 + 2 ^ 32 - ifq) mod 2 ^ 32) ifq R850_SYSTEM_UNDEFINED t2 in (ret, val3, t3)
          else (- EIO, val3, t2)
      else (0, r8_junk t, t))"

definition lpf_measure :: "reg_op list \<Rightarrow> 's r850_tuner \<Rightarrow> int \<times> u8 \<times> 's r850_tuner" where
  "lpf_measure ops t =
     (let (ret, t1) = run_all [regs_do ops, regs_send 0x17 1] t in
      if ret \<noteq> 0 then (ret, r8_junk t, t1) else r850_read_adc_value (r8_junk t) t1)"

fun lpf_bw_loop :: "nat list \<Rightarrow> u8 \<Rightarrow> 's r850_tuner \<Rightarrow> int \<times> u8 \<times> 's r850_tuner" where
  "lpf_bw_loop [] bw t = (0, bw, t)"
| "lpf_bw_loop (i # is) bw0 t =
     (let bw = (if i = 0 then 0 else of_nat (i + 1));
          (ret, val, t1) = lpf_measure [R_and 0x17 0x9f, R_and 0x17 0xe1, R_or 0x17 (sh 5 bw 0x60)] t in
      if ret \<noteq> 0 then (ret, bw, t1)
      else
        let (ret, val2, t2) = lpf_measure [R_and 0x17 0xe1, R_or 0x17 0x1a] t1 in
        if ret \<noteq> 0 then (ret, bw, t2)
        else if unat val2 + 16 < unat val then (0, bw, t2) else lpf_bw_loop is bw t2)"

text \<open>The result is \<^verbatim>\<open>code\<close> and \<^verbatim>\<open>lsb\<close>.\<close>

fun lpf_code_loop :: "nat \<Rightarrow> nat \<Rightarrow> u8 \<Rightarrow> nat list \<Rightarrow> u8 \<Rightarrow> 's r850_tuner \<Rightarrow> int \<times> (u8 \<times> u8) \<times> 's r850_tuner" where
  "lpf_code_loop ifq gap val3 [] val t = (0, (16, 0), t)"
| "lpf_code_loop ifq gap val3 (i # is) val0 t =
     (let (ret, val2, t1) = lpf_measure [R_and 0x17 0xe1, R_or 0x17 (sh 1 (of_nat i) 0x1e)] t in
      if ret \<noteq> 0 then (ret, (0, 0), t1)
      else
        let val = (if i = 0 then (if ifq \<le> 9999 then val2 else val3) else val0) in
        if unat val2 + gap < unat val then
          if i = 0 then (- EIO, (0, 0), t1)
          else
            let (ret, val2, t2) = lpf_measure [R_and 0x17 0xe0, R_or 0x17 (1 OR sh 1 (of_nat (i - 1)) 0x1e)] t1 in
            if ret \<noteq> 0 then (ret, (0, 0), t2)
            else if unat val2 + gap < unat val then (0, (of_nat (i - 1), 1), t2) else (0, (of_nat i, 0), t2)
        else lpf_code_loop ifq gap val3 is val t1)"

definition r850_calibrate_lpf :: "nat \<Rightarrow> u8 \<Rightarrow> nat \<Rightarrow> 's r850_tuner \<Rightarrow> int \<times> r850_lpf_params \<times> 's r850_tuner" where
  "r850_calibrate_lpf ifq bw gap t =
     (let none = \<lparr>lpf_code = 0, lpf_bandwidth = 0, lpf_lsb = 0\<rparr>;
          (ret, t1) = r850_set_pll ((72000 + 2 ^ 32 - ifq) mod 2 ^ 32) ifq R850_SYSTEM_UNDEFINED t in
      if ret \<noteq> 0 then (ret, none, t1)
      else
        let (ret, val, t2) = lpf_gain_loop [5..<16] (r8_junk t) t1 in
        if ret \<noteq> 0 then (ret, none, t2)
        else
          let (ret, val3, t3) = lpf_high ifq val t2 in
          if ret \<noteq> 0 then (ret, none, t3)
          else
            let (ret, lbw, t4) = lpf_bw_loop (if bw = 2 then [1, 2] else [0, 1, 2]) (r8_junk t) t3 in
            if ret \<noteq> 0 then (ret, none, t4)
            else
              let (ret, (code, lsb), t5) = lpf_code_loop ifq gap val3 [0..<16] val t4
              in (ret, \<lparr>lpf_code = code, lpf_bandwidth = lbw, lpf_lsb = lsb\<rparr>, t5))"

section \<open>Systems and frequencies\<close>

definition find_system_params :: "r850_system_config \<Rightarrow> nat \<Rightarrow> r850_system_params option" where
  "find_system_params sys chip =
     find (\<lambda>p. sp_bandwidth p = sys_bandwidth sys \<and> sp_if_freq p = sys_if_freq sys) (sys_params (sys_system sys) ! chip)"

definition system_ops :: "nat \<Rightarrow> r850_system_params \<Rightarrow> r850_lpf_params \<Rightarrow> reg_op list" where
  "system_ops chip prm lpf =
     [R_set 0x17 0x00, R_or 0x17 (lpf_lsb lpf AND 0x01), R_or 0x17 (sh 1 (lpf_code lpf) 0x1e),
      R_or 0x17 (sh 5 (lpf_bandwidth lpf) 0x60), R_or 0x17 (sh 7 (sp_hpf_notch prm) 0x80),
      R_and 0x18 0x0f, R_or 0x18 (sh 4 (sp_hpf_cor prm) 0xf0),
      R_and 0x12 0xbf, R_or 0x12 (sh 6 (sp_filt_ext_ena prm) 0x40),
      R_and 0x18 0xf3, R_or 0x18 (sh 2 (sp_filt_comp prm) 0x0c),
      R_and 0x2f 0xf3, R_or 0x2f (sh 2 (sp_agc_clk prm) 0x0c)] @
     (if chip \<noteq> 0 then [R_and 0x2c 0xfe, R_or 0x2c (drop_bit 1 (sp_img_gain prm) AND 0x01)] else []) @
     [R_and 0x2e 0xef, R_or 0x2e (sh 4 (sp_img_gain prm) 0x10)]"

definition r850_apply_system :: "'s r850_tuner call" where
  "r850_apply_system t =
     (let sys = r8_sys t in
      case find_system_params sys (r8_chip t) of
        None \<Rightarrow> (- EINVAL, t)
      | Some prm \<Rightarrow>
          let (ret, lpf, t1) =
            (if \<not> r8_no_lpf_calibration (r8_config t) then
               r850_calibrate_lpf (sp_filt_cal_if prm) (sp_bw prm) 2 (snd (r850_prepare_calibration R850_CALIBRATION_LPF t))
             else (0, sp_lpf prm, t)) in
          if ret \<noteq> 0 then (ret, t1)
          else run_all
            [r850_load_regs r850_init_regs, regs_do (system_ops (r8_chip t) prm lpf),
             \<lambda>u. (0, u\<lparr>r8_sys_curr := sys\<rparr>)] t1)"

definition r850_set_system_params :: "'s r850_tuner call" where
  "r850_set_system_params t =
     (if sys_system (r8_sys t) = R850_SYSTEM_UNDEFINED then (- EINVAL, t)
      else
        let cal = r8_imr_cal t ! r8_mixer_mode t in
        run_all
          ((if \<not> r8_no_imr_calibration (r8_config t) \<and>
               (\<not> ic_done cal \<or> ic_mixer_amp_lpf cal \<noteq> r8_mixer_amp_lpf_imr_cal t)
            then [r850_prepare_calibration R850_CALIBRATION_IMR, r850_calibrate_imr] else []) @
           [\<lambda>u. if r8_sys u \<noteq> r8_sys_curr u then r850_apply_system u else (0, u)]) t)"

definition freq_match :: "nat \<Rightarrow> nat \<Rightarrow> r850_system_frequency_params \<Rightarrow> bool" where
  "freq_match ifq rf p \<longleftrightarrow>
     (sf_if_freq p = 0 \<or> sf_if_freq p = ifq) \<and> (sf_rf_freq_min p = 0 \<or> sf_rf_freq_min p \<le> rf) \<and>
     (sf_rf_freq_max p = 0 \<or> sf_rf_freq_max p \<ge> rf)"

definition gain_limit_ops :: "u8 \<Rightarrow> reg_op list" where
  "gain_limit_ops lim =
     (if lim \<le> 3 then
        [if lim < 2 then R_and 0x12 0xfb else R_or 0x12 0x02,
         if lim AND 1 = 1 then R_or 0x10 0x40 else R_and 0x10 0xbf]
      else [])"

definition dis_mode_ops :: "u8 \<Rightarrow> reg_op list" where
  "dis_mode_ops m =
     (if m = 1 then [R_or 0x2d 0x03, R_or 0x1f 0x01, R_or 0x20 0x20]
      else if m = 2 then [R_or 0x2d 0x03, R_and 0x1f 0xfe, R_and 0x20 0xdf]
      else if m = 3 then [R_or 0x2d 0x03, R_or 0x1f 0x01, R_and 0x20 0xdf]
      else if m = 4 then [R_or 0x2d 0x03, R_and 0x1f 0xfe, R_or 0x20 0x20]
      else [R_and 0x2d 0xfc, R_or 0x1f 0x01, R_or 0x20 0x20])"

text \<open>\<open>prm\<close> gives the bytes of the parameters by field.\<close>

definition freq_ops_lna :: "nat \<Rightarrow> (nat \<Rightarrow> u8) \<Rightarrow> reg_op list" where
  "freq_ops_lna chip prm =
     [R_and 0x0a 0xbf, R_or 0x0a (sh 6 (prm f_na_pwr_det) 0x40),
      R_and 0x10 0xdf, R_or 0x10 (r850_init_regs ! 0x0c AND 0x20),
      R_and 0x0b 0x7f, R_or 0x0b (sh 7 (prm f_lna_nrb_det) 0x80),
      R_and 0x26 0xf8, R_or 0x26 ((7 - prm f_lna_top) AND 0x07),
      R_set 0x27 (prm f_lna_vtl_h),
      R_and 0x11 0xef, R_or 0x11 (sh 4 (prm f_rf_lte_psg) 0x10),
      R_and 0x26 0x8f, R_or 0x26 (sh 4 (7 - prm f_rf_top) 0x70),
      R_set 0x2a (prm f_rf_vtl_h)] @
     gain_limit_ops (prm f_rf_gain_limit) @
     [R_and 0x13 0xf8, R_or 0x13 (prm f_mixer_amp_lpf AND 0x07),
      R_and 0x28 0xf0, R_or 0x28 ((15 - prm f_mixer_top) AND 0x0f)] @
     (if chip \<noteq> 0 then [R_and 0x2c 0xf1, R_or 0x2c (sh 1 (7 - prm f_filter_top) 0x0e)]
      else [R_and 0x2c 0xf0, R_or 0x2c ((15 - prm f_filter_top) AND 0x0f)]) @
     [R_and 0x0a 0xef, R_or 0x0a (sh 4 (prm f_filt_3th_lpf_cur) 0x10),
      R_and 0x18 0xfc, R_or 0x18 (prm f_filt_3th_lpf_gain AND 0x03),
      R_set 0x29 (sh 4 (prm f_filter_vth) 0xf0 OR (prm f_mixer_vth AND 0x0f)),
      R_set 0x2b (sh 4 (prm f_filter_vtl) 0xf0 OR (prm f_mixer_vtl AND 0x0f)),
      R_and 0x16 0x3f, R_or 0x16 (sh 6 (prm f_mixer_gain_limit) 0xc0),
      R_and 0x2e 0x7f, R_or 0x2e (sh 7 (prm f_mixer_detbw_lpf) 0x80)] @
     dis_mode_ops (prm f_lna_rf_dis_mode)"

definition freq_ops_agc :: "(nat \<Rightarrow> u8) \<Rightarrow> reg_op list" where
  "freq_ops_agc prm =
     [R_and 0x1f 0xfd, R_or 0x1f (sh 1 (prm f_lna_rf_charge_cur) 0x02),
      R_and 0x0d 0xdf, R_or 0x0d (sh 5 (prm f_lna_rf_dis_curr) 0x20),
      R_and 0x2d 0x0f, R_or 0x2d (sh 4 (prm f_rf_dis_slow_fast) 0xf0),
      R_and 0x2c 0x0f, R_or 0x2c (sh 4 (prm f_lna_dis_slow_fast) 0xf0),
      R_and 0x19 0xbf, R_or 0x19 (sh 6 (prm f_bb_dis_curr) 0x40),
      R_and 0x25 0x3b, R_or 0x25 (sh 6 (prm f_mixer_filter_dis) 0xc0 OR sh 2 (prm f_bb_det_mode) 0x04),
      R_and 0x19 0xfd, R_or 0x19 (sh 1 (prm f_enb_poly_gain) 0x02),
      R_and 0x28 0x0f, R_or 0x28 (sh 4 (15 - prm f_nrb_top) 0xf0),
      R_and 0x1a 0x33, R_or 0x1a (sh 6 (prm f_nrb_bw_lpf) 0xc0 OR sh 2 (prm f_nrb_bw_hpf) 0x0c),
      R_or 0x1a (sh 6 (prm f_nrb_bw_lpf) 0xc0 OR sh 2 (prm f_nrb_bw_hpf) 0x0c),
      R_and 0x2e 0xf3, R_or 0x2e (sh 2 (prm f_img_nrb_adder) 0x0c),
      R_and 0x0d 0xf9, R_or 0x0d (sh 1 (prm f_hpf_comp) 0x06),
      R_and 0x15 0xef, R_or 0x15 (sh 4 (prm f_fb_res_1st) 0x10)]"

definition freq_ops_config :: "r850_config \<Rightarrow> r850_system \<Rightarrow> nat \<Rightarrow> reg_op list" where
  "freq_ops_config cfg sys rf =
     (if (rf + 2 ^ 32 - 478000) mod 2 ^ 32 \<le> 3999 \<and> sys = R850_SYSTEM_ISDB_T then [R_and 0x2f 0xf3] else []) @
     [R_and 0x19 0xdf] @
     (if r8_loop_through cfg then [R_or 0x08 0xc0, R_or 0x0a 0x02]
      else [R_and 0x08 0x3f, R_or 0x08 0x40, R_and 0x0a 0xfd]) @
     (if r8_clock_out cfg then [R_and 0x22 0xfb] else [R_or 0x22 0x04])"

definition r850_set_system_frequency :: "nat \<Rightarrow> 's r850_tuner call" where
  "r850_set_system_frequency rf t =
     (let sys = sys_system (r8_sys_curr t); ifq = sys_if_freq (r8_sys_curr t); chip = r8_chip t in
      case find (freq_match ifq rf) (sys_freq_params sys) of
        None \<Rightarrow> (- EINVAL, t)
      | Some p \<Rightarrow>
          let top6 = (sys \<in> {R850_SYSTEM_DVB_C, R850_SYSTEM_J83B, R850_SYSTEM_ISDB_T} \<and> chip \<noteq> 0);
              prm = (\<lambda>i. if i = f_filter_top \<and> top6 then 6 else sf_bytes p ! i);
              high = r8_mixer_mode t \<noteq> 0;
              lo = (if high then (rf + 2 ^ 32 - ifq) mod 2 ^ 32 else (rf + ifq) mod 2 ^ 32) in
          run_all
            [regs_do (R_and 0x13 0xef # (if high then [R_or 0x13 0x10] else [])),
             regs_do (freq_ops_lna chip prm), regs_do (freq_ops_agc prm),
             regs_do (freq_ops_config (r8_config t) sys rf),
             r850_set_mux rf lo sys,
             r850_set_pll lo ifq sys] t)"

section \<open>Initialisation and the interface\<close>

fun xtal_pwr_loop :: "nat list \<Rightarrow> 's r850_tuner \<Rightarrow> int \<times> nat \<times> 's r850_tuner" where
  "xtal_pwr_loop [] t = (0, 3, t)"
| "xtal_pwr_loop (i # is) t =
     (let (ret, t1) = run_all [regs_do [R_and 0x22 0xcf, R_or 0x22 (push_bit 4 (of_nat i))], regs_send 0x22 1] t in
      if ret \<noteq> 0 then (ret, 3, t1)
      else
        let (ret, tmp, t2) = r850_read_reg 0x02 (r8_junk t) t1 in
        if ret \<noteq> 0 then (ret, 3, t2)
        else if tmp AND 0x40 \<noteq> 0 \<and> int (unat (tmp AND 0x3f)) - (55 - 6) \<le> 12 then (0, i, t2)
        else xtal_pwr_loop is t2)"

definition r850_check_xtal_power :: "'s r850_tuner call" where
  "r850_check_xtal_power t =
     (let (ret, t1) = run_all
        [r850_load_regs r850_init_regs,
         regs_do [R_and 0x2f (if r8_chip t \<noteq> 0 then 0xfd else 0xfc), R_and 0x1b 0x80, R_or 0x1b 0x12,
           R_and 0x1e 0xe0, R_or 0x1e 0x08, R_and 0x22 0x27, R_and 0x1d 0x0f, R_or 0x21 0xf8,
           R_and 0x22 0x77, R_or 0x22 0x80, R_and 0x1f 0x80, R_or 0x1f 0x40, R_and 0x1f 0xbf],
         regs_send 0x08 0x28] t in
      if ret \<noteq> 0 then (ret, t1)
      else
        let (ret, pwr, t2) = xtal_pwr_loop [0, 1, 2, 3] t1 in
        if ret \<noteq> 0 then (ret, t2)
        else (0, t2\<lparr>r8_xtal_pwr := of_nat (if pwr < 3 then pwr + 1 else pwr)\<rparr>))"

text \<open>Up to four reads of the chip's id; the result is that of the last read.\<close>

fun chip_loop :: "nat \<Rightarrow> int \<Rightarrow> 's r850_tuner call" where
  "chip_loop 0 ret t = (ret, t)"
| "chip_loop (Suc n) ret0 t =
     (let (ret, tmp, t1) = r850_read_reg 0x00 (r8_junk t) t in
      if ret \<noteq> 0 then chip_loop n ret t1
      else if tmp AND 0x98 \<noteq> 0 then (0, t1\<lparr>r8_chip := 1\<rparr>) else chip_loop n 0 t1)"

definition cal_undone :: "'s r850_tuner \<Rightarrow> 's r850_tuner" where
  "cal_undone t = t\<lparr>r8_sys := (r8_sys t)\<lparr>sys_system := R850_SYSTEM_UNDEFINED\<rparr>,
     r8_imr_cal := map (\<lambda>c. c\<lparr>ic_done := False\<rparr>) (r8_imr_cal t),
     r8_sys_curr := (r8_sys_curr t)\<lparr>sys_system := R850_SYSTEM_UNDEFINED\<rparr>\<rparr>"

definition r850_init :: "'s r850_tuner call" where
  "r850_init t =
     (let (ret, t1) = chip_loop 4 0 (cal_undone (t\<lparr>r8_init := False, r8_chip := 0\<rparr>)) in
      if ret \<noteq> 0 then (ret, t1)
      else
        let (ret, rs, t2) = r850_read_regs 0x08 (replicate 0x28 (r8_junk t)) t1 in
        if ret \<noteq> 0 then (ret, t2)
        else run_all
          [r850_check_xtal_power, r850_write_regs 0x08 rs, r850_load_regs r850_init_regs,
           \<lambda>u. (0, u\<lparr>r8_init := True\<rparr>)] t2)"

definition r850_term :: "'s r850_tuner call" where
  "r850_term t =
     (if \<not> r8_init t then (0, t)
      else (0, (cal_undone t)\<lparr>r8_regs := replicate 0x30 0, r8_chip := 0, r8_init := False\<rparr>))"

definition r850_sleep :: "'s r850_tuner call" where
  "r850_sleep t = (if \<not> r8_init t then (- EINVAL, t) else (0, t))"

definition r850_wakeup :: "'s r850_tuner call" where
  "r850_wakeup t = (if \<not> r8_init t then (- EINVAL, t) else (0, t))"

fun system_mixer :: "r850_system \<Rightarrow> (nat \<times> u8) option" where
  "system_mixer R850_SYSTEM_UNDEFINED = None"
| "system_mixer R850_SYSTEM_J83B = Some (0, 7)"
| "system_mixer R850_SYSTEM_DTMB = Some (0, 7)"
| "system_mixer R850_SYSTEM_ATSC = Some (0, 7)"
| "system_mixer R850_SYSTEM_ISDB_T = Some (1, 7)"
| "system_mixer _ = Some (1, 4)"

definition r850_set_system :: "r850_system_config \<Rightarrow> 's r850_tuner call" where
  "r850_set_system system t =
     (if \<not> r8_init t then (- EINVAL, t)
      else case system_mixer (sys_system system) of
        None \<Rightarrow> (- EINVAL, t)
      | Some (mode, lpf) \<Rightarrow>
          (0, t\<lparr>r8_sys := system, r8_mixer_mode := mode, r8_mixer_amp_lpf_imr_cal := lpf,
                r8_sys_curr := (r8_sys_curr t)\<lparr>sys_system := R850_SYSTEM_UNDEFINED\<rparr>\<rparr>))"

definition r850_set_frequency :: "nat \<Rightarrow> 's r850_tuner call" where
  "r850_set_frequency freq t =
     (if \<not> r8_init t then (- EINVAL, t)
      else if freq < 40000 \<or> freq > 1002000 then (- EINVAL, t)
      else run_all [r850_set_system_params, r850_set_system_frequency freq] t)"

definition r850_is_pll_locked :: "bool \<Rightarrow> 's r850_tuner \<Rightarrow> int \<times> bool \<times> 's r850_tuner" where
  "r850_is_pll_locked locked t =
     (if \<not> r8_init t then (- EINVAL, locked, t)
      else
        let (ret, tmp, t1) = r850_read_reg 0x02 0 t in
        if ret \<noteq> 0 then (ret, locked, t1) else (0, tmp AND 0x40 \<noteq> 0, t1))"

end
