(* ===== verification/R850_Keeps.thy ===== *)
theory R850_Keeps
  imports R850
begin

text \<open>
  What the R850 driver's register traffic leaves alone. The locale \<open>r850_keeps\<close> collects what a
  predicate on the tuner needs so that every function of the driver below the choice of a system keeps it;
  the calibrations and loops are gone through once here. \<open>r850_keeps_all\<close> adds the functions that
  change the system.
\<close>

lemma regs_lengths [simp]: "length r850_init_regs = 0x30" "length r850_imr_cal_regs = 0x30" "length r850_lpf_cal_regs = 0x30"
  by (simp_all add: r850_init_regs_def r850_imr_cal_regs_def r850_lpf_cal_regs_def)

lemma u32_diff: "b \<le> a \<Longrightarrow> a < 2 ^ 32 \<Longrightarrow> (a + 2 ^ 32 - b) mod 2 ^ 32 = a - b" for a b :: nat
proof -
  assume "b \<le> a" "a < 2 ^ 32"
  then have "a + 2 ^ 32 - b = a - b + 2 ^ 32" "a - b < 2 ^ 32" by simp_all
  then show ?thesis by (simp only: mod_add_self2 mod_less)
qed

lemma reg_op_do_length [simp]: "length (reg_op_do p r) = length r"
  by (cases p) simp_all

lemma fold_reg_length [simp]: "length (fold reg_op_do ops r) = length r"
  by (induction ops arbitrary: r) simp_all

named_theorems frame

locale r850_keeps =
  fixes P :: "'s r850_tuner \<Rightarrow> bool"
  assumes P_length: "P t \<Longrightarrow> length (r8_regs t) = 0x30"
    and P_regs: "length rs = 0x30 \<Longrightarrow> P t \<Longrightarrow> P (t\<lparr>r8_regs := rs\<rparr>)"
    and P_request: "P t \<Longrightarrow> P (t\<lparr>r8_s := snd (snd (i2c_comm_master_request (r8_i2c t) reqs (r8_s t)))\<rparr>)"
    and P_fields: "P t \<Longrightarrow> P (t\<lparr>r8_imr_cal := c\<rparr>)" "P t \<Longrightarrow> P (t\<lparr>r8_xtal_pwr := p\<rparr>)"
    and P_pll [frame]: "P t \<Longrightarrow> 17735 \<le> lo \<Longrightarrow> lo < 2200000 \<Longrightarrow> P (snd (r850_set_pll lo ifq sys t))"
begin

section \<open>Registers\<close>

lemma frame_run_all:
  assumes "\<And>f u. f \<in> set fs \<Longrightarrow> P u \<Longrightarrow> P (snd (f u))" "P t"
  shows "P (snd (run_all fs t))"
  using run_all_inv [of fs P] assms by blast

lemma frame_regs_do [frame]: "P t \<Longrightarrow> P (snd (regs_do ops t))"
  by (simp add: regs_do_def P_length P_regs)

lemma frame_write [frame]: "P t \<Longrightarrow> P (snd (r850_write_regs reg buf t))"
  by (simp add: r850_write_regs_def Let_def case_prod_beta P_request)

lemma frame_send [frame]: "P t \<Longrightarrow> P (snd (regs_send reg n t))"
  by (simp add: regs_send_def frame_write)

lemma frame_load [frame]: "length rs = 0x30 \<Longrightarrow> P t \<Longrightarrow> P (snd (r850_load_regs rs t))"
  by (simp add: r850_load_regs_def P_regs)

lemma frame_xtal_cap [frame]: "P t \<Longrightarrow> P (snd (r850_set_xtal_cap c t))"
  by (simp add: r850_set_xtal_cap_def frame)

lemma frame_mux [frame]: "P t \<Longrightarrow> P (snd (r850_set_mux rf lo sys t))"
  by (simp add: r850_set_mux_def Let_def case_prod_beta frame)

lemma frame_read_regs [frame]: "P t \<Longrightarrow> P (snd (snd (r850_read_regs reg buf t)))"
  by (simp add: r850_read_regs_def Let_def case_prod_beta P_request)

lemma frame_read_reg [frame]: "P t \<Longrightarrow> P (snd (snd (r850_read_reg reg v t)))"
  by (simp add: r850_read_reg_def Let_def case_prod_beta frame)

lemma frame_adc [frame]: "P t \<Longrightarrow> P (snd (snd (r850_read_adc_value v t)))"
  by (simp add: r850_read_adc_value_def Let_def case_prod_beta frame)

section \<open>The calibrations\<close>

lemma frame_change [frame]: "P t \<Longrightarrow> P (snd (run_all [regs_do ops, regs_send reg n] t))"
  by (rule frame_run_all) (auto simp: frame)

lemma frame_probe [frame]: "P t \<Longrightarrow> P (snd (snd (imr_probe ops t)))"
  by (simp add: imr_probe_def frame Let_def case_prod_beta del: run_all.simps)

lemma frame_cross_loop [frame]: "P t \<Longrightarrow> P (snd (snd (cross_loop ps best t)))"
proof (induction ps arbitrary: best t)
  case (Cons p ps)
  then show ?case by (cases p) (simp add: frame Let_def case_prod_beta)
qed simp

lemma frame_cross [frame]: "P t \<Longrightarrow> P (snd (snd (snd (r850_imr_check_iq_cross imr t))))"
  by (simp add: r850_imr_check_iq_cross_def frame Let_def case_prod_beta)

lemma frame_tree_loop [frame]: "P t \<Longrightarrow> P (snd (snd (tree_loop dir xs best t)))"
  by (induction xs arbitrary: best t) (simp_all add: frame Let_def case_prod_beta)

lemma frame_tree [frame]: "P t \<Longrightarrow> P (snd (snd (r850_imr_check_iq_tree imr dir n t)))"
  by (simp add: r850_imr_check_iq_tree_def frame Let_def case_prod_beta)

lemma frame_step_loop [frame]: "P t \<Longrightarrow> P (snd (snd (step_loop dir v best t)))"
proof (induction "15 - unat (v AND 0x0f)" arbitrary: v best t rule: less_induct)
  case less
  have "15 - unat ((v + 1) AND 0x0f) < 15 - unat (v AND 0x0f)" if "v AND 0x0f \<le> 8"
    using nibble_step [OF that] that by (simp add: word_le_nat_alt)
  note IH = less.hyps [OF this]
  show ?case using less.prems by (subst step_loop.simps) (simp add: frame Let_def case_prod_beta IH)
qed

lemma frame_step [frame]: "P t \<Longrightarrow> P (snd (snd (r850_imr_check_iq_step imr dir t)))"
  by (simp add: r850_imr_check_iq_step_def frame Let_def case_prod_beta)

lemma frame_section_loop [frame]: "P t \<Longrightarrow> P (snd (snd (section_loop ps v best t)))"
  by (induction ps arbitrary: v best t) (simp_all add: frame Let_def case_prod_beta)

lemma frame_section [frame]: "P t \<Longrightarrow> P (snd (snd (r850_imr_check_section imr t)))"
  by (simp add: r850_imr_check_section_def frame Let_def case_prod_beta)

lemma frame_iqcap_loop [frame]: "P t \<Longrightarrow> P (snd (snd (iqcap_loop is imr t)))"
  by (induction "is" arbitrary: imr t) (simp_all add: frame Let_def case_prod_beta del: run_all.simps)

lemma frame_iqcap [frame]: "P t \<Longrightarrow> P (snd (snd (r850_imr_check_iqcap imr t)))"
  by (simp add: r850_imr_check_iqcap_def frame Let_def case_prod_beta del: run_all.simps)

lemma frame_put [frame]: "P t \<Longrightarrow> P (imr_put j i t)"
  "P t \<Longrightarrow> P (cal_set f t)"
  by (simp_all add: imr_put_def cal_set_def P_fields)

lemma frame_update:
  assumes "\<And>i u. P u \<Longrightarrow> P (snd (snd (f i u)))" "P t"
  shows "P (snd (imr_update j f t))"
  using assms by (simp add: imr_update_def frame Let_def case_prod_beta)

lemma frame_full [frame]: "P t \<Longrightarrow> P (snd (imr_full j t))"
  unfolding imr_full_def Let_def case_prod_beta
  by (auto simp: frame intro!: frame_run_all frame_update simp del: run_all.simps)

lemma ring_range: "130700 \<le> ring_freq j - 5300" "ring_freq j - 5300 < 2200000" "ring_freq j + 5300 < 2200000"
  by simp_all

lemma frame_setup [frame]:
  assumes "P t"
  shows "P (snd (imr_setup j t))"
  unfolding imr_setup_def Let_def
  by (rule frame_run_all [OF _ assms]) (use ring_range [of j] in \<open>auto simp: frame simp del: ring_freq.simps split: if_splits\<close>)

lemma frame_one [frame]: "P t \<Longrightarrow> P (snd (imr_one j t))"
  unfolding imr_one_def Let_def
  by (rule frame_run_all) (auto simp: frame intro!: frame_update split: if_splits)

lemma frame_calibrate_imr [frame]: "P t \<Longrightarrow> P (snd (r850_calibrate_imr t))"
  unfolding r850_calibrate_imr_def by (rule frame_run_all) (auto simp: frame)

lemma frame_gain_loop [frame]: "P t \<Longrightarrow> P (snd (snd (lpf_gain_loop is v t)))"
  by (induction "is" arbitrary: v t) (simp_all add: frame Let_def case_prod_beta del: run_all.simps)

lemma frame_measure [frame]: "P t \<Longrightarrow> P (snd (snd (lpf_measure ops t)))"
  by (simp add: lpf_measure_def frame Let_def case_prod_beta del: run_all.simps)

lemma frame_bw_loop [frame]: "P t \<Longrightarrow> P (snd (snd (lpf_bw_loop is v t)))"
  by (induction "is" arbitrary: v t) (simp_all add: frame Let_def case_prod_beta)

lemma frame_code_loop [frame]: "P t \<Longrightarrow> P (snd (snd (lpf_code_loop ifq gap w is v t)))"
  by (induction "is" arbitrary: v t) (simp_all add: frame Let_def case_prod_beta)

lemma frame_calibrate_lpf [frame]:
  assumes "P t" "ifq \<le> 9999"
  shows "P (snd (snd (r850_calibrate_lpf ifq bw gap t)))"
proof -
  have e: "(72000 + 2 ^ 32 - ifq) mod 2 ^ 32 = 72000 - ifq" by (rule u32_diff) (use assms(2) in simp_all)
  have n: "\<not> ifq > 9999" using assms(2) by simp
  show ?thesis using assms unfolding r850_calibrate_lpf_def lpf_high_def e if_not_P [OF n]
    by (simp add: frame Let_def case_prod_beta del: upt_conv_Cons lpf_gain_loop.simps lpf_bw_loop.simps lpf_code_loop.simps)
qed

lemma frame_prepare [frame]: "P t \<Longrightarrow> P (snd (r850_prepare_calibration c t))"
  by (cases c) (simp_all add: frame)

lemma frame_pwr_loop [frame]: "P t \<Longrightarrow> P (snd (snd (xtal_pwr_loop is t)))"
  by (induction "is" arbitrary: t) (simp_all add: frame Let_def case_prod_beta del: run_all.simps)

lemma frame_xtal_power [frame]:
  assumes "P t"
  shows "P (snd (r850_check_xtal_power t))"
proof -
  have "P (snd (run_all [r850_load_regs r850_init_regs, regs_do ops, regs_send a n] t))" for ops a n
    by (rule frame_run_all [OF _ assms]) (auto simp: frame)
  then show ?thesis
    by (simp add: r850_check_xtal_power_def Let_def case_prod_beta frame P_fields del: run_all.simps xtal_pwr_loop.simps)
qed

end

locale r850_keeps_sys = r850_keeps +
  assumes P_pll_any: "P t \<Longrightarrow> P (snd (r850_set_pll lo ifq sys t))"
    and P_sys: "P t \<Longrightarrow> P (t\<lparr>r8_sys := s\<rparr>)" "P t \<Longrightarrow> P (t\<lparr>r8_sys_curr := s\<rparr>)" "P t \<Longrightarrow> P (t\<lparr>r8_mixer_mode := m\<rparr>)"
      "P t \<Longrightarrow> P (t\<lparr>r8_mixer_amp_lpf_imr_cal := p\<rparr>)"
begin

lemma all_high: "P t \<Longrightarrow> P (snd (snd (lpf_high ifq v t)))"
  by (simp add: lpf_high_def frame P_pll_any Let_def case_prod_beta)

lemma all_calibrate_lpf: "P t \<Longrightarrow> P (snd (snd (r850_calibrate_lpf ifq bw gap t)))"
  unfolding r850_calibrate_lpf_def
  by (simp add: frame all_high P_pll_any Let_def case_prod_beta del: upt_conv_Cons lpf_gain_loop.simps lpf_bw_loop.simps lpf_code_loop.simps)

lemma all_apply_system: "P t \<Longrightarrow> P (snd (r850_apply_system t))"
  by (cases "find_system_params (r8_sys t) (r8_chip t)")
    (auto simp: r850_apply_system_def Let_def case_prod_beta frame all_calibrate_lpf P_sys simp del: run_all.simps
      intro!: frame_run_all)

lemma all_set_frequency: "P t \<Longrightarrow> P (snd (r850_set_frequency f t))"
proof -
  assume t: "P t"
  have p: "P (snd (r850_set_system_params u))" if "P u" for u
    unfolding r850_set_system_params_def Let_def
    by (auto simp: that frame all_apply_system simp del: run_all.simps intro!: frame_run_all)
  have q: "P (snd (r850_set_system_frequency f u))" if "P u" for u
    unfolding r850_set_system_frequency_def Let_def
    by (auto simp: that frame P_pll_any simp del: run_all.simps split: option.split intro!: frame_run_all)
  show ?thesis using t unfolding r850_set_frequency_def
    by (auto simp: p q simp del: run_all.simps intro!: frame_run_all)
qed

lemma all_simple:
  assumes "P t"
  shows "P (snd (r850_sleep t))" "P (snd (r850_wakeup t))" "P (snd (r850_set_system s t))"
    "P (snd (snd (r850_is_pll_locked b t)))"
  using assms by (auto simp: r850_sleep_def r850_wakeup_def r850_set_system_def P_sys r850_is_pll_locked_def Let_def
      case_prod_beta frame split: option.split)

end

locale r850_keeps_all = r850_keeps_sys +
  assumes P_init: "P t \<Longrightarrow> P (t\<lparr>r8_init := i\<rparr>)" "P t \<Longrightarrow> P (t\<lparr>r8_chip := k\<rparr>)"
begin

lemma all_undone: "P t \<Longrightarrow> P (cal_undone t)"
  unfolding cal_undone_def using P_sys P_fields by simp

lemma all_chip_loop: "P t \<Longrightarrow> P (snd (chip_loop n r t))"
  by (induction n arbitrary: r t) (simp_all add: Let_def case_prod_beta frame P_init)

lemma all_init: "P t \<Longrightarrow> P (snd (r850_init t))"
  unfolding r850_init_def Let_def case_prod_beta
  by (auto simp: frame all_chip_loop all_undone P_init simp del: run_all.simps intro!: frame_run_all)

lemma all_term: "P t \<Longrightarrow> P (snd (r850_term t))"
  using all_undone [of t] by (simp add: r850_term_def P_regs P_init)

end

text \<open>A successful initialisation sets the flag the other functions look at, and the end takes it back.\<close>

lemma r850_init_sets: "fst (r850_init t) = 0 \<Longrightarrow> r8_init (snd (r850_init t))"
proof -
  assume a: "fst (r850_init t) = 0"
  have last: "r8_init u'" if "run_all (fs @ [\<lambda>u. (0, u\<lparr>r8_init := True\<rparr>)]) u = (0, u')" for fs and u u' :: "'a r850_tuner"
    using that by (auto simp: run_all_append split: prod.splits if_splits)
  have "run_all [r850_check_xtal_power, r850_write_regs 0x08 rs, r850_load_regs r850_init_regs,
      \<lambda>u. (0, u\<lparr>r8_init := True\<rparr>)] u = (0, u') \<Longrightarrow> r8_init u'" for rs and u u' :: "'a r850_tuner"
    using last [of "[r850_check_xtal_power, r850_write_regs 0x08 rs, r850_load_regs r850_init_regs]" u u'] by (simp del: run_all.simps)
  then show ?thesis using a unfolding r850_init_def Let_def case_prod_beta
    by (auto simp del: run_all.simps split: if_splits) (metis prod.collapse)
qed

end
