(* ===== verification/R850_Props.thy ===== *)
theory R850_Props
  imports R850_Keeps Rt710_Props
begin

text \<open>
  The terrestrial tuner's synthesizer: what \<^verbatim>\<open>r850_set_pll\<close> leaves in the registers stands for the
  requested frequency, for every local oscillator frequency the driver can ask for.
\<close>

section \<open>The divider\<close>

lemma r850_div_found:
  assumes "17735 \<le> lo" "lo < 2200000" "vmin = r850_vco_min chip" "d = r850_div_loop vmin lo 0"
  shows "d \<le> 6 \<and> r850_vco lo d = lo * 2 ^ (d + 1) \<and> vmin \<le> r850_vco lo d \<and> r850_vco lo d < 2 * vmin"
proof -
  have vm: "2200000 \<le> vmin" "vmin \<le> 2270000" using assms(3) by (simp_all add: r850_vco_min_def)
  have small: "r850_vco lo k = lo * 2 ^ (k + 1)" if "k \<le> 6" for k
  proof -
    have "(2 :: nat) ^ (k + 1) \<le> 2 ^ 7" using that by (intro power_increasing) simp_all
    then have "lo * 2 ^ (k + 1) \<le> 2200000 * 2 ^ 7" using assms(2) by (intro mult_le_mono) simp_all
    then show ?thesis by (simp add: r850_vco_def)
  qed
  have "k \<le> 6 \<Longrightarrow> lo * 2 ^ (k + 1) < 2 * vmin \<Longrightarrow> e = r850_div_loop vmin lo k \<Longrightarrow>
      e \<le> 6 \<and> vmin \<le> lo * 2 ^ (e + 1) \<and> lo * 2 ^ (e + 1) < 2 * vmin" for k e
  proof (induction "6 - k" arbitrary: k)
    case 0
    then have "k = 6" "e = 6" by (simp_all add: r850_div_loop.simps)
    then show ?case using 0 assms(1) vm by simp
  next
    case (Suc n)
    then have k: "k < 6" by simp
    show ?case
    proof (cases "vmin \<le> r850_vco lo k \<and> r850_vco lo k < vmin * 2")
      case True
      then have "e = k" using Suc.prems k by (simp add: r850_div_loop.simps)
      then show ?thesis using True k small [of k] by simp
    next
      case False
      have "e = r850_div_loop vmin lo (k + 1)"
        using Suc.prems(3) k False by (simp only: r850_div_loop.simps [of vmin lo k] if_P if_not_P simp_thms)
      moreover have "lo * 2 ^ (k + 1 + 1) < 2 * vmin" using False Suc.prems(2) small [of k] k by simp
      ultimately show ?thesis using Suc.hyps(1) [of "k + 1"] Suc.hyps(2) k by simp
    qed
  qed
  from this [of 0 d] show ?thesis using assms vm small [of d] by simp
qed

lemma r850_split:
  assumes "xtal \<in> {6000, 12000, 24000}" "2200000 \<le> vco" "vco < 4540000"
  shows "45 \<le> r850_nint xtal vco" "r850_nint xtal vco \<le> 378"
    "vco = 2 * xtal * r850_nint xtal vco + r850_fra xtal vco" "r850_fra xtal vco < 2 * xtal"
proof -
  let ?q = "vco div (2 * xtal)"
  have x: "6000 \<le> xtal" "xtal \<le> 24000" using assms(1) by auto
  have "?q \<le> 378" using assms by auto
  moreover have "45 \<le> ?q" using assms by auto
  moreover have n: "r850_nint xtal vco = ?q" using \<open>?q \<le> 378\<close> by (simp add: r850_nint_def div_mult2_eq)
  ultimately show "45 \<le> r850_nint xtal vco" "r850_nint xtal vco \<le> 378" by simp_all
  have le: "xtal * 2 * ?q \<le> vco" by (metis mult.commute times_div_less_eq_dividend)
  then have s: "(xtal * 2 * ?q) mod 2 ^ 32 = xtal * 2 * ?q" using assms(3) by simp
  have r: "vco - xtal * 2 * ?q = vco mod (2 * xtal)" by (metis minus_mult_div_eq_mod mult.commute)
  have lt: "vco mod (2 * xtal) < 2 * xtal" using x by simp
  have "r850_fra xtal vco = (vco - xtal * 2 * ?q + 2 ^ 32) mod 2 ^ 16"
    unfolding r850_fra_def n s using le by simp
  also have "\<dots> = vco mod (2 * xtal)"
  proof -
    have p: "(2 :: nat) ^ 32 = 2 ^ 16 * 2 ^ 16" by simp
    show ?thesis unfolding r p mod_mult_self1 by (rule mod_less) (use lt x in \<open>simp del: mod_less_divisor\<close>)
  qed
  finally have f: "r850_fra xtal vco = vco mod (2 * xtal)" .
  show "vco = 2 * xtal * r850_nint xtal vco + r850_fra xtal vco" unfolding n f by simp
  show "r850_fra xtal vco < 2 * xtal" unfolding f by (rule lt)
qed

lemma r850_adjust_close:
  assumes "xtal \<in> {6000, 12000, 24000}" "45 \<le> nint" "nint \<le> 378" "fra < 2 * xtal" "r850_adjust xtal nint fra = (n', f')"
  shows "45 \<le> n'" "n' \<le> 379" "f' < 2 * xtal"
    "\<bar>(2 * int xtal * int nint + int fra) - (2 * int xtal * int n' + int f')\<bar> \<le> int (xtal div 64) + 2"
proof -
  have x: "0 < xtal" "xtal \<le> 24000" using assms(1) by auto
  then have m: "(xtal * 127 div 128) mod 2 ^ 16 = xtal * 127 div 128" "(xtal * 129 div 128) mod 2 ^ 16 = xtal * 129 div 128"
    "(nint + 1) mod 2 ^ 16 = nint + 1"
    using assms(3) by simp_all
  have "nint \<le> n' \<and> n' \<le> nint + 1 \<and> f' < 2 * xtal \<and>
      \<bar>(2 * int xtal * int nint + int fra) - (2 * int xtal * int n' + int f')\<bar> \<le> int (xtal div 64) + 2"
    by (rule spur_correction_close [OF x(1) assms(4)])
      (use assms(5) [unfolded r850_adjust_def m] in \<open>auto split: if_splits\<close>)
  then show "45 \<le> n'" "n' \<le> 379" "f' < 2 * xtal"
    "\<bar>(2 * int xtal * int nint + int fra) - (2 * int xtal * int n' + int f')\<bar> \<le> int (xtal div 64) + 2"
    using assms(2,3) by simp_all
qed

section \<open>What the registers stand for\<close>

definition pll_div_of :: "u8 list \<Rightarrow> nat" where
  "pll_div_of r = unat (drop_bit 2 (r ! 0x1e) AND 7)"

definition pll_xtal_of :: "nat \<Rightarrow> u8 list \<Rightarrow> nat" where
  "pll_xtal_of xtal r =
     (if r ! 0x22 AND 3 = 3 then xtal div 4 else if r ! 0x22 AND 3 = 2 then xtal div 2 else xtal)"

definition pll_nint_of :: "u8 list \<Rightarrow> nat" where
  "pll_nint_of r = 13 + 4 * unat (r ! 0x1b AND 0x7f) + unat (r ! 0x1e AND 3)"

definition pll_sdm_of :: "u8 list \<Rightarrow> nat" where
  "pll_sdm_of r = unat (be16 (r ! 0x1d) (r ! 0x1c))"

lemma unat_low_bits:
  "unat (of_nat q AND 0x7f :: u8) = q mod 128" "unat (of_nat q AND 3 :: u8) = q mod 4"
proof -
  have "unat (take_bit k (of_nat q) :: u8) = take_bit k (take_bit 8 q)" for k
    by (simp only: unsigned_take_bit_eq unsigned_of_nat) simp
  moreover have "x AND 0x7f = take_bit 7 x" "x AND 3 = take_bit 2 x" for x :: u8
    by (simp_all add: take_bit_eq_mask mask_eq_decr_exp)
  ultimately show "unat (of_nat q AND 0x7f :: u8) = q mod 128" "unat (of_nat q AND 3 :: u8) = q mod 4"
    by (simp_all add: take_bit_take_bit) (simp_all add: take_bit_eq_mod)
qed

lemma nint_decodes:
  assumes "n \<in> {45..379}"
  shows "13 + 4 * unat (r850_ni n AND 0x7f) + unat (r850_si n AND 3) = n"
proof -
  define m where "m = n - 13"
  have n: "n = m + 13" "m \<le> 366" using assms by (auto simp: m_def)
  have "r850_ni n = of_int (int (m div 4))" by (simp add: r850_ni_def n zdiv_int)
  then have ni: "r850_ni n = of_nat (m div 4)" by (simp only: of_int_of_nat_eq)
  have q: "m div 4 < 128" using n(2) by simp
  have "unat (r850_ni n) = m div 4" unfolding ni using q by (simp add: unat_of_nat)
  then have "r850_si n = of_int (int m - int (m div 4) * 4)" by (simp add: r850_si_def n)
  also have "int m - int (m div 4) * 4 = int (m mod 4)" by presburger
  finally have si: "r850_si n = of_nat (m mod 4)" by simp
  show ?thesis unfolding si ni unat_low_bits using q by (simp add: n)
qed

lemma masked_bits:
  fixes x n :: u8
  shows "((x AND 0x80) OR (n AND 0x7f)) AND 0x7f = n AND 0x7f"
    "((x AND 0xfc) OR (n AND 3)) AND 3 = n AND 3"
    "drop_bit 2 (((x AND 0xe3 OR y) AND 0xfc) OR (n AND 3)) AND 7 = drop_bit 2 y AND 7"
  by (simp_all add: bit.conj_disj_distrib2 and.assoc drop_bit_or drop_bit_and)

lemma div_decodes: "d \<le> 6 \<Longrightarrow> unat (drop_bit 2 (sh 2 (of_nat d) 0x1c) AND 7 :: u8) = d"
proof -
  have "list_all (\<lambda>d. unat (drop_bit 2 (sh 2 (of_nat d) 0x1c) AND 7 :: u8) = d) [0..<7]" by code_simp
  moreover assume "d \<le> 6"
  then have "d \<in> set [0..<7]" unfolding set_upt by simp
  ultimately show ?thesis unfolding list_all_iff by blast
qed

lemma xtal_choice_cases: "xtal_choice sys lo ifq xtal \<in> {(xtal, 0), (xtal div 2, 2), (xtal div 4, 3)}"
  by (auto simp: xtal_choice_def)

lemma regs_do_result: "regs_do ops t = (ret, t') \<longleftrightarrow> ret = 0 \<and> t' = t\<lparr>r8_regs := fold reg_op_do ops (r8_regs t)\<rparr>"
  by (auto simp: regs_do_def)

lemma write_regs_keeps: "r850_write_regs reg buf t = (ret, t') \<Longrightarrow> \<exists>s. t' = t\<lparr>r8_s := s\<rparr>"
  by (auto simp: r850_write_regs_def Let_def split: prod.splits if_splits intro: exI [of _ "r8_s t"])

lemma regs_send_keeps: "regs_send reg n t = (ret, t') \<Longrightarrow> \<exists>s. t' = t\<lparr>r8_s := s\<rparr>"
  unfolding regs_send_def by (rule write_regs_keeps)

fun reg_of :: "reg_op \<Rightarrow> nat" where
  "reg_of (R_and i m) = i"
| "reg_of (R_or i m) = i"
| "reg_of (R_set i v) = i"

lemma reg_op_do_other: "reg_of p \<noteq> i \<Longrightarrow> reg_op_do p r ! i = r ! i"
  by (cases p) simp_all

lemma fold_reg_other: "i \<notin> reg_of ` set ops \<Longrightarrow> fold reg_op_do ops r ! i = r ! i"
  by (induction ops arbitrary: r) (auto simp: reg_op_do_other)

lemma pll_num_regs:
  assumes "length r = 0x30"
  shows "fold reg_op_do (pll_ops_num nint) r ! 0x1b = (r ! 0x1b AND 0x80) OR (r850_ni nint AND 0x7f)"
    "fold reg_op_do (pll_ops_num nint) r ! 0x1e = (r ! 0x1e AND 0xfc) OR (r850_si nint AND 3)"
    "fold reg_op_do (pll_ops_num nint) r ! 0x22 = r ! 0x22"
  using assms by (simp_all add: pll_ops_num_def)

lemma pll_div_regs:
  assumes "length r = 0x30"
  shows "fold reg_op_do (pll_ops_div x d) r ! 0x1e = (r ! 0x1e AND 0xe3) OR sh 2 (of_nat d) 0x1c"
    "fold reg_op_do (pll_ops_div x d) r ! 0x22 = (r ! 0x22 AND 0xfc) OR x"
  using assms by (simp_all add: pll_ops_div_def)

text \<open>The registers after a successful setup, the divider having been chosen.\<close>

lemma r850_set_pll_regs:
  assumes "r850_set_pll lo ifq sys t = (0, t')" "length (r8_regs t) = 0x30"
    "d = r850_div_loop (r850_vco_min (r8_chip t)) lo 0" "vco = r850_vco lo d"
    "xtal_choice sys lo ifq (r8_xtal (r8_config t)) = (xtal, xbits)"
    "r850_adjust xtal (r850_nint xtal vco) (r850_fra xtal vco) = (nint, fra)" "xtal \<noteq> 0"
  shows "\<exists>sdm a b c. sdm_loop xtal 1 fra 0 = Some sdm \<and> r8_regs t' ! 0x1c = lo8 (of_nat sdm) \<and>
    r8_regs t' ! 0x1d = hi8 (of_nat sdm) \<and> r8_regs t' ! 0x1b = (a AND 0x80) OR (r850_ni nint AND 0x7f) \<and>
    r8_regs t' ! 0x1e = (((b AND 0xe3) OR sh 2 (of_nat d) 0x1c) AND 0xfc) OR (r850_si nint AND 3) \<and>
    r8_regs t' ! 0x22 = (c AND 0xfc) OR xbits"
proof -
  have "run_all [regs_do pll_ops_start, r850_set_xtal_cap 0x27,
      regs_do (pll_ops_judge (r8_chip t) (xtal_pwr_bits (r8_xtal_pwr t) lo) (div_judge_of lo ifq)),
      regs_do (pll_ops_div xbits d), regs_do (pll_ops_num nint), r850_set_sdm xtal fra, regs_send 0x08 0x28,
      regs_do ((if r8_chip t = 0 then [R_and 0x2f 0xfc] else []) @ [R_or 0x2f 0x02]), regs_send 0x2f 0x01] t = (0, t')"
    using assms(1) unfolding r850_set_pll_def Let_def assms(3) [symmetric] assms(4) [symmetric] assms(5,6) prod.case
      if_not_P [OF assms(7)] by simp
  then obtain t1 t2 t3 t4 t5 t6 t7 t8 where s: "regs_do pll_ops_start t = (0, t1)" "r850_set_xtal_cap 0x27 t1 = (0, t2)"
      "regs_do (pll_ops_judge (r8_chip t) (xtal_pwr_bits (r8_xtal_pwr t) lo) (div_judge_of lo ifq)) t2 = (0, t3)"
      "regs_do (pll_ops_div xbits d) t3 = (0, t4)" "regs_do (pll_ops_num nint) t4 = (0, t5)"
      "r850_set_sdm xtal fra t5 = (0, t6)" "regs_send 0x08 0x28 t6 = (0, t7)"
      "regs_do ((if r8_chip t = 0 then [R_and 0x2f 0xfc] else []) @ [R_or 0x2f 0x02]) t7 = (0, t8)"
      "regs_send 0x2f 0x01 t8 = (0, t')"
    unfolding run_all_zero run_all_single by blast
  obtain sdm where sdm: "sdm_loop xtal 1 fra 0 = Some sdm"
    using s(6) by (cases "sdm_loop xtal 1 fra 0") (simp_all add: r850_set_sdm_def r850_raise_ub_def)
  have l3: "length (r8_regs t3) = 0x30" using s(1-3) assms(2) by (auto simp: regs_do_result r850_set_xtal_cap_def)
  have r5: "r8_regs t5 = fold reg_op_do (pll_ops_num nint) (fold reg_op_do (pll_ops_div xbits d) (r8_regs t3))"
    using s(4,5) by (simp add: regs_do_result)
  have r6: "r8_regs t6 = (r8_regs t5)[0x1c := lo8 (of_nat sdm), 0x1d := hi8 (of_nat sdm)]"
    using s(6) unfolding r850_set_sdm_def sdm option.case by (simp add: regs_do_result)
  have r': "r8_regs t' ! i = r8_regs t6 ! i" if "i \<noteq> 0x2f" for i
    using s(7-9) that by (auto simp: regs_do_result fold_reg_other dest!: regs_send_keeps)
  note reads = r' r6 r5 l3 pll_num_regs pll_div_regs
  have "r8_regs t' ! 0x1c = lo8 (of_nat sdm)" "r8_regs t' ! 0x1d = hi8 (of_nat sdm)"
    "r8_regs t' ! 0x1b = (fold reg_op_do (pll_ops_div xbits d) (r8_regs t3) ! 0x1b AND 0x80) OR (r850_ni nint AND 0x7f)"
    "r8_regs t' ! 0x1e = (((r8_regs t3 ! 0x1e AND 0xe3) OR sh 2 (of_nat d) 0x1c) AND 0xfc) OR (r850_si nint AND 3)"
    "r8_regs t' ! 0x22 = (r8_regs t3 ! 0x22 AND 0xfc) OR xbits"
    by (simp_all add: reads)
  then show ?thesis using sdm by blast
qed

lemma r850_set_pll_ub:
  assumes "r850_set_pll lo ifq sys t = (ret, t')"
    "d = r850_div_loop (r850_vco_min (r8_chip t)) lo 0" "vco = r850_vco lo d"
    "xtal_choice sys lo ifq (r8_xtal (r8_config t)) = (xtal, xbits)"
    "r850_adjust xtal (r850_nint xtal vco) (r850_fra xtal vco) = (nint, fra)" "xtal \<noteq> 0"
    "sdm_loop xtal 1 fra 0 = Some sdm"
  shows "r8_ub t' = r8_ub t"
proof -
  have steps: "r8_ub (snd (regs_do ops u)) = r8_ub u" "r8_ub (snd (regs_send reg n u)) = r8_ub u"
      "r8_ub (snd (r850_set_xtal_cap c u)) = r8_ub u" for ops reg n c u
    using regs_send_keeps [of reg n u "fst (regs_send reg n u)" "snd (regs_send reg n u)"]
    by (auto simp: regs_do_def r850_set_xtal_cap_def)
  have sd: "r8_ub (snd (r850_set_sdm xtal fra u)) = r8_ub u" for u
    unfolding r850_set_sdm_def assms(7) option.case by (rule steps)
  have "r8_ub (snd (r850_set_pll lo ifq sys t)) = r8_ub t"
    unfolding r850_set_pll_def Let_def assms(2) [symmetric] assms(3) [symmetric] assms(4,5) prod.case if_not_P [OF assms(6)]
    by (rule run_all_inv [of _ "\<lambda>u. r8_ub u = r8_ub t"]) (auto simp: steps sd)
  then show ?thesis using assms(1) by simp
qed

text \<open>With the boards' crystal the divider and the fraction loop end.\<close>

lemma r850_pll_data:
  assumes "r8_xtal (r8_config t) = 24000" "17735 \<le> lo" "lo < 2200000"
    "d = r850_div_loop (r850_vco_min (r8_chip t)) lo 0" "vco = r850_vco lo d"
    "xtal_choice sys lo ifq (r8_xtal (r8_config t)) = (xtal, xbits)"
    "r850_adjust xtal (r850_nint xtal vco) (r850_fra xtal vco) = (nint, fra)"
  shows "(xtal, xbits) \<in> {(24000, 0), (12000, 2), (6000, 3)} \<and> nint \<in> {45..379} \<and>
    (\<exists>x < 65536. sdm_loop xtal 1 fra 0 = Some x \<and>
      \<bar>65536 * int vco - (65536 * int nint + int x) * (2 * int xtal)\<bar> \<le> 65536 * (int (xtal div 64) + 19))"
proof -
  note D = r850_div_found [OF assms(2,3) refl assms(4), folded assms(5)]
  have xb: "(xtal, xbits) \<in> {(24000, 0), (12000, 2), (6000, 3)}"
    using xtal_choice_cases [of sys lo ifq 24000] assms(1,6) by simp
  then have xt: "xtal \<in> {6000, 12000, 24000}" "xtal \<le> 32767" by auto
  have vr: "2200000 \<le> vco" "vco < 4540000" using D by (auto simp: r850_vco_min_def split: if_splits)
  note S = r850_split [OF xt(1) vr]
  note A = r850_adjust_close [OF xt(1) S(1,2,4) assms(7)]
  have "fra \<le> T xtal (1 - 1) + (1 - 1)" using A(3) by (simp add: T_def)
  then obtain x where x: "sdm_loop xtal 1 fra 0 = Some (0 + x)" "0 + x < 65536"
      "- (65536 * (15 - int 1)) \<le> 65536 * int fra - int x * (2 * int xtal)"
      "65536 * int fra - int x * (2 * int xtal) \<le> 65536 * 17"
    using sdm_loop_accurate [OF xt(2), of 1 fra 0] by auto
  have "\<bar>65536 * int vco - (65536 * int nint + int x) * (2 * int xtal)\<bar> \<le> 65536 * (int (xtal div 64) + 19)"
    by (rule ratio_error [OF S(3) A(4) x(3,4)])
  then show ?thesis using xb x(1,2) A(1,2) by auto
qed

lemma r850_pll_never_ub:
  assumes "r850_set_pll lo ifq sys t = (ret, t')" "r8_xtal (r8_config t) = 24000" "17735 \<le> lo" "lo < 2200000"
  shows "r8_ub t' = r8_ub t"
proof -
  define d where "d = r850_div_loop (r850_vco_min (r8_chip t)) lo 0"
  define vco where "vco = r850_vco lo d"
  obtain xtal xbits where X: "xtal_choice sys lo ifq (r8_xtal (r8_config t)) = (xtal, xbits)" by fastforce
  obtain nint fra where adj: "r850_adjust xtal (r850_nint xtal vco) (r850_fra xtal vco) = (nint, fra)" by fastforce
  note P = r850_pll_data [OF assms(2-4) d_def vco_def X adj]
  then have "xtal \<noteq> 0" by auto
  then show ?thesis using P r850_set_pll_ub [OF assms(1) d_def vco_def X adj] by blast
qed

lemma r850_pll_result:
  assumes "r850_set_pll lo ifq sys t = (ret, t')" "length (r8_regs t) = 0x30" "r8_xtal (r8_config t) = 24000"
    "17735 \<le> lo" "lo < 2200000" "regs = r8_regs t'"
  shows "r8_ub t' = r8_ub t \<and> (ret = 0 \<longrightarrow>
      r850_vco_min (r8_chip t) \<le> lo * 2 ^ (pll_div_of regs + 1) \<and>
      lo * 2 ^ (pll_div_of regs + 1) < 2 * r850_vco_min (r8_chip t) \<and>
      \<bar>65536 * int (lo * 2 ^ (pll_div_of regs + 1)) -
        (65536 * int (pll_nint_of regs) + int (pll_sdm_of regs)) * (2 * int (pll_xtal_of 24000 regs))\<bar>
      \<le> 65536 * (int (pll_xtal_of 24000 regs div 64) + 19))"
proof -
  define d where "d = r850_div_loop (r850_vco_min (r8_chip t)) lo 0"
  define vco where "vco = r850_vco lo d"
  obtain xtal xbits where X: "xtal_choice sys lo ifq (r8_xtal (r8_config t)) = (xtal, xbits)" by fastforce
  obtain nint fra where adj: "r850_adjust xtal (r850_nint xtal vco) (r850_fra xtal vco) = (nint, fra)" by fastforce
  note D = r850_div_found [OF assms(4,5) refl d_def, folded vco_def]
  obtain x where P: "(xtal, xbits) \<in> {(24000, 0), (12000, 2), (6000, 3)}" "nint \<in> {45..379}"
      "x < 65536" "sdm_loop xtal 1 fra 0 = Some x"
      "\<bar>65536 * int vco - (65536 * int nint + int x) * (2 * int xtal)\<bar> \<le> 65536 * (int (xtal div 64) + 19)"
    using r850_pll_data [OF assms(3-5) d_def vco_def X adj] by blast
  then have x0: "xtal \<noteq> 0" by auto
  have ub: "r8_ub t' = r8_ub t" by (rule r850_pll_never_ub [OF assms(1,3-5)])
  show ?thesis
  proof (cases "ret = 0")
    case True
    obtain a b c where R: "regs ! 0x1c = lo8 (of_nat x)" "regs ! 0x1d = hi8 (of_nat x)"
        "regs ! 0x1b = (a AND 0x80) OR (r850_ni nint AND 0x7f)"
        "regs ! 0x1e = (((b AND 0xe3) OR sh 2 (of_nat d) 0x1c) AND 0xfc) OR (r850_si nint AND 3)"
        "regs ! 0x22 = (c AND 0xfc) OR xbits"
      using r850_set_pll_regs [OF assms(1) [unfolded True] assms(2) d_def vco_def X adj x0] P(4) assms(6) by auto
    have dv: "pll_div_of regs = d" using D unfolding pll_div_of_def R masked_bits by (rule div_decodes [OF conjunct1])
    have xv: "pll_xtal_of 24000 regs = xtal" using P(1) unfolding pll_xtal_of_def R
      by (auto simp: bit.conj_disj_distrib2 and.assoc)
    have nv: "pll_nint_of regs = nint" using nint_decodes [OF P(2)] unfolding pll_nint_of_def R masked_bits by simp
    have sv: "pll_sdm_of regs = x" using P(3) by (simp add: pll_sdm_of_def R unat_of_nat)
    show ?thesis using ub D P(5) by (simp add: dv xv nv sv mult.commute)
  qed (use ub in simp)
qed

text \<open>C28: with the 24 MHz crystal of the boards and a local oscillator from 17735 kHz up to 2200 MHz, so for
  every frequency the tuner accepts, no step of the R850's synthesizer setup divides by zero: the divider
  search ends with the oscillator inside its range and the fraction loop ends. When the setup reports
  success, the divider, the crystal divider, the integer and the fractional word in the registers stand
  for the requested frequency within a 64th of the divided crystal, the driver's own correction against
  spurs, and 19 kHz, measured at the oscillator.\<close>

theorem r850_pll_accurate:
  assumes "r850_set_pll lo ifq sys t = (ret, t')" "length (r8_regs t) = 0x30" "r8_xtal (r8_config t) = 24000"
    "17735 \<le> lo" "lo < 2200000" "regs = r8_regs t'"
  shows "r8_ub t' = r8_ub t \<and> (ret = 0 \<longrightarrow>
      r850_vco_min (r8_chip t) \<le> lo * 2 ^ (pll_div_of regs + 1) \<and>
      lo * 2 ^ (pll_div_of regs + 1) < 2 * r850_vco_min (r8_chip t) \<and>
      \<bar>65536 * int (lo * 2 ^ (pll_div_of regs + 1)) -
        (65536 * int (pll_nint_of regs) + int (pll_sdm_of regs)) * (2 * int (pll_xtal_of 24000 regs))\<bar>
      \<le> 65536 * (int (pll_xtal_of 24000 regs div 64) + 19))"
  by (rule r850_pll_result [OF assms])

text \<open>A bus that accepts everything and reads as all ones, and a tuner on it with a 4063 kHz intermediate frequency.\<close>

fun all_ones :: "i2c_request \<Rightarrow> i2c_request" where
  "all_ones (I2C_READ_REQUEST a d) = I2C_READ_REQUEST a (replicate (length d) 0xff)"
| "all_ones r = r"

definition answering_bus :: "'s i2c_comm_master" where
  "answering_bus = \<lparr> i2c_gate_ctrl = None, i2c_request = Some (\<lambda>reqs s. (0, map all_ones reqs, s)) \<rparr>"

definition demo_r850 :: "'s \<Rightarrow> 's r850_tuner" where
  "demo_r850 s = \<lparr> r8_i2c = answering_bus, r8_addr = 0x7c,
     r8_config = \<lparr> r8_xtal = 24000, r8_loop_through = True, r8_clock_out = False, r8_no_imr_calibration = True,
       r8_no_lpf_calibration = True \<rparr>,
     r8_init = True, r8_chip = 1, r8_xtal_pwr = 0, r8_regs = r850_init_regs,
     r8_sys = \<lparr> sys_system = R850_SYSTEM_ISDB_T, sys_bandwidth = R850_BANDWIDTH_6M, sys_if_freq = 4063 \<rparr>,
     r8_mixer_mode = 1, r8_mixer_amp_lpf_imr_cal = 7, r8_imr_cal = [],
     r8_sys_curr = \<lparr> sys_system = R850_SYSTEM_ISDB_T, sys_bandwidth = R850_BANDWIDTH_6M, sys_if_freq = 4063 \<rparr>,
     r8_s = s, r8_junk = 0, r8_ub = False \<rparr>"

definition answered :: "'s r850_tuner \<Rightarrow> bool" where
  "answered t \<longleftrightarrow> r8_i2c t = answering_bus \<and> length (r8_regs t) = 0x30"

lemma answering_request: "i2c_comm_master_request answering_bus reqs s = (0, map all_ones reqs, s)"
  by (simp add: i2c_comm_master_request_def answering_bus_def)

lemma answered_steps:
  "answered t \<Longrightarrow> fst (regs_do ops t) = 0 \<and> answered (snd (regs_do ops t))"
  "answered t \<Longrightarrow> 0 < n \<Longrightarrow> reg + n \<le> 0x30 \<Longrightarrow> fst (regs_send reg n t) = 0 \<and> answered (snd (regs_send reg n t))"
  "answered t \<Longrightarrow> fst (r850_set_xtal_cap c t) = 0 \<and> answered (snd (r850_set_xtal_cap c t))"
  by (auto simp: answered_def regs_do_def regs_send_def r850_write_regs_def answering_request r850_set_xtal_cap_def)

lemma answered_pll:
  assumes "answered t" "r8_xtal (r8_config t) = 24000" "17735 \<le> lo" "lo < 2200000"
  shows "fst (r850_set_pll lo ifq sys t) = 0"
proof -
  define d where "d = r850_div_loop (r850_vco_min (r8_chip t)) lo 0"
  define vco where "vco = r850_vco lo d"
  obtain xtal xbits where X: "xtal_choice sys lo ifq (r8_xtal (r8_config t)) = (xtal, xbits)" by fastforce
  obtain nint fra where adj: "r850_adjust xtal (r850_nint xtal vco) (r850_fra xtal vco) = (nint, fra)" by fastforce
  note P = r850_pll_data [OF assms(2-4) d_def vco_def X adj]
  then obtain sdm where sdm: "sdm_loop xtal 1 fra 0 = Some sdm" and x0: "xtal \<noteq> 0" by auto
  have sd: "fst (r850_set_sdm xtal fra u) = 0 \<and> answered (snd (r850_set_sdm xtal fra u))" if "answered u" for u :: "'a r850_tuner"
    unfolding r850_set_sdm_def sdm option.case by (rule answered_steps(1) [OF that])
  show ?thesis
    unfolding r850_set_pll_def Let_def d_def [symmetric] vco_def [symmetric] X adj prod.case if_not_P [OF x0]
    by (intro conjunct1 [OF run_all_returns_0 [of _ answered, OF _ assms(1)]]) (auto simp: answered_steps sd)
qed

theorem r850_pll_accurate_witness:
  "\<exists>t. r850_set_pll 469080 4063 R850_SYSTEM_ISDB_T (demo_r850 ()) = (0, t) \<and> \<not> r8_ub t \<and>
    (2200000 :: nat) \<le> 469080 * 2 ^ (pll_div_of (r8_regs t) + 1) \<and> (469080 :: nat) * 2 ^ (pll_div_of (r8_regs t) + 1) < 4400000"
proof -
  have c: "length (r8_regs (demo_r850 ())) = 0x30" "r8_xtal (r8_config (demo_r850 ())) = 24000" "\<not> r8_ub (demo_r850 ())"
      "r8_chip (demo_r850 ()) = 1" "r8_i2c (demo_r850 ()) = answering_bus"
    by (simp_all add: r850_init_regs_def demo_r850_def)
  then obtain t where r: "r850_set_pll 469080 4063 R850_SYSTEM_ISDB_T (demo_r850 ()) = (0, t)"
    using answered_pll [of "demo_r850 ()" 469080 4063 R850_SYSTEM_ISDB_T] by (auto simp: answered_def prod_eq_iff)
  show ?thesis using r850_pll_accurate [OF r c(1,2) _ _ refl] c(3,4) r by (simp add: r850_vco_min_def)
qed

end
