(* ===== verification/R850_Safe.thy ===== *)
theory R850_Safe
  imports R850_Props
begin

text \<open>
  The tuner driver never divides by zero: with the 24 MHz crystal, the calibrations and the table
  driven setup ask the synthesizer only for frequencies it can divide, whatever the chip answers.
\<close>

section \<open>What the register traffic leaves alone\<close>

type_synonym r850_frame = "r850_config \<times> nat \<times> r850_system_config \<times> r850_system_config"

fun in_frame :: "r850_frame \<Rightarrow> 's r850_tuner \<Rightarrow> bool" where
  "in_frame (cfg, chip, sys, cur) t \<longleftrightarrow> r8_config t = cfg \<and> r8_chip t = chip \<and> r8_sys t = sys \<and> r8_sys_curr t = cur \<and>
     r8_xtal cfg = 24000 \<and> length (r8_regs t) = 0x30 \<and> \<not> r8_ub t"

lemma in_frame_init [simp]: "in_frame fr (t\<lparr>r8_init := b\<rparr>) = in_frame fr t"
  by (cases fr) simp

section \<open>The synthesizer on the board's crystal\<close>

lemma in_frame_pll:
  assumes t: "in_frame fr t" and lo: "17735 \<le> lo" "lo < 2200000"
  shows "in_frame fr (snd (r850_set_pll lo ifq sys t))"
proof -
  have x24: "r8_xtal (r8_config t) = 24000" "length (r8_regs t) = 0x30" "\<not> r8_ub t" using t by (cases fr; auto)+
  have ub: "\<not> r8_ub (snd (r850_set_pll lo ifq sys t))"
    using r850_pll_never_ub [OF prod.collapse [symmetric] x24(1) lo] x24(3) by simp
  define Q where "Q u \<longleftrightarrow> in_frame fr (u\<lparr>r8_ub := False\<rparr>)" for u :: "'a r850_tuner"
  have Qt: "Q t" using t by (cases fr) (simp add: Q_def)
  have e: "Q (snd (regs_do ops u))" if "Q u" for ops u
    using that by (cases fr) (auto simp: Q_def regs_do_def)
  have s: "Q (snd (regs_send reg n u))" if "Q u" for reg n u
    using that regs_send_keeps [of reg n u "fst (regs_send reg n u)" "snd (regs_send reg n u)"]
    by (cases fr) (auto simp: Q_def)
  have c: "Q (snd (r850_set_xtal_cap k u))" "Q (snd (r850_raise_ub u))" "Q (snd (r850_set_sdm xt f u))"
    if "Q u" for k u xt f
    using that e by (cases fr; auto simp: Q_def r850_set_xtal_cap_def r850_raise_ub_def r850_set_sdm_def split: option.split)+
  have "Q (snd (r850_set_pll lo ifq sys t))"
    unfolding r850_set_pll_def Let_def case_prod_beta
    by (rule run_all_inv [where P = Q, OF _ Qt]) (auto simp: e s c split: if_splits)
  then show ?thesis using ub by (cases fr) (simp add: Q_def)
qed

text \<open>So the calibrations and searches keep the frame.\<close>

interpretation framed: r850_keeps "in_frame fr" for fr
proof (unfold_locales, goal_cases)
  case (6 t lo ifq sys)
  then show ?case by (rule in_frame_pll)
qed (cases fr; simp)+

section \<open>Setting a system and a frequency\<close>

text \<open>The tables bound the intermediate frequency and that of the filter calibration.\<close>

lemma tables_bounded:
  "list_all (\<lambda>s. list_all (list_all (\<lambda>p. sp_if_freq p \<le> 5070 \<and> sp_filt_cal_if p \<le> 9999)) (sys_params s) \<and>
     length (sys_params s) = 2)
   [R850_SYSTEM_UNDEFINED, R850_SYSTEM_DVB_T, R850_SYSTEM_DVB_T2, R850_SYSTEM_DVB_T2_1, R850_SYSTEM_DVB_C,
    R850_SYSTEM_J83B, R850_SYSTEM_ISDB_T, R850_SYSTEM_DTMB, R850_SYSTEM_ATSC, R850_SYSTEM_FM]"
  by (simp add: dvb_t_t2_params_def dvb_t2_1_params_def dvb_c_params_def j83b_params_def isdb_t_params_def
      dtmb_params_def atsc_params_def sysprm_def)

lemma found_bounded:
  assumes "find_system_params sys chip = Some p" "chip \<le> 1"
  shows "sys_if_freq sys \<le> 5070" "sp_filt_cal_if p \<le> 9999"
proof -
  have "p \<in> set (sys_params (sys_system sys) ! chip)" "sp_if_freq p = sys_if_freq sys"
    using assms(1) by (auto simp: find_system_params_def find_Some_iff)
  moreover have "list_all (list_all (\<lambda>p. sp_if_freq p \<le> 5070 \<and> sp_filt_cal_if p \<le> 9999)) (sys_params (sys_system sys))"
      "length (sys_params (sys_system sys)) = 2"
    using tables_bounded by (cases "sys_system sys"; simp)+
  ultimately show "sys_if_freq sys \<le> 5070" "sp_filt_cal_if p \<le> 9999"
    using assms(2) nth_mem [of chip "sys_params (sys_system sys)"] by (fastforce simp: list_all_iff)+
qed

text \<open>A system whose bandwidth and intermediate frequency are in the tables (of one of the two chips).\<close>

definition sys_in_tables :: "r850_system_config \<Rightarrow> bool" where
  "sys_in_tables sys \<longleftrightarrow> find_system_params sys 0 \<noteq> None \<or> find_system_params sys 1 \<noteq> None"

lemma found_in_tables: "find_system_params sys chip = Some p \<Longrightarrow> chip \<le> 1 \<Longrightarrow> sys_in_tables sys"
  by (auto simp: sys_in_tables_def le_Suc_eq)

lemma sys_in_tables_bounded: "sys_in_tables sys \<Longrightarrow> sys_if_freq sys \<le> 5070"
  using found_bounded(1) [of sys 0] found_bounded(1) [of sys 1] by (auto simp: sys_in_tables_def)

text \<open>The invariant of the driver between its calls.\<close>

definition r850_wf :: "'s r850_tuner \<Rightarrow> bool" where
  "r850_wf t \<longleftrightarrow> r8_xtal (r8_config t) = 24000 \<and> length (r8_regs t) = 0x30 \<and> \<not> r8_ub t \<and> r8_chip t \<le> 1 \<and>
     (sys_system (r8_sys_curr t) \<noteq> R850_SYSTEM_UNDEFINED \<longrightarrow> sys_in_tables (r8_sys_curr t))"

lemma wf_in_frame: "r850_wf t \<Longrightarrow> in_frame (r8_config t, r8_chip t, r8_sys t, r8_sys_curr t) t"
  by (simp add: r850_wf_def)

lemma frame_wf:
  assumes "r850_wf t" "\<And>fr. in_frame fr t \<Longrightarrow> in_frame fr u"
  shows "r850_wf u" "r8_sys u = r8_sys t" "r8_sys_curr u = r8_sys_curr t"
  using assms(2) [OF wf_in_frame [OF assms(1)]] assms(1) by (auto simp: r850_wf_def)

lemma apply_system_wf:
  assumes "r850_wf t"
  shows "r850_wf (snd (r850_apply_system t))"
    "fst (r850_apply_system t) = 0 \<Longrightarrow> sys_in_tables (r8_sys_curr (snd (r850_apply_system t)))"
proof -
  have "r850_wf (snd (r850_apply_system t)) \<and>
      (fst (r850_apply_system t) = 0 \<longrightarrow> sys_in_tables (r8_sys_curr (snd (r850_apply_system t))))"
  proof (cases "find_system_params (r8_sys t) (r8_chip t)")
    case None
    then show ?thesis using assms by (simp add: r850_apply_system_def)
  next
    case (Some prm)
    note b = found_bounded [OF Some]
    have c1: "r8_chip t \<le> 1" using assms by (simp add: r850_wf_def)
    define call where "call = (if \<not> r8_no_lpf_calibration (r8_config t) then
        r850_calibrate_lpf (sp_filt_cal_if prm) (sp_bw prm) 2 (snd (r850_prepare_calibration R850_CALIBRATION_LPF t))
      else (0, sp_lpf prm, t))"
    have "in_frame fr (snd (snd call))" if "in_frame fr t" for fr
      using that b(2) [OF c1] by (simp add: call_def frame)
    note w = frame_wf [OF assms this]
    have e: "r850_apply_system t = (if fst call \<noteq> 0 then (fst call, snd (snd call)) else run_all
        [r850_load_regs r850_init_regs, regs_do (system_ops (r8_chip t) prm (fst (snd call))),
         \<lambda>u. (0, u\<lparr>r8_sys_curr := r8_sys t\<rparr>)] (snd (snd call)))"
      unfolding r850_apply_system_def Some option.case Let_def call_def [symmetric] case_prod_beta ..
    show ?thesis using w found_in_tables [OF Some c1] unfolding e
      by (auto simp: r850_load_regs_def regs_do_def r850_wf_def)
  qed
  then show "r850_wf (snd (r850_apply_system t))"
    "fst (r850_apply_system t) = 0 \<Longrightarrow> sys_in_tables (r8_sys_curr (snd (r850_apply_system t)))" by blast+
qed

lemma set_system_params_wf:
  assumes "r850_wf t"
  shows "r850_wf (snd (r850_set_system_params t))"
    "fst (r850_set_system_params t) = 0 \<Longrightarrow> sys_in_tables (r8_sys_curr (snd (r850_set_system_params t)))"
proof -
  let ?cal = "if \<not> r8_no_imr_calibration (r8_config t) \<and> (\<not> ic_done (r8_imr_cal t ! r8_mixer_mode t) \<or>
        ic_mixer_amp_lpf (r8_imr_cal t ! r8_mixer_mode t) \<noteq> r8_mixer_amp_lpf_imr_cal t)
      then [r850_prepare_calibration R850_CALIBRATION_IMR, r850_calibrate_imr] else []"
  have "in_frame fr (snd (run_all ?cal t))" if "in_frame fr t" for fr
    by (rule framed.frame_run_all [OF _ that]) (auto simp: frame split: if_splits)
  note w = frame_wf [OF assms this]
  define r where "r = run_all ?cal t"
  define u where "u = snd r"
  have "r850_wf (snd (r850_set_system_params t)) \<and>
      (fst (r850_set_system_params t) = 0 \<longrightarrow> sys_in_tables (r8_sys_curr (snd (r850_set_system_params t))))"
  proof (cases "sys_system (r8_sys t) = R850_SYSTEM_UNDEFINED \<or> fst r \<noteq> 0")
    case True
    then show ?thesis using assms w(1)
      by (auto simp: r850_set_system_params_def Let_def run_all_append case_prod_beta r_def simp del: run_all.simps)
  next
    case False
    then have e: "r850_set_system_params t = (if r8_sys u \<noteq> r8_sys_curr u then r850_apply_system u else (0, u))"
      unfolding r850_set_system_params_def Let_def run_all_append run_all_single case_prod_beta r_def [symmetric] u_def by simp
    have "r850_wf u" "r8_sys u = r8_sys t" using w by (simp_all add: u_def r_def)
    then show ?thesis using apply_system_wf [of u] False unfolding e by (auto simp: r850_wf_def)
  qed
  then show "r850_wf (snd (r850_set_system_params t))"
    "fst (r850_set_system_params t) = 0 \<Longrightarrow> sys_in_tables (r8_sys_curr (snd (r850_set_system_params t)))" by blast+
qed

lemma set_system_frequency_wf:
  assumes "r850_wf t" "40000 \<le> rf" "rf \<le> 1002000" "sys_if_freq (r8_sys_curr t) \<le> 5070"
  shows "r850_wf (snd (r850_set_system_frequency rf t))"
proof -
  have "(rf + 2 ^ 32 - sys_if_freq (r8_sys_curr t)) mod 2 ^ 32 = rf - sys_if_freq (r8_sys_curr t)"
    by (rule u32_diff) (use assms in simp_all)
  moreover have "(rf + sys_if_freq (r8_sys_curr t)) mod 2 ^ 32 = rf + sys_if_freq (r8_sys_curr t)" using assms by simp
  ultimately have "in_frame fr (snd (r850_set_system_frequency rf t))" if "in_frame fr t" for fr
    unfolding r850_set_system_frequency_def Let_def
    by (cases "find (freq_match (sys_if_freq (r8_sys_curr t)) rf) (sys_freq_params (sys_system (r8_sys_curr t)))")
      (use assms that in \<open>auto simp: frame simp del: power_numeral run_all.simps intro!: framed.frame_run_all\<close>)
  then show ?thesis by (rule frame_wf(1) [OF assms(1)])
qed

section \<open>Every call\<close>

datatype r850_op = R8_init | R8_term | R8_sleep | R8_wakeup | R8_set_system r850_system_config | R8_set_frequency nat | R8_is_pll_locked

fun r850_op_do :: "r850_op \<Rightarrow> 's r850_tuner \<Rightarrow> 's r850_tuner" where
  "r850_op_do R8_init t = snd (r850_init t)"
| "r850_op_do R8_term t = snd (r850_term t)"
| "r850_op_do R8_sleep t = snd (r850_sleep t)"
| "r850_op_do R8_wakeup t = snd (r850_wakeup t)"
| "r850_op_do (R8_set_system s) t = snd (r850_set_system s t)"
| "r850_op_do (R8_set_frequency f) t = snd (r850_set_frequency f t)"
| "r850_op_do R8_is_pll_locked t = snd (snd (r850_is_pll_locked False t))"

lemma chip_loop_wf: "r850_wf t \<Longrightarrow> r850_wf (snd (chip_loop n r t))"
proof (induction n arbitrary: r t)
  case (Suc n)
  have "r850_wf (snd (snd (r850_read_reg 0 (r8_junk t) t)))" by (rule frame_wf(1) [OF Suc.prems]) (simp add: frame)
  then show ?case using Suc.IH by (auto simp: Let_def case_prod_beta r850_wf_def)
qed simp

lemma init_wf:
  assumes "r850_wf t"
  shows "r850_wf (snd (r850_init t))"
proof -
  define u where "u = chip_loop 4 0 (cal_undone (t\<lparr>r8_init := False, r8_chip := 0\<rparr>))"
  have w: "r850_wf (snd u)" unfolding u_def by (rule chip_loop_wf) (use assms in \<open>simp add: r850_wf_def cal_undone_def\<close>)
  define v where "v = r850_read_regs 0x08 (replicate 0x28 (r8_junk t)) (snd u)"
  have v: "r850_wf (snd (snd v))" unfolding v_def by (rule frame_wf(1) [OF w]) (simp add: frame)
  have "in_frame fr (snd (run_all [r850_check_xtal_power, r850_write_regs 0x08 rs, r850_load_regs r850_init_regs,
       \<lambda>u. (0, u\<lparr>r8_init := True\<rparr>)] (snd (snd v))))" if "in_frame fr (snd (snd v))" for fr rs
    by (rule framed.frame_run_all [OF _ that]) (auto simp: frame)
  then have "r850_wf (snd (run_all [r850_check_xtal_power, r850_write_regs 0x08 rs, r850_load_regs r850_init_regs,
       \<lambda>u. (0, u\<lparr>r8_init := True\<rparr>)] (snd (snd v))))" for rs
    by (rule frame_wf(1) [OF v])
  then show ?thesis using w v
    unfolding r850_init_def u_def [symmetric] Let_def case_prod_beta v_def [symmetric] by simp
qed

lemma set_frequency_wf:
  assumes "r850_wf t"
  shows "r850_wf (snd (r850_set_frequency f t))"
proof -
  define u where "u = r850_set_system_params t"
  have "r850_wf (snd u)" "fst u = 0 \<Longrightarrow> sys_if_freq (r8_sys_curr (snd u)) \<le> 5070"
    using set_system_params_wf [OF assms] sys_in_tables_bounded by (simp_all add: u_def)
  then show ?thesis using assms set_system_frequency_wf [of "snd u" f]
    by (simp add: r850_set_frequency_def u_def [symmetric] case_prod_beta)
qed

lemma simple_calls_wf:
  assumes "r850_wf t"
  shows "r850_wf (snd (r850_term t))" "r850_wf (snd (r850_sleep t))" "r850_wf (snd (r850_wakeup t))"
    "r850_wf (snd (r850_set_system s t))" "r850_wf (snd (snd (r850_is_pll_locked b t)))"
proof -
  show "r850_wf (snd (snd (r850_is_pll_locked b t)))"
    by (rule frame_wf(1) [OF assms]) (simp add: r850_is_pll_locked_def Let_def case_prod_beta frame)
qed (use assms in \<open>auto simp: r850_term_def r850_sleep_def r850_wakeup_def r850_set_system_def r850_wf_def
      cal_undone_def split: option.split\<close>)

lemma op_wf: "r850_wf t \<Longrightarrow> r850_wf (r850_op_do p t)"
  by (cases p) (simp_all add: init_wf set_frequency_wf simple_calls_wf)

text \<open>C29: no sequence of calls of the R850 driver, with any systems, frequencies and calibrations and whatever
  the chip and the bus answer, ever divides by zero, provided the board's crystal is the 24 MHz one the
  code assumes; the copy of the registers keeps its 48 bytes, the chip type is one of the two, and the
  system in use, with its bandwidth and intermediate frequency, is always one of the tables'.\<close>

theorem r850_calls_safe:
  assumes "r850_wf t"
  shows "r850_wf (fold r850_op_do ops t)"
  using assms by (induction ops arbitrary: t) (simp_all add: op_wf)

theorem r850_calls_safe_witness:
  "r850_wf (fold r850_op_do [R8_init, R8_set_system (r8_sys (demo_r850 ())), R8_set_frequency 473143, R8_term] (demo_r850 ()))"
  by (rule r850_calls_safe) (simp add: r850_wf_def demo_r850_def sys_in_tables_def find_system_params_def
      isdb_t_params_def sysprm_def)

end
