(* ===== verification/Device_Stream.thy ===== *)
theory Device_Stream
  imports Ptx_Chrdev
begin

text \<open>
  From the USB buffers to the receivers: the stream handlers that the device drivers register with
  the bus (\<^verbatim>\<open>px4_device_stream_handler\<close>, \<^verbatim>\<open>pxmlt_device_stream_handler\<close>,
  \<^verbatim>\<open>isdb2056_device_stream_handler\<close>, \<^verbatim>\<open>isdbt2071_device_stream_handler\<close>) and what they call. Boards
  with several receivers interleave their packets and put the receiver's number in the upper bits
  of the sync byte; the others send a plain transport stream.

  The stream context is the state: the receivers (of type \<open>'s\<close>: a list of them, or one) and the
  bytes left over from the last buffer. \<open>remain_buf\<close> holds the first \<^verbatim>\<open>remain_len\<close> bytes of the C
  array, whose size is 752. A pointer into a buffer with the length left is the list of the bytes
  left; the tag of a packet is overwritten in place, after which the packet is not read again.
\<close>

section \<open>Sync bytes\<close>

abbreviation (input) TS_SYNC_COUNT :: nat where "TS_SYNC_COUNT \<equiv> 4"
abbreviation (input) TS_SYNC_SIZE :: nat where "TS_SYNC_SIZE \<equiv> 752"

definition px4_ts_has_plain_sync :: "u8 \<Rightarrow> bool" where
  "px4_ts_has_plain_sync v \<longleftrightarrow> v = 0x47"

definition px4_ts_has_tagged_sync :: "u8 \<Rightarrow> bool" where
  "px4_ts_has_tagged_sync v \<longleftrightarrow> v AND 0x8f = 0x07"

section \<open>Boards with several receivers\<close>

text \<open>The for loop that looks for four packets in a row: \<open>i\<close> and \<^verbatim>\<open>sync_remain\<close> when it ends.\<close>

function (sequential) tagged_sync_loop :: "u8 list \<Rightarrow> nat \<Rightarrow> nat \<times> bool" where
  "tagged_sync_loop p i =
     (if i < TS_SYNC_COUNT then
        if (i + 1) * 188 \<le> length p then
          if \<not> px4_ts_has_tagged_sync (p ! (i * 188)) then (i, False)
          else tagged_sync_loop p (i + 1)
        else (i, True)
      else (i, False))"
  by pat_completeness auto
termination by (relation "measure (\<lambda>(p, i). 4 - i)") auto

declare tagged_sync_loop.simps [simp del]

text \<open>
  One packet: its receiver gets it, with the sync byte restored. \<open>lim\<close> is the first number that is
  not a receiver's (5 on px4 boards, 6 on pxmlt boards).
\<close>

definition tag_of :: "u8 \<Rightarrow> nat" where
  "tag_of b = unat (drop_bit 4 (b AND 0x70))"

definition put_tagged :: "'w kernel \<Rightarrow> nat \<Rightarrow> 'w ptx_chrdev list \<Rightarrow> packet \<Rightarrow> 'w ptx_chrdev list" where
  "put_tagged K lim cs p =
     (let id = tag_of (p ! 0) in
      if id \<noteq> 0 \<and> id < lim then
        cs[id - 1 := snd (ptx_chrdev_put_stream K (cs ! (id - 1)) (p[0 := 0x47]))]
      else cs)"

function (sequential) tagged_packet_loop ::
    "'w kernel \<Rightarrow> nat \<Rightarrow> 'w ptx_chrdev list \<Rightarrow> u8 list \<Rightarrow> 'w ptx_chrdev list \<times> u8 list" where
  "tagged_packet_loop K lim cs p =
     (if length p \<ge> 188 \<and> p ! 0 AND 0x8f = 0x07 then
        tagged_packet_loop K lim (put_tagged K lim cs (take 188 p)) (drop 188 p)
      else (cs, p))"
  by pat_completeness auto
termination by (relation "measure (\<lambda>(K, lim, cs, p). length p)") auto

declare tagged_packet_loop.simps [simp del]

lemma tagged_packet_loop_length: "length (snd (tagged_packet_loop K lim cs p)) \<le> length p"
proof (induction K lim cs p rule: tagged_packet_loop.induct)
  case (1 K lim cs p)
  show ?case
  proof (cases "length p \<ge> 188 \<and> p ! 0 AND 0x8f = 0x07")
    case True
    then show ?thesis using 1 [OF True]
      by (subst tagged_packet_loop.simps) (simp only: if_P, simp)
  next
    case False
    then show ?thesis by (subst tagged_packet_loop.simps) (simp only: if_not_P, simp)
  qed
qed

lemma tagged_sync_loop_sync:
  "tagged_sync_loop p i = (j, False) \<Longrightarrow> TS_SYNC_COUNT \<le> j \<Longrightarrow> i \<le> k \<Longrightarrow> k < TS_SYNC_COUNT \<Longrightarrow>
     (k + 1) * 188 \<le> length p \<and> px4_ts_has_tagged_sync (p ! (k * 188))"
proof (induction p i rule: tagged_sync_loop.induct)
  case (1 p i)
  note IH = 1(1) and E = 1(2)
  have i: "i < TS_SYNC_COUNT" using 1 by simp
  have L: "(i + 1) * 188 \<le> length p" using E i
    by (subst (asm) tagged_sync_loop.simps) (auto split: if_splits)
  have S: "px4_ts_has_tagged_sync (p ! (i * 188))" using E i L 1(3)
    by (subst (asm) tagged_sync_loop.simps) (auto split: if_splits)
  have N: "tagged_sync_loop p (i + 1) = (j, False)" using E i L S
    by (subst (asm) tagged_sync_loop.simps) (simp split: if_splits)
  show ?case
  proof (cases "k = i")
    case True then show ?thesis using L S by simp
  next
    case False
    have "i + 1 \<le> k" using 1(4) False by simp
    then show ?thesis using IH [OF i L _ N 1(3) _ 1(5)] S by blast
  qed
qed

lemma tagged_packet_loop_less:
  assumes "length p \<ge> 188" "p ! 0 AND 0x8f = 0x07"
  shows "length (snd (tagged_packet_loop K lim cs p)) < length p"
proof -
  have "length (snd (tagged_packet_loop K lim (put_tagged K lim cs (take 188 p)) (drop 188 p))) \<le> length (drop 188 p)"
    by (rule tagged_packet_loop_length)
  also have "\<dots> < length p" using assms(1) by simp
  finally show ?thesis using assms by (subst tagged_packet_loop.simps) simp
qed

text \<open>\<^verbatim>\<open>px4_device_stream_process\<close> and \<^verbatim>\<open>pxmlt_device_stream_process\<close>, which differ in \<open>lim\<close> only.\<close>

function (sequential) tagged_stream_process ::
    "'w kernel \<Rightarrow> nat \<Rightarrow> 'w ptx_chrdev list \<Rightarrow> u8 list \<Rightarrow> 'w ptx_chrdev list \<times> u8 list" where
  "tagged_stream_process K lim cs p =
     (if p = [] then (cs, p)
      else
        let (i, sync_remain) = tagged_sync_loop p 0 in
        if sync_remain then (cs, p)
        else if i < TS_SYNC_COUNT then tagged_stream_process K lim cs (tl p)
        else
          let (cs1, p1) = tagged_packet_loop K lim cs p in
          tagged_stream_process K lim cs1 p1)"
  by pat_completeness auto
termination
proof (relation "measure (\<lambda>(K, lim, cs, p). length p)", goal_cases)
  case (3 K lim cs p x xa y xb xc ya)
  then have "tagged_sync_loop p 0 = (xa, False)" "TS_SYNC_COUNT \<le> xa" by auto
  from tagged_sync_loop_sync [OF this, of 0] have "188 \<le> length p" "px4_ts_has_tagged_sync (p ! 0)"
    by simp_all
  then have "length (snd (tagged_packet_loop K lim cs p)) < length p"
    by (intro tagged_packet_loop_less) (simp_all add: px4_ts_has_tagged_sync_def)
  then show ?case using 3 by (metis in_measure snd_conv case_prod_conv)
qed auto

declare tagged_stream_process.simps [simp del]

definition px4_device_stream_process ::
    "'w kernel \<Rightarrow> 'w ptx_chrdev list \<Rightarrow> u8 list \<Rightarrow> 'w ptx_chrdev list \<times> u8 list" where
  "px4_device_stream_process K = tagged_stream_process K 5"

definition pxmlt_device_stream_process ::
    "'w kernel \<Rightarrow> 'w ptx_chrdev list \<Rightarrow> u8 list \<Rightarrow> 'w ptx_chrdev list \<times> u8 list" where
  "pxmlt_device_stream_process K = tagged_stream_process K 6"

section \<open>Boards with one receiver\<close>

function (sequential) plain_sync_loop :: "u8 list \<Rightarrow> nat \<Rightarrow> nat \<times> bool" where
  "plain_sync_loop p i =
     (if (i + 1) * 188 \<le> length p then
        if \<not> px4_ts_has_plain_sync (p ! (i * 188)) then (i, False)
        else plain_sync_loop p (i + 1)
      else (i, True))"
  by pat_completeness auto
termination by (relation "measure (\<lambda>(p, i). length p - i)") auto

declare plain_sync_loop.simps [simp del]

text \<open>
  The bytes of an incomplete run at the end of the buffer are skipped one by one, since the number
  of packets is tested before \<^verbatim>\<open>sync_remain\<close>.
\<close>

function (sequential) plain_stream_process ::
    "'w kernel \<Rightarrow> 'w ptx_chrdev \<Rightarrow> u8 list \<Rightarrow> 'w ptx_chrdev \<times> u8 list" where
  "plain_stream_process K c p =
     (if p = [] then (c, p)
      else
        let (i, sync_remain) = plain_sync_loop p 0 in
        if i < TS_SYNC_COUNT then plain_stream_process K c (tl p)
        else
          let c1 = snd (ptx_chrdev_put_stream K c (take (188 * i) p));
              p1 = drop (188 * i) p in
          if sync_remain then (c1, p1) else plain_stream_process K c1 p1)"
  by pat_completeness auto
termination by (relation "measure (\<lambda>(K, c, p). length p)") auto

declare plain_stream_process.simps [simp del]

definition isdb2056_device_stream_process ::
    "'w kernel \<Rightarrow> 'w ptx_chrdev \<Rightarrow> u8 list \<Rightarrow> 'w ptx_chrdev \<times> u8 list" where
  "isdb2056_device_stream_process K = plain_stream_process K"

definition isdbt2071_device_stream_process ::
    "'w kernel \<Rightarrow> 'w ptx_chrdev \<Rightarrow> u8 list \<Rightarrow> 'w ptx_chrdev \<times> u8 list" where
  "isdbt2071_device_stream_process K = plain_stream_process K"

section \<open>The handlers\<close>

record 's stream_context =
  sc_chrdev :: 's
  remain_buf :: "u8 list"

text \<open>
  The four handlers have one text, with their own function in place of \<open>process\<close>. The sum of the
  two lengths is a 32-bit sum.
\<close>

definition handle_rest ::
    "('s \<Rightarrow> u8 list \<Rightarrow> 's \<times> u8 list) \<Rightarrow> 's stream_context \<Rightarrow> u8 list \<Rightarrow> 's stream_context" where
  "handle_rest process ctx p =
     (let (cs, rest) = process (sc_chrdev ctx) p in
      if rest \<noteq> [] then ctx\<lparr>sc_chrdev := cs, remain_buf := rest\<rparr> else ctx\<lparr>sc_chrdev := cs\<rparr>)"

definition stream_handler ::
    "('s \<Rightarrow> u8 list \<Rightarrow> 's \<times> u8 list) \<Rightarrow> 's stream_context \<Rightarrow> u8 list \<Rightarrow> 's stream_context" where
  "stream_handler process ctx buf =
     (let len = length (remain_buf ctx) in
      if len \<noteq> 0 then
        if (len + length buf) mod 2 ^ 32 \<ge> TS_SYNC_SIZE then
          let t = TS_SYNC_SIZE - len;
              (cs, rest) = process (sc_chrdev ctx) (remain_buf ctx @ take t buf);
              p = (if rest = [] then drop t buf else buf)
          in handle_rest process (ctx\<lparr>sc_chrdev := cs, remain_buf := []\<rparr>) p
        else ctx\<lparr>remain_buf := remain_buf ctx @ buf\<rparr>
      else handle_rest process ctx buf)"

definition px4_device_stream_handler ::
    "'w kernel \<Rightarrow> 'w ptx_chrdev list stream_context \<Rightarrow> u8 list \<Rightarrow> 'w ptx_chrdev list stream_context" where
  "px4_device_stream_handler K = stream_handler (px4_device_stream_process K)"

definition pxmlt_device_stream_handler ::
    "'w kernel \<Rightarrow> 'w ptx_chrdev list stream_context \<Rightarrow> u8 list \<Rightarrow> 'w ptx_chrdev list stream_context" where
  "pxmlt_device_stream_handler K = stream_handler (pxmlt_device_stream_process K)"

definition isdb2056_device_stream_handler ::
    "'w kernel \<Rightarrow> 'w ptx_chrdev stream_context \<Rightarrow> u8 list \<Rightarrow> 'w ptx_chrdev stream_context" where
  "isdb2056_device_stream_handler K = stream_handler (isdb2056_device_stream_process K)"

definition isdbt2071_device_stream_handler ::
    "'w kernel \<Rightarrow> 'w ptx_chrdev stream_context \<Rightarrow> u8 list \<Rightarrow> 'w ptx_chrdev stream_context" where
  "isdbt2071_device_stream_handler K = stream_handler (isdbt2071_device_stream_process K)"

end
