(* ===== verification/Device_Stream_Props.thy ===== *)
theory Device_Stream_Props
  imports Device_Stream Ptx_Props
begin

text \<open>
  What the stream handlers guarantee. A function that splits a buffer into packets is an interface:
  \<open>ts_bounded\<close> is what the handler needs for its leftover buffer not to overflow, \<open>ts_splitter\<close> and
  \<open>ts_buffering\<close> are what it needs for a stream in sync to arrive complete, however the bus cuts
  it. The two processing functions of the drivers are shown to satisfy them.
\<close>

section \<open>Streams in sync\<close>

definition in_sync :: "(u8 \<Rightarrow> bool) \<Rightarrow> u8 list \<Rightarrow> bool" where
  "in_sync sync p \<longleftrightarrow> (\<forall>i<length p. 188 dvd i \<longrightarrow> sync (p ! i))"

lemma in_sync_Nil [simp]: "in_sync sync []"
  by (simp add: in_sync_def)

lemma in_sync_prefix: "in_sync sync (p @ q) \<Longrightarrow> in_sync sync p"
  unfolding in_sync_def by (metis length_append nth_append trans_less_add1)

lemma in_sync_suffix:
  assumes "in_sync sync (p @ q)" "188 dvd length p"
  shows "in_sync sync q"
  unfolding in_sync_def
proof (intro allI impI)
  fix i assume i: "i < length q" "188 dvd i"
  then have "188 dvd length p + i" "length p + i < length (p @ q)" using assms(2) by simp_all
  then have "sync ((p @ q) ! (length p + i))" using assms(1) unfolding in_sync_def by blast
  then show "sync (q ! i)" by simp
qed

lemma in_sync_append:
  assumes "in_sync sync p" "in_sync sync q" "188 dvd length p"
  shows "in_sync sync (p @ q)"
  unfolding in_sync_def
proof (intro allI impI)
  fix i assume i: "i < length (p @ q)" "188 dvd i"
  show "sync ((p @ q) ! i)"
  proof (cases "i < length p")
    case True then show ?thesis using assms(1) i by (simp add: in_sync_def nth_append)
  next
    case False
    then have "188 dvd i - length p" using i assms(3) by (intro dvd_diff_nat)
    then show ?thesis using assms(2) i False by (simp add: in_sync_def nth_append)
  qed
qed

lemma in_sync_head: "in_sync sync p \<Longrightarrow> p \<noteq> [] \<Longrightarrow> sync (p ! 0)"
  by (simp add: in_sync_def)

lemma in_sync_drop: "in_sync sync p \<Longrightarrow> 188 dvd n \<Longrightarrow> in_sync sync (drop n p)"
  by (cases "n \<le> length p") (auto intro: in_sync_suffix [of _ "take n p"] simp: min_def)

lemma in_sync_nth: "in_sync sync p \<Longrightarrow> i * 188 < length p \<Longrightarrow> sync (p ! (i * 188))"
  by (simp add: in_sync_def)

abbreviation whole :: "u8 list \<Rightarrow> nat" where "whole p \<equiv> 188 * (length p div 188)"

lemma whole_le: "whole p \<le> length p"
  by (simp add: mult.commute)

lemma whole_rest: "length p - whole p < 188"
  by (simp add: minus_mult_div_eq_mod)

lemma packets_of_append:
  "length a = 188 * n \<Longrightarrow> packets_of (n + m) (a @ b) = packets_of n a @ packets_of m b"
  by (induction n arbitrary: a) auto

lemma packets_of_take: "packets_of n p = packets_of n (take (188 * n) p)"
proof (induction n arbitrary: p)
  case (Suc n)
  have "take 188 (take (188 * Suc n) p) = take 188 p" by (simp add: min_def)
  moreover have "drop 188 (take (188 * Suc n) p) = take (188 * n) (drop 188 p)" by (simp add: drop_take)
  ultimately show ?case using Suc.IH [of "drop 188 p"] by (simp only: packets_of.simps)
qed simp

lemma packets_of_length: "188 * n \<le> length p \<Longrightarrow> q \<in> set (packets_of n p) \<Longrightarrow> length q = 188"
proof (induction n arbitrary: p)
  case (Suc n)
  have "188 * n \<le> length (drop 188 p)" using Suc.prems(1) by simp
  then show ?case using Suc.IH [of "drop 188 p"] Suc.prems by auto
qed simp

section \<open>Interfaces\<close>

text \<open>
  \<open>delivered deliver s bs s'\<close>: the bytes \<open>bs\<close> were handed over, in order and in blocks of whole
  packets, which took the receivers from \<open>s\<close> to \<open>s'\<close>.
\<close>

inductive delivered :: "('s \<Rightarrow> u8 list \<Rightarrow> 's) \<Rightarrow> 's \<Rightarrow> u8 list \<Rightarrow> 's \<Rightarrow> bool" for deliver where
  delivered_Nil: "delivered deliver s [] s"
| delivered_block: "188 dvd length b \<Longrightarrow> delivered deliver (deliver s b) bs s' \<Longrightarrow> delivered deliver s (b @ bs) s'"

lemma delivered_dvd: "delivered deliver s bs s' \<Longrightarrow> 188 dvd length bs"
  by (induction rule: delivered.induct) simp_all

lemma delivered_trans:
  "delivered deliver s a s1 \<Longrightarrow> delivered deliver s1 b s2 \<Longrightarrow> delivered deliver s (a @ b) s2"
  by (induction rule: delivered.induct) (auto intro: delivered.intros)

lemma delivered_one: "188 dvd length b \<Longrightarrow> delivered deliver s b (deliver s b)"
  using delivered_block [OF _ delivered_Nil, of b deliver s] by simp

text \<open>The state that \<open>n\<close> bytes of a stream leave: the rest of the stream is in the leftover buffer.\<close>

definition stream_at :: "('s \<Rightarrow> u8 list \<Rightarrow> 's) \<Rightarrow> 's \<Rightarrow> u8 list \<Rightarrow> nat \<Rightarrow> 's stream_context \<Rightarrow> bool" where
  "stream_at deliver s p lim ctx \<longleftrightarrow>
     (\<exists>bs. bs @ remain_buf ctx = p \<and> delivered deliver s bs (sc_chrdev ctx)) \<and> length (remain_buf ctx) < lim"

lemma stream_atI:
  "bs @ remain_buf ctx = p \<Longrightarrow> delivered deliver s bs (sc_chrdev ctx) \<Longrightarrow> length (remain_buf ctx) < lim \<Longrightarrow>
     stream_at deliver s p lim ctx"
  by (auto simp: stream_at_def)

lemma stream_at_start: "length (remain_buf ctx) < lim \<Longrightarrow> stream_at deliver (sc_chrdev ctx) (remain_buf ctx) lim ctx"
  by (rule stream_atI [of "[]"]) (auto intro: delivered_Nil)

locale ts_splitter =
  fixes process :: "'s \<Rightarrow> u8 list \<Rightarrow> 's \<times> u8 list"
    and deliver :: "'s \<Rightarrow> u8 list \<Rightarrow> 's"
    and sync :: "u8 \<Rightarrow> bool"
  assumes process_Nil: "process s [] = (s, [])"
    and process_long: "in_sync sync p \<Longrightarrow> TS_SYNC_SIZE \<le> length p \<Longrightarrow>
          process s p = (deliver s (take (whole p) p), drop (whole p) p)"
begin

lemma handle_rest_long:
  assumes "remain_buf ctx = []" "in_sync sync p" "TS_SYNC_SIZE \<le> length p"
  shows "stream_at deliver (sc_chrdev ctx) p 188 (handle_rest process ctx p)"
proof (rule stream_atI [of "take (whole p) p"])
  show "take (whole p) p @ remain_buf (handle_rest process ctx p) = p"
    using assms by (cases "drop (whole p) p = []") (auto simp: handle_rest_def process_long)
  show "delivered deliver (sc_chrdev ctx) (take (whole p) p) (sc_chrdev (handle_rest process ctx p))"
    using assms delivered_one [of "take (whole p) p" deliver "sc_chrdev ctx"] whole_le [of p]
    by (cases "drop (whole p) p = []") (simp_all add: handle_rest_def process_long min_absorb2 del: drop_eq_Nil take_all_iff)
  show "length (remain_buf (handle_rest process ctx p)) < 188"
    using assms whole_rest [of p]
    by (cases "drop (whole p) p = []") (auto simp: handle_rest_def process_long)
qed

lemma process_four:
  "in_sync sync p \<Longrightarrow> length p = TS_SYNC_SIZE \<Longrightarrow> process s p = (deliver s p, [])"
  using process_long [of p s] by simp

text \<open>A buffer that completes the leftover bytes to four packets is handled as if it followed them.\<close>

lemma handler_joins:
  assumes len: "remain_buf ctx \<noteq> []" "length (remain_buf ctx) < TS_SYNC_SIZE"
      "TS_SYNC_SIZE \<le> length (remain_buf ctx) + length buf" "length (remain_buf ctx) + length buf < 2 ^ 32"
    and sync: "in_sync sync (remain_buf ctx @ buf)"
    and t: "t = TS_SYNC_SIZE - length (remain_buf ctx)"
    and b: "b = remain_buf ctx @ take t buf"
  shows "stream_handler process ctx buf =
           handle_rest process (ctx\<lparr>sc_chrdev := deliver (sc_chrdev ctx) b, remain_buf := []\<rparr>) (drop t buf)"
    and "188 dvd length b" and "in_sync sync (drop t buf)" and "b @ drop t buf = remain_buf ctx @ buf"
proof -
  have l: "length b = TS_SYNC_SIZE" using len t b by simp
  show bs: "b @ drop t buf = remain_buf ctx @ buf" using b by simp
  then have s: "in_sync sync (b @ drop t buf)" using sync by simp
  show d: "188 dvd length b" using l by simp
  show "in_sync sync (drop t buf)" using in_sync_suffix [OF s d] .
  have p: "process (sc_chrdev ctx) b = (deliver (sc_chrdev ctx) b, [])"
    by (rule process_four [OF in_sync_prefix [OF s] l])
  have m: "(length (remain_buf ctx) + length buf) mod 2 ^ 32 = length (remain_buf ctx) + length buf"
    by (rule mod_less [OF len(4)])
  show "stream_handler process ctx buf =
           handle_rest process (ctx\<lparr>sc_chrdev := deliver (sc_chrdev ctx) b, remain_buf := []\<rparr>) (drop t buf)"
    using len(1,3) p unfolding stream_handler_def Let_def m t b by simp
qed

lemma stream_at_joined:
  assumes "188 dvd length b" "stream_at deliver (deliver s b) p lim ctx"
  shows "stream_at deliver s (b @ p) lim ctx"
  using assms by (force simp: stream_at_def intro: delivered_block)

lemma handler_large:
  assumes r: "length (remain_buf ctx) < 188" and buf: "2 * TS_SYNC_SIZE \<le> length buf" "length buf + 188 < 2 ^ 32"
    and sync: "in_sync sync (remain_buf ctx @ buf)"
  shows "stream_at deliver (sc_chrdev ctx) (remain_buf ctx @ buf) 188 (stream_handler process ctx buf)"
proof (cases "remain_buf ctx = []")
  case True
  then show ?thesis using handle_rest_long [of ctx buf] sync buf by (simp add: stream_handler_def)
next
  case False
  define t where "t = TS_SYNC_SIZE - length (remain_buf ctx)"
  define b where "b = remain_buf ctx @ take t buf"
  have H: "TS_SYNC_SIZE \<le> length (remain_buf ctx) + length buf" "length (remain_buf ctx) < TS_SYNC_SIZE"
    "length (remain_buf ctx) + length buf < 2 ^ 32" using r buf by simp_all
  note J = handler_joins [OF False H(2) H(1) H(3) sync t_def b_def]
  let ?c = "ctx\<lparr>sc_chrdev := deliver (sc_chrdev ctx) b, remain_buf := []\<rparr>"
  have "TS_SYNC_SIZE \<le> length (drop t buf)" using buf t_def by simp
  then have "stream_at deliver (sc_chrdev ?c) (drop t buf) 188 (handle_rest process ?c (drop t buf))"
    using handle_rest_long [of ?c "drop t buf"] J(3) by simp
  then show ?thesis using stream_at_joined [OF J(2)] unfolding J(1) J(4) [symmetric] by simp
qed

end

locale ts_buffering = ts_splitter +
  assumes process_short: "in_sync sync p \<Longrightarrow> length p < TS_SYNC_SIZE \<Longrightarrow> process s p = (s, p)"
begin

lemma handle_rest_any:
  assumes "remain_buf ctx = []" "in_sync sync p"
  shows "stream_at deliver (sc_chrdev ctx) p TS_SYNC_SIZE (handle_rest process ctx p)"
proof (cases "length p < TS_SYNC_SIZE")
  case True
  then have "sc_chrdev (handle_rest process ctx p) = sc_chrdev ctx" "remain_buf (handle_rest process ctx p) = p"
    using assms by (simp_all add: handle_rest_def process_short)
  then show ?thesis using True stream_atI [OF _ delivered_Nil] by fastforce
next
  case False
  then have "stream_at deliver (sc_chrdev ctx) p 188 (handle_rest process ctx p)"
    using assms by (intro handle_rest_long) simp_all
  then show ?thesis by (auto simp: stream_at_def)
qed

lemma handler_any:
  assumes r: "length (remain_buf ctx) < TS_SYNC_SIZE" and buf: "length buf + TS_SYNC_SIZE < 2 ^ 32"
    and sync: "in_sync sync (remain_buf ctx @ buf)"
  shows "stream_at deliver (sc_chrdev ctx) (remain_buf ctx @ buf) TS_SYNC_SIZE (stream_handler process ctx buf)"
proof -
  have total: "length (remain_buf ctx) + length buf < 2 ^ 32" using r buf by simp
  consider "remain_buf ctx = []" | "remain_buf ctx \<noteq> []" "length (remain_buf ctx) + length buf < TS_SYNC_SIZE"
    | "remain_buf ctx \<noteq> []" "TS_SYNC_SIZE \<le> length (remain_buf ctx) + length buf" by linarith
  then show ?thesis
  proof cases
    case 1
    then show ?thesis using handle_rest_any [of ctx buf] sync by (simp add: stream_handler_def)
  next
    case 2
    then have "stream_handler process ctx buf = ctx\<lparr>remain_buf := remain_buf ctx @ buf\<rparr>"
      by (simp add: stream_handler_def Let_def)
    then show ?thesis using 2 by (auto intro!: stream_atI [of "[]"] delivered_Nil)
  next
    case 3
    define t where "t = TS_SYNC_SIZE - length (remain_buf ctx)"
    define b where "b = remain_buf ctx @ take t buf"
    note J = handler_joins [OF 3(1) r 3(2) total sync t_def b_def]
    let ?c = "ctx\<lparr>sc_chrdev := deliver (sc_chrdev ctx) b, remain_buf := []\<rparr>"
    have "stream_at deliver (sc_chrdev ?c) (drop t buf) TS_SYNC_SIZE (handle_rest process ?c (drop t buf))"
      using handle_rest_any [of ?c "drop t buf"] J(3) by simp
    then show ?thesis using stream_at_joined [OF J(2)] unfolding J(1) J(4) [symmetric] by simp
  qed
qed

end

text \<open>A sequence of buffers is handled as the stream they are cut from.\<close>

lemma stream_at_run:
  assumes step: "\<And>ctx buf. length (remain_buf ctx) < lim \<Longrightarrow> ok buf \<Longrightarrow> in_sync sync (remain_buf ctx @ buf) \<Longrightarrow>
      stream_at deliver (sc_chrdev ctx) (remain_buf ctx @ buf) lim (h ctx buf)"
    and "length (remain_buf ctx) < lim" "\<forall>buf\<in>set bufs. ok buf" "in_sync sync (remain_buf ctx @ concat bufs)"
  shows "stream_at deliver (sc_chrdev ctx) (remain_buf ctx @ concat bufs) lim (foldl h ctx bufs)"
  using assms(2-)
proof (induction bufs arbitrary: ctx)
  case Nil
  then show ?case by (simp add: stream_at_start)
next
  case (Cons buf bufs)
  have sync: "in_sync sync ((remain_buf ctx @ buf) @ concat bufs)" using Cons.prems(3) by simp
  have "stream_at deliver (sc_chrdev ctx) (remain_buf ctx @ buf) lim (h ctx buf)"
    using Cons.prems in_sync_prefix [OF sync] by (intro step) simp_all
  then obtain bs where bs: "bs @ remain_buf (h ctx buf) = remain_buf ctx @ buf"
      "delivered deliver (sc_chrdev ctx) bs (sc_chrdev (h ctx buf))" "length (remain_buf (h ctx buf)) < lim"
    by (auto simp: stream_at_def)
  have "in_sync sync (bs @ (remain_buf (h ctx buf) @ concat bufs))" using sync bs(1) [symmetric] by simp
  then have "in_sync sync (remain_buf (h ctx buf) @ concat bufs)"
    using in_sync_suffix delivered_dvd [OF bs(2)] by blast
  then have "stream_at deliver (sc_chrdev (h ctx buf)) (remain_buf (h ctx buf) @ concat bufs) lim
      (foldl h (h ctx buf) bufs)" using Cons.IH bs(3) Cons.prems(2) by simp
  then obtain bs' where bs': "bs' @ remain_buf (foldl h (h ctx buf) bufs) = remain_buf (h ctx buf) @ concat bufs"
      "delivered deliver (sc_chrdev (h ctx buf)) bs' (sc_chrdev (foldl h (h ctx buf) bufs))"
      "length (remain_buf (foldl h (h ctx buf) bufs)) < lim"
    by (auto simp: stream_at_def)
  have "(bs @ bs') @ remain_buf (foldl h (h ctx buf) bufs) = remain_buf ctx @ concat (buf # bufs)"
    using bs(1) bs'(1) by (metis append.assoc concat.simps(2))
  then show ?case using stream_atI [of "bs @ bs'"] delivered_trans [OF bs(2) bs'(2)] bs'(3) by simp
qed

section \<open>Whatever the bus delivers\<close>

text \<open>
  \<open>rel\<close> relates two states of the receivers when the second is reached from the first by deliveries
  that are allowed.
\<close>

locale ts_bounded =
  fixes process :: "'s \<Rightarrow> u8 list \<Rightarrow> 's \<times> u8 list"
    and rel :: "'s \<Rightarrow> 's \<Rightarrow> bool"
  assumes rel_trans: "rel s s1 \<Longrightarrow> rel s1 s2 \<Longrightarrow> rel s s2"
    and rel_refl: "rel s s"
    and process_rel: "rel s (fst (process s p))"
    and process_bound: "length (snd (process s p)) < TS_SYNC_SIZE"
begin

lemma handle_rest_bounded:
  assumes "length (remain_buf ctx) < TS_SYNC_SIZE"
  shows "length (remain_buf (handle_rest process ctx p)) < TS_SYNC_SIZE \<and>
         rel (sc_chrdev ctx) (sc_chrdev (handle_rest process ctx p))"
  using assms process_rel [of "sc_chrdev ctx" p] process_bound [of "sc_chrdev ctx" p]
  by (simp add: handle_rest_def case_prod_beta Let_def)

lemma handler_bounded:
  assumes "length (remain_buf ctx) < TS_SYNC_SIZE" "length buf + TS_SYNC_SIZE < 2 ^ 32"
  shows "length (remain_buf (stream_handler process ctx buf)) < TS_SYNC_SIZE \<and>
         rel (sc_chrdev ctx) (sc_chrdev (stream_handler process ctx buf))"
proof -
  have m: "(length (remain_buf ctx) + length buf) mod 2 ^ 32 = length (remain_buf ctx) + length buf"
    using assms by (intro mod_less) simp
  define t where "t = TS_SYNC_SIZE - length (remain_buf ctx)"
  define q where "q = process (sc_chrdev ctx) (remain_buf ctx @ take t buf)"
  define c where "c = ctx\<lparr>sc_chrdev := fst q, remain_buf := []\<rparr>"
  define p where "p = (if snd q = [] then drop t buf else buf)"
  have H: "stream_handler process ctx buf =
      (if remain_buf ctx \<noteq> [] then
         if length (remain_buf ctx) + length buf \<ge> TS_SYNC_SIZE then handle_rest process c p
         else ctx\<lparr>remain_buf := remain_buf ctx @ buf\<rparr>
       else handle_rest process ctx buf)"
    unfolding stream_handler_def Let_def m c_def p_def q_def t_def by (simp add: case_prod_beta)
  have c: "length (remain_buf c) < TS_SYNC_SIZE" "rel (sc_chrdev ctx) (sc_chrdev c)"
    unfolding c_def q_def using process_rel by simp_all
  show ?thesis unfolding H
    using handle_rest_bounded [OF assms(1), of buf] handle_rest_bounded [OF c(1), of p] rel_trans [OF c(2)] rel_refl
    by auto
qed

lemma handlers_bounded:
  assumes "length (remain_buf ctx) < TS_SYNC_SIZE" "\<forall>buf\<in>set bufs. length buf + TS_SYNC_SIZE < 2 ^ 32"
  shows "length (remain_buf (foldl (stream_handler process) ctx bufs)) < TS_SYNC_SIZE \<and>
         rel (sc_chrdev ctx) (sc_chrdev (foldl (stream_handler process) ctx bufs))"
  using assms
proof (induction bufs arbitrary: ctx)
  case Nil then show ?case by (simp add: rel_refl)
next
  case (Cons buf bufs)
  have "length (remain_buf (stream_handler process ctx buf)) < TS_SYNC_SIZE \<and>
        rel (sc_chrdev ctx) (sc_chrdev (stream_handler process ctx buf))"
    using Cons.prems by (intro handler_bounded) simp_all
  then show ?case using Cons.IH [of "stream_handler process ctx buf"] Cons.prems(2) rel_trans by auto
qed

end

section \<open>Boards with several receivers\<close>

lemma tagged_sync_loop_long:
  assumes "in_sync px4_ts_has_tagged_sync p" "TS_SYNC_SIZE \<le> length p"
  shows "i \<le> TS_SYNC_COUNT \<Longrightarrow> tagged_sync_loop p i = (TS_SYNC_COUNT, False)"
proof (induction "4 - i" arbitrary: i)
  case 0
  then show ?case by (subst tagged_sync_loop.simps) simp
next
  case (Suc n)
  then have i: "i < TS_SYNC_COUNT" by simp
  have l: "(i + 1) * 188 \<le> length p" "i * 188 < length p" using i assms(2) by simp_all
  have "tagged_sync_loop p (i + 1) = (TS_SYNC_COUNT, False)" using Suc by simp
  then show ?case using i l(1) in_sync_nth [OF assms(1) l(2)] by (subst tagged_sync_loop.simps) simp
qed

lemma tagged_sync_loop_short:
  assumes "in_sync px4_ts_has_tagged_sync p" "length p < TS_SYNC_SIZE"
  shows "i < TS_SYNC_COUNT \<Longrightarrow> snd (tagged_sync_loop p i)"
proof (induction "4 - i" arbitrary: i)
  case 0
  then show ?case by simp
next
  case (Suc n)
  show ?case
  proof (cases "(i + 1) * 188 \<le> length p")
    case True
    then have l: "i * 188 < length p" and i: "i + 1 < TS_SYNC_COUNT" using assms(2) by simp_all
    have "snd (tagged_sync_loop p (i + 1))" using Suc i by simp
    then show ?thesis using Suc.prems True in_sync_nth [OF assms(1) l]
      by (subst tagged_sync_loop.simps) simp
  next
    case False
    then show ?thesis using Suc.prems by (subst tagged_sync_loop.simps) simp
  qed
qed

lemma tagged_sync_loop_remain: "snd (tagged_sync_loop p i) \<Longrightarrow> length p < TS_SYNC_SIZE"
proof (induction p i rule: tagged_sync_loop.induct)
  case (1 p i)
  show ?case
  proof (cases "i < TS_SYNC_COUNT \<and> (i + 1) * 188 \<le> length p \<and> px4_ts_has_tagged_sync (p ! (i * 188))")
    case True
    then have "snd (tagged_sync_loop p (i + 1))" using 1(2) by (subst (asm) tagged_sync_loop.simps) simp
    then show ?thesis using 1(1) True by simp
  next
    case False
    then show ?thesis using 1(2) by (subst (asm) tagged_sync_loop.simps) (auto split: if_splits)
  qed
qed

text \<open>What a board delivers for a block of whole packets.\<close>

definition put_block :: "'w kernel \<Rightarrow> nat \<Rightarrow> 'w ptx_chrdev list \<Rightarrow> u8 list \<Rightarrow> 'w ptx_chrdev list" where
  "put_block K lim cs b = foldl (put_tagged K lim) cs (packets_of (length b div 188) b)"

lemma tagged_packet_loop_in_sync:
  "in_sync px4_ts_has_tagged_sync p \<Longrightarrow>
     tagged_packet_loop K lim cs p =
       (foldl (put_tagged K lim) cs (packets_of (length p div 188) p), drop (whole p) p)"
proof (induction K lim cs p rule: tagged_packet_loop.induct)
  case (1 K lim cs p)
  show ?case
  proof (cases "188 \<le> length p")
    case True
    then have g: "length p \<ge> 188 \<and> p ! 0 AND 0x8f = 0x07"
      using in_sync_head [OF 1(2)] by (cases p) (auto simp: px4_ts_has_tagged_sync_def)
    define m where "m = (length p - 188) div 188"
    have n: "length p div 188 = Suc m" using True unfolding m_def by (simp add: div_if)
    have IH: "tagged_packet_loop K lim (put_tagged K lim cs (take 188 p)) (drop 188 p) =
        (foldl (put_tagged K lim) (put_tagged K lim cs (take 188 p)) (packets_of m (drop 188 p)),
         drop (188 * m) (drop 188 p))"
      using 1(1) [OF g] in_sync_drop [OF 1(2)] unfolding m_def by simp
    show ?thesis using g by (subst tagged_packet_loop.simps) (simp add: IH n add.commute)
  next
    case False
    then show ?thesis by (subst tagged_packet_loop.simps) simp
  qed
qed

lemma tagged_process_Nil: "tagged_stream_process K lim cs [] = (cs, [])"
  by (subst tagged_stream_process.simps) simp

lemma tagged_process_remain:
  "snd (tagged_sync_loop p 0) \<Longrightarrow> tagged_stream_process K lim cs p = (cs, p)"
  by (subst tagged_stream_process.simps) (simp add: case_prod_beta Let_def)

lemma tagged_process_short:
  "in_sync px4_ts_has_tagged_sync p \<Longrightarrow> length p < TS_SYNC_SIZE \<Longrightarrow> tagged_stream_process K lim cs p = (cs, p)"
  by (rule tagged_process_remain) (simp add: tagged_sync_loop_short)

lemma tagged_process_long:
  assumes "in_sync px4_ts_has_tagged_sync p" "TS_SYNC_SIZE \<le> length p"
  shows "tagged_stream_process K lim cs p = (put_block K lim cs (take (whole p) p), drop (whole p) p)"
proof -
  have ne: "p \<noteq> []" using assms(2) by auto
  have pk: "packets_of (length p div 188) p = packets_of (length p div 188) (take (whole p) p)"
    by (rule packets_of_take)
  have l: "length (take (whole p) p) div 188 = length p div 188" by (simp add: min_absorb2 whole_le)
  have r: "length (drop (whole p) p) < TS_SYNC_SIZE" using whole_rest [of p] by simp
  have "tagged_stream_process K lim cs p = tagged_stream_process K lim (put_block K lim cs (take (whole p) p)) (drop (whole p) p)"
    using ne tagged_sync_loop_long [OF assms, of 0] tagged_packet_loop_in_sync [OF assms(1), of K lim cs]
    unfolding put_block_def l pk [symmetric]
    by (subst tagged_stream_process.simps) simp
  also have "\<dots> = (put_block K lim cs (take (whole p) p), drop (whole p) p)"
    by (rule tagged_process_short [OF in_sync_drop [OF assms(1)] r]) simp
  finally show ?thesis .
qed

interpretation tagged: ts_buffering "tagged_stream_process K lim" "put_block K lim" px4_ts_has_tagged_sync for K lim
  by unfold_locales (simp_all add: tagged_process_Nil tagged_process_long tagged_process_short)

text \<open>The packets of one receiver, as it gets them.\<close>

definition packets_for :: "nat \<Rightarrow> packet list \<Rightarrow> packet list" where
  "packets_for j ps = map (\<lambda>p. p[0 := 0x47]) (filter (\<lambda>p. tag_of (p ! 0) = j + 1) ps)"

abbreviation put_packets :: "'w kernel \<Rightarrow> 'w ptx_chrdev \<Rightarrow> packet list \<Rightarrow> 'w ptx_chrdev" where
  "put_packets K \<equiv> foldl (\<lambda>c p. snd (ptx_chrdev_put_stream K c p))"

lemma length_put_tagged [simp]: "length (put_tagged K lim cs p) = length cs"
  by (simp add: put_tagged_def Let_def)

lemma length_put_tagged_all [simp]: "length (foldl (put_tagged K lim) cs ps) = length cs"
  by (induction ps arbitrary: cs) simp_all

lemma put_tagged_nth:
  assumes "j < length cs" "j + 1 < lim"
  shows "put_tagged K lim cs p ! j =
     (if tag_of (p ! 0) = j + 1 then snd (ptx_chrdev_put_stream K (cs ! j) (p[0 := 0x47])) else cs ! j)"
  using assms by (auto simp: put_tagged_def Let_def nth_list_update)

lemma put_tagged_all_nth:
  assumes "j < length cs" "j + 1 < lim"
  shows "foldl (put_tagged K lim) cs ps ! j = put_packets K (cs ! j) (packets_for j ps)"
  using assms(1)
proof (induction ps arbitrary: cs)
  case (Cons p ps)
  then show ?case using assms(2) by (simp add: put_tagged_nth packets_for_def)
qed (simp add: packets_for_def)

lemma delivered_put_block:
  "delivered (put_block K lim) s bs s' \<Longrightarrow> s' = foldl (put_tagged K lim) s (packets_of (length bs div 188) bs)"
proof (induction rule: delivered.induct)
  case (delivered_block b s bs s')
  then obtain n where n: "length b = 188 * n" by (auto elim: dvdE)
  then have "packets_of (length (b @ bs) div 188) (b @ bs) = packets_of n b @ packets_of (length bs div 188) bs"
    using packets_of_append [OF n, of "length bs div 188" bs] by simp
  then show ?case using delivered_block n by (simp add: put_block_def)
qed simp

text \<open>Whatever bytes arrive, a receiver is given whole packets with a sync byte only.\<close>

definition gave_packets :: "'w kernel \<Rightarrow> nat \<Rightarrow> 'w ptx_chrdev list \<Rightarrow> 'w ptx_chrdev list \<Rightarrow> bool" where
  "gave_packets K lim s s' \<longleftrightarrow> (\<exists>ps. (\<forall>p\<in>set ps. length p = 188) \<and> s' = foldl (put_tagged K lim) s ps)"

lemma gave_packets_refl: "gave_packets K lim s s"
  unfolding gave_packets_def by (rule exI [of _ "[]"]) simp

lemma gave_packets_trans:
  assumes "gave_packets K lim s s1" "gave_packets K lim s1 s2"
  shows "gave_packets K lim s s2"
proof -
  obtain ps qs where "\<forall>p\<in>set ps. length p = 188" "s1 = foldl (put_tagged K lim) s ps"
      "\<forall>p\<in>set qs. length p = 188" "s2 = foldl (put_tagged K lim) s1 qs"
    using assms unfolding gave_packets_def by blast
  then show ?thesis unfolding gave_packets_def by (intro exI [of _ "ps @ qs"]) auto
qed

lemma gave_packets_one: "length p = 188 \<Longrightarrow> gave_packets K lim s (put_tagged K lim s p)"
  unfolding gave_packets_def by (rule exI [of _ "[p]"]) simp

lemma tagged_packet_loop_gave: "gave_packets K lim cs (fst (tagged_packet_loop K lim cs p))"
proof (induction K lim cs p rule: tagged_packet_loop.induct)
  case (1 K lim cs p)
  show ?case
  proof (cases "length p \<ge> 188 \<and> p ! 0 AND 0x8f = 0x07")
    case True
    have "gave_packets K lim cs (put_tagged K lim cs (take 188 p))" using True by (intro gave_packets_one) simp
    then show ?thesis using 1 [OF True] True gave_packets_trans by (subst tagged_packet_loop.simps) auto
  next
    case False
    then show ?thesis by (subst tagged_packet_loop.simps) (simp only: if_False gave_packets_refl fst_conv)
  qed
qed

lemma tagged_process_bounded:
  "gave_packets K lim cs (fst (tagged_stream_process K lim cs p)) \<and>
   length (snd (tagged_stream_process K lim cs p)) < TS_SYNC_SIZE"
proof (induction K lim cs p rule: tagged_stream_process.induct)
  case (1 K lim cs p)
  obtain i r where l: "tagged_sync_loop p 0 = (i, r)" by fastforce
  obtain cs1 p1 where k: "tagged_packet_loop K lim cs p = (cs1, p1)" by fastforce
  have g: "gave_packets K lim cs cs1" using tagged_packet_loop_gave [of K lim cs p] k by simp
  consider "p = []" | "p \<noteq> []" r | "p \<noteq> []" "\<not> r" "i < TS_SYNC_COUNT" | "p \<noteq> []" "\<not> r" "\<not> i < TS_SYNC_COUNT"
    by blast
  then show ?case
  proof cases
    case 2
    then have "length p < TS_SYNC_SIZE" using tagged_sync_loop_remain [of p 0] l by simp
    then show ?thesis using 2 l tagged_process_remain [of p K lim cs] by (simp add: gave_packets_refl)
  next
    case 3
    then show ?thesis using 1(1) [OF _ l [symmetric] refl] l by (subst (1 2) tagged_stream_process.simps) simp
  next
    case 4
    then show ?thesis using 1(2) [OF _ l [symmetric] refl _ _ k [symmetric] refl] l k gave_packets_trans [OF g]
      by (subst (1 2) tagged_stream_process.simps) simp
  qed (simp add: tagged_process_Nil gave_packets_refl)
qed

interpretation tagged_any: ts_bounded "tagged_stream_process K lim" "gave_packets K lim" for K lim
proof unfold_locales
  show "gave_packets K lim s s2" if "gave_packets K lim s s1" "gave_packets K lim s1 s2" for s s1 s2
    using that by (rule gave_packets_trans)
qed (simp_all add: gave_packets_refl tagged_process_bounded)

lemma gave_packets_nth:
  assumes "gave_packets K lim s s'" "j < length s" "j + 1 < lim"
  shows "\<exists>ps. (\<forall>p\<in>set ps. length p = 188 \<and> p ! 0 = 0x47) \<and> s' ! j = put_packets K (s ! j) ps"
proof -
  obtain ps where ps: "\<forall>p\<in>set ps. length p = 188" "s' = foldl (put_tagged K lim) s ps"
    using assms(1) by (auto simp: gave_packets_def)
  have "\<forall>p\<in>set (packets_for j ps). length p = 188 \<and> p ! 0 = 0x47"
    using ps(1) by (auto simp: packets_for_def)
  then show ?thesis using put_tagged_all_nth [OF assms(2,3)] ps(2) by blast
qed

text \<open>A stream of six packets of the receivers 1, 2 and 4, cut into a buffer of 400 bytes and the rest.\<close>

definition demo_packet :: "u8 \<Rightarrow> packet" where
  "demo_packet b = b # replicate 187 0"

definition demo_stream :: "u8 list" where
  "demo_stream = concat (map demo_packet [0x17, 0x27, 0x47, 0x17, 0x27, 0x17])"

lemma length_demo_packet [simp]: "length (demo_packet b) = 188"
  by (simp add: demo_packet_def)

lemma in_sync_packets:
  "\<forall>b\<in>set bs. sync b \<Longrightarrow> in_sync sync (concat (map demo_packet bs))"
proof (induction bs)
  case (Cons b bs)
  have "i = 0" if "i < 188" "188 dvd i" for i :: nat
    using that by (metis dvd_imp_le gr0I leD)
  then have "in_sync sync (demo_packet b)" using Cons.prems
    by (fastforce simp: in_sync_def demo_packet_def)
  then show ?case using Cons in_sync_append [of sync "demo_packet b"] by simp
qed simp

lemma demo_stream_in_sync: "in_sync px4_ts_has_tagged_sync demo_stream"
  unfolding demo_stream_def by (rule in_sync_packets) (simp add: px4_ts_has_tagged_sync_def)

lemma length_demo_stream: "length demo_stream = 1128"
  by (simp add: demo_stream_def)

text \<open>C25: whatever bytes the board sends, the handlers of the boards with several receivers never write
  past their 752-byte leftover buffer, and give each receiver whole 188-byte packets that start
  with the sync byte, and nothing else.\<close>

theorem stream_handlers_bounded:
  assumes "(h, m) \<in> {(px4_device_stream_handler K, 4), (pxmlt_device_stream_handler K, 5)}"
    and "length (remain_buf ctx) < 752" and "length (sc_chrdev ctx) = m"
    and "\<forall>buf\<in>set bufs. length buf + 752 < 2 ^ 32"
    and "ctx' = foldl h ctx bufs"
  shows "length (remain_buf ctx') < 752 \<and>
         (\<forall>j<m. \<exists>ps. (\<forall>p\<in>set ps. length p = 188 \<and> p ! 0 = 0x47) \<and>
            sc_chrdev ctx' ! j = foldl (\<lambda>c p. snd (ptx_chrdev_put_stream K c p)) (sc_chrdev ctx ! j) ps)"
proof -
  have h: "h = stream_handler (tagged_stream_process K (m + 1))"
    using assms(1) by (auto simp: px4_device_stream_handler_def px4_device_stream_process_def
        pxmlt_device_stream_handler_def pxmlt_device_stream_process_def)
  have "length (remain_buf ctx') < 752 \<and> gave_packets K (m + 1) (sc_chrdev ctx) (sc_chrdev ctx')"
    unfolding assms(5) h by (rule tagged_any.handlers_bounded [OF assms(2,4)])
  then show ?thesis using gave_packets_nth assms(3) by (metis add_less_cancel_right)
qed

theorem stream_handlers_bounded_witness:
  "length (remain_buf (foldl (px4_device_stream_handler demo_kernel)
      \<lparr>sc_chrdev = replicate 4 demo_chrdev, remain_buf = []\<rparr> [replicate 1000 0x07, replicate 300 0xff])) < 752"
  using stream_handlers_bounded [of "px4_device_stream_handler demo_kernel" 4 demo_kernel
      "\<lparr>sc_chrdev = replicate 4 demo_chrdev, remain_buf = []\<rparr>" "[replicate 1000 0x07, replicate 300 0xff]", OF _ _ _ _ refl]
  by simp

text \<open>A stream in sync, cut anywhere: what the receivers of a board have after its buffers.\<close>

lemma tagged_stream_complete:
  assumes "in_sync px4_ts_has_tagged_sync (concat bufs)" "\<forall>buf\<in>set bufs. length buf + TS_SYNC_SIZE < 2 ^ 32"
    and "remain_buf ctx = []" "lim \<le> length (sc_chrdev ctx) + 1"
    and ctx': "ctx' = foldl (stream_handler (tagged_stream_process K lim)) ctx bufs"
  shows "\<exists>n. concat bufs = take (188 * n) (concat bufs) @ remain_buf ctx' \<and> 188 * n \<le> length (concat bufs) \<and>
           length (remain_buf ctx') < TS_SYNC_SIZE \<and>
           (\<forall>j. j + 1 < lim \<longrightarrow> sc_chrdev ctx' ! j =
                  put_packets K (sc_chrdev ctx ! j) (packets_for j (packets_of n (concat bufs))))"
proof -
  have "stream_at (put_block K lim) (sc_chrdev ctx) (remain_buf ctx @ concat bufs) TS_SYNC_SIZE
      (foldl (stream_handler (tagged_stream_process K lim)) ctx bufs)"
    by (rule stream_at_run [where ok = "\<lambda>buf. length buf + TS_SYNC_SIZE < 2 ^ 32" and sync = px4_ts_has_tagged_sync])
      (use assms tagged.handler_any in auto)
  then obtain bs where bs: "bs @ remain_buf ctx' = concat bufs"
      "delivered (put_block K lim) (sc_chrdev ctx) bs (sc_chrdev ctx')" "length (remain_buf ctx') < TS_SYNC_SIZE"
    using assms(3) ctx' by (auto simp: stream_at_def)
  obtain n where n: "length bs = 188 * n" using delivered_dvd [OF bs(2)] by (auto elim: dvdE)
  have t: "take (188 * n) (concat bufs) = bs" using bs(1) n by (metis append_eq_conv_conj)
  have p: "packets_of n (concat bufs) = packets_of n bs" using packets_of_take [of n "concat bufs"] t by simp
  have s: "sc_chrdev ctx' = foldl (put_tagged K lim) (sc_chrdev ctx) (packets_of n bs)"
    using delivered_put_block [OF bs(2)] n by simp
  have "sc_chrdev ctx' ! j = put_packets K (sc_chrdev ctx ! j) (packets_for j (packets_of n (concat bufs)))"
    if "j + 1 < lim" for j
    unfolding p s using that assms(4) by (intro put_tagged_all_nth) simp_all
  moreover have "188 * n \<le> length (concat bufs)" using n bs(1) [symmetric] by simp
  ultimately show ?thesis using bs(1,3) t by (intro exI [of _ n]) simp
qed

text \<open>C24: the boards with several receivers, four on a PX4 and five on a PX-MLT, lose, duplicate and
  misroute nothing of a stream in sync, however the USB transfers cut it: after any sequence of buffers,
  each receiver has been given exactly its own packets of the first \<open>n\<close>, in order and with their
  sync byte restored, and the bytes after these \<open>n\<close> packets, fewer than four packets of them, are kept
  for the next buffer.\<close>

theorem px4_stream_demultiplexed:
  assumes "(h, m) \<in> {(px4_device_stream_handler K, 4), (pxmlt_device_stream_handler K, 5)}"
    and "in_sync px4_ts_has_tagged_sync (concat bufs)"
    and "\<forall>buf\<in>set bufs. length buf + 752 < 2 ^ 32"
    and "remain_buf ctx = []" and "length (sc_chrdev ctx) = m"
    and "ctx' = foldl h ctx bufs"
  shows "\<exists>n. concat bufs = take (188 * n) (concat bufs) @ remain_buf ctx' \<and> 188 * n \<le> length (concat bufs) \<and>
           length (remain_buf ctx') < 752 \<and>
           (\<forall>j<m. sc_chrdev ctx' ! j =
                  foldl (\<lambda>c p. snd (ptx_chrdev_put_stream K c p)) (sc_chrdev ctx ! j)
                    (map (\<lambda>p. p[0 := 0x47]) (filter (\<lambda>p. tag_of (p ! 0) = j + 1) (packets_of n (concat bufs)))))"
proof -
  have h: "h = stream_handler (tagged_stream_process K (m + 1))"
    using assms(1) by (auto simp: px4_device_stream_handler_def px4_device_stream_process_def
        pxmlt_device_stream_handler_def pxmlt_device_stream_process_def)
  show ?thesis
    using tagged_stream_complete [OF assms(2) _ assms(4) _ assms(6) [unfolded h]] assms(3,5)
    unfolding packets_for_def by fastforce
qed

theorem px4_stream_demultiplexed_witness:
  "\<exists>n. length (remain_buf (foldl (pxmlt_device_stream_handler demo_kernel)
       \<lparr>sc_chrdev = replicate 5 demo_chrdev, remain_buf = []\<rparr> [take 400 demo_stream, drop 400 demo_stream])) =
         1128 - 188 * n \<and> 188 * n \<le> 1128 \<and> 376 < 188 * n"
proof -
  let ?ctx = "\<lparr>sc_chrdev = replicate 5 demo_chrdev, remain_buf = []\<rparr>"
  let ?bufs = "[take 400 demo_stream, drop 400 demo_stream]"
  define ctx' where "ctx' = foldl (pxmlt_device_stream_handler demo_kernel) ?ctx ?bufs"
  obtain n where n: "concat ?bufs = take (188 * n) (concat ?bufs) @ remain_buf ctx'"
      "188 * n \<le> length (concat ?bufs)" "length (remain_buf ctx') < 752"
    using px4_stream_demultiplexed [of "pxmlt_device_stream_handler demo_kernel" 5 demo_kernel ?bufs ?ctx ctx',
        OF _ _ _ _ _ ctx'_def] demo_stream_in_sync
    by (auto simp: length_demo_stream)
  from n(1) have "length (concat ?bufs) = length (take (188 * n) (concat ?bufs)) + length (remain_buf ctx')"
    by (metis length_append)
  then have "length (remain_buf ctx') = 1128 - 188 * n \<and> 188 * n \<le> 1128 \<and> 376 < 188 * n"
    using n(2,3) by (simp add: length_demo_stream)
  then show ?thesis unfolding ctx'_def by blast
qed

section \<open>Boards with one receiver\<close>

lemma plain_sync_loop_result:
  "plain_sync_loop p i = (j, r) \<Longrightarrow> i * 188 \<le> length p \<Longrightarrow>
     i \<le> j \<and> j * 188 \<le> length p \<and> (\<forall>k. i \<le> k \<and> k < j \<longrightarrow> px4_ts_has_plain_sync (p ! (k * 188))) \<and>
     (r \<longrightarrow> length p < (j + 1) * 188)"
proof (induction p i rule: plain_sync_loop.induct)
  case (1 p i)
  show ?case
  proof (cases "(i + 1) * 188 \<le> length p \<and> px4_ts_has_plain_sync (p ! (i * 188))")
    case True
    then have "plain_sync_loop p (i + 1) = (j, r)" using 1(2) by (subst (asm) plain_sync_loop.simps) simp
    then have IH: "i + 1 \<le> j" "j * 188 \<le> length p" "r \<longrightarrow> length p < (j + 1) * 188"
        "\<And>k. i + 1 \<le> k \<Longrightarrow> k < j \<Longrightarrow> px4_ts_has_plain_sync (p ! (k * 188))"
      using 1(1) True by auto
    have "px4_ts_has_plain_sync (p ! (k * 188))" if "i \<le> k" "k < j" for k
      using that True IH(4) [of k] by (cases "k = i") auto
    then show ?thesis using IH by auto
  next
    case False
    then have "j = i" "r \<longrightarrow> length p < (i + 1) * 188"
      using 1(2) by (subst (asm) plain_sync_loop.simps, auto split: if_splits)+
    then show ?thesis using 1(3) by auto
  qed
qed

lemma plain_sync_loop_in_sync:
  "in_sync px4_ts_has_plain_sync p \<Longrightarrow> i * 188 \<le> length p \<Longrightarrow> plain_sync_loop p i = (length p div 188, True)"
proof (induction p i rule: plain_sync_loop.induct)
  case (1 p i)
  show ?case
  proof (cases "(i + 1) * 188 \<le> length p")
    case True
    then have "i * 188 < length p" by simp
    from in_sync_nth [OF 1(2) this] have "px4_ts_has_plain_sync (p ! (i * 188))" .
    then show ?thesis using 1 True by (subst plain_sync_loop.simps) simp
  next
    case False
    then have "length p div 188 = i" using 1(3) by (intro div_nat_eqI) simp_all
    then show ?thesis using False by (subst plain_sync_loop.simps) simp
  qed
qed

definition put_plain :: "'w kernel \<Rightarrow> 'w ptx_chrdev \<Rightarrow> u8 list \<Rightarrow> 'w ptx_chrdev" where
  "put_plain K c b = snd (ptx_chrdev_put_stream K c b)"

lemma plain_process_Nil: "plain_stream_process K c [] = (c, [])"
  by (subst plain_stream_process.simps) simp

lemma plain_process_long:
  assumes "in_sync px4_ts_has_plain_sync p" "TS_SYNC_SIZE \<le> length p"
  shows "plain_stream_process K c p = (put_plain K c (take (whole p) p), drop (whole p) p)"
proof -
  have "TS_SYNC_COUNT \<le> length p div 188" using assms(2) div_le_mono [of 752 "length p" 188] by simp
  moreover have "p \<noteq> []" using assms(2) by auto
  ultimately show ?thesis using plain_sync_loop_in_sync [OF assms(1), of 0]
    by (subst plain_stream_process.simps) (simp add: put_plain_def)
qed

interpretation plain: ts_splitter "plain_stream_process K" "put_plain K" px4_ts_has_plain_sync for K
  by unfold_locales (simp_all add: plain_process_Nil plain_process_long)

text \<open>The boards with one receiver pass on every byte of a stream in sync when each USB transfer
  brings at least eight packets: the receiver is given all of it in order, in blocks of whole
  packets, and less than one packet waits for the next transfer.\<close>

theorem isdb_stream_complete:
  assumes "in_sync px4_ts_has_plain_sync (concat bufs)"
    and "\<forall>buf\<in>set bufs. 1504 \<le> length buf \<and> length buf + 188 < 2 ^ 32"
    and "remain_buf ctx = []"
    and "ctx' = foldl (isdb2056_device_stream_handler K) ctx bufs \<or> ctx' = foldl (isdbt2071_device_stream_handler K) ctx bufs"
  shows "(\<exists>bs. bs @ remain_buf ctx' = concat bufs \<and>
            delivered (\<lambda>c b. snd (ptx_chrdev_put_stream K c b)) (sc_chrdev ctx) bs (sc_chrdev ctx')) \<and>
         length (remain_buf ctx') < 188"
proof -
  have c: "ctx' = foldl (stream_handler (plain_stream_process K)) ctx bufs"
    using assms(4) by (simp add: isdb2056_device_stream_handler_def isdbt2071_device_stream_handler_def
        isdb2056_device_stream_process_def isdbt2071_device_stream_process_def)
  have "stream_at (put_plain K) (sc_chrdev ctx) (remain_buf ctx @ concat bufs) 188
      (foldl (stream_handler (plain_stream_process K)) ctx bufs)"
    by (rule stream_at_run [where ok = "\<lambda>buf. 1504 \<le> length buf \<and> length buf + 188 < 2 ^ 32" and
          sync = px4_ts_has_plain_sync])
      (use assms plain.handler_large in auto)
  moreover have "put_plain K = (\<lambda>c b. snd (ptx_chrdev_put_stream K c b))" by (simp add: put_plain_def fun_eq_iff)
  ultimately show ?thesis using assms(3) c by (simp add: stream_at_def)
qed

theorem isdb_stream_complete_witness:
  "length (remain_buf (foldl (isdb2056_device_stream_handler demo_kernel)
       \<lparr>sc_chrdev = demo_chrdev, remain_buf = []\<rparr> [concat (map demo_packet (replicate 9 0x47))])) < 188"
proof -
  let ?ctx = "\<lparr>sc_chrdev = demo_chrdev, remain_buf = []\<rparr>"
  let ?bufs = "[concat (map demo_packet (replicate 9 0x47))]"
  have "in_sync px4_ts_has_plain_sync (concat ?bufs)"
    using in_sync_packets [of "replicate 9 0x47" px4_ts_has_plain_sync] by (simp add: px4_ts_has_plain_sync_def)
  moreover have "length (concat (map demo_packet (replicate 9 0x47))) = 1692"
    by (simp add: length_concat sum_list_replicate)
  ultimately show ?thesis
    using isdb_stream_complete [of ?bufs ?ctx _ demo_kernel, OF _ _ _ disjI1 [OF refl]] by simp
qed

end
