(* ===== verification/Px4_Card.thy ===== *)
theory Px4_Card
  imports It930x Px4_Mldev
begin

text \<open>
  The card reader built into the boards, as a device file of its own (driver/px4\_card.c), and the
  part of driver/px4\_device.c that shares the board's power with it.

  A reader works on a \<open>board\<close>: the bridge, the \<^verbatim>\<open>available\<close> flag and the context of the driver that
  registered it, with \<^verbatim>\<open>set_power\<close>, a function pointer of that driver, on it. The readers of the
  system are \<open>card_sys\<close>: the objects in memory, the list of registered ones, the minor numbers, and
  who holds references: open files, calls of open that have found their reader and not entered it
  yet (\<open>card_opening\<close>), and calls of unregister that have taken the reader off the list only
  (\<open>card_removing\<close>). What happens under one mutex is one operation; the calls of open and unregister
  take two mutexes one after the other and are two operations each.
\<close>

section \<open>Data\<close>

abbreviation (input) PX4_CARD_MAX_DEVICES :: nat where "PX4_CARD_MAX_DEVICES \<equiv> 1024"

record ('d, 'c) board =
  bd_it930x :: "'d it930x_bridge"
  bd_available :: bool
  bd_context :: 'c

text \<open>\<open>backend->it930x\<close> passed to a function of the bridge.\<close>

definition on_bridge :: "'d it930x_bridge call \<Rightarrow> ('d, 'c) board call" where
  "on_bridge f bd = (let (ret, b) = f (bd_it930x bd) in (ret, bd\<lparr>bd_it930x := b\<rparr>))"

record ('d, 'c) px4_card =
  pc_cdev :: nat
  pc_minor :: nat
  pc_name :: string
  pc_refs :: nat
  pc_board :: "('d, 'c) board"
  pc_set_power :: "(bool \<Rightarrow> ('d, 'c) board call) option"
  pc_opened :: bool
  pc_powered :: bool
  pc_disconnected :: bool

datatype card_command =
  PX4_CARD_POWER_ON | PX4_CARD_POWER_OFF | PX4_CARD_DETECT | PX4_CARD_RESET | PX4_CARD_SET_BAUDRATE |
  PX4_CARD_RX_READY | PX4_CARD_READ | PX4_CARD_WRITE | CARD_OTHER_COMMAND

record px4_card_frame =
  fr_length :: u8
  fr_data :: "u8 list"

section \<open>Power and requests\<close>

definition px4_card_set_power :: "bool \<Rightarrow> ('d, 'c) px4_card call" where
  "px4_card_set_power on c =
     (if pc_powered c = on then (0, c)
      else if \<not> on then
        let c1 = c\<lparr>pc_powered := False\<rparr> in
        case pc_set_power c of
          Some f \<Rightarrow> let (ret, bd) = f False (pc_board c1) in (ret, c1\<lparr>pc_board := bd\<rparr>)
        | None \<Rightarrow> (0, c1)
      else
        let (ret, c1) = (case pc_set_power c of
            Some f \<Rightarrow> let (ret, bd) = f True (pc_board c) in (ret, c\<lparr>pc_board := bd\<rparr>)
          | None \<Rightarrow> (0, c)) in
        if ret \<noteq> 0 then (ret, c1)
        else
          let (ret, bd) = on_bridge it930x_bcas_init (pc_board c1);
              c2 = c1\<lparr>pc_board := bd\<rparr> in
          if ret \<noteq> 0 then
            (ret, case pc_set_power c2 of
               Some f \<Rightarrow> c2\<lparr>pc_board := snd (f False (pc_board c2))\<rparr> | None \<Rightarrow> c2)
          else (0, c2\<lparr>pc_powered := True\<rparr>))"

definition card_bridge_call :: "'d it930x_bridge call \<Rightarrow> ('d, 'c) px4_card call" where
  "card_bridge_call f c = (let (ret, bd) = on_bridge f (pc_board c) in (ret, c\<lparr>pc_board := bd\<rparr>))"

text \<open>A call of the bridge with a result beside the return value.\<close>

definition card_bridge_read ::
    "('d it930x_bridge \<Rightarrow> int \<times> 'r \<times> 'd it930x_bridge) \<Rightarrow> ('d, 'c) px4_card \<Rightarrow> int \<times> 'r \<times> ('d, 'c) px4_card" where
  "card_bridge_read f c =
     (let (ret, r, b) = f (bd_it930x (pc_board c)) in (ret, r, c\<lparr>pc_board := (pc_board c)\<lparr>bd_it930x := b\<rparr>\<rparr>))"

text \<open>The result is the return value, \<open>*value\<close>, \<open>*frame\<close> and the reader.\<close>

definition px4_card_request ::
    "card_command \<Rightarrow> u32 \<Rightarrow> px4_card_frame \<Rightarrow> ('d, 'c) px4_card \<Rightarrow>
       int \<times> u32 \<times> px4_card_frame \<times> ('d, 'c) px4_card" where
  "px4_card_request command value frame c =
     (if \<not> bd_available (pc_board c) then (- ENODEV, value, frame, c)
      else if command \<noteq> PX4_CARD_POWER_ON \<and> command \<noteq> PX4_CARD_POWER_OFF \<and> command \<noteq> PX4_CARD_DETECT \<and>
              \<not> pc_powered c then (- EHOSTDOWN, value, frame, c)
      else
        let plain = (\<lambda>(ret, c1). (ret, value, frame, c1)) in
        case command of
          PX4_CARD_POWER_ON \<Rightarrow> plain (px4_card_set_power True c)
        | PX4_CARD_POWER_OFF \<Rightarrow> plain (px4_card_set_power False c)
        | PX4_CARD_DETECT \<Rightarrow>
            let (ret, c1) = card_bridge_call (it930x_set_gpio_mode 6 IT930X_GPIO_IN True) c in
            if ret \<noteq> 0 then (ret, 0, frame, c1)
            else
              let (ret, st, c2) = card_bridge_read (it930x_bcas_detect_card False) c1
              in (ret, of_bool st, frame, c2)
        | PX4_CARD_RESET \<Rightarrow> plain (card_bridge_call it930x_bcas_reset_card c)
        | PX4_CARD_SET_BAUDRATE \<Rightarrow> plain (card_bridge_call (it930x_bcas_set_baudrate value) c)
        | PX4_CARD_RX_READY \<Rightarrow>
            let (ret, st, c1) = card_bridge_read (it930x_bcas_check_ready False) c
            in (ret, of_bool st, frame, c1)
        | PX4_CARD_READ \<Rightarrow>
            let (ret, data, c1) = card_bridge_read (it930x_bcas_get_data (fr_length frame)) c;
                frame1 = frame\<lparr>fr_data := data @ drop (length data) (fr_data frame)\<rparr> in
            (ret, value, if ret = 0 then frame1\<lparr>fr_length := of_nat (length data)\<rparr> else frame1, c1)
        | PX4_CARD_WRITE \<Rightarrow>
            plain (card_bridge_call (it930x_bcas_send_data (take (unat (fr_length frame)) (fr_data frame))) c)
        | CARD_OTHER_COMMAND \<Rightarrow> (- ENOTTY, value, frame, c))"

definition px4_card_power_off :: "('d, 'c) px4_card \<Rightarrow> ('d, 'c) px4_card" where
  "px4_card_power_off c = (if \<not> pc_powered c then c else snd (px4_card_set_power False c))"

text \<open>
  ioctl(2). What user space passes is \<open>u_value\<close> and \<open>u_frame\<close>, \<open>None\<close> when it cannot be read;
  \<open>writable\<close> tells whether results can be written back; \<open>intr\<close> and \<open>intr_backend\<close> whether a signal
  interrupts the wait for either mutex. The results are the return value and what was written back.
\<close>

definition px4_card_ioctl ::
    "card_command \<Rightarrow> u32 option \<Rightarrow> px4_card_frame option \<Rightarrow> bool \<Rightarrow> bool \<Rightarrow> bool \<Rightarrow> ('d, 'c) px4_card \<Rightarrow>
       int \<times> u32 option \<times> px4_card_frame option \<times> ('d, 'c) px4_card" where
  "px4_card_ioctl command u_value u_frame writable intr intr_backend c =
     (let fail = (\<lambda>ret. (ret, None, None, c));
          go = (\<lambda>value frame.
            if intr then fail (- ERESTARTSYS)
            else if pc_disconnected c then fail (- ENODEV)
            else if intr_backend then fail (- ERESTARTSYS)
            else
              let (ret, value1, frame1, c1) = px4_card_request command value frame c in
              if ret \<noteq> 0 then (ret, None, None, c1)
              else if command = PX4_CARD_DETECT \<or> command = PX4_CARD_RX_READY then
                (if writable then (0, Some value1, None, c1) else (- EFAULT, None, None, c1))
              else if command = PX4_CARD_READ then
                (if writable then (0, None, Some frame1, c1) else (- EFAULT, None, None, c1))
              else (0, None, None, c1));
          no_frame = \<lparr>fr_length = 0, fr_data = []\<rparr> in
      case command of
        PX4_CARD_SET_BAUDRATE \<Rightarrow> (case u_value of None \<Rightarrow> fail (- EFAULT) | Some v \<Rightarrow> go v no_frame)
      | PX4_CARD_READ \<Rightarrow>
          (case u_frame of
             None \<Rightarrow> fail (- EFAULT)
           | Some fr \<Rightarrow> if fr_length fr = 0 then fail (- EINVAL)
                        else go 0 (fr\<lparr>fr_data := replicate (length (fr_data fr)) 0\<rparr>))
      | PX4_CARD_WRITE \<Rightarrow>
          (case u_frame of
             None \<Rightarrow> fail (- EFAULT)
           | Some fr \<Rightarrow> if fr_length fr = 0 then fail (- EINVAL) else go 0 fr)
      | CARD_OTHER_COMMAND \<Rightarrow> fail (- ENOTTY)
      | _ \<Rightarrow> go 0 no_frame)"

section \<open>Names\<close>

record usb_device =
  id_vendor :: u16
  id_product :: u16
  usb_serial :: "string option"
  usb_dev_name :: string

definition px4_card_guids :: "(u16 \<times> string) list" where
  "px4_card_guids =
     [(0x083f, ''{6d78c843-49d8-4bb8-8dfa-286fdee4c8a3}''),
      (0x084a, ''{87b25983-d116-4ccf-8896-84d022fabd73}''),
      (0x023f, ''{47fc15e3-6791-4e24-8fbe-c4218eee0ad6}''),
      (0x024a, ''{60eaf2b6-548f-4aad-ab0b-87055528dfd6}''),
      (0x073f, ''{3c42fdc6-2438-455e-89db-538011777617}''),
      (0x074a, ''{c78aa8ba-8476-4047-a089-7c3ed43503a6}''),
      (0x024e, ''{eeb8e93b-1007-4e3e-8ce9-4f7ebdf3aba1}''),
      (0x924e, ''{eeb8e93b-1007-4e3e-8ce9-4f7ebdf3aba1}''),
      (0x0252, ''{bfafd6cd-29f8-46e7-b558-e3b0c493aaba}''),
      (0x0253, ''{145dce88-a4db-4737-8e5d-d1099814876a}''),
      (0x004b, ''{1f8fa351-3f75-42c1-b0f1-ec794294448f}''),
      (0x084b, ''{283639e3-0df2-40bd-a5cc-5051579745a7}''),
      (0x0254, ''{da23f91d-62ad-401e-812e-a7f054d665af}''),
      (0x0854, ''{28ec1517-6150-4025-acfb-a5447add0a57}''),
      (0x0855, ''{a3303a3b-ea2c-467f-beae-8e72fb158714}''),
      (0x0052, ''{ac1e5fa2-e265-4819-9b29-2be8a44ce4c9}'')]"

text \<open>The conversions of \<^verbatim>\<open>kasprintf\<close> the code uses: hexadecimal of a fixed width, and decimal.\<close>

definition hex_string :: "string \<Rightarrow> nat \<Rightarrow> nat \<Rightarrow> string" where
  "hex_string digits width n = map (\<lambda>i. digits ! (n div 16 ^ i mod 16)) (rev [0..<width])"

fun dec_string :: "nat \<Rightarrow> string" where
  "dec_string n = (if n < 10 then [char_of (48 + n)] else dec_string (n div 10) @ [char_of (48 + n mod 10)])"

declare dec_string.simps [simp del]

definition tolower :: "char \<Rightarrow> u16" where
  "tolower ch = (let n = of_char ch :: nat in of_nat (if 65 \<le> n \<and> n \<le> 90 then n + 32 else n))"

definition serial_char :: "char \<Rightarrow> bool" where
  "serial_char ch = (ch \<in> set ''ABCDEFGHIJKLMNOPQRSTUVWXYZabcdefghijklmnopqrstuvwxyz0123456789._-'')"

definition serial_ok :: "string option \<Rightarrow> bool" where
  "serial_ok serial =
     (case serial of
        None \<Rightarrow> False
      | Some s \<Rightarrow> s \<noteq> [] \<and> length s \<le> 255 \<and> s \<noteq> ''.'' \<and> s \<noteq> ''..'' \<and> list_all serial_char s)"

definition device_path :: "usb_device \<Rightarrow> string" where
  "device_path usb =
     [CHR 0x5C, CHR 0x5C, CHR ''?'', CHR 0x5C] @ ''usb#vid_'' @
     hex_string ''0123456789abcdef'' 4 (unat (id_vendor usb)) @ ''&pid_'' @
     hex_string ''0123456789abcdef'' 4 (unat (id_product usb)) @ ''#'' @
     (case usb_serial usb of None \<Rightarrow> [] | Some s \<Rightarrow> s) @
     (case map_of px4_card_guids (id_product usb) of None \<Rightarrow> [] | Some guid \<Rightarrow> ''#'' @ guid)"

definition fnv_path :: "string \<Rightarrow> u64" where
  "fnv_path path = foldl (\<lambda>hash ch. (hash XOR ucast (tolower ch)) * 1099511628211) 14695981039346656037 path"

text \<open>\<open>path_ok\<close> and \<open>id_ok\<close> are whether the two allocations succeed.\<close>

definition px4_card_reader_id :: "bool \<Rightarrow> bool \<Rightarrow> usb_device \<Rightarrow> int + string" where
  "px4_card_reader_id path_ok id_ok usb =
     (if \<not> serial_ok (usb_serial usb) then Inl (- EINVAL)
      else if \<not> path_ok then Inl (- ENOMEM)
      else if \<not> id_ok then Inl (- ENOMEM)
      else Inr (hex_string ''0123456789ABCDEF'' 16 (unat (fnv_path (device_path usb)))))"

text \<open>The name with a number, and the loop that looks for one that no registered reader has.\<close>

definition suffixed :: "string \<Rightarrow> nat \<Rightarrow> string" where
  "suffixed base suffix = (if suffix \<noteq> 0 then base @ ''-'' @ dec_string suffix else base)"

definition dec_val :: "string \<Rightarrow> nat" where
  "dec_val s = foldl (\<lambda>a ch. 10 * a + (of_char ch - 48)) 0 s"

lemma dec_val_dec_string: "dec_val (dec_string n) = n"
proof (induction n rule: dec_string.induct)
  case (1 n)
  show ?case
  proof (cases "n < 10")
    case True
    then show ?thesis by (subst dec_string.simps) (simp add: dec_val_def)
  next
    case False
    then have "dec_val (dec_string (n div 10)) = n div 10" using 1 by simp
    then show ?thesis using False by (subst dec_string.simps) (simp add: dec_val_def)
  qed
qed

lemma suffixed_inj: "suffixed base i = suffixed base j \<Longrightarrow> i = j"
  by (auto simp: suffixed_def dest: arg_cong [of _ _ dec_val] simp: dec_val_dec_string split: if_splits)

lemma finite_taken: "finite {k. suffix \<le> k \<and> suffixed base k \<in> set names}"
proof -
  have "inj (suffixed base)" by (rule injI) (rule suffixed_inj)
  then have "finite (suffixed base -` set names)" by (intro finite_vimageI) simp_all
  then show ?thesis by (rule rev_finite_subset) auto
qed

function (sequential) name_loop :: "(nat \<Rightarrow> bool) \<Rightarrow> string list \<Rightarrow> string \<Rightarrow> nat \<Rightarrow> int + string" where
  "name_loop alloc_ok names base suffix =
     (if \<not> alloc_ok suffix then Inl (- ENOMEM)
      else if suffixed base suffix \<in> set names then name_loop alloc_ok names base (suffix + 1)
      else Inr (suffixed base suffix))"
  by pat_completeness auto
termination
proof (relation "measure (\<lambda>(alloc_ok, names, base, suffix). card {k. suffix \<le> k \<and> suffixed base k \<in> set names})", goal_cases)
  case (2 alloc_ok names base suffix)
  let ?A = "{k. suffix + 1 \<le> k \<and> suffixed base k \<in> set names}"
  let ?B = "{k. suffix \<le> k \<and> suffixed base k \<in> set names}"
  have "suffix \<in> ?B" "suffix \<notin> ?A" "?A \<subseteq> ?B" using 2 by auto
  then have "?A \<subset> ?B" by blast
  from psubset_card_mono [OF finite_taken this] show ?case by simp
qed simp

declare name_loop.simps [simp del]

section \<open>The readers of the system\<close>

record ('d, 'c) card_sys =
  cards_heap :: "nat \<Rightarrow> ('d, 'c) px4_card option"
  px4_cards :: "nat list"
  px4_card_minors :: "bool list"
  px4_card_class :: bool
  card_files :: "nat list"
  card_opening :: "nat list"
  card_removing :: "nat list"

text \<open>What the kernel answers while a reader is registered.\<close>

record reg_env =
  re_card :: "nat option"
  re_usb :: usb_device
  re_path_ok :: bool
  re_id_ok :: bool
  re_base_ok :: bool
  re_name_ok :: "nat \<Rightarrow> bool"
  re_cdev :: "nat option"
  re_cdev_add :: int
  re_device :: int

definition card_name :: "('d, 'c) card_sys \<Rightarrow> nat \<Rightarrow> string" where
  "card_name s i = (case cards_heap s i of None \<Rightarrow> [] | Some c \<Rightarrow> pc_name c)"

definition card_minor :: "('d, 'c) card_sys \<Rightarrow> nat \<Rightarrow> nat" where
  "card_minor s i = (case cards_heap s i of None \<Rightarrow> 0 | Some c \<Rightarrow> pc_minor c)"

definition px4_card_set_name :: "reg_env \<Rightarrow> ('d, 'c) card_sys \<Rightarrow> int + string" where
  "px4_card_set_name env s =
     (let names = map (card_name s) (px4_cards s);
          number = (\<lambda>base. name_loop (re_name_ok env) names base 0) in
      case px4_card_reader_id (re_path_ok env) (re_id_ok env) (re_usb env) of
        Inr base \<Rightarrow> number base
      | Inl e \<Rightarrow>
          if e = - EINVAL then
            if re_base_ok env then number (''usb-'' @ usb_dev_name (re_usb env)) else Inl (- ENOMEM)
          else Inl e)"

definition find_first_zero_bit :: "bool list \<Rightarrow> nat" where
  "find_first_zero_bit bits = length (takeWhile (\<lambda>b. b) bits)"

text \<open>\<open>card\<close> is the zeroed object with its backend; the list takes the new element at its head.\<close>

definition px4_card_add :: "reg_env \<Rightarrow> nat \<Rightarrow> ('d, 'c) px4_card \<Rightarrow> ('d, 'c) card_sys \<Rightarrow> int \<times> ('d, 'c) card_sys" where
  "px4_card_add env i c s =
     (case px4_card_set_name env s of
        Inl e \<Rightarrow> (e, s)
      | Inr nm \<Rightarrow>
          let minor = find_first_zero_bit (px4_card_minors s) in
          if minor \<ge> PX4_CARD_MAX_DEVICES then (- ENOSPC, s)
          else
            case re_cdev env of
              None \<Rightarrow> (- ENOMEM, s)
            | Some cdev \<Rightarrow>
                if re_cdev_add env \<noteq> 0 then (re_cdev_add env, s)
                else if re_device env \<noteq> 0 then (re_device env, s)
                else (0, s\<lparr>cards_heap := (cards_heap s)(i \<mapsto> c\<lparr>pc_name := nm, pc_minor := minor, pc_cdev := cdev\<rparr>),
                           px4_cards := i # px4_cards s,
                           px4_card_minors := (px4_card_minors s)[minor := True]\<rparr>))"

definition px4_card_register ::
    "reg_env \<Rightarrow> ('d, 'c) board \<Rightarrow> (bool \<Rightarrow> ('d, 'c) board call) option \<Rightarrow> ('d, 'c) card_sys \<Rightarrow>
       int \<times> nat option \<times> ('d, 'c) card_sys" where
  "px4_card_register env bd sp s =
     (if \<not> px4_card_class s then (- ENODEV, None, s)
      else
        case re_card env of
          None \<Rightarrow> (- ENOMEM, None, s)
        | Some i \<Rightarrow>
            let c = \<lparr>pc_cdev = 0, pc_minor = 0, pc_name = [], pc_refs = 1, pc_board = bd, pc_set_power = sp,
                     pc_opened = False, pc_powered = False, pc_disconnected = False\<rparr>;
                (ret, s1) = px4_card_add env i c s in
            if ret \<noteq> 0 then (ret, None, s1) else (0, Some i, s1))"

definition set_card :: "nat \<Rightarrow> ('d, 'c) px4_card \<Rightarrow> ('d, 'c) card_sys \<Rightarrow> ('d, 'c) card_sys" where
  "set_card i c s = s\<lparr>cards_heap := (cards_heap s)(i \<mapsto> c)\<rparr>"

text \<open>\<^verbatim>\<open>kref_put\<close> with \<^verbatim>\<open>px4_card_free\<close>.\<close>

definition card_put :: "nat \<Rightarrow> ('d, 'c) card_sys \<Rightarrow> ('d, 'c) card_sys" where
  "card_put i s =
     (case cards_heap s i of
        None \<Rightarrow> s
      | Some c \<Rightarrow>
          if pc_refs c = 1 then s\<lparr>cards_heap := (cards_heap s)(i := None)\<rparr>
          else set_card i (c\<lparr>pc_refs := pc_refs c - 1\<rparr>) s)"

definition px4_card_unregister_list :: "nat \<Rightarrow> ('d, 'c) card_sys \<Rightarrow> ('d, 'c) card_sys" where
  "px4_card_unregister_list i s =
     s\<lparr>px4_cards := remove1 i (px4_cards s),
       px4_card_minors := (px4_card_minors s)[card_minor s i := False],
       card_removing := i # card_removing s\<rparr>"

definition px4_card_unregister_card :: "nat \<Rightarrow> ('d, 'c) card_sys \<Rightarrow> ('d, 'c) card_sys" where
  "px4_card_unregister_card i s =
     (case cards_heap s i of
        None \<Rightarrow> s
      | Some c \<Rightarrow>
          card_put i (set_card i ((px4_card_power_off c)\<lparr>pc_disconnected := True\<rparr>)
            (s\<lparr>card_removing := remove1 i (card_removing s)\<rparr>)))"

definition px4_card_unregister :: "nat option \<Rightarrow> ('d, 'c) card_sys \<Rightarrow> ('d, 'c) card_sys" where
  "px4_card_unregister co s =
     (case co of None \<Rightarrow> s | Some i \<Rightarrow> px4_card_unregister_card i (px4_card_unregister_list i s))"

text \<open>open(2): the search by device number and cdev, then the entry into the reader found.\<close>

definition px4_card_open_find :: "nat \<Rightarrow> nat \<Rightarrow> ('d, 'c) card_sys \<Rightarrow> nat option \<times> ('d, 'c) card_sys" where
  "px4_card_open_find minor cdev s =
     (let hit = (\<lambda>i. case cards_heap s i of None \<Rightarrow> False | Some c \<Rightarrow> pc_minor c = minor \<and> pc_cdev c = cdev) in
      case find hit (px4_cards s) of
        None \<Rightarrow> (None, s)
      | Some i \<Rightarrow>
          (Some i, (case cards_heap s i of
                      None \<Rightarrow> s
                    | Some c \<Rightarrow> set_card i (c\<lparr>pc_refs := pc_refs c + 1\<rparr>) (s\<lparr>card_opening := i # card_opening s\<rparr>))))"

definition px4_card_open_enter :: "bool \<Rightarrow> nat \<Rightarrow> ('d, 'c) card_sys \<Rightarrow> int \<times> ('d, 'c) card_sys" where
  "px4_card_open_enter intr i s =
     (case cards_heap s i of
        None \<Rightarrow> (0, s)
      | Some c \<Rightarrow>
          let s1 = s\<lparr>card_opening := remove1 i (card_opening s)\<rparr> in
          if intr then (- ERESTARTSYS, card_put i s1)
          else if pc_disconnected c then (- ENODEV, card_put i s1)
          else if pc_opened c then (- EBUSY, card_put i s1)
          else (0, set_card i (c\<lparr>pc_opened := True\<rparr>) (s1\<lparr>card_files := i # card_files s1\<rparr>)))"

definition px4_card_open :: "nat \<Rightarrow> nat \<Rightarrow> bool \<Rightarrow> ('d, 'c) card_sys \<Rightarrow> int \<times> ('d, 'c) card_sys" where
  "px4_card_open minor cdev intr s =
     (case px4_card_open_find minor cdev s of
        (None, s1) \<Rightarrow> (- ENODEV, s1)
      | (Some i, s1) \<Rightarrow> px4_card_open_enter intr i s1)"

definition px4_card_release :: "nat \<Rightarrow> ('d, 'c) card_sys \<Rightarrow> ('d, 'c) card_sys" where
  "px4_card_release i s =
     (case cards_heap s i of
        None \<Rightarrow> s
      | Some c \<Rightarrow>
          let c1 = (if \<not> pc_disconnected c then px4_card_power_off c else c) in
          card_put i (set_card i (c1\<lparr>pc_opened := False\<rparr>) (s\<lparr>card_files := remove1 i (card_files s)\<rparr>)))"

definition px4_card_init :: "int \<Rightarrow> int \<Rightarrow> ('d, 'c) card_sys \<Rightarrow> int \<times> ('d, 'c) card_sys" where
  "px4_card_init region class_ret s =
     (if region \<noteq> 0 then (region, s)
      else if class_ret \<noteq> 0 then (class_ret, s\<lparr>px4_card_class := False\<rparr>)
      else (0, s\<lparr>px4_card_class := True\<rparr>))"

section \<open>The power of a px4 board\<close>

text \<open>
  The fields of \<^verbatim>\<open>struct px4_device\<close> that decide about the board's power. On a board with a partner
  the shared manager switches the power; \<open>pw_switch\<close> is the manager's parameter.
\<close>

record px4_power =
  pw_open_count :: nat
  pw_card_powered :: bool
  pw_mldev :: "px4_mldev option"
  pw_ref :: px4_ref
  pw_switch :: power_backend

definition px4_backend_set_power :: "bool \<Rightarrow> ('d, px4_power) board call" where
  "px4_backend_set_power st bd =
     (if \<not> st \<and> \<not> bd_available bd then (0, bd)
      else if st then on_bridge (run_all [it930x_write_gpio 7 False, it930x_write_gpio 2 True]) bd
      else (0, snd (on_bridge (it930x_write_gpio 7 True) (snd (on_bridge (it930x_write_gpio 2 False) bd)))))"

definition px4_device_set_card_power :: "bool \<Rightarrow> ('d, px4_power) board call" where
  "px4_device_set_card_power on bd =
     (let pw = bd_context bd;
          (ret, bd1) = (case pw_mldev pw of
              Some m \<Rightarrow>
                let (ret, m1) = px4_mldev_set_card_power (pw_switch pw) m (pw_ref pw) on
                in (ret, bd\<lparr>bd_context := pw\<lparr>pw_mldev := Some m1\<rparr>\<rparr>)
            | None \<Rightarrow> if pw_open_count pw = 0 then px4_backend_set_power on bd else (0, bd)) in
      (ret, if \<not> on \<or> ret = 0 then bd1\<lparr>bd_context := (bd_context bd1)\<lparr>pw_card_powered := on\<rparr>\<rparr> else bd1))"

end
