(* ===== verification/Px4_Card_Props.thy ===== *)
theory Px4_Card_Props
  imports Px4_Card It930x_Props
begin

text \<open>
  The card readers of the system through any interleaving of registration, removal, open, close and
  ioctl: numbers and names are exclusive, references are exact, one file at a time has a reader, and
  the board's power is held by an open reader only and agrees with what the board's driver thinks.
\<close>

section \<open>Operations on one reader\<close>

text \<open>What the requests never change.\<close>

definition ident_of :: "('d, 'c) px4_card \<Rightarrow> nat \<times> nat \<times> string \<times> nat \<times> bool \<times> bool" where
  "ident_of c = (pc_cdev c, pc_minor c, pc_name c, pc_refs c, pc_opened c, pc_disconnected c)"

lemma ident_of_simps [simp]:
  "ident_of (c\<lparr>pc_board := bd\<rparr>) = ident_of c" "ident_of (c\<lparr>pc_powered := p\<rparr>) = ident_of c"
  by (simp_all add: ident_of_def)

lemma set_power_ident: "ident_of (snd (px4_card_set_power on c)) = ident_of c"
  by (auto simp: px4_card_set_power_def case_prod_beta Let_def split: option.split)

lemma power_off_ident: "ident_of (px4_card_power_off c) = ident_of c"
  by (simp add: px4_card_power_off_def set_power_ident)

lemma set_power_sp: "pc_set_power (snd (px4_card_set_power on c)) = pc_set_power c"
  by (auto simp: px4_card_set_power_def case_prod_beta Let_def split: option.split)

lemma power_off_powered: "\<not> pc_powered (px4_card_power_off c)"
  by (auto simp: px4_card_power_off_def px4_card_set_power_def case_prod_beta Let_def split: option.split)

text \<open>A request changes the reader as a power switch or as a call of the bridge does.\<close>

definition bridge_change :: "('d, 'c) px4_card \<Rightarrow> ('d, 'c) px4_card \<Rightarrow> bool" where
  "bridge_change c c' \<longleftrightarrow> (\<exists>b. c' = c\<lparr>pc_board := (pc_board c)\<lparr>bd_it930x := b\<rparr>\<rparr>)"

lemma bridge_change_refl: "bridge_change c c"
  unfolding bridge_change_def by (rule exI [of _ "bd_it930x (pc_board c)"]) simp

lemma bridge_change_trans: "bridge_change c c1 \<Longrightarrow> bridge_change c1 c2 \<Longrightarrow> bridge_change c c2"
  unfolding bridge_change_def by auto

lemma bridge_call_change: "bridge_change c (snd (card_bridge_call f c))"
  by (auto simp: bridge_change_def card_bridge_call_def on_bridge_def case_prod_beta Let_def)

lemma bridge_read_change: "bridge_change c (snd (snd (card_bridge_read f c)))"
  by (auto simp: bridge_change_def card_bridge_read_def case_prod_beta Let_def)

lemma request_cases:
  assumes "px4_card_request command value frame c = (ret, v, fr, c')"
  obtains (change) "bridge_change c c'" | (on) "c' = snd (px4_card_set_power True c)"
    | (off) "c' = snd (px4_card_set_power False c)"
proof -
  have c': "c' = snd (snd (snd (px4_card_request command value frame c)))" using assms by simp
  have "bridge_change c c' \<or> c' = snd (px4_card_set_power True c) \<or> c' = snd (px4_card_set_power False c)"
  proof (cases command)
    case PX4_CARD_DETECT
    define r1 where "r1 = card_bridge_call (it930x_set_gpio_mode 6 IT930X_GPIO_IN True) c"
    have "c' = c \<or> c' = snd r1 \<or> c' = snd (snd (card_bridge_read (it930x_bcas_detect_card False) (snd r1)))"
      using PX4_CARD_DETECT unfolding c' r1_def by (simp add: px4_card_request_def case_prod_beta Let_def)
    then show ?thesis
      using bridge_call_change bridge_read_change bridge_change_trans bridge_change_refl unfolding r1_def by metis
  qed (auto simp: c' px4_card_request_def case_prod_beta Let_def bridge_call_change bridge_read_change
      bridge_change_refl)
  then show ?thesis using that by blast
qed

lemma ioctl_cases:
  assumes "px4_card_ioctl command u_value u_frame writable intr intr_backend c = (ret, v, fr, c')"
  obtains (same) "c' = c" | (request) val0 frame ret' v' fr' where
    "px4_card_request command val0 frame c = (ret', v', fr', c')" "\<not> pc_disconnected c"
  using assms
  by (auto simp: px4_card_ioctl_def Let_def split: card_command.splits option.splits if_splits prod.splits)

lemma bridge_change_ident: "bridge_change c c' \<Longrightarrow> ident_of c' = ident_of c"
  by (auto simp: bridge_change_def)

lemma ioctl_ident:
  assumes "px4_card_ioctl command u_value u_frame writable intr intr_backend c = (ret, v, fr, c')"
  shows "ident_of c' = ident_of c"
  using assms
proof (cases rule: ioctl_cases)
  case (request val0 frame ret' v' fr')
  from request(1) show ?thesis
    by (cases rule: request_cases) (simp_all add: set_power_ident bridge_change_ident)
qed simp

text \<open>A disconnected reader is left alone.\<close>

lemma ioctl_disconnected:
  "px4_card_ioctl command u_value u_frame writable intr intr_backend c = (ret, v, fr, c') \<Longrightarrow>
     pc_disconnected c \<Longrightarrow> c' = c"
  by (auto elim: ioctl_cases)

text \<open>
  The power of the board: \<open>holds\<close> is whether the board's driver has recorded the reader as a user of
  the power. The laws are what \<^verbatim>\<open>px4_card_set_power\<close> relies on: a successful switch to on
  records the reader, a failed one leaves it unrecorded, a switch to off always clears the record.
\<close>

locale card_power =
  fixes holds :: "'c \<Rightarrow> bool"
    and sp :: "bool \<Rightarrow> ('d, 'c) board call"
  assumes on_ok: "sp True bd = (0, bd') \<Longrightarrow> holds (bd_context bd')"
    and on_fail: "sp True bd = (ret, bd') \<Longrightarrow> ret \<noteq> 0 \<Longrightarrow> \<not> holds (bd_context bd) \<Longrightarrow> \<not> holds (bd_context bd')"
    and off: "\<not> holds (bd_context (snd (sp False bd)))"
begin

definition agrees :: "('d, 'c) px4_card \<Rightarrow> bool" where
  "agrees c \<longleftrightarrow> (pc_set_power c = Some sp \<longrightarrow> (pc_powered c \<longleftrightarrow> holds (bd_context (pc_board c))))"

lemma agrees_frame [simp]:
  "agrees (c\<lparr>pc_refs := n\<rparr>) = agrees c" "agrees (c\<lparr>pc_opened := op\<rparr>) = agrees c"
  "agrees (c\<lparr>pc_disconnected := d\<rparr>) = agrees c"
  by (simp_all add: agrees_def)

lemma agrees_bridge: "bridge_change c c' \<Longrightarrow> agrees c \<Longrightarrow> agrees c'"
  by (auto simp: bridge_change_def agrees_def)

lemma set_power_off_agrees: "agrees c \<Longrightarrow> agrees (snd (px4_card_set_power False c))"
  using off by (auto simp: px4_card_set_power_def agrees_def case_prod_beta Let_def split: option.split)

lemma set_power_on_agrees:
  assumes "agrees c"
  shows "agrees (snd (px4_card_set_power True c))"
proof (cases "pc_set_power c = Some sp \<and> \<not> pc_powered c")
  case False
  have "pc_set_power (snd (px4_card_set_power True c)) = pc_set_power c" by (rule set_power_sp)
  then show ?thesis using False assms by (auto simp: agrees_def px4_card_set_power_def)
next
  case True
  obtain r1 bd1 where p: "sp True (pc_board c) = (r1, bd1)" by fastforce
  obtain r2 b2 where i: "it930x_bcas_init (bd_it930x bd1) = (r2, b2)" by fastforce
  have n: "\<not> holds (bd_context (pc_board c))" using assms True by (simp add: agrees_def)
  show ?thesis
  proof (cases "r1 = 0")
    case True
    then show ?thesis using \<open>pc_set_power c = Some sp \<and> \<not> pc_powered c\<close> p i on_ok [of "pc_board c" bd1] off
      by (simp add: px4_card_set_power_def on_bridge_def agrees_def Let_def)
  next
    case False
    then show ?thesis using True p on_fail [OF p False n] by (simp add: px4_card_set_power_def agrees_def)
  qed
qed

lemma power_off_agrees: "agrees c \<Longrightarrow> agrees (px4_card_power_off c)"
  by (simp add: px4_card_power_off_def set_power_off_agrees)

lemma ioctl_agrees:
  assumes "px4_card_ioctl command u_value u_frame writable intr intr_backend c = (ret, v, fr, c')" "agrees c"
  shows "agrees c'"
  using assms(1)
proof (cases rule: ioctl_cases)
  case (request val0 frame ret' v' fr')
  from request(1) show ?thesis using assms(2)
    by (cases rule: request_cases) (auto intro: agrees_bridge set_power_on_agrees set_power_off_agrees)
qed (use assms(2) in simp)

end

section \<open>The life of the readers\<close>

text \<open>
  \<open>good\<close> are the boards and switches that drivers register, \<open>tuner\<close> is what the tuner side of a
  driver may do to a board in between. Memory for a new reader is memory not in use.
\<close>

inductive card_step ::
    "(('d, 'c) board \<Rightarrow> (bool \<Rightarrow> ('d, 'c) board call) option \<Rightarrow> bool) \<Rightarrow>
     (('d, 'c) board \<Rightarrow> ('d, 'c) board \<Rightarrow> bool) \<Rightarrow> ('d, 'c) card_sys \<Rightarrow> ('d, 'c) card_sys \<Rightarrow> bool"
  for good tuner where
  cs_register: "(\<And>i. re_card env = Some i \<Longrightarrow> cards_heap s i = None) \<Longrightarrow> good bd sp \<Longrightarrow>
      px4_card_register env bd sp s = (ret, r, s') \<Longrightarrow> card_step good tuner s s'"
| cs_unregister_list: "i \<in> set (px4_cards s) \<Longrightarrow> card_step good tuner s (px4_card_unregister_list i s)"
| cs_unregister_card: "i \<in> set (card_removing s) \<Longrightarrow> card_step good tuner s (px4_card_unregister_card i s)"
| cs_open_find: "px4_card_open_find minor cdev s = (r, s') \<Longrightarrow> card_step good tuner s s'"
| cs_open_enter: "i \<in> set (card_opening s) \<Longrightarrow> px4_card_open_enter intr i s = (ret, s') \<Longrightarrow> card_step good tuner s s'"
| cs_release: "i \<in> set (card_files s) \<Longrightarrow> card_step good tuner s (px4_card_release i s)"
| cs_ioctl: "i \<in> set (card_files s) \<Longrightarrow> cards_heap s i = Some c \<Longrightarrow>
      px4_card_ioctl command u_value u_frame writable intr intr_backend c = (ret, v, fr, c') \<Longrightarrow>
      card_step good tuner s (set_card i c' s)"
| cs_tuner: "cards_heap s i = Some c \<Longrightarrow> tuner (pc_board c) bd \<Longrightarrow>
      card_step good tuner s (set_card i (c\<lparr>pc_board := bd\<rparr>) s)"

definition card_sys_start :: "('d, 'c) card_sys" where
  "card_sys_start = \<lparr>cards_heap = Map.empty, px4_cards = [], px4_card_minors = replicate PX4_CARD_MAX_DEVICES False,
     px4_card_class = True, card_files = [], card_opening = [], card_removing = []\<rparr>"

text \<open>References: who holds a reader.\<close>

definition card_refs :: "('d, 'c) card_sys \<Rightarrow> nat \<Rightarrow> nat" where
  "card_refs s i = count_list (px4_cards s) i + count_list (card_removing s) i +
     count_list (card_opening s) i + count_list (card_files s) i"

definition card_ok :: "('d, 'c) card_sys \<Rightarrow> nat \<Rightarrow> ('d, 'c) px4_card \<Rightarrow> bool" where
  "card_ok s i c \<longleftrightarrow> pc_refs c = card_refs s i \<and> pc_refs c > 0 \<and>
     count_list (card_files s) i = of_bool (pc_opened c) \<and>
     count_list (px4_cards s) i + count_list (card_removing s) i = of_bool (\<not> pc_disconnected c) \<and>
     (pc_powered c \<longrightarrow> pc_opened c \<and> \<not> pc_disconnected c)"

definition refs_ok :: "('d, 'c) card_sys \<Rightarrow> bool" where
  "refs_ok s \<longleftrightarrow> (\<forall>i. case cards_heap s i of None \<Rightarrow> card_refs s i = 0 | Some c \<Rightarrow> card_ok s i c)"

lemma refs_okD: "refs_ok s \<Longrightarrow> cards_heap s i = Some c \<Longrightarrow> card_ok s i c"
  unfolding refs_ok_def by (metis option.simps(5))

lemma refs_okN: "refs_ok s \<Longrightarrow> cards_heap s i = None \<Longrightarrow> card_refs s i = 0"
  unfolding refs_ok_def by (metis option.simps(4))

lemma refs_ok_used:
  assumes "refs_ok s" "i \<in> set (px4_cards s) \<union> set (card_removing s) \<union> set (card_opening s) \<union> set (card_files s)"
  obtains c where "cards_heap s i = Some c" "card_ok s i c"
proof -
  have "card_refs s i \<noteq> 0" using assms(2) by (auto simp: card_refs_def count_list_0_iff)
  then show ?thesis using that refs_okD [OF assms(1)] refs_okN [OF assms(1), of i] by fastforce
qed

lemma count_remove1: "count_list (remove1 a xs) b = (if a = b then count_list xs b - 1 else count_list xs b)"
  by (induction xs) auto

lemma count_pos: "a \<in> set xs \<Longrightarrow> 0 < count_list xs a"
  using count_list_0_iff [of xs a] by simp

text \<open>An operation that touches the reader \<open>i\<close> only.\<close>

lemma refs_ok_update:
  assumes "refs_ok s" "\<And>j. j \<noteq> i \<Longrightarrow> cards_heap s' j = cards_heap s j"
    and "\<And>j. j \<noteq> i \<Longrightarrow> count_list (px4_cards s') j = count_list (px4_cards s) j"
    and "\<And>j. j \<noteq> i \<Longrightarrow> count_list (card_removing s') j = count_list (card_removing s) j"
    and "\<And>j. j \<noteq> i \<Longrightarrow> count_list (card_opening s') j = count_list (card_opening s) j"
    and "\<And>j. j \<noteq> i \<Longrightarrow> count_list (card_files s') j = count_list (card_files s) j"
    and "case cards_heap s' i of None \<Rightarrow> card_refs s' i = 0 | Some c \<Rightarrow> card_ok s' i c"
  shows "refs_ok s'"
  unfolding refs_ok_def
proof
  fix j
  show "case cards_heap s' j of None \<Rightarrow> card_refs s' j = 0 | Some c \<Rightarrow> card_ok s' j c"
  proof (cases "j = i")
    case True
    show ?thesis using assms(7) by (simp only: True)
  next
    case False
    have "case cards_heap s j of None \<Rightarrow> card_refs s j = 0 | Some c \<Rightarrow> card_ok s j c"
      using assms(1) unfolding refs_ok_def by blast
    then show ?thesis using False assms(2-6) by (auto simp: card_refs_def card_ok_def split: option.splits)
  qed
qed

lemma set_card_fields [simp]:
  "cards_heap (set_card i c s) = (cards_heap s)(i \<mapsto> c)" "px4_cards (set_card i c s) = px4_cards s"
  "px4_card_minors (set_card i c s) = px4_card_minors s" "card_files (set_card i c s) = card_files s"
  "card_opening (set_card i c s) = card_opening s" "card_removing (set_card i c s) = card_removing s"
  by (simp_all add: set_card_def)

lemma card_put_fields [simp]:
  "px4_cards (card_put i s) = px4_cards s" "px4_card_minors (card_put i s) = px4_card_minors s"
  "card_files (card_put i s) = card_files s" "card_opening (card_put i s) = card_opening s"
  "card_removing (card_put i s) = card_removing s"
  by (simp_all add: card_put_def set_card_def split: option.split)

lemma card_put_heap:
  "cards_heap s i = Some c \<Longrightarrow>
     cards_heap (card_put i s) = (cards_heap s)(i := if pc_refs c = 1 then None else Some (c\<lparr>pc_refs := pc_refs c - 1\<rparr>))"
  by (simp add: card_put_def)

text \<open>
  Dropping a reference: the lists have already lost the holder. What is left of the reader keeps
  its invariant, and a reader without holders is gone.
\<close>

lemma refs_ok_put:
  assumes "refs_ok s" "cards_heap s i = Some c"
    and lists: "\<And>j. j \<noteq> i \<Longrightarrow> count_list (card_removing s') j = count_list (card_removing s) j"
      "\<And>j. j \<noteq> i \<Longrightarrow> count_list (card_opening s') j = count_list (card_opening s) j"
      "\<And>j. j \<noteq> i \<Longrightarrow> count_list (card_files s') j = count_list (card_files s) j"
      "px4_cards s' = px4_cards s" "cards_heap s' = (cards_heap s)(i \<mapsto> c')"
    and "pc_refs c' = card_refs s' i + 1"
    and "count_list (card_files s') i = of_bool (pc_opened c')"
    and "count_list (px4_cards s') i + count_list (card_removing s') i = of_bool (\<not> pc_disconnected c')"
    and "pc_powered c' \<longrightarrow> pc_opened c' \<and> \<not> pc_disconnected c'"
  shows "refs_ok (card_put i s')"
proof -
  have h: "cards_heap (card_put i s') =
      (cards_heap s)(i := if pc_refs c' = 1 then None else Some (c'\<lparr>pc_refs := pc_refs c' - 1\<rparr>))"
    using card_put_heap [of s' i c'] lists(5) by auto
  have r: "card_refs (card_put i s') i = card_refs s' i" by (simp add: card_refs_def)
  show ?thesis
    by (rule refs_ok_update [OF assms(1), of i]) (use h r assms in \<open>auto simp: card_ok_def\<close>)
qed

lemma open_enter_refs:
  assumes "refs_ok s" "i \<in> set (card_opening s)" "px4_card_open_enter intr i s = (ret, s')"
  shows "refs_ok s'"
proof -
  obtain c where c: "cards_heap s i = Some c" "card_ok s i c" using refs_ok_used [OF assms(1)] assms(2) by blast
  let ?s1 = "s\<lparr>card_opening := remove1 i (card_opening s)\<rparr>"
  have p: "0 < count_list (card_opening s) i" using assms(2) by (rule count_pos)
  have put: "refs_ok (card_put i ?s1)"
    by (rule refs_ok_put [OF assms(1) c(1), of _ c])
      (use c p in \<open>auto simp: count_remove1 card_ok_def card_refs_def fun_upd_idem\<close>)
  show ?thesis
  proof (cases "intr \<or> pc_disconnected c \<or> pc_opened c")
    case True
    then show ?thesis using put assms(3) c(1) by (auto simp: px4_card_open_enter_def Let_def split: if_splits)
  next
    case False
    then have s': "s' = set_card i (c\<lparr>pc_opened := True\<rparr>) (?s1\<lparr>card_files := i # card_files s\<rparr>)"
      using assms(3) c(1) by (simp add: px4_card_open_enter_def)
    show ?thesis
      by (rule refs_ok_update [OF assms(1), of i])
        (use c p False in \<open>auto simp: s' count_remove1 card_ok_def card_refs_def\<close>)
  qed
qed

lemma open_find_refs:
  assumes "refs_ok s" "px4_card_open_find minor cdev s = (r, s')"
  shows "refs_ok s'"
proof (cases "s' = s")
  case False
  then obtain i c where s': "s' = set_card i (c\<lparr>pc_refs := pc_refs c + 1\<rparr>) (s\<lparr>card_opening := i # card_opening s\<rparr>)"
      and h: "cards_heap s i = Some c"
    using assms(2) by (auto simp: px4_card_open_find_def Let_def split: option.splits)
  show ?thesis using refs_okD [OF assms(1) h]
    by (intro refs_ok_update [OF assms(1), of i]) (auto simp: s' card_ok_def card_refs_def)
qed (use assms(1) in simp)

lemma ident_of_eq:
  "ident_of c' = ident_of c \<Longrightarrow> pc_refs c' = pc_refs c \<and> pc_opened c' = pc_opened c \<and>
     pc_disconnected c' = pc_disconnected c \<and> pc_name c' = pc_name c \<and> pc_minor c' = pc_minor c"
  by (simp add: ident_of_def)

lemma release_refs:
  assumes "refs_ok s" "i \<in> set (card_files s)"
  shows "refs_ok (px4_card_release i s)"
proof -
  obtain c where c: "cards_heap s i = Some c" "card_ok s i c" using refs_ok_used [OF assms(1)] assms(2) by blast
  define c1 where "c1 = (if \<not> pc_disconnected c then px4_card_power_off c else c)"
  have c1: "pc_refs c1 = pc_refs c" "pc_disconnected c1 = pc_disconnected c" "\<not> pc_powered c1"
    using ident_of_eq [OF power_off_ident [of c]] c(2) power_off_powered by (auto simp: c1_def card_ok_def)
  have p: "0 < count_list (card_files s) i" using assms(2) by (rule count_pos)
  have r: "px4_card_release i s =
      card_put i (set_card i (c1\<lparr>pc_opened := False\<rparr>) (s\<lparr>card_files := remove1 i (card_files s)\<rparr>))"
    by (simp add: px4_card_release_def c(1) c1_def)
  show ?thesis unfolding r
    by (rule refs_ok_put [OF assms(1) c(1), of _ "c1\<lparr>pc_opened := False\<rparr>"])
      (use c(2) p c1 in \<open>auto simp: count_remove1 card_ok_def card_refs_def\<close>)
qed

lemma unregister_card_refs:
  assumes "refs_ok s" "i \<in> set (card_removing s)"
  shows "refs_ok (px4_card_unregister_card i s)"
proof -
  obtain c where c: "cards_heap s i = Some c" "card_ok s i c" using refs_ok_used [OF assms(1)] assms(2) by blast
  define c1 where "c1 = (px4_card_power_off c)\<lparr>pc_disconnected := True\<rparr>"
  have c1: "pc_refs c1 = pc_refs c" "pc_opened c1 = pc_opened c" "\<not> pc_powered c1" "pc_disconnected c1"
    using ident_of_eq [OF power_off_ident [of c]] power_off_powered by (auto simp: c1_def)
  have p: "0 < count_list (card_removing s) i" using assms(2) by (rule count_pos)
  have r: "px4_card_unregister_card i s = card_put i (set_card i c1 (s\<lparr>card_removing := remove1 i (card_removing s)\<rparr>))"
    by (simp add: px4_card_unregister_card_def c(1) c1_def)
  show ?thesis unfolding r
    by (rule refs_ok_put [OF assms(1) c(1), of _ c1])
      (use c(2) p c1 in \<open>auto simp: count_remove1 card_ok_def card_refs_def split: if_splits\<close>)
qed

lemma unregister_list_refs:
  assumes "refs_ok s" "i \<in> set (px4_cards s)"
  shows "refs_ok (px4_card_unregister_list i s)"
proof -
  obtain c where c: "cards_heap s i = Some c" "card_ok s i c" using refs_ok_used [OF assms(1)] assms(2) by blast
  have p: "0 < count_list (px4_cards s) i" using assms(2) by (rule count_pos)
  show ?thesis
    by (rule refs_ok_update [OF assms(1), of i])
      (use c p in \<open>auto simp: px4_card_unregister_list_def count_remove1 card_ok_def card_refs_def\<close>)
qed

lemma set_card_refs:
  assumes "refs_ok s" "cards_heap s i = Some c" "ident_of c' = ident_of c"
    and "pc_powered c' \<longrightarrow> pc_opened c \<and> \<not> pc_disconnected c"
  shows "refs_ok (set_card i c' s)"
  using refs_okD [OF assms(1,2)] ident_of_eq [OF assms(3)] assms(4)
  by (intro refs_ok_update [OF assms(1), of i]) (auto simp: card_ok_def card_refs_def)

lemma ioctl_refs:
  assumes "refs_ok s" "i \<in> set (card_files s)" "cards_heap s i = Some c"
    and "px4_card_ioctl command u_value u_frame writable intr intr_backend c = (ret, v, fr, c')"
  shows "refs_ok (set_card i c' s)"
proof (rule set_card_refs [OF assms(1,3) ioctl_ident [OF assms(4)]])
  have ok: "card_ok s i c" by (rule refs_okD [OF assms(1,3)])
  have o: "pc_opened c" using ok count_pos [OF assms(2)] by (auto simp: card_ok_def)
  show "pc_powered c' \<longrightarrow> pc_opened c \<and> \<not> pc_disconnected c"
    using o ioctl_disconnected [OF assms(4)] ok by (auto simp: card_ok_def)
qed

text \<open>Registration.\<close>

definition new_card ::
    "nat \<Rightarrow> nat \<Rightarrow> string \<Rightarrow> ('d, 'c) board \<Rightarrow> (bool \<Rightarrow> ('d, 'c) board call) option \<Rightarrow> ('d, 'c) px4_card" where
  "new_card cdev m nm bd sp = \<lparr>pc_cdev = cdev, pc_minor = m, pc_name = nm, pc_refs = 1, pc_board = bd,
     pc_set_power = sp, pc_opened = False, pc_powered = False, pc_disconnected = False\<rparr>"

lemma add_cases:
  assumes "px4_card_add env i c s = (ret, s')"
  obtains (same) "s' = s" | (new) nm m cdev where "px4_card_set_name env s = Inr nm"
    "m = find_first_zero_bit (px4_card_minors s)" "m < PX4_CARD_MAX_DEVICES"
    "s' = s\<lparr>cards_heap := (cards_heap s)(i \<mapsto> c\<lparr>pc_name := nm, pc_minor := m, pc_cdev := cdev\<rparr>),
            px4_cards := i # px4_cards s, px4_card_minors := (px4_card_minors s)[m := True]\<rparr>"
proof (cases "px4_card_set_name env s")
  case (Inl e)
  then show ?thesis using assms same by (simp add: px4_card_add_def)
next
  case (Inr nm)
  show ?thesis
  proof (cases "s' = s")
    case False
    then have "find_first_zero_bit (px4_card_minors s) < PX4_CARD_MAX_DEVICES" "re_cdev env \<noteq> None"
        "re_cdev_add env = 0" "re_device env = 0"
      using assms Inr by (auto simp: px4_card_add_def Let_def split: if_splits option.splits)
    then obtain cdev where "s' = s\<lparr>cards_heap := (cards_heap s)(i \<mapsto> c\<lparr>pc_name := nm,
          pc_minor := find_first_zero_bit (px4_card_minors s), pc_cdev := cdev\<rparr>), px4_cards := i # px4_cards s,
          px4_card_minors := (px4_card_minors s)[find_first_zero_bit (px4_card_minors s) := True]\<rparr>"
      using assms Inr by (auto simp: px4_card_add_def Let_def)
    then show ?thesis
      by (rule new [OF Inr refl \<open>find_first_zero_bit (px4_card_minors s) < PX4_CARD_MAX_DEVICES\<close>])
  qed (rule same)
qed

lemma register_cases:
  assumes "px4_card_register env bd sp s = (ret, r, s')"
  obtains (same) "s' = s" | (new) i nm m cdev where "re_card env = Some i" "px4_card_set_name env s = Inr nm"
    "m = find_first_zero_bit (px4_card_minors s)" "m < PX4_CARD_MAX_DEVICES"
    "s' = s\<lparr>cards_heap := (cards_heap s)(i \<mapsto> new_card cdev m nm bd sp),
            px4_cards := i # px4_cards s, px4_card_minors := (px4_card_minors s)[m := True]\<rparr>"
proof (cases "px4_card_class s \<and> re_card env \<noteq> None")
  case False
  then show ?thesis using assms same by (auto simp: px4_card_register_def split: if_splits)
next
  case True
  then obtain i where i: "re_card env = Some i" by blast
  obtain ret1 where "px4_card_add env i (new_card 0 0 [] bd sp) s = (ret1, s')"
    using assms True i by (auto simp: px4_card_register_def new_card_def Let_def split: prod.splits if_splits)
  then show ?thesis
    by (cases rule: add_cases) (use new [OF i] same in \<open>auto simp: new_card_def\<close>)
qed

lemma register_refs:
  assumes "refs_ok s" "\<And>i. re_card env = Some i \<Longrightarrow> cards_heap s i = None"
    and "px4_card_register env bd sp s = (ret, r, s')"
  shows "refs_ok s'"
  using assms(3)
proof (cases rule: register_cases)
  case (new i nm m cdev)
  have "card_refs s i = 0" using refs_okN [OF assms(1) assms(2) [OF new(1)]] .
  then show ?thesis
    by (intro refs_ok_update [OF assms(1), of i]) (auto simp: new(5) new_card_def card_ok_def card_refs_def)
qed (use assms(1) in simp)

lemma card_step_refs: "card_step good tuner s s' \<Longrightarrow> refs_ok s \<Longrightarrow> refs_ok s'"
proof (induction rule: card_step.induct)
  case (cs_tuner s i c bd)
  then show ?case using refs_okD [of s i c] by (intro set_card_refs [of s i c]) (auto simp: card_ok_def)
qed (blast intro: register_refs unregister_list_refs unregister_card_refs open_find_refs open_enter_refs
    release_refs ioctl_refs)+

lemma card_run_refs: "(card_step good tuner)\<^sup>*\<^sup>* card_sys_start s \<Longrightarrow> refs_ok s"
proof (induction rule: rtranclp_induct)
  case base
  show ?case by (simp add: refs_ok_def card_sys_start_def card_refs_def)
qed (blast intro: card_step_refs)

section \<open>Names and minor numbers\<close>

definition table_ok :: "('d, 'c) card_sys \<Rightarrow> bool" where
  "table_ok s \<longleftrightarrow> length (px4_card_minors s) = PX4_CARD_MAX_DEVICES \<and>
     distinct (map (card_name s) (px4_cards s)) \<and> distinct (map (card_minor s) (px4_cards s)) \<and>
     (\<forall>m<PX4_CARD_MAX_DEVICES. px4_card_minors s ! m \<longleftrightarrow> m \<in> card_minor s ` set (px4_cards s)) \<and>
     (\<forall>i\<in>set (px4_cards s). card_minor s i < PX4_CARD_MAX_DEVICES)"

lemma table_frame:
  assumes "table_ok s" "px4_cards s' = px4_cards s" "px4_card_minors s' = px4_card_minors s"
    and "\<And>j. j \<in> set (px4_cards s) \<Longrightarrow> card_name s' j = card_name s j \<and> card_minor s' j = card_minor s j"
  shows "table_ok s'"
proof -
  have E: "map (card_name s') (px4_cards s) = map (card_name s) (px4_cards s)"
    "map (card_minor s') (px4_cards s) = map (card_minor s) (px4_cards s)"
    "card_minor s' ` set (px4_cards s) = card_minor s ` set (px4_cards s)"
    using assms(4) by (auto simp: image_iff)
  show ?thesis using assms(1,4) unfolding table_ok_def assms(2,3) E by simp
qed

text \<open>An operation that keeps what identifies the readers that are left keeps the tables.\<close>

lemma table_keep:
  assumes "table_ok s" "refs_ok s'" "px4_cards s' = px4_cards s" "px4_card_minors s' = px4_card_minors s"
    and "\<And>j c'. cards_heap s' j = Some c' \<Longrightarrow>
           \<exists>c. cards_heap s j = Some c \<and> pc_name c' = pc_name c \<and> pc_minor c' = pc_minor c"
  shows "table_ok s'"
proof (rule table_frame [OF assms(1,3,4)])
  fix j assume "j \<in> set (px4_cards s)"
  then obtain c' where "cards_heap s' j = Some c'" using refs_ok_used [OF assms(2), of j] assms(3) by auto
  then show "card_name s' j = card_name s j \<and> card_minor s' j = card_minor s j"
    using assms(5) [of j c'] by (auto simp: card_name_def card_minor_def)
qed

lemma name_loop_fresh: "name_loop ok names base n = Inr nm \<Longrightarrow> nm \<notin> set names"
proof (induction ok names base n rule: name_loop.induct)
  case (1 ok names base n)
  then show ?case by (subst (asm) (2) name_loop.simps) (auto split: if_splits)
qed

lemma set_name_fresh: "px4_card_set_name env s = Inr nm \<Longrightarrow> nm \<notin> card_name s ` set (px4_cards s)"
  using name_loop_fresh [of _ "map (card_name s) (px4_cards s)"]
  by (fastforce simp: px4_card_set_name_def Let_def split: sum.splits if_splits)

lemma find_first_zero_bit_free: "find_first_zero_bit bits < length bits \<Longrightarrow> \<not> bits ! find_first_zero_bit bits"
  unfolding find_first_zero_bit_def by (rule nth_length_takeWhile)

lemma register_table:
  assumes "table_ok s" "refs_ok s" "\<And>i. re_card env = Some i \<Longrightarrow> cards_heap s i = None"
    and "px4_card_register env bd sp s = (ret, r, s')"
  shows "table_ok s'"
  using assms(4)
proof (cases rule: register_cases)
  case (new i nm m cdev)
  have i: "i \<notin> set (px4_cards s)"
    using refs_ok_used [OF assms(2), of i] assms(3) [OF new(1)] by auto
  have N: "card_name s' = (card_name s)(i := nm)" "card_minor s' = (card_minor s)(i := m)"
    by (auto simp: new(5) card_name_def card_minor_def new_card_def)
  have m: "m < length (px4_card_minors s)" using assms(1) new(4) by (simp add: table_ok_def)
  then have "\<not> px4_card_minors s ! m" using find_first_zero_bit_free new(3) by blast
  then have f: "m \<notin> card_minor s ` set (px4_cards s)" using assms(1) new(4) by (simp add: table_ok_def)
  have "map (card_name s') (px4_cards s) = map (card_name s) (px4_cards s)"
    "map (card_minor s') (px4_cards s) = map (card_minor s) (px4_cards s)"
    "card_minor s' ` set (px4_cards s) = card_minor s ` set (px4_cards s)"
    using i by (auto simp: N image_iff)
  then show ?thesis
    using assms(1) f set_name_fresh [OF new(2)] i N m new(4)
    by (auto simp: table_ok_def new(5) nth_list_update)
qed (use assms(1) in simp)

lemma distinct_map_remove1: "distinct (map f xs) \<Longrightarrow> distinct (map f (remove1 i xs))"
  by (auto simp: distinct_map intro: inj_on_subset dest: notin_set_remove1)

lemma unregister_list_table:
  assumes "table_ok s" "i \<in> set (px4_cards s)"
  shows "table_ok (px4_card_unregister_list i s)"
proof -
  let ?s = "px4_card_unregister_list i s"
  have N: "card_name ?s = card_name s" "card_minor ?s = card_minor s"
    by (auto simp: px4_card_unregister_list_def card_name_def card_minor_def)
  have D: "distinct (px4_cards s)" using assms(1) by (auto simp: table_ok_def distinct_map)
  have inj: "inj_on (card_minor s) (set (px4_cards s))" using assms(1) by (auto simp: table_ok_def distinct_map)
  have cards: "px4_cards ?s = remove1 i (px4_cards s)"
    "px4_card_minors ?s = (px4_card_minors s)[card_minor s i := False]" by (simp_all add: px4_card_unregister_list_def)
  have img: "card_minor s ` set (remove1 i (px4_cards s)) = card_minor s ` set (px4_cards s) - {card_minor s i}"
    using D inj assms(2) by (auto simp: inj_on_def)
  have m: "card_minor s i < length (px4_card_minors s)" using assms by (simp add: table_ok_def)
  have "px4_card_minors ?s ! k \<longleftrightarrow> k \<in> card_minor s ` set (remove1 i (px4_cards s))" if "k < PX4_CARD_MAX_DEVICES" for k
    unfolding img cards(2) using assms(1) that m by (auto simp: table_ok_def nth_list_update)
  then show ?thesis using assms(1) D
    unfolding table_ok_def N cards by (auto intro: distinct_map_remove1)
qed

lemma card_step_table:
  assumes "card_step good tuner s s'" "table_ok s" "refs_ok s"
  shows "table_ok s'"
  using assms(1)
proof cases
  case (cs_register env bd sp ret r)
  then show ?thesis using register_table assms by blast
next
  case (cs_unregister_list i)
  then show ?thesis using unregister_list_table assms by blast
next
  case (cs_unregister_card i)
  then obtain c where c: "cards_heap s i = Some c" using refs_ok_used [OF assms(3), of i] by auto
  show ?thesis
    by (rule table_keep [OF assms(2) card_step_refs [OF assms(1,3)]])
      (use c cs_unregister_card ident_of_eq [OF power_off_ident [of c]] in
        \<open>auto simp: px4_card_unregister_card_def card_put_def split: if_splits\<close>)
next
  case (cs_open_find minor cdev r)
  then show ?thesis
    by (intro table_keep [OF assms(2) card_step_refs [OF assms(1,3)]])
      (auto simp: px4_card_open_find_def Let_def split: option.splits if_splits)
next
  case (cs_open_enter i intr ret)
  then show ?thesis
    by (intro table_keep [OF assms(2) card_step_refs [OF assms(1,3)]])
      (auto simp: px4_card_open_enter_def card_put_def Let_def split: option.splits if_splits)
next
  case (cs_release i)
  then obtain c where c: "cards_heap s i = Some c" using refs_ok_used [OF assms(3), of i] by auto
  show ?thesis
    by (rule table_keep [OF assms(2) card_step_refs [OF assms(1,3)]])
      (use c cs_release ident_of_eq [OF power_off_ident [of c]] in
        \<open>auto simp: px4_card_release_def card_put_def Let_def split: if_splits\<close>)
next
  case (cs_ioctl i c command u_value u_frame writable intr intr_backend ret v fr c')
  then show ?thesis using ident_of_eq [OF ioctl_ident [OF cs_ioctl(4)]]
    by (intro table_keep [OF assms(2) card_step_refs [OF assms(1,3)]]) (auto split: if_splits)
next
  case (cs_tuner i c bd)
  then show ?thesis
    by (intro table_keep [OF assms(2) card_step_refs [OF assms(1,3)]]) (auto split: if_splits)
qed

lemma card_run_table: "(card_step good tuner)\<^sup>*\<^sup>* card_sys_start s \<Longrightarrow> table_ok s"
proof (induction rule: rtranclp_induct)
  case base
  show ?case by (simp add: table_ok_def card_sys_start_def)
next
  case (step s s')
  then show ?case using card_step_table card_run_refs by blast
qed

text \<open>A board, and the kernel's answers when it is plugged in; it has no serial number.\<close>

definition demo_board :: "((u32 \<Rightarrow> u8) \<times> u8 list, px4_power) board" where
  "demo_board = \<lparr>bd_it930x = demo_bridge, bd_available = True,
     bd_context = \<lparr>pw_open_count = 0, pw_card_powered = False, pw_mldev = None, pw_ref = demo_px,
                   pw_switch = (\<lambda>_ _ _. 0)\<rparr>\<rparr>"

definition demo_reg :: reg_env where
  "demo_reg = \<lparr>re_card = Some 7, re_usb = \<lparr>id_vendor = 0x0511, id_product = 0x083f, usb_serial = None, usb_dev_name = ''1-2''\<rparr>,
     re_path_ok = True, re_id_ok = True, re_base_ok = True, re_name_ok = (\<lambda>_. True), re_cdev = Some 3,
     re_cdev_add = 0, re_device = 0\<rparr>"

definition demo_registered :: "((u32 \<Rightarrow> u8) \<times> u8 list, px4_power) card_sys" where
  "demo_registered = card_sys_start\<lparr>cards_heap := [7 \<mapsto> new_card 3 0 ''usb-1-2'' demo_board (Some px4_device_set_card_power)],
     px4_cards := [7], px4_card_minors := (replicate PX4_CARD_MAX_DEVICES False)[0 := True]\<rparr>"

lemma demo_set_name: "px4_card_set_name demo_reg card_sys_start = Inr ''usb-1-2''"
  by (simp add: px4_card_set_name_def px4_card_reader_id_def serial_ok_def demo_reg_def card_sys_start_def
      name_loop.simps suffixed_def)

lemma demo_first_minor: "find_first_zero_bit (replicate PX4_CARD_MAX_DEVICES False) = 0"
  by (simp add: find_first_zero_bit_def takeWhile_replicate)

lemma card_sys_start_fields:
  "px4_card_class card_sys_start" "px4_card_minors card_sys_start = replicate PX4_CARD_MAX_DEVICES False"
  "px4_cards card_sys_start = []" "cards_heap card_sys_start = Map.empty"
  by (simp_all add: card_sys_start_def)

lemma demo_register:
  "px4_card_register demo_reg demo_board (Some px4_device_set_card_power) card_sys_start = (0, Some 7, demo_registered)"
proof -
  have e: "re_card demo_reg = Some 7" "re_cdev demo_reg = Some 3" "re_cdev_add demo_reg = 0" "re_device demo_reg = 0"
    by (simp_all add: demo_reg_def)
  show ?thesis
    by (simp add: px4_card_register_def px4_card_add_def demo_registered_def new_card_def e card_sys_start_fields
        demo_set_name demo_first_minor)
qed

lemma demo_registered_step:
  "good demo_board (Some px4_device_set_card_power) \<Longrightarrow> (card_step good tuner)\<^sup>*\<^sup>* card_sys_start demo_registered"
  by (rule r_into_rtranclp, rule cs_register [OF _ _ demo_register]) (simp_all add: card_sys_start_def)

text \<open>C26: the table of card readers is consistent through any interleaving of plugging, unplugging, open,
  close and ioctl, with calls of open and unregister caught between their two mutexes: registered
  readers have different names and different minor numbers, a minor number is marked used exactly
  while a registered reader has it, the reference count of a reader is the number of its holders (its
  registration or an unregistration in progress, calls of open in progress, open files), a reader
  without a holder is gone from memory, and a reader has one open file exactly while it is marked
  open and none otherwise.\<close>

theorem px4_card_registry_exact:
  assumes "(card_step good tuner)\<^sup>*\<^sup>* card_sys_start s"
  shows "distinct (map (card_name s) (px4_cards s)) \<and> distinct (map (card_minor s) (px4_cards s)) \<and>
         (\<forall>m<1024. px4_card_minors s ! m \<longleftrightarrow> (\<exists>i\<in>set (px4_cards s). card_minor s i = m)) \<and>
         (\<forall>i. case cards_heap s i of
            None \<Rightarrow> i \<notin> set (px4_cards s @ card_removing s @ card_opening s @ card_files s)
          | Some c \<Rightarrow> pc_refs c = count_list (px4_cards s @ card_removing s @ card_opening s @ card_files s) i \<and>
                      0 < pc_refs c \<and> count_list (card_files s) i = (if pc_opened c then 1 else 0))"
proof -
  have t: "table_ok s" and r: "refs_ok s" using card_run_table [OF assms] card_run_refs [OF assms] .
  have "case cards_heap s i of
            None \<Rightarrow> i \<notin> set (px4_cards s @ card_removing s @ card_opening s @ card_files s)
          | Some c \<Rightarrow> pc_refs c = count_list (px4_cards s @ card_removing s @ card_opening s @ card_files s) i \<and>
                      0 < pc_refs c \<and> count_list (card_files s) i = (if pc_opened c then 1 else 0)" for i
    using refs_okN [OF r, of i] refs_okD [OF r, of i]
    by (cases "cards_heap s i") (auto simp: card_refs_def card_ok_def count_list_0_iff)
  then show ?thesis using t by (auto simp: table_ok_def)
qed

theorem px4_card_registry_exact_witness:
  "pc_refs (the (cards_heap demo_registered 7)) = 1 \<and> px4_card_minors demo_registered ! 0"
proof -
  have r: "(card_step (\<lambda>_ _. True) (\<lambda>_ _. True))\<^sup>*\<^sup>* card_sys_start demo_registered"
    by (rule demo_registered_step) simp
  note P = px4_card_registry_exact [OF r]
  have m: "card_minor demo_registered 7 = 0" by (simp add: card_minor_def demo_registered_def new_card_def)
  have "px4_card_minors demo_registered ! 0 \<longleftrightarrow> (\<exists>i\<in>set (px4_cards demo_registered). card_minor demo_registered i = 0)"
    using P by simp
  moreover have "case cards_heap demo_registered 7 of None \<Rightarrow> False | Some c \<Rightarrow> pc_refs c = 1"
    using conjunct2 [OF conjunct2 [OF conjunct2 [OF P]], rule_format, of 7]
    by (simp add: demo_registered_def card_sys_start_def)
  ultimately show ?thesis using m by (simp add: demo_registered_def card_sys_start_def)
qed

section \<open>Power\<close>

context card_power
begin

lemma agrees_put:
  assumes "\<forall>j c. cards_heap s j = Some c \<longrightarrow> agrees c" "cards_heap (card_put i s) j = Some c"
  shows "agrees c"
  using assms by (auto simp: card_put_def split: option.splits if_splits)

lemma agrees_set:
  assumes "\<forall>j c. cards_heap s j = Some c \<longrightarrow> agrees c" "agrees c'"
  shows "\<forall>j c. cards_heap (set_card i c' s) j = Some c \<longrightarrow> agrees c"
  using assms by simp

lemma step_agrees:
  assumes "card_step good tuner s s'" "\<forall>j c. cards_heap s j = Some c \<longrightarrow> agrees c"
    and good: "\<And>bd f. good bd f \<Longrightarrow> f = Some sp \<Longrightarrow> \<not> holds (bd_context bd)"
    and tuner: "\<And>bd bd'. tuner bd bd' \<Longrightarrow> holds (bd_context bd') = holds (bd_context bd)"
  shows "\<forall>j c. cards_heap s' j = Some c \<longrightarrow> agrees c"
  using assms(1)
proof cases
  case (cs_register env bd f ret r)
  from cs_register(3) show ?thesis
    by (cases rule: register_cases)
      (use assms(2) good [OF cs_register(2)] in \<open>auto simp: agrees_def new_card_def split: if_splits\<close>)
next
  case (cs_unregister_list i)
  then show ?thesis using assms(2) by (simp add: px4_card_unregister_list_def)
next
  case (cs_unregister_card i)
  then show ?thesis using assms(2) power_off_agrees agrees_put
    by (auto simp: px4_card_unregister_card_def card_put_def split: option.splits if_splits)
next
  case (cs_open_find minor cdev r)
  then show ?thesis using assms(2)
    by (auto simp: px4_card_open_find_def Let_def split: option.splits if_splits)
next
  case (cs_open_enter i intr ret)
  then show ?thesis using assms(2)
    by (auto simp: px4_card_open_enter_def card_put_def Let_def split: option.splits if_splits)
next
  case (cs_release i)
  then show ?thesis using assms(2) power_off_agrees
    by (auto simp: px4_card_release_def card_put_def Let_def split: option.splits if_splits)
next
  case (cs_ioctl i c command u_value u_frame writable intr intr_backend ret v fr c')
  then show ?thesis using assms(2) ioctl_agrees [OF cs_ioctl(4)] by simp
next
  case (cs_tuner i c bd)
  then show ?thesis using assms(2) tuner [of "pc_board c" bd] by (auto simp: agrees_def)
qed

lemma run_agrees:
  assumes "(card_step good tuner)\<^sup>*\<^sup>* card_sys_start s"
    and "\<And>bd f. good bd f \<Longrightarrow> f = Some sp \<Longrightarrow> \<not> holds (bd_context bd)"
    and "\<And>bd bd'. tuner bd bd' \<Longrightarrow> holds (bd_context bd') = holds (bd_context bd)"
  shows "\<forall>j c. cards_heap s j = Some c \<longrightarrow> agrees c"
  using assms(1)
proof (induction rule: rtranclp_induct)
  case base
  show ?case by (simp add: card_sys_start_def)
next
  case (step s s')
  then show ?case using step_agrees [OF step(2)] assms(2,3) by blast
qed

end

lemma px4_backend_set_power_context: "bd_context (snd (px4_backend_set_power on bd)) = bd_context bd"
  by (auto simp: px4_backend_set_power_def on_bridge_def case_prod_beta Let_def)

interpretation px4_card_power: card_power pw_card_powered px4_device_set_card_power
proof unfold_locales
  fix bd bd' :: "('a, px4_power) board" and ret
  show "pw_card_powered (bd_context bd')" if "px4_device_set_card_power True bd = (0, bd')"
    using that by (auto simp: px4_device_set_card_power_def Let_def split: prod.splits)
  show "\<not> pw_card_powered (bd_context bd')"
    if "px4_device_set_card_power True bd = (ret, bd')" "ret \<noteq> 0" "\<not> pw_card_powered (bd_context bd)"
    using that px4_backend_set_power_context [of True bd]
    by (auto simp: px4_device_set_card_power_def Let_def split: prod.splits option.splits if_splits)
  show "\<not> pw_card_powered (bd_context (snd (px4_device_set_card_power False bd)))"
    by (simp add: px4_device_set_card_power_def case_prod_beta Let_def)
qed

text \<open>C27: on the px4 boards the card reader and the tuner side never disagree about the power. Through
  any life of the readers, whatever the bridge answers and whatever the tuner side does with the
  rest of the board, a reader is powered exactly when the board's driver counts the card as a user of the
  power, and this is only so while the reader is open and connected: after close or unplugging the
  power is released.\<close>

theorem px4_card_power_agrees:
  assumes "(card_step (\<lambda>bd sp. sp = Some px4_device_set_card_power \<and> \<not> pw_card_powered (bd_context bd))
             (\<lambda>bd bd'. pw_card_powered (bd_context bd') = pw_card_powered (bd_context bd)))\<^sup>*\<^sup>* card_sys_start s"
    and "cards_heap s i = Some c" and "pc_set_power c = Some px4_device_set_card_power"
  shows "(pc_powered c \<longleftrightarrow> pw_card_powered (bd_context (pc_board c))) \<and>
         (pc_powered c \<longrightarrow> pc_opened c \<and> \<not> pc_disconnected c)"
proof -
  have "px4_card_power.agrees c"
    using px4_card_power.run_agrees [OF assms(1)] assms(2) by blast
  moreover have "card_ok s i c" using refs_okD [OF card_run_refs [OF assms(1)] assms(2)] .
  ultimately show ?thesis using assms(3) by (simp add: px4_card_power.agrees_def card_ok_def)
qed

theorem px4_card_power_agrees_witness:
  "pc_powered (the (cards_heap demo_registered 7)) = pw_card_powered (bd_context demo_board)"
proof -
  let ?c = "new_card 3 0 ''usb-1-2'' demo_board (Some px4_device_set_card_power)"
  have h: "cards_heap demo_registered 7 = Some ?c" by (simp add: demo_registered_def)
  have r: "(card_step (\<lambda>bd sp. sp = Some px4_device_set_card_power \<and> \<not> pw_card_powered (bd_context bd))
             (\<lambda>bd bd'. pw_card_powered (bd_context bd') = pw_card_powered (bd_context bd)))\<^sup>*\<^sup>*
             card_sys_start demo_registered"
    by (rule demo_registered_step) (simp add: demo_board_def)
  show ?thesis using px4_card_power_agrees [OF r h] h by (simp add: new_card_def)
qed

end
