(* ===== verification/Px4_Device.thy ===== *)
theory Px4_Device
  imports Px4_Card Tc90522 Rt710 R850 Device_Stream
begin

text \<open>
  Model of driver/px4\_device.c: a board with two satellite and two terrestrial receivers behind one bridge.
  The state of the bus under every chip is the bridge itself, so that a call of a chip driver takes the
  bridge, works on it and puts it back (\<open>on_r850\<close>, \<open>on_rt710\<close>, \<open>on_demod\<close>). The power part of the
  device, which the card reader shares, is the board of \<open>Px4_Card\<close>. What the code asks of its
  surroundings is the record \<open>px4_env\<close>: the module parameters, whether memory can be had, and the two
  functions of the bus layer that start and stop the USB transfers.
\<close>

section \<open>Data\<close>

abbreviation (input) PX4_CHRDEV_NUM :: nat where "PX4_CHRDEV_NUM \<equiv> 4"

text \<open>The union of the two tuners is two fields; the code uses the one that belongs to \<open>c4_system_cap\<close>.
  That and \<open>c4_open\<close> are fields of the receiver's \<^verbatim>\<open>ptx_chrdev\<close>.\<close>

record 'd px4_chrdev =
  c4_system_cap :: u32
  c4_open :: bool
  c4_lnb_power :: bool
  c4_tc90522 :: "'d it930x_bridge tc90522_demod"
  c4_r850 :: "'d it930x_bridge r850_tuner"
  c4_rt710 :: "'d it930x_bridge rt710_tuner"

record 'd px4_device =
  px_board :: "('d, px4_power) board"
  px_kref :: nat
  px_lnb_power_count :: u32
  px_streaming_count :: u32
  px_chrdev4 :: "'d px4_chrdev list"
  px_remain_len :: nat

record 'd px4_env =
  pe_s_tuner_no_sleep :: bool
  pe_psb_purge_timeout :: int
  pe_kmalloc :: bool
  pe_start_streaming :: "'d it930x_bridge call"
  pe_stop_streaming :: "'d it930x_bridge call"
  pe_uninit_tsid :: u16

section \<open>Calls of the parts\<close>

definition on_board :: "('d, px4_power) board call \<Rightarrow> 'd px4_device call" where
  "on_board f px = (let (ret, bd) = f (px_board px) in (ret, px\<lparr>px_board := bd\<rparr>))"

abbreviation (input) px_bridge :: "'d px4_device \<Rightarrow> 'd it930x_bridge" where
  "px_bridge px \<equiv> bd_it930x (px_board px)"

abbreviation (input) px_power :: "'d px4_device \<Rightarrow> px4_power" where
  "px_power px \<equiv> bd_context (px_board px)"

definition set_bridge :: "'d it930x_bridge \<Rightarrow> 'd px4_device \<Rightarrow> 'd px4_device" where
  "set_bridge b px = px\<lparr>px_board := (px_board px)\<lparr>bd_it930x := b\<rparr>\<rparr>"

definition set_px_power :: "(px4_power \<Rightarrow> px4_power) \<Rightarrow> 'd px4_device \<Rightarrow> 'd px4_device" where
  "set_px_power f px = px\<lparr>px_board := (px_board px)\<lparr>bd_context := f (px_power px)\<rparr>\<rparr>"

definition set_c4 :: "nat \<Rightarrow> ('d px4_chrdev \<Rightarrow> 'd px4_chrdev) \<Rightarrow> 'd px4_device \<Rightarrow> 'd px4_device" where
  "set_c4 i f px = px\<lparr>px_chrdev4 := (px_chrdev4 px)[i := f (px_chrdev4 px ! i)]\<rparr>"

definition on_bus :: "'d it930x_bridge call \<Rightarrow> 'd px4_device call" where
  "on_bus f px = (let (ret, b) = f (px_bridge px) in (ret, set_bridge b px))"

definition on_bus_read :: "('d it930x_bridge \<Rightarrow> int \<times> 'a \<times> 'd it930x_bridge) \<Rightarrow> 'd px4_device \<Rightarrow> int \<times> 'a \<times> 'd px4_device" where
  "on_bus_read f px = (let (ret, v, b) = f (px_bridge px) in (ret, v, set_bridge b px))"

abbreviation (input) demod_of :: "nat \<Rightarrow> 'd px4_device \<Rightarrow> 'd it930x_bridge tc90522_demod" where
  "demod_of i px \<equiv> c4_tc90522 (px_chrdev4 px ! i)"

definition on_demod :: "nat \<Rightarrow> ('d it930x_bridge tc90522_demod \<Rightarrow> 'd it930x_bridge call) \<Rightarrow> 'd px4_device call" where
  "on_demod i f px = on_bus (f (demod_of i px)) px"

definition on_demod_read ::
    "nat \<Rightarrow> ('d it930x_bridge tc90522_demod \<Rightarrow> 'd it930x_bridge \<Rightarrow> int \<times> 'a \<times> 'd it930x_bridge) \<Rightarrow>
      'd px4_device \<Rightarrow> int \<times> 'a \<times> 'd px4_device" where
  "on_demod_read i f px = on_bus_read (f (demod_of i px)) px"

definition on_r850 :: "nat \<Rightarrow> 'd it930x_bridge r850_tuner call \<Rightarrow> 'd px4_device call" where
  "on_r850 i f px =
     (let (ret, t) = f ((c4_r850 (px_chrdev4 px ! i))\<lparr>r8_s := px_bridge px\<rparr>)
      in (ret, set_bridge (r8_s t) (set_c4 i (\<lambda>c. c\<lparr>c4_r850 := t\<rparr>) px)))"

definition on_r850_read ::
    "nat \<Rightarrow> ('d it930x_bridge r850_tuner \<Rightarrow> int \<times> 'a \<times> 'd it930x_bridge r850_tuner) \<Rightarrow>
      'd px4_device \<Rightarrow> int \<times> 'a \<times> 'd px4_device" where
  "on_r850_read i f px =
     (let (ret, v, t) = f ((c4_r850 (px_chrdev4 px ! i))\<lparr>r8_s := px_bridge px\<rparr>)
      in (ret, v, set_bridge (r8_s t) (set_c4 i (\<lambda>c. c\<lparr>c4_r850 := t\<rparr>) px)))"

definition on_rt710 :: "nat \<Rightarrow> 'd it930x_bridge rt710_tuner call \<Rightarrow> 'd px4_device call" where
  "on_rt710 i f px =
     (let (ret, t) = f ((c4_rt710 (px_chrdev4 px ! i))\<lparr>rt_s := px_bridge px\<rparr>)
      in (ret, set_bridge (rt_s t) (set_c4 i (\<lambda>c. c\<lparr>c4_rt710 := t\<rparr>) px)))"

definition on_rt710_read ::
    "nat \<Rightarrow> ('d it930x_bridge rt710_tuner \<Rightarrow> int \<times> 'a \<times> 'd it930x_bridge rt710_tuner) \<Rightarrow>
      'd px4_device \<Rightarrow> int \<times> 'a \<times> 'd px4_device" where
  "on_rt710_read i f px =
     (let (ret, v, t) = f ((c4_rt710 (px_chrdev4 px ! i))\<lparr>rt_s := px_bridge px\<rparr>)
      in (ret, v, set_bridge (rt_s t) (set_c4 i (\<lambda>c. c\<lparr>c4_rt710 := t\<rparr>) px)))"

text \<open>A call whose result is not looked at.\<close>

definition ignoring :: "'s call \<Rightarrow> 's call" where
  "ignoring f s = (0, snd (f s))"

section \<open>The tuners of the board\<close>

abbreviation (input) cap_of :: "nat \<Rightarrow> 'd px4_device \<Rightarrow> u32" where
  "cap_of i px \<equiv> c4_system_cap (px_chrdev4 px ! i)"

text \<open>\<^verbatim>\<open>tc90522_init\<close> fills in the master the tuner uses and returns 0.\<close>

definition tuner_init :: "nat \<Rightarrow> 'd px4_device call" where
  "tuner_init i px =
     (if cap_of i px = PTX_ISDB_T_SYSTEM then on_r850 i r850_init px
      else if cap_of i px = PTX_ISDB_S_SYSTEM then on_rt710 i rt710_init px
      else (0, px))"

definition px4_backend_init :: "'d px4_device call" where
  "px4_backend_init = run_each tuner_init [0..<PX4_CHRDEV_NUM]"

definition tuner_term :: "nat \<Rightarrow> 'd px4_device call" where
  "tuner_term i px =
     (if cap_of i px = PTX_ISDB_T_SYSTEM then ignoring (on_r850 i r850_term) px
      else if cap_of i px = PTX_ISDB_S_SYSTEM then ignoring (on_rt710 i rt710_term) px
      else (0, px))"

definition px4_backend_term :: "'d px4_device call" where
  "px4_backend_term = run_each tuner_term [0..<PX4_CHRDEV_NUM]"

definition tc_init_s :: "tc90522_regbuf list" where
  "tc_init_s = [Val 0x15 0x00, Val 0x1d 0x00, Val 0x04 0x02]"

definition tc_init_t :: "tc90522_regbuf list" where
  "tc_init_t = [Val 0xb0 0xa0, Val 0xb2 0x3d, Val 0xb3 0x25, Val 0xb4 0x8b, Val 0xb5 0x4b, Val 0xb6 0x3f, Val 0xb7 0xff,
     Val 0xb8 0xc0, Val 0x1f 0x00, Val 0x75 0x00]"

definition tc_init_s0 :: "tc90522_regbuf list" where
  "tc_init_s0 = [Val 0x07 0x31, Val 0x08 0x77]"

definition tc_init_t0 :: "tc90522_regbuf list" where
  "tc_init_t0 = [Val 0x0e 0x77, Val 0x0f 0x13]"

definition px4_chrdev_init :: "'w ptx_chrdev \<Rightarrow> int \<times> 'w ptx_chrdev" where
  "px4_chrdev_init c = (0, c\<lparr>params := (params c)\<lparr>tp_system := system_cap c\<rparr>\<rparr>)"

section \<open>Open and release\<close>

text \<open>The first part of the function: the power, and whether the tuners have to be initialised.\<close>

definition open_power :: "nat \<Rightarrow> 'd px4_device \<Rightarrow> int \<times> bool \<times> 'd px4_device" where
  "open_power i px =
     (let pw = px_power px in
      case pw_mldev pw of
        Some m \<Rightarrow>
          let (ret, need_init, m1) = px4_mldev_set_power (pw_switch pw) m (pw_ref pw) i True
          in (ret, need_init, set_px_power (\<lambda>p. p\<lparr>pw_mldev := Some m1\<rparr>) px)
      | None \<Rightarrow>
          if pw_open_count pw \<noteq> 0 then (0, False, px)
          else if pw_card_powered pw then (0, True, px)
          else let (ret, px1) = on_board (px4_backend_set_power True) px in (ret, ret = 0, px1))"

text \<open>Putting one receiver to sleep: its tuner and its demodulator.\<close>

definition receiver_sleep :: "'d px4_env \<Rightarrow> nat \<Rightarrow> 'd px4_device call" where
  "receiver_sleep env i px =
     (if cap_of i px = PTX_ISDB_T_SYSTEM then
        run_all [on_r850 i r850_sleep, on_demod i (\<lambda>dm. tc90522_sleep_t dm True)] px
      else if cap_of i px = PTX_ISDB_S_SYSTEM then
        run_all ((if pe_s_tuner_no_sleep env then [] else [on_rt710 i rt710_sleep]) @
          [on_demod i (\<lambda>dm. tc90522_sleep_s dm True)]) px
      else (0, px))"

definition sleep_others :: "'d px4_env \<Rightarrow> nat \<Rightarrow> 'd px4_device call" where
  "sleep_others env i =
     run_each (\<lambda>j px. if j = i \<or> c4_open (px_chrdev4 px ! j) then (0, px) else receiver_sleep env j px) [0..<PX4_CHRDEV_NUM]"

definition isdbt_6m :: r850_system_config where
  "isdbt_6m = \<lparr>sys_system = R850_SYSTEM_ISDB_T, sys_bandwidth = R850_BANDWIDTH_6M, sys_if_freq = 4063\<rparr>"

definition wake_up_receiver :: "nat \<Rightarrow> 'd px4_device call" where
  "wake_up_receiver i px =
     (if cap_of i px = PTX_ISDB_T_SYSTEM then run_all
        [on_demod i (\<lambda>dm. tc90522_write_multiple_regs dm tc_init_t), on_demod i (\<lambda>dm. tc90522_enable_ts_pins_t dm False),
         on_demod i (\<lambda>dm. tc90522_sleep_t dm False), on_r850 i r850_wakeup, on_r850 i (r850_set_system isdbt_6m)] px
      else if cap_of i px = PTX_ISDB_S_SYSTEM then run_all
        [on_demod i (\<lambda>dm. tc90522_write_multiple_regs dm tc_init_s), on_demod i (\<lambda>dm. tc90522_enable_ts_pins_s dm False),
         on_demod i (\<lambda>dm. tc90522_sleep_s dm False)] px
      else (0, px))"

definition first_open_regs :: "'d px4_device call" where
  "first_open_regs px =
     (if pw_open_count (px_power px) = 0 then
        run_all [on_demod 0 (\<lambda>dm. tc90522_write_multiple_regs dm tc_init_s0),
          on_demod 2 (\<lambda>dm. tc90522_write_multiple_regs dm tc_init_t0)] px
      else (0, px))"

text \<open>The labels \<^verbatim>\<open>fail_backend\<close> and \<^verbatim>\<open>fail_backend_init\<close>.\<close>

definition open_fail_backend_init :: "nat \<Rightarrow> 'd px4_device \<Rightarrow> 'd px4_device" where
  "open_fail_backend_init i px =
     (let pw = px_power px in
      case pw_mldev pw of
        Some m \<Rightarrow>
          let (_, _, m1) = px4_mldev_set_power (pw_switch pw) m (pw_ref pw) i False
          in set_px_power (\<lambda>p. p\<lparr>pw_mldev := Some m1\<rparr>) px
      | None \<Rightarrow>
          if pw_open_count pw = 0 \<and> \<not> pw_card_powered pw then snd (on_board (px4_backend_set_power False) px) else px)"

definition open_fail_backend :: "nat \<Rightarrow> 'd px4_device \<Rightarrow> 'd px4_device" where
  "open_fail_backend i px =
     open_fail_backend_init i (if pw_open_count (px_power px) = 0 then snd (px4_backend_term px) else px)"

definition px4_chrdev_open :: "'d px4_env \<Rightarrow> nat \<Rightarrow> 'd px4_device call" where
  "px4_chrdev_open env i px =
     (let (ret, need_init, px1) = open_power i px in
      if ret \<noteq> 0 then (ret, px1)
      else
        let (ret, px2) = (if need_init then px4_backend_init px1 else (0, px1)) in
        if ret \<noteq> 0 then (ret, open_fail_backend_init i px2)
        else
          let (ret, px3) = run_all ((if need_init then [sleep_others env i] else []) @
                [wake_up_receiver i, first_open_regs]) px2 in
          if ret \<noteq> 0 then (ret, open_fail_backend i px3)
          else (0, (set_px_power (\<lambda>p. p\<lparr>pw_open_count := pw_open_count p + 1\<rparr>) px3)\<lparr>px_kref := px_kref px3 + 1\<rparr>))"

definition px4_chrdev_set_lnb_voltage_s :: "nat \<Rightarrow> int \<Rightarrow> 'd px4_device call" where
  "px4_chrdev_set_lnb_voltage_s i voltage px =
     (let on = (voltage \<noteq> 0) in
      if voltage \<noteq> 0 \<and> voltage \<noteq> 15 then (- EINVAL, px)
      else if c4_lnb_power (px_chrdev4 px ! i) = on then (0, px)
      else if \<not> on \<and> \<not> bd_available (px_board px) then (0, px)
      else
        let px1 = (if \<not> on then px\<lparr>px_lnb_power_count := px_lnb_power_count px - 1\<rparr> else px);
            (ret, px2) = (if px_lnb_power_count px1 = 0 then on_bus (it930x_write_gpio 11 on) px1 else (0, px1)) in
        if ret \<noteq> 0 \<and> on then (ret, px2)
        else
          (ret, set_c4 i (\<lambda>c. c\<lparr>c4_lnb_power := on\<rparr>)
             (if on then px2\<lparr>px_lnb_power_count := px_lnb_power_count px2 + 1\<rparr> else px2)))"

text \<open>\<^verbatim>\<open>px4_device_release\<close>, called with the last reference: the manager forgets the device, the rest is memory.\<close>

definition px4_device_release :: "'d px4_device \<Rightarrow> 'd px4_device" where
  "px4_device_release px =
     (let pw = px_power px in
      case pw_mldev pw of
        None \<Rightarrow> px
      | Some m \<Rightarrow> set_px_power (\<lambda>p. p\<lparr>pw_mldev := Some (snd (px4_mldev_remove (pw_switch pw) m (pw_ref pw)))\<rparr>) px)"

definition px4_kref_put :: "'d px4_device \<Rightarrow> 'd px4_device" where
  "px4_kref_put px =
     (let px1 = px\<lparr>px_kref := px_kref px - 1\<rparr> in if px_kref px1 = 0 then px4_device_release px1 else px1)"

definition release_sleep :: "'d px4_env \<Rightarrow> nat \<Rightarrow> 'd px4_device call" where
  "release_sleep env i px =
     (if cap_of i px = PTX_ISDB_T_SYSTEM then
        run_all [ignoring (on_r850 i r850_sleep), ignoring (on_demod i (\<lambda>dm. tc90522_sleep_t dm True))] px
      else if cap_of i px = PTX_ISDB_S_SYSTEM then
        run_all ((if pe_s_tuner_no_sleep env then [] else [ignoring (on_rt710 i rt710_sleep)]) @
          [ignoring (on_demod i (\<lambda>dm. tc90522_sleep_s dm True))]) px
      else (0, px))"

definition px4_chrdev_release :: "'d px4_env \<Rightarrow> nat \<Rightarrow> 'd px4_device call" where
  "px4_chrdev_release env i px =
     (let px0 = snd (px4_chrdev_set_lnb_voltage_s i 0 px);
          n = pw_open_count (px_power px0) in
      if n = 0 then (- EALREADY, px0)
      else
        let px1 = set_px_power (\<lambda>p. p\<lparr>pw_open_count := n - 1\<rparr>) px0;
            px2 = (if n - 1 = 0 then
                     let px' = snd (px4_backend_term px1) in
                     if pw_mldev (px_power px') = None \<and> \<not> pw_card_powered (px_power px') then
                       snd (on_board (px4_backend_set_power False) px')
                     else px'
                   else if bd_available (px_board px1) then snd (release_sleep env i px1)
                   else px1);
            pw = px_power px2;
            px3 = (case pw_mldev pw of
                     None \<Rightarrow> px2
                   | Some m \<Rightarrow>
                       let (_, _, m1) = px4_mldev_set_power (pw_switch pw) m (pw_ref pw) i False
                       in set_px_power (\<lambda>p. p\<lparr>pw_mldev := Some m1\<rparr>) px2)
        in (0, px4_kref_put px3))"

section \<open>Tuning\<close>

text \<open>
  Asking for the lock of the synthesizer up to \<open>n\<close> times. The variable for the answer is not initialised, but it
  is read only after a call that succeeded and so has set it.
\<close>

fun pll_loop :: "nat \<Rightarrow> (bool \<Rightarrow> 'x \<Rightarrow> int \<times> bool \<times> 'x) \<Rightarrow> int \<Rightarrow> bool \<Rightarrow> 'x \<Rightarrow> int \<times> bool \<times> 'x" where
  "pll_loop 0 f ret locked x = (ret, locked, x)"
| "pll_loop (Suc n) f ret0 locked x =
     (let (ret, l, x1) = f locked x in if ret = 0 \<and> l then (ret, l, x1) else pll_loop n f ret l x1)"

definition wait_pll :: "(bool \<Rightarrow> 'd px4_device \<Rightarrow> int \<times> bool \<times> 'd px4_device) \<Rightarrow> 'd px4_device call" where
  "wait_pll f px =
     (let (ret, locked, px1) = pll_loop 50 f 0 False px in
      (if ret \<noteq> 0 then ret else if \<not> locked then - EAGAIN else 0, px1))"

definition px4_chrdev_tune_t :: "nat \<Rightarrow> ptx_tune_params \<Rightarrow> 'd px4_device call" where
  "px4_chrdev_tune_t i prm px =
     (if tp_system prm \<noteq> PTX_ISDB_T_SYSTEM then (- EINVAL, px)
      else run_all
        [on_demod i (\<lambda>dm. tc90522_write_reg dm 0x47 0x30),
         on_demod i (\<lambda>dm. tc90522_set_agc_t dm False),
         on_demod i (\<lambda>dm. tc90522_write_reg dm 0x76 0x0c),
         on_r850 i (r850_set_frequency (unat (tp_freq prm))),
         wait_pll (\<lambda>l. on_r850_read i (r850_is_pll_locked l)),
         on_demod i (\<lambda>dm. tc90522_set_agc_t dm True),
         on_demod i (\<lambda>dm. tc90522_write_reg dm 0x71 0x21),
         on_demod i (\<lambda>dm. tc90522_write_reg dm 0x72 0x25),
         on_demod i (\<lambda>dm. tc90522_write_reg dm 0x75 0x08)] px)"

text \<open>The signal strength is read for a log message.\<close>

definition read_strength :: "nat \<Rightarrow> 'd px4_device call" where
  "read_strength i px = (let (_, _, px1) = on_rt710_read i (rt710_get_rf_signal_strength 0) px in (0, px1))"

definition px4_chrdev_tune_s :: "nat \<Rightarrow> ptx_tune_params \<Rightarrow> 'd px4_device call" where
  "px4_chrdev_tune_s i prm px =
     (if tp_system prm \<noteq> PTX_ISDB_S_SYSTEM then (- EINVAL, px)
      else run_all
        [on_demod i (\<lambda>dm. tc90522_set_agc_s dm False),
         on_demod i (\<lambda>dm. tc90522_write_reg dm 0x8e 0x06),
         on_demod i (\<lambda>dm. tc90522_write_reg dm 0xa3 0xf7),
         on_rt710 i (rt710_set_params (unat (tp_freq prm)) 28860 4),
         wait_pll (\<lambda>l. on_rt710_read i (rt710_is_pll_locked l)),
         read_strength i,
         on_demod i (\<lambda>dm. tc90522_set_agc_s dm True)] px)"

definition px4_chrdev_check_lock_t :: "nat \<Rightarrow> 'd px4_device \<Rightarrow> int \<times> bool \<times> 'd px4_device" where
  "px4_chrdev_check_lock_t i = on_demod_read i tc90522_is_signal_locked_t"

definition px4_chrdev_read_tmcc_partial_reception_t :: "nat \<Rightarrow> 'd px4_device \<Rightarrow> int \<times> bool \<times> 'd px4_device" where
  "px4_chrdev_read_tmcc_partial_reception_t i = on_demod_read i tc90522_get_tmcc_partial_reception_t"

definition px4_chrdev_check_lock_s :: "nat \<Rightarrow> 'd px4_device \<Rightarrow> int \<times> bool \<times> 'd px4_device" where
  "px4_chrdev_check_lock_s i = on_demod_read i tc90522_is_signal_locked_s"

fun tsid_loop :: "'s tc90522_demod \<Rightarrow> nat list \<Rightarrow> u16 list \<Rightarrow> 's \<Rightarrow> int \<times> u16 list \<times> 's" where
  "tsid_loop dm [] acc s = (0, acc, s)"
| "tsid_loop dm (i # is) acc s =
     (let (ret, tsid, s1) = tc90522_tmcc_get_tsid_s dm (of_nat i) 0 s in
      if ret \<noteq> 0 then (ret, acc, s1)
      else tsid_loop dm is (if tsid = 0 then acc else acc @ [tsid]) s1)"

definition tsid_list_of :: "u16 list \<Rightarrow> tsid_list" where
  "tsid_list_of xs = (of_nat (length xs), xs @ replicate (12 - length xs) 0)"

definition px4_chrdev_read_tmcc_tsid_list_s :: "nat \<Rightarrow> 'd px4_device \<Rightarrow> int \<times> tsid_list \<times> 'd px4_device" where
  "px4_chrdev_read_tmcc_tsid_list_s i px =
     (let (ret, locked, px1) = on_demod_read i tc90522_is_signal_locked_s px in
      if ret \<noteq> 0 then (ret, tsid_list_of [], px1)
      else if \<not> locked then (- EAGAIN, tsid_list_of [], px1)
      else
        let (ret, xs, px2) = on_demod_read i (\<lambda>dm. tsid_loop dm [0..<8] []) px1 in
        if ret \<noteq> 0 then (ret, tsid_list_of xs, px2)
        else if xs = [] then (- EAGAIN, tsid_list_of xs, px2)
        else
          let (ret, locked, px3) = on_demod_read i tc90522_is_signal_locked_s px2 in
          (if ret \<noteq> 0 then ret else if locked then 0 else - EAGAIN, tsid_list_of xs, px3))"

text \<open>The two waits of \<^verbatim>\<open>px4_chrdev_set_stream_id_s\<close>; both variables start uninitialised.\<close>

fun tsid_wait :: "nat \<Rightarrow> 's tc90522_demod \<Rightarrow> u8 \<Rightarrow> int \<Rightarrow> u16 \<Rightarrow> 's \<Rightarrow> int \<times> u16 \<times> 's" where
  "tsid_wait 0 dm idx ret tsid s = (ret, tsid, s)"
| "tsid_wait (Suc n) dm idx ret0 tsid0 s =
     (let (ret, tsid, s1) = tc90522_tmcc_get_tsid_s dm idx tsid0 s in
      if ret = 0 \<and> tsid \<noteq> 0 \<or> ret = - EINVAL then (ret, tsid, s1) else tsid_wait n dm idx ret tsid s1)"

fun slot_wait :: "nat \<Rightarrow> 's tc90522_demod \<Rightarrow> u16 \<Rightarrow> int \<Rightarrow> u16 \<Rightarrow> 's \<Rightarrow> int \<times> u16 \<times> 's" where
  "slot_wait 0 dm tsid ret tsid2 s = (ret, tsid2, s)"
| "slot_wait (Suc n) dm tsid ret0 tsid0 s =
     (let (ret, tsid2, s1) = tc90522_get_tsid_s dm tsid0 s in
      if ret = 0 \<and> tsid2 = tsid then (ret, tsid2, s1) else slot_wait n dm tsid ret tsid2 s1)"

definition select_tsid :: "'d px4_env \<Rightarrow> u16 \<Rightarrow> 's tc90522_demod \<Rightarrow> 's call" where
  "select_tsid env tsid dm s =
     (let (ret, s1) = tc90522_set_tsid_s dm tsid s in
      if ret \<noteq> 0 then (ret, s1)
      else
        let (ret, tsid2, s2) = slot_wait 100 dm tsid 0 (pe_uninit_tsid env) s1
        in (if tsid2 \<noteq> tsid then - EAGAIN else ret, s2))"

definition set_stream_id :: "'d px4_env \<Rightarrow> u16 \<Rightarrow> 's tc90522_demod \<Rightarrow> 's call" where
  "set_stream_id env stream_id dm s =
     (if stream_id < 12 then
        let (ret, tsid, s1) = tsid_wait 100 dm (ucast stream_id) 0 (pe_uninit_tsid env) s in
        if ret \<noteq> 0 then (ret, s1)
        else if tsid = 0 then (- EAGAIN, s1)
        else select_tsid env tsid dm s1
      else select_tsid env stream_id dm s)"

definition px4_chrdev_set_stream_id_s :: "'d px4_env \<Rightarrow> nat \<Rightarrow> u16 \<Rightarrow> 'd px4_device call" where
  "px4_chrdev_set_stream_id_s env i stream_id = on_demod i (set_stream_id env stream_id)"

section \<open>Capture\<close>

definition enable_pins :: "nat \<Rightarrow> bool \<Rightarrow> 'd px4_device call" where
  "enable_pins i e px =
     (if cap_of i px = PTX_ISDB_T_SYSTEM then on_demod i (\<lambda>dm. tc90522_enable_ts_pins_t dm e) px
      else if cap_of i px = PTX_ISDB_S_SYSTEM then on_demod i (\<lambda>dm. tc90522_enable_ts_pins_s dm e) px
      else (0, px))"

definition px4_chrdev_start_capture :: "'d px4_env \<Rightarrow> nat \<Rightarrow> 'd px4_device call" where
  "px4_chrdev_start_capture env i px =
     (let first = (px_streaming_count px = 0);
          (ret, px1) = run_all
            ((if first then [on_bus (it930x_purge_psb (pe_kmalloc env) (pe_psb_purge_timeout env))] else []) @
             [enable_pins i True]) px in
      if ret \<noteq> 0 then (ret, px1)
      else
        let (ret, px2) = (if first then on_bus (pe_start_streaming env) (px1\<lparr>px_remain_len := 0\<rparr>) else (0, px1)) in
        if ret \<noteq> 0 then (ret, snd (enable_pins i False px2))
        else (0, px2\<lparr>px_streaming_count := px_streaming_count px2 + 1\<rparr>))"

definition px4_chrdev_stop_capture :: "'d px4_env \<Rightarrow> nat \<Rightarrow> 'd px4_device call" where
  "px4_chrdev_stop_capture env i px =
     (if px_streaming_count px = 0 then (- EALREADY, px)
      else
        let px1 = px\<lparr>px_streaming_count := px_streaming_count px - 1\<rparr>;
            px2 = (if px_streaming_count px1 = 0 then snd (on_bus (pe_stop_streaming env) px1) else px1)
        in (0, if bd_available (px_board px2) then snd (enable_pins i False px2) else px2))"

definition px4_chrdev_set_capture :: "'d px4_env \<Rightarrow> nat \<Rightarrow> bool \<Rightarrow> 'd px4_device call" where
  "px4_chrdev_set_capture env i status =
     (if status then px4_chrdev_start_capture env i else px4_chrdev_stop_capture env i)"

definition px4_chrdev_read_cnr_raw_t :: "nat \<Rightarrow> u32 \<Rightarrow> 'd px4_device \<Rightarrow> int \<times> u32 \<times> 'd px4_device" where
  "px4_chrdev_read_cnr_raw_t i v = on_demod_read i (\<lambda>dm. tc90522_get_cndat_t dm v)"

text \<open>The function stores 16 bits through a pointer to the 32 bit value: the low half on a little endian machine.\<close>

definition px4_chrdev_read_cnr_raw_s :: "nat \<Rightarrow> u32 \<Rightarrow> 'd px4_device \<Rightarrow> int \<times> u32 \<times> 'd px4_device" where
  "px4_chrdev_read_cnr_raw_s i v px =
     (let (ret, cn, px1) = on_demod_read i (\<lambda>dm. tc90522_get_cn_s dm (ucast v)) px
      in (ret, (v AND 0xffff0000) OR ucast cn, px1))"

text \<open>The operations the receivers \<open>i\<close> are registered with.\<close>

definition px4_chrdev_t_ops :: "'d px4_env \<Rightarrow> nat \<Rightarrow> 'd px4_device ptx_ops" where
  "px4_chrdev_t_ops env i =
     \<lparr> op_init = Some (\<lambda>px. (0, px)), op_term = Some (\<lambda>px. (0, px)), op_open = Some (px4_chrdev_open env i),
       op_release = Some (px4_chrdev_release env i), op_tune = Some (\<lambda>px prm. px4_chrdev_tune_t i prm px),
       op_check_lock = Some (\<lambda>px _. px4_chrdev_check_lock_t i px),
       op_read_tmcc_partial_reception = Some (\<lambda>px _. px4_chrdev_read_tmcc_partial_reception_t i px),
       op_read_tmcc_tsid_list = None, op_set_stream_id = None, op_set_lnb_voltage = None,
       op_set_capture = Some (\<lambda>px st. px4_chrdev_set_capture env i st px),
       op_read_cnr_raw = Some (\<lambda>px v. px4_chrdev_read_cnr_raw_t i v px) \<rparr>"

definition px4_chrdev_s_ops :: "'d px4_env \<Rightarrow> nat \<Rightarrow> 'd px4_device ptx_ops" where
  "px4_chrdev_s_ops env i =
     \<lparr> op_init = Some (\<lambda>px. (0, px)), op_term = Some (\<lambda>px. (0, px)), op_open = Some (px4_chrdev_open env i),
       op_release = Some (px4_chrdev_release env i), op_tune = Some (\<lambda>px prm. px4_chrdev_tune_s i prm px),
       op_check_lock = Some (\<lambda>px _. px4_chrdev_check_lock_s i px), op_read_tmcc_partial_reception = None,
       op_read_tmcc_tsid_list = Some (px4_chrdev_read_tmcc_tsid_list_s i),
       op_set_stream_id = Some (\<lambda>px sid. px4_chrdev_set_stream_id_s env i sid px),
       op_set_lnb_voltage = Some (\<lambda>px v. px4_chrdev_set_lnb_voltage_s i v px),
       op_set_capture = Some (\<lambda>px st. px4_chrdev_set_capture env i st px),
       op_read_cnr_raw = Some (\<lambda>px v. px4_chrdev_read_cnr_raw_s i v px) \<rparr>"

end
