(* ===== verification/Bus_Client.thy ===== *)
theory Bus_Client
  imports Tc90522 Rt710 R850_Keeps
begin

text \<open>
  The chip drivers reach the bus through its master alone. So whatever a request of the master keeps, every
  function of the drivers keeps: the locale \<open>bus_invariant\<close> states the premise, and the functions of the
  demodulator and of the two tuners are gone through once. The master a demodulator offers to the tuner
  behind it keeps what the bus below keeps (the sublocale of \<open>bus_demod\<close>).
\<close>

section \<open>The demodulator\<close>

locale bus_invariant =
  fixes i2c :: "'s i2c_comm_master" and Q :: "'s \<Rightarrow> bool"
  assumes request_keeps: "Q s \<Longrightarrow> Q (snd (snd (i2c_comm_master_request i2c reqs s)))"
begin

lemma run_all_keeps: "(\<And>f u. f \<in> set fs \<Longrightarrow> Q u \<Longrightarrow> Q (snd (f u))) \<Longrightarrow> Q s \<Longrightarrow> Q (snd (run_all fs s))"
  using run_all_inv [of fs Q s] by blast

end

locale bus_demod = bus_invariant +
  fixes dm :: "'s tc90522_demod"
  assumes on_bus: "dm_i2c dm = i2c"
begin

lemma tc_read_regs: "Q s \<Longrightarrow> Q (snd (snd (tc90522_read_regs dm reg buf s)))"
  by (simp add: tc90522_read_regs_def on_bus request_keeps Let_def case_prod_beta)

lemma tc_read_reg: "Q s \<Longrightarrow> Q (snd (snd (tc90522_read_reg dm reg v s)))"
  by (simp add: tc90522_read_reg_def tc_read_regs Let_def case_prod_beta)

lemma tc_write_regs: "Q s \<Longrightarrow> Q (snd (tc90522_write_regs dm reg buf s))"
  by (simp add: tc90522_write_regs_def on_bus request_keeps Let_def case_prod_beta)

lemma tc_write_reg: "Q s \<Longrightarrow> Q (snd (tc90522_write_reg dm reg v s))"
  by (simp add: tc90522_write_reg_def tc_write_regs)

lemma tc_write_multiple: "Q s \<Longrightarrow> Q (snd (tc90522_write_multiple_regs dm rb s))"
proof -
  assume s: "Q s"
  have "Q (snd (regbuf_write dm r u))" if "Q u" for r u
    using that by (cases r) (simp_all add: tc_write_regs)
  then have "Q (snd (run_each (regbuf_write dm) rb s))"
    unfolding run_each_def by (intro run_all_keeps [OF _ s]) auto
  then show ?thesis using s by (simp add: tc90522_write_multiple_regs_def)
qed

lemma tc_be16: "Q s \<Longrightarrow> Q (snd (snd (read_be16 dm reg v s)))"
  by (simp add: read_be16_def tc_read_regs Let_def case_prod_beta)

lemma tc_calls:
  assumes "Q s"
  shows "Q (snd (tc90522_sleep_s dm b s))" "Q (snd (tc90522_sleep_t dm b s))" "Q (snd (tc90522_set_agc_s dm b s))"
    "Q (snd (tc90522_set_agc_t dm b s))" "Q (snd (tc90522_enable_ts_pins_s dm b s))" "Q (snd (tc90522_enable_ts_pins_t dm b s))"
    "Q (snd (tc90522_set_tsid_s dm tsid s))"
  using assms by (simp_all add: tc90522_sleep_s_def tc90522_sleep_t_def tc90522_set_agc_s_def tc90522_set_agc_t_def
      tc90522_enable_ts_pins_s_def tc90522_enable_ts_pins_t_def tc90522_set_tsid_s_def tc_write_multiple tc_write_reg tc_write_regs Let_def)

lemma tc_reads:
  assumes "Q s"
  shows "Q (snd (snd (tc90522_is_signal_locked_s dm s)))" "Q (snd (snd (tc90522_is_signal_locked_t dm s)))"
    "Q (snd (snd (tc90522_get_tmcc_partial_reception_t dm s)))" "Q (snd (snd (tc90522_tmcc_get_tsid_s dm idx tsid s)))"
    "Q (snd (snd (tc90522_get_tsid_s dm tsid s)))" "Q (snd (snd (tc90522_get_cn_s dm tsid s)))"
    "Q (snd (snd (tc90522_get_cndat_t dm v s)))"
  using assms by (simp_all add: tc90522_is_signal_locked_s_def tc90522_is_signal_locked_t_def
      tc90522_get_tmcc_partial_reception_t_def tc90522_tmcc_get_tsid_s_def tc90522_get_tsid_s_def tc90522_get_cn_s_def
      tc90522_get_cndat_t_def tc_be16 tc_read_reg tc_read_regs Let_def case_prod_beta)

lemma tunnel_keeps: "Q s \<Longrightarrow> Q (snd (snd (i2c_comm_master_request (tc90522_master mem dm) reqs s)))"
proof -
  assume "Q s"
  then have "Q (snd (snd (tc90522_i2c_master_request mem dm reqs s)))"
    by (simp add: tc90522_i2c_master_request_def request_keeps on_bus Let_def case_prod_beta)
  then show ?thesis by (simp add: i2c_comm_master_request_def tc90522_master_def)
qed

end

sublocale bus_demod \<subseteq> tuner: bus_invariant "tc90522_master mem dm" Q for mem
  by unfold_locales (rule tunnel_keeps)

section \<open>The tuners\<close>

context bus_invariant
begin

definition rt_on :: "bool \<Rightarrow> 's rt710_tuner \<Rightarrow> bool" where
  "rt_on v t \<longleftrightarrow> rt_i2c t = i2c \<and> Q (rt_s t) \<and> (v \<longrightarrow> rt_init t)"

lemma rt_read_reg: "rt_on v t \<Longrightarrow> rt_on v (snd (snd (rt710_read_reg reg t)))"
  by (auto simp: rt710_read_reg_def rt710_read_regs_def rt_on_def Let_def case_prod_beta request_keeps)

lemma rt_write_regs: "rt_on v t \<Longrightarrow> rt_on v (snd (rt710_write_regs reg buf t))"
  by (auto simp: rt710_write_regs_def rt_on_def Let_def case_prod_beta request_keeps)

lemma rt_work:
  assumes "rt_on v (snd w)"
  shows "rt_on v (snd (snd (upd i f w)))" "rt_on v (snd (snd (wr i w)))" "rt_on v (snd (snd (set_freq_priv q w)))"
    "rt_on v (snd (snd (rt_raise_ub w)))"
  using assms rt_write_regs [OF assms]
  by (simp_all add: upd_def wr_def set_freq_priv_def rt_raise_ub_def case_prod_beta Let_def) (simp_all add: rt_on_def)

lemma rt_run:
  assumes "\<And>f w. f \<in> set fs \<Longrightarrow> rt_on v (snd w) \<Longrightarrow> rt_on v (snd (snd (f w)))" "rt_on v (snd w)"
  shows "rt_on v (snd (snd (run_all fs w)))"
  using run_all_inv [of fs "\<lambda>w. rt_on v (snd w)" w] assms by blast

lemma rt_pll: "rt_on v (snd w) \<Longrightarrow> rt_on v (snd (snd (rt710_set_pll freq w)))"
proof -
  have "rt_on v (snd (snd (set_pll_720 d u)))" "rt_on v (snd (snd (set_sdm x fra u)))" if "rt_on v (snd u)" for d x fra u
    using that by (auto simp: set_pll_720_def set_sdm_def rt_work simp del: run_all.simps split: option.split intro!: rt_run)
  then show "rt_on v (snd w) \<Longrightarrow> rt_on v (snd (snd (rt710_set_pll freq w)))"
    unfolding rt710_set_pll_def Let_def case_prod_beta by (intro rt_run) (auto simp: rt_work split: if_splits)
qed

lemma rt_set_params:
  assumes "rt_on v t"
  shows "rt_on v (snd (rt710_set_params freq rate ro t))"
proof -
  have a: "rt_on v (snd (snd (set_band_710 freq u)))" "rt_on v (snd (snd (set_scan_720 sm u)))" if "rt_on v (snd u)" for sm u
    using that by (auto simp: set_band_710_def set_scan_720_def rt_work Let_def simp del: run_all.simps intro!: rt_run split: if_splits)
  show ?thesis using assms unfolding rt710_set_params_def Let_def case_prod_beta
    by (auto simp: a rt_work rt_pll rt_write_regs case_prod_beta simp del: run_all.simps intro!: rt_run split: if_splits)
qed

lemma rt_calls:
  assumes "rt_on v t"
  shows "rt_on v (snd (rt710_sleep t))" "rt_on v (snd (snd (rt710_is_pll_locked b t)))"
    "rt_on v (snd (snd (rt710_get_rf_signal_strength ss t)))" "rt_on False (snd (rt710_term t))"
    "rt_on False (snd (rt710_init t))" "fst (rt710_init t) = 0 \<Longrightarrow> rt_on True (snd (rt710_init t))"
proof -
  have g: "rt_on v (snd (snd (rt710_get_rf_gain n u)))" if "rt_on v u" for n u
    using that by (simp add: rt710_get_rf_gain_def rt_read_reg Let_def case_prod_beta)
  show "rt_on v (snd (snd (rt710_get_rf_signal_strength ss t)))" using g [OF assms, of "unat (rt_junk t)"]
    by (auto simp: rt710_get_rf_signal_strength_def Let_def case_prod_beta rt_on_def)
  have "rt_on False (t\<lparr>rt_init := False, rt_freq := 0\<rparr>)" using assms by (simp add: rt_on_def)
  from rt_read_reg [OF this, of 3]
  show "rt_on False (snd (rt710_init t))" "fst (rt710_init t) = 0 \<Longrightarrow> rt_on True (snd (rt710_init t))"
    by (auto simp: rt710_init_def Let_def case_prod_beta rt_on_def split: if_splits)
qed (use assms in \<open>simp_all add: rt710_sleep_def rt710_is_pll_locked_def rt710_term_def rt_read_reg rt_write_regs Let_def
      case_prod_beta\<close>, simp add: rt_on_def)

definition r8_on :: "bool \<Rightarrow> 's r850_tuner \<Rightarrow> bool" where
  "r8_on v t \<longleftrightarrow> r8_i2c t = i2c \<and> Q (r8_s t) \<and> length (r8_regs t) = 0x30 \<and> (v \<longrightarrow> r8_init t)"

lemma r8_on_pll: "r8_on v t \<Longrightarrow> r8_on v (snd (r850_set_pll lo ifq sys t))"
proof -
  have s: "r8_on v (snd (regs_do ops u))" "r8_on v (snd (regs_send reg n u))" "r8_on v (snd (r850_set_xtal_cap k u))"
      "r8_on v (snd (r850_raise_ub u))" "r8_on v (snd (r850_set_sdm x f u))" if "r8_on v u" for ops reg n k x f u
    using that by (auto simp: r8_on_def regs_do_def regs_send_def r850_write_regs_def r850_set_xtal_cap_def
        r850_raise_ub_def r850_set_sdm_def Let_def case_prod_beta request_keeps split: option.split)
  show "r8_on v t \<Longrightarrow> r8_on v (snd (r850_set_pll lo ifq sys t))"
    unfolding r850_set_pll_def Let_def case_prod_beta
    by (rule run_all_inv [where P = "r8_on v"]) (auto simp: s split: if_splits)
qed

end

sublocale bus_invariant \<subseteq> r8: r850_keeps_sys "r8_on v" for v
  by unfold_locales (auto simp: r8_on_pll, auto simp: r8_on_def request_keeps)

sublocale bus_invariant \<subseteq> r8i: r850_keeps_all "r8_on False"
  by unfold_locales (simp_all add: r8_on_def)

context bus_invariant
begin

lemma r8_calls:
  assumes "r8_on v t"
  shows "r8_on v (snd (r850_sleep t))" "r8_on v (snd (r850_wakeup t))" "r8_on v (snd (r850_set_system s t))"
    "r8_on v (snd (snd (r850_is_pll_locked b t)))" "r8_on v (snd (r850_set_frequency f t))"
    "r8_on False (snd (r850_init t))" "r8_on False (snd (r850_term t))"
  using assms r8i.all_init [of t] r8i.all_term [of t]
  by (simp_all add: r8.all_simple r8.all_set_frequency) (simp_all add: r8_on_def)

lemma r8_init_on: "r8_on v t \<Longrightarrow> fst (r850_init t) = 0 \<Longrightarrow> r8_on True (snd (r850_init t))"
  using r8i.all_init [of t] r850_init_sets [of t] by (auto simp: r8_on_def)

end

end
