(* ===== verification/Px4_Quiet.thy ===== *)
theory Px4_Quiet
  imports Px4_Device Bus_Client It930x_I2c
begin

text \<open>
  What the receivers of a board do not change. A call of a chip driver goes over the bridge's I2C bus, so it
  leaves the GPIO pins alone, and it leaves alone every field of the device but the chip's own record. \<open>quiet\<close>
  is that relation; the calls that are not quiet are the ones the properties are about.
\<close>

section \<open>Pins\<close>

text \<open>The values last written to the output registers of the pins.\<close>

definition gview :: "'d it930x_bridge \<Rightarrow> u8 option list" where
  "gview b = map (\<lambda>r. last_write r (clog b)) gpio_o_regs"

lemma gpio_o_distinct: "distinct gpio_o_regs"
  by code_simp

lemma write_gpio_view:
  assumes "it930x_write_gpio g high b = (ret, b')" "gpio_pin g = Some i" "j < 16"
  shows "gview b' ! j = (if ret = 0 \<and> j = i then Some (if high then 1 else 0) else gview b ! j)"
proof -
  have "i < 16" by (rule gpio_pin_less [OF assms(2)])
  then have e: "gpio_o_regs ! j = gpio_o_regs ! i \<longleftrightarrow> j = i"
    using gpio_o_distinct assms(3) gpio_regs_len(3) by (simp add: nth_eq_iff_index_eq)
  show ?thesis
  proof (cases "gs_mode (gpio_status b ! i) = IT930X_GPIO_OUT")
    case True
    then have "it930x_write_reg (gpio_o_regs ! i) (if high then 1 else 0) b = (ret, b')"
      using assms(1,2) by (simp add: it930x_write_gpio_def)
    then show ?thesis using write_reg_log(4) [of "gpio_o_regs ! i" "if high then 1 else 0" b ret b' "gpio_o_regs ! j"] e
      assms(3) gpio_regs_len(3) by (auto simp: gview_def)
  qed (use assms in \<open>auto simp: it930x_write_gpio_def\<close>)
qed

lemma message_view:
  assumes "it930x_ctrl_msg cmd w rcap no_rx b = (ret, out, b')" "cmd \<noteq> IT930X_CMD_REG_WRITE"
  shows "gview b' = gview b"
proof (cases "length (payload_of w) < 250")
  case True
  then show ?thesis using ctrl_msg_log [OF assms(1)] assms(2) by (auto simp: gview_def reg_write_of_def)
next
  case False
  then show ?thesis using ctrl_msg_not_sent [OF assms(1)] by (simp add: gview_def)
qed

abbreviation (input) i2c_bus :: "u8 \<Rightarrow> 'd it930x_bridge i2c_comm_master" where
  "i2c_bus n \<equiv> \<lparr> i2c_gate_ctrl = None, i2c_request = Some (it930x_i2c_master_request n) \<rparr>"

lemma i2c_one_view: "gview (snd (snd (it930x_i2c_one n r b))) = gview b"
  by (cases r) (auto simp: it930x_i2c_one_def dest!: message_view split: prod.splits if_splits)

lemma i2c_request_view: "gview (snd (snd (it930x_i2c_master_request n reqs b))) = gview b"
proof (induction reqs arbitrary: b)
  case (Cons r reqs)
  show ?case using Cons.IH [of "snd (snd (it930x_i2c_one n r b))"] i2c_one_view [of n r b]
    by (simp add: Let_def case_prod_beta)
qed simp

interpretation pins: bus_invariant "i2c_bus n" "\<lambda>b. gview b = V" for n V
  by unfold_locales (simp add: i2c_comm_master_request_def i2c_request_view)

lemma demod_bus: "dm_i2c dm = i2c_bus n \<Longrightarrow> bus_demod (i2c_bus n) (\<lambda>b. gview b = V) dm"
  by unfold_locales simp

lemma tuner_bus: "dm_i2c dm = i2c_bus n \<Longrightarrow> bus_invariant (tc90522_master mem dm) (\<lambda>b. gview b = V)"
  using bus_demod.tunnel_keeps [OF demod_bus] by unfold_locales blast

lemma write_reg_view:
  assumes "reg \<notin> set gpio_o_regs"
  shows "gview (snd (it930x_write_reg reg v b)) = gview b"
  using write_reg_log(4) [of reg v b "fst (it930x_write_reg reg v b)" "snd (it930x_write_reg reg v b)"] assms
  by (auto simp: gview_def)

lemma read_reg_view: "gview (snd (snd (it930x_read_reg reg v b))) = gview b"
  using read_reg_log(1) [of reg v b "fst (it930x_read_reg reg v b)" "fst (snd (it930x_read_reg reg v b))"
      "snd (snd (it930x_read_reg reg v b))"] by (simp add: gview_def)

lemma write_mask_view: "reg \<notin> set gpio_o_regs \<Longrightarrow> gview (snd (it930x_write_reg_mask reg v m b)) = gview b"
  by (simp add: it930x_write_reg_mask_def Let_def case_prod_beta write_reg_view read_reg_view)

lemma purge_view: "gview (snd (it930x_purge_psb ok timeout b)) = gview b"
proof -
  have n: "0xda1d \<notin> set gpio_o_regs" by (simp add: gpio_o_regs_def)
  have rx: "gview (snd (snd (itedtv_bus_stream_rx k timeout c))) = gview c" for k and c :: "'d it930x_bridge"
    by (simp add: itedtv_bus_stream_rx_def Let_def case_prod_beta gview_def)
  show ?thesis by (simp add: it930x_purge_psb_def Let_def case_prod_beta write_mask_view n rx)
qed

section \<open>Quiet calls\<close>

text \<open>How the chips hang on the bus.\<close>

definition wired :: "bool \<Rightarrow> 'd px4_device \<Rightarrow> bool" where
  "wired mem px \<longleftrightarrow> length (px_chrdev4 px) = PX4_CHRDEV_NUM \<and> (\<forall>c \<in> set (px_chrdev4 px). dm_i2c (c4_tc90522 c) = i2c_bus 2 \<and>
     rt_i2c (c4_rt710 c) = tc90522_master mem (c4_tc90522 c) \<and> r8_i2c (c4_r850 c) = tc90522_master mem (c4_tc90522 c) \<and>
     length (r8_regs (c4_r850 c)) = 0x30)"

definition ready :: "'d px4_chrdev \<Rightarrow> bool" where
  "ready c \<longleftrightarrow> (if c4_system_cap c = PTX_ISDB_T_SYSTEM then r8_init (c4_r850 c)
     else if c4_system_cap c = PTX_ISDB_S_SYSTEM then rt_init (c4_rt710 c) else True)"

text \<open>What stays of a receiver, and of a device, when only chips are driven.\<close>

definition shell :: "'d px4_chrdev \<Rightarrow> u32 \<times> bool \<times> bool \<times> 'd it930x_bridge tc90522_demod" where
  "shell c = (c4_system_cap c, c4_open c, c4_lnb_power c, c4_tc90522 c)"

definition same_core :: "'d px4_device \<Rightarrow> 'd px4_device \<Rightarrow> bool" where
  "same_core px px' \<longleftrightarrow> bd_available (px_board px') = bd_available (px_board px) \<and> px_power px' = px_power px \<and>
     px_kref px' = px_kref px \<and> px_lnb_power_count px' = px_lnb_power_count px \<and>
     px_streaming_count px' = px_streaming_count px \<and> map shell (px_chrdev4 px') = map shell (px_chrdev4 px)"

definition pins_kept :: "'d px4_device \<Rightarrow> 'd px4_device \<Rightarrow> bool" where
  "pins_kept px px' \<longleftrightarrow> (\<forall>mem. wired mem px \<longrightarrow> wired mem px' \<and> gview (px_bridge px') = gview (px_bridge px))"

definition ready_kept :: "'d px4_device \<Rightarrow> 'd px4_device \<Rightarrow> bool" where
  "ready_kept px px' \<longleftrightarrow>
     (\<forall>mem. wired mem px \<longrightarrow> (\<forall>i < length (px_chrdev4 px). ready (px_chrdev4 px ! i) \<longrightarrow> ready (px_chrdev4 px' ! i)))"

definition quiet :: "'d px4_device \<Rightarrow> 'd px4_device \<Rightarrow> bool" where
  "quiet px px' \<longleftrightarrow> same_core px px' \<and> pins_kept px px' \<and> ready_kept px px'"

lemma same_core_refl [simp]: "same_core px px"
  by (simp add: same_core_def)

lemma same_core_trans: "same_core a b \<Longrightarrow> same_core b c \<Longrightarrow> same_core a c"
  by (simp add: same_core_def)

lemma same_core_length: "same_core px px' \<Longrightarrow> length (px_chrdev4 px') = length (px_chrdev4 px)"
  unfolding same_core_def by (metis length_map)

lemma same_core_nth:
  assumes "same_core px px'" "i < length (px_chrdev4 px)"
  shows "shell (px_chrdev4 px' ! i) = shell (px_chrdev4 px ! i)"
  using assms same_core_length [OF assms(1)] unfolding same_core_def by (metis nth_map)

lemma pins_kept_refl [simp]: "pins_kept px px"
  by (simp add: pins_kept_def)

lemma pins_kept_trans: "pins_kept a b \<Longrightarrow> pins_kept b c \<Longrightarrow> pins_kept a c"
  unfolding pins_kept_def by metis

lemma quiet_refl [simp]: "quiet px px"
  by (simp add: quiet_def ready_kept_def)

lemma quiet_trans: "quiet a b \<Longrightarrow> quiet b c \<Longrightarrow> quiet a c"
proof -
  assume a: "quiet a b" "quiet b c"
  have "ready_kept a c" unfolding ready_kept_def
  proof (intro allI impI)
    fix mem i assume i: "wired mem a" "i < length (px_chrdev4 a)" "ready (px_chrdev4 a ! i)"
    have "wired mem b" using a(1) i(1) unfolding quiet_def pins_kept_def by blast
    moreover have "length (px_chrdev4 b) = length (px_chrdev4 a)" using a(1) unfolding quiet_def by (blast intro: same_core_length)
    ultimately show "ready (px_chrdev4 c ! i)" using a i unfolding quiet_def ready_kept_def by metis
  qed
  then show ?thesis using a same_core_trans pins_kept_trans unfolding quiet_def by blast
qed

lemma quiet_run_all:
  assumes "\<And>f u. f \<in> set fs \<Longrightarrow> quiet u (snd (f u))"
  shows "quiet px (snd (run_all fs px))"
  using run_all_inv [of fs "quiet px" px] assms quiet_trans by fastforce

lemma set_bridge_fields [simp]:
  "px_bridge (set_bridge b px) = b" "px_power (set_bridge b px) = px_power px" "px_kref (set_bridge b px) = px_kref px"
  "bd_available (px_board (set_bridge b px)) = bd_available (px_board px)"
  "px_lnb_power_count (set_bridge b px) = px_lnb_power_count px" "px_streaming_count (set_bridge b px) = px_streaming_count px"
  "px_chrdev4 (set_bridge b px) = px_chrdev4 px"
  by (simp_all add: set_bridge_def)

lemma set_c4_fields [simp]:
  "px_board (set_c4 i f px) = px_board px" "px_kref (set_c4 i f px) = px_kref px"
  "px_lnb_power_count (set_c4 i f px) = px_lnb_power_count px" "px_streaming_count (set_c4 i f px) = px_streaming_count px"
  "px_chrdev4 (set_c4 i f px) = (px_chrdev4 px)[i := f (px_chrdev4 px ! i)]"
  by (simp_all add: set_c4_def)

lemma wired_set_bridge [simp]: "wired mem (set_bridge b px) = wired mem px"
  by (simp add: wired_def)

lemma wired_length: "wired mem px \<Longrightarrow> length (px_chrdev4 px) = 4"
  by (simp add: wired_def)

lemma wired_nth:
  assumes "wired mem px" "i < 4"
  shows "dm_i2c (demod_of i px) = i2c_bus 2" "rt_i2c (c4_rt710 (px_chrdev4 px ! i)) = tc90522_master mem (demod_of i px)"
    "r8_i2c (c4_r850 (px_chrdev4 px ! i)) = tc90522_master mem (demod_of i px)"
    "length (r8_regs (c4_r850 (px_chrdev4 px ! i))) = 0x30"
  using assms unfolding wired_def by (metis nth_mem)+

lemma quiet_bridge: "gview b = gview (px_bridge px) \<Longrightarrow> quiet px (set_bridge b px)"
  by (simp add: quiet_def same_core_def pins_kept_def ready_kept_def)

lemma quiet_on_bus: "(\<And>b. gview (snd (f b)) = gview b) \<Longrightarrow> quiet px (snd (on_bus f px))"
  unfolding on_bus_def Let_def case_prod_beta snd_conv by (rule quiet_bridge) simp

text \<open>A demodulator call is quiet when it keeps what the bus keeps.\<close>

definition demod_keeps :: "('d it930x_bridge tc90522_demod \<Rightarrow> 'd it930x_bridge \<Rightarrow> 'd it930x_bridge) \<Rightarrow> bool" where
  "demod_keeps f \<longleftrightarrow> (\<forall>dm V n b. bus_demod (i2c_bus n) (\<lambda>b. gview b = V) dm \<longrightarrow> gview b = V \<longrightarrow> gview (f dm b) = V)"

lemma quiet_demod:
  assumes "demod_keeps f" "i < 4"
  shows "quiet px (set_bridge (f (demod_of i px) (px_bridge px)) px)"
proof -
  have "gview (f (demod_of i px) (px_bridge px)) = gview (px_bridge px)" if "wired mem px" for mem
    using assms(1) demod_bus [OF wired_nth(1) [OF that assms(2)], of "gview (px_bridge px)"] unfolding demod_keeps_def by blast
  then show ?thesis by (simp add: quiet_def same_core_def pins_kept_def ready_kept_def)
qed

lemma quiet_on_demod: "demod_keeps (\<lambda>dm b. snd (f dm b)) \<Longrightarrow> i < 4 \<Longrightarrow> quiet px (snd (on_demod i f px))"
  using quiet_demod [of "\<lambda>dm b. snd (f dm b)" i px] by (simp add: on_demod_def on_bus_def Let_def case_prod_beta)

lemma quiet_on_demod_read: "demod_keeps (\<lambda>dm b. snd (snd (f dm b))) \<Longrightarrow> i < 4 \<Longrightarrow> quiet px (snd (snd (on_demod_read i f px)))"
  using quiet_demod [of "\<lambda>dm b. snd (snd (f dm b))" i px] by (simp add: on_demod_read_def on_bus_read_def Let_def case_prod_beta)

lemma demod_keeps_calls:
  "demod_keeps (\<lambda>dm b. snd (tc90522_write_multiple_regs dm rb b))" "demod_keeps (\<lambda>dm b. snd (tc90522_write_reg dm reg v b))"
  "demod_keeps (\<lambda>dm b. snd (tc90522_sleep_s dm e b))" "demod_keeps (\<lambda>dm b. snd (tc90522_sleep_t dm e b))"
  "demod_keeps (\<lambda>dm b. snd (tc90522_set_agc_s dm e b))" "demod_keeps (\<lambda>dm b. snd (tc90522_set_agc_t dm e b))"
  "demod_keeps (\<lambda>dm b. snd (tc90522_enable_ts_pins_s dm e b))" "demod_keeps (\<lambda>dm b. snd (tc90522_enable_ts_pins_t dm e b))"
  unfolding demod_keeps_def
  by (auto dest: bus_demod.tc_write_multiple bus_demod.tc_write_reg bus_demod.tc_calls)

lemma demod_keeps_reads:
  "demod_keeps (\<lambda>dm b. snd (snd (tc90522_is_signal_locked_s dm b)))"
  "demod_keeps (\<lambda>dm b. snd (snd (tc90522_is_signal_locked_t dm b)))"
  "demod_keeps (\<lambda>dm b. snd (snd (tc90522_get_tmcc_partial_reception_t dm b)))"
  "demod_keeps (\<lambda>dm b. snd (snd (tc90522_get_cn_s dm w b)))" "demod_keeps (\<lambda>dm b. snd (snd (tc90522_get_cndat_t dm v b)))"
  unfolding demod_keeps_def by (auto dest: bus_demod.tc_reads)

section \<open>Tuner calls\<close>

text \<open>\<open>v\<close>: whether an initialised tuner stays one.\<close>

definition r850_keeps_bus :: "bool \<Rightarrow> ('s r850_tuner \<Rightarrow> 's r850_tuner) \<Rightarrow> bool" where
  "r850_keeps_bus v f \<longleftrightarrow> (\<forall>i2c Q w t. bus_invariant i2c Q \<longrightarrow> (w \<longrightarrow> v) \<longrightarrow> bus_invariant.r8_on i2c Q w t \<longrightarrow>
     bus_invariant.r8_on i2c Q w (f t))"

definition rt710_keeps_bus :: "bool \<Rightarrow> ('s rt710_tuner \<Rightarrow> 's rt710_tuner) \<Rightarrow> bool" where
  "rt710_keeps_bus v f \<longleftrightarrow> (\<forall>i2c Q w t. bus_invariant i2c Q \<longrightarrow> (w \<longrightarrow> v) \<longrightarrow> bus_invariant.rt_on i2c Q w t \<longrightarrow>
     bus_invariant.rt_on i2c Q w (f t))"

definition put_r850 :: "nat \<Rightarrow> 'd it930x_bridge r850_tuner \<Rightarrow> 'd px4_device \<Rightarrow> 'd px4_device" where
  "put_r850 i t px = set_bridge (r8_s t) (set_c4 i (\<lambda>c. c\<lparr>c4_r850 := t\<rparr>) px)"

definition put_rt710 :: "nat \<Rightarrow> 'd it930x_bridge rt710_tuner \<Rightarrow> 'd px4_device \<Rightarrow> 'd px4_device" where
  "put_rt710 i t px = set_bridge (rt_s t) (set_c4 i (\<lambda>c. c\<lparr>c4_rt710 := t\<rparr>) px)"

lemma shell_put [simp]: "shell (c\<lparr>c4_r850 := t\<rparr>) = shell c" "shell (c\<lparr>c4_rt710 := u\<rparr>) = shell c"
  by (simp_all add: shell_def)

lemma map_shell_update: "shell (f (xs ! i)) = shell (xs ! i) \<Longrightarrow> map shell (xs[i := f (xs ! i)]) = map shell xs"
  by (metis list_update_id map_update)

lemma put_core: "same_core px (put_r850 i t px)" "same_core px (put_rt710 i u px)"
  by (simp_all add: same_core_def put_r850_def put_rt710_def map_shell_update)

text \<open>Applying a tuner function to the record with the bridge in it.\<close>

abbreviation (input) r850_at :: "nat \<Rightarrow> 'd px4_device \<Rightarrow> 'd it930x_bridge r850_tuner" where
  "r850_at i px \<equiv> (c4_r850 (px_chrdev4 px ! i))\<lparr>r8_s := px_bridge px\<rparr>"

abbreviation (input) rt710_at :: "nat \<Rightarrow> 'd px4_device \<Rightarrow> 'd it930x_bridge rt710_tuner" where
  "rt710_at i px \<equiv> (c4_rt710 (px_chrdev4 px ! i))\<lparr>rt_s := px_bridge px\<rparr>"

lemma r850_result:
  assumes "r850_keeps_bus v f" "i < 4" "wired mem px"
  shows "r8_i2c (f (r850_at i px)) = tc90522_master mem (demod_of i px)"
    "gview (r8_s (f (r850_at i px))) = gview (px_bridge px)" "length (r8_regs (f (r850_at i px))) = 0x30"
    "v \<Longrightarrow> r8_init (c4_r850 (px_chrdev4 px ! i)) \<Longrightarrow> r8_init (f (r850_at i px))"
proof -
  note W = wired_nth [OF assms(3,2)]
  let ?i2c = "tc90522_master mem (demod_of i px)" and ?Q = "\<lambda>b. gview b = gview (px_bridge px)"
  note B = tuner_bus [OF W(1), of mem "gview (px_bridge px)"]
  note on = bus_invariant.r8_on_def [OF B]
  have "bus_invariant.r8_on ?i2c ?Q w (f (r850_at i px))" if "w \<longrightarrow> v \<and> r8_init (c4_r850 (px_chrdev4 px ! i))" for w
  proof -
    have "bus_invariant.r8_on ?i2c ?Q w (r850_at i px)" using W that by (simp add: on)
    then show ?thesis using assms(1) B that unfolding r850_keeps_bus_def by blast
  qed
  from this [of False] this [of "v \<and> r8_init (c4_r850 (px_chrdev4 px ! i))"]
  show "r8_i2c (f (r850_at i px)) = ?i2c" "gview (r8_s (f (r850_at i px))) = gview (px_bridge px)"
    "length (r8_regs (f (r850_at i px))) = 0x30"
    "v \<Longrightarrow> r8_init (c4_r850 (px_chrdev4 px ! i)) \<Longrightarrow> r8_init (f (r850_at i px))"
    by (auto simp: on)
qed

lemma rt710_result:
  assumes "rt710_keeps_bus v f" "i < 4" "wired mem px"
  shows "rt_i2c (f (rt710_at i px)) = tc90522_master mem (demod_of i px)"
    "gview (rt_s (f (rt710_at i px))) = gview (px_bridge px)"
    "v \<Longrightarrow> rt_init (c4_rt710 (px_chrdev4 px ! i)) \<Longrightarrow> rt_init (f (rt710_at i px))"
proof -
  note W = wired_nth [OF assms(3,2)]
  let ?i2c = "tc90522_master mem (demod_of i px)" and ?Q = "\<lambda>b. gview b = gview (px_bridge px)"
  note B = tuner_bus [OF W(1), of mem "gview (px_bridge px)"]
  note on = bus_invariant.rt_on_def [OF B]
  have "bus_invariant.rt_on ?i2c ?Q w (f (rt710_at i px))" if "w \<longrightarrow> v \<and> rt_init (c4_rt710 (px_chrdev4 px ! i))" for w
  proof -
    have "bus_invariant.rt_on ?i2c ?Q w (rt710_at i px)" using W that by (simp add: on)
    then show ?thesis using assms(1) B that unfolding rt710_keeps_bus_def by blast
  qed
  from this [of False] this [of "v \<and> rt_init (c4_rt710 (px_chrdev4 px ! i))"]
  show "rt_i2c (f (rt710_at i px)) = ?i2c" "gview (rt_s (f (rt710_at i px))) = gview (px_bridge px)"
    "v \<Longrightarrow> rt_init (c4_rt710 (px_chrdev4 px ! i)) \<Longrightarrow> rt_init (f (rt710_at i px))"
    by (auto simp: on)
qed

lemma wired_put:
  assumes "wired mem px" "i < 4"
  shows "r8_i2c t = tc90522_master mem (demod_of i px) \<Longrightarrow> length (r8_regs t) = 0x30 \<Longrightarrow> wired mem (put_r850 i t px)"
    "rt_i2c u = tc90522_master mem (demod_of i px) \<Longrightarrow> wired mem (put_rt710 i u px)"
  using assms(1) wired_nth [OF assms] assms(2) unfolding wired_def put_r850_def put_rt710_def
  by (auto dest!: subsetD [OF set_update_subset_insert])

lemma put_bridge [simp]: "px_bridge (put_r850 i t px) = r8_s t" "px_bridge (put_rt710 i u px) = rt_s u"
  by (simp_all add: put_r850_def put_rt710_def)

lemma pins_put:
  assumes "i < 4"
  shows "r850_keeps_bus v f \<Longrightarrow> pins_kept px (put_r850 i (f (r850_at i px)) px)"
    "rt710_keeps_bus v g \<Longrightarrow> pins_kept px (put_rt710 i (g (rt710_at i px)) px)"
proof -
  assume f: "r850_keeps_bus v f"
  show "pins_kept px (put_r850 i (f (r850_at i px)) px)" unfolding pins_kept_def put_bridge
    using r850_result(1-3) [OF f assms] wired_put(1) [OF _ assms] by blast
next
  assume g: "rt710_keeps_bus v g"
  show "pins_kept px (put_rt710 i (g (rt710_at i px)) px)" unfolding pins_kept_def put_bridge
    using rt710_result(1-2) [OF g assms] wired_put(2) [OF _ assms] by blast
qed

lemma put_nth:
  assumes "i < length (px_chrdev4 px)"
  shows "px_chrdev4 (put_r850 i t px) ! j = (if j = i then (px_chrdev4 px ! i)\<lparr>c4_r850 := t\<rparr> else px_chrdev4 px ! j)"
    "px_chrdev4 (put_rt710 i u px) ! j = (if j = i then (px_chrdev4 px ! i)\<lparr>c4_rt710 := u\<rparr> else px_chrdev4 px ! j)"
  using assms by (simp_all add: put_r850_def put_rt710_def nth_list_update)

lemma ready_put:
  "(r8_init (c4_r850 c) \<Longrightarrow> r8_init t) \<Longrightarrow> ready c \<Longrightarrow> ready (c\<lparr>c4_r850 := t\<rparr>)"
  "(rt_init (c4_rt710 c) \<Longrightarrow> rt_init u) \<Longrightarrow> ready c \<Longrightarrow> ready (c\<lparr>c4_rt710 := u\<rparr>)"
  by (auto simp: ready_def split: if_splits)

lemma quiet_put:
  assumes "i < 4"
  shows "r850_keeps_bus True f \<Longrightarrow> quiet px (put_r850 i (f (r850_at i px)) px)"
    "rt710_keeps_bus True g \<Longrightarrow> quiet px (put_rt710 i (g (rt710_at i px)) px)"
proof -
  assume f: "r850_keeps_bus True f"
  have "ready_kept px (put_r850 i (f (r850_at i px)) px)" unfolding ready_kept_def
  proof (intro allI impI)
    fix mem j assume w: "wired mem px" and r: "ready (px_chrdev4 px ! j)"
    have "i < length (px_chrdev4 px)" using wired_length [OF w] assms by simp
    then show "ready (px_chrdev4 (put_r850 i (f (r850_at i px)) px) ! j)"
      using r ready_put(1) [where c = "px_chrdev4 px ! i", OF r850_result(4) [OF f assms w TrueI]]
      by (cases "j = i") (simp_all add: put_nth)
  qed
  then show "quiet px (put_r850 i (f (r850_at i px)) px)" using pins_put(1) [OF assms f] put_core by (simp add: quiet_def)
next
  assume g: "rt710_keeps_bus True g"
  have "ready_kept px (put_rt710 i (g (rt710_at i px)) px)" unfolding ready_kept_def
  proof (intro allI impI)
    fix mem j assume w: "wired mem px" and r: "ready (px_chrdev4 px ! j)"
    have "i < length (px_chrdev4 px)" using wired_length [OF w] assms by simp
    then show "ready (px_chrdev4 (put_rt710 i (g (rt710_at i px)) px) ! j)"
      using r ready_put(2) [where c = "px_chrdev4 px ! i", OF rt710_result(3) [OF g assms w TrueI]]
      by (cases "j = i") (simp_all add: put_nth)
  qed
  then show "quiet px (put_rt710 i (g (rt710_at i px)) px)" using pins_put(2) [OF assms g] put_core by (simp add: quiet_def)
qed

lemma quiet_on_tuner:
  assumes "i < 4"
  shows "r850_keeps_bus True (\<lambda>t. snd (f t)) \<Longrightarrow> quiet px (snd (on_r850 i f px))"
    "r850_keeps_bus True (\<lambda>t. snd (snd (g t))) \<Longrightarrow> quiet px (snd (snd (on_r850_read i g px)))"
    "rt710_keeps_bus True (\<lambda>t. snd (h t)) \<Longrightarrow> quiet px (snd (on_rt710 i h px))"
    "rt710_keeps_bus True (\<lambda>t. snd (snd (k t))) \<Longrightarrow> quiet px (snd (snd (on_rt710_read i k px)))"
  using quiet_put(1) [OF assms, of "\<lambda>t. snd (f t)" px] quiet_put(1) [OF assms, of "\<lambda>t. snd (snd (g t))" px]
    quiet_put(2) [OF assms, of "\<lambda>t. snd (h t)" px] quiet_put(2) [OF assms, of "\<lambda>t. snd (snd (k t))" px]
  by (simp_all add: on_r850_def on_r850_read_def on_rt710_def on_rt710_read_def put_r850_def put_rt710_def Let_def case_prod_beta)

lemma tuner_calls_keep:
  "r850_keeps_bus True (\<lambda>t. snd (r850_sleep t))" "r850_keeps_bus True (\<lambda>t. snd (r850_wakeup t))"
  "r850_keeps_bus True (\<lambda>t. snd (r850_set_system sc t))" "r850_keeps_bus True (\<lambda>t. snd (r850_set_frequency n t))"
  "r850_keeps_bus True (\<lambda>t. snd (snd (r850_is_pll_locked l t)))"
  "rt710_keeps_bus True (\<lambda>t. snd (rt710_sleep t))" "rt710_keeps_bus True (\<lambda>t. snd (rt710_set_params n rate ro t))"
  "rt710_keeps_bus True (\<lambda>t. snd (snd (rt710_is_pll_locked l t)))"
  "rt710_keeps_bus True (\<lambda>t. snd (snd (rt710_get_rf_signal_strength ss t)))"
  unfolding r850_keeps_bus_def rt710_keeps_bus_def
  by (auto dest: bus_invariant.r8_calls bus_invariant.rt_calls bus_invariant.rt_set_params)

lemma tuner_init_keep:
  "r850_keeps_bus False (\<lambda>t. snd (r850_init t))" "r850_keeps_bus False (\<lambda>t. snd (r850_term t))"
  "rt710_keeps_bus False (\<lambda>t. snd (rt710_init t))" "rt710_keeps_bus False (\<lambda>t. snd (rt710_term t))"
  unfolding r850_keeps_bus_def rt710_keeps_bus_def
  by (auto dest: bus_invariant.r8_calls bus_invariant.rt_calls)

section \<open>The steps of the receivers\<close>

lemma quiet_ignoring: "quiet px (snd (f px)) \<Longrightarrow> quiet px (snd (ignoring f px))"
  by (simp add: ignoring_def)

lemma quiet_zero: "quiet px (snd (0, px))"
  by simp

lemma quiet_pll_loop: "(\<And>l u. quiet u (snd (snd (f l u)))) \<Longrightarrow> quiet px (snd (snd (pll_loop n f ret l px)))"
proof (induction n arbitrary: ret l px)
  case (Suc n)
  show ?case using Suc.prems [of px l] Suc.IH [OF Suc.prems, where px = "snd (snd (f l px))"]
    by (auto simp: case_prod_beta Let_def intro: quiet_trans)
qed simp

lemma quiet_wait_pll: "(\<And>l u. quiet u (snd (snd (f l u)))) \<Longrightarrow> quiet px (snd (wait_pll f px))"
  unfolding wait_pll_def Let_def case_prod_beta snd_conv by (rule quiet_pll_loop)

lemmas quiet_calls = quiet_on_demod [OF demod_keeps_calls(1)] quiet_on_demod [OF demod_keeps_calls(2)]
  quiet_on_demod [OF demod_keeps_calls(3)] quiet_on_demod [OF demod_keeps_calls(4)] quiet_on_demod [OF demod_keeps_calls(5)]
  quiet_on_demod [OF demod_keeps_calls(6)] quiet_on_demod [OF demod_keeps_calls(7)] quiet_on_demod [OF demod_keeps_calls(8)]
  quiet_on_tuner(1) [OF _ tuner_calls_keep(1)] quiet_on_tuner(1) [OF _ tuner_calls_keep(2)]
  quiet_on_tuner(1) [OF _ tuner_calls_keep(3)] quiet_on_tuner(1) [OF _ tuner_calls_keep(4)]
  quiet_on_tuner(2) [OF _ tuner_calls_keep(5)] quiet_on_tuner(3) [OF _ tuner_calls_keep(6)]
  quiet_on_tuner(3) [OF _ tuner_calls_keep(7)] quiet_on_tuner(4) [OF _ tuner_calls_keep(8)]
  quiet_on_tuner(4) [OF _ tuner_calls_keep(9)] quiet_ignoring quiet_wait_pll

lemma quiet_receiver:
  assumes "i < 4"
  shows "quiet px (snd (receiver_sleep env i px))" "quiet px (snd (release_sleep env i px))"
    "quiet px (snd (wake_up_receiver i px))" "quiet px (snd (enable_pins i e px))" "quiet px (snd (first_open_regs px))"
  unfolding receiver_sleep_def release_sleep_def wake_up_receiver_def enable_pins_def first_open_regs_def using assms
  by (auto simp: quiet_calls simp del: run_all.simps intro!: quiet_run_all split: if_splits)

lemma quiet_sleep_others: "quiet px (snd (sleep_others env i px))"
  unfolding sleep_others_def run_each_def
  by (rule quiet_run_all) (auto simp: quiet_receiver)

lemma quiet_tune:
  assumes "i < 4"
  shows "quiet px (snd (px4_chrdev_tune_t i prm px))" "quiet px (snd (px4_chrdev_tune_s i prm px))"
proof -
  have r: "quiet u (snd (read_strength i u))" for u :: "'a px4_device"
    using quiet_on_tuner(4) [OF assms tuner_calls_keep(9), of u 0] by (simp add: read_strength_def Let_def case_prod_beta)
  show "quiet px (snd (px4_chrdev_tune_t i prm px))" "quiet px (snd (px4_chrdev_tune_s i prm px))"
    unfolding px4_chrdev_tune_t_def px4_chrdev_tune_s_def using assms
    by (auto simp: quiet_calls r simp del: run_all.simps intro!: quiet_run_all)
qed

lemma demod_keeps_loops:
  "demod_keeps (\<lambda>dm b. snd (snd (tsid_loop dm is acc b)))"
  "demod_keeps (\<lambda>dm b. snd (set_stream_id env sid dm b))"
proof -
  have a: "gview (snd (snd (tsid_loop dm is acc b))) = V" "gview (snd (snd (tsid_wait n dm idx r u b))) = V"
      "gview (snd (snd (slot_wait n dm tsid r u b))) = V"
    if D: "bus_demod (i2c_bus m) (\<lambda>b. gview b = V) dm" and "gview b = V" for dm V b m "is" acc n idx r u tsid
  proof -
    note keep = bus_demod.tc_reads [OF D]
    show "gview (snd (snd (tsid_loop dm is acc b))) = V" using that(2)
      by (induction "is" arbitrary: acc b) (auto simp: keep Let_def case_prod_beta)
    show "gview (snd (snd (tsid_wait n dm idx r u b))) = V" using that(2)
      by (induction n arbitrary: r u b) (auto simp: keep Let_def case_prod_beta)
    show "gview (snd (snd (slot_wait n dm tsid r u b))) = V" using that(2)
      by (induction n arbitrary: r u b) (auto simp: keep Let_def case_prod_beta)
  qed
  show "demod_keeps (\<lambda>dm b. snd (snd (tsid_loop dm is acc b)))" unfolding demod_keeps_def using a(1) by blast
  have b: "gview (snd (select_tsid env tsid dm b)) = V"
    if D: "bus_demod (i2c_bus m) (\<lambda>b. gview b = V) dm" and "gview b = V" for dm V b m tsid
    using a(3) [OF D] bus_demod.tc_calls(7) [OF D] that(2) by (simp add: select_tsid_def Let_def case_prod_beta)
  have "gview (snd (set_stream_id env sid dm b)) = V"
    if D: "bus_demod (i2c_bus m) (\<lambda>b. gview b = V) dm" and "gview b = V" for dm V b m
    using a(2) [OF D] b [OF D] that(2) by (simp add: set_stream_id_def Let_def case_prod_beta)
  then show "demod_keeps (\<lambda>dm b. snd (set_stream_id env sid dm b))" unfolding demod_keeps_def by blast
qed

lemma quiet_queries:
  assumes "i < 4"
  shows "quiet px (snd (snd (px4_chrdev_check_lock_t i px)))" "quiet px (snd (snd (px4_chrdev_check_lock_s i px)))"
    "quiet px (snd (snd (px4_chrdev_read_tmcc_partial_reception_t i px)))"
    "quiet px (snd (snd (px4_chrdev_read_tmcc_tsid_list_s i px)))" "quiet px (snd (px4_chrdev_set_stream_id_s env i sid px))"
    "quiet px (snd (snd (px4_chrdev_read_cnr_raw_t i v px)))" "quiet px (snd (snd (px4_chrdev_read_cnr_raw_s i v px)))"
proof -
  note q = quiet_on_demod_read [OF demod_keeps_reads(1) assms] quiet_on_demod_read [OF demod_keeps_reads(2) assms]
    quiet_on_demod_read [OF demod_keeps_reads(3) assms] quiet_on_demod_read [OF demod_keeps_reads(4) assms]
    quiet_on_demod_read [OF demod_keeps_reads(5) assms] quiet_on_demod_read [OF demod_keeps_loops(1) assms]
    quiet_on_demod [OF demod_keeps_loops(2) assms]
  show "quiet px (snd (snd (px4_chrdev_read_tmcc_tsid_list_s i px)))"
    unfolding px4_chrdev_read_tmcc_tsid_list_s_def Let_def case_prod_beta
    by (auto intro: q quiet_trans [OF q(1)] quiet_trans [OF quiet_trans [OF q(1) q(6)] q(1)] quiet_trans [OF q(1) q(6)])
qed (use assms in \<open>simp_all add: px4_chrdev_check_lock_t_def px4_chrdev_check_lock_s_def px4_chrdev_set_stream_id_s_def
    px4_chrdev_read_tmcc_partial_reception_t_def px4_chrdev_read_cnr_raw_t_def px4_chrdev_read_cnr_raw_s_def Let_def
    case_prod_beta quiet_on_demod_read demod_keeps_reads quiet_on_demod demod_keeps_loops\<close>)

section \<open>Initialising and ending the tuners\<close>

text \<open>These keep the device and the pins, and make tuners ready or not.\<close>

definition stirs :: "'d px4_device \<Rightarrow> 'd px4_device \<Rightarrow> bool" where
  "stirs px px' \<longleftrightarrow> same_core px px' \<and> pins_kept px px'"

lemma quiet_stirs: "quiet px px' \<Longrightarrow> stirs px px'"
  by (simp add: quiet_def stirs_def)

lemma stirs_refl [simp]: "stirs px px"
  by (simp add: stirs_def)

lemma stirs_trans: "stirs a b \<Longrightarrow> stirs b c \<Longrightarrow> stirs a c"
  using same_core_trans pins_kept_trans unfolding stirs_def by blast

lemma on_tuner_put:
  "on_r850 i f px = (fst (f (r850_at i px)), put_r850 i (snd (f (r850_at i px))) px)"
  "on_rt710 i g px = (fst (g (rt710_at i px)), put_rt710 i (snd (g (rt710_at i px))) px)"
  by (simp_all add: on_r850_def on_rt710_def put_r850_def put_rt710_def Let_def case_prod_beta)

lemma stirs_tuner:
  assumes "i < 4"
  shows "stirs px (snd (tuner_init i px))" "stirs px (snd (tuner_term i px))"
  using pins_put(1) [OF assms tuner_init_keep(1), of px] pins_put(1) [OF assms tuner_init_keep(2), of px]
    pins_put(2) [OF assms tuner_init_keep(3), of px] pins_put(2) [OF assms tuner_init_keep(4), of px]
  by (simp_all add: put_core tuner_init_def tuner_term_def on_tuner_put ignoring_def stirs_def)

lemma stirs_backend: "stirs px (snd (px4_backend_init px))" "stirs px (snd (px4_backend_term px))"
  unfolding px4_backend_init_def px4_backend_term_def run_each_def
  by (rule run_all_inv [where P = "stirs px"]; use stirs_tuner stirs_trans in \<open>fastforce\<close>)+

lemma tuner_init_ready:
  assumes "fst (tuner_init i px) = 0" "wired mem px" "i < 4" "j = i \<or> ready (px_chrdev4 px ! j)"
  shows "ready (px_chrdev4 (snd (tuner_init i px)) ! j)"
proof -
  have l: "i < length (px_chrdev4 px)" using wired_length [OF assms(2)] assms(3) by simp
  note W = wired_nth [OF assms(2,3)]
  note B = tuner_bus [OF W(1), of mem "gview (px_bridge px)"]
  have "r8_init (snd (r850_init (r850_at i px)))" if "fst (r850_init (r850_at i px)) = 0"
    using r850_init_sets that by blast
  moreover have "rt_init (snd (rt710_init (rt710_at i px)))" if "fst (rt710_init (rt710_at i px)) = 0"
    using bus_invariant.rt_calls(6) [OF B _ that, of False] bus_invariant.rt_on_def [OF B] W by simp
  ultimately show ?thesis using assms(1,4) l
    by (auto simp: tuner_init_def on_tuner_put put_nth ready_def split: if_splits)
qed

lemma run_tuner_init_ready:
  assumes "fst (run_each tuner_init is px) = 0" "wired mem px" "set is \<subseteq> {..<4}" "j \<in> set is \<or> ready (px_chrdev4 px ! j)"
  shows "ready (px_chrdev4 (snd (run_each tuner_init is px)) ! j)"
  using assms
proof (induction "is" arbitrary: px)
  case (Cons i "is")
  obtain r u where t: "tuner_init i px = (r, u)" by fastforce
  have "i < 4" using Cons.prems(3) by simp
  then have "wired mem u" using stirs_tuner(1) [of i px] Cons.prems(2) t by (simp add: stirs_def pins_kept_def)
  moreover have r: "r = 0" using Cons.prems(1) t by (simp add: run_each_def split: if_splits)
  then have "j \<in> set is \<or> ready (px_chrdev4 u ! j)"
    using tuner_init_ready [OF _ Cons.prems(2) \<open>i < 4\<close>, of j] Cons.prems(4) t by auto
  ultimately show ?case using Cons.IH [of u] Cons.prems t r by (simp add: run_each_def)
qed (simp add: run_each_def)

lemma backend_init_ready:
  "px4_backend_init px = (0, px') \<Longrightarrow> wired mem px \<Longrightarrow> j < 4 \<Longrightarrow> ready (px_chrdev4 px' ! j)"
  using run_tuner_init_ready [of "[0..<4]" px mem j] by (force simp: px4_backend_init_def)

end
