(* ===== verification/Px4_Device_Inv.thy ===== *)
theory Px4_Device_Inv
  imports Px4_Quiet
begin

text \<open>
  The life of a board as a step relation: files opened and closed, receivers tuned, captures started and
  stopped, the card reader powered, the partner board at work, the device unplugged, unregistered and given up. The
  receiver layer holds references to the device too: one for its group, and one for every open file beside the one
  the device takes itself. What that layer guarantees (one file per receiver, calls on open files only, a capture
  stopped before the file is closed) and the card reader (its power is switched when it changes) are the premises of the steps. The counters of the device are exact along
  every run.
\<close>

section \<open>Steps\<close>

record 'd px4_sys =
  sys_px :: "'d px4_device"
  sys_capturing :: "nat set"
  sys_unregistered :: bool
  sys_gone :: bool

datatype px4_request =
  Tune_t ptx_tune_params | Tune_s ptx_tune_params | Check_lock_t | Check_lock_s | Partial_reception | Tsid_list |
  Stream_id u16 | Cnr_raw_t u32 | Cnr_raw_s u32

primrec px4_request_do :: "'d px4_env \<Rightarrow> nat \<Rightarrow> 'd px4_device \<Rightarrow> px4_request \<Rightarrow> 'd px4_device" where
  "px4_request_do env i px (Tune_t prm) = snd (px4_chrdev_tune_t i prm px)"
| "px4_request_do env i px (Tune_s prm) = snd (px4_chrdev_tune_s i prm px)"
| "px4_request_do env i px Check_lock_t = snd (snd (px4_chrdev_check_lock_t i px))"
| "px4_request_do env i px Check_lock_s = snd (snd (px4_chrdev_check_lock_s i px))"
| "px4_request_do env i px Partial_reception = snd (snd (px4_chrdev_read_tmcc_partial_reception_t i px))"
| "px4_request_do env i px Tsid_list = snd (snd (px4_chrdev_read_tmcc_tsid_list_s i px))"
| "px4_request_do env i px (Stream_id sid) = snd (px4_chrdev_set_stream_id_s env i sid px)"
| "px4_request_do env i px (Cnr_raw_t v) = snd (snd (px4_chrdev_read_cnr_raw_t i v px))"
| "px4_request_do env i px (Cnr_raw_s v) = snd (snd (px4_chrdev_read_cnr_raw_s i v px))"

lemma quiet_request: "i < 4 \<Longrightarrow> quiet px (px4_request_do env i px r)"
  by (cases r) (simp_all add: quiet_tune quiet_queries)

text \<open>What the card reader asks of the bridge.\<close>

datatype card_io = Io_init | Io_detect | Io_reset | Io_baudrate u32 | Io_ready | Io_read u8 | Io_write "u8 list"

primrec card_io_do :: "card_io \<Rightarrow> 'd it930x_bridge \<Rightarrow> 'd it930x_bridge" where
  "card_io_do Io_init b = snd (it930x_bcas_init b)"
| "card_io_do Io_detect b =
     (let b1 = snd (it930x_set_gpio_mode 6 IT930X_GPIO_IN True b) in snd (snd (it930x_bcas_detect_card False b1)))"
| "card_io_do Io_reset b = snd (it930x_bcas_reset_card b)"
| "card_io_do (Io_baudrate n) b = snd (it930x_bcas_set_baudrate n b)"
| "card_io_do Io_ready b = snd (snd (it930x_bcas_check_ready False b))"
| "card_io_do (Io_read n) b = snd (snd (it930x_bcas_get_data n b))"
| "card_io_do (Io_write buf) b = snd (it930x_bcas_send_data buf b)"

abbreviation (input) open_of :: "nat \<Rightarrow> 'd px4_device \<Rightarrow> bool" where
  "open_of i px \<equiv> c4_open (px_chrdev4 px ! i)"

inductive px4_step :: "'d px4_env \<Rightarrow> 'd px4_sys \<Rightarrow> 'd px4_sys \<Rightarrow> bool" for env where
  opened: "i < 4 \<Longrightarrow> \<not> sys_unregistered s \<Longrightarrow> \<not> open_of i (sys_px s) \<Longrightarrow>
    px4_chrdev_open env i ((sys_px s)\<lparr>px_kref := px_kref (sys_px s) + 1\<rparr>) = (ret, px) \<Longrightarrow>
    px4_step env s (s\<lparr>sys_px := if ret = 0 then set_c4 i (\<lambda>c. c\<lparr>c4_open := True\<rparr>) px else px4_kref_put px\<rparr>)"
| released: "i < 4 \<Longrightarrow> open_of i (sys_px s) \<Longrightarrow> i \<notin> sys_capturing s \<Longrightarrow> px4_chrdev_release env i (sys_px s) = (ret, px) \<Longrightarrow>
    px4_step env s (s\<lparr>sys_px := px4_kref_put (set_c4 i (\<lambda>c. c\<lparr>c4_open := False\<rparr>) px)\<rparr>)"
| lnb: "i < 4 \<Longrightarrow> open_of i (sys_px s) \<Longrightarrow>
    px4_step env s (s\<lparr>sys_px := snd (px4_chrdev_set_lnb_voltage_s i v (sys_px s))\<rparr>)"
| used: "i < 4 \<Longrightarrow> open_of i (sys_px s) \<Longrightarrow> px4_step env s (s\<lparr>sys_px := px4_request_do env i (sys_px s) r\<rparr>)"
| started: "i < 4 \<Longrightarrow> open_of i (sys_px s) \<Longrightarrow> i \<notin> sys_capturing s \<Longrightarrow>
    px4_chrdev_set_capture env i True (sys_px s) = (ret, px) \<Longrightarrow>
    px4_step env s (s\<lparr>sys_px := px, sys_capturing := (if ret = 0 then insert i (sys_capturing s) else sys_capturing s)\<rparr>)"
| stopped: "i \<in> sys_capturing s \<Longrightarrow>
    px4_step env s (s\<lparr>sys_px := snd (px4_chrdev_set_capture env i False (sys_px s)), sys_capturing := sys_capturing s - {i}\<rparr>)"
| card_power: "\<not> sys_unregistered s \<Longrightarrow> st \<noteq> pw_card_powered (px_power (sys_px s)) \<Longrightarrow>
    px4_step env s (s\<lparr>sys_px := snd (on_board (px4_device_set_card_power st) (sys_px s))\<rparr>)"
| card_used: "\<not> sys_unregistered s \<Longrightarrow> px4_step env s (s\<lparr>sys_px := set_bridge (card_io_do r (px_bridge (sys_px s))) (sys_px s)\<rparr>)"
| partner: "pw_mldev (px_power (sys_px s)) = Some m \<Longrightarrow>
    px4_step env s (s\<lparr>sys_px := set_px_power (\<lambda>p. p\<lparr>pw_mldev := Some m'\<rparr>) (sys_px s)\<rparr>)"
| unplugged: "px4_step env s (s\<lparr>sys_px := (sys_px s)\<lparr>px_board := (px_board (sys_px s))\<lparr>bd_available := False\<rparr>\<rparr>\<rparr>)"
| unregistered: "\<not> bd_available (px_board (sys_px s)) \<Longrightarrow> \<not> sys_unregistered s \<Longrightarrow>
    px4_step env s (s\<lparr>sys_px := px4_kref_put (sys_px s), sys_unregistered := True\<rparr>)"
| given_up: "sys_unregistered s \<Longrightarrow> \<not> sys_gone s \<Longrightarrow>
    px4_step env s (s\<lparr>sys_px := px4_kref_put (sys_px s), sys_gone := True\<rparr>)"

text \<open>The device as its initialisation leaves it: wired up, nothing in use, referenced by the driver and by the group of its
  receivers.\<close>

definition px4_start :: "bool \<Rightarrow> 'd px4_device \<Rightarrow> bool" where
  "px4_start mem px \<longleftrightarrow> wired mem px \<and> (\<forall>c \<in> set (px_chrdev4 px). \<not> c4_open c \<and> \<not> c4_lnb_power c) \<and> px_kref px = 2 \<and>
     px_lnb_power_count px = 0 \<and> px_streaming_count px = 0 \<and> pw_open_count (px_power px) = 0 \<and> \<not> pw_card_powered (px_power px)"

definition px4_run :: "'d px4_env \<Rightarrow> 'd px4_device \<Rightarrow> 'd px4_sys \<Rightarrow> bool" where
  "px4_run env px s \<longleftrightarrow> (px4_step env)\<^sup>*\<^sup>* \<lparr>sys_px = px, sys_capturing = {}, sys_unregistered = False, sys_gone = False\<rparr> s"

section \<open>What the counters count\<close>

definition opens :: "'d px4_device \<Rightarrow> nat set" where
  "opens px = {i. i < 4 \<and> open_of i px}"

definition lnbs :: "'d px4_device \<Rightarrow> nat set" where
  "lnbs px = {i. i < 4 \<and> c4_lnb_power (px_chrdev4 px ! i)}"

text \<open>The part of the device the counters are in. Calls that work on chips, pins and the manager keep it.\<close>

definition book :: "'d px4_device \<Rightarrow> bool \<times> nat \<times> bool \<times> nat \<times> u32 \<times> u32 \<times> (bool \<times> bool) list" where
  "book px = (bd_available (px_board px), pw_open_count (px_power px), pw_card_powered (px_power px), px_kref px,
     px_lnb_power_count px, px_streaming_count px, map (\<lambda>c. (c4_open c, c4_lnb_power c)) (px_chrdev4 px))"

lemma same_core_book: "same_core px px' \<Longrightarrow> book px' = book px"
proof -
  assume a: "same_core px px'"
  then have "map (\<lambda>c. (c4_open c, c4_lnb_power c)) (px_chrdev4 px') =
      map ((\<lambda>(_, o', l, _). (o', l)) \<circ> shell) (px_chrdev4 px')"
    "map (\<lambda>c. (c4_open c, c4_lnb_power c)) (px_chrdev4 px) = map ((\<lambda>(_, o', l, _). (o', l)) \<circ> shell) (px_chrdev4 px)"
    by (simp_all add: shell_def)
  moreover have "map shell (px_chrdev4 px') = map shell (px_chrdev4 px)" using a by (simp add: same_core_def)
  ultimately have "map (\<lambda>c. (c4_open c, c4_lnb_power c)) (px_chrdev4 px') = map (\<lambda>c. (c4_open c, c4_lnb_power c)) (px_chrdev4 px)"
    by (simp flip: map_map)
  then show ?thesis using a by (simp add: book_def same_core_def)
qed

lemma stirs_book: "stirs px px' \<Longrightarrow> book px' = book px"
  by (simp add: stirs_def same_core_book)

lemma quiet_book: "quiet px px' \<Longrightarrow> book px' = book px"
  by (simp add: quiet_stirs stirs_book)

lemma set_px_power_fields [simp]:
  "px_power (set_px_power f px) = f (px_power px)" "px_chrdev4 (set_px_power f px) = px_chrdev4 px"
  "px_bridge (set_px_power f px) = px_bridge px" "bd_available (px_board (set_px_power f px)) = bd_available (px_board px)"
  "px_kref (set_px_power f px) = px_kref px" "px_lnb_power_count (set_px_power f px) = px_lnb_power_count px"
  "px_streaming_count (set_px_power f px) = px_streaming_count px"
  by (simp_all add: set_px_power_def)

lemma book_mldev [simp]: "book (set_px_power (\<lambda>p. p\<lparr>pw_mldev := m\<rparr>) px) = book px"
  by (simp add: book_def)

lemma book_bridge [simp]: "book (set_bridge b px) = book px"
  by (simp add: book_def)

lemma on_board_power: "snd (on_board (px4_backend_set_power st) px) =
    set_bridge (bd_it930x (snd (px4_backend_set_power st (px_board px)))) px"
  by (simp add: on_board_def set_bridge_def px4_backend_set_power_def on_bridge_def Let_def case_prod_beta)

lemma book_board_power [simp]: "book (snd (on_board (px4_backend_set_power st) px)) = book px"
  unfolding on_board_power by simp

lemma open_power_book: "book (snd (snd (open_power i px))) = book px"
  by (simp add: open_power_def Let_def case_prod_beta split: option.split)

lemma open_fail_book: "book (open_fail_backend_init i px) = book px" "book (open_fail_backend i px) = book px"
  using stirs_book [OF stirs_backend(2), of px]
  by (simp_all add: open_fail_backend_def open_fail_backend_init_def Let_def case_prod_beta split: option.split)

lemma quiet_open_steps:
  "i < 4 \<Longrightarrow> quiet px (snd (run_all ((if n then [sleep_others env i] else []) @ [wake_up_receiver i, first_open_regs]) px))"
  by (rule quiet_run_all) (auto simp: quiet_receiver quiet_sleep_others split: if_splits)

lemma open_book:
  assumes "i < 4" "px4_chrdev_open env i px = (ret, px')"
  shows "if ret = 0 then \<exists>u. book u = book px \<and>
      px' = (set_px_power (\<lambda>p. p\<lparr>pw_open_count := pw_open_count p + 1\<rparr>) u)\<lparr>px_kref := px_kref u + 1\<rparr>
    else book px' = book px"
proof -
  obtain r need u where p: "open_power i px = (r, need, u)" by (cases "open_power i px") auto
  obtain r1 u1 where i: "(if need then px4_backend_init u else (0, u)) = (r1, u1)" by fastforce
  obtain r2 u2 where w: "run_all ((if need then [sleep_others env i] else []) @ [wake_up_receiver i, first_open_regs]) u1 = (r2, u2)"
    by fastforce
  have "book u = book px" using open_power_book [of i px] p by simp
  moreover have "book u1 = book u" using stirs_book [OF stirs_backend(1), of u] i by (auto split: if_splits)
  moreover have "book u2 = book u1" using quiet_book [OF quiet_open_steps [OF assms(1), of u1 need env]] w by simp
  ultimately show ?thesis using assms(2) open_fail_book [of i u1] open_fail_book [of i u2]
    unfolding px4_chrdev_open_def p i w prod.case Let_def by (auto split: if_splits)
qed

section \<open>The counters are exact\<close>

definition counts :: "'d px4_device \<Rightarrow> nat set \<Rightarrow> nat \<Rightarrow> bool" where
  "counts px C others \<longleftrightarrow> length (px_chrdev4 px) = 4 \<and> C \<subseteq> opens px \<and> pw_open_count (px_power px) = card (opens px) \<and>
     px_streaming_count px = of_nat (card C) \<and> px_lnb_power_count px = of_nat (card (lnbs px)) \<and>
     px_kref px = 2 * card (opens px) + others"

definition other_refs :: "'d px4_sys \<Rightarrow> nat" where
  "other_refs s = (if sys_unregistered s then 0 else 1) + (if sys_gone s then 0 else 1)"

lemma opens_finite [simp]: "finite (opens px)" "finite (lnbs px)"
  by (simp_all add: opens_def lnbs_def)

lemma book_length: "book px' = book px \<Longrightarrow> length (px_chrdev4 px') = length (px_chrdev4 px)"
  by (auto simp: book_def dest: map_eq_imp_length_eq)

lemma book_nth:
  assumes "book px' = book px" "i < length (px_chrdev4 px)"
  shows "open_of i px' = open_of i px" "c4_lnb_power (px_chrdev4 px' ! i) = c4_lnb_power (px_chrdev4 px ! i)"
proof -
  have "map (\<lambda>c. (c4_open c, c4_lnb_power c)) (px_chrdev4 px') ! i = map (\<lambda>c. (c4_open c, c4_lnb_power c)) (px_chrdev4 px) ! i"
    using assms(1) by (simp add: book_def)
  then show "open_of i px' = open_of i px" "c4_lnb_power (px_chrdev4 px' ! i) = c4_lnb_power (px_chrdev4 px ! i)"
    using assms(2) book_length [OF assms(1)] by simp_all
qed

lemma book_sets:
  assumes "book px' = book px" "length (px_chrdev4 px) = 4"
  shows "opens px' = opens px" "lnbs px' = lnbs px"
  using book_nth [OF assms(1)] assms(2) by (auto simp: opens_def lnbs_def)

lemma book_fields:
  assumes "book px' = book px"
  shows "bd_available (px_board px') = bd_available (px_board px)" "pw_open_count (px_power px') = pw_open_count (px_power px)"
    "pw_card_powered (px_power px') = pw_card_powered (px_power px)" "px_kref px' = px_kref px"
    "px_lnb_power_count px' = px_lnb_power_count px" "px_streaming_count px' = px_streaming_count px"
  using assms by (simp_all add: book_def)

lemma book_counts: "book px' = book px \<Longrightarrow> counts px C g \<Longrightarrow> counts px' C g"
  unfolding counts_def using book_sets [of px' px] book_fields [of px' px] book_length [of px' px] by simp

lemma sets_set_c4:
  assumes "i < 4" "length (px_chrdev4 px) = 4"
  shows "opens (set_c4 i (\<lambda>c. c\<lparr>c4_open := b\<rparr>) px) = (if b then insert i (opens px) else opens px - {i})"
    "lnbs (set_c4 i (\<lambda>c. c\<lparr>c4_open := b\<rparr>) px) = lnbs px"
    "opens (set_c4 i (\<lambda>c. c\<lparr>c4_lnb_power := b\<rparr>) px) = opens px"
    "lnbs (set_c4 i (\<lambda>c. c\<lparr>c4_lnb_power := b\<rparr>) px) = (if b then insert i (lnbs px) else lnbs px - {i})"
  using assms by (auto simp: opens_def lnbs_def nth_list_update split: if_splits)

lemma opens_update [simp]:
  "opens (px\<lparr>px_lnb_power_count := n\<rparr>) = opens px" "lnbs (px\<lparr>px_lnb_power_count := n\<rparr>) = lnbs px"
  "opens (px\<lparr>px_kref := k\<rparr>) = opens px" "lnbs (px\<lparr>px_kref := k\<rparr>) = lnbs px"
  "opens (px\<lparr>px_streaming_count := n\<rparr>) = opens px" "lnbs (px\<lparr>px_streaming_count := n\<rparr>) = lnbs px"
  "opens (px\<lparr>px_board := bd\<rparr>) = opens px" "lnbs (px\<lparr>px_board := bd\<rparr>) = lnbs px"
  "opens (set_px_power f px) = opens px" "lnbs (set_px_power f px) = lnbs px"
  "opens (set_bridge b px) = opens px" "lnbs (set_bridge b px) = lnbs px"
  by (simp_all add: opens_def lnbs_def)

lemma power_set_c4 [simp]: "px_power (set_c4 i f px) = px_power px"
  by simp

lemma card_without:
  assumes "i \<in> A" "finite A"
  obtains n where "card A = Suc n" "card (A - {i}) = n"
  using card.remove [OF assms(2,1)] by blast

lemma lnb_counts:
  assumes "counts px C g" "i < 4"
  shows "counts (snd (px4_chrdev_set_lnb_voltage_s i v px)) C g"
proof -
  have "length (px_chrdev4 px) = 4" using assms(1) by (simp add: counts_def)
  then have s: "opens (set_c4 i (\<lambda>c. c\<lparr>c4_lnb_power := b\<rparr>) u) = opens u"
      "lnbs (set_c4 i (\<lambda>c. c\<lparr>c4_lnb_power := b\<rparr>) u) = (if b then insert i (lnbs u) else lnbs u - {i})"
    if "px_chrdev4 u = px_chrdev4 px" for b u
    using sets_set_c4(3,4) [OF assms(2), of u b] that by simp_all
  have i: "i \<in> lnbs px \<longleftrightarrow> c4_lnb_power (px_chrdev4 px ! i)" using assms(2) by (simp add: lnbs_def)
  show ?thesis
  proof (cases "i \<in> lnbs px")
    case True
    then obtain n where "card (lnbs px) = Suc n" "card (lnbs px - {i}) = n" by (rule card_without) simp_all
    then show ?thesis using assms i True
      by (auto simp: px4_chrdev_set_lnb_voltage_s_def on_bus_def counts_def s Let_def case_prod_beta)
  next
    case False
    then show ?thesis using assms i
      by (auto simp: px4_chrdev_set_lnb_voltage_s_def on_bus_def counts_def s Let_def case_prod_beta)
  qed
qed

lemma release_power_book: "book (px4_device_release px) = book px"
  by (simp add: px4_device_release_def Let_def split: option.split)

lemma kref_put_book: "book (px4_kref_put px) = book (px\<lparr>px_kref := px_kref px - 1\<rparr>)"
  by (simp add: px4_kref_put_def Let_def release_power_book)

lemma open_counts:
  assumes "counts px C k" "i < 4" "\<not> open_of i px" "px4_chrdev_open env i (px\<lparr>px_kref := px_kref px + 1\<rparr>) = (ret, px')"
  shows "counts (if ret = 0 then set_c4 i (\<lambda>c. c\<lparr>c4_open := True\<rparr>) px' else px4_kref_put px') C k"
proof (cases "ret = 0")
  case True
  then obtain u where u: "book u = book (px\<lparr>px_kref := px_kref px + 1\<rparr>)"
      "px' = (set_px_power (\<lambda>p. p\<lparr>pw_open_count := pw_open_count p + 1\<rparr>) u)\<lparr>px_kref := px_kref u + 1\<rparr>"
    using open_book [OF assms(2,4)] by auto
  have c: "counts u C (k + 1)" by (rule book_counts [OF u(1)]) (use assms(1) in \<open>simp add: counts_def\<close>)
  moreover have "length (px_chrdev4 px') = 4" using c u(2) by (simp add: counts_def)
  moreover have "i \<notin> opens u" using assms(1,3) book_sets [OF u(1)] by (simp add: counts_def opens_def)
  ultimately show ?thesis using assms(2) True by (auto simp: counts_def sets_set_c4 u(2))
next
  case False
  then have b: "book px' = book (px\<lparr>px_kref := px_kref px + 1\<rparr>)" using open_book [OF assms(2,4)] by simp
  have "book (px4_kref_put px') = book (px'\<lparr>px_kref := px_kref px' - 1\<rparr>)" by (rule kref_put_book)
  also have "\<dots> = book px" using b by (simp add: book_def)
  finally show ?thesis using book_counts [OF _ assms(1)] False by simp
qed

lemma release_book:
  assumes "px4_chrdev_release env i px = (ret, px')" "i < 4"
    and u: "u = snd (px4_chrdev_set_lnb_voltage_s i 0 px)" and n: "pw_open_count (px_power u) \<noteq> 0"
  shows "ret = 0" "book px' = book ((set_px_power (\<lambda>p. p\<lparr>pw_open_count := pw_open_count p - 1\<rparr>) u)\<lparr>px_kref := px_kref u - 1\<rparr>)"
proof -
  define u1 where "u1 = set_px_power (\<lambda>p. p\<lparr>pw_open_count := pw_open_count (px_power u) - 1\<rparr>) u"
  define t where "t = snd (px4_backend_term u1)"
  define u2 where "u2 = (if pw_open_count (px_power u) - 1 = 0 then
        if pw_mldev (px_power t) = None \<and> \<not> pw_card_powered (px_power t) then snd (on_board (px4_backend_set_power False) t) else t
      else if bd_available (px_board u1) then snd (release_sleep env i u1) else u1)"
  define u3 where "u3 = (case pw_mldev (px_power u2) of None \<Rightarrow> u2 | Some m \<Rightarrow>
      set_px_power (\<lambda>p. p\<lparr>pw_mldev := Some (snd (snd (px4_mldev_set_power (pw_switch (px_power u2)) m (pw_ref (px_power u2)) i False)))\<rparr>) u2)"
  have r: "(ret, px') = (0, px4_kref_put u3)" using assms(1) n
    unfolding px4_chrdev_release_def Let_def u [symmetric] case_prod_beta u3_def u2_def t_def u1_def by simp
  then show "ret = 0" by simp
  have "book t = book u1" by (simp add: t_def stirs_book stirs_backend)
  then have "book u2 = book u1" using quiet_book [OF quiet_receiver(2) [OF assms(2), of u1 env]] by (simp add: u2_def)
  moreover have "book u3 = book u2" by (simp add: u3_def split: option.split)
  ultimately have e: "book u3 = book u1" by simp
  have "book px' = book (u3\<lparr>px_kref := px_kref u3 - 1\<rparr>)" using r by (simp add: kref_put_book)
  then show "book px' = book ((set_px_power (\<lambda>p. p\<lparr>pw_open_count := pw_open_count p - 1\<rparr>) u)\<lparr>px_kref := px_kref u - 1\<rparr>)"
    using e by (simp add: book_def u1_def)
qed

lemma release_counts:
  assumes "counts px C g" "i < 4" "open_of i px" "i \<notin> C" "px4_chrdev_release env i px = (ret, px')"
  shows "ret = 0" "px_kref px' \<noteq> 0" "counts (px4_kref_put (set_c4 i (\<lambda>c. c\<lparr>c4_open := False\<rparr>) px')) C g"
proof -
  define u where "u = snd (px4_chrdev_set_lnb_voltage_s i 0 px)"
  have c: "counts u C g" unfolding u_def by (rule lnb_counts [OF assms(1,2)])
  have l: "length (px_chrdev4 px) = 4" using assms(1) by (simp add: counts_def)
  then have "open_of i u = open_of i px" using assms(2)
    by (simp add: u_def px4_chrdev_set_lnb_voltage_s_def on_bus_def Let_def case_prod_beta)
  then have o: "i \<in> opens u" using assms(2,3) by (simp add: opens_def)
  then have n: "pw_open_count (px_power u) \<noteq> 0" using c by (auto simp: counts_def)
  define w where "w = (set_px_power (\<lambda>p. p\<lparr>pw_open_count := pw_open_count p - 1\<rparr>) u)\<lparr>px_kref := px_kref u - 1\<rparr>"
  note b = release_book [OF assms(5,2) u_def n, folded w_def]
  show "ret = 0" by (rule b(1))
  have w: "opens w = opens u" "lnbs w = lnbs u" "length (px_chrdev4 w) = 4" using c by (simp_all add: w_def counts_def)
  have e: "opens px' = opens u" "lnbs px' = lnbs u" "length (px_chrdev4 px') = 4"
    using book_sets [OF b(2) w(3)] w book_length [OF b(2)] by simp_all
  obtain n where k: "card (opens u) = Suc n" "card (opens u - {i}) = n" using o by (rule card_without) simp
  note f = book_fields [OF b(2)]
  have p: "pw_open_count (px_power px') = n" "px_kref px' = 2 * n + g + 1" "px_streaming_count px' = of_nat (card C)"
    "px_lnb_power_count px' = of_nat (card (lnbs px'))" using c f(2,4,5,6) k(1) e(2) by (simp_all add: w_def counts_def)
  then show "px_kref px' \<noteq> 0" by simp
  have "C \<subseteq> opens u - {i}" using c assms(4) by (auto simp: counts_def)
  then have "counts ((set_c4 i (\<lambda>c. c\<lparr>c4_open := False\<rparr>) px')\<lparr>px_kref := px_kref px' - 1\<rparr>) C g"
    unfolding counts_def opens_update sets_set_c4(1,2) [OF assms(2) e(3)] using p e(1) k(2) e(3) by simp
  then show "counts (px4_kref_put (set_c4 i (\<lambda>c. c\<lparr>c4_open := False\<rparr>) px')) C g"
    by (rule book_counts [rotated]) (simp add: kref_put_book)
qed

text \<open>Capture: everything but the count of streams is left alone.\<close>

lemma book_remain [simp]: "book (px\<lparr>px_remain_len := n\<rparr>) = book px"
  by (simp add: book_def)

lemma on_bus_book [simp]: "book (snd (on_bus f px)) = book px"
  by (simp add: on_bus_def Let_def case_prod_beta)

lemma start_book:
  assumes "px4_chrdev_set_capture env i True px = (ret, px')" "i < 4"
  shows "if ret = 0 then book px' = book (px\<lparr>px_streaming_count := px_streaming_count px + 1\<rparr>) else book px' = book px"
proof -
  define fs :: "'a px4_device call list" where "fs = (if px_streaming_count px = 0 then [on_bus (it930x_purge_psb (pe_kmalloc env) (pe_psb_purge_timeout env))] else []) @
    [enable_pins i True]"
  obtain r u where u: "run_all fs px = (r, u)" by fastforce
  define u1 where "u1 = snd (if px_streaming_count px = 0 then on_bus (pe_start_streaming env) (u\<lparr>px_remain_len := 0\<rparr>) else (0, u))"
  have "quiet px (snd (run_all fs px))"
    by (rule quiet_run_all) (auto simp: fs_def quiet_receiver [OF assms(2)] quiet_on_bus purge_view split: if_splits)
  then have b: "book u = book px" using u by (simp add: quiet_book)
  then have c: "book u1 = book px" by (simp add: u1_def)
  have "book (snd (enable_pins i False u1)) = book u1" by (rule quiet_book [OF quiet_receiver(4) [OF assms(2)]])
  moreover have "book (u1\<lparr>px_streaming_count := px_streaming_count u1 + 1\<rparr>) = book (px\<lparr>px_streaming_count := px_streaming_count px + 1\<rparr>)"
    using c by (simp add: book_def)
  ultimately show ?thesis using assms(1) b c
    unfolding px4_chrdev_set_capture_def px4_chrdev_start_capture_def if_True Let_def
    unfolding fs_def [symmetric] u prod.case
    by (auto simp: u1_def case_prod_beta split: if_splits)
qed

lemma stop_book:
  assumes "px_streaming_count px \<noteq> 0" "i < 4"
  shows "book (snd (px4_chrdev_set_capture env i False px)) = book (px\<lparr>px_streaming_count := px_streaming_count px - 1\<rparr>)"
proof -
  define u where "u = px\<lparr>px_streaming_count := px_streaming_count px - 1\<rparr>"
  define w where "w = (if px_streaming_count u = 0 then snd (on_bus (pe_stop_streaming env) u) else u)"
  have "book w = book u" by (simp add: w_def)
  moreover have "book (snd (enable_pins i False w)) = book w" by (rule quiet_book [OF quiet_receiver(4) [OF assms(2)]])
  ultimately show ?thesis using assms(1)
    by (simp add: px4_chrdev_set_capture_def px4_chrdev_stop_capture_def Let_def flip: u_def w_def)
qed

lemma start_counts:
  assumes "counts px C g" "i < 4" "open_of i px" "i \<notin> C" "px4_chrdev_set_capture env i True px = (ret, px')"
  shows "counts px' (if ret = 0 then insert i C else C) g"
proof -
  have "finite C" using assms(1) finite_subset [of C "opens px"] by (simp add: counts_def)
  then have "counts (px\<lparr>px_streaming_count := px_streaming_count px + 1\<rparr>) (insert i C) g"
    using assms(1-4) by (auto simp: counts_def opens_def)
  then show ?thesis using start_book [OF assms(5,2)] book_counts assms(1) by (auto split: if_splits)
qed

lemma stop_counts:
  assumes "counts px C g" "i \<in> C"
  shows "counts (snd (px4_chrdev_set_capture env i False px)) (C - {i}) g"
proof -
  have c: "C \<subseteq> opens px" "finite C" using assms(1) finite_subset [of C "opens px"] by (simp_all add: counts_def)
  then have "card C \<le> card {..<4 :: nat}" by (intro card_mono) (auto simp: opens_def)
  obtain n where n: "card C = Suc n" "card (C - {i}) = n" using assms(2) c(2) by (rule card_without)
  have "(of_nat (Suc n) :: u32) \<noteq> 0" using \<open>card C \<le> card {..<4 :: nat}\<close> n(1)
    by (simp add: word_unat_eq_iff unat_of_nat take_bit_nat_eq_self del: of_nat_Suc)
  then have "px_streaming_count px \<noteq> 0" using assms(1) n(1) by (simp add: counts_def)
  moreover have "counts (px\<lparr>px_streaming_count := px_streaming_count px - 1\<rparr>) (C - {i}) g"
    using assms n by (auto simp: counts_def)
  moreover have "i < 4" using c(1) assms(2) by (auto simp: opens_def)
  ultimately show ?thesis using stop_book book_counts by blast
qed

lemma card_power_counts: "counts px C g \<Longrightarrow> counts (snd (on_board (px4_device_set_card_power st) px)) C g"
  by (simp add: counts_def on_board_def px4_device_set_card_power_def px4_backend_set_power_def on_bridge_def Let_def
      case_prod_beta opens_def lnbs_def split: option.split)

lemma step_counts:
  assumes "px4_step env s s'" "counts (sys_px s) (sys_capturing s) (other_refs s)"
  shows "counts (sys_px s') (sys_capturing s') (other_refs s')"
  using assms
proof (cases rule: px4_step.cases)
  case (opened i ret px)
  then show ?thesis using open_counts [OF assms(2), of i env ret px] by (simp add: other_refs_def)
next
  case (released i ret px)
  then show ?thesis using release_counts(3) [OF assms(2)] by (simp add: other_refs_def)
next
  case (started i ret px)
  then show ?thesis using start_counts [OF assms(2), of i env ret px] by (simp add: other_refs_def)
next
  case (unregistered)
  have "counts (px4_kref_put (sys_px s)) (sys_capturing s) (other_refs s - 1)"
    by (rule book_counts [OF kref_put_book]) (use unregistered assms(2) in \<open>auto simp: counts_def other_refs_def\<close>)
  then show ?thesis using unregistered by (simp add: other_refs_def)
next
  case (given_up)
  have "counts (px4_kref_put (sys_px s)) (sys_capturing s) (other_refs s - 1)"
    by (rule book_counts [OF kref_put_book]) (use given_up assms(2) in \<open>auto simp: counts_def other_refs_def\<close>)
  then show ?thesis using given_up by (simp add: other_refs_def)
next
  case (used i r)
  then show ?thesis using book_counts [OF quiet_book [OF quiet_request] assms(2)] by (simp add: other_refs_def)
next
  case (unplugged)
  then show ?thesis using assms(2) by (simp add: counts_def other_refs_def)
next
  case (card_used r)
  then show ?thesis using book_counts [OF book_bridge assms(2)] by (simp add: other_refs_def)
next
  case (partner m m')
  then show ?thesis using book_counts [OF book_mldev assms(2)] by (simp add: other_refs_def)
qed (use lnb_counts [OF assms(2)] stop_counts [OF assms(2)] card_power_counts [OF assms(2)] in \<open>simp_all add: other_refs_def\<close>)

lemma start_state_counts: "px4_start mem px \<Longrightarrow> counts px {} 2"
proof -
  assume a: "px4_start mem px"
  then have "length (px_chrdev4 px) = 4" by (simp add: px4_start_def wired_def)
  then have "opens px = {}" "lnbs px = {}" using a by (auto simp: px4_start_def opens_def lnbs_def dest: nth_mem)
  then show ?thesis using a \<open>length (px_chrdev4 px) = 4\<close> by (simp add: counts_def px4_start_def)
qed

lemma run_counts: "px4_run env px s \<Longrightarrow> px4_start mem px \<Longrightarrow> counts (sys_px s) (sys_capturing s) (other_refs s)"
  unfolding px4_run_def
proof (induction rule: rtranclp_induct)
  case base
  then show ?case using start_state_counts [of mem px] by (simp add: other_refs_def numeral_2_eq_2)
next
  case (step y z)
  then show ?case using step_counts by blast
qed

end
