(* ===== verification/Px4_Device_Power.thy ===== *)
theory Px4_Device_Power
  imports Px4_Device_Inv
begin

text \<open>
  A board without a partner: while a receiver is open or the card reader is on, the supply pins are on; while an
  LNB is on, its pin is; while a receiver is open, every tuner is initialised.
\<close>

section \<open>The pins of the supplies\<close>

definition pview :: "'d it930x_bridge \<Rightarrow> u8 option \<times> u8 option \<times> u8 option" where
  "pview b = (gview b ! 1, gview b ! 6, gview b ! 10)"

definition powered :: "'d it930x_bridge \<Rightarrow> bool" where
  "powered b \<longleftrightarrow> last_write (gpio_o_regs ! 6) (clog b) = Some 0 \<and> last_write (gpio_o_regs ! 1) (clog b) = Some 1"

definition lnb_on :: "'d it930x_bridge \<Rightarrow> bool" where
  "lnb_on b \<longleftrightarrow> last_write (gpio_o_regs ! 10) (clog b) = Some 1"

lemma pview_reads: "powered b \<longleftrightarrow> (\<exists>l. pview b = (Some 1, Some 0, l))" "lnb_on b \<longleftrightarrow> snd (snd (pview b)) = Some 1"
  by (auto simp: powered_def lnb_on_def pview_def gview_def gpio_regs_len)

lemma gview_pview: "gview b' = gview b \<Longrightarrow> pview b' = pview b"
  by (simp add: pview_def)

lemma write_gpio_pview:
  assumes "it930x_write_gpio g high b = (ret, b')" "0 < g" "g \<le> 16"
  shows "pview b' = (if ret = 0 \<and> g = 2 then Some (if high then 1 else 0) else fst (pview b),
      if ret = 0 \<and> g = 7 then Some (if high then 1 else 0) else fst (snd (pview b)),
      if ret = 0 \<and> g = 11 then Some (if high then 1 else 0) else snd (snd (pview b)))"
proof -
  have "gpio_pin g = Some (nat (g - 1))" using assms by (simp add: gpio_pin_def)
  note v = write_gpio_view [OF assms(1) this]
  have "(1 = nat (g - 1)) = (g = 2)" "(6 = nat (g - 1)) = (g = 7)" "(10 = nat (g - 1)) = (g = 11)" using assms(2) by auto
  then show ?thesis using v [of 1] v [of 6] v [of 10] by (simp add: pview_def)
qed

lemma en_regs_view: "i < 16 \<Longrightarrow> gpio_en_regs ! i \<notin> set gpio_o_regs \<and> gpio_en_regs ! i + 1 \<notin> set gpio_o_regs"
proof -
  have "list_all (\<lambda>r. r \<notin> set gpio_o_regs \<and> r + 1 \<notin> set gpio_o_regs) gpio_en_regs" by code_simp
  then show "i < 16 \<Longrightarrow> ?thesis" by (simp add: list_all_length gpio_regs_len)
qed

lemma set_gpio_view [simp]: "gview (set_gpio i f b) = gview b"
  by (simp add: gview_def set_gpio_def)

lemma gpio_mode_view: "gview (snd (it930x_set_gpio_mode g md e b)) = gview b"
proof (cases "gpio_pin g")
  case (Some i)
  have "i < 16" by (rule gpio_pin_less [OF Some])
  then show ?thesis using Some en_regs_view [of i]
    by (simp add: it930x_set_gpio_mode_def write_reg_view Let_def case_prod_beta split: option.split)
qed (simp add: it930x_set_gpio_mode_def)

lemma ctrl_msg_view: "cmd \<noteq> IT930X_CMD_REG_WRITE \<Longrightarrow> gview (snd (snd (it930x_ctrl_msg cmd w rcap no_rx b))) = gview b"
  by (cases "it930x_ctrl_msg cmd w rcap no_rx b") (simp add: message_view)

lemma ctrl_write_view: "cmd \<noteq> IT930X_CMD_REG_WRITE \<Longrightarrow> gview (snd (ctrl_write cmd p b)) = gview b"
  by (simp add: ctrl_write_def case_prod_beta ctrl_msg_view)

lemma bcas_get_view: "gview (snd (snd (bcas_get_loop room b))) = gview b"
proof (induction room arbitrary: b rule: less_induct)
  case (less room)
  define r where "r = it930x_read_reg IT930X_REG_UART_RX_LENGTH (junk (it_bus b)) b"
  define n where "n = min (min (unat (fst (snd r))) 32) room"
  define m where "m = it930x_ctrl_msg IT930X_CMD_UART_READ (Some [of_nat n]) (Some n) False (snd (snd r))"
  have a: "gview (snd (snd r)) = gview b" "gview (snd (snd m)) = gview (snd (snd r))"
    by (simp_all add: r_def read_reg_view m_def ctrl_msg_view)
  have "gview (snd (snd (bcas_get_loop (room - n) c))) = gview c" if "room \<noteq> 0" "fst (snd r) \<noteq> 0" for c :: "'a it930x_bridge"
    by (rule less) (use that in \<open>simp add: n_def unat_gt_0\<close>)
  then show ?case using a unfolding bcas_get_loop.simps [of room b]
    by (simp add: Let_def case_prod_beta del: bcas_get_loop.simps flip: r_def n_def m_def)
qed

lemma bcas_send_view: "gview (snd (bcas_send_loop buf b)) = gview b"
proof (induction buf arbitrary: b rule: length_induct)
  case (1 buf)
  have "0x4965 \<notin> set gpio_o_regs" by (simp add: gpio_o_regs_def)
  note v = write_reg_view [OF this]
  have d: "gview (snd (bcas_send_loop (drop n buf) c)) = gview c" if "buf \<noteq> []" "0 < n" for n and c :: "'a it930x_bridge"
    using 1 that by (simp del: bcas_send_loop.simps)
  show ?case unfolding bcas_send_loop.simps [of buf b]
    by (simp add: Let_def case_prod_beta v ctrl_write_view d del: bcas_send_loop.simps drop_all)
qed

text \<open>The card reader uses one pin of its own; a view of the pins that does not look at it is kept.\<close>

lemma card_io_view:
  assumes "\<And>b b' :: 'd it930x_bridge. gview b' = gview b \<Longrightarrow> V b' = V b"
    "\<And>h (b :: 'd it930x_bridge). V (snd (it930x_write_gpio 14 h b)) = V b"
  shows "V (card_io_do r b) = V (b :: 'd it930x_bridge)"
proof -
  have n: "0x7904 \<notin> set gpio_o_regs" by (simp add: gpio_o_regs_def)
  have u: "gview (snd (it930x_set_uart_baudrate k b)) = gview b" for k and b :: "'d it930x_bridge"
    by (simp add: it930x_set_uart_baudrate_def ctrl_write_view)
  note views = assms(1) [OF gpio_mode_view] assms(1) [OF u] assms(1) [OF write_reg_view [OF n]] assms(2)
  show ?thesis
  proof (cases r)
    case Io_reset
    have "V (snd (it930x_bcas_reset_card b)) = V b" unfolding it930x_bcas_reset_card_def
      by (rule run_all_inv [where P = "\<lambda>c. V c = V b"]) (auto simp: views)
    then show ?thesis using Io_reset by simp
  next
    case Io_init
    have "V (snd (it930x_bcas_init b)) = V b" unfolding it930x_bcas_init_def
      by (rule run_all_inv [where P = "\<lambda>c. V c = V b"]) (auto simp: views assms(1) [OF ctrl_write_view])
    then show ?thesis using Io_init by simp
  qed (simp_all add: views it930x_bcas_detect_card_def it930x_read_gpio_def it930x_bcas_set_baudrate_def
      it930x_bcas_check_ready_def it930x_bcas_get_data_def it930x_bcas_send_data_def
      assms(1) [OF read_reg_view] assms(1) [OF bcas_get_view] assms(1) [OF bcas_send_view]
      Let_def case_prod_beta del: bcas_get_loop.simps bcas_send_loop.simps split: option.split)
qed

lemma card_io_pview: "pview (card_io_do r b) = pview b"
proof (rule card_io_view [OF gview_pview])
  show "pview (snd (it930x_write_gpio 14 h b)) = pview b" for h and b :: "'a it930x_bridge"
    using write_gpio_pview [of 14 h b "fst (it930x_write_gpio 14 h b)" "snd (it930x_write_gpio 14 h b)"] by simp
qed

lemma backend_power_pview:
  assumes "px4_backend_set_power st bd = (ret, bd')"
  shows "snd (snd (pview (bd_it930x bd'))) = snd (snd (pview (bd_it930x bd)))" "st \<Longrightarrow> ret = 0 \<Longrightarrow> powered (bd_it930x bd')"
proof -
  have p: "snd (snd (pview (snd (it930x_write_gpio g h b)))) = snd (snd (pview b))" if "g \<in> {2, 7}" for g h and b :: "'a it930x_bridge"
    using write_gpio_pview [of g h b "fst (it930x_write_gpio g h b)" "snd (it930x_write_gpio g h b)"] that by auto
  show "snd (snd (pview (bd_it930x bd'))) = snd (snd (pview (bd_it930x bd)))" using assms
    by (auto simp: px4_backend_set_power_def on_bridge_def p Let_def case_prod_beta split: if_splits)
  assume "st" "ret = 0"
  then obtain b1 where "it930x_write_gpio 7 False (bd_it930x bd) = (0, b1)" "it930x_write_gpio 2 True b1 = (0, bd_it930x bd')"
    using assms by (auto simp: px4_backend_set_power_def on_bridge_def Let_def case_prod_beta prod_eq_iff split: if_splits)
  from write_gpio_pview [OF this(1)] write_gpio_pview [OF this(2)]
  show "powered (bd_it930x bd')" by (simp add: pview_reads)
qed

section \<open>What holds while the board is in use\<close>

definition supplied :: "'d px4_device \<Rightarrow> bool" where
  "supplied px \<longleftrightarrow> (opens px \<noteq> {} \<or> pw_card_powered (px_power px) \<longrightarrow> powered (px_bridge px)) \<and>
     (lnbs px \<noteq> {} \<longrightarrow> lnb_on (px_bridge px))"

definition tuners_ready :: "'d px4_device \<Rightarrow> bool" where
  "tuners_ready px \<longleftrightarrow> (\<forall>j < 4. ready (px_chrdev4 px ! j))"

definition good :: "'d px4_device \<Rightarrow> bool" where
  "good px \<longleftrightarrow> (\<exists>mem. wired mem px) \<and> pw_mldev (px_power px) = None \<and> supplied px \<and> (opens px \<noteq> {} \<longrightarrow> tuners_ready px)"

lemma good_wired: "good px \<Longrightarrow> \<exists>mem. wired mem px"
  by (simp add: good_def)

lemma good_length: "good px \<Longrightarrow> length (px_chrdev4 px) = 4"
  using wired_length by (auto simp: good_def)

lemma supplied_pview:
  assumes "pview (px_bridge px') = pview (px_bridge px)" "opens px' = opens px" "lnbs px' = lnbs px"
    "pw_card_powered (px_power px') = pw_card_powered (px_power px)"
  shows "supplied px' = supplied px"
  using assms by (simp add: supplied_def pview_reads)

lemma stirs_keeps:
  assumes "stirs px px'" "\<exists>mem. wired mem px"
  shows "\<exists>mem. wired mem px'" "px_power px' = px_power px" "pview (px_bridge px') = pview (px_bridge px)"
    "opens px' = opens px" "lnbs px' = lnbs px" "supplied px' = supplied px"
proof -
  obtain mem where m: "wired mem px" using assms(2) by blast
  have l: "length (px_chrdev4 px) = 4" by (rule wired_length [OF m])
  have g: "wired mem px'" "gview (px_bridge px') = gview (px_bridge px)" using assms(1) m by (auto simp: stirs_def pins_kept_def)
  show "\<exists>mem. wired mem px'" using g(1) by blast
  show p: "pview (px_bridge px') = pview (px_bridge px)" by (rule gview_pview [OF g(2)])
  show q: "px_power px' = px_power px" using assms(1) by (simp add: stirs_def same_core_def)
  show o: "opens px' = opens px" "lnbs px' = lnbs px" using book_sets [OF stirs_book [OF assms(1)] l] by blast+
  show "supplied px' = supplied px" by (rule supplied_pview) (simp_all add: p q o)
qed

lemma quiet_ready: "quiet px px' \<Longrightarrow> \<exists>mem. wired mem px \<Longrightarrow> tuners_ready px \<Longrightarrow> tuners_ready px'"
  using wired_length unfolding tuners_ready_def quiet_def ready_kept_def by metis

lemma good_quiet: "quiet px px' \<Longrightarrow> good px \<Longrightarrow> good px'"
  using stirs_keeps [OF quiet_stirs, of px px'] quiet_ready [of px px'] unfolding good_def by presburger

lemma good_stirs: "stirs px px' \<Longrightarrow> good px \<Longrightarrow> opens px = {} \<Longrightarrow> good px'"
  using stirs_keeps [of px px'] unfolding good_def by presburger

lemma wired_cong: "px_chrdev4 px' = px_chrdev4 px \<Longrightarrow> wired mem px' = wired mem px"
  by (simp add: wired_def)

lemma wired_flag [simp]:
  "wired mem (set_c4 i (\<lambda>c. c\<lparr>c4_open := b\<rparr>) px) = wired mem px"
  "wired mem (set_c4 i (\<lambda>c. c\<lparr>c4_lnb_power := b\<rparr>) px) = wired mem px"
proof -
  have e: "(\<forall>c \<in> set (xs[i := f (xs ! i)]). P c) = (\<forall>c \<in> set xs. P c)" if "\<And>c. P (f c) = P c"
    for P and f :: "'a px4_chrdev \<Rightarrow> 'a px4_chrdev" and xs
    using that by (cases "i < length xs") (auto simp: all_set_conv_all_nth nth_list_update)
  show "wired mem (set_c4 i (\<lambda>c. c\<lparr>c4_open := b\<rparr>) px) = wired mem px"
    "wired mem (set_c4 i (\<lambda>c. c\<lparr>c4_lnb_power := b\<rparr>) px) = wired mem px"
    unfolding wired_def set_c4_fields length_list_update by (subst e; simp)+
qed

lemma ready_flag [simp]: "ready (c\<lparr>c4_open := b\<rparr>) = ready c" "ready (c\<lparr>c4_lnb_power := b\<rparr>) = ready c"
  by (simp_all add: ready_def)

lemma tuners_ready_flag [simp]:
  "tuners_ready (set_c4 i (\<lambda>c. c\<lparr>c4_open := b\<rparr>) px) = tuners_ready px"
  "tuners_ready (set_c4 i (\<lambda>c. c\<lparr>c4_lnb_power := b\<rparr>) px) = tuners_ready px"
proof -
  have "ready ((xs[i := f (xs ! i)]) ! j) = ready (xs ! j)" if "\<And>c. ready (f c) = ready c"
    for f :: "'a px4_chrdev \<Rightarrow> 'a px4_chrdev" and xs j
    using that by (cases "i < length xs") (simp_all add: nth_list_update list_update_beyond)
  then show "tuners_ready (set_c4 i (\<lambda>c. c\<lparr>c4_open := b\<rparr>) px) = tuners_ready px"
    "tuners_ready (set_c4 i (\<lambda>c. c\<lparr>c4_lnb_power := b\<rparr>) px) = tuners_ready px"
    by (simp_all add: tuners_ready_def)
qed

text \<open>The bridge changed under the device.\<close>

lemma good_bridge: "good px \<Longrightarrow> pview b = pview (px_bridge px) \<Longrightarrow> good (set_bridge b px)"
  by (simp add: good_def supplied_def pview_reads tuners_ready_def)

lemma good_switched:
  assumes "good px" "snd (snd (pview b)) = snd (snd (pview (px_bridge px)))"
    "powered b \<or> opens px = {} \<and> \<not> pw_card_powered (px_power px)"
  shows "good (set_bridge b px)"
  using assms by (auto simp: good_def supplied_def pview_reads tuners_ready_def)

lemma good_board_power:
  assumes "good px" "fst (px4_backend_set_power st (px_board px)) = 0 \<and> st \<or> opens px = {} \<and> \<not> pw_card_powered (px_power px)"
  shows "good (snd (on_board (px4_backend_set_power st) px))"
  unfolding on_board_power
  by (rule good_switched [OF assms(1)])
    (use assms(2) backend_power_pview [OF prod.collapse [symmetric], of st "px_board px"] in auto)

section \<open>The calls\<close>

text \<open>What \<open>open_power\<close> leaves when it succeeds.\<close>

lemma open_power_good:
  assumes "open_power i px = (ret, need, px')" "good px" "pw_open_count (px_power px) = card (opens px)"
  shows "good px'" "ret = 0 \<Longrightarrow> powered (px_bridge px')" "ret = 0 \<Longrightarrow> \<not> need \<Longrightarrow> opens px \<noteq> {}"
    "px_power px' = px_power px" "opens px' = opens px" "need \<Longrightarrow> opens px = {}"
proof -
  have m: "pw_mldev (px_power px) = None" using assms(2) by (simp add: good_def)
  have n: "pw_open_count (px_power px) = 0 \<longleftrightarrow> opens px = {}" using assms(3) by simp
  have s: "powered (px_bridge px)" if "opens px \<noteq> {} \<or> pw_card_powered (px_power px)"
    using assms(2) that by (simp add: good_def supplied_def)
  have u: "px' = px \<or> (opens px = {} \<and> \<not> pw_card_powered (px_power px) \<and> px' = snd (on_board (px4_backend_set_power True) px))"
    using assms(1) m n by (auto simp: open_power_def Let_def case_prod_beta split: if_splits)
  then show "good px'" using assms(2) good_board_power by blast
  show "px_power px' = px_power px" "opens px' = opens px" using u by (auto simp: on_board_power)
  show "ret = 0 \<Longrightarrow> \<not> need \<Longrightarrow> opens px \<noteq> {}" "need \<Longrightarrow> opens px = {}"
    using assms(1) m n by (auto simp: open_power_def Let_def case_prod_beta split: if_splits)
  show "ret = 0 \<Longrightarrow> powered (px_bridge px')"
    using assms(1) m n s backend_power_pview(2) [OF prod.collapse [symmetric], of True "px_board px"]
    by (auto simp: open_power_def on_board_power Let_def case_prod_beta on_board_def split: if_splits)
qed

lemma open_fail_good:
  assumes "good px" "pw_open_count (px_power px) = card (opens px)"
  shows "good (open_fail_backend_init i px)" "good (open_fail_backend i px)"
proof -
  have f: "good (open_fail_backend_init i u)" if "good u" "pw_open_count (px_power u) = card (opens u)" for u
    using that good_board_power [OF that(1), of False] by (simp add: open_fail_backend_init_def good_def)
  show "good (open_fail_backend_init i px)" by (rule f [OF assms])
  show "good (open_fail_backend i px)"
  proof (cases "pw_open_count (px_power px) = 0")
    case True
    then have o: "opens px = {}" using assms(2) by simp
    note t = stirs_keeps [OF stirs_backend(2) good_wired [OF assms(1)]]
    have "good (snd (px4_backend_term px))" by (rule good_stirs [OF stirs_backend(2) assms(1) o])
    moreover have "pw_open_count (px_power (snd (px4_backend_term px))) = card (opens (snd (px4_backend_term px)))"
      using t assms(2) by simp
    ultimately show ?thesis using True f by (simp add: open_fail_backend_def)
  next
    case False
    then show ?thesis using f [OF assms] by (simp add: open_fail_backend_def)
  qed
qed

lemma open_good:
  assumes "px4_chrdev_open env i px = (ret, px')" "good px" "pw_open_count (px_power px) = card (opens px)" "i < 4"
  shows "if ret = 0 then good (set_c4 i (\<lambda>c. c\<lparr>c4_open := True\<rparr>) px') else good px'"
proof -
  obtain r need u where p: "open_power i px = (r, need, u)" by (cases "open_power i px") auto
  obtain r1 u1 where t: "(if need then px4_backend_init u else (0, u)) = (r1, u1)" by fastforce
  obtain r2 u2 where w: "run_all ((if need then [sleep_others env i] else []) @ [wake_up_receiver i, first_open_regs]) u1 = (r2, u2)"
    by fastforce
  note P = open_power_good [OF p assms(2,3)]
  have s: "stirs u u1" using stirs_backend(1) [of u] t by (auto split: if_splits)
  note S = stirs_keeps [OF s good_wired [OF P(1)]]
  have g1: "good u1"
  proof (cases need)
    case True
    then show ?thesis using good_stirs [OF s P(1)] P(5,6) by simp
  next
    case False
    then show ?thesis using P(1) t by simp
  qed
  have q: "quiet u1 u2" using quiet_open_steps [OF assms(4), of u1 need env] w by simp
  have g2: "good u2" by (rule good_quiet [OF q g1])
  note Q = stirs_keeps [OF quiet_stirs [OF q] good_wired [OF g1]]
  have c: "pw_open_count (px_power v) = card (opens v)" if "v = u1 \<or> v = u2" for v
    using that assms(3) P(4,5) S(2,4) Q(2,4) by auto
  show ?thesis
  proof (cases "ret = 0")
    case True
    then have z: "r = 0" "r1 = 0" and px': "px' = (set_px_power (\<lambda>p. p\<lparr>pw_open_count := pw_open_count p + 1\<rparr>) u2)\<lparr>px_kref := px_kref u2 + 1\<rparr>"
      using assms(1) unfolding px4_chrdev_open_def p t w prod.case Let_def by (auto split: if_splits)
    have "tuners_ready u1"
    proof (cases need)
      case True
      then show ?thesis using backend_init_ready [of u u1] t z(2) good_wired [OF P(1)] by (auto simp: tuners_ready_def)
    next
      case False
      then show ?thesis using g1 P(3,5) z S(4) by (simp add: good_def)
    qed
    then have "tuners_ready u2" by (rule quiet_ready [OF q good_wired [OF g1]])
    moreover have "powered (px_bridge u2)" using P(2) z(1) S(3) Q(3) by (simp add: pview_reads)
    moreover have "good px' = good u2" "powered (px_bridge px') = powered (px_bridge u2)" "tuners_ready px' = tuners_ready u2"
      by (simp_all add: px' good_def supplied_def tuners_ready_def wired_def)
    ultimately show ?thesis using g2 True good_length [of px'] sets_set_c4(1,2) [OF assms(4), of px' True]
      by (auto simp: good_def supplied_def)
  next
    case False
    then show ?thesis using assms(1) P(1) open_fail_good(1) [OF g1 c, of i] open_fail_good(2) [OF g2 c, of i]
      unfolding px4_chrdev_open_def p t w prod.case Let_def by (auto split: if_splits)
  qed
qed

text \<open>\<^verbatim>\<open>px4_chrdev_set_lnb_voltage_s\<close>: the pin is on as long as someone needs it.\<close>

lemma lnb_marked_good:
  assumes "good px" "i < 4" "fst (pview b) = fst (pview (px_bridge px))" "fst (snd (pview b)) = fst (snd (pview (px_bridge px)))"
    "(if on then insert i (lnbs px) else lnbs px - {i}) \<noteq> {} \<Longrightarrow> lnb_on b"
  shows "good (set_c4 i (\<lambda>c. c\<lparr>c4_lnb_power := on\<rparr>) ((set_bridge b px)\<lparr>px_lnb_power_count := n\<rparr>))"
proof -
  let ?u = "(set_bridge b px)\<lparr>px_lnb_power_count := n\<rparr>"
  have l: "length (px_chrdev4 ?u) = 4" using good_length [OF assms(1)] by simp
  have "powered b = powered (px_bridge px)" using assms(3,4) by (auto simp: pview_reads prod_eq_iff)
  moreover have "wired mem ?u = wired mem px" for mem by (rule wired_cong) simp
  moreover have "tuners_ready ?u = tuners_ready px" by (simp add: tuners_ready_def)
  ultimately show ?thesis using assms(1,5) unfolding good_def supplied_def sets_set_c4(3,4) [OF assms(2) l] wired_flag tuners_ready_flag
    by simp
qed

lemma bridge_same: "set_bridge (px_bridge px) px = px"
  by (simp add: set_bridge_def)

lemma set_bridge_count: "set_bridge b (px\<lparr>px_lnb_power_count := n\<rparr>) = (set_bridge b px)\<lparr>px_lnb_power_count := n\<rparr>"
  by (cases px) (simp add: set_bridge_def)

lemma lnb_results:
  fixes px :: "'d px4_device"
  defines "w on \<equiv> it930x_write_gpio 11 on (px_bridge px)" and "n \<equiv> px_lnb_power_count px"
  shows "snd (px4_chrdev_set_lnb_voltage_s i v px) \<in> {px,
      if n = 0 \<and> fst (w True) \<noteq> 0 then set_bridge (snd (w True)) px
      else set_c4 i (\<lambda>c. c\<lparr>c4_lnb_power := True\<rparr>)
        ((set_bridge (if n = 0 then snd (w True) else px_bridge px) px)\<lparr>px_lnb_power_count := n + 1\<rparr>)} \<union>
    (if c4_lnb_power (px_chrdev4 px ! i) then {set_c4 i (\<lambda>c. c\<lparr>c4_lnb_power := False\<rparr>)
        ((set_bridge (if n = 1 then snd (w False) else px_bridge px) px)\<lparr>px_lnb_power_count := n - 1\<rparr>)} else {})"
  unfolding px4_chrdev_set_lnb_voltage_s_def on_bus_def Let_def case_prod_beta w_def n_def bridge_same
  by (cases "v = 0"; cases "c4_lnb_power (px_chrdev4 px ! i)"; simp add: bridge_same set_bridge_count)

lemma lnb_good:
  assumes "good px" "px_lnb_power_count px = of_nat (card (lnbs px))" "i < 4"
  shows "good (snd (px4_chrdev_set_lnb_voltage_s i v px))"
proof -
  have "card (lnbs px) \<le> card {..<4 :: nat}" by (intro card_mono) (auto simp: lnbs_def)
  then have z: "px_lnb_power_count px = 0 \<longleftrightarrow> lnbs px = {}" "px_lnb_power_count px = 1 \<longleftrightarrow> card (lnbs px) = 1"
    by (simp_all add: assms(2) word_unat_eq_iff unat_of_nat take_bit_nat_eq_self)
  have i: "i \<in> lnbs px \<longleftrightarrow> c4_lnb_power (px_chrdev4 px ! i)" using assms(3) by (simp add: lnbs_def)
  have w: "fst (pview (snd (it930x_write_gpio 11 h b))) = fst (pview b)"
    "fst (snd (pview (snd (it930x_write_gpio 11 h b)))) = fst (snd (pview b))"
    "fst (it930x_write_gpio 11 h b) = 0 \<Longrightarrow> h \<Longrightarrow> lnb_on (snd (it930x_write_gpio 11 h b))" for h and b :: "'a it930x_bridge"
    using write_gpio_pview [OF prod.collapse [symmetric], of 11 h b] by (simp_all add: pview_reads)
  have o: "lnbs px - {i} = {}" if "card (lnbs px) = 1" "i \<in> lnbs px"
    using that by (metis card_without card_0_eq finite_Diff nat.inject One_nat_def opens_finite(2))
  have on: "lnb_on (px_bridge px)" if "lnbs px \<noteq> {}" using assms(1) that by (simp add: good_def supplied_def)
  have "good (set_bridge (snd (it930x_write_gpio 11 True (px_bridge px))) px)" if "lnbs px = {}"
    using assms(1) w(1,2) [of True "px_bridge px"] that by (auto simp: good_def supplied_def pview_reads tuners_ready_def prod_eq_iff)
  moreover have "good (set_c4 i (\<lambda>c. c\<lparr>c4_lnb_power := True\<rparr>) ((set_bridge (if px_lnb_power_count px = 0 then
      snd (it930x_write_gpio 11 True (px_bridge px)) else px_bridge px) px)\<lparr>px_lnb_power_count := k\<rparr>))"
    if "\<not> (px_lnb_power_count px = 0 \<and> fst (it930x_write_gpio 11 True (px_bridge px)) \<noteq> 0)" for k
    by (rule lnb_marked_good [OF assms(1,3)]) (use that z w on in auto)
  moreover have "good (set_c4 i (\<lambda>c. c\<lparr>c4_lnb_power := False\<rparr>) ((set_bridge (if px_lnb_power_count px = 1 then
      snd (it930x_write_gpio 11 False (px_bridge px)) else px_bridge px) px)\<lparr>px_lnb_power_count := k\<rparr>))"
    if "c4_lnb_power (px_chrdev4 px ! i)" for k
    by (rule lnb_marked_good [OF assms(1,3)]) (use that i z w o on in auto)
  ultimately show ?thesis using lnb_results [of i v px] assms(1) z(1) by (auto split: if_splits)
qed

lemma lnb_keeps:
  "px_power (snd (px4_chrdev_set_lnb_voltage_s i v px)) = px_power px"
  by (simp add: px4_chrdev_set_lnb_voltage_s_def on_bus_def Let_def case_prod_beta)

text \<open>
  A file is closed after the call, so during it the receiver still counts as open for \<open>opens\<close>: \<open>good_for\<close> says
  which receivers the board works for.
\<close>

definition good_for :: "nat set \<Rightarrow> 'd px4_device \<Rightarrow> bool" where
  "good_for U px \<longleftrightarrow> (\<exists>mem. wired mem px) \<and> pw_mldev (px_power px) = None \<and>
     (U \<noteq> {} \<or> pw_card_powered (px_power px) \<longrightarrow> powered (px_bridge px)) \<and> (lnbs px \<noteq> {} \<longrightarrow> lnb_on (px_bridge px)) \<and>
     (U \<noteq> {} \<longrightarrow> tuners_ready px)"

lemma good_for_opens: "good px \<longleftrightarrow> good_for (opens px) px"
  by (auto simp: good_def good_for_def supplied_def)

lemma good_for_less: "good px \<Longrightarrow> U \<subseteq> opens px \<Longrightarrow> good_for U px"
  by (auto simp: good_def good_for_def supplied_def)

lemma good_for_closed:
  assumes "i < 4" "length (px_chrdev4 px) = 4" "good_for (opens px - {i}) px"
  shows "good (set_c4 i (\<lambda>c. c\<lparr>c4_open := False\<rparr>) px)"
  using assms(3) unfolding good_for_opens good_for_def sets_set_c4(1,2) [OF assms(1,2)] wired_flag tuners_ready_flag by simp

lemma good_for_quiet: "good_for U px \<Longrightarrow> quiet px px' \<Longrightarrow> good_for U px'"
  using stirs_keeps [OF quiet_stirs, of px px'] quiet_ready [of px px'] unfolding good_for_def by (simp add: pview_reads)

lemma good_for_term: "good_for {} px \<Longrightarrow> good_for {} (snd (px4_backend_term px))"
  using stirs_keeps [OF stirs_backend(2), of px] unfolding good_for_def by (simp add: pview_reads)

lemma good_for_off:
  assumes "good_for {} px" "\<not> pw_card_powered (px_power px)"
  shows "good_for {} (snd (on_board (px4_backend_set_power False) px))"
  unfolding on_board_power
  using assms backend_power_pview(1) [OF prod.collapse [symmetric], of False "px_board px"] by (simp add: good_for_def pview_reads)

lemma good_for_fields [simp]:
  "good_for U (set_px_power (\<lambda>p. p\<lparr>pw_open_count := n\<rparr>) px) = good_for U px" "good_for U (px\<lparr>px_kref := k\<rparr>) = good_for U px"
  by (simp_all add: good_for_def tuners_ready_def wired_def)

lemma kref_put_plain: "pw_mldev (px_power px) = None \<Longrightarrow> px4_kref_put px = px\<lparr>px_kref := px_kref px - 1\<rparr>"
  by (simp add: px4_kref_put_def px4_device_release_def Let_def)

lemma release_good:
  assumes "px4_chrdev_release env i px = (ret, px')" "good px" "counts px C g" "i < 4" "open_of i px"
  shows "good (set_c4 i (\<lambda>c. c\<lparr>c4_open := False\<rparr>) px')"
proof -
  define u where "u = snd (px4_chrdev_set_lnb_voltage_s i 0 px)"
  have gu: "good u" unfolding u_def by (rule lnb_good) (use assms(2-4) in \<open>simp_all add: counts_def\<close>)
  have cu: "counts u C g" unfolding u_def by (rule lnb_counts [OF assms(3,4)])
  have "open_of i u" using assms(4,5) good_length [OF assms(2)]
    by (simp add: u_def px4_chrdev_set_lnb_voltage_s_def on_bus_def Let_def case_prod_beta)
  then have iu: "i \<in> opens u" using assms(4) by (simp add: opens_def)
  then have n: "pw_open_count (px_power u) \<noteq> 0" using cu by (auto simp: counts_def)
  obtain k where k: "card (opens u) = Suc k" "card (opens u - {i}) = k" using iu by (rule card_without) simp
  then have one: "opens u - {i} = {}" if "pw_open_count (px_power u) - 1 = 0" using cu that by (simp add: counts_def)
  define u1 where "u1 = set_px_power (\<lambda>p. p\<lparr>pw_open_count := pw_open_count (px_power u) - 1\<rparr>) u"
  have g1: "good_for (opens u - {i}) u1" using good_for_less [OF gu, of "opens u - {i}"] by (simp add: u1_def)
  define t where "t = snd (px4_backend_term u1)"
  define u2 where "u2 = (if pw_open_count (px_power u) - 1 = 0 then
        if pw_mldev (px_power t) = None \<and> \<not> pw_card_powered (px_power t) then snd (on_board (px4_backend_set_power False) t) else t
      else if bd_available (px_board u1) then snd (release_sleep env i u1) else u1)"
  have g2: "good_for (opens u - {i}) u2"
  proof (cases "pw_open_count (px_power u) - 1 = 0")
    case True
    then have "good_for {} t" using good_for_term [of u1] g1 one by (simp add: t_def)
    then show ?thesis using True good_for_off [of t] unfolding one [OF True] u2_def by simp
  next
    case False
    then show ?thesis using g1 good_for_quiet [OF g1 quiet_receiver(2) [OF assms(4)], of env] by (simp add: u2_def)
  qed
  then have m: "pw_mldev (px_power u2) = None" by (simp add: good_for_def)
  have px': "px' = u2\<lparr>px_kref := px_kref u2 - 1\<rparr>" using assms(1) n kref_put_plain [OF m] m
    unfolding px4_chrdev_release_def Let_def u_def [symmetric] case_prod_beta u2_def t_def u1_def by simp
  have w: "length (px_chrdev4 (set_px_power (\<lambda>p. p\<lparr>pw_open_count := pw_open_count p - 1\<rparr>) u\<lparr>px_kref := px_kref u - 1\<rparr>)) = 4"
    using good_length [OF gu] by simp
  note b = release_book(2) [OF assms(1,4) u_def n]
  have "opens px' = opens u" "length (px_chrdev4 px') = 4" using book_sets(1) [OF b w] book_length [OF b] w by simp_all
  then show ?thesis using g2 px' by (intro good_for_closed [OF assms(4)]) simp_all
qed

text \<open>Streaming moves data over other endpoints of the bridge; what the bus layer's start and stop do to the pins is theirs.\<close>

definition streaming_keeps_pins :: "'d px4_env \<Rightarrow> bool" where
  "streaming_keeps_pins env \<longleftrightarrow>
     (\<forall>b. pview (snd (pe_start_streaming env b)) = pview b \<and> pview (snd (pe_stop_streaming env b)) = pview b)"

lemma good_on_bus: "good px \<Longrightarrow> (\<And>b. pview (snd (f b)) = pview b) \<Longrightarrow> good (snd (on_bus f px))"
  by (simp add: on_bus_def Let_def case_prod_beta good_bridge)

lemma good_counters [simp]:
  "good (px\<lparr>px_streaming_count := n\<rparr>) = good px" "good (px\<lparr>px_remain_len := k\<rparr>) = good px" "good (px\<lparr>px_kref := j\<rparr>) = good px"
  "good (px\<lparr>px_board := (px_board px)\<lparr>bd_available := a\<rparr>\<rparr>) = good px"
  by (simp_all add: good_def supplied_def tuners_ready_def wired_def opens_def lnbs_def)

lemma kref_put_good: "good px \<Longrightarrow> good (px4_kref_put px)"
proof -
  assume g: "good px"
  then have "px4_kref_put px = px\<lparr>px_kref := px_kref px - 1\<rparr>" by (intro kref_put_plain) (simp add: good_def)
  then show ?thesis using g by simp
qed

lemma capture_good:
  assumes "good px" "i < 4" "streaming_keeps_pins env"
  shows "good (snd (px4_chrdev_set_capture env i st px))"
proof -
  have e: "good (snd (enable_pins i b u))" if "good u" for b u
    using good_quiet [OF quiet_receiver(4) [OF assms(2)] that] .
  have s: "good (snd (on_bus (pe_start_streaming env) u))" "good (snd (on_bus (pe_stop_streaming env) u))" if "good u" for u
    using assms(3) that by (auto simp: streaming_keeps_pins_def intro: good_on_bus)
  define fs :: "'a px4_device call list" where "fs = (if px_streaming_count px = 0 then [on_bus (it930x_purge_psb (pe_kmalloc env) (pe_psb_purge_timeout env))] else []) @
    [enable_pins i True]"
  have r: "good (snd (run_all fs px))"
    by (rule run_all_inv [where P = good, OF _ assms(1)])
      (auto simp: fs_def e split: if_splits intro!: good_on_bus gview_pview purge_view)
  then have "good (snd (px4_chrdev_start_capture env i px))"
    unfolding px4_chrdev_start_capture_def Let_def unfolding fs_def [symmetric] case_prod_beta
    by (auto simp: e s)
  moreover have "good (snd (px4_chrdev_stop_capture env i px))"
    using assms(1) by (auto simp: px4_chrdev_stop_capture_def Let_def e s)
  ultimately show ?thesis by (simp add: px4_chrdev_set_capture_def)
qed

lemma card_power_good:
  assumes "good px" "pw_open_count (px_power px) = card (opens px)"
    "st \<noteq> pw_card_powered (px_power px)"
  shows "good (snd (on_board (px4_device_set_card_power st) px))"
proof -
  have m: "pw_mldev (px_power px) = None" using assms(1) by (simp add: good_def)
  define r where "r = (if pw_open_count (px_power px) = 0 then px4_backend_set_power st (px_board px) else (0, px_board px))"
  have c: "bd_context (snd r) = px_power px"
    by (simp add: r_def px4_backend_set_power_def on_bridge_def Let_def case_prod_beta)
  have e: "snd (on_board (px4_device_set_card_power st) px) = px\<lparr>px_board := if \<not> st \<or> fst r = 0
      then (snd r)\<lparr>bd_context := (px_power px)\<lparr>pw_card_powered := st\<rparr>\<rparr> else snd r\<rparr>"
    using m c by (simp add: on_board_def px4_device_set_card_power_def Let_def case_prod_beta r_def)
  have l: "snd (snd (pview (bd_it930x (snd r)))) = snd (snd (pview (px_bridge px)))"
    using backend_power_pview(1) [OF prod.collapse [symmetric], of st "px_board px"] by (simp add: r_def)
  have p: "powered (bd_it930x (snd r))" if "st" "fst r = 0" "opens px = {}"
    using backend_power_pview(2) [OF prod.collapse [symmetric], of st "px_board px"] that assms(2) by (simp add: r_def)
  have o: "snd r = px_board px" if "opens px \<noteq> {}" using assms(2) that by (simp add: r_def)
  have w: "wired mem (px\<lparr>px_board := bd\<rparr>) = wired mem px" "tuners_ready (px\<lparr>px_board := bd\<rparr>) = tuners_ready px" for mem bd
    by (simp_all add: wired_def tuners_ready_def)
  show ?thesis
  proof (cases "opens px = {}")
    case True
    then show ?thesis using assms(1,3) l p unfolding e good_def supplied_def by (auto simp: w c pview_reads)
  next
    case False
    then show ?thesis using assms(1) o unfolding e good_def supplied_def by (auto simp: w)
  qed
qed

lemma step_good:
  assumes "px4_step env s s'" "good (sys_px s)" "counts (sys_px s) (sys_capturing s) (other_refs s)" "streaming_keeps_pins env"
  shows "good (sys_px s')"
  using assms(1)
proof (cases rule: px4_step.cases)
  case (opened i ret px)
  let ?px = "(sys_px s)\<lparr>px_kref := px_kref (sys_px s) + 1\<rparr>"
  have "good ?px" "pw_open_count (px_power ?px) = card (opens ?px)"
    using assms(2,3) by (simp_all add: counts_def)
  from open_good [OF opened(5) this opened(2)]
  show ?thesis using opened(1) kref_put_good [of px] by (simp split: if_splits)
next
  case (released i ret px)
  let ?px = "set_c4 i (\<lambda>c. c\<lparr>c4_open := False\<rparr>) px"
  have "good ?px" by (rule release_good [OF released(5) assms(2,3) released(2,3)])
  then show ?thesis using released(1) kref_put_good [of ?px] by simp
next
  case (lnb i v)
  then show ?thesis using lnb_good [OF assms(2)] assms(3) by (simp add: counts_def)
next
  case (used i r)
  then show ?thesis using good_quiet [OF quiet_request assms(2)] by simp
next
  case (started i ret px)
  then show ?thesis using capture_good [OF assms(2) started(2) assms(4), of True] by simp
next
  case (stopped i)
  then have "i < 4" using assms(3) by (auto simp: counts_def opens_def)
  then show ?thesis using stopped capture_good [OF assms(2) _ assms(4)] by simp
next
  case (card_power st)
  then show ?thesis using card_power_good [OF assms(2)] assms(3) by (simp add: counts_def)
next
  case (card_used r)
  then show ?thesis using good_bridge [OF assms(2) card_io_pview] by simp
next
  case (partner m m')
  then show ?thesis using assms(2) by (simp add: good_def)
next
  case (unplugged)
  then show ?thesis using assms(2) by simp
next
  case (unregistered)
  then show ?thesis using kref_put_good [OF assms(2)] by simp
next
  case (given_up)
  then show ?thesis using kref_put_good [OF assms(2)] by simp
qed

lemma run_good:
  assumes "px4_run env px s" "px4_start mem px" "pw_mldev (px_power px) = None" "streaming_keeps_pins env"
  shows "good (sys_px s)"
  using assms(1) unfolding px4_run_def
proof (induction rule: rtranclp_induct)
  case base
  have "counts px {} 2" by (rule start_state_counts [OF assms(2)])
  then have "opens px = {}" using assms(2) by (simp add: counts_def px4_start_def)
  moreover have "lnbs px = {}" using assms(2) by (auto simp: px4_start_def lnbs_def wired_def dest: nth_mem)
  ultimately show ?case using assms(2,3) by (auto simp: good_def supplied_def px4_start_def)
next
  case (step y z)
  have "px4_run env px y" using step(1) by (simp add: px4_run_def)
  then show ?case using step_good [OF step(2,3) run_counts assms(4)] assms(2) by blast
qed

end
