(* ===== verification/Px4_Tune.thy ===== *)
theory Px4_Tune
  imports Px4_Quiet R850_Safe Px4_Card_Props
begin

text \<open>
  Tuning a terrestrial receiver from end to end: what a successful \<^verbatim>\<open>px4_chrdev_tune_t\<close> says about the
  synthesizer of the receiver's tuner.
\<close>

section \<open>The tuner\<close>

lemma pll_mixer_mode: "r8_mixer_mode (snd (r850_set_pll lo ifq sys t)) = r8_mixer_mode t"
proof -
  have s: "r8_mixer_mode (snd (regs_do ops u)) = r8_mixer_mode u" "r8_mixer_mode (snd (regs_send reg n u)) = r8_mixer_mode u"
      "r8_mixer_mode (snd (r850_set_xtal_cap k u)) = r8_mixer_mode u" "r8_mixer_mode (snd (r850_raise_ub u)) = r8_mixer_mode u"
      "r8_mixer_mode (snd (r850_set_sdm x f u)) = r8_mixer_mode u" for ops reg n k x f u
    by (auto simp: regs_do_def regs_send_def r850_write_regs_def r850_set_xtal_cap_def r850_raise_ub_def r850_set_sdm_def
        Let_def case_prod_beta split: option.split)
  show ?thesis unfolding r850_set_pll_def Let_def case_prod_beta
    by (rule run_all_inv [where P = "\<lambda>u. r8_mixer_mode u = r8_mixer_mode t"]) (auto simp: s split: if_splits)
qed

lemma run_all_last: "run_all (fs @ [f]) s = (0, s') \<longleftrightarrow> (\<exists>s1. run_all fs s = (0, s1) \<and> f s1 = (0, s'))"
  by (auto simp: run_all_append Let_def split: prod.splits)

text \<open>A successful call ends in the synthesizer setup, for the frequency above or below by the intermediate one.\<close>

lemma set_frequency_pll:
  assumes "r850_set_frequency f t = (0, t')" "r850_wf t"
  shows "40000 \<le> f \<and> f \<le> 1002000 \<and> sys_if_freq (r8_sys_curr t') \<le> 5070 \<and>
    (\<exists>u. r850_wf u \<and> r8_chip u = r8_chip t' \<and>
      r850_set_pll (if r8_mixer_mode t' \<noteq> 0 then f - sys_if_freq (r8_sys_curr t') else f + sys_if_freq (r8_sys_curr t'))
        (sys_if_freq (r8_sys_curr t')) (sys_system (r8_sys_curr t')) u = (0, t'))"
proof -
  have f: "40000 \<le> f" "f \<le> 1002000" using assms(1) by (auto simp: r850_set_frequency_def split: if_splits)
  have "run_all ([r850_set_system_params] @ [r850_set_system_frequency f]) t = (0, t')"
    using assms(1) by (simp add: r850_set_frequency_def split: if_splits)
  then obtain v where v: "r850_set_system_params t = (0, v)" "r850_set_system_frequency f v = (0, t')"
    unfolding run_all_last run_all_single by blast
  have w: "r850_wf v" "sys_if_freq (r8_sys_curr v) \<le> 5070" using set_system_params_wf [OF assms(2)] sys_in_tables_bounded v(1) by simp_all
  define ifq where "ifq = sys_if_freq (r8_sys_curr v)"
  define sys where "sys = sys_system (r8_sys_curr v)"
  define lo where "lo = (if r8_mixer_mode v \<noteq> 0 then f - ifq else f + ifq)"
  have lo': "(if r8_mixer_mode v \<noteq> 0 then (f + 2 ^ 32 - ifq) mod 2 ^ 32 else (f + ifq) mod 2 ^ 32) = lo"
    using u32_diff [of ifq f] f w(2) by (simp add: lo_def ifq_def)
  obtain p where p: "find (freq_match ifq f) (sys_freq_params sys) = Some p"
    using v(2) by (cases "find (freq_match ifq f) (sys_freq_params sys)") (simp_all add: r850_set_system_frequency_def ifq_def sys_def)
  obtain a b c d where "run_all ([regs_do a, regs_do b, regs_do c, regs_do d, r850_set_mux f lo sys] @ [r850_set_pll lo ifq sys]) v = (0, t')"
    using v(2) unfolding r850_set_system_frequency_def Let_def ifq_def [symmetric] sys_def [symmetric] p option.case lo' by auto
  then obtain u where u: "run_all [regs_do a, regs_do b, regs_do c, regs_do d, r850_set_mux f lo sys] v = (0, u)"
      "r850_set_pll lo ifq sys u = (0, t')"
    unfolding run_all_last by blast
  let ?fr = "(r8_config v, r8_chip v, r8_sys v, r8_sys_curr v)"
  have "in_frame ?fr (snd (run_all [regs_do a, regs_do b, regs_do c, regs_do d, r850_set_mux f lo sys] v))"
    by (rule framed.frame_run_all [OF _ wf_in_frame [OF w(1)]]) (auto simp: frame simp del: in_frame.simps)
  then have fu: "in_frame ?fr u" using u(1) by simp
  have "r8_mixer_mode (snd (run_all [regs_do a, regs_do b, regs_do c, regs_do d, r850_set_mux f lo sys] v)) = r8_mixer_mode v"
    by (rule run_all_inv [where P = "\<lambda>u. r8_mixer_mode u = r8_mixer_mode v"])
      (auto simp: regs_do_def r850_set_mux_def Let_def case_prod_beta)
  then have m: "r8_mixer_mode t' = r8_mixer_mode v" using u pll_mixer_mode [of lo ifq sys u] by simp
  have "17735 \<le> lo" "lo < 2200000" using f w(2) by (auto simp: lo_def ifq_def)
  then have "in_frame ?fr (snd (r850_set_pll lo ifq sys u))" by (rule in_frame_pll [OF fu])
  then have ft: "in_frame ?fr t'" using u(2) by simp
  have "r850_wf u" using w(1) fu by (simp add: r850_wf_def)
  then show ?thesis using f w(2) u(2) ft fu m unfolding lo_def ifq_def sys_def by auto
qed

section \<open>The receiver\<close>

text \<open>What the answer of the tuner, the calls of the demodulator and the questions for the lock leave of the tuner.\<close>

definition tuner_regs :: "nat \<Rightarrow> 'd px4_device \<Rightarrow> u8 list \<times> nat \<times> nat \<times> r850_system_config" where
  "tuner_regs i px = (let t = c4_r850 (px_chrdev4 px ! i) in (r8_regs t, r8_chip t, r8_mixer_mode t, r8_sys_curr t))"

lemma tuner_regs_demod: "tuner_regs i (snd (on_demod j f px)) = tuner_regs i px"
  by (simp add: tuner_regs_def on_demod_def on_bus_def Let_def case_prod_beta)

lemma tuner_regs_locked: "tuner_regs i (snd (snd (on_r850_read i (r850_is_pll_locked l) px))) = tuner_regs i px"
proof (cases "i < length (px_chrdev4 px)")
  case True
  then show ?thesis by (simp add: tuner_regs_def on_r850_read_def r850_is_pll_locked_def r850_read_reg_def r850_read_regs_def
      Let_def case_prod_beta)
next
  case False
  then show ?thesis by (simp add: tuner_regs_def on_r850_read_def list_update_beyond Let_def case_prod_beta)
qed

lemma pll_loop_locked:
  assumes "pll_loop n f r l x = (0, True, x')" "n \<noteq> 0" "\<And>l x. P x \<Longrightarrow> P (snd (snd (f l x)))" "P x"
  shows "\<exists>l u. f l u = (0, True, x') \<and> P u"
  using assms
proof (induction n arbitrary: r l x)
  case (Suc n)
  obtain r1 l1 x1 where f: "f l x = (r1, l1, x1)" by (cases "f l x") auto
  show ?case
  proof (cases "r1 = 0 \<and> l1")
    case True
    then show ?thesis using Suc.prems f by auto
  next
    case False
    then have e: "pll_loop n f r1 l1 x1 = (0, True, x')" using Suc.prems(1) f by auto
    then have "n \<noteq> 0" using False by (cases n) auto
    moreover have "P x1" using Suc.prems(3) [OF Suc.prems(4), of l] f by simp
    ultimately show ?thesis using Suc.IH [OF e] Suc.prems(3) by blast
  qed
qed simp

lemma wait_pll_locked:
  assumes "wait_pll f px = (0, px')" "\<And>l u. P u \<Longrightarrow> P (snd (snd (f l u)))" "P px"
  shows "\<exists>l u. f l u = (0, True, px') \<and> P u"
proof (rule pll_loop_locked [OF _ _ assms(2,3)])
  show "pll_loop 50 f 0 False px = (0, True, px')" using assms(1)
    by (auto simp: wait_pll_def Let_def case_prod_beta prod_eq_iff split: if_splits)
qed simp_all

text \<open>Questions for the lock, one after the other, whatever the answers.\<close>

definition asks_lock :: "nat \<Rightarrow> 'd px4_device \<Rightarrow> 'd px4_device \<Rightarrow> bool" where
  "asks_lock i u v \<longleftrightarrow> (\<exists>l. v = snd (snd (on_r850_read i (r850_is_pll_locked l) u)))"

lemma asks_lock_regs: "(asks_lock i)\<^sup>*\<^sup>* u v \<Longrightarrow> tuner_regs i v = tuner_regs i u"
  by (induction rule: rtranclp_induct) (auto simp: asks_lock_def tuner_regs_locked)

lemma tune_t_steps:
  fixes px px' :: "'d px4_device"
  assumes "px4_chrdev_tune_t i prm px = (0, px')" "i < length (px_chrdev4 px)"
  shows "tp_system prm = PTX_ISDB_T_SYSTEM \<and>
    (\<exists>b t. r850_set_frequency (unat (tp_freq prm)) ((c4_r850 (px_chrdev4 px ! i))\<lparr>r8_s := b\<rparr>) = (0, t) \<and>
       tuner_regs i px' = (r8_regs t, r8_chip t, r8_mixer_mode t, r8_sys_curr t)) \<and>
    (\<exists>p4 u l p5.
       run_all [on_demod i (\<lambda>dm. tc90522_write_reg dm 0x47 0x30), on_demod i (\<lambda>dm. tc90522_set_agc_t dm False),
         on_demod i (\<lambda>dm. tc90522_write_reg dm 0x76 0x0c), on_r850 i (r850_set_frequency (unat (tp_freq prm)))] px = (0, p4) \<and>
       (asks_lock i)\<^sup>*\<^sup>* p4 u \<and> on_r850_read i (r850_is_pll_locked l) u = (0, True, p5) \<and>
       tuner_regs i u = tuner_regs i px' \<and>
       run_all [on_demod i (\<lambda>dm. tc90522_set_agc_t dm True), on_demod i (\<lambda>dm. tc90522_write_reg dm 0x71 0x21),
         on_demod i (\<lambda>dm. tc90522_write_reg dm 0x72 0x25), on_demod i (\<lambda>dm. tc90522_write_reg dm 0x75 0x08)] p5 = (0, px'))"
proof -
  have sys: "tp_system prm = PTX_ISDB_T_SYSTEM" using assms(1) by (auto simp: px4_chrdev_tune_t_def split: if_splits)
  obtain p1 p2 p3 p4 p5 p6 p7 p8 where s: "on_demod i (\<lambda>dm. tc90522_write_reg dm 0x47 0x30) px = (0, p1)"
      "on_demod i (\<lambda>dm. tc90522_set_agc_t dm False) p1 = (0, p2)" "on_demod i (\<lambda>dm. tc90522_write_reg dm 0x76 0x0c) p2 = (0, p3)"
      "on_r850 i (r850_set_frequency (unat (tp_freq prm))) p3 = (0, p4)"
      "wait_pll (\<lambda>l. on_r850_read i (r850_is_pll_locked l)) p4 = (0, p5)"
      "on_demod i (\<lambda>dm. tc90522_set_agc_t dm True) p5 = (0, p6)" "on_demod i (\<lambda>dm. tc90522_write_reg dm 0x71 0x21) p6 = (0, p7)"
      "on_demod i (\<lambda>dm. tc90522_write_reg dm 0x72 0x25) p7 = (0, p8)" "on_demod i (\<lambda>dm. tc90522_write_reg dm 0x75 0x08) p8 = (0, px')"
    using assms(1) unfolding px4_chrdev_tune_t_def sys if_not_P [OF not_not [THEN iffD2, OF refl]] run_all_zero run_all_single by blast
  have d: "px_chrdev4 v = px_chrdev4 u" if "on_demod i f u = (r, v)" for f r and u v :: "'d px4_device"
    using that by (auto simp: on_demod_def on_bus_def Let_def case_prod_beta)
  have c3: "px_chrdev4 p3 = px_chrdev4 px" using d [OF s(1)] d [OF s(2)] d [OF s(3)] by simp
  define b where "b = px_bridge p3"
  obtain t where t: "r850_set_frequency (unat (tp_freq prm)) ((c4_r850 (px_chrdev4 px ! i))\<lparr>r8_s := b\<rparr>) = (0, t)"
      "p4 = put_r850 i t p3"
    using s(4) c3 by (auto simp: on_tuner_put b_def prod_eq_iff)
  have t4: "tuner_regs i p4 = (r8_regs t, r8_chip t, r8_mixer_mode t, r8_sys_curr t)"
    using assms(2) c3 by (simp add: t(2) tuner_regs_def put_nth)
  have "(asks_lock i)\<^sup>*\<^sup>* p4 (snd (snd (on_r850_read i (r850_is_pll_locked l) u)))" if "(asks_lock i)\<^sup>*\<^sup>* p4 u" for l u
    using that by (rule rtranclp.rtrancl_into_rtrancl) (auto simp: asks_lock_def)
  then obtain l u where l: "on_r850_read i (r850_is_pll_locked l) u = (0, True, p5)" "(asks_lock i)\<^sup>*\<^sup>* p4 u"
    using wait_pll_locked [OF s(5), of "(asks_lock i)\<^sup>*\<^sup>* p4"] by blast
  have "px_chrdev4 px' = px_chrdev4 p5" using d [OF s(6)] d [OF s(7)] d [OF s(8)] d [OF s(9)] by simp
  then have "tuner_regs i px' = tuner_regs i p5" by (simp add: tuner_regs_def)
  moreover have "tuner_regs i p5 = tuner_regs i u" using tuner_regs_locked [of i l u] l(1) by simp
  ultimately have r: "tuner_regs i u = tuner_regs i px'" by simp
  have "tuner_regs i px' = (r8_regs t, r8_chip t, r8_mixer_mode t, r8_sys_curr t)"
    using r asks_lock_regs [OF l(2)] t4 by simp
  moreover have "run_all [on_demod i (\<lambda>dm. tc90522_write_reg dm 0x47 0x30), on_demod i (\<lambda>dm. tc90522_set_agc_t dm False),
      on_demod i (\<lambda>dm. tc90522_write_reg dm 0x76 0x0c), on_r850 i (r850_set_frequency (unat (tp_freq prm)))] px = (0, p4)"
    unfolding run_all_zero run_all_single using s by blast
  moreover have "run_all [on_demod i (\<lambda>dm. tc90522_set_agc_t dm True), on_demod i (\<lambda>dm. tc90522_write_reg dm 0x71 0x21),
      on_demod i (\<lambda>dm. tc90522_write_reg dm 0x72 0x25), on_demod i (\<lambda>dm. tc90522_write_reg dm 0x75 0x08)] p5 = (0, px')"
    unfolding run_all_zero run_all_single using s by blast
  ultimately show ?thesis using sys t(1) l r by blast
qed

text \<open>C32: when tuning a terrestrial receiver of a PX4 board succeeds, and its tuner's driver state was well
  formed before (as every call of the tuner's driver leaves it), the receiver is tuned: the system asked
  for is ISDB-T and the frequency one the tuner accepts; the divider, the crystal divider, the integer and
  the fractional word the driver left in the R850's registers stand for that frequency shifted by the
  intermediate frequency of the system in use (below it or above it, as the mixer is set), within a 64th of
  the divided crystal and 19 kHz at the oscillator, with the oscillator in its range. And the run itself
  went through the lock: after the demodulator was silenced and the frequency set the tuner was asked for
  its lock, with these registers in force, until one of the answers was that the synthesizer had locked, and
  from the device as that answer left it the demodulator was turned on again.\<close>

theorem px4_tune_t_lands:
  fixes px px' :: "'d px4_device"
  assumes "px4_chrdev_tune_t i prm px = (0, px')" "i < length (px_chrdev4 px)" "r850_wf (c4_r850 (px_chrdev4 px ! i))"
    "t = c4_r850 (px_chrdev4 px' ! i)" "f = unat (tp_freq prm)" "ifq = sys_if_freq (r8_sys_curr t)"
    "lo = (if r8_mixer_mode t \<noteq> 0 then f - ifq else f + ifq)"
  shows "tp_system prm = PTX_ISDB_T_SYSTEM \<and> 40000 \<le> f \<and> f \<le> 1002000 \<and> ifq \<le> 5070 \<and>
    r850_vco_min (r8_chip t) \<le> lo * 2 ^ (pll_div_of (r8_regs t) + 1) \<and>
    lo * 2 ^ (pll_div_of (r8_regs t) + 1) < 2 * r850_vco_min (r8_chip t) \<and>
    \<bar>65536 * int (lo * 2 ^ (pll_div_of (r8_regs t) + 1)) -
      (65536 * int (pll_nint_of (r8_regs t)) + int (pll_sdm_of (r8_regs t))) * (2 * int (pll_xtal_of 24000 (r8_regs t)))\<bar>
      \<le> 65536 * (int (pll_xtal_of 24000 (r8_regs t) div 64) + 19) \<and>
    (\<exists>p4 u l p5.
       run_all [on_demod i (\<lambda>dm. tc90522_write_reg dm 0x47 0x30), on_demod i (\<lambda>dm. tc90522_set_agc_t dm False),
         on_demod i (\<lambda>dm. tc90522_write_reg dm 0x76 0x0c), on_r850 i (r850_set_frequency f)] px = (0, p4) \<and>
       (asks_lock i)\<^sup>*\<^sup>* p4 u \<and> on_r850_read i (r850_is_pll_locked l) u = (0, True, p5) \<and>
       tuner_regs i u = tuner_regs i px' \<and>
       run_all [on_demod i (\<lambda>dm. tc90522_set_agc_t dm True), on_demod i (\<lambda>dm. tc90522_write_reg dm 0x71 0x21),
         on_demod i (\<lambda>dm. tc90522_write_reg dm 0x72 0x25), on_demod i (\<lambda>dm. tc90522_write_reg dm 0x75 0x08)] p5 = (0, px'))"
proof -
  obtain b v where v: "r850_set_frequency f ((c4_r850 (px_chrdev4 px ! i))\<lparr>r8_s := b\<rparr>) = (0, v)"
      "tuner_regs i px' = (r8_regs v, r8_chip v, r8_mixer_mode v, r8_sys_curr v)" and sys: "tp_system prm = PTX_ISDB_T_SYSTEM"
    using tune_t_steps [OF assms(1,2)] assms(5) by metis
  note lock = conjunct2 [OF conjunct2 [OF tune_t_steps [OF assms(1,2)]], folded assms(5)]
  have e: "r8_regs t = r8_regs v" "r8_chip t = r8_chip v" "r8_mixer_mode t = r8_mixer_mode v" "r8_sys_curr t = r8_sys_curr v"
    using v(2) assms(4) by (simp_all add: tuner_regs_def Let_def)
  have "r850_wf ((c4_r850 (px_chrdev4 px ! i))\<lparr>r8_s := b\<rparr>)" using assms(3) by (simp add: r850_wf_def)
  from set_frequency_pll [OF v(1) this]
  obtain u where u: "40000 \<le> f" "f \<le> 1002000" "ifq \<le> 5070" "r850_wf u" "r8_chip u = r8_chip v"
      "r850_set_pll lo ifq (sys_system (r8_sys_curr v)) u = (0, v)"
    using assms(6,7) e by auto
  have "17735 \<le> lo" "lo < 2200000" using u(1-3) assms(7) by auto
  from r850_pll_result [OF u(6) _ _ this refl] u(4,5) show ?thesis using u(1-3) sys lock by (simp add: e r850_wf_def)
qed

text \<open>A board whose chips answer, its third receiver tuned to the UHF channel 13.\<close>

definition demo_c4 :: "((u32 \<Rightarrow> u8) \<times> u8 list) px4_chrdev" where
  "demo_c4 = \<lparr> c4_system_cap = PTX_ISDB_T_SYSTEM, c4_open = True, c4_lnb_power = False,
     c4_tc90522 = \<lparr> dm_i2c = answering_bus, dm_addr = 0x10, dm_secondary = False, dm_junk = 0 \<rparr>,
     c4_r850 = demo_r850 demo_bridge,
     c4_rt710 = \<lparr> rt_i2c = answering_bus, rt_addr = 0x7a, rt_config =
       \<lparr> rt_xtal = 24000, rt_loop_through = False, rt_clock_out = False, rt_signal_output_mode = RT710_SIGNAL_OUTPUT_DIFFERENTIAL,
         rt_agc_mode = RT710_AGC_POSITIVE, rt_vga_atten_mode = RT710_VGA_ATTEN_OFF, rt_fine_gain = RT710_FINE_GAIN_3DB,
         rt_scan_mode = RT710_SCAN_MANUAL \<rparr>,
       rt_init = False, rt_chip = RT710_CHIP_TYPE_RT710, rt_freq = 0, rt_s = demo_bridge, rt_junk = 0, rt_ub = False \<rparr> \<rparr>"

definition demo_device :: "((u32 \<Rightarrow> u8) \<times> u8 list) px4_device" where
  "demo_device = \<lparr> px_board = demo_board, px_kref = 1, px_lnb_power_count = 0, px_streaming_count = 0,
     px_chrdev4 = replicate 4 demo_c4, px_remain_len = 0 \<rparr>"

definition demo_channel :: ptx_tune_params where
  "demo_channel = \<lparr> tp_system = PTX_ISDB_T_SYSTEM, tp_freq = 473143, tp_bandwidth = 6, tp_stream_id = 0, tp_tsmf_stream = 0 \<rparr>"

lemma demo_set_frequency: "fst (r850_set_frequency 473143 ((demo_r850 s)\<lparr>r8_s := b\<rparr>)) = 0"
proof -
  define t where "t = (demo_r850 s)\<lparr>r8_s := b\<rparr>"
  have t: "r8_init t" "r8_no_imr_calibration (r8_config t)" "r8_sys t = r8_sys_curr t" "sys_system (r8_sys_curr t) = R850_SYSTEM_ISDB_T"
      "sys_if_freq (r8_sys_curr t) = 4063" "r8_mixer_mode t = 1" "r8_xtal (r8_config t) = 24000" "answered t"
    by (simp_all add: t_def demo_r850_def answered_def)
  have p: "r850_set_system_params t = (0, t)" using t by (simp add: r850_set_system_params_def)
  obtain q where q: "find (freq_match 4063 473143) (sys_freq_params R850_SYSTEM_ISDB_T) = Some q"
    by (simp add: isdb_t_freq_params_def freqprm_def freq_match_def)
  let ?A = "\<lambda>u. answered u \<and> r8_xtal (r8_config u) = 24000"
  have r: "fst (regs_do ops u) = 0 \<and> ?A (snd (regs_do ops u))" if "?A u" for ops and u :: "'a r850_tuner"
    using that answered_steps(1) [of u ops] by (simp add: regs_do_def)
  have m: "fst (r850_set_mux x y z u) = 0 \<and> ?A (snd (r850_set_mux x y z u))" if "?A u" for x y z and u :: "'a r850_tuner"
    using r [OF that] by (simp add: r850_set_mux_def Let_def case_prod_beta)
  have "fst (run_all ([regs_do a, regs_do b', regs_do c, regs_do d, r850_set_mux 473143 469080 R850_SYSTEM_ISDB_T] @
      [r850_set_pll 469080 4063 R850_SYSTEM_ISDB_T]) t) = 0" for a b' c d
  proof -
    let ?fs = "[regs_do a, regs_do b', regs_do c, regs_do d, r850_set_mux 473143 469080 R850_SYSTEM_ISDB_T]"
    have "fst (run_all ?fs t) = 0 \<and> ?A (snd (run_all ?fs t))"
      by (rule run_all_returns_0) (use r m t(7,8) in auto)
    then show ?thesis using answered_pll [of "snd (run_all ?fs t)" 469080 4063 R850_SYSTEM_ISDB_T]
      unfolding run_all_append run_all_single Let_def case_prod_beta by simp
  qed
  then have "fst (r850_set_system_frequency 473143 t) = 0"
    unfolding r850_set_system_frequency_def Let_def t(4-6) q option.case by simp
  then show ?thesis using t(1) p unfolding t_def [symmetric] by (simp add: r850_set_frequency_def case_prod_beta)
qed

definition tune_demo_ok :: "'d px4_device \<Rightarrow> bool" where
  "tune_demo_ok px \<longleftrightarrow> length (px_chrdev4 px) = 4 \<and> dm_i2c (demod_of 2 px) = answering_bus \<and>
     r8_i2c (c4_r850 (px_chrdev4 px ! 2)) = answering_bus \<and> r8_init (c4_r850 (px_chrdev4 px ! 2))"

lemma demo_tune_demod:
  assumes "tune_demo_ok px"
  shows "fst (on_demod 2 (\<lambda>dm. tc90522_write_reg dm reg v) px) = 0 \<and> tune_demo_ok (snd (on_demod 2 (\<lambda>dm. tc90522_write_reg dm reg v) px))"
    "fst (on_demod 2 (\<lambda>dm. tc90522_set_agc_t dm e) px) = 0 \<and> tune_demo_ok (snd (on_demod 2 (\<lambda>dm. tc90522_set_agc_t dm e) px))"
  using assms by (simp_all add: tune_demo_ok_def on_demod_def on_bus_def tc90522_write_reg_def tc90522_write_regs_def answering_request
      tc90522_set_agc_t_def tc90522_write_multiple_regs_def run_each_def Let_def case_prod_beta)

lemma demo_wait_pll:
  assumes "tune_demo_ok px"
  shows "fst (wait_pll (\<lambda>l. on_r850_read 2 (r850_is_pll_locked l)) px) = 0 \<and>
    tune_demo_ok (snd (wait_pll (\<lambda>l. on_r850_read 2 (r850_is_pll_locked l)) px))"
proof -
  have "reverse_bit 0xff AND 0x40 \<noteq> (0 :: u8)" by code_simp
  then have "fst (on_r850_read 2 (r850_is_pll_locked l) px) = 0" "fst (snd (on_r850_read 2 (r850_is_pll_locked l) px))"
      "tune_demo_ok (snd (snd (on_r850_read 2 (r850_is_pll_locked l) px)))" for l
    using assms by (simp_all add: tune_demo_ok_def on_r850_read_def r850_is_pll_locked_def r850_read_reg_def r850_read_regs_def
        answering_request Let_def case_prod_beta)
  then show ?thesis by (simp add: wait_pll_def Let_def case_prod_beta numeral_eq_Suc)
qed

lemma demo_bus_invariant: "bus_invariant answering_bus (\<lambda>_. True)"
  by unfold_locales simp

lemma demo_tunes: "fst (px4_chrdev_tune_t 2 demo_channel demo_device) = 0"
proof -
  let ?d = "\<lambda>reg v. on_demod 2 (\<lambda>dm. tc90522_write_reg dm reg v)" and ?a = "\<lambda>e. on_demod 2 (\<lambda>dm. tc90522_set_agc_t dm e)"
  define pre :: "((u32 \<Rightarrow> u8) \<times> u8 list) px4_device call list" where "pre = [?d 0x47 0x30, ?a False, ?d 0x76 0x0c]"
  define post :: "((u32 \<Rightarrow> u8) \<times> u8 list) px4_device call list" where
    "post = [wait_pll (\<lambda>l. on_r850_read 2 (r850_is_pll_locked l)), ?a True, ?d 0x71 0x21, ?d 0x72 0x25, ?d 0x75 0x08]"
  have start: "tune_demo_ok demo_device \<and> c4_r850 (px_chrdev4 demo_device ! 2) = demo_r850 demo_bridge"
    by (simp add: tune_demo_ok_def demo_device_def demo_c4_def demo_r850_def)
  define u where "u = snd (run_all pre demo_device)"
  have same: "c4_r850 (px_chrdev4 (snd (on_demod 2 f v)) ! 2) = c4_r850 (px_chrdev4 v ! 2)" for f and v :: "((u32 \<Rightarrow> u8) \<times> u8 list) px4_device"
    by (simp add: on_demod_def on_bus_def Let_def case_prod_beta)
  have p: "fst (run_all pre demo_device) = 0 \<and> (tune_demo_ok u \<and> c4_r850 (px_chrdev4 u ! 2) = demo_r850 demo_bridge)" unfolding u_def
    by (rule run_all_returns_0 [where Q = "\<lambda>v. tune_demo_ok v \<and> c4_r850 (px_chrdev4 v ! 2) = demo_r850 demo_bridge", OF _ start]) (auto simp: pre_def demo_tune_demod same)
  define t where "t = r850_set_frequency 473143 ((demo_r850 demo_bridge)\<lparr>r8_s := px_bridge u\<rparr>)"
  have "bus_invariant.r8_on answering_bus (\<lambda>_. True) True ((demo_r850 demo_bridge)\<lparr>r8_s := px_bridge u\<rparr>)"
    by (simp add: bus_invariant.r8_on_def [OF demo_bus_invariant] demo_r850_def)
  then have "bus_invariant.r8_on answering_bus (\<lambda>_. True) True (snd t)" unfolding t_def
    by (rule bus_invariant.r8_calls(5) [OF demo_bus_invariant])
  then have "tune_demo_ok (snd (on_r850 2 (r850_set_frequency 473143) u)) \<and> fst (on_r850 2 (r850_set_frequency 473143) u) = 0"
    using p demo_set_frequency [where s = demo_bridge and b = "px_bridge u"]
    by (simp add: on_tuner_put tune_demo_ok_def put_nth bus_invariant.r8_on_def [OF demo_bus_invariant] flip: t_def)
      (simp add: put_r850_def)
  moreover have "fst (run_all post v) = 0" if "tune_demo_ok v" for v
    by (rule conjunct1 [OF run_all_returns_0 [of _ tune_demo_ok, OF _ that]]) (auto simp: post_def demo_tune_demod demo_wait_pll)
  ultimately have "fst (run_all (pre @ [on_r850 2 (r850_set_frequency 473143)] @ post) demo_device) = 0"
    using p unfolding run_all_append run_all_single Let_def case_prod_beta by (simp flip: u_def)
  then show ?thesis by (simp add: px4_chrdev_tune_t_def demo_channel_def pre_def post_def del: run_all.simps)
qed

theorem px4_tune_t_lands_witness:
  "\<exists>px'. px4_chrdev_tune_t 2 demo_channel demo_device = (0, px') \<and>
    sys_if_freq (r8_sys_curr (c4_r850 (px_chrdev4 px' ! 2))) \<le> 5070"
proof -
  obtain px' where px': "px4_chrdev_tune_t 2 demo_channel demo_device = (0, px')" using demo_tunes by (metis prod.collapse)
  have "r850_wf (c4_r850 (px_chrdev4 demo_device ! 2))" "2 < length (px_chrdev4 demo_device)"
    by (simp_all add: demo_device_def demo_c4_def demo_r850_def r850_wf_def sys_in_tables_def
        find_system_params_def isdb_t_params_def sysprm_def)
  then show ?thesis using px4_tune_t_lands [OF px' _ _ refl refl refl refl] px' by simp
qed

end
