(* ===== verification/Px4_Init.thy ===== *)
theory Px4_Init
  imports Px4_Device
begin

text \<open>
  The first part of \<^verbatim>\<open>px4_device_init\<close> of driver/px4\_device.c: the serial number, the configuration, and the
  bridge brought up to the point where the receivers are registered. \<open>px4_init_env\<close> is what the
  function learns from its surroundings.
\<close>

section \<open>The serial number\<close>

text \<open>\<^verbatim>\<open>kstrtoull\<close> in base 10: an optional plus sign, digits, an optional newline.\<close>

abbreviation (input) ERANGE :: int where "ERANGE \<equiv> 34"

definition digit :: "char \<Rightarrow> bool" where
  "digit c \<longleftrightarrow> 48 \<le> (of_char c :: nat) \<and> (of_char c :: nat) \<le> 57"

definition digit_val :: "char \<Rightarrow> nat" where
  "digit_val c = of_char c - 48"

definition decimal :: "string \<Rightarrow> nat" where
  "decimal cs = foldl (\<lambda>n c. n * 10 + digit_val c) 0 cs"

definition kstrtoull :: "string \<Rightarrow> int + nat" where
  "kstrtoull str =
     (let s = (case str of CHR ''+'' # r \<Rightarrow> r | _ \<Rightarrow> str);
          ds = takeWhile digit s;
          r = drop (length ds) s in
      if decimal ds \<ge> 2 ^ 64 then Inl (- ERANGE)
      else if ds = [] then Inl (- EINVAL)
      else if r = [] \<or> r = [CHR 0x0a] then Inr (decimal ds)
      else Inl (- EINVAL))"

text \<open>\<^verbatim>\<open>do_div\<close> leaves the quotient and returns the remainder.\<close>

definition px4_parse_serial_number :: "string \<Rightarrow> int + nat \<times> nat" where
  "px4_parse_serial_number dev_serial =
     (if length dev_serial \<noteq> 15 then Inl (- EINVAL)
      else case kstrtoull dev_serial of
             Inl e \<Rightarrow> Inl e
           | Inr n \<Rightarrow> Inr (n div 10, n mod 10))"

section \<open>The configuration\<close>

definition px4_input_addr :: "nat \<Rightarrow> u8" where
  "px4_input_addr i = [0x11, 0x13, 0x10, 0x12] ! i"

definition px4_input :: "nat \<Rightarrow> it930x_stream_input" where
  "px4_input i =
     \<lparr> si_enable = True, si_is_parallel = False, si_port_number = of_nat (i + 1), si_slave_number = of_nat i,
       si_i2c_bus = 2, si_i2c_addr = px4_input_addr i, si_packet_len = 188,
       si_sync_byte = push_bit 4 (of_nat (i + 1)) OR 0x07 \<rparr>"

text \<open>\<^verbatim>\<open>it930x->i2c_master[1]\<close> is bus 2.\<close>

definition px4_demod :: "nat \<Rightarrow> 'd it930x_bridge tc90522_demod \<Rightarrow> 'd it930x_bridge tc90522_demod" where
  "px4_demod i dm = dm\<lparr> dm_i2c := \<lparr> i2c_gate_ctrl = None, i2c_request = Some (it930x_i2c_master_request 2) \<rparr>,
     dm_addr := px4_input_addr i, dm_secondary := odd i \<rparr>"

definition px4_rt710_config :: rt710_config where
  "px4_rt710_config =
     \<lparr> rt_xtal = 24000, rt_loop_through = False, rt_clock_out = False,
       rt_signal_output_mode = RT710_SIGNAL_OUTPUT_DIFFERENTIAL, rt_agc_mode = RT710_AGC_POSITIVE,
       rt_vga_atten_mode = RT710_VGA_ATTEN_OFF, rt_fine_gain = RT710_FINE_GAIN_3DB, rt_scan_mode = RT710_SCAN_MANUAL \<rparr>"

definition px4_r850_config :: "nat \<Rightarrow> r850_config" where
  "px4_r850_config i =
     \<lparr> r8_xtal = 24000, r8_loop_through = even i, r8_clock_out = False, r8_no_imr_calibration = True,
       r8_no_lpf_calibration = True \<rparr>"

definition px4_config_chrdev :: "bool \<Rightarrow> nat \<Rightarrow> 'd px4_chrdev \<Rightarrow> 'd px4_chrdev" where
  "px4_config_chrdev mem i c =
     (let dm = px4_demod i (c4_tc90522 c);
          c1 = c\<lparr>c4_tc90522 := dm, c4_system_cap := (if i < 2 then PTX_ISDB_S_SYSTEM else PTX_ISDB_T_SYSTEM)\<rparr> in
      if i < 2 then
        c1\<lparr>c4_rt710 := (c4_rt710 c)\<lparr>rt_i2c := tc90522_master mem dm, rt_addr := 0x7a, rt_config := px4_rt710_config\<rparr>\<rparr>
      else
        c1\<lparr>c4_r850 := (c4_r850 c)\<lparr>r8_i2c := tc90522_master mem dm, r8_addr := 0x7c, r8_config := px4_r850_config i\<rparr>\<rparr>)"

definition set_inputs :: "'d it930x_bridge \<Rightarrow> 'd it930x_bridge" where
  "set_inputs b =
     (let cfg = it_config b; ins = config_input cfg in
      b\<lparr>it_config := cfg\<lparr>config_input := map px4_input [0..<PX4_CHRDEV_NUM] @
         [(ins ! 4)\<lparr>si_enable := False, si_port_number := 0\<rparr>] @ drop 5 ins\<rparr>\<rparr>)"

text \<open>
  An EEPROM that reads 0 is reported in the log, but the function returns 0 without having set
  anything: the caller goes on with \<^verbatim>\<open>chrdev_config\<close> uninitialised.
\<close>

definition px4_device_load_config :: "bool \<Rightarrow> u8 \<Rightarrow> 'd px4_device \<Rightarrow> int \<times> bool \<times> 'd px4_device" where
  "px4_device_load_config mem j px =
     (let (ret, tmp, px1) = on_bus_read (it930x_read_reg 0x4979 j) px in
      if ret \<noteq> 0 then (ret, False, px1)
      else if tmp = 0 then (0, False, px1)
      else (0, True, (set_bridge (set_inputs (px_bridge px1)) px1)
             \<lparr>px_chrdev4 := map (\<lambda>i. px4_config_chrdev mem i (px_chrdev4 px1 ! i)) [0..<PX4_CHRDEV_NUM]\<rparr>))"

section \<open>Bringing the bridge up\<close>

record px4_init_env =
  ie_mem :: bool
  ie_bus_init :: int
  ie_firmware :: "int + u8 list"
  ie_fuel :: nat
  ie_junk :: u8
  ie_discard_null_packets :: bool
  ie_mode :: px4_mldev_mode
  ie_uninit_caps :: "u32 list"

definition null_filter :: it930x_pid_filter where
  "null_filter = \<lparr> pf_block = True, pf_num = 1, pf_pid = [0x1fff] \<rparr>"

definition power_pins :: "'d it930x_bridge call" where
  "power_pins = run_all
     [it930x_set_gpio_mode 7 IT930X_GPIO_OUT True, it930x_set_gpio_mode 2 IT930X_GPIO_OUT True,
      it930x_write_gpio 2 False, it930x_write_gpio 7 True]"

definition lnb_pin :: "'d it930x_bridge call" where
  "lnb_pin = run_all [it930x_set_gpio_mode 11 IT930X_GPIO_OUT True, it930x_write_gpio 11 False]"

text \<open>The manager of two boards: found by the serial number, or new. \<open>ms\<close> is the list of managers.\<close>

definition join_mldev :: "px4_init_env \<Rightarrow> px4_mldev list \<Rightarrow> 'd px4_device \<Rightarrow> int \<times> px4_mldev list \<times> 'd px4_device" where
  "join_mldev env ms px =
     (let pw = px_power px; ref = pw_ref pw in
      case px4_mldev_search (px_serial ref) ms of
        (Some k, ms1) \<Rightarrow>
          let (ret, m) = px4_mldev_add (pw_switch pw) (ms1 ! k) ref
          in (ret, ms1[k := m], set_px_power (\<lambda>p. p\<lparr>pw_mldev := (if ret = 0 then Some m else None)\<rparr>) px)
      | (None, ms1) \<Rightarrow>
          (case px4_mldev_alloc (ie_mem env) (ie_mode env) ref of
             Inl e \<Rightarrow> (e, ms1, px)
           | Inr m \<Rightarrow> (0, ms1 @ [m], set_px_power (\<lambda>p. p\<lparr>pw_mldev := Some m\<rparr>) px)))"

text \<open>The ends of the function that undo: the manager forgets the device.\<close>

definition leave_mldev :: "px4_mldev list \<Rightarrow> 'd px4_device \<Rightarrow> px4_mldev list \<times> 'd px4_device" where
  "leave_mldev ms px =
     (let pw = px_power px in
      case pw_mldev pw of
        None \<Rightarrow> (ms, px)
      | Some m \<Rightarrow>
          let m1 = snd (px4_mldev_remove (pw_switch pw) m (pw_ref pw))
          in (map (\<lambda>n. if serial_number n = serial_number m then m1 else n) ms,
              set_px_power (\<lambda>p. p\<lparr>pw_mldev := Some m1\<rparr>) px))"

definition px4_fresh :: "px4_ref \<Rightarrow> 'd px4_device \<Rightarrow> 'd px4_device" where
  "px4_fresh ref px =
     (set_px_power (\<lambda>p. p\<lparr>pw_open_count := 0, pw_card_powered := False, pw_mldev := None, pw_ref := ref\<rparr>) px)
       \<lparr>px_kref := 1, px_lnb_power_count := 0, px_streaming_count := 0,
        px_chrdev4 := map (\<lambda>c. c\<lparr>c4_lnb_power := False\<rparr>) (px_chrdev4 px)\<rparr>"

text \<open>The firmware loader may not end (see \<open>It930x\<close>), so the steps up to there have an optional result.\<close>

definition bridge_up :: "px4_init_env \<Rightarrow> 'd px4_device \<Rightarrow> (int \<times> 'd px4_device) option" where
  "bridge_up env px =
     (let (ret, px1) = run_all [on_bus (it930x_init (ie_mem env) (ie_mem env)), on_bus it930x_raise] px in
      if ret \<noteq> 0 then Some (ret, px1)
      else
        let (ret, configured, px2) = px4_device_load_config (ie_mem env) (ie_junk env) px1;
            caps = (if configured then map c4_system_cap (px_chrdev4 px2) else ie_uninit_caps env) in
        if ret \<noteq> 0 then Some (ret, px2)
        else if \<not> list_all (\<lambda>c. c = PTX_ISDB_T_SYSTEM \<or> c = PTX_ISDB_S_SYSTEM) caps then Some (- EINVAL, px2)
        else case it930x_load_firmware (ie_fuel env) (ie_firmware env) (px_bridge px2) of
               None \<Rightarrow> None
             | Some (ret, b) \<Rightarrow>
                 let px3 = set_bridge b px2 in
                 if ret \<noteq> 0 then Some (ret, px3)
                 else Some (run_all [on_bus it930x_init_warm, on_bus power_pins] px3))"

text \<open>
  The whole of it: the result is that of \<^verbatim>\<open>px4_device_init\<close> up to \<^verbatim>\<open>ptx_chrdev_context_add_group\<close>. \<open>ident\<close> is the
  address of the device.
\<close>

definition px4_device_bring_up ::
    "px4_init_env \<Rightarrow> string \<Rightarrow> bool \<Rightarrow> nat \<Rightarrow> px4_mldev list \<Rightarrow> 'd px4_device \<Rightarrow>
      (int \<times> px4_mldev list \<times> 'd px4_device) option" where
  "px4_device_bring_up env dev_serial use_mldev idt ms px =
     (case px4_parse_serial_number dev_serial of
        Inl e \<Rightarrow> Some (e, ms, px4_fresh (pw_ref (px_power px)) px)
      | Inr (sn, dev_id) \<Rightarrow>
          let px0 = px4_fresh \<lparr>ident = idt, px_serial = sn, px_dev_id = dev_id\<rparr> px in
          if \<not> ie_mem env then Some (- ENOMEM, ms, px0)
          else if ie_bus_init env \<noteq> 0 then Some (ie_bus_init env, ms, px0)
          else case bridge_up env px0 of
            None \<Rightarrow> None
          | Some (ret, px1) \<Rightarrow>
              if ret \<noteq> 0 then Some (ret, ms, px1)
              else
                let (ret, ms1, px2) = (if use_mldev then join_mldev env ms px1 else (0, ms, px1)) in
                if ret \<noteq> 0 then Some (ret, ms1, px2)
                else
                  let (ret, px3) = run_all (on_bus lnb_pin #
                        (if ie_discard_null_packets env
                         then map (\<lambda>i. on_bus (it930x_set_pid_filter (int i) (Some null_filter))) [0..<PX4_CHRDEV_NUM]
                         else [])) px2 in
                  if ret \<noteq> 0 then (let (ms2, px4) = leave_mldev ms1 px3 in Some (ret, ms2, px4))
                  else Some (0, ms1, px3))"

end
