(* ===== verification/Px4_Device_Props.thy ===== *)
theory Px4_Device_Props
  imports Px4_Device_Power Px4_Tune Px4_Init
begin

text \<open>The properties of the PX4 boards: the counters of a device, what holds while it is used, its serial number.\<close>

section \<open>A board for the witnesses\<close>

definition demo_dm :: "((u32 \<Rightarrow> u8) \<times> u8 list) it930x_bridge tc90522_demod" where
  "demo_dm = px4_demod 2 (c4_tc90522 demo_c4)"

definition demo_receiver :: "((u32 \<Rightarrow> u8) \<times> u8 list) px4_chrdev" where
  "demo_receiver = demo_c4\<lparr>c4_open := False, c4_tc90522 := demo_dm,
     c4_r850 := (c4_r850 demo_c4)\<lparr>r8_i2c := tc90522_master True demo_dm\<rparr>,
     c4_rt710 := (c4_rt710 demo_c4)\<lparr>rt_i2c := tc90522_master True demo_dm\<rparr>\<rparr>"

definition demo_pins :: "((u32 \<Rightarrow> u8) \<times> u8 list) it930x_bridge" where
  "demo_pins = demo_ready\<lparr>gpio_status := replicate 16 \<lparr>gs_enable = True, gs_mode = IT930X_GPIO_OUT\<rparr>\<rparr>"

definition demo_idle :: "((u32 \<Rightarrow> u8) \<times> u8 list) px4_device" where
  "demo_idle = demo_device\<lparr>px_kref := 2, px_board := demo_board\<lparr>bd_it930x := demo_pins\<rparr>, px_chrdev4 := replicate 4 demo_receiver\<rparr>"

definition demo_env :: "((u32 \<Rightarrow> u8) \<times> u8 list) px4_env" where
  "demo_env = \<lparr>pe_s_tuner_no_sleep = False, pe_psb_purge_timeout = 2000, pe_kmalloc = True,
     pe_start_streaming = (\<lambda>b. (0, b)), pe_stop_streaming = (\<lambda>b. (0, b)), pe_uninit_tsid = 0\<rparr>"

lemma demo_start: "px4_start True demo_idle" "pw_mldev (px_power demo_idle) = None" "streaming_keeps_pins demo_env"
  by (simp_all add: px4_start_def wired_def demo_idle_def demo_device_def demo_receiver_def demo_c4_def demo_dm_def px4_demod_def
      demo_board_def demo_r850_def streaming_keeps_pins_def demo_env_def)

text \<open>The card reader is switched on; then the device is unplugged and given up.\<close>

definition demo_card_on :: "((u32 \<Rightarrow> u8) \<times> u8 list) px4_sys" where
  "demo_card_on = \<lparr>sys_px = snd (on_board (px4_device_set_card_power True) demo_idle), sys_capturing = {}, sys_unregistered = False, sys_gone = False\<rparr>"

lemma demo_card_run: "px4_run demo_env demo_idle demo_card_on"
proof -
  have "px4_step demo_env \<lparr>sys_px = demo_idle, sys_capturing = {}, sys_unregistered = False, sys_gone = False\<rparr> demo_card_on"
    using px4_step.card_power [of "\<lparr>sys_px = demo_idle, sys_capturing = {}, sys_unregistered = False, sys_gone = False\<rparr>" True demo_env]
    by (simp add: demo_card_on_def demo_idle_def demo_board_def)
  then show ?thesis unfolding px4_run_def by blast
qed

lemma demo_pins_write:
  fixes b :: "((u32 \<Rightarrow> u8) \<times> u8 list) it930x_bridge"
  assumes "firmware_ok (it_bus b) fst" "it_bus_type b = ITEDTV_BUS_USB" "gpio_status b = gpio_status demo_pins" "g \<in> {2, 3, 7}"
  shows "\<exists>b'. it930x_write_gpio g h b = (0, b') \<and> same_bridge b b'"
  using reg_call_ok [OF assms(1,2), of "W (gpio_o_regs ! nat (g - 1)) (if h then 1 else 0)"] assms(3,4)
  by (auto simp: it930x_write_gpio_def gpio_pin_def demo_pins_def nth_replicate)

lemma demo_card_powered: "pw_card_powered (px_power (sys_px demo_card_on))"
proof -
  have p: "firmware_ok (it_bus demo_pins) fst" "it_bus_type demo_pins = ITEDTV_BUS_USB"
    using demo_init(3,4) by (simp_all add: demo_pins_def)
  obtain b1 where b1: "it930x_write_gpio 7 False demo_pins = (0, b1)" "same_bridge demo_pins b1" using demo_pins_write [OF p refl] by blast
  then obtain b2 where b2: "it930x_write_gpio 2 True b1 = (0, b2)" using demo_pins_write [of b1 2 True] p by (auto simp: same_bridge_def)
  show ?thesis using b1(1) b2
    by (simp add: demo_card_on_def on_board_def px4_device_set_card_power_def demo_idle_def demo_board_def px4_backend_set_power_def
        on_bridge_def Let_def case_prod_beta)
qed

section \<open>Counters\<close>

text \<open>C30: the counters of a PX4 board are exact along every run of the board, whatever the bus and the chips answer:
  the open count is the number of open receivers, the streaming count the number of capturing ones, which
  are open, and the LNB count the number of receivers whose LNB supply is on; the reference count is two for every
  open file, one for the group of receivers until it is unregistered and one for the driver until it gives the
  device up, so that the device is freed exactly when both have happened and the last file is closed. The
  callback that closes a file, which would return with the mutex held had it dropped the last reference, never does.\<close>

theorem px4_counts_exact:
  assumes "px4_run env px s" "px4_start mem px"
  shows "pw_open_count (px_power (sys_px s)) = card (opens (sys_px s)) \<and>
    px_streaming_count (sys_px s) = of_nat (card (sys_capturing s)) \<and> sys_capturing s \<subseteq> opens (sys_px s) \<and>
    px_lnb_power_count (sys_px s) = of_nat (card (lnbs (sys_px s))) \<and>
    px_kref (sys_px s) = 2 * card (opens (sys_px s)) + (if sys_unregistered s then 0 else 1) + (if sys_gone s then 0 else 1) \<and>
    (px_kref (sys_px s) = 0 \<longleftrightarrow> sys_unregistered s \<and> sys_gone s \<and> opens (sys_px s) = {}) \<and>
    (\<forall>i \<in> opens (sys_px s) - sys_capturing s. px4_chrdev_release env i (sys_px s) = (ret, px') \<longrightarrow> ret = 0 \<and> px_kref px' \<noteq> 0)"
  using run_counts [OF assms] release_counts(1,2) [OF run_counts [OF assms]]
  by (auto simp: counts_def other_refs_def opens_def)

theorem px4_counts_exact_witness:
  "pw_open_count (px_power (sys_px demo_card_on)) = card (opens (sys_px demo_card_on)) \<and> px_kref (sys_px demo_card_on) \<noteq> 0"
  using px4_counts_exact [OF demo_card_run demo_start(1)] by (simp add: demo_card_on_def)

section \<open>Power\<close>

text \<open>C31: on a board without a partner, and with a bus layer whose streaming leaves the GPIO pins alone, along every run: while
  a receiver is open or the card reader is on, the supply pins were last written on; while some receiver's LNB
  supply is on, the LNB pin was last written on; and while a receiver is open, the tuner of every receiver is
  initialised. Failing opens, tuning, captures, the card reader's traffic and the closing of other files
  do not change that.\<close>

theorem px4_in_use_powered:
  assumes "px4_run env px s" "px4_start mem px" "pw_mldev (px_power px) = None" "streaming_keeps_pins env"
  shows "(opens (sys_px s) \<noteq> {} \<or> pw_card_powered (px_power (sys_px s)) \<longrightarrow> powered (px_bridge (sys_px s))) \<and>
    (lnbs (sys_px s) \<noteq> {} \<longrightarrow> lnb_on (px_bridge (sys_px s))) \<and>
    (opens (sys_px s) \<noteq> {} \<longrightarrow> (\<forall>j < 4. ready (px_chrdev4 (sys_px s) ! j)))"
  using run_good [OF assms] by (simp add: good_def supplied_def tuners_ready_def)

theorem px4_in_use_powered_witness: "powered (px_bridge (sys_px demo_card_on))"
  using px4_in_use_powered [OF demo_card_run demo_start] demo_card_powered by blast

section \<open>The serial number\<close>

lemma decimal_append: "decimal (cs @ [c]) = decimal cs * 10 + digit_val c"
  by (simp add: decimal_def)

lemma digit_val_less: "digit c \<Longrightarrow> digit_val c < 10"
  by (auto simp: digit_def digit_val_def)

lemma decimal_less: "list_all digit cs \<Longrightarrow> decimal cs < 10 ^ length cs"
proof (induction cs rule: rev_induct)
  case (snoc c cs)
  then have "decimal cs + 1 \<le> 10 ^ length cs" "digit_val c < 10" using digit_val_less by auto
  then show ?case by (simp add: decimal_append)
qed (simp add: decimal_def)

text \<open>A device's serial number of 15 digits is split into the number of the pair of boards, its first 14 digits,
  and the number of the board in the pair, the last digit; it never overflows. Strings of any other length are
  refused, and so is a first character that is neither a digit nor a plus sign, whatever follows.\<close>

theorem px4_serial_split:
  "(list_all digit cs \<longrightarrow> length cs = 14 \<longrightarrow> digit c \<longrightarrow>
      px4_parse_serial_number (cs @ [c]) = Inr (decimal cs, digit_val c)) \<and>
   (length str \<noteq> 15 \<longrightarrow> px4_parse_serial_number str = Inl (- EINVAL)) \<and>
   (\<not> digit d \<longrightarrow> d \<noteq> CHR ''+'' \<longrightarrow> px4_parse_serial_number (d # str) = Inl (- EINVAL))"
proof -
  have "px4_parse_serial_number (cs @ [c]) = Inr (decimal cs, digit_val c)" if D: "list_all digit cs" "length cs = 14" "digit c"
  proof -
    have d: "list_all digit (cs @ [c])" using D by simp
    then have t: "takeWhile digit (cs @ [c]) = cs @ [c]" by (simp add: takeWhile_eq_all_conv list_all_iff)
    obtain a r where a: "cs @ [c] = a # r" "digit a" using d D(2) by (cases cs) auto
    then have p: "(case cs @ [c] of CHR ''+'' # r \<Rightarrow> r | _ \<Rightarrow> cs @ [c]) = cs @ [c]"
      by (auto simp: digit_def split: list.split char.split bool.split)
    have "decimal (cs @ [c]) < 10 ^ 15" using decimal_less [OF d] D(2) by simp
    then have "kstrtoull (cs @ [c]) = Inr (decimal (cs @ [c]))"
      unfolding kstrtoull_def Let_def p t by simp
    then show ?thesis using D(2) digit_val_less [OF D(3)] by (simp add: px4_parse_serial_number_def decimal_append)
  qed
  moreover have "px4_parse_serial_number (d # str) = Inl (- EINVAL)" if "\<not> digit d" "d \<noteq> CHR ''+''"
  proof -
    have "(case d # str of CHR ''+'' # r \<Rightarrow> r | _ \<Rightarrow> d # str) = d # str" using that(2)
      by (auto split: char.split bool.split)
    then show ?thesis using that(1) by (simp add: px4_parse_serial_number_def kstrtoull_def Let_def decimal_def)
  qed
  ultimately show ?thesis by (simp add: px4_parse_serial_number_def)
qed

theorem px4_serial_split_witness: "px4_parse_serial_number ''201803000012345'' = Inr (20180300001234, 5)"
  using conjunct1 [OF px4_serial_split [of "''20180300001234''" "CHR ''5''"]]
  by (simp add: digit_def decimal_def digit_val_def)

end
