(* ===== verification/Cxd2856er.thy ===== *)
theory Cxd2856er
  imports I2c_Bus
begin

text \<open>
  Model of driver/cxd2856er.c, the driver of the Sony CXD2856ER demodulator of the boards of the other
  family (terrestrial, satellite and the two cable systems). The chip has two I2C addresses, SLVX for the
  system registers and SLVT for the demodulator's. Most of the driver is sequences of register accesses,
  each stopping at the first error; they are lists of \<open>cxd_op\<close>, one constructor for each of the accesses
  the sequences make, and \<open>run_ops\<close> runs one. The fields of \<^verbatim>\<open>struct cxd2856er_demod\<close> that the driver
  changes are \<open>cxd2856er_vars\<close>; the rest of it is constant while the driver runs. A byte that C leaves
  uninitialised before a read has the value \<open>cx_junk\<close>; the delays between accesses are left out.
\<close>

section \<open>Data\<close>

datatype cxd2856er_state = CXD2856ER_UNKNOWN_STATE | CXD2856ER_SLEEP_STATE | CXD2856ER_ACTIVE_STATE

datatype cxd2856er_system = CXD2856ER_UNSPECIFIED_SYSTEM | CXD2856ER_ISDB_T_SYSTEM | CXD2856ER_ISDB_S_SYSTEM
  | CXD2856ER_ISDB_C_SYSTEM | CXD2856ER_J83B_SYSTEM

datatype cxd2856er_i2c_target = CXD2856ER_I2C_SLVX | CXD2856ER_I2C_SLVT

record 's cxd2856er_demod =
  cx_i2c :: "'s i2c_comm_master"
  cx_slvx :: u8
  cx_slvt :: u8
  cx_xtal :: u32
  cx_tuner_i2c :: bool
  cx_junk :: u8

record cxd2856er_vars =
  cx_state :: cxd2856er_state
  cx_system :: cxd2856er_system
  cable_wakeup_incomplete :: bool

section \<open>Registers\<close>

definition cx_addr :: "'s cxd2856er_demod \<Rightarrow> cxd2856er_i2c_target \<Rightarrow> u16" where
  "cx_addr dm target = ucast (if target = CXD2856ER_I2C_SLVT then cx_slvt dm else cx_slvx dm)"

definition cxd2856er_read_regs ::
    "'s cxd2856er_demod \<Rightarrow> cxd2856er_i2c_target \<Rightarrow> u8 \<Rightarrow> u8 list \<Rightarrow> 's \<Rightarrow> int \<times> u8 list \<times> 's" where
  "cxd2856er_read_regs dm target reg buf s =
     (if buf = [] then (- EINVAL, buf, s)
      else
        let (ret, reqs, s1) = i2c_comm_master_request (cx_i2c dm)
              [I2C_WRITE_REQUEST (cx_addr dm target) [reg], I2C_READ_REQUEST (cx_addr dm target) buf] s
        in (ret, req_data (reqs ! 1), s1))"

definition cxd2856er_write_regs ::
    "'s cxd2856er_demod \<Rightarrow> cxd2856er_i2c_target \<Rightarrow> u8 \<Rightarrow> u8 list \<Rightarrow> 's call" where
  "cxd2856er_write_regs dm target reg buf s =
     (if buf = [] \<or> length buf > 254 then (- EINVAL, s)
      else
        let (ret, _, s1) = i2c_comm_master_request (cx_i2c dm)
              [I2C_WRITE_REQUEST (cx_addr dm target) (reg # buf)] s
        in (ret, s1))"

definition cxd2856er_write_reg_mask ::
    "'s cxd2856er_demod \<Rightarrow> cxd2856er_i2c_target \<Rightarrow> u8 \<Rightarrow> u8 \<Rightarrow> u8 \<Rightarrow> 's call" where
  "cxd2856er_write_reg_mask dm target reg val msk s =
     (if msk = 0 then (- EINVAL, s)
      else if msk \<noteq> 0xff then
        let (ret, tmp, s1) = cxd2856er_read_regs dm target reg [cx_junk dm] s in
        if ret \<noteq> 0 then (ret, s1)
        else cxd2856er_write_regs dm target reg [(hd tmp AND NOT msk) OR (val AND msk)] s1
      else cxd2856er_write_regs dm target reg [val] s)"

definition cxd2856er_read_slvt_regs :: "'s cxd2856er_demod \<Rightarrow> u8 \<Rightarrow> u8 list \<Rightarrow> 's \<Rightarrow> int \<times> u8 list \<times> 's" where
  "cxd2856er_read_slvt_regs dm = cxd2856er_read_regs dm CXD2856ER_I2C_SLVT"

definition cxd2856er_read_slvt_reg :: "'s cxd2856er_demod \<Rightarrow> u8 \<Rightarrow> u8 \<Rightarrow> 's \<Rightarrow> int \<times> u8 \<times> 's" where
  "cxd2856er_read_slvt_reg dm reg val s =
     (let (ret, buf, s1) = cxd2856er_read_regs dm CXD2856ER_I2C_SLVT reg [val] s in (ret, hd buf, s1))"

definition cxd2856er_write_slvt_regs :: "'s cxd2856er_demod \<Rightarrow> u8 \<Rightarrow> u8 list \<Rightarrow> 's call" where
  "cxd2856er_write_slvt_regs dm = cxd2856er_write_regs dm CXD2856ER_I2C_SLVT"

definition cxd2856er_write_slvx_reg :: "'s cxd2856er_demod \<Rightarrow> u8 \<Rightarrow> u8 \<Rightarrow> 's call" where
  "cxd2856er_write_slvx_reg dm reg val = cxd2856er_write_regs dm CXD2856ER_I2C_SLVX reg [val]"

definition cxd2856er_write_slvt_reg :: "'s cxd2856er_demod \<Rightarrow> u8 \<Rightarrow> u8 \<Rightarrow> 's call" where
  "cxd2856er_write_slvt_reg dm reg val = cxd2856er_write_regs dm CXD2856ER_I2C_SLVT reg [val]"

definition cxd2856er_write_slvt_reg_mask :: "'s cxd2856er_demod \<Rightarrow> u8 \<Rightarrow> u8 \<Rightarrow> u8 \<Rightarrow> 's call" where
  "cxd2856er_write_slvt_reg_mask dm = cxd2856er_write_reg_mask dm CXD2856ER_I2C_SLVT"

section \<open>The tuner's I2C master\<close>

definition cxd2856er_i2c_master_gate_ctrl :: "'s cxd2856er_demod \<Rightarrow> bool \<Rightarrow> 's call" where
  "cxd2856er_i2c_master_gate_ctrl dm op = cxd2856er_write_slvx_reg dm 0x08 (if op then 0x01 else 0x00)"

definition cxd2856er_i2c_master_request ::
    "'s cxd2856er_demod \<Rightarrow> i2c_request list \<Rightarrow> 's \<Rightarrow> int \<times> i2c_request list \<times> 's" where
  "cxd2856er_i2c_master_request dm = i2c_comm_master_request (cx_i2c dm)"

definition cxd2856er_master :: "'s cxd2856er_demod \<Rightarrow> 's i2c_comm_master" where
  "cxd2856er_master dm = \<lparr> i2c_gate_ctrl = Some (cxd2856er_i2c_master_gate_ctrl dm),
     i2c_request = Some (cxd2856er_i2c_master_request dm) \<rparr>"

section \<open>Sequences of register accesses\<close>

definition pin_mask :: "u8 \<Rightarrow> u8" where
  "pin_mask c4 = (if c4 AND 0x88 = 0x80 then 0x01 else if c4 AND 0x88 = 0x88 then 0x80 else 0xff)"

definition cxd2856er_set_ts_pin_state :: "'s cxd2856er_demod \<Rightarrow> bool \<Rightarrow> 's call" where
  "cxd2856er_set_ts_pin_state dm state s =
     (let (ret, s1) = cxd2856er_write_slvt_reg dm 0x00 0x00 s in
      if ret \<noteq> 0 then (ret, s1)
      else let (ret, tmp, s2) = cxd2856er_read_slvt_reg dm 0xc4 (cx_junk dm) s1 in
      if ret \<noteq> 0 then (ret, s2)
      else let (ret, s3) = cxd2856er_write_slvt_reg dm 0x00 0x00 s2 in
      if ret \<noteq> 0 then (ret, s3)
      else cxd2856er_write_slvt_reg_mask dm 0x81 (if state then 0x00 else 0xff) (pin_mask tmp) s3)"

text \<open>A byte to SLVX or SLVT, several bytes, a masked byte, a byte read and dropped, the pins of the
  stream, and a parameter that is refused.\<close>

datatype cxd_op = SlvX u8 u8 | SlvT u8 u8 | SlvTs u8 "u8 list" | SlvTm u8 u8 u8 | RdT u8 | Pins bool | Inval

fun op_call :: "'s cxd2856er_demod \<Rightarrow> cxd_op \<Rightarrow> 's call" where
  "op_call dm (SlvX reg v) s = cxd2856er_write_slvx_reg dm reg v s"
| "op_call dm (SlvT reg v) s = cxd2856er_write_slvt_reg dm reg v s"
| "op_call dm (SlvTs reg d) s = cxd2856er_write_slvt_regs dm reg d s"
| "op_call dm (SlvTm reg v m) s = cxd2856er_write_slvt_reg_mask dm reg v m s"
| "op_call dm (RdT reg) s = (let (ret, _, s1) = cxd2856er_read_slvt_reg dm reg (cx_junk dm) s in (ret, s1))"
| "op_call dm (Pins st) s = cxd2856er_set_ts_pin_state dm st s"
| "op_call dm Inval s = (- EINVAL, s)"

definition run_ops :: "'s cxd2856er_demod \<Rightarrow> cxd_op list \<Rightarrow> 's call" where
  "run_ops dm ops = run_each (op_call dm) ops"

definition cxd2856er_set_ts_clock :: "cxd2856er_system \<Rightarrow> cxd_op list" where
  "cxd2856er_set_ts_clock system =
     [SlvT 0x00 0x00, RdT 0xc4,
      SlvTm 0xd3 (if system = CXD2856ER_J83B_SYSTEM then 0x00 else 0x01) 0x01, SlvTm 0xde 0x00 0x01,
      SlvTm 0xda 0x00 0x01, SlvTm 0xc4 0x00 0x03, SlvTm 0xd1 0x02 0x03, SlvT 0xd9 0x10, SlvTm 0x32 0x00 0x01,
      (case system of
         CXD2856ER_ISDB_T_SYSTEM \<Rightarrow> SlvTm 0x33 0x02 0x03
       | CXD2856ER_ISDB_S_SYSTEM \<Rightarrow> SlvTm 0x33 0x00 0x03
       | CXD2856ER_ISDB_C_SYSTEM \<Rightarrow> SlvTm 0x33 0x00 0x03
       | CXD2856ER_J83B_SYSTEM \<Rightarrow> SlvTm 0x33 0x00 0x03
       | _ \<Rightarrow> Inval),
      SlvTm 0x32 0x01 0x01, SlvT 0x00 0x10, SlvTm 0x66 0x01 0x01, SlvT 0x00 0x40, SlvTm 0x66 0x01 0x01]"

subsection \<open>Falling asleep\<close>

definition cxd2856er_sleep_isdbt :: "cxd_op list" where
  "cxd2856er_sleep_isdbt =
     [SlvT 0x00 0x00, SlvT 0xc3 0x01, SlvTm 0x80 0x1f 0x1f, Pins False,
      SlvT 0x00 0x10, SlvT 0x69 0x05, SlvT 0x6b 0x07, SlvT 0x9d 0x14, SlvT 0xd3 0x00, SlvT 0xed 0x01,
      SlvT 0xe2 0x4e, SlvT 0xf2 0x03, SlvT 0xde 0x32,
      SlvT 0x00 0x15, SlvT 0xde 0x03, SlvT 0x00 0x17, SlvTs 0x38 [0x01, 0x00],
      SlvT 0x00 0x1e, SlvT 0x73 0x00, SlvT 0x00 0x63, SlvT 0x81 0x01,
      SlvX 0x00 0x00, SlvX 0x18 0x01,
      SlvT 0x00 0x00, SlvT 0x49 0x33, SlvT 0x4b 0x21, SlvT 0xfe 0x01, SlvT 0x2c 0x00, SlvT 0xa9 0x00,
      SlvX 0x17 0x01]"

definition cxd2856er_sleep_isdbs :: "cxd_op list" where
  "cxd2856er_sleep_isdbs =
     [SlvT 0x00 0x00, SlvT 0xc3 0x01, SlvTm 0x80 0x1f 0x1f, Pins False,
      SlvX 0x00 0x00, SlvX 0x18 0x01,
      SlvT 0x00 0x00, SlvT 0x6a 0x11, SlvT 0x4b 0x21, SlvX 0x28 0x13, SlvT 0xfe 0x01, SlvT 0x2c 0x00,
      SlvT 0xa9 0x00, SlvT 0x2d 0x00, SlvX 0x17 0x01,
      SlvT 0x00 0xa0, SlvT 0xd7 0x00]"

definition cxd2856er_sleep_cable_common :: "cxd_op list" where
  "cxd2856er_sleep_cable_common =
     [SlvX 0x00 0x00, SlvX 0x18 0x01,
      SlvT 0x00 0x00, SlvT 0x49 0x33, SlvT 0x4b 0x21, SlvT 0xfe 0x01, SlvT 0x2c 0x00, SlvT 0xa9 0x00,
      SlvX 0x17 0x01]"

definition cxd2856er_sleep_isdbc :: "cxd_op list" where
  "cxd2856er_sleep_isdbc =
     [SlvT 0x00 0x00, SlvT 0xc3 0x01, SlvTm 0x80 0x1f 0x1f, Pins False,
      SlvT 0x00 0x11, SlvT 0xa3 0x00, SlvT 0x00 0x48, SlvT 0x2c 0x01,
      SlvT 0x00 0x40, SlvT 0x14 0x1f, SlvT 0x1e 0x00]
     @ cxd2856er_sleep_cable_common"

definition cxd2856er_sleep_j83b :: "cxd_op list" where
  "cxd2856er_sleep_j83b =
     [SlvT 0x00 0x00, SlvT 0xc3 0x01, SlvTm 0x80 0x1f 0x1f, Pins False,
      SlvT 0x00 0x11, SlvT 0xa3 0x00,
      SlvT 0x00 0x40, SlvT 0x21 0x00, SlvT 0xc3 0x00, SlvT 0xb3 0x02, SlvT 0x1e 0x00, SlvT 0x8e 0x0e,
      SlvT 0x00 0x41, SlvT 0xcf 0x77,
      SlvT 0x00 0x40, SlvT 0x14 0x1f, SlvTs 0x26 [0x09, 0x9a, 0x00, 0xee]]
     @ cxd2856er_sleep_cable_common"

text \<open>Whether going to sleep succeeded counts for the cable systems only.\<close>

definition cxd2856er_asleep :: "cxd2856er_vars \<Rightarrow> cxd2856er_vars" where
  "cxd2856er_asleep v = v\<lparr> cable_wakeup_incomplete := False, cx_state := CXD2856ER_SLEEP_STATE,
     cx_system := CXD2856ER_UNSPECIFIED_SYSTEM \<rparr>"

definition cxd2856er_sleep :: "'s cxd2856er_demod \<Rightarrow> (cxd2856er_vars \<times> 's) call" where
  "cxd2856er_sleep dm vs =
     (let (v, s) = vs in
      if cx_state v = CXD2856ER_SLEEP_STATE then (- EALREADY, (v, s))
      else case cx_system v of
        CXD2856ER_ISDB_C_SYSTEM \<Rightarrow>
          (let (ret, s1) = run_ops dm cxd2856er_sleep_isdbc s in
           if ret \<noteq> 0 then (ret, (v, s1)) else (0, (cxd2856er_asleep v, s1)))
      | CXD2856ER_J83B_SYSTEM \<Rightarrow>
          (let (ret, s1) = run_ops dm cxd2856er_sleep_j83b s in
           if ret \<noteq> 0 then (ret, (v, s1)) else (0, (cxd2856er_asleep v, s1)))
      | CXD2856ER_ISDB_T_SYSTEM \<Rightarrow> (0, (cxd2856er_asleep v, snd (run_ops dm cxd2856er_sleep_isdbt s)))
      | CXD2856ER_ISDB_S_SYSTEM \<Rightarrow> (0, (cxd2856er_asleep v, snd (run_ops dm cxd2856er_sleep_isdbs s)))
      | CXD2856ER_UNSPECIFIED_SYSTEM \<Rightarrow> (0, (cxd2856er_asleep v, s)))"

subsection \<open>Initialisation\<close>

text \<open>The device and the master are given; the addresses and the crystal are checked.\<close>

definition cxd2856er_init :: "'s cxd2856er_demod \<Rightarrow> (cxd2856er_vars \<times> 's) call" where
  "cxd2856er_init dm vs =
     (let (v, s) = vs in
      if cx_slvx dm = 0 \<or> cx_slvt dm = 0 then (- EINVAL, (v, s))
      else if cx_xtal dm \<noteq> 24000 then (- EINVAL, (v, s))
      else
        let v1 = v\<lparr> cable_wakeup_incomplete := False, cx_state := CXD2856ER_UNKNOWN_STATE,
              cx_system := CXD2856ER_UNSPECIFIED_SYSTEM \<rparr>;
            (ret, s1) = run_ops dm [SlvX 0x00 0x00, SlvX 0x10 0x01, SlvX 0x18 0x01, SlvX 0x28 0x13,
              SlvX 0x17 0x01, SlvX 0x1d 0x00, SlvX 0x14 0x01, SlvX 0x1c 0x03, SlvX 0x50 0x00, SlvX 0x10 0x00] s
        in
        if ret \<noteq> 0 then (ret, (v1, s1))
        else
          let v2 = v1\<lparr> cx_state := CXD2856ER_SLEEP_STATE \<rparr>;
              (ret, s2) = run_ops dm [SlvX 0x00 0x00, SlvX 0x1a (if cx_tuner_i2c dm then 0x01 else 0x00)] s1
          in (ret, (v2, s2)))"

definition cxd2856er_term :: "'s cxd2856er_demod \<Rightarrow> (cxd2856er_vars \<times> 's) call" where
  "cxd2856er_term dm vs = (0, snd (cxd2856er_sleep dm vs))"

subsection \<open>Waking up\<close>

definition cxd2856er_set_bandwidth_isdbt :: "u32 \<Rightarrow> cxd_op list" where
  "cxd2856er_set_bandwidth_isdbt bandwidth = SlvT 0x00 0x10 #
     (if bandwidth = 6 then
       [SlvTs 0x9f [0x17, 0xa0, 0x80, 0x00, 0x00],
        SlvTs 0xa6 [0x31, 0xa8, 0x29, 0x9b, 0x27, 0x9c, 0x28, 0x9e, 0x29, 0xa4, 0x29, 0xa2, 0x29, 0xa8],
        SlvTs 0xb6 [0x12, 0xee, 0xef], SlvT 0xd7 0x04, SlvTs 0xd9 [0x1f, 0x79],
        SlvT 0x00 0x12, SlvT 0x71 0x07, SlvT 0x00 0x15, SlvT 0xbe 0x02]
      else [Inval])"

definition cxd2856er_wakeup_isdbt :: "u32 \<Rightarrow> cxd_op list" where
  "cxd2856er_wakeup_isdbt bandwidth =
     cxd2856er_set_ts_clock CXD2856ER_ISDB_T_SYSTEM @
     [SlvX 0x00 0x00, SlvX 0x17 0x06,
      SlvT 0x00 0x00, SlvT 0xa9 0x00, SlvT 0x2c 0x01, SlvT 0x4b 0x74, SlvT 0x49 0x00, SlvX 0x18 0x00,
      SlvT 0x00 0x11, SlvT 0x6a 0x50, SlvT 0x00 0x10, SlvT 0xa5 0x01,
      SlvT 0x00 0x00, SlvTs 0xce [0x00, 0x00],
      SlvT 0x00 0x10, SlvT 0x69 0x04, SlvT 0x6b 0x03, SlvT 0x9d 0x50, SlvT 0xd3 0x06, SlvT 0xed 0x00,
      SlvT 0xe2 0xce, SlvT 0xf2 0x13, SlvT 0xde 0x2e,
      SlvT 0x00 0x15, SlvT 0xde 0x02, SlvT 0x00 0x17, SlvTs 0x38 [0x00, 0x03],
      SlvT 0x00 0x1e, SlvT 0x73 0x68, SlvT 0x00 0x63, SlvT 0x81 0x00,
      SlvT 0x00 0x11, SlvTs 0x33 [0x00, 0x03, 0x3b], SlvT 0x00 0x60, SlvTs 0xa8 [0xb7, 0x1b]]
     @ cxd2856er_set_bandwidth_isdbt bandwidth
     @ [SlvT 0x00 0x00, SlvTm 0x80 0x08 0x1f, Pins True]"

definition cxd2856er_wakeup_isdbs :: "cxd_op list" where
  "cxd2856er_wakeup_isdbs =
     cxd2856er_set_ts_clock CXD2856ER_ISDB_S_SYSTEM @
     [SlvX 0x00 0x00, SlvX 0x17 0x0c,
      SlvT 0x00 0x00, SlvT 0x2d 0x00, SlvT 0xa9 0x00, SlvT 0x2c 0x01, SlvX 0x28 0x31, SlvT 0x4b 0x31,
      SlvT 0x6a 0x00, SlvX 0x18 0x00,
      SlvT 0x00 0x00, SlvT 0x20 0x01, SlvTs 0xce [0x00, 0x00],
      SlvT 0x00 0xae, SlvTs 0x20 [0x07, 0x37, 0x0a], SlvT 0x00 0xa0, SlvT 0xd7 0x00,
      SlvT 0x00 0x00, SlvTm 0x80 0x10 0x1f, Pins True]"

definition cxd2856er_reset_isdbt :: "u32 \<Rightarrow> cxd_op list" where
  "cxd2856er_reset_isdbt bandwidth = [SlvT 0x00 0x00, SlvT 0xc3 0x01] @ cxd2856er_set_bandwidth_isdbt bandwidth"

definition cxd2856er_reset_isdbs :: "cxd_op list" where
  "cxd2856er_reset_isdbs = [SlvT 0x00 0x00, SlvT 0xc3 0x01]"

definition cxd2856er_set_band_j83b :: "cxd_op list" where
  "cxd2856er_set_band_j83b =
     [SlvT 0x00 0x10, SlvTs 0xb6 [0x14, 0x00, 0x00],
      SlvT 0x00 0x40, SlvT 0x14 0x10, SlvTs 0x26 [0x07, 0x77, 0x07, 0x77]]"

definition cxd2856er_wakeup_j83b_ops :: "cxd_op list" where
  "cxd2856er_wakeup_j83b_ops =
     cxd2856er_set_ts_clock CXD2856ER_J83B_SYSTEM @
     [SlvX 0x00 0x00, SlvX 0x17 0x08,
      SlvT 0x00 0x00, SlvT 0xa9 0x00, SlvT 0x2c 0x01, SlvT 0x4b 0x74, SlvT 0x49 0x00, SlvX 0x18 0x00,
      SlvT 0x00 0x11, SlvT 0x6a 0x48, SlvT 0x00 0x10, SlvT 0xa5 0x01,
      SlvT 0x00 0x40, SlvT 0x21 0x04, SlvT 0xb3 0x05, SlvT 0x1e 0x80, SlvT 0x8e 0x58,
      SlvT 0x00 0x41, SlvT 0xcf 0x99,
      SlvT 0x00 0x11, SlvT 0xa3 0x14, SlvTs 0x33 [0x00, 0x03, 0x3b],
      SlvT 0x00 0x00, SlvTs 0xce [0x01, 0x01],
      SlvT 0x00 0x10,
      SlvTs 0xa6 [0x31, 0xa8, 0x29, 0x9b, 0x27, 0x9c, 0x28, 0x9e, 0x29, 0xa4, 0x29, 0xa2, 0x29, 0xa8]]
     @ cxd2856er_set_band_j83b
     @ [SlvT 0x00 0x00, SlvTm 0x80 0x08 0x1f, Pins True]"

definition cxd2856er_wakeup_isdbc_ops :: "cxd_op list" where
  "cxd2856er_wakeup_isdbc_ops =
     [SlvT 0x00 0x49, SlvTm 0x36 0x00 0x18] @
     cxd2856er_set_ts_clock CXD2856ER_ISDB_C_SYSTEM @
     [SlvX 0x00 0x00, SlvX 0x17 0x09,
      SlvT 0x00 0x00, SlvT 0xa9 0x00, SlvT 0x2c 0x01, SlvT 0x4b 0x74, SlvT 0x49 0x00, SlvX 0x18 0x00,
      SlvT 0x00 0x11, SlvT 0x6a 0x48, SlvT 0x00 0x10, SlvT 0xa5 0x01,
      SlvT 0x00 0x11, SlvTs 0x33 [0x00, 0x03, 0x3b], SlvT 0x00 0x48, SlvT 0x2c 0x03,
      SlvT 0x00 0x00, SlvTs 0xce [0x01, 0x01],
      SlvT 0x00 0x10,
      SlvTs 0xa6 [0x31, 0xa8, 0x29, 0x9b, 0x27, 0x9c, 0x28, 0x9e, 0x29, 0xa4, 0x29, 0xa2, 0x29, 0xa8],
      SlvTs 0xb6 [0x13, 0xbb, 0xbc],
      SlvT 0x00 0x11, SlvT 0xa3 0x14,
      SlvT 0x00 0x40, SlvT 0x14 0x14, SlvT 0x1e 0x80, SlvTs 0x26 [0x07, 0x08, 0x07, 0x08],
      SlvT 0x00 0x00, SlvTm 0x80 0x08 0x1f, Pins True]"

text \<open>The cable systems are noted as started before their first access.\<close>

definition cable_started :: "cxd2856er_system \<Rightarrow> cxd2856er_vars \<Rightarrow> cxd2856er_vars" where
  "cable_started system v =
     v\<lparr> cable_wakeup_incomplete := True, cx_system := system, cx_state := CXD2856ER_ACTIVE_STATE \<rparr>"

definition cxd2856er_wakeup_j83b :: "'s cxd2856er_demod \<Rightarrow> (cxd2856er_vars \<times> 's) call" where
  "cxd2856er_wakeup_j83b dm vs =
     (let (v, s) = vs; (ret, s1) = run_ops dm cxd2856er_wakeup_j83b_ops s in
      (ret, (cable_started CXD2856ER_J83B_SYSTEM v, s1)))"

definition cxd2856er_wakeup_isdbc :: "'s cxd2856er_demod \<Rightarrow> (cxd2856er_vars \<times> 's) call" where
  "cxd2856er_wakeup_isdbc dm vs =
     (let (v, s) = vs; (ret, s1) = run_ops dm cxd2856er_wakeup_isdbc_ops s in
      (ret, (cable_started CXD2856ER_ISDB_C_SYSTEM v, s1)))"

definition cxd2856er_reset_isdbc :: "cxd_op list" where
  "cxd2856er_reset_isdbc = [SlvT 0x00 0x00, SlvT 0xc3 0x01]"

definition cxd2856er_reset_j83b :: "cxd_op list" where
  "cxd2856er_reset_j83b = [SlvT 0x00 0x00, SlvT 0xc3 0x01] @ cxd2856er_set_band_j83b"

definition is_cable :: "cxd2856er_system \<Rightarrow> bool" where
  "is_cable system = (system = CXD2856ER_ISDB_C_SYSTEM \<or> system = CXD2856ER_J83B_SYSTEM)"

definition with_vars :: "'s call \<Rightarrow> (cxd2856er_vars \<times> 's) call" where
  "with_vars f vs = (let (v, s) = vs; (ret, s1) = f s in (ret, (v, s1)))"

text \<open>The three stages of \<^verbatim>\<open>cxd2856er_wakeup\<close>: the switch of the systems at its end, the reset of a
  system that is already running, and the cable settings put back first.\<close>

definition wakeup_system :: "'s cxd2856er_demod \<Rightarrow> cxd2856er_system \<Rightarrow> u32 \<Rightarrow> (cxd2856er_vars \<times> 's) call" where
  "wakeup_system dm system bandwidth vs =
     (let (ret, (v1, s1)) =
        (case system of
           CXD2856ER_ISDB_T_SYSTEM \<Rightarrow> with_vars (run_ops dm (cxd2856er_wakeup_isdbt bandwidth)) vs
         | CXD2856ER_ISDB_S_SYSTEM \<Rightarrow> with_vars (run_ops dm cxd2856er_wakeup_isdbs) vs
         | CXD2856ER_ISDB_C_SYSTEM \<Rightarrow> cxd2856er_wakeup_isdbc dm vs
         | CXD2856ER_J83B_SYSTEM \<Rightarrow> cxd2856er_wakeup_j83b dm vs
         | CXD2856ER_UNSPECIFIED_SYSTEM \<Rightarrow> (- EINVAL, vs))
      in
      if ret = 0 then
        (0, (v1\<lparr> cx_system := system, cx_state := CXD2856ER_ACTIVE_STATE, cable_wakeup_incomplete := False \<rparr>, s1))
      else (ret, (v1, s1)))"

definition reset_ops :: "cxd2856er_system \<Rightarrow> u32 \<Rightarrow> cxd_op list" where
  "reset_ops system bandwidth =
     (case system of
        CXD2856ER_ISDB_T_SYSTEM \<Rightarrow> cxd2856er_reset_isdbt bandwidth
      | CXD2856ER_ISDB_S_SYSTEM \<Rightarrow> cxd2856er_reset_isdbs
      | CXD2856ER_ISDB_C_SYSTEM \<Rightarrow> cxd2856er_reset_isdbc
      | CXD2856ER_J83B_SYSTEM \<Rightarrow> cxd2856er_reset_j83b
      | CXD2856ER_UNSPECIFIED_SYSTEM \<Rightarrow> [Inval])"

definition cxd2856er_wakeup :: "'s cxd2856er_demod \<Rightarrow> cxd2856er_system \<Rightarrow> u32 \<Rightarrow> (cxd2856er_vars \<times> 's) call" where
  "cxd2856er_wakeup dm system bandwidth vs =
     (let v = fst vs;
          (ret, vs1) =
            (if cx_state v = CXD2856ER_ACTIVE_STATE \<and> is_cable (cx_system v)
                \<and> (system \<noteq> cx_system v \<or> cable_wakeup_incomplete v)
             then cxd2856er_sleep dm vs else (0, vs))
      in
      if ret \<noteq> 0 then (ret, vs1)
      else if cx_state (fst vs1) = CXD2856ER_ACTIVE_STATE then
        if cx_system (fst vs1) = system then with_vars (run_ops dm (reset_ops system bandwidth)) vs1
        else wakeup_system dm system bandwidth (snd (cxd2856er_sleep dm vs1))
      else wakeup_system dm system bandwidth vs1)"

section \<open>Stream selection, locks, signal quality\<close>

definition cxd2856er_post_tune :: "'s cxd2856er_demod \<Rightarrow> 's call" where
  "cxd2856er_post_tune dm = run_ops dm [SlvT 0x00 0x00, SlvT 0xfe 0x01, SlvT 0xc3 0x00]"

definition cxd2856er_set_slot_isdbs :: "'s cxd2856er_demod \<Rightarrow> u16 \<Rightarrow> 's call" where
  "cxd2856er_set_slot_isdbs dm idx s =
     (if idx \<ge> 8 then (- EINVAL, s) else run_ops dm [SlvT 0x00 0xc0, SlvTs 0xe9 [0, ucast idx, 1]] s)"

definition cxd2856er_set_tsid_isdbs :: "'s cxd2856er_demod \<Rightarrow> u16 \<Rightarrow> 's call" where
  "cxd2856er_set_tsid_isdbs dm tsid = run_ops dm [SlvT 0x00 0xc0, SlvTs 0xe9 [hi8 tsid, lo8 tsid, 0]]"

definition cxd2856er_is_ts_locked_isdbt :: "'s cxd2856er_demod \<Rightarrow> 's \<Rightarrow> int \<times> bool \<times> bool \<times> 's" where
  "cxd2856er_is_ts_locked_isdbt dm s =
     (let (ret, s1) = cxd2856er_write_slvt_reg dm 0x00 0x60 s in
      if ret \<noteq> 0 then (ret, False, False, s1)
      else let (ret, tmp, s2) = cxd2856er_read_slvt_reg dm 0x10 (cx_junk dm) s1 in
      if ret \<noteq> 0 then (ret, False, False, s2)
      else (0, tmp AND 0x01 \<noteq> 0, tmp AND 0x10 \<noteq> 0, s2))"

definition cxd2856er_is_ts_locked_isdbs :: "'s cxd2856er_demod \<Rightarrow> 's \<Rightarrow> int \<times> bool \<times> 's" where
  "cxd2856er_is_ts_locked_isdbs dm s =
     (let (ret, s1) = cxd2856er_write_slvt_reg dm 0x00 0xa0 s in
      if ret \<noteq> 0 then (ret, False, s1)
      else let (ret, tmp, s2) = cxd2856er_read_slvt_reg dm 0x12 (cx_junk dm) s1 in
      if ret \<noteq> 0 then (ret, False, s2) else (0, tmp AND 0x40 \<noteq> 0, s2))"

definition cxd2856er_is_ts_locked_isdbc :: "'s cxd2856er_demod \<Rightarrow> 's \<Rightarrow> int \<times> bool \<times> 's" where
  "cxd2856er_is_ts_locked_isdbc dm s =
     (let (ret, s1) = cxd2856er_write_slvt_reg dm 0x00 0x40 s in
      if ret \<noteq> 0 then (ret, False, s1)
      else let (ret, status, s2) = cxd2856er_read_slvt_reg dm 0x88 (cx_junk dm) s1 in
      if ret \<noteq> 0 then (ret, False, s2)
      else if status AND 0x01 = 0 then (0, False, s2)
      else let (ret, status, s3) = cxd2856er_read_slvt_reg dm 0x10 status s2 in
      if ret \<noteq> 0 then (ret, False, s3) else (0, status AND 0x20 \<noteq> 0, s3))"

definition cxd2856er_read_cnr_raw_isdbt :: "'s cxd2856er_demod \<Rightarrow> 's \<Rightarrow> int \<times> u16 \<times> 's" where
  "cxd2856er_read_cnr_raw_isdbt dm s =
     (let (ret, s1) = run_ops dm [SlvT 0x01 0x01, SlvT 0x00 0x60] s in
      if ret \<noteq> 0 then (ret, 0, s1)
      else let (ret, tmp, s2) = cxd2856er_read_slvt_regs dm 0x28 [cx_junk dm, cx_junk dm] s1 in
      if ret \<noteq> 0 then (ret, 0, s2)
      else let (ret, s3) = cxd2856er_write_slvt_reg dm 0x01 0x00 s2 in
      if ret \<noteq> 0 then (ret, 0, s3) else (0, be16 (tmp ! 0) (tmp ! 1), s3))"

text \<open>The mask is applied after the shift, as the source has it.\<close>

definition cnr_isdbs_value :: "u8 list \<Rightarrow> u16" where
  "cnr_isdbs_value tmp =
     (if tmp ! 0 AND 0x01 \<noteq> 0 then (push_bit 8 (ucast (tmp ! 1)) AND 0x1f) OR ucast (tmp ! 2) else 0x5af)"

definition cxd2856er_read_cnr_raw_isdbs :: "'s cxd2856er_demod \<Rightarrow> 's \<Rightarrow> int \<times> u16 \<times> 's" where
  "cxd2856er_read_cnr_raw_isdbs dm s =
     (let (ret, s1) = cxd2856er_write_slvt_reg dm 0x00 0xa1 s in
      if ret \<noteq> 0 then (ret, 0, s1)
      else let (ret, tmp, s2) = cxd2856er_read_slvt_regs dm 0x10 [cx_junk dm, cx_junk dm, cx_junk dm] s1 in
      if ret \<noteq> 0 then (ret, 0, s2) else (0, cnr_isdbs_value tmp, s2))"

definition cxd2856er_read_cnr_raw_isdbc :: "'s cxd2856er_demod \<Rightarrow> 's \<Rightarrow> int \<times> u16 \<times> 's" where
  "cxd2856er_read_cnr_raw_isdbc dm s =
     (let (ret, s1) = cxd2856er_write_slvt_reg dm 0x01 0x01 s in
      if ret \<noteq> 0 then (ret, 0, s1)
      else
        let (ret, s2) = cxd2856er_write_slvt_reg dm 0x00 0x40 s1;
            (ret, v, s3) =
              (if ret \<noteq> 0 then (ret, 0, s2)
               else let (ret, d, s3) = cxd2856er_read_slvt_regs dm 0x4c [cx_junk dm, cx_junk dm] s2 in
                    (ret, if ret = 0 then be16 (d ! 0 AND 0x1f) (d ! 1) else 0, s3));
            (unfreeze_ret, s4) = cxd2856er_write_slvt_reg dm 0x01 0x00 s3
        in (if ret = 0 then unfreeze_ret else ret, v, s4))"

end
