(* ===== verification/Cxd2858er.thy ===== *)
theory Cxd2858er
  imports I2c_Bus
begin

text \<open>
  Model of driver/cxd2858er.c, the driver of the Sony CXD2858ER tuner behind the CXD2856ER demodulator,
  whose I2C gate is opened for each operation and closed after it. As in \<open>Cxd2856er\<close>, a run of register
  accesses is a list, here of \<open>tun_op\<close>, that stops at the first error. The system the tuner is set to is
  the only field of \<^verbatim>\<open>struct cxd2858er_tuner\<close> that the driver changes, and is passed along with the state
  \<open>'s\<close> of the bus.
\<close>

section \<open>Data\<close>

datatype cxd2858er_system = CXD2858ER_UNSPECIFIED_SYSTEM | CXD2858ER_ISDB_T_SYSTEM | CXD2858ER_ISDB_S_SYSTEM
  | CXD2858ER_ISDB_C_SYSTEM

record 's cxd2858er_tuner =
  ct_i2c :: "'s i2c_comm_master"
  ct_addr :: u8
  ct_xtal :: u32
  ct_ter_lna :: bool
  ct_rfin_matching :: bool
  ct_sat_lna :: bool
  ct_junk :: u8

section \<open>Registers\<close>

definition cxd2858er_read_regs :: "'s cxd2858er_tuner \<Rightarrow> u8 \<Rightarrow> u8 list \<Rightarrow> 's \<Rightarrow> int \<times> u8 list \<times> 's" where
  "cxd2858er_read_regs t reg buf s =
     (if buf = [] then (- EINVAL, buf, s)
      else
        let (ret, reqs, s1) = i2c_comm_master_request (ct_i2c t)
              [I2C_WRITE_REQUEST (ucast (ct_addr t)) [reg], I2C_READ_REQUEST (ucast (ct_addr t)) buf] s
        in (ret, req_data (reqs ! 1), s1))"

definition cxd2858er_read_reg :: "'s cxd2858er_tuner \<Rightarrow> u8 \<Rightarrow> u8 \<Rightarrow> 's \<Rightarrow> int \<times> u8 \<times> 's" where
  "cxd2858er_read_reg t reg val s = (let (ret, buf, s1) = cxd2858er_read_regs t reg [val] s in (ret, hd buf, s1))"

definition cxd2858er_write_regs :: "'s cxd2858er_tuner \<Rightarrow> u8 \<Rightarrow> u8 list \<Rightarrow> 's call" where
  "cxd2858er_write_regs t reg buf s =
     (if buf = [] \<or> length buf > 254 then (- EINVAL, s)
      else
        let (ret, _, s1) = i2c_comm_master_request (ct_i2c t)
              [I2C_WRITE_REQUEST (ucast (ct_addr t)) (reg # buf)] s
        in (ret, s1))"

definition cxd2858er_write_reg :: "'s cxd2858er_tuner \<Rightarrow> u8 \<Rightarrow> u8 \<Rightarrow> 's call" where
  "cxd2858er_write_reg t reg val = cxd2858er_write_regs t reg [val]"

definition cxd2858er_write_reg_mask :: "'s cxd2858er_tuner \<Rightarrow> u8 \<Rightarrow> u8 \<Rightarrow> u8 \<Rightarrow> 's call" where
  "cxd2858er_write_reg_mask t reg val msk s =
     (if msk = 0 then (- EINVAL, s)
      else if msk \<noteq> 0xff then
        let (ret, tmp, s1) = cxd2858er_read_regs t reg [ct_junk t] s in
        if ret \<noteq> 0 then (ret, s1)
        else cxd2858er_write_regs t reg [(hd tmp AND NOT msk) OR (val AND msk)] s1
      else cxd2858er_write_regs t reg [val] s)"

text \<open>The accesses of the sequences: several bytes, one masked byte, and a parameter that is refused.\<close>

datatype tun_op = Wr u8 "u8 list" | Wm u8 u8 u8 | Refuse

fun tun_call :: "'s cxd2858er_tuner \<Rightarrow> tun_op \<Rightarrow> 's call" where
  "tun_call t (Wr reg d) s = cxd2858er_write_regs t reg d s"
| "tun_call t (Wm reg v m) s = cxd2858er_write_reg_mask t reg v m s"
| "tun_call t Refuse s = (- EINVAL, s)"

definition tun_ops :: "'s cxd2858er_tuner \<Rightarrow> tun_op list \<Rightarrow> 's call" where
  "tun_ops t ops = run_each (tun_call t) ops"

section \<open>Power up\<close>

definition ter_lna_reg :: "'s cxd2858er_tuner \<Rightarrow> u8" where
  "ter_lna_reg t = 0x05 OR (if ct_ter_lna t then 0x02 else 0x00)"

definition power_on_1 :: "'s cxd2858er_tuner \<Rightarrow> tun_op list" where
  "power_on_1 t =
     [Wr 0x01 [0x00], Wr 0x67 [if ct_rfin_matching t then 0x02 else 0x00], Wr 0x43 [ter_lna_reg t],
      Wr 0x5e [0x15, 0x00, 0x00], Wr 0x0c [0x14], Wr 0x99 [0x7a, 0x01],
      (if ct_xtal t = 16000 \<or> ct_xtal t = 24000 then
         Wr 0x81 [if ct_xtal t = 16000 then 0x10 else 0x18, 0x80 OR (0x04 AND 0x1f), 0x80 OR 0x26, 0x00, 0x00, 0x00,
           0xc4, 0x40, 0x10, 0x00, 0x45, 0x75, 0x07, 0x1c, 0x3f, 0x02, 0x10, 0x20, 0x0a, 0x00]
       else Refuse),
      Wr 0x9b [0x00]]"

definition cxd2858er_power_on :: "'s cxd2858er_tuner \<Rightarrow> 's call" where
  "cxd2858er_power_on t s =
     (let (ret, s1) = tun_ops t (power_on_1 t) s in
      if ret \<noteq> 0 then (ret, s1)
      else let (ret, tmp, s2) = cxd2858er_read_reg t 0x1a (ct_junk t) s1 in
      if ret \<noteq> 0 then (ret, s2)
      else if tmp \<noteq> 0x00 then (- EIO, s2)
      else let (ret, s3) = cxd2858er_write_regs t 0x17 [0x90, 0x06] s2 in
      if ret \<noteq> 0 then (ret, s3)
      else let (ret, tmp, s4) = cxd2858er_read_reg t 0x19 tmp s3 in
      if ret \<noteq> 0 then (ret, s4)
      else tun_ops t [Wr 0x95 [drop_bit 4 (tmp AND 0xf0)], Wr 0x74 [0x02], Wr 0x88 [0x00], Wr 0x87 [0xc0],
             Wr 0x80 [0x01], Wr 0x41 [0x07, 0x00]] s4)"

section \<open>Stopping\<close>

definition cxd2858er_stop_t :: "'s cxd2858er_tuner \<Rightarrow> (cxd2858er_system \<times> 's) call" where
  "cxd2858er_stop_t t ys =
     (let (y, s) = ys in
      if y \<noteq> CXD2858ER_ISDB_T_SYSTEM \<and> y \<noteq> CXD2858ER_ISDB_C_SYSTEM then (- EINVAL, (y, s))
      else
        let (ret, s1) = tun_ops t [Wr 0x74 [0x02], Wm 0x67 (if ct_rfin_matching t then 0x02 else 0x00) 0xfe,
              Wr 0x5e [0x15, 0x00, 0x00], Wr 0x88 [0x00], Wr 0x87 [0xc0]] s
        in if ret \<noteq> 0 then (ret, (y, s1)) else (0, (CXD2858ER_UNSPECIFIED_SYSTEM, s1)))"

definition cxd2858er_stop_s :: "'s cxd2858er_tuner \<Rightarrow> (cxd2858er_system \<times> 's) call" where
  "cxd2858er_stop_s t ys =
     (let (y, s) = ys in
      if y \<noteq> CXD2858ER_ISDB_S_SYSTEM then (- EINVAL, (y, s))
      else
        let (ret, s1) = tun_ops t ([Wr 0x15 [0x02], Wr 0x43 [ter_lna_reg t], Wr 0x0c [0x14, 0x00, 0x00],
              Wr 0x01 [0x00], Wr 0x05 [0x00], Wr 0x04 [0xc0]] @
              (if ct_rfin_matching t then [Wm 0x67 0x02 0x02] else [])) s
        in if ret \<noteq> 0 then (ret, (y, s1)) else (0, (CXD2858ER_UNSPECIFIED_SYSTEM, s1)))"

text \<open>The switch over the systems that \<^verbatim>\<open>cxd2858er_stop\<close> and \<^verbatim>\<open>cxd2858er_term\<close> share.\<close>

definition stop_system :: "'s cxd2858er_tuner \<Rightarrow> (cxd2858er_system \<times> 's) call" where
  "stop_system t ys =
     (case fst ys of
        CXD2858ER_ISDB_T_SYSTEM \<Rightarrow> cxd2858er_stop_t t ys
      | CXD2858ER_ISDB_C_SYSTEM \<Rightarrow> cxd2858er_stop_t t ys
      | CXD2858ER_ISDB_S_SYSTEM \<Rightarrow> cxd2858er_stop_s t ys
      | CXD2858ER_UNSPECIFIED_SYSTEM \<Rightarrow> (0, ys))"

text \<open>Opening the gate, some work, and closing the gate whatever the work returned; the result of closing
  it is dropped.\<close>

definition gated :: "'s cxd2858er_tuner \<Rightarrow> (cxd2858er_system \<times> 's) call \<Rightarrow> (cxd2858er_system \<times> 's) call" where
  "gated t work ys =
     (let (y, s) = ys; (ret, s1) = i2c_comm_master_gate_ctrl (ct_i2c t) True s in
      if ret \<noteq> 0 then (ret, (y, s1))
      else
        let (ret, (y1, s2)) = work (y, s1);
            (_, s3) = i2c_comm_master_gate_ctrl (ct_i2c t) False s2
        in (ret, (y1, s3)))"

definition cxd2858er_stop :: "'s cxd2858er_tuner \<Rightarrow> (cxd2858er_system \<times> 's) call" where
  "cxd2858er_stop t ys =
     (if fst ys = CXD2858ER_UNSPECIFIED_SYSTEM then (- EALREADY, ys)
      else gated t (\<lambda>ys. (0, snd (stop_system t ys))) ys)"

definition cxd2858er_init :: "'s cxd2858er_tuner \<Rightarrow> (cxd2858er_system \<times> 's) call" where
  "cxd2858er_init t ys =
     (if ct_addr t = 0 then (- EINVAL, ys)
      else if ct_xtal t \<noteq> 16000 \<and> ct_xtal t \<noteq> 24000 then (- EINVAL, ys)
      else gated t (\<lambda>(y, s). let (ret, s1) = cxd2858er_power_on t s in (ret, (y, s1)))
             (CXD2858ER_UNSPECIFIED_SYSTEM, snd ys))"

definition cxd2858er_term :: "'s cxd2858er_tuner \<Rightarrow> (cxd2858er_system \<times> 's) call" where
  "cxd2858er_term t ys =
     (let (y, s) = ys in
      if y = CXD2858ER_UNSPECIFIED_SYSTEM then (0, ys)
      else
        let (ret, s1) = i2c_comm_master_gate_ctrl (ct_i2c t) True s in
        if ret = 0 then
          let (_, (y1, s2)) = stop_system t (y, s1);
              (_, s3) = i2c_comm_master_gate_ctrl (ct_i2c t) False s2
          in (0, (y1, s3))
        else (0, (CXD2858ER_UNSPECIFIED_SYSTEM, s1)))"

section \<open>Tuning\<close>

text \<open>The frequency registers hold 20 bits, low byte first.\<close>

definition freq_regs :: "u32 \<Rightarrow> u8 list" where
  "freq_regs freq = [ucast (freq AND 0xff), ucast (drop_bit 8 freq AND 0xff), ucast (drop_bit 16 freq AND 0x0f)]"

text \<open>A tuner that is set to the other kind of reception is stopped first; then the registers of the new
  one are written, and the system is noted when all of them were.\<close>

definition retune :: "'s cxd2858er_tuner \<Rightarrow> (cxd2858er_system \<times> 's) call \<Rightarrow> tun_op list \<Rightarrow> cxd2858er_system \<Rightarrow>
    (cxd2858er_system \<times> 's) call" where
  "retune t stop ops system ys =
     (let (ret, (y1, s1)) = stop ys in
      if ret \<noteq> 0 then (ret, (y1, s1))
      else
        let (ret, s2) = tun_ops t ops s1 in
        if ret \<noteq> 0 then (ret, (y1, s2)) else (0, (system, s2)))"

definition stop_if_s :: "'s cxd2858er_tuner \<Rightarrow> (cxd2858er_system \<times> 's) call" where
  "stop_if_s t ys = (if fst ys = CXD2858ER_ISDB_S_SYSTEM then cxd2858er_stop_s t ys else (0, ys))"

definition stop_if_t :: "'s cxd2858er_tuner \<Rightarrow> (cxd2858er_system \<times> 's) call" where
  "stop_if_t t ys =
     (if fst ys = CXD2858ER_ISDB_T_SYSTEM \<or> fst ys = CXD2858ER_ISDB_C_SYSTEM then cxd2858er_stop_t t ys else (0, ys))"

definition params_t_ops :: "'s cxd2858er_tuner \<Rightarrow> u32 \<Rightarrow> tun_op list" where
  "params_t_ops t freq =
     [Wr 0x01 [0x00], Wr 0x74 [0x02], Wr 0x87 [0xc4, 0x40], Wr 0x91 [0x10, 0x20], Wr 0x9c [0x00, 0x00],
      (if ct_xtal t = 16000 \<or> ct_xtal t = 24000 then
         Wr 0x5e [0xee, 0x02, 0x1e, 0x67, if ct_xtal t = 16000 then 0x02 else 0x03, 0xb4, 0x78, 0x08, 0x30]
       else Refuse),
      Wm 0x67 0x00 0x02,
      Wr 0x68 ([0x00, 0x88, 0x00, 0x0b, 0x22, 0x00, 0x17, 0x1b] @ freq_regs freq @ [0xff, 0x01, 0x99, 0x00, 0x24, 0x87]),
      Wr 0x88 [0x00], Wr 0x87 [0xc0]]"

definition cxd2858er_set_params_t ::
    "'s cxd2858er_tuner \<Rightarrow> cxd2858er_system \<Rightarrow> u32 \<Rightarrow> u32 \<Rightarrow> (cxd2858er_system \<times> 's) call" where
  "cxd2858er_set_params_t t system freq bandwidth ys =
     (if system \<noteq> CXD2858ER_ISDB_T_SYSTEM then (- EINVAL, ys)
      else gated t (retune t (stop_if_s t) (params_t_ops t freq) system) ys)"

definition params_c_ops :: "'s cxd2858er_tuner \<Rightarrow> u32 \<Rightarrow> bool \<Rightarrow> tun_op list" where
  "params_c_ops t freq j83b =
     [Wr 0x01 [0x00], Wr 0x74 [0x02], Wr 0x87 [0xc4, 0x40], Wr 0x91 [0x16, 0x26], Wr 0x9c [0x00, 0x00],
      Wr 0x5e [0xee, 0x02, 0x1e, 0x67, if ct_xtal t = 16000 then 0x10 else 0x18, 0x1c, 0x78, 0x08, 0x1c],
      Wm 0x67 0x00 0x02,
      Wr 0x68 ([0x00, 0x84, 0x00, 0x02, 0x21, 0x00, if j83b then 0x1b else 0x1a, if j83b then 0x02 else 0x1c]
        @ freq_regs freq @ [0xff, 0x01, 0xd9, 0x0f, 0x24, 0x87]),
      Wr 0x88 [0x00], Wr 0x87 [0xc0]]"

definition cxd2858er_set_params_c :: "'s cxd2858er_tuner \<Rightarrow> u32 \<Rightarrow> bool \<Rightarrow> (cxd2858er_system \<times> 's) call" where
  "cxd2858er_set_params_c t freq j83b ys =
     (if freq > 0xfffff then (- EINVAL, ys)
      else gated t (retune t (stop_if_s t) (params_c_ops t freq j83b) CXD2858ER_ISDB_C_SYSTEM) ys)"

definition params_s_ops :: "'s cxd2858er_tuner \<Rightarrow> u32 \<Rightarrow> tun_op list" where
  "params_s_ops t freq =
     [Wr 0x15 [0x02], Wr 0x43 [0x06], Wr 0x6a [0x00, 0x00], Wr 0x75 [0x99], Wr 0x9d [0x00], Wr 0x61 [0x07],
      Wr 0x01 [0x01],
      (if ct_xtal t = 16000 \<or> ct_xtal t = 24000 then
         Wr 0x04 ([0xc4, 0x40, if ct_xtal t = 16000 then 0x02 else 0x03, 0x00, 0xb4, 0x78, 0x08, 0x30,
             0xfe OR (if ct_sat_lna t then 0x01 else 0x00), 0x02, 0x1e, 0x16]
           @ freq_regs ((freq + 2) div 4) @ [0xff, 0x00, 0x01])
       else Refuse),
      Wr 0x05 [0x00], Wr 0x04 [0xc0]]"

definition cxd2858er_set_params_s ::
    "'s cxd2858er_tuner \<Rightarrow> cxd2858er_system \<Rightarrow> u32 \<Rightarrow> u32 \<Rightarrow> (cxd2858er_system \<times> 's) call" where
  "cxd2858er_set_params_s t system freq symbol_rate ys =
     (if system \<noteq> CXD2858ER_ISDB_S_SYSTEM then (- EINVAL, ys)
      else gated t (retune t (stop_if_t t) (params_s_ops t freq) system) ys)"

end
