(* ===== verification/Cxd_Props.thy ===== *)
theory Cxd_Props
  imports It930x_I2c Cxd2856er Cxd2858er
begin

text \<open>
  The two Sony chips on a bus that keeps the contract of \<open>i2c_master\<close>: a sequence of register accesses
  that returns 0 has stored exactly the bytes of its table, in order, where a masked access has stored a
  byte that agrees with the table under the mask. The locales are interpreted on the bridge's bus; the
  tuner's also on the master the demodulator offers. The properties are about the systems of the
  demodulator that must be put back before another one starts, and about the frequency and the gate of
  the tuner.
\<close>

section \<open>What a sequence stores\<close>

text \<open>A write of a register number alone only selects what the next read returns.\<close>

definition stores :: "(u8 \<times> u8 list) list \<Rightarrow> (u8 \<times> u8 list) list" where
  "stores ws = filter (\<lambda>(a, d). length d \<ge> 2) ws"

lemma stores_append [simp]: "stores (ws @ xs) = stores ws @ stores xs"
  by (simp add: stores_def)

context i2c_master
begin

definition wrote :: "'s \<Rightarrow> 's \<Rightarrow> (u8 \<times> u8 list) list \<Rightarrow> bool" where
  "wrote s s' st \<longleftrightarrow> (\<exists>ws. writes s' = writes s @ ws \<and> stores ws = st)"

lemma wrote_refl: "wrote s s []"
  by (simp add: wrote_def stores_def)

lemma wrote_trans: "wrote s s1 a \<Longrightarrow> wrote s1 s2 b \<Longrightarrow> wrote s s2 (a @ b)"
  by (force simp: wrote_def)

end

definition masked_store :: "u8 \<Rightarrow> u8 \<Rightarrow> u8 \<Rightarrow> u8 \<Rightarrow> u8 \<times> u8 list \<Rightarrow> bool" where
  "masked_store a reg v m w =
     (fst w = a \<and> length (snd w) = 2 \<and> snd w ! 0 = reg \<and> (snd w ! 1) AND m = v AND m)"

definition slvt_byte :: "'s cxd2856er_demod \<Rightarrow> u8" where
  "slvt_byte dm = addr_byte (ucast (cx_slvt dm))"

definition slvx_byte :: "'s cxd2856er_demod \<Rightarrow> u8" where
  "slvx_byte dm = addr_byte (ucast (cx_slvx dm))"

fun op_len :: "cxd_op \<Rightarrow> nat" where
  "op_len (RdT reg) = 0"
| "op_len (Pins st) = 3"
| "op_len Inval = 0"
| "op_len op = 1"

text \<open>The bytes an access stores. The pins are those of a serial or of a parallel output, or all of them.\<close>

fun op_stores :: "'s cxd2856er_demod \<Rightarrow> cxd_op \<Rightarrow> (u8 \<times> u8 list) list \<Rightarrow> bool" where
  "op_stores dm (SlvX reg v) ws = (ws = [(slvx_byte dm, [reg, v])])"
| "op_stores dm (SlvT reg v) ws = (ws = [(slvt_byte dm, [reg, v])])"
| "op_stores dm (SlvTs reg d) ws = (ws = [(slvt_byte dm, reg # d)])"
| "op_stores dm (SlvTm reg v m) ws = (length ws = 1 \<and> masked_store (slvt_byte dm) reg v m (ws ! 0))"
| "op_stores dm (RdT reg) ws = (ws = [])"
| "op_stores dm (Pins st) ws =
     (length ws = 3 \<and> take 2 ws = [(slvt_byte dm, [0, 0]), (slvt_byte dm, [0, 0])] \<and>
      list_ex (\<lambda>m. masked_store (slvt_byte dm) 0x81 (if st then 0 else 0xff) m (ws ! 2)) [0x01, 0x80, 0xff])"
| "op_stores dm Inval ws = False"

fun ops_store :: "'s cxd2856er_demod \<Rightarrow> cxd_op list \<Rightarrow> (u8 \<times> u8 list) list \<Rightarrow> bool" where
  "ops_store dm [] ws = (ws = [])"
| "ops_store dm (p # ps) ws = (op_stores dm p (take (op_len p) ws) \<and> ops_store dm ps (drop (op_len p) ws))"

lemma op_stores_len: "op_stores dm p ws \<Longrightarrow> length ws = op_len p"
  by (cases p) auto

lemma ops_store_Cons: "op_stores dm p w \<Longrightarrow> ops_store dm ps ws \<Longrightarrow> ops_store dm (p # ps) (w @ ws)"
  using op_stores_len [of dm p w] by simp

lemma ops_store_append: "ops_store dm ps ws \<Longrightarrow> ops_store dm qs xs \<Longrightarrow> ops_store dm (ps @ qs) (ws @ xs)"
proof (induction ps arbitrary: ws)
  case (Cons p ps)
  then have "op_stores dm p (take (op_len p) ws)" "ops_store dm (ps @ qs) (drop (op_len p) ws @ xs)" by auto
  from ops_store_Cons [OF this] show ?case by (metis append.assoc append_Cons append_take_drop_id)
qed simp

lemma mask_agrees: "((x AND NOT m) OR (v AND m)) AND m = v AND (m :: u8)"
  by (rule bit_word_eqI) (auto simp: bit_simps)

locale cxd2856er_on_bus = i2c_master request writes
  for request :: "i2c_request list \<Rightarrow> 's \<Rightarrow> int \<times> i2c_request list \<times> 's" and writes +
  fixes dm :: "'s cxd2856er_demod"
  assumes wired: "i2c_request (cx_i2c dm) = Some request"
begin

lemma master_request [simp]: "i2c_comm_master_request (cx_i2c dm) = request"
  by (simp add: i2c_comm_master_request_def wired fun_eq_iff)

lemma write_wrote: "cxd2856er_write_regs dm tg reg buf s = (0, s') \<Longrightarrow> wrote s s' [(addr_byte (cx_addr dm tg), reg # buf)]"
  by (auto simp: cxd2856er_write_regs_def wrote_def stores_def Let_def Suc_le_eq dest!: request_done split: prod.splits if_splits)

lemma read_wrote: "cxd2856er_read_regs dm tg reg buf s = (0, b, s') \<Longrightarrow> wrote s s' []"
  by (auto simp: cxd2856er_read_regs_def wrote_def stores_def Let_def dest!: request_done split: prod.splits if_splits)

lemma target_bytes: "addr_byte (cx_addr dm CXD2856ER_I2C_SLVX) = slvx_byte dm"
  "addr_byte (cx_addr dm CXD2856ER_I2C_SLVT) = slvt_byte dm"
  by (simp_all add: cx_addr_def slvx_byte_def slvt_byte_def)

lemma mask_wrote:
  assumes "cxd2856er_write_slvt_reg_mask dm reg v m s = (0, s')"
  shows "\<exists>w. wrote s s' [w] \<and> masked_store (slvt_byte dm) reg v m w"
proof (cases "m = 0xff")
  case True
  then have "wrote s s' [(slvt_byte dm, [reg, v])]" using assms write_wrote [of CXD2856ER_I2C_SLVT reg "[v]" s s']
    by (simp add: cxd2856er_write_slvt_reg_mask_def cxd2856er_write_reg_mask_def target_bytes)
  then show ?thesis by (intro exI [of _ "(slvt_byte dm, [reg, v])"]) (simp add: masked_store_def)
next
  case False
  then obtain b s1 where r: "cxd2856er_read_regs dm CXD2856ER_I2C_SLVT reg [cx_junk dm] s = (0, b, s1)"
      and "cxd2856er_write_regs dm CXD2856ER_I2C_SLVT reg [(hd b AND NOT m) OR (v AND m)] s1 = (0, s')"
    using assms by (auto simp: cxd2856er_write_slvt_reg_mask_def cxd2856er_write_reg_mask_def Let_def split: if_splits prod.splits)
  from wrote_trans [OF read_wrote [OF r] write_wrote [OF this(2)]]
  show ?thesis
    by (intro exI [of _ "(slvt_byte dm, [reg, (hd b AND NOT m) OR (v AND m)])"]) (simp add: masked_store_def target_bytes mask_agrees)
qed

lemma slvt_wrote: "cxd2856er_write_slvt_reg dm reg v s = (0, s') \<Longrightarrow> wrote s s' [(slvt_byte dm, [reg, v])]"
  using write_wrote [of CXD2856ER_I2C_SLVT reg "[v]" s s'] by (simp add: cxd2856er_write_slvt_reg_def target_bytes)

lemma rd_wrote: "cxd2856er_read_slvt_reg dm reg j s = (0, v, s') \<Longrightarrow> wrote s s' []"
  by (auto simp: cxd2856er_read_slvt_reg_def Let_def dest: read_wrote split: prod.splits)

lemma pins_wrote:
  assumes "cxd2856er_set_ts_pin_state dm st s = (0, s')"
  shows "\<exists>ws. wrote s s' ws \<and> op_stores dm (Pins st) ws"
proof -
  obtain s1 c4 s2 s3 where c: "cxd2856er_write_slvt_reg dm 0 0 s = (0, s1)"
      "cxd2856er_read_slvt_reg dm 0xc4 (cx_junk dm) s1 = (0, c4, s2)" "cxd2856er_write_slvt_reg dm 0 0 s2 = (0, s3)"
      and m: "cxd2856er_write_slvt_reg_mask dm 0x81 (if st then 0 else 0xff) (pin_mask c4) s3 = (0, s')"
    using assms by (auto simp: cxd2856er_set_ts_pin_state_def Let_def split: if_splits prod.splits)
  obtain w where w: "wrote s3 s' [w]" "masked_store (slvt_byte dm) 0x81 (if st then 0 else 0xff) (pin_mask c4) w"
    using mask_wrote [OF m] by blast
  have "pin_mask c4 \<in> {0x01, 0x80, 0xff}" by (simp add: pin_mask_def)
  then have "op_stores dm (Pins st) [(slvt_byte dm, [0, 0]), (slvt_byte dm, [0, 0]), w]" using w(2) by auto
  moreover have "wrote s s' [(slvt_byte dm, [0, 0]), (slvt_byte dm, [0, 0]), w]"
    using wrote_trans [OF slvt_wrote [OF c(1)] wrote_trans [OF rd_wrote [OF c(2)] wrote_trans [OF slvt_wrote [OF c(3)] w(1)]]]
    by simp
  ultimately show ?thesis by blast
qed

lemma op_wrote: "op_call dm p s = (0, s') \<Longrightarrow> \<exists>ws. wrote s s' ws \<and> op_stores dm p ws"
proof (induction p)
  case (SlvX reg v)
  then show ?case using write_wrote by (force simp: cxd2856er_write_slvx_reg_def target_bytes)
next
  case (SlvTs reg d)
  then show ?case using write_wrote by (force simp: cxd2856er_write_slvt_regs_def target_bytes)
next
  case (SlvTm reg v m)
  then have "cxd2856er_write_slvt_reg_mask dm reg v m s = (0, s')" by simp
  from mask_wrote [OF this] obtain w where "wrote s s' [w]" "masked_store (slvt_byte dm) reg v m w" by blast
  then show ?case by (intro exI [of _ "[w]"]) simp
next
  case (RdT reg)
  then show ?case using rd_wrote by (auto simp: Let_def split: prod.splits)
qed (auto dest: slvt_wrote pins_wrote simp del: op_stores.simps(6))

lemma ops_wrote: "run_ops dm ps s = (0, s') \<Longrightarrow> \<exists>ws. wrote s s' ws \<and> ops_store dm ps ws"
proof (induction ps arbitrary: s)
  case Nil
  then show ?case using wrote_refl by (auto simp: run_ops_def run_each_def)
next
  case (Cons p ps)
  obtain s1 where p: "op_call dm p s = (0, s1)" "run_ops dm ps s1 = (0, s')"
    using Cons.prems by (auto simp: run_ops_def run_each_def split: prod.splits if_splits)
  from op_wrote [OF p(1)] Cons.IH [OF p(2)] show ?case using wrote_trans ops_store_Cons by blast
qed

end

section \<open>The tuner\<close>

fun tun_stores :: "u8 \<Rightarrow> tun_op \<Rightarrow> u8 \<times> u8 list \<Rightarrow> bool" where
  "tun_stores a (Wr reg d) w = (w = (a, reg # d))"
| "tun_stores a (Wm reg v m) w = masked_store a reg v m w"
| "tun_stores a Refuse w = False"

locale cxd2858er_on_bus = i2c_master request writes
  for request :: "i2c_request list \<Rightarrow> 's \<Rightarrow> int \<times> i2c_request list \<times> 's" and writes +
  fixes t :: "'s cxd2858er_tuner"
  assumes wired: "i2c_request (ct_i2c t) = Some request"
begin

lemma master_request [simp]: "i2c_comm_master_request (ct_i2c t) = request"
  by (simp add: i2c_comm_master_request_def wired fun_eq_iff)

lemma write_wrote: "cxd2858er_write_regs t reg buf s = (0, s') \<Longrightarrow> wrote s s' [(addr_byte (ucast (ct_addr t)), reg # buf)]"
  by (auto simp: cxd2858er_write_regs_def wrote_def stores_def Let_def Suc_le_eq dest!: request_done split: prod.splits if_splits)

lemma read_wrote: "cxd2858er_read_regs t reg buf s = (0, b, s') \<Longrightarrow> wrote s s' []"
  by (auto simp: cxd2858er_read_regs_def wrote_def stores_def Let_def dest!: request_done split: prod.splits if_splits)

lemma mask_wrote:
  assumes "cxd2858er_write_reg_mask t reg v m s = (0, s')"
  shows "\<exists>w. wrote s s' [w] \<and> masked_store (addr_byte (ucast (ct_addr t))) reg v m w"
proof (cases "m = 0xff")
  case True
  let ?w = "(addr_byte (ucast (ct_addr t)), [reg, v])"
  have "wrote s s' [?w]" using True assms write_wrote [of reg "[v]" s s'] by (simp add: cxd2858er_write_reg_mask_def)
  then show ?thesis by (intro exI [of _ ?w]) (simp add: masked_store_def)
next
  case False
  then obtain b s1 where r: "cxd2858er_read_regs t reg [ct_junk t] s = (0, b, s1)"
      and "cxd2858er_write_regs t reg [(hd b AND NOT m) OR (v AND m)] s1 = (0, s')"
    using assms by (auto simp: cxd2858er_write_reg_mask_def Let_def split: if_splits prod.splits)
  from wrote_trans [OF read_wrote [OF r] write_wrote [OF this(2)]]
  show ?thesis
    by (intro exI [of _ "(addr_byte (ucast (ct_addr t)), [reg, (hd b AND NOT m) OR (v AND m)])"]) (simp add: masked_store_def mask_agrees)
qed

lemma op_wrote: "tun_call t p s = (0, s') \<Longrightarrow> \<exists>w. wrote s s' [w] \<and> tun_stores (addr_byte (ucast (ct_addr t))) p w"
  by (cases p) (auto dest: write_wrote mask_wrote simp del: split_paired_Ex)

lemma ops_wrote:
  "tun_ops t ps s = (0, s') \<Longrightarrow> \<exists>ws. wrote s s' ws \<and> list_all2 (tun_stores (addr_byte (ucast (ct_addr t)))) ps ws"
proof (induction ps arbitrary: s)
  case Nil
  then show ?case using wrote_refl by (auto simp: tun_ops_def run_each_def)
next
  case (Cons p ps)
  obtain s1 where p: "tun_call t p s = (0, s1)" "tun_ops t ps s1 = (0, s')"
    using Cons.prems by (auto simp: tun_ops_def run_each_def split: prod.splits if_splits)
  obtain w where w: "wrote s s1 [w]" "tun_stores (addr_byte (ucast (ct_addr t))) p w" using op_wrote [OF p(1)] by blast
  obtain ws where ws: "wrote s1 s' ws" "list_all2 (tun_stores (addr_byte (ucast (ct_addr t)))) ps ws" using Cons.IH [OF p(2)] by blast
  have "wrote s s' (w # ws)" using wrote_trans [OF w(1) ws(1)] by simp
  then show ?case using w(2) ws(2) by blast
qed

end

section \<open>On the bridge\<close>

definition bridge_master :: "u8 \<Rightarrow> 'd it930x_bridge i2c_comm_master" where
  "bridge_master n = \<lparr> i2c_gate_ctrl = None, i2c_request = Some (it930x_i2c_master_request n) \<rparr>"

definition cxd_on :: "u8 \<Rightarrow> u8 \<Rightarrow> u8 \<Rightarrow> bool \<Rightarrow> u8 \<Rightarrow> 'd it930x_bridge cxd2856er_demod" where
  "cxd_on n slvx slvt ti j = \<lparr> cx_i2c = bridge_master n, cx_slvx = slvx, cx_slvt = slvt, cx_xtal = 24000,
     cx_tuner_i2c = ti, cx_junk = j \<rparr>"

interpretation cxd: cxd2856er_on_bus "it930x_i2c_master_request n" "i2c_writes n" "cxd_on n slvx slvt ti j"
  for n slvx slvt ti j
  by unfold_locales (simp add: cxd_on_def bridge_master_def)

text \<open>The table that puts the settings of a cable system back, and the one that starts a system.\<close>

definition restore_ops :: "cxd2856er_system \<Rightarrow> cxd_op list" where
  "restore_ops system = (if system = CXD2856ER_ISDB_C_SYSTEM then cxd2856er_sleep_isdbc else cxd2856er_sleep_j83b)"

definition start_ops :: "cxd2856er_system \<Rightarrow> u32 \<Rightarrow> cxd_op list" where
  "start_ops system bandwidth =
     (case system of
        CXD2856ER_ISDB_T_SYSTEM \<Rightarrow> cxd2856er_wakeup_isdbt bandwidth
      | CXD2856ER_ISDB_S_SYSTEM \<Rightarrow> cxd2856er_wakeup_isdbs
      | CXD2856ER_ISDB_C_SYSTEM \<Rightarrow> cxd2856er_wakeup_isdbc_ops
      | CXD2856ER_J83B_SYSTEM \<Rightarrow> cxd2856er_wakeup_j83b_ops
      | CXD2856ER_UNSPECIFIED_SYSTEM \<Rightarrow> [Inval])"

lemma sleep_cable:
  assumes "cx_state v = CXD2856ER_ACTIVE_STATE" "is_cable (cx_system v)"
  shows "cxd2856er_sleep dm (v, s) =
    (let (ret, s1) = run_ops dm (restore_ops (cx_system v)) s in
     if ret \<noteq> 0 then (ret, (v, s1)) else (0, (cxd2856er_asleep v, s1)))"
  using assms by (auto simp: cxd2856er_sleep_def restore_ops_def is_cable_def)

lemma wakeup_system_eq:
  "wakeup_system dm system bw (v, s) =
     (let (ret, s1) = run_ops dm (start_ops system bw) s in
      if ret = 0 then (0, (\<lparr> cx_state = CXD2856ER_ACTIVE_STATE, cx_system = system, cable_wakeup_incomplete = False \<rparr>, s1))
      else (ret, (if is_cable system then cable_started system v else v, s1)))"
  by (cases system)
    (auto simp: wakeup_system_def with_vars_def start_ops_def cxd2856er_wakeup_isdbc_def cxd2856er_wakeup_j83b_def is_cable_def
      run_ops_def run_each_def cable_started_def Let_def split: prod.splits)

lemma wakeup_cable:
  assumes "cx_state v = CXD2856ER_ACTIVE_STATE" "is_cable (cx_system v)" "system \<noteq> cx_system v \<or> cable_wakeup_incomplete v"
  shows "cxd2856er_wakeup dm system bw (v, s) =
    (let (ret, s1) = run_ops dm (restore_ops (cx_system v)) s in
     if ret \<noteq> 0 then (ret, (v, s1)) else wakeup_system dm system bw (cxd2856er_asleep v, s1))"
  using assms by (auto simp: cxd2856er_wakeup_def sleep_cable cxd2856er_asleep_def split: prod.splits)

text \<open>What the driver notes is consistent after any calls, whatever the bus answered: an attempt that broke
  off is one of a cable system, which is noted as running, and a chip that is asleep has no system.\<close>

definition vars_ok :: "cxd2856er_vars \<Rightarrow> bool" where
  "vars_ok v \<longleftrightarrow> (cable_wakeup_incomplete v \<longrightarrow> is_cable (cx_system v)) \<and>
     (cx_system v = CXD2856ER_UNSPECIFIED_SYSTEM \<longleftrightarrow> cx_state v \<noteq> CXD2856ER_ACTIVE_STATE)"

inductive cxd_runs :: "'s cxd2856er_demod \<Rightarrow> cxd2856er_vars \<times> 's \<Rightarrow> bool" for dm where
  init: "cxd2856er_init dm vs = (0, vs') \<Longrightarrow> cxd_runs dm vs'"
| sleep: "cxd_runs dm vs \<Longrightarrow> cxd_runs dm (snd (cxd2856er_sleep dm vs))"
| wakeup: "cxd_runs dm vs \<Longrightarrow> cxd_runs dm (snd (cxd2856er_wakeup dm system bw vs))"
| bus: "cxd_runs dm (v, s) \<Longrightarrow> cxd_runs dm (v, s')"

lemma vars_ok_asleep [simp]: "vars_ok (cxd2856er_asleep v)" "cx_state (cxd2856er_asleep v) = CXD2856ER_SLEEP_STATE"
  by (simp_all add: vars_ok_def cxd2856er_asleep_def)

lemma sleep_vars: "fst (snd (cxd2856er_sleep dm (v, s))) = v \<or> fst (snd (cxd2856er_sleep dm (v, s))) = cxd2856er_asleep v"
  by (auto simp: cxd2856er_sleep_def Let_def case_prod_beta split: cxd2856er_system.splits)

lemma wakeup_system_vars: "vars_ok v \<Longrightarrow> vars_ok (fst (snd (wakeup_system dm system bw (v, s))))"
  by (cases "system = CXD2856ER_UNSPECIFIED_SYSTEM")
    (auto simp: wakeup_system_eq start_ops_def run_ops_def run_each_def Let_def case_prod_beta,
     auto simp: vars_ok_def cable_started_def is_cable_def)

lemma wakeup_vars:
  assumes "vars_ok v"
  shows "vars_ok (fst (snd (cxd2856er_wakeup dm system bw (v, s))))"
proof -
  have w: "vars_ok (fst (snd (wakeup_system dm system bw vs)))" if "vars_ok (fst vs)" for vs
    using wakeup_system_vars that by (cases vs) simp
  have l: "vars_ok (fst (snd (cxd2856er_sleep dm vs)))" if "vars_ok (fst vs)" for vs
    using sleep_vars [of dm "fst vs" "snd vs"] that by auto
  have k: "fst (snd (with_vars f vs)) = fst vs" for f and vs :: "cxd2856er_vars \<times> 'a" by (simp add: with_vars_def case_prod_beta)
  define r where "r = (if cx_state v = CXD2856ER_ACTIVE_STATE \<and> is_cable (cx_system v) \<and>
      (system \<noteq> cx_system v \<or> cable_wakeup_incomplete v) then cxd2856er_sleep dm (v, s) else (0, (v, s)))"
  have r: "vars_ok (fst (snd r))" using l [of "(v, s)"] assms by (simp add: r_def)
  have "cxd2856er_wakeup dm system bw (v, s) =
      (if fst r \<noteq> 0 then (fst r, snd r)
       else if cx_state (fst (snd r)) = CXD2856ER_ACTIVE_STATE then
         if cx_system (fst (snd r)) = system then with_vars (run_ops dm (reset_ops system bw)) (snd r)
         else wakeup_system dm system bw (snd (cxd2856er_sleep dm (snd r)))
       else wakeup_system dm system bw (snd r))"
    unfolding cxd2856er_wakeup_def Let_def case_prod_beta fst_conv snd_conv r_def ..
  then show ?thesis using r w [OF r] w [OF l [OF r]] by (simp add: k)
qed

lemma cxd_runs_vars: "cxd_runs dm vs \<Longrightarrow> vars_ok (fst vs)"
proof (induction rule: cxd_runs.induct)
  case (init vs vs')
  then show ?case by (auto simp: cxd2856er_init_def vars_ok_def Let_def case_prod_beta split: if_splits)
next
  case (sleep vs)
  then show ?case using sleep_vars [of dm "fst vs" "snd vs"] by auto
next
  case (wakeup vs system bw)
  then show ?case using wakeup_vars [of "fst vs" dm system bw "snd vs"] by simp
qed simp

lemma broken_off_is_active:
  assumes "cxd_runs dm (v, s)" "cable_wakeup_incomplete v"
  shows "cx_state v = CXD2856ER_ACTIVE_STATE" "is_cable (cx_system v)"
  using cxd_runs_vars [OF assms(1)] assms(2) by (auto simp: vars_ok_def is_cable_def)

text \<open>A sequence that fails has run up to the access that failed.\<close>

lemma run_ops_failed:
  assumes "run_ops dm ops s = (ret, s')" "ret \<noteq> 0"
  shows "\<exists>k s1. k < length ops \<and> run_ops dm (take k ops) s = (0, s1) \<and> op_call dm (ops ! k) s1 = (ret, s')"
  using assms(1)
proof (induction ops arbitrary: s)
  case Nil
  then show ?case using assms(2) by (simp add: run_ops_def run_each_def)
next
  case (Cons p ps)
  obtain r s1 where p: "op_call dm p s = (r, s1)" by fastforce
  show ?case
  proof (cases "r = 0")
    case True
    then have "run_ops dm ps s1 = (ret, s')" using Cons.prems p by (simp add: run_ops_def run_each_def)
    then obtain k s2 where k: "k < length ps" "run_ops dm (take k ps) s1 = (0, s2)" "op_call dm (ps ! k) s2 = (ret, s')"
      using Cons.IH by blast
    have "run_ops dm (take (Suc k) (p # ps)) s = (0, s2)"
      using k(2) p True by (simp add: run_ops_def run_each_def)
    then show ?thesis using k by (intro exI [of _ "Suc k"] exI [of _ s2]) simp
  next
    case False
    then have "op_call dm p s = (ret, s')" using Cons.prems p by (simp add: run_ops_def run_each_def)
    then show ?thesis by (intro exI [of _ 0] exI [of _ s]) (simp add: run_ops_def run_each_def)
  qed
qed

text \<open>On the bridge: what a sequence that returned 0 stored.\<close>

definition stored :: "'d it930x_bridge cxd2856er_demod \<Rightarrow> u8 \<Rightarrow> cxd_op list \<Rightarrow> 'd it930x_bridge \<Rightarrow> 'd it930x_bridge \<Rightarrow> bool" where
  "stored dm n ops b b' \<longleftrightarrow> (\<exists>ws. i2c_writes n b' = i2c_writes n b @ ws \<and> ops_store dm ops (stores ws))"

lemma run_ops_stored:
  "run_ops (cxd_on n slvx slvt ti j) ops b = (0, b') \<Longrightarrow> stored (cxd_on n slvx slvt ti j) n ops b b'"
  using cxd.ops_wrote [of n slvx slvt ti j ops b b'] by (auto simp: stored_def it930x_i2c.wrote_def)

lemma stored_append:
  assumes "stored dm n ps b b1" "stored dm n qs b1 b2"
  shows "stored dm n (ps @ qs) b b2"
proof -
  obtain ws xs where "i2c_writes n b1 = i2c_writes n b @ ws" "ops_store dm ps (stores ws)"
      "i2c_writes n b2 = i2c_writes n b1 @ xs" "ops_store dm qs (stores xs)"
    using assms by (auto simp: stored_def)
  then have "i2c_writes n b2 = i2c_writes n b @ (ws @ xs) \<and> ops_store dm (ps @ qs) (stores (ws @ xs))"
    using ops_store_append by simp
  then show ?thesis unfolding stored_def by blast
qed

text \<open>C33: the settings of a cable system never stay in the chip under another system, nor under a second
  attempt after one that broke off. When the demodulator is left in such a state, waking it up returns 0
  only after the whole table that puts the settings back and then the whole table of the new system were
  stored, in this order. When it fails, either an access of the first table failed, after the accesses
  before it were stored, and the driver still notes that the settings are there; or the whole first table was
  stored, then an access of the second failed after those before it were stored, and what the driver notes is
  that the new system was started but not completely if that is a cable system, and that the chip is asleep
  with no system otherwise.\<close>

theorem cxd2856er_cable_restored:
  fixes b b' :: "'d it930x_bridge"
  assumes "cx_state v = CXD2856ER_ACTIVE_STATE" "is_cable (cx_system v)" "system \<noteq> cx_system v \<or> cable_wakeup_incomplete v"
    and "dm = cxd_on n slvx slvt ti j" "cxd2856er_wakeup dm system bw (v, b) = (ret, (v', b'))"
  shows "(ret = 0 \<longrightarrow> cx_system v' = system \<and> cx_state v' = CXD2856ER_ACTIVE_STATE \<and> \<not> cable_wakeup_incomplete v' \<and>
            stored dm n (restore_ops (cx_system v) @ start_ops system bw) b b') \<and>
         (ret \<noteq> 0 \<longrightarrow>
            (\<exists>k b1. k < length (restore_ops (cx_system v)) \<and> stored dm n (take k (restore_ops (cx_system v))) b b1 \<and>
               op_call dm (restore_ops (cx_system v) ! k) b1 = (ret, b') \<and> v' = v) \<or>
            (\<exists>k b1. k < length (start_ops system bw) \<and>
               stored dm n (restore_ops (cx_system v) @ take k (start_ops system bw)) b b1 \<and>
               op_call dm (start_ops system bw ! k) b1 = (ret, b') \<and>
               v' = (if is_cable system
                     then v\<lparr>cx_state := CXD2856ER_ACTIVE_STATE, cx_system := system, cable_wakeup_incomplete := True\<rparr>
                     else v\<lparr>cx_state := CXD2856ER_SLEEP_STATE, cx_system := CXD2856ER_UNSPECIFIED_SYSTEM,
                            cable_wakeup_incomplete := False\<rparr>)))"
proof -
  have st: "stored dm n ops x y" if "run_ops dm ops x = (0, y)" for ops x y
    using run_ops_stored that unfolding assms(4) .
  obtain r1 b1 where 1: "run_ops dm (restore_ops (cx_system v)) b = (r1, b1)" by fastforce
  obtain r2 b2 where 2: "run_ops dm (start_ops system bw) b1 = (r2, b2)" by fastforce
  have w: "(ret, (v', b')) = (if r1 \<noteq> 0 then (r1, (v, b1)) else if r2 = 0 then
      (0, (\<lparr> cx_state = CXD2856ER_ACTIVE_STATE, cx_system = system, cable_wakeup_incomplete = False \<rparr>, b2))
      else (r2, (if is_cable system then cable_started system (cxd2856er_asleep v) else cxd2856er_asleep v, b2)))"
    using assms(5) unfolding wakeup_cable [OF assms(1-3)] 1 wakeup_system_eq Let_def prod.case 2 by simp
  consider (both) "r1 = 0" "r2 = 0" | (first) "r1 \<noteq> 0" | (second) "r1 = 0" "r2 \<noteq> 0" by blast
  then show ?thesis
  proof cases
    case both
    then show ?thesis using w stored_append [OF st st] 1 2 by auto
  next
    case first
    then show ?thesis using w run_ops_failed [OF 1 first] st by auto
  next
    case second
    obtain k b3 where k: "k < length (start_ops system bw)" "run_ops dm (take k (start_ops system bw)) b1 = (0, b3)"
        "op_call dm (start_ops system bw ! k) b3 = (r2, b2)"
      using run_ops_failed [OF 2 second(2)] by blast
    have "stored dm n (restore_ops (cx_system v) @ take k (start_ops system bw)) b b3"
      using stored_append [OF st st] 1 second(1) k(2) by auto
    then show ?thesis using w second k by (auto simp: cable_started_def cxd2856er_asleep_def)
  qed
qed

text \<open>On the bus of the bridge's witnesses every request that fits a message is answered.\<close>

definition demo_answers :: "((u32 \<Rightarrow> u8) \<times> u8 list) it930x_bridge \<Rightarrow> bool" where
  "demo_answers b \<longleftrightarrow> it_bus b = demo_bus \<and> it_bus_type b = ITEDTV_BUS_USB"

lemma demo_answers_ready: "demo_answers demo_ready"
  using demo_ready_bus(1) demo_init(4) by (simp add: demo_answers_def)

fun demo_fits :: "i2c_request \<Rightarrow> bool" where
  "demo_fits (I2C_READ_REQUEST a d) = (d \<noteq> [] \<and> length d \<le> 251)"
| "demo_fits (I2C_WRITE_REQUEST a d) = (d \<noteq> [] \<and> length d < 247)"
| "demo_fits I2C_UNDEFINED_REQUEST = False"

lemma demo_one:
  assumes "demo_answers b" "demo_fits r"
  shows "\<exists>r' b'. it930x_i2c_one n r b = (0, r', b') \<and> demo_answers b'"
proof -
  have c: "\<exists>b'. it930x_ctrl_msg cmd (Some p) rcap False b = (0, [], b') \<and> demo_answers b'"
    if "length p < 250" "lo8 cmd \<noteq> 0" "lo8 cmd \<noteq> 1" for cmd p rcap
    using demo_ctrl_msg [OF _ _ that, of b rcap] assms(1) by (auto simp: demo_answers_def same_bridge_def)
  show ?thesis
  proof (cases r)
    case (I2C_READ_REQUEST a d)
    then show ?thesis using assms(2) c [of "[of_nat (length d), n, ucast (push_bit 1 a)]" IT930X_CMD_I2C_READ "Some (length d)"]
      by (auto simp: it930x_i2c_one_def lo8_def)
  next
    case (I2C_WRITE_REQUEST a d)
    then show ?thesis using assms(2) c [of "[of_nat (length d), n, ucast (push_bit 1 a)] @ d" IT930X_CMD_I2C_WRITE None]
      by (auto simp: it930x_i2c_one_def lo8_def)
  qed (use assms(2) in simp)
qed

lemma demo_request:
  "demo_answers b \<Longrightarrow> list_all demo_fits reqs \<Longrightarrow> \<exists>reqs' b'. it930x_i2c_master_request n reqs b = (0, reqs', b') \<and> demo_answers b'"
proof (induction reqs arbitrary: b)
  case (Cons r reqs)
  obtain r' b1 where "it930x_i2c_one n r b = (0, r', b1)" "demo_answers b1" using demo_one [of b r n] Cons.prems by auto
  then show ?case using Cons.IH [of b1] Cons.prems by auto
qed simp

lemma demo_write:
  assumes "demo_answers b" "buf \<noteq> []" "length buf < 246"
  shows "fst (cxd2856er_write_regs (cxd_on n x t ti j) tg reg buf b) = 0 \<and>
    demo_answers (snd (cxd2856er_write_regs (cxd_on n x t ti j) tg reg buf b))"
  using demo_request [OF assms(1), of "[I2C_WRITE_REQUEST (cx_addr (cxd_on n x t ti j :: ((u32 \<Rightarrow> u8) \<times> u8 list) it930x_bridge cxd2856er_demod) tg) (reg # buf)]" n] assms(2,3)
  by (auto simp: cxd2856er_write_regs_def i2c_comm_master_request_def cxd_on_def bridge_master_def simp del: it930x_i2c_master_request.simps)

lemma demo_read:
  assumes "demo_answers b" "buf \<noteq> []" "length buf \<le> 251"
  shows "fst (cxd2856er_read_regs (cxd_on n x t ti j) tg reg buf b) = 0 \<and>
    demo_answers (snd (snd (cxd2856er_read_regs (cxd_on n x t ti j) tg reg buf b)))"
  using demo_request [OF assms(1), of "[I2C_WRITE_REQUEST (cx_addr (cxd_on n x t ti j :: ((u32 \<Rightarrow> u8) \<times> u8 list) it930x_bridge cxd2856er_demod) tg) [reg],
      I2C_READ_REQUEST (cx_addr (cxd_on n x t ti j :: ((u32 \<Rightarrow> u8) \<times> u8 list) it930x_bridge cxd2856er_demod) tg) buf]" n] assms(2,3)
  by (auto simp: cxd2856er_read_regs_def i2c_comm_master_request_def cxd_on_def bridge_master_def simp del: it930x_i2c_master_request.simps)

fun demo_op :: "cxd_op \<Rightarrow> bool" where
  "demo_op (SlvTs reg d) = (d \<noteq> [] \<and> length d < 246)"
| "demo_op (SlvTm reg v m) = (m \<noteq> 0)"
| "demo_op Inval = False"
| "demo_op p = True"

lemma demo_mask:
  "demo_answers b \<Longrightarrow> m \<noteq> 0 \<Longrightarrow> fst (cxd2856er_write_reg_mask (cxd_on n x t ti j) tg reg v m b) = 0 \<and>
    demo_answers (snd (cxd2856er_write_reg_mask (cxd_on n x t ti j) tg reg v m b))"
  using demo_read [of b "[cx_junk (cxd_on n x t ti j :: ((u32 \<Rightarrow> u8) \<times> u8 list) it930x_bridge cxd2856er_demod)]" n x t ti j tg reg]
  by (auto simp: cxd2856er_write_reg_mask_def demo_write Let_def case_prod_beta)

lemma demo_slvt:
  "demo_answers b \<Longrightarrow> fst (cxd2856er_write_slvt_reg (cxd_on n x t ti j) reg v b) = 0 \<and>
    demo_answers (snd (cxd2856er_write_slvt_reg (cxd_on n x t ti j) reg v b))"
  "demo_answers b \<Longrightarrow> fst (cxd2856er_read_slvt_reg (cxd_on n x t ti j) reg v b) = 0 \<and>
    demo_answers (snd (snd (cxd2856er_read_slvt_reg (cxd_on n x t ti j) reg v b)))"
  using demo_read [of b "[v]" n x t ti j CXD2856ER_I2C_SLVT reg]
  by (auto simp: cxd2856er_write_slvt_reg_def cxd2856er_read_slvt_reg_def demo_write Let_def case_prod_beta)

lemma demo_pins_op:
  "demo_answers b \<Longrightarrow> fst (cxd2856er_set_ts_pin_state (cxd_on n x t ti j) st b) = 0 \<and>
    demo_answers (snd (cxd2856er_set_ts_pin_state (cxd_on n x t ti j) st b))"
proof -
  have "pin_mask c \<noteq> 0" for c by (simp add: pin_mask_def)
  then show "demo_answers b \<Longrightarrow> ?thesis"
    by (simp add: cxd2856er_set_ts_pin_state_def demo_slvt cxd2856er_write_slvt_reg_mask_def demo_mask Let_def case_prod_beta)
qed

lemma demo_op_ok:
  assumes "demo_answers b" "demo_op p"
  shows "fst (op_call (cxd_on n x t ti j) p b) = 0 \<and> demo_answers (snd (op_call (cxd_on n x t ti j) p b))"
  using assms
  by (cases p) (simp_all add: demo_slvt demo_write demo_mask demo_pins_op cxd2856er_write_slvx_reg_def cxd2856er_write_slvt_regs_def
      cxd2856er_write_slvt_reg_mask_def case_prod_beta)

lemma demo_ops_ok:
  assumes "demo_answers b" "list_all demo_op ps"
  shows "fst (run_ops (cxd_on n x t ti j) ps b) = 0 \<and> demo_answers (snd (run_ops (cxd_on n x t ti j) ps b))"
  unfolding run_ops_def run_each_def
  by (rule run_all_returns_0 [where Q = demo_answers, OF _ assms(1)]) (use assms(2) in \<open>auto simp: demo_op_ok list_all_iff\<close>)

lemma demo_tables: "list_all demo_op (restore_ops CXD2856ER_J83B_SYSTEM)" "list_all demo_op (start_ops CXD2856ER_ISDB_T_SYSTEM 6)"
  by (simp_all add: restore_ops_def start_ops_def cxd2856er_sleep_j83b_def cxd2856er_sleep_cable_common_def
      cxd2856er_wakeup_isdbt_def cxd2856er_set_ts_clock_def cxd2856er_set_bandwidth_isdbt_def)

definition demo_broken :: cxd2856er_vars where
  "demo_broken = \<lparr> cx_state = CXD2856ER_ACTIVE_STATE, cx_system = CXD2856ER_J83B_SYSTEM, cable_wakeup_incomplete = True \<rparr>"

theorem cxd2856er_cable_restored_witness:
  "\<exists>v b ws. cxd2856er_wakeup (cxd_on 2 0x6c 0x6d True 0) CXD2856ER_ISDB_T_SYSTEM 6 (demo_broken, demo_ready) = (0, (v, b)) \<and>
     cx_system v = CXD2856ER_ISDB_T_SYSTEM \<and> i2c_writes 2 b = i2c_writes 2 demo_ready @ ws \<and>
     ops_store (cxd_on 2 0x6c 0x6d True 0 :: ((u32 \<Rightarrow> u8) \<times> u8 list) it930x_bridge cxd2856er_demod)
       (restore_ops CXD2856ER_J83B_SYSTEM @ start_ops CXD2856ER_ISDB_T_SYSTEM 6) (stores ws)"
proof -
  let ?dm = "cxd_on 2 0x6c 0x6d True 0 :: ((u32 \<Rightarrow> u8) \<times> u8 list) it930x_bridge cxd2856er_demod"
  have d: "cx_state demo_broken = CXD2856ER_ACTIVE_STATE" "is_cable (cx_system demo_broken)"
      "CXD2856ER_ISDB_T_SYSTEM \<noteq> cx_system demo_broken \<or> cable_wakeup_incomplete demo_broken"
      "cx_system demo_broken = CXD2856ER_J83B_SYSTEM"
    by (simp_all add: demo_broken_def is_cable_def)
  have "fst (cxd2856er_wakeup ?dm CXD2856ER_ISDB_T_SYSTEM 6 (demo_broken, demo_ready)) = 0"
    using demo_ops_ok [OF demo_answers_ready demo_tables(1), of 2 "0x6c" "0x6d" True 0] demo_ops_ok [OF _ demo_tables(2), of _ 2 "0x6c" "0x6d" True 0]
    unfolding wakeup_cable [OF d(1-3)] wakeup_system_eq d(4) Let_def case_prod_beta by simp
  then obtain v b where w: "cxd2856er_wakeup ?dm CXD2856ER_ISDB_T_SYSTEM 6 (demo_broken, demo_ready) = (0, (v, b))"
    by (metis prod.collapse)
  then show ?thesis using cxd2856er_cable_restored [OF d(1-3) refl w] d(4) by (auto simp: stored_def)
qed

section \<open>The tuner behind the demodulator\<close>

text \<open>The demodulator passes the tuner's requests through, so it is a master like the bus itself.\<close>

sublocale cxd2856er_on_bus \<subseteq> tuner: i2c_master "cxd2856er_i2c_master_request dm" writes
  by unfold_locales (auto simp: cxd2856er_i2c_master_request_def dest: request_shape request_done)

definition tuner_on :: "'d it930x_bridge cxd2856er_demod \<Rightarrow> u8 \<Rightarrow> u32 \<Rightarrow> bool \<Rightarrow> bool \<Rightarrow> bool \<Rightarrow> u8 \<Rightarrow> 'd it930x_bridge cxd2858er_tuner" where
  "tuner_on dm addr xtal lna rm sl j = \<lparr> ct_i2c = cxd2856er_master dm, ct_addr = addr, ct_xtal = xtal, ct_ter_lna = lna,
     ct_rfin_matching = rm, ct_sat_lna = sl, ct_junk = j \<rparr>"

interpretation tun: cxd2858er_on_bus "cxd2856er_i2c_master_request (cxd_on n slvx slvt ti k)" "i2c_writes n"
    "tuner_on (cxd_on n slvx slvt ti k) addr xtal lna rm sl j"
  for n slvx slvt ti k addr xtal lna rm sl j
  by unfold_locales (simp_all add: tuner_on_def cxd2856er_master_def cxd.tuner.request_shape cxd.tuner.request_done)

context cxd2858er_on_bus
begin

lemma stop_wrote:
  "stop_if_s t (y, s) = (0, (y', s')) \<Longrightarrow> \<exists>ws. wrote s s' ws"
  "stop_if_t t (y, s) = (0, (y', s')) \<Longrightarrow> \<exists>ws. wrote s s' ws"
  using wrote_refl ops_wrote
  by (fastforce simp: stop_if_s_def stop_if_t_def cxd2858er_stop_s_def cxd2858er_stop_t_def Let_def split: if_splits prod.splits)+

text \<open>What a tuning that returned 0 has stored between opening and closing the gate.\<close>

lemma retune_wrote:
  assumes "gated t (retune t stop ops system) (y, s) = (0, (y', s'))"
    and "\<forall>s1 y2 s2. stop (y, s1) = (0, (y2, s2)) \<longrightarrow> (\<exists>ws. wrote s1 s2 ws)"
  shows "y' = system \<and> (\<exists>s1 s3 ws xs. i2c_comm_master_gate_ctrl (ct_i2c t) True s = (0, s1) \<and> wrote s1 s3 (ws @ xs) \<and>
    list_all2 (tun_stores (addr_byte (ucast (ct_addr t)))) ops xs \<and> s' = snd (i2c_comm_master_gate_ctrl (ct_i2c t) False s3))"
proof -
  obtain s1 y2 s2 s3 where c: "i2c_comm_master_gate_ctrl (ct_i2c t) True s = (0, s1)" "stop (y, s1) = (0, (y2, s2))"
      "tun_ops t ops s2 = (0, s3)" "y' = system" "s' = snd (i2c_comm_master_gate_ctrl (ct_i2c t) False s3)"
    using assms(1) by (auto simp: gated_def retune_def Let_def split: prod.splits if_splits)
  obtain ws where "wrote s1 s2 ws" using assms(2) c(2) by blast
  moreover obtain xs where "wrote s2 s3 xs" "list_all2 (tun_stores (addr_byte (ucast (ct_addr t)))) ops xs"
    using ops_wrote [OF c(3)] by blast
  ultimately show ?thesis using wrote_trans c by blast
qed

end

text \<open>The frequency in the tuner's registers, in units of their least significant bit.\<close>

definition freq_value :: "u8 list \<Rightarrow> nat" where
  "freq_value d = unat (d ! 0) + 256 * unat (d ! 1) + 65536 * unat (d ! 2)"

lemma freq_value_regs: "freq_value (freq_regs f) = unat f mod 2 ^ 20"
proof -
  have "unat f mod 2 ^ 20 = unat f mod 256 + 256 * (unat f div 256 mod 256) + 65536 * (unat f div 65536 mod 16)"
    using mod_mult2_eq [of "unat f" 256 4096] mod_mult2_eq [of "unat f div 256" 256 16] div_mult2_eq [of "unat f" 256 256] by simp
  moreover have "x AND 0xff = take_bit 8 x" "x AND 0x0f = take_bit 4 x" for x :: u32
    by (simp_all add: take_bit_eq_mask mask_eq_exp_minus_1)
  then have "unat (ucast (f AND 0xff) :: u8) = unat f mod 256" "unat (ucast (drop_bit 8 f AND 0xff) :: u8) = unat f div 256 mod 256"
      "unat (ucast (drop_bit 16 f AND 0x0f) :: u8) = unat f div 65536 mod 16"
    using mod_less [of "unat f div 65536 mod 16" 256]
    by (simp_all add: unsigned_ucast_eq unsigned_take_bit_eq unat_drop_bit_eq take_bit_eq_mod drop_bit_eq_div unat_mod unat_div
        order_less_trans [OF mod_less_divisor])
  ultimately show ?thesis by (simp add: freq_value_def freq_regs_def)
qed

lemma tuned_regs:
  assumes "list_all2 (tun_stores a) ops xs" "Wr reg d \<in> set ops"
  shows "(a, reg # d) \<in> set xs"
  using assms by (induction rule: list_all2_induct) auto

lemma gate_wrote:
  assumes "i2c_comm_master_gate_ctrl (ct_i2c (tuner_on (cxd_on n slvx slvt ti k) addr xtal lna rm sl j)) g b = (0, b')"
  shows "i2c_writes n b' = i2c_writes n b @ [(addr_byte (ucast slvx), [0x08, if g then 1 else 0])]"
proof -
  have "cxd2856er_write_regs (cxd_on n slvx slvt ti k) CXD2856ER_I2C_SLVX 0x08 [if g then 1 else 0] b = (0, b')"
    using assms by (simp add: i2c_comm_master_gate_ctrl_def tuner_on_def cxd2856er_master_def cxd2856er_i2c_master_gate_ctrl_def
        cxd2856er_write_slvx_reg_def)
  then show ?thesis
    by (auto simp: cxd2856er_write_regs_def cx_addr_def cxd_on_def bridge_master_def i2c_comm_master_request_def Let_def
        simp del: it930x_i2c_master_request.simps dest!: i2c_request_done split: prod.splits)
qed

lemma sat_step: "unat (freq :: u32) \<le> 4194301 \<Longrightarrow> \<bar>4 * int (unat ((freq + 2) div 4) mod 2 ^ 20) - int (unat freq)\<bar> \<le> 2"
proof -
  assume f: "unat freq \<le> 4194301"
  then have "unat (freq + 2) = unat freq + 2" by (subst unat_add_lem [THEN iffD1]) simp_all
  then have q: "unat ((freq + 2) div 4) = (unat freq + 2) div 4" by (simp add: unat_div)
  moreover have "(unat freq + 2) div 4 < 2 ^ 20" using f by simp
  ultimately have m: "unat ((freq + 2) div 4) mod 2 ^ 20 = (unat freq + 2) div 4" by simp
  have "\<bar>4 * int ((x + 2) div 4) - int x\<bar> \<le> 2" for x :: nat by presburger
  then show ?thesis unfolding m by blast
qed

text \<open>C34: a satellite tuning that returns 0 has set the tuner to the frequency asked for: the gate of the
  demodulator was opened first, the synthesizer's registers were stored with the 20 bit frequency word in
  steps of 4 kHz, at most 2 kHz from the frequency, for every frequency the word can hold, the tuner is
  noted as set to the satellite system, and the last thing done on the bus was to close the gate.\<close>

theorem cxd2858er_satellite_tuned:
  fixes b b' :: "'d it930x_bridge"
  assumes "cxd2858er_set_params_s (tuner_on (cxd_on n slvx slvt ti k) addr xtal lna rm sl j) CXD2858ER_ISDB_S_SYSTEM freq rate (y, b)
      = (0, (y', b'))"
    and "unat freq \<le> 4194301"
  shows "y' = CXD2858ER_ISDB_S_SYSTEM \<and>
    (\<exists>ws bg. i2c_writes n bg = i2c_writes n b @ (addr_byte (ucast slvx), [0x08, 0x01]) # ws \<and>
      (\<exists>d. (addr_byte (ucast addr), 0x04 # d) \<in> set ws \<and> length d = 18 \<and>
        \<bar>4 * int (freq_value (take 3 (drop 12 d))) - int (unat freq)\<bar> \<le> 2) \<and>
      b' = snd (cxd2856er_i2c_master_gate_ctrl (cxd_on n slvx slvt ti k) False bg))"
proof -
  let ?t = "tuner_on (cxd_on n slvx slvt ti k) addr xtal lna rm sl j :: 'd it930x_bridge cxd2858er_tuner"
  have "gated ?t (retune ?t (stop_if_t ?t) (params_s_ops ?t freq) CXD2858ER_ISDB_S_SYSTEM) (y, b) = (0, (y', b'))"
    using assms(1) by (simp add: cxd2858er_set_params_s_def)
  moreover have "\<forall>s1 y2 s2. stop_if_t ?t (y, s1) = (0, (y2, s2)) \<longrightarrow> (\<exists>ws. it930x_i2c.wrote n s1 s2 ws)"
    using tun.stop_wrote(2) by blast
  ultimately have "y' = CXD2858ER_ISDB_S_SYSTEM \<and> (\<exists>b1 b3 ws xs. i2c_comm_master_gate_ctrl (ct_i2c ?t) True b = (0, b1) \<and>
      it930x_i2c.wrote n b1 b3 (ws @ xs) \<and> list_all2 (tun_stores (addr_byte (ucast (ct_addr ?t)))) (params_s_ops ?t freq) xs \<and>
      b' = snd (i2c_comm_master_gate_ctrl (ct_i2c ?t) False b3))"
    by (rule tun.retune_wrote)
  then
  obtain b1 b3 ws xs where y: "y' = CXD2858ER_ISDB_S_SYSTEM" and g: "i2c_comm_master_gate_ctrl (ct_i2c ?t) True b = (0, b1)"
      and w: "it930x_i2c.wrote n b1 b3 (ws @ xs)" "list_all2 (tun_stores (addr_byte (ucast (ct_addr ?t)))) (params_s_ops ?t freq) xs"
      and c: "b' = snd (i2c_comm_master_gate_ctrl (ct_i2c ?t) False b3)"
    by blast
  obtain zs where z: "i2c_writes n b3 = i2c_writes n b1 @ zs" "stores zs = ws @ xs" using w(1) by (auto simp: it930x_i2c.wrote_def)
  have x: "xtal = 16000 \<or> xtal = 24000"
    using w(2) by (auto simp: params_s_ops_def tuner_on_def list_all2_Cons1 split: if_splits)
  define d :: "u8 list" where "d = [0xc4, 0x40, if xtal = 16000 then 0x02 else 0x03, 0x00, 0xb4, 0x78, 0x08, 0x30,
      0xfe OR (if sl then 0x01 else 0x00), 0x02, 0x1e, 0x16] @ freq_regs ((freq + 2) div 4) @ [0xff, 0x00, 0x01]"
  have "Wr 0x04 d \<in> set (params_s_ops ?t freq)" using x by (simp add: params_s_ops_def tuner_on_def d_def)
  from tuned_regs [OF w(2) this] have "(addr_byte (ucast addr), 0x04 # d) \<in> set zs"
    using z(2) filter_is_subset [of "\<lambda>(a, d). length d \<ge> 2" zs] by (auto simp: tuner_on_def stores_def)
  moreover have "take 3 (drop 12 d) = freq_regs ((freq + 2) div 4)" "length d = 18" by (simp_all add: d_def freq_regs_def)
  ultimately show ?thesis using y z(1) gate_wrote [OF g] c sat_step [OF assms(2)]
    by (intro conjI exI [of _ zs] exI [of _ b3] exI [of _ d])
      (simp_all add: freq_value_regs i2c_comm_master_gate_ctrl_def tuner_on_def cxd2856er_master_def)
qed

lemma demo_tun_write:
  assumes "demo_answers b" "buf \<noteq> []" "length buf < 246"
  shows "fst (cxd2858er_write_regs (tuner_on (cxd_on n x t ti k) addr xtal lna rm sl j) reg buf b) = 0 \<and>
    demo_answers (snd (cxd2858er_write_regs (tuner_on (cxd_on n x t ti k) addr xtal lna rm sl j) reg buf b))"
  using demo_request [OF assms(1), of "[I2C_WRITE_REQUEST (ucast addr) (reg # buf)]" n] assms(2,3)
  by (auto simp: cxd2858er_write_regs_def i2c_comm_master_request_def tuner_on_def cxd2856er_master_def
      cxd2856er_i2c_master_request_def cxd_on_def bridge_master_def simp del: it930x_i2c_master_request.simps)

lemma demo_gate:
  assumes "demo_answers b"
  shows "fst (i2c_comm_master_gate_ctrl (cxd2856er_master (cxd_on n x t ti k)) g b) = 0 \<and>
    demo_answers (snd (i2c_comm_master_gate_ctrl (cxd2856er_master (cxd_on n x t ti k)) g b))"
  using demo_write [OF assms] by (simp add: i2c_comm_master_gate_ctrl_def cxd2856er_master_def
      cxd2856er_i2c_master_gate_ctrl_def cxd2856er_write_slvx_reg_def)

theorem cxd2858er_satellite_tuned_witness:
  "\<exists>b ws bg d. cxd2858er_set_params_s (tuner_on (cxd_on 2 0x6c 0x6d True 0) 0x60 24000 True False True 0)
      CXD2858ER_ISDB_S_SYSTEM 1049480 28860 (CXD2858ER_UNSPECIFIED_SYSTEM, demo_ready) = (0, (CXD2858ER_ISDB_S_SYSTEM, b)) \<and>
    i2c_writes 2 (bg :: ((u32 \<Rightarrow> u8) \<times> u8 list) it930x_bridge) = i2c_writes 2 demo_ready @ (0xd8, [0x08, 0x01]) # ws \<and> (0xc0, 0x04 # d) \<in> set ws \<and>
    \<bar>4 * int (freq_value (take 3 (drop 12 d))) - 1049480\<bar> \<le> 2"
proof -
  let ?t = "tuner_on (cxd_on 2 0x6c 0x6d True 0) 0x60 24000 True False True 0 :: ((u32 \<Rightarrow> u8) \<times> u8 list) it930x_bridge cxd2858er_tuner"
  have ops: "fst (tun_ops ?t (params_s_ops ?t 1049480) u) = 0" if "demo_answers u" for u
    unfolding tun_ops_def run_each_def
    by (rule conjunct1 [OF run_all_returns_0 [where Q = demo_answers, OF _ that]])
      (auto simp: params_s_ops_def tuner_on_def freq_regs_def demo_tun_write [unfolded tuner_on_def])
  have "fst (cxd2858er_set_params_s ?t CXD2858ER_ISDB_S_SYSTEM 1049480 28860 (CXD2858ER_UNSPECIFIED_SYSTEM, demo_ready)) = 0"
    using demo_gate [OF demo_answers_ready, of 2 "0x6c" "0x6d" True 0 True] ops
    by (simp add: cxd2858er_set_params_s_def gated_def retune_def stop_if_t_def Let_def case_prod_beta) (simp add: tuner_on_def)
  then obtain y b where b: "cxd2858er_set_params_s ?t CXD2858ER_ISDB_S_SYSTEM 1049480 28860 (CXD2858ER_UNSPECIFIED_SYSTEM, demo_ready)
      = (0, (y, b))"
    by (metis prod.collapse)
  have "unat (1049480 :: u32) = 1049480" "addr_byte (ucast (0x6c :: u8)) = 0xd8" "addr_byte (ucast (0x60 :: u8)) = 0xc0"
    by (simp_all add: addr_byte_def)
  with cxd2858er_satellite_tuned [OF b] obtain ws d and bg :: "((u32 \<Rightarrow> u8) \<times> u8 list) it930x_bridge" where
      "y = CXD2858ER_ISDB_S_SYSTEM" "i2c_writes 2 bg = i2c_writes 2 demo_ready @ (0xd8, [0x08, 0x01]) # ws"
      "(0xc0, 0x04 # d) \<in> set ws" "\<bar>4 * int (freq_value (take 3 (drop 12 d))) - 1049480\<bar> \<le> 2"
    by auto
  then show ?thesis using b by blast
qed

text \<open>The frequency word of the other systems is the frequency in kHz. Only the cable systems refuse one
  that does not fit; for a terrestrial one the upper bits are lost.\<close>

lemma freq_word_fits: "f \<le> 0xfffff \<Longrightarrow> freq_value (freq_regs f) = unat f"
proof -
  assume "f \<le> 0xfffff"
  then have "unat f \<le> unat (0xfffff :: u32)" by (simp only: word_le_nat_alt)
  then show ?thesis by (simp add: freq_value_regs)
qed

lemma terrestrial_freq_wraps: "freq_value (freq_regs (0x100000 + 473143)) = 473143"
  by (simp add: freq_value_regs)

section \<open>Signal quality\<close>

text \<open>The signal quality of a satellite carrier loses its upper byte: the mask that would keep five bits of
  it is applied after the byte was moved out of the mask's reach.\<close>

lemma cnr_isdbs_low_byte: "cnr_isdbs_value tmp = (if tmp ! 0 AND 0x01 \<noteq> 0 then ucast (tmp ! 2) else 0x5af)"
proof -
  have "push_bit 8 x AND mask 5 = 0" for x :: u16
    by (rule bit_word_eqI) (auto simp: bit_simps)
  then have "push_bit 8 x AND 0x1f = 0" for x :: u16 by (simp add: mask_eq_exp_minus_1)
  then show ?thesis by (simp add: cnr_isdbs_value_def)
qed

end
