(* ===== verification/Isdb_Device.thy ===== *)
theory Isdb_Device
  imports Px4_Init
begin

text \<open>
  Model of driver/isdbt2071\_device.c and driver/isdb2056\_device.c, the boards with a single receiver: a
  terrestrial one, and one for both kinds of reception with two demodulators and two tuners. The two
  structures have the same fields but for the model, the second satellite demodulator and the satellite
  tuner; so the record of the second board extends that of the first, and what the two drivers have in
  common, the power, is written once. As in \<open>Px4_Device\<close>, a call of a chip driver takes the bridge, works
  on it and puts it back, and the record \<open>px4_env\<close> is what the code asks of its surroundings.
\<close>

section \<open>Data\<close>

text \<open>\<open>id_current_system\<close> is a field of the receiver's \<^verbatim>\<open>ptx_chrdev\<close>.\<close>

record 'd isdbt2071_device =
  id_kref :: nat
  id_available :: bool
  id_bridge :: "'d it930x_bridge"
  id_tc90522_t :: "'d it930x_bridge tc90522_demod"
  id_tc90522_s :: "'d it930x_bridge tc90522_demod"
  id_r850 :: "'d it930x_bridge r850_tuner"
  id_current_system :: u32
  id_remain_len :: nat

datatype isdb2056_model = ISDB2056_MODEL | ISDB2056N_MODEL | PXM1UR_MODEL | PXS1UR_MODEL

record 'd isdb2056_device = "'d isdbt2071_device" +
  id_model :: isdb2056_model
  id_tc90522_s0 :: "'d it930x_bridge tc90522_demod"
  id_rt710 :: "'d it930x_bridge rt710_tuner"

definition id_on_bridge :: "'d it930x_bridge call \<Rightarrow> ('d, 'z) isdbt2071_device_scheme call" where
  "id_on_bridge f d = (let (ret, b) = f (id_bridge d) in (ret, d\<lparr>id_bridge := b\<rparr>))"

definition id_on_bridge_read ::
    "('d it930x_bridge \<Rightarrow> int \<times> 'a \<times> 'd it930x_bridge) \<Rightarrow> ('d, 'z) isdbt2071_device_scheme \<Rightarrow>
      int \<times> 'a \<times> ('d, 'z) isdbt2071_device_scheme" where
  "id_on_bridge_read f d = (let (ret, v, b) = f (id_bridge d) in (ret, v, d\<lparr>id_bridge := b\<rparr>))"

text \<open>Writes to the terrestrial, the satellite and the second satellite demodulator.\<close>

definition on_t ::
    "('d it930x_bridge tc90522_demod \<Rightarrow> 'd it930x_bridge call) \<Rightarrow> ('d, 'z) isdbt2071_device_scheme call" where
  "on_t f d = id_on_bridge (f (id_tc90522_t d)) d"

definition on_s ::
    "('d it930x_bridge tc90522_demod \<Rightarrow> 'd it930x_bridge call) \<Rightarrow> ('d, 'z) isdbt2071_device_scheme call" where
  "on_s f d = id_on_bridge (f (id_tc90522_s d)) d"

definition on_s0 ::
    "('d it930x_bridge tc90522_demod \<Rightarrow> 'd it930x_bridge call) \<Rightarrow> ('d, 'z) isdb2056_device_scheme call" where
  "on_s0 f d = id_on_bridge (f (id_tc90522_s0 d)) d"

definition id_on_r850 :: "'d it930x_bridge r850_tuner call \<Rightarrow> ('d, 'z) isdbt2071_device_scheme call" where
  "id_on_r850 f d =
     (let (ret, t) = f ((id_r850 d)\<lparr>r8_s := id_bridge d\<rparr>) in (ret, d\<lparr>id_r850 := t, id_bridge := r8_s t\<rparr>))"

definition id_on_rt710 :: "'d it930x_bridge rt710_tuner call \<Rightarrow> ('d, 'z) isdb2056_device_scheme call" where
  "id_on_rt710 f d =
     (let (ret, t) = f ((id_rt710 d)\<lparr>rt_s := id_bridge d\<rparr>) in (ret, d\<lparr>id_rt710 := t, id_bridge := rt_s t\<rparr>))"

text \<open>The tuner's answer about its synthesizer, as a function of the device.\<close>

definition r850_locked ::
    "bool \<Rightarrow> ('d, 'z) isdbt2071_device_scheme \<Rightarrow> int \<times> bool \<times> ('d, 'z) isdbt2071_device_scheme" where
  "r850_locked l d =
     (let (ret, l1, t) = r850_is_pll_locked l ((id_r850 d)\<lparr>r8_s := id_bridge d\<rparr>)
      in (ret, l1, d\<lparr>id_r850 := t, id_bridge := r8_s t\<rparr>))"

definition rt710_locked ::
    "bool \<Rightarrow> ('d, 'z) isdb2056_device_scheme \<Rightarrow> int \<times> bool \<times> ('d, 'z) isdb2056_device_scheme" where
  "rt710_locked l d =
     (let (ret, l1, t) = rt710_is_pll_locked l ((id_rt710 d)\<lparr>rt_s := id_bridge d\<rparr>)
      in (ret, l1, d\<lparr>id_rt710 := t, id_bridge := rt_s t\<rparr>))"

definition id_wait_pll :: "(bool \<Rightarrow> 'x \<Rightarrow> int \<times> bool \<times> 'x) \<Rightarrow> 'x call" where
  "id_wait_pll f d =
     (let (ret, locked, d1) = pll_loop 50 f 0 False d in
      (if ret \<noteq> 0 then ret else if \<not> locked then - EAGAIN else 0, d1))"

section \<open>Power\<close>

text \<open>The same function in both drivers.\<close>

definition isdb_backend_set_power :: "bool \<Rightarrow> ('d, 'z) isdbt2071_device_scheme call" where
  "isdb_backend_set_power st d =
     (if \<not> st \<and> \<not> id_available d then (0, d)
      else if st then id_on_bridge (run_all [it930x_write_gpio 3 False, it930x_write_gpio 2 True]) d
      else (0, snd (id_on_bridge (it930x_write_gpio 3 True) (snd (id_on_bridge (it930x_write_gpio 2 False) d)))))"

section \<open>ISDBT2071\<close>

text \<open>\<^verbatim>\<open>tc90522_init\<close> and \<^verbatim>\<open>tc90522_term\<close> only fill in and clear the master of the tuner, and return 0.\<close>

definition isdbt2071_backend_init :: "('d, 'z) isdbt2071_device_scheme call" where
  "isdbt2071_backend_init = id_on_r850 r850_init"

definition isdbt2071_backend_term :: "('d, 'z) isdbt2071_device_scheme call" where
  "isdbt2071_backend_term d = (0, snd (id_on_r850 r850_term d))"

definition isdbt2071_chrdev_init :: "'w ptx_chrdev \<Rightarrow> int \<times> 'w ptx_chrdev" where
  "isdbt2071_chrdev_init c = (0, c\<lparr>params := (params c)\<lparr>tp_system := PTX_ISDB_T_SYSTEM\<rparr>\<rparr>)"

definition tc_init_isdbt2071t :: "tc90522_regbuf list" where
  "tc_init_isdbt2071t = [Val 0x04 0x00, Val 0x10 0x00, Val 0x11 0x2d, Val 0x12 0x02, Val 0x13 0x62, Val 0x14 0x60,
     Val 0x15 0x00, Val 0x16 0x00, Val 0x1d 0x05, Val 0x1e 0x15, Val 0x1f 0x40, Val 0x30 0x20, Val 0x31 0x0b,
     Val 0x32 0x8f, Val 0x34 0x0f, Val 0x38 0x01, Val 0x39 0x1c]"

text \<open>The labels that undo are the same in the two drivers; \<open>term\<close> is the driver's \<^verbatim>\<open>backend_term\<close>.\<close>

definition isdb_open ::
    "('d, 'z) isdbt2071_device_scheme call \<Rightarrow> ('d, 'z) isdbt2071_device_scheme call \<Rightarrow>
      ('d, 'z) isdbt2071_device_scheme call list \<Rightarrow> ('d, 'z) isdbt2071_device_scheme call" where
  "isdb_open init trm steps d =
     (let (ret, d1) = isdb_backend_set_power True d in
      if ret \<noteq> 0 then (ret, d1)
      else
        let (ret, d2) = init d1 in
        if ret \<noteq> 0 then (ret, snd (isdb_backend_set_power False d2))
        else
          let (ret, d3) = run_all steps d2 in
          if ret \<noteq> 0 then (ret, snd (isdb_backend_set_power False (snd (trm d3))))
          else (0, d3\<lparr>id_kref := id_kref d3 + 1\<rparr>))"

definition isdbt2071_chrdev_open :: "('d, 'z) isdbt2071_device_scheme call" where
  "isdbt2071_chrdev_open = isdb_open isdbt2071_backend_init isdbt2071_backend_term
     [on_t (\<lambda>dm. tc90522_write_multiple_regs dm tc_init_isdbt2071t), on_t (\<lambda>dm. tc90522_enable_ts_pins_t dm False),
      on_t (\<lambda>dm. tc90522_sleep_t dm False), id_on_r850 r850_wakeup, id_on_r850 (r850_set_system isdbt_6m)]"

text \<open>The last reference frees the device, which only matters to memory.\<close>

definition isdb_release :: "('d, 'z) isdbt2071_device_scheme call \<Rightarrow> ('d, 'z) isdbt2071_device_scheme call" where
  "isdb_release trm d =
     (let d1 = snd (isdb_backend_set_power False (snd (trm d))) in (0, d1\<lparr>id_kref := id_kref d1 - 1\<rparr>))"

definition isdbt2071_chrdev_release :: "('d, 'z) isdbt2071_device_scheme call" where
  "isdbt2071_chrdev_release = isdb_release isdbt2071_backend_term"

definition isdbt2071_chrdev_tune :: "ptx_tune_params \<Rightarrow> ('d, 'z) isdbt2071_device_scheme call" where
  "isdbt2071_chrdev_tune prm d =
     (if tp_system prm \<noteq> PTX_ISDB_T_SYSTEM then (- EINVAL, d)
      else run_all
        [on_t (\<lambda>dm. tc90522_write_reg dm 0x47 0x30),
         on_t (\<lambda>dm. tc90522_set_agc_t dm False),
         on_t (\<lambda>dm. tc90522_write_reg dm 0x76 0x03),
         on_t (\<lambda>dm. tc90522_write_reg dm 0x77 0x01),
         on_t (\<lambda>dm. tc90522_write_reg dm 0x3b 0x10),
         on_t (\<lambda>dm. tc90522_write_reg dm 0x3c 0x10),
         on_t (\<lambda>dm. tc90522_write_reg dm 0x3d 0x24),
         id_on_r850 (r850_set_frequency (unat (tp_freq prm))),
         id_wait_pll r850_locked,
         on_t (\<lambda>dm. tc90522_set_agc_t dm True)] d)"

definition isdbt2071_chrdev_check_lock ::
    "bool \<Rightarrow> ('d, 'z) isdbt2071_device_scheme \<Rightarrow> int \<times> bool \<times> ('d, 'z) isdbt2071_device_scheme" where
  "isdbt2071_chrdev_check_lock locked d =
     (if id_current_system d = PTX_ISDB_T_SYSTEM then id_on_bridge_read (tc90522_is_signal_locked_t (id_tc90522_t d)) d
      else (- EINVAL, locked, d))"

text \<open>The label \<^verbatim>\<open>fail_tc\<close> replaces the error by \<^verbatim>\<open>-EINVAL\<close> when no system is set.\<close>

definition isdbt2071_chrdev_start_capture :: "'d px4_env \<Rightarrow> ('d, 'z) isdbt2071_device_scheme call" where
  "isdbt2071_chrdev_start_capture env d =
     (let (ret, d1) = id_on_bridge (it930x_purge_psb (pe_kmalloc env) (pe_psb_purge_timeout env)) d in
      if ret \<noteq> 0 then (ret, d1)
      else if id_current_system d \<noteq> PTX_ISDB_T_SYSTEM then (- EINVAL, d1)
      else
        let (ret, d2) = on_t (\<lambda>dm. tc90522_enable_ts_pins_t dm True) d1;
            (ret, d3) = (if ret \<noteq> 0 then (ret, d2)
                         else id_on_bridge (pe_start_streaming env) (d2\<lparr>id_remain_len := 0\<rparr>)) in
        if ret \<noteq> 0 then (ret, snd (on_t (\<lambda>dm. tc90522_enable_ts_pins_t dm False) d3)) else (0, d3))"

definition isdbt2071_chrdev_stop_capture :: "'d px4_env \<Rightarrow> ('d, 'z) isdbt2071_device_scheme call" where
  "isdbt2071_chrdev_stop_capture env d =
     (let d1 = snd (id_on_bridge (pe_stop_streaming env) d) in
      (0, if id_available d1 \<and> id_current_system d1 = PTX_ISDB_T_SYSTEM
          then snd (on_t (\<lambda>dm. tc90522_enable_ts_pins_t dm False) d1) else d1))"

definition isdbt2071_chrdev_set_capture :: "'d px4_env \<Rightarrow> bool \<Rightarrow> ('d, 'z) isdbt2071_device_scheme call" where
  "isdbt2071_chrdev_set_capture env status =
     (if status then isdbt2071_chrdev_start_capture env else isdbt2071_chrdev_stop_capture env)"

definition isdbt2071_chrdev_read_cnr_raw ::
    "u32 \<Rightarrow> ('d, 'z) isdbt2071_device_scheme \<Rightarrow> int \<times> u32 \<times> ('d, 'z) isdbt2071_device_scheme" where
  "isdbt2071_chrdev_read_cnr_raw v d =
     (if id_current_system d = PTX_ISDB_T_SYSTEM then id_on_bridge_read (tc90522_get_cndat_t (id_tc90522_t d) v) d
      else (- EINVAL, v, d))"

definition isdbt2071_chrdev_ops :: "'d px4_env \<Rightarrow> 'd isdbt2071_device ptx_ops" where
  "isdbt2071_chrdev_ops env =
     \<lparr> op_init = Some (\<lambda>d. (0, d)), op_term = Some (\<lambda>d. (0, d)), op_open = Some isdbt2071_chrdev_open,
       op_release = Some isdbt2071_chrdev_release, op_tune = Some (\<lambda>d prm. isdbt2071_chrdev_tune prm d),
       op_check_lock = Some (\<lambda>d l. isdbt2071_chrdev_check_lock l d), op_read_tmcc_partial_reception = None,
       op_read_tmcc_tsid_list = None, op_set_stream_id = None, op_set_lnb_voltage = None,
       op_set_capture = Some (\<lambda>d st. isdbt2071_chrdev_set_capture env st d),
       op_read_cnr_raw = Some (\<lambda>d v. isdbt2071_chrdev_read_cnr_raw v d) \<rparr>"

subsection \<open>Initialisation\<close>

text \<open>The master of bus 3 is \<^verbatim>\<open>it930x->i2c_master[2]\<close>.\<close>

definition id_demod :: "u8 \<Rightarrow> bool \<Rightarrow> 'd it930x_bridge tc90522_demod \<Rightarrow> 'd it930x_bridge tc90522_demod" where
  "id_demod addr secondary dm = dm\<lparr> dm_i2c := \<lparr> i2c_gate_ctrl = None, i2c_request = Some (it930x_i2c_master_request 3) \<rparr>,
     dm_addr := addr, dm_secondary := secondary \<rparr>"

definition id_r850_config :: r850_config where
  "id_r850_config = \<lparr> r8_xtal = 24000, r8_loop_through = False, r8_clock_out = False, r8_no_imr_calibration = True,
     r8_no_lpf_calibration = True \<rparr>"

definition isdbt2071_input :: it930x_stream_input where
  "isdbt2071_input = \<lparr> si_enable = True, si_is_parallel = False, si_port_number = 4, si_slave_number = 0,
     si_i2c_bus = 3, si_i2c_addr = 0x18, si_packet_len = 188, si_sync_byte = 0x47 \<rparr>"

definition id_set_inputs :: "it930x_stream_input \<Rightarrow> (nat \<Rightarrow> nat) \<Rightarrow> 'd it930x_bridge \<Rightarrow> 'd it930x_bridge" where
  "id_set_inputs inp port b =
     (let cfg = it_config b; ins = config_input cfg in
      b\<lparr>it_config := cfg\<lparr>config_input := inp #
         map (\<lambda>i. (ins ! i)\<lparr>si_enable := False, si_port_number := of_nat (port i)\<rparr>) [1..<5] @ drop 5 ins\<rparr>\<rparr>)"

text \<open>As on the PX4 boards, an EEPROM that reads 0 ends the function with 0 and nothing set.\<close>

definition isdbt2071_device_load_config ::
    "bool \<Rightarrow> u8 \<Rightarrow> ('d, 'z) isdbt2071_device_scheme \<Rightarrow> int \<times> bool \<times> ('d, 'z) isdbt2071_device_scheme" where
  "isdbt2071_device_load_config mem j d =
     (let (ret, tmp, d1) = id_on_bridge_read (it930x_read_reg 0x4979 j) d in
      if ret \<noteq> 0 then (ret, False, d1)
      else if tmp = 0 then (0, False, d1)
      else
        let dt = id_demod 0x18 False (id_tc90522_t d1) in
        (0, True, d1\<lparr> id_bridge := id_set_inputs isdbt2071_input (\<lambda>i. i - 1) (id_bridge d1), id_tc90522_t := dt,
           id_tc90522_s := id_demod 0x11 False (id_tc90522_s d1),
           id_r850 := (id_r850 d1)\<lparr> r8_i2c := tc90522_master mem dt, r8_addr := 0x7c, r8_config := id_r850_config \<rparr> \<rparr>))"

text \<open>The steps up to the registration of the receiver, which the two drivers share.\<close>

definition isdb_pins :: "'d it930x_bridge call" where
  "isdb_pins = run_all
     [it930x_set_gpio_mode 3 IT930X_GPIO_OUT True, it930x_write_gpio 3 True,
      it930x_set_gpio_mode 2 IT930X_GPIO_OUT True, it930x_write_gpio 2 False]"

definition isdb_bring_up ::
    "px4_init_env \<Rightarrow> (('d, 'z) isdbt2071_device_scheme \<Rightarrow> int \<times> bool \<times> ('d, 'z) isdbt2071_device_scheme) \<Rightarrow>
      ('d, 'z) isdbt2071_device_scheme \<Rightarrow> (int \<times> ('d, 'z) isdbt2071_device_scheme) option" where
  "isdb_bring_up env load_config d0 =
     (if \<not> ie_mem env then Some (- ENOMEM, d0)
      else if ie_bus_init env \<noteq> 0 then Some (ie_bus_init env, d0)
      else
        let (ret, d1) = id_on_bridge (run_all [it930x_init (ie_mem env) (ie_mem env), it930x_raise]) d0 in
        if ret \<noteq> 0 then Some (ret, d1)
        else
          let (ret, _, d2) = load_config d1 in
          if ret \<noteq> 0 then Some (ret, d2)
          else case it930x_load_firmware (ie_fuel env) (ie_firmware env) (id_bridge d2) of
                 None \<Rightarrow> None
               | Some (ret, b) \<Rightarrow>
                   let d3 = d2\<lparr>id_bridge := b\<rparr> in
                   if ret \<noteq> 0 then Some (ret, d3)
                   else Some (id_on_bridge (run_all ([it930x_init_warm, isdb_pins] @
                     (if ie_discard_null_packets env then [it930x_set_pid_filter 0 (Some null_filter)] else []))) d3))"

definition isdbt2071_device_bring_up ::
    "px4_init_env \<Rightarrow> ('d, 'z) isdbt2071_device_scheme \<Rightarrow> (int \<times> ('d, 'z) isdbt2071_device_scheme) option" where
  "isdbt2071_device_bring_up env d =
     isdb_bring_up env (isdbt2071_device_load_config (ie_mem env) (ie_junk env)) (d\<lparr>id_kref := 1\<rparr>)"

text \<open>\<^verbatim>\<open>isdbt2071_device_term\<close> without the card reader and the group of receivers, which it unregisters in between;
  \<^verbatim>\<open>isdb2056_device_term\<close> is the same.\<close>

definition isdb_device_term :: "('d, 'z) isdbt2071_device_scheme \<Rightarrow> ('d, 'z) isdbt2071_device_scheme" where
  "isdb_device_term d = d\<lparr>id_available := False, id_kref := id_kref d - 1\<rparr>"

section \<open>ISDB2056\<close>

definition isdb2056_backend_init :: "('d, 'z) isdb2056_device_scheme call" where
  "isdb2056_backend_init d = run_all
     (id_on_r850 r850_init # (if id_model d \<noteq> PXS1UR_MODEL then [id_on_rt710 rt710_init] else [])) d"

definition isdb2056_backend_term :: "('d, 'z) isdb2056_device_scheme call" where
  "isdb2056_backend_term d = (0, snd (id_on_rt710 rt710_term (snd (id_on_r850 r850_term d))))"

definition isdb2056_chrdev_init :: "isdb2056_model \<Rightarrow> 'w ptx_chrdev \<Rightarrow> int \<times> 'w ptx_chrdev" where
  "isdb2056_chrdev_init model c = (0, c\<lparr>params := (params c)\<lparr>tp_system :=
     (if model = PXS1UR_MODEL then PTX_ISDB_T_SYSTEM else PTX_UNSPECIFIED_SYSTEM)\<rparr>\<rparr>)"

definition isdb2056_tc_init_t :: "tc90522_regbuf list" where
  "isdb2056_tc_init_t = [Val 0xb0 0xa0, Val 0xb2 0x3d, Val 0xb3 0x25, Val 0xb4 0x8b, Val 0xb5 0x4b, Val 0xb6 0x3f,
     Val 0xb7 0xff, Val 0xb8 0xc0]"

definition isdb2056_tc_init_s :: "tc90522_regbuf list" where
  "isdb2056_tc_init_s = [Val 0x15 0x00, Val 0x1d 0x00]"

definition isdb2056_chrdev_open :: "('d, 'z) isdb2056_device_scheme call" where
  "isdb2056_chrdev_open = isdb_open isdb2056_backend_init isdb2056_backend_term
     [on_t (\<lambda>dm. tc90522_write_multiple_regs dm isdb2056_tc_init_t), on_t (\<lambda>dm. tc90522_enable_ts_pins_t dm False),
      on_t (\<lambda>dm. tc90522_sleep_t dm True), id_on_r850 (r850_set_system isdbt_6m),
      on_s (\<lambda>dm. tc90522_write_multiple_regs dm isdb2056_tc_init_s), on_s (\<lambda>dm. tc90522_enable_ts_pins_s dm False),
      on_s (\<lambda>dm. tc90522_sleep_s dm True)]"

definition isdb2056_chrdev_release :: "('d, 'z) isdb2056_device_scheme call" where
  "isdb2056_chrdev_release = isdb_release isdb2056_backend_term"

definition tune_2056_t :: "nat \<Rightarrow> ('d, 'z) isdb2056_device_scheme call list" where
  "tune_2056_t freq =
     [on_t (\<lambda>dm. tc90522_write_reg dm 0x47 0x30),
      on_t (\<lambda>dm. tc90522_set_agc_t dm False),
      on_s (\<lambda>dm. tc90522_sleep_s dm True),
      on_t (\<lambda>dm. tc90522_write_reg dm 0x0e 0x77),
      on_t (\<lambda>dm. tc90522_write_reg dm 0x0f 0x10),
      on_t (\<lambda>dm. tc90522_write_reg dm 0x71 0x20),
      on_t (\<lambda>dm. tc90522_sleep_t dm False),
      on_t (\<lambda>dm. tc90522_write_reg dm 0x76 0x0c),
      on_t (\<lambda>dm. tc90522_write_reg dm 0x1f 0x30),
      id_on_r850 r850_wakeup,
      id_on_r850 (r850_set_frequency freq),
      id_wait_pll r850_locked,
      on_t (\<lambda>dm. tc90522_set_agc_t dm True),
      on_t (\<lambda>dm. tc90522_write_reg dm 0x71 0x01),
      on_t (\<lambda>dm. tc90522_write_reg dm 0x72 0x25),
      on_t (\<lambda>dm. tc90522_write_reg dm 0x75 0x00)]"

text \<open>The two registers of the satellite demodulator that depend on the model.\<close>

definition s_model_reg :: "u8 \<Rightarrow> u8 \<Rightarrow> u8 \<Rightarrow> ('d, 'z) isdb2056_device_scheme call" where
  "s_model_reg reg v vn d =
     (case id_model d of
        ISDB2056_MODEL \<Rightarrow> on_s (\<lambda>dm. tc90522_write_reg dm reg v) d
      | PXM1UR_MODEL \<Rightarrow> on_s (\<lambda>dm. tc90522_write_reg dm reg v) d
      | ISDB2056N_MODEL \<Rightarrow> on_s0 (\<lambda>dm. tc90522_write_reg dm reg vn) d
      | PXS1UR_MODEL \<Rightarrow> (- EINVAL, d))"

definition log_strength :: "('d, 'z) isdb2056_device_scheme call" where
  "log_strength d =
     (let (_, _, t) = rt710_get_rf_signal_strength 0 ((id_rt710 d)\<lparr>rt_s := id_bridge d\<rparr>)
      in (0, d\<lparr>id_rt710 := t, id_bridge := rt_s t\<rparr>))"

definition tune_2056_s :: "nat \<Rightarrow> ('d, 'z) isdb2056_device_scheme call list" where
  "tune_2056_s freq =
     [on_s (\<lambda>dm. tc90522_set_agc_s dm False),
      on_t (\<lambda>dm. tc90522_write_reg dm 0x0e 0x11),
      on_t (\<lambda>dm. tc90522_write_reg dm 0x0f 0x70),
      on_t (\<lambda>dm. tc90522_sleep_t dm True),
      s_model_reg 0x07 0x77 0x77,
      s_model_reg 0x08 0x10 0x37,
      on_s (\<lambda>dm. tc90522_sleep_s dm False),
      on_s (\<lambda>dm. tc90522_write_reg dm 0x04 0x02),
      on_s (\<lambda>dm. tc90522_write_reg dm 0x8e 0x02),
      on_t (\<lambda>dm. tc90522_write_reg dm 0x1f 0x20),
      id_on_rt710 (rt710_set_params freq 28860 4),
      id_wait_pll rt710_locked,
      log_strength,
      on_s (\<lambda>dm. tc90522_set_agc_s dm True)]"

definition isdb2056_chrdev_tune :: "ptx_tune_params \<Rightarrow> ('d, 'z) isdb2056_device_scheme call" where
  "isdb2056_chrdev_tune prm d =
     (if tp_system prm = PTX_ISDB_T_SYSTEM then run_all (tune_2056_t (unat (tp_freq prm))) d
      else if tp_system prm = PTX_ISDB_S_SYSTEM then run_all (tune_2056_s (unat (tp_freq prm))) d
      else (- EINVAL, d))"

definition isdb2056_chrdev_check_lock ::
    "bool \<Rightarrow> ('d, 'z) isdb2056_device_scheme \<Rightarrow> int \<times> bool \<times> ('d, 'z) isdb2056_device_scheme" where
  "isdb2056_chrdev_check_lock locked d =
     (if id_current_system d = PTX_ISDB_T_SYSTEM then id_on_bridge_read (tc90522_is_signal_locked_t (id_tc90522_t d)) d
      else if id_current_system d = PTX_ISDB_S_SYSTEM then id_on_bridge_read (tc90522_is_signal_locked_s (id_tc90522_s d)) d
      else (- EINVAL, locked, d))"

text \<open>The body is that of \<^verbatim>\<open>px4_chrdev_set_stream_id_s\<close>, word for word.\<close>

definition isdb2056_chrdev_set_stream_id :: "'d px4_env \<Rightarrow> u16 \<Rightarrow> ('d, 'z) isdb2056_device_scheme call" where
  "isdb2056_chrdev_set_stream_id env stream_id d =
     (if id_current_system d \<noteq> PTX_ISDB_S_SYSTEM then (- EINVAL, d) else on_s (set_stream_id env stream_id) d)"

definition ts_pins_2056 :: "bool \<Rightarrow> ('d, 'z) isdb2056_device_scheme call" where
  "ts_pins_2056 e d =
     (if id_current_system d = PTX_ISDB_T_SYSTEM then on_t (\<lambda>dm. tc90522_enable_ts_pins_t dm e) d
      else if id_current_system d = PTX_ISDB_S_SYSTEM then on_s (\<lambda>dm. tc90522_enable_ts_pins_s dm e) d
      else (0, d))"

definition isdb2056_chrdev_start_capture :: "'d px4_env \<Rightarrow> ('d, 'z) isdb2056_device_scheme call" where
  "isdb2056_chrdev_start_capture env d =
     (let (ret, d1) = id_on_bridge (it930x_purge_psb (pe_kmalloc env) (pe_psb_purge_timeout env)) d in
      if ret \<noteq> 0 then (ret, d1)
      else
        let (ret, d2) =
              (if id_current_system d1 \<noteq> PTX_ISDB_T_SYSTEM \<and> id_current_system d1 \<noteq> PTX_ISDB_S_SYSTEM \<and>
                  id_model d1 = PXS1UR_MODEL then (- EINVAL, d1) else ts_pins_2056 True d1);
            (ret, d3) = (if ret \<noteq> 0 then (ret, d2)
                         else id_on_bridge (pe_start_streaming env) (d2\<lparr>id_remain_len := 0\<rparr>)) in
        if ret \<noteq> 0 then (ret, snd (ts_pins_2056 False d3)) else (0, d3))"

definition isdb2056_chrdev_stop_capture :: "'d px4_env \<Rightarrow> ('d, 'z) isdb2056_device_scheme call" where
  "isdb2056_chrdev_stop_capture env d =
     (let d1 = snd (id_on_bridge (pe_stop_streaming env) d) in
      (0, if id_available d1 then snd (ts_pins_2056 False d1) else d1))"

definition isdb2056_chrdev_set_capture :: "'d px4_env \<Rightarrow> bool \<Rightarrow> ('d, 'z) isdb2056_device_scheme call" where
  "isdb2056_chrdev_set_capture env status =
     (if status then isdb2056_chrdev_start_capture env else isdb2056_chrdev_stop_capture env)"

text \<open>As on the PX4 boards, 16 bits are stored through a pointer to the 32 bit value.\<close>

definition isdb2056_chrdev_read_cnr_raw ::
    "u32 \<Rightarrow> ('d, 'z) isdb2056_device_scheme \<Rightarrow> int \<times> u32 \<times> ('d, 'z) isdb2056_device_scheme" where
  "isdb2056_chrdev_read_cnr_raw v d =
     (if id_current_system d = PTX_ISDB_T_SYSTEM then id_on_bridge_read (tc90522_get_cndat_t (id_tc90522_t d) v) d
      else if id_current_system d = PTX_ISDB_S_SYSTEM then
        let (ret, cn, d1) = id_on_bridge_read (tc90522_get_cn_s (id_tc90522_s d) (ucast v)) d
        in (ret, (v AND 0xffff0000) OR ucast cn, d1)
      else (- EINVAL, v, d))"

definition isdb2056_chrdev_ops :: "'d px4_env \<Rightarrow> 'd isdb2056_device ptx_ops" where
  "isdb2056_chrdev_ops env =
     \<lparr> op_init = Some (\<lambda>d. (0, d)), op_term = Some (\<lambda>d. (0, d)), op_open = Some isdb2056_chrdev_open,
       op_release = Some isdb2056_chrdev_release, op_tune = Some (\<lambda>d prm. isdb2056_chrdev_tune prm d),
       op_check_lock = Some (\<lambda>d l. isdb2056_chrdev_check_lock l d), op_read_tmcc_partial_reception = None,
       op_read_tmcc_tsid_list = None, op_set_stream_id = Some (\<lambda>d sid. isdb2056_chrdev_set_stream_id env sid d),
       op_set_lnb_voltage = None, op_set_capture = Some (\<lambda>d st. isdb2056_chrdev_set_capture env st d),
       op_read_cnr_raw = Some (\<lambda>d v. isdb2056_chrdev_read_cnr_raw v d) \<rparr>"

definition pxs1ur_chrdev_ops :: "'d px4_env \<Rightarrow> 'd isdb2056_device ptx_ops" where
  "pxs1ur_chrdev_ops env = (isdb2056_chrdev_ops env)\<lparr>op_set_stream_id := None\<rparr>"

subsection \<open>Initialisation\<close>

definition isdb2056_input :: it930x_stream_input where
  "isdb2056_input = \<lparr> si_enable = True, si_is_parallel = False, si_port_number = 0, si_slave_number = 0,
     si_i2c_bus = 3, si_i2c_addr = 0x10, si_packet_len = 188, si_sync_byte = 0x47 \<rparr>"

definition isdb2056_device_load_config ::
    "bool \<Rightarrow> u8 \<Rightarrow> ('d, 'z) isdb2056_device_scheme \<Rightarrow> int \<times> bool \<times> ('d, 'z) isdb2056_device_scheme" where
  "isdb2056_device_load_config mem j d =
     (let (ret, tmp, d1) = id_on_bridge_read (it930x_read_reg 0x4979 j) d in
      if ret \<noteq> 0 then (ret, False, d1)
      else if tmp = 0 then (0, False, d1)
      else
        let dt = id_demod 0x10 False (id_tc90522_t d1);
            n = (id_model d1 = ISDB2056N_MODEL);
            ds = id_demod (if n then 0x13 else 0x11) n (id_tc90522_s d1) in
        (0, True, d1\<lparr> id_bridge := id_set_inputs isdb2056_input (\<lambda>i. i) (id_bridge d1), id_tc90522_t := dt,
           id_tc90522_s0 := id_demod 0x11 False (id_tc90522_s0 d1), id_tc90522_s := ds,
           id_r850 := (id_r850 d1)\<lparr> r8_i2c := tc90522_master mem dt, r8_addr := 0x7c, r8_config := id_r850_config \<rparr>,
           id_rt710 := (id_rt710 d1)\<lparr> rt_i2c := tc90522_master mem ds, rt_addr := 0x7a, rt_config := px4_rt710_config \<rparr> \<rparr>))"

definition isdb2056_device_bring_up ::
    "px4_init_env \<Rightarrow> isdb2056_model \<Rightarrow> ('d, 'z) isdb2056_device_scheme \<Rightarrow> (int \<times> ('d, 'z) isdb2056_device_scheme) option" where
  "isdb2056_device_bring_up env model d =
     isdb_bring_up env (isdb2056_device_load_config (ie_mem env) (ie_junk env)) (d\<lparr>id_kref := 1, id_model := model\<rparr>)"

end
