(* ===== verification/Isdb_Props.thy ===== *)
theory Isdb_Props
  imports Isdb_Device Px4_Device_Props
begin

text \<open>
  The power of the boards with a single receiver. The receiver is used through its operation table, so the life of a
  board is a relation \<open>receiver_step\<close> over any such table; the locale \<open>receiver_power\<close> states what the
  operations owe to it, and the tables of the two drivers are its interpretations. What a call of a
  chip driver changes is nothing but the chip's record (locale \<open>chip_wiring\<close>).
\<close>

section \<open>The supply of the board\<close>

definition board_pins :: "'d it930x_bridge \<Rightarrow> u8 option \<times> u8 option" where
  "board_pins b = (gview b ! 1, gview b ! 2)"

definition board_powered :: "'d it930x_bridge \<Rightarrow> bool" where
  "board_powered b \<longleftrightarrow> last_write (gpio_o_regs ! 1) (clog b) = Some 1 \<and> last_write (gpio_o_regs ! 2) (clog b) = Some 0"

lemma board_powered_pins: "board_powered b \<longleftrightarrow> board_pins b = (Some 1, Some 0)"
  by (simp add: board_powered_def board_pins_def gview_def gpio_regs_len)

lemma gview_board: "gview b' = gview b \<Longrightarrow> board_pins b' = board_pins b"
  by (simp add: board_pins_def)

lemma write_gpio_board:
  assumes "it930x_write_gpio g high b = (ret, b')" "0 < g" "g \<le> 16"
  shows "board_pins b' = (if ret = 0 \<and> g = 2 then Some (if high then 1 else 0) else fst (board_pins b),
      if ret = 0 \<and> g = 3 then Some (if high then 1 else 0) else snd (board_pins b))"
proof -
  have "gpio_pin g = Some (nat (g - 1))" using assms by (simp add: gpio_pin_def)
  note v = write_gpio_view [OF assms(1) this]
  have "(1 = nat (g - 1)) = (g = 2)" "(2 = nat (g - 1)) = (g = 3)" using assms(2) by auto
  then show ?thesis using v [of 1] v [of 2] by (simp add: board_pins_def)
qed

section \<open>Calls of the chips\<close>

text \<open>\<open>wiring\<close> says how the chips of a board are wired up.\<close>

locale chip_wiring =
  fixes wiring :: "('d, 'z) isdbt2071_device_scheme \<Rightarrow> bool"
  assumes on_bus_3: "wiring d \<Longrightarrow> dm_i2c (id_tc90522_t d) = i2c_bus 3 \<and> dm_i2c (id_tc90522_s d) = i2c_bus 3"
    and tuner_there: "wiring d \<Longrightarrow> \<exists>mem. r8_i2c (id_r850 d) = tc90522_master mem (id_tc90522_t d) \<and> length (r8_regs (id_r850 d)) = 0x30"
    and bridge_free: "wiring (d\<lparr>id_bridge := b\<rparr>) = wiring d"
    and tuner_kept: "wiring d \<Longrightarrow> r8_i2c t = r8_i2c (id_r850 d) \<Longrightarrow> length (r8_regs t) = 0x30 \<Longrightarrow> wiring (d\<lparr>id_r850 := t\<rparr>)"
    and rest_free: "wiring (d\<lparr>id_kref := n\<rparr>) = wiring d" "wiring (d\<lparr>id_available := a\<rparr>) = wiring d"
      "wiring (d\<lparr>id_current_system := y\<rparr>) = wiring d" "wiring (d\<lparr>id_remain_len := l\<rparr>) = wiring d"
begin

definition still :: "('d, 'z) isdbt2071_device_scheme \<Rightarrow> ('d, 'z) isdbt2071_device_scheme \<Rightarrow> bool" where
  "still d d' \<longleftrightarrow> (wiring d \<longrightarrow> wiring d' \<and> id_kref d' = id_kref d \<and> board_pins (id_bridge d') = board_pins (id_bridge d))"

lemma still_refl [simp]: "still d d"
  by (simp add: still_def)

lemma still_trans: "still a b \<Longrightarrow> still b c \<Longrightarrow> still a c"
  by (simp add: still_def)

lemma still_run: "(\<And>f u. f \<in> set fs \<Longrightarrow> still u (snd (f u))) \<Longrightarrow> still d (snd (run_all fs d))"
  by (rule run_all_inv [where P = "still d"]) (auto intro: still_trans)

lemma still_bridge: "(wiring d \<Longrightarrow> board_pins b = board_pins (id_bridge d)) \<Longrightarrow> still d (d\<lparr>id_bridge := b\<rparr>)"
  by (simp add: still_def bridge_free)

lemma still_on_bridge: "(\<And>b. gview (snd (f b)) = gview b) \<Longrightarrow> still d (snd (id_on_bridge f d))"
  by (auto simp: id_on_bridge_def case_prod_beta intro!: still_bridge gview_board)

lemma still_demod:
  assumes "demod_keeps (\<lambda>dm b. snd (f dm b))"
  shows "still d (snd (on_t f d))" "still d (snd (on_s f d))"
proof -
  have "gview (snd (f dm b)) = gview b" if "dm_i2c dm = i2c_bus 3" for dm b
    using assms demod_bus [OF that, of "gview b"] unfolding demod_keeps_def by blast
  then show "still d (snd (on_t f d))" "still d (snd (on_s f d))"
    using on_bus_3 [of d] by (auto simp: on_t_def on_s_def id_on_bridge_def case_prod_beta intro!: still_bridge gview_board)
qed

lemma still_demod_read:
  assumes "demod_keeps (\<lambda>dm b. snd (snd (f dm b)))"
  shows "still d (snd (snd (id_on_bridge_read (f (id_tc90522_t d)) d)))" "still d (snd (snd (id_on_bridge_read (f (id_tc90522_s d)) d)))"
proof -
  have "gview (snd (snd (f dm b))) = gview b" if "dm_i2c dm = i2c_bus 3" for dm b
    using assms demod_bus [OF that, of "gview b"] unfolding demod_keeps_def by blast
  then show "still d (snd (snd (id_on_bridge_read (f (id_tc90522_t d)) d)))" "still d (snd (snd (id_on_bridge_read (f (id_tc90522_s d)) d)))"
    using on_bus_3 [of d] by (auto simp: id_on_bridge_read_def case_prod_beta intro!: still_bridge gview_board)
qed

lemma still_put_r850:
  assumes "r850_keeps_bus v f"
  shows "still d (d\<lparr>id_r850 := f ((id_r850 d)\<lparr>r8_s := id_bridge d\<rparr>), id_bridge := r8_s (f ((id_r850 d)\<lparr>r8_s := id_bridge d\<rparr>))\<rparr>)"
proof (cases "wiring d")
  case True
  obtain mem where m: "r8_i2c (id_r850 d) = tc90522_master mem (id_tc90522_t d)" "length (r8_regs (id_r850 d)) = 0x30"
    using tuner_there [OF True] by blast
  let ?i2c = "tc90522_master mem (id_tc90522_t d)" and ?Q = "\<lambda>b. gview b = gview (id_bridge d)" and ?t = "(id_r850 d)\<lparr>r8_s := id_bridge d\<rparr>"
  note B = tuner_bus [OF conjunct1 [OF on_bus_3 [OF True]], of mem "gview (id_bridge d)"]
  note on = bus_invariant.r8_on_def [OF B]
  have "bus_invariant.r8_on ?i2c ?Q False ?t" using m by (simp add: on)
  then have "bus_invariant.r8_on ?i2c ?Q False (f ?t)"
    using assms [unfolded r850_keeps_bus_def, rule_format, OF B, of False ?t] by simp
  then have r: "r8_i2c (f ?t) = r8_i2c (id_r850 d)" "length (r8_regs (f ?t)) = 0x30" "gview (r8_s (f ?t)) = gview (id_bridge d)"
    using m by (simp_all add: on)
  have "wiring (d\<lparr>id_r850 := f ?t, id_bridge := r8_s (f ?t)\<rparr>)"
    using tuner_kept [OF True r(1,2)] bridge_free [where d = "d\<lparr>id_r850 := f ?t\<rparr>"] by simp
  then show ?thesis using gview_board [OF r(3)] by (simp add: still_def)
qed (simp add: still_def)

lemma still_r850: "r850_keeps_bus v (\<lambda>t. snd (f t)) \<Longrightarrow> still d (snd (id_on_r850 f d))"
  using still_put_r850 [of v "\<lambda>t. snd (f t)" d] by (simp add: id_on_r850_def case_prod_beta Let_def)

lemma still_tuner:
  "still d (snd (id_on_r850 r850_init d))" "still d (snd (id_on_r850 r850_term d))" "still d (snd (id_on_r850 r850_wakeup d))"
  "still d (snd (id_on_r850 (r850_set_system sc) d))" "still d (snd (id_on_r850 (r850_set_frequency n) d))"
  using still_r850 [OF tuner_init_keep(1)] still_r850 [OF tuner_init_keep(2)] still_r850 [OF tuner_calls_keep(2)]
    still_r850 [OF tuner_calls_keep(3)] still_r850 [OF tuner_calls_keep(4)] by blast+

lemma still_r850_locked: "still d (snd (snd (r850_locked l d)))"
  using still_put_r850 [OF tuner_calls_keep(5), of d l] by (simp add: r850_locked_def case_prod_beta Let_def)

lemma still_wait: "(\<And>l u. still u (snd (snd (f l u)))) \<Longrightarrow> still d (snd (id_wait_pll f d))"
proof -
  assume f: "\<And>l u. still u (snd (snd (f l u)))"
  have "still u (snd (snd (pll_loop n f ret l u)))" for n ret l u
  proof (induction n arbitrary: ret l u)
    case (Suc n)
    have "still u (snd (snd (pll_loop n f r k (snd (snd (f l u))))))" for r k by (rule still_trans [OF f Suc.IH])
    then show ?case using f by (auto simp: case_prod_beta Let_def)
  qed simp
  then show ?thesis by (simp add: id_wait_pll_def Let_def case_prod_beta)
qed

section \<open>Opening and closing\<close>

lemma power_wiring:
  "wiring d \<Longrightarrow> wiring (snd (isdb_backend_set_power st d))" "id_kref (snd (isdb_backend_set_power st d)) = id_kref d"
  by (simp_all add: isdb_backend_set_power_def id_on_bridge_def Let_def case_prod_beta bridge_free)

lemma power_on_pins:
  assumes "fst (isdb_backend_set_power True d) = 0"
  shows "board_powered (id_bridge (snd (isdb_backend_set_power True d)))"
proof -
  let ?b = "id_bridge (snd (isdb_backend_set_power True d))"
  obtain b1 where "it930x_write_gpio 3 False (id_bridge d) = (0, b1)" "it930x_write_gpio 2 True b1 = (0, ?b)"
    using assms by (auto simp: isdb_backend_set_power_def id_on_bridge_def Let_def case_prod_beta prod_eq_iff split: if_splits)
  from write_gpio_board [OF this(1)] write_gpio_board [OF this(2)] show ?thesis by (simp add: board_powered_pins)
qed

lemma open_power:
  assumes "isdb_open init trm steps d = (ret, d')" "wiring d"
    "\<forall>u. still u (snd (init u))" "\<forall>u. still u (snd (trm u))" "\<forall>f \<in> set steps. \<forall>u. still u (snd (f u))"
  shows "wiring d' \<and> id_kref d' = id_kref d + (if ret = 0 then 1 else 0) \<and> (ret = 0 \<longrightarrow> board_powered (id_bridge d'))"
proof -
  define p where "p = isdb_backend_set_power True d"
  define q where "q = init (snd p)"
  define r where "r = run_all steps (snd q)"
  have p: "wiring (snd p)" "id_kref (snd p) = id_kref d" using power_wiring assms(2) by (simp_all add: p_def)
  have q: "still (snd p) (snd q)" using assms(3) by (simp add: q_def)
  have r: "still (snd p) (snd r)" unfolding r_def by (rule still_trans [OF q still_run]) (use assms(5) in blast)
  have t: "still (snd p) (snd (trm (snd r)))" using still_trans [OF r] assms(4) by blast
  have e: "(ret, d') = (if fst p \<noteq> 0 then p else if fst q \<noteq> 0 then (fst q, snd (isdb_backend_set_power False (snd q)))
      else if fst r \<noteq> 0 then (fst r, snd (isdb_backend_set_power False (snd (trm (snd r)))))
      else (0, (snd r)\<lparr>id_kref := id_kref (snd r) + 1\<rparr>))"
    using assms(1) by (simp add: isdb_open_def p_def q_def r_def Let_def case_prod_beta split: if_splits)
  have "wiring d' \<and> id_kref d' = id_kref d + (if ret = 0 then 1 else 0)"
    using e p q r t power_wiring by (auto simp: still_def rest_free split: if_splits)
  moreover have "board_powered (id_bridge d')" if "ret = 0"
  proof -
    have "fst p = 0" "d' = (snd r)\<lparr>id_kref := id_kref (snd r) + 1\<rparr>" using e that by (auto split: if_splits)
    then show ?thesis using power_on_pins [of d] r p(1) by (simp add: board_powered_pins still_def flip: p_def)
  qed
  ultimately show ?thesis by blast
qed

lemma release_power:
  assumes "wiring d" "\<And>u. still u (snd (trm u))"
  shows "wiring (snd (isdb_release trm d))" "id_kref (snd (isdb_release trm d)) = id_kref d - 1"
  using assms power_wiring [where d = "snd (trm d)" and st = False] assms(2) [of d]
  by (simp_all add: isdb_release_def Let_def rest_free still_def)

end

section \<open>The life of a board\<close>

text \<open>A board, whether its receiver is open and whether it is plugged in. The receiver's layer above opens it once
  at a time and sets the current system; the card reader works beside it. Unplugging, once, is the driver's own
  \<^verbatim>\<open>device_term\<close>: it marks the device as gone and drops the reference of the USB driver.\<close>

inductive receiver_step ::
    "('d, 'z) isdbt2071_device_scheme ptx_ops \<Rightarrow> ('d, 'z) isdbt2071_device_scheme \<times> bool \<times> bool \<Rightarrow>
      ('d, 'z) isdbt2071_device_scheme \<times> bool \<times> bool \<Rightarrow> bool" for ops where
  opened: "op_open ops = Some f \<Longrightarrow> f d = (ret, d') \<Longrightarrow> receiver_step ops (d, False, p) (d', ret = 0, p)"
| released: "op_release ops = Some f \<Longrightarrow> receiver_step ops (d, True, p) (snd (f d), False, p)"
| tuned: "op_tune ops = Some f \<Longrightarrow> receiver_step ops (d, True, p) (snd (f d prm), True, p)"
| checked: "op_check_lock ops = Some f \<Longrightarrow> receiver_step ops (d, True, p) (snd (snd (f d l)), True, p)"
| selected: "op_set_stream_id ops = Some f \<Longrightarrow> receiver_step ops (d, True, p) (snd (f d sid), True, p)"
| captured: "op_set_capture ops = Some f \<Longrightarrow> receiver_step ops (d, True, p) (snd (f d st), True, p)"
| measured: "op_read_cnr_raw ops = Some f \<Longrightarrow> receiver_step ops (d, True, p) (snd (snd (f d v)), True, p)"
| system: "receiver_step ops (d, True, p) (d\<lparr>id_current_system := y\<rparr>, True, p)"
| card_used: "receiver_step ops (d, u, p) (d\<lparr>id_bridge := card_io_do r (id_bridge d)\<rparr>, u, p)"
| unplugged: "receiver_step ops (d, u, True) (isdb_device_term d, u, False)"

definition receiver_run where
  "receiver_run ops = (receiver_step ops)\<^sup>*\<^sup>*"

lemma card_io_board: "board_pins (card_io_do r b) = board_pins b"
proof (rule card_io_view [OF gview_board])
  show "board_pins (snd (it930x_write_gpio 14 h b)) = board_pins b" for h and b :: "'a it930x_bridge"
    using write_gpio_board [of 14 h b "fst (it930x_write_gpio 14 h b)" "snd (it930x_write_gpio 14 h b)"] by simp
qed

text \<open>What the bus layer owes: its streaming does not touch the pins.\<close>

definition streaming_apart :: "'d px4_env \<Rightarrow> bool" where
  "streaming_apart env \<longleftrightarrow> (\<forall>b. gview (snd (pe_start_streaming env b)) = gview b \<and> gview (snd (pe_stop_streaming env b)) = gview b)"

locale receiver_power = chip_wiring wiring for wiring :: "('d, 'z) isdbt2071_device_scheme \<Rightarrow> bool" +
  fixes ops :: "'d px4_env \<Rightarrow> ('d, 'z) isdbt2071_device_scheme ptx_ops"
  assumes opens: "op_open (ops env) = Some f \<Longrightarrow> f d = (ret, d') \<Longrightarrow> wiring d \<Longrightarrow>
      wiring d' \<and> id_kref d' = id_kref d + (if ret = 0 then 1 else 0) \<and> (ret = 0 \<longrightarrow> board_powered (id_bridge d'))"
    and closes: "op_release (ops env) = Some f \<Longrightarrow> wiring d \<Longrightarrow> wiring (snd (f d)) \<and> id_kref (snd (f d)) = id_kref d - 1"
    and tunes: "op_tune (ops env) = Some g \<Longrightarrow> still d (snd (g d prm))"
    and checks: "op_check_lock (ops env) = Some h \<Longrightarrow> still d (snd (snd (h d l)))"
    and selects: "op_set_stream_id (ops env) = Some k \<Longrightarrow> still d (snd (k d sid))"
    and captures: "streaming_apart env \<Longrightarrow> op_set_capture (ops env) = Some m \<Longrightarrow> still d (snd (m d st))"
    and measures: "op_read_cnr_raw (ops env) = Some n \<Longrightarrow> still d (snd (snd (n d v)))"
begin

definition served :: "nat \<Rightarrow> ('d, 'z) isdbt2071_device_scheme \<times> bool \<times> bool \<Rightarrow> bool" where
  "served k s \<longleftrightarrow> (case s of (d, u, p) \<Rightarrow> wiring d \<and>
     id_kref d = k + (if u then 1 else 0) + (if p then 1 else 0) \<and> (u \<longrightarrow> board_powered (id_bridge d)))"

lemma still_served: "still d d' \<Longrightarrow> served k (d, u, p) \<Longrightarrow> served k (d', u, p)"
  by (simp add: still_def served_def board_powered_pins)

lemma step_served:
  "receiver_step (ops env) s s' \<Longrightarrow> streaming_apart env \<Longrightarrow> served k s \<Longrightarrow> served k s'"
proof (induction rule: receiver_step.induct)
  case (opened f d ret d' p)
  then show ?case using opens [OF opened(1,2)] by (simp add: served_def)
next
  case (released f d p)
  then show ?case using closes [OF released(1), of d] by (simp add: served_def)
next
  case (tuned f d p prm)
  then show ?case using still_served [OF tunes] by blast
next
  case (checked f d p l)
  then show ?case using still_served [OF checks] by blast
next
  case (selected f d p sid)
  then show ?case using still_served [OF selects] by blast
next
  case (captured f d p st)
  then show ?case using still_served [OF captures] captured by blast
next
  case (measured f d p v)
  then show ?case using still_served [OF measures] by blast
next
  case (card_used d u p r)
  then show ?case using still_served [OF still_bridge [OF card_io_board]] by blast
qed (auto simp: served_def rest_free isdb_device_term_def)

lemma run_served:
  assumes "receiver_run (ops env) (d, u0, p0) (d', u, p)" "streaming_apart env" "wiring d"
    "(if u0 then 1 else 0) + (if p0 then 1 else 0) \<le> id_kref d" "u0 \<longrightarrow> board_powered (id_bridge d)"
  shows "id_kref d' + (if u0 then 1 else 0) + (if p0 then 1 else 0) =
      id_kref d + (if u then 1 else 0) + (if p then 1 else 0) \<and> (u \<longrightarrow> board_powered (id_bridge d'))"
proof -
  let ?k = "id_kref d - ((if u0 then 1 else 0) + (if p0 then 1 else 0))"
  have "served ?k (d', u, p)" using assms(1) unfolding receiver_run_def
  proof (induction rule: rtranclp_induct)
    case base
    show ?case using assms(3-5) by (simp add: served_def)
  qed (rule step_served [OF _ assms(2)])
  then have "id_kref d' = ?k + (if u then 1 else 0) + (if p then 1 else 0)" "u \<longrightarrow> board_powered (id_bridge d')"
    by (simp_all add: served_def)
  then show ?thesis using assms(4) by linarith
qed

end

section \<open>The two drivers\<close>

definition isdbt2071_wiring :: "('d, 'z) isdbt2071_device_scheme \<Rightarrow> bool" where
  "isdbt2071_wiring d \<longleftrightarrow> dm_i2c (id_tc90522_t d) = i2c_bus 3 \<and> dm_i2c (id_tc90522_s d) = i2c_bus 3 \<and>
     length (r8_regs (id_r850 d)) = 0x30 \<and> (\<exists>mem. r8_i2c (id_r850 d) = tc90522_master mem (id_tc90522_t d))"

definition isdb2056_wiring :: "('d, 'z) isdb2056_device_scheme \<Rightarrow> bool" where
  "isdb2056_wiring d \<longleftrightarrow> isdbt2071_wiring d \<and> dm_i2c (id_tc90522_s0 d) = i2c_bus 3 \<and>
     (\<exists>mem. rt_i2c (id_rt710 d) = tc90522_master mem (id_tc90522_s d))"

interpretation t71: chip_wiring isdbt2071_wiring
  by unfold_locales (auto simp: isdbt2071_wiring_def)

interpretation t56: chip_wiring isdb2056_wiring
  by unfold_locales (auto simp: isdbt2071_wiring_def isdb2056_wiring_def)

lemma open_2071:
  "t71.still d (snd (isdbt2071_backend_init d))" "t71.still d (snd (isdbt2071_backend_term d))"
  by (simp_all add: isdbt2071_backend_init_def isdbt2071_backend_term_def t71.still_tuner)

lemma open_chrdev_2071:
  assumes "isdbt2071_chrdev_open d = (ret, d')" "isdbt2071_wiring d"
  shows "isdbt2071_wiring d' \<and> id_kref d' = id_kref d + (if ret = 0 then 1 else 0) \<and> (ret = 0 \<longrightarrow> board_powered (id_bridge d'))"
  by (rule t71.open_power [OF assms(1) [unfolded isdbt2071_chrdev_open_def] assms(2)])
    (simp_all add: open_2071 t71.still_demod demod_keeps_calls t71.still_tuner)

lemma tune_2071: "t71.still d (snd (isdbt2071_chrdev_tune prm d))"
  unfolding isdbt2071_chrdev_tune_def
  by (auto simp del: run_all.simps simp: t71.still_demod demod_keeps_calls t71.still_tuner t71.still_r850_locked
      intro!: t71.still_run t71.still_wait)

context chip_wiring
begin

lemma still_streams:
  assumes "streaming_apart env"
  shows "still d (snd (id_on_bridge (it930x_purge_psb k n) d))" "still d (snd (id_on_bridge (pe_stop_streaming env) d))"
    "still d (snd (id_on_bridge (pe_start_streaming env) (d\<lparr>id_remain_len := l\<rparr>)))"
proof -
  show "still d (snd (id_on_bridge (it930x_purge_psb k n) d))" by (rule still_on_bridge) (rule purge_view)
  show "still d (snd (id_on_bridge (pe_stop_streaming env) d))"
    using assms by (intro still_on_bridge) (simp add: streaming_apart_def)
  have "still d (d\<lparr>id_remain_len := l\<rparr>)" by (simp add: still_def rest_free)
  moreover have "still u (snd (id_on_bridge (pe_start_streaming env) u))" for u
    using assms by (intro still_on_bridge) (simp add: streaming_apart_def)
  ultimately show "still d (snd (id_on_bridge (pe_start_streaming env) (d\<lparr>id_remain_len := l\<rparr>)))" using still_trans by blast
qed

end

lemma capture_2071:
  assumes "streaming_apart env"
  shows "t71.still d (snd (isdbt2071_chrdev_set_capture env st d))"
proof -
  note s = t71.still_streams [OF assms]
  have e: "t71.still u (snd (on_t (\<lambda>dm. tc90522_enable_ts_pins_t dm b) u))" for u :: "('a, 'b) isdbt2071_device_scheme" and b
    by (rule t71.still_demod(1)) (rule demod_keeps_calls)
  define d1 where "d1 = id_on_bridge (it930x_purge_psb (pe_kmalloc env) (pe_psb_purge_timeout env)) d"
  define d2 where "d2 = on_t (\<lambda>dm. tc90522_enable_ts_pins_t dm True) (snd d1)"
  define d3 where "d3 = id_on_bridge (pe_start_streaming env) ((snd d2)\<lparr>id_remain_len := 0\<rparr>)"
  have d1: "t71.still d (snd d1)" using s(1) by (simp add: d1_def)
  have d2: "t71.still d (snd d2)" using t71.still_trans [OF d1 e] by (simp add: d2_def)
  have d3: "t71.still d (snd d3)" using t71.still_trans [OF d2 s(3)] by (simp add: d3_def)
  have "t71.still d (snd (isdbt2071_chrdev_start_capture env d))"
    using d1 d3 t71.still_trans [OF d2 e] t71.still_trans [OF d3 e]
    by (simp add: isdbt2071_chrdev_start_capture_def Let_def case_prod_beta flip: d1_def d2_def d3_def)
  moreover have "t71.still d (snd (isdbt2071_chrdev_stop_capture env d))"
    using s(2) [of d] t71.still_trans [OF s(2) [of d] e] by (auto simp: isdbt2071_chrdev_stop_capture_def Let_def)
  ultimately show ?thesis by (simp add: isdbt2071_chrdev_set_capture_def)
qed

interpretation isdbt2071_power: receiver_power isdbt2071_wiring "isdbt2071_chrdev_ops :: _ \<Rightarrow> 'd isdbt2071_device ptx_ops"
proof unfold_locales
  fix env :: "'d px4_env" and d d' :: "'d isdbt2071_device" and f g h k m n ret prm l sid st v
  show "isdbt2071_wiring d' \<and> id_kref d' = id_kref d + (if ret = 0 then 1 else 0) \<and> (ret = 0 \<longrightarrow> board_powered (id_bridge d'))"
    if "op_open (isdbt2071_chrdev_ops env) = Some f" "f d = (ret, d')" "isdbt2071_wiring d"
  proof -
    have "f = isdbt2071_chrdev_open" using that(1) by (simp add: isdbt2071_chrdev_ops_def)
    then show ?thesis using open_chrdev_2071 that(2,3) by blast
  qed
  show "isdbt2071_wiring (snd (f d)) \<and> id_kref (snd (f d)) = id_kref d - 1"
    if "op_release (isdbt2071_chrdev_ops env) = Some f" "isdbt2071_wiring d"
    using t71.release_power [OF that(2) open_2071(2)] that(1) by (auto simp: isdbt2071_chrdev_ops_def isdbt2071_chrdev_release_def)
  show "t71.still d (snd (g d prm))" if "op_tune (isdbt2071_chrdev_ops env) = Some g"
    using that tune_2071 by (auto simp: isdbt2071_chrdev_ops_def)
  show "t71.still d (snd (snd (h d l)))" if "op_check_lock (isdbt2071_chrdev_ops env) = Some h"
    using that t71.still_demod_read(1) [OF demod_keeps_reads(2)] by (auto simp: isdbt2071_chrdev_ops_def isdbt2071_chrdev_check_lock_def)
  show "t71.still d (snd (k d sid))" if "op_set_stream_id (isdbt2071_chrdev_ops env) = Some k"
    using that by (simp add: isdbt2071_chrdev_ops_def)
  show "t71.still d (snd (m d st))" if "streaming_apart env" "op_set_capture (isdbt2071_chrdev_ops env) = Some m"
    using that capture_2071 by (auto simp: isdbt2071_chrdev_ops_def)
  show "t71.still d (snd (snd (n d v)))" if "op_read_cnr_raw (isdbt2071_chrdev_ops env) = Some n"
    using that t71.still_demod_read(1) [OF demod_keeps_reads(5)] by (auto simp: isdbt2071_chrdev_ops_def isdbt2071_chrdev_read_cnr_raw_def)
qed

lemma demod_s0: "demod_keeps (\<lambda>dm b. snd (f dm b)) \<Longrightarrow> t56.still d (snd (on_s0 f d))"
proof (cases "isdb2056_wiring d")
  case True
  assume f: "demod_keeps (\<lambda>dm b. snd (f dm b))"
  have "dm_i2c (id_tc90522_s0 d) = i2c_bus 3" using True by (simp add: isdb2056_wiring_def)
  then have "gview (snd (f (id_tc90522_s0 d) (id_bridge d))) = gview (id_bridge d)"
    using f demod_bus [of "id_tc90522_s0 d" 3 "gview (id_bridge d)"] unfolding demod_keeps_def by blast
  then show ?thesis by (auto simp: on_s0_def id_on_bridge_def case_prod_beta intro!: t56.still_bridge gview_board)
qed (simp add: t56.still_def)

lemma put_rt710_56:
  assumes "rt710_keeps_bus v f"
  shows "t56.still d (d\<lparr>id_rt710 := f ((id_rt710 d)\<lparr>rt_s := id_bridge d\<rparr>), id_bridge := rt_s (f ((id_rt710 d)\<lparr>rt_s := id_bridge d\<rparr>))\<rparr>)"
proof (cases "isdb2056_wiring d")
  case True
  obtain mem where m: "rt_i2c (id_rt710 d) = tc90522_master mem (id_tc90522_s d)" "dm_i2c (id_tc90522_s d) = i2c_bus 3"
    using True by (auto simp: isdb2056_wiring_def isdbt2071_wiring_def)
  let ?i2c = "tc90522_master mem (id_tc90522_s d)" and ?Q = "\<lambda>b. gview b = gview (id_bridge d)" and ?t = "(id_rt710 d)\<lparr>rt_s := id_bridge d\<rparr>"
  note B = tuner_bus [OF m(2), of mem "gview (id_bridge d)"]
  note on = bus_invariant.rt_on_def [OF B]
  have "bus_invariant.rt_on ?i2c ?Q False ?t" using m by (simp add: on)
  then have "bus_invariant.rt_on ?i2c ?Q False (f ?t)"
    using assms [unfolded rt710_keeps_bus_def, rule_format, OF B, of False ?t] by simp
  then have r: "rt_i2c (f ?t) = rt_i2c (id_rt710 d)" "gview (rt_s (f ?t)) = gview (id_bridge d)"
    using m by (simp_all add: on)
  then show ?thesis using gview_board [OF r(2)] by (simp add: t56.still_def isdb2056_wiring_def isdbt2071_wiring_def)
qed (simp add: t56.still_def)

lemma tuner_56:
  "t56.still d (snd (id_on_rt710 rt710_init d))" "t56.still d (snd (id_on_rt710 rt710_term d))"
  "t56.still d (snd (id_on_rt710 (rt710_set_params n rate ro) d))" "t56.still d (snd (snd (rt710_locked l d)))"
  "t56.still d (snd (log_strength d))"
  using put_rt710_56 [OF tuner_init_keep(3)] put_rt710_56 [OF tuner_init_keep(4)] put_rt710_56 [OF tuner_calls_keep(7)]
    put_rt710_56 [OF tuner_calls_keep(8)] put_rt710_56 [OF tuner_calls_keep(9)]
  by (simp_all add: id_on_rt710_def rt710_locked_def log_strength_def case_prod_beta Let_def)

lemma init_56: "t56.still d (snd (isdb2056_backend_init d))" "t56.still d (snd (isdb2056_backend_term d))"
proof -
  show "t56.still d (snd (isdb2056_backend_init d))" unfolding isdb2056_backend_init_def
    by (rule t56.still_run) (auto simp: t56.still_tuner tuner_56 split: if_splits)
  show "t56.still d (snd (isdb2056_backend_term d))"
    using t56.still_trans [OF t56.still_tuner(2) tuner_56(2)] by (simp add: isdb2056_backend_term_def)
qed

lemma open_chrdev_2056:
  assumes "isdb2056_chrdev_open d = (ret, d')" "isdb2056_wiring d"
  shows "isdb2056_wiring d' \<and> id_kref d' = id_kref d + (if ret = 0 then 1 else 0) \<and> (ret = 0 \<longrightarrow> board_powered (id_bridge d'))"
  by (rule t56.open_power [OF assms(1) [unfolded isdb2056_chrdev_open_def] assms(2)])
    (simp_all add: init_56 t56.still_demod demod_keeps_calls t56.still_tuner)

lemma tune_2056: "t56.still d (snd (isdb2056_chrdev_tune prm d))"
proof -
  have m: "t56.still u (snd (s_model_reg r v w u))" for r v w and u :: "('a, 'b) isdb2056_device_scheme"
    by (simp add: s_model_reg_def t56.still_demod demod_s0 demod_keeps_calls split: isdb2056_model.split)
  have "t56.still d (snd (run_all (tune_2056_t n) d))" "t56.still d (snd (run_all (tune_2056_s n) d))" for n
    unfolding tune_2056_t_def tune_2056_s_def
    by (rule t56.still_run; auto simp: m t56.still_demod demod_keeps_calls t56.still_tuner tuner_56 t56.still_r850_locked intro!: t56.still_wait)+
  then show ?thesis by (simp add: isdb2056_chrdev_tune_def)
qed

lemma capture_2056:
  assumes "streaming_apart env"
  shows "t56.still d (snd (isdb2056_chrdev_set_capture env st d))"
proof -
  note s = t56.still_streams [OF assms]
  have e: "t56.still u (snd (ts_pins_2056 b u))" for u :: "('a, 'b) isdb2056_device_scheme" and b
    by (simp add: ts_pins_2056_def t56.still_demod demod_keeps_calls)
  define d1 where "d1 = id_on_bridge (it930x_purge_psb (pe_kmalloc env) (pe_psb_purge_timeout env)) d"
  define d2 where "d2 = (if id_current_system (snd d1) \<noteq> PTX_ISDB_T_SYSTEM \<and> id_current_system (snd d1) \<noteq> PTX_ISDB_S_SYSTEM \<and>
      id_model (snd d1) = PXS1UR_MODEL then (- EINVAL, snd d1) else ts_pins_2056 True (snd d1))"
  define d3 where "d3 = id_on_bridge (pe_start_streaming env) ((snd d2)\<lparr>id_remain_len := 0\<rparr>)"
  have d1: "t56.still d (snd d1)" using s(1) by (simp add: d1_def)
  have d2: "t56.still d (snd d2)" using d1 t56.still_trans [OF d1 e] by (simp add: d2_def)
  have d3: "t56.still d (snd d3)" using t56.still_trans [OF d2 s(3)] by (simp add: d3_def)
  have "t56.still d (snd (isdb2056_chrdev_start_capture env d))"
    unfolding isdb2056_chrdev_start_capture_def Let_def case_prod_beta d1_def [symmetric] d2_def [symmetric] d3_def [symmetric]
    using d1 d2 d3 t56.still_trans [OF d2 e] t56.still_trans [OF d3 e] by simp
  moreover have "t56.still d (snd (isdb2056_chrdev_stop_capture env d))"
    using s(2) [of d] t56.still_trans [OF s(2) [of d] e] by (auto simp: isdb2056_chrdev_stop_capture_def Let_def)
  ultimately show ?thesis by (simp add: isdb2056_chrdev_set_capture_def)
qed

lemma queries_2056:
  "t56.still d (snd (snd (isdb2056_chrdev_check_lock l d)))" "t56.still d (snd (isdb2056_chrdev_set_stream_id env sid d))"
  "t56.still d (snd (snd (isdb2056_chrdev_read_cnr_raw v d)))"
  using t56.still_demod_read(1) [OF demod_keeps_reads(2), of d] t56.still_demod_read(2) [OF demod_keeps_reads(1), of d]
    t56.still_demod(2) [OF demod_keeps_loops(2) [where env = env and sid = sid], where d = d] t56.still_demod_read(1) [OF demod_keeps_reads(5), where d = d]
    t56.still_demod_read(2) [OF demod_keeps_reads(4), where d = d]
  by (simp_all add: isdb2056_chrdev_check_lock_def isdb2056_chrdev_set_stream_id_def isdb2056_chrdev_read_cnr_raw_def Let_def case_prod_beta)

interpretation isdb2056_power: receiver_power isdb2056_wiring "isdb2056_chrdev_ops :: _ \<Rightarrow> 'd isdb2056_device ptx_ops"
  using t56.release_power [OF _ init_56(2)] by unfold_locales
    (auto simp: isdb2056_chrdev_ops_def isdb2056_chrdev_release_def tune_2056 capture_2056 queries_2056 dest: open_chrdev_2056)

interpretation pxs1ur_power: receiver_power isdb2056_wiring "pxs1ur_chrdev_ops :: _ \<Rightarrow> 'd isdb2056_device ptx_ops"
  using t56.release_power [OF _ init_56(2)] by unfold_locales
    (auto simp: pxs1ur_chrdev_ops_def isdb2056_chrdev_ops_def isdb2056_chrdev_release_def tune_2056 capture_2056 queries_2056
      dest: open_chrdev_2056)

section \<open>The property\<close>

definition demo_2071 :: "((u32 \<Rightarrow> u8) \<times> u8 list) isdbt2071_device" where
  "demo_2071 = (let dm = id_demod 0x18 False demo_dm in
     \<lparr> id_kref = 2, id_available = True, id_bridge = demo_pins, id_tc90522_t = dm, id_tc90522_s = id_demod 0x11 False demo_dm,
       id_r850 = (demo_r850 demo_pins)\<lparr>r8_i2c := tc90522_master True dm, r8_config := id_r850_config\<rparr>,
       id_current_system = 0, id_remain_len = 0 \<rparr>)"

definition demo_2071_on :: "((u32 \<Rightarrow> u8) \<times> u8 list) isdbt2071_device" where
  "demo_2071_on = (snd (isdb_backend_set_power True demo_2071))\<lparr>id_kref := 3\<rparr>"

lemma demo_2071_on: "isdbt2071_wiring demo_2071_on" "board_powered (id_bridge demo_2071_on)" "id_kref demo_2071_on = 3"
proof -
  have w: "isdbt2071_wiring demo_2071"
    by (auto simp: isdbt2071_wiring_def demo_2071_def id_demod_def demo_r850_def r850_init_regs_def Let_def)
  show "isdbt2071_wiring demo_2071_on" using t71.power_wiring(1) [OF w] by (simp add: demo_2071_on_def t71.rest_free)
  have p: "firmware_ok (it_bus demo_pins) fst" "it_bus_type demo_pins = ITEDTV_BUS_USB"
    using demo_init(3,4) by (simp_all add: demo_pins_def)
  obtain b1 where b1: "it930x_write_gpio 3 False demo_pins = (0, b1)" "same_bridge demo_pins b1" using demo_pins_write [OF p refl] by blast
  then obtain b2 where b2: "it930x_write_gpio 2 True b1 = (0, b2)" using demo_pins_write [of b1 2 True] p by (auto simp: same_bridge_def)
  have "fst (isdb_backend_set_power True demo_2071) = 0" using b1(1) b2
    by (simp add: isdb_backend_set_power_def id_on_bridge_def demo_2071_def Let_def)
  from t71.power_on_pins [OF this] show "board_powered (id_bridge demo_2071_on)" by (simp add: demo_2071_on_def)
qed (simp add: demo_2071_on_def)

text \<open>A channel is tuned while the card reader is in use; then the device is unplugged.\<close>

definition demo_2071_used :: "((u32 \<Rightarrow> u8) \<times> u8 list) isdbt2071_device" where
  "demo_2071_used = (let d = snd (isdbt2071_chrdev_tune demo_channel demo_2071_on)
     in isdb_device_term (d\<lparr>id_bridge := card_io_do Io_reset (id_bridge d)\<rparr>))"

lemma demo_2071_run:
  "receiver_run (isdbt2071_chrdev_ops demo_env) (demo_2071_on, True, True) (demo_2071_used, True, False)"
proof -
  let ?ops = "isdbt2071_chrdev_ops demo_env" and ?d = "snd (isdbt2071_chrdev_tune demo_channel demo_2071_on)"
  have "receiver_step ?ops (demo_2071_on, True, True) (?d, True, True)"
    using receiver_step.tuned [of ?ops "\<lambda>d prm. isdbt2071_chrdev_tune prm d" demo_2071_on True demo_channel]
    by (simp add: isdbt2071_chrdev_ops_def)
  then have "(receiver_step ?ops)\<^sup>*\<^sup>* (demo_2071_on, True, True)
      (?d\<lparr>id_bridge := card_io_do Io_reset (id_bridge ?d)\<rparr>, True, True)"
    using receiver_step.card_used [of ?ops ?d True True Io_reset] by (meson converse_rtranclp_into_rtranclp r_into_rtranclp)
  then show ?thesis using receiver_step.unplugged [of ?ops "?d\<lparr>id_bridge := card_io_do Io_reset (id_bridge ?d)\<rparr>" True]
    unfolding receiver_run_def demo_2071_used_def Let_def by (meson rtranclp.rtrancl_into_rtrancl)
qed

text \<open>C36: the boards with a single receiver, wired up as their initialisation leaves them, have power while the
  receiver is open, whatever the bus and the chips
  answer, and with a bus layer whose streaming leaves the GPIO pins alone: through any sequence of opens, closes,
  tunings, queries and captures, of uses of the card reader and of unplugging (once, with the receiver open or
  closed), on the terrestrial board and on both operation tables of the other driver, a device that is open has its
  two supply pins last written on, and the reference count is exactly one higher while the receiver is open and one
  higher until the board is unplugged.\<close>

theorem isdb_in_use_powered:
  assumes "streaming_apart env" "refs = (\<lambda>u p. (if u then 1 else 0) + (if p then 1 else 0 :: nat))"
  shows "(isdbt2071_wiring d \<longrightarrow> (u0 \<longrightarrow> board_powered (id_bridge d)) \<longrightarrow> refs u0 p0 \<le> id_kref d \<longrightarrow>
      receiver_run (isdbt2071_chrdev_ops env) (d, u0, p0) (d', u, p) \<longrightarrow>
      id_kref d' + refs u0 p0 = id_kref d + refs u p \<and> (u \<longrightarrow> board_powered (id_bridge d'))) \<and>
    (isdb2056_wiring e \<longrightarrow> (u0 \<longrightarrow> board_powered (id_bridge e)) \<longrightarrow> refs u0 p0 \<le> id_kref e \<longrightarrow>
      receiver_run (if id_model e = PXS1UR_MODEL then pxs1ur_chrdev_ops env else isdb2056_chrdev_ops env)
        (e, u0, p0) (e', u, p) \<longrightarrow>
      id_kref e' + refs u0 p0 = id_kref e + refs u p \<and> (u \<longrightarrow> board_powered (id_bridge e')))"
proof -
  have t: "id_kref d' + refs u0 p0 = id_kref d + refs u p \<and> (u \<longrightarrow> board_powered (id_bridge d'))"
    if "isdbt2071_wiring d" "u0 \<longrightarrow> board_powered (id_bridge d)" "refs u0 p0 \<le> id_kref d"
      "receiver_run (isdbt2071_chrdev_ops env) (d, u0, p0) (d', u, p)"
    using isdbt2071_power.run_served [OF that(4) assms(1) that(1) that(3) [unfolded assms(2)] that(2)]
    by (simp add: assms(2))
  have s: "id_kref e' + refs u0 p0 = id_kref e + refs u p \<and> (u \<longrightarrow> board_powered (id_bridge e'))"
    if e: "isdb2056_wiring e" "u0 \<longrightarrow> board_powered (id_bridge e)" "refs u0 p0 \<le> id_kref e"
      "receiver_run (if id_model e = PXS1UR_MODEL then pxs1ur_chrdev_ops env else isdb2056_chrdev_ops env)
        (e, u0, p0) (e', u, p)"
  proof (cases "id_model e = PXS1UR_MODEL")
    case True
    then have "receiver_run (pxs1ur_chrdev_ops env) (e, u0, p0) (e', u, p)" using e(4) by simp
    from pxs1ur_power.run_served [OF this assms(1) e(1) e(3) [unfolded assms(2)] e(2)]
    show ?thesis by (simp add: assms(2))
  next
    case False
    then have "receiver_run (isdb2056_chrdev_ops env) (e, u0, p0) (e', u, p)" using e(4) by simp
    from isdb2056_power.run_served [OF this assms(1) e(1) e(3) [unfolded assms(2)] e(2)]
    show ?thesis by (simp add: assms(2))
  qed
  show ?thesis using t s by blast
qed

theorem isdb_in_use_powered_witness: "board_powered (id_bridge demo_2071_used) \<and> id_kref demo_2071_used = 2"
proof -
  have "streaming_apart demo_env" by (simp add: streaming_apart_def demo_env_def)
  from isdb_in_use_powered [OF this refl, of demo_2071_on True True demo_2071_used True False] demo_2071_on demo_2071_run
  show ?thesis by force
qed

end
