(* ===== verification/Pxmlt_Cnr.thy ===== *)
theory Pxmlt_Cnr
  imports Prelude
begin

text \<open>
  The signal quality the PX-MLT boards report (\<^verbatim>\<open>pxmlt_chrdev_read_cnr_raw\<close> of driver/pxmlt\_device.c): the raw
  value of the demodulator is looked up in one of three tables by binary search, and converted to the
  scale the applications expect. The three searches differ in the table and in its direction only, so
  the search is written once, over the table and over the comparison; the indices are C's signed ones.
\<close>

section \<open>Tables\<close>

definition isdbt_cn_raw_table :: "(u16 \<times> u32) list" where
  "isdbt_cn_raw_table =
    [(0x51, 0xb19ff), (0x5a, 0x9eecd), (0x65, 0x8cd8b), (0x72, 0x7c302), (0x7f, 0x6f132), (0x8f, 0x6250d),
     (0xa0, 0x57a1c), (0xb4, 0x4db45), (0xc9, 0x45725), (0xe2, 0x3da59), (0xfd, 0x36f9d), (0x11c, 0x30e58),
     (0x13f, 0x2b76e), (0x166, 0x26abb), (0x191, 0x22794), (0x1c2, 0x1eac7), (0x1f9, 0x1b4a8), (0x237,
     0x1844d), (0x27c, 0x159a2), (0x2ca, 0x13365), (0x321, 0x11196), (0x382, 0xf3ae), (0x3f0, 0xd8cb), (0x46b,
     0xc0fd), (0x4f4, 0xabf9), (0x58f, 0x9923), (0x63d, 0x8868), (0x700, 0x7995), (0x7da, 0x6c78), (0x8cf,
     0x60cf), (0x9e2, 0x5675), (0xb17, 0x4d43), (0xc71, 0x4520), (0xdf6, 0x3de4), (0xfaa, 0x377b), (0x1193,
     0x31cc), (0x13b8, 0x2cbf), (0x1620, 0x2843), (0x18d3, 0x2447), (0x1bdb, 0x20bb), (0x1f41, 0x1d95),
     (0x2311, 0x1ac6), (0x2758, 0x1846), (0x2c25, 0x160a), (0x3188, 0x140c), (0x3793, 0x1243), (0x3e5b,
     0x10ab), (0x45f7, 0xf3c), (0x4e80, 0xdf3)]"

definition isdbs_cn_raw_table :: "(u16 \<times> u32) list" where
  "isdbs_cn_raw_table =
    [(0x5af, 0x9546), (0x597, 0x94d9), (0x57e, 0x946b), (0x567, 0x93fc), (0x550, 0x938c), (0x539, 0x931b),
     (0x522, 0x92a8), (0x50c, 0x9235), (0x4f6, 0x91c1), (0x4e1, 0x914b), (0x4cc, 0x90d5), (0x4b6, 0x905d),
     (0x4a1, 0x8fe4), (0x48c, 0x8f6a), (0x477, 0x8eef), (0x463, 0x8e72), (0x44f, 0x8df5), (0x43c, 0x8d76),
     (0x428, 0x8cf5), (0x416, 0x8c74), (0x403, 0x8bf1), (0x3ef, 0x8b6c), (0x3dc, 0x8ae7), (0x3c9, 0x8a60),
     (0x3b6, 0x89d7), (0x3a4, 0x894d), (0x392, 0x88c2), (0x381, 0x8835), (0x36f, 0x87a6), (0x35f, 0x8716),
     (0x34e, 0x8685), (0x33d, 0x85f1), (0x32d, 0x855d), (0x31d, 0x84c6), (0x30d, 0x842e), (0x2fd, 0x8394),
     (0x2ee, 0x82f9), (0x2df, 0x825b), (0x2d0, 0x81bc), (0x2c2, 0x811c), (0x2b4, 0x8079), (0x2a6, 0x7fd5),
     (0x299, 0x7f2f), (0x28c, 0x7e87), (0x27f, 0x7ddd), (0x272, 0x7d31), (0x265, 0x7c83), (0x259, 0x7bd4),
     (0x24d, 0x7b22), (0x241, 0x7a6f), (0x236, 0x79ba), (0x22b, 0x7903), (0x220, 0x784a), (0x215, 0x778f),
     (0x20a, 0x76d3), (0x200, 0x7614), (0x1f6, 0x7554), (0x1ec, 0x7492), (0x1e2, 0x73ce), (0x1d8, 0x7308),
     (0x1cf, 0x7241), (0x1c6, 0x7178), (0x1bc, 0x70ad), (0x1b3, 0x6fe1), (0x1aa, 0x6f13), (0x1a2, 0x6e44),
     (0x199, 0x6d74), (0x191, 0x6ca2), (0x189, 0x6bcf), (0x181, 0x6afb), (0x179, 0x6a26), (0x171, 0x6950),
     (0x169, 0x687a), (0x161, 0x67a2), (0x15a, 0x66ca), (0x153, 0x65f1), (0x14b, 0x6517), (0x144, 0x643e),
     (0x13d, 0x6364), (0x137, 0x628a), (0x130, 0x61b0), (0x12a, 0x60d6), (0x124, 0x5ffc), (0x11e, 0x5f22),
     (0x118, 0x5e49), (0x112, 0x5d70), (0x10c, 0x5c98), (0x107, 0x5bc0), (0x101, 0x5ae9), (0xfc, 0x5a13),
     (0xf7, 0x593e), (0xf2, 0x5869), (0xec, 0x5796), (0xe7, 0x56c4), (0xe2, 0x55f3), (0xdd, 0x5523), (0xd8,
     0x5454), (0xd4, 0x5387), (0xcf, 0x52bb), (0xca, 0x51f0), (0xc6, 0x5126), (0xc2, 0x505e), (0xbe, 0x4f98),
     (0xb9, 0x4ed3), (0xb5, 0x4e0f), (0xb1, 0x4d4d), (0xae, 0x4c8d), (0xaa, 0x4bce), (0xa6, 0x4b10), (0xa3,
     0x4a55), (0x9f, 0x499a), (0x9b, 0x48e1), (0x98, 0x482a), (0x95, 0x4774), (0x91, 0x46c0), (0x8e, 0x460d),
     (0x8b, 0x455c), (0x88, 0x44ac), (0x85, 0x43fe), (0x82, 0x4352), (0x7f, 0x42a6), (0x7c, 0x41fd), (0x7a,
     0x4154), (0x77, 0x40ae), (0x74, 0x4008), (0x72, 0x3f64), (0x6f, 0x3ec2), (0x6d, 0x3e21), (0x6b, 0x3d81),
     (0x68, 0x3ce3), (0x66, 0x3c46), (0x64, 0x3baa), (0x61, 0x3b10), (0x5f, 0x3a77), (0x5d, 0x39e0), (0x5b,
     0x394a), (0x59, 0x38b5), (0x57, 0x3821), (0x55, 0x378f), (0x53, 0x36fe), (0x51, 0x366e), (0x4f, 0x35e0),
     (0x4e, 0x3553), (0x4c, 0x34c7), (0x4a, 0x343c), (0x49, 0x33b3), (0x47, 0x332b), (0x45, 0x32a4), (0x44,
     0x321e), (0x42, 0x319a), (0x41, 0x3116), (0x3f, 0x3094), (0x3e, 0x3014), (0x3c, 0x2f94), (0x3b, 0x2f16),
     (0x3a, 0x2e99), (0x38, 0x2e1d), (0x37, 0x2da2), (0x36, 0x2d29), (0x34, 0x2cb0), (0x33, 0x2c39), (0x32,
     0x2bc4), (0x31, 0x2b4f), (0x30, 0x2adc), (0x2f, 0x2a6a), (0x2e, 0x29f9), (0x2d, 0x2989), (0x2c, 0x291a),
     (0x2b, 0x28ad), (0x2a, 0x2841), (0x29, 0x27d6), (0x28, 0x276d), (0x27, 0x2705), (0x26, 0x269e), (0x25,
     0x2638), (0x24, 0x25d3), (0x23, 0x2570), (0x22, 0x24ad), (0x21, 0x244d), (0x20, 0x23ef), (0x1f, 0x2336),
     (0x1e, 0x22db), (0x1d, 0x222a), (0x1c, 0x217d), (0x1b, 0x20d5), (0x1a, 0x2083), (0x19, 0x1fe3), (0x18,
     0x1f94), (0x17, 0x1efb), (0x16, 0x1e66), (0x15, 0x1dd6), (0x14, 0x1d90)]"

definition isdbc_cn_raw_table :: "(u16 \<times> u32) list" where
  "isdbc_cn_raw_table =
    [(0x2128, 0xb3fa1), (0x20cf, 0xafa2b), (0x2077, 0xab683), (0x2020, 0xa749b), (0x1fca, 0xa3467), (0x1f74,
     0x9f5d8), (0x1f20, 0x9b8e4), (0x1ecd, 0x97d7d), (0x1e7a, 0x94398), (0x1e28, 0x90b2b), (0x1dd8, 0x8d42a),
     (0x1d88, 0x89e8b), (0x1d38, 0x86a45), (0x1cea, 0x8374c), (0x1c9d, 0x80599), (0x1c50, 0x7d522), (0x1c04,
     0x7a5de), (0x1bb9, 0x777c5), (0x1b6f, 0x74acf), (0x1b25, 0x71ef3), (0x1adc, 0x6f42a), (0x1a94, 0x6ca6d),
     (0x1a4d, 0x6a1b5), (0x1a06, 0x679fa), (0x19c1, 0x65336), (0x197c, 0x62d62), (0x1937, 0x60878), (0x18f4,
     0x5e472), (0x18b1, 0x5c149), (0x186f, 0x59ef9), (0x182d, 0x57d7b), (0x17ec, 0x55cca), (0x17ac, 0x53ce0),
     (0x176d, 0x51dba), (0x172e, 0x4ff51), (0x16f0, 0x4e1a0), (0x16b2, 0x4c4a4), (0x1675, 0x4a858), (0x1639,
     0x48cb7), (0x15fe, 0x471bc), (0x15c3, 0x45765), (0x1588, 0x43dac), (0x154f, 0x4248d), (0x1516, 0x40c06),
     (0x14dd, 0x3f412), (0x14a5, 0x3dcad), (0x146e, 0x3c5d5), (0x1437, 0x3af85), (0x1401, 0x399ba), (0x13cb,
     0x38471), (0x1396, 0x36fa8), (0x1362, 0x35b5a), (0x132e, 0x34785), (0x12fa, 0x33426), (0x12c7, 0x3213a),
     (0x1295, 0x30ebe), (0x1263, 0x2fcb0), (0x1232, 0x2eb0d), (0x1201, 0x2d9d3), (0x11d1, 0x2c8fe), (0x11a1,
     0x2b88e), (0x1172, 0x2a87e), (0x1143, 0x298cd), (0x1115, 0x2897a), (0x10e7, 0x27a80), (0x10ba, 0x26bdf),
     (0x108d, 0x25d95), (0x1060, 0x24f9f), (0x1035, 0x241fb), (0x1009, 0x234a8), (0xfde, 0x227a3), (0xfb4,
     0x21aeb), (0xf89, 0x20e7e), (0xf60, 0x2025a), (0xf37, 0x1f67e), (0xf0e, 0x1eae8), (0xee5, 0x1df96),
     (0xebe, 0x1d487), (0xe96, 0x1c9b8), (0xe6f, 0x1bf2a), (0xe48, 0x1b4da), (0xe22, 0x1aac6), (0xdfc,
     0x1a0ee), (0xdd7, 0x19750), (0xdb1, 0x18deb), (0xd8d, 0x184bd), (0xd68, 0x17bc6), (0xd44, 0x17303),
     (0xd21, 0x16a74), (0xcfe, 0x16217), (0xcdb, 0x159ec), (0xcb8, 0x151f1), (0xc96, 0x14a25), (0xc75,
     0x14288), (0xc53, 0x13b17), (0xc32, 0x133d3), (0xc11, 0x12cb9), (0xbf1, 0x125c9), (0xbd1, 0x11f03),
     (0xbb1, 0x11865), (0xb92, 0x111ed), (0xb73, 0x10b9d), (0xb54, 0x10571), (0xb36, 0xff6b), (0xb18, 0xf988),
     (0xafa, 0xf3c8), (0xadd, 0xee2a), (0xac0, 0xe8ae), (0xaa3, 0xe352), (0xa86, 0xde16), (0xa6a, 0xd8fa),
     (0xa4e, 0xd3fc), (0xa32, 0xcf1b), (0xa17, 0xca58), (0x9fc, 0xc5b1), (0x9e1, 0xc126), (0x9c7, 0xbcb7),
     (0x9ad, 0xb861), (0x993, 0xb426), (0x979, 0xb004), (0x960, 0xabfb), (0x946, 0xa809), (0x92e, 0xa430),
     (0x915, 0xa06e), (0x8fd, 0x9cc2), (0x8e5, 0x992c), (0x8cd, 0x95ac), (0x8b5, 0x9241), (0x89e, 0x8eea),
     (0x887, 0x8ba8), (0x870, 0x8879), (0x859, 0x855d), (0x843, 0x8254), (0x82d, 0x7f5e), (0x817, 0x7c79),
     (0x801, 0x79a6), (0x7ec, 0x76e4), (0x7d6, 0x7432), (0x7c1, 0x7191), (0x7ad, 0x6eff), (0x798, 0x6c7e),
     (0x784, 0x6a0b), (0x76f, 0x67a7), (0x75c, 0x6552), (0x748, 0x630b), (0x734, 0x60d1), (0x721, 0x5ea5),
     (0x70e, 0x5c86), (0x6fb, 0x5a74), (0x6e8, 0x586f), (0x6d6, 0x5676), (0x6c3, 0x5489), (0x6b1, 0x52a7),
     (0x69f, 0x50d1), (0x68e, 0x4f06), (0x67c, 0x4d46), (0x66b, 0x4b91), (0x659, 0x49e6), (0x648, 0x4845),
     (0x637, 0x46ae), (0x627, 0x4520), (0x616, 0x439c), (0x606, 0x4222), (0x5f6, 0x40b0), (0x5e6, 0x3f47),
     (0x5d6, 0x3de6), (0x5c6, 0x3c8e), (0x5b7, 0x3b3e), (0x5a8, 0x39f6), (0x598, 0x38b6), (0x589, 0x377d),
     (0x57b, 0x364b), (0x56c, 0x3521), (0x55d, 0x33fe), (0x54f, 0x32e2), (0x541, 0x31cc), (0x533, 0x30bd),
     (0x525, 0x2fb5), (0x517, 0x2eb2), (0x509, 0x2db6), (0x4fc, 0x2cbf), (0x4ee, 0x2bcf), (0x4e1, 0x2ae4),
     (0x4d4, 0x29fe), (0x4c7, 0x291e), (0x4ba, 0x2843), (0x4ae, 0x276e), (0x4a1, 0x269d), (0x495, 0x25d1),
     (0x488, 0x250a), (0x47c, 0x2447), (0x470, 0x2389), (0x464, 0x22d0), (0x459, 0x221a), (0x44d, 0x2169),
     (0x441, 0x20bc), (0x436, 0x2013), (0x42b, 0x1f6e), (0x41f, 0x1ecd), (0x414, 0x1e2f), (0x409, 0x1d95),
     (0x3ff, 0x1cff), (0x3f4, 0x1c6c), (0x3e9, 0x1bdc), (0x3df, 0x1b50), (0x3d4, 0x1ac7), (0x3ca, 0x1a41),
     (0x3c0, 0x19be), (0x3b6, 0x193e), (0x3ac, 0x18c1), (0x3a2, 0x1846), (0x398, 0x17cf), (0x38f, 0x175a),
     (0x385, 0x16e8), (0x37c, 0x1678), (0x372, 0x160b), (0x369, 0x15a0), (0x360, 0x1538), (0x357, 0x14d2),
     (0x34e, 0x146e), (0x345, 0x140c), (0x33c, 0x13ad), (0x334, 0x1350), (0x32b, 0x12f4), (0x323, 0x129b),
     (0x31a, 0x1244), (0x312, 0x11ee), (0x30a, 0x119b), (0x302, 0x1149), (0x2f9, 0x10f9), (0x2f1, 0x10ab),
     (0x2ea, 0x105f), (0x2e2, 0x1014), (0x2da, 0xfca), (0x2d2, 0xf83), (0x2cb, 0xf3d), (0x2c3, 0xef8), (0x2bc,
     0xeb5), (0x2b5, 0xe73), (0x2ad, 0xe33), (0x2a6, 0xdf3), (0x29f, 0xdb6), (0x298, 0xd79), (0x291, 0xd3e),
     (0x28a, 0xd04), (0x283, 0xccc), (0x27d, 0xc94), (0x276, 0xc5e), (0x26f, 0xc28), (0x269, 0xbf4), (0x262,
     0xbc1), (0x25c, 0xb8f), (0x256, 0xb5e), (0x24f, 0xb2e), (0x249, 0xaff), (0x243, 0xad1), (0x23d, 0xaa4),
     (0x237, 0xa78), (0x231, 0xa4c), (0x22b, 0xa22), (0x225, 0x9f8), (0x220, 0x9cf), (0x21a, 0x9a7), (0x214,
     0x980), (0x20f, 0x95a), (0x209, 0x934), (0x204, 0x90f), (0x1fe, 0x8eb), (0x1f9, 0x8c7), (0x1f4, 0x8a4),
     (0x1ee, 0x882), (0x1e9, 0x861), (0x1e4, 0x840), (0x1df, 0x820), (0x1da, 0x800), (0x1d5, 0x7e1), (0x1d0,
     0x7c2), (0x1cb, 0x7a5), (0x1c6, 0x787), (0x1c2, 0x76b), (0x1bd, 0x74e), (0x1b8, 0x733), (0x1b4, 0x718),
     (0x1af, 0x6fd), (0x1ab, 0x6e3), (0x1a6, 0x6c9), (0x1a2, 0x6b0), (0x19d, 0x697), (0x199, 0x67f), (0x195,
     0x667), (0x190, 0x64f), (0x18c, 0x639), (0x188, 0x622), (0x184, 0x60c), (0x180, 0x5f6), (0x17c, 0x5e1),
     (0x178, 0x5cc), (0x174, 0x5b7), (0x170, 0x5a3), (0x16c, 0x58f), (0x168, 0x57b), (0x165, 0x568), (0x161,
     0x555), (0x15d, 0x543), (0x159, 0x530), (0x156, 0x51e), (0x152, 0x50d), (0x14f, 0x4fb), (0x14b, 0x4ea),
     (0x148, 0x4da), (0x144, 0x4c9), (0x141, 0x4b9), (0x13e, 0x4a9), (0x13a, 0x49a), (0x137, 0x48a), (0x134,
     0x47b), (0x130, 0x46c), (0x12d, 0x45e), (0x12a, 0x44f), (0x127, 0x441), (0x124, 0x433), (0x121, 0x426),
     (0x11e, 0x418), (0x11b, 0x40b), (0x118, 0x3fe), (0x115, 0x3f1), (0x112, 0x3e5), (0x10f, 0x3d8), (0x10c,
     0x3cc), (0x109, 0x3c0), (0x107, 0x3b4), (0x104, 0x3a9), (0x101, 0x39d), (0xfe, 0x392), (0xfc, 0x387),
     (0xf9, 0x37c), (0xf7, 0x371), (0xf4, 0x367), (0xf1, 0x35c), (0xef, 0x352), (0xec, 0x348), (0xea, 0x33e),
     (0xe7, 0x334), (0xe5, 0x32a), (0xe3, 0x321), (0xe0, 0x318), (0xde, 0x30e), (0xdc, 0x305), (0xd9, 0x2fc),
     (0xd7, 0x2f4), (0xd5, 0x2eb), (0xd2, 0x2e2), (0xd0, 0x2da), (0xce, 0x2d2), (0xcc, 0x2ca), (0xca, 0x2c2),
     (0xc8, 0x2ba), (0xc6, 0x2b2), (0xc3, 0x2aa), (0xc1, 0x2a3), (0xbf, 0x29b), (0xbd, 0x294), (0xbb, 0x28d),
     (0xb9, 0x285), (0xb7, 0x27e), (0xb6, 0x277), (0xb4, 0x271), (0xb2, 0x26a), (0xb0, 0x263), (0xae, 0x25d),
     (0xac, 0x256), (0xaa, 0x250), (0xa9, 0x249), (0xa7, 0x243), (0xa5, 0x23d), (0xa3, 0x237), (0xa2, 0x231),
     (0xa0, 0x22b), (0x9e, 0x225), (0x9d, 0x220), (0x9b, 0x21a), (0x99, 0x214), (0x98, 0x20f), (0x96, 0x20a),
     (0x95, 0x204), (0x93, 0x1ff), (0x91, 0x1fa), (0x90, 0x1f5), (0x8e, 0x1f0), (0x8d, 0x1eb), (0x8b, 0x1e6),
     (0x8a, 0x1e1), (0x89, 0x1dc), (0x87, 0x1d7), (0x86, 0x1d3), (0x84, 0x1ce), (0x83, 0x1c9), (0x81, 0x1c5),
     (0x80, 0x1c0), (0x7f, 0x1bc), (0x7d, 0x1b8)]"

section \<open>The search\<close>

text \<open>\<open>before a b\<close>: an entry \<open>a\<close> stands before an entry \<open>b\<close>: by value upwards for the terrestrial table,
  downwards for the others.\<close>

function cn_search ::
    "(u16 \<Rightarrow> u16 \<Rightarrow> bool) \<Rightarrow> (u16 \<times> u32) list \<Rightarrow> u16 \<Rightarrow> int \<Rightarrow> int \<Rightarrow> u32" where
  "cn_search before tab val i_min i_max =
     (if i_max < i_min then snd (tab ! nat i_max)
      else
        let i = i_min + (i_max - i_min) div 2 in
        if fst (tab ! nat i) = val then snd (tab ! nat i)
        else if before (fst (tab ! nat i)) val then cn_search before tab val (i + 1) i_max
        else cn_search before tab val i_min (i - 1))"
  by pat_completeness auto
termination
  by (relation "measure (\<lambda>(_, _, _, i_min, i_max). nat (i_max - i_min + 1))") auto

definition cn_lookup :: "(u16 \<Rightarrow> u16 \<Rightarrow> bool) \<Rightarrow> (u16 \<times> u32) list \<Rightarrow> u16 \<Rightarrow> u32" where
  "cn_lookup before tab val =
     (let i_max = length tab - 1 in
      if \<not> before (fst (tab ! 0)) val then snd (tab ! 0)
      else if \<not> before val (fst (tab ! i_max)) then snd (tab ! i_max)
      else cn_search before tab val 0 (int i_max))"

definition cnr_isdbt :: "u16 \<Rightarrow> u32" where
  "cnr_isdbt = cn_lookup (<) isdbt_cn_raw_table"

definition cnr_isdbs :: "u16 \<Rightarrow> u32" where
  "cnr_isdbs = cn_lookup (>) isdbs_cn_raw_table"

definition cnr_isdbc :: "u16 \<Rightarrow> u32" where
  "cnr_isdbc val = (if val = 0 then snd (isdbc_cn_raw_table ! 0) else cn_lookup (>) isdbc_cn_raw_table val)"

section \<open>What the search finds\<close>

text \<open>The entry the tables are meant to give: the last one that does not stand after the value, or the
  first when all do.\<close>

definition cn_spec :: "(u16 \<Rightarrow> u16 \<Rightarrow> bool) \<Rightarrow> (u16 \<times> u32) list \<Rightarrow> u16 \<Rightarrow> u32" where
  "cn_spec before tab val =
     (case filter (\<lambda>e. \<not> before val (fst e)) tab of [] \<Rightarrow> snd (hd tab) | es \<Rightarrow> snd (last es))"

locale cn_table =
  fixes before :: "u16 \<Rightarrow> u16 \<Rightarrow> bool" and tab :: "(u16 \<times> u32) list"
  assumes nonempty: "tab \<noteq> []"
    and order: "before a b \<Longrightarrow> before b c \<Longrightarrow> before a c" "\<not> before a a" "a \<noteq> b \<Longrightarrow> before a b \<or> before b a"
    and sorted: "sorted_wrt (\<lambda>x y. before (fst x) (fst y)) tab"
begin

lemma tab_before: "i < j \<Longrightarrow> j < length tab \<Longrightarrow> before (fst (tab ! i)) (fst (tab ! j))"
  using sorted sorted_wrt_nth_less by blast

text \<open>An index at which the value stands decides the specification.\<close>

lemma asym: "before a b \<Longrightarrow> \<not> before b a"
  using order(1,2) by blast

lemma spec_at:
  assumes "k < length tab" "\<not> before val (fst (tab ! k))" "Suc k < length tab \<Longrightarrow> before val (fst (tab ! Suc k))"
  shows "cn_spec before tab val = snd (tab ! k)"
proof -
  have up: "\<not> before val (fst (tab ! i))" if "i \<le> k" for i
    using order(1) [OF _ tab_before [of i k]] that assms(1,2) by (cases "i = k") auto
  have down: "before val (fst (tab ! i))" if "k < i" "i < length tab" for i
    using order(1) [OF assms(3) tab_before [of "Suc k" i]] assms(3) that by (cases "i = Suc k") auto
  have "before val (fst e)" if "e \<in> set (drop (Suc k) tab)" for e
    using that down by (auto simp: in_set_conv_nth)
  then have "filter (\<lambda>e. \<not> before val (fst e)) (drop (Suc k) tab) = []" by (simp add: filter_empty_conv)
  moreover have "\<not> before val (fst e)" if "e \<in> set (take (Suc k) tab)" for e
    using that up by (auto simp: in_set_conv_nth)
  then have "filter (\<lambda>e. \<not> before val (fst e)) (take (Suc k) tab) = take (Suc k) tab" by (simp add: filter_id_conv)
  ultimately have "filter (\<lambda>e. \<not> before val (fst e)) tab = take (Suc k) tab"
    using filter_append [of "\<lambda>e. \<not> before val (fst e)" "take (Suc k) tab" "drop (Suc k) tab"] by simp
  moreover have "take (Suc k) tab = take k tab @ [tab ! k]" by (rule take_Suc_conv_app_nth) (rule assms(1))
  moreover have "(case xs @ [x] of [] \<Rightarrow> a | es \<Rightarrow> snd (last es)) = snd x" for xs and x :: "u16 \<times> u32" and a
    by (cases xs) simp_all
  ultimately show ?thesis unfolding cn_spec_def by simp
qed

lemma search_spec:
  assumes "0 \<le> i_min" "i_min \<le> i_max + 1" "i_max < int (length tab)" "before (fst (tab ! 0)) val"
    and "0 < i_min \<Longrightarrow> before (fst (tab ! nat (i_min - 1))) val"
    and "i_max + 1 < int (length tab) \<Longrightarrow> before val (fst (tab ! nat (i_max + 1)))"
  shows "cn_search before tab val i_min i_max = cn_spec before tab val"
  using assms
proof (induction "nat (i_max - i_min + 1)" arbitrary: i_min i_max rule: less_induct)
  case less
  show ?case
  proof (cases "i_max < i_min")
    case True
    then have m: "i_min = i_max + 1" using less.prems by simp
    have pos: "0 < i_min"
    proof (rule ccontr)
      assume "\<not> 0 < i_min"
      then have "i_max = - 1" using m less.prems(1) by simp
      then show False using less.prems(6) asym [OF less.prems(4)] nonempty by simp
    qed
    then have b: "before (fst (tab ! nat i_max)) val" using less.prems(5) m by simp
    have "cn_spec before tab val = snd (tab ! nat i_max)"
    proof (rule spec_at)
      show "before val (fst (tab ! Suc (nat i_max)))" if "Suc (nat i_max) < length tab"
        using less.prems(6) that pos m by (simp add: Suc_nat_eq_nat_zadd1 add.commute)
    qed (use pos m less.prems(3) asym [OF b] in auto)
    then show ?thesis using True by simp
  next
    case False
    define i where "i = i_min + (i_max - i_min) div 2"
    have i: "i_min \<le> i" "i \<le> i_max" using False by (auto simp: i_def)
    have step: "cn_search before tab val i_min i_max =
        (if fst (tab ! nat i) = val then snd (tab ! nat i)
         else if before (fst (tab ! nat i)) val then cn_search before tab val (i + 1) i_max
         else cn_search before tab val i_min (i - 1))"
      using False by (simp add: i_def Let_def)
    consider "fst (tab ! nat i) = val" | "fst (tab ! nat i) \<noteq> val" "before (fst (tab ! nat i)) val"
      | "fst (tab ! nat i) \<noteq> val" "\<not> before (fst (tab ! nat i)) val" by blast
    then show ?thesis
    proof cases
      case 1
      have "cn_spec before tab val = snd (tab ! nat i)"
      proof (rule spec_at)
        show "before val (fst (tab ! Suc (nat i)))" if "Suc (nat i) < length tab"
          using tab_before [of "nat i" "Suc (nat i)"] that 1 by simp
      qed (use i less.prems 1 order(2) in auto)
      then show ?thesis using step 1 by simp
    next
      case 2
      have "cn_search before tab val (i + 1) i_max = cn_spec before tab val"
        by (rule less.hyps) (use i less.prems 2 in auto)
      then show ?thesis using step 2 by simp
    next
      case 3
      then have "before val (fst (tab ! nat i))" using order(3) by blast
      then have "cn_search before tab val i_min (i - 1) = cn_spec before tab val"
        by (intro less.hyps) (use i less.prems in auto)
      then show ?thesis using step 3 by simp
    qed
  qed
qed

lemma lookup_spec: "cn_lookup before tab val = cn_spec before tab val"
proof -
  let ?n = "length tab - 1"
  have n: "?n < length tab" "0 < length tab" using nonempty by simp_all
  consider "\<not> before (fst (tab ! 0)) val" | "before (fst (tab ! 0)) val" "\<not> before val (fst (tab ! ?n))"
    | "before (fst (tab ! 0)) val" "before val (fst (tab ! ?n))" by blast
  then show ?thesis
  proof cases
    case 1
    show ?thesis
    proof (cases "fst (tab ! 0) = val")
      case True
      have "cn_spec before tab val = snd (tab ! 0)"
        by (rule spec_at) (use n True order(2) tab_before [of 0 "Suc 0"] in auto)
      then show ?thesis using 1 by (simp add: cn_lookup_def)
    next
      case False
      then have v: "before val (fst (tab ! 0))" using 1 order(3) by blast
      have "before val (fst (tab ! i))" if "i < length tab" for i
        using v order(1) [OF v tab_before [of 0 i]] that by (cases "i = 0") auto
      then have "before val (fst e)" if "e \<in> set tab" for e using that by (auto simp: in_set_conv_nth)
      then have "filter (\<lambda>e. \<not> before val (fst e)) tab = []" by (simp add: filter_empty_conv)
      then show ?thesis using 1 nonempty by (simp add: cn_lookup_def cn_spec_def hd_conv_nth)
    qed
  next
    case 2
    then show ?thesis using spec_at [of ?n val] n by (simp add: cn_lookup_def Let_def)
  next
    case 3
    have "cn_search before tab val 0 (int ?n) = cn_spec before tab val"
      by (rule search_spec) (use 3 n in auto)
    then show ?thesis using 3 by (simp add: cn_lookup_def Let_def del: cn_search.simps)
  qed
qed

end

lemma upwards: "sorted_wrt (<) (map fst tab) \<Longrightarrow> tab \<noteq> [] \<Longrightarrow> cn_table (<) tab"
  by unfold_locales (auto simp: sorted_wrt_map)

lemma downwards: "sorted_wrt (>) (map fst tab) \<Longrightarrow> tab \<noteq> [] \<Longrightarrow> cn_table (>) tab"
  by unfold_locales (auto simp: sorted_wrt_map)

text \<open>The tables are sorted; for the ones that fall, comparing neighbours is enough.\<close>

fun falling :: "u16 list \<Rightarrow> bool" where
  "falling (a # b # xs) = (b < a \<and> falling (b # xs))"
| "falling xs = True"

lemma falling_sorted: "falling xs \<Longrightarrow> sorted_wrt (>) xs"
proof (induction xs rule: falling.induct)
  case (1 a b xs)
  then have "sorted_wrt (>) (b # xs)" "b < a" by simp_all
  then show ?case by (auto intro: less_trans)
qed simp_all

interpretation isdbt: cn_table "(<)" isdbt_cn_raw_table
  by (rule upwards) (code_simp, simp add: isdbt_cn_raw_table_def)

interpretation isdbs: cn_table "(>)" isdbs_cn_raw_table
  by (rule downwards, rule falling_sorted) (code_simp, simp add: isdbs_cn_raw_table_def)

interpretation isdbc: cn_table "(>)" isdbc_cn_raw_table
  by (rule downwards, rule falling_sorted) (code_simp, simp add: isdbc_cn_raw_table_def)

text \<open>C37: the three binary searches of the signal quality are exact: for every raw value they return what a
  scan of the whole table would, the last entry that does not lie beyond the value, and the first entry for
  a value before the whole table; only an ISDB-C value of 0 is taken for the worst signal.\<close>

theorem cnr_conversion_exact:
  "cnr_isdbt v = cn_spec (<) isdbt_cn_raw_table v \<and> cnr_isdbs v = cn_spec (>) isdbs_cn_raw_table v \<and>
   cnr_isdbc v = (if v = 0 then snd (hd isdbc_cn_raw_table) else cn_spec (>) isdbc_cn_raw_table v)"
  using isdbc.nonempty
  by (simp add: cnr_isdbt_def cnr_isdbs_def cnr_isdbc_def isdbt.lookup_spec isdbs.lookup_spec isdbc.lookup_spec hd_conv_nth)

end
