(* ===== verification/Pxmlt_Device.thy ===== *)
theory Pxmlt_Device
  imports Px4_Init Cxd2856er Cxd2858er Pxmlt_Cnr
begin

text \<open>
  Model of driver/pxmlt\_device.c: boards with up to five receivers behind one bridge, each a CXD2856ER
  demodulator and a CXD2858ER tuner that receive every system. The device is the \<open>board\<close> of \<open>Px4_Card\<close>,
  whose context is here all of \<^verbatim>\<open>struct pxmlt_device\<close> but the bridge and the \<^verbatim>\<open>available\<close> flag, since
  switching the power also resets a setting of the tuners. The surroundings are \<open>px4_env\<close> and, for the
  initialisation, \<open>px4_init_env\<close>.
\<close>

section \<open>Data\<close>

abbreviation (input) PXMLT_CHRDEV_MAX_NUM :: nat where "PXMLT_CHRDEV_MAX_NUM \<equiv> 5"

datatype pxmlt_model = PXMLT5U_MODEL | PXMLT5PE_MODEL | PXMLT8PE3_MODEL | PXMLT8PE5_MODEL | ISDB6014_4TS_MODEL

text \<open>What the chip drivers change is beside the constant part of the chips. The last three fields are
  fields of the receiver's \<^verbatim>\<open>ptx_chrdev\<close>.\<close>

record 'd pxmlt_chrdev =
  pm_lnb_power :: bool
  pm_filter_disabled :: bool
  pm_cxd2856er :: "'d it930x_bridge cxd2856er_demod"
  pm_vars :: cxd2856er_vars
  pm_cxd2858er :: "'d it930x_bridge cxd2858er_tuner"
  pm_system :: cxd2858er_system
  pm_open :: bool
  pm_discard_null_packets :: bool
  pm_current_system :: u32

record 'd pxmlt_context =
  pm_open_count :: nat
  pm_card_powered :: bool
  pm_lnb_power_count :: u32
  pm_streaming_count :: u32
  pm_kref :: nat
  pm_chrdevm :: "'d pxmlt_chrdev list"
  pm_remain_len :: nat

type_synonym 'd pxmlt_device = "('d, 'd pxmlt_context) board"

definition set_pm :: "('d pxmlt_context \<Rightarrow> 'd pxmlt_context) \<Rightarrow> 'd pxmlt_device \<Rightarrow> 'd pxmlt_device" where
  "set_pm f px = px\<lparr>bd_context := f (bd_context px)\<rparr>"

definition chrdevm :: "nat \<Rightarrow> 'd pxmlt_device \<Rightarrow> 'd pxmlt_chrdev" where
  "chrdevm i px = pm_chrdevm (bd_context px) ! i"

definition set_chrdevm :: "nat \<Rightarrow> ('d pxmlt_chrdev \<Rightarrow> 'd pxmlt_chrdev) \<Rightarrow> 'd pxmlt_device \<Rightarrow> 'd pxmlt_device" where
  "set_chrdevm i f = set_pm (\<lambda>c. c\<lparr>pm_chrdevm := (pm_chrdevm c)[i := f (pm_chrdevm c ! i)]\<rparr>)"

definition set_rfin :: "bool \<Rightarrow> 'd pxmlt_chrdev \<Rightarrow> 'd pxmlt_chrdev" where
  "set_rfin v c = c\<lparr>pm_cxd2858er := (pm_cxd2858er c)\<lparr>ct_rfin_matching := v\<rparr>\<rparr>"

text \<open>Calls of a demodulator that change nothing but the bus, calls that change its state, calls of a tuner.\<close>

definition pm_on_bus :: "nat \<Rightarrow> ('d it930x_bridge cxd2856er_demod \<Rightarrow> 'd it930x_bridge call) \<Rightarrow> 'd pxmlt_device call" where
  "pm_on_bus i f px = on_bridge (f (pm_cxd2856er (chrdevm i px))) px"

definition pm_read ::
    "nat \<Rightarrow> ('d it930x_bridge cxd2856er_demod \<Rightarrow> 'd it930x_bridge \<Rightarrow> int \<times> 'a \<times> 'd it930x_bridge) \<Rightarrow>
      'd pxmlt_device \<Rightarrow> int \<times> 'a \<times> 'd pxmlt_device" where
  "pm_read i f px =
     (let (ret, v, b) = f (pm_cxd2856er (chrdevm i px)) (bd_it930x px) in (ret, v, px\<lparr>bd_it930x := b\<rparr>))"

definition pm_demod ::
    "nat \<Rightarrow> ('d it930x_bridge cxd2856er_demod \<Rightarrow> (cxd2856er_vars \<times> 'd it930x_bridge) call) \<Rightarrow> 'd pxmlt_device call" where
  "pm_demod i f px =
     (let (ret, (v, b)) = f (pm_cxd2856er (chrdevm i px)) (pm_vars (chrdevm i px), bd_it930x px)
      in (ret, (set_chrdevm i (\<lambda>c. c\<lparr>pm_vars := v\<rparr>) px)\<lparr>bd_it930x := b\<rparr>))"

definition pm_tuner ::
    "nat \<Rightarrow> ('d it930x_bridge cxd2858er_tuner \<Rightarrow> (cxd2858er_system \<times> 'd it930x_bridge) call) \<Rightarrow> 'd pxmlt_device call" where
  "pm_tuner i f px =
     (let (ret, (y, b)) = f (pm_cxd2858er (chrdevm i px)) (pm_system (chrdevm i px), bd_it930x px)
      in (ret, (set_chrdevm i (\<lambda>c. c\<lparr>pm_system := y\<rparr>) px)\<lparr>bd_it930x := b\<rparr>))"

section \<open>Power\<close>

definition pxmlt_backend_set_power :: "bool \<Rightarrow> 'd pxmlt_device call" where
  "pxmlt_backend_set_power st px =
     (if \<not> st \<and> \<not> bd_available px then (0, px)
      else if st then
        let (ret, px1) = on_bridge (run_all [it930x_write_gpio 7 False, it930x_write_gpio 2 True]) px in
        if ret \<noteq> 0 then (ret, px1)
        else (0, set_pm (\<lambda>c. c\<lparr>pm_chrdevm := map (set_rfin False) (pm_chrdevm c)\<rparr>) px1)
      else (0, snd (on_bridge (it930x_write_gpio 7 True) (snd (on_bridge (it930x_write_gpio 2 False) px)))))"

definition pxmlt_card_set_power :: "bool \<Rightarrow> 'd pxmlt_device call" where
  "pxmlt_card_set_power on px =
     (let (ret, px1) = (if pm_open_count (bd_context px) = 0 then pxmlt_backend_set_power on px else (0, px)) in
      (ret, if \<not> on \<or> ret = 0 then set_pm (\<lambda>c. c\<lparr>pm_card_powered := on\<rparr>) px1 else px1))"

section \<open>Open and release\<close>

definition pxmlt_chrdev_init :: "'w ptx_chrdev \<Rightarrow> int \<times> 'w ptx_chrdev" where
  "pxmlt_chrdev_init c = (0, c\<lparr>params := (params c)\<lparr>tp_system := PTX_UNSPECIFIED_SYSTEM\<rparr>\<rparr>)"

definition pxmlt_open_ops :: "cxd_op list" where
  "pxmlt_open_ops =
     [SlvT 0x00 0x00, SlvTm 0xc4 0x80 0x88, SlvTm 0xc5 0x01 0x01, SlvTm 0xc6 0x03 0x1f, SlvT 0x00 0x60,
      SlvTm 0x52 0x03 0x1f, SlvT 0x00 0x00, SlvTm 0xc8 0x03 0x1f, SlvTm 0xc9 0x03 0x1f, SlvT 0x00 0xa0,
      SlvTm 0xb9 0x01 0x01]"

text \<open>The label \<^verbatim>\<open>fail_demod_init\<close>.\<close>

definition pxmlt_power_off_unused :: "'d pxmlt_device \<Rightarrow> 'd pxmlt_device" where
  "pxmlt_power_off_unused px =
     (if pm_open_count (bd_context px) = 0 \<and> \<not> pm_card_powered (bd_context px)
      then snd (pxmlt_backend_set_power False px) else px)"

definition pxmlt_chrdev_open :: "nat \<Rightarrow> 'd pxmlt_device call" where
  "pxmlt_chrdev_open i px =
     (let (ret, px1) = (if pm_open_count (bd_context px) = 0 \<and> \<not> pm_card_powered (bd_context px)
                        then pxmlt_backend_set_power True px else (0, px)) in
      if ret \<noteq> 0 then (ret, px1)
      else let (ret, px2) = pm_demod i cxd2856er_init px1 in
      if ret \<noteq> 0 then (ret, pxmlt_power_off_unused px2)
      else let (ret, px3) = pm_tuner i cxd2858er_init px2 in
      if ret \<noteq> 0 then (ret, pxmlt_power_off_unused (snd (pm_demod i cxd2856er_term px3)))
      else let (ret, px4) = pm_on_bus i (\<lambda>dm. run_ops dm pxmlt_open_ops) px3 in
      if ret \<noteq> 0 then
        (ret, pxmlt_power_off_unused (snd (pm_demod i cxd2856er_term (snd (pm_tuner i cxd2858er_term px4)))))
      else (0, set_pm (\<lambda>c. c\<lparr>pm_open_count := pm_open_count c + 1, pm_kref := pm_kref c + 1\<rparr>) px4))"

definition pxmlt_chrdev_set_lnb_voltage :: "nat \<Rightarrow> int \<Rightarrow> 'd pxmlt_device call" where
  "pxmlt_chrdev_set_lnb_voltage i voltage px =
     (let on = (voltage \<noteq> 0) in
      if voltage \<noteq> 0 \<and> voltage \<noteq> 15 then (- EINVAL, px)
      else if pm_lnb_power (chrdevm i px) = on then (0, px)
      else if \<not> on \<and> \<not> bd_available px then (0, px)
      else
        let px1 = (if \<not> on then set_pm (\<lambda>c. c\<lparr>pm_lnb_power_count := pm_lnb_power_count c - 1\<rparr>) px else px);
            (ret, px2) = (if pm_lnb_power_count (bd_context px1) = 0 then on_bridge (it930x_write_gpio 11 on) px1
                          else (0, px1)) in
        if ret \<noteq> 0 \<and> on then (ret, px2)
        else
          (ret, set_chrdevm i (\<lambda>c. c\<lparr>pm_lnb_power := on\<rparr>)
             (if on then set_pm (\<lambda>c. c\<lparr>pm_lnb_power_count := pm_lnb_power_count c + 1\<rparr>) px2 else px2)))"

text \<open>The last reference frees the device, which only matters to memory.\<close>

definition pxmlt_chrdev_release :: "nat \<Rightarrow> 'd pxmlt_device call" where
  "pxmlt_chrdev_release i px =
     (let px0 = snd (pxmlt_chrdev_set_lnb_voltage i 0 px) in
      if pm_open_count (bd_context px0) = 0 then (- EALREADY, px0)
      else
        let px1 = snd (pm_demod i cxd2856er_term (snd (pm_tuner i cxd2858er_term px0)));
            px2 = set_pm (\<lambda>c. c\<lparr>pm_open_count := pm_open_count c - 1\<rparr>) px1
        in (0, set_pm (\<lambda>c. c\<lparr>pm_kref := pm_kref c - 1\<rparr>) (pxmlt_power_off_unused px2)))"

section \<open>Tuning\<close>

definition pxmlt_chrdev_set_null_packet_filter :: "nat \<Rightarrow> bool \<Rightarrow> 'd pxmlt_device call" where
  "pxmlt_chrdev_set_null_packet_filter i enable px =
     (if \<not> pm_discard_null_packets (chrdevm i px) \<or> pm_filter_disabled (chrdevm i px) = (\<not> enable) then (0, px)
      else
        let (ret, px1) = on_bridge (it930x_set_pid_filter (int i) (if enable then Some null_filter else None)) px
        in (ret, if ret = 0 then set_chrdevm i (\<lambda>c. c\<lparr>pm_filter_disabled := \<not> enable\<rparr>) px1 else px1))"

text \<open>The first cable system after power up: every tuner keeps its input matched from now on. Closed ones
  are initialised with that setting and put to sleep again, open ones take it over when they next stop.\<close>

definition match_tuner :: "nat \<Rightarrow> 'd pxmlt_device call" where
  "match_tuner j px =
     (if ct_rfin_matching (pm_cxd2858er (chrdevm j px)) then (0, px)
      else
        let px1 = set_chrdevm j (set_rfin True) px in
        if pm_open (chrdevm j px1) then (0, px1)
        else
          let (ret, px2) = run_all [pm_demod j cxd2856er_init, pm_tuner j cxd2858er_init] px1;
              px3 = snd (pm_demod j cxd2856er_term px2)
          in (0, if ret \<noteq> 0 then set_chrdevm j (set_rfin False) px3 else px3))"

definition match_tuners :: "'d pxmlt_device call" where
  "match_tuners px = run_each match_tuner [0..<length (pm_chrdevm (bd_context px))] px"

definition demod_wakeup :: "nat \<Rightarrow> cxd2856er_system \<Rightarrow> u32 \<Rightarrow> 'd pxmlt_device call" where
  "demod_wakeup i system bandwidth = pm_demod i (\<lambda>dm. cxd2856er_wakeup dm system bandwidth)"

definition tune_demod :: "nat \<Rightarrow> ptx_tune_params \<Rightarrow> 'd pxmlt_device call" where
  "tune_demod i prm px =
     (if tp_system prm = PTX_ISDB_T_SYSTEM then demod_wakeup i CXD2856ER_ISDB_T_SYSTEM (tp_bandwidth prm) px
      else if tp_system prm = PTX_ISDB_S_SYSTEM then demod_wakeup i CXD2856ER_ISDB_S_SYSTEM 0 px
      else if tp_system prm = PTX_ISDB_C_SYSTEM \<or> tp_system prm = PTX_J83B_SYSTEM then
        let j83b = (tp_system prm = PTX_J83B_SYSTEM) in
        run_all [match_tuners, pxmlt_chrdev_set_null_packet_filter i j83b,
          demod_wakeup i (if j83b then CXD2856ER_J83B_SYSTEM else CXD2856ER_ISDB_C_SYSTEM) 0] px
      else (- EINVAL, px))"

definition tune_tuner :: "nat \<Rightarrow> ptx_tune_params \<Rightarrow> 'd pxmlt_device call" where
  "tune_tuner i prm px =
     (if tp_system prm = PTX_ISDB_T_SYSTEM then
        pm_tuner i (\<lambda>t. cxd2858er_set_params_t t CXD2858ER_ISDB_T_SYSTEM (tp_freq prm) 6) px
      else if tp_system prm = PTX_ISDB_S_SYSTEM then
        pm_tuner i (\<lambda>t. cxd2858er_set_params_s t CXD2858ER_ISDB_S_SYSTEM (tp_freq prm) 28860) px
      else if tp_system prm = PTX_ISDB_C_SYSTEM \<or> tp_system prm = PTX_J83B_SYSTEM then
        pm_tuner i (\<lambda>t. cxd2858er_set_params_c t (tp_freq prm) (tp_system prm = PTX_J83B_SYSTEM)) px
      else (0, px))"

definition pxmlt_chrdev_tune :: "nat \<Rightarrow> ptx_tune_params \<Rightarrow> 'd pxmlt_device call" where
  "pxmlt_chrdev_tune i prm px = run_all
     ((if pm_filter_disabled (chrdevm i px) \<and> tp_system prm \<noteq> PTX_ISDB_C_SYSTEM
       then [pxmlt_chrdev_set_null_packet_filter i True] else []) @
      [tune_demod i prm, tune_tuner i prm, pm_on_bus i cxd2856er_post_tune]) px"

text \<open>The parameter is what \<^verbatim>\<open>*locked\<close> holds before the call.\<close>

definition pxmlt_chrdev_check_lock :: "nat \<Rightarrow> bool \<Rightarrow> 'd pxmlt_device \<Rightarrow> int \<times> bool \<times> 'd pxmlt_device" where
  "pxmlt_chrdev_check_lock i locked px =
     (let sys = pm_current_system (chrdevm i px) in
      if sys = PTX_ISDB_T_SYSTEM then
        let (ret, (l, u), px1) = pm_read i (\<lambda>dm s. let (ret, l, u, s1) = cxd2856er_is_ts_locked_isdbt dm s in (ret, (l, u), s1)) px
        in (if ret = 0 \<and> u then - ECANCELED else ret, l, px1)
      else if sys = PTX_ISDB_S_SYSTEM then pm_read i cxd2856er_is_ts_locked_isdbs px
      else if sys = PTX_ISDB_C_SYSTEM \<or> sys = PTX_J83B_SYSTEM then pm_read i cxd2856er_is_ts_locked_isdbc px
      else (- EINVAL, locked, px))"

definition pxmlt_chrdev_set_stream_id :: "nat \<Rightarrow> u16 \<Rightarrow> 'd pxmlt_device call" where
  "pxmlt_chrdev_set_stream_id i stream_id =
     (if stream_id < 12 then pm_on_bus i (\<lambda>dm. cxd2856er_set_slot_isdbs dm stream_id)
      else pm_on_bus i (\<lambda>dm. cxd2856er_set_tsid_isdbs dm stream_id))"

section \<open>Capture and signal quality\<close>

definition pxmlt_chrdev_start_capture :: "'d px4_env \<Rightarrow> 'd pxmlt_device call" where
  "pxmlt_chrdev_start_capture env px =
     (let (ret, px1) = (if pm_streaming_count (bd_context px) = 0 then
            run_all [on_bridge (it930x_purge_psb (pe_kmalloc env) (pe_psb_purge_timeout env)),
              (\<lambda>px. on_bridge (pe_start_streaming env) (set_pm (\<lambda>c. c\<lparr>pm_remain_len := 0\<rparr>) px))] px
          else (0, px)) in
      (ret, if ret \<noteq> 0 then px1 else set_pm (\<lambda>c. c\<lparr>pm_streaming_count := pm_streaming_count c + 1\<rparr>) px1))"

definition pxmlt_chrdev_stop_capture :: "'d px4_env \<Rightarrow> 'd pxmlt_device call" where
  "pxmlt_chrdev_stop_capture env px =
     (if pm_streaming_count (bd_context px) = 0 then (- EALREADY, px)
      else
        let px1 = set_pm (\<lambda>c. c\<lparr>pm_streaming_count := pm_streaming_count c - 1\<rparr>) px
        in (0, if pm_streaming_count (bd_context px1) = 0 then snd (on_bridge (pe_stop_streaming env) px1) else px1))"

definition pxmlt_chrdev_set_capture :: "'d px4_env \<Rightarrow> bool \<Rightarrow> 'd pxmlt_device call" where
  "pxmlt_chrdev_set_capture env status =
     (if status then pxmlt_chrdev_start_capture env else pxmlt_chrdev_stop_capture env)"

definition pxmlt_chrdev_read_cnr_raw :: "nat \<Rightarrow> u32 \<Rightarrow> 'd pxmlt_device \<Rightarrow> int \<times> u32 \<times> 'd pxmlt_device" where
  "pxmlt_chrdev_read_cnr_raw i v px =
     (let sys = pm_current_system (chrdevm i px);
          convert = (\<lambda>conv (ret, raw, px1). (ret, if ret = 0 then conv raw else v, px1)) in
      if sys = PTX_ISDB_T_SYSTEM then convert cnr_isdbt (pm_read i cxd2856er_read_cnr_raw_isdbt px)
      else if sys = PTX_ISDB_S_SYSTEM then convert cnr_isdbs (pm_read i cxd2856er_read_cnr_raw_isdbs px)
      else if sys = PTX_ISDB_C_SYSTEM \<or> sys = PTX_J83B_SYSTEM then
        convert cnr_isdbc (pm_read i cxd2856er_read_cnr_raw_isdbc px)
      else (- EINVAL, v, px))"

definition pxmlt_chrdev_ops :: "'d px4_env \<Rightarrow> nat \<Rightarrow> 'd pxmlt_device ptx_ops" where
  "pxmlt_chrdev_ops env i =
     \<lparr> op_init = Some (\<lambda>px. (0, px)), op_term = Some (\<lambda>px. (0, px)), op_open = Some (pxmlt_chrdev_open i),
       op_release = Some (pxmlt_chrdev_release i), op_tune = Some (\<lambda>px prm. pxmlt_chrdev_tune i prm px),
       op_check_lock = Some (\<lambda>px l. pxmlt_chrdev_check_lock i l px), op_read_tmcc_partial_reception = None,
       op_read_tmcc_tsid_list = None, op_set_stream_id = Some (\<lambda>px sid. pxmlt_chrdev_set_stream_id i sid px),
       op_set_lnb_voltage = Some (\<lambda>px v. pxmlt_chrdev_set_lnb_voltage i v px),
       op_set_capture = Some (\<lambda>px st. pxmlt_chrdev_set_capture env st px),
       op_read_cnr_raw = Some (\<lambda>px v. pxmlt_chrdev_read_cnr_raw i v px) \<rparr>"

section \<open>Initialisation\<close>

text \<open>Address, bus and port of each receiver.\<close>

fun pxmlt_device_params :: "pxmlt_model \<Rightarrow> (u8 \<times> u8 \<times> nat) list" where
  "pxmlt_device_params PXMLT5U_MODEL = [(0x65, 3, 4), (0x6c, 1, 3), (0x64, 1, 1), (0x6c, 3, 2), (0x64, 3, 0)]"
| "pxmlt_device_params PXMLT5PE_MODEL = [(0x65, 3, 0), (0x6c, 1, 1), (0x64, 1, 2), (0x6c, 3, 3), (0x64, 3, 4)]"
| "pxmlt_device_params PXMLT8PE3_MODEL = [(0x65, 3, 0), (0x6c, 3, 3), (0x64, 3, 4), (0x00, 0, 1), (0x00, 0, 2)]"
| "pxmlt_device_params PXMLT8PE5_MODEL = [(0x65, 1, 0), (0x64, 1, 1), (0x6c, 1, 2), (0x6c, 3, 3), (0x64, 3, 4)]"
| "pxmlt_device_params ISDB6014_4TS_MODEL = [(0x65, 3, 0), (0x6c, 1, 1), (0x64, 1, 2), (0x64, 3, 4), (0x00, 0, 3)]"

definition pxmlt_chrdevm_num :: "pxmlt_model \<Rightarrow> nat" where
  "pxmlt_chrdevm_num model = (case model of PXMLT8PE3_MODEL \<Rightarrow> 3 | ISDB6014_4TS_MODEL \<Rightarrow> 4 | _ \<Rightarrow> 5)"

definition pxmlt_input :: "pxmlt_model \<Rightarrow> nat \<Rightarrow> it930x_stream_input" where
  "pxmlt_input model i =
     (let (addr, bus, port) = pxmlt_device_params model ! i in
      \<lparr> si_enable = True, si_is_parallel = False, si_port_number = of_nat port, si_slave_number = of_nat i,
        si_i2c_bus = bus, si_i2c_addr = addr, si_packet_len = 188,
        si_sync_byte = push_bit 4 (of_nat (i + 1)) OR 0x07 \<rparr>)"

definition pxmlt_config_chrdev :: "pxmlt_model \<Rightarrow> nat \<Rightarrow> 'd pxmlt_chrdev \<Rightarrow> 'd pxmlt_chrdev" where
  "pxmlt_config_chrdev model i c =
     (let (addr, bus, port) = pxmlt_device_params model ! i;
          dm = (pm_cxd2856er c)\<lparr>
            cx_i2c := \<lparr> i2c_gate_ctrl = None, i2c_request = Some (it930x_i2c_master_request bus) \<rparr>,
            cx_slvx := addr + 2, cx_slvt := addr, cx_xtal := 24000, cx_tuner_i2c := True \<rparr>
      in c\<lparr> pm_cxd2856er := dm, pm_cxd2858er := (pm_cxd2858er c)\<lparr> ct_i2c := cxd2856er_master dm, ct_addr := 0x60,
             ct_xtal := 16000, ct_ter_lna := True, ct_rfin_matching := False, ct_sat_lna := True \<rparr> \<rparr>)"

definition pxmlt_set_inputs :: "pxmlt_model \<Rightarrow> 'd it930x_bridge \<Rightarrow> 'd it930x_bridge" where
  "pxmlt_set_inputs model b =
     (let cfg = it_config b; ins = config_input cfg; n = pxmlt_chrdevm_num model in
      b\<lparr>it_config := cfg\<lparr>config_input := map (pxmlt_input model) [0..<n] @
         map (\<lambda>i. (ins ! i)\<lparr>si_enable := False, si_port_number := of_nat (snd (snd (pxmlt_device_params model ! i)))\<rparr>)
           [n..<PXMLT_CHRDEV_MAX_NUM] @ drop 5 ins\<rparr>\<rparr>)"

text \<open>As on the other boards, an EEPROM that reads 0 ends the function with 0 and nothing set.\<close>

definition pxmlt_device_load_config :: "pxmlt_model \<Rightarrow> u8 \<Rightarrow> 'd pxmlt_device \<Rightarrow> int \<times> bool \<times> 'd pxmlt_device" where
  "pxmlt_device_load_config model j px =
     (let (ret, tmp, b) = it930x_read_reg 0x4979 j (bd_it930x px); px1 = px\<lparr>bd_it930x := b\<rparr> in
      if ret \<noteq> 0 then (ret, False, px1)
      else if tmp = 0 then (0, False, px1)
      else (0, True, (set_pm (\<lambda>c. c\<lparr>pm_chrdevm :=
          map (\<lambda>i. pxmlt_config_chrdev model i (pm_chrdevm c ! i)) [0..<pxmlt_chrdevm_num model]\<rparr>) px1)
          \<lparr>bd_it930x := pxmlt_set_inputs model b\<rparr>))"

definition pxmlt_pins :: "'d it930x_bridge call" where
  "pxmlt_pins = run_all
     [it930x_set_gpio_mode 7 IT930X_GPIO_OUT True, it930x_write_gpio 7 True,
      it930x_set_gpio_mode 2 IT930X_GPIO_OUT True, it930x_write_gpio 2 False,
      it930x_set_gpio_mode 11 IT930X_GPIO_OUT True, it930x_write_gpio 11 False]"

definition pxmlt_fresh :: "pxmlt_model \<Rightarrow> 'd pxmlt_device \<Rightarrow> 'd pxmlt_device" where
  "pxmlt_fresh model = set_pm (\<lambda>c. c\<lparr> pm_open_count := 0, pm_card_powered := False, pm_lnb_power_count := 0,
     pm_streaming_count := 0, pm_kref := 1,
     pm_chrdevm := map (\<lambda>c. c\<lparr>pm_lnb_power := False\<rparr>) (take (pxmlt_chrdevm_num model) (pm_chrdevm c)) \<rparr>)"

text \<open>\<^verbatim>\<open>pxmlt_device_init\<close> up to \<^verbatim>\<open>ptx_chrdev_context_add_group\<close>.\<close>

definition pxmlt_device_bring_up ::
    "px4_init_env \<Rightarrow> pxmlt_model \<Rightarrow> 'd pxmlt_device \<Rightarrow> (int \<times> 'd pxmlt_device) option" where
  "pxmlt_device_bring_up env model px =
     (let px0 = pxmlt_fresh model px in
      if \<not> ie_mem env then Some (- ENOMEM, px0)
      else if ie_bus_init env \<noteq> 0 then Some (ie_bus_init env, px0)
      else
        let (ret, px1) = on_bridge (run_all [it930x_init (ie_mem env) (ie_mem env), it930x_raise]) px0 in
        if ret \<noteq> 0 then Some (ret, px1)
        else
          let (ret, _, px2) = pxmlt_device_load_config model (ie_junk env) px1 in
          if ret \<noteq> 0 then Some (ret, px2)
          else case it930x_load_firmware (ie_fuel env) (ie_firmware env) (bd_it930x px2) of
                 None \<Rightarrow> None
               | Some (ret, b) \<Rightarrow>
                   let px3 = px2\<lparr>bd_it930x := b\<rparr> in
                   if ret \<noteq> 0 then Some (ret, px3)
                   else Some (run_all ([on_bridge it930x_init_warm, on_bridge pxmlt_pins] @
                     (if ie_discard_null_packets env
                      then map (\<lambda>i. on_bridge (it930x_set_pid_filter (int i) (Some null_filter))) [0..<pxmlt_chrdevm_num model]
                      else [])) px3))"

text \<open>\<^verbatim>\<open>pxmlt_device_term\<close> without the card reader and the group of receivers, which it unregisters in between.\<close>

definition pxmlt_device_term :: "'d pxmlt_device \<Rightarrow> 'd pxmlt_device" where
  "pxmlt_device_term px = set_pm (\<lambda>c. c\<lparr>pm_kref := pm_kref c - 1\<rparr>) (px\<lparr>bd_available := False\<rparr>)"

end
