(* ===== verification/Cxd_Client.thy ===== *)
theory Cxd_Client
  imports Bus_Client Cxd_Props
begin

text \<open>
  The drivers of the two Sony chips keep what the bus below keeps, as \<open>Bus_Client\<close> shows it for the other
  chips. The tuner also opens and closes a gate of its master, so the master the demodulator offers keeps
  it with both of its functions (the sublocale of \<open>bus_cxd\<close>).
\<close>

locale bus_gated = bus_invariant +
  assumes gate_keeps: "Q s \<Longrightarrow> Q (snd (i2c_comm_master_gate_ctrl i2c g s))"

locale bus_cxd = bus_invariant i2c Q for i2c :: "'s i2c_comm_master" and Q +
  fixes dm :: "'s cxd2856er_demod"
  assumes on_bus: "cx_i2c dm = i2c"
begin

lemma cx_read_regs: "Q s \<Longrightarrow> Q (snd (snd (cxd2856er_read_regs dm tg reg buf s)))"
  by (simp add: cxd2856er_read_regs_def on_bus request_keeps Let_def case_prod_beta)

lemma cx_write_regs: "Q s \<Longrightarrow> Q (snd (cxd2856er_write_regs dm tg reg buf s))"
  by (simp add: cxd2856er_write_regs_def on_bus request_keeps Let_def case_prod_beta)

lemma cx_simple:
  assumes "Q s"
  shows "Q (snd (cxd2856er_write_slvt_reg dm reg v s))" "Q (snd (cxd2856er_write_slvx_reg dm reg v s))"
    "Q (snd (cxd2856er_write_slvt_regs dm reg buf s))" "Q (snd (snd (cxd2856er_read_slvt_reg dm reg v s)))"
    "Q (snd (snd (cxd2856er_read_slvt_regs dm reg buf s)))" "Q (snd (cxd2856er_write_reg_mask dm tg reg v m s))"
    "Q (snd (cxd2856er_write_slvt_reg_mask dm reg v m s))"
  using assms by (simp_all add: cxd2856er_write_slvt_reg_def cxd2856er_write_slvx_reg_def cxd2856er_write_slvt_regs_def
      cxd2856er_read_slvt_reg_def cxd2856er_read_slvt_regs_def cxd2856er_write_slvt_reg_mask_def cxd2856er_write_reg_mask_def
      cx_read_regs cx_write_regs Let_def case_prod_beta)

lemma cx_op: "Q s \<Longrightarrow> Q (snd (op_call dm p s))"
  by (cases p) (simp_all add: cx_simple cxd2856er_set_ts_pin_state_def Let_def case_prod_beta)

lemma cx_ops: "Q s \<Longrightarrow> Q (snd (run_ops dm ps s))"
  unfolding run_ops_def run_each_def by (rule run_all_keeps) (auto simp: cx_op)

lemma cx_sleep: "Q (snd vs) \<Longrightarrow> Q (snd (snd (cxd2856er_sleep dm vs)))"
  by (auto simp: cxd2856er_sleep_def cx_ops Let_def case_prod_beta split: cxd2856er_system.splits)

lemma cx_system: "Q (snd vs) \<Longrightarrow> Q (snd (snd (wakeup_system dm system bw vs)))"
  by (cases vs) (simp add: wakeup_system_eq cx_ops Let_def case_prod_beta)

lemma cx_calls:
  assumes "Q (snd vs)"
  shows "Q (snd (snd (cxd2856er_init dm vs)))" "Q (snd (snd (cxd2856er_term dm vs)))"
    "Q (snd (snd (cxd2856er_wakeup dm system bw vs)))"
proof -
  show "Q (snd (snd (cxd2856er_init dm vs)))" "Q (snd (snd (cxd2856er_term dm vs)))"
    using assms by (simp_all add: cxd2856er_init_def cxd2856er_term_def cx_sleep cx_ops Let_def case_prod_beta)
  have w: "Q (snd (snd (with_vars (run_ops dm ps) us)))" if "Q (snd us)" for ps us
    using that by (simp add: with_vars_def cx_ops case_prod_beta)
  define r where "r = (if cx_state (fst vs) = CXD2856ER_ACTIVE_STATE \<and> is_cable (cx_system (fst vs)) \<and>
      (system \<noteq> cx_system (fst vs) \<or> cable_wakeup_incomplete (fst vs)) then cxd2856er_sleep dm vs else (0, vs))"
  have r: "Q (snd (snd r))" using assms by (simp add: r_def cx_sleep)
  show "Q (snd (snd (cxd2856er_wakeup dm system bw vs)))"
    unfolding cxd2856er_wakeup_def Let_def case_prod_beta r_def [symmetric]
    using r by (simp add: w cx_system cx_sleep)
qed

lemma cx_reads:
  assumes "Q s"
  shows "Q (snd (snd (snd (cxd2856er_is_ts_locked_isdbt dm s))))" "Q (snd (snd (cxd2856er_is_ts_locked_isdbs dm s)))"
    "Q (snd (snd (cxd2856er_is_ts_locked_isdbc dm s)))" "Q (snd (snd (cxd2856er_read_cnr_raw_isdbt dm s)))"
    "Q (snd (snd (cxd2856er_read_cnr_raw_isdbs dm s)))" "Q (snd (snd (cxd2856er_read_cnr_raw_isdbc dm s)))"
  using assms by (simp_all add: cxd2856er_is_ts_locked_isdbt_def cxd2856er_is_ts_locked_isdbs_def cxd2856er_is_ts_locked_isdbc_def
      cxd2856er_read_cnr_raw_isdbt_def cxd2856er_read_cnr_raw_isdbs_def cxd2856er_read_cnr_raw_isdbc_def cx_simple cx_ops Let_def case_prod_beta)

lemma cx_streams:
  assumes "Q s"
  shows "Q (snd (cxd2856er_post_tune dm s))" "Q (snd (cxd2856er_set_slot_isdbs dm idx s))" "Q (snd (cxd2856er_set_tsid_isdbs dm idx s))"
  using assms by (simp_all add: cxd2856er_post_tune_def cxd2856er_set_slot_isdbs_def cxd2856er_set_tsid_isdbs_def cx_ops)

lemma through_keeps: "Q s \<Longrightarrow> Q (snd (snd (i2c_comm_master_request (cxd2856er_master dm) reqs s)))"
  using request_keeps unfolding i2c_comm_master_request_def [of "cxd2856er_master dm"]
  by (simp add: cxd2856er_master_def cxd2856er_i2c_master_request_def on_bus)

lemma gate_through: "Q s \<Longrightarrow> Q (snd (i2c_comm_master_gate_ctrl (cxd2856er_master dm) g s))"
  by (simp add: i2c_comm_master_gate_ctrl_def cxd2856er_master_def cxd2856er_i2c_master_gate_ctrl_def cx_simple)

end

sublocale bus_cxd \<subseteq> tuner: bus_gated "cxd2856er_master dm" Q
  by unfold_locales (rule through_keeps gate_through, assumption)+

context bus_gated
begin

lemma ct_write: "ct_i2c t = i2c \<Longrightarrow> Q s \<Longrightarrow> Q (snd (cxd2858er_write_regs t reg buf s))"
  by (simp add: cxd2858er_write_regs_def request_keeps Let_def case_prod_beta)

lemma ct_read: "ct_i2c t = i2c \<Longrightarrow> Q s \<Longrightarrow> Q (snd (snd (cxd2858er_read_regs t reg buf s)))"
  by (simp add: cxd2858er_read_regs_def request_keeps Let_def case_prod_beta)

lemma ct_op: "ct_i2c t = i2c \<Longrightarrow> Q s \<Longrightarrow> Q (snd (tun_call t p s))"
  by (cases p) (simp_all add: ct_write ct_read cxd2858er_write_reg_mask_def Let_def case_prod_beta)

lemma ct_ops: "ct_i2c t = i2c \<Longrightarrow> Q s \<Longrightarrow> Q (snd (tun_ops t ps s))"
  unfolding tun_ops_def run_each_def by (rule run_all_keeps) (auto simp: ct_op)

lemma ct_gated:
  assumes "ct_i2c t = i2c" "Q (snd ys)" "\<And>us. Q (snd us) \<Longrightarrow> Q (snd (snd (work us)))"
  shows "Q (snd (snd (gated t work ys)))"
  using assms by (simp add: gated_def gate_keeps Let_def case_prod_beta)

lemma ct_stops:
  assumes "ct_i2c t = i2c" "Q (snd ys)"
  shows "Q (snd (snd (cxd2858er_stop_t t ys)))" "Q (snd (snd (cxd2858er_stop_s t ys)))"
    "Q (snd (snd (stop_if_s t ys)))" "Q (snd (snd (stop_if_t t ys)))" "Q (snd (snd (stop_system t ys)))"
  using assms by (auto simp: cxd2858er_stop_t_def cxd2858er_stop_s_def stop_if_s_def stop_if_t_def stop_system_def ct_ops
      Let_def case_prod_beta split: cxd2858er_system.split)

lemma ct_retune:
  assumes "ct_i2c t = i2c" "Q (snd ys)" "\<And>us. Q (snd us) \<Longrightarrow> Q (snd (snd (stop us)))"
  shows "Q (snd (snd (retune t stop ops system ys)))"
  using assms by (simp add: retune_def ct_ops Let_def case_prod_beta)

lemma ct_calls:
  assumes "ct_i2c t = i2c" "Q (snd ys)"
  shows "Q (snd (snd (cxd2858er_init t ys)))" "Q (snd (snd (cxd2858er_term t ys)))" "Q (snd (snd (cxd2858er_stop t ys)))"
    "Q (snd (snd (cxd2858er_set_params_t t system freq bw ys)))" "Q (snd (snd (cxd2858er_set_params_c t freq j ys)))"
    "Q (snd (snd (cxd2858er_set_params_s t system freq bw ys)))"
proof -
  have p: "Q (snd (cxd2858er_power_on t s))" if "Q s" for s
    using that assms(1) by (simp add: cxd2858er_power_on_def cxd2858er_read_reg_def ct_ops ct_read ct_write Let_def case_prod_beta)
  show "Q (snd (snd (cxd2858er_init t ys)))" "Q (snd (snd (cxd2858er_stop t ys)))"
    using assms by (auto simp: cxd2858er_init_def cxd2858er_stop_def p ct_stops case_prod_beta intro!: ct_gated)
  show "Q (snd (snd (cxd2858er_term t ys)))"
    using assms by (simp add: cxd2858er_term_def ct_stops gate_keeps Let_def case_prod_beta)
  show "Q (snd (snd (cxd2858er_set_params_t t system freq bw ys)))" "Q (snd (snd (cxd2858er_set_params_c t freq j ys)))"
    "Q (snd (snd (cxd2858er_set_params_s t system freq bw ys)))"
    using assms by (auto simp: cxd2858er_set_params_t_def cxd2858er_set_params_c_def cxd2858er_set_params_s_def ct_stops
        intro!: ct_gated ct_retune)
qed

end

end
