(* ===== verification/Pxmlt_Props.thy ===== *)
theory Pxmlt_Props
  imports Pxmlt_Device Px4_Device_Props Cxd_Client
begin

text \<open>
  The power of the PX-MLT boards. \<open>calm\<close> is what all calls keep that are not about power: the counts, the
  wiring of the chips and the two supply pins. The life of a board is the relation \<open>pxmlt_step\<close>: calls of
  its receivers, of its card reader and of the USB core, in any order.
\<close>

section \<open>Calls that leave the power alone\<close>

lemma write_regs_view:
  assumes "length buf \<noteq> 1"
  shows "gview (snd (it930x_write_regs reg buf b)) = gview b"
proof -
  let ?w = "[of_nat (length buf), it930x_reg_length reg] @ reg_bytes reg @ buf"
  obtain ret out b' where m: "it930x_ctrl_msg IT930X_CMD_REG_WRITE (Some ?w) None False b = (ret, out, b')"
    using prod_cases3 by blast
  have "length ?w = length buf + 6" by (simp add: reg_bytes_def)
  then have "reg_write_of (IT930X_CMD_REG_WRITE, payload_of (Some ?w), ret) = None"
    using assms by (simp add: reg_write_of_def payload_of_def)
  then have "gview b' = gview b"
    using ctrl_msg_log [OF m] ctrl_msg_not_sent [OF m]
    by (cases "length (payload_of (Some ?w)) < 250") (auto simp: gview_def)
  then show ?thesis using m by (simp add: it930x_write_regs_def)
qed

lemma raise_ub_view [simp]: "gview (snd (raise_ub b)) = gview b"
  by (simp add: raise_ub_def gview_def)

lemma filter_regs_apart:
  "list_all (\<lambda>p. remap_mode_regs ! p \<notin> set gpio_o_regs \<and> pid_index_regs ! p \<notin> set gpio_o_regs \<and>
     0xda73 + of_nat p \<notin> set gpio_o_regs) [0..<5] \<and> (0xda14 :: u32) \<notin> set gpio_o_regs"
  by code_simp

lemma pid_filter_view: "gview (snd (it930x_set_pid_filter i f b)) = gview b"
proof -
  have r: "remap_mode_regs ! p \<notin> set gpio_o_regs" "pid_index_regs ! p \<notin> set gpio_o_regs" "0xda73 + of_nat p \<notin> set gpio_o_regs"
      "0xda14 \<notin> set gpio_o_regs" if "p < 5" for p
    using filter_regs_apart that unfolding list_all_iff set_upt by (meson atLeastLessThan_iff zero_le)+
  have one: "gview (snd (set_one_pid p pids k c)) = gview c" if "p < 5" for p pids k and c :: "'a it930x_bridge"
    using r [OF that] by (simp add: set_one_pid_def write_regs_view write_reg_view Let_def case_prod_beta)
  have run: "gview (snd (run_all fs c)) = gview c" if "\<And>g u. g \<in> set fs \<Longrightarrow> gview (snd (g u)) = gview u"
    for fs and c :: "'a it930x_bridge"
    using run_all_inv [of fs "\<lambda>u. gview u = gview c" c] that by simp
  define p where "p = unat (si_port_number (config_input (it_config b) ! nat i))"
  show ?thesis unfolding it930x_set_pid_filter_def Let_def p_def [symmetric]
    by (auto simp: r one write_reg_view write_regs_view not_le simp del: run_all.simps intro!: run split: option.split)
qed

definition wired_m :: "'d pxmlt_chrdev \<Rightarrow> bool" where
  "wired_m c \<longleftrightarrow> (\<exists>n. cx_i2c (pm_cxd2856er c) = bridge_master n) \<and> ct_i2c (pm_cxd2858er c) = cxd2856er_master (pm_cxd2856er c)"

definition wired_all :: "'d pxmlt_device \<Rightarrow> bool" where
  "wired_all px \<longleftrightarrow> (\<forall>c \<in> set (pm_chrdevm (bd_context px)). wired_m c)"

definition counts :: "'d pxmlt_device \<Rightarrow> nat \<times> bool \<times> nat \<times> u32 \<times> (bool \<times> bool) list" where
  "counts px = (let c = bd_context px in (pm_open_count c, pm_card_powered c, pm_kref c, pm_lnb_power_count c,
     map (\<lambda>c. (pm_open c, pm_lnb_power c)) (pm_chrdevm c)))"

definition calm :: "'d pxmlt_device \<Rightarrow> 'd pxmlt_device \<Rightarrow> bool" where
  "calm px px' \<longleftrightarrow> wired_all px \<longrightarrow> counts px' = counts px \<and> wired_all px' \<and> pview (bd_it930x px') = pview (bd_it930x px)"

lemma calm_off: "\<not> wired_all px \<Longrightarrow> calm px px'"
  by (simp add: calm_def)

lemma calm_refl [simp]: "calm px px"
  by (simp add: calm_def)

lemma calm_trans: "calm a b \<Longrightarrow> calm b c \<Longrightarrow> calm a c"
  unfolding calm_def by argo

interpretation sony_pins: bus_cxd "bridge_master n" "\<lambda>b. gview b = V" "cxd_on n slvx slvt ti j" for n V slvx slvt ti j
  using pins.request_keeps by unfold_locales (auto simp: bridge_master_def cxd_on_def)

lemma wired_cxd: "cx_i2c dm = bridge_master n \<Longrightarrow> bus_cxd (bridge_master n) (\<lambda>b. gview b = V) dm"
  using sony_pins.bus_invariant_axioms by (simp add: bus_cxd_def bus_cxd_axioms_def)

lemma wired_gated: "cx_i2c dm = bridge_master n \<Longrightarrow> bus_gated (cxd2856er_master dm) (\<lambda>b. gview b = V)"
  using bus_cxd.through_keeps [OF wired_cxd] bus_cxd.gate_through [OF wired_cxd] by unfold_locales blast+

lemma set_chrdevm_calm:
  assumes "\<And>c. wired_m c \<Longrightarrow> wired_m (f c)" "\<And>c. pm_open (f c) = pm_open c \<and> pm_lnb_power (f c) = pm_lnb_power c"
  shows "calm px (set_chrdevm i f px)"
proof -
  let ?xs = "pm_chrdevm (bd_context px)"
  have "wired_m (?xs[i := f (?xs ! i)] ! j)" if "j < length ?xs" "\<forall>c \<in> set ?xs. wired_m c" for j
    using that assms(1) by (cases "i = j") simp_all
  then have "\<forall>c \<in> set (?xs[i := f (?xs ! i)]). wired_m c" if "\<forall>c \<in> set ?xs. wired_m c"
    using that by (auto simp: in_set_conv_nth)
  moreover have "map (\<lambda>c. (pm_open c, pm_lnb_power c)) (?xs[i := f (?xs ! i)]) = map (\<lambda>c. (pm_open c, pm_lnb_power c)) ?xs"
    by (cases "i < length ?xs") (auto intro!: nth_equalityI simp: nth_list_update assms(2))
  ultimately show ?thesis by (simp add: calm_def counts_def wired_all_def set_chrdevm_def set_pm_def Let_def)
qed

lemma bridge_calm: "pview b = pview (bd_it930x px) \<Longrightarrow> calm px (px\<lparr>bd_it930x := b\<rparr>)"
  by (simp add: calm_def counts_def wired_all_def)

lemma on_bridge_calm: "(\<And>b. pview (snd (f b)) = pview b) \<Longrightarrow> calm px (snd (on_bridge f px))"
  by (simp add: on_bridge_def case_prod_beta bridge_calm)

lemma set_pm_calm:
  assumes "\<And>c. pm_open_count (f c) = pm_open_count c \<and> pm_card_powered (f c) = pm_card_powered c \<and> pm_kref (f c) = pm_kref c \<and>
    pm_lnb_power_count (f c) = pm_lnb_power_count c \<and> pm_chrdevm (f c) = pm_chrdevm c"
  shows "calm px (set_pm f px)"
  using assms by (simp add: calm_def counts_def wired_all_def set_pm_def Let_def)

lemma wired_chrdevm: "wired_all px \<Longrightarrow> i < length (pm_chrdevm (bd_context px)) \<Longrightarrow> wired_m (chrdevm i px)"
  by (simp add: chrdevm_def wired_all_def)

text \<open>The four ways in which a call of a chip driver becomes a call of the board.\<close>

abbreviation (input) len :: "'d pxmlt_device \<Rightarrow> nat" where
  "len px \<equiv> length (pm_chrdevm (bd_context px))"

lemma calm_keeps:
  assumes "calm px px'" "wired_all px"
  shows "wired_all px'" "counts px' = counts px" "pview (bd_it930x px') = pview (bd_it930x px)" "len px' = len px"
proof -
  show c: "wired_all px'" "counts px' = counts px" "pview (bd_it930x px') = pview (bd_it930x px)"
    using assms(2) mp [OF assms(1) [unfolded calm_def]] by blast+
  have "map (\<lambda>c. (pm_open c, pm_lnb_power c)) (pm_chrdevm (bd_context px')) =
      map (\<lambda>c. (pm_open c, pm_lnb_power c)) (pm_chrdevm (bd_context px))"
    using c(2) by (simp only: counts_def Let_def prod.inject)
  from map_eq_imp_length_eq [OF this] show "len px' = len px" by simp
qed

lemma calm_run:
  assumes "\<And>f u. f \<in> set fs \<Longrightarrow> len u = len px \<Longrightarrow> calm u (snd (f u))"
  shows "calm px (snd (run_all fs px))"
proof (cases "wired_all px")
  case True
  show ?thesis
  proof (rule run_all_inv [where P = "calm px"])
    fix f u assume "f \<in> set fs" "calm px u"
    then show "calm px (snd (f u))" using calm_trans assms calm_keeps(4) [OF _ True] by blast
  qed simp
qed (simp add: calm_off)

lemma chip_calm:
  assumes "i < len px" "wired_all px" "gview b = gview (bd_it930x px)"
    "\<And>c. wired_m c \<Longrightarrow> wired_m (f c)" "\<And>c. pm_open (f c) = pm_open c \<and> pm_lnb_power (f c) = pm_lnb_power c"
  shows "calm px ((set_chrdevm i f px)\<lparr>bd_it930x := b\<rparr>)"
proof (rule calm_trans [OF set_chrdevm_calm [of f px i] bridge_calm])
  show "pview b = pview (bd_it930x (set_chrdevm i f px))"
    using gview_pview [OF assms(3)] by (simp add: set_chrdevm_def set_pm_def)
qed (use assms(4,5) in blast)+

definition demod_safe :: "('d it930x_bridge cxd2856er_demod \<Rightarrow> (cxd2856er_vars \<times> 'd it930x_bridge) call) \<Rightarrow> bool" where
  "demod_safe f \<longleftrightarrow> (\<forall>dm n v b. cx_i2c dm = bridge_master n \<longrightarrow> gview (snd (snd (f dm (v, b)))) = gview b)"

definition tuner_safe :: "('d it930x_bridge cxd2858er_tuner \<Rightarrow> (cxd2858er_system \<times> 'd it930x_bridge) call) \<Rightarrow> bool" where
  "tuner_safe f \<longleftrightarrow> (\<forall>t dm n y b. cx_i2c dm = bridge_master n \<longrightarrow> ct_i2c t = cxd2856er_master dm \<longrightarrow>
     gview (snd (snd (f t (y, b)))) = gview b)"

lemma safe_calls:
  "demod_safe (cxd2856er_init :: 'a it930x_bridge cxd2856er_demod \<Rightarrow> _)"
  "demod_safe (cxd2856er_term :: 'a it930x_bridge cxd2856er_demod \<Rightarrow> _)"
  "demod_safe (\<lambda>dm :: 'a it930x_bridge cxd2856er_demod. cxd2856er_wakeup dm system bw)"
  "tuner_safe (cxd2858er_init :: 'a it930x_bridge cxd2858er_tuner \<Rightarrow> _)"
  "tuner_safe (cxd2858er_term :: 'a it930x_bridge cxd2858er_tuner \<Rightarrow> _)"
  "tuner_safe (\<lambda>t :: 'a it930x_bridge cxd2858er_tuner. cxd2858er_set_params_t t sys freq bw)"
  "tuner_safe (\<lambda>t :: 'a it930x_bridge cxd2858er_tuner. cxd2858er_set_params_c t freq j)"
  "tuner_safe (\<lambda>t :: 'a it930x_bridge cxd2858er_tuner. cxd2858er_set_params_s t sys freq bw)"
proof -
  have d: "gview (snd (snd (cxd2856er_init dm (v, b)))) = gview b" "gview (snd (snd (cxd2856er_term dm (v, b)))) = gview b"
      "gview (snd (snd (cxd2856er_wakeup dm system bw (v, b)))) = gview b"
    if "cx_i2c dm = bridge_master n" for dm n v and b :: "'a it930x_bridge"
    using bus_cxd.cx_calls [OF wired_cxd [OF that, where V = "gview b"], where vs = "(v, b)"] by simp_all
  show "demod_safe (cxd2856er_init :: 'a it930x_bridge cxd2856er_demod \<Rightarrow> _)"
    "demod_safe (cxd2856er_term :: 'a it930x_bridge cxd2856er_demod \<Rightarrow> _)"
    "demod_safe (\<lambda>dm :: 'a it930x_bridge cxd2856er_demod. cxd2856er_wakeup dm system bw)"
    unfolding demod_safe_def by (intro allI impI; erule d)+
next
  have t: "gview (snd (snd (cxd2858er_init t (y, b)))) = gview b" "gview (snd (snd (cxd2858er_term t (y, b)))) = gview b"
      "gview (snd (snd (cxd2858er_set_params_t t sys freq bw (y, b)))) = gview b"
      "gview (snd (snd (cxd2858er_set_params_c t freq j (y, b)))) = gview b"
      "gview (snd (snd (cxd2858er_set_params_s t sys freq bw (y, b)))) = gview b"
    if "cx_i2c dm = bridge_master n" "ct_i2c t = cxd2856er_master dm" for dm n t y and b :: "'a it930x_bridge"
    using bus_gated.ct_calls [OF wired_gated [OF that(1), where V = "gview b"] that(2), where ys = "(y, b)"] by simp_all
  show "tuner_safe (cxd2858er_init :: 'a it930x_bridge cxd2858er_tuner \<Rightarrow> _)"
    "tuner_safe (cxd2858er_term :: 'a it930x_bridge cxd2858er_tuner \<Rightarrow> _)"
    "tuner_safe (\<lambda>t :: 'a it930x_bridge cxd2858er_tuner. cxd2858er_set_params_t t sys freq bw)"
    "tuner_safe (\<lambda>t :: 'a it930x_bridge cxd2858er_tuner. cxd2858er_set_params_c t freq j)"
    "tuner_safe (\<lambda>t :: 'a it930x_bridge cxd2858er_tuner. cxd2858er_set_params_s t sys freq bw)"
    unfolding tuner_safe_def by (intro allI impI; erule (1) t)+
qed

lemma demod_calm: "demod_safe f \<Longrightarrow> i < len px \<Longrightarrow> calm px (snd (pm_demod i f px))"
proof (cases "wired_all px")
  case True
  assume a: "demod_safe f" "i < len px"
  obtain n where n: "cx_i2c (pm_cxd2856er (chrdevm i px)) = bridge_master n"
    using wired_chrdevm [OF True a(2)] by (auto simp: wired_m_def)
  define w where "w = f (pm_cxd2856er (chrdevm i px)) (pm_vars (chrdevm i px), bd_it930x px)"
  have "gview (snd (snd w)) = gview (bd_it930x px)" using a(1) n unfolding w_def demod_safe_def by blast
  then have "calm px ((set_chrdevm i (\<lambda>c. c\<lparr>pm_vars := fst (snd w)\<rparr>) px)\<lparr>bd_it930x := snd (snd w)\<rparr>)"
    by (intro chip_calm [OF a(2) True]) (simp_all add: wired_m_def)
  then show ?thesis by (simp add: pm_demod_def case_prod_beta flip: w_def)
qed (simp add: calm_off)

lemma tuner_calm: "tuner_safe f \<Longrightarrow> i < len px \<Longrightarrow> calm px (snd (pm_tuner i f px))"
proof (cases "wired_all px")
  case True
  assume a: "tuner_safe f" "i < len px"
  obtain n where n: "cx_i2c (pm_cxd2856er (chrdevm i px)) = bridge_master n"
      "ct_i2c (pm_cxd2858er (chrdevm i px)) = cxd2856er_master (pm_cxd2856er (chrdevm i px))"
    using wired_chrdevm [OF True a(2)] by (auto simp: wired_m_def)
  define w where "w = f (pm_cxd2858er (chrdevm i px)) (pm_system (chrdevm i px), bd_it930x px)"
  have "gview (snd (snd w)) = gview (bd_it930x px)" using a(1) n unfolding w_def tuner_safe_def by blast
  then have "calm px ((set_chrdevm i (\<lambda>c. c\<lparr>pm_system := fst (snd w)\<rparr>) px)\<lparr>bd_it930x := snd (snd w)\<rparr>)"
    by (intro chip_calm [OF a(2) True]) (simp_all add: wired_m_def)
  then show ?thesis by (simp add: pm_tuner_def case_prod_beta flip: w_def)
qed (simp add: calm_off)

definition bus_safe :: "('d it930x_bridge cxd2856er_demod \<Rightarrow> 'd it930x_bridge call) \<Rightarrow> bool" where
  "bus_safe f \<longleftrightarrow> (\<forall>dm n b. cx_i2c dm = bridge_master n \<longrightarrow> gview (snd (f dm b)) = gview b)"

definition read_safe :: "('d it930x_bridge cxd2856er_demod \<Rightarrow> 'd it930x_bridge \<Rightarrow> int \<times> 'a \<times> 'd it930x_bridge) \<Rightarrow> bool" where
  "read_safe f \<longleftrightarrow> (\<forall>dm n b. cx_i2c dm = bridge_master n \<longrightarrow> gview (snd (snd (f dm b))) = gview b)"

lemma on_bus_calm: "bus_safe f \<Longrightarrow> i < len px \<Longrightarrow> calm px (snd (pm_on_bus i f px))"
proof (cases "wired_all px")
  case True
  assume a: "bus_safe f" "i < len px"
  then show ?thesis using wired_chrdevm [OF True a(2)] gview_pview
    by (auto simp: pm_on_bus_def on_bridge_def case_prod_beta wired_m_def bus_safe_def intro!: bridge_calm)
qed (simp add: calm_off)

lemma read_calm: "read_safe f \<Longrightarrow> i < len px \<Longrightarrow> calm px (snd (snd (pm_read i f px)))"
proof (cases "wired_all px")
  case True
  assume a: "read_safe f" "i < len px"
  then show ?thesis using wired_chrdevm [OF True a(2)] gview_pview
    by (auto simp: pm_read_def case_prod_beta wired_m_def read_safe_def intro!: bridge_calm)
qed (simp add: calm_off)

lemma safe_reads:
  "bus_safe (\<lambda>dm :: 'a it930x_bridge cxd2856er_demod. run_ops dm ps)"
  "bus_safe (cxd2856er_post_tune :: 'a it930x_bridge cxd2856er_demod \<Rightarrow> _)"
  "bus_safe (\<lambda>dm :: 'a it930x_bridge cxd2856er_demod. cxd2856er_set_slot_isdbs dm idx)"
  "bus_safe (\<lambda>dm :: 'a it930x_bridge cxd2856er_demod. cxd2856er_set_tsid_isdbs dm idx)"
  "read_safe (\<lambda>(dm :: 'a it930x_bridge cxd2856er_demod) b. let (ret, l, u, b1) = cxd2856er_is_ts_locked_isdbt dm b in (ret, (l, u), b1))"
  "read_safe (cxd2856er_is_ts_locked_isdbs :: 'a it930x_bridge cxd2856er_demod \<Rightarrow> _)"
  "read_safe (cxd2856er_is_ts_locked_isdbc :: 'a it930x_bridge cxd2856er_demod \<Rightarrow> _)"
  "read_safe (cxd2856er_read_cnr_raw_isdbt :: 'a it930x_bridge cxd2856er_demod \<Rightarrow> _)"
  "read_safe (cxd2856er_read_cnr_raw_isdbs :: 'a it930x_bridge cxd2856er_demod \<Rightarrow> _)"
  "read_safe (cxd2856er_read_cnr_raw_isdbc :: 'a it930x_bridge cxd2856er_demod \<Rightarrow> _)"
proof -
  have r: "gview (snd (run_ops dm ps b)) = gview b" "gview (snd (cxd2856er_post_tune dm b)) = gview b"
      "gview (snd (cxd2856er_set_slot_isdbs dm idx b)) = gview b" "gview (snd (cxd2856er_set_tsid_isdbs dm idx b)) = gview b"
      "gview (snd (snd (snd (cxd2856er_is_ts_locked_isdbt dm b)))) = gview b"
      "gview (snd (snd (cxd2856er_is_ts_locked_isdbs dm b))) = gview b" "gview (snd (snd (cxd2856er_is_ts_locked_isdbc dm b))) = gview b"
      "gview (snd (snd (cxd2856er_read_cnr_raw_isdbt dm b))) = gview b" "gview (snd (snd (cxd2856er_read_cnr_raw_isdbs dm b))) = gview b"
      "gview (snd (snd (cxd2856er_read_cnr_raw_isdbc dm b))) = gview b"
    if "cx_i2c dm = bridge_master n" for dm n and b :: "'a it930x_bridge"
    using bus_cxd.cx_reads [OF wired_cxd [OF that, where V = "gview b"], of b]
      bus_cxd.cx_streams [OF wired_cxd [OF that, where V = "gview b"], of b]
      bus_cxd.cx_ops [OF wired_cxd [OF that, where V = "gview b"], of b] by simp_all
  show "bus_safe (\<lambda>dm :: 'a it930x_bridge cxd2856er_demod. run_ops dm ps)"
    "bus_safe (cxd2856er_post_tune :: 'a it930x_bridge cxd2856er_demod \<Rightarrow> _)"
    "bus_safe (\<lambda>dm :: 'a it930x_bridge cxd2856er_demod. cxd2856er_set_slot_isdbs dm idx)"
    "bus_safe (\<lambda>dm :: 'a it930x_bridge cxd2856er_demod. cxd2856er_set_tsid_isdbs dm idx)"
    unfolding bus_safe_def by (intro allI impI; erule r)+
  show "read_safe (cxd2856er_is_ts_locked_isdbs :: 'a it930x_bridge cxd2856er_demod \<Rightarrow> _)"
    "read_safe (cxd2856er_is_ts_locked_isdbc :: 'a it930x_bridge cxd2856er_demod \<Rightarrow> _)"
    "read_safe (cxd2856er_read_cnr_raw_isdbt :: 'a it930x_bridge cxd2856er_demod \<Rightarrow> _)"
    "read_safe (cxd2856er_read_cnr_raw_isdbs :: 'a it930x_bridge cxd2856er_demod \<Rightarrow> _)"
    "read_safe (cxd2856er_read_cnr_raw_isdbc :: 'a it930x_bridge cxd2856er_demod \<Rightarrow> _)"
    unfolding read_safe_def by (intro allI impI; erule r)+
  show "read_safe (\<lambda>(dm :: 'a it930x_bridge cxd2856er_demod) b.
      let (ret, l, u, b1) = cxd2856er_is_ts_locked_isdbt dm b in (ret, (l, u), b1))"
    unfolding read_safe_def by (auto simp: case_prod_beta dest: r(5))
qed

section \<open>The calls of an open file\<close>

lemma filter_calm: "i < len px \<Longrightarrow> calm px (snd (pxmlt_chrdev_set_null_packet_filter i enable px))"
proof -
  define w where "w = on_bridge (it930x_set_pid_filter (int i) (if enable then Some null_filter else None)) px"
  have "calm px (snd w)" unfolding w_def by (rule on_bridge_calm) (rule gview_pview, rule pid_filter_view)
  moreover have "calm (snd w) (set_chrdevm i (\<lambda>c. c\<lparr>pm_filter_disabled := \<not> enable\<rparr>) (snd w))"
    by (rule set_chrdevm_calm) (simp_all add: wired_m_def)
  ultimately show ?thesis
    by (simp add: pxmlt_chrdev_set_null_packet_filter_def case_prod_beta calm_trans flip: w_def)
qed

lemma rfin_calm: "calm px (set_chrdevm j (set_rfin v) px)"
  by (rule set_chrdevm_calm) (simp_all add: wired_m_def set_rfin_def)

lemma match_calm: "j < len px \<Longrightarrow> calm px (snd (match_tuner j px))"
proof -
  assume j: "j < len px"
  let ?u = "set_chrdevm j (set_rfin True) px"
  have l: "len ?u = len px" by (simp add: set_chrdevm_def set_pm_def)
  define w where "w = run_all [pm_demod j cxd2856er_init, pm_tuner j cxd2858er_init] ?u"
  define v where "v = snd (pm_demod j cxd2856er_term (snd w))"
  have w: "calm ?u (snd w)" unfolding w_def
    by (rule calm_run) (use j l in \<open>auto intro!: demod_calm tuner_calm safe_calls\<close>)
  show ?thesis
  proof (cases "wired_all px")
    case True
    have "len (snd w) = len px" using calm_keeps(4) [OF w] calm_keeps(1) [OF rfin_calm True] l by simp
    then have v: "calm px v" "calm px (set_chrdevm j (set_rfin False) v)"
      using calm_trans [OF calm_trans [OF rfin_calm w]] demod_calm [OF safe_calls(2)] j rfin_calm calm_trans
      unfolding v_def by metis+
    then show ?thesis
      by (simp add: match_tuner_def Let_def case_prod_beta rfin_calm del: run_all.simps flip: w_def v_def)
  qed (simp add: calm_off)
qed

lemma match_all_calm: "calm px (snd (match_tuners px))"
  unfolding match_tuners_def run_each_def by (rule calm_run) (auto intro!: match_calm)

lemma tune_calm: "i < len px \<Longrightarrow> calm px (snd (pxmlt_chrdev_tune i prm px))"
proof -
  assume i: "i < len px"
  have d: "calm u (snd (demod_wakeup i system bw u))" if "len u = len px" for u system bw
    unfolding demod_wakeup_def by (rule demod_calm) (use i that in \<open>simp_all add: safe_calls\<close>)
  have "calm u (snd (tune_demod i prm u))" if "len u = len px" for u unfolding tune_demod_def Let_def
    using that i by (auto simp: d simp del: run_all.simps intro!: calm_run match_all_calm filter_calm)
  moreover have "calm u (snd (tune_tuner i prm u))" if "len u = len px" for u
    using that i by (auto simp: tune_tuner_def intro!: tuner_calm safe_calls)
  ultimately show ?thesis unfolding pxmlt_chrdev_tune_def using i
    by (intro calm_run) (auto intro!: filter_calm on_bus_calm safe_reads split: if_splits)
qed

lemma reads_calm:
  "i < len px \<Longrightarrow> calm px (snd (snd (pxmlt_chrdev_check_lock i l px)))"
  "i < len px \<Longrightarrow> calm px (snd (snd (pxmlt_chrdev_read_cnr_raw i v px)))"
  "i < len px \<Longrightarrow> calm px (snd (pxmlt_chrdev_set_stream_id i sid px))"
  using read_calm [OF safe_reads(5), of i px]
  by (auto simp: pxmlt_chrdev_check_lock_def pxmlt_chrdev_read_cnr_raw_def pxmlt_chrdev_set_stream_id_def Let_def case_prod_beta
      intro!: read_calm on_bus_calm safe_reads)

lemma capture_calm:
  assumes "streaming_keeps_pins env"
  shows "calm px (snd (pxmlt_chrdev_set_capture env st px))"
proof -
  have s: "calm u (snd (on_bridge (pe_start_streaming env) u))" "calm u (snd (on_bridge (pe_stop_streaming env) u))" for u
    using assms by (auto simp: streaming_keeps_pins_def intro!: on_bridge_calm)
  have p: "calm u (snd (on_bridge (it930x_purge_psb k t) u))" for k t u
    by (rule on_bridge_calm) (rule gview_pview, rule purge_view)
  have c: "calm u (set_pm (\<lambda>c. c\<lparr>pm_streaming_count := g (pm_streaming_count c)\<rparr>) u)"
    "calm u (set_pm (\<lambda>c. c\<lparr>pm_remain_len := n\<rparr>) u)" for u g n by (rule set_pm_calm; simp)+
  define r where "r = (if pm_streaming_count (bd_context px) = 0 then
      run_all [on_bridge (it930x_purge_psb (pe_kmalloc env) (pe_psb_purge_timeout env)),
        (\<lambda>px. on_bridge (pe_start_streaming env) (set_pm (\<lambda>c. c\<lparr>pm_remain_len := 0\<rparr>) px))] px else (0, px))"
  have "calm px (snd r)" unfolding r_def
    by (auto simp del: run_all.simps intro!: calm_run p intro: calm_trans [OF c(2) s(1)])
  then have "calm px (snd (pxmlt_chrdev_start_capture env px))"
    unfolding pxmlt_chrdev_start_capture_def r_def [symmetric]
    by (auto simp: Let_def case_prod_beta intro: calm_trans [OF _ c(1)])
  moreover have "calm px (snd (pxmlt_chrdev_stop_capture env px))"
    unfolding pxmlt_chrdev_stop_capture_def using c(1) [of px "\<lambda>n. n - 1"] calm_trans [OF c(1) [of px "\<lambda>n. n - 1"] s(2)]
    by (simp add: Let_def)
  ultimately show ?thesis by (simp add: pxmlt_chrdev_set_capture_def)
qed

section \<open>The life of a board\<close>

datatype pxmlt_request =
    Pm_tune ptx_tune_params | Pm_check_lock bool | Pm_stream_id u16 | Pm_cnr u32 | Pm_system u32

fun pxmlt_request_do :: "nat \<Rightarrow> 'd pxmlt_device \<Rightarrow> pxmlt_request \<Rightarrow> 'd pxmlt_device" where
  "pxmlt_request_do i px (Pm_tune prm) = snd (pxmlt_chrdev_tune i prm px)"
| "pxmlt_request_do i px (Pm_check_lock l) = snd (snd (pxmlt_chrdev_check_lock i l px))"
| "pxmlt_request_do i px (Pm_stream_id sid) = snd (pxmlt_chrdev_set_stream_id i sid px)"
| "pxmlt_request_do i px (Pm_cnr v) = snd (snd (pxmlt_chrdev_read_cnr_raw i v px))"
| "pxmlt_request_do i px (Pm_system y) = set_chrdevm i (\<lambda>c. c\<lparr>pm_current_system := y\<rparr>) px"

inductive pxmlt_step :: "'d px4_env \<Rightarrow> 'd pxmlt_device \<Rightarrow> 'd pxmlt_device \<Rightarrow> bool" for env where
  opened: "i < len px \<Longrightarrow> \<not> pm_open (chrdevm i px) \<Longrightarrow> pxmlt_chrdev_open i px = (ret, px') \<Longrightarrow>
    pxmlt_step env px (if ret = 0 then set_chrdevm i (\<lambda>c. c\<lparr>pm_open := True\<rparr>) px' else px')"
| released: "i < len px \<Longrightarrow> pm_open (chrdevm i px) \<Longrightarrow>
    pxmlt_step env px (set_chrdevm i (\<lambda>c. c\<lparr>pm_open := False\<rparr>) (snd (pxmlt_chrdev_release i px)))"
| lnb: "i < len px \<Longrightarrow> pm_open (chrdevm i px) \<Longrightarrow> pxmlt_step env px (snd (pxmlt_chrdev_set_lnb_voltage i v px))"
| used: "i < len px \<Longrightarrow> pm_open (chrdevm i px) \<Longrightarrow> pxmlt_step env px (pxmlt_request_do i px r)"
| captured: "i < len px \<Longrightarrow> pm_open (chrdevm i px) \<Longrightarrow> pxmlt_step env px (snd (pxmlt_chrdev_set_capture env st px))"
| card_power: "st \<noteq> pm_card_powered (bd_context px) \<Longrightarrow> pxmlt_step env px (snd (pxmlt_card_set_power st px))"
| card_used: "pxmlt_step env px (px\<lparr>bd_it930x := card_io_do r (bd_it930x px)\<rparr>)"

text \<open>Once in a run the board is unplugged: \<^verbatim>\<open>pxmlt_device_term\<close> marks it as gone and drops the reference of
  the USB driver. Open receivers stay open until they are closed. The flag says that the board is present.\<close>

inductive pxmlt_life :: "'d px4_env \<Rightarrow> 'd pxmlt_device \<times> bool \<Rightarrow> 'd pxmlt_device \<times> bool \<Rightarrow> bool" for env where
  step: "pxmlt_step env px px' \<Longrightarrow> pxmlt_life env (px, present) (px', present)"
| unplugged: "pxmlt_life env (px, True) (pxmlt_device_term px, False)"

definition pxmlt_run :: "'d px4_env \<Rightarrow> 'd pxmlt_device \<Rightarrow> 'd pxmlt_device \<Rightarrow> bool \<Rightarrow> bool" where
  "pxmlt_run env px px' present \<longleftrightarrow> (pxmlt_life env)\<^sup>*\<^sup>* (px, True) (px', present)"

text \<open>The board as its initialisation leaves it, with the reference of the USB driver.\<close>

definition pxmlt_start :: "'d pxmlt_device \<Rightarrow> bool" where
  "pxmlt_start px \<longleftrightarrow> (let c = bd_context px in
     0 < pm_kref c \<and> length (pm_chrdevm c) \<le> PXMLT_CHRDEV_MAX_NUM \<and> wired_all px \<and> pm_open_count c = 0 \<and> \<not> pm_card_powered c \<and>
     pm_lnb_power_count c = 0 \<and> (\<forall>r \<in> set (pm_chrdevm c). \<not> pm_open r \<and> \<not> pm_lnb_power r))"

definition opens_m :: "'d pxmlt_device \<Rightarrow> nat set" where
  "opens_m px = {i. i < len px \<and> pm_open (chrdevm i px)}"

definition lnbs_m :: "'d pxmlt_device \<Rightarrow> nat set" where
  "lnbs_m px = {i. i < len px \<and> pm_lnb_power (chrdevm i px)}"

lemma opens_m_le: "card (opens_m px) \<le> len px" "card (lnbs_m px) \<le> len px" "finite (opens_m px)" "finite (lnbs_m px)"
proof -
  have s: "opens_m px \<subseteq> {..<len px}" "lnbs_m px \<subseteq> {..<len px}" by (auto simp: opens_m_def lnbs_m_def)
  show "card (opens_m px) \<le> len px" "card (lnbs_m px) \<le> len px" using card_mono [OF _ s(1)] card_mono [OF _ s(2)] by simp_all
  show "finite (opens_m px)" "finite (lnbs_m px)" using s finite_subset finite_lessThan by blast+
qed

lemma counts_sets:
  assumes "counts px' = counts px"
  shows "len px' = len px" "opens_m px' = opens_m px" "lnbs_m px' = lnbs_m px"
proof -
  let ?g = "\<lambda>c. (pm_open c, pm_lnb_power c)"
  have m: "map ?g (pm_chrdevm (bd_context px')) = map ?g (pm_chrdevm (bd_context px))"
    using assms by (simp only: counts_def Let_def prod.inject)
  show l: "len px' = len px" using map_eq_imp_length_eq [OF m] .
  have "?g (chrdevm i px') = ?g (chrdevm i px)" if "i < len px" for i
    using arg_cong [OF m, of "\<lambda>xs. xs ! i"] that l by (simp add: chrdevm_def)
  then show "opens_m px' = opens_m px" "lnbs_m px' = lnbs_m px" using l by (auto simp: opens_m_def lnbs_m_def)
qed

lemma set_pm_fields [simp]:
  "bd_context (set_pm f px) = f (bd_context px)" "bd_it930x (set_pm f px) = bd_it930x px" "bd_available (set_pm f px) = bd_available px"
  by (simp_all add: set_pm_def)

lemma set_chrdevm_fields [simp]:
  "bd_it930x (set_chrdevm i f px) = bd_it930x px" "pm_open_count (bd_context (set_chrdevm i f px)) = pm_open_count (bd_context px)"
  "pm_card_powered (bd_context (set_chrdevm i f px)) = pm_card_powered (bd_context px)"
  "pm_kref (bd_context (set_chrdevm i f px)) = pm_kref (bd_context px)"
  "pm_lnb_power_count (bd_context (set_chrdevm i f px)) = pm_lnb_power_count (bd_context px)"
  "len (set_chrdevm i f px) = len px"
  by (simp_all add: set_chrdevm_def)

lemma wired_set: "(\<And>c. wired_m c \<Longrightarrow> wired_m (f c)) \<Longrightarrow> wired_all px \<Longrightarrow> wired_all (set_chrdevm i f px)"
  by (cases "i < len px")
    (auto simp: wired_all_def set_chrdevm_def all_set_conv_all_nth nth_list_update)

lemma flag_sets:
  assumes "i < len px"
  shows "opens_m (set_chrdevm i (\<lambda>c. c\<lparr>pm_open := b\<rparr>) px) = (if b then insert i (opens_m px) else opens_m px - {i})"
    "lnbs_m (set_chrdevm i (\<lambda>c. c\<lparr>pm_open := b\<rparr>) px) = lnbs_m px"
    "lnbs_m (set_chrdevm i (\<lambda>c. c\<lparr>pm_lnb_power := b\<rparr>) px) = (if b then insert i (lnbs_m px) else lnbs_m px - {i})"
    "opens_m (set_chrdevm i (\<lambda>c. c\<lparr>pm_lnb_power := b\<rparr>) px) = opens_m px"
  using assms by (auto simp: opens_m_def lnbs_m_def chrdevm_def set_chrdevm_def nth_list_update split: if_splits)

lemma pm_sets [simp]:
  assumes "\<And>c. pm_chrdevm (f c) = pm_chrdevm c"
  shows "opens_m (set_pm f px) = opens_m px" "lnbs_m (set_pm f px) = lnbs_m px" "wired_all (set_pm f px) = wired_all px"
  by (simp_all add: opens_m_def lnbs_m_def wired_all_def chrdevm_def assms)

section \<open>What holds while the board is in use\<close>

definition good_m :: "nat \<Rightarrow> 'd pxmlt_device \<Rightarrow> bool" where
  "good_m k px \<longleftrightarrow> (let c = bd_context px; b = bd_it930x px in
     wired_all px \<and> len px \<le> 5 \<and> pm_open_count c = card (opens_m px) \<and> pm_kref c = k + card (opens_m px) \<and>
     pm_lnb_power_count c = of_nat (card (lnbs_m px)) \<and> (opens_m px \<noteq> {} \<or> pm_card_powered c \<longrightarrow> powered b) \<and>
     (lnbs_m px \<noteq> {} \<longrightarrow> lnb_on b))"

text \<open>Calls that switch nothing but a supply nobody uses.\<close>

definition tame :: "'d pxmlt_device \<Rightarrow> 'd pxmlt_device \<Rightarrow> bool" where
  "tame px px' \<longleftrightarrow> (wired_all px \<longrightarrow> counts px' = counts px \<and> wired_all px' \<and>
     snd (snd (pview (bd_it930x px'))) = snd (snd (pview (bd_it930x px))) \<and>
     (pm_open_count (bd_context px) \<noteq> 0 \<or> pm_card_powered (bd_context px) \<longrightarrow>
       pview (bd_it930x px') = pview (bd_it930x px)))"

lemma counts_reads:
  assumes "counts px' = counts px"
  shows "pm_open_count (bd_context px') = pm_open_count (bd_context px)" "pm_card_powered (bd_context px') = pm_card_powered (bd_context px)"
    "pm_kref (bd_context px') = pm_kref (bd_context px)" "pm_lnb_power_count (bd_context px') = pm_lnb_power_count (bd_context px)"
  using assms unfolding counts_def Let_def prod.inject by blast+

lemma tame_off: "\<not> wired_all px \<Longrightarrow> tame px px'"
  by (simp add: tame_def)

lemma tame_trans:
  assumes "tame a b" "tame b c"
  shows "tame a c"
proof (cases "wired_all a")
  case True
  then have b: "counts b = counts a" "wired_all b" using assms(1) by (simp_all add: tame_def)
  note e = counts_reads [OF b(1)]
  show ?thesis using assms b(2) unfolding tame_def e by simp
qed (simp add: tame_off)

lemma calm_tame: "calm px px' \<Longrightarrow> tame px px'"
  by (simp add: calm_def tame_def)

lemma tame_good:
  assumes "tame px px'" "good_m k px"
  shows "good_m k px'"
proof -
  have t: "counts px' = counts px" "wired_all px'"
      "snd (snd (pview (bd_it930x px'))) = snd (snd (pview (bd_it930x px)))"
      "pm_open_count (bd_context px) \<noteq> 0 \<or> pm_card_powered (bd_context px) \<Longrightarrow> pview (bd_it930x px') = pview (bd_it930x px)"
    using assms by (simp_all add: tame_def good_m_def Let_def)
  have n: "opens_m px \<noteq> {} \<Longrightarrow> pm_open_count (bd_context px) \<noteq> 0"
    using assms(2) opens_m_le(3) [of px] by (simp add: good_m_def Let_def)
  have l: "lnb_on (bd_it930x px') = lnb_on (bd_it930x px)" using t(3) by (simp add: pview_reads)
  have w: "powered (bd_it930x px') = powered (bd_it930x px)" if "opens_m px \<noteq> {} \<or> pm_card_powered (bd_context px)"
  proof -
    have "pview (bd_it930x px') = pview (bd_it930x px)" using t(4) n that by blast
    then show ?thesis by (simp add: pview_reads)
  qed
  show ?thesis using assms(2) t(2) l w unfolding good_m_def Let_def counts_sets [OF t(1)] counts_reads [OF t(1)] by argo
qed

lemma backend_tame:
  assumes "wired_all px"
  shows "counts (snd (pxmlt_backend_set_power st px)) = counts px" "wired_all (snd (pxmlt_backend_set_power st px))"
    "snd (snd (pview (bd_it930x (snd (pxmlt_backend_set_power st px))))) = snd (snd (pview (bd_it930x px)))"
    "st \<Longrightarrow> fst (pxmlt_backend_set_power st px) = 0 \<Longrightarrow> powered (bd_it930x (snd (pxmlt_backend_set_power st px)))"
proof -
  let ?p = "snd (pxmlt_backend_set_power st px)"
  have w: "snd (snd (pview (snd (it930x_write_gpio g h b)))) = snd (snd (pview b))" if "g \<in> {2, 7}" for g h and b :: "'a it930x_bridge"
    using write_gpio_pview [of g h b "fst (it930x_write_gpio g h b)" "snd (it930x_write_gpio g h b)"] that by auto
  have f: "map (\<lambda>c. (pm_open c, pm_lnb_power c)) (map (set_rfin False) xs) = map (\<lambda>c. (pm_open c, pm_lnb_power c)) xs"
    for xs :: "'a pxmlt_chrdev list" by (simp add: set_rfin_def)
  show "snd (snd (pview (bd_it930x ?p))) = snd (snd (pview (bd_it930x px)))"
    by (simp add: pxmlt_backend_set_power_def on_bridge_def w Let_def case_prod_beta)
  show "counts ?p = counts px" using f [of "pm_chrdevm (bd_context px)"]
    by (simp add: pxmlt_backend_set_power_def on_bridge_def counts_def Let_def case_prod_beta)
  show "wired_all ?p" using assms
    by (auto simp: pxmlt_backend_set_power_def on_bridge_def wired_all_def wired_m_def set_rfin_def Let_def case_prod_beta)
  assume "st" "fst (pxmlt_backend_set_power st px) = 0"
  then obtain b1 where "it930x_write_gpio 7 False (bd_it930x px) = (0, b1)" "it930x_write_gpio 2 True b1 = (0, bd_it930x ?p)"
    by (auto simp: pxmlt_backend_set_power_def on_bridge_def Let_def case_prod_beta prod_eq_iff split: if_splits)
  from write_gpio_pview [OF this(1)] write_gpio_pview [OF this(2)]
  show "powered (bd_it930x ?p)" by (simp add: pview_reads)
qed

lemma off_tame: "tame px (pxmlt_power_off_unused px)"
  unfolding tame_def pxmlt_power_off_unused_def using backend_tame [of px False] by simp

lemma good_parts:
  assumes "good_m k px"
  shows "wired_all px" "len px \<le> 5" "pm_open_count (bd_context px) = card (opens_m px)" "pm_kref (bd_context px) = k + card (opens_m px)"
    "pm_lnb_power_count (bd_context px) = of_nat (card (lnbs_m px))"
    "opens_m px \<noteq> {} \<or> pm_card_powered (bd_context px) \<Longrightarrow> powered (bd_it930x px)" "lnbs_m px \<noteq> {} \<Longrightarrow> lnb_on (bd_it930x px)"
    "(pm_open_count (bd_context px) = 0) = (opens_m px = {})"
  using assms opens_m_le(3) [of px] by (simp_all add: good_m_def Let_def)

lemma open_good_m:
  assumes "good_m k px" "i < len px" "\<not> pm_open (chrdevm i px)" "pxmlt_chrdev_open i px = (ret, px')"
  shows "good_m k (if ret = 0 then set_chrdevm i (\<lambda>c. c\<lparr>pm_open := True\<rparr>) px' else px')"
proof -
  note g = good_parts [OF assms(1)]
  obtain r1 u1 where u1: "(if pm_open_count (bd_context px) = 0 \<and> \<not> pm_card_powered (bd_context px)
      then pxmlt_backend_set_power True px else (0, px)) = (r1, u1)" by fastforce
  have t1: "tame px u1" using u1 backend_tame [OF g(1), of True] by (auto simp: tame_def split: if_splits)
  have pw: "powered (bd_it930x u1)" if "r1 = 0"
    using u1 that backend_tame(4) [OF g(1), of True] g(6,8) by (auto split: if_splits)
  have w1: "wired_all u1" "len u1 = len px" "pm_open_count (bd_context u1) = pm_open_count (bd_context px)"
    using t1 g(1) counts_sets(1) counts_reads(1) by (auto simp: tame_def)
  obtain r2 u2 where u2: "pm_demod i cxd2856er_init u1 = (r2, u2)" by fastforce
  have c2: "calm u1 u2" using demod_calm [OF safe_calls(1), of i u1] u2 assms(2) w1 by simp
  note w2 = calm_keeps(1,4) [OF c2 w1(1)]
  obtain r3 u3 where u3: "pm_tuner i cxd2858er_init u2 = (r3, u3)" by fastforce
  have c3: "calm u2 u3" using tuner_calm [OF safe_calls(4), of i u2] u3 assms(2) w1 w2 by simp
  note w3 = calm_keeps(1,4) [OF c3 w2(1)]
  obtain r4 u4 where u4: "pm_on_bus i (\<lambda>dm. run_ops dm pxmlt_open_ops) u3 = (r4, u4)" by fastforce
  have c4: "calm u3 u4" using on_bus_calm [OF safe_reads(1), of i u3 pxmlt_open_ops] u4 assms(2) w1 w2 w3 by simp
  note w4 = calm_keeps(1,4) [OF c4 w3(1)]
  define v5 where "v5 = snd (pm_tuner i cxd2858er_term u4)"
  have c5: "calm u4 v5" using tuner_calm [OF safe_calls(5), of i u4] assms(2) w1 w2 w3 w4 by (simp add: v5_def)
  note w5 = calm_keeps(1,4) [OF c5 w4(1)]
  have l: "i < len u3" "i < len v5" using assms(2) w1 w2 w3 w4 w5 by simp_all
  have "calm u3 (snd (pm_demod i cxd2856er_term u3))" "calm v5 (snd (pm_demod i cxd2856er_term v5))"
    using demod_calm [OF safe_calls(2)] l by blast+
  then have f: "tame px (pxmlt_power_off_unused u2)" "tame px (pxmlt_power_off_unused (snd (pm_demod i cxd2856er_term u3)))"
      "tame px (pxmlt_power_off_unused (snd (pm_demod i cxd2856er_term v5)))"
    using t1 c2 c3 c4 c5 calm_tame tame_trans off_tame by meson+
  have c: "calm u1 u4" using c2 c3 c4 calm_trans by blast
  show ?thesis
  proof (cases "ret = 0")
    case False
    then have "tame px px'" using assms(4) u1 u2 u3 u4 t1 f
      by (auto simp: pxmlt_chrdev_open_def v5_def Let_def split: if_splits)
    then show ?thesis using False tame_good assms(1) by simp
  next
    case True
    then have e: "r1 = 0" "px' = set_pm (\<lambda>c. c\<lparr>pm_open_count := pm_open_count c + 1, pm_kref := pm_kref c + 1\<rparr>) u4"
      using assms(4) u1 u2 u3 u4 by (auto simp: pxmlt_chrdev_open_def Let_def split: if_splits)
    have t: "tame px u4" using tame_trans [OF t1 calm_tame [OF c]] .
    note h = good_parts [OF tame_good [OF t assms(1)]]
    have n: "counts u4 = counts px" using t g(1) by (simp add: tame_def)
    have "pview (bd_it930x u4) = pview (bd_it930x u1)" by (rule calm_keeps(3) [OF c w1(1)])
    then have p: "powered (bd_it930x u4)" using pw e(1) by (simp add: pview_reads)
    have i: "i \<notin> opens_m u4" "i < len u4" using counts_sets [OF n] assms(2,3) by (auto simp: opens_m_def)
    have w: "wired_all (set_chrdevm i (\<lambda>c. c\<lparr>pm_open := True\<rparr>) u4)" using h(1) by (intro wired_set) (simp_all add: wired_m_def)
    define q where "q = set_chrdevm i (\<lambda>c. c\<lparr>pm_open := True\<rparr>) u4"
    have q: "set_chrdevm i (\<lambda>c. c\<lparr>pm_open := True\<rparr>) px' = set_pm (\<lambda>c. c\<lparr>pm_open_count := pm_open_count c + 1, pm_kref := pm_kref c + 1\<rparr>) q"
      by (simp add: q_def e set_chrdevm_def set_pm_def)
    have "opens_m q = insert i (opens_m u4)" "lnbs_m q = lnbs_m u4" "wired_all q" using flag_sets [OF i(2)] w by (simp_all add: q_def)
    then have "good_m k (set_pm (\<lambda>c. c\<lparr>pm_open_count := pm_open_count c + 1, pm_kref := pm_kref c + 1\<rparr>) q)"
      using h p i(1) opens_m_le(3) [of u4] by (simp add: good_m_def Let_def) (simp add: q_def)
    then show ?thesis using True q by simp
  qed
qed

lemma lnb_write:
  assumes "it930x_write_gpio 11 high b = (ret, b')"
  shows "powered b' = powered b" "high \<Longrightarrow> ret = 0 \<Longrightarrow> lnb_on b'"
  using write_gpio_pview [OF assms] by (auto simp: pview_reads prod_eq_iff)

lemma small_of_nat: "n \<le> 5 \<Longrightarrow> (of_nat n = (0 :: u32)) = (n = 0)"
  by (auto simp: word_of_nat_eq_0_iff dest: dvd_imp_le)

lemma lnb_good_m:
  assumes "good_m k px" "i < len px"
  shows "good_m k (snd (pxmlt_chrdev_set_lnb_voltage i v px))"
proof -
  note g = good_parts [OF assms(1)]
  define on where "on = (v \<noteq> 0)"
  have "snd (pxmlt_chrdev_set_lnb_voltage i v px) = px"
    if "\<not> (v \<noteq> 0 \<longrightarrow> v = 15) \<or> pm_lnb_power (chrdevm i px) = on \<or> \<not> (on \<or> bd_available px)"
    using that unfolding pxmlt_chrdev_set_lnb_voltage_def Let_def on_def [symmetric] by (elim disjE) simp_all
  then consider "snd (pxmlt_chrdev_set_lnb_voltage i v px) = px" | "v \<noteq> 0 \<longrightarrow> v = 15" "pm_lnb_power (chrdevm i px) \<noteq> on" "on \<or> bd_available px"
    by blast
  then show ?thesis
  proof cases
    case 1
    then show ?thesis using assms(1) by simp
  next
    case 2
    define px1 where "px1 = (if \<not> on then set_pm (\<lambda>c. c\<lparr>pm_lnb_power_count := pm_lnb_power_count c - 1\<rparr>) px else px)"
    obtain r b where rb: "(if pm_lnb_power_count (bd_context px1) = 0 then it930x_write_gpio 11 on (bd_it930x px) else (0, bd_it930x px)) = (r, b)"
      by fastforce
    have r1: "(if pm_lnb_power_count (bd_context px1) = 0 then on_bridge (it930x_write_gpio 11 on) px1 else (0, px1)) = (r, px1\<lparr>bd_it930x := b\<rparr>)"
      using rb by (auto simp: on_bridge_def px1_def split: if_splits)
    have e: "snd (pxmlt_chrdev_set_lnb_voltage i v px) = (if r \<noteq> 0 \<and> on then px1\<lparr>bd_it930x := b\<rparr>
        else set_chrdevm i (\<lambda>c. c\<lparr>pm_lnb_power := on\<rparr>)
          (if on then set_pm (\<lambda>c. c\<lparr>pm_lnb_power_count := pm_lnb_power_count c + 1\<rparr>) (px1\<lparr>bd_it930x := b\<rparr>) else px1\<lparr>bd_it930x := b\<rparr>))"
    proof -
      have f: "(on \<and> v \<noteq> 15) = False" "(pm_lnb_power (chrdevm i px) = on) = False" "(\<not> on \<and> \<not> bd_available px) = False"
        using 2 by (auto simp: on_def)
      show ?thesis
        unfolding pxmlt_chrdev_set_lnb_voltage_def Let_def on_def [symmetric] px1_def [symmetric] r1 f if_False prod.case
        by (simp only: fst_conv snd_conv split: if_split) blast
    qed
    have pw: "powered b = powered (bd_it930x px)" using rb lnb_write(1) by (auto split: if_splits)
    have wr: "wired_all (set_chrdevm i (\<lambda>c. c\<lparr>pm_lnb_power := x\<rparr>) u)" if "wired_all u" for x u
      using that by (intro wired_set) (simp_all add: wired_m_def)
    have ib: "wired_all (u\<lparr>bd_it930x := b\<rparr>) = wired_all u" "opens_m (u\<lparr>bd_it930x := b\<rparr>) = opens_m u" "lnbs_m (u\<lparr>bd_it930x := b\<rparr>) = lnbs_m u"
      for u :: "'a pxmlt_device" by (simp_all add: wired_all_def opens_m_def lnbs_m_def chrdevm_def)
    have le: "card (lnbs_m px) \<le> 5" using opens_m_le(2) [of px] g(2) by simp
    show ?thesis
    proof (cases on)
      case True
      then have i: "i \<notin> lnbs_m px" "px1 = px" using 2(2) by (simp_all add: lnbs_m_def px1_def)
      have l: "lnb_on b" if "r = 0"
        using rb True that g(5,7) lnb_write(2) [of True "bd_it930x px" 0 b] small_of_nat [OF le] opens_m_le(4) [of px] i(2)
        by (auto split: if_splits)
      have same: "b = bd_it930x px" if "lnbs_m px \<noteq> {}"
        using rb g(5) small_of_nat [OF le] opens_m_le(4) [of px] i(2) that by simp
      show ?thesis
      proof (cases "r = 0")
        case False
        then show ?thesis using True e i(2) assms(1) pw same by (auto simp: good_m_def Let_def ib)
      next
        case r: True
        then show ?thesis unfolding e using True i l pw g opens_m_le(4) [of px] assms(2)
          by (simp add: good_m_def Let_def ib flag_sets wr)
      qed
    next
      case False
      then have i: "i \<in> lnbs_m px" using 2(2) assms(2) by (simp add: lnbs_m_def)
      then have c: "card (lnbs_m px) = Suc (card (lnbs_m px - {i}))" using opens_m_le(4) [of px] by (metis card_Suc_Diff1)
      then have n: "pm_lnb_power_count (bd_context px1) = of_nat (card (lnbs_m px - {i}))" using g(5) False by (simp add: px1_def)
      have same: "b = bd_it930x px" if "lnbs_m px - {i} \<noteq> {}"
        using rb n small_of_nat [of "card (lnbs_m px - {i})"] le c opens_m_le(4) [of px] that by simp
      have x: "wired_all px1" "len px1 = len px" "opens_m px1 = opens_m px" "lnbs_m px1 = lnbs_m px"
        "pm_open_count (bd_context px1) = pm_open_count (bd_context px)" "pm_kref (bd_context px1) = pm_kref (bd_context px)"
        "pm_card_powered (bd_context px1) = pm_card_powered (bd_context px)" using g(1) False by (simp_all add: px1_def)
      show ?thesis unfolding e using False g pw same assms(2)
        by (auto simp: good_m_def Let_def ib flag_sets wr x n)
    qed
  qed
qed

lemma release_good_m:
  assumes "good_m k px" "i < len px" "pm_open (chrdevm i px)"
  shows "good_m k (set_chrdevm i (\<lambda>c. c\<lparr>pm_open := False\<rparr>) (snd (pxmlt_chrdev_release i px)))"
proof -
  define px0 where "px0 = snd (pxmlt_chrdev_set_lnb_voltage i 0 px)"
  have "good_m k px0" using lnb_good_m [OF assms(1,2)] by (simp add: px0_def)
  note g = good_parts [OF this]
  have s: "len px0 = len px" "pm_open (chrdevm i px0)"
    using assms(2,3) by (auto simp: px0_def pxmlt_chrdev_set_lnb_voltage_def on_bridge_def chrdevm_def set_chrdevm_def Let_def case_prod_beta)
  then have i: "i \<in> opens_m px0" "i < len px0" using assms(2) by (simp_all add: opens_m_def)
  define px1 where "px1 = snd (pm_demod i cxd2856er_term (snd (pm_tuner i cxd2858er_term px0)))"
  have t: "calm px0 (snd (pm_tuner i cxd2858er_term px0))" using tuner_calm [OF safe_calls(5) i(2)] .
  have c: "calm px0 px1" unfolding px1_def
    by (rule calm_trans [OF t demod_calm [OF safe_calls(2)]]) (use calm_keeps(4) [OF t g(1)] i(2) in simp)
  note k1 = calm_keeps [OF c g(1)]
  define px2 where "px2 = set_pm (\<lambda>c. c\<lparr>pm_open_count := pm_open_count c - 1\<rparr>) px1"
  define px3 where "px3 = pxmlt_power_off_unused px2"
  have w2: "wired_all px2" using k1(1) by (simp add: px2_def)
  then have n: "counts px3 = counts px2" "wired_all px3" "snd (snd (pview (bd_it930x px3))) = snd (snd (pview (bd_it930x px2)))"
      "pm_open_count (bd_context px2) \<noteq> 0 \<or> pm_card_powered (bd_context px2) \<Longrightarrow> pview (bd_it930x px3) = pview (bd_it930x px2)"
    using off_tame [of px2] by (simp_all add: tame_def px3_def)
  have o: "opens_m px3 = opens_m px0" "lnbs_m px3 = lnbs_m px0" "len px3 = len px0"
    using counts_sets [OF n(1)] counts_sets [OF k1(2)] by (simp_all add: px2_def)
  have r: "pm_open_count (bd_context px3) = card (opens_m px0) - 1" "pm_kref (bd_context px3) = k + card (opens_m px0)"
      "pm_card_powered (bd_context px3) = pm_card_powered (bd_context px0)" "pm_lnb_power_count (bd_context px3) = of_nat (card (lnbs_m px0))"
    using counts_reads [OF n(1)] counts_reads [OF k1(2)] g(3,4,5) by (simp_all add: px2_def)
  have ca: "card (opens_m px0) = Suc (card (opens_m px0 - {i}))" using opens_m_le(3) [of px0] i(1) by (metis card_Suc_Diff1)
  have pw: "powered (bd_it930x px3)" if "opens_m px0 - {i} \<noteq> {} \<or> pm_card_powered (bd_context px0)"
  proof -
    have "pm_open_count (bd_context px2) \<noteq> 0 \<or> pm_card_powered (bd_context px2)"
      using that counts_reads [OF k1(2)] g(3) ca opens_m_le(3) [of px0] by (auto simp: px2_def)
    then have "pview (bd_it930x px3) = pview (bd_it930x px0)" using n(4) k1(3) by (simp add: px2_def)
    then show ?thesis using g(6) i(1) by (auto simp: pview_reads)
  qed
  have l: "lnb_on (bd_it930x px3)" if "lnbs_m px0 \<noteq> {}" using g(7) that n(3) k1(3) by (simp add: px2_def pview_reads)
  have "snd (pxmlt_chrdev_release i px) = set_pm (\<lambda>c. c\<lparr>pm_kref := pm_kref c - 1\<rparr>) px3"
    using g(8) i(1) by (auto simp: pxmlt_chrdev_release_def Let_def px3_def px2_def px1_def simp flip: px0_def)
  moreover have "good_m k (set_chrdevm i (\<lambda>c. c\<lparr>pm_open := False\<rparr>) (set_pm (\<lambda>c. c\<lparr>pm_kref := pm_kref c - 1\<rparr>) px3))"
  proof -
    have "wired_all (set_chrdevm i (\<lambda>c. c\<lparr>pm_open := False\<rparr>) (set_pm (\<lambda>c. c\<lparr>pm_kref := pm_kref c - 1\<rparr>) px3))"
      using n(2) by (intro wired_set) (simp_all add: wired_m_def)
    then show ?thesis using flag_sets [of i "set_pm (\<lambda>c. c\<lparr>pm_kref := pm_kref c - 1\<rparr>) px3"] i(2) o r pw l g(2) ca
      by (simp add: good_m_def Let_def)
  qed
  ultimately show ?thesis by simp
qed

lemma card_good_m:
  assumes "good_m k px" "st \<noteq> pm_card_powered (bd_context px)"
  shows "good_m k (snd (pxmlt_card_set_power st px))"
proof -
  note g = good_parts [OF assms(1)]
  obtain r u where ru: "(if pm_open_count (bd_context px) = 0 then pxmlt_backend_set_power st px else (0, px)) = (r, u)" by fastforce
  have e: "snd (pxmlt_card_set_power st px) =
      (if \<not> st \<or> r = 0 then set_pm (\<lambda>c. c\<lparr>pm_card_powered := st\<rparr>) u else u)"
    unfolding pxmlt_card_set_power_def ru Let_def prod.case by simp
  have n: "counts u = counts px" "wired_all u" "snd (snd (pview (bd_it930x u))) = snd (snd (pview (bd_it930x px)))"
    using ru backend_tame(1,2,3) [OF g(1), of st] g(1) by (auto split: if_splits)
  have p: "powered (bd_it930x u)" if "opens_m px \<noteq> {} \<or> st \<and> r = 0"
    using ru that backend_tame(4) [OF g(1), of st] g(6,8) by (auto split: if_splits)
  have l: "lnb_on (bd_it930x u) = lnb_on (bd_it930x px)" using n(3) by (simp add: pview_reads)
  show ?thesis unfolding e using g assms(2) n(2) p l counts_sets [OF n(1)] counts_reads [OF n(1)]
    by (auto simp: good_m_def Let_def)
qed

lemma step_good_m:
  assumes "pxmlt_step env px px'" "good_m k px" "streaming_keeps_pins env"
  shows "good_m k px'"
  using assms(1)
proof (cases rule: pxmlt_step.cases)
  case (opened i ret qx)
  then show ?thesis using open_good_m [OF assms(2) opened(2,3,4)] by simp
next
  case (released i)
  then show ?thesis using release_good_m [OF assms(2) released(2,3)] by simp
next
  case (lnb i v)
  then show ?thesis using lnb_good_m [OF assms(2)] by simp
next
  case (used i r)
  have "calm px (set_chrdevm i (\<lambda>c. c\<lparr>pm_current_system := y\<rparr>) px)" for y
    by (rule set_chrdevm_calm) (simp_all add: wired_m_def)
  then have "calm px (pxmlt_request_do i px r)"
    using used by (cases r) (simp_all add: tune_calm reads_calm)
  then show ?thesis using used tame_good [OF calm_tame assms(2)] by simp
next
  case (captured i st)
  then show ?thesis using tame_good [OF calm_tame [OF capture_calm [OF assms(3)]] assms(2)] by simp
next
  case (card_power st)
  then show ?thesis using card_good_m [OF assms(2)] by simp
next
  case (card_used r)
  then show ?thesis using tame_good [OF calm_tame [OF bridge_calm [OF card_io_pview]] assms(2)] by simp
qed

lemma term_good_m:
  assumes "good_m (Suc k) px"
  shows "good_m k (pxmlt_device_term px)"
proof -
  have "calm px (px\<lparr>bd_available := False\<rparr>)" by (simp add: calm_def counts_def wired_all_def)
  from tame_good [OF calm_tame [OF this] assms] show ?thesis
    by (simp add: pxmlt_device_term_def good_m_def Let_def)
qed

lemma start_good_m: "pxmlt_start px \<Longrightarrow> good_m (pm_kref (bd_context px)) px"
proof -
  assume s: "pxmlt_start px"
  then have "opens_m px = {}" "lnbs_m px = {}"
    by (auto simp: pxmlt_start_def opens_m_def lnbs_m_def chrdevm_def Let_def)
  then show ?thesis using s by (simp add: pxmlt_start_def good_m_def Let_def)
qed

lemma run_good_m:
  assumes "pxmlt_run env px px' present" "pxmlt_start px" "streaming_keeps_pins env"
  shows "good_m (pm_kref (bd_context px) - (if present then 0 else 1)) px'"
  using assms(1) unfolding pxmlt_run_def
proof (induction "(px', present)" arbitrary: px' present rule: rtranclp_induct)
  case base
  then show ?case using start_good_m [OF assms(2)] by simp
next
  case (step y)
  note IH = step(3)
  show ?case using step(2)
  proof (cases rule: pxmlt_life.cases)
    case (step qx)
    then show ?thesis using step_good_m [OF _ _ assms(3)] IH by blast
  next
    case (unplugged qx)
    have "0 < pm_kref (bd_context px)" using assms(2) by (simp add: pxmlt_start_def Let_def)
    then have "good_m (Suc (pm_kref (bd_context px) - 1)) qx"
      using IH [OF unplugged(1)] by simp
    then show ?thesis using term_good_m unplugged(2,3) by simp
  qed
qed

section \<open>The card reader's switch\<close>

interpretation pxmlt_card_power: card_power pm_card_powered pxmlt_card_set_power
proof unfold_locales
  fix bd bd' :: "'a pxmlt_device" and ret
  show "pm_card_powered (bd_context bd')" if "pxmlt_card_set_power True bd = (0, bd')"
    using that by (auto simp: pxmlt_card_set_power_def Let_def split: prod.splits)
  show "\<not> pm_card_powered (bd_context bd')"
    if "pxmlt_card_set_power True bd = (ret, bd')" "ret \<noteq> 0" "\<not> pm_card_powered (bd_context bd)"
  proof -
    have "pm_card_powered (bd_context (snd (pxmlt_backend_set_power st bd))) = pm_card_powered (bd_context bd)" for st
      by (simp add: pxmlt_backend_set_power_def on_bridge_def Let_def case_prod_beta)
    then show ?thesis using that by (auto simp: pxmlt_card_set_power_def Let_def case_prod_beta split: if_splits)
  qed
  show "\<not> pm_card_powered (bd_context (snd (pxmlt_card_set_power False bd)))"
    by (simp add: pxmlt_card_set_power_def Let_def case_prod_beta)
qed

section \<open>The property\<close>

text \<open>What the initialisation configures is wired up.\<close>

lemma config_wired:
  "wired_m (pxmlt_config_chrdev model i c)" "pm_open (pxmlt_config_chrdev model i c) = pm_open c"
  "pm_lnb_power (pxmlt_config_chrdev model i c) = pm_lnb_power c"
  by (auto simp: wired_m_def pxmlt_config_chrdev_def bridge_master_def Let_def case_prod_beta)

definition demo_rec :: "nat \<Rightarrow> ((u32 \<Rightarrow> u8) \<times> u8 list) pxmlt_chrdev" where
  "demo_rec i = pxmlt_config_chrdev PXMLT8PE3_MODEL i
     \<lparr> pm_lnb_power = False, pm_filter_disabled = False, pm_cxd2856er = cxd_on 3 0x66 0x64 True 0,
       pm_vars = \<lparr> cx_state = CXD2856ER_UNKNOWN_STATE, cx_system = CXD2856ER_UNSPECIFIED_SYSTEM, cable_wakeup_incomplete = False \<rparr>,
       pm_cxd2858er = \<lparr> ct_i2c = bridge_master 3, ct_addr = 0, ct_xtal = 0, ct_ter_lna = False, ct_rfin_matching = False,
         ct_sat_lna = False, ct_junk = 0 \<rparr>,
       pm_system = CXD2858ER_UNSPECIFIED_SYSTEM, pm_open = False, pm_discard_null_packets = True, pm_current_system = 0 \<rparr>"

definition demo_mlt :: "((u32 \<Rightarrow> u8) \<times> u8 list) pxmlt_device" where
  "demo_mlt = \<lparr> bd_it930x = demo_pins, bd_available = True, bd_context =
     \<lparr> pm_open_count = 0, pm_card_powered = False, pm_lnb_power_count = 0, pm_streaming_count = 0, pm_kref = 2,
       pm_chrdevm = map demo_rec [0..<3], pm_remain_len = 0 \<rparr> \<rparr>"

definition demo_mlt_on :: "((u32 \<Rightarrow> u8) \<times> u8 list) pxmlt_device" where
  "demo_mlt_on = snd (pxmlt_card_set_power True demo_mlt)"

lemma demo_mlt_start: "pxmlt_start demo_mlt"
proof -
  have "wired_m (demo_rec i)" "\<not> pm_open (demo_rec i)" "\<not> pm_lnb_power (demo_rec i)" for i
    by (simp_all add: demo_rec_def config_wired)
  then show ?thesis by (simp add: pxmlt_start_def demo_mlt_def wired_all_def)
qed

lemma demo_mlt_run: "pxmlt_run demo_env demo_mlt (pxmlt_device_term demo_mlt_on) False"
  "pm_card_powered (bd_context demo_mlt_on)"
proof -
  have "pxmlt_step demo_env demo_mlt demo_mlt_on" unfolding demo_mlt_on_def
    by (rule pxmlt_step.card_power) (simp add: demo_mlt_def)
  then have "(pxmlt_life demo_env)\<^sup>*\<^sup>* (demo_mlt, True) (demo_mlt_on, True)" by (blast intro: pxmlt_life.step)
  then show "pxmlt_run demo_env demo_mlt (pxmlt_device_term demo_mlt_on) False"
    unfolding pxmlt_run_def by (rule rtranclp.rtrancl_into_rtrancl) (rule pxmlt_life.unplugged)
  have p: "firmware_ok (it_bus demo_pins) fst" "it_bus_type demo_pins = ITEDTV_BUS_USB"
    using demo_init(3,4) by (simp_all add: demo_pins_def)
  obtain b1 where b1: "it930x_write_gpio 7 False demo_pins = (0, b1)" "same_bridge demo_pins b1" using demo_pins_write [OF p refl] by blast
  then obtain b2 where b2: "it930x_write_gpio 2 True b1 = (0, b2)" using demo_pins_write [of b1 2 True] p by (auto simp: same_bridge_def)
  show "pm_card_powered (bd_context demo_mlt_on)" using b1(1) b2
    by (simp add: demo_mlt_on_def demo_mlt_def pxmlt_card_set_power_def pxmlt_backend_set_power_def on_bridge_def Let_def)
qed

text \<open>C35: with a bus layer whose streaming leaves the GPIO pins alone, along every run of a PX-MLT board, whatever the bus
  and the chips answer: the open count is the number of open receivers, each of which holds a reference to the
  device beside the one dropped when the board is unplugged, and the LNB count the number of receivers whose LNB
  supply is on; while a receiver is open or the card reader is on, the supply pins were last written on, and while
  some LNB supply is on, so was its pin. Failing opens, the initialisation of closed receivers' chips when a cable
  system is tuned, captures, the card reader and unplugging do not change that.\<close>

theorem pxmlt_in_use_powered:
  assumes "pxmlt_run env px px' present" "pxmlt_start px" "streaming_keeps_pins env"
  shows "pm_open_count (bd_context px') = card (opens_m px') \<and>
    pm_kref (bd_context px') + (if present then 0 else 1) = pm_kref (bd_context px) + card (opens_m px') \<and>
    pm_lnb_power_count (bd_context px') = of_nat (card (lnbs_m px')) \<and>
    (opens_m px' \<noteq> {} \<or> pm_card_powered (bd_context px') \<longrightarrow> powered (bd_it930x px')) \<and>
    (lnbs_m px' \<noteq> {} \<longrightarrow> lnb_on (bd_it930x px'))"
proof -
  have "0 < pm_kref (bd_context px)" using assms(2) by (simp add: pxmlt_start_def Let_def)
  then show ?thesis using good_parts [OF run_good_m [OF assms]] by (cases present) auto
qed

theorem pxmlt_in_use_powered_witness: "powered (bd_it930x (pxmlt_device_term demo_mlt_on))"
proof -
  have "pm_card_powered (bd_context (pxmlt_device_term demo_mlt_on))"
    using demo_mlt_run(2) by (simp add: pxmlt_device_term_def)
  then show ?thesis using pxmlt_in_use_powered [OF demo_mlt_run(1) demo_mlt_start demo_start(3)] by blast
qed

end
