(* ===== verification/Urb_Pool.thy ===== *)
theory Urb_Pool
  imports It930x
begin

text \<open>
  The streaming path of driver/itedtv\_bus.c: the pool of USB request blocks with their buffers that
  \<open>itedtv_usb_start_streaming\<close> builds and submits, the completion handler that passes each buffer to
  the stream handler and submits the block again, and the operations that stop the stream and free the pool.
  Workqueues are off (ITEDTV\_BUS\_USE\_WORKQUEUE is defined nowhere) and the Linux branches are taken.

  The kernel is a state of its own, \<open>usb_kernel\<close>: which buffers, request blocks and other objects are
  allocated and which blocks are in flight, as the documentation of the memory allocator and of the USB core
  has it. The outcome of every allocation, submission and stream handler call is the next value of
  the parameter \<open>k_answer\<close>. A call the documentation forbids is recorded in \<open>k_faults\<close>.
\<close>

section \<open>The allocator and the USB core\<close>

datatype usb_fault =
  Wrong_Free nat        \<comment> \<open>a buffer freed twice, by the other allocator or with another size\<close>
| Freed_In_Flight nat   \<comment> \<open>a buffer freed while the controller may write to it\<close>
| Bad_Urb nat           \<comment> \<open>a request block used or freed that is not allocated or is in flight\<close>
| Bad_Submit nat        \<comment> \<open>a submission in flight already or without a buffer of its kind\<close>
| No_Handler            \<comment> \<open>a call through the null stream handler\<close>
| Null_Urb              \<comment> \<open>an entry of the pool without a request block\<close>

record usb_kernel =
  k_bufs :: "nat \<rightharpoonup> bool \<times> u32"
  k_urbs :: "nat set"
  k_flying :: "nat \<rightharpoonup> nat"
  k_objs :: int
  k_dev_refs :: int
  k_next :: nat
  k_answer :: "nat \<Rightarrow> int"
  k_asked :: nat
  k_faults :: "usb_fault list"
  k_handled :: "(nat \<times> nat \<times> nat \<times> nat) list"

definition ask :: "usb_kernel \<Rightarrow> int \<times> usb_kernel" where
  "ask w = (k_answer w (k_asked w), w\<lparr>k_asked := Suc (k_asked w)\<rparr>)"

definition fault_if :: "bool \<Rightarrow> usb_fault \<Rightarrow> usb_kernel \<Rightarrow> usb_kernel" where
  "fault_if b f w = (if b then w\<lparr>k_faults := k_faults w @ [f]\<rparr> else w)"

definition alloc_buffer :: "bool \<Rightarrow> u32 \<Rightarrow> usb_kernel \<Rightarrow> nat option \<times> usb_kernel" where
  "alloc_buffer coherent sz w =
     (let (r, w) = ask w in
      if r \<noteq> 0 then (None, w)
      else (Some (k_next w),
            w\<lparr>k_bufs := (k_bufs w)(k_next w \<mapsto> (coherent, sz)), k_next := Suc (k_next w)\<rparr>))"

definition release_buffer :: "nat \<Rightarrow> usb_kernel \<Rightarrow> usb_kernel" where
  "release_buffer a w =
     (let w = fault_if (a \<in> ran (k_flying w)) (Freed_In_Flight a) w
      in w\<lparr>k_bufs := (k_bufs w)(a := None)\<rparr>)"

definition usb_free_coherent :: "u32 \<Rightarrow> nat \<Rightarrow> usb_kernel \<Rightarrow> usb_kernel" where
  "usb_free_coherent sz a w =
     release_buffer a (fault_if (k_bufs w a \<noteq> Some (True, sz)) (Wrong_Free a) w)"

definition kfree_buffer :: "nat \<Rightarrow> usb_kernel \<Rightarrow> usb_kernel" where
  "kfree_buffer a w =
     release_buffer a (fault_if (map_option fst (k_bufs w a) \<noteq> Some False) (Wrong_Free a) w)"

text \<open>\<^verbatim>\<open>kcalloc\<close>, \<^verbatim>\<open>kzalloc\<close> and \<^verbatim>\<open>kfree\<close> of the driver's own structures.\<close>

definition alloc_object :: "usb_kernel \<Rightarrow> bool \<times> usb_kernel" where
  "alloc_object w =
     (let (r, w) = ask w in if r \<noteq> 0 then (False, w) else (True, w\<lparr>k_objs := k_objs w + 1\<rparr>))"

definition free_object :: "usb_kernel \<Rightarrow> usb_kernel" where
  "free_object w = w\<lparr>k_objs := k_objs w - 1\<rparr>"

record urb =
  u_id :: nat
  transfer_buffer :: "nat option"
  transfer_buffer_length :: u32
  transfer_dma_map :: bool      \<comment> \<open>URB\_NO\_TRANSFER\_DMA\_MAP of \<^verbatim>\<open>transfer_flags\<close>\<close>

definition usb_alloc_urb :: "usb_kernel \<Rightarrow> urb option \<times> usb_kernel" where
  "usb_alloc_urb w =
     (let (r, w) = ask w in
      if r \<noteq> 0 then (None, w)
      else (Some \<lparr>u_id = k_next w, transfer_buffer = None, transfer_buffer_length = 0,
                   transfer_dma_map = False\<rparr>,
            w\<lparr>k_urbs := insert (k_next w) (k_urbs w), k_next := Suc (k_next w)\<rparr>))"

definition usb_free_urb :: "urb \<Rightarrow> usb_kernel \<Rightarrow> usb_kernel" where
  "usb_free_urb u w =
     (let w = fault_if (u_id u \<notin> k_urbs w \<or> u_id u \<in> dom (k_flying w)) (Bad_Urb (u_id u)) w
      in w\<lparr>k_urbs := k_urbs w - {u_id u}\<rparr>)"

definition submit_allowed :: "urb \<Rightarrow> usb_kernel \<Rightarrow> bool" where
  "submit_allowed u w \<longleftrightarrow>
     u_id u \<in> k_urbs w \<and> u_id u \<notin> dom (k_flying w) \<and>
     (case transfer_buffer u of None \<Rightarrow> False
      | Some a \<Rightarrow> k_bufs w a = Some (transfer_dma_map u, transfer_buffer_length u))"

definition usb_submit_urb :: "urb \<Rightarrow> usb_kernel \<Rightarrow> int \<times> usb_kernel" where
  "usb_submit_urb u w =
     (let (r, w) = ask (fault_if (\<not> submit_allowed u w) (Bad_Submit (u_id u)) w) in
      (r, if r = 0 then w\<lparr>k_flying := (k_flying w)(u_id u := transfer_buffer u)\<rparr> else w))"

text \<open>\<^verbatim>\<open>usb_kill_urb\<close> waits for the block's handler and refuses to let it be submitted meanwhile.\<close>

definition usb_kill_urb :: "urb \<Rightarrow> usb_kernel \<Rightarrow> usb_kernel" where
  "usb_kill_urb u w =
     (let w = fault_if (u_id u \<notin> k_urbs w) (Bad_Urb (u_id u)) w
      in w\<lparr>k_flying := (k_flying w)(u_id u := None)\<rparr>)"

section \<open>The context of the streaming path\<close>

text \<open>
  An entry of \<open>uc_works\<close> is the block of \<^verbatim>\<open>struct itedtv_usb_work\<close>; its back pointer \<^verbatim>\<open>ctx\<close> is the
  one context. \<open>uc_works\<close> is \<open>None\<close> where the C pointer is null.
\<close>

type_synonym usb_work = "urb option"

record itedtv_usb_context =
  uc_handler :: "nat option"
  uc_ctx :: nat
  uc_num_urb :: nat
  uc_no_dma :: bool
  uc_num_works :: nat
  uc_works :: "usb_work list option"
  uc_streaming :: int

record usb_streaming =
  urb_buffer_size :: u32
  urb_num :: nat
  bus_no_dma :: bool

definition call_handler ::
    "nat option \<Rightarrow> nat \<Rightarrow> nat \<Rightarrow> nat \<Rightarrow> usb_kernel \<Rightarrow> int \<times> usb_kernel" where
  "call_handler h hc a len w =
     (case h of None \<Rightarrow> (0, fault_if True No_Handler w)
      | Some f \<Rightarrow> ask (w\<lparr>k_handled := k_handled w @ [(f, hc, a, len)]\<rparr>))"

text \<open>The core gives the block back (it is no longer in flight) and calls the handler.\<close>

definition itedtv_usb_complete ::
    "itedtv_usb_context \<Rightarrow> urb \<Rightarrow> int \<Rightarrow> nat \<Rightarrow> usb_kernel \<Rightarrow> usb_kernel" where
  "itedtv_usb_complete c u status len w =
     (let w = w\<lparr>k_flying := (k_flying w)(u_id u := None)\<rparr> in
      if status \<noteq> 0 then w
      else let (ret, w) = (if len \<noteq> 0
                           then call_handler (uc_handler c) (uc_ctx c) (the (transfer_buffer u)) len w
                           else (0, w)) in
        if ret \<noteq> 0 \<or> uc_streaming c < 1 then w else snd (usb_submit_urb u w))"

text \<open>
  Transfers that complete while an operation runs: entry, status, length. A block completes only if it is
  in flight.
\<close>

type_synonym usb_completion = "nat \<times> int \<times> nat"

definition usb_irq :: "itedtv_usb_context \<Rightarrow> usb_completion \<Rightarrow> usb_kernel \<Rightarrow> usb_kernel" where
  "usb_irq c q w =
     (let (i, status, len) = q in
      case uc_works c of None \<Rightarrow> w
      | Some ws \<Rightarrow> if length ws \<le> i then w
          else (case ws ! i of None \<Rightarrow> w
            | Some u \<Rightarrow> if u_id u \<in> dom (k_flying w) then itedtv_usb_complete c u status len w else w))"

definition usb_irqs :: "itedtv_usb_context \<Rightarrow> usb_completion list \<Rightarrow> usb_kernel \<Rightarrow> usb_kernel" where
  "usb_irqs c qs w = fold (usb_irq c) qs w"

section \<open>Building and freeing the pool\<close>

text \<open>A buffer of the wrong kind or size is given back before a new one is taken.\<close>

definition drop_stale_buffer :: "bool \<Rightarrow> u32 \<Rightarrow> urb \<Rightarrow> usb_kernel \<Rightarrow> urb \<times> usb_kernel" where
  "drop_stale_buffer no_dma buf_size u w =
     (case transfer_buffer u of None \<Rightarrow> (u, w)
      | Some a \<Rightarrow>
         if transfer_dma_map u \<and> (no_dma \<or> transfer_buffer_length u \<noteq> buf_size)
         then (u\<lparr>transfer_dma_map := False, transfer_buffer := None, transfer_buffer_length := 0\<rparr>,
               usb_free_coherent (transfer_buffer_length u) a w)
         else if \<not> transfer_dma_map u \<and> (\<not> no_dma \<or> transfer_buffer_length u \<noteq> buf_size)
         then (u\<lparr>transfer_buffer := None, transfer_buffer_length := 0\<rparr>, kfree_buffer a w)
         else (u, w))"

definition usb_fill_bulk_urb :: "nat \<Rightarrow> u32 \<Rightarrow> urb \<Rightarrow> urb" where
  "usb_fill_bulk_urb a buf_size u = u\<lparr>transfer_buffer := Some a, transfer_buffer_length := buf_size\<rparr>"

text \<open>One pass of the loop: whether it goes on, the entry afterwards.\<close>

definition alloc_urb_buffer ::
    "bool \<Rightarrow> u32 \<Rightarrow> usb_work \<Rightarrow> usb_kernel \<Rightarrow> bool \<times> usb_work \<times> usb_kernel" where
  "alloc_urb_buffer no_dma buf_size x w =
     (let (x, w) = (case x of
          Some u \<Rightarrow> (let (u, w) = drop_stale_buffer no_dma buf_size u w in (Some u, w))
        | None \<Rightarrow> usb_alloc_urb w) in
      case x of None \<Rightarrow> (False, None, w)
      | Some u \<Rightarrow>
         if transfer_buffer u \<noteq> None then (True, Some u, w)
         else let (p, w) = alloc_buffer (\<not> no_dma) buf_size w in
           case p of None \<Rightarrow> (False, None, usb_free_urb u w)
           | Some a \<Rightarrow>
              let u = usb_fill_bulk_urb a buf_size u in
              (True, Some (if \<not> no_dma then u\<lparr>transfer_dma_map := True\<rparr> else u), w))"

fun alloc_urb_loop ::
    "bool \<Rightarrow> u32 \<Rightarrow> usb_work list \<Rightarrow> usb_kernel \<Rightarrow> nat \<times> usb_work list \<times> usb_kernel" where
  "alloc_urb_loop no_dma buf_size [] w = (0, [], w)"
| "alloc_urb_loop no_dma buf_size (x # xs) w =
     (let (go, y, w) = alloc_urb_buffer no_dma buf_size x w in
      if \<not> go then (0, y # xs, w)
      else let (n, ys, w) = alloc_urb_loop no_dma buf_size xs w in (Suc n, y # ys, w))"

definition itedtv_usb_alloc_urb_buffers ::
    "u32 \<Rightarrow> itedtv_usb_context \<Rightarrow> usb_kernel \<Rightarrow> int \<times> itedtv_usb_context \<times> usb_kernel" where
  "itedtv_usb_alloc_urb_buffers buf_size c w =
     (case uc_works c of None \<Rightarrow> (- EINVAL, c, w)
      | Some ws \<Rightarrow>
         let (i, ws, w) = alloc_urb_loop (uc_no_dma c) buf_size ws w;
             c = c\<lparr>uc_works := Some ws, uc_num_urb := i\<rparr>
         in (if i = 0 then - ENOMEM else 0, c, w))"

definition free_urb_buffer :: "bool \<Rightarrow> bool \<Rightarrow> usb_work \<Rightarrow> usb_kernel \<Rightarrow> usb_work \<times> usb_kernel" where
  "free_urb_buffer no_dma free_urb x w =
     (case x of None \<Rightarrow> (None, w)
      | Some u \<Rightarrow>
         let (u, w) = (case transfer_buffer u of None \<Rightarrow> (u, w)
              | Some a \<Rightarrow>
                 if \<not> no_dma
                 then (u\<lparr>transfer_dma_map := False, transfer_buffer := None, transfer_buffer_length := 0\<rparr>,
                       usb_free_coherent (transfer_buffer_length u) a w)
                 else (u\<lparr>transfer_buffer := None, transfer_buffer_length := 0\<rparr>, kfree_buffer a w))
         in if free_urb then (None, usb_free_urb u w) else (Some u, w))"

fun free_urb_loop :: "bool \<Rightarrow> bool \<Rightarrow> usb_work list \<Rightarrow> usb_kernel \<Rightarrow> usb_work list \<times> usb_kernel" where
  "free_urb_loop no_dma free_urb [] w = ([], w)"
| "free_urb_loop no_dma free_urb (x # xs) w =
     (let (y, w) = free_urb_buffer no_dma free_urb x w;
          (ys, w) = free_urb_loop no_dma free_urb xs w
      in (y # ys, w))"

definition itedtv_usb_free_urb_buffers ::
    "bool \<Rightarrow> itedtv_usb_context \<Rightarrow> usb_kernel \<Rightarrow> itedtv_usb_context \<times> usb_kernel" where
  "itedtv_usb_free_urb_buffers free_urb c w =
     (case uc_works c of None \<Rightarrow> (c, w)
      | Some ws \<Rightarrow>
         let (ws, w) = free_urb_loop (uc_no_dma c) free_urb ws w;
             c = c\<lparr>uc_works := Some ws\<rparr>
         in (if free_urb then c\<lparr>uc_num_urb := 0\<rparr> else c, w))"

definition itedtv_usb_clean_context ::
    "bool \<Rightarrow> itedtv_usb_context \<Rightarrow> usb_kernel \<Rightarrow> itedtv_usb_context \<times> usb_kernel" where
  "itedtv_usb_clean_context free_works c w =
     (let (c, w) = (if free_works \<and> uc_works c \<noteq> None
            then (let (c, w) = itedtv_usb_free_urb_buffers True c w
                  in (c\<lparr>uc_num_urb := 0, uc_works := None, uc_num_works := 0\<rparr>, free_object w))
            else (c, w))
      in (c\<lparr>uc_handler := None, uc_ctx := 0, uc_no_dma := False\<rparr>, w))"

section \<open>Starting and stopping the stream\<close>

text \<open>
  The reset of the endpoint (\<^verbatim>\<open>usb_reset_endpoint\<close>) keeps no state here. Both loops are
  interrupted: \<open>irqs i\<close> are the transfers that complete before the pass for entry \<open>i\<close>.
\<close>

definition with_work ::
    "itedtv_usb_context \<Rightarrow> nat \<Rightarrow> (urb \<Rightarrow> usb_kernel \<Rightarrow> int \<times> usb_kernel) \<Rightarrow> usb_kernel \<Rightarrow>
     int \<times> usb_kernel" where
  "with_work c i f w =
     (case the (uc_works c) ! i of None \<Rightarrow> (0, fault_if True Null_Urb w) | Some u \<Rightarrow> f u w)"

fun kill_loop ::
    "(nat \<Rightarrow> usb_completion list) \<Rightarrow> itedtv_usb_context \<Rightarrow> nat \<Rightarrow> nat \<Rightarrow> usb_kernel \<Rightarrow> usb_kernel" where
  "kill_loop irqs c i 0 w = w"
| "kill_loop irqs c i (Suc k) w =
     kill_loop irqs c (Suc i) k
       (snd (with_work c i (\<lambda>u w. (0, usb_kill_urb u w)) (usb_irqs c (irqs i) w)))"

fun submit_loop ::
    "(nat \<Rightarrow> usb_completion list) \<Rightarrow> itedtv_usb_context \<Rightarrow> nat \<Rightarrow> nat \<Rightarrow> usb_kernel \<Rightarrow> int \<times> usb_kernel" where
  "submit_loop irqs c i 0 w = (0, w)"
| "submit_loop irqs c i (Suc k) w =
     (let (ret, w) = with_work c i usb_submit_urb (usb_irqs c (irqs i) w) in
      if ret \<noteq> 0 then (ret, kill_loop irqs c 0 i w)
      else submit_loop irqs c (Suc i) k w)"

definition start_fail ::
    "int \<Rightarrow> itedtv_usb_context \<Rightarrow> usb_kernel \<Rightarrow> int \<times> itedtv_usb_context \<times> usb_kernel" where
  "start_fail ret c w =
     (let (c, w) = itedtv_usb_clean_context True (c\<lparr>uc_streaming := 0\<rparr>) w in (ret, c, w))"

definition itedtv_usb_start_streaming ::
    "(nat \<Rightarrow> usb_completion list) \<Rightarrow> usb_streaming \<Rightarrow> nat option \<Rightarrow> nat \<Rightarrow> itedtv_usb_context \<Rightarrow> usb_kernel \<Rightarrow>
     int \<times> itedtv_usb_context \<times> usb_kernel" where
  "itedtv_usb_start_streaming irqs s handler hctx c w =
     (if handler = None then (- EINVAL, c, w)
      else
        let c = c\<lparr>uc_handler := handler, uc_ctx := hctx, uc_no_dma := bus_no_dma s\<rparr>;
            (c, w) = (if uc_works c \<noteq> None \<and> urb_num s \<noteq> uc_num_works c
              then (let (c, w) = itedtv_usb_free_urb_buffers True c w
                    in (c\<lparr>uc_works := None\<rparr>, free_object w))
              else (c, w));
            c = c\<lparr>uc_num_works := urb_num s\<rparr>;
            (ok, c, w) = (if uc_works c = None
              then (let (ok, w) = alloc_object w
                    in (ok, if ok then c\<lparr>uc_works := Some (replicate (uc_num_works c) None)\<rparr> else c, w))
              else (True, c, w))
        in if \<not> ok then start_fail (- ENOMEM) c w
        else let (ret, c, w) = itedtv_usb_alloc_urb_buffers (urb_buffer_size s) c w in
        if ret \<noteq> 0 then start_fail ret c w
        else let c = c\<lparr>uc_streaming := 1\<rparr>;
                 (ret, w) = submit_loop irqs c 0 (uc_num_urb c) w
        in if ret \<noteq> 0 then start_fail ret c w
        else (0, c, w))"

definition itedtv_usb_stop_streaming ::
    "(nat \<Rightarrow> usb_completion list) \<Rightarrow> itedtv_usb_context \<Rightarrow> usb_kernel \<Rightarrow> int \<times> itedtv_usb_context \<times> usb_kernel" where
  "itedtv_usb_stop_streaming irqs c w =
     (let c = c\<lparr>uc_streaming := 0\<rparr>;
          w = (if uc_works c \<noteq> None then kill_loop irqs c 0 (uc_num_urb c) w else w);
          (c, w) = itedtv_usb_clean_context False c w
      in (0, c, w))"

section \<open>The bus\<close>

record itedtv_bus =
  ub_type :: itedtv_bus_type
  ub_dev :: "u16 option"            \<comment> \<open>the device's \<^verbatim>\<open>bcdUSB\<close>, where a device is given\<close>
  ub_max_bulk_size :: int
  ub_streaming :: usb_streaming
  ub_priv :: "itedtv_usb_context option"
  ub_ops :: bool                    \<comment> \<open>the five operations are set\<close>

definition zero_bus :: itedtv_bus where
  "zero_bus = \<lparr>ub_type = ITEDTV_BUS_NONE, ub_dev = None, ub_max_bulk_size = 0,
     ub_streaming = \<lparr>urb_buffer_size = 0, urb_num = 0, bus_no_dma = False\<rparr>, ub_priv = None, ub_ops = False\<rparr>"

definition new_usb_context :: itedtv_usb_context where
  "new_usb_context = \<lparr>uc_handler = None, uc_ctx = 0, uc_num_urb = 0, uc_no_dma = False,
     uc_num_works = 0, uc_works = None, uc_streaming = 0\<rparr>"

definition itedtv_bus_init ::
    "itedtv_bus option \<Rightarrow> usb_kernel \<Rightarrow> int \<times> itedtv_bus option \<times> usb_kernel" where
  "itedtv_bus_init bus w =
     (case bus of None \<Rightarrow> (- EINVAL, None, w)
      | Some b \<Rightarrow>
        (case ub_type b of
           ITEDTV_BUS_USB \<Rightarrow>
             (case ub_dev b of None \<Rightarrow> (- EINVAL, Some b, w)
              | Some bcd \<Rightarrow>
                 if bcd < 0x0110 then (- EIO, Some b, w)
                 else let (ok, w) = alloc_object w in
                   if \<not> ok then (- ENOMEM, Some b, w)
                   else (0, Some (b\<lparr>ub_priv := Some new_usb_context,
                                     ub_max_bulk_size := (if ub_max_bulk_size b = 0
                                       then (if bcd = 0x0110 then 64 else 512) else ub_max_bulk_size b),
                                     ub_ops := True\<rparr>),
                         w\<lparr>k_dev_refs := k_dev_refs w + 1\<rparr>))
         | ITEDTV_BUS_NONE \<Rightarrow> (- EINVAL, Some b, w)))"

definition itedtv_bus_term ::
    "(nat \<Rightarrow> usb_completion list) \<Rightarrow> itedtv_bus option \<Rightarrow> usb_kernel \<Rightarrow> int \<times> itedtv_bus option \<times> usb_kernel" where
  "itedtv_bus_term irqs bus w =
     (case bus of None \<Rightarrow> (- EINVAL, None, w)
      | Some b \<Rightarrow>
        let w = (case ub_type b of
           ITEDTV_BUS_USB \<Rightarrow>
             let w = (case ub_priv b of None \<Rightarrow> w
                | Some c \<Rightarrow>
                   let (c, w) = (if uc_streaming c \<noteq> 0 then snd (itedtv_usb_stop_streaming irqs c w) else (c, w))
                   in free_object (snd (itedtv_usb_clean_context True c w)))
             in if ub_dev b \<noteq> None then w\<lparr>k_dev_refs := k_dev_refs w - 1\<rparr> else w
         | ITEDTV_BUS_NONE \<Rightarrow> w)
        in (0, Some zero_bus, w))"

text \<open>The operations of the bus; a bus that is missing or not initialised has none.\<close>

definition itedtv_bus_start_streaming ::
    "(nat \<Rightarrow> usb_completion list) \<Rightarrow> nat option \<Rightarrow> nat \<Rightarrow> itedtv_bus option \<Rightarrow> usb_kernel \<Rightarrow>
     int \<times> itedtv_bus option \<times> usb_kernel" where
  "itedtv_bus_start_streaming irqs handler hctx bus w =
     (case bus of None \<Rightarrow> (- EINVAL, None, w)
      | Some b \<Rightarrow> if \<not> ub_ops b then (- EINVAL, bus, w)
        else let (ret, c, w) = itedtv_usb_start_streaming irqs (ub_streaming b) handler hctx (the (ub_priv b)) w
             in (ret, Some (b\<lparr>ub_priv := Some c\<rparr>), w))"

definition itedtv_bus_stop_streaming ::
    "(nat \<Rightarrow> usb_completion list) \<Rightarrow> itedtv_bus option \<Rightarrow> usb_kernel \<Rightarrow> int \<times> itedtv_bus option \<times> usb_kernel" where
  "itedtv_bus_stop_streaming irqs bus w =
     (case bus of None \<Rightarrow> (- EINVAL, None, w)
      | Some b \<Rightarrow> if \<not> ub_ops b then (- EINVAL, bus, w)
        else let (ret, c, w) = itedtv_usb_stop_streaming irqs (the (ub_priv b)) w
             in (ret, Some (b\<lparr>ub_priv := Some c\<rparr>), w))"

section \<open>Runs\<close>

text \<open>
  An initialised bus under its device: the stream is started only while it is stopped (the devices count
  their receivers), stopped at any time, and blocks in flight complete.
\<close>

inductive bus_step :: "itedtv_bus \<times> usb_kernel \<Rightarrow> itedtv_bus \<times> usb_kernel \<Rightarrow> bool" where
  start: "\<lbrakk>ub_priv b = Some c; uc_streaming c = 0;
           itedtv_bus_start_streaming irqs handler hctx (Some b) w = (ret, Some b', w')\<rbrakk> \<Longrightarrow>
          bus_step (b, w) (b', w')"
| stop: "itedtv_bus_stop_streaming irqs (Some b) w = (ret, Some b', w') \<Longrightarrow> bus_step (b, w) (b', w')"
| complete: "ub_priv b = Some c \<Longrightarrow> bus_step (b, w) (b, usb_irq c q w)"

text \<open>The kernel before the bus is initialised.\<close>

definition idle_kernel :: "usb_kernel \<Rightarrow> bool" where
  "idle_kernel w \<longleftrightarrow> k_bufs w = Map.empty \<and> k_urbs w = {} \<and> k_flying w = Map.empty \<and> k_objs w = 0 \<and>
     k_dev_refs w = 0 \<and> k_faults w = []"

inductive bus_reachable :: "itedtv_bus \<Rightarrow> usb_kernel \<Rightarrow> bool" where
  init: "\<lbrakk>idle_kernel w; itedtv_bus_init (Some b) w = (0, Some b', w')\<rbrakk> \<Longrightarrow> bus_reachable b' w'"
| step: "\<lbrakk>bus_reachable b w; bus_step (b, w) (b', w')\<rbrakk> \<Longrightarrow> bus_reachable b' w'"

inductive_cases bus_stepE: "bus_step (b, w) (b', w')"

end
