(* ===== verification/Urb_Pool_Props.thy ===== *)
theory Urb_Pool_Props
  imports Urb_Pool
begin

text \<open>
  What keeps the stream's memory safe: the pool owns exactly the request blocks and buffers that are
  allocated, whatever fails while it is built; only blocks of the pool are in flight, and none is once the
  stream has stopped. No buffer is then freed under a transfer, and a terminated bus leaves nothing
  allocated. One fault is left: a bus told not to use coherent memory frees its buffers by the wrong
  function when it is terminated with a pool, the stream stopped or running.
\<close>

section \<open>What the pool owns\<close>

fun urbs_of :: "usb_work list \<Rightarrow> urb list" where
  "urbs_of [] = []"
| "urbs_of (x # xs) = (case x of None \<Rightarrow> urbs_of xs | Some u \<Rightarrow> u # urbs_of xs)"

lemma urbs_of_append [simp]: "urbs_of (xs @ ys) = urbs_of xs @ urbs_of ys"
  by (induction xs) (auto split: option.splits)

lemma urbs_of_none [simp]: "urbs_of (replicate n None) = []"
  by (induction n) auto

lemma set_urbs_of: "set (urbs_of xs) = {u. Some u \<in> set xs}"
  by (induction xs) (auto split: option.splits)

lemma urbs_of_nth: "\<lbrakk>i < length ws; ws ! i = Some u\<rbrakk> \<Longrightarrow> u \<in> set (urbs_of ws)"
  by (auto simp: set_urbs_of in_set_conv_nth)

definition bufs_of_urb :: "urb \<Rightarrow> (nat \<times> bool \<times> u32) list" where
  "bufs_of_urb u = (case transfer_buffer u of None \<Rightarrow> []
     | Some a \<Rightarrow> [(a, transfer_dma_map u, transfer_buffer_length u)])"

definition bufs_of :: "urb list \<Rightarrow> (nat \<times> bool \<times> u32) list" where
  "bufs_of us = concat (map bufs_of_urb us)"

lemma bufs_of_simps [simp]:
  "bufs_of [] = []" "bufs_of (u # us) = bufs_of_urb u @ bufs_of us"
  "bufs_of (us @ vs) = bufs_of us @ bufs_of vs"
  by (simp_all add: bufs_of_def)

text \<open>The blocks named \<open>ids\<close> and the buffers \<open>bs\<close> are exactly what is allocated.\<close>

definition allocated :: "nat list \<Rightarrow> (nat \<times> bool \<times> u32) list \<Rightarrow> usb_kernel \<Rightarrow> bool" where
  "allocated ids bs w \<longleftrightarrow>
     distinct ids \<and> k_urbs w = set ids \<and> (\<forall>i \<in> set ids. i < k_next w) \<and>
     distinct (map fst bs) \<and> k_bufs w = map_of bs \<and> (\<forall>a \<in> fst ` set bs. a < k_next w)"

definition pool_owns :: "urb list \<Rightarrow> usb_kernel \<Rightarrow> bool" where
  "pool_owns us w \<longleftrightarrow> allocated (map u_id us) (bufs_of us) w"

lemma map_of_insert: "a \<notin> fst ` set xs \<Longrightarrow> map_of (xs @ (a, v) # ys) = (map_of (xs @ ys))(a \<mapsto> v)"
  by (induction xs) (auto simp: fun_upd_twist simp del: map_of_append)

lemma map_of_delete: "distinct (map fst (xs @ (a, v) # ys)) \<Longrightarrow>
    (map_of (xs @ (a, v) # ys))(a := None) = map_of (xs @ ys)"
proof -
  assume d: "distinct (map fst (xs @ (a, v) # ys))"
  then have "map_of (xs @ ys) a = None"
    by (auto simp: map_of_eq_None_iff simp del: map_of_append)
  then show ?thesis
    using d by (simp add: map_of_insert fun_upd_idem del: map_of_append)
qed

lemma allocated_new_urb: "allocated (i @ j) bs w \<Longrightarrow>
    allocated (i @ k_next w # j) bs (w\<lparr>k_urbs := insert (k_next w) (k_urbs w), k_next := Suc (k_next w)\<rparr>)"
  by (auto simp: allocated_def less_Suc_eq)

lemma allocated_new_buf:
  assumes "allocated ids (b @ c) w"
  shows "allocated ids (b @ (k_next w, v) # c)
    (w\<lparr>k_bufs := (k_bufs w)(k_next w \<mapsto> v), k_next := Suc (k_next w)\<rparr>)"
proof -
  have "\<forall>a \<in> fst ` set (b @ c). a < k_next w"
    using assms unfolding allocated_def by blast
  then have n: "k_next w \<notin> fst ` set b" "k_next w \<notin> fst ` set c"
    by force+
  show ?thesis
    using assms n by (simp add: allocated_def map_of_insert less_Suc_eq image_Un ball_Un del: map_of_append)
qed

lemma allocated_free_urb: "allocated (i @ x # j) bs w \<Longrightarrow> allocated (i @ j) bs (w\<lparr>k_urbs := k_urbs w - {x}\<rparr>)"
  by (auto simp: allocated_def)

lemma allocated_free_buf: "allocated ids (b @ (a, v) # c) w \<Longrightarrow>
    allocated ids (b @ c) (w\<lparr>k_bufs := (k_bufs w)(a := None)\<rparr>)"
  using map_of_delete [of b a v c] by (auto simp: allocated_def)

lemma allocated_indep [simp]:
  "allocated ids bs (w\<lparr>k_asked := n\<rparr>) = allocated ids bs w"
  "allocated ids bs (w\<lparr>k_faults := fs\<rparr>) = allocated ids bs w"
  "allocated ids bs (w\<lparr>k_flying := g\<rparr>) = allocated ids bs w"
  "allocated ids bs (w\<lparr>k_handled := h\<rparr>) = allocated ids bs w"
  "allocated ids bs (w\<lparr>k_objs := m\<rparr>) = allocated ids bs w"
  "allocated ids bs (w\<lparr>k_dev_refs := m\<rparr>) = allocated ids bs w"
  by (simp_all add: allocated_def)

text \<open>Everything of the kernel but its allocations of blocks and buffers is kept.\<close>

definition same_rest :: "usb_kernel \<Rightarrow> usb_kernel \<Rightarrow> bool" where
  "same_rest w w' \<longleftrightarrow> k_flying w' = k_flying w \<and> k_objs w' = k_objs w \<and> k_dev_refs w' = k_dev_refs w"

lemma same_rest_refl [simp]: "same_rest w w"
  by (simp add: same_rest_def)

lemma same_rest_trans: "\<lbrakk>same_rest w w'; same_rest w' w''\<rbrakk> \<Longrightarrow> same_rest w w''"
  by (simp add: same_rest_def)

lemma pool_owns_alloc_urb:
  assumes "pool_owns (pre @ post) w" "usb_alloc_urb w = (x, w')"
  shows "pool_owns (pre @ urbs_of [x] @ post) w'" "same_rest w w'" "k_faults w' = k_faults w"
    "x = Some u \<Longrightarrow> transfer_buffer u = None \<and> \<not> transfer_dma_map u"
  using assms allocated_new_urb [of "map u_id pre" "map u_id post" "bufs_of (pre @ post)" "snd (ask w)"]
  by (auto simp: usb_alloc_urb_def ask_def same_rest_def pool_owns_def bufs_of_urb_def Let_def
      split: if_splits)

lemma pool_owns_alloc_buffer:
  assumes "pool_owns (pre @ u # post) w" "transfer_buffer u = None" "alloc_buffer k sz w = (p, w')"
  shows "same_rest w w'" "k_faults w' = k_faults w" "p = None \<Longrightarrow> pool_owns (pre @ u # post) w'"
    "p = Some a \<Longrightarrow>
      pool_owns (pre @ u\<lparr>transfer_buffer := Some a, transfer_buffer_length := sz, transfer_dma_map := k\<rparr> # post) w'"
  using assms allocated_new_buf [of "map u_id (pre @ u # post)" "bufs_of pre" "bufs_of post" "snd (ask w)" "(k, sz)"]
  by (auto simp: alloc_buffer_def ask_def same_rest_def pool_owns_def bufs_of_urb_def Let_def
      split: if_splits)

lemma pool_owns_free_urb:
  assumes "pool_owns (pre @ u # post) w" "transfer_buffer u = None" "k_flying w = Map.empty"
  shows "pool_owns (pre @ post) (usb_free_urb u w)" "same_rest w (usb_free_urb u w)"
    "k_faults (usb_free_urb u w) = k_faults w"
proof -
  have m: "u_id u \<in> k_urbs w"
    using assms(1) by (simp add: pool_owns_def allocated_def)
  have w': "usb_free_urb u w = w\<lparr>k_urbs := k_urbs w - {u_id u}\<rparr>"
    using m assms(3) by (simp add: usb_free_urb_def fault_if_def)
  show "pool_owns (pre @ post) (usb_free_urb u w)"
    using assms allocated_free_urb [of "map u_id pre" "u_id u" "map u_id post" "bufs_of (pre @ post)" w]
    by (simp add: w' pool_owns_def bufs_of_urb_def)
  show "same_rest w (usb_free_urb u w)" "k_faults (usb_free_urb u w) = k_faults w"
    by (simp_all add: w' same_rest_def)
qed

text \<open>Freeing a buffer of the pool is a fault only where its allocator or its size is another.\<close>

definition release_fault :: "bool \<Rightarrow> urb \<Rightarrow> usb_fault list" where
  "release_fault coherent u =
     (case transfer_buffer u of None \<Rightarrow> [] | Some a \<Rightarrow> if transfer_dma_map u = coherent then [] else [Wrong_Free a])"

definition give_back :: "bool \<Rightarrow> urb \<Rightarrow> nat \<Rightarrow> usb_kernel \<Rightarrow> usb_kernel" where
  "give_back coherent u a w =
     (if coherent then usb_free_coherent (transfer_buffer_length u) a w else kfree_buffer a w)"

lemma bufs_of_mem: "\<lbrakk>u \<in> set us; transfer_buffer u = Some a\<rbrakk> \<Longrightarrow>
    (a, transfer_dma_map u, transfer_buffer_length u) \<in> set (bufs_of us)"
  by (force simp: bufs_of_def bufs_of_urb_def)

lemma pool_owns_buffer: "\<lbrakk>pool_owns us w; u \<in> set us; transfer_buffer u = Some a\<rbrakk> \<Longrightarrow>
    k_bufs w a = Some (transfer_dma_map u, transfer_buffer_length u)"
  using bufs_of_mem [of u us a] by (simp add: pool_owns_def allocated_def)

lemma pool_owns_give_back:
  assumes o: "pool_owns (pre @ u # post) w" and a: "transfer_buffer u = Some a" and f: "k_flying w = Map.empty"
  shows "pool_owns (pre @ u\<lparr>transfer_dma_map := d, transfer_buffer := None, transfer_buffer_length := n\<rparr> # post)
           (give_back k u a w)" (is ?o)
    and "same_rest w (give_back k u a w)" (is ?s)
    and "k_faults (give_back k u a w) = k_faults w @ release_fault k u" (is ?f)
proof -
  have b: "k_bufs w a = Some (transfer_dma_map u, transfer_buffer_length u)"
    using pool_owns_buffer [OF o _ a] by simp
  have w': "give_back k u a w = w\<lparr>k_faults := k_faults w @ release_fault k u, k_bufs := (k_bufs w)(a := None)\<rparr>"
    using f b a by (auto simp: give_back_def usb_free_coherent_def kfree_buffer_def release_buffer_def
        fault_if_def release_fault_def Let_def)
  show ?s ?f by (simp_all add: w' same_rest_def)
  show ?o
    using o a allocated_free_buf [of "map u_id (pre @ u # post)" "bufs_of pre" a
        "(transfer_dma_map u, transfer_buffer_length u)" "bufs_of post"
        "w\<lparr>k_faults := k_faults w @ release_fault k u\<rparr>"]
    unfolding w' pool_owns_def by (simp add: bufs_of_urb_def)
qed

section \<open>Building the pool\<close>

text \<open>A block at rest has its buffer, of the kind the bus was told to use.\<close>

definition at_rest :: "bool \<Rightarrow> urb \<Rightarrow> bool" where
  "at_rest no_dma u \<longleftrightarrow> transfer_buffer u \<noteq> None \<and> transfer_dma_map u = (\<not> no_dma)"

definition empty_urb :: "urb \<Rightarrow> bool" where
  "empty_urb u \<longleftrightarrow> transfer_buffer u = None \<and> \<not> transfer_dma_map u"

lemma drop_stale_buffer_owns:
  assumes "pool_owns (pre @ u # post) w" "k_flying w = Map.empty" "drop_stale_buffer nd sz u w = (u', w')"
    "at_rest nd u"
  shows "pool_owns (pre @ u' # post) w' \<and> same_rest w w' \<and> k_faults w' = k_faults w \<and>
    (empty_urb u' \<or> at_rest nd u')"
proof -
  obtain a where a: "transfer_buffer u = Some a" "transfer_dma_map u = (\<not> nd)"
    using assms(4) by (auto simp: at_rest_def)
  note g = pool_owns_give_back [OF assms(1) a(1) assms(2)]
  have rf: "release_fault (\<not> nd) u = []"
    using a by (simp add: release_fault_def)
  have "u' = u \<and> w' = w \<or>
      u' = u\<lparr>transfer_dma_map := False, transfer_buffer := None, transfer_buffer_length := 0\<rparr> \<and>
      w' = give_back (\<not> nd) u a w"
    using assms(3) a by (cases u; cases nd) (auto simp: drop_stale_buffer_def give_back_def split: if_splits)
  then show ?thesis
    using g(1) [of 0 False "\<not> nd"] g(2,3) [of "\<not> nd"] assms(1,4) rf by (auto simp: empty_urb_def)
qed

lemma urb_source_owns:
  assumes "pool_owns (pre @ urbs_of [x] @ post) w" "k_flying w = Map.empty" "\<forall>u \<in> set (urbs_of [x]). at_rest nd u"
    "(case x of Some u \<Rightarrow> (let (u, w) = drop_stale_buffer nd sz u w in (Some u, w))
      | None \<Rightarrow> usb_alloc_urb w) = (y, w')"
  shows "pool_owns (pre @ urbs_of [y] @ post) w' \<and> same_rest w w' \<and> k_faults w' = k_faults w \<and>
    (\<forall>u. y = Some u \<longrightarrow> empty_urb u \<or> at_rest nd u)"
proof (cases x)
  case None
  then show ?thesis
    using pool_owns_alloc_urb [of pre post w y w'] assms(1,4) by (auto simp: empty_urb_def)
next
  case (Some u)
  then obtain u' where "drop_stale_buffer nd sz u w = (u', w')" "y = Some u'"
    using assms(4) by (auto simp: Let_def split: prod.splits)
  then show ?thesis
    using drop_stale_buffer_owns [of pre u post w nd sz u' w'] assms(1-3) Some by auto
qed

text \<open>The second half of a pass: an empty block gets its buffer, or is freed with the pass.\<close>

lemma fill_urb_owns:
  assumes "pool_owns (pre @ u # post) w" "k_flying w = Map.empty" "empty_urb u" "alloc_buffer (\<not> nd) sz w = (p, w1)"
    "(case p of None \<Rightarrow> (False, None, usb_free_urb u w1)
      | Some a \<Rightarrow> let u = usb_fill_bulk_urb a sz u in
                  (True, Some (if \<not> nd then u\<lparr>transfer_dma_map := True\<rparr> else u), w1)) = (go, y, w')"
  shows "pool_owns (pre @ urbs_of [y] @ post) w' \<and> same_rest w w' \<and> k_faults w' = k_faults w \<and>
    (go \<longrightarrow> y \<noteq> None) \<and> (\<forall>u \<in> set (urbs_of [y]). at_rest nd u)"
proof -
  have u: "transfer_buffer u = None" "\<not> transfer_dma_map u"
    using assms(3) by (auto simp: empty_urb_def)
  note a = pool_owns_alloc_buffer [OF assms(1) u(1) assms(4)]
  have f: "k_flying w1 = Map.empty"
    using a(1) assms(2) by (simp add: same_rest_def)
  show ?thesis
  proof (cases p)
    case None
    have e: "go = False" "y = None" "w' = usb_free_urb u w1"
      using assms(5) None by auto
    show ?thesis
      using pool_owns_free_urb [OF a(3) [OF None] u(1) f] a(1,2) by (auto simp: e intro: same_rest_trans)
  next
    case (Some b)
    have e: "go = True" "w' = w1"
      "y = Some (u\<lparr>transfer_buffer := Some b, transfer_buffer_length := sz, transfer_dma_map := \<not> nd\<rparr>)"
      using assms(5) Some u by (cases u; auto simp: usb_fill_bulk_urb_def Let_def)+
    show ?thesis
      using a(4) [OF Some] a(1,2) by (simp add: e at_rest_def)
  qed
qed

lemma alloc_urb_buffer_owns:
  assumes "pool_owns (pre @ urbs_of [x] @ post) w" "k_flying w = Map.empty"
    "alloc_urb_buffer nd sz x w = (go, y, w')" "\<forall>u \<in> set (urbs_of [x]). at_rest nd u"
  shows "pool_owns (pre @ urbs_of [y] @ post) w' \<and> same_rest w w' \<and> k_faults w' = k_faults w \<and>
    (go \<longrightarrow> y \<noteq> None) \<and> (\<forall>u \<in> set (urbs_of [y]). at_rest nd u)"
proof -
  obtain x1 w1 where s1: "(case x of
          Some u \<Rightarrow> (let (u, w) = drop_stale_buffer nd sz u w in (Some u, w))
        | None \<Rightarrow> usb_alloc_urb w) = (x1, w1)" by fastforce
  note o1 = urb_source_owns [OF assms(1,2,4) s1]
  have f: "k_flying w1 = Map.empty"
    using o1 assms(2) by (simp add: same_rest_def)
  show ?thesis
  proof (cases x1)
    case None
    then show ?thesis
      using assms(3) o1 unfolding alloc_urb_buffer_def s1 by auto
  next
    case [simp]: (Some u)
    obtain p w2 where p: "alloc_buffer (\<not> nd) sz w1 = (p, w2)" by fastforce
    consider "empty_urb u" | "at_rest nd u" using o1 by auto
    then show ?thesis
    proof cases
      case 1
      then have "(case p of None \<Rightarrow> (False, None, usb_free_urb u w2)
        | Some a \<Rightarrow> let u = usb_fill_bulk_urb a sz u in
                  (True, Some (if \<not> nd then u\<lparr>transfer_dma_map := True\<rparr> else u), w2)) = (go, y, w')"
        using assms(3) p unfolding alloc_urb_buffer_def s1 by (simp add: empty_urb_def)
      from fill_urb_owns [OF _ f 1 p this, of pre post] show ?thesis
        using o1 by (auto intro: same_rest_trans)
    next
      case 2
      then show ?thesis
        using assms(3) o1 unfolding alloc_urb_buffer_def s1 by (auto simp: at_rest_def)
    qed
  qed
qed

lemma urbs_of_split: "urbs_of (x # xs) = urbs_of [x] @ urbs_of xs"
  by (simp split: option.splits)

lemma alloc_urb_loop_owns:
  assumes "pool_owns (pre @ urbs_of xs) w" "k_flying w = Map.empty"
    "alloc_urb_loop nd sz xs w = (n, ys, w')" "\<forall>u \<in> set (urbs_of xs). at_rest nd u"
  shows "pool_owns (pre @ urbs_of ys) w' \<and> same_rest w w' \<and> k_faults w' = k_faults w \<and>
    (\<forall>u \<in> set (urbs_of ys). at_rest nd u) \<and> length ys = length xs \<and> n \<le> length ys \<and>
    (\<forall>i < n. ys ! i \<noteq> None)"
  using assms
proof (induction xs arbitrary: pre w n ys w')
  case Nil
  then show ?case by simp
next
  case (Cons x xs)
  obtain go y w1 where a: "alloc_urb_buffer nd sz x w = (go, y, w1)"
    using prod_cases3 by blast
  note sx = urbs_of_split [of x xs]
  have p1: "pool_owns (pre @ urbs_of [x] @ urbs_of xs) w" "\<forall>u \<in> set (urbs_of [x]). at_rest nd u"
    "\<forall>u \<in> set (urbs_of xs). at_rest nd u"
    using Cons.prems(1,4) by (simp_all add: sx del: urbs_of.simps)
  note o1 = alloc_urb_buffer_owns [OF p1(1) Cons.prems(2) a p1(2)]
  show ?case
  proof (cases go)
    case False
    then have "n = 0" "ys = y # xs" "w' = w1"
      using Cons.prems(3) a by auto
    then show ?thesis
      using o1 p1(3) urbs_of_split [of y xs] by (auto simp del: urbs_of.simps)
  next
    case True
    obtain m zs w2 where l: "alloc_urb_loop nd sz xs w1 = (m, zs, w2)"
      using prod_cases3 by blast
    have f: "k_flying w1 = Map.empty"
      using o1 Cons.prems(2) by (simp add: same_rest_def)
    have o2: "pool_owns (pre @ urbs_of [y] @ urbs_of zs) w2 \<and> same_rest w1 w2 \<and> k_faults w2 = k_faults w1 \<and>
      (\<forall>u \<in> set (urbs_of zs). at_rest nd u) \<and> length zs = length xs \<and> m \<le> length zs \<and> (\<forall>i < m. zs ! i \<noteq> None)"
      using Cons.IH [OF _ f l p1(3), of "pre @ urbs_of [y]"] o1 by simp
    have e: "n = Suc m" "ys = y # zs" "w' = w2"
      using Cons.prems(3) a l True by auto
    have "\<forall>i < n. ys ! i \<noteq> None"
      using o1 o2 True by (auto simp: e nth_Cons split: nat.splits)
    moreover have "\<forall>u \<in> set (urbs_of ys). at_rest nd u"
      using o1 o2 urbs_of_split [of y zs] by (auto simp: e simp del: urbs_of.simps)
    moreover have "same_rest w w2"
      using o1 o2 by (blast intro: same_rest_trans)
    ultimately show ?thesis
      using o1 o2 urbs_of_split [of y zs] by (simp add: e del: urbs_of.simps)
  qed
qed

section \<open>Freeing the pool\<close>

lemma free_urb_buffer_owns:
  assumes "pool_owns (pre @ urbs_of [x] @ post) w" "k_flying w = Map.empty"
    "free_urb_buffer nd True x w = (y, w')"
  shows "y = None \<and> pool_owns (pre @ post) w' \<and> same_rest w w' \<and>
    k_faults w' = k_faults w @ concat (map (release_fault (\<not> nd)) (urbs_of [x]))"
proof (cases x)
  case None
  then show ?thesis
    using assms by (auto simp: free_urb_buffer_def)
next
  case [simp]: (Some u)
  show ?thesis
  proof (cases "transfer_buffer u")
    case None
    then show ?thesis
      using assms pool_owns_free_urb [of pre u post w] by (auto simp: free_urb_buffer_def release_fault_def)
  next
    case (Some a)
    let ?w = "give_back (\<not> nd) u a w"
    have o: "pool_owns (pre @ u # post) w"
      using assms(1) by simp
    note g = pool_owns_give_back [OF o Some assms(2)]
    have f: "k_flying ?w = Map.empty"
      using g(2) assms(2) by (simp add: same_rest_def)
    have "\<exists>d. y = None \<and> w' = usb_free_urb
        (u\<lparr>transfer_dma_map := d, transfer_buffer := None, transfer_buffer_length := 0\<rparr>) ?w"
    proof (cases nd)
      case True
      then show ?thesis
        using assms(3) Some by (intro exI [of _ "transfer_dma_map u"]) (simp add: free_urb_buffer_def give_back_def)
    next
      case False
      then show ?thesis
        using assms(3) Some by (intro exI [of _ False]) (simp add: free_urb_buffer_def give_back_def)
    qed
    then obtain d where e: "y = None" "w' = usb_free_urb
        (u\<lparr>transfer_dma_map := d, transfer_buffer := None, transfer_buffer_length := 0\<rparr>) ?w" by blast
    have n: "transfer_buffer (u\<lparr>transfer_dma_map := d, transfer_buffer := None, transfer_buffer_length := 0\<rparr>) = None"
      by simp
    note fu = pool_owns_free_urb [OF g(1) n f]
    have "same_rest w w'"
      unfolding e by (rule same_rest_trans [OF g(2) fu(2)])
    then show ?thesis
      using fu(1,3) g(3) by (simp add: e)
  qed
qed

lemma free_urb_loop_owns:
  assumes "pool_owns (pre @ urbs_of xs) w" "k_flying w = Map.empty" "free_urb_loop nd True xs w = (ys, w')"
  shows "pool_owns pre w' \<and> same_rest w w' \<and>
    k_faults w' = k_faults w @ concat (map (release_fault (\<not> nd)) (urbs_of xs))"
  using assms
proof (induction xs arbitrary: w ys w')
  case Nil
  then show ?case by simp
next
  case (Cons x xs)
  obtain y w1 where a: "free_urb_buffer nd True x w = (y, w1)" by fastforce
  obtain zs w2 where l: "free_urb_loop nd True xs w1 = (zs, w2)" by fastforce
  note sx = urbs_of_split [of x xs]
  have "pool_owns (pre @ urbs_of [x] @ urbs_of xs) w"
    using Cons.prems(1) by (simp add: sx del: urbs_of.simps)
  note o1 = free_urb_buffer_owns [OF this Cons.prems(2) a]
  have f: "k_flying w1 = Map.empty"
    using o1 Cons.prems(2) by (simp add: same_rest_def)
  have "w' = w2"
    using Cons.prems(3) a l by auto
  moreover have "same_rest w w2"
    using Cons.IH [OF _ f l] o1 by (blast intro: same_rest_trans)
  ultimately show ?case
    using Cons.IH [OF _ f l] o1 by (simp add: sx del: urbs_of.simps)
qed

section \<open>Blocks in flight\<close>

text \<open>Only the entries \<open>lo\<close> to \<open>hi - 1\<close> are in flight, each with its own buffer.\<close>

definition fly_in :: "usb_work list \<Rightarrow> nat \<Rightarrow> nat \<Rightarrow> usb_kernel \<Rightarrow> bool" where
  "fly_in ws lo hi w \<longleftrightarrow> (\<forall>i a. k_flying w i = Some a \<longrightarrow>
     (\<exists>j u. lo \<le> j \<and> j < hi \<and> j < length ws \<and> ws ! j = Some u \<and> u_id u = i \<and> transfer_buffer u = Some a))"

lemma fly_in_none: "fly_in ws n n w \<longleftrightarrow> k_flying w = Map.empty"
  by (auto simp: fly_in_def fun_eq_iff) (metis leD option.exhaust)

lemma fly_in_empty: "k_flying w = Map.empty \<Longrightarrow> fly_in ws lo hi w"
  by (simp add: fly_in_def)

lemma fly_in_mono: "\<lbrakk>fly_in ws lo hi w; hi \<le> hi'\<rbrakk> \<Longrightarrow> fly_in ws lo hi' w"
  by (fastforce simp: fly_in_def)

text \<open>A pool whose stream may be running: what it owns, what is in flight, and a handler where anything is.\<close>

definition pool_live :: "usb_work list \<Rightarrow> nat \<Rightarrow> nat \<Rightarrow> usb_kernel \<Rightarrow> bool" where
  "pool_live ws lo hi w \<longleftrightarrow> pool_owns (urbs_of ws) w \<and> (\<forall>u \<in> set (urbs_of ws). transfer_buffer u \<noteq> None) \<and> fly_in ws lo hi w"

definition same_counts :: "usb_kernel \<Rightarrow> usb_kernel \<Rightarrow> bool" where
  "same_counts w w' \<longleftrightarrow> k_objs w' = k_objs w \<and> k_dev_refs w' = k_dev_refs w \<and> k_faults w' = k_faults w"

lemma same_counts_refl [simp]: "same_counts w w"
  by (simp add: same_counts_def)

lemma same_counts_trans: "\<lbrakk>same_counts w w'; same_counts w' w''\<rbrakk> \<Longrightarrow> same_counts w w''"
  by (simp add: same_counts_def)

lemma urbs_of_inj:
  "\<lbrakk>distinct (map u_id (urbs_of ws)); i < length ws; j < length ws; ws ! i = Some u; ws ! j = Some v;
    u_id u = u_id v\<rbrakk> \<Longrightarrow> i = j"
proof (induction ws arbitrary: i j)
  case (Cons x xs)
  have d: "distinct (map u_id (urbs_of xs))"
    using Cons.prems(1) by (auto split: option.splits)
  have no: False if "x = Some y" "k < length xs" "xs ! k = Some z" "u_id y = u_id z" for y z k
    using Cons.prems(1) that urbs_of_nth [of k xs z] by auto
  show ?case
  proof (cases i)
    case 0
    then show ?thesis
      using Cons.prems(2-) no [of u _ v] by (cases j) auto
  next
    case (Suc k)
    show ?thesis
    proof (cases j)
      case 0
      then show ?thesis
        using Cons.prems(2-) Suc no [of v k u] by simp
    next
      case (Suc l)
      then show ?thesis
        using Cons.prems(2-) \<open>i = Suc k\<close> Cons.IH [OF d, of k l] by simp
    qed
  qed
qed simp

lemma pool_owns_inj:
  "\<lbrakk>pool_owns (urbs_of ws) w; i < length ws; j < length ws; ws ! i = Some u; ws ! j = Some v; u_id u = u_id v\<rbrakk> \<Longrightarrow>
    i = j"
  using urbs_of_inj [of ws i j u v] by (simp add: pool_owns_def allocated_def)

lemma pool_owns_frame [simp]:
  "pool_owns us (w\<lparr>k_asked := n\<rparr>) = pool_owns us w"
  "pool_owns us (w\<lparr>k_flying := g\<rparr>) = pool_owns us w"
  "pool_owns us (w\<lparr>k_handled := h\<rparr>) = pool_owns us w"
  "pool_owns us (w\<lparr>k_objs := m\<rparr>) = pool_owns us w"
  "pool_owns us (w\<lparr>k_dev_refs := m\<rparr>) = pool_owns us w"
  by (simp_all add: pool_owns_def)

lemma pool_live_indep [simp]:
  "pool_live ws lo hi (w\<lparr>k_asked := n\<rparr>) = pool_live ws lo hi w"
  "pool_live ws lo hi (w\<lparr>k_handled := h\<rparr>) = pool_live ws lo hi w"
  "pool_live ws lo hi (w\<lparr>k_objs := m\<rparr>) = pool_live ws lo hi w"
  "pool_live ws lo hi (w\<lparr>k_dev_refs := m\<rparr>) = pool_live ws lo hi w"
  by (simp_all add: pool_live_def fly_in_def)

lemma pool_live_given_back:
  assumes "pool_live ws lo hi w"
  shows "pool_live ws lo hi (w\<lparr>k_flying := (k_flying w)(i := None)\<rparr>)"
  using assms unfolding pool_live_def fly_in_def by simp

lemma submit_live:
  assumes l: "pool_live ws lo hi w" and u: "i < length ws" "ws ! i = Some u" "lo \<le> i" "i < hi"
    and n: "u_id u \<notin> dom (k_flying w)" and s: "usb_submit_urb u w = (ret, w')"
  shows "pool_live ws lo hi w'" "same_counts w w'" "ret \<noteq> 0 \<Longrightarrow> k_flying w' = k_flying w"
proof -
  have m: "u \<in> set (urbs_of ws)"
    using urbs_of_nth [OF u(1,2)] .
  obtain a where a: "transfer_buffer u = Some a"
    using l m by (auto simp: pool_live_def)
  have o: "pool_owns (urbs_of ws) w"
    using l by (simp add: pool_live_def)
  have ok: "submit_allowed u w"
    using o m n a pool_owns_buffer [OF o m a] by (auto simp: submit_allowed_def pool_owns_def allocated_def)
  have w': "w' = w\<lparr>k_asked := Suc (k_asked w), k_flying := if ret = 0 then (k_flying w)(u_id u \<mapsto> a) else k_flying w\<rparr>"
    using s ok a by (auto simp: usb_submit_urb_def fault_if_def ask_def)
  have "fly_in ws lo hi w'"
    using l u a unfolding w' pool_live_def fly_in_def by auto
  then show "pool_live ws lo hi w'"
    using l by (simp add: pool_live_def w')
  show "same_counts w w'" "ret \<noteq> 0 \<Longrightarrow> k_flying w' = k_flying w"
    by (simp_all add: w' same_counts_def)
qed

lemma complete_live:
  assumes l: "pool_live ws lo hi w" and u: "i < length ws" "ws ! i = Some u" "lo \<le> i" "i < hi"
    and h: "uc_handler c = Some f"
  shows "pool_live ws lo hi (itedtv_usb_complete c u status len w) \<and>
    same_counts w (itedtv_usb_complete c u status len w)"
proof -
  let ?w = "w\<lparr>k_flying := (k_flying w)(u_id u := None)\<rparr>"
  have l1: "pool_live ws lo hi ?w"
    by (rule pool_live_given_back [OF l])
  obtain ret w1 where c: "(if len \<noteq> 0 then call_handler (uc_handler c) (uc_ctx c) (the (transfer_buffer u)) len ?w
      else (0, ?w)) = (ret, w1)" by fastforce
  have l2: "pool_live ws lo hi w1 \<and> same_counts w w1 \<and> u_id u \<notin> dom (k_flying w1)"
    using c l1 h by (auto simp: call_handler_def ask_def same_counts_def split: if_splits)
  show ?thesis
  proof (cases "status \<noteq> 0 \<or> ret \<noteq> 0 \<or> uc_streaming c < 1")
    case True
    then show ?thesis
      using l1 l2 unfolding itedtv_usb_complete_def Let_def c by (auto simp: same_counts_def)
  next
    case False
    then have e: "itedtv_usb_complete c u status len w = snd (usb_submit_urb u w1)"
      unfolding itedtv_usb_complete_def Let_def c by auto
    obtain r w2 where s: "usb_submit_urb u w1 = (r, w2)" by fastforce
    show ?thesis
      using submit_live [OF _ u _ s] l2 same_counts_trans unfolding e s by simp blast
  qed
qed

lemma usb_irq_live:
  assumes l: "pool_live ws lo hi w" and c: "uc_works c = Some ws" "k_flying w \<noteq> Map.empty \<Longrightarrow> uc_handler c \<noteq> None"
  shows "pool_live ws lo hi (usb_irq c q w) \<and> same_counts w (usb_irq c q w)"
proof -
  obtain i status len where q: "q = (i, status, len)"
    using prod_cases3 by blast
  show ?thesis
  proof (cases "i < length ws \<and> (\<exists>u. ws ! i = Some u \<and> u_id u \<in> dom (k_flying w))")
    case True
    then obtain u where u: "i < length ws" "ws ! i = Some u" "u_id u \<in> dom (k_flying w)" by auto
    obtain f where f: "uc_handler c = Some f"
      using c(2) u(3) by (cases "k_flying w = Map.empty") auto
    obtain j v where "lo \<le> j" "j < hi" "j < length ws" "ws ! j = Some v" "u_id v = u_id u"
      using l u(3) unfolding pool_live_def fly_in_def by blast
    then have "lo \<le> i" "i < hi"
      using pool_owns_inj [of ws w i j u v] l u by (auto simp: pool_live_def)
    then show ?thesis
      using complete_live [OF l u(1,2) _ _ f] u c(1) by (simp add: q usb_irq_def)
  next
    case False
    then show ?thesis
      using l c(1) by (auto simp: q usb_irq_def split: option.splits)
  qed
qed

lemma usb_irqs_live:
  assumes "pool_live ws lo hi w" "uc_works c = Some ws" "uc_handler c \<noteq> None"
  shows "pool_live ws lo hi (usb_irqs c qs w) \<and> same_counts w (usb_irqs c qs w)"
  using assms(1)
proof (induction qs arbitrary: w)
  case Nil
  then show ?case by (simp add: usb_irqs_def)
next
  case (Cons q qs)
  have q: "pool_live ws lo hi (usb_irq c q w)" "same_counts w (usb_irq c q w)"
    using usb_irq_live [OF Cons.prems assms(2)] assms(3) by auto
  show ?case
    using Cons.IH [OF q(1)] same_counts_trans [OF q(2)] by (simp add: usb_irqs_def)
qed

lemma usb_irqs_idle: "k_flying w = Map.empty \<Longrightarrow> usb_irqs c qs w = w"
  by (induction qs) (auto simp: usb_irqs_def usb_irq_def split: option.splits prod.splits)

text \<open>A kill loop that covers every entry in flight leaves none.\<close>

lemma kill_loop_live:
  assumes "pool_live ws i (i + k) w" "i + k \<le> length ws" "\<forall>j < i + k. ws ! j \<noteq> None"
    "uc_works c = Some ws" "k_flying w = Map.empty \<or> uc_handler c \<noteq> None"
  shows "pool_live ws (i + k) (i + k) (kill_loop irqs c i k w) \<and> same_counts w (kill_loop irqs c i k w)"
  using assms
proof (induction k arbitrary: i w)
  case 0
  then show ?case by simp
next
  case (Suc k)
  let ?w = "usb_irqs c (irqs i) w"
  obtain u where u: "i < length ws" "ws ! i = Some u"
    using Suc.prems(2,3) by force
  have q: "pool_live ws i (i + Suc k) ?w \<and> same_counts w ?w \<and> (k_flying ?w = Map.empty \<or> uc_handler c \<noteq> None)"
  proof (cases "uc_handler c")
    case None
    then have "k_flying w = Map.empty"
      using Suc.prems(5) by simp
    then show ?thesis
      using Suc.prems(1,5) by (simp add: usb_irqs_idle)
  next
    case (Some f)
    then show ?thesis
      using usb_irqs_live [OF Suc.prems(1,4)] by simp
  qed
  have m: "u_id u \<in> k_urbs ?w"
    using q urbs_of_nth [OF u] by (auto simp: pool_live_def pool_owns_def allocated_def)
  define w1 where "w1 = ?w\<lparr>k_flying := (k_flying ?w)(u_id u := None)\<rparr>"
  have w1: "snd (with_work c i (\<lambda>u w. (0, usb_kill_urb u w)) ?w) = w1"
    using u Suc.prems(4) m by (simp add: with_work_def usb_kill_urb_def fault_if_def w1_def Let_def)
  have "fly_in ws (Suc i) (Suc i + k) w1"
    unfolding fly_in_def
  proof (intro allI impI)
    fix n a assume n: "k_flying w1 n = Some a"
    then have "n \<noteq> u_id u" "k_flying ?w n = Some a"
      by (auto simp: w1_def split: if_splits)
    then obtain j v where j: "i \<le> j" "j < i + Suc k" "j < length ws" "ws ! j = Some v" "u_id v = n"
        "transfer_buffer v = Some a"
      using q unfolding pool_live_def fly_in_def by blast
    moreover have "j \<noteq> i"
      using j u \<open>n \<noteq> u_id u\<close> by auto
    ultimately show "\<exists>j v. Suc i \<le> j \<and> j < Suc i + k \<and> j < length ws \<and> ws ! j = Some v \<and> u_id v = n \<and>
        transfer_buffer v = Some a"
      by (intro exI [of _ j] exI [of _ v]) auto
  qed
  then have l: "pool_live ws (Suc i) (Suc i + k) w1"
    using q by (simp add: pool_live_def w1_def)
  have h: "k_flying w1 = Map.empty \<or> uc_handler c \<noteq> None"
    using q by (auto simp: w1_def)
  have "same_counts w w1"
    using q by (simp add: w1_def same_counts_def)
  then show ?case
    using Suc.IH [OF l _ _ Suc.prems(4) h] Suc.prems(2,3) w1
    by (auto intro: same_counts_trans)
qed

lemma submit_loop_live:
  assumes "pool_live ws 0 i w" "i + k \<le> length ws" "\<forall>j < i + k. ws ! j \<noteq> None"
    "uc_works c = Some ws" "uc_handler c \<noteq> None" "submit_loop irqs c i k w = (ret, w')"
  shows "same_counts w w' \<and> (ret = 0 \<longrightarrow> pool_live ws 0 (i + k) w') \<and> (ret \<noteq> 0 \<longrightarrow> pool_live ws 0 0 w')"
  using assms
proof (induction k arbitrary: i w)
  case 0
  then show ?case by simp
next
  case (Suc k)
  let ?w = "usb_irqs c (irqs i) w"
  obtain u where u: "i < length ws" "ws ! i = Some u"
    using Suc.prems(2,3) by force
  have q: "pool_live ws 0 i ?w" "same_counts w ?w"
    using usb_irqs_live [OF Suc.prems(1,4,5)] by auto
  have n: "u_id u \<notin> dom (k_flying ?w)"
  proof
    assume "u_id u \<in> dom (k_flying ?w)"
    then obtain j v where "j < i" "j < length ws" "ws ! j = Some v" "u_id v = u_id u"
      using q(1) unfolding pool_live_def fly_in_def by blast
    then show False
      using pool_owns_inj [of ws ?w i j u v] q(1) u by (auto simp: pool_live_def)
  qed
  obtain r w1 where s: "usb_submit_urb u ?w = (r, w1)" by fastforce
  have l: "pool_live ws 0 (Suc i) ?w"
    using q(1) fly_in_mono [of ws 0 i ?w "Suc i"] by (simp add: pool_live_def)
  note sl = submit_live [OF l u _ _ n s, simplified]
  have c1: "same_counts w w1"
    using q(2) sl(2) by (rule same_counts_trans)
  have e: "with_work c i usb_submit_urb ?w = (r, w1)"
    using u s Suc.prems(4) by (simp add: with_work_def)
  show ?case
  proof (cases "r = 0")
    case True
    then have "submit_loop irqs c (Suc i) k w1 = (ret, w')"
      using Suc.prems(6) e by simp
    then show ?thesis
      using Suc.IH [OF sl(1) _ _ Suc.prems(4,5)] Suc.prems(2,3) c1 by (auto intro: same_counts_trans)
  next
    case False
    then have w': "ret = r" "w' = kill_loop irqs c 0 i w1"
      using Suc.prems(6) e by auto
    have "pool_live ws 0 (0 + i) w1"
      using sl(1) sl(3) [OF False] q(1) by (simp add: pool_live_def fly_in_def)
    then show ?thesis
      using kill_loop_live [OF _ _ _ Suc.prems(4), of 0 i w1 irqs] Suc.prems(2,3,5) u(1) False c1
      by (auto simp: w' pool_live_def fly_in_none intro: same_counts_trans fly_in_empty)
  qed
qed

section \<open>The invariant of an initialised bus\<close>

definition pool_works :: "itedtv_usb_context \<Rightarrow> usb_work list" where
  "pool_works c = (case uc_works c of None \<Rightarrow> [] | Some ws \<Rightarrow> ws)"

text \<open>A pool with nothing in flight, as it is while it is built and after the stream has stopped.\<close>

definition resting :: "bool \<Rightarrow> usb_work list \<Rightarrow> usb_kernel \<Rightarrow> bool" where
  "resting nd ws w \<longleftrightarrow> pool_owns (urbs_of ws) w \<and> (\<forall>u \<in> set (urbs_of ws). at_rest nd u) \<and> k_flying w = Map.empty"

definition pool_ok :: "bool \<Rightarrow> itedtv_usb_context \<Rightarrow> usb_kernel \<Rightarrow> bool" where
  "pool_ok nd c w \<longleftrightarrow>
     pool_live (pool_works c) 0 (uc_num_urb c) w \<and> (\<forall>u \<in> set (urbs_of (pool_works c)). at_rest nd u) \<and>
     (\<forall>ws. uc_works c = Some ws \<longrightarrow> length ws = uc_num_works c \<and> uc_num_urb c \<le> length ws \<and>
       0 < uc_num_urb c \<and> (\<forall>i < uc_num_urb c. ws ! i \<noteq> None)) \<and>
     k_objs w = (if uc_works c = None then 1 else 2) \<and> k_dev_refs w = 1 \<and> k_faults w = [] \<and>
     (uc_streaming c = 0 \<and> \<not> uc_no_dma c \<and> k_flying w = Map.empty \<or>
      uc_streaming c = 1 \<and> uc_handler c \<noteq> None \<and> uc_works c \<noteq> None)"

lemma resting_live: "resting nd ws w \<Longrightarrow> pool_live ws lo hi w"
  by (auto simp: resting_def pool_live_def at_rest_def intro: fly_in_empty)

lemma pool_ok_resting: "\<lbrakk>pool_ok nd c w; k_flying w = Map.empty\<rbrakk> \<Longrightarrow> resting nd (pool_works c) w"
  by (simp add: pool_ok_def resting_def pool_live_def)

lemma resting_indep [simp]:
  "resting nd ws (w\<lparr>k_objs := m\<rparr>) = resting nd ws w"
  "resting nd ws (w\<lparr>k_asked := n\<rparr>) = resting nd ws w"
  "resting nd ws (w\<lparr>k_dev_refs := m\<rparr>) = resting nd ws w"
  by (simp_all add: resting_def)

text \<open>What freeing the pool with the flag \<open>d\<close> reports.\<close>

definition release_faults :: "bool \<Rightarrow> usb_work list \<Rightarrow> usb_fault list" where
  "release_faults d ws = concat (map (release_fault (\<not> d)) (urbs_of ws))"

lemma release_faults_same: "\<forall>u \<in> set (urbs_of ws). at_rest nd u \<Longrightarrow> release_faults nd ws = []"
  by (auto simp: release_faults_def release_fault_def at_rest_def split: option.splits)

lemma free_pool:
  assumes "resting nd ws w" "uc_works c = Some ws" "itedtv_usb_free_urb_buffers True c w = (c', w')"
  shows "resting nd' [] w' \<and> same_rest w w' \<and> k_faults w' = k_faults w @ release_faults (uc_no_dma c) ws \<and>
    (\<exists>ws'. c' = c\<lparr>uc_works := Some ws', uc_num_urb := 0\<rparr>)"
proof -
  obtain ys w1 where l: "free_urb_loop (uc_no_dma c) True ws w = (ys, w1)" by fastforce
  have "pool_owns [] w1 \<and> same_rest w w1 \<and> k_faults w1 = k_faults w @ release_faults (uc_no_dma c) ws"
    using free_urb_loop_owns [of "[]" ws w "uc_no_dma c" ys w1] assms(1) l
    by (simp add: resting_def release_faults_def)
  then show ?thesis
    using assms l by (auto simp: itedtv_usb_free_urb_buffers_def resting_def same_rest_def)
qed

lemma clean_free_works:
  assumes "resting nd (pool_works c) w" "itedtv_usb_clean_context True c w = (c', w')"
  shows "resting nd' [] w' \<and> uc_works c' = None \<and> uc_streaming c' = uc_streaming c \<and> \<not> uc_no_dma c' \<and>
    k_objs w' = k_objs w - (if uc_works c = None then 0 else 1) \<and> k_dev_refs w' = k_dev_refs w \<and>
    k_faults w' = k_faults w @ release_faults (uc_no_dma c) (pool_works c)"
proof (cases "uc_works c")
  case None
  then show ?thesis
    using assms by (auto simp: itedtv_usb_clean_context_def pool_works_def release_faults_def resting_def)
next
  case (Some ws)
  obtain c1 w1 where f: "itedtv_usb_free_urb_buffers True c w = (c1, w1)" by fastforce
  have r: "resting nd ws w"
    using assms(1) Some by (simp add: pool_works_def)
  show ?thesis
    using free_pool [OF r Some f, of nd'] assms(2) Some f
    by (auto simp: itedtv_usb_clean_context_def pool_works_def free_object_def same_rest_def)
qed

lemma start_fail_ok:
  assumes "resting nd (pool_works c) w" "k_objs w = (if uc_works c = None then 1 else 2)" "k_dev_refs w = 1"
    "k_faults w = []" "uc_no_dma c = nd" "start_fail r c w = (ret, c', w')"
  shows "pool_ok nd c' w' \<and> uc_streaming c' = 0"
proof -
  let ?c = "c\<lparr>uc_streaming := 0\<rparr>"
  obtain c1 w1 where cl: "itedtv_usb_clean_context True ?c w = (c1, w1)" by fastforce
  have p: "pool_works ?c = pool_works c"
    by (simp add: pool_works_def)
  have z: "release_faults nd (pool_works c) = []"
    using assms(1) by (intro release_faults_same) (simp add: resting_def)
  have k: "resting nd [] w1" "uc_works c1 = None" "uc_streaming c1 = 0" "\<not> uc_no_dma c1" "k_objs w1 = 1" "k_dev_refs w1 = 1"
    "k_faults w1 = []"
    using clean_free_works [of nd ?c w c1 w1 nd] cl assms(1-5) p z by auto
  have "k_flying w1 = Map.empty"
    using k(1) by (simp add: resting_def)
  then have "pool_ok nd c1 w1"
    using k resting_live [OF k(1), of 0 "uc_num_urb c1"] by (simp add: pool_ok_def pool_works_def)
  then show ?thesis
    using assms(6) cl k(3) by (simp add: start_fail_def)
qed

text \<open>The pool the start finds or makes.\<close>

definition start_works ::
    "usb_streaming \<Rightarrow> itedtv_usb_context \<Rightarrow> usb_kernel \<Rightarrow> bool \<times> itedtv_usb_context \<times> usb_kernel" where
  "start_works s c w =
     (let (c, w) = (if uc_works c \<noteq> None \<and> urb_num s \<noteq> uc_num_works c
              then (let (c, w) = itedtv_usb_free_urb_buffers True c w
                    in (c\<lparr>uc_works := None\<rparr>, free_object w))
              else (c, w));
          c = c\<lparr>uc_num_works := urb_num s\<rparr>
      in if uc_works c = None
         then (let (ok, w) = alloc_object w
               in (ok, if ok then c\<lparr>uc_works := Some (replicate (uc_num_works c) None)\<rparr> else c, w))
         else (True, c, w))"

lemma start_streaming_steps:
  "itedtv_usb_start_streaming irqs s (Some h) hctx c w =
     (let (ok, c, w) = start_works s (c\<lparr>uc_handler := Some h, uc_ctx := hctx, uc_no_dma := bus_no_dma s\<rparr>) w
      in if \<not> ok then start_fail (- ENOMEM) c w
      else let (ret, c, w) = itedtv_usb_alloc_urb_buffers (urb_buffer_size s) c w
      in if ret \<noteq> 0 then start_fail ret c w
      else let c = c\<lparr>uc_streaming := 1\<rparr>; (ret, w) = submit_loop irqs c 0 (uc_num_urb c) w
      in if ret \<noteq> 0 then start_fail ret c w else (0, c, w))"
  by (simp add: itedtv_usb_start_streaming_def start_works_def Let_def case_prod_beta)

lemma start_works_ok:
  assumes "resting nd (pool_works c) w" "k_objs w = (if uc_works c = None then 1 else 2)" "k_dev_refs w = 1"
    "k_faults w = []" "uc_no_dma c = nd" "\<forall>ws. uc_works c = Some ws \<longrightarrow> length ws = uc_num_works c"
    "start_works s c w = (ok, c', w')"
  shows "resting nd (pool_works c') w' \<and> k_objs w' = (if uc_works c' = None then 1 else 2) \<and> k_dev_refs w' = 1 \<and>
    k_faults w' = [] \<and> uc_no_dma c' = nd \<and> uc_handler c' = uc_handler c \<and>
    (ok \<longrightarrow> (\<exists>ws. uc_works c' = Some ws \<and> length ws = uc_num_works c'))"
proof -
  obtain c1 w1 where s1: "(if uc_works c \<noteq> None \<and> urb_num s \<noteq> uc_num_works c
      then (let (c, w) = itedtv_usb_free_urb_buffers True c w in (c\<lparr>uc_works := None\<rparr>, free_object w))
      else (c, w)) = (c1, w1)" by fastforce
  have o1: "resting nd (pool_works c1) w1 \<and> k_objs w1 = (if uc_works c1 = None then 1 else 2) \<and> k_dev_refs w1 = 1 \<and>
    k_faults w1 = [] \<and> uc_no_dma c1 = nd \<and> uc_handler c1 = uc_handler c \<and>
    (\<forall>ws. uc_works c1 = Some ws \<longrightarrow> length ws = urb_num s)"
  proof (cases "uc_works c \<noteq> None \<and> urb_num s \<noteq> uc_num_works c")
    case True
    then obtain ws where ws: "uc_works c = Some ws" by auto
    obtain c2 w2 where f: "itedtv_usb_free_urb_buffers True c w = (c2, w2)" by fastforce
    have r: "resting nd ws w"
      using assms(1) ws by (simp add: pool_works_def)
    have z: "release_faults nd ws = []"
      using r by (intro release_faults_same) (simp add: resting_def)
    have e: "c1 = c2\<lparr>uc_works := None\<rparr>" "w1 = free_object w2"
      using s1 True f by auto
    show ?thesis
      using free_pool [OF r ws f, of nd] z assms(2-5) ws
      by (auto simp: e free_object_def same_rest_def pool_works_def)
  next
    case False
    then show ?thesis
      using s1 assms(1-6) by auto
  qed
  have s2: "(if uc_works c1 = None
      then (let (ok, w) = alloc_object w1
            in (ok, if ok then c1\<lparr>uc_num_works := urb_num s, uc_works := Some (replicate (urb_num s) None)\<rparr>
                    else c1\<lparr>uc_num_works := urb_num s\<rparr>, w))
      else (True, c1\<lparr>uc_num_works := urb_num s\<rparr>, w1)) = (ok, c', w')"
    using assms(7) unfolding start_works_def s1 by (cases "uc_works c1") (simp_all add: Let_def cong: if_cong)
  show ?thesis
  proof (cases "uc_works c1")
    case None
    then show ?thesis
      using s2 o1 by (auto simp: alloc_object_def ask_def pool_works_def resting_def split: if_splits)
  next
    case (Some ws)
    then show ?thesis
      using s2 o1 by (auto simp: pool_works_def)
  qed
qed

lemma alloc_urb_buffers_ok:
  assumes "resting nd ws w" "uc_works c = Some ws" "uc_no_dma c = nd"
    "itedtv_usb_alloc_urb_buffers sz c w = (ret, c', w')"
  shows "\<exists>ws' n. c' = c\<lparr>uc_works := Some ws', uc_num_urb := n\<rparr> \<and> resting nd ws' w' \<and> same_rest w w' \<and>
    k_faults w' = k_faults w \<and> length ws' = length ws \<and> n \<le> length ws' \<and> (\<forall>i < n. ws' ! i \<noteq> None) \<and>
    (ret = 0 \<longrightarrow> 0 < n)"
proof -
  obtain n ws' w1 where l: "alloc_urb_loop nd sz ws w = (n, ws', w1)"
    using prod_cases3 by blast
  have e: "c' = c\<lparr>uc_works := Some ws', uc_num_urb := n\<rparr>" "w' = w1" "ret = 0 \<longrightarrow> 0 < n"
    using assms(2-4) l by (auto simp: itedtv_usb_alloc_urb_buffers_def split: if_splits)
  have "pool_owns ([] @ urbs_of ws) w"
    using assms(1) by (simp add: resting_def)
  from alloc_urb_loop_owns [OF this _ l] show ?thesis
    using assms(1) e by (intro exI [of _ ws'] exI [of _ n]) (auto simp: resting_def same_rest_def)
qed

lemma start_streaming_ok:
  assumes ok: "pool_ok nd c w" and st: "uc_streaming c = 0" and nd: "bus_no_dma s = nd"
    and s: "itedtv_usb_start_streaming irqs s handler hctx c w = (ret, c', w')"
  shows "pool_ok nd c' w' \<and> (ret = 0 \<longrightarrow> uc_streaming c' = 1) \<and> (ret \<noteq> 0 \<longrightarrow> uc_streaming c' = 0)"
proof (cases handler)
  case None
  then show ?thesis
    using ok st s by (auto simp: itedtv_usb_start_streaming_def)
next
  case (Some h)
  let ?c = "c\<lparr>uc_handler := Some h, uc_ctx := hctx, uc_no_dma := bus_no_dma s\<rparr>"
  obtain k c1 w1 where s1: "start_works s ?c w = (k, c1, w1)"
    using prod_cases3 by blast
  obtain r2 c2 w2 where s2: "itedtv_usb_alloc_urb_buffers (urb_buffer_size s) c1 w1 = (r2, c2, w2)"
    using prod_cases3 by blast
  let ?c3 = "c2\<lparr>uc_streaming := 1\<rparr>"
  obtain r3 w3 where s3: "submit_loop irqs ?c3 0 (uc_num_urb c2) w2 = (r3, w3)" by fastforce
  have e: "(if \<not> k then start_fail (- ENOMEM) c1 w1 else if r2 \<noteq> 0 then start_fail r2 c2 w2
      else if r3 \<noteq> 0 then start_fail r3 ?c3 w3 else (0, ?c3, w3)) = (ret, c', w')"
    using s unfolding Some start_streaming_steps s1 by (simp add: s2 s3 Let_def cong: if_cong)
  have f0: "k_flying w = Map.empty"
    using ok st by (auto simp: pool_ok_def)
  have p0: "pool_works ?c = pool_works c"
    by (simp add: pool_works_def)
  have o1: "resting nd (pool_works c1) w1" "k_objs w1 = (if uc_works c1 = None then 1 else 2)" "k_dev_refs w1 = 1"
    "k_faults w1 = []" "uc_no_dma c1 = nd" "uc_handler c1 = Some h"
    "k \<longrightarrow> (\<exists>ws. uc_works c1 = Some ws \<and> length ws = uc_num_works c1)"
    using start_works_ok [of nd ?c w s k c1 w1] s1 pool_ok_resting [OF ok f0] ok nd p0
    unfolding pool_ok_def by auto
  show ?thesis
  proof (cases k)
    case False
    have "start_fail (- ENOMEM) c1 w1 = (ret, c', w')" "ret \<noteq> 0"
      using e False by (auto simp: start_fail_def split: prod.splits)
    then show ?thesis
      using start_fail_ok [OF o1(1-5)] by blast
  next
    case True
    then obtain ws where ws: "uc_works c1 = Some ws" "length ws = uc_num_works c1"
      using o1(7) by blast
    have r1: "resting nd ws w1"
      using o1(1) ws by (simp add: pool_works_def)
    obtain ws' n where a: "c2 = c1\<lparr>uc_works := Some ws', uc_num_urb := n\<rparr>" "resting nd ws' w2" "same_rest w1 w2"
      "k_faults w2 = []" "length ws' = length ws" "n \<le> length ws'" "\<forall>i < n. ws' ! i \<noteq> None" "r2 = 0 \<longrightarrow> 0 < n"
      using alloc_urb_buffers_ok [OF r1 ws(1) o1(5) s2] o1(4) by auto
    have k2: "k_objs w2 = 2" "k_dev_refs w2 = 1"
      using a(3) o1(2,3) ws(1) by (simp_all add: same_rest_def)
    show ?thesis
    proof (cases "r2 = 0")
      case False
      have "start_fail r2 c2 w2 = (ret, c', w')" "ret \<noteq> 0"
        using e True False by (auto simp: start_fail_def split: prod.splits)
      then show ?thesis
        using start_fail_ok [of nd c2 w2 r2 ret c' w'] a(1,2,4) k2 o1(5) by (simp add: pool_works_def)
    next
      case r2: True
      have l: "pool_live ws' 0 0 w2"
        using a(2) by (rule resting_live)
      have sl: "same_counts w2 w3 \<and> (r3 = 0 \<longrightarrow> pool_live ws' 0 n w3) \<and> (r3 \<noteq> 0 \<longrightarrow> pool_live ws' 0 0 w3)"
        using submit_loop_live [OF l _ _ _ _ s3] a(1,6,7) o1(6) by simp
      have k3: "k_objs w3 = 2" "k_dev_refs w3 = 1" "k_faults w3 = []"
        using sl k2 a(4) by (simp_all add: same_counts_def)
      have at: "\<forall>u \<in> set (urbs_of ws'). at_rest nd u"
        using a(2) by (simp add: resting_def)
      show ?thesis
      proof (cases "r3 = 0")
        case False
        have sf: "start_fail r3 ?c3 w3 = (ret, c', w')" "ret \<noteq> 0"
          using e True r2 False by (auto simp: start_fail_def split: prod.splits)
        have "resting nd ws' w3"
          using sl False at by (simp add: resting_def pool_live_def fly_in_none)
        then show ?thesis
          using start_fail_ok [OF _ _ _ _ _ sf(1)] sf(2) a(1) k3 o1(5) by (simp add: pool_works_def)
      next
        case r3: True
        have "ret = 0" "c' = ?c3" "w' = w3"
          using e True r2 r3 by auto
        then show ?thesis
          using sl r3 at a(1,5-8) r2 ws(2) k3 o1(6) by (simp add: pool_ok_def pool_works_def)
      qed
    qed
  qed
qed

lemma stop_streaming_ok:
  assumes ok: "pool_ok nd c w" and s: "itedtv_usb_stop_streaming irqs c w = (ret, c', w')"
  shows "pool_ok nd c' w' \<and> uc_streaming c' = 0 \<and> \<not> uc_no_dma c' \<and> k_flying w' = Map.empty \<and> ret = 0 \<and>
    uc_works c' = uc_works c"
proof -
  let ?c = "c\<lparr>uc_streaming := 0\<rparr>"
  let ?w = "if uc_works c \<noteq> None then kill_loop irqs ?c 0 (uc_num_urb c) w else w"
  have e: "ret = 0" "w' = ?w" "c' = ?c\<lparr>uc_handler := None, uc_ctx := 0, uc_no_dma := False\<rparr>"
    using s by (auto simp: itedtv_usb_stop_streaming_def itedtv_usb_clean_context_def Let_def)
  have k: "pool_live (pool_works c) (uc_num_urb c) (uc_num_urb c) ?w \<and> same_counts w ?w"
  proof (cases "uc_works c")
    case None
    then show ?thesis
      using ok by (auto simp: pool_ok_def pool_live_def pool_works_def fly_in_none)
  next
    case (Some ws)
    then show ?thesis
      using kill_loop_live [of ws 0 "uc_num_urb c" w ?c irqs] ok by (auto simp: pool_ok_def pool_works_def)
  qed
  have f: "k_flying w' = Map.empty"
    using k by (simp add: e pool_live_def fly_in_none)
  have "pool_live (pool_works c) 0 (uc_num_urb c) w'"
    using k fly_in_empty [OF f] by (simp add: e pool_live_def)
  then have "pool_ok nd c' w'"
    using ok k f unfolding pool_ok_def by (auto simp: e same_counts_def pool_works_def)
  then show ?thesis
    using f by (simp add: e)
qed

lemma usb_irq_ok:
  assumes "pool_ok nd c w"
  shows "pool_ok nd c (usb_irq c q w)"
proof (cases "k_flying w = Map.empty")
  case True
  then show ?thesis
    using assms usb_irqs_idle [of w c "[q]"] by (simp add: usb_irqs_def)
next
  case False
  then obtain ws where ws: "uc_works c = Some ws" "uc_handler c \<noteq> None" "uc_streaming c = 1"
    using assms by (auto simp: pool_ok_def)
  then show ?thesis
    using usb_irq_live [of ws 0 "uc_num_urb c" w c q] assms
    by (simp add: pool_ok_def pool_works_def same_counts_def)
qed

lemma idle_kernel_init:
  assumes "idle_kernel w" "itedtv_bus_init (Some b) w = (0, Some b', w')"
  shows "ub_priv b' = Some new_usb_context \<and> pool_ok nd new_usb_context w' \<and> ub_ops b' \<and> ub_type b' = ITEDTV_BUS_USB \<and>
    ub_dev b' \<noteq> None"
  using assms
  by (auto simp: itedtv_bus_init_def idle_kernel_def alloc_object_def ask_def pool_ok_def new_usb_context_def
      pool_live_def pool_works_def pool_owns_def allocated_def fly_in_def
      split: itedtv_bus_type.splits option.splits if_splits)

lemma reachable_pool_ok:
  assumes "bus_reachable b w"
  shows "ub_ops b \<and> ub_type b = ITEDTV_BUS_USB \<and> ub_dev b \<noteq> None \<and>
    (\<exists>c. ub_priv b = Some c \<and> pool_ok (bus_no_dma (ub_streaming b)) c w)"
  using assms
proof induction
  case (init w b b' w')
  then show ?case
    using idle_kernel_init by blast
next
  case (step b w b' w')
  obtain c where c: "ub_priv b = Some c" "pool_ok (bus_no_dma (ub_streaming b)) c w"
    using step.IH by blast
  show ?case
    using step.hyps(2)
  proof (elim bus_stepE, goal_cases)
    case (1 d irqs handler hctx ret)
    obtain r c' w1 where s: "itedtv_usb_start_streaming irqs (ub_streaming b) handler hctx c w = (r, c', w1)"
      using prod_cases3 by blast
    have "b' = b\<lparr>ub_priv := Some c'\<rparr>" "w' = w1"
      using 1 step.IH c s by (auto simp: itedtv_bus_start_streaming_def)
    then show ?thesis
      using start_streaming_ok [OF c(2) _ refl s] 1(1,2) step.IH c(1) by simp
  next
    case (2 irqs ret)
    obtain r c' w1 where s: "itedtv_usb_stop_streaming irqs c w = (r, c', w1)"
      using prod_cases3 by blast
    have "b' = b\<lparr>ub_priv := Some c'\<rparr>" "w' = w1"
      using 2 step.IH c s by (auto simp: itedtv_bus_stop_streaming_def)
    then show ?thesis
      using stop_streaming_ok [OF c(2) s] step.IH by simp
  next
    case (3 d q)
    then show ?thesis
      using usb_irq_ok [OF c(2)] step.IH c(1) by auto
  qed
qed

section \<open>The stream's memory\<close>

text \<open>C38: Whatever allocations and submissions fail and whenever blocks complete, an initialised bus whose stream is
  started only while it is stopped, as the drivers do, makes no forbidden call: no buffer is freed twice, by the wrong function or under a transfer, no block is submitted
  twice, none calls a null handler. Every block in flight is allocated and writes to an allocated
  buffer; once the stream is stopped nothing is in flight.\<close>

theorem urb_pool_safe:
  assumes "bus_reachable b w"
  shows "k_faults w = [] \<and>
    (\<forall>i a. k_flying w i = Some a \<longrightarrow> i \<in> k_urbs w \<and> a \<in> dom (k_bufs w)) \<and>
    (\<exists>c. ub_priv b = Some c \<and> (uc_streaming c = 0 \<longrightarrow> k_flying w = Map.empty))"
proof -
  obtain c where c: "ub_priv b = Some c" "pool_ok (bus_no_dma (ub_streaming b)) c w"
    using reachable_pool_ok [OF assms] by blast
  have "i \<in> k_urbs w \<and> a \<in> dom (k_bufs w)" if f: "k_flying w i = Some a" for i a
  proof -
    obtain j u where u: "j < length (pool_works c)" "pool_works c ! j = Some u" "u_id u = i"
        "transfer_buffer u = Some a"
      using c(2) f unfolding pool_ok_def pool_live_def fly_in_def by blast
    have o: "pool_owns (urbs_of (pool_works c)) w"
      using c(2) by (simp add: pool_ok_def pool_live_def)
    show ?thesis
      using o pool_owns_buffer [OF o urbs_of_nth [OF u(1,2)] u(4)] urbs_of_nth [OF u(1,2)] u(3)
      by (auto simp: pool_owns_def allocated_def)
  qed
  then show ?thesis
    using c by (auto simp: pool_ok_def)
qed

text \<open>The end of the bus: everything is given back; what was allocated with the other kind is reported.\<close>

lemma bus_term_frees:
  assumes "bus_reachable b w" "itedtv_bus_term irqs (Some b) w = (ret, b', w')"
  shows "ret = 0 \<and> b' = Some zero_bus \<and> k_bufs w' = Map.empty \<and> k_urbs w' = {} \<and> k_flying w' = Map.empty \<and>
    k_objs w' = 0 \<and> k_dev_refs w' = 0 \<and>
    (\<exists>c. ub_priv b = Some c \<and> k_faults w' =
       (if bus_no_dma (ub_streaming b) then release_faults False (pool_works c) else []))"
proof -
  let ?nd = "bus_no_dma (ub_streaming b)"
  obtain c where c: "ub_priv b = Some c" "pool_ok ?nd c w" and b: "ub_type b = ITEDTV_BUS_USB" "ub_dev b \<noteq> None"
    using reachable_pool_ok [OF assms(1)] by blast
  obtain c1 w1 where s: "(if uc_streaming c \<noteq> 0 then snd (itedtv_usb_stop_streaming irqs c w) else (c, w)) = (c1, w1)"
    by fastforce
  obtain r2 c2 w2 where st: "itedtv_usb_stop_streaming irqs c w = (r2, c2, w2)"
    using prod_cases3 by blast
  have p1: "pool_ok ?nd c1 w1 \<and> k_flying w1 = Map.empty \<and> uc_works c1 = uc_works c"
    using s st stop_streaming_ok [OF c(2) st] c(2) by (auto simp: pool_ok_def split: if_splits)
  have nd1: "\<not> uc_no_dma c1"
    using s st stop_streaming_ok [OF c(2) st] c(2) by (auto simp: pool_ok_def split: if_splits)
  obtain c3 w3 where cl: "itedtv_usb_clean_context True c1 w1 = (c3, w3)" by fastforce
  have r1: "resting ?nd (pool_works c1) w1"
    using p1 pool_ok_resting by blast
  have k1: "k_objs w1 = (if uc_works c1 = None then 1 else 2)" "k_dev_refs w1 = 1" "k_faults w1 = []"
    using p1 by (auto simp: pool_ok_def)
  have pw: "pool_works c1 = pool_works c"
    using p1 by (simp add: pool_works_def)
  have k3: "pool_owns [] w3" "k_flying w3 = Map.empty" "k_objs w3 = 1" "k_dev_refs w3 = 1"
    "k_faults w3 = release_faults False (pool_works c)"
    using clean_free_works [OF r1 cl, of False] k1 nd1 pw by (auto simp: resting_def)
  have z: "\<not> ?nd \<Longrightarrow> release_faults False (pool_works c) = []"
    using r1 pw release_faults_same [of "pool_works c" False] by (simp add: resting_def)
  have e: "ret = 0" "b' = Some zero_bus" "w' = (free_object w3)\<lparr>k_dev_refs := k_dev_refs (free_object w3) - 1\<rparr>"
    using assms(2) b c(1) s cl by (auto simp: itedtv_bus_term_def Let_def)
  show ?thesis
    using k3 z c(1) by (auto simp: e free_object_def pool_owns_def allocated_def)
qed

text \<open>C39: A bus whose device did not ask for ordinary memory gives everything back when it is terminated, in
  any state it can reach: no buffer, block or structure and no reference to the device is left, nothing is in
  flight, and every buffer went back to the allocator it came from.\<close>

theorem urb_pool_released:
  assumes "bus_reachable b w" "\<not> bus_no_dma (ub_streaming b)"
    "itedtv_bus_term irqs (Some b) w = (ret, b', w')"
  shows "ret = 0 \<and> b' = Some zero_bus \<and> k_bufs w' = Map.empty \<and> k_urbs w' = {} \<and> k_flying w' = Map.empty \<and>
    k_objs w' = 0 \<and> k_dev_refs w' = 0 \<and> k_faults w' = []"
  using bus_term_frees [OF assms(1,3)] assms(2) by auto

text \<open>A stop leaves the pool for the next start.\<close>

lemma stop_keeps_pool:
  assumes "bus_reachable b w" "ub_priv b = Some c" "itedtv_bus_stop_streaming irqs (Some b) w = (ret, b', w')"
  obtains b1 c1 where "b' = Some b1" "bus_reachable b1 w'" "ub_priv b1 = Some c1" "uc_works c1 = uc_works c"
    "uc_streaming c1 = 0" "ub_streaming b1 = ub_streaming b"
proof -
  have ok: "ub_ops b" "pool_ok (bus_no_dma (ub_streaming b)) c w"
    using reachable_pool_ok [OF assms(1)] assms(2) by auto
  obtain r1 c1 w1 where s: "itedtv_usb_stop_streaming irqs c w = (r1, c1, w1)"
    using prod_cases3 by blast
  have e: "b' = Some (b\<lparr>ub_priv := Some c1\<rparr>)" "w' = w1"
    using assms(2,3) ok(1) s by (auto simp: itedtv_bus_stop_streaming_def)
  show thesis
    using that [OF e(1) bus_reachable.step [OF assms(1) bus_step.stop [OF assms(3) [unfolded e(1)]]]]
      stop_streaming_ok [OF ok(2) s] by simp
qed

text \<open>C40: With the module parameter \<^verbatim>\<open>no_dma\<close> the buffers are ordinary memory, but stopping the stream
  forgets it: terminating a bus that holds a pool of request blocks, with the stream still running or already
  stopped, hands every buffer of the pool to the function that frees coherent memory, and the pool has at
  least one. The pool is the one a successful start left; stopping the stream keeps it for the next start.\<close>

theorem urb_pool_no_dma_misfreed:
  assumes "bus_reachable b w" "bus_no_dma (ub_streaming b)" "ub_priv b = Some c" "uc_works c \<noteq> None"
    "itedtv_bus_term irqs (Some b) w = (ret, b', w')"
  shows "k_faults w' \<noteq> [] \<and>
    (\<forall>i u a. i < length (the (uc_works c)) \<and> the (uc_works c) ! i = Some u \<and> transfer_buffer u = Some a \<longrightarrow>
       Wrong_Free a \<in> set (k_faults w'))"
proof -
  have p: "pool_ok True c w"
    using reachable_pool_ok [OF assms(1)] assms(2,3) by auto
  then obtain ws where ws: "uc_works c = Some ws" "0 < uc_num_urb c" "uc_num_urb c \<le> length ws"
      "\<forall>i < uc_num_urb c. ws ! i \<noteq> None"
    using assms(4) by (auto simp: pool_ok_def)
  have f: "k_faults w' = release_faults False ws"
    using bus_term_frees [OF assms(1,5)] assms(2,3) ws(1) by (simp add: pool_works_def)
  have at: "\<forall>u \<in> set (urbs_of ws). at_rest True u"
    using p ws(1) by (simp add: pool_ok_def pool_works_def)
  have m: "Wrong_Free a \<in> set (k_faults w')"
    if "i < length ws" "ws ! i = Some u" "transfer_buffer u = Some a" for i u a
  proof -
    have u: "u \<in> set (urbs_of ws)"
      using urbs_of_nth that by blast
    then have "release_fault True u = [Wrong_Free a]"
      using at that(3) by (auto simp: release_fault_def at_rest_def)
    then show ?thesis
      using u unfolding f release_faults_def by force
  qed
  obtain u where u: "ws ! 0 = Some u" "0 < length ws"
    using ws(2-4) by force
  then have "transfer_buffer u \<noteq> None"
    using at urbs_of_nth [of 0 ws u] by (auto simp: at_rest_def)
  then show ?thesis
    using m u ws(1) by force
qed

section \<open>Witnesses\<close>

text \<open>A bus of two blocks of 188 bytes on a device that speaks USB 2.0.\<close>

definition urb_demo_bus :: "bool \<Rightarrow> itedtv_bus" where
  "urb_demo_bus nd = zero_bus\<lparr>ub_type := ITEDTV_BUS_USB, ub_dev := Some 0x0200,
     ub_streaming := \<lparr>urb_buffer_size = 188, urb_num = 2, bus_no_dma = nd\<rparr>\<rparr>"

definition urb_demo_kernel :: usb_kernel where
  "urb_demo_kernel = \<lparr>k_bufs = Map.empty, k_urbs = {}, k_flying = Map.empty, k_objs = 0, k_dev_refs = 0, k_next = 0,
     k_answer = (\<lambda>_. 0), k_asked = 0, k_faults = [], k_handled = []\<rparr>"

definition urb_demo_inited :: "bool \<Rightarrow> itedtv_bus" where
  "urb_demo_inited nd = (urb_demo_bus nd)\<lparr>ub_priv := Some new_usb_context, ub_max_bulk_size := 512, ub_ops := True\<rparr>"

definition urb_demo_pool :: "bool \<Rightarrow> usb_work list" where
  "urb_demo_pool nd = map (\<lambda>i. Some \<lparr>u_id = i, transfer_buffer = Some (Suc i), transfer_buffer_length = 188,
     transfer_dma_map = (\<not> nd)\<rparr>) [0, 2]"

definition urb_demo_context :: "bool \<Rightarrow> itedtv_usb_context" where
  "urb_demo_context nd = \<lparr>uc_handler = Some 7, uc_ctx = 0, uc_num_urb = 2, uc_no_dma = nd, uc_num_works = 2,
     uc_works = Some (urb_demo_pool nd), uc_streaming = 1\<rparr>"

definition urb_demo_filled :: "bool \<Rightarrow> usb_kernel" where
  "urb_demo_filled nd = urb_demo_kernel\<lparr>k_bufs := [1 \<mapsto> (\<not> nd, 188), 3 \<mapsto> (\<not> nd, 188)], k_urbs := {0, 2}, k_objs := 2,
     k_dev_refs := 1, k_next := 4, k_asked := 6\<rparr>"

definition urb_demo_started :: "bool \<Rightarrow> itedtv_bus \<times> usb_kernel" where
  "urb_demo_started nd = ((urb_demo_inited nd)\<lparr>ub_priv := Some (urb_demo_context nd)\<rparr>,
     (urb_demo_filled nd)\<lparr>k_flying := [0 \<mapsto> 1, 2 \<mapsto> 3], k_asked := 8\<rparr>)"

lemma urb_demo_init: "itedtv_bus_init (Some (urb_demo_bus nd)) urb_demo_kernel =
    (0, Some (urb_demo_inited nd), urb_demo_kernel\<lparr>k_objs := 1, k_dev_refs := 1, k_asked := 1\<rparr>)"
  by (simp add: itedtv_bus_init_def urb_demo_bus_def zero_bus_def urb_demo_kernel_def alloc_object_def ask_def
      urb_demo_inited_def)

lemma urb_demo_alloc: "alloc_urb_loop nd 188 [None, None]
    (urb_demo_kernel\<lparr>k_objs := 2, k_dev_refs := 1, k_asked := 2\<rparr>) = (2, urb_demo_pool nd, urb_demo_filled nd)"
  by (cases nd) (simp_all add: alloc_urb_buffer_def usb_alloc_urb_def alloc_buffer_def usb_fill_bulk_urb_def ask_def
      urb_demo_kernel_def urb_demo_pool_def urb_demo_filled_def Let_def insert_commute numeral_2_eq_2 numeral_3_eq_3)

lemma urb_demo_submit: "submit_loop (\<lambda>_. []) (urb_demo_context nd) 0 2 (urb_demo_filled nd) =
    (0, snd (urb_demo_started nd))"
proof -
  have "submit_loop (\<lambda>_. []) (urb_demo_context nd) 0 (Suc (Suc 0)) (urb_demo_filled nd) = (0, snd (urb_demo_started nd))"
    by (simp add: with_work_def usb_irqs_def urb_demo_context_def urb_demo_pool_def usb_submit_urb_def submit_allowed_def
        fault_if_def ask_def urb_demo_filled_def urb_demo_kernel_def urb_demo_started_def)
  then show ?thesis by (simp add: numeral_2_eq_2)
qed

lemma urb_demo_start: "itedtv_bus_start_streaming (\<lambda>_. []) (Some 7) 0 (Some (urb_demo_inited nd))
    (urb_demo_kernel\<lparr>k_objs := 1, k_dev_refs := 1, k_asked := 1\<rparr>) =
    (0, Some (fst (urb_demo_started nd)), snd (urb_demo_started nd))"
proof -
  let ?s = "ub_streaming (urb_demo_inited nd)"
  let ?c = "new_usb_context\<lparr>uc_handler := Some 7, uc_ctx := 0, uc_no_dma := bus_no_dma ?s\<rparr>"
  let ?c1 = "(urb_demo_context nd)\<lparr>uc_works := Some [None, None], uc_num_urb := 0, uc_streaming := 0\<rparr>"
  have s: "urb_buffer_size ?s = 188" "bus_no_dma ?s = nd"
    by (simp_all add: urb_demo_inited_def urb_demo_bus_def)
  have two: "replicate 2 None = [None, None :: usb_work]"
    by (simp add: numeral_2_eq_2)
  have w: "start_works ?s ?c (urb_demo_kernel\<lparr>k_objs := 1, k_dev_refs := 1, k_asked := 1\<rparr>) =
      (True, ?c1, urb_demo_kernel\<lparr>k_objs := 2, k_dev_refs := 1, k_asked := 2\<rparr>)"
    by (simp add: start_works_def alloc_object_def ask_def urb_demo_inited_def urb_demo_bus_def new_usb_context_def
        urb_demo_context_def urb_demo_kernel_def two)
  have a: "itedtv_usb_alloc_urb_buffers 188 ?c1 (urb_demo_kernel\<lparr>k_objs := 2, k_dev_refs := 1, k_asked := 2\<rparr>) =
      (0, (urb_demo_context nd)\<lparr>uc_streaming := 0\<rparr>, urb_demo_filled nd)"
    using urb_demo_alloc [of nd] by (simp add: itedtv_usb_alloc_urb_buffers_def urb_demo_context_def)
  have c: "urb_demo_context nd\<lparr>uc_streaming := 1\<rparr> = urb_demo_context nd" "uc_num_urb (urb_demo_context nd) = 2"
    by (simp_all add: urb_demo_context_def)
  have "itedtv_usb_start_streaming (\<lambda>_. []) ?s (Some 7) 0 new_usb_context
      (urb_demo_kernel\<lparr>k_objs := 1, k_dev_refs := 1, k_asked := 1\<rparr>) = (0, urb_demo_context nd, snd (urb_demo_started nd))"
    unfolding start_streaming_steps w by (simp add: s a c urb_demo_submit)
  then show ?thesis
    by (simp add: itedtv_bus_start_streaming_def urb_demo_started_def urb_demo_inited_def)
qed

lemma urb_demo_reachable: "bus_reachable (fst (urb_demo_started nd)) (snd (urb_demo_started nd))"
proof -
  have r: "bus_reachable (urb_demo_inited nd) (urb_demo_kernel\<lparr>k_objs := 1, k_dev_refs := 1, k_asked := 1\<rparr>)"
    by (rule bus_reachable.init [OF _ urb_demo_init]) (simp add: idle_kernel_def urb_demo_kernel_def)
  have c: "ub_priv (urb_demo_inited nd) = Some new_usb_context" "uc_streaming new_usb_context = 0"
    by (simp_all add: urb_demo_inited_def new_usb_context_def)
  show ?thesis
    by (rule bus_reachable.step [OF r bus_step.start [OF c urb_demo_start]])
qed

lemma urb_demo_started_facts:
  "ub_priv (fst (urb_demo_started nd)) = Some (urb_demo_context nd)" "uc_streaming (urb_demo_context nd) = 1"
  "bus_no_dma (ub_streaming (fst (urb_demo_started nd))) = nd"
  "k_flying (snd (urb_demo_started nd)) = [0 \<mapsto> 1, 2 \<mapsto> 3]"
  by (simp_all add: urb_demo_started_def urb_demo_inited_def urb_demo_bus_def urb_demo_context_def)

theorem urb_pool_safe_witness:
  "k_faults (snd (urb_demo_started False)) = [] \<and> {1, 3} \<subseteq> dom (k_bufs (snd (urb_demo_started False)))"
proof -
  note t = urb_pool_safe [OF urb_demo_reachable [of False]]
  have "k_flying (snd (urb_demo_started False)) 0 = Some 1" "k_flying (snd (urb_demo_started False)) 2 = Some 3"
    by (simp_all add: urb_demo_started_facts(4))
  then show ?thesis
    using t by blast
qed

theorem urb_pool_released_witness:
  "k_bufs (snd (snd (itedtv_bus_term (\<lambda>_. [(0, 0, 188)]) (Some (fst (urb_demo_started False)))
     (snd (urb_demo_started False))))) = Map.empty"
proof -
  obtain r b w where t: "itedtv_bus_term (\<lambda>_. [(0, 0, 188)]) (Some (fst (urb_demo_started False)))
      (snd (urb_demo_started False)) = (r, b, w)"
    using prod_cases3 by blast
  show ?thesis
    using urb_pool_released [OF urb_demo_reachable _ t] by (simp add: t urb_demo_started_facts(3))
qed

theorem urb_pool_no_dma_misfreed_witness:
  "let (ret, b, w) = itedtv_bus_stop_streaming (\<lambda>_. []) (Some (fst (urb_demo_started True))) (snd (urb_demo_started True))
   in k_faults (snd (snd (itedtv_bus_term (\<lambda>_. []) b w))) \<noteq> []"
proof -
  obtain r b w where s: "itedtv_bus_stop_streaming (\<lambda>_. []) (Some (fst (urb_demo_started True)))
      (snd (urb_demo_started True)) = (r, b, w)"
    using prod_cases3 by blast
  obtain b1 c1 where b1: "b = Some b1" "bus_reachable b1 w" "ub_priv b1 = Some c1"
      "uc_works c1 = uc_works (urb_demo_context True)" "ub_streaming b1 = ub_streaming (fst (urb_demo_started True))"
    using stop_keeps_pool [OF urb_demo_reachable urb_demo_started_facts(1) s] by metis
  obtain r2 b2 w2 where t: "itedtv_bus_term (\<lambda>_. []) (Some b1) w = (r2, b2, w2)"
    using prod_cases3 by blast
  have "bus_no_dma (ub_streaming b1)" "uc_works c1 \<noteq> None"
    using b1(4,5) urb_demo_started_facts(3) [of True] by (simp_all add: urb_demo_context_def)
  then show ?thesis
    using urb_pool_no_dma_misfreed [OF b1(2) _ b1(3) _ t] by (simp add: s b1(1) t)
qed

end
