(* ===== verification/Spec2Isabelle.thy ===== *)
theory Spec2Isabelle
  imports Tsmf_Props Ringbuffer_Props Ringbuffer_Conc Px4_Mldev Ptx_Props Chrdev_Context_Props It930x_Props
    Tc90522_Props Rt710_Props R850_Safe Device_Stream_Props Px4_Card_Props
    Px4_Device_Props Cxd_Props Isdb_Props Pxmlt_Props Urb_Pool_Props
begin

text \<open>
  A verification development for px4\_drv, the Linux driver for the ISDB-T/ISDB-S tuners of PLEX
  (PX4, PX5, PX-MLT series) and e-Better. The C code is under src/driver.

  \<^bold>\<open>The program.\<close> A board is a USB device with an ITE IT930x bridge. Behind the bridge's I2C bus are
  demodulators (TC90522, CXD2856ER) and, reached through them, tuners (RT710, R850, CXD2858ER); the bridge multiplexes
  the transport streams of up to five receivers into one USB stream, controls the power of the board
  through its GPIO pins, and has a UART for a smart card. Each receiver is a character device with a
  ring buffer between the USB completion handler and read(2). Two boards in one housing share a power
  manager. The card reader is a device file of its own.

  \<^bold>\<open>The theories, from the stream of packets down to the chips.\<close>

  \<^item> Prelude: C integers as words, error codes, byte arrays, the collections of simplification rules.
    Call\_Seq: the convention \<^verbatim>\<open>ret = f(); if (ret) return ret;\<close> as \<open>run_all\<close>, and the I2C
    requests of i2c\_comm.h.

  \<^item> Tsmf, Tsmf\_Crc, Tsmf\_Props (tsmf.c): the filter that picks one stream out of an ISDB-C carrier with 52
    slots per frame. \<open>tsmf_filter_packet\<close> is the whole function. Proved: its arrays never overflow, a
    complete frame yields exactly the packets of the chosen stream, an incomplete one nothing, a
    damaged header is refused (the CRC detects every one-byte change), a carrier without headers is
    recognised after exactly 424 packets, TLV packets are reassembled.

  \<^item> Ringbuffer, Ringbuffer\_Props, Ringbuffer\_Conc (ringbuffer.c): each operation refines a bounded byte queue
    (locale \<open>byte_queue\<close>), copies to user space that fail included; a second model, \<open>rb_step\<close>,
    interleaves one reader and one writer at the level of single byte copies and counter updates. Either of them alone
    does in it what \<open>ringbuffer_read_user\<close> and \<open>ringbuffer_write_atomic\<close> do.

  \<^item> Ptx\_Chrdev, Ptx\_Ioctl, Ptx\_Props (ptx\_chrdev.c): one receiver. The operations of the board behind it
    are function pointers and so a parameter (\<open>ptx_ops\<close>); the clock and sleeping are the parameter
    \<open>kernel\<close>. Proved: read(2) delivers without gaps, tuning returns and restores the user's choice,
    streaming and ring buffer states agree, channel numbers of an unspecified system.

  \<^item> Minor\_Table, Chrdev\_Context, Chrdev\_Context\_Props (ptx\_chrdev.c): the tables of contexts, groups and minor
    numbers with reference counts, through plugging and unplugging with files open.

  \<^item> Px4\_Mldev (px4\_mldev.c): the power manager of two boards in one housing; the power switch is the parameter
    \<open>power_backend\<close>, whose calls are recorded in \<open>plog\<close>.

  \<^item> It930x, It930x\_Props, It930x\_I2c (it930x.c, the control transfers of itedtv\_bus.c): messages with checksum and
    sequence number, registers, I2C master, firmware loader, GPIO, PID filter, card UART. The USB device is the
    parameter \<open>usb_bus\<close>: any function from the bytes sent to an answer. \<open>clog\<close> records the messages and
    \<open>ub\<close> whether the code has read outside a buffer; both exist for the specification only.

  \<^item> Urb\_Pool, Urb\_Pool\_Props (the streaming path of itedtv\_bus.c): the request blocks and buffers of a stream, submitted,
    completed, killed and freed over a state of the allocator and the USB core; \<open>bus_step\<close> is the life of an initialised
    bus, with any allocation or submission failing and completions between the passes of the loops. Proved: no
    buffer is freed under a transfer, nothing is left after the end, and which buffers go to the wrong allocator.

  \<^item> I2c\_Bus (locale \<open>i2c_master\<close>), Tc90522, Tc90522\_Props (tc90522.c): the demodulator as client of any
    I2C master and as the master of the tuner behind it; the locale \<open>tc90522_on_bus\<close> with a sublocale for the tuner's
    bus is interpreted on the bridge.

  \<^item> Rt710, Rt710\_Props (rt710.c): the satellite tuner; the accuracy of its synthesizer in integer arithmetic.

  \<^item> R850\_Tables, R850, R850\_Keeps, R850\_Props, R850\_Safe (r850.c): the terrestrial tuner with its parameter tables, its two
    calibrations and the copy of its registers; a line of C that changes a register is one \<open>reg_op\<close>. Proved: the synthesizer is
    accurate, and no sequence of calls divides by zero or leaves the tables, whatever the chip measures. What the register
    traffic leaves alone is proved once, in the locales \<open>r850_keeps\<close>, \<open>r850_keeps_sys\<close> and \<open>r850_keeps_all\<close>.

  \<^item> Device\_Stream, Device\_Stream\_Props (px4\_device.c, pxmlt\_device.c, isdb2056\_device.c, isdbt2071\_device.c,
    ts\_sync.h): from USB buffers to receivers. The locales \<open>ts_splitter\<close>, \<open>ts_buffering\<close> and \<open>ts_bounded\<close> say what a
    handler needs of the function that splits a buffer; both functions of the code satisfy them. Proved: a
    stream in sync is demultiplexed exactly, however the transfers cut it; no input overflows the leftover buffer.

  \<^item> Px4\_Card, Px4\_Card\_Props (px4\_card.c, the power functions of px4\_device.c): the card readers as a system of
    objects, lists and open files, with calls of open and unregister interrupted between their two mutexes. Proved: names, minor
    numbers and reference counts are exact; the reader and the board agree about the power (locale \<open>card_power\<close>, interpreted
    on \<^verbatim>\<open>px4_device_set_card_power\<close>).

  \<^item> Px4\_Device, Px4\_Init (px4\_device.c): the boards with two satellite and two terrestrial receivers. A call of a chip driver
    takes the bridge as the state of its bus and puts it back. Bus\_Client: what every request of a bus keeps, every function of
    the chip drivers keeps (locales \<open>bus_invariant\<close> and \<open>bus_demod\<close>, with sublocales for the tuner behind a demodulator).
    Px4\_Quiet interprets it on the bridge's pins: chip traffic changes neither a pin nor the device. Px4\_Device\_Inv is the life of
    a board as the step relation \<open>px4_step\<close>; Px4\_Device\_Power and Px4\_Device\_Props: the counters are exact, whoever uses the
    board has power and initialised tuners, the serial number. Px4\_Tune: a terrestrial receiver tuned successfully has
    its synthesizer at the frequency asked for.

  \<^item> Cxd2856er, Cxd2858er (cxd2856er.c, cxd2858er.c): the Sony demodulator and tuner of the PX-MLT boards. What a function
    writes is a list of accesses in the order of the code; what a driver remembers between calls is a
    record beside the constant part of the chip. Cxd\_Props: the settings of a cable system are put back before
    another system starts, a satellite tuning sets the synthesizer (locales \<open>cxd2856er_on_bus\<close> and
    \<open>cxd2858er_on_bus\<close>, interpreted on the bridge). Cxd\_Client: both drivers keep what the bus keeps.

  \<^item> Pxmlt\_Cnr, Pxmlt\_Device, Pxmlt\_Props (pxmlt\_device.c): the boards with up to five receivers for every system. The
    conversion of the signal quality searches three tables (locale \<open>cn_table\<close>) and finds what a
    scan would. The life of a board is \<open>pxmlt_run\<close>: steps of its receivers and card reader, and unplugging once, which
    is \<open>pxmlt_device_term\<close> with its reference. Proved: whoever uses the board has power.

  \<^item> Isdb\_Device, Isdb\_Props (isdbt2071\_device.c, isdb2056\_device.c): the boards with a single receiver; what the two
    drivers have in common is written once, over the record the second extends. The locale \<open>receiver_power\<close> says what an
    operation table owes to the supply of the board; the three tables are interpretations of it. The life of a board is
    \<open>receiver_run\<close>, unplugging (\<open>isdb_device_term\<close>) included.

  \<^bold>\<open>Loops and fuel.\<close> All loops are total functions with a termination proof, with these exceptions.
  The wait for a TSMF header (\<^verbatim>\<open>ptx_chrdev_tune\<close>) has fuel: one unit per sleep of at least one tick,
  and three seconds of ticks are proved to be enough. The firmware loader has fuel: one more than the number
  of blocks is proved to be enough for a well-formed image, and no fuel is enough for an image with an
  empty block. The search for a free card name ends because only finitely many names are taken.

  \<^bold>\<open>Findings.\<close> Where the code does not do what it means to, the theorem states what it does: the head of the ring buffer
  after a failed wrapped read, the power of a board whose partner fails, the system kept after a failed stream
  id, the payload of 250 bytes, the empty firmware block, the lost bits of the satellite signal quality
  and of high terrestrial frequencies, the stream buffers freed by the wrong function. The others are in the manifest.

  \<^bold>\<open>Not modelled.\<close> Mutexes are not objects of the model: what runs under one is one step. A completion handler
  of the USB stream is one step too; the pool of request blocks and the stream handlers it calls are modelled apart, joined by
  the sequence of buffers the handlers get. Sleeping has no effect on a chip. The initialisation of the four kinds of boards is
  modelled up to the registration of the receivers; the registrations are modelled with the context and the card readers
  and not composed with it. px4\_usb.c and the module parameters are registration with the kernel. fwtool, pcsc and winusb are other programs beside the driver.
\<close>

end
